(* ===== verification/Prelude.thy ===== *)
theory Prelude
  imports Main "HOL-Library.Monad_Syntax" "HOL-Library.Word"
begin

text \<open>
  Shared vocabulary of the development.

  A Rust computation that may panic (\<open>fatal_error!\<close>, \<open>unwrap\<close>, \<open>expect\<close>, an index out of
  range, a checked integer operation) is a value of type \<open>'a run\<close>: \<open>None\<close> is the panic (both
  profiles of the workspace set \<open>panic = 'abort'\<close>, so the process ends there) and \<open>Some v\<close> a
  normal return. A Rust \<open>Result<T, E>\<close> is \<open>E + T\<close>, a Rust \<open>Option<T>\<close> is \<open>T option\<close>; so a
  function that may panic and returns an \<open>Option\<close> has type \<open>T option run\<close>.

  Unsigned integers are natural numbers. Where the code subtracts or adds on a machine integer
  and the result can leave the range, the operation is written with the build profile: the
  debug profile panics, the release profile (no \<open>overflow-checks\<close> in \<open>Cargo.toml\<close>) wraps.
\<close>

type_synonym 'a run = "'a option"

datatype profile = Debug | Release

definition u32_sub :: "profile \<Rightarrow> nat \<Rightarrow> nat \<Rightarrow> nat run" where
  "u32_sub p a b =
     (if b \<le> a then Some (a - b)
      else case p of Debug \<Rightarrow> None | Release \<Rightarrow> Some (a + 2 ^ 32 - b))"

definition u32_add :: "profile \<Rightarrow> nat \<Rightarrow> nat \<Rightarrow> nat run" where
  "u32_add p a b =
     (if a + b < 2 ^ 32 then Some (a + b)
      else case p of Debug \<Rightarrow> None | Release \<Rightarrow> Some ((a + b) mod 2 ^ 32))"

definition usize_sub :: "profile \<Rightarrow> nat \<Rightarrow> nat \<Rightarrow> nat run" where
  "usize_sub p a b =
     (if b \<le> a then Some (a - b)
      else case p of Debug \<Rightarrow> None | Release \<Rightarrow> Some (a + 2 ^ 64 - b))"

text \<open>On the 64-bit targets \<open>usize\<close> and \<open>u64\<close> have the same width, and \<open>isize\<close> the signed one.\<close>

definition u64_add :: "profile \<Rightarrow> nat \<Rightarrow> nat \<Rightarrow> nat run" where
  "u64_add p a b =
     (if a + b < 2 ^ 64 then Some (a + b)
      else case p of Debug \<Rightarrow> None | Release \<Rightarrow> Some ((a + b) mod 2 ^ 64))"

definition usize_mul :: "profile \<Rightarrow> nat \<Rightarrow> nat \<Rightarrow> nat run" where
  "usize_mul p a b =
     (if a * b < 2 ^ 64 then Some (a * b)
      else case p of Debug \<Rightarrow> None | Release \<Rightarrow> Some ((a * b) mod 2 ^ 64))"

text \<open>The result of an operation on \<open>isize\<close>, from its value on integers.\<close>

definition isize :: "profile \<Rightarrow> int \<Rightarrow> int run" where
  "isize p i =
     (if - (2 ^ 63) \<le> i \<and> i < 2 ^ 63 then Some i
      else case p of Debug \<Rightarrow> None | Release \<Rightarrow> Some ((i + 2 ^ 63) mod 2 ^ 64 - 2 ^ 63))"

text \<open>The cast \<open>n as u32\<close> of a \<open>usize\<close> keeps the low 32 bits.\<close>

definition as_u32 :: "nat \<Rightarrow> nat" where
  "as_u32 n = n mod 2 ^ 32"

lemma u32_sub_ge [simp]: "b \<le> a \<Longrightarrow> u32_sub p a b = Some (a - b)"
  by (simp add: u32_sub_def)

lemma u32_add_small [simp]: "a + b < 4294967296 \<Longrightarrow> u32_add p a b = Some (a + b)"
  by (simp add: u32_add_def)

lemma usize_sub_ge [simp]: "b \<le> a \<Longrightarrow> usize_sub p a b = Some (a - b)"
  by (simp add: usize_sub_def)

lemma u64_add_small [simp]: "a + b < 18446744073709551616 \<Longrightarrow> u64_add p a b = Some (a + b)"
  by (simp add: u64_add_def)

lemma isize_small [simp]:
  "- 9223372036854775808 \<le> i \<Longrightarrow> i < 9223372036854775808 \<Longrightarrow> isize p i = Some i"
  by (simp add: isize_def)

lemma as_u32_small [simp]: "n < 4294967296 \<Longrightarrow> as_u32 n = n"
  by (simp add: as_u32_def)

text \<open>The operator \<open>?\<close> on a result: an error returns early.\<close>

definition try_then :: "('e + 'a) run \<Rightarrow> ('a \<Rightarrow> ('e + 'b) run) \<Rightarrow> ('e + 'b) run" where
  "try_then m f = do { r \<leftarrow> m; (case r of Inl e \<Rightarrow> Some (Inl e) | Inr v \<Rightarrow> f v) }"

lemma try_then_simps [simp]:
  "try_then None f = None"
  "try_then (Some (Inl e)) f = Some (Inl e)"
  "try_then (Some (Inr v)) f = f v"
  by (simp_all add: try_then_def)

lemma try_then_returns:
  "try_then m f = Some (Inr w) \<longleftrightarrow> (\<exists>v. m = Some (Inr v) \<and> f v = Some (Inr w))"
  by (auto simp: try_then_def split: bind_splits sum.splits)

lemma try_then_panics: "(\<And>e. m \<noteq> Some (Inl e)) \<Longrightarrow> (\<And>v. f v = None) \<Longrightarrow> try_then m f = None"
  by (auto simp: try_then_def split: bind_splits sum.splits)

text \<open>
  A function that updates a state \<open>s\<close> through \<open>&mut\<close> and returns a \<open>Result\<close>: an early return
  keeps the updates made so far.
\<close>

definition and_then ::
  "(('e + 'a) \<times> 's) run \<Rightarrow> ('a \<Rightarrow> 's \<Rightarrow> (('e + 'b) \<times> 's) run) \<Rightarrow> (('e + 'b) \<times> 's) run" where
  "and_then m f = do { (r, s) \<leftarrow> m; (case r of Inl e \<Rightarrow> Some (Inl e, s) | Inr v \<Rightarrow> f v s) }"

fun fold_res :: "('a \<Rightarrow> 's \<Rightarrow> (('e + unit) \<times> 's) run) \<Rightarrow> 'a list \<Rightarrow> 's \<Rightarrow> (('e + unit) \<times> 's) run" where
  "fold_res f [] s = Some (Inr (), s)"
| "fold_res f (x # xs) s = and_then (f x s) (\<lambda>_. fold_res f xs)"

lemma and_then_simps [simp]:
  "and_then None f = None"
  "and_then (Some (Inl e, s)) f = Some (Inl e, s)"
  "and_then (Some (Inr v, s)) f = f v s"
  by (simp_all add: and_then_def)

lemma and_then_cases:
  assumes "and_then m f = Some (r, s')"
  obtains e s where "m = Some (Inl e, s)" "r = Inl e" "s' = s"
  | v s where "m = Some (Inr v, s)" "f v s = Some (r, s')"
  using assms by (auto simp: and_then_def split: bind_splits sum.splits)

lemma and_then_preserves:
  assumes "and_then m f = Some (r, s')" "\<And>r s. m = Some (r, s) \<Longrightarrow> P s"
    and "\<And>v s r s'. P s \<Longrightarrow> f v s = Some (r, s') \<Longrightarrow> P s'"
  shows "P s'"
  using assms(1) by (cases rule: and_then_cases) (use assms(2,3) in auto)

lemma fold_res_preserves:
  assumes "fold_res f xs s = Some (r, s')" "P s"
    and "\<And>x s r s'. x \<in> set xs \<Longrightarrow> P s \<Longrightarrow> f x s = Some (r, s') \<Longrightarrow> P s'"
  shows "P s'"
  using assms
proof (induction xs arbitrary: s)
  case (Cons x xs)
  from Cons.prems(1) have "and_then (f x s) (\<lambda>_. fold_res f xs) = Some (r, s')" by simp
  then show ?case
  proof (cases rule: and_then_cases)
    case (1 e t)
    then show ?thesis using Cons.prems(3)[OF _ Cons.prems(2) 1(1)] by simp
  next
    case (2 v t)
    have "P t" by (rule Cons.prems(3)[OF _ Cons.prems(2) 2(1)]) simp
    then show ?thesis using 2(2) Cons.prems(3) by (intro Cons.IH[of t]) auto
  qed
qed simp

subsection \<open>Iteration over hash sets\<close>

text \<open>
  The standard library iterates a \<open>HashSet\<close> or \<open>HashMap\<close> in an order it does not specify. A
  definition that iterates one takes the order as an argument \<open>it\<close>; the documented behaviour is
  that every element is visited exactly once.
\<close>

definition iterates :: "('a set \<Rightarrow> 'a list) \<Rightarrow> bool" where
  "iterates it \<longleftrightarrow> (\<forall>S. finite S \<longrightarrow> set (it S) = S \<and> distinct (it S))"

lemma iterates_set: "iterates it \<Longrightarrow> finite S \<Longrightarrow> set (it S) = S"
  by (simp add: iterates_def)

lemma iterates_distinct: "iterates it \<Longrightarrow> finite S \<Longrightarrow> distinct (it S)"
  by (simp add: iterates_def)

lemma iterates_length: "iterates it \<Longrightarrow> finite S \<Longrightarrow> length (it S) = card S"
  by (metis distinct_card iterates_def)

lemma iterates_sorted_list_of_set: "iterates (sorted_list_of_set :: ('a::linorder) set \<Rightarrow> 'a list)"
  by (simp add: iterates_def)

lemma iterates_exists: "\<exists>it. iterates it"
proof -
  have "\<forall>S. \<exists>xs. finite S \<longrightarrow> set xs = S \<and> distinct xs" using finite_distinct_list by blast
  then show ?thesis unfolding iterates_def by (rule choice)
qed

lemma iterates_singleton [simp]: "iterates it \<Longrightarrow> it {x} = [x]"
  using iterates_set[of it "{x}"] iterates_length[of it "{x}"] by (cases "it {x}") auto

subsection \<open>Lists\<close>

text \<open>\<open>Vec::get\<close>, and an index that must be in range.\<close>

definition vec_get :: "'a list \<Rightarrow> nat \<Rightarrow> 'a option" where
  "vec_get xs i = (if i < length xs then Some (xs ! i) else None)"

lemma list_update_same_id [simp]: "i < length xs \<Longrightarrow> xs ! i = y \<Longrightarrow> xs[i := y] = xs"
  by auto

lemma nth_list_update_cases:
  "i < length xs \<Longrightarrow> xs[i := y] ! j = (if i = j then y else xs ! j)"
  by auto

text \<open>The indices of a list whose element satisfies a predicate, in ascending order.\<close>

definition indices_where :: "('a \<Rightarrow> bool) \<Rightarrow> 'a list \<Rightarrow> nat list" where
  "indices_where P xs = filter (\<lambda>i. P (xs ! i)) [0..<length xs]"

lemma set_indices_where [simp]: "set (indices_where P xs) = {i. i < length xs \<and> P (xs ! i)}"
  by (auto simp: indices_where_def)

lemma distinct_indices_where [simp]: "distinct (indices_where P xs)"
  by (simp add: indices_where_def)

lemma sorted_indices_where [simp]: "sorted (indices_where P xs)"
  by (simp add: indices_where_def sorted_wrt_filter)

subsection \<open>Loops that may panic\<close>

text \<open>A \<open>for\<close> loop over a list whose body updates the state \<open>s\<close> and may panic.\<close>

fun fold_run :: "('a \<Rightarrow> 's \<Rightarrow> 's run) \<Rightarrow> 'a list \<Rightarrow> 's \<Rightarrow> 's run" where
  "fold_run f [] s = Some s"
| "fold_run f (x # xs) s = do { s \<leftarrow> f x s; fold_run f xs s }"

text \<open>A \<open>map\<close> and \<open>collect\<close> over a list whose function may panic.\<close>

fun map_run :: "('a \<Rightarrow> 'b run) \<Rightarrow> 'a list \<Rightarrow> 'b list run" where
  "map_run f [] = Some []"
| "map_run f (x # xs) = do { y \<leftarrow> f x; ys \<leftarrow> map_run f xs; Some (y # ys) }"

lemma fold_run_append:
  "fold_run f (xs @ ys) s = do { s \<leftarrow> fold_run f xs s; fold_run f ys s }"
  by (induction xs arbitrary: s) (auto split: bind_splits)

lemma fold_run_snoc: "fold_run f (xs @ [x]) s = fold_run f xs s \<bind> f x"
  by (induction xs arbitrary: s) (auto split: bind_splits)

lemma fold_run_total:
  assumes "\<And>x s. x \<in> set xs \<Longrightarrow> f x s = Some (g x s)"
  shows "fold_run f xs s = Some (fold g xs s)"
  using assms by (induction xs arbitrary: s) auto

text \<open>
  An invariant that also names the elements visited so far: when the body returns and keeps it,
  the loop returns and ends with all elements visited.
\<close>

lemma fold_run_invariant:
  assumes "I A s"
    and "\<And>A x s. I A s \<Longrightarrow> x \<in> set xs \<Longrightarrow> \<exists>s'. f x s = Some s' \<and> I (insert x A) s'"
  shows "\<exists>s'. fold_run f xs s = Some s' \<and> I (A \<union> set xs) s'"
  using assms
proof (induction xs arbitrary: A s)
  case (Cons x xs)
  then obtain s1 where s1: "f x s = Some s1" "I (insert x A) s1" by fastforce
  then have "\<exists>s'. fold_run f xs s1 = Some s' \<and> I (insert x A \<union> set xs) s'"
    using Cons.prems(2) by (intro Cons.IH) auto
  then show ?case using s1 by simp
qed simp

lemma fold_run_invariant_distinct:
  assumes "I A s" "distinct xs" "A \<inter> set xs = {}"
    and "\<And>A x s. I A s \<Longrightarrow> x \<in> set xs \<Longrightarrow> x \<notin> A \<Longrightarrow> \<exists>s'. f x s = Some s' \<and> I (insert x A) s'"
  shows "\<exists>s'. fold_run f xs s = Some s' \<and> I (A \<union> set xs) s'"
  using assms
proof (induction xs arbitrary: A s)
  case (Cons x xs)
  have "x \<in> set (x # xs)" "x \<notin> A" using Cons.prems(3) by auto
  from Cons.prems(4)[OF Cons.prems(1) this] obtain s1
    where s1: "f x s = Some s1" "I (insert x A) s1" by blast
  have "\<exists>s'. fold_run f xs s1 = Some s' \<and> I (insert x A \<union> set xs) s'"
  proof (rule Cons.IH[OF s1(2)])
    show "distinct xs" "insert x A \<inter> set xs = {}" using Cons.prems(2,3) by auto
  qed (rule Cons.prems(4), auto)
  then show ?case using s1 by simp
qed simp

lemma fold_run_preserves:
  assumes "fold_run f xs s = Some s'" "P s"
    and "\<And>x s s'. x \<in> set xs \<Longrightarrow> P s \<Longrightarrow> f x s = Some s' \<Longrightarrow> P s'"
  shows "P s'"
  using assms
proof (induction xs arbitrary: s)
  case (Cons x xs)
  then obtain s1 where s1: "f x s = Some s1" "fold_run f xs s1 = Some s'"
    by (auto split: bind_splits)
  have "P s1" by (rule Cons.prems(3)[OF _ Cons.prems(2) s1(1)]) simp
  then show ?case by (rule Cons.IH[OF s1(2)]) (rule Cons.prems(3), auto)
qed simp

lemma fold_run_panics:
  assumes "x \<in> set xs" "\<And>s. f x s = None"
  shows "fold_run f xs s = None"
  using assms by (induction xs arbitrary: s) (auto split: bind_splits)

text \<open>An invariant that names the elements visited, of a loop that returns.\<close>

lemma fold_run_visits:
  assumes "fold_run f xs s = Some s'" "I A s"
    and "\<And>A x s s'. x \<in> set xs \<Longrightarrow> I A s \<Longrightarrow> f x s = Some s' \<Longrightarrow> I (insert x A) s'"
  shows "I (A \<union> set xs) s'"
  using assms
proof (induction xs arbitrary: A s)
  case (Cons x xs)
  then obtain s1 where s1: "f x s = Some s1" "fold_run f xs s1 = Some s'"
    by (auto split: bind_splits)
  have "I (insert x A) s1" by (rule Cons.prems(3)[OF _ Cons.prems(2) s1(1)]) simp
  then have "I (insert x A \<union> set xs) s'" by (rule Cons.IH[OF s1(2)]) (rule Cons.prems(3), auto)
  then show ?case by simp
qed simp

lemma map_run_total: "(\<And>x. x \<in> set xs \<Longrightarrow> f x = Some (g x)) \<Longrightarrow> map_run f xs = Some (map g xs)"
  by (induction xs) auto

lemma map_run_append:
  "map_run f (xs @ ys) = do { us \<leftarrow> map_run f xs; vs \<leftarrow> map_run f ys; Some (us @ vs) }"
  by (induction xs) (auto split: bind_splits)

lemma map_run_snoc:
  "map_run f (xs @ [x]) = do { ys \<leftarrow> map_run f xs; y \<leftarrow> f x; Some (ys @ [y]) }"
  by (induction xs) (auto split: bind_splits)

lemma map_run_cong [fundef_cong]:
  "xs = ys \<Longrightarrow> (\<And>x. x \<in> set ys \<Longrightarrow> f x = g x) \<Longrightarrow> map_run f xs = map_run g ys"
  by (induction ys arbitrary: xs) auto

lemma map_run_length: "map_run f xs = Some ys \<Longrightarrow> length ys = length xs"
  by (induction xs arbitrary: ys) (auto split: bind_splits)

lemma map_run_nth:
  "map_run f xs = Some ys \<Longrightarrow> i < length xs \<Longrightarrow> f (xs ! i) = Some (ys ! i)"
  by (induction xs arbitrary: ys i) (auto split: bind_splits simp: nth_Cons split: nat.splits)

end
