(* ===== verification/Wot_Interface.thy ===== *)
theory Wot_Interface
  imports Prelude
begin

text \<open>
  The trait \<open>WebOfTrust\<close> of \<open>lib/tools/wot/data/mod.rs\<close>: its result types, the trait as a
  record of operations (a generic \<open>T: WebOfTrust\<close> is a value of the record), and the contract
  its clients rely on as two locales. \<open>wot_graph\<close> is the read-only part, used by the distance
  and path computations; \<open>web_of_trust\<close> adds the operations that change the graph, used by the
  file format and by block application.
\<close>

type_synonym node_id = nat

datatype new_link_result =
    LinkOk nat
  | AllCertificationsUsed nat
  | NewUnknownSource
  | NewUnknownTarget
  | SelfLinkingForbidden

datatype rem_link_result =
    Removed nat
  | UnknownCert nat
  | RemUnknownSource
  | RemUnknownTarget

datatype has_link_result =
    Link bool
  | HasUnknownSource
  | HasUnknownTarget

text \<open>
  A method taking \<open>&mut self\<close> returns its result and the new state. \<open>rem_link\<close> decrements an
  unsigned counter, so it may panic.
\<close>

record 'w wot_ops =
  w_new :: "nat \<Rightarrow> 'w"
  w_get_max_link :: "'w \<Rightarrow> nat"
  w_set_max_link :: "nat \<Rightarrow> 'w \<Rightarrow> 'w"
  w_add_node :: "'w \<Rightarrow> node_id \<times> 'w"
  w_rem_node :: "'w \<Rightarrow> node_id option \<times> 'w"
  w_size :: "'w \<Rightarrow> nat"
  w_is_enabled :: "'w \<Rightarrow> node_id \<Rightarrow> bool option"
  w_set_enabled :: "node_id \<Rightarrow> bool \<Rightarrow> 'w \<Rightarrow> bool option \<times> 'w"
  w_get_enabled :: "'w \<Rightarrow> node_id list"
  w_get_disabled :: "'w \<Rightarrow> node_id list"
  w_add_link :: "node_id \<Rightarrow> node_id \<Rightarrow> 'w \<Rightarrow> new_link_result \<times> 'w"
  w_rem_link :: "node_id \<Rightarrow> node_id \<Rightarrow> 'w \<Rightarrow> (rem_link_result \<times> 'w) run"
  w_has_link :: "'w \<Rightarrow> node_id \<Rightarrow> node_id \<Rightarrow> has_link_result"
  w_get_links_source :: "'w \<Rightarrow> node_id \<Rightarrow> node_id list option"
  w_issued_count :: "'w \<Rightarrow> node_id \<Rightarrow> nat option"
  w_is_sentry :: "'w \<Rightarrow> node_id \<Rightarrow> nat \<Rightarrow> bool option"
  w_get_sentries :: "'w \<Rightarrow> nat \<Rightarrow> node_id list"
  w_get_non_sentries :: "'w \<Rightarrow> nat \<Rightarrow> node_id list"

text \<open>The certifiers of a node, the empty set for a node that does not exist.\<close>

definition sources :: "'w wot_ops \<Rightarrow> 'w \<Rightarrow> node_id \<Rightarrow> node_id set" where
  "sources ops w t = (case w_get_links_source ops w t of None \<Rightarrow> {} | Some xs \<Rightarrow> set xs)"

text \<open>
  \<open>at_distance ops w k x y\<close>: the shortest chain of certifications from \<open>y\<close> to \<open>x\<close> has \<open>k\<close>
  links. \<open>within ops w k x\<close> are the nodes at distance at most \<open>k\<close>.
\<close>

definition certified_by :: "'w wot_ops \<Rightarrow> 'w \<Rightarrow> (node_id \<times> node_id) set" where
  "certified_by ops w = {(t, s). s \<in> sources ops w t}"

definition within :: "'w wot_ops \<Rightarrow> 'w \<Rightarrow> nat \<Rightarrow> node_id \<Rightarrow> node_id set" where
  "within ops w k x = {y. \<exists>j\<le>k. (x, y) \<in> certified_by ops w ^^ j}"

definition at_distance :: "'w wot_ops \<Rightarrow> 'w \<Rightarrow> nat \<Rightarrow> node_id \<Rightarrow> node_id set" where
  "at_distance ops w k x =
     {y. (x, y) \<in> certified_by ops w ^^ k \<and> (\<forall>j<k. (x, y) \<notin> certified_by ops w ^^ j)}"

lemma within_0 [simp]: "within ops w 0 x = {x}"
  by (auto simp: within_def)

lemma at_distance_0 [simp]: "at_distance ops w 0 x = {x}"
  by (auto simp: at_distance_def)

lemma relpow_Suc_iff: "(x, z) \<in> R ^^ Suc k \<longleftrightarrow> (\<exists>y. (x, y) \<in> R ^^ k \<and> (y, z) \<in> R)"
  by auto

lemma within_Suc: "within ops w (Suc k) x = within ops w k x \<union> at_distance ops w (Suc k) x"
  unfolding within_def at_distance_def by (auto simp: le_Suc_eq less_Suc_eq_le simp del: relpow.simps)

lemma at_distance_disjoint_within: "j < k \<Longrightarrow> within ops w j x \<inter> at_distance ops w k x = {}"
  unfolding within_def at_distance_def by auto

lemma at_distance_unique: "y \<in> at_distance ops w j x \<Longrightarrow> y \<in> at_distance ops w k x \<Longrightarrow> j = k"
  unfolding at_distance_def by (metis (mono_tags, lifting) linorder_neqE_nat mem_Collect_eq)

lemma at_distance_within: "at_distance ops w k x \<subseteq> within ops w k x"
  unfolding within_def at_distance_def by auto

lemma within_at_distance:
  assumes "y \<in> within ops w k x"
  shows "\<exists>j\<le>k. y \<in> at_distance ops w j x"
proof -
  from assms obtain j where j: "j \<le> k" "(x, y) \<in> certified_by ops w ^^ j"
    by (auto simp: within_def)
  define m where "m = (LEAST i. (x, y) \<in> certified_by ops w ^^ i)"
  have "(x, y) \<in> certified_by ops w ^^ m" "m \<le> j" "\<forall>i<m. (x, y) \<notin> certified_by ops w ^^ i"
    unfolding m_def using j(2) by (auto intro: LeastI Least_le dest: not_less_Least)
  then show ?thesis using j(1) unfolding at_distance_def by (intro exI[of _ m]) auto
qed

text \<open>One step of a breadth-first search, as a fact about the certification relation alone.\<close>

lemma at_distance_Suc:
  "at_distance ops w (Suc k) x =
     (\<Union>y\<in>at_distance ops w k x. sources ops w y) - within ops w k x"
proof (rule set_eqI)
  fix z
  let ?R = "certified_by ops w"
  show "z \<in> at_distance ops w (Suc k) x \<longleftrightarrow>
    z \<in> (\<Union>y\<in>at_distance ops w k x. sources ops w y) - within ops w k x" (is "?L \<longleftrightarrow> ?Rt")
  proof
    assume L: ?L
    then have new: "\<forall>j<Suc k. (x, z) \<notin> ?R ^^ j" and "(x, z) \<in> ?R ^^ Suc k"
      by (auto simp: at_distance_def simp del: relpow.simps)
    then obtain y where y: "(x, y) \<in> ?R ^^ k" "(y, z) \<in> ?R"
      by (auto simp: relpow_Suc_iff)
    have "(x, y) \<notin> ?R ^^ j" if "j < k" for j
      using new that y(2) relpow_Suc_iff[of x z j ?R] by (auto simp del: relpow.simps)
    with y have "y \<in> at_distance ops w k x" "z \<in> sources ops w y"
      by (auto simp: at_distance_def certified_by_def)
    moreover have "z \<notin> within ops w k x" using new by (auto simp: within_def)
    ultimately show ?Rt by blast
  next
    assume ?Rt
    then obtain y where y: "y \<in> at_distance ops w k x" "z \<in> sources ops w y"
      and new: "z \<notin> within ops w k x" by blast
    then have "(x, z) \<in> ?R ^^ Suc k"
      by (auto simp: at_distance_def certified_by_def relpow_Suc_iff simp del: relpow.simps)
    with new show ?L by (auto simp: at_distance_def within_def less_Suc_eq_le)
  qed
qed

subsection \<open>The contract of the trait\<close>

locale wot_graph =
  fixes ops :: "'w wot_ops"
    and invar :: "'w \<Rightarrow> bool"
  assumes links_known:
      "invar w \<Longrightarrow> t < w_size ops w \<Longrightarrow> w_get_links_source ops w t \<noteq> None"
    and links_unknown:
      "w_size ops w \<le> t \<Longrightarrow> w_get_links_source ops w t = None"
    and links_distinct:
      "invar w \<Longrightarrow> w_get_links_source ops w t = Some xs \<Longrightarrow> distinct xs"
    and sources_closed:
      "invar w \<Longrightarrow> sources ops w t \<subseteq> {..<w_size ops w}"
    and no_self_link:
      "invar w \<Longrightarrow> t \<notin> sources ops w t"
    and enabled_known:
      "w_is_enabled ops w t = None \<longleftrightarrow> w_size ops w \<le> t"
    and get_enabled:
      "set (w_get_enabled ops w) = {i. w_is_enabled ops w i = Some True}"
    and get_enabled_distinct:
      "distinct (w_get_enabled ops w)"
    and get_disabled:
      "set (w_get_disabled ops w) = {i. w_is_enabled ops w i = Some False}"
    and is_sentry:
      "invar w \<Longrightarrow> w_is_sentry ops w i r =
         (if w_size ops w \<le> i then None
          else Some (w_is_enabled ops w i = Some True \<and>
                     r \<le> the (w_issued_count ops w i) \<and> r \<le> card (sources ops w i)))"
    and get_sentries:
      "set (w_get_sentries ops w r) = {i. w_is_sentry ops w i r = Some True}"
    and get_sentries_distinct:
      "distinct (w_get_sentries ops w r)"
    and has_link:
      "invar w \<Longrightarrow> w_has_link ops w s t =
         (if w_size ops w \<le> s then HasUnknownSource
          else if w_size ops w \<le> t then HasUnknownTarget
          else Link (s \<in> sources ops w t))"
    and issued_known:
      "w_issued_count ops w t = None \<longleftrightarrow> w_size ops w \<le> t"
begin

lemma links_sources:
  assumes "invar w" "t < w_size ops w"
  obtains xs where "w_get_links_source ops w t = Some xs" "set xs = sources ops w t" "distinct xs"
  using links_known[OF assms] links_distinct[OF assms(1)]
  by (auto simp: sources_def split: option.splits)

lemma sources_unknown: "w_size ops w \<le> t \<Longrightarrow> sources ops w t = {}"
  by (simp add: sources_def links_unknown)

lemma finite_sources: "finite (sources ops w t)"
  by (auto simp: sources_def split: option.splits)

lemma at_distance_bounded:
  assumes "invar w" "x < w_size ops w"
  shows "at_distance ops w k x \<subseteq> {..<w_size ops w}"
  using assms sources_closed[OF assms(1)]
  by (induction k) (auto simp: at_distance_Suc)

lemma within_bounded:
  assumes "invar w" "x < w_size ops w"
  shows "within ops w k x \<subseteq> {..<w_size ops w}"
proof
  fix y assume "y \<in> within ops w k x"
  then obtain j where "y \<in> at_distance ops w j x" using within_at_distance by fast
  then show "y \<in> {..<w_size ops w}" using at_distance_bounded[OF assms, of j] by auto
qed

lemma finite_within: "invar w \<Longrightarrow> x < w_size ops w \<Longrightarrow> finite (within ops w k x)"
  by (rule finite_subset[OF within_bounded]) auto

lemma finite_at_distance: "invar w \<Longrightarrow> x < w_size ops w \<Longrightarrow> finite (at_distance ops w k x)"
  by (rule finite_subset[OF at_distance_bounded]) auto

end

locale web_of_trust = wot_graph +
  assumes new_invar: "invar (w_new ops m)"
    and new_size: "w_size ops (w_new ops m) = 0"
    and new_max: "w_get_max_link ops (w_new ops m) = m"
    and add_node_id: "fst (w_add_node ops w) = w_size ops w"
    and add_node_invar: "invar w \<Longrightarrow> invar (snd (w_add_node ops w))"
    and add_node_size: "w_size ops (snd (w_add_node ops w)) = Suc (w_size ops w)"
    and add_node_enabled:
      "w_is_enabled ops (snd (w_add_node ops w)) i =
         (if i = w_size ops w then Some True else w_is_enabled ops w i)"
    and add_node_sources:
      "invar w \<Longrightarrow> sources ops (snd (w_add_node ops w)) i = sources ops w i"
    and add_node_issued:
      "w_issued_count ops (snd (w_add_node ops w)) i =
         (if i = w_size ops w then Some 0 else w_issued_count ops w i)"
    and add_node_max: "w_get_max_link ops (snd (w_add_node ops w)) = w_get_max_link ops w"
    and set_enabled_invar: "invar w \<Longrightarrow> invar (snd (w_set_enabled ops i b w))"
    and set_enabled_size: "w_size ops (snd (w_set_enabled ops i b w)) = w_size ops w"
    and set_enabled_enabled:
      "w_is_enabled ops (snd (w_set_enabled ops i b w)) j =
         (if j = i \<and> i < w_size ops w then Some b else w_is_enabled ops w j)"
    and set_enabled_sources: "sources ops (snd (w_set_enabled ops i b w)) j = sources ops w j"
    and set_enabled_issued:
      "w_issued_count ops (snd (w_set_enabled ops i b w)) j = w_issued_count ops w j"
    and set_enabled_max: "w_get_max_link ops (snd (w_set_enabled ops i b w)) = w_get_max_link ops w"
    and add_link_invar: "invar w \<Longrightarrow> invar (snd (w_add_link ops s t w))"
    and add_link_size: "w_size ops (snd (w_add_link ops s t w)) = w_size ops w"
    and add_link_enabled: "w_is_enabled ops (snd (w_add_link ops s t w)) i = w_is_enabled ops w i"
    and add_link_max: "w_get_max_link ops (snd (w_add_link ops s t w)) = w_get_max_link ops w"
    and add_link_result:
      "invar w \<Longrightarrow> fst (w_add_link ops s t w) =
         (if s = t then SelfLinkingForbidden
          else if w_size ops w \<le> s then NewUnknownSource
          else if w_size ops w \<le> t then NewUnknownTarget
          else if w_get_max_link ops w \<le> the (w_issued_count ops w s)
          then AllCertificationsUsed (card (sources ops w t))
          else LinkOk (card (insert s (sources ops w t))))"
    and add_link_sources:
      "invar w \<Longrightarrow> sources ops (snd (w_add_link ops s t w)) i =
         (if i = t \<and> s \<noteq> t \<and> s < w_size ops w \<and> t < w_size ops w \<and>
             the (w_issued_count ops w s) < w_get_max_link ops w
          then insert s (sources ops w t) else sources ops w i)"
    and add_link_issued:
      "invar w \<Longrightarrow> w_issued_count ops (snd (w_add_link ops s t w)) i =
         (if i = s \<and> s \<noteq> t \<and> s < w_size ops w \<and> t < w_size ops w \<and>
             the (w_issued_count ops w s) < w_get_max_link ops w
          then map_option Suc (w_issued_count ops w s) else w_issued_count ops w i)"
    and rem_link_returns: "invar w \<Longrightarrow> w_rem_link ops s t w \<noteq> None"
    and rem_link_invar: "invar w \<Longrightarrow> w_rem_link ops s t w = Some (r, w') \<Longrightarrow> invar w'"
    and rem_link_result:
      "invar w \<Longrightarrow> w_rem_link ops s t w = Some (r, w') \<Longrightarrow>
         r = (if w_size ops w \<le> s then RemUnknownSource
              else if w_size ops w \<le> t then RemUnknownTarget
              else if s \<notin> sources ops w t then UnknownCert (card (sources ops w t))
              else Removed (card (sources ops w t - {s})))"
    and rem_link_size: "w_rem_link ops s t w = Some (r, w') \<Longrightarrow> w_size ops w' = w_size ops w"
    and rem_link_enabled:
      "w_rem_link ops s t w = Some (r, w') \<Longrightarrow> w_is_enabled ops w' i = w_is_enabled ops w i"
    and rem_link_max:
      "w_rem_link ops s t w = Some (r, w') \<Longrightarrow> w_get_max_link ops w' = w_get_max_link ops w"
    and rem_link_sources:
      "invar w \<Longrightarrow> w_rem_link ops s t w = Some (r, w') \<Longrightarrow>
         sources ops w' i = (if i = t then sources ops w t - {s} else sources ops w i)"
    and rem_link_issued:
      "invar w \<Longrightarrow> w_rem_link ops s t w = Some (r, w') \<Longrightarrow>
         w_issued_count ops w' i =
           (if i = s \<and> s \<in> sources ops w t then map_option (\<lambda>c. c - 1) (w_issued_count ops w s)
            else w_issued_count ops w i)"
    and issued_bound:
      "invar w \<Longrightarrow> s \<in> sources ops w t \<Longrightarrow> 0 < the (w_issued_count ops w s)"
begin

text \<open>
  Adding a link that does not exist and removing it again restores what the trait shows of the
  graph.
\<close>

lemma add_rem_link:
  assumes inv: "invar w" and fresh: "s \<notin> sources ops w t"
    and ok: "fst (w_add_link ops s t w) = LinkOk n"
  shows "\<exists>w'. w_rem_link ops s t (snd (w_add_link ops s t w)) = Some (Removed (n - 1), w') \<and>
    invar w' \<and> w_size ops w' = w_size ops w \<and> w_get_max_link ops w' = w_get_max_link ops w \<and>
    (\<forall>i. w_is_enabled ops w' i = w_is_enabled ops w i) \<and>
    (\<forall>i. sources ops w' i = sources ops w i) \<and>
    (\<forall>i. w_issued_count ops w' i = w_issued_count ops w i)"
proof -
  let ?w1 = "snd (w_add_link ops s t w)"
  have inv1: "invar ?w1" using inv by (rule add_link_invar)
  from ok have c: "s \<noteq> t" "s < w_size ops w" "t < w_size ops w"
    "the (w_issued_count ops w s) < w_get_max_link ops w"
    and n: "n = card (insert s (sources ops w t))"
    using add_link_result[OF inv, of s t] by (auto split: if_splits)
  have src1: "sources ops ?w1 i = (if i = t then insert s (sources ops w t) else sources ops w i)" for i
    using c by (simp add: add_link_sources[OF inv])
  obtain r w' where w': "w_rem_link ops s t ?w1 = Some (r, w')"
    using rem_link_returns[OF inv1, of s t] by (cases "w_rem_link ops s t ?w1") auto
  have r: "r = Removed (n - 1)"
    using rem_link_result[OF inv1 w'] c fresh n by (simp add: src1 add_link_size finite_sources)
  obtain k where k: "w_issued_count ops w s = Some k"
    using c(2) issued_known[of w s] by (cases "w_issued_count ops w s") auto
  have iss1: "w_issued_count ops ?w1 i = (if i = s then Some (Suc k) else w_issued_count ops w i)" for i
    using c k by (simp add: add_link_issued[OF inv])
  have "sources ops w' i = sources ops w i" for i
    using rem_link_sources[OF inv1 w', of i] fresh by (auto simp: src1)
  moreover have "w_issued_count ops w' i = w_issued_count ops w i" for i
    using rem_link_issued[OF inv1 w', of i] k by (auto simp: src1 iss1)
  ultimately show ?thesis
    using w' r rem_link_invar[OF inv1 w'] rem_link_size[OF w'] rem_link_max[OF w']
      rem_link_enabled[OF w'] by (simp add: add_link_size add_link_max add_link_enabled)
qed

end

end
