(* ===== verification/Rusty_Wot.thy ===== *)
theory Rusty_Wot
  imports Wot_Interface
begin

text \<open>
  \<open>RustyWebOfTrust\<close> of \<open>lib/tools/wot/data/rusty.rs\<close>, the implementation of the trait: a
  vector of nodes, each with its state, the hash set of its certifiers and the number of links
  it issued. The record \<open>rusty_ops\<close> collects the operations, and the interpretation at the end
  shows that they satisfy the contract of the trait on the well-formed graphs \<open>rusty_wf\<close>.
\<close>

record wot_node =
  n_enabled :: bool
  n_links_source :: "node_id set"
  n_issued_count :: nat

record rusty_wot =
  r_nodes :: "wot_node list"
  r_max_links :: nat

definition node_new :: wot_node where
  "node_new = \<lparr>n_enabled = True, n_links_source = {}, n_issued_count = 0\<rparr>"

definition rusty_default :: rusty_wot where
  "rusty_default = \<lparr>r_nodes = [], r_max_links = 4000000000\<rparr>"

definition rusty_new :: "nat \<Rightarrow> rusty_wot" where
  "rusty_new max_links = \<lparr>r_nodes = [], r_max_links = max_links\<rparr>"

definition rusty_get_max_link :: "rusty_wot \<Rightarrow> nat" where
  "rusty_get_max_link w = r_max_links w"

definition rusty_set_max_link :: "nat \<Rightarrow> rusty_wot \<Rightarrow> rusty_wot" where
  "rusty_set_max_link m w = w\<lparr>r_max_links := m\<rparr>"

definition rusty_size :: "rusty_wot \<Rightarrow> nat" where
  "rusty_size w = length (r_nodes w)"

definition rusty_add_node :: "rusty_wot \<Rightarrow> node_id \<times> rusty_wot" where
  "rusty_add_node w =
     (let ns = r_nodes w @ [node_new] in (length ns - 1, w\<lparr>r_nodes := ns\<rparr>))"

definition rusty_rem_node :: "rusty_wot \<Rightarrow> node_id option \<times> rusty_wot" where
  "rusty_rem_node w =
     (let ns = butlast (r_nodes w)
      in (if ns \<noteq> [] then Some (length ns - 1) else None, w\<lparr>r_nodes := ns\<rparr>))"

definition get_node :: "rusty_wot \<Rightarrow> node_id \<Rightarrow> wot_node option" where
  "get_node w i = (if i < length (r_nodes w) then Some (r_nodes w ! i) else None)"

definition rusty_is_enabled :: "rusty_wot \<Rightarrow> node_id \<Rightarrow> bool option" where
  "rusty_is_enabled w i = map_option n_enabled (get_node w i)"

definition rusty_set_enabled :: "node_id \<Rightarrow> bool \<Rightarrow> rusty_wot \<Rightarrow> bool option \<times> rusty_wot" where
  "rusty_set_enabled i b w =
     (if i < length (r_nodes w)
      then (Some b, w\<lparr>r_nodes := (r_nodes w)[i := (r_nodes w ! i)\<lparr>n_enabled := b\<rparr>]\<rparr>)
      else (None, w))"

definition rusty_get_enabled :: "rusty_wot \<Rightarrow> node_id list" where
  "rusty_get_enabled w = indices_where n_enabled (r_nodes w)"

definition rusty_get_disabled :: "rusty_wot \<Rightarrow> node_id list" where
  "rusty_get_disabled w = indices_where (\<lambda>n. \<not> n_enabled n) (r_nodes w)"

definition rusty_add_link :: "node_id \<Rightarrow> node_id \<Rightarrow> rusty_wot \<Rightarrow> new_link_result \<times> rusty_wot" where
  "rusty_add_link s t w =
     (if s = t then (SelfLinkingForbidden, w)
      else if s \<ge> rusty_size w then (NewUnknownSource, w)
      else if t \<ge> rusty_size w then (NewUnknownTarget, w)
      else if n_issued_count (r_nodes w ! s) \<ge> r_max_links w
      then (AllCertificationsUsed (card (n_links_source (r_nodes w ! t))), w)
      else
        (let ns = (r_nodes w)[s := (r_nodes w ! s)\<lparr>n_issued_count := n_issued_count (r_nodes w ! s) + 1\<rparr>];
             ns = ns[t := (ns ! t)\<lparr>n_links_source := insert s (n_links_source (ns ! t))\<rparr>]
         in (LinkOk (card (n_links_source (ns ! t))), w\<lparr>r_nodes := ns\<rparr>)))"

definition rusty_rem_link ::
  "profile \<Rightarrow> node_id \<Rightarrow> node_id \<Rightarrow> rusty_wot \<Rightarrow> (rem_link_result \<times> rusty_wot) run" where
  "rusty_rem_link p s t w =
     (if s \<ge> rusty_size w then Some (RemUnknownSource, w)
      else if t \<ge> rusty_size w then Some (RemUnknownTarget, w)
      else if s \<notin> n_links_source (r_nodes w ! t)
      then Some (UnknownCert (card (n_links_source (r_nodes w ! t))), w)
      else do {
        c \<leftarrow> usize_sub p (n_issued_count (r_nodes w ! s)) 1;
        let ns = (r_nodes w)[s := (r_nodes w ! s)\<lparr>n_issued_count := c\<rparr>];
        let ns = ns[t := (ns ! t)\<lparr>n_links_source := n_links_source (ns ! t) - {s}\<rparr>];
        Some (Removed (card (n_links_source (ns ! t))), w\<lparr>r_nodes := ns\<rparr>)
      })"

definition rusty_has_link :: "rusty_wot \<Rightarrow> node_id \<Rightarrow> node_id \<Rightarrow> has_link_result" where
  "rusty_has_link w s t =
     (if s \<ge> rusty_size w then HasUnknownSource
      else if t \<ge> rusty_size w then HasUnknownTarget
      else Link (s \<in> n_links_source (r_nodes w ! t)))"

definition rusty_get_links_source ::
  "(node_id set \<Rightarrow> node_id list) \<Rightarrow> rusty_wot \<Rightarrow> node_id \<Rightarrow> node_id list option" where
  "rusty_get_links_source it w t = map_option (\<lambda>n. it (n_links_source n)) (get_node w t)"

definition rusty_issued_count :: "rusty_wot \<Rightarrow> node_id \<Rightarrow> nat option" where
  "rusty_issued_count w i = map_option n_issued_count (get_node w i)"

definition sentry_node :: "nat \<Rightarrow> wot_node \<Rightarrow> bool" where
  "sentry_node r n \<longleftrightarrow> n_enabled n \<and> n_issued_count n \<ge> r \<and> card (n_links_source n) \<ge> r"

definition rusty_is_sentry :: "rusty_wot \<Rightarrow> node_id \<Rightarrow> nat \<Rightarrow> bool option" where
  "rusty_is_sentry w i r =
     (if i \<ge> rusty_size w then None else Some (sentry_node r (r_nodes w ! i)))"

definition rusty_get_sentries :: "rusty_wot \<Rightarrow> nat \<Rightarrow> node_id list" where
  "rusty_get_sentries w r = indices_where (sentry_node r) (r_nodes w)"

definition rusty_get_non_sentries :: "rusty_wot \<Rightarrow> nat \<Rightarrow> node_id list" where
  "rusty_get_non_sentries w r =
     indices_where
       (\<lambda>n. n_enabled n \<and> (n_issued_count n < r \<or> card (n_links_source n) < r)) (r_nodes w)"

definition rusty_ops :: "profile \<Rightarrow> (node_id set \<Rightarrow> node_id list) \<Rightarrow> rusty_wot wot_ops" where
  "rusty_ops p it =
     \<lparr>w_new = rusty_new, w_get_max_link = rusty_get_max_link, w_set_max_link = rusty_set_max_link,
      w_add_node = rusty_add_node, w_rem_node = rusty_rem_node, w_size = rusty_size,
      w_is_enabled = rusty_is_enabled, w_set_enabled = rusty_set_enabled,
      w_get_enabled = rusty_get_enabled, w_get_disabled = rusty_get_disabled,
      w_add_link = rusty_add_link, w_rem_link = rusty_rem_link p, w_has_link = rusty_has_link,
      w_get_links_source = rusty_get_links_source it, w_issued_count = rusty_issued_count,
      w_is_sentry = rusty_is_sentry, w_get_sentries = rusty_get_sentries,
      w_get_non_sentries = rusty_get_non_sentries\<rparr>"

lemma rusty_ops_simps [simp]:
  "w_new (rusty_ops p it) = rusty_new"
  "w_get_max_link (rusty_ops p it) = rusty_get_max_link"
  "w_set_max_link (rusty_ops p it) = rusty_set_max_link"
  "w_add_node (rusty_ops p it) = rusty_add_node"
  "w_rem_node (rusty_ops p it) = rusty_rem_node"
  "w_size (rusty_ops p it) = rusty_size"
  "w_is_enabled (rusty_ops p it) = rusty_is_enabled"
  "w_set_enabled (rusty_ops p it) = rusty_set_enabled"
  "w_get_enabled (rusty_ops p it) = rusty_get_enabled"
  "w_get_disabled (rusty_ops p it) = rusty_get_disabled"
  "w_add_link (rusty_ops p it) = rusty_add_link"
  "w_rem_link (rusty_ops p it) = rusty_rem_link p"
  "w_has_link (rusty_ops p it) = rusty_has_link"
  "w_get_links_source (rusty_ops p it) = rusty_get_links_source it"
  "w_issued_count (rusty_ops p it) = rusty_issued_count"
  "w_is_sentry (rusty_ops p it) = rusty_is_sentry"
  "w_get_sentries (rusty_ops p it) = rusty_get_sentries"
  "w_get_non_sentries (rusty_ops p it) = rusty_get_non_sentries"
  by (simp_all add: rusty_ops_def)

subsection \<open>Well-formed graphs\<close>

definition certifiers :: "rusty_wot \<Rightarrow> node_id \<Rightarrow> node_id set" where
  "certifiers w t = (if t < length (r_nodes w) then n_links_source (r_nodes w ! t) else {})"

text \<open>The targets of the links a node issued, as the graph stores them.\<close>

definition issued_links :: "rusty_wot \<Rightarrow> node_id \<Rightarrow> node_id set" where
  "issued_links w s = {t. s \<in> certifiers w t}"

text \<open>
  Every certifier is a node of the graph, no node certifies itself, and the counter of a node is
  at least the number of links the graph holds from it. The counter can exceed that number:
  \<open>add_link\<close> increments it even when the link is already there.
\<close>

definition rusty_wf :: "rusty_wot \<Rightarrow> bool" where
  "rusty_wf w \<longleftrightarrow>
     (\<forall>t<length (r_nodes w). certifiers w t \<subseteq> {..<length (r_nodes w)} \<and> t \<notin> certifiers w t) \<and>
     (\<forall>s<length (r_nodes w). card (issued_links w s) \<le> n_issued_count (r_nodes w ! s))"

lemmas rusty_defs =
  rusty_new_def rusty_get_max_link_def rusty_size_def rusty_add_node_def rusty_is_enabled_def
  rusty_set_enabled_def rusty_get_enabled_def rusty_get_disabled_def rusty_has_link_def
  rusty_issued_count_def rusty_is_sentry_def rusty_get_sentries_def sentry_node_def get_node_def
  node_new_def

lemma finite_issued_links: "finite (issued_links w s)"
proof -
  have "issued_links w s \<subseteq> {..<length (r_nodes w)}"
    by (auto simp: issued_links_def certifiers_def split: if_splits)
  then show ?thesis by (rule finite_subset) simp
qed

lemma certifiers_bounded: "rusty_wf w \<Longrightarrow> certifiers w t \<subseteq> {..<length (r_nodes w)}"
  by (cases "t < length (r_nodes w)") (auto simp: rusty_wf_def certifiers_def)

lemma certifiers_irrefl: "rusty_wf w \<Longrightarrow> t \<notin> certifiers w t"
  by (cases "t < length (r_nodes w)") (auto simp: rusty_wf_def certifiers_def)

lemma finite_certifiers: "rusty_wf w \<Longrightarrow> finite (certifiers w t)"
  using certifiers_bounded finite_subset by blast

lemma sources_rusty:
  assumes "iterates it" "rusty_wf w"
  shows "sources (rusty_ops p it) w t = certifiers w t"
  using iterates_set[OF assms(1) finite_certifiers[OF assms(2), of t]]
  by (auto simp: sources_def rusty_get_links_source_def get_node_def certifiers_def)

lemma issued_positive:
  assumes "rusty_wf w" "s \<in> certifiers w t"
  shows "0 < n_issued_count (r_nodes w ! s)"
proof -
  have "s < length (r_nodes w)" using assms certifiers_bounded by blast
  moreover have "0 < card (issued_links w s)"
    using assms(2) finite_issued_links[of w s] by (auto simp: card_gt_0_iff issued_links_def)
  ultimately show ?thesis using assms(1) by (force simp: rusty_wf_def)
qed

subsection \<open>Every operation keeps the graph well-formed\<close>

lemma wf_new: "rusty_wf (rusty_new m)"
  by (simp add: rusty_wf_def rusty_new_def)

lemma rusty_wfI:
  assumes "\<And>t. t < length (r_nodes w) \<Longrightarrow> certifiers w t \<subseteq> {..<length (r_nodes w)}"
    and "\<And>t. t < length (r_nodes w) \<Longrightarrow> t \<notin> certifiers w t"
    and "\<And>s. s < length (r_nodes w) \<Longrightarrow> card (issued_links w s) \<le> n_issued_count (r_nodes w ! s)"
  shows "rusty_wf w"
  using assms by (simp add: rusty_wf_def)

lemma certifiers_add_node: "certifiers (snd (rusty_add_node w)) t = certifiers w t"
  by (auto simp: certifiers_def rusty_add_node_def node_new_def nth_append)

lemma issued_links_add_node: "issued_links (snd (rusty_add_node w)) s = issued_links w s"
  by (simp add: issued_links_def certifiers_add_node)

lemma wf_issued_empty: "rusty_wf w \<Longrightarrow> length (r_nodes w) \<le> s \<Longrightarrow> issued_links w s = {}"
  using certifiers_bounded[of w] by (force simp: issued_links_def)

lemma wf_add_node:
  assumes "rusty_wf w" shows "rusty_wf (snd (rusty_add_node w))"
proof (rule rusty_wfI)
  fix t assume "t < length (r_nodes (snd (rusty_add_node w)))"
  show "certifiers (snd (rusty_add_node w)) t \<subseteq> {..<length (r_nodes (snd (rusty_add_node w)))}"
    using certifiers_bounded[OF assms, of t]
    by (auto simp: certifiers_add_node) (auto simp: rusty_add_node_def)
  show "t \<notin> certifiers (snd (rusty_add_node w)) t"
    by (simp add: certifiers_add_node certifiers_irrefl[OF assms])
next
  fix s assume "s < length (r_nodes (snd (rusty_add_node w)))"
  then consider "s < length (r_nodes w)" | "s = length (r_nodes w)"
    by (auto simp: rusty_add_node_def less_Suc_eq)
  then show "card (issued_links (snd (rusty_add_node w)) s)
      \<le> n_issued_count (r_nodes (snd (rusty_add_node w)) ! s)"
  proof cases
    case 1
    then have "n_issued_count (r_nodes (snd (rusty_add_node w)) ! s) = n_issued_count (r_nodes w ! s)"
      by (simp add: rusty_add_node_def nth_append)
    then show ?thesis using assms 1 by (simp add: issued_links_add_node rusty_wf_def)
  next
    case 2
    then show ?thesis using wf_issued_empty[OF assms] by (simp add: issued_links_add_node)
  qed
qed

lemma set_enabled_nodes:
  "length (r_nodes (snd (rusty_set_enabled i b w))) = length (r_nodes w)"
  "n_issued_count (r_nodes (snd (rusty_set_enabled i b w)) ! j) = n_issued_count (r_nodes w ! j)"
  "n_links_source (r_nodes (snd (rusty_set_enabled i b w)) ! j) = n_links_source (r_nodes w ! j)"
  by (auto simp: rusty_set_enabled_def nth_list_update_cases)

lemma certifiers_set_enabled: "certifiers (snd (rusty_set_enabled i b w)) t = certifiers w t"
  by (simp add: certifiers_def set_enabled_nodes)

lemma wf_set_enabled: "rusty_wf w \<Longrightarrow> rusty_wf (snd (rusty_set_enabled i b w))"
  by (simp add: rusty_wf_def issued_links_def certifiers_set_enabled set_enabled_nodes)

text \<open>The condition under which \<open>add_link\<close> writes the link.\<close>

definition links :: "rusty_wot \<Rightarrow> node_id \<Rightarrow> node_id \<Rightarrow> bool" where
  "links w s t \<longleftrightarrow> s \<noteq> t \<and> s < length (r_nodes w) \<and> t < length (r_nodes w) \<and>
     n_issued_count (r_nodes w ! s) < r_max_links w"

lemma add_link_unchanged: "\<not> links w s t \<Longrightarrow> snd (rusty_add_link s t w) = w"
  by (auto simp: rusty_add_link_def links_def rusty_size_def)

lemma add_link_nodes:
  assumes "links w s t"
  shows "snd (rusty_add_link s t w) = w\<lparr>r_nodes := (r_nodes w)
      [s := (r_nodes w ! s)\<lparr>n_issued_count := n_issued_count (r_nodes w ! s) + 1\<rparr>,
       t := (r_nodes w ! t)\<lparr>n_links_source := insert s (n_links_source (r_nodes w ! t))\<rparr>]\<rparr>"
    and "fst (rusty_add_link s t w) = LinkOk (card (insert s (n_links_source (r_nodes w ! t))))"
  using assms by (auto simp: rusty_add_link_def links_def rusty_size_def Let_def)

lemma certifiers_add_link:
  "certifiers (snd (rusty_add_link s t w)) i =
     (if i = t \<and> links w s t then insert s (certifiers w t) else certifiers w i)"
  by (cases "links w s t")
    (auto simp: add_link_unchanged add_link_nodes certifiers_def nth_list_update_cases links_def)

lemma issued_add_link:
  "n_issued_count (r_nodes (snd (rusty_add_link s t w)) ! i) =
     (if i = s \<and> links w s t then Suc (n_issued_count (r_nodes w ! s))
      else n_issued_count (r_nodes w ! i))"
  by (cases "links w s t")
    (auto simp: add_link_unchanged add_link_nodes nth_list_update_cases links_def)

lemma length_add_link [simp]: "length (r_nodes (snd (rusty_add_link s t w))) = length (r_nodes w)"
  by (cases "links w s t") (auto simp: add_link_unchanged add_link_nodes)

lemma wf_add_link:
  assumes wf: "rusty_wf w" shows "rusty_wf (snd (rusty_add_link s t w))"
proof (cases "links w s t")
  case True
  show ?thesis
  proof (rule rusty_wfI)
    fix i assume "i < length (r_nodes (snd (rusty_add_link s t w)))"
    then show "certifiers (snd (rusty_add_link s t w)) i
        \<subseteq> {..<length (r_nodes (snd (rusty_add_link s t w)))}"
      using certifiers_bounded[OF wf] True by (auto simp: certifiers_add_link links_def)
    show "i \<notin> certifiers (snd (rusty_add_link s t w)) i"
      using wf True \<open>i < _\<close> by (auto simp: certifiers_add_link rusty_wf_def links_def)
  next
    fix i assume i: "i < length (r_nodes (snd (rusty_add_link s t w)))"
    have "issued_links (snd (rusty_add_link s t w)) i \<subseteq>
        (if i = s then insert t (issued_links w i) else issued_links w i)"
      by (auto simp: issued_links_def certifiers_add_link split: if_splits)
    then have "card (issued_links (snd (rusty_add_link s t w)) i)
        \<le> card (if i = s then insert t (issued_links w i) else issued_links w i)"
      by (rule card_mono[rotated]) (simp add: finite_issued_links)
    also have "\<dots> \<le> card (issued_links w i) + (if i = s then 1 else 0)"
      using card_insert_le_m1 by (simp add: card_insert_if finite_issued_links)
    finally show "card (issued_links (snd (rusty_add_link s t w)) i)
        \<le> n_issued_count (r_nodes (snd (rusty_add_link s t w)) ! i)"
      using wf True i by (fastforce simp: issued_add_link rusty_wf_def split: if_splits)
  qed
qed (use wf in \<open>simp add: add_link_unchanged\<close>)

definition unlinks :: "rusty_wot \<Rightarrow> node_id \<Rightarrow> node_id \<Rightarrow> bool" where
  "unlinks w s t \<longleftrightarrow> s < length (r_nodes w) \<and> s \<in> certifiers w t"

lemma rem_link_unchanged:
  assumes "\<not> unlinks w s t"
  shows "\<exists>r. rusty_rem_link p s t w = Some (r, w)"
  using assms
  by (auto simp: rusty_rem_link_def unlinks_def certifiers_def rusty_size_def split: if_splits)

lemma rem_link_nodes:
  assumes "rusty_wf w" "unlinks w s t"
  shows "rusty_rem_link p s t w = Some (Removed (card (n_links_source (r_nodes w ! t) - {s})),
    w\<lparr>r_nodes := (r_nodes w)
      [s := (r_nodes w ! s)\<lparr>n_issued_count := n_issued_count (r_nodes w ! s) - 1\<rparr>,
       t := (r_nodes w ! t)\<lparr>n_links_source := n_links_source (r_nodes w ! t) - {s}\<rparr>]\<rparr>)"
proof -
  have c: "s < length (r_nodes w)" "t < length (r_nodes w)" "s \<in> n_links_source (r_nodes w ! t)"
    using assms(2) by (auto simp: unlinks_def certifiers_def split: if_splits)
  have "s \<noteq> t" using assms by (auto simp: rusty_wf_def unlinks_def certifiers_def split: if_splits)
  moreover have "1 \<le> n_issued_count (r_nodes w ! s)"
    using issued_positive[OF assms(1)] assms(2) by (fastforce simp: unlinks_def)
  ultimately show ?thesis using c
    by (auto simp: rusty_rem_link_def rusty_size_def Let_def)
qed

lemma rem_link_observed:
  assumes wf: "rusty_wf w" and w': "rusty_rem_link p s t w = Some (r, w')"
  shows "length (r_nodes w') = length (r_nodes w)" "r_max_links w' = r_max_links w"
    and "n_enabled (r_nodes w' ! i) = n_enabled (r_nodes w ! i)"
    and "certifiers w' i = (if i = t \<and> s < length (r_nodes w) then certifiers w t - {s}
           else certifiers w i)"
    and "n_issued_count (r_nodes w' ! i) =
           (if i = s \<and> unlinks w s t then n_issued_count (r_nodes w ! s) - 1
            else n_issued_count (r_nodes w ! i))"
proof -
  have "(length (r_nodes w') = length (r_nodes w) \<and> r_max_links w' = r_max_links w) \<and>
    n_enabled (r_nodes w' ! i) = n_enabled (r_nodes w ! i) \<and>
    certifiers w' i = (if i = t \<and> s < length (r_nodes w) then certifiers w t - {s}
      else certifiers w i) \<and>
    n_issued_count (r_nodes w' ! i) =
      (if i = s \<and> unlinks w s t then n_issued_count (r_nodes w ! s) - 1
       else n_issued_count (r_nodes w ! i))"
  proof (cases "unlinks w s t")
    case True
    have "w' = w\<lparr>r_nodes := (r_nodes w)
      [s := (r_nodes w ! s)\<lparr>n_issued_count := n_issued_count (r_nodes w ! s) - 1\<rparr>,
       t := (r_nodes w ! t)\<lparr>n_links_source := n_links_source (r_nodes w ! t) - {s}\<rparr>]\<rparr>"
      using rem_link_nodes[OF wf True] w' by auto
    moreover have "s < length (r_nodes w)" "t < length (r_nodes w)" "s \<noteq> t"
      using True wf by (auto simp: unlinks_def rusty_wf_def certifiers_def split: if_splits)
    ultimately show ?thesis using True
      by (auto simp: nth_list_update_cases certifiers_def)
  next
    case False
    then have "w' = w" using rem_link_unchanged[OF False, of p] w' by auto
    then show ?thesis using False by (auto simp: unlinks_def)
  qed
  then show "length (r_nodes w') = length (r_nodes w)" "r_max_links w' = r_max_links w"
    "n_enabled (r_nodes w' ! i) = n_enabled (r_nodes w ! i)"
    "certifiers w' i = (if i = t \<and> s < length (r_nodes w) then certifiers w t - {s}
      else certifiers w i)"
    "n_issued_count (r_nodes w' ! i) =
      (if i = s \<and> unlinks w s t then n_issued_count (r_nodes w ! s) - 1
       else n_issued_count (r_nodes w ! i))"
    by blast+
qed

lemma wf_rem_link:
  assumes wf: "rusty_wf w" and w': "rusty_rem_link p s t w = Some (r, w')"
  shows "rusty_wf w'"
proof (rule rusty_wfI)
  note obs = rem_link_observed[OF wf w']
  fix i assume i: "i < length (r_nodes w')"
  show "certifiers w' i \<subseteq> {..<length (r_nodes w')}"
    using certifiers_bounded[OF wf] by (auto simp: obs split: if_splits)
  show "i \<notin> certifiers w' i"
    using certifiers_irrefl[OF wf] by (auto simp: obs)
  show "card (issued_links w' i) \<le> n_issued_count (r_nodes w' ! i)"
  proof (cases "i = s \<and> unlinks w s t")
    case True
    then have "issued_links w' i = issued_links w s - {t}"
      by (auto simp: issued_links_def obs unlinks_def)
    moreover have "t \<in> issued_links w s"
      using True by (auto simp: issued_links_def unlinks_def)
    ultimately have "card (issued_links w' i) = card (issued_links w s) - 1"
      by (simp add: finite_issued_links)
    moreover have "card (issued_links w s) \<le> n_issued_count (r_nodes w ! s)"
      using wf True by (auto simp: rusty_wf_def unlinks_def)
    ultimately show ?thesis using True by (simp add: obs)
  next
    case False
    have "issued_links w' i \<subseteq> issued_links w i"
      by (auto simp: issued_links_def obs split: if_splits)
    then have "card (issued_links w' i) \<le> card (issued_links w i)"
      by (rule card_mono[OF finite_issued_links])
    also have "\<dots> \<le> n_issued_count (r_nodes w ! i)"
      using wf i by (simp add: rusty_wf_def obs)
    finally show ?thesis using False by (auto simp: obs)
  qed
qed

text \<open>
  Removing the last node keeps the graph well-formed only when that node has issued no link:
  \<open>rem_node\<close> does not look at the certifier sets of the other nodes.
\<close>

lemma wf_rem_node:
  assumes wf: "rusty_wf w" and "issued_links w (length (r_nodes w) - 1) = {}"
  shows "rusty_wf (snd (rusty_rem_node w))"
proof (cases "r_nodes w = []")
  case True
  then show ?thesis by (simp add: rusty_wf_def rusty_rem_node_def)
next
  case False
  let ?n = "length (r_nodes w) - 1" and ?w' = "snd (rusty_rem_node w)"
  have len: "length (r_nodes ?w') = ?n" by (simp add: rusty_rem_node_def Let_def)
  have nth: "i < ?n \<Longrightarrow> r_nodes ?w' ! i = r_nodes w ! i" for i
    by (simp add: rusty_rem_node_def Let_def nth_butlast)
  have certs: "certifiers ?w' i = (if i < ?n then certifiers w i else {})" for i
    using False len nth by (auto simp: certifiers_def)
  have no_top: "?n \<notin> certifiers w i" for i using assms(2) by (auto simp: issued_links_def)
  show ?thesis
  proof (rule rusty_wfI)
    fix i assume i: "i < length (r_nodes ?w')"
    show "certifiers ?w' i \<subseteq> {..<length (r_nodes ?w')}"
    proof
      fix s assume "s \<in> certifiers ?w' i"
      then have "s \<in> certifiers w i" by (auto simp: certs split: if_splits)
      then have "s < length (r_nodes w)" "s \<noteq> ?n" using certifiers_bounded[OF wf] no_top by auto
      then show "s \<in> {..<length (r_nodes ?w')}" by (auto simp: len)
    qed
    show "i \<notin> certifiers ?w' i" using certifiers_irrefl[OF wf] by (simp add: certs)
    have "issued_links ?w' i \<subseteq> issued_links w i"
      by (auto simp: issued_links_def certs split: if_splits)
    then have "card (issued_links ?w' i) \<le> card (issued_links w i)"
      by (rule card_mono[OF finite_issued_links])
    also have "\<dots> \<le> n_issued_count (r_nodes w ! i)"
      using wf i by (simp add: rusty_wf_def len)
    finally show "card (issued_links ?w' i) \<le> n_issued_count (r_nodes ?w' ! i)"
      using i by (simp add: nth len)
  qed
qed

subsection \<open>The contract of the trait holds\<close>

lemma is_enabled_eq:
  "rusty_is_enabled w i = (if i < length (r_nodes w) then Some (n_enabled (r_nodes w ! i)) else None)"
  by (simp add: rusty_is_enabled_def get_node_def)

lemma issued_count_eq:
  "rusty_issued_count w i =
     (if i < length (r_nodes w) then Some (n_issued_count (r_nodes w ! i)) else None)"
  by (simp add: rusty_issued_count_def get_node_def)

lemma enabled_add_link:
  "n_enabled (r_nodes (snd (rusty_add_link s t w)) ! i) = n_enabled (r_nodes w ! i)"
  by (cases "links w s t") (auto simp: add_link_unchanged add_link_nodes nth_list_update_cases links_def)

lemma max_add_link: "r_max_links (snd (rusty_add_link s t w)) = r_max_links w"
  by (cases "links w s t") (auto simp: add_link_unchanged add_link_nodes)

lemma add_link_result:
  "fst (rusty_add_link s t w) =
     (if s = t then SelfLinkingForbidden
      else if length (r_nodes w) \<le> s then NewUnknownSource
      else if length (r_nodes w) \<le> t then NewUnknownTarget
      else if r_max_links w \<le> n_issued_count (r_nodes w ! s)
      then AllCertificationsUsed (card (certifiers w t))
      else LinkOk (card (insert s (certifiers w t))))"
proof (cases "links w s t")
  case True
  then show ?thesis by (simp add: add_link_nodes) (auto simp: links_def certifiers_def)
next
  case False
  then show ?thesis by (auto simp: rusty_add_link_def rusty_size_def certifiers_def links_def)
qed

lemma rem_link_result:
  assumes "rusty_wf w" "rusty_rem_link p s t w = Some (r, w')"
  shows "r = (if length (r_nodes w) \<le> s then RemUnknownSource
              else if length (r_nodes w) \<le> t then RemUnknownTarget
              else if s \<notin> certifiers w t then UnknownCert (card (certifiers w t))
              else Removed (card (certifiers w t - {s})))"
proof (cases "unlinks w s t")
  case True
  then show ?thesis using rem_link_nodes[OF assms(1) True, of p] assms(2)
    by (auto simp: unlinks_def certifiers_def split: if_splits)
next
  case False
  then show ?thesis using assms(2)
    by (auto simp: rusty_rem_link_def rusty_size_def certifiers_def unlinks_def split: if_splits)
qed

lemma rem_link_returns: "rusty_wf w \<Longrightarrow> rusty_rem_link p s t w \<noteq> None"
  using rem_link_nodes[of w s t p] rem_link_unchanged[of w s t p] by (cases "unlinks w s t") auto

text \<open>Size, flags and limits do not depend on the graph being well-formed.\<close>

lemma rem_link_frame:
  assumes "rusty_rem_link p s t w = Some (r, w')"
  shows "length (r_nodes w') = length (r_nodes w)" "r_max_links w' = r_max_links w"
    "n_enabled (r_nodes w' ! i) = n_enabled (r_nodes w ! i)"
  using assms
  by (auto simp: rusty_rem_link_def rusty_size_def Let_def nth_list_update_cases
      split: if_splits bind_splits)

lemma rusty_graph_laws:
  assumes it: "iterates it"
  shows "wot_graph (rusty_ops p it) rusty_wf"
proof
  fix w t xs
  assume wf: "rusty_wf w" and "w_get_links_source (rusty_ops p it) w t = Some xs"
  then have "xs = it (certifiers w t)"
    by (auto simp: rusty_get_links_source_def get_node_def certifiers_def split: if_splits)
  then show "distinct xs" using iterates_distinct[OF it finite_certifiers[OF wf]] by simp
next
  fix w i r assume wf: "rusty_wf w"
  show "w_is_sentry (rusty_ops p it) w i r =
     (if w_size (rusty_ops p it) w \<le> i then None
      else Some (w_is_enabled (rusty_ops p it) w i = Some True \<and>
                 r \<le> the (w_issued_count (rusty_ops p it) w i) \<and>
                 r \<le> card (sources (rusty_ops p it) w i)))"
    by (simp add: sources_rusty[OF it wf] rusty_is_sentry_def rusty_size_def is_enabled_eq
        issued_count_eq sentry_node_def certifiers_def)
next
  fix w s t assume wf: "rusty_wf w"
  show "w_has_link (rusty_ops p it) w s t =
     (if w_size (rusty_ops p it) w \<le> s then HasUnknownSource
      else if w_size (rusty_ops p it) w \<le> t then HasUnknownTarget
      else Link (s \<in> sources (rusty_ops p it) w t))"
    by (simp add: sources_rusty[OF it wf] rusty_has_link_def rusty_size_def certifiers_def)
qed (auto simp: sources_rusty[OF it] certifiers_irrefl rusty_get_links_source_def get_node_def
    rusty_size_def is_enabled_eq issued_count_eq rusty_get_enabled_def rusty_get_disabled_def
    rusty_get_sentries_def rusty_is_sentry_def split: if_splits
    dest: certifiers_bounded[THEN subsetD])

lemmas rusty_observers =
  rusty_size_def rusty_get_max_link_def is_enabled_eq issued_count_eq

lemma sources_set_enabled:
  "sources (rusty_ops p it) (snd (rusty_set_enabled i b w)) j = sources (rusty_ops p it) w j"
  by (simp add: sources_def rusty_get_links_source_def get_node_def set_enabled_nodes
      split: option.splits)

lemma rusty_web_of_trust:
  assumes it: "iterates it"
  shows "web_of_trust (rusty_ops p it) rusty_wf"
proof (intro web_of_trust.intro rusty_graph_laws[OF it] web_of_trust_axioms.intro, goal_cases)
  case 1 show ?case by (simp add: wf_new)
next
  case 5 then show ?case by (simp add: wf_add_node)
next
  case (8 w) then show ?case
    by (simp add: sources_rusty[OF it] wf_add_node certifiers_add_node)
next
  case 11 then show ?case by (simp add: wf_set_enabled)
next
  case 14 show ?case by (simp add: sources_set_enabled)
next
  case 17 then show ?case by (simp add: wf_add_link)
next
  case 21 then show ?case
    by (simp add: sources_rusty[OF it] add_link_result rusty_observers)
next
  case 22 then show ?case
    by (auto simp: sources_rusty[OF it] wf_add_link certifiers_add_link rusty_observers links_def)
next
  case 23 then show ?case by (auto simp: rusty_observers issued_add_link links_def)
next
  case 24 then show ?case by (simp add: rem_link_returns)
next
  case 25 then show ?case by (auto intro: wf_rem_link)
next
  case (26 w s t r w')
  from rem_link_result[OF 26(1), of p s t r w'] 26(2) show ?case
    by (simp add: sources_rusty[OF it 26(1)] rusty_observers)
next
  case (27 s t w r w') then show ?case by (simp add: rusty_observers rem_link_frame)
next
  case (28 s t w r w' i) then show ?case by (simp add: rusty_observers rem_link_frame)
next
  case (29 s t w r w') then show ?case by (simp add: rusty_observers rem_link_frame)
next
  case (30 w s t r w' i)
  then have c: "rusty_rem_link p s t w = Some (r, w')" by simp
  have "s \<ge> length (r_nodes w) \<Longrightarrow> s \<notin> certifiers w t"
    using certifiers_bounded[OF 30(1), of t] by auto
  then show ?case
    by (simp add: sources_rusty[OF it] 30(1) wf_rem_link[OF 30(1) c] rem_link_observed[OF 30(1) c])
next
  case (31 w s t r w' i)
  then have c: "rusty_rem_link p s t w = Some (r, w')" by simp
  have "s \<in> certifiers w t \<Longrightarrow> s < length (r_nodes w)"
    using certifiers_bounded[OF 31(1), of t] by auto
  then show ?case
    by (auto simp: sources_rusty[OF it 31(1)] rusty_observers rem_link_observed[OF 31(1) c] unlinks_def)
next
  case (32 w s t)
  then have "s < length (r_nodes w)" "0 < n_issued_count (r_nodes w ! s)"
    using certifiers_bounded[OF 32(1), of t] issued_positive[OF 32(1)]
    by (auto simp: sources_rusty[OF it 32(1)])
  then show ?case by (simp add: rusty_observers)
qed (auto simp: rusty_observers rusty_new_def rusty_add_node_def rusty_set_enabled_def node_new_def
    nth_append nth_list_update_cases enabled_add_link max_add_link)

interpretation rusty: web_of_trust "rusty_ops p sorted_list_of_set" rusty_wf for p
  by (rule rusty_web_of_trust[OF iterates_sorted_list_of_set])

text \<open>Two well-formed graphs with the same observations are the same.\<close>

lemma rusty_eqI:
  assumes "rusty_wf w'" "rusty_size w' = rusty_size w" "rusty_get_max_link w' = rusty_get_max_link w"
    and "\<forall>i. rusty_is_enabled w' i = rusty_is_enabled w i"
    and "\<forall>i. certifiers w' i = certifiers w i"
    and "\<forall>i. rusty_issued_count w' i = rusty_issued_count w i"
  shows "w' = w"
proof -
  have len: "length (r_nodes w') = length (r_nodes w)" using assms(2) by (simp add: rusty_size_def)
  have "r_nodes w' ! i = r_nodes w ! i" if "i < length (r_nodes w)" for i
    using assms(4-6)[rule_format, of i] that len
    by (simp add: is_enabled_eq issued_count_eq certifiers_def)
  then have "r_nodes w' = r_nodes w" using len by (intro nth_equalityI) auto
  then show ?thesis using assms(3) by (simp add: rusty_get_max_link_def)
qed

subsection \<open>Edits\<close>

text \<open>
  The edits the writers of the index make to the graph: a new member, an exclusion or a renewal,
  a certification, its expiry.
\<close>

datatype wot_edit = AddNode | SetEnabled node_id bool | AddLink node_id node_id | RemLink node_id node_id

fun apply_edit :: "profile \<Rightarrow> wot_edit \<Rightarrow> rusty_wot \<Rightarrow> rusty_wot run" where
  "apply_edit p AddNode w = Some (snd (rusty_add_node w))"
| "apply_edit p (SetEnabled i b) w = Some (snd (rusty_set_enabled i b w))"
| "apply_edit p (AddLink s t) w = Some (snd (rusty_add_link s t w))"
| "apply_edit p (RemLink s t) w = map_option snd (rusty_rem_link p s t w)"

definition within_limit :: "rusty_wot \<Rightarrow> bool" where
  "within_limit w \<longleftrightarrow> (\<forall>n\<in>set (r_nodes w). n_issued_count n \<le> r_max_links w)"

lemma within_limit_nth:
  "within_limit w \<longleftrightarrow> (\<forall>i<length (r_nodes w). n_issued_count (r_nodes w ! i) \<le> r_max_links w)"
  by (auto simp: within_limit_def all_set_conv_all_nth)

lemma apply_edit_wf:
  assumes wf: "rusty_wf w" and lim: "within_limit w"
  shows "\<exists>w'. apply_edit p e w = Some w' \<and> rusty_wf w' \<and> within_limit w' \<and>
    r_max_links w' = r_max_links w"
proof (cases e)
  case AddNode
  then show ?thesis using wf_add_node[OF wf] lim
    by (simp add: within_limit_def rusty_add_node_def node_new_def Let_def)
next
  case (SetEnabled i b)
  have "within_limit (snd (rusty_set_enabled i b w))"
    using lim by (auto simp: within_limit_nth rusty_set_enabled_def nth_list_update)
  then show ?thesis using SetEnabled wf_set_enabled[OF wf, of i b]
    by (simp add: rusty_set_enabled_def)
next
  case (AddLink s t)
  have "within_limit (snd (rusty_add_link s t w))"
    using lim by (auto simp: within_limit_nth issued_add_link max_add_link links_def)
  then show ?thesis using AddLink wf_add_link[OF wf, of s t] by (simp add: max_add_link)
next
  case (RemLink s t)
  obtain r w' where r: "rusty_rem_link p s t w = Some (r, w')"
    using rem_link_returns[OF wf, of p s t] by auto
  have "within_limit w'"
    using lim rem_link_frame[OF r] by (auto simp: within_limit_nth rem_link_observed[OF wf r])
  then show ?thesis using RemLink r wf_rem_link[OF wf r] rem_link_frame[OF r] by simp
qed

lemma apply_edits_wf:
  "rusty_wf w \<Longrightarrow> within_limit w \<Longrightarrow>
   \<exists>w'. fold_run (apply_edit p) edits w = Some w' \<and> rusty_wf w' \<and> within_limit w' \<and>
     r_max_links w' = r_max_links w"
proof (induction edits arbitrary: w)
  case (Cons e edits)
  from apply_edit_wf[OF Cons.prems, of p e] obtain w1 where
    "apply_edit p e w = Some w1" "rusty_wf w1" "within_limit w1" "r_max_links w1 = r_max_links w"
    by blast
  then show ?case using Cons.IH[of w1] by simp
qed simp

text \<open>A graph for the examples: node 0 certifies 1 and 2, node 1 certifies 2, node 2 certifies 3.\<close>

definition example_wot :: rusty_wot where
  "example_wot = \<lparr>r_nodes =
     [\<lparr>n_enabled = True, n_links_source = {}, n_issued_count = 2\<rparr>,
      \<lparr>n_enabled = True, n_links_source = {0}, n_issued_count = 1\<rparr>,
      \<lparr>n_enabled = True, n_links_source = {0, 1}, n_issued_count = 1\<rparr>,
      \<lparr>n_enabled = False, n_links_source = {2}, n_issued_count = 0\<rparr>],
    r_max_links = 3\<rparr>"

lemma example_wot_edits:
  "fold_run (apply_edit Debug)
     [AddNode, AddNode, AddNode, AddNode, AddLink 0 1, AddLink 0 2, AddLink 1 2, AddLink 2 3,
      SetEnabled 3 False] (rusty_new 3) = Some example_wot"
  by (simp add: example_wot_def rusty_new_def rusty_add_node_def rusty_add_link_def rusty_size_def
      rusty_set_enabled_def node_new_def Let_def eval_nat_numeral insert_commute)

lemma example_wot_wf: "rusty_wf example_wot"
proof -
  have "rusty_wf (rusty_new 3)" "within_limit (rusty_new 3)"
    by (simp_all add: wf_new) (simp add: within_limit_def rusty_new_def)
  from apply_edits_wf[OF this] example_wot_edits show ?thesis by (metis option.inject)
qed

subsection \<open>Properties\<close>

text \<open>
  C2: Starting from an empty web of trust, any sequence of node creations, enablings, new links
  and removed links runs without panic in both build profiles, keeps every certifier set inside
  the graph, and never lets a node issue more links than the limit.
\<close>

theorem wot_edits_safe:
  "\<exists>w. fold_run (apply_edit p) edits (rusty_new m) = Some w \<and> rusty_wf w \<and> within_limit w \<and>
     r_max_links w = m"
  using apply_edits_wf[of "rusty_new m" p edits] wf_new[of m]
  by (simp add: within_limit_def rusty_new_def)

text \<open>
  Removing a link that has just been added gives back the same graph, and the result counts
  the certifiers that are left.
\<close>

theorem add_then_remove_link:
  assumes wf: "rusty_wf w" and fresh: "s \<notin> certifiers w t"
    and ok: "fst (rusty_add_link s t w) = LinkOk n"
  shows "rusty_rem_link p s t (snd (rusty_add_link s t w)) = Some (Removed (n - 1), w)"
proof -
  from rusty.add_rem_link[OF wf, of s p t n] fresh ok obtain w' where
    w': "rusty_rem_link p s t (snd (rusty_add_link s t w)) = Some (Removed (n - 1), w')"
    and obs: "rusty_wf w'" "rusty_size w' = rusty_size w"
      "rusty_get_max_link w' = rusty_get_max_link w"
      "\<forall>i. rusty_is_enabled w' i = rusty_is_enabled w i"
      "\<forall>i. certifiers w' i = certifiers w i"
      "\<forall>i. rusty_issued_count w' i = rusty_issued_count w i"
    by (auto simp: sources_rusty[OF iterates_sorted_list_of_set] wf)
  have "w' = w" using obs by (rule rusty_eqI)
  then show ?thesis using w' by simp
qed

theorem add_then_remove_link_witness:
  "rusty_rem_link Debug 1 3 (snd (rusty_add_link 1 3 example_wot)) = Some (Removed 1, example_wot)"
proof -
  have "fst (rusty_add_link 1 3 example_wot) = LinkOk 2" "1 \<notin> certifiers example_wot 3"
    by (simp_all add: example_wot_def rusty_add_link_def rusty_size_def certifiers_def Let_def
        eval_nat_numeral)
  from add_then_remove_link[OF example_wot_wf this(2,1), of Debug] show ?thesis by simp
qed

text \<open>
  \<open>rem_node\<close> drops the last node and leaves the links it issued in the certifier sets of the
  others: when the index is given out again, removing such a link panics in the debug profile and
  wraps the counter of the new node to \<open>2 ^ 64 - 1\<close> in the release profile.
\<close>

theorem rem_node_leaves_links:
  assumes wf: "rusty_wf w" and s: "s = length (r_nodes w) - 1" and link: "s \<in> certifiers w t"
    and w': "w' = snd (rusty_add_node (snd (rusty_rem_node w)))"
  shows "s \<in> certifiers w' t \<and> rusty_rem_link Debug s t w' = None \<and>
    (\<exists>r w''. rusty_rem_link Release s t w' = Some (r, w'') \<and>
      rusty_issued_count w'' s = Some (2 ^ 64 - 1))"
proof -
  have t: "t < s" "s < length (r_nodes w)"
  proof -
    have "t < length (r_nodes w)" "t \<noteq> s" "s < length (r_nodes w)"
      using link certifiers_irrefl[OF wf, of t] certifiers_bounded[OF wf, of t]
      by (auto simp: certifiers_def split: if_splits)
    then show "t < s" "s < length (r_nodes w)" using s by linarith+
  qed
  then have nodes: "r_nodes w' = butlast (r_nodes w) @ [node_new]" "length (r_nodes w') = Suc s"
    using s by (simp_all add: w' rusty_rem_node_def rusty_add_node_def Let_def)
  have new: "r_nodes w' ! s = node_new" using nodes s by (simp add: nth_append)
  have old: "r_nodes w' ! t = r_nodes w ! t" using nodes s t by (simp add: nth_append nth_butlast)
  have in_t: "s \<in> n_links_source (r_nodes w' ! t)"
    using old link t s by (simp add: certifiers_def split: if_splits)
  then have "s \<in> certifiers w' t" using t nodes(2) by (simp add: certifiers_def)
  moreover have "rusty_rem_link Debug s t w' = None"
    using t nodes(2) in_t new
    by (simp add: rusty_rem_link_def rusty_size_def usize_sub_def node_new_def)
  moreover have "\<exists>r w''. rusty_rem_link Release s t w' = Some (r, w'') \<and>
      rusty_issued_count w'' s = Some (2 ^ 64 - 1)"
    using t nodes(2) in_t new
    by (simp add: rusty_rem_link_def rusty_size_def usize_sub_def node_new_def Let_def
        rusty_issued_count_def get_node_def nth_list_update_cases)
  ultimately show ?thesis by blast
qed

definition example_pair :: rusty_wot where
  "example_pair = \<lparr>r_nodes =
     [\<lparr>n_enabled = True, n_links_source = {1}, n_issued_count = 0\<rparr>,
      \<lparr>n_enabled = True, n_links_source = {}, n_issued_count = 1\<rparr>],
    r_max_links = 3\<rparr>"

theorem rem_node_leaves_links_witness:
  "rusty_rem_link Debug 1 0 (snd (rusty_add_node (snd (rusty_rem_node example_pair)))) = None"
proof -
  have "issued_links example_pair i = (if i = 1 then {0} else {})" for i
    by (auto simp: issued_links_def certifiers_def example_pair_def less_Suc_eq nth_Cons
        split: if_splits nat.splits)
  moreover have "certifiers example_pair i = (if i = 0 then {1} else {})" for i
    by (auto simp: certifiers_def example_pair_def less_Suc_eq nth_Cons split: if_splits nat.splits)
  moreover have "length (r_nodes example_pair) = 2"
    "n_issued_count (r_nodes example_pair ! 1) = 1" by (simp_all add: example_pair_def)
  ultimately have "rusty_wf example_pair" by (intro rusty_wfI) auto
  from rem_node_leaves_links[OF this _ _ refl, of 1 0] show ?thesis
    by (simp add: certifiers_def example_pair_def)
qed

end
