(* ===== verification/Wot_Distance.thy ===== *)
theory Wot_Distance
  imports Rusty_Wot
begin

text \<open>
  The distance rule of \<open>lib/tools/wot/operations/distance.rs\<close>. \<open>compute_distance\<close> explores the
  certifiers of a node for \<open>step_max\<close> rounds, then counts the sentries it reached.

  The hash sets \<open>area\<close> and \<open>border\<close> are sets: the parallel map over the border is a union, which
  does not depend on the order. The double-precision comparison at the end uses the three
  floating-point operations of the record \<open>f64_ops\<close>, so no rounding is assumed away.
\<close>

record 'f f64_ops =
  f_of_u32 :: "nat \<Rightarrow> 'f"
  f_mul :: "'f \<Rightarrow> 'f \<Rightarrow> 'f"
  f_less :: "'f \<Rightarrow> 'f \<Rightarrow> bool"

record 'f wot_distance_parameters =
  p_node :: node_id
  p_sentry_requirement :: nat
  p_step_max :: nat
  p_x_percent :: 'f

record wot_distance =
  d_sentries :: nat
  d_success :: nat
  d_success_at_border :: nat
  d_reached :: nat
  d_reached_at_border :: nat
  d_outdistanced :: bool

text \<open>One round: the certifiers of the border that are not in the area yet.\<close>

definition next_border ::
  "'w wot_ops \<Rightarrow> 'w \<Rightarrow> node_id set \<Rightarrow> node_id set \<Rightarrow> node_id set run" where
  "next_border ops w area border =
     (if \<exists>i\<in>border. w_get_links_source ops w i = None then None
      else Some (\<Union>i\<in>border.
        set (filter (\<lambda>s. s \<notin> area) (the (w_get_links_source ops w i)))))"

fun explore ::
  "'w wot_ops \<Rightarrow> 'w \<Rightarrow> nat \<Rightarrow> node_id set \<Rightarrow> node_id set \<Rightarrow> (node_id set \<times> node_id set) run" where
  "explore ops w 0 area border = Some (area, border)"
| "explore ops w (Suc k) area border = do {
     border \<leftarrow> next_border ops w area border;
     explore ops w k (area \<union> border) border
   }"

definition compute_distance ::
  "profile \<Rightarrow> 'f f64_ops \<Rightarrow> 'w wot_ops \<Rightarrow> 'w \<Rightarrow> 'f wot_distance_parameters \<Rightarrow>
   wot_distance option run" where
  "compute_distance p fp ops w params =
     (if p_node params \<ge> w_size ops w then Some None
      else do {
        (area, border) \<leftarrow> explore ops w (p_step_max params) {p_node params} {p_node params};
        let sentries = w_get_sentries ops w (p_sentry_requirement params);
        let success = as_u32 (card (area \<inter> set sentries));
        let success_at_border = as_u32 (card (border \<inter> set sentries));
        let count = as_u32 (length sentries);
        own \<leftarrow> w_is_sentry ops w (p_node params) (p_sentry_requirement params);
        count \<leftarrow> (if own then u32_sub p count 1 else Some count);
        success \<leftarrow> (if own then u32_sub p success 1 else Some success);
        reached \<leftarrow> u32_sub p (as_u32 (card area)) 1;
        Some (Some \<lparr>d_sentries = count, d_success = success,
          d_success_at_border = success_at_border, d_reached = reached,
          d_reached_at_border = as_u32 (card border),
          d_outdistanced = f_less fp (f_of_u32 fp success)
            (f_mul fp (p_x_percent params) (f_of_u32 fp count))\<rparr>)
      })"

definition is_outdistanced ::
  "profile \<Rightarrow> 'f f64_ops \<Rightarrow> 'w wot_ops \<Rightarrow> 'w \<Rightarrow> 'f wot_distance_parameters \<Rightarrow> bool option run" where
  "is_outdistanced p fp ops w params =
     map_option (map_option d_outdistanced) (compute_distance p fp ops w params)"

text \<open>
  What the rule asks for: the sentries other than the node itself, and those of them from which
  a chain of at most \<open>k\<close> certifications leads to the node.
\<close>

definition other_sentries :: "'w wot_ops \<Rightarrow> 'w \<Rightarrow> nat \<Rightarrow> node_id \<Rightarrow> node_id set" where
  "other_sentries ops w r x = {i. w_is_sentry ops w i r = Some True} - {x}"

context wot_graph
begin

lemma next_border_at_distance:
  assumes "invar w" "x < w_size ops w"
  shows "next_border ops w (within ops w k x) (at_distance ops w k x) =
    Some (at_distance ops w (Suc k) x)"
proof -
  have known: "w_get_links_source ops w i \<noteq> None" if "i \<in> at_distance ops w k x" for i
    using links_known[OF assms(1)] at_distance_bounded[OF assms, of k] that by auto
  have "set (filter (\<lambda>s. s \<notin> A) (the (w_get_links_source ops w i))) = sources ops w i - A"
    if "i \<in> at_distance ops w k x" for i A
    using known[OF that] by (auto simp: sources_def)
  then show ?thesis using known by (auto simp: next_border_def at_distance_Suc)
qed

lemma explore_balls:
  assumes "invar w" "x < w_size ops w"
  shows "explore ops w k (within ops w j x) (at_distance ops w j x) =
    Some (within ops w (j + k) x, at_distance ops w (j + k) x)"
proof (induction k arbitrary: j)
  case (Suc k)
  show ?case
    using Suc[of "Suc j"] by (simp add: next_border_at_distance[OF assms] within_Suc)
qed simp

lemma sentries_finite: "finite {i. w_is_sentry ops w i r = Some True}"
  by (simp flip: get_sentries)

lemma compute_distance_spec:
  assumes inv: "invar w" and x: "p_node params < w_size ops w"
    and small: "w_size ops w < 2 ^ 32"
  shows "\<exists>d. compute_distance p fp ops w params = Some (Some d) \<and>
    d_sentries d = card (other_sentries ops w (p_sentry_requirement params) (p_node params)) \<and>
    d_success d = card (other_sentries ops w (p_sentry_requirement params) (p_node params) \<inter>
      within ops w (p_step_max params) (p_node params)) \<and>
    d_success_at_border d = card ({i. w_is_sentry ops w i (p_sentry_requirement params) = Some True} \<inter>
      at_distance ops w (p_step_max params) (p_node params)) \<and>
    d_reached d = card (within ops w (p_step_max params) (p_node params) - {p_node params}) \<and>
    d_reached_at_border d = card (at_distance ops w (p_step_max params) (p_node params)) \<and>
    d_outdistanced d = f_less fp (f_of_u32 fp (d_success d))
      (f_mul fp (p_x_percent params) (f_of_u32 fp (d_sentries d)))"
proof -
  let ?x = "p_node params" and ?r = "p_sentry_requirement params" and ?k = "p_step_max params"
  let ?area = "within ops w ?k ?x" and ?border = "at_distance ops w ?k ?x"
  let ?S = "{i. w_is_sentry ops w i ?r = Some True}"
  have ex: "explore ops w ?k {?x} {?x} = Some (?area, ?border)"
    using explore_balls[OF inv x, of ?k 0] by simp
  have S: "?S \<subseteq> {..<w_size ops w}" by (auto simp: is_sentry[OF inv] split: if_splits)
  have card_small: "card A < 4294967296" if "A \<subseteq> {..<w_size ops w}" for A
    using card_mono[OF _ that] small by simp
  have fin: "finite ?area" "finite ?S"
    using finite_within[OF inv x] sentries_finite by blast+
  have len: "length (w_get_sentries ops w ?r) = card ?S"
    using distinct_card[OF get_sentries_distinct, of w ?r] by (simp add: get_sentries)
  have c: "card ?S < 4294967296" "card (?area \<inter> ?S) < 4294967296"
    "card (?border \<inter> ?S) < 4294967296" "card ?area < 4294967296" "card ?border < 4294967296"
    using S within_bounded[OF inv x, of ?k] at_distance_bounded[OF inv x, of ?k]
    by - (rule card_small, blast)+
  have x_in: "?x \<in> ?area" by (auto simp: within_def intro: exI[of _ 0])
  then have pos: "0 < card ?area" using fin by (auto simp: card_gt_0_iff)
  obtain own where own: "w_is_sentry ops w ?x ?r = Some own"
    using x by (simp add: is_sentry[OF inv])
  have counts: "card (?S - {?x}) = card ?S - (if own then 1 else 0)"
    "card ((?S - {?x}) \<inter> ?area) = card (?area \<inter> ?S) - (if own then 1 else 0)"
    "own \<Longrightarrow> 0 < card ?S" "own \<Longrightarrow> 0 < card (?area \<inter> ?S)"
  proof -
    show "card (?S - {?x}) = card ?S - (if own then 1 else 0)"
      using own fin by (auto simp: card_Diff_singleton_if)
    have "(?S - {?x}) \<inter> ?area = (?area \<inter> ?S) - {?x}" by blast
    then show "card ((?S - {?x}) \<inter> ?area) = card (?area \<inter> ?S) - (if own then 1 else 0)"
      using own fin x_in by (auto simp: card_Diff_singleton_if)
    show "own \<Longrightarrow> 0 < card ?S" "own \<Longrightarrow> 0 < card (?area \<inter> ?S)"
      using own fin x_in by (auto simp: card_gt_0_iff)
  qed
  have reached: "card (?area - {?x}) = card ?area - 1"
    using x_in fin by (simp add: card_Diff_singleton)
  have swap: "?S \<inter> ?border = ?border \<inter> ?S" "?S \<inter> ?area = ?area \<inter> ?S" by blast+
  show ?thesis
    using x c pos counts(3,4)
    by (cases own) (simp_all add: compute_distance_def ex own len get_sentries other_sentries_def
        counts(1,2) reached Let_def swap)
qed

lemma compute_distance_unknown:
  "compute_distance p fp ops w params = Some None \<longleftrightarrow> w_size ops w \<le> p_node params"
proof
  assume a: "compute_distance p fp ops w params = Some None"
  show "w_size ops w \<le> p_node params"
  proof (rule ccontr)
    assume "\<not> w_size ops w \<le> p_node params"
    with a show False
      by (simp add: compute_distance_def Let_def case_prod_beta split: bind_splits if_splits)
  qed
qed (simp add: compute_distance_def)

end

subsection \<open>Properties\<close>

text \<open>
  C16: On a well-formed graph the distance computation returns, and what it returns is the rule of
  the protocol: the sentries other than the member, those of them with a chain of at most
  \<open>step_max\<close> certifications to the member, and the members in that range; the member is
  outdistanced exactly when the reached sentries are fewer than the required share. It answers
  \<open>None\<close> exactly for a member that is not in the graph.
\<close>

theorem distance_rule:
  assumes "iterates it" "rusty_wf w" "rusty_size w < 2 ^ 32"
  shows "(rusty_size w \<le> p_node params \<longrightarrow>
      compute_distance p fp (rusty_ops p it) w params = Some None) \<and>
    (p_node params < rusty_size w \<longrightarrow>
      (\<exists>d. compute_distance p fp (rusty_ops p it) w params = Some (Some d) \<and>
        d_sentries d = card (other_sentries (rusty_ops p it) w (p_sentry_requirement params) (p_node params)) \<and>
        d_success d = card (other_sentries (rusty_ops p it) w (p_sentry_requirement params) (p_node params) \<inter>
          within (rusty_ops p it) w (p_step_max params) (p_node params)) \<and>
        d_reached d = card (within (rusty_ops p it) w (p_step_max params) (p_node params) - {p_node params}) \<and>
        d_reached_at_border d = card (at_distance (rusty_ops p it) w (p_step_max params) (p_node params)) \<and>
        is_outdistanced p fp (rusty_ops p it) w params =
          Some (Some (f_less fp (f_of_u32 fp (d_success d))
            (f_mul fp (p_x_percent params) (f_of_u32 fp (d_sentries d)))))))"
  using wot_graph.compute_distance_unknown[OF rusty_graph_laws[OF assms(1), of p], of p fp w params]
    wot_graph.compute_distance_spec[OF rusty_graph_laws[OF assms(1), of p] assms(2), of params p fp]
    assms(3) by (auto simp: is_outdistanced_def)

text \<open>Shares counted in tenths, for the example.\<close>

definition tenths :: "nat f64_ops" where
  "tenths = \<lparr>f_of_u32 = (\<lambda>n. 10 * n), f_mul = (\<lambda>x y. x * y div 10), f_less = (<)\<rparr>"

theorem distance_rule_witness:
  "\<exists>d. compute_distance Debug tenths (rusty_ops Debug sorted_list_of_set) example_wot
      \<lparr>p_node = 3, p_sentry_requirement = 1, p_step_max = 2, p_x_percent = 8\<rparr> = Some (Some d) \<and>
    d_reached d = card (within (rusty_ops Debug sorted_list_of_set) example_wot 2 3 - {3})"
proof -
  have "rusty_size example_wot = 4" by (simp add: example_wot_def rusty_size_def)
  then show ?thesis
    using distance_rule[OF iterates_sorted_list_of_set example_wot_wf, of
        "\<lparr>p_node = 3, p_sentry_requirement = 1, p_step_max = 2, p_x_percent = 8\<rparr>" Debug tenths]
    by auto
qed

end
