(* ===== verification/Wot_Path.thy ===== *)
theory Wot_Path
  imports Rusty_Wot
begin

text \<open>
  \<open>RustyPathFinder::find_paths\<close> of \<open>lib/tools/wot/operations/path.rs\<close>: a breadth-first search
  from the target that keeps, for every node, its distance and the next nodes of its shortest
  paths, then the paths themselves, extended one node per round.
\<close>

type_synonym path_graph = "(nat \<times> node_id list) list"

text \<open>The body of the innermost loop: \<open>source\<close> certifies \<open>node\<close>, seen at \<open>distance\<close>.\<close>

definition relax ::
  "nat \<Rightarrow> node_id \<Rightarrow> node_id \<Rightarrow> path_graph \<times> node_id set \<Rightarrow> (path_graph \<times> node_id set) run" where
  "relax distance node source = (\<lambda>(graph, next_border).
     if source \<ge> length graph then None
     else if fst (graph ! source) > distance
     then Some (graph[source := (distance, [node])], insert source next_border)
     else if fst (graph ! source) = distance
     then Some (graph[source := (fst (graph ! source), snd (graph ! source) @ [node])],
       insert source next_border)
     else Some (graph, next_border))"

definition relax_node ::
  "'w wot_ops \<Rightarrow> 'w \<Rightarrow> nat \<Rightarrow> node_id \<Rightarrow> path_graph \<times> node_id set \<Rightarrow>
   (path_graph \<times> node_id set) run" where
  "relax_node ops w distance node st = do {
     sources \<leftarrow> w_get_links_source ops w node;
     fold_run (relax distance node) sources st
   }"

definition explore_layer ::
  "(node_id set \<Rightarrow> node_id list) \<Rightarrow> 'w wot_ops \<Rightarrow> 'w \<Rightarrow> nat \<Rightarrow> path_graph \<times> node_id set \<Rightarrow>
   (path_graph \<times> node_id set) run" where
  "explore_layer it ops w distance = (\<lambda>(graph, border).
     fold_run (relax_node ops w distance) (it border) (graph, {}))"

text \<open>One path of the second phase: kept when it has reached the target, else completed.\<close>

definition extend_path :: "path_graph \<Rightarrow> node_id \<Rightarrow> node_id list \<Rightarrow> node_id list list run" where
  "extend_path graph to path =
     (if path = [] then None
      else if last path = to then Some [path]
      else if last path \<ge> length graph then None
      else Some (map (\<lambda>s. path @ [s]) (snd (graph ! last path))))"

fun extend_rounds :: "path_graph \<Rightarrow> node_id \<Rightarrow> nat \<Rightarrow> node_id list list \<Rightarrow> node_id list list run" where
  "extend_rounds graph to 0 paths = Some paths"
| "extend_rounds graph to (Suc n) paths = do {
     new_paths \<leftarrow> map_run (extend_path graph to) paths;
     extend_rounds graph to n (concat new_paths)
   }"

definition find_paths ::
  "profile \<Rightarrow> (node_id set \<Rightarrow> node_id list) \<Rightarrow> 'w wot_ops \<Rightarrow> 'w \<Rightarrow> node_id \<Rightarrow> node_id \<Rightarrow> nat \<Rightarrow>
   node_id list list run" where
  "find_paths p it ops w frm to k_max =
     (if frm \<ge> w_size ops w \<or> to \<ge> w_size ops w then Some []
      else do {
        far \<leftarrow> u32_add p k_max 1;
        let graph = (replicate (w_size ops w) (far, []))[to := (0, [])];
        (graph, border) \<leftarrow> fold_run (explore_layer it ops w) [1..<Suc k_max] (graph, {to});
        extend_rounds graph to k_max [[frm]]
      })"

text \<open>
  The chains of certifications from one node to another, and the shortest ones of at most \<open>k\<close>
  links.
\<close>

definition cert_path :: "'w wot_ops \<Rightarrow> 'w \<Rightarrow> node_id list \<Rightarrow> bool" where
  "cert_path ops w path \<longleftrightarrow> path \<noteq> [] \<and>
     (\<forall>i. Suc i < length path \<longrightarrow> path ! i \<in> sources ops w (path ! Suc i))"

definition shortest_paths :: "'w wot_ops \<Rightarrow> 'w \<Rightarrow> node_id \<Rightarrow> node_id \<Rightarrow> nat \<Rightarrow> node_id list set" where
  "shortest_paths ops w frm to k =
     {path. cert_path ops w path \<and> hd path = frm \<and> last path = to \<and> length path \<le> Suc k \<and>
       frm \<in> at_distance ops w (length path - 1) to}"

text \<open>
  The state of the search when the edges \<open>E\<close> of the current layer have been seen: \<open>W\<close> are the
  nodes of the earlier layers and \<open>g0\<close> the graph at the start of the layer.
\<close>

definition node_state ::
  "nat \<Rightarrow> node_id set \<Rightarrow> (node_id \<times> node_id) set \<Rightarrow> nat \<times> node_id list \<Rightarrow> node_id \<Rightarrow>
   nat \<times> node_id list \<Rightarrow> bool" where
  "node_state d W E e0 x e \<longleftrightarrow>
     (if x \<in> W \<or> (\<forall>y. (y, x) \<notin> E) then e = e0
      else fst e = d \<and> set (snd e) = {y. (y, x) \<in> E})"

definition layer_state ::
  "nat \<Rightarrow> node_id set \<Rightarrow> path_graph \<Rightarrow> (node_id \<times> node_id) set \<Rightarrow> path_graph \<times> node_id set \<Rightarrow> bool"
where
  "layer_state d W g0 E st \<longleftrightarrow>
     length (fst st) = length g0 \<and>
     snd st = {x. x \<notin> W \<and> (\<exists>y. (y, x) \<in> E)} \<and>
     (\<forall>x<length g0. node_state d W E (g0 ! x) x (fst st ! x))"

lemma node_state_other:
  "z \<noteq> x \<Longrightarrow> node_state d W (insert (y, x) E) e0 z e = node_state d W E e0 z e"
  by (simp add: node_state_def)

lemma layer_state_update:
  assumes "layer_state d W g0 E (g, nb)" "x < length g0"
    and "node_state d W (insert (y, x) E) (g0 ! x) x e"
  shows "layer_state d W g0 (insert (y, x) E) (g[x := e], if x \<in> W then nb else insert x nb)"
  using assms
  by (auto simp: layer_state_def nth_list_update node_state_other)

lemma relax_layer_state:
  assumes st: "layer_state d W g0 E st" and x: "x < length g0"
    and W: "x \<in> W \<Longrightarrow> fst (g0 ! x) < d"
    and far: "x \<notin> W \<Longrightarrow> d < fst (g0 ! x)"
  shows "\<exists>st'. relax d y x st = Some st' \<and> layer_state d W g0 (insert (y, x) E) st'"
proof -
  obtain g nb where g: "st = (g, nb)" by (cases st)
  have len: "length g = length g0" and at: "node_state d W E (g0 ! x) x (g ! x)"
    using st x by (auto simp: layer_state_def g)
  note update = layer_state_update[OF st[unfolded g] x, of y]
  consider "x \<in> W" | "x \<notin> W" "\<forall>y. (y, x) \<notin> E" | "x \<notin> W" "\<exists>y. (y, x) \<in> E" by blast
  then show ?thesis
  proof cases
    case 1
    then have e: "g ! x = g0 ! x" using at by (simp add: node_state_def)
    then have "relax d y x st = Some (g, nb)"
      using W[OF 1] x len by (simp add: relax_def g)
    moreover have "node_state d W (insert (y, x) E) (g0 ! x) x (g0 ! x)"
      using 1 by (simp add: node_state_def)
    ultimately show ?thesis using update[of "g0 ! x"] 1 e len x by simp
  next
    case 2
    then have "relax d y x st = Some (g[x := (d, [y])], insert x nb)"
      using at far x len by (simp add: relax_def node_state_def g)
    moreover have "node_state d W (insert (y, x) E) (g0 ! x) x (d, [y])"
      using 2 by (auto simp: node_state_def)
    ultimately show ?thesis using update[of "(d, [y])"] 2 by simp
  next
    case 3
    then have e: "fst (g ! x) = d" "set (snd (g ! x)) = {y. (y, x) \<in> E}"
      using at by (auto simp: node_state_def split: if_splits)
    then have "relax d y x st = Some (g[x := (d, snd (g ! x) @ [y])], insert x nb)"
      using x len by (simp add: relax_def g)
    moreover have "node_state d W (insert (y, x) E) (g0 ! x) x (d, snd (g ! x) @ [y])"
      using 3 e by (auto simp: node_state_def)
    ultimately show ?thesis using update[of "(d, snd (g ! x) @ [y])"] 3 by simp
  qed
qed

lemma relax_all_layer_state:
  assumes "layer_state d W g0 E st"
    and "\<And>x. x \<in> set xs \<Longrightarrow> x < length g0"
    and "\<And>x. x < length g0 \<Longrightarrow> x \<in> W \<Longrightarrow> fst (g0 ! x) < d"
    and "\<And>x. x < length g0 \<Longrightarrow> x \<notin> W \<Longrightarrow> d < fst (g0 ! x)"
  shows "\<exists>st'. fold_run (relax d y) xs st = Some st' \<and> layer_state d W g0 (E \<union> {y} \<times> set xs) st'"
proof -
  have "\<exists>st'. fold_run (relax d y) xs st = Some st' \<and>
      layer_state d W g0 (E \<union> {y} \<times> ({} \<union> set xs)) st'"
  proof (rule fold_run_invariant[where I = "\<lambda>A. layer_state d W g0 (E \<union> {y} \<times> A)"])
    fix A x s assume s: "layer_state d W g0 (E \<union> {y} \<times> A) s" "x \<in> set xs"
    have eq: "E \<union> {y} \<times> insert x A = insert (y, x) (E \<union> {y} \<times> A)" by blast
    show "\<exists>s'. relax d y x s = Some s' \<and> layer_state d W g0 (E \<union> {y} \<times> insert x A) s'"
      unfolding eq
      by (rule relax_layer_state[OF s(1) assms(2)[OF s(2)] assms(3,4)[OF assms(2)[OF s(2)]]])
  qed (use assms(1) in simp)
  then show ?thesis by simp
qed

text \<open>
  The graph after the layers up to \<open>d\<close>: a node at distance \<open>j \<le> d\<close> of the target holds \<open>j\<close> and
  the nodes that follow it on its shortest paths, the others are still out of range.
\<close>

definition searched ::
  "'w wot_ops \<Rightarrow> 'w \<Rightarrow> node_id \<Rightarrow> nat \<Rightarrow> nat \<Rightarrow> path_graph \<Rightarrow> bool" where
  "searched ops w to far d g \<longleftrightarrow>
     length g = w_size ops w \<and>
     (\<forall>x<w_size ops w.
        (x \<notin> within ops w d to \<longrightarrow> g ! x = (far, [])) \<and>
        (\<forall>j\<le>d. x \<in> at_distance ops w j to \<longrightarrow>
           fst (g ! x) = j \<and>
           set (snd (g ! x)) = {y. 0 < j \<and> y \<in> at_distance ops w (j - 1) to \<and> x \<in> sources ops w y}))"

lemma searched_next:
  assumes "searched ops w to far d g" "x < w_size ops w" "j \<le> d" "x \<in> at_distance ops w j to"
  shows "set (snd (g ! x)) =
    {y. 0 < j \<and> y \<in> at_distance ops w (j - 1) to \<and> x \<in> sources ops w y}"
  using assms by (simp add: searched_def)

context wot_graph
begin

lemma relax_node_layer_state:
  assumes inv: "invar w" and y: "y < w_size ops w" and len: "length g0 = w_size ops w"
    and st: "layer_state d W g0 E st"
    and W: "\<And>x. x < length g0 \<Longrightarrow> x \<in> W \<Longrightarrow> fst (g0 ! x) < d"
    and far: "\<And>x. x < length g0 \<Longrightarrow> x \<notin> W \<Longrightarrow> d < fst (g0 ! x)"
  shows "\<exists>st'. relax_node ops w d y st = Some st' \<and>
    layer_state d W g0 (E \<union> {y} \<times> sources ops w y) st'"
proof -
  obtain xs where xs: "w_get_links_source ops w y = Some xs" "set xs = sources ops w y"
    using links_sources[OF inv y] .
  have "x < length g0" if "x \<in> set xs" for x
    using sources_closed[OF inv, of y] that xs(2) len by auto
  from relax_all_layer_state[OF st this W far, of xs y] show ?thesis
    by (simp add: relax_node_def xs)
qed

lemma explore_layer_searched:
  assumes inv: "invar w" and to: "to < w_size ops w" and it: "iterates it"
    and g: "searched ops w to far d g" and far: "Suc d < far"
  shows "\<exists>g'. explore_layer it ops w (Suc d) (g, at_distance ops w d to) =
      Some (g', at_distance ops w (Suc d) to) \<and> searched ops w to far (Suc d) g'"
proof -
  let ?B = "at_distance ops w d to" and ?W = "within ops w d to"
  have len: "length g = w_size ops w" using g by (simp add: searched_def)
  have B: "set (it ?B) = ?B" using iterates_set[OF it finite_at_distance[OF inv to]] .
  have known: "fst (g ! x) < Suc d" if x: "x < length g" "x \<in> ?W" for x
  proof -
    obtain j where "j \<le> d" "x \<in> at_distance ops w j to" using x(2) within_at_distance by fast
    then show ?thesis using g x(1) len by (fastforce simp: searched_def)
  qed
  have unknown: "Suc d < fst (g ! x)" if "x < length g" "x \<notin> ?W" for x
    using g that len far by (simp add: searched_def)
  have "\<exists>s'. fold_run (relax_node ops w (Suc d)) (it ?B) (g, {}) = Some s' \<and>
      layer_state (Suc d) ?W g (SIGMA y:{} \<union> set (it ?B). sources ops w y) s'"
  proof (rule fold_run_invariant[where
        I = "\<lambda>A. layer_state (Suc d) ?W g (SIGMA y:A. sources ops w y)"])
    show "layer_state (Suc d) ?W g (SIGMA y:{}. sources ops w y) (g, {})"
      by (simp add: layer_state_def node_state_def)
  next
    fix A y s assume s: "layer_state (Suc d) ?W g (SIGMA y:A. sources ops w y) s" "y \<in> set (it ?B)"
    then have "y < w_size ops w" using B at_distance_bounded[OF inv to] by auto
    then have "\<exists>s'. relax_node ops w (Suc d) y s = Some s' \<and>
        layer_state (Suc d) ?W g ((SIGMA y:A. sources ops w y) \<union> {y} \<times> sources ops w y) s'"
      using relax_node_layer_state[OF inv _ len s(1) known unknown] by simp
    moreover have "(SIGMA y:A. sources ops w y) \<union> {y} \<times> sources ops w y =
        (SIGMA y:insert y A. sources ops w y)" by auto
    ultimately show "\<exists>s'. relax_node ops w (Suc d) y s = Some s' \<and>
        layer_state (Suc d) ?W g (SIGMA y:insert y A. sources ops w y) s'" by simp
  qed
  then obtain g' nb where r: "fold_run (relax_node ops w (Suc d)) (it ?B) (g, {}) = Some (g', nb)"
    and ls: "layer_state (Suc d) ?W g (SIGMA y:?B. sources ops w y) (g', nb)"
    by (auto simp: B)
  have nb: "nb = at_distance ops w (Suc d) to"
    using ls by (auto simp: layer_state_def at_distance_Suc)
  have "searched ops w to far (Suc d) g'"
    unfolding searched_def
  proof (intro conjI allI impI)
    show "length g' = w_size ops w" using ls len by (simp add: layer_state_def)
  next
    fix x assume x: "x < w_size ops w" "x \<notin> within ops w (Suc d) to"
    then have "x \<notin> ?W" "\<forall>y. (y, x) \<notin> (SIGMA y:?B. sources ops w y)"
      by (auto simp: within_Suc at_distance_Suc)
    then show "g' ! x = (far, [])"
      using ls x(1) g len by (simp add: layer_state_def node_state_def searched_def)
  next
    fix x j assume x: "x < w_size ops w" "j \<le> Suc d" "x \<in> at_distance ops w j to"
    let ?E = "SIGMA y:?B. sources ops w y"
    have ns: "node_state (Suc d) ?W ?E (g ! x) x (g' ! x)"
      using ls x(1) len by (simp add: layer_state_def)
    have "fst (g' ! x) = j \<and> set (snd (g' ! x)) =
        {y. 0 < j \<and> y \<in> at_distance ops w (j - 1) to \<and> x \<in> sources ops w y}"
    proof (cases "j \<le> d")
      case True
      then have "x \<in> ?W" using x(3) by (auto simp: within_def at_distance_def)
      then have "g' ! x = g ! x" using ns by (simp add: node_state_def)
      then show ?thesis using g x True by (simp add: searched_def)
    next
      case False
      then have j: "j = Suc d" using x(2) by simp
      then have "x \<notin> ?W" "\<exists>y. (y, x) \<in> ?E" using x(3) by (auto simp: at_distance_Suc)
      then show ?thesis using ns j by (auto simp: node_state_def)
    qed
    then show "fst (g' ! x) = j" "set (snd (g' ! x)) =
        {y. 0 < j \<and> y \<in> at_distance ops w (j - 1) to \<and> x \<in> sources ops w y}" by blast+
  qed
  then show ?thesis using r nb by (simp add: explore_layer_def)
qed

lemma explore_all_searched:
  assumes inv: "invar w" and to: "to < w_size ops w" and it: "iterates it" and far: "k < far"
  shows "\<exists>g. fold_run (explore_layer it ops w) [1..<Suc k]
        ((replicate (w_size ops w) (far, []))[to := (0, [])], {to}) =
      Some (g, at_distance ops w k to) \<and> searched ops w to far k g"
  using far
proof (induction k)
  case 0
  have "searched ops w to far 0 ((replicate (w_size ops w) (far, []))[to := (0, [])])"
    using to by (auto simp: searched_def nth_list_update)
  then show ?case by simp
next
  case (Suc k)
  then obtain g where "fold_run (explore_layer it ops w) [1..<Suc k]
        ((replicate (w_size ops w) (far, []))[to := (0, [])], {to}) =
      Some (g, at_distance ops w k to)" and g: "searched ops w to far k g" by auto
  moreover obtain g' where "explore_layer it ops w (Suc k) (g, at_distance ops w k to) =
      Some (g', at_distance ops w (Suc k) to)" "searched ops w to far (Suc k) g'"
    using explore_layer_searched[OF inv to it g Suc.prems] by auto
  ultimately show ?case by (simp add: fold_run_append del: upt_Suc_append add: upt_Suc_append[of 1])
qed

end

subsection \<open>Chains and distances\<close>

lemma cert_path_nonempty: "cert_path ops w path \<Longrightarrow> path \<noteq> []"
  by (simp add: cert_path_def)

lemma cert_path_snoc:
  assumes "path \<noteq> []"
  shows "cert_path ops w (path @ [y]) \<longleftrightarrow> cert_path ops w path \<and> last path \<in> sources ops w y"
proof -
  obtain n where n: "length path = Suc n" using assms by (cases path) auto
  have "(\<forall>i. Suc i < length (path @ [y]) \<longrightarrow> (path @ [y]) ! i \<in> sources ops w ((path @ [y]) ! Suc i)) \<longleftrightarrow>
      (\<forall>i<Suc n. (path @ [y]) ! i \<in> sources ops w ((path @ [y]) ! Suc i))"
    by (simp add: n)
  also have "\<dots> \<longleftrightarrow> (\<forall>i<n. path ! i \<in> sources ops w (path ! Suc i)) \<and> path ! n \<in> sources ops w y"
    using less_Suc_eq[of _ n] by (auto simp: nth_append n)
  finally show ?thesis using assms by (simp add: cert_path_def n last_conv_nth conj_comms)
qed

lemma cert_path_snocI:
  "cert_path ops w path \<Longrightarrow> last path \<in> sources ops w y \<Longrightarrow> cert_path ops w (path @ [y])"
  using cert_path_snoc cert_path_nonempty by fast

lemma cert_path_relpow:
  "cert_path ops w path \<Longrightarrow> (last path, hd path) \<in> certified_by ops w ^^ (length path - 1)"
proof (induction path rule: rev_induct)
  case (snoc y path)
  show ?case
  proof (cases "path = []")
    case False
    have step: "(y, last path) \<in> certified_by ops w" and cp: "cert_path ops w path"
      using snoc.prems cert_path_snoc[OF False, of ops w y] by (auto simp: certified_by_def)
    have "(y, hd path) \<in> certified_by ops w ^^ Suc (length path - 1)"
      by (rule relpow_Suc_I2[OF step snoc.IH[OF cp]])
    then show ?thesis using False by (simp del: relpow.simps)
  qed simp
qed (simp add: cert_path_def)

lemma at_distance_triangle:
  assumes "x \<in> at_distance ops w D to" "(to, z) \<in> certified_by ops w ^^ j"
    and "(z, x) \<in> certified_by ops w ^^ n"
  shows "D \<le> j + n"
proof (rule ccontr)
  assume "\<not> D \<le> j + n"
  moreover have "(to, x) \<in> certified_by ops w ^^ (j + n)"
    using assms(2,3) by (auto simp: relpow_add)
  ultimately show False using assms(1) by (auto simp: at_distance_def)
qed

text \<open>The prefixes of length \<open>n\<close> of the shortest paths of a node at distance \<open>D\<close>.\<close>

definition prefixes ::
  "'w wot_ops \<Rightarrow> 'w \<Rightarrow> node_id \<Rightarrow> node_id \<Rightarrow> nat \<Rightarrow> nat \<Rightarrow> node_id list set" where
  "prefixes ops w frm to D n =
     {path. cert_path ops w path \<and> hd path = frm \<and> length path = Suc (min n D) \<and>
       last path \<in> at_distance ops w (D - min n D) to}"

lemma prefixes_Suc:
  assumes D: "frm \<in> at_distance ops w D to" and n: "n < D"
  shows "prefixes ops w frm to D (Suc n) =
    {path @ [y] | path y. path \<in> prefixes ops w frm to D n \<and>
       y \<in> at_distance ops w (D - n - 1) to \<and> last path \<in> sources ops w y}"
proof (intro set_eqI iffI)
  fix q assume q: "q \<in> prefixes ops w frm to D (Suc n)"
  define p y where "p = butlast q" and "y = last q"
  have len: "length q = Suc (Suc n)" using q n by (simp add: prefixes_def)
  then have p: "length p = Suc n" "q \<noteq> []" by (auto simp: p_def)
  from p(1) have p: "p \<noteq> []" "length p = Suc n" by auto
  have qp: "q = p @ [y]" using len by (cases q rule: rev_cases) (auto simp: p_def y_def)
  have cp: "cert_path ops w p" "last p \<in> sources ops w y" and hd: "hd p = frm"
    and y: "y \<in> at_distance ops w (D - n - 1) to"
    using q n p by (auto simp: prefixes_def qp cert_path_snoc)
  have "(to, last p) \<in> certified_by ops w ^^ Suc (D - n - 1)"
    using y cp(2) by (auto simp: at_distance_def certified_by_def)
  moreover have "(to, last p) \<notin> certified_by ops w ^^ j" if "j < D - n" for j
    using at_distance_triangle[OF D, of "last p" j n] cert_path_relpow[OF cp(1)] hd p that by force
  ultimately have "last p \<in> at_distance ops w (D - n) to"
    using n by (auto simp: at_distance_def Suc_diff_Suc simp del: relpow.simps)
  then have "p \<in> prefixes ops w frm to D n"
    using cp hd p n by (simp add: prefixes_def)
  then show "q \<in> {path @ [y] | path y. path \<in> prefixes ops w frm to D n \<and>
       y \<in> at_distance ops w (D - n - 1) to \<and> last path \<in> sources ops w y}"
    using qp y cp by blast
next
  fix q assume "q \<in> {path @ [y] | path y. path \<in> prefixes ops w frm to D n \<and>
       y \<in> at_distance ops w (D - n - 1) to \<and> last path \<in> sources ops w y}"
  then show "q \<in> prefixes ops w frm to D (Suc n)"
    using n by (auto simp: prefixes_def dest: cert_path_nonempty intro: cert_path_snocI)
qed

lemma prefixes_0:
  assumes "frm \<in> at_distance ops w D to"
  shows "prefixes ops w frm to D 0 = {[frm]}"
proof -
  have "path = [frm]" if "length path = Suc 0" "hd path = frm" for path
    using that by (cases path) auto
  moreover have "cert_path ops w [frm]" by (simp add: cert_path_def)
  ultimately show ?thesis using assms by (auto simp: prefixes_def)
qed

lemma prefixes_stable: "D \<le> n \<Longrightarrow> prefixes ops w frm to D n = prefixes ops w frm to D D"
  by (simp add: prefixes_def)

lemma shortest_paths_prefixes:
  assumes "frm \<in> at_distance ops w D to" "D \<le> k"
  shows "shortest_paths ops w frm to k = prefixes ops w frm to D D"
proof (intro set_eqI iffI)
  fix path assume p: "path \<in> shortest_paths ops w frm to k"
  then have "length path - 1 = D" "path \<noteq> []"
    using at_distance_unique[OF assms(1)] by (auto simp: shortest_paths_def cert_path_def)
  moreover have "to \<in> at_distance ops w 0 to" by simp
  ultimately show "path \<in> prefixes ops w frm to D D"
    using p by (cases path) (simp_all add: shortest_paths_def prefixes_def)
next
  fix path assume "path \<in> prefixes ops w frm to D D"
  then show "path \<in> shortest_paths ops w frm to k"
    using assms by (simp add: shortest_paths_def prefixes_def)
qed

context wot_graph
begin

lemma extend_round_prefixes:
  assumes inv: "invar w" and to: "to < w_size ops w" and frm: "frm \<in> at_distance ops w D to"
    and g: "searched ops w to far k g" and k: "D \<le> k"
    and paths: "set paths = prefixes ops w frm to D n"
  shows "\<exists>new. map_run (extend_path g to) paths = Some new \<and>
    set (concat new) = prefixes ops w frm to D (Suc n)"
proof -
  let ?next = "\<lambda>path. if last path = to then [path] else map (\<lambda>s. path @ [s]) (snd (g ! last path))"
  have last: "last path < w_size ops w \<and> path \<noteq> []" if "path \<in> set paths" for path
    using that paths at_distance_bounded[OF inv to] by (auto simp: prefixes_def)
  have len: "length g = w_size ops w" using g by (simp add: searched_def)
  have "map_run (extend_path g to) paths = Some (map ?next paths)"
  proof (rule map_run_total)
    fix path assume "path \<in> set paths"
    from last[OF this] show "extend_path g to path = Some (?next path)"
      by (simp add: extend_path_def len)
  qed
  moreover have "set (concat (map ?next paths)) = prefixes ops w frm to D (Suc n)"
  proof (cases "n < D")
    case True
    have step: "set (?next path) = {path @ [y] | y. y \<in> at_distance ops w (D - n - 1) to \<and>
        last path \<in> sources ops w y}" if "path \<in> set paths" for path
    proof -
      have l: "last path \<in> at_distance ops w (D - n) to" "last path < w_size ops w"
        using that paths last[OF that] True by (auto simp: prefixes_def min_def)
      have "last path \<noteq> to"
        using at_distance_unique[of to ops w 0 to "D - n"] l(1) True by (metis at_distance_0 not_less
            singletonI diff_is_0_eq)
      moreover have "set (snd (g ! last path)) =
          {y. 0 < D - n \<and> y \<in> at_distance ops w (D - n - 1) to \<and> last path \<in> sources ops w y}"
        using searched_next[OF g l(2) _ l(1)] k by simp
      ultimately show ?thesis using True by auto
    qed
    have "set (concat (map ?next paths)) = (\<Union>path\<in>set paths. {path @ [y] | y.
        y \<in> at_distance ops w (D - n - 1) to \<and> last path \<in> sources ops w y})"
      unfolding set_concat set_map image_image by (rule SUP_cong[OF refl step])
    also have "\<dots> = prefixes ops w frm to D (Suc n)"
      unfolding prefixes_Suc[OF frm True] paths by blast
    finally show ?thesis .
  next
    case False
    then have "last path = to" if "path \<in> set paths" for path
      using that paths by (simp add: prefixes_def)
    then have "set (concat (map ?next paths)) = set paths" by simp
    also have "\<dots> = prefixes ops w frm to D (Suc n)"
      using False paths prefixes_stable[of D n ops w frm to] prefixes_stable[of D "Suc n" ops w frm to]
      by simp
    finally show ?thesis .
  qed
  ultimately show ?thesis by blast
qed

lemma extend_rounds_prefixes:
  assumes "invar w" "to < w_size ops w" "frm \<in> at_distance ops w D to"
    and "searched ops w to far k g" "D \<le> k" "set paths = prefixes ops w frm to D n"
  shows "\<exists>ps. extend_rounds g to m paths = Some ps \<and> set ps = prefixes ops w frm to D (n + m)"
  using assms(6)
proof (induction m arbitrary: paths n)
  case (Suc m)
  from extend_round_prefixes[OF assms(1-5) Suc.prems]
  obtain new where "map_run (extend_path g to) paths = Some new"
    "set (concat new) = prefixes ops w frm to D (Suc n)" by blast
  with Suc.IH[OF this(2)] show ?case by simp
qed simp

lemma extend_rounds_Nil: "extend_rounds g to m [] = Some []"
  by (induction m) auto

lemma find_paths_spec:
  assumes inv: "invar w" and it: "iterates it" and known: "frm < w_size ops w" "to < w_size ops w"
    and k: "0 < k" "k < 2 ^ 32 - 1"
  shows "\<exists>ps. find_paths p it ops w frm to k = Some ps \<and> set ps = shortest_paths ops w frm to k"
proof -
  obtain g where g: "fold_run (explore_layer it ops w) [1..<Suc k]
        ((replicate (w_size ops w) (k + 1, []))[to := (0, [])], {to}) =
      Some (g, at_distance ops w k to)" "searched ops w to (k + 1) k g"
    using explore_all_searched[OF inv known(2) it, of k "k + 1"] by auto
  have find: "find_paths p it ops w frm to k = extend_rounds g to k [[frm]]"
  proof -
    have "u32_add p k 1 = Some (k + 1)" using k by (simp add: u32_add_def)
    then show ?thesis using known g(1) unfolding find_paths_def Let_def by simp
  qed
  show ?thesis
  proof (cases "frm \<in> within ops w k to")
    case True
    obtain D where D: "D \<le> k" "frm \<in> at_distance ops w D to"
      using within_at_distance[OF True] by auto
    have "set [[frm]] = prefixes ops w frm to D 0"
      using prefixes_0[OF D(2)] by simp
    from extend_rounds_prefixes[OF inv known(2) D(2) g(2) D(1) this, of k] show ?thesis
      unfolding find shortest_paths_prefixes[OF D(2,1)] add_0 prefixes_stable[OF D(1)] .
  next
    case False
    have "to \<in> within ops w k to" by (auto simp: within_def intro: exI[of _ 0])
    then have "frm \<noteq> to" using False by blast
    moreover have "g ! frm = (k + 1, [])" "length g = w_size ops w"
      using g(2) known False by (simp_all add: searched_def)
    ultimately have "extend_rounds g to k [[frm]] = Some []"
      using k known by (cases k) (simp_all add: extend_path_def extend_rounds_Nil)
    moreover have "shortest_paths ops w frm to k = {}"
      using False by (fastforce simp: shortest_paths_def at_distance_def within_def)
    ultimately show ?thesis using find by simp
  qed
qed

end

subsection \<open>Properties\<close>



text \<open>
  With \<open>k_max = 0\<close> the search returns the one-node path from the source even when the source
  is not the target: a path that does not lead to the target.
\<close>

theorem find_paths_zero_links:
  assumes "frm < w_size ops w" "to < w_size ops w" "frm \<noteq> to"
  shows "find_paths p it ops w frm to 0 = Some [[frm]] \<and>
    [frm] \<notin> shortest_paths ops w frm to 0"
  using assms by (simp add: find_paths_def shortest_paths_def)

theorem find_paths_zero_links_witness:
  "[0] \<notin> shortest_paths (rusty_ops Debug sorted_list_of_set) example_wot 0 3 0"
  using find_paths_zero_links[of 0 "rusty_ops Debug sorted_list_of_set" example_wot 3 Debug
      sorted_list_of_set]
  by (simp add: example_wot_def rusty_size_def)

end
