(* ===== verification/Wot_File.thy ===== *)
theory Wot_File
  imports Rusty_Wot
begin

text \<open>
  \<open>BinaryFileFormater\<close> of \<open>lib/tools/wot/operations/file.rs\<close>: the binary format of a web of
  trust on disk, as the writer and the reader have it, with a disk as a map from paths to bytes.

  The \<open>byteorder\<close> crate is a parameter: its big-endian writers and readers of 32 and 24 bits.
  Bytes are naturals below 256. The theorems show on which graphs reading gives back what was
  written, and that the padding byte of the writer breaks the others.
\<close>

record byte_order =
  bo_write_u32 :: "nat \<Rightarrow> nat list"
  bo_read_u32 :: "nat list \<Rightarrow> nat run"
  bo_write_u24 :: "nat \<Rightarrow> nat list run"
  bo_read_u24 :: "nat list \<Rightarrow> nat run"

text \<open>What the documentation of the crate says of these four functions.\<close>

definition big_endian :: "byte_order \<Rightarrow> bool" where
  "big_endian bo \<longleftrightarrow>
     (\<forall>n<2 ^ 32. length (bo_write_u32 bo n) = 4 \<and> bo_read_u32 bo (bo_write_u32 bo n) = Some n) \<and>
     (\<forall>n<2 ^ 24. \<exists>bs. bo_write_u24 bo n = Some bs \<and> length bs = 3 \<and> bo_read_u24 bo bs = Some n)"

datatype 'e wot_parse_error = FailToOpenFile 'e | IOError 'e
datatype 'e wot_write_error = WrongWotSize | FailToCreateFile 'e | FailToWriteInFile 'e

subsection \<open>The writer\<close>

text \<open>
  The loop over the enable states: the bytes written, the byte in progress and the weight of the
  next node in it. \<open>None\<close> is the early return with \<open>WrongWotSize\<close>.
\<close>

definition write_state ::
  "'w wot_ops \<Rightarrow> 'w \<Rightarrow> nat \<Rightarrow> nat list \<times> nat \<times> nat \<Rightarrow> (nat list \<times> nat \<times> nat) option" where
  "write_state ops w n = (\<lambda>(buffer, enable_states, factor).
     case w_is_enabled ops w n of
       None \<Rightarrow> None
     | Some enable \<Rightarrow>
         (let enable_states = (if enable then enable_states + factor else enable_states)
          in if n mod 8 = 7 then Some (buffer @ [enable_states], 0, 128)
             else Some (buffer, enable_states, factor div 2)))"

definition write_states :: "'w wot_ops \<Rightarrow> 'w \<Rightarrow> nat \<Rightarrow> nat list option" where
  "write_states ops w nodes_count = do {
     (buffer, enable_states, factor) \<leftarrow> fold_run (write_state ops w) [0..<nodes_count] ([], 0, 128);
     Some (if nodes_count mod 8 \<noteq> 7 then buffer @ [enable_states] else buffer)
   }"

definition write_links :: "byte_order \<Rightarrow> 'w wot_ops \<Rightarrow> 'w \<Rightarrow> nat \<Rightarrow> nat list run" where
  "write_links bo ops w n =
     (case w_get_links_source ops w n of
        None \<Rightarrow> Some []
      | Some srcs \<Rightarrow> do {
          bytes \<leftarrow> map_run (\<lambda>source. bo_write_u24 bo (as_u32 source)) srcs;
          Some ((length srcs mod 256) # concat bytes)
        })"

text \<open>The buffer the writer builds, \<open>None\<close> for the early return.\<close>

definition wot_bytes ::
  "byte_order \<Rightarrow> 'w wot_ops \<Rightarrow> 'w \<Rightarrow> nat list \<Rightarrow> nat list option run" where
  "wot_bytes bo ops w data =
     (let nodes_count = as_u32 (w_size ops w)
      in case write_states ops w nodes_count of
           None \<Rightarrow> Some None
         | Some states \<Rightarrow> do {
             links \<leftarrow> map_run (write_links bo ops w) [0..<nodes_count];
             Some (Some (bo_write_u32 bo (as_u32 (length data)) @ data @
               bo_write_u32 bo nodes_count @ states @ concat links))
           })"

text \<open>
  The disk: the content of the files and the errors the operating system reports, for a write
  with the number of bytes written before it.
\<close>

record 'e disk =
  d_files :: "string \<rightharpoonup> nat list"
  d_open_error :: "string \<Rightarrow> 'e option"
  d_read_error :: "string \<Rightarrow> 'e option"
  d_create_error :: "string \<Rightarrow> 'e option"
  d_write_error :: "string \<Rightarrow> ('e \<times> nat) option"

definition to_file ::
  "byte_order \<Rightarrow> 'w wot_ops \<Rightarrow> 'w \<Rightarrow> nat list \<Rightarrow> string \<Rightarrow> 'e disk \<Rightarrow>
   (('e wot_write_error + unit) \<times> 'e disk) run" where
  "to_file bo ops w data path disk = do {
     r \<leftarrow> wot_bytes bo ops w data;
     (case r of
        None \<Rightarrow> Some (Inl WrongWotSize, disk)
      | Some buffer \<Rightarrow>
          (case d_create_error disk path of
             Some e \<Rightarrow> Some (Inl (FailToCreateFile e), disk)
           | None \<Rightarrow>
               (case d_write_error disk path of
                  Some (e, n) \<Rightarrow>
                    Some (Inl (FailToWriteInFile e),
                      disk\<lparr>d_files := (d_files disk)(path \<mapsto> take n buffer)\<rparr>)
                | None \<Rightarrow> Some (Inr (), disk\<lparr>d_files := (d_files disk)(path \<mapsto> buffer)\<rparr>))))
   }"

subsection \<open>The reader\<close>

text \<open>\<open>Vec::split_off\<close>: the two parts, or a panic when the index is out of range.\<close>

definition split_off :: "nat \<Rightarrow> 'a list \<Rightarrow> ('a list \<times> 'a list) run" where
  "split_off n xs = (if n \<le> length xs then Some (take n xs, drop n xs) else None)"

text \<open>One of the eight turns on a byte of states: the graph, the nodes left, the byte, the weight.\<close>

definition read_state_bit ::
  "'w wot_ops \<Rightarrow> nat \<Rightarrow> 'w \<times> nat \<times> nat \<times> nat \<Rightarrow> 'w \<times> nat \<times> nat \<times> nat" where
  "read_state_bit ops nodes_count = (\<lambda>(w, remaining, byte, factor).
     if remaining > 0
     then
       (let w = snd (w_add_node ops w)
        in if byte \<ge> factor then (w, remaining - 1, byte - factor, factor div 2)
           else (snd (w_set_enabled ops (nodes_count - remaining) False w), remaining - 1, byte,
             factor div 2))
     else (w, remaining, byte, factor div 2))"

definition read_state_byte :: "'w wot_ops \<Rightarrow> nat \<Rightarrow> nat \<Rightarrow> 'w \<times> nat \<Rightarrow> 'w \<times> nat" where
  "read_state_byte ops nodes_count byte = (\<lambda>(w, remaining).
     (let (w, remaining, _, _) = (read_state_bit ops nodes_count ^^ 8) (w, remaining, byte, 128)
      in (w, remaining)))"

text \<open>The links: the graph, the bytes of the source in progress, their count, the links left, the target.\<close>

type_synonym 'w link_state = "'w \<times> nat list \<times> nat \<times> nat \<times> nat"

definition read_link_byte ::
  "profile \<Rightarrow> byte_order \<Rightarrow> 'w wot_ops \<Rightarrow> nat \<Rightarrow> 'w link_state \<Rightarrow> 'w link_state run" where
  "read_link_byte p bo ops byte = (\<lambda>(w, buffer_3b, count_bytes, remaining_links, target).
     if remaining_links = 0
     then do {
       target \<leftarrow> u32_add p target 1;
       Some (w, buffer_3b, 0, byte, target)
     }
     else
       (let buffer_3b = buffer_3b @ [byte]
        in if count_bytes mod 3 = 2
           then do {
             source \<leftarrow> bo_read_u24 bo buffer_3b;
             target_node \<leftarrow> u32_sub p target 1;
             let w = snd (w_add_link ops source target_node w);
             Some (w, [], count_bytes + 1, remaining_links - 1, target)
           }
           else Some (w, buffer_3b, count_bytes + 1, remaining_links, target)))"

definition parse_wot ::
  "profile \<Rightarrow> byte_order \<Rightarrow> 'w wot_ops \<Rightarrow> nat \<Rightarrow> nat list \<Rightarrow> ('w \<times> nat list) run" where
  "parse_wot p bo ops max_links file = do {
     (blockstamp_size, rest) \<leftarrow> split_off 4 file;
     blockstamp_size \<leftarrow> bo_read_u32 bo blockstamp_size;
     (blockstamp, rest) \<leftarrow> split_off blockstamp_size rest;
     (nodes_count, rest) \<leftarrow> split_off 4 rest;
     nodes_count \<leftarrow> bo_read_u32 bo nodes_count;
     let nodes_states_size =
       (if nodes_count mod 8 = 0 then nodes_count div 8 else nodes_count div 8 + 1);
     (states, links) \<leftarrow> split_off nodes_states_size rest;
     if length links + nodes_states_size + 4 + blockstamp_size + 4 \<noteq> length file then None
     else do {
       let (w, _) = fold (read_state_byte ops nodes_count) states (w_new ops max_links, nodes_count);
       (w, _, count_bytes, _, _) \<leftarrow> fold_run (read_link_byte p bo ops) links (w, [], 0, 0, 0);
       if count_bytes mod 3 \<noteq> 0 then None else Some (w, blockstamp)
     }
   }"

definition from_file ::
  "profile \<Rightarrow> byte_order \<Rightarrow> 'w wot_ops \<Rightarrow> string \<Rightarrow> nat \<Rightarrow> 'e disk \<Rightarrow>
   ('e wot_parse_error + 'w \<times> nat list) run" where
  "from_file p bo ops path max_links disk =
     (case d_files disk path of
        None \<Rightarrow> None
      | Some file \<Rightarrow>
          (case d_open_error disk path of
             Some e \<Rightarrow> Some (Inl (FailToOpenFile e))
           | None \<Rightarrow>
               (case d_read_error disk path of
                  Some e \<Rightarrow> Some (Inl (IOError e))
                | None \<Rightarrow> map_option Inr (parse_wot p bo ops max_links file))))"

subsection \<open>The states of the nodes\<close>

text \<open>
  \<open>tail_bits f k m i\<close> is the byte of the nodes \<open>8 * k, \<dots>, 8 * k + m - 1\<close> without its first \<open>i\<close>
  bits.
\<close>

definition tail_bits :: "(nat \<Rightarrow> bool) \<Rightarrow> nat \<Rightarrow> nat \<Rightarrow> nat \<Rightarrow> nat" where
  "tail_bits f k m i = (\<Sum>j\<in>{i..<m}. if f (8 * k + j) then 2 ^ (7 - j) else 0)"

abbreviation state_byte :: "(nat \<Rightarrow> bool) \<Rightarrow> nat \<Rightarrow> nat \<Rightarrow> nat" where
  "state_byte f k m \<equiv> tail_bits f k m 0"

lemma tail_bits_step:
  "i < m \<Longrightarrow> tail_bits f k m i = (if f (8 * k + i) then 2 ^ (7 - i) else 0) + tail_bits f k m (Suc i)"
  by (simp add: tail_bits_def sum.atLeast_Suc_lessThan)

lemma tail_bits_end [simp]: "m \<le> i \<Longrightarrow> tail_bits f k m i = 0"
  by (simp add: tail_bits_def)

lemma state_byte_Suc:
  "state_byte f k (Suc m) = state_byte f k m + (if f (8 * k + m) then 2 ^ (7 - m) else 0)"
  by (simp add: tail_bits_def)

lemma tail_bits_bound: "i \<le> m \<Longrightarrow> m \<le> 8 \<Longrightarrow> tail_bits f k m i < 2 ^ (8 - i)"
proof (induction i rule: inc_induct)
  case (step i)
  have "8 - i = Suc (7 - i)" "8 - Suc i = 7 - i" using step by linarith+
  then show ?case using step tail_bits_step[of i m f k] by simp
qed simp

text \<open>The state of the writer after \<open>n\<close> nodes.\<close>

lemma write_state_known:
  "w_is_enabled ops w n = Some b \<Longrightarrow>
   write_state ops w n (buffer, e, factor) =
     Some (if n mod 8 = 7 then (buffer @ [if b then e + factor else e], 0, 128)
       else (buffer, if b then e + factor else e, factor div 2))"
  by (simp add: write_state_def)

lemma write_states_prefix:
  assumes "\<And>i. i < n \<Longrightarrow> w_is_enabled ops w i = Some (f i)"
  shows "fold_run (write_state ops w) [0..<n] ([], 0, 128) =
    Some (map (\<lambda>k. state_byte f k 8) [0..<n div 8], state_byte f (n div 8) (n mod 8),
      2 ^ (7 - n mod 8))"
  using assms
proof (induction n)
  case (Suc n)
  let ?m = "n mod 8" and ?k = "n div 8"
  have n: "n = 8 * ?k + ?m" "w_is_enabled ops w n = Some (f n)" using Suc.prems by simp_all
  have byte: "state_byte f ?k (Suc ?m) = state_byte f ?k ?m + (if f n then 2 ^ (7 - ?m) else 0)"
    using state_byte_Suc[of f ?k ?m] n(1) by simp
  have ih: "fold_run (write_state ops w) [0..<n] ([], 0, 128) =
    Some (map (\<lambda>k. state_byte f k 8) [0..<?k], state_byte f ?k ?m, 2 ^ (7 - ?m))"
    using Suc by simp
  show ?case
  proof (cases "?m = 7")
    case True
    then have m: "Suc n div 8 = Suc ?k" "Suc n mod 8 = 0" by presburger+
    have "state_byte f ?k 8 = state_byte f ?k 7 + (if f n then 1 else 0)"
      using byte True by simp
    then show ?thesis unfolding m using ih n(2) True
      by (simp add: fold_run_snoc write_state_known)
  next
    case False
    then have m: "Suc n div 8 = ?k" "Suc n mod 8 = Suc ?m" "?m < 7" by presburger+
    then have "(2::nat) ^ (7 - ?m) div 2 = 2 ^ (7 - Suc ?m)"
      by (metis Suc_diff_Suc nonzero_mult_div_cancel_left power_Suc zero_neq_numeral)
    then show ?thesis using ih n(2) byte m False
      by (simp add: fold_run_snoc write_state_known)
  qed
qed simp

subsection \<open>Graphs given by their states and links\<close>

definition graph_of ::
  "nat \<Rightarrow> nat \<Rightarrow> (node_id \<Rightarrow> bool) \<Rightarrow> (node_id \<Rightarrow> node_id set) \<Rightarrow> rusty_wot" where
  "graph_of m n en L =
     \<lparr>r_nodes = map (\<lambda>i. \<lparr>n_enabled = en i, n_links_source = L i,
        n_issued_count = card {t. t < n \<and> i \<in> L t}\<rparr>) [0..<n],
      r_max_links = m\<rparr>"

lemma graph_of_simps [simp]:
  "length (r_nodes (graph_of m n en L)) = n"
  "r_max_links (graph_of m n en L) = m"
  "i < n \<Longrightarrow> n_enabled (r_nodes (graph_of m n en L) ! i) = en i"
  "i < n \<Longrightarrow> certifiers (graph_of m n en L) i = L i"
  "i < n \<Longrightarrow> n_issued_count (r_nodes (graph_of m n en L) ! i) = card {t. t < n \<and> i \<in> L t}"
  by (simp_all add: graph_of_def certifiers_def)

lemma graph_ofI:
  assumes "length (r_nodes w) = n" "r_max_links w = m"
    and "\<And>i. i < n \<Longrightarrow> n_enabled (r_nodes w ! i) = en i"
    and "\<And>i. i < n \<Longrightarrow> certifiers w i = L i"
    and "\<And>i. i < n \<Longrightarrow> n_issued_count (r_nodes w ! i) = card {t. t < n \<and> i \<in> L t}"
  shows "w = graph_of m n en L"
proof -
  have "r_nodes w = r_nodes (graph_of m n en L)"
    using assms by (intro nth_equalityI) (auto simp: graph_of_def certifiers_def)
  then show ?thesis using assms(2) by (simp add: graph_of_def)
qed

lemma graph_of_add_node: "snd (rusty_add_node (graph_of m n en (\<lambda>_. {}))) =
  graph_of m (Suc n) (en(n := True)) (\<lambda>_. {})"
  by (simp add: graph_of_def rusty_add_node_def node_new_def)

lemma graph_of_disable:
  assumes "i < n"
  shows "snd (rusty_set_enabled i False (graph_of m n en L)) = graph_of m n (en(i := False)) L"
proof (rule graph_ofI)
  fix j assume "j < n"
  then show "certifiers (snd (rusty_set_enabled i False (graph_of m n en L))) j = L j"
    by (simp add: certifiers_set_enabled)
qed (use assms in \<open>simp_all add: rusty_set_enabled_def nth_list_update\<close>)

lemma card_insert_target:
  fixes t n :: nat
  assumes "t < n" "s \<notin> L t"
  shows "card {u. u < n \<and> s \<in> (L(t := insert s (L t))) u} = Suc (card {u. u < n \<and> s \<in> L u})"
proof -
  have "{u. u < n \<and> s \<in> (L(t := insert s (L t))) u} = insert t {u. u < n \<and> s \<in> L u}"
    using assms by auto
  then show ?thesis using assms(2) by (simp del: fun_upd_apply)
qed

lemma graph_of_add_link:
  assumes "s < n" "t < n" "s \<noteq> t" "s \<notin> L t" "card {u. u < n \<and> s \<in> L u} < m"
  shows "snd (rusty_add_link s t (graph_of m n en L)) = graph_of m n en (L(t := insert s (L t)))"
proof (rule graph_ofI)
  have ok: "links (graph_of m n en L) s t" using assms by (simp add: links_def)
  fix i assume i: "i < n"
  show "certifiers (snd (rusty_add_link s t (graph_of m n en L))) i = (L(t := insert s (L t))) i"
    using ok i by (simp add: certifiers_add_link)
  have "i \<noteq> s \<Longrightarrow> {u. u < n \<and> i \<in> (L(t := insert s (L t))) u} = {u. u < n \<and> i \<in> L u}" by auto
  then show "n_issued_count (r_nodes (snd (rusty_add_link s t (graph_of m n en L))) ! i) =
      card {u. u < n \<and> i \<in> (L(t := insert s (L t))) u}"
    using ok i card_insert_target[of t n s L] assms by (simp add: issued_add_link)
qed (use assms in \<open>simp_all add: enabled_add_link max_add_link\<close>)

subsection \<open>Reading the states\<close>

text \<open>The nodes below \<open>i\<close> have their states, the others do not exist yet.\<close>

lemma read_state_bit_spec:
  assumes "8 * k + i < n" "i < m" "m \<le> 8"
  shows "read_state_bit (rusty_ops p it) n
      (graph_of mx (8 * k + i) f (\<lambda>_. {}), n - (8 * k + i), tail_bits f k m i, 128 div 2 ^ i) =
    (graph_of mx (8 * k + Suc i) f (\<lambda>_. {}), n - (8 * k + Suc i), tail_bits f k m (Suc i),
      128 div 2 ^ Suc i)"
proof -
  have factor: "(128::nat) div 2 ^ i = 2 ^ (7 - i)"
    using assms power_diff[of "2::nat" i 7] by simp
  have half: "(128::nat) div 2 ^ i div 2 = 128 div 2 ^ Suc i"
    by (simp add: div_mult2_eq[symmetric] mult.commute)
  have less: "tail_bits f k m (Suc i) < 2 ^ (7 - i)"
    using tail_bits_bound[of "Suc i" m f k] assms by simp
  have left: "n - (n - (8 * k + i)) = 8 * k + i" "0 < n - (8 * k + i)" using assms by simp_all
  show ?thesis
    using less assms(1) unfolding read_state_bit_def factor[symmetric]
    by (cases "f (8 * k + i)")
      (simp_all add: left Let_def tail_bits_step[OF assms(2)] graph_of_add_node graph_of_disable
        fun_upd_idem factor[symmetric] half del: power_Suc)
qed

lemma read_state_bits:
  assumes "j \<le> m" "m \<le> 8" "8 * k + m \<le> n"
  shows "(read_state_bit (rusty_ops p it) n ^^ j)
      (graph_of mx (8 * k) f (\<lambda>_. {}), n - 8 * k, state_byte f k m, 128) =
    (graph_of mx (8 * k + j) f (\<lambda>_. {}), n - (8 * k + j), tail_bits f k m j, 128 div 2 ^ j)"
  using assms(1)
proof (induction j)
  case (Suc j)
  then show ?case
    using read_state_bit_spec[of k j n m p it mx f] assms(2,3) by (simp del: power_Suc)
qed simp

lemma read_state_bits_done:
  "\<exists>b' f'. (read_state_bit ops n ^^ j) (w, 0, b, f) = (w, 0, b', f')"
  by (induction j) (auto simp: read_state_bit_def)

lemma read_state_byte_spec:
  assumes "m \<le> 8" "8 * k + m \<le> n" "m = 8 \<or> 8 * k + m = n"
  shows "read_state_byte (rusty_ops p it) n (state_byte f k m)
      (graph_of mx (8 * k) f (\<lambda>_. {}), n - 8 * k) =
    (graph_of mx (8 * k + m) f (\<lambda>_. {}), n - (8 * k + m))"
proof (cases "m = 8")
  case True
  then show ?thesis
    using read_state_bits[of 8 m k n p it mx f] assms by (simp add: read_state_byte_def)
next
  case False
  then have n: "8 * k + m = n" using assms by simp
  have "(8::nat) = (8 - m) + m" using assms by simp
  then have "read_state_bit (rusty_ops p it) n ^^ 8 =
      read_state_bit (rusty_ops p it) n ^^ (8 - m) \<circ> read_state_bit (rusty_ops p it) n ^^ m"
    by (metis funpow_add)
  moreover obtain b' f' where "(read_state_bit (rusty_ops p it) n ^^ (8 - m))
      (graph_of mx n f (\<lambda>_. {}), 0, 0, 128 div 2 ^ m) = (graph_of mx n f (\<lambda>_. {}), 0, b', f')"
    by atomize_elim (rule read_state_bits_done)
  ultimately show ?thesis
    using read_state_bits[OF order.refl assms(1,2), of p it mx f] n
    by (simp add: read_state_byte_def)
qed

lemma read_states_prefix:
  "8 * j \<le> n \<Longrightarrow>
   fold (read_state_byte (rusty_ops p it) n) (map (\<lambda>k. state_byte f k 8) [0..<j]) (rusty_new mx, n) =
     (graph_of mx (8 * j) f (\<lambda>_. {}), n - 8 * j)"
proof (induction j)
  case 0
  show ?case by (simp add: graph_of_def rusty_new_def)
next
  case (Suc j)
  then show ?case using read_state_byte_spec[of 8 j n p it f mx] by (simp add: add.commute)
qed

lemma read_states_spec:
  assumes "n mod 8 \<noteq> 0"
  shows "fold (read_state_byte (rusty_ops p it) n)
      (map (\<lambda>k. state_byte f k 8) [0..<n div 8] @ [state_byte f (n div 8) (n mod 8)])
      (rusty_new mx, n) = (graph_of mx n f (\<lambda>_. {}), 0)"
proof -
  have n: "8 * (n div 8) \<le> n" "8 * (n div 8) + n mod 8 = n" by simp_all
  then show ?thesis
    using read_states_prefix[OF n(1), of p it f mx]
      read_state_byte_spec[of "n mod 8" "n div 8" n p it f mx] by simp
qed

subsection \<open>Reading the links\<close>

lemma read_source:
  assumes "big_endian bo" "s < 2 ^ 24" "bo_write_u24 bo s = Some bs" "c mod 3 = 0" "0 < r"
  shows "fold_run (read_link_byte p bo ops) bs (w, [], c, r, Suc t) =
    Some (snd (w_add_link ops s t w), [], c + 3, r - 1, Suc t)"
proof -
  have bs: "length bs = 3" "bo_read_u24 bo bs = Some s"
    using assms(1-3) by (auto simp: big_endian_def)
  then obtain x y z where xyz: "bs = [x, y, z]" by (auto simp: length_Suc_conv numeral_eq_Suc)
  have c: "Suc c mod 3 = 1" "Suc (Suc c) mod 3 = 2" using assms(4) by presburger+
  show ?thesis using bs(2) c assms(4,5) by (simp add: xyz read_link_byte_def u32_sub_def)
qed

lemma read_sources:
  assumes bo: "big_endian bo" and n: "n \<le> 2 ^ 24"
    and t: "t < n" "t \<notin> set xs"
    and xs: "distinct xs" "set xs \<inter> L t = {}" "set xs \<subseteq> {..<n}"
    and room: "\<And>s. s \<in> set xs \<Longrightarrow> card {u. u < n \<and> s \<in> L u} < m"
    and bytes: "map_run (\<lambda>s. bo_write_u24 bo (as_u32 s)) xs = Some bss" and c: "c mod 3 = 0"
  shows "fold_run (read_link_byte p bo (rusty_ops p it)) (concat bss)
      (graph_of m n en L, [], c, length xs, Suc t) =
    Some (graph_of m n en (L(t := set xs \<union> L t)), [], c + 3 * length xs, 0, Suc t)"
  using xs room bytes c t(2)
proof (induction xs arbitrary: L bss c)
  case (Cons s xs)
  from Cons.prems(5) obtain bs bss' where bs: "bo_write_u24 bo (as_u32 s) = Some bs"
    "map_run (\<lambda>s. bo_write_u24 bo (as_u32 s)) xs = Some bss'" "bss = bs # bss'"
    by (auto split: bind_splits)
  have s: "s < n" "s \<noteq> t" "s \<notin> L t" "as_u32 s = s" using Cons.prems n by auto
  let ?L = "L(t := insert s (L t))"
  have "card {u. u < n \<and> x \<in> ?L u} < m" if "x \<in> set xs" for x
  proof -
    have "{u. u < n \<and> x \<in> ?L u} = {u. u < n \<and> x \<in> L u}" using that Cons.prems(1) by auto
    then show ?thesis using Cons.prems(4)[of x] that by simp
  qed
  then have ih: "fold_run (read_link_byte p bo (rusty_ops p it)) (concat bss')
      (graph_of m n en ?L, [], c + 3, length xs, Suc t) =
    Some (graph_of m n en (?L(t := set xs \<union> ?L t)), [], c + 3 + 3 * length xs, 0, Suc t)"
    using Cons.prems bs(2) by (intro Cons.IH) auto
  moreover have "fold_run (read_link_byte p bo (rusty_ops p it)) bs
      (graph_of m n en L, [], c, Suc (length xs), Suc t) =
    Some (graph_of m n en ?L, [], c + 3, length xs, Suc t)"
    using read_source[OF bo, of s bs c "Suc (length xs)" p "rusty_ops p it" "graph_of m n en L" t]
      bs(1) s n Cons.prems(4)[of s] Cons.prems(6) graph_of_add_link[of s n t L m en] t(1)
    by simp
  moreover have "?L(t := set xs \<union> ?L t) = L(t := set (s # xs) \<union> L t)" by auto
  ultimately show ?case by (simp add: bs(3) fold_run_append del: fun_upd_apply)
qed simp

lemma read_target:
  assumes wf: "rusty_wf w" and bo: "big_endian bo" and it: "iterates it"
    and n: "n = length (r_nodes w)" "n \<le> 2 ^ 24" and t: "t < n"
    and degree: "card (certifiers w t) < 256"
    and room: "\<And>s. s < n \<Longrightarrow> card (issued_links w s) \<le> m"
    and L: "L = (\<lambda>u. if u < t then certifiers w u else {})"
  shows "\<exists>bytes. write_links bo (rusty_ops p it) w t = Some bytes \<and>
    fold_run (read_link_byte p bo (rusty_ops p it)) bytes (graph_of m n en L, [], c, 0, t) =
      Some (graph_of m n en (L(t := certifiers w t)), [], 3 * card (certifiers w t), 0, Suc t)"
proof -
  define xs where "xs = it (certifiers w t)"
  have xs: "set xs = certifiers w t" "distinct xs" "length xs = card (certifiers w t)"
    using iterates_set[OF it] iterates_distinct[OF it] iterates_length[OF it]
      finite_certifiers[OF wf, of t] by (simp_all add: xs_def)
  have sub: "set xs \<subseteq> {..<n}" using certifiers_bounded[OF wf] xs n by simp
  have "bo_write_u24 bo (as_u32 s) \<noteq> None" if "s \<in> set xs" for s
  proof -
    have "s < 2 ^ 24" "as_u32 s = s" using that sub n(2) by auto
    then show ?thesis using bo by (auto simp: big_endian_def)
  qed
  then obtain bss where bss: "map_run (\<lambda>s. bo_write_u24 bo (as_u32 s)) xs = Some bss"
    using map_run_total[of xs "\<lambda>s. bo_write_u24 bo (as_u32 s)"
        "\<lambda>s. the (bo_write_u24 bo (as_u32 s))"] by auto
  have "card {u. u < n \<and> s \<in> L u} < m" if "s \<in> set xs" for s
  proof -
    have "{u. u < n \<and> s \<in> L u} \<subset> issued_links w s"
      using that xs(1) by (auto simp: L issued_links_def split: if_splits)
    then have "card {u. u < n \<and> s \<in> L u} < card (issued_links w s)"
      by (rule psubset_card_mono[OF finite_issued_links])
    then show ?thesis using room[of s] that sub by fastforce
  qed
  then have "fold_run (read_link_byte p bo (rusty_ops p it)) (concat bss)
      (graph_of m n en L, [], 0, length xs, Suc t) =
    Some (graph_of m n en (L(t := set xs \<union> L t)), [], 0 + 3 * length xs, 0, Suc t)"
    using certifiers_irrefl[OF wf, of t] xs t
    by (intro read_sources[OF bo n(2) t _ xs(2) _ sub _ bss]) (auto simp: L)
  moreover have "w_get_links_source (rusty_ops p it) w t = Some xs"
    using t n(1) by (simp add: rusty_get_links_source_def get_node_def certifiers_def xs_def)
  ultimately show ?thesis using bss xs degree t n(2)
    by (simp add: write_links_def read_link_byte_def L)
qed

lemma read_targets:
  assumes "rusty_wf w" "big_endian bo" "iterates it"
    and "n = length (r_nodes w)" "n \<le> 2 ^ 24"
    and "\<And>t. t < n \<Longrightarrow> card (certifiers w t) < 256"
    and "\<And>s. s < n \<Longrightarrow> card (issued_links w s) \<le> m" and "j \<le> n"
  shows "\<exists>bytes c. map_run (write_links bo (rusty_ops p it) w) [0..<j] = Some bytes \<and>
    fold_run (read_link_byte p bo (rusty_ops p it)) (concat bytes)
      (graph_of m n en (\<lambda>_. {}), [], 0, 0, 0) =
    Some (graph_of m n en (\<lambda>u. if u < j then certifiers w u else {}), [], 3 * c, 0, j)"
  using assms(8)
proof (induction j)
  case 0
  show ?case by (auto intro: exI[of _ 0])
next
  case (Suc j)
  then obtain bytes c where b: "map_run (write_links bo (rusty_ops p it) w) [0..<j] = Some bytes"
    "fold_run (read_link_byte p bo (rusty_ops p it)) (concat bytes)
      (graph_of m n en (\<lambda>_. {}), [], 0, 0, 0) =
    Some (graph_of m n en (\<lambda>u. if u < j then certifiers w u else {}), [], 3 * c, 0, j)" by auto
  have upd: "(\<lambda>u. if u < j then certifiers w u else {})(j := certifiers w j) =
      (\<lambda>u. if u < Suc j then certifiers w u else {})" by (auto simp: less_Suc_eq fun_eq_iff)
  from read_target[OF assms(1-5) _ assms(6,7) refl, of j p en "3 * c"] Suc.prems
  obtain bs where "write_links bo (rusty_ops p it) w j = Some bs"
    "fold_run (read_link_byte p bo (rusty_ops p it)) bs
      (graph_of m n en (\<lambda>u. if u < j then certifiers w u else {}), [], 3 * c, 0, j) =
     Some (graph_of m n en (\<lambda>u. if u < Suc j then certifiers w u else {}), [],
       3 * card (certifiers w j), 0, Suc j)"
    unfolding upd by auto
  with b show ?case by (auto simp: map_run_snoc fold_run_append)
qed

subsection \<open>Writing then reading\<close>

text \<open>
  What reading gives for a graph: the same states and the same certifiers, the limit the reader
  was given, and counters equal to the number of links.
\<close>

definition reread :: "nat \<Rightarrow> rusty_wot \<Rightarrow> rusty_wot" where
  "reread max_links w =
     graph_of max_links (rusty_size w) (\<lambda>i. n_enabled (r_nodes w ! i)) (certifiers w)"

lemma reread_observed:
  "rusty_size (reread m w) = rusty_size w" "rusty_get_max_link (reread m w) = m"
  "\<forall>i. rusty_is_enabled (reread m w) i = rusty_is_enabled w i"
  "\<forall>i. certifiers (reread m w) i = certifiers w i"
  "\<forall>i<rusty_size w. rusty_issued_count (reread m w) i = Some (card (issued_links w i))"
proof -
  have issued: "{t. t < rusty_size w \<and> i \<in> certifiers w t} = issued_links w i" for i
    by (auto simp: issued_links_def rusty_size_def certifiers_def split: if_splits)
  have "certifiers (reread m w) i = certifiers w i" for i
    by (cases "i < rusty_size w") (simp_all add: reread_def certifiers_def rusty_size_def graph_of_def)
  then show "\<forall>i. certifiers (reread m w) i = certifiers w i" by blast
  show "\<forall>i<rusty_size w. rusty_issued_count (reread m w) i = Some (card (issued_links w i))"
    by (simp add: reread_def issued_count_eq issued)
qed (simp_all add: reread_def rusty_size_def rusty_get_max_link_def is_enabled_eq)

lemma write_states_rusty:
  assumes "n = rusty_size w" "n mod 8 \<noteq> 7"
  shows "write_states (rusty_ops p it) w n =
    Some (map (\<lambda>k. state_byte (\<lambda>i. n_enabled (r_nodes w ! i)) k 8) [0..<n div 8] @
      [state_byte (\<lambda>i. n_enabled (r_nodes w ! i)) (n div 8) (n mod 8)])"
proof -
  have "w_is_enabled (rusty_ops p it) w i = Some (n_enabled (r_nodes w ! i))" if "i < n" for i
    using that assms by (simp add: is_enabled_eq rusty_size_def)
  from write_states_prefix[OF this] show ?thesis using assms(2)
    by (simp add: write_states_def)
qed

lemma parse_wot_bytes:
  assumes wf: "rusty_wf w" and bo: "big_endian bo" and it: "iterates it"
    and n: "rusty_size w \<le> 2 ^ 24" "rusty_size w mod 8 \<noteq> 0" "rusty_size w mod 8 \<noteq> 7"
    and degree: "\<And>t. t < rusty_size w \<Longrightarrow> card (certifiers w t) < 256"
    and room: "\<And>s. s < rusty_size w \<Longrightarrow> card (issued_links w s) \<le> m"
    and data: "length data < 2 ^ 32"
  shows "\<exists>bytes. wot_bytes bo (rusty_ops p it) w data = Some (Some bytes) \<and>
    parse_wot p bo (rusty_ops p it) m bytes = Some (reread m w, data)"
proof -
  let ?ops = "rusty_ops p it" and ?n = "rusty_size w" and ?en = "\<lambda>i. n_enabled (r_nodes w ! i)"
  let ?states = "map (\<lambda>k. state_byte ?en k 8) [0..<?n div 8] @ [state_byte ?en (?n div 8) (?n mod 8)]"
  let ?ds = "bo_write_u32 bo (length data)" and ?ns = "bo_write_u32 bo ?n"
  have small: "as_u32 ?n = ?n" "as_u32 (length data) = length data" using n data by simp_all
  have u32: "length ?ds = 4" "bo_read_u32 bo ?ds = Some (length data)"
    "length ?ns = 4" "bo_read_u32 bo ?ns = Some ?n"
    using bo data n(1) by (auto simp: big_endian_def)
  have size: "?n = length (r_nodes w)" by (simp add: rusty_size_def)
  obtain bytes c where links: "map_run (write_links bo ?ops w) [0..<?n] = Some bytes"
    "fold_run (read_link_byte p bo ?ops) (concat bytes) (graph_of m ?n ?en (\<lambda>_. {}), [], 0, 0, 0) =
    Some (graph_of m ?n ?en (\<lambda>u. if u < ?n then certifiers w u else {}), [], 3 * c, 0, ?n)"
    using read_targets[OF wf bo it size n(1) degree room order.refl] by blast
  have all: "(\<lambda>u. if u < ?n then certifiers w u else {}) = certifiers w"
    by (auto simp: fun_eq_iff rusty_size_def certifiers_def)
  let ?file = "?ds @ data @ ?ns @ ?states @ concat bytes"
  have "wot_bytes bo ?ops w data = Some (Some ?file)"
    using write_states_rusty[OF refl n(3), of p it] links(1) by (simp add: wot_bytes_def small Let_def)
  moreover have "parse_wot p bo ?ops m ?file = Some (reread m w, data)"
    using u32 n(2) links(2) read_states_spec[OF n(2), of p it ?en m]
    by (simp add: parse_wot_def split_off_def reread_def all)
  ultimately show ?thesis by blast
qed

subsection \<open>Properties\<close>

text \<open>
  C39: A well-formed graph whose size is not \<open>0\<close> or \<open>7\<close> modulo 8, with fewer than 256 certifiers
  per node, that is written to a file and read back with a limit its counters respect is found
  again: same size, same states, same certifiers, same blockstamp, and counters equal to the
  number of links.
\<close>

theorem wot_file_roundtrip:
  assumes "rusty_wf w" "big_endian bo" "iterates it"
    and "rusty_size w \<le> 2 ^ 24" "rusty_size w mod 8 \<noteq> 0" "rusty_size w mod 8 \<noteq> 7"
    and "\<And>t. t < rusty_size w \<Longrightarrow> card (certifiers w t) < 256"
    and "\<And>s. s < rusty_size w \<Longrightarrow> card (issued_links w s) \<le> m"
    and "length data < 2 ^ 32"
    and "d_create_error disk path = None" "d_write_error disk path = None"
    and "d_open_error disk path = None" "d_read_error disk path = None"
  shows "\<exists>disk' w'. to_file bo (rusty_ops p it) w data path disk = Some (Inr (), disk') \<and>
    from_file p bo (rusty_ops p it) path m disk' = Some (Inr (w', data)) \<and>
    rusty_size w' = rusty_size w \<and> rusty_get_max_link w' = m \<and>
    (\<forall>i. rusty_is_enabled w' i = rusty_is_enabled w i) \<and>
    (\<forall>i. certifiers w' i = certifiers w i) \<and>
    (\<forall>i<rusty_size w. rusty_issued_count w' i = Some (card (issued_links w i)))"
proof -
  obtain bytes where "wot_bytes bo (rusty_ops p it) w data = Some (Some bytes)"
    "parse_wot p bo (rusty_ops p it) m bytes = Some (reread m w, data)"
    using parse_wot_bytes[OF assms(1-9), of p] by blast
  then have "to_file bo (rusty_ops p it) w data path disk =
      Some (Inr (), disk\<lparr>d_files := (d_files disk)(path \<mapsto> bytes)\<rparr>)"
    "from_file p bo (rusty_ops p it) path m (disk\<lparr>d_files := (d_files disk)(path \<mapsto> bytes)\<rparr>) =
      Some (Inr (reread m w, data))"
    using assms(10-13) by (simp_all add: to_file_def from_file_def)
  then show ?thesis using reread_observed[where m = m and w = w] by (intro exI conjI) assumption+
qed

text \<open>The functions of the crate, big-endian.\<close>

definition be_bytes :: byte_order where
  "be_bytes = \<lparr>
     bo_write_u32 = (\<lambda>n. [n div 16777216 mod 256, n div 65536 mod 256, n div 256 mod 256, n mod 256]),
     bo_read_u32 = (\<lambda>bs. if length bs < 4 then None
       else Some (((bs ! 0 * 256 + bs ! 1) * 256 + bs ! 2) * 256 + bs ! 3)),
     bo_write_u24 = (\<lambda>n. if n < 16777216
       then Some [n div 65536, n div 256 mod 256, n mod 256] else None),
     bo_read_u24 = (\<lambda>bs. if length bs < 3 then None
       else Some ((bs ! 0 * 256 + bs ! 1) * 256 + bs ! 2))\<rparr>"

lemma be_bytes_big_endian: "big_endian be_bytes"
proof -
  have "n div 65536 * 256 + n div 256 mod 256 = n div (256::nat)" for n
    using div_mult_mod_eq[of "n div 256" 256] by (simp add: div_mult2_eq[symmetric])
  moreover have "n div 16777216 mod 256 * 256 + n div 65536 mod 256 = n div (65536::nat)"
    if "n < 4294967296" for n
    using div_mult_mod_eq[of "n div 65536" 256] that by (simp add: div_mult2_eq[symmetric])
  ultimately show ?thesis by (simp add: big_endian_def be_bytes_def)
qed

definition empty_disk :: "unit disk" where
  "empty_disk = \<lparr>d_files = Map.empty, d_open_error = (\<lambda>_. None), d_read_error = (\<lambda>_. None),
     d_create_error = (\<lambda>_. None), d_write_error = (\<lambda>_. None)\<rparr>"

theorem wot_file_roundtrip_witness:
  "\<exists>disk' w'. to_file be_bytes (rusty_ops Debug sorted_list_of_set) example_wot [7, 8] ''wot.bin''
      empty_disk = Some (Inr (), disk') \<and>
    from_file Debug be_bytes (rusty_ops Debug sorted_list_of_set) ''wot.bin'' 3 disk' =
      Some (Inr (w', [7, 8])) \<and>
    (\<forall>i. certifiers w' i = certifiers example_wot i)"
proof -
  have size: "rusty_size example_wot = 4" by (simp add: example_wot_def rusty_size_def)
  have sub: "certifiers example_wot t \<subseteq> {..<4}" "issued_links example_wot t \<subseteq> {..<4}" for t
    using certifiers_bounded[OF example_wot_wf, of t] size
    by (auto simp: rusty_size_def issued_links_def certifiers_def split: if_splits)
  have "card (certifiers example_wot t) < 256" for t
    using card_mono[OF _ sub(1), of t] by simp
  moreover have "card (issued_links example_wot s) \<le> 3" if "s < 4" for s
  proof -
    have "s \<notin> issued_links example_wot s"
      using certifiers_irrefl[OF example_wot_wf] by (simp add: issued_links_def)
    then have "card (issued_links example_wot s) \<le> card ({..<4} - {s})"
      using sub(2) by (intro card_mono) auto
    then show ?thesis using that by simp
  qed
  ultimately show ?thesis
    using wot_file_roundtrip[OF example_wot_wf be_bytes_big_endian iterates_sorted_list_of_set,
        of 3 "[7, 8]" empty_disk "''wot.bin''" Debug]
    by (auto simp: size empty_disk_def)
qed

definition eight_members :: rusty_wot where
  "eight_members = \<lparr>r_nodes =
     node_new\<lparr>n_issued_count := 1\<rparr> # node_new\<lparr>n_links_source := {0}\<rparr> # replicate 6 node_new,
     r_max_links = 10\<rparr>"

text \<open>
  The padding of the states is written when the size is not \<open>7\<close> modulo 8 instead of not
  \<open>0\<close>: a graph of eight members, in which 0 certifies 1, comes back from its file with the
  certification moved to the next member.
\<close>

theorem wot_file_eight_members:
  "(do {
      r \<leftarrow> wot_bytes be_bytes (rusty_ops Debug sorted_list_of_set) eight_members [];
      (w, _) \<leftarrow> parse_wot Debug be_bytes (rusty_ops Debug sorted_list_of_set) 10 (the r);
      Some (certifiers eight_members 1, certifiers w 1, certifiers w 2)
    }) = Some ({0}, {}, {0})"
proof -
  let ?ops = "rusty_ops Debug sorted_list_of_set"
  note defs = eight_members_def rusty_size_def is_enabled_eq node_new_def rusty_get_links_source_def
    get_node_def as_u32_def be_bytes_def nth_Cons'
  have upt: "[0..<8] = [0, 1, 2, 3, 4, 5, 6, 7 :: nat]" by (simp add: upt_rec)
  have "write_states ?ops eight_members 8 = Some [255, 0]"
    by (simp add: write_states_def write_state_def upt) (simp add: defs)
  moreover have "map_run (write_links be_bytes ?ops eight_members) [0..<8] =
      Some [[0], [1, 0, 0, 0], [0], [0], [0], [0], [0], [0]]"
    by (simp add: write_links_def upt) (simp add: defs)
  ultimately have "wot_bytes be_bytes ?ops eight_members [] =
      Some (Some [0, 0, 0, 0, 0, 0, 0, 8, 255, 0, 0, 1, 0, 0, 0, 0, 0, 0, 0, 0, 0])"
    by (simp add: wot_bytes_def) (simp add: defs)
  moreover have "fold (read_state_byte ?ops 8) [255] (rusty_new 10, 8) =
      (graph_of 10 8 (\<lambda>_. True) (\<lambda>_. {}), 0)"
    using read_states_prefix[of 1 8 Debug sorted_list_of_set "\<lambda>_. True" 10]
    by (simp add: tail_bits_def sum.atLeast0_lessThan_Suc eval_nat_numeral)
  moreover have "fold_run (read_link_byte Debug be_bytes ?ops) [0, 0, 1, 0, 0, 0, 0, 0, 0, 0, 0, 0]
      (graph_of 10 8 (\<lambda>_. True) (\<lambda>_. {}), [], 0, 0, 0) =
      Some (graph_of 10 8 (\<lambda>_. True) ((\<lambda>_. {})(2 := {0})), [], 0, 0, 9)"
    by (simp add: read_link_byte_def be_bytes_def u32_sub_def graph_of_add_link numeral_2_eq_2)
  moreover have "bo_read_u32 be_bytes [0, 0, 0, 0] = Some 0" "bo_read_u32 be_bytes [0, 0, 0, 8] = Some 8"
    by (simp_all add: be_bytes_def)
  moreover have "certifiers eight_members 1 = {0}" by (simp add: certifiers_def eight_members_def)
  ultimately show ?thesis
    by (simp add: parse_wot_def split_off_def del: fold_run.simps)
qed

end
