(* ===== verification/Blockstamps.thy ===== *)
theory Blockstamps
  imports Prelude "HOL-Library.List_Lexorder"
begin

text \<open>
  Hashes and blockstamps, with their text format: \<open>lib/tools/crypto/src/hashs/mod.rs\<close>,
  \<open>bases/b16.rs\<close> and \<open>lib/tools/documents/src/blockstamp.rs\<close>.

  A Rust string is the list of its Unicode scalar values: \<open>str::len\<close> counts the bytes of its
  UTF-8 encoding, \<open>chars\<close> the values, and the difference matters in \<open>str_hex_to_32bytes\<close>.
\<close>

type_synonym ustring = "nat list"

text \<open>An ASCII literal.\<close>

definition ascii :: "string \<Rightarrow> ustring" where
  "ascii s = map of_char s"

definition utf8_length :: "nat \<Rightarrow> nat" where
  "utf8_length c = (if c < 128 then 1 else if c < 2048 then 2 else if c < 65536 then 3 else 4)"

definition str_len :: "ustring \<Rightarrow> nat" where
  "str_len s = sum_list (map utf8_length s)"

text \<open>\<open>str::split\<close> on one character.\<close>

fun split_on :: "nat \<Rightarrow> ustring \<Rightarrow> ustring list" where
  "split_on c [] = [[]]"
| "split_on c (x # xs) =
     (if x = c then [] # split_on c xs
      else (case split_on c xs of [] \<Rightarrow> [[x]] | y # ys \<Rightarrow> (x # y) # ys))"

subsection \<open>Decimal numbers\<close>

text \<open>\<open>Display\<close> and \<open>FromStr\<close> of the unsigned integers of the standard library.\<close>

fun show_nat :: "nat \<Rightarrow> ustring" where
  "show_nat n = (if n < 10 then [48 + n] else show_nat (n div 10) @ [48 + n mod 10])"

declare show_nat.simps [simp del]

definition is_digit :: "nat \<Rightarrow> bool" where
  "is_digit c \<longleftrightarrow> 48 \<le> c \<and> c \<le> 57"

definition digits_value :: "ustring \<Rightarrow> nat" where
  "digits_value s = foldl (\<lambda>v c. 10 * v + (c - 48)) 0 s"

definition parse_uint :: "nat \<Rightarrow> ustring \<Rightarrow> nat option" where
  "parse_uint w s =
     (let s = (case s of c # cs \<Rightarrow> if c = 43 then cs else s | [] \<Rightarrow> [])
      in if s = [] \<or> \<not> list_all is_digit s \<or> digits_value s \<ge> 2 ^ w then None
         else Some (digits_value s))"

lemma is_digit_add: "d < 10 \<Longrightarrow> is_digit (48 + d)"
  by (simp add: is_digit_def)

lemma show_nat_digits: "list_all is_digit (show_nat n)"
  by (induction n rule: show_nat.induct) (subst show_nat.simps, auto simp: is_digit_add)

lemma show_nat_nonempty: "show_nat n \<noteq> []"
  by (subst show_nat.simps) simp

lemma digits_value_snoc: "digits_value (s @ [c]) = 10 * digits_value s + (c - 48)"
  by (simp add: digits_value_def)

lemma digits_value_show: "digits_value (show_nat n) = n"
proof (induction n rule: show_nat.induct)
  case (1 n)
  show ?case
  proof (cases "n < 10")
    case True
    then show ?thesis by (subst show_nat.simps) (simp add: digits_value_def)
  next
    case False
    then show ?thesis using 1 by (subst show_nat.simps) (simp add: digits_value_snoc)
  qed
qed

lemma parse_show_nat:
  assumes "n < 2 ^ w" shows "parse_uint w (show_nat n) = Some n"
proof -
  obtain c cs where c: "show_nat n = c # cs" using show_nat_nonempty by (cases "show_nat n") auto
  then have "c \<noteq> 43" using show_nat_digits[of n] by (auto simp: is_digit_def)
  then show ?thesis
    using assms show_nat_digits[of n] digits_value_show[of n] by (simp add: parse_uint_def c)
qed

subsection \<open>Hexadecimal numbers\<close>

datatype base_convertion_error =
  InvalidLength nat nat
| InvalidCharacter nat nat
| InvalidBaseConverterLength
| InvalidLastSymbol nat nat

text \<open>\<open>char::to_digit(16)\<close>.\<close>

definition to_digit16 :: "nat \<Rightarrow> nat option" where
  "to_digit16 c =
     (if 48 \<le> c \<and> c \<le> 57 then Some (c - 48)
      else if 97 \<le> c \<and> c \<le> 102 then Some (c - 87)
      else if 65 \<le> c \<and> c \<le> 70 then Some (c - 55) else None)"

text \<open>The loop over the pairs of characters: the next index and the pairs left.\<close>

fun hex_pairs :: "ustring \<Rightarrow> nat \<Rightarrow> nat \<Rightarrow> (base_convertion_error + nat list) run" where
  "hex_pairs chars i 0 = Some (Inr [])"
| "hex_pairs chars i (Suc n) =
     (if length chars \<le> i + 1 then None
      else (case to_digit16 (chars ! i) of
          None \<Rightarrow> Some (Inl (InvalidCharacter (chars ! i) i))
        | Some byte1 \<Rightarrow>
            (case to_digit16 (chars ! (i + 1)) of
               None \<Rightarrow> Some (Inl (InvalidCharacter (chars ! (i + 1)) (i + 1)))
             | Some byte2 \<Rightarrow>
                 map_option (map_sum id ((#) (16 * byte1 + byte2))) (hex_pairs chars (i + 2) n))))"

definition str_hex_to_32bytes :: "ustring \<Rightarrow> (base_convertion_error + nat list) run" where
  "str_hex_to_32bytes text =
     (if str_len text \<noteq> 64 then Some (Inl (InvalidLength 64 (str_len text)))
      else hex_pairs text 0 32)"

text \<open>The format \<open>{:02X}\<close> of a byte.\<close>

definition hex_digit :: "nat \<Rightarrow> nat" where
  "hex_digit d = (if d < 10 then 48 + d else 55 + d)"

definition show_byte :: "nat \<Rightarrow> ustring" where
  "show_byte b = [hex_digit (b div 16), hex_digit (b mod 16)]"

subsection \<open>Hashes\<close>

datatype hash = Hash (hash_bytes: "nat list")

definition hash_default :: hash where
  "hash_default = Hash (replicate 32 0)"

text \<open>The invariant of the type \<open>[u8; 32]\<close>.\<close>

definition hash_wf :: "hash \<Rightarrow> bool" where
  "hash_wf h \<longleftrightarrow> length (hash_bytes h) = 32 \<and> list_all (\<lambda>b. b < 256) (hash_bytes h)"

definition to_hex :: "hash \<Rightarrow> ustring" where
  "to_hex h = concat (map show_byte (hash_bytes h))"

definition from_hex :: "ustring \<Rightarrow> (base_convertion_error + hash) run" where
  "from_hex text = map_option (map_sum id Hash) (str_hex_to_32bytes text)"

instantiation hash :: linorder
begin

definition less_eq_hash :: "hash \<Rightarrow> hash \<Rightarrow> bool" where
  "less_eq_hash h k \<longleftrightarrow> hash_bytes h \<le> hash_bytes k"

definition less_hash :: "hash \<Rightarrow> hash \<Rightarrow> bool" where
  "less_hash h k \<longleftrightarrow> hash_bytes h < hash_bytes k"

instance
  by standard (auto simp: less_eq_hash_def less_hash_def intro: hash.expand)

end

lemma to_digit_hex_digit: "d < 16 \<Longrightarrow> to_digit16 (hex_digit d) = Some d"
  by (auto simp: to_digit16_def hex_digit_def)

lemma hex_digit_ascii: "d < 16 \<Longrightarrow> utf8_length (hex_digit d) = 1 \<and> hex_digit d \<noteq> 45"
  by (auto simp: utf8_length_def hex_digit_def)

lemma length_concat_show_byte: "length (concat (map show_byte bs)) = 2 * length bs"
  by (induction bs) (auto simp: show_byte_def)

lemma hex_pairs_show:
  "list_all (\<lambda>b. b < 256) bs \<Longrightarrow>
   hex_pairs (pre @ concat (map show_byte bs)) (length pre) (length bs) = Some (Inr bs)"
proof (induction bs arbitrary: pre)
  case (Cons b bs)
  have b: "b div 16 < 16" "b mod 16 < 16" "16 * (b div 16) + b mod 16 = b"
    using Cons.prems by auto
  have "hex_pairs ((pre @ show_byte b) @ concat (map show_byte bs)) (length (pre @ show_byte b))
      (length bs) = Some (Inr bs)"
    using Cons.prems by (intro Cons.IH) simp
  moreover have "concat (map show_byte (b # bs)) =
      hex_digit (b div 16) # hex_digit (b mod 16) # concat (map show_byte bs)"
    by (simp add: show_byte_def)
  moreover have "show_byte b = [hex_digit (b div 16), hex_digit (b mod 16)]"
    by (simp add: show_byte_def)
  ultimately show ?case
    using b by (simp add: nth_append to_digit_hex_digit del: concat.simps list.map)
qed simp

lemma str_len_show_bytes:
  "list_all (\<lambda>b. b < 256) bs \<Longrightarrow> str_len (concat (map show_byte bs)) = 2 * length bs"
  by (induction bs) (auto simp: str_len_def show_byte_def hex_digit_ascii)

lemma hex_roundtrip: "hash_wf h \<Longrightarrow> from_hex (to_hex h) = Some (Inr h)"
  using hex_pairs_show[of "hash_bytes h" "[]"] str_len_show_bytes[of "hash_bytes h"]
  by (simp add: from_hex_def to_hex_def str_hex_to_32bytes_def hash_wf_def)

lemma hex_no_dash: "hash_wf h \<Longrightarrow> 45 \<notin> set (to_hex h)"
  using hex_digit_ascii by (force simp: to_hex_def hash_wf_def show_byte_def list_all_iff)

subsection \<open>Blockstamps\<close>

datatype blockstamp = Blockstamp (bs_id: nat) (bs_hash: hash)

definition blockstamp_default :: blockstamp where
  "blockstamp_default = Blockstamp 0 hash_default"

definition blockstamp_wf :: "blockstamp \<Rightarrow> bool" where
  "blockstamp_wf b \<longleftrightarrow> bs_id b < 2 ^ 32 \<and> hash_wf (bs_hash b)"

text \<open>\<open>Ord::cmp\<close>: by number, then by hash.\<close>

instantiation blockstamp :: linorder
begin

definition less_eq_blockstamp :: "blockstamp \<Rightarrow> blockstamp \<Rightarrow> bool" where
  "less_eq_blockstamp a b \<longleftrightarrow>
     (if bs_id a = bs_id b then bs_hash a \<le> bs_hash b else bs_id a \<le> bs_id b)"

definition less_blockstamp :: "blockstamp \<Rightarrow> blockstamp \<Rightarrow> bool" where
  "less_blockstamp a b \<longleftrightarrow>
     (if bs_id a = bs_id b then bs_hash a < bs_hash b else bs_id a < bs_id b)"

instance
  by standard
    (auto simp: less_eq_blockstamp_def less_blockstamp_def intro: blockstamp.expand
      split: if_splits)

end

datatype blockstamp_parse_error = InvalidFormat | InvalidBlockNumber | InvalidBlockHash

definition blockstamp_to_string :: "blockstamp \<Rightarrow> ustring" where
  "blockstamp_to_string b = show_nat (bs_id b) @ [45] @ to_hex (bs_hash b)"

definition blockstamp_from_string :: "ustring \<Rightarrow> (blockstamp_parse_error + blockstamp) run" where
  "blockstamp_from_string src =
     (case split_on 45 src of
        [n, h] \<Rightarrow> do {
          hash \<leftarrow> from_hex h;
          Some (case parse_uint 32 n of
              None \<Rightarrow> Inl InvalidBlockNumber
            | Some number \<Rightarrow>
                (case hash of
                   Inl _ \<Rightarrow> Inl InvalidBlockHash
                 | Inr hash \<Rightarrow> Inr (Blockstamp number hash)))
        }
      | _ \<Rightarrow> Some (Inl InvalidFormat))"

lemma split_on_absent: "c \<notin> set s \<Longrightarrow> split_on c s = [s]"
  by (induction s) auto

lemma split_on_append: "c \<notin> set s \<Longrightarrow> split_on c (s @ c # t) = s # split_on c t"
  by (induction s) auto

lemma show_nat_no_dash: "45 \<notin> set (show_nat n)"
  using show_nat_digits[of n] by (auto simp: list_all_iff is_digit_def)

lemma blockstamp_parses:
  assumes "blockstamp_wf b"
  shows "blockstamp_from_string (blockstamp_to_string b) = Some (Inr b)"
  using assms hex_roundtrip[of "bs_hash b"] hex_no_dash[of "bs_hash b"]
  by (simp add: blockstamp_from_string_def blockstamp_to_string_def blockstamp_wf_def
      split_on_append split_on_absent show_nat_no_dash parse_show_nat)

text \<open>The characters of the text of a blockstamp: digits, a dash, digits in base 16.\<close>

lemma hex_digit_range: "d < 16 \<Longrightarrow> is_digit (hex_digit d) \<or> (65 \<le> hex_digit d \<and> hex_digit d \<le> 70)"
  by (auto simp: hex_digit_def is_digit_def)

lemma to_hex_digits:
  assumes "hash_wf h" "ch \<in> set (to_hex h)"
  shows "is_digit ch \<or> (65 \<le> ch \<and> ch \<le> 70)"
proof -
  obtain b where "b \<in> set (hash_bytes h)" "ch = hex_digit (b div 16) \<or> ch = hex_digit (b mod 16)"
    using assms(2) by (auto simp: to_hex_def show_byte_def)
  moreover from this(1) assms(1) have "b div 16 < 16" "b mod 16 < 16" by (auto simp: hash_wf_def list_all_iff)
  ultimately show ?thesis using hex_digit_range by blast
qed

lemma blockstamp_chars:
  assumes "blockstamp_wf b" "ch \<in> set (blockstamp_to_string b)"
  shows "is_digit ch \<or> ch = 45 \<or> (65 \<le> ch \<and> ch \<le> 70)"
  using assms to_hex_digits[of "bs_hash b"] show_nat_digits[of "bs_id b"]
  by (auto simp: blockstamp_to_string_def blockstamp_wf_def list_all_iff)

subsection \<open>Properties\<close>

text \<open>
  The text of a blockstamp parses back to it: the number, a dash, the hash in upper-case
  hexadecimal.
\<close>

theorem blockstamp_roundtrip:
  assumes "blockstamp_wf b"
  shows "blockstamp_from_string (blockstamp_to_string b) = Some (Inr b)"
  by (rule blockstamp_parses[OF assms])

theorem blockstamp_roundtrip_witness:
  "blockstamp_from_string (blockstamp_to_string (Blockstamp 1520 hash_default)) =
    Some (Inr (Blockstamp 1520 hash_default))"
  by (rule blockstamp_roundtrip)
    (simp add: blockstamp_wf_def hash_wf_def hash_default_def list_all_iff)

text \<open>
  \<open>str_hex_to_32bytes\<close> compares the length in bytes but indexes the characters: a text of 62
  hexadecimal digits followed by one character of two bytes makes it index past the end, which is
  a panic, and so does a blockstamp with such a hash.
\<close>

theorem from_hex_panics:
  assumes "length digits = 62" "\<forall>c\<in>set digits. to_digit16 c \<noteq> None"
    and "utf8_length c = 2"
  shows "from_hex (digits @ [c]) = None \<and>
    blockstamp_from_string (ascii ''0-'' @ digits @ [c]) = None"
proof -
  have ascii_digit: "utf8_length d = 1 \<and> d \<noteq> 45" if "to_digit16 d \<noteq> None" for d
    using that by (auto simp: to_digit16_def utf8_length_def split: if_splits)
  have "str_len (digits @ [c]) = 64"
  proof -
    have "sum_list (map utf8_length digits) = sum_list (map (\<lambda>_. 1) digits)"
      using assms(2) ascii_digit by (intro arg_cong[of _ _ sum_list] map_cong) auto
    then show ?thesis using assms(1,3) by (simp add: str_len_def sum_list_triv)
  qed
  moreover have "hex_pairs (digits @ [c]) (2 * i) (Suc n) = None" if "i + n = 31" for i n
    using that
  proof (induction n arbitrary: i)
    case 0
    then show ?case using assms(1) by simp
  next
    case (Suc n)
    have i: "2 * i < 62" "Suc (2 * i) < 62" using Suc.prems by simp_all
    obtain x y where "to_digit16 (digits ! (2 * i)) = Some x"
      "to_digit16 (digits ! Suc (2 * i)) = Some y"
      using assms(1,2) i by (metis nth_mem not_None_eq)
    then show ?case using i Suc.IH[of "Suc i"] Suc.prems assms(1)
      by (simp add: nth_append)
  qed
  from this[of 0 31] have "hex_pairs (digits @ [c]) 0 32 = None" by simp
  ultimately have panic: "from_hex (digits @ [c]) = None"
    by (simp add: from_hex_def str_hex_to_32bytes_def)
  have "c \<noteq> 45" using assms(3) by (auto simp: utf8_length_def)
  then have "45 \<notin> set (digits @ [c])" using assms(2) ascii_digit by auto
  then have "split_on 45 (ascii ''0-'' @ digits @ [c]) = [[48], digits @ [c]]"
    by (simp add: ascii_def split_on_absent)
  then show ?thesis using panic by (simp add: blockstamp_from_string_def)
qed

theorem from_hex_panics_witness:
  "from_hex (replicate 62 48 @ [233]) = None"
  using from_hex_panics[of "replicate 62 48" 233]
  by (simp add: to_digit16_def utf8_length_def)

end
