(* ===== verification/Fork_Tree.thy ===== *)
theory Fork_Tree
  imports Blockstamps
begin

text \<open>
  \<open>ForkTree\<close> of \<open>blockchain-dal/src/entities/fork_tree.rs\<close>, the tree of all known branches of the
  fork window, and the operations of \<open>writers/fork_tree.rs\<close> on it.

  A node identifier is an index of the vector of nodes; a removed node is \<open>None\<close> in the vector.
  The loops that climb to the main branch are partial functions: their value is \<open>None\<close> when they
  meet a removed node, which is the panic of the code, or never end.
\<close>

type_synonym node_ref = nat

record tree_node =
  tn_parent :: "node_ref option"
  tn_children :: "node_ref list"
  tn_data :: blockstamp

record fork_tree =
  ft_root :: "node_ref option"
  ft_nodes :: "tree_node option list"
  ft_main :: "nat \<rightharpoonup> node_ref"
  ft_sheets :: "node_ref set"
  ft_removed :: "blockstamp list"

definition fork_window_size :: nat where
  "fork_window_size = 200"

definition tree_node_new :: "node_ref option \<Rightarrow> blockstamp \<Rightarrow> tree_node" where
  "tree_node_new parent data = \<lparr>tn_parent = parent, tn_children = [], tn_data = data\<rparr>"

definition add_child :: "node_ref \<Rightarrow> tree_node \<Rightarrow> tree_node" where
  "add_child i n = n\<lparr>tn_children := tn_children n @ [i]\<rparr>"

definition tree_default :: fork_tree where
  "tree_default = \<lparr>ft_root = None, ft_nodes = [], ft_main = Map.empty, ft_sheets = {}, ft_removed = []\<rparr>"

definition tree_size :: "fork_tree \<Rightarrow> nat" where
  "tree_size t = sum_list (map (\<lambda>n. if n \<noteq> None then 1 else 0) (ft_nodes t))"

text \<open>The node of an index that must be there.\<close>

definition get_ref_node :: "fork_tree \<Rightarrow> node_ref \<Rightarrow> tree_node run" where
  "get_ref_node t i = (case vec_get (ft_nodes t) i of Some (Some n) \<Rightarrow> Some n | _ \<Rightarrow> None)"

definition update_node :: "node_ref \<Rightarrow> (tree_node \<Rightarrow> tree_node) \<Rightarrow> fork_tree \<Rightarrow> fork_tree run" where
  "update_node i f t = do {
     n \<leftarrow> get_ref_node t i;
     Some (t\<lparr>ft_nodes := (ft_nodes t)[i := Some (f n)]\<rparr>)
   }"

definition get_sheets ::
  "(node_ref set \<Rightarrow> node_ref list) \<Rightarrow> fork_tree \<Rightarrow> (node_ref \<times> blockstamp) list run" where
  "get_sheets it t =
     map_run (\<lambda>s. do { n \<leftarrow> get_ref_node t s; Some (s, tn_data n) }) (it (ft_sheets t))"

text \<open>The loop keeps the last index at which the vector has no element: none.\<close>

definition get_free_node_id :: "fork_tree \<Rightarrow> node_ref option" where
  "get_free_node_id t =
     fold (\<lambda>i found. if vec_get (ft_nodes t) i = None then Some i else found)
       [0..<length (ft_nodes t)] None"

definition get_main_branch_node_id :: "fork_tree \<Rightarrow> nat \<Rightarrow> node_ref option" where
  "get_main_branch_node_id t number = ft_main t number"

definition get_main_branch_block_hash :: "fork_tree \<Rightarrow> nat \<Rightarrow> hash option run" where
  "get_main_branch_block_hash t number =
     (case ft_main t number of
        None \<Rightarrow> Some None
      | Some i \<Rightarrow> do { n \<leftarrow> get_ref_node t i; Some (Some (bs_hash (tn_data n))) })"

text \<open>Whether the block of a node is the block of the main branch at its height.\<close>

definition on_main_branch :: "fork_tree \<Rightarrow> tree_node \<Rightarrow> bool run" where
  "on_main_branch t n =
     (if ft_main t (bs_id (tn_data n)) = None then Some False
      else do {
        h \<leftarrow> get_main_branch_block_hash t (bs_id (tn_data n));
        Some (h = Some (bs_hash (tn_data n)))
      })"

text \<open>The loop of the two functions that follow: from a parent up to the main branch.\<close>

partial_function (option) climb ::
  "(node_ref \<Rightarrow> tree_node \<Rightarrow> 'a) \<Rightarrow> fork_tree \<Rightarrow> node_ref \<Rightarrow> 'a list \<Rightarrow> 'a list option" where
  "climb emit t i branch = do {
     n \<leftarrow> get_ref_node t i;
     main \<leftarrow> on_main_branch t n;
     if main then Some branch
     else (case tn_parent n of
         None \<Rightarrow> Some (branch @ [emit i n])
       | Some j \<Rightarrow> climb emit t j (branch @ [emit i n]))
   }"

definition get_fork_branch_nodes_ids :: "fork_tree \<Rightarrow> node_ref \<Rightarrow> node_ref list run" where
  "get_fork_branch_nodes_ids t i = do {
     n \<leftarrow> get_ref_node t i;
     main \<leftarrow> on_main_branch t n;
     let branch = (if main then [] else [i]);
     branch \<leftarrow> (case tn_parent n of None \<Rightarrow> Some branch | Some j \<Rightarrow> climb (\<lambda>i n. i) t j branch);
     Some (rev branch)
   }"

definition get_fork_branch :: "fork_tree \<Rightarrow> node_ref \<Rightarrow> blockstamp list run" where
  "get_fork_branch t i = do {
     n \<leftarrow> get_ref_node t i;
     branch \<leftarrow> (case tn_parent n of
         None \<Rightarrow> Some [tn_data n]
       | Some j \<Rightarrow> climb (\<lambda>i n. tn_data n) t j [tn_data n]);
     Some (rev branch)
   }"

definition find_node_with_blockstamp :: "fork_tree \<Rightarrow> blockstamp \<Rightarrow> node_ref option" where
  "find_node_with_blockstamp t b =
     List.find (\<lambda>i. case ft_nodes t ! i of Some n \<Rightarrow> tn_data n = b | None \<Rightarrow> False)
       [0..<length (ft_nodes t)]"

subsection \<open>Removal\<close>

text \<open>The three lines that remove one node: they panic when it is not there.\<close>

definition remove_node :: "node_ref \<Rightarrow> fork_tree \<Rightarrow> fork_tree run" where
  "remove_node i t = do {
     n \<leftarrow> get_ref_node t i;
     Some (t\<lparr>ft_removed := ft_removed t @ [tn_data n], ft_nodes := (ft_nodes t)[i := None],
       ft_sheets := ft_sheets t - {i}\<rparr>)
   }"

text \<open>
  The \<open>while\<close> loop of \<open>remove_node_children\<close>: down the only children, to the first node that
  branches or has none. The first argument bounds the number of steps.
\<close>

fun only_children :: "nat \<Rightarrow> fork_tree \<Rightarrow> node_ref \<Rightarrow> (node_ref list \<times> tree_node) run" where
  "only_children 0 t i = None"
| "only_children (Suc k) t i = do {
     n \<leftarrow> get_ref_node t i;
     (case tn_children n of
        [c] \<Rightarrow> do { (ids, n) \<leftarrow> only_children k t c; Some (c # ids, n) }
      | _ \<Rightarrow> Some ([], n))
   }"

fun remove_node_children :: "nat \<Rightarrow> node_ref \<Rightarrow> fork_tree \<Rightarrow> fork_tree run" where
  "remove_node_children 0 i t = None"
| "remove_node_children (Suc k) i t = do {
     (ids, n) \<leftarrow> only_children (Suc k) t i;
     t \<leftarrow> fold_run (remove_node_children k) (tn_children n) t;
     fold_run remove_node ids t
   }"

text \<open>Parents have smaller indices than their children, so the length of the vector is enough.\<close>

definition remove_subtree :: "node_ref \<Rightarrow> fork_tree \<Rightarrow> fork_tree run" where
  "remove_subtree c t = do {
     t \<leftarrow> remove_node_children (Suc (length (ft_nodes t))) c t;
     remove_node c t
   }"

definition pruning :: "fork_tree \<Rightarrow> fork_tree run" where
  "pruning t = do {
     root_id \<leftarrow> ft_root t;
     root_node \<leftarrow> get_ref_node t root_id;
     let number = bs_id (tn_data root_node);
     let t = t\<lparr>ft_main := (ft_main t)(number := None), ft_removed := ft_removed t @ [tn_data root_node]\<rparr>;
     main_child \<leftarrow> ft_main t (number + 1);
     t \<leftarrow> fold_run remove_subtree (filter (\<lambda>c. c \<noteq> main_child) (tn_children root_node)) t;
     Some (t\<lparr>ft_nodes := (ft_nodes t)[root_id := None], ft_root := Some main_child\<rparr>)
   }"

subsection \<open>Insertion and change of branch\<close>

text \<open>The first part of \<open>insert_new_node\<close>: the node takes its slot and its place in the tree.\<close>

definition link_new_node ::
  "blockstamp \<Rightarrow> node_ref option \<Rightarrow> fork_tree \<Rightarrow> (node_ref \<times> fork_tree) run" where
  "link_new_node data parent t = do {
     let new_node = tree_node_new parent data;
     let (i, t) = (case get_free_node_id t of
         None \<Rightarrow> (length (ft_nodes t), t\<lparr>ft_nodes := ft_nodes t @ [Some new_node]\<rparr>)
       | Some i \<Rightarrow> (i, t\<lparr>ft_nodes := (ft_nodes t)[i := Some new_node]\<rparr>));
     t \<leftarrow> (case parent of
         Some j \<Rightarrow> update_node j (add_child i) (t\<lparr>ft_sheets := ft_sheets t - {j}\<rparr>)
       | None \<Rightarrow> if ft_root t = None then Some (t\<lparr>ft_root := Some i\<rparr>) else None);
     Some (i, t)
   }"

definition insert_new_node ::
  "blockstamp \<Rightarrow> node_ref option \<Rightarrow> bool \<Rightarrow> fork_tree \<Rightarrow> fork_tree run" where
  "insert_new_node data parent main_branch t = do {
     (i, t) \<leftarrow> link_new_node data parent t;
     let t = t\<lparr>ft_removed := []\<rparr>;
     t \<leftarrow> (if main_branch then
         (let t = t\<lparr>ft_main := (ft_main t)(bs_id data \<mapsto> i)\<rparr>
          in if card (dom (ft_main t)) > fork_window_size then pruning t else Some t)
       else Some t);
     Some (t\<lparr>ft_sheets := insert i (ft_sheets t)\<rparr>)
   }"

text \<open>The body of the loop over the new branch.\<close>

definition switch_node :: "nat \<Rightarrow> node_ref \<Rightarrow> fork_tree \<Rightarrow> fork_tree run" where
  "switch_node old i t = do {
     n \<leftarrow> get_ref_node t i;
     let t = t\<lparr>ft_main := (ft_main t)(bs_id (tn_data n) \<mapsto> i)\<rparr>;
     if bs_id (tn_data n) > old then pruning t else Some t
   }"

definition change_main_branch :: "blockstamp \<Rightarrow> blockstamp \<Rightarrow> fork_tree \<Rightarrow> fork_tree run" where
  "change_main_branch old_current new_current t = do {
     target \<leftarrow> find_node_with_blockstamp t new_current;
     branch \<leftarrow> get_fork_branch_nodes_ids t target;
     t \<leftarrow> (case branch of
         [] \<Rightarrow> Some t
       | i # _ \<Rightarrow> do {
           n \<leftarrow> get_ref_node t i;
           Some (t\<lparr>ft_main := (\<lambda>k. if bs_id (tn_data n) \<le> k \<and> k \<le> bs_id new_current
             then None else ft_main t k)\<rparr>)
         });
     let t = (if bs_id old_current > bs_id new_current
       then t\<lparr>ft_main := (\<lambda>k. if bs_id new_current + 1 \<le> k \<and> k \<le> bs_id old_current
         then None else ft_main t k)\<rparr>
       else t);
     fold_run (switch_node (bs_id old_current)) branch t
   }"

subsection \<open>The writers\<close>

definition insert_new_head_block ::
  "blockstamp \<Rightarrow> fork_tree \<Rightarrow> (blockstamp list \<times> fork_tree) run" where
  "insert_new_head_block b t = do {
     parent \<leftarrow> (if bs_id b > 0 \<and> tree_size t > 0
       then map_option Some (get_main_branch_node_id t (bs_id b - 1)) else Some None);
     t \<leftarrow> insert_new_node b parent True t;
     Some (ft_removed t, t)
   }"

definition insert_new_fork_block ::
  "profile \<Rightarrow> blockstamp \<Rightarrow> hash \<Rightarrow> fork_tree \<Rightarrow> (bool \<times> fork_tree) run" where
  "insert_new_fork_block p b previous_hash t = do {
     previous \<leftarrow> u32_sub p (bs_id b) 1;
     (case find_node_with_blockstamp t (Blockstamp previous previous_hash) of
        None \<Rightarrow> Some (False, t)
      | Some parent \<Rightarrow> do {
          t \<leftarrow> insert_new_node b (Some parent) False t;
          Some (True, t)
        })
   }"

subsection \<open>Basic facts\<close>

lemma get_ref_node_iff:
  "get_ref_node t i = Some n \<longleftrightarrow> i < length (ft_nodes t) \<and> ft_nodes t ! i = Some n"
  by (auto simp: get_ref_node_def vec_get_def split: option.splits)

text \<open>No slot is ever free: the vector only grows.\<close>

lemma get_free_node_id_None: "get_free_node_id t = None"
proof -
  have "fold (\<lambda>i found. if vec_get xs i = None then Some i else found) is None = None"
    if "\<forall>i\<in>set is. i < length xs" for xs :: "tree_node option list" and "is"
    using that by (induction "is") (auto simp: vec_get_def)
  then show ?thesis by (simp add: get_free_node_id_def)
qed

lemma link_new_node_None:
  "link_new_node data None t =
     (if ft_root t = None
      then Some (length (ft_nodes t),
        t\<lparr>ft_nodes := ft_nodes t @ [Some (tree_node_new None data)], ft_root := Some (length (ft_nodes t))\<rparr>)
      else None)"
  by (simp add: link_new_node_def get_free_node_id_None)

lemma link_new_node_Some:
  assumes "get_ref_node t j = Some n"
  shows "link_new_node data (Some j) t = Some (length (ft_nodes t),
    t\<lparr>ft_sheets := ft_sheets t - {j},
      ft_nodes := (ft_nodes t)[j := Some (add_child (length (ft_nodes t)) n)] @
        [Some (tree_node_new (Some j) data)]\<rparr>)"
proof -
  have "get_ref_node (t\<lparr>ft_nodes := ft_nodes t @ [Some (tree_node_new (Some j) data)],
      ft_sheets := ft_sheets t - {j}\<rparr>) j = Some n" and j: "j < length (ft_nodes t)"
    using assms by (auto simp: get_ref_node_iff nth_append)
  then show ?thesis
    by (simp add: link_new_node_def get_free_node_id_None update_node_def list_update_append1)
qed

lemma find_node_Some:
  assumes "find_node_with_blockstamp t b = Some i"
  shows "\<exists>n. get_ref_node t i = Some n \<and> tn_data n = b"
  using assms
  by (auto simp: find_node_with_blockstamp_def find_Some_iff get_ref_node_iff split: option.splits)

subsection \<open>A tree with one branch\<close>

definition chain_node :: "(nat \<Rightarrow> blockstamp) \<Rightarrow> nat \<Rightarrow> nat \<Rightarrow> tree_node" where
  "chain_node bs n i =
     \<lparr>tn_parent = (if i = 0 then None else Some (i - 1)),
      tn_children = (if Suc i = n then [] else [Suc i]), tn_data = bs i\<rparr>"

definition chain_tree :: "(nat \<Rightarrow> blockstamp) \<Rightarrow> nat \<Rightarrow> fork_tree" where
  "chain_tree bs n =
     \<lparr>ft_root = (if n = 0 then None else Some (n - fork_window_size)),
      ft_nodes = map (\<lambda>i. if i < n - fork_window_size then None else Some (chain_node bs n i)) [0..<n],
      ft_main = (\<lambda>k. if n - fork_window_size \<le> k \<and> k < n then Some k else None),
      ft_sheets = (if n = 0 then {} else {n - 1}),
      ft_removed = (if n > fork_window_size then [bs (n - fork_window_size - 1)] else [])\<rparr>"

lemma tree_size_card: "tree_size t = card {i. i < length (ft_nodes t) \<and> ft_nodes t ! i \<noteq> None}"
proof -
  have "sum_list (map (\<lambda>n. if n \<noteq> None then 1 else 0) xs) = card {i. i < length xs \<and> xs ! i \<noteq> None}"
    for xs :: "tree_node option list"
  proof -
    have "sum_list (map (\<lambda>n. if n \<noteq> None then 1 else 0) xs) = length (filter (\<lambda>n. n \<noteq> None) xs)"
      by (induction xs) auto
    then show ?thesis by (simp add: length_filter_conv_card)
  qed
  then show ?thesis by (simp add: tree_size_def)
qed

lemma chain_tree_size: "tree_size (chain_tree bs n) = min n fork_window_size"
proof -
  have "{i. i < length (ft_nodes (chain_tree bs n)) \<and> ft_nodes (chain_tree bs n) ! i \<noteq> None} =
      {n - fork_window_size..<n}"
    by (auto simp: chain_tree_def split: if_splits)
  then show ?thesis by (simp add: tree_size_card min_def)
qed

lemma dom_chain: "dom (ft_main (chain_tree bs n)) = {n - fork_window_size..<n}"
  by (auto simp: chain_tree_def split: if_splits)

text \<open>The tree when the new node has been added and the oldest one is still there.\<close>

definition chain_grown :: "(nat \<Rightarrow> blockstamp) \<Rightarrow> nat \<Rightarrow> fork_tree" where
  "chain_grown bs n =
     \<lparr>ft_root = Some (n - fork_window_size),
      ft_nodes = map (\<lambda>i. if i < n - fork_window_size then None
        else Some (chain_node bs (Suc n) i)) [0..<Suc n],
      ft_main = ft_main (chain_tree bs n), ft_sheets = {}, ft_removed = ft_removed (chain_tree bs n)\<rparr>"

lemma chain_grow:
  "link_new_node (bs n) (if n = 0 then None else Some (n - 1)) (chain_tree bs n) =
    Some (n, chain_grown bs n)"
proof (cases n)
  case 0
  then show ?thesis
    by (simp add: link_new_node_None chain_tree_def chain_grown_def chain_node_def tree_node_new_def)
next
  case (Suc m)
  let ?t = "chain_tree bs n"
  have "get_ref_node ?t m = Some (chain_node bs n m)"
    using Suc by (simp add: get_ref_node_iff chain_tree_def fork_window_size_def del: upt_Suc)
  moreover have "(ft_nodes ?t)[m := Some (add_child n (chain_node bs n m))] @
      [Some (tree_node_new (Some m) (bs n))] = ft_nodes (chain_grown bs n)"
    using Suc
    by (intro nth_equalityI)
      (auto simp: chain_tree_def chain_grown_def nth_append nth_list_update chain_node_def
        add_child_def tree_node_new_def fork_window_size_def less_Suc_eq simp del: upt_Suc)
  moreover have "length (ft_nodes ?t) = n" by (simp add: chain_tree_def)
  ultimately show ?thesis
    using Suc by (simp add: link_new_node_Some) (simp add: chain_tree_def chain_grown_def)
qed

text \<open>Pruning when the root has no other child than the main one.\<close>

lemma pruning_single:
  assumes "ft_root t = Some r" "get_ref_node t r = Some n"
    and "ft_main t (Suc (bs_id (tn_data n))) = Some m" "set (tn_children n) \<subseteq> {m}"
  shows "pruning t = Some (t\<lparr>ft_main := (ft_main t)(bs_id (tn_data n) := None),
    ft_removed := ft_removed t @ [tn_data n], ft_nodes := (ft_nodes t)[r := None], ft_root := Some m\<rparr>)"
proof -
  have "filter (\<lambda>c. c \<noteq> m) (tn_children n) = []" using assms(4) by (auto simp: filter_empty_conv)
  then show ?thesis using assms(1-3) by (simp add: pruning_def Let_def)
qed

lemma chain_prune:
  assumes "\<And>i. bs_id (bs i) = i" "fork_window_size \<le> n"
  shows "pruning ((chain_grown bs n)\<lparr>ft_removed := [], ft_main := (ft_main (chain_tree bs n))(n \<mapsto> n)\<rparr>) =
    Some ((chain_tree bs (Suc n))\<lparr>ft_sheets := {}\<rparr>)"
proof -
  let ?r = "n - fork_window_size"
  let ?t = "(chain_grown bs n)\<lparr>ft_removed := [], ft_main := (ft_main (chain_tree bs n))(n \<mapsto> n)\<rparr>"
  have W: "0 < fork_window_size" by (simp add: fork_window_size_def)
  have root: "get_ref_node ?t ?r = Some (chain_node bs (Suc n) ?r)"
    using W assms(2) by (simp add: get_ref_node_iff chain_grown_def del: upt_Suc)
  have main: "(ft_main ?t) (?r + 1) = Some (?r + 1)"
    using W assms(2) by (auto simp: chain_tree_def)
  have node: "tn_children (chain_node bs (Suc n) ?r) = [Suc ?r]" "bs_id (tn_data (chain_node bs (Suc n) ?r)) = ?r"
    using W assms by (simp_all add: chain_node_def)
  have main': "(ft_main ?t)(?r := None) = ft_main (chain_tree bs (Suc n))"
    using W assms(2) by (auto simp: chain_tree_def fun_eq_iff Suc_diff_le)
  have nodes': "(ft_nodes ?t)[?r := None] = ft_nodes (chain_tree bs (Suc n))"
    using W assms(2)
    by (intro nth_equalityI)
      (auto simp: chain_tree_def chain_grown_def nth_list_update Suc_diff_le less_Suc_eq simp del: upt_Suc)
  have "ft_root ?t = Some ?r" by (simp add: chain_grown_def)
  from pruning_single[OF this root, of "?r + 1"] have "pruning ?t = Some (?t\<lparr>
      ft_main := ft_main (chain_tree bs (Suc n)), ft_removed := ft_removed ?t @ [bs ?r],
      ft_nodes := ft_nodes (chain_tree bs (Suc n)), ft_root := Some (Suc ?r)\<rparr>)"
    using main node main' nodes' assms(1) by (simp add: chain_node_def)
  also have "?t\<lparr>ft_main := ft_main (chain_tree bs (Suc n)), ft_removed := ft_removed ?t @ [bs ?r],
      ft_nodes := ft_nodes (chain_tree bs (Suc n)), ft_root := Some (Suc ?r)\<rparr> =
      (chain_tree bs (Suc n))\<lparr>ft_sheets := {}\<rparr>"
    using assms(2) by (simp add: chain_grown_def chain_tree_def Suc_diff_le)
  finally show ?thesis .
qed

lemma chain_insert:
  assumes "\<And>i. bs_id (bs i) = i"
  shows "insert_new_head_block (bs n) (chain_tree bs n) =
    Some (ft_removed (chain_tree bs (Suc n)), chain_tree bs (Suc n))"
proof -
  have W: "0 < fork_window_size" by (simp add: fork_window_size_def)
  have parent: "(if bs_id (bs n) > 0 \<and> tree_size (chain_tree bs n) > 0
       then map_option Some (get_main_branch_node_id (chain_tree bs n) (bs_id (bs n) - 1))
       else Some None) = Some (if n = 0 then None else Some (n - 1))"
    using W chain_tree_size[of bs n]
    by (cases "n = 0") (simp_all add: assms get_main_branch_node_id_def,
        auto simp: chain_tree_def)
  have dom: "dom ((ft_main (chain_tree bs n))(n \<mapsto> n)) = {n - fork_window_size..n}"
    by (auto simp: dom_chain[unfolded dom_def] dom_def chain_tree_def split: if_splits)
  let ?grown = "(chain_grown bs n)\<lparr>ft_removed := [], ft_main := (ft_main (chain_tree bs n))(n \<mapsto> n)\<rparr>"
  have grown: "ft_main (chain_grown bs n) = ft_main (chain_tree bs n)" by (simp add: chain_grown_def)
  have "insert_new_node (bs n) (if n = 0 then None else Some (n - 1)) True (chain_tree bs n) =
      Some (chain_tree bs (Suc n))"
  proof (cases "fork_window_size \<le> n")
    case True
    then have "card (dom ((ft_main (chain_tree bs n))(n \<mapsto> n))) > fork_window_size"
      using W unfolding dom by simp
    moreover have "(chain_tree bs (Suc n))\<lparr>ft_sheets := {n}\<rparr> = chain_tree bs (Suc n)"
      by (simp add: chain_tree_def)
    ultimately show ?thesis using chain_prune[OF assms True] assms
      by (simp add: insert_new_node_def chain_grow grown)
  next
    case False
    then have "\<not> card (dom ((ft_main (chain_tree bs n))(n \<mapsto> n))) > fork_window_size"
      unfolding dom by simp
    moreover have "?grown\<lparr>ft_sheets := {n}\<rparr> = chain_tree bs (Suc n)"
      using False by (auto simp: chain_grown_def chain_tree_def fun_eq_iff less_Suc_eq simp del: upt_Suc)
    moreover have "ft_sheets (chain_grown bs n) = {}" by (simp add: chain_grown_def)
    ultimately show ?thesis using assms
      by (simp add: insert_new_node_def chain_grow grown)
  qed
  then show ?thesis unfolding insert_new_head_block_def parent by simp
qed

subsection \<open>The shape of the tree\<close>

definition edge :: "fork_tree \<Rightarrow> (node_ref \<times> node_ref) set" where
  "edge t = {(i, c). \<exists>n. get_ref_node t i = Some n \<and> c \<in> set (tn_children n)}"

definition live :: "fork_tree \<Rightarrow> node_ref set" where
  "live t = {i. get_ref_node t i \<noteq> None}"

definition block_number :: "fork_tree \<Rightarrow> node_ref \<Rightarrow> nat option" where
  "block_number t i = map_option (\<lambda>n. bs_id (tn_data n)) (get_ref_node t i)"

text \<open>
  Children come after their parent and point back to it, at the next height; a node has one
  parent.
\<close>

definition shape :: "fork_tree \<Rightarrow> bool" where
  "shape t \<longleftrightarrow>
     (\<forall>i c. (i, c) \<in> edge t \<longrightarrow> i < c \<and> c < length (ft_nodes t)) \<and>
     (\<forall>i j c. (i, c) \<in> edge t \<longrightarrow> (j, c) \<in> edge t \<longrightarrow> i = j) \<and>
     (\<forall>i n. get_ref_node t i = Some n \<longrightarrow> distinct (tn_children n)) \<and>
     (\<forall>i c n m. (i, c) \<in> edge t \<longrightarrow> get_ref_node t i = Some n \<longrightarrow> get_ref_node t c = Some m \<longrightarrow>
        tn_parent m = Some i \<and> bs_id (tn_data m) = Suc (bs_id (tn_data n)))"

lemma shape_child:
  "shape t \<Longrightarrow> (i, c) \<in> edge t \<Longrightarrow> get_ref_node t i = Some n \<Longrightarrow> get_ref_node t c = Some m \<Longrightarrow>
   tn_parent m = Some i \<and> bs_id (tn_data m) = Suc (bs_id (tn_data n))"
  unfolding shape_def by blast

lemma shape_less: "shape t \<Longrightarrow> (i, c) \<in> edge t \<Longrightarrow> i < c \<and> c < length (ft_nodes t)"
  by (simp add: shape_def)

lemma descendant_le: "(i, j) \<in> (edge t)\<^sup>* \<Longrightarrow> shape t \<Longrightarrow> i \<le> j"
  by (induction rule: rtrancl_induct) (auto dest!: shape_less)

lemma descendant_less: "(i, j) \<in> (edge t)\<^sup>+ \<Longrightarrow> shape t \<Longrightarrow> i < j"
  using descendant_le shape_less by (metis order.strict_trans2 tranclD)

text \<open>Two nodes with a common descendant are one above the other.\<close>

lemma ancestors_linear:
  assumes "shape t" "(a, x) \<in> (edge t)\<^sup>*" "(b, x) \<in> (edge t)\<^sup>*"
  shows "(a, b) \<in> (edge t)\<^sup>* \<or> (b, a) \<in> (edge t)\<^sup>*"
  using assms(2,3)
proof (induction arbitrary: b rule: rtrancl_induct)
  case (step y z)
  show ?case
  proof (cases "b = z")
    case True
    then show ?thesis using step.hyps by (meson rtrancl.rtrancl_into_rtrancl)
  next
    case False
    then obtain y' where "(b, y') \<in> (edge t)\<^sup>*" "(y', z) \<in> edge t"
      using step.prems by (meson rtranclE)
    then have "(b, y) \<in> (edge t)\<^sup>*" using assms(1) step.hyps(2) unfolding shape_def by metis
    then show ?thesis by (rule step.IH)
  qed
qed simp

lemma siblings_disjoint:
  assumes t: "shape t" and "(l, a) \<in> edge t" "(l, b) \<in> edge t" "a \<noteq> b"
  shows "(edge t)\<^sup>* `` {a} \<inter> (edge t)\<^sup>* `` {b} = {}"
proof -
  have no: False if path: "(a, b) \<in> (edge t)\<^sup>*" and ab: "(l, a) \<in> edge t" "(l, b) \<in> edge t" "a \<noteq> b"
    for a b
  proof -
    obtain y where "(a, y) \<in> (edge t)\<^sup>*" "(y, b) \<in> edge t"
      using path ab(3) by (cases rule: rtranclE) auto
    then have "(a, l) \<in> (edge t)\<^sup>*" using t ab(2) unfolding shape_def by metis
    then show False using descendant_le[OF _ t] shape_less[OF t ab(1)] by fastforce
  qed
  show ?thesis using ancestors_linear[OF t] no assms by blast
qed

text \<open>The change a removal makes: only nodes of \<open>D\<close> go, with their sheets.\<close>

definition removed_in :: "node_ref set \<Rightarrow> fork_tree \<Rightarrow> fork_tree \<Rightarrow> bool" where
  "removed_in D t t' \<longleftrightarrow>
     length (ft_nodes t') = length (ft_nodes t) \<and> ft_root t' = ft_root t \<and> ft_main t' = ft_main t \<and>
     (\<forall>j. j \<notin> D \<longrightarrow> ft_nodes t' ! j = ft_nodes t ! j) \<and>
     (\<forall>j. ft_nodes t' ! j = ft_nodes t ! j \<or> ft_nodes t' ! j = None) \<and>
     (\<forall>s\<in>ft_sheets t'. s \<in> ft_sheets t \<and> ft_nodes t' ! s = ft_nodes t ! s)"

lemma removed_in_refl: "removed_in {} t t"
  by (simp add: removed_in_def)

lemma removed_in_mono: "removed_in D t t' \<Longrightarrow> D \<subseteq> D' \<Longrightarrow> removed_in D' t t'"
  by (auto simp: removed_in_def)

lemma removed_in_trans: "removed_in D t t' \<Longrightarrow> removed_in D' t' t'' \<Longrightarrow> removed_in (D \<union> D') t t''"
  by (simp add: removed_in_def) metis

lemma removed_in_node: "removed_in D t t' \<Longrightarrow> j \<notin> D \<Longrightarrow> get_ref_node t' j = get_ref_node t j"
  by (simp add: removed_in_def get_ref_node_def vec_get_def)

lemma removed_in_some: "removed_in D t t' \<Longrightarrow> get_ref_node t' j = Some n \<Longrightarrow> get_ref_node t j = Some n"
  unfolding get_ref_node_iff removed_in_def by (metis option.distinct(1))

lemma removed_in_edge: "removed_in D t t' \<Longrightarrow> edge t' \<subseteq> edge t"
  using removed_in_some by (fastforce simp: edge_def)

lemma shape_sub:
  assumes t: "shape t" and len: "length (ft_nodes t') = length (ft_nodes t)"
    and some: "\<And>j n. get_ref_node t' j = Some n \<Longrightarrow> get_ref_node t j = Some n"
  shows "shape t'"
proof -
  have e: "edge t' \<subseteq> edge t" using some by (fastforce simp: edge_def)
  show ?thesis
    unfolding shape_def
  proof (intro conjI allI impI)
    fix i c assume ic: "(i, c) \<in> edge t'"
    then show "i < c" "c < length (ft_nodes t')" using shape_less[OF t] e len by auto
    show "tn_parent m = Some i" "bs_id (tn_data m) = Suc (bs_id (tn_data n))"
      if "get_ref_node t' i = Some n" "get_ref_node t' c = Some m" for n m
      using shape_child[OF t subsetD[OF e ic] some[OF that(1)] some[OF that(2)]] by blast+
    show "i = j" if "(j, c) \<in> edge t'" for j
      using t ic that e unfolding shape_def by blast
  next
    fix i n assume "get_ref_node t' i = Some n"
    then show "distinct (tn_children n)" using t some unfolding shape_def by blast
  qed
qed

lemma removed_in_shape:
  assumes "removed_in D t t'" "shape t" shows "shape t'"
  using shape_sub[OF assms(2) _ removed_in_some[OF assms(1)]] assms(1)
  by (simp add: removed_in_def)

lemma removed_in_below:
  assumes "removed_in D t t'" "D \<inter> (edge t)\<^sup>* `` {i} = {}" "(edge t)\<^sup>* `` {i} \<subseteq> live t"
  shows "(edge t')\<^sup>* `` {i} \<subseteq> (edge t)\<^sup>* `` {i}" "(edge t')\<^sup>* `` {i} \<subseteq> live t'"
proof -
  show sub: "(edge t')\<^sup>* `` {i} \<subseteq> (edge t)\<^sup>* `` {i}"
    using rtrancl_mono[OF removed_in_edge[OF assms(1)]] by auto
  show "(edge t')\<^sup>* `` {i} \<subseteq> live t'"
  proof
    fix j assume "j \<in> (edge t')\<^sup>* `` {i}"
    then have "j \<in> (edge t)\<^sup>* `` {i}" using sub by blast
    then have "j \<in> live t" "j \<notin> D" using assms(2,3) by blast+
    then show "j \<in> live t'" using removed_in_node[OF assms(1), of j] by (simp add: live_def)
  qed
qed

lemma remove_node_removed_in:
  assumes "i \<in> live t"
  shows "\<exists>t'. remove_node i t = Some t' \<and> removed_in {i} t t'"
proof -
  obtain n where n: "get_ref_node t i = Some n" using assms by (auto simp: live_def)
  then have "i < length (ft_nodes t)" by (simp add: get_ref_node_iff)
  then show ?thesis using n by (auto simp: remove_node_def removed_in_def nth_list_update_cases)
qed

lemma remove_nodes_spec:
  assumes "distinct ids" "\<And>x. x \<in> set ids \<Longrightarrow> x \<in> live t"
  shows "\<exists>t'. fold_run remove_node ids t = Some t' \<and> removed_in (set ids) t t'"
proof -
  have "\<exists>t'. fold_run remove_node ids t = Some t' \<and> removed_in ({} \<union> set ids) t t'"
  proof (rule fold_run_invariant_distinct[where I = "\<lambda>A s. removed_in A t s"])
    fix A x s assume s: "removed_in A t s" and x: "x \<in> set ids" "x \<notin> A"
    then have "x \<in> live s" using assms(2)[OF x(1)] removed_in_node[OF s x(2)] by (simp add: live_def)
    from remove_node_removed_in[OF this] show "\<exists>s'. remove_node x s = Some s' \<and> removed_in (insert x A) t s'"
      using removed_in_trans[OF s] by fastforce
  qed (use assms(1) removed_in_refl in auto)
  then show ?thesis by simp
qed

lemma trancl_subset_rtrancl_image: "R\<^sup>+ `` A \<subseteq> R\<^sup>* `` A"
  by (auto dest: trancl_into_rtrancl)

text \<open>Removing siblings one after the other: their subtrees do not meet.\<close>

lemma fold_siblings:
  assumes t: "shape t" and l: "\<And>c. c \<in> set cs \<Longrightarrow> (l, c) \<in> edge t" and cs: "distinct cs"
    and live: "(edge t)\<^sup>* `` {l} \<subseteq> live t"
    and f: "\<And>c s. c \<in> set cs \<Longrightarrow> shape s \<Longrightarrow> length (ft_nodes s) = length (ft_nodes t) \<Longrightarrow>
      (edge s)\<^sup>* `` {c} \<subseteq> live s \<Longrightarrow>
      \<exists>s'. f c s = Some s' \<and> removed_in ((edge s)\<^sup>* `` {c}) s s'"
  shows "\<exists>t'. fold_run f cs t = Some t' \<and> removed_in (\<Union>c\<in>set cs. (edge t)\<^sup>* `` {c}) t t'"
proof -
  let ?I = "\<lambda>A s. A \<subseteq> set cs \<and> removed_in (\<Union>c\<in>A. (edge t)\<^sup>* `` {c}) t s"
  have "\<exists>t'. fold_run f cs t = Some t' \<and> ?I ({} \<union> set cs) t'"
  proof (rule fold_run_invariant_distinct[where I = ?I])
    fix A c s
    assume s: "A \<subseteq> set cs \<and> removed_in (\<Union>c\<in>A. (edge t)\<^sup>* `` {c}) t s" and c: "c \<in> set cs" "c \<notin> A"
    let ?D = "\<Union>c\<in>A. (edge t)\<^sup>* `` {c}"
    have below: "(edge t)\<^sup>* `` {c} \<subseteq> live t"
      using live l[OF c(1)] by (auto intro: converse_rtrancl_into_rtrancl)
    have "?D \<inter> (edge t)\<^sup>* `` {c} = {}"
      using siblings_disjoint[OF t l l[OF c(1)]] s c by blast
    note s_below = removed_in_below[OF conjunct2[OF s] this below]
    obtain s' where s': "f c s = Some s'" "removed_in ((edge s)\<^sup>* `` {c}) s s'"
      using f[OF c(1) removed_in_shape[OF conjunct2[OF s] t] _ s_below(2)] s
      by (auto simp: removed_in_def[of ?D])
    have "removed_in (?D \<union> (edge t)\<^sup>* `` {c}) t s'"
      by (rule removed_in_trans[OF conjunct2[OF s] removed_in_mono[OF s'(2) s_below(1)]])
    then have "removed_in (\<Union>c\<in>insert c A. (edge t)\<^sup>* `` {c}) t s'" by (simp add: Un_commute)
    then show "\<exists>s'. f c s = Some s' \<and> insert c A \<subseteq> set cs \<and>
        removed_in (\<Union>c\<in>insert c A. (edge t)\<^sup>* `` {c}) t s'" using s' s c by blast
  qed (use cs removed_in_refl in auto)
  then show ?thesis by simp
qed

lemma below_children:
  "(\<And>c. c \<in> set cs \<Longrightarrow> (l, c) \<in> edge t) \<Longrightarrow> (\<Union>c\<in>set cs. (edge t)\<^sup>* `` {c}) \<subseteq> (edge t)\<^sup>+ `` {l}"
  by (auto intro: rtrancl_into_trancl2)

lemma only_children_spec:
  assumes t: "shape t"
  shows "(edge t)\<^sup>* `` {i} \<subseteq> live t \<Longrightarrow> length (ft_nodes t) - i < k \<Longrightarrow>
    \<exists>ids n l. only_children k t i = Some (ids, n) \<and> get_ref_node t l = Some n \<and>
      (i, l) \<in> (edge t)\<^sup>* \<and> set ids \<subseteq> (edge t)\<^sup>+ `` {i} \<and> (\<forall>x\<in>set ids. x \<le> l) \<and> distinct ids"
proof (induction k arbitrary: i)
  case (Suc k)
  obtain n where n: "get_ref_node t i = Some n" using Suc.prems(1) by (auto simp: live_def)
  show ?case
  proof (cases "\<exists>c. tn_children n = [c]")
    case True
    then obtain c where c: "tn_children n = [c]" by blast
    then have e: "(i, c) \<in> edge t" using n by (auto simp: edge_def)
    have "(edge t)\<^sup>* `` {c} \<subseteq> live t"
      using Suc.prems(1) e by (auto intro: converse_rtrancl_into_rtrancl)
    moreover have "length (ft_nodes t) - c < k" using shape_less[OF t e] Suc.prems(2) by linarith
    ultimately obtain ids m l where ih: "only_children k t c = Some (ids, m)" "get_ref_node t l = Some m"
      "(c, l) \<in> (edge t)\<^sup>*" "set ids \<subseteq> (edge t)\<^sup>+ `` {c}" "\<forall>x\<in>set ids. x \<le> l" "distinct ids"
      using Suc.IH by blast
    have "c \<notin> set ids" using ih(4) descendant_less[OF _ t] by blast
    moreover have "c \<le> l" by (rule descendant_le[OF ih(3) t])
    moreover have "(i, l) \<in> (edge t)\<^sup>*" using e ih(3) by (rule converse_rtrancl_into_rtrancl)
    moreover have "set (c # ids) \<subseteq> (edge t)\<^sup>+ `` {i}"
      using e ih(4) by (auto intro: trancl_into_trancl2)
    ultimately show ?thesis using n c ih by auto
  next
    case False
    then have "only_children (Suc k) t i = Some ([], n)"
      using n by (auto split: list.splits)
    then show ?thesis using n by auto
  qed
qed simp

lemma remove_node_children_spec:
  "shape t \<Longrightarrow> (edge t)\<^sup>* `` {i} \<subseteq> live t \<Longrightarrow> length (ft_nodes t) - i < k \<Longrightarrow>
   \<exists>t'. remove_node_children k i t = Some t' \<and> removed_in ((edge t)\<^sup>+ `` {i}) t t'"
proof (induction k arbitrary: i t)
  case (Suc k)
  note t = Suc.prems(1) and below = Suc.prems(2)
  obtain ids n l where o: "only_children (Suc k) t i = Some (ids, n)" "get_ref_node t l = Some n"
    "(i, l) \<in> (edge t)\<^sup>*" "set ids \<subseteq> (edge t)\<^sup>+ `` {i}" "\<forall>x\<in>set ids. x \<le> l" "distinct ids"
    using only_children_spec[OF t below Suc.prems(3)] by blast
  have l_edge: "(l, c) \<in> edge t" if "c \<in> set (tn_children n)" for c
    using that o(2) by (auto simp: edge_def)
  have "\<exists>t1. fold_run (remove_node_children k) (tn_children n) t = Some t1 \<and>
      removed_in (\<Union>c\<in>set (tn_children n). (edge t)\<^sup>* `` {c}) t t1"
  proof (rule fold_siblings[OF t l_edge])
    show "distinct (tn_children n)" using t o(2) by (auto simp: shape_def)
    show "(edge t)\<^sup>* `` {l} \<subseteq> live t" using below o(3) by auto
  next
    fix c s assume c: "c \<in> set (tn_children n)" and s: "shape s"
      "length (ft_nodes s) = length (ft_nodes t)" "(edge s)\<^sup>* `` {c} \<subseteq> live s"
    have "i < c" "c < length (ft_nodes t)"
      using descendant_le[OF o(3) t] shape_less[OF t l_edge[OF c]] by simp_all
    then have "length (ft_nodes s) - c < k" using Suc.prems(3) s(2) by linarith
    from Suc.IH[OF s(1,3) this] show
      "\<exists>s'. remove_node_children k c s = Some s' \<and> removed_in ((edge s)\<^sup>* `` {c}) s s'"
      using removed_in_mono[OF _ trancl_subset_rtrancl_image] by blast
  qed
  then obtain t1 where t1: "fold_run (remove_node_children k) (tn_children n) t = Some t1"
    "removed_in ((edge t)\<^sup>+ `` {l}) t t1"
    using removed_in_mono[OF _ below_children[OF l_edge]] by blast
  have "x \<in> live t1" if "x \<in> set ids" for x
  proof -
    have "x \<notin> (edge t)\<^sup>+ `` {l}" using o(5) that descendant_less[OF _ t] by fastforce
    moreover have "x \<in> live t" using that o(4) below by (auto dest: trancl_into_rtrancl)
    ultimately show ?thesis using removed_in_node[OF t1(2)] by (simp add: live_def)
  qed
  then obtain t2 where t2: "fold_run remove_node ids t1 = Some t2" "removed_in (set ids) t1 t2"
    using remove_nodes_spec[OF o(6)] by blast
  have "removed_in ((edge t)\<^sup>+ `` {l} \<union> set ids) t t2"
    by (rule removed_in_trans[OF t1(2) t2(2)])
  then have "removed_in ((edge t)\<^sup>+ `` {i}) t t2"
    by (rule removed_in_mono) (use o(3,4) in \<open>auto intro: rtrancl_trancl_trancl\<close>)
  then show ?case using o(1) t1(1) t2(1) by (simp del: only_children.simps)
qed simp

lemma remove_subtree_spec:
  assumes t: "shape t" and below: "(edge t)\<^sup>* `` {c} \<subseteq> live t"
  shows "\<exists>t'. remove_subtree c t = Some t' \<and> removed_in ((edge t)\<^sup>* `` {c}) t t'"
proof -
  obtain t1 where t1: "remove_node_children (Suc (length (ft_nodes t))) c t = Some t1"
    "removed_in ((edge t)\<^sup>+ `` {c}) t t1"
    using remove_node_children_spec[OF t below, of "Suc (length (ft_nodes t))"] less_Suc_eq_le
    by (metis diff_le_self)
  have "c \<notin> (edge t)\<^sup>+ `` {c}" using descendant_less[OF _ t] by blast
  then have "c \<in> live t1" using removed_in_node[OF t1(2), of c] below by (auto simp: live_def)
  then obtain t2 where t2: "remove_node c t1 = Some t2" "removed_in {c} t1 t2"
    using remove_node_removed_in by blast
  have "removed_in ((edge t)\<^sup>+ `` {c} \<union> {c}) t t2" by (rule removed_in_trans[OF t1(2) t2(2)])
  then have "removed_in ((edge t)\<^sup>* `` {c}) t t2"
    by (rule removed_in_mono) (auto dest: trancl_into_rtrancl)
  then show ?thesis using t1 t2 by (simp add: remove_subtree_def del: remove_node_children.simps)
qed

subsection \<open>Well-formed trees\<close>

text \<open>
  The main branch maps the heights from \<open>a\<close> to \<open>h\<close>, each to a node of that height, each node a
  child of the one before, the first one the root.
\<close>

definition main_wf :: "fork_tree \<Rightarrow> node_ref \<Rightarrow> nat \<Rightarrow> nat \<Rightarrow> bool" where
  "main_wf t r a h \<longleftrightarrow> a \<le> h \<and> dom (ft_main t) = {a..h} \<and> ft_main t a = Some r \<and>
     (\<forall>k i. ft_main t k = Some i \<longrightarrow> block_number t i = Some k) \<and>
     (\<forall>k i j. ft_main t k = Some i \<longrightarrow> ft_main t (Suc k) = Some j \<longrightarrow> (i, j) \<in> edge t)"

text \<open>Sheets are nodes without children, and everything below the root is there.\<close>

definition nodes_wf :: "fork_tree \<Rightarrow> bool" where
  "nodes_wf t \<longleftrightarrow> shape t \<and> ft_sheets t \<subseteq> live t \<and> (\<forall>s\<in>ft_sheets t. \<forall>c. (s, c) \<notin> edge t) \<and>
     (\<forall>r. ft_root t = Some r \<longrightarrow> (edge t)\<^sup>* `` {r} \<subseteq> live t)"

definition tree_wf :: "fork_tree \<Rightarrow> bool" where
  "tree_wf t \<longleftrightarrow> nodes_wf t \<and>
     (case ft_root t of
        None \<Rightarrow> ft_nodes t = [] \<and> ft_main t = Map.empty
      | Some r \<Rightarrow> \<exists>a h. main_wf t r a h \<and> Suc h - a \<le> fork_window_size)"

lemma nodes_only:
  assumes "ft_nodes t' = ft_nodes t"
  shows "get_ref_node t' = get_ref_node t" "edge t' = edge t" "live t' = live t"
    "shape t' = shape t" "block_number t' = block_number t"
proof -
  show g: "get_ref_node t' = get_ref_node t" using assms by (simp add: get_ref_node_def fun_eq_iff)
  show e: "edge t' = edge t" by (simp add: edge_def g)
  show "live t' = live t" "shape t' = shape t" "block_number t' = block_number t"
    using assms by (simp_all add: live_def shape_def g e block_number_def fun_eq_iff)
qed

lemma main_below:
  assumes "main_wf t r a h" "ft_main t k = Some i" "a \<le> j" "j \<le> k" "ft_main t j = Some m"
  shows "(m, i) \<in> (edge t)\<^sup>*"
  using assms(4,2)
proof (induction k arbitrary: i rule: dec_induct)
  case base
  then show ?case using assms(5) by simp
next
  case (step k)
  have "Suc k \<in> dom (ft_main t)" using step.prems by blast
  then have "k \<in> dom (ft_main t)" using assms(1,3) step.hyps by (auto simp: main_wf_def)
  then obtain i' where i': "ft_main t k = Some i'" by blast
  then have "(i', i) \<in> edge t" using assms(1) step.prems unfolding main_wf_def by blast
  then show ?case using step.IH[OF i'] by simp
qed

text \<open>
  Pruning a well-formed tree whose main branch has a second node returns: the root goes, and of
  the rest only nodes below its other children.
\<close>

lemma pruning_spec:
  assumes nodes: "nodes_wf t" and r: "ft_root t = Some r" and main: "main_wf t r a h" and a: "a < h"
  shows "\<exists>t' m. pruning t = Some t' \<and> nodes_wf t' \<and> ft_root t' = Some m \<and>
    main_wf t' m (Suc a) h \<and> ft_main t' = (ft_main t)(a := None) \<and>
    (\<forall>k i. a < k \<longrightarrow> ft_main t k = Some i \<longrightarrow> get_ref_node t' i = get_ref_node t i) \<and>
    ft_main t (Suc a) = Some m \<and>
    (\<forall>j. (m, j) \<in> (edge t)\<^sup>* \<longrightarrow> get_ref_node t' j = get_ref_node t j)"
proof -
  have shape: "shape t" and sheets: "ft_sheets t \<subseteq> live t" "\<And>s c. s \<in> ft_sheets t \<Longrightarrow> (s, c) \<notin> edge t"
    and below: "(edge t)\<^sup>* `` {r} \<subseteq> live t"
    using nodes r by (auto simp: nodes_wf_def)
  obtain n where n: "get_ref_node t r = Some n" using below by (auto simp: live_def)
  have dom: "dom (ft_main t) = {a..h}" and main_a: "ft_main t a = Some r" using main by (auto simp: main_wf_def)
  have "block_number t r = Some a" using main main_a unfolding main_wf_def by blast
  then have number: "bs_id (tn_data n) = a" using n by (simp add: block_number_def)
  obtain m where m: "ft_main t (Suc a) = Some m" using dom a by (metis Suc_leI atLeastAtMost_iff
        domD le_SucI order.refl)
  have rm: "(r, m) \<in> edge t" using main main_a m unfolding main_wf_def by blast
  define cs where "cs = filter (\<lambda>c. c \<noteq> m) (tn_children n)"
  have cs: "(r, c) \<in> edge t \<and> c \<noteq> m" if "c \<in> set cs" for c
    using that n by (auto simp: cs_def edge_def)
  define t1 where "t1 = t\<lparr>ft_main := (ft_main t)(a := None), ft_removed := ft_removed t @ [tn_data n]\<rparr>"
  note t1_eq = nodes_only[of t1 t]
  have t1: "ft_nodes t1 = ft_nodes t" "ft_sheets t1 = ft_sheets t" by (simp_all add: t1_def)
  let ?D = "\<Union>c\<in>set cs. (edge t)\<^sup>* `` {c}"
  have "\<exists>t2. fold_run remove_subtree cs t1 = Some t2 \<and>
      removed_in (\<Union>c\<in>set cs. (edge t1)\<^sup>* `` {c}) t1 t2"
  proof (rule fold_siblings)
    show "shape t1" "(edge t1)\<^sup>* `` {r} \<subseteq> live t1" using shape below by (simp_all add: t1_eq t1)
    show "\<And>c. c \<in> set cs \<Longrightarrow> (r, c) \<in> edge t1" using cs by (simp add: t1_eq t1)
    show "distinct cs" using shape n by (auto simp: cs_def shape_def)
  qed (rule remove_subtree_spec)
  then obtain t2 where t2: "fold_run remove_subtree cs t1 = Some t2" "removed_in ?D t1 t2"
    by (auto simp: t1_eq t1)
  define t' where "t' = t2\<lparr>ft_nodes := (ft_nodes t2)[r := None], ft_root := Some m\<rparr>"
  have prune: "pruning t = Some t'"
    using r n m t2(1) number by (simp add: pruning_def Let_def cs_def t1_def t'_def)
  have rlen: "r < length (ft_nodes t2)"
    using t2(2) n by (simp add: removed_in_def t1 get_ref_node_iff)
  have gone: "j \<notin> insert r ?D \<Longrightarrow> get_ref_node t' j = get_ref_node t j" for j
    using removed_in_node[OF t2(2), of j] t1_eq(1)[OF t1(1)]
    by (simp add: t'_def get_ref_node_def vec_get_def nth_list_update_cases split: if_splits)
  have kept: "get_ref_node t' j = Some x \<Longrightarrow> get_ref_node t j = Some x \<and> j \<noteq> r" for j x
    using removed_in_some[OF t2(2), of j x] t1_eq(1)[OF t1(1)] rlen
    by (auto simp: t'_def get_ref_node_iff nth_list_update split: if_splits)
  have len: "length (ft_nodes t') = length (ft_nodes t)"
    using t2(2) by (simp add: t'_def removed_in_def t1)
  have edges: "edge t' \<subseteq> edge t" using kept by (fastforce simp: edge_def)
  have shape': "shape t'" by (rule shape_sub[OF shape len]) (use kept in blast)
  have m_below: "j \<notin> insert r ?D" if "(m, j) \<in> (edge t)\<^sup>*" for j
    using that siblings_disjoint[OF shape _ rm] cs descendant_le[OF that shape] shape_less[OF shape rm]
    by fastforce
  have below': "(edge t')\<^sup>* `` {m} \<subseteq> live t'"
  proof
    fix j assume "j \<in> (edge t')\<^sup>* `` {m}"
    then have mj: "(m, j) \<in> (edge t)\<^sup>*" using rtrancl_mono[OF edges] by blast
    then have "j \<in> live t" using below rm by (auto intro: converse_rtrancl_into_rtrancl)
    then show "j \<in> live t'" using gone[OF m_below[OF mj]] by (simp add: live_def)
  qed
  have sheets': "ft_sheets t' \<subseteq> live t'"
  proof
    fix s assume s: "s \<in> ft_sheets t'"
    then have s2: "s \<in> ft_sheets t" "ft_nodes t2 ! s = ft_nodes t ! s"
      using t2(2) by (auto simp: t'_def removed_in_def t1)
    then have "s \<noteq> r" using sheets(2) rm by blast
    then show "s \<in> live t'" using s2 sheets(1) len
      by (auto simp: live_def get_ref_node_iff t'_def)
  qed
  have main_kept: "(m, i) \<in> (edge t)\<^sup>*" if "a < k" "ft_main t k = Some i" for k i
    using main_below[OF main that(2) _ _ m] that(1) by simp
  have main': "ft_main t' = (ft_main t)(a := None)"
    using t2(2) by (simp add: t'_def removed_in_def t1_def)
  have numbers: "block_number t' i = block_number t i" if "a < k" "ft_main t k = Some i" for k i
    using gone[OF m_below[OF main_kept[OF that]]] by (simp add: block_number_def)
  have edges': "(i, j) \<in> edge t'" if "a < k" "ft_main t k = Some i" "ft_main t (Suc k) = Some j" for k i j
  proof -
    have "(i, j) \<in> edge t" using main that(2,3) unfolding main_wf_def by blast
    then show ?thesis using gone[OF m_below[OF main_kept[OF that(1,2)]]] by (simp add: edge_def)
  qed
  have above: "a < k" if "ft_main t' k = Some i" for k i
  proof -
    have "k \<noteq> a" "k \<in> dom (ft_main t)" using that main' by (auto split: if_splits)
    then show ?thesis using dom by simp
  qed
  have main_old: "ft_main t k = Some i" if "ft_main t' k = Some i" for k i
    using that main' by (simp split: if_splits)
  have "main_wf t' m (Suc a) h"
    unfolding main_wf_def
  proof (intro conjI allI impI)
    show "dom (ft_main t') = {Suc a..h}" using main' dom by auto
    show "ft_main t' (Suc a) = Some m" using main' m by simp
    show "block_number t' i = Some k" if "ft_main t' k = Some i" for k i
      using numbers[OF above[OF that] main_old[OF that]] main main_old[OF that]
      by (simp add: main_wf_def)
    show "(i, j) \<in> edge t'" if "ft_main t' k = Some i" "ft_main t' (Suc k) = Some j" for k i j
      by (rule edges'[OF above[OF that(1)] main_old[OF that(1)] main_old[OF that(2)]])
  qed (use a in simp)
  moreover have "nodes_wf t'"
    using shape' sheets' below' sheets(2) edges t2(2)
    by (auto simp: nodes_wf_def t'_def removed_in_def t1)
  moreover have "ft_root t' = Some m" by (simp add: t'_def)
  ultimately show ?thesis
    using prune main' gone[OF m_below] main_kept m by blast
qed

subsection \<open>Insertion keeps trees well-formed\<close>

text \<open>A new leaf below a node: the rest of the tree is as before.\<close>

lemma grown_node:
  assumes "get_ref_node t j = Some n"
    and "ft_nodes t' = (ft_nodes t)[j := Some (add_child (length (ft_nodes t)) n)] @
      [Some (tree_node_new (Some j) b)]"
  shows "get_ref_node t' i =
    (if i = length (ft_nodes t) then Some (tree_node_new (Some j) b)
     else if i = j then Some (add_child (length (ft_nodes t)) n) else get_ref_node t i)"
  using assms
  by (auto simp: get_ref_node_def vec_get_def nth_append nth_list_update less_Suc_eq
      split: option.splits if_splits)

lemma grown_tree:
  assumes j: "get_ref_node t j = Some n"
    and nodes: "ft_nodes t' = (ft_nodes t)[j := Some (add_child (length (ft_nodes t)) n)] @
      [Some (tree_node_new (Some j) b)]"
    and shape: "shape t" and number: "bs_id b = Suc (bs_id (tn_data n))"
  shows "edge t' = insert (j, length (ft_nodes t)) (edge t)"
    and "live t' = insert (length (ft_nodes t)) (live t)"
    and "shape t'"
    and "i \<in> live t \<Longrightarrow> block_number t' i = block_number t i"
    and "block_number t' (length (ft_nodes t)) = Some (bs_id b)"
proof -
  let ?l = "length (ft_nodes t)"
  note g = grown_node[OF j nodes]
  have l: "get_ref_node t ?l = None" by (simp add: get_ref_node_def vec_get_def)
  have "j < ?l" using j by (simp add: get_ref_node_iff)
  have fresh: "(i, ?l) \<notin> edge t" for i using shape_less[OF shape, of i ?l] by blast
  show e: "edge t' = insert (j, ?l) (edge t)"
    using l j \<open>j < ?l\<close> by (auto simp: edge_def g add_child_def tree_node_new_def split: if_splits)
  show "live t' = insert ?l (live t)" using j by (auto simp: live_def g)
  have len: "length (ft_nodes t') = Suc ?l" by (simp add: nodes)
  have "distinct (tn_children m)" if "get_ref_node t' i = Some m" for i m
    using that shape j fresh[of j] unfolding g shape_def
    by (auto simp: add_child_def tree_node_new_def edge_def split: if_splits)
  moreover have "i < c \<and> c < length (ft_nodes t')" if "(i, c) \<in> edge t'" for i c
    using that shape_less[OF shape, of i c] \<open>j < ?l\<close> by (auto simp: e len)
  moreover have "i = k" if "(i, c) \<in> edge t'" "(k, c) \<in> edge t'" for i k c
    using that shape fresh unfolding e shape_def by blast
  moreover have "tn_parent y = Some i \<and> bs_id (tn_data y) = Suc (bs_id (tn_data x))"
    if ic: "(i, c) \<in> edge t'" and xy: "get_ref_node t' i = Some x" "get_ref_node t' c = Some y" for i c x y
  proof (cases "(i, c) = (j, ?l)")
    case True
    then show ?thesis using xy \<open>j < ?l\<close> number by (auto simp: g tree_node_new_def add_child_def)
  next
    case False
    then have ic': "(i, c) \<in> edge t" using ic by (auto simp: e)
    then have "i < c" "c < ?l" using shape_less[OF shape] by blast+
    have old: "\<exists>u'. get_ref_node t k = Some u' \<and> tn_data u = tn_data u' \<and> tn_parent u = tn_parent u'"
      if "get_ref_node t' k = Some u" "k < ?l" for k u
    proof (cases "k = j")
      case True
      then have "u = add_child ?l n" using that g[of k] by simp
      then show ?thesis using True j by (simp add: add_child_def)
    next
      case False
      then show ?thesis using that g[of k] by simp
    qed
    have "i < ?l" using \<open>i < c\<close> \<open>c < ?l\<close> by simp
    then obtain x' where x': "get_ref_node t i = Some x'" "tn_data x = tn_data x'"
      using old[OF xy(1)] by blast
    obtain y' where y': "get_ref_node t c = Some y'" "tn_data y = tn_data y'" "tn_parent y = tn_parent y'"
      using old[OF xy(2) \<open>c < ?l\<close>] by blast
    show ?thesis using shape_child[OF shape ic' x'(1) y'(1)] x'(2) y'(2,3) by simp
  qed
  ultimately show "shape t'" unfolding shape_def by blast
  show "i \<in> live t \<Longrightarrow> block_number t' i = block_number t i"
    using l j by (auto simp: block_number_def g add_child_def live_def)
  show "block_number t' ?l = Some (bs_id b)" by (simp add: block_number_def g tree_node_new_def)
qed

lemma grown_below:
  assumes "edge t' = insert (j, l) (edge t)" "\<And>c. (l, c) \<notin> edge t"
  shows "(edge t')\<^sup>* `` {i} \<subseteq> insert l ((edge t)\<^sup>* `` {i})"
proof
  fix x assume "x \<in> (edge t')\<^sup>* `` {i}"
  then have "(i, x) \<in> (edge t')\<^sup>*" by blast
  then show "x \<in> insert l ((edge t)\<^sup>* `` {i})"
  proof (induction rule: rtrancl_induct)
    case (step y z)
    then show ?case using assms by (auto intro: rtrancl_into_rtrancl)
  qed simp
qed

text \<open>The tree after \<open>link_new_node\<close>, without the new sheet.\<close>

lemma link_new_node_wf:
  assumes t: "nodes_wf t" and j: "get_ref_node t j = Some n"
    and number: "bs_id b = Suc (bs_id (tn_data n))"
  shows "\<exists>t'. link_new_node b (Some j) t = Some (length (ft_nodes t), t') \<and> nodes_wf t' \<and>
    ft_root t' = ft_root t \<and> ft_main t' = ft_main t \<and>
    edge t' = insert (j, length (ft_nodes t)) (edge t) \<and>
    get_ref_node t' (length (ft_nodes t)) = Some (tree_node_new (Some j) b) \<and>
    (\<forall>i\<in>live t. block_number t' i = block_number t i)"
proof -
  let ?l = "length (ft_nodes t)"
  define t' where "t' = t\<lparr>ft_sheets := ft_sheets t - {j},
      ft_nodes := (ft_nodes t)[j := Some (add_child ?l n)] @ [Some (tree_node_new (Some j) b)]\<rparr>"
  have shape: "shape t" using t by (simp add: nodes_wf_def)
  have nodes: "ft_nodes t' = (ft_nodes t)[j := Some (add_child ?l n)] @ [Some (tree_node_new (Some j) b)]"
    by (simp add: t'_def)
  note grown = grown_tree[OF j nodes shape number]
  have no_child: "(?l, c) \<notin> edge t" for c by (auto simp: edge_def get_ref_node_def vec_get_def)
  have "nodes_wf t'"
    unfolding nodes_wf_def
  proof (intro conjI allI impI ballI)
    have "ft_sheets t' \<subseteq> ft_sheets t" by (auto simp: t'_def)
    then show "ft_sheets t' \<subseteq> live t'" using t unfolding grown(2) nodes_wf_def by blast
    show "(s, c) \<notin> edge t'" if "s \<in> ft_sheets t'" for s c
    proof -
      have "s \<in> ft_sheets t" "s \<noteq> j" using that by (simp_all add: t'_def)
      moreover from this have "s \<noteq> ?l"
        using t by (auto simp: nodes_wf_def live_def get_ref_node_iff)
      ultimately show ?thesis using t unfolding grown(1) nodes_wf_def by auto
    qed
    show "(edge t')\<^sup>* `` {r} \<subseteq> live t'" if "ft_root t' = Some r" for r
    proof -
      have "ft_root t = Some r" using that by (simp add: t'_def)
      then show ?thesis
        using grown_below[OF grown(1) no_child, of r] t unfolding grown(2) nodes_wf_def by blast
    qed
  qed (rule grown(3))
  moreover have "link_new_node b (Some j) t = Some (?l, t')"
    using link_new_node_Some[OF j, of b] by (simp add: t'_def)
  ultimately show ?thesis
    using grown(1,4) grown_node[OF j nodes, of ?l] by (simp add: t'_def)
qed

lemma add_sheet_wf:
  assumes "nodes_wf t" "i \<in> live t" "\<And>c. (i, c) \<notin> edge t"
  shows "nodes_wf (t\<lparr>ft_sheets := insert i (ft_sheets t)\<rparr>)"
  using assms nodes_only[of "t\<lparr>ft_sheets := insert i (ft_sheets t)\<rparr>" t]
  by (simp add: nodes_wf_def)

lemma insert_fork_wf:
  assumes t: "tree_wf t" and j: "get_ref_node t j = Some n"
    and number: "bs_id b = Suc (bs_id (tn_data n))"
  shows "\<exists>t'. insert_new_node b (Some j) False t = Some t' \<and> tree_wf t' \<and>
    ft_main t' = ft_main t \<and> get_ref_node t' (length (ft_nodes t)) = Some (tree_node_new (Some j) b)"
proof -
  let ?l = "length (ft_nodes t)"
  have "nodes_wf t" using t by (simp add: tree_wf_def)
  from link_new_node_wf[OF this j number] obtain t1 where
    link: "link_new_node b (Some j) t = Some (?l, t1)" and t1: "nodes_wf t1"
    and same: "ft_root t1 = ft_root t" "ft_main t1 = ft_main t"
    and e: "edge t1 = insert (j, ?l) (edge t)"
    and new: "get_ref_node t1 ?l = Some (tree_node_new (Some j) b)"
    and num: "\<forall>i\<in>live t. block_number t1 i = block_number t i" by blast
  define t2 where "t2 = t1\<lparr>ft_removed := [], ft_sheets := insert ?l (ft_sheets t1)\<rparr>"
  note t2_eq = nodes_only[of t2 t1]
  have n2: "ft_nodes t2 = ft_nodes t1" by (simp add: t2_def)
  have leaf: "(?l, c) \<notin> edge t1" for c using new by (auto simp: edge_def tree_node_new_def)
  have "nodes_wf t2"
    using t1 leaf new by (simp add: nodes_wf_def t2_eq[OF n2]) (simp add: t2_def live_def)
  moreover obtain r where r: "ft_root t = Some r"
    using t j by (cases "ft_root t") (auto simp: tree_wf_def get_ref_node_iff)
  moreover have "main_wf t2 r a h" if main: "main_wf t r a h" for a h
  proof -
    have "block_number t i = Some k" if "ft_main t k = Some i" for k i
      using main that by (auto simp: main_wf_def)
    then have "block_number t1 i = Some k" if "ft_main t k = Some i" for k i
      using num that by (fastforce simp: live_def block_number_def)
    then show ?thesis using main same e by (simp add: main_wf_def t2_eq[OF n2]) (simp add: t2_def)
  qed
  ultimately have "tree_wf t2" using t same by (auto simp: tree_wf_def t2_def)
  moreover have "insert_new_node b (Some j) False t = Some t2"
    using link by (simp add: insert_new_node_def t2_def)
  ultimately show ?thesis using same new t2_eq(1)[OF n2] by (auto simp: t2_def)
qed

text \<open>The block that extends the main branch, or the first block of an empty tree.\<close>

definition extends_main :: "fork_tree \<Rightarrow> blockstamp \<Rightarrow> bool" where
  "extends_main t b \<longleftrightarrow> ft_root t = None \<or>
     (0 < bs_id b \<and> ft_main t (bs_id b) = None \<and> ft_main t (bs_id b - 1) \<noteq> None)"

lemma insert_first_wf:
  assumes t: "tree_wf t" and empty: "ft_root t = None"
  shows "\<exists>t'. insert_new_node b None True t = Some t' \<and> tree_wf t' \<and>
    ft_main t' = [bs_id b \<mapsto> 0] \<and> get_ref_node t' 0 = Some (tree_node_new None b)"
proof -
  have t0: "ft_nodes t = []" "ft_main t = Map.empty" "ft_sheets t = {}"
    using t empty by (auto simp: tree_wf_def nodes_wf_def live_def get_ref_node_iff)
  define t' where "t' = \<lparr>ft_root = Some 0, ft_nodes = [Some (tree_node_new None b)],
    ft_main = [bs_id b \<mapsto> 0], ft_sheets = {0}, ft_removed = []\<rparr>"
  have node: "get_ref_node t' i = (if i = 0 then Some (tree_node_new None b) else None)" for i
    by (simp add: get_ref_node_def vec_get_def t'_def)
  have e: "edge t' = {}" by (auto simp: edge_def node tree_node_new_def)
  have "insert_new_node b None True t = Some t'"
    using t0 empty
    by (simp add: insert_new_node_def link_new_node_None t'_def fork_window_size_def)
  moreover have "shape t'" by (auto simp: shape_def e node tree_node_new_def split: if_splits)
  then have "nodes_wf t'" by (simp add: nodes_wf_def e live_def node) (simp add: t'_def)
  moreover have "block_number t' 0 = Some (bs_id b)" by (simp add: block_number_def node tree_node_new_def)
  then have "main_wf t' 0 (bs_id b) (bs_id b)"
    unfolding main_wf_def by (auto simp: t'_def[THEN arg_cong[where f = ft_main]] split: if_splits)
  moreover have "tree_wf t'" if "nodes_wf t'" "main_wf t' 0 (bs_id b) (bs_id b)"
    unfolding tree_wf_def using that
    by (intro conjI) (simp_all add: t'_def[THEN arg_cong[where f = ft_root]] fork_window_size_def,
      intro exI[of _ "bs_id b"], simp)
  ultimately show ?thesis
    using node[of 0] by (simp add: t'_def[THEN arg_cong[where f = ft_main]])
qed

lemma insert_head_wf:
  assumes t: "tree_wf t" and r: "ft_root t = Some r" and b: "extends_main t b"
  shows "\<exists>j t'. ft_main t (bs_id b - 1) = Some j \<and> insert_new_node b (Some j) True t = Some t' \<and>
    tree_wf t' \<and> ft_main t' (bs_id b) = Some (length (ft_nodes t)) \<and>
    get_ref_node t' (length (ft_nodes t)) = Some (tree_node_new (Some j) b)"
proof -
  let ?l = "length (ft_nodes t)"
  obtain a h where main: "main_wf t r a h" and w: "Suc h - a \<le> fork_window_size"
    using t r by (auto simp: tree_wf_def)
  have dom: "dom (ft_main t) = {a..h}" "a \<le> h" using main by (simp_all add: main_wf_def)
  have pred: "0 < bs_id b" "bs_id b - 1 \<in> {a..h}" "bs_id b \<notin> {a..h}"
    using b r unfolding dom(1)[symmetric] by (auto simp: extends_main_def)
  then have number: "bs_id b = Suc h" by auto
  obtain j where j: "ft_main t h = Some j" using dom by (metis atLeastAtMost_iff domD order.refl)
  have "block_number t j = Some h" using main j by (simp add: main_wf_def)
  then obtain n where n: "get_ref_node t j = Some n" by (auto simp: block_number_def)
  have "nodes_wf t" using t by (simp add: tree_wf_def)
  moreover have "bs_id b = Suc (bs_id (tn_data n))"
    using \<open>block_number t j = Some h\<close> n number by (simp add: block_number_def)
  ultimately obtain t1 where
    link: "link_new_node b (Some j) t = Some (?l, t1)" and t1: "nodes_wf t1"
    and same: "ft_root t1 = ft_root t" "ft_main t1 = ft_main t"
    and e: "edge t1 = insert (j, ?l) (edge t)"
    and new: "get_ref_node t1 ?l = Some (tree_node_new (Some j) b)"
    and num: "\<forall>i\<in>live t. block_number t1 i = block_number t i"
    using link_new_node_wf[OF _ n] by blast
  define t2 where "t2 = t1\<lparr>ft_removed := [], ft_main := (ft_main t)(Suc h \<mapsto> ?l)\<rparr>"
  note t2_eq = nodes_only[of t2 t1]
  have n2: "ft_nodes t2 = ft_nodes t1" by (simp add: t2_def)
  have m2: "ft_main t2 = (ft_main t)(Suc h \<mapsto> ?l)" by (simp add: t2_def)
  have e2: "edge t2 = insert (j, ?l) (edge t)" by (simp add: t2_eq[OF n2] e)
  have nodes2: "nodes_wf t2"
    using t1 by (simp add: nodes_wf_def t2_eq[OF n2]) (simp add: t2_def)
  have old: "block_number t2 i = Some k" if "ft_main t k = Some i" for k i
  proof -
    have "block_number t i = Some k" using main that by (simp add: main_wf_def)
    then show ?thesis using num by (fastforce simp: t2_eq[OF n2] live_def block_number_def)
  qed
  have main2: "main_wf t2 r a (Suc h)"
    unfolding main_wf_def
  proof (intro conjI allI impI)
    show "dom (ft_main t2) = {a..Suc h}" using dom by (auto simp: t2_def)
    show "ft_main t2 a = Some r" using main dom(2) by (simp add: t2_def main_wf_def)
    show "block_number t2 i = Some k" if "ft_main t2 k = Some i" for k i
      using that old new number
      by (auto simp: t2_def[THEN arg_cong[where f = ft_main]] block_number_def t2_eq[OF n2]
          tree_node_new_def split: if_splits)
    show "(i, k) \<in> edge t2" if "ft_main t2 m = Some i" "ft_main t2 (Suc m) = Some k" for m i k
    proof (cases "m = h")
      case True
      then show ?thesis using that j unfolding m2 e2 by simp
    next
      case False
      have "Suc (Suc h) \<notin> dom (ft_main t)" using dom by simp
      then have "m \<noteq> Suc h" using that(2) unfolding m2 by auto
      then show ?thesis using that False main unfolding m2 e2 main_wf_def by simp
    qed
  qed (use dom in simp)
  have root2: "ft_root t2 = Some r" using r same by (simp add: t2_def)
  have card2: "card (dom (ft_main t2)) = Suc (Suc h) - a"
    using main2 by (simp add: main_wf_def)
  have step: "insert_new_node b (Some j) True t = do {
      t \<leftarrow> (if card (dom (ft_main t2)) > fork_window_size then pruning t2 else Some t2);
      Some (t\<lparr>ft_sheets := insert ?l (ft_sheets t)\<rparr>) }"
    using link number same by (simp add: insert_new_node_def t2_def)
  have new2: "get_ref_node t2 ?l = Some (tree_node_new (Some j) b)" "ft_main t2 (Suc h) = Some ?l"
    using new by (simp_all add: t2_eq[OF n2]) (simp add: t2_def)
  have "\<exists>t3 r' a'. (if card (dom (ft_main t2)) > fork_window_size then pruning t2 else Some t2) = Some t3 \<and>
      nodes_wf t3 \<and> ft_root t3 = Some r' \<and> main_wf t3 r' a' (Suc h) \<and>
      Suc (Suc h) - a' \<le> fork_window_size \<and>
      get_ref_node t3 ?l = get_ref_node t2 ?l \<and> ft_main t3 (Suc h) = Some ?l"
  proof (cases "card (dom (ft_main t2)) > fork_window_size")
    case True
    have ah: "a < Suc h" using dom(2) by simp
    obtain t3 m where p: "pruning t2 = Some t3" "nodes_wf t3" "ft_root t3 = Some m"
      "main_wf t3 m (Suc a) (Suc h)" "ft_main t3 = (ft_main t2)(a := None)"
      "\<forall>k i. a < k \<longrightarrow> ft_main t2 k = Some i \<longrightarrow> get_ref_node t3 i = get_ref_node t2 i"
      using pruning_spec[OF nodes2 root2 main2 ah] by blast
    moreover have "get_ref_node t3 ?l = get_ref_node t2 ?l" using p(6) ah new2(2) by blast
    moreover have "ft_main t3 (Suc h) = Some ?l" using p(5) ah new2(2) by simp
    ultimately show ?thesis using w True by (auto intro!: exI[of _ "Suc a"])
  next
    case False
    then show ?thesis using nodes2 root2 main2 card2 new2(2) by auto
  qed
  then obtain t3 r' a' where
    t3: "(if card (dom (ft_main t2)) > fork_window_size then pruning t2 else Some t2) = Some t3"
    "nodes_wf t3" "ft_root t3 = Some r'" "main_wf t3 r' a' (Suc h)"
    "Suc (Suc h) - a' \<le> fork_window_size" "get_ref_node t3 ?l = get_ref_node t2 ?l"
    "ft_main t3 (Suc h) = Some ?l" by blast
  define t4 where "t4 = t3\<lparr>ft_sheets := insert ?l (ft_sheets t3)\<rparr>"
  note t4_eq = nodes_only[of t4 t3]
  have n4: "ft_nodes t4 = ft_nodes t3" by (simp add: t4_def)
  have "nodes_wf t4"
    unfolding t4_def
  proof (rule add_sheet_wf[OF t3(2)])
    show "?l \<in> live t3" "(?l, c) \<notin> edge t3" for c
      using t3(6) new2(1) by (auto simp: live_def edge_def tree_node_new_def)
  qed
  moreover have "main_wf t4 r' a' (Suc h)"
    using t3(4) by (simp add: main_wf_def t4_eq[OF n4]) (simp add: t4_def)
  ultimately have "tree_wf t4" using t3(3,5) by (auto simp: tree_wf_def t4_def)
  moreover have "insert_new_node b (Some j) True t = Some t4"
    unfolding step t3(1) by (simp add: t4_def)
  ultimately show ?thesis using j number t3(6,7) new2(1) t4_eq(1)[OF n4] by (auto simp: t4_def)
qed

subsection \<open>Fork branches\<close>

text \<open>The nodes from a node up to the main branch, the last one the first after the fork point.\<close>

inductive fork_path :: "fork_tree \<Rightarrow> node_ref \<Rightarrow> node_ref list \<Rightarrow> bool" for t where
  on_main: "get_ref_node t i = Some n \<Longrightarrow> ft_main t (bs_id (tn_data n)) = Some i \<Longrightarrow> fork_path t i []"
| off_main: "get_ref_node t i = Some n \<Longrightarrow> ft_main t (bs_id (tn_data n)) \<noteq> Some i \<Longrightarrow>
    (p, i) \<in> edge t \<Longrightarrow> fork_path t p path \<Longrightarrow> fork_path t i (i # path)"

text \<open>No two nodes hold the same block.\<close>

definition distinct_blocks :: "fork_tree \<Rightarrow> bool" where
  "distinct_blocks t \<longleftrightarrow>
     (\<forall>i j n m. get_ref_node t i = Some n \<longrightarrow> get_ref_node t j = Some m \<longrightarrow> tn_data n = tn_data m \<longrightarrow> i = j)"

lemma on_main_branch_spec:
  assumes main: "main_wf t r a h" and d: "distinct_blocks t" and n: "get_ref_node t i = Some n"
  shows "on_main_branch t n = Some (ft_main t (bs_id (tn_data n)) = Some i)"
proof (cases "ft_main t (bs_id (tn_data n))")
  case None
  then show ?thesis by (simp add: on_main_branch_def)
next
  case (Some j)
  then have "block_number t j = Some (bs_id (tn_data n))" using main unfolding main_wf_def by blast
  then obtain m where m: "get_ref_node t j = Some m" "bs_id (tn_data m) = bs_id (tn_data n)"
    by (auto simp: block_number_def)
  have "bs_hash (tn_data m) = bs_hash (tn_data n) \<longleftrightarrow> j = i"
    using d n m unfolding distinct_blocks_def by (metis blockstamp.expand option.inject)
  then show ?thesis using Some m by (simp add: on_main_branch_def get_main_branch_block_hash_def)
qed

lemma climb_spec:
  assumes t: "nodes_wf t" and main: "main_wf t r a h" and d: "distinct_blocks t"
    and r: "ft_root t = Some r"
  shows "(r, i) \<in> (edge t)\<^sup>* \<Longrightarrow>
    \<exists>path. fork_path t i path \<and> (\<forall>emit acc. climb emit t i acc =
      Some (acc @ map (\<lambda>j. emit j (the (get_ref_node t j))) path))"
proof (induction rule: rtrancl_induct)
  case base
  have "r \<in> live t" using t r by (auto simp: nodes_wf_def)
  then obtain n where n: "get_ref_node t r = Some n" by (auto simp: live_def)
  have "ft_main t a = Some r" "block_number t r = Some a" using main by (auto simp: main_wf_def)
  then have "ft_main t (bs_id (tn_data n)) = Some r" using n by (simp add: block_number_def)
  then have "fork_path t r []" "climb emit t r acc = Some acc" for emit :: "node_ref \<Rightarrow> tree_node \<Rightarrow> 'a" and acc
    using n on_main_branch_spec[OF main d n] by (auto intro: fork_path.on_main simp: climb.simps)
  then show ?case by auto
next
  case (step p i)
  have shape: "shape t" using t by (simp add: nodes_wf_def)
  have "i \<in> live t" using t r step.hyps unfolding nodes_wf_def by (meson Image_singleton_iff
        rtrancl.rtrancl_into_rtrancl subsetD)
  then obtain n where n: "get_ref_node t i = Some n" by (auto simp: live_def)
  obtain path where path: "fork_path t p path" "\<And>emit acc. climb emit t p acc =
      Some (acc @ map (\<lambda>j. (emit :: _ \<Rightarrow> _ \<Rightarrow> 'a) j (the (get_ref_node t j))) path)"
    using step.IH by blast
  obtain m where m: "get_ref_node t p = Some m" using path(1) by (auto elim: fork_path.cases)
  have parent: "tn_parent n = Some p" using shape_child[OF shape step.hyps(2) m n] by simp
  show ?case
  proof (cases "ft_main t (bs_id (tn_data n)) = Some i")
    case True
    then have "fork_path t i []" "climb emit t i acc = Some acc" for emit :: "node_ref \<Rightarrow> tree_node \<Rightarrow> 'a" and acc
      using n on_main_branch_spec[OF main d n] by (auto intro: fork_path.on_main simp: climb.simps)
    then show ?thesis by auto
  next
    case False
    then have "fork_path t i (i # path)" by (rule fork_path.off_main[OF n _ step.hyps(2) path(1)])
    moreover have "climb emit t i acc =
        Some (acc @ map (\<lambda>j. emit j (the (get_ref_node t j))) (i # path))"
      for emit :: "node_ref \<Rightarrow> tree_node \<Rightarrow> 'a" and acc
      using n parent False path(2) on_main_branch_spec[OF main d n]
      by (simp add: climb.simps[of emit t i])
    ultimately show ?thesis by blast
  qed
qed

lemma fork_path_unique:
  assumes t: "shape t"
  shows "fork_path t i path \<Longrightarrow> fork_path t i path' \<Longrightarrow> path' = path"
proof (induction arbitrary: path' rule: fork_path.induct)
  case (on_main i n)
  from on_main.prems show ?case by (rule fork_path.cases) (use on_main.hyps in auto)
next
  case (off_main i n p path)
  from off_main.prems show ?case
  proof (rule fork_path.cases)
    fix i' n' p' path'' assume c: "i = i'" "path' = i' # path''" "(p', i') \<in> edge t" "fork_path t p' path''"
    then have "p' = p" using t off_main.hyps(3) unfolding shape_def by blast
    then show "path' = i # path" using c off_main.IH by blast
  qed (use off_main.hyps in auto)
qed

lemma fork_branch_spec:
  assumes t: "nodes_wf t" and main: "main_wf t r a h" and d: "distinct_blocks t"
    and r: "ft_root t = Some r" and i: "(r, i) \<in> (edge t)\<^sup>*" "get_ref_node t i = Some n"
    and off: "ft_main t (bs_id (tn_data n)) \<noteq> Some i"
  shows "\<exists>path. fork_path t i path \<and> get_fork_branch_nodes_ids t i = Some (rev path) \<and>
    get_fork_branch t i = Some (map (\<lambda>j. tn_data (the (get_ref_node t j))) (rev path))"
proof -
  have shape: "shape t" using t by (simp add: nodes_wf_def)
  obtain path where path: "fork_path t i path" using climb_spec[OF t main d r i(1)] by blast
  then obtain p path' where p: "path = i # path'" "(p, i) \<in> edge t" "fork_path t p path'"
    using off i(2) by (auto elim: fork_path.cases)
  then obtain m where "get_ref_node t p = Some m" by (auto elim: fork_path.cases)
  then have parent: "tn_parent n = Some p" using shape_child[OF shape p(2) _ i(2)] by blast
  have rp: "(r, p) \<in> (edge t)\<^sup>*"
  proof -
    have "i \<noteq> r"
    proof
      assume "i = r"
      moreover have "ft_main t a = Some r" "block_number t r = Some a"
        using main by (auto simp: main_wf_def)
      ultimately show False using off i(2) by (simp add: block_number_def)
    qed
    then obtain q where "(r, q) \<in> (edge t)\<^sup>*" "(q, i) \<in> edge t"
      using i(1) by (auto elim: rtranclE)
    then show ?thesis using shape p(2) unfolding shape_def by blast
  qed
  obtain q where q: "fork_path t p q" "\<forall>(emit :: node_ref \<Rightarrow> tree_node \<Rightarrow> node_ref) acc.
      climb emit t p acc = Some (acc @ map (\<lambda>j. emit j (the (get_ref_node t j))) q)"
    using climb_spec[OF t main d r rp] by blast
  have climb_ids: "climb (\<lambda>i n. i) t p acc = Some (acc @ path')" for acc
    using q(2)[rule_format, of "\<lambda>i n. i"] fork_path_unique[OF shape p(3) q(1)] by simp
  obtain q' where q': "fork_path t p q'" "\<forall>(emit :: node_ref \<Rightarrow> tree_node \<Rightarrow> blockstamp) acc.
      climb emit t p acc = Some (acc @ map (\<lambda>j. emit j (the (get_ref_node t j))) q')"
    using climb_spec[OF t main d r rp] by blast
  have climb_data: "climb (\<lambda>i n. tn_data n) t p acc =
      Some (acc @ map (\<lambda>j. tn_data (the (get_ref_node t j))) path')" for acc
    using q'(2)[rule_format, of "\<lambda>i n. tn_data n"] fork_path_unique[OF shape p(3) q'(1)] by simp
  show ?thesis
    using path i(2) parent off on_main_branch_spec[OF main d i(2)]
    by (intro exI[of _ path])
      (simp add: get_fork_branch_nodes_ids_def get_fork_branch_def climb_ids climb_data p(1)
        rev_map)
qed

subsection \<open>Change of main branch\<close>

fun linked :: "fork_tree \<Rightarrow> node_ref \<Rightarrow> node_ref list \<Rightarrow> bool" where
  "linked t i [] \<longleftrightarrow> True"
| "linked t i (y # ys) \<longleftrightarrow> (i, y) \<in> edge t \<and> y \<in> live t \<and> linked t y ys"

lemma linked_snoc:
  "linked t i (ys @ [y]) \<longleftrightarrow> linked t i ys \<and> (last (i # ys), y) \<in> edge t \<and> y \<in> live t"
  by (induction ys arbitrary: i) auto

lemma linked_below: "linked t i ys \<Longrightarrow> y \<in> set (i # ys) \<Longrightarrow> (i, y) \<in> (edge t)\<^sup>*"
  by (induction ys arbitrary: i) (auto intro: converse_rtrancl_into_rtrancl)

lemma linked_cong:
  assumes "\<And>j. j \<in> set (i # ys) \<Longrightarrow> get_ref_node t' j = get_ref_node t j" "linked t i ys"
  shows "linked t' i ys"
  using assms
proof (induction ys arbitrary: i)
  case (Cons y ys)
  have "linked t' y ys" using Cons.prems by (intro Cons.IH) auto
  then show ?case using Cons.prems by (simp add: edge_def live_def)
qed simp

text \<open>A fork path is the chain from its fork point, a block of the main branch.\<close>

lemma fork_path_linked:
  assumes "fork_path t i path" "(\<And>j n. get_ref_node t j = Some n \<Longrightarrow> j \<in> live t)"
  shows "\<exists>k p. ft_main t k = Some p \<and> block_number t p = Some k \<and> linked t p (rev path) \<and>
    last (p # rev path) = i"
  using assms(1)
proof induction
  case (on_main i n)
  then show ?case by (auto simp: block_number_def)
next
  case (off_main i n p path)
  then obtain k q where q: "ft_main t k = Some q" "block_number t q = Some k"
    "linked t q (rev path)" "last (q # rev path) = p" by blast
  have "linked t q (rev (i # path))"
    using q(3,4) off_main.hyps(3) assms(2)[OF off_main.hyps(1)] by (simp add: linked_snoc)
  then show ?case using q by (intro exI[of _ k] exI[of _ q]) simp
qed

lemma linked_numbers:
  assumes t: "shape t"
  shows "linked t i ys \<Longrightarrow> block_number t i = Some k \<Longrightarrow> j < length ys \<Longrightarrow>
    block_number t (ys ! j) = Some (k + Suc j)"
proof (induction ys arbitrary: i k j)
  case (Cons y ys)
  have e: "(i, y) \<in> edge t" and "y \<in> live t" and ys: "linked t y ys" using Cons.prems by simp_all
  then obtain n where n: "get_ref_node t y = Some n" by (auto simp: live_def)
  obtain m where m: "get_ref_node t i = Some m" "bs_id (tn_data m) = k"
    using Cons.prems(2) by (auto simp: block_number_def)
  have y: "block_number t y = Some (Suc k)"
    using shape_child[OF t e m(1) n] m(2) n by (simp add: block_number_def)
  show ?case
  proof (cases j)
    case 0
    then show ?thesis using y by simp
  next
    case (Suc j')
    then show ?thesis using Cons.IH[OF ys y, of j'] Cons.prems(3) by simp
  qed
qed simp

lemma extend_main:
  assumes main: "main_wf t r a k" and head: "ft_main t k = Some i" "(i, y) \<in> edge t"
    and y: "block_number t y = Some (Suc k)" and nodes: "ft_nodes t' = ft_nodes t"
    and m': "ft_main t' = (ft_main t)(Suc k \<mapsto> y)"
  shows "main_wf t' r a (Suc k)"
proof -
  have dom: "dom (ft_main t) = {a..k}" "a \<le> k" and main_a: "ft_main t a = Some r"
    using main by (simp_all add: main_wf_def)
  have none: "ft_main t (Suc (Suc k)) = None" using dom by (metis Suc_n_not_le_n atLeastAtMost_iff
        domIff le_SucI not_less_eq_eq)
  show ?thesis
    unfolding main_wf_def nodes_only[OF nodes] m'
  proof (intro conjI allI impI)
    show "dom ((ft_main t)(Suc k \<mapsto> y)) = {a..Suc k}" using dom by auto
    show "((ft_main t)(Suc k \<mapsto> y)) a = Some r" using main_a dom(2) by simp
    show "block_number t j = Some n" if "((ft_main t)(Suc k \<mapsto> y)) n = Some j" for n j
      using that y main by (auto simp: main_wf_def split: if_splits)
    show "(j, l) \<in> edge t"
      if "((ft_main t)(Suc k \<mapsto> y)) n = Some j" "((ft_main t)(Suc k \<mapsto> y)) (Suc n) = Some l" for n j l
      using that main head none by (auto simp: main_wf_def split: if_splits)
  qed (use dom in simp)
qed

lemma switch_nodes:
  assumes "nodes_wf t" "ft_root t = Some r" "main_wf t r a k" "ft_main t k = Some i" "linked t i ys"
  shows "\<exists>t' r' a'. fold_run (switch_node h) ys t = Some t' \<and> nodes_wf t' \<and> ft_root t' = Some r' \<and>
    main_wf t' r' a' (k + length ys) \<and> a' = a + (k + length ys - max h k) \<and>
    (\<forall>n. a' \<le> n \<longrightarrow> n \<le> k \<longrightarrow> ft_main t' n = ft_main t n) \<and>
    (\<forall>j<length ys. a' \<le> k + Suc j \<longrightarrow> ft_main t' (k + Suc j) = Some (ys ! j))"
  using assms
proof (induction ys arbitrary: t r a k i)
  case Nil
  then show ?case by auto
next
  case (Cons y ys)
  have shape: "shape t" using Cons.prems(1) by (simp add: nodes_wf_def)
  have e: "(i, y) \<in> edge t" and ys: "linked t y ys" using Cons.prems(5) by simp_all
  have "block_number t i = Some k" using Cons.prems(3,4) unfolding main_wf_def by blast
  then have y: "block_number t y = Some (Suc k)"
    using linked_numbers[OF shape Cons.prems(5), of k 0] by simp
  then obtain n where n: "get_ref_node t y = Some n" "bs_id (tn_data n) = Suc k"
    by (auto simp: block_number_def)
  define t1 where "t1 = t\<lparr>ft_main := (ft_main t)(Suc k \<mapsto> y)\<rparr>"
  have nodes1: "ft_nodes t1 = ft_nodes t" and m1: "ft_main t1 = (ft_main t)(Suc k \<mapsto> y)"
    and r1: "ft_root t1 = Some r" using Cons.prems(2) by (simp_all add: t1_def)
  note same = nodes_only[OF nodes1]
  have wf1: "nodes_wf t1"
    using Cons.prems(1) by (simp add: nodes_wf_def same) (simp add: t1_def)
  have main1: "main_wf t1 r a (Suc k)"
    by (rule extend_main[OF Cons.prems(3,4) e y nodes1 m1])
  have a: "a \<le> k" using Cons.prems(3) by (simp add: main_wf_def)
  have dom: "dom (ft_main t) = {a..k}" using Cons.prems(3) by (simp add: main_wf_def)
  have ys1: "linked t1 y ys" using ys by (rule linked_cong[rotated]) (simp add: same)
  have "\<exists>t2 r2 a2. switch_node h y t = Some t2 \<and> nodes_wf t2 \<and> ft_root t2 = Some r2 \<and>
      main_wf t2 r2 a2 (Suc k) \<and> a2 = a + (Suc k - max h k) \<and> linked t2 y ys \<and>
      (\<forall>n\<ge>a2. ft_main t2 n = ft_main t1 n)"
  proof (cases "Suc k > h")
    case True
    obtain t2 m where p: "pruning t1 = Some t2" "nodes_wf t2" "ft_root t2 = Some m"
      "main_wf t2 m (Suc a) (Suc k)" "ft_main t2 = (ft_main t1)(a := None)"
      "ft_main t1 (Suc a) = Some m" "\<forall>j. (m, j) \<in> (edge t1)\<^sup>* \<longrightarrow> get_ref_node t2 j = get_ref_node t1 j"
      using pruning_spec[OF wf1 r1 main1 le_imp_less_Suc[OF a]] by blast
    have my: "(m, y) \<in> (edge t1)\<^sup>*"
      by (rule main_below[OF main1 _ _ _ p(6)]) (use a m1 in auto)
    have "linked t2 y ys"
      by (rule linked_cong[OF _ ys1])
        (use p(7) my linked_below[OF ys1] in \<open>blast intro: rtrancl_trans\<close>)
    moreover have "switch_node h y t = Some t2" using n True p(1) by (simp add: switch_node_def t1_def)
    moreover have "\<forall>n\<ge>Suc a. ft_main t2 n = ft_main t1 n" using p(5) by simp
    ultimately show ?thesis using p(2-4) True
      by (intro exI[of _ t2] exI[of _ m] exI[of _ "Suc a"]) (simp add: max_def)
  next
    case False
    then have "switch_node h y t = Some t1" using n by (simp add: switch_node_def t1_def)
    then show ?thesis using wf1 r1 main1 ys1 False
      by (intro exI[of _ t1] exI[of _ r] exI[of _ a]) simp
  qed
  then obtain t2 r2 a2 where t2: "switch_node h y t = Some t2" "nodes_wf t2" "ft_root t2 = Some r2"
    "main_wf t2 r2 a2 (Suc k)" "a2 = a + (Suc k - max h k)" "linked t2 y ys"
    "\<forall>n\<ge>a2. ft_main t2 n = ft_main t1 n" by blast
  have "a2 \<le> Suc k" using t2(5) a by simp
  then have y2: "ft_main t2 (Suc k) = Some y" using t2(7) m1 by simp
  obtain t' r' a' where ih: "fold_run (switch_node h) ys t2 = Some t'" "nodes_wf t'" "ft_root t' = Some r'"
    "main_wf t' r' a' (Suc k + length ys)" "a' = a2 + (Suc k + length ys - max h (Suc k))"
    "\<forall>n. a' \<le> n \<longrightarrow> n \<le> Suc k \<longrightarrow> ft_main t' n = ft_main t2 n"
    "\<forall>j<length ys. a' \<le> Suc k + Suc j \<longrightarrow> ft_main t' (Suc k + Suc j) = Some (ys ! j)"
    using Cons.IH[OF t2(2,3,4) y2 t2(6)] by blast
  have a': "a' = a + (k + length (y # ys) - max h k)" "a2 \<le> a'" using ih(5) t2(5) by (auto simp: max_def)
  have "ft_main t' n = ft_main t n" if "a' \<le> n" "n \<le> k" for n
    using that ih(6) t2(7) a'(2) m1 by simp
  moreover have "ft_main t' (k + Suc j) = Some ((y # ys) ! j)"
    if "j < length (y # ys)" "a' \<le> k + Suc j" for j
    using that ih(6,7) y2 by (cases j) auto
  moreover have "fold_run (switch_node h) (y # ys) t = Some t'" using t2(1) ih(1) by simp
  ultimately show ?case using ih(2-4) a'(1)
    by (intro exI[of _ t'] exI[of _ r'] exI[of _ a']) simp
qed

lemma find_node_unique:
  assumes d: "distinct_blocks t" and i: "get_ref_node t i = Some n"
  shows "find_node_with_blockstamp t (tn_data n) = Some i"
proof -
  have "find_node_with_blockstamp t (tn_data n) \<noteq> None"
    using i by (auto simp: find_node_with_blockstamp_def find_None_iff get_ref_node_iff)
  then obtain j where j: "find_node_with_blockstamp t (tn_data n) = Some j" by blast
  from find_node_Some[OF this] obtain m where "get_ref_node t j = Some m" "tn_data m = tn_data n" by blast
  then show ?thesis using d i j unfolding distinct_blocks_def by metis
qed

text \<open>Cutting the main branch at the fork point.\<close>

lemma cut_main:
  assumes main: "main_wf t r a h" and k: "a \<le> k" "k \<le> h" and nodes: "ft_nodes t' = ft_nodes t"
    and m': "ft_main t' = (\<lambda>n. if k < n then None else ft_main t n)"
  shows "main_wf t' r a k"
proof -
  have dom: "dom (ft_main t) = {a..h}" using main by (simp add: main_wf_def)
  have "dom (ft_main t') = dom (ft_main t) \<inter> {..k}" by (auto simp: m' split: if_splits)
  then have "dom (ft_main t') = {a..k}" using dom k by auto
  then show ?thesis
    using main k by (auto simp: main_wf_def nodes_only[OF nodes] m' split: if_splits)
qed

lemma change_main_branch_spec:
  assumes t: "tree_wf t" and d: "distinct_blocks t" and r: "ft_root t = Some r"
    and main: "main_wf t r a h" and old: "bs_id old = h"
    and i: "(r, i) \<in> (edge t)\<^sup>*" "get_ref_node t i = Some n" "tn_data n = new"
    and off: "ft_main t (bs_id new) \<noteq> Some i"
  shows "\<exists>path k t'. get_fork_branch_nodes_ids t i = Some path \<and> change_main_branch old new t = Some t' \<and>
    tree_wf t' \<and> bs_id new = k + length path \<and>
    dom (ft_main t') = {a + (bs_id new - h)..bs_id new} \<and>
    (\<forall>m. a + (bs_id new - h) \<le> m \<longrightarrow> m \<le> k \<longrightarrow> ft_main t' m = ft_main t m) \<and>
    (\<forall>j<length path. a + (bs_id new - h) \<le> k + Suc j \<longrightarrow> ft_main t' (k + Suc j) = Some (path ! j))"
proof -
  have nodes: "nodes_wf t" using t by (simp add: tree_wf_def)
  then have shape: "shape t" by (simp add: nodes_wf_def)
  obtain path where path: "fork_path t i path" "get_fork_branch_nodes_ids t i = Some (rev path)"
    using fork_branch_spec[OF nodes main d r i(1,2)] off i(3) by auto
  from fork_path_linked[OF path(1)] obtain k q where q: "ft_main t k = Some q"
    "block_number t q = Some k" "linked t q (rev path)" "last (q # rev path) = i"
    by (auto simp: live_def)
  obtain y ys where y: "rev path = y # ys" using off i q(1,2,4)
    by (cases "rev path") (auto simp: block_number_def)
  have dom: "dom (ft_main t) = {a..h}" using main by (simp add: main_wf_def)
  then have k: "a \<le> k" "k \<le> h" using q(1) by (metis atLeastAtMost_iff domI)+
  have "block_number t y = Some (Suc k)"
    using linked_numbers[OF shape q(3,2), of 0] y by simp
  then obtain ny where ny: "get_ref_node t y = Some ny" "bs_id (tn_data ny) = Suc k"
    by (auto simp: block_number_def)
  have new: "bs_id new = k + length path"
  proof -
    have "block_number t (rev path ! (length path - 1)) = Some (k + Suc (length path - 1))"
      using linked_numbers[OF shape q(3,2), of "length path - 1"] y by (cases path) auto
    moreover have "rev path ! (length path - 1) = i"
      using q(4) y by (metis last.simps last_conv_nth length_rev list.distinct(1))
    moreover have "Suc (length path - 1) = length path" using y by (cases path) auto
    ultimately show ?thesis using i(2,3) by (simp add: block_number_def)
  qed
  define t1 where "t1 = t\<lparr>ft_main := (\<lambda>m. if k < m then None else ft_main t m)\<rparr>"
  have nodes1: "ft_nodes t1 = ft_nodes t" and m1: "ft_main t1 = (\<lambda>m. if k < m then None else ft_main t m)"
    and r1: "ft_root t1 = Some r" using r by (simp_all add: t1_def)
  note same = nodes_only[OF nodes1]
  have main1: "main_wf t1 r a k" by (rule cut_main[OF main k nodes1 m1])
  have wf1: "nodes_wf t1" using nodes by (simp add: nodes_wf_def same) (simp add: t1_def)
  have linked1: "linked t1 q (rev path)" using q(3) by (rule linked_cong[rotated]) (simp add: same)
  have q1: "ft_main t1 k = Some q" using q(1) by (simp add: m1)
  obtain t' r' where t': "fold_run (switch_node h) (rev path) t1 = Some t'" "nodes_wf t'"
    "ft_root t' = Some r'" "main_wf t' r' (a + (bs_id new - max h k)) (bs_id new)"
    "\<forall>n. a + (bs_id new - max h k) \<le> n \<longrightarrow> n \<le> k \<longrightarrow> ft_main t' n = ft_main t1 n"
    "\<forall>j<length path. a + (bs_id new - max h k) \<le> k + Suc j \<longrightarrow> ft_main t' (k + Suc j) = Some (rev path ! j)"
    using switch_nodes[OF wf1 r1 main1 q1 linked1, of h] new by auto
  have hk: "max h k = h" using k by simp
  have none: "ft_main t m = None" if "h < m" for m
  proof -
    have "m \<notin> dom (ft_main t)" unfolding dom using that by simp
    then show ?thesis by blast
  qed
  have cut: "(\<lambda>m. if Suc (bs_id new) \<le> m \<and> m \<le> h then None
      else if Suc k \<le> m \<and> m \<le> bs_id new then None else ft_main t m) = ft_main t1"
    if "bs_id new < h"
  proof
    fix m show "(if Suc (bs_id new) \<le> m \<and> m \<le> h then None
      else if Suc k \<le> m \<and> m \<le> bs_id new then None else ft_main t m) = ft_main t1 m"
      using none[of m] new by (cases "m \<le> h") (auto simp: m1)
  qed
  have cut': "(\<lambda>m. if Suc k \<le> m \<and> m \<le> bs_id new then None else ft_main t m) = ft_main t1"
    if "h \<le> bs_id new"
  proof
    fix m show "(if Suc k \<le> m \<and> m \<le> bs_id new then None else ft_main t m) = ft_main t1 m"
      using none[of m] that by (cases "m \<le> h") (auto simp: m1)
  qed
  have "change_main_branch old new t = fold_run (switch_node h) (rev path) t1"
  proof -
    have t1: "t\<lparr>ft_main := ft_main t1\<rparr> = t1" by (simp add: t1_def)
    have find: "find_node_with_blockstamp t new = Some i" using find_node_unique[OF d i(2)] i(3) by simp
    show ?thesis
    proof (cases "bs_id new < h")
      case True
      then show ?thesis using cut[OF True]
        by (simp add: change_main_branch_def find path(2) y ny old t1 del: fold_run.simps cong del: if_weak_cong)
    next
      case False
      then show ?thesis using cut'
        by (simp add: change_main_branch_def find path(2) y ny old t1 del: fold_run.simps)
    qed
  qed
  then have "change_main_branch old new t = Some t'" using t'(1) by simp
  moreover have "tree_wf t'"
  proof -
    obtain a0 h0 where "main_wf t r a0 h0" "Suc h0 - a0 \<le> fork_window_size"
      using t r by (auto simp: tree_wf_def)
    moreover have "{a0..h0} = {a..h}" "a0 \<le> h0" "a \<le> h"
      using calculation(1) main by (auto simp: main_wf_def)
    ultimately have "Suc (bs_id new) - (a + (bs_id new - h)) \<le> fork_window_size"
      by (simp add: Icc_eq_Icc)
    then show ?thesis using t'(2-4) unfolding tree_wf_def hk by auto
  qed
  moreover have "dom (ft_main t') = {a + (bs_id new - h)..bs_id new}"
    using t'(4) unfolding main_wf_def hk by blast
  ultimately show ?thesis
    using path(2) t'(5,6) new unfolding hk
    by (intro exI[of _ "rev path"] exI[of _ k] exI[of _ t']) (simp add: m1)
qed

subsection \<open>Reachable trees\<close>

lemma tree_size_root:
  assumes "tree_wf t" shows "tree_size t > 0 \<longleftrightarrow> ft_root t \<noteq> None"
proof (cases "ft_root t")
  case None
  then show ?thesis using assms by (simp add: tree_wf_def tree_size_def)
next
  case (Some r)
  then have "r \<in> live t" using assms by (auto simp: tree_wf_def nodes_wf_def)
  then have "{i. i < length (ft_nodes t) \<and> ft_nodes t ! i \<noteq> None} \<noteq> {}"
    by (auto simp: live_def get_ref_node_iff)
  then show ?thesis using Some by (simp add: tree_size_card card_gt_0_iff)
qed

lemma insert_new_head_wf:
  assumes t: "tree_wf t" and b: "extends_main t b"
  shows "\<exists>removed t' i. insert_new_head_block b t = Some (removed, t') \<and> tree_wf t' \<and>
    ft_main t' (bs_id b) = Some i \<and> map_option tn_data (get_ref_node t' i) = Some b"
proof (cases "ft_root t")
  case None
  from insert_first_wf[OF t None, of b] show ?thesis
    using tree_size_root[OF t] None
    by (auto simp: insert_new_head_block_def tree_node_new_def)
next
  case (Some r)
  from insert_head_wf[OF t Some b] show ?thesis
    using tree_size_root[OF t] Some b
    by (auto simp: insert_new_head_block_def tree_node_new_def get_main_branch_node_id_def extends_main_def)
qed

lemma insert_new_fork_wf:
  assumes t: "tree_wf t" and b: "0 < bs_id b"
  shows "\<exists>inserted t'. insert_new_fork_block p b h t = Some (inserted, t') \<and> tree_wf t' \<and>
    ft_main t' = ft_main t \<and>
    (inserted \<longleftrightarrow> (\<exists>i n. get_ref_node t i = Some n \<and> tn_data n = Blockstamp (bs_id b - 1) h)) \<and>
    (inserted \<longrightarrow> (\<exists>i. map_option tn_data (get_ref_node t' i) = Some b))"
proof (cases "find_node_with_blockstamp t (Blockstamp (bs_id b - 1) h)")
  case None
  have "\<nexists>i n. get_ref_node t i = Some n \<and> tn_data n = Blockstamp (bs_id b - 1) h"
    using None by (auto simp: find_node_with_blockstamp_def find_None_iff get_ref_node_iff)
  then show ?thesis using None t b by (auto simp: insert_new_fork_block_def)
next
  case (Some j)
  from find_node_Some[OF this] obtain n where n: "get_ref_node t j = Some n"
    "tn_data n = Blockstamp (bs_id b - 1) h" by blast
  have "bs_id b = Suc (bs_id (tn_data n))" using n b by simp
  from insert_fork_wf[OF t n(1) this] show ?thesis
    using Some n b by (fastforce simp: insert_new_fork_block_def tree_node_new_def)
qed

text \<open>The trees the module builds from blocks, before any change of branch.\<close>

inductive fork_reach :: "fork_tree \<Rightarrow> bool" where
  start: "fork_reach tree_default"
| head: "fork_reach t \<Longrightarrow> extends_main t b \<Longrightarrow> insert_new_head_block b t = Some (r, t') \<Longrightarrow> fork_reach t'"
| fork: "fork_reach t \<Longrightarrow> 0 < bs_id b \<Longrightarrow> insert_new_fork_block p b h t = Some (i, t') \<Longrightarrow> fork_reach t'"

lemma fork_reach_wf: "fork_reach t \<Longrightarrow> tree_wf t"
proof (induction rule: fork_reach.induct)
  case start
  have "get_ref_node tree_default i = None" for i
    by (simp add: get_ref_node_def vec_get_def tree_default_def)
  then show ?case
    by (auto simp: tree_wf_def nodes_wf_def shape_def edge_def) (simp_all add: tree_default_def)
next
  case (head t b r t')
  then show ?case using insert_new_head_wf[OF head.IH head.hyps(2)] by auto
next
  case (fork t b p h i t')
  then show ?case using insert_new_fork_wf[OF fork.IH fork.hyps(2), of p h] by auto
qed

subsection \<open>Properties\<close>



text \<open>
  C19: A chain of blocks numbered from 0 and inserted as heads leaves the last 200 of them on the
  main branch, at their heights, and the last insertion reports the block that left the window.
\<close>

theorem fork_tree_window:
  assumes "\<And>i. bs_id (bs i) = i"
  shows "\<exists>t. fold_run (\<lambda>b t. map_option snd (insert_new_head_block b t)) (map bs [0..<n]) tree_default =
      Some t \<and> tree_size t = min n 200 \<and>
    (\<forall>k. get_main_branch_block_hash t k =
      Some (if n - 200 \<le> k \<and> k < n then Some (bs_hash (bs k)) else None)) \<and>
    ft_removed t = (if 200 < n then [bs (n - 201)] else [])"
proof -
  have "fold_run (\<lambda>b t. map_option snd (insert_new_head_block b t)) (map bs [0..<n]) tree_default =
      Some (chain_tree bs n)"
  proof (induction n)
    case 0
    then show ?case by (simp add: tree_default_def chain_tree_def fun_eq_iff)
  next
    case (Suc n)
    then show ?case by (simp add: fold_run_snoc chain_insert[OF assms])
  qed
  moreover have "get_ref_node (chain_tree bs n) k = Some (chain_node bs n k)" if "n - 200 \<le> k" "k < n" for k
    using that by (simp add: get_ref_node_iff chain_tree_def fork_window_size_def)
  then have "get_main_branch_block_hash (chain_tree bs n) k =
      Some (if n - 200 \<le> k \<and> k < n then Some (bs_hash (bs k)) else None)" for k
    by (auto simp: get_main_branch_block_hash_def chain_tree_def[THEN arg_cong[where f = ft_main]]
        fork_window_size_def chain_node_def)
  ultimately show ?thesis
    using chain_tree_size[of bs n] by (auto simp: fork_window_size_def chain_tree_def)
qed

theorem fork_tree_window_witness:
  "\<exists>t. fold_run (\<lambda>b t. map_option snd (insert_new_head_block b t))
      (map (\<lambda>i. Blockstamp i (Hash [i])) [0..<1000]) tree_default = Some t \<and> tree_size t = 200"
  using fork_tree_window[of "\<lambda>i. Blockstamp i (Hash [i])" 1000] by auto

text \<open>
  C18: Changing the main branch to the branch of a block below the root returns a well-formed tree
  whose main branch ends at that block: above the fork point it holds exactly the blocks of the
  chosen branch, below it what it held before; the oldest heights go, one for each block above
  the old head.
\<close>

theorem change_main_branch_switches:
  assumes "tree_wf t" "distinct_blocks t" "ft_root t = Some r" "main_wf t r a (bs_id old)"
    and "(r, i) \<in> (edge t)\<^sup>*" "get_ref_node t i = Some n" "tn_data n = new"
    and "ft_main t (bs_id new) \<noteq> Some i"
  shows "\<exists>path k t'. get_fork_branch_nodes_ids t i = Some path \<and> change_main_branch old new t = Some t' \<and>
    tree_wf t' \<and> bs_id new = k + length path \<and>
    dom (ft_main t') = {a + (bs_id new - bs_id old)..bs_id new} \<and>
    (\<forall>m. a + (bs_id new - bs_id old) \<le> m \<longrightarrow> m \<le> k \<longrightarrow> ft_main t' m = ft_main t m) \<and>
    (\<forall>j<length path. a + (bs_id new - bs_id old) \<le> k + Suc j \<longrightarrow>
      ft_main t' (k + Suc j) = Some (path ! j))"
  by (rule change_main_branch_spec[OF assms(1-4) refl assms(5-8)])

definition bk :: "nat \<Rightarrow> nat \<Rightarrow> blockstamp" where
  "bk number h = Blockstamp number (Hash [h])"

text \<open>Two blocks on the main branch and a fork of two blocks that starts at the first one.\<close>

definition small_forks :: fork_tree where
  "small_forks = \<lparr>ft_root = Some 0,
     ft_nodes = [Some \<lparr>tn_parent = None, tn_children = [1, 2], tn_data = bk 0 0\<rparr>,
       Some \<lparr>tn_parent = Some 0, tn_children = [], tn_data = bk 1 1\<rparr>,
       Some \<lparr>tn_parent = Some 0, tn_children = [3], tn_data = bk 1 2\<rparr>,
       Some \<lparr>tn_parent = Some 2, tn_children = [], tn_data = bk 2 3\<rparr>],
     ft_main = [0 \<mapsto> 0, 1 \<mapsto> 1], ft_sheets = {1, 3}, ft_removed = []\<rparr>"

lemmas insert_eval =
  insert_new_head_block_def insert_new_fork_block_def insert_new_node_def link_new_node_None
  link_new_node_Some tree_default_def tree_size_def get_main_branch_node_id_def get_ref_node_def
  vec_get_def tree_node_new_def add_child_def find_node_with_blockstamp_def bk_def fork_window_size_def

theorem change_main_branch_switches_witness:
  "\<exists>t'. change_main_branch (bk 1 1) (bk 2 3) small_forks = Some t' \<and> tree_wf t' \<and>
    ft_main t' 2 = Some 3"
proof -
  have node: "get_ref_node small_forks i =
    (if i = 0 then Some \<lparr>tn_parent = None, tn_children = [1, 2], tn_data = bk 0 0\<rparr>
     else if i = 1 then Some \<lparr>tn_parent = Some 0, tn_children = [], tn_data = bk 1 1\<rparr>
     else if i = 2 then Some \<lparr>tn_parent = Some 0, tn_children = [3], tn_data = bk 1 2\<rparr>
     else if i = 3 then Some \<lparr>tn_parent = Some 2, tn_children = [], tn_data = bk 2 3\<rparr> else None)" for i
    by (simp add: get_ref_node_def vec_get_def small_forks_def nth_Cons')
  have e: "edge small_forks = {(0, 1), (0, 2), (2, 3)}"
    by (auto simp: edge_def node split: if_splits)
  have live: "live small_forks = {0, 1, 2, 3}" by (auto simp: live_def node)
  have shape: "shape small_forks"
    unfolding shape_def e by (auto simp: node bk_def) (simp_all add: small_forks_def)
  have "x \<in> {0, 1, 2, 3}" if "(0, x) \<in> (edge small_forks)\<^sup>*" for x
    using that by (induction rule: rtrancl_induct) (auto simp: e)
  then have nodes: "nodes_wf small_forks"
    using shape by (auto simp: nodes_wf_def live e) (auto simp: small_forks_def)
  have main: "main_wf small_forks 0 0 1"
    unfolding main_wf_def e block_number_def node
    by (auto simp: small_forks_def bk_def split: if_splits)
  have "\<exists>a h. main_wf small_forks 0 a h \<and> Suc h - a \<le> fork_window_size"
    by (rule exI, rule exI, rule conjI, rule main) (simp add: fork_window_size_def)
  then have "tree_wf small_forks"
    using nodes by (simp add: tree_wf_def small_forks_def[THEN arg_cong[where f = ft_root]])
  moreover have "distinct_blocks small_forks"
    by (auto simp: distinct_blocks_def node bk_def split: if_splits)
  moreover have "ft_root small_forks = Some 0" "ft_main small_forks 2 \<noteq> Some 3" "bs_id (bk 2 3) = 2"
    "bs_id (bk 1 1) = 1" by (simp_all add: small_forks_def bk_def)
  moreover have "(0, 3) \<in> (edge small_forks)\<^sup>*"
    by (rule rtrancl_into_rtrancl[of _ 2]) (auto simp: e)
  ultimately obtain path k t' where t': "change_main_branch (bk 1 1) (bk 2 3) small_forks = Some t'" "tree_wf t'"
    "2 = k + length path" "dom (ft_main t') = {1..2}"
    "get_fork_branch_nodes_ids small_forks 3 = Some path"
    "\<forall>j<length path. 1 \<le> k + Suc j \<longrightarrow> ft_main t' (k + Suc j) = Some (path ! j)"
    using change_main_branch_switches[of small_forks 0 0 "bk 1 1" 3 _ "bk 2 3"] main node[of 3]
    by auto
  moreover have mains: "ft_main small_forks k = (if k = 0 then Some 0 else if k = 1 then Some 1 else None)" for k
    by (simp add: small_forks_def)
  have "climb (\<lambda>i n. i) small_forks 2 [3] = Some [3, 2]"
    by (simp add: climb.simps[of _ small_forks 2] climb.simps[of _ small_forks 0] node mains
        on_main_branch_def get_main_branch_block_hash_def bk_def)
  then have "get_fork_branch_nodes_ids small_forks 3 = Some [2, 3]"
    by (simp add: get_fork_branch_nodes_ids_def node on_main_branch_def mains bk_def)
  ultimately have "path = [2, 3]" by simp
  then have "k = 0" "ft_main t' (k + Suc 1) = Some (path ! 1)" using t'(3) t'(6)[rule_format, of 1] by simp_all
  then have "ft_main t' 2 = Some 3" using \<open>path = [2, 3]\<close> by (simp add: numeral_2_eq_2)
  then show ?thesis using t'(1,2) by blast
qed

definition grow :: "(blockstamp + blockstamp \<times> hash) list \<Rightarrow> fork_tree \<Rightarrow> fork_tree run" where
  "grow = fold_run (\<lambda>e t. case e of
     Inl b \<Rightarrow> map_option snd (insert_new_head_block b t)
   | Inr (b, h) \<Rightarrow> map_option snd (insert_new_fork_block Release b h t))"

definition orphan_tree :: fork_tree where
  "orphan_tree = \<lparr>ft_root = Some 0,
     ft_nodes = [Some \<lparr>tn_parent = None, tn_children = [1, 2, 5], tn_data = bk 0 0\<rparr>,
       Some \<lparr>tn_parent = Some 0, tn_children = [], tn_data = bk 1 1\<rparr>,
       Some \<lparr>tn_parent = Some 0, tn_children = [3, 4], tn_data = bk 1 2\<rparr>,
       Some \<lparr>tn_parent = Some 2, tn_children = [], tn_data = bk 2 3\<rparr>,
       Some \<lparr>tn_parent = Some 2, tn_children = [], tn_data = bk 2 4\<rparr>,
       Some \<lparr>tn_parent = Some 0, tn_children = [6], tn_data = bk 1 5\<rparr>,
       Some \<lparr>tn_parent = Some 5, tn_children = [], tn_data = bk 2 6\<rparr>],
     ft_main = [0 \<mapsto> 0, 1 \<mapsto> 1], ft_sheets = {1, 3, 4, 6}, ft_removed = []\<rparr>"

lemma orphan_tree_built:
  "grow [Inl (bk 0 0), Inl (bk 1 1), Inr (bk 1 2, Hash [0]), Inr (bk 2 3, Hash [2]),
     Inr (bk 2 4, Hash [2]), Inr (bk 1 5, Hash [0]), Inr (bk 2 6, Hash [5])] tree_default =
   Some orphan_tree"
  by (simp add: grow_def orphan_tree_def insert_eval u32_sub_def upt_rec nth_Cons')
    (auto simp: eval_nat_numeral)

text \<open>
  \<open>remove_node_children\<close> does not remove the children of a node with two children. Seven
  insertions and one change of branch build a tree in which such a child is still a sheet while
  its parent is gone: reading its branch, which fork resolution does for every sheet, panics.
\<close>

theorem removed_parent_panics:
  "(do {
      t \<leftarrow> grow [Inl (bk 0 0), Inl (bk 1 1), Inr (bk 1 2, Hash [0]), Inr (bk 2 3, Hash [2]),
        Inr (bk 2 4, Hash [2]), Inr (bk 1 5, Hash [0]), Inr (bk 2 6, Hash [5])] tree_default;
      t \<leftarrow> change_main_branch (bk 1 1) (bk 2 6) t;
      Some (3 \<in> ft_sheets t, get_fork_branch t 3)
    }) = Some (True, None)"
proof -
  have node: "get_ref_node orphan_tree i = vec_get (ft_nodes orphan_tree) i \<bind> id" for i
    by (auto simp: get_ref_node_def split: option.splits)
  have mains: "ft_main orphan_tree k = (if k = 0 then Some 0 else if k = 1 then Some 1 else None)" for k
    by (simp add: orphan_tree_def)
  note eval = node vec_get_def orphan_tree_def[THEN arg_cong[where f = ft_nodes]] mains bk_def
    on_main_branch_def get_main_branch_block_hash_def
  have "climb (\<lambda>i n. i) orphan_tree 5 [6] = Some [6, 5]"
    by (simp add: climb.simps[of _ orphan_tree 5] climb.simps[of _ orphan_tree 0] eval)
  then have branch: "get_fork_branch_nodes_ids orphan_tree 6 = Some [5, 6]"
    by (simp add: get_fork_branch_nodes_ids_def) (simp add: eval)
  have find: "find_node_with_blockstamp orphan_tree (bk 2 6) = Some 6"
    by (simp add: find_node_with_blockstamp_def eval upt_rec)
  have on_fork: "get_ref_node orphan_tree 5 = Some \<lparr>tn_parent = Some 0, tn_children = [6], tn_data = bk 1 5\<rparr>"
    by (simp add: eval)
  define t1 where "t1 = orphan_tree\<lparr>ft_main := [0 \<mapsto> 0]\<rparr>"
  have cut: "orphan_tree\<lparr>ft_main := (\<lambda>k. if 1 \<le> k \<and> k \<le> 2 then None else ft_main orphan_tree k)\<rparr> = t1"
    by (auto simp: t1_def mains fun_eq_iff)
  define t2 where "t2 = orphan_tree\<lparr>ft_main := [0 \<mapsto> 0, 1 \<mapsto> 5]\<rparr>"
  have s5: "switch_node 1 5 t1 = Some t2"
    by (simp add: switch_node_def t1_def t2_def get_ref_node_def vec_get_def orphan_tree_def bk_def)
  define t3 where "t3 = orphan_tree\<lparr>ft_main := [0 \<mapsto> 0, 1 \<mapsto> 5, 2 \<mapsto> 6]\<rparr>"
  define t where "t = \<lparr>ft_root = Some 5,
     ft_nodes = [None, None, None, Some \<lparr>tn_parent = Some 2, tn_children = [], tn_data = bk 2 3\<rparr>,
       Some \<lparr>tn_parent = Some 2, tn_children = [], tn_data = bk 2 4\<rparr>,
       Some \<lparr>tn_parent = Some 0, tn_children = [6], tn_data = bk 1 5\<rparr>,
       Some \<lparr>tn_parent = Some 5, tn_children = [], tn_data = bk 2 6\<rparr>],
     ft_main = ([0 \<mapsto> 0, 1 \<mapsto> 5, 2 \<mapsto> 6])(0 := None), ft_sheets = {3, 4, 6},
     ft_removed = [bk 0 0, bk 1 1, bk 1 2]\<rparr>"
  have "pruning t3 = Some t"
    by (simp add: pruning_def t3_def t_def orphan_tree_def get_ref_node_def vec_get_def bk_def
        remove_subtree_def remove_node_def Let_def)
  then have s6: "switch_node 1 6 t2 = Some t"
    by (simp add: switch_node_def t2_def t3_def get_ref_node_def vec_get_def orphan_tree_def bk_def)
  have "change_main_branch (bk 1 1) (bk 2 6) orphan_tree = Some t"
    using cut s5 s6 by (simp add: change_main_branch_def find[unfolded bk_def] branch on_fork bk_def)
  moreover have "get_fork_branch t 3 = None"
    by (simp add: get_fork_branch_def climb.simps get_ref_node_def vec_get_def t_def)
  ultimately show ?thesis unfolding orphan_tree_built by (simp add: t_def)
qed

end
