(* ===== verification/Documents.thy ===== *)
theory Documents
  imports Blockstamps
begin

text \<open>
  The documents of the protocol: \<open>lib/tools/crypto/src/keys/mod.rs\<close> for keys and signatures,
  \<open>lib/tools/documents/src/text_document_traits.rs\<close>, \<open>lib.rs\<close> for the verification of
  signatures, and \<open>documents/{identity,membership,certification,revocation,transaction}.rs\<close>.

  A text is the list of its bytes in UTF-8. The cryptographic functions and the base 58 and 64
  encoders come from third-party crates: they are the fields of the record \<open>crypto\<close>.
\<close>

record crypto =
  c_sha256 :: "ustring \<Rightarrow> hash"
  c_base58 :: "nat list \<Rightarrow> ustring"
  c_base64 :: "nat list \<Rightarrow> ustring"
  c_ed25519_sign :: "nat list \<Rightarrow> ustring \<Rightarrow> nat list"
  c_ed25519_verify :: "nat list \<Rightarrow> ustring \<Rightarrow> nat list \<Rightarrow> bool"

abbreviation (input) newline :: ustring where
  "newline \<equiv> [10]"

definition show_int :: "int \<Rightarrow> ustring" where
  "show_int i = (if i < 0 then 45 # show_nat (nat (- i)) else show_nat (nat i))"

subsection \<open>Keys and signatures\<close>

datatype pub_key = PubEd25519 "nat list" | PubSchnorr
datatype signature = SigEd25519 "nat list" | SigSchnorr
datatype priv_key = PrivEd25519 "nat list" | PrivSchnorr

fun key_string :: "crypto \<Rightarrow> pub_key \<Rightarrow> ustring run" where
  "key_string c (PubEd25519 k) = Some (c_base58 c k)"
| "key_string c PubSchnorr = None"

fun sig_string :: "crypto \<Rightarrow> signature \<Rightarrow> ustring run" where
  "sig_string c (SigEd25519 s) = Some (c_base64 c s)"
| "sig_string c SigSchnorr = None"

fun key_verify :: "crypto \<Rightarrow> pub_key \<Rightarrow> ustring \<Rightarrow> signature \<Rightarrow> bool run" where
  "key_verify c (PubEd25519 k) message (SigEd25519 s) = Some (c_ed25519_verify c k message s)"
| "key_verify c _ message _ = None"

fun key_sign :: "crypto \<Rightarrow> priv_key \<Rightarrow> ustring \<Rightarrow> signature run" where
  "key_sign c (PrivEd25519 k) message = Some (SigEd25519 (c_ed25519_sign c k message))"
| "key_sign c PrivSchnorr message = None"

subsection \<open>Verification of signatures\<close>

datatype verification_result = Valid | IncompletePairs nat nat | Invalid "nat list"

text \<open>\<open>Document::verify_signatures\<close> on the issuers, the signatures and the signed bytes.\<close>

definition verify_signatures ::
  "crypto \<Rightarrow> pub_key list \<Rightarrow> signature list \<Rightarrow> ustring run \<Rightarrow> verification_result run" where
  "verify_signatures c issuers signatures as_bytes =
     (if length issuers \<noteq> length signatures
      then Some (IncompletePairs (length issuers) (length signatures))
      else do {
        verified \<leftarrow> map_run (\<lambda>(key, sig). do { bytes \<leftarrow> as_bytes; key_verify c key bytes sig })
          (zip issuers signatures);
        let mismatches = indices_where (\<lambda>ok. \<not> ok) verified;
        Some (if mismatches = [] then Valid else Invalid mismatches)
      })"

subsection \<open>Texts\<close>

text \<open>
  \<open>TextDocument::as_text_without_signature\<close>: the text without its last lines, one per signature,
  and the line breaks between them.
\<close>

definition text_without_signature :: "profile \<Rightarrow> ustring \<Rightarrow> signature list \<Rightarrow> ustring run" where
  "text_without_signature p doc_text sigs = do {
     separators \<leftarrow> usize_sub p (length sigs) 1;
     let lines = split_on 10 doc_text;
     let sigs_str_len = separators + sum_list (map length (take (length sigs) (rev lines)));
     (if sigs_str_len \<le> length doc_text then Some (take (length doc_text - sigs_str_len) doc_text)
      else None)
   }"

datatype ('d, 'c) text_document_format = Complete 'd | Compact 'c

fun to_compact_document :: "('d \<Rightarrow> 'c run) \<Rightarrow> ('d, 'c) text_document_format \<Rightarrow> 'c run" where
  "to_compact_document compact (Complete d) = compact d"
| "to_compact_document compact (Compact c) = Some c"

text \<open>The index \<open>v[0]\<close> of a vector.\<close>

definition first_of :: "'a list \<Rightarrow> 'a run" where
  "first_of xs = (case xs of [] \<Rightarrow> None | x # _ \<Rightarrow> Some x)"

subsection \<open>Identities\<close>

record identity_document =
  i_text :: "ustring option"
  i_currency :: ustring
  i_username :: ustring
  i_blockstamp :: blockstamp
  i_issuers :: "pub_key list"
  i_signatures :: "signature list"

record compact_identity =
  ci_username :: ustring
  ci_blockstamp :: blockstamp
  ci_pubkey :: pub_key
  ci_signature :: signature

definition identity_reduce :: "identity_document \<Rightarrow> identity_document" where
  "identity_reduce d = d\<lparr>i_text := None\<rparr>"

definition identity_as_bytes :: "profile \<Rightarrow> identity_document \<Rightarrow> ustring run" where
  "identity_as_bytes p d = do {
     doc_text \<leftarrow> i_text d;
     text_without_signature p doc_text (i_signatures d)
   }"

definition identity_to_compact :: "identity_document \<Rightarrow> compact_identity run" where
  "identity_to_compact d = do {
     k \<leftarrow> first_of (i_issuers d);
     s \<leftarrow> first_of (i_signatures d);
     Some \<lparr>ci_username = i_username d, ci_blockstamp = i_blockstamp d, ci_pubkey = k, ci_signature = s\<rparr>
   }"

definition compact_identity_text :: "crypto \<Rightarrow> compact_identity \<Rightarrow> ustring run" where
  "compact_identity_text c d = do {
     k \<leftarrow> key_string c (ci_pubkey d);
     s \<leftarrow> sig_string c (ci_signature d);
     Some (k @ ascii '':'' @ s @ ascii '':'' @ blockstamp_to_string (ci_blockstamp d) @ ascii '':'' @
       ci_username d)
   }"

definition identity_text ::
  "crypto \<Rightarrow> ustring \<Rightarrow> pub_key \<Rightarrow> ustring \<Rightarrow> blockstamp \<Rightarrow> ustring run" where
  "identity_text c currency issuer username b = do {
     k \<leftarrow> key_string c issuer;
     Some (ascii ''Version: 10'' @ newline @ ascii ''Type: Identity'' @ newline @
       ascii ''Currency: '' @ currency @ newline @ ascii ''Issuer: '' @ k @ newline @
       ascii ''UniqueID: '' @ username @ newline @
       ascii ''Timestamp: '' @ blockstamp_to_string b @ newline)
   }"

text \<open>\<open>build_and_sign\<close>: the text is generated, signed by every key, and kept in the document.\<close>

definition build_signed_text ::
  "crypto \<Rightarrow> ustring run \<Rightarrow> priv_key list \<Rightarrow> (ustring \<times> signature list) run" where
  "build_signed_text c generated keys = do {
     doc_text \<leftarrow> generated;
     sigs \<leftarrow> map_run (\<lambda>k. key_sign c k doc_text) keys;
     Some (doc_text, sigs)
   }"

definition identity_build_and_sign ::
  "crypto \<Rightarrow> ustring \<Rightarrow> pub_key \<Rightarrow> ustring \<Rightarrow> blockstamp \<Rightarrow> priv_key list \<Rightarrow> identity_document run" where
  "identity_build_and_sign c currency issuer username b keys = do {
     (doc_text, sigs) \<leftarrow> build_signed_text c (identity_text c currency issuer username b) keys;
     Some \<lparr>i_text = Some doc_text, i_currency = currency, i_username = username, i_blockstamp = b,
       i_issuers = [issuer], i_signatures = sigs\<rparr>
   }"

subsection \<open>Memberships\<close>

datatype membership_type = MsIn | MsOut

record membership_document =
  m_text :: "ustring option"
  m_currency :: ustring
  m_issuers :: "pub_key list"
  m_blockstamp :: blockstamp
  m_membership :: membership_type
  m_identity_username :: ustring
  m_identity_blockstamp :: blockstamp
  m_signatures :: "signature list"

definition membership_reduce :: "membership_document \<Rightarrow> membership_document" where
  "membership_reduce d = d\<lparr>m_text := None\<rparr>"

definition membership_as_bytes :: "profile \<Rightarrow> membership_document \<Rightarrow> ustring run" where
  "membership_as_bytes p d = do {
     doc_text \<leftarrow> m_text d;
     text_without_signature p doc_text (m_signatures d)
   }"

definition membership_compact_text :: "crypto \<Rightarrow> membership_document \<Rightarrow> ustring run" where
  "membership_compact_text c d = do {
     k \<leftarrow> first_of (m_issuers d) \<bind> key_string c;
     s \<leftarrow> first_of (m_signatures d) \<bind> sig_string c;
     Some (k @ ascii '':'' @ s @ ascii '':'' @ blockstamp_to_string (m_blockstamp d) @ ascii '':'' @
       blockstamp_to_string (m_identity_blockstamp d) @ ascii '':'' @ m_identity_username d)
   }"

definition membership_text ::
  "crypto \<Rightarrow> ustring \<Rightarrow> pub_key \<Rightarrow> blockstamp \<Rightarrow> membership_type \<Rightarrow> ustring \<Rightarrow> blockstamp \<Rightarrow>
   ustring run" where
  "membership_text c currency issuer b ms username identity_b = do {
     k \<leftarrow> key_string c issuer;
     Some (ascii ''Version: 10'' @ newline @ ascii ''Type: Membership'' @ newline @
       ascii ''Currency: '' @ currency @ newline @ ascii ''Issuer: '' @ k @ newline @
       ascii ''Block: '' @ blockstamp_to_string b @ newline @
       ascii ''Membership: '' @ (case ms of MsIn \<Rightarrow> ascii ''IN'' | MsOut \<Rightarrow> ascii ''OUT'') @ newline @
       ascii ''UserID: '' @ username @ newline @
       ascii ''CertTS: '' @ blockstamp_to_string identity_b @ newline)
   }"

subsection \<open>Certifications and revocations\<close>

record compact_certification =
  cc_issuer :: pub_key
  cc_target :: pub_key
  cc_block_number :: nat
  cc_signature :: signature

record certification_document =
  c_text :: ustring
  c_currency :: ustring
  c_issuers :: "pub_key list"
  c_target :: pub_key
  c_identity_username :: ustring
  c_identity_blockstamp :: blockstamp
  c_identity_sig :: signature
  c_blockstamp :: blockstamp
  c_signatures :: "signature list"

definition certification_to_compact :: "certification_document \<Rightarrow> compact_certification run" where
  "certification_to_compact d = do {
     k \<leftarrow> first_of (c_issuers d);
     s \<leftarrow> first_of (c_signatures d);
     Some \<lparr>cc_issuer = k, cc_target = c_target d, cc_block_number = bs_id (c_blockstamp d),
       cc_signature = s\<rparr>
   }"

definition compact_certification_text :: "crypto \<Rightarrow> compact_certification \<Rightarrow> ustring run" where
  "compact_certification_text c d = do {
     k \<leftarrow> key_string c (cc_issuer d);
     t \<leftarrow> key_string c (cc_target d);
     s \<leftarrow> sig_string c (cc_signature d);
     Some (k @ ascii '':'' @ t @ ascii '':'' @ show_nat (cc_block_number d) @ ascii '':'' @ s)
   }"

definition certification_text ::
  "crypto \<Rightarrow> ustring \<Rightarrow> pub_key \<Rightarrow> blockstamp \<Rightarrow> pub_key \<Rightarrow> ustring \<Rightarrow> blockstamp \<Rightarrow> signature \<Rightarrow>
   ustring run" where
  "certification_text c currency issuer b target username identity_b identity_sig = do {
     k \<leftarrow> key_string c issuer;
     t \<leftarrow> key_string c target;
     s \<leftarrow> sig_string c identity_sig;
     Some (ascii ''Version: 10'' @ newline @ ascii ''Type: Certification'' @ newline @
       ascii ''Currency: '' @ currency @ newline @ ascii ''Issuer: '' @ k @ newline @
       ascii ''IdtyIssuer: '' @ t @ newline @ ascii ''IdtyUniqueID: '' @ username @ newline @
       ascii ''IdtyTimestamp: '' @ blockstamp_to_string identity_b @ newline @
       ascii ''IdtySignature: '' @ s @ newline @
       ascii ''CertTimestamp: '' @ blockstamp_to_string b @ newline)
   }"

record compact_revocation =
  cr_issuer :: pub_key
  cr_signature :: signature

record revocation_document =
  r_text :: ustring
  r_currency :: ustring
  r_issuers :: "pub_key list"
  r_identity_username :: ustring
  r_identity_blockstamp :: blockstamp
  r_identity_sig :: signature
  r_signatures :: "signature list"

definition revocation_to_compact :: "revocation_document \<Rightarrow> compact_revocation run" where
  "revocation_to_compact d = do {
     k \<leftarrow> first_of (r_issuers d);
     s \<leftarrow> first_of (r_signatures d);
     Some \<lparr>cr_issuer = k, cr_signature = s\<rparr>
   }"

definition compact_revocation_text :: "crypto \<Rightarrow> compact_revocation \<Rightarrow> ustring run" where
  "compact_revocation_text c d = do {
     k \<leftarrow> key_string c (cr_issuer d);
     s \<leftarrow> sig_string c (cr_signature d);
     Some (k @ ascii '':'' @ s)
   }"

definition revocation_text ::
  "crypto \<Rightarrow> ustring \<Rightarrow> pub_key \<Rightarrow> ustring \<Rightarrow> blockstamp \<Rightarrow> signature \<Rightarrow> ustring run" where
  "revocation_text c currency issuer username identity_b identity_sig = do {
     k \<leftarrow> key_string c issuer;
     s \<leftarrow> sig_string c identity_sig;
     Some (ascii ''Version: 10'' @ newline @ ascii ''Type: Revocation'' @ newline @
       ascii ''Currency: '' @ currency @ newline @ ascii ''Issuer: '' @ k @ newline @
       ascii ''IdtyUniqueID: '' @ username @ newline @
       ascii ''IdtyTimestamp: '' @ blockstamp_to_string identity_b @ newline @
       ascii ''IdtySignature: '' @ s @ newline)
   }"

subsection \<open>Texts and their signatures\<close>

fun join_lines :: "ustring list \<Rightarrow> ustring" where
  "join_lines [] = []"
| "join_lines [x] = x"
| "join_lines (x # xs) = x @ newline @ join_lines xs"

lemma split_on_nonempty: "split_on c s \<noteq> []"
  by (induction s) (auto split: list.splits)

lemma split_on_snoc_line:
  "10 \<notin> set x \<Longrightarrow> split_on 10 (body @ 10 # x) = split_on 10 body @ [x]"
proof (induction body)
  case (Cons b body)
  then show ?case using split_on_nonempty[of 10 body] by (auto split: list.splits)
qed (simp add: split_on_absent)

lemma split_on_join:
  assumes "\<forall>x\<in>set xs. 10 \<notin> set x" "xs \<noteq> []"
  shows "split_on 10 (join_lines xs) = xs"
  using assms
proof (induction xs rule: join_lines.induct)
  case (3 x y xs)
  then show ?case using split_on_append[of 10 x "join_lines (y # xs)"] by simp
qed (simp_all add: split_on_absent)

lemma split_on_body:
  "split_on c (body @ c # rest) = split_on c body @ split_on c rest"
  by (induction body) (auto split: list.splits simp: split_on_nonempty)

lemma length_join_lines:
  "xs \<noteq> [] \<Longrightarrow> length (join_lines xs) = sum_list (map length xs) + (length xs - 1)"
  by (induction xs rule: join_lines.induct) auto

text \<open>A parsed text: the lines of the document, each ended, then one line per signature.\<close>

lemma text_without_signature_parsed:
  assumes "\<forall>x\<in>set sig_lines. 10 \<notin> set x" "length sig_lines = length sigs" "sigs \<noteq> []"
  shows "text_without_signature p (body @ newline @ join_lines sig_lines) sigs = Some (body @ newline)"
proof -
  have ne: "sig_lines \<noteq> []" using assms(2,3) by auto
  have "split_on 10 (body @ newline @ join_lines sig_lines) = split_on 10 body @ sig_lines"
    using split_on_body[of 10 body] split_on_join[OF assms(1) ne] by simp
  moreover have "take (length sigs) (rev (split_on 10 body @ sig_lines)) = rev sig_lines"
    using assms(2) by simp
  moreover have "usize_sub p (length sigs) 1 = Some (length sigs - 1)"
    using assms(3) by (simp add: Suc_leI)
  ultimately show ?thesis
    using length_join_lines[OF ne] assms(2)
    by (simp add: text_without_signature_def Let_def rev_map[symmetric] sum_list_rev)
qed

text \<open>A generated text has no signature lines: one signature removes nothing, two a line.\<close>

lemma text_without_signature_one:
  "text_without_signature p (body @ newline) [s] = Some (body @ newline)"
  using text_without_signature_parsed[of "[[]]" "[s]" p body] by simp

lemma text_without_signature_two:
  assumes "10 \<notin> set final_line"
  shows "text_without_signature p (body @ newline @ final_line @ newline) [s, s'] = Some (body @ newline)"
  using text_without_signature_parsed[of "[final_line, []]" "[s, s']" p body] assms by simp

subsection \<open>Properties\<close>

text \<open>
  Verification compares the numbers of issuers and signatures first; with as many of each it
  answers \<open>Valid\<close> exactly when every key accepts its signature, and otherwise lists, in order,
  the positions that fail.
\<close>

theorem verify_signatures_spec:
  assumes bytes: "as_bytes = Some message"
    and keys: "\<forall>k\<in>set issuers. k \<noteq> PubSchnorr" "\<forall>s\<in>set signatures. s \<noteq> SigSchnorr"
  shows "verify_signatures c issuers signatures as_bytes = Some (
    if length issuers \<noteq> length signatures then IncompletePairs (length issuers) (length signatures)
    else
      (let bad = filter (\<lambda>i. key_verify c (issuers ! i) message (signatures ! i) \<noteq> Some True)
         [0..<length issuers]
       in if bad = [] then Valid else Invalid bad))"
proof (cases "length issuers = length signatures")
  case False
  then show ?thesis by (simp add: verify_signatures_def)
next
  case True
  let ?ok = "\<lambda>(k, s). the (key_verify c k message s)"
  have ok: "key_verify c k message s = Some (?ok (k, s))" if "(k, s) \<in> set (zip issuers signatures)" for k s
  proof -
    have "k \<noteq> PubSchnorr" "s \<noteq> SigSchnorr"
      using set_zip_leftD[OF that] set_zip_rightD[OF that] keys by auto
    then show ?thesis by (cases k; cases s) simp_all
  qed
  have v: "map_run (\<lambda>(key, sig). do { bytes \<leftarrow> as_bytes; key_verify c key bytes sig })
      (zip issuers signatures) = Some (map ?ok (zip issuers signatures))"
    by (rule map_run_total) (use ok bytes in auto)
  have "indices_where Not (map ?ok (zip issuers signatures)) =
      filter (\<lambda>i. key_verify c (issuers ! i) message (signatures ! i) \<noteq> Some True) [0..<length issuers]"
    unfolding indices_where_def
  proof (rule filter_cong)
    fix i assume "i \<in> set [0..<length issuers]"
    then have i: "i < length issuers" "i < length (zip issuers signatures)" using True by simp_all
    then have "(issuers ! i, signatures ! i) \<in> set (zip issuers signatures)"
      using True by (metis nth_mem nth_zip)
    from ok[OF this] obtain b where "key_verify c (issuers ! i) message (signatures ! i) = Some b"
      by blast
    then show "(\<not> map ?ok (zip issuers signatures) ! i) =
        (key_verify c (issuers ! i) message (signatures ! i) \<noteq> Some True)"
      using i True by simp
  qed (use True in simp)
  then show ?thesis using True by (simp add: verify_signatures_def v Let_def)
qed

text \<open>A scheme for the examples: the signature is the key and the message, without separator.\<close>

definition toy_crypto :: crypto where
  "toy_crypto = \<lparr>c_sha256 = (\<lambda>s. Hash (take 32 (s @ replicate 32 0))), c_base58 = id, c_base64 = id,
     c_ed25519_sign = (\<lambda>k m. k @ m), c_ed25519_verify = (\<lambda>k m s. s = k @ m)\<rparr>"

theorem verify_signatures_spec_witness:
  "verify_signatures toy_crypto [PubEd25519 [1], PubEd25519 [2]]
     [SigEd25519 [1, 9], SigEd25519 [1, 9]] (Some [9]) = Some (Invalid [1])"
  using verify_signatures_spec[of "Some [9]" "[9]" "[PubEd25519 [1], PubEd25519 [2]]"
      "[SigEd25519 [1, 9], SigEd25519 [1, 9]]" toy_crypto]
  by (simp add: toy_crypto_def upt_rec)

end
