(* ===== verification/Transactions.thy ===== *)
theory Transactions
  imports Documents
begin

text \<open>
  Transaction documents: \<open>lib/tools/documents/src/documents/transaction.rs\<close>. Amounts are signed
  machine integers, read here as integers; indices, bases and times are naturals.
\<close>

type_synonym tx_amount = int
type_synonym tx_base = nat

datatype transaction_input =
  InputD tx_amount tx_base pub_key nat
| InputT tx_amount tx_base hash nat

datatype unlock_proof = UnlockSig nat | UnlockXhx ustring

record input_unlocks =
  u_index :: nat
  u_unlocks :: "unlock_proof list"

datatype output_condition = CondSig pub_key | CondXhx hash | CondCltv nat | CondCsv nat

datatype utxo_group =
  Single output_condition
| Brackets utxo_group
| GroupAnd utxo_group utxo_group
| GroupOr utxo_group utxo_group

record utxo_conditions =
  origin_str :: "ustring option"
  conditions :: utxo_group

record transaction_output =
  o_amount :: tx_amount
  o_base :: tx_base
  o_conditions :: utxo_conditions

record transaction_document =
  t_text :: "ustring option"
  t_currency :: ustring
  t_blockstamp :: blockstamp
  t_locktime :: nat
  t_issuers :: "pub_key list"
  t_inputs :: "transaction_input list"
  t_unlocks :: "input_unlocks list"
  t_outputs :: "transaction_output list"
  t_comment :: ustring
  t_signatures :: "signature list"
  t_hash :: "hash option"

subsection \<open>Texts of the parts\<close>

fun input_string :: "crypto \<Rightarrow> transaction_input \<Rightarrow> ustring run" where
  "input_string c (InputD amount base key number) = do {
     k \<leftarrow> key_string c key;
     Some (show_int amount @ ascii '':'' @ show_nat base @ ascii '':D:'' @ k @ ascii '':'' @ show_nat number)
   }"
| "input_string c (InputT amount base tx_hash index) =
     Some (show_int amount @ ascii '':'' @ show_nat base @ ascii '':T:'' @ to_hex tx_hash @ ascii '':'' @
       show_nat index)"

fun unlock_string :: "unlock_proof \<Rightarrow> ustring" where
  "unlock_string (UnlockSig index) = ascii ''SIG('' @ show_nat index @ ascii '')''"
| "unlock_string (UnlockXhx code) = ascii ''XHX('' @ code @ ascii '')''"

text \<open>Every proof is followed by a space, and the last byte is cut off.\<close>

definition unlocks_string :: "input_unlocks \<Rightarrow> ustring" where
  "unlocks_string u =
     butlast (show_nat (u_index u) @ ascii '':'' @
       concat (map (\<lambda>proof. unlock_string proof @ ascii '' '') (u_unlocks u)))"

fun condition_string :: "crypto \<Rightarrow> output_condition \<Rightarrow> ustring run" where
  "condition_string c (CondSig key) = map_option (\<lambda>k. ascii ''SIG('' @ k @ ascii '')'') (key_string c key)"
| "condition_string c (CondXhx h) = Some (ascii ''XHX('' @ to_hex h @ ascii '')'')"
| "condition_string c (CondCltv t) = Some (ascii ''CLTV('' @ show_nat t @ ascii '')'')"
| "condition_string c (CondCsv t) = Some (ascii ''CSV('' @ show_nat t @ ascii '')'')"

fun group_string :: "crypto \<Rightarrow> utxo_group \<Rightarrow> ustring run" where
  "group_string c (Single cond) = condition_string c cond"
| "group_string c (Brackets g) = map_option (\<lambda>s. ascii ''('' @ s @ ascii '')'') (group_string c g)"
| "group_string c (GroupAnd g h) = do {
     s \<leftarrow> group_string c g;
     t \<leftarrow> group_string c h;
     Some (s @ ascii '' && '' @ t)
   }"
| "group_string c (GroupOr g h) = do {
     s \<leftarrow> group_string c g;
     t \<leftarrow> group_string c h;
     Some (s @ ascii '' || '' @ t)
   }"

text \<open>
  \<open>new_and_chain\<close> and \<open>new_or_chain\<close>: two groups are joined; of more than two, the last two are
  popped and joined first.
\<close>

function op_chain :: "(utxo_group \<Rightarrow> utxo_group \<Rightarrow> utxo_group) \<Rightarrow> utxo_group list \<Rightarrow> utxo_group run" where
  "op_chain oper groups =
     (if length groups = 2 then Some (oper (groups ! 0) (groups ! 1))
      else if length groups > 2
      then
        (let last_subgroup = last groups; groups = butlast groups;
             previous_last_subgroup = last groups; groups = butlast groups
         in op_chain oper (groups @ [oper previous_last_subgroup last_subgroup]))
      else None)"
  by auto
termination
  by (relation "measure (\<lambda>(oper, groups). length groups)") auto

declare op_chain.simps [simp del]

definition conditions_string :: "crypto \<Rightarrow> utxo_conditions \<Rightarrow> ustring run" where
  "conditions_string c u =
     (case origin_str u of Some s \<Rightarrow> Some s | None \<Rightarrow> group_string c (conditions u))"

definition conditions_reduce :: "crypto \<Rightarrow> utxo_conditions \<Rightarrow> utxo_conditions run" where
  "conditions_reduce c u =
     (case origin_str u of
        None \<Rightarrow> Some u
      | Some s \<Rightarrow> do {
          g \<leftarrow> group_string c (conditions u);
          Some (if s = g then u\<lparr>origin_str := None\<rparr> else u)
        })"

definition conditions_check :: "crypto \<Rightarrow> utxo_conditions \<Rightarrow> bool run" where
  "conditions_check c u =
     (case origin_str u of
        None \<Rightarrow> Some True
      | Some s \<Rightarrow> do { g \<leftarrow> group_string c (conditions u); Some (\<not> s \<noteq> g) })"

definition output_reduce :: "crypto \<Rightarrow> transaction_output \<Rightarrow> transaction_output run" where
  "output_reduce c out = map_option (\<lambda>u. out\<lparr>o_conditions := u\<rparr>) (conditions_reduce c (o_conditions out))"

definition output_string :: "crypto \<Rightarrow> transaction_output \<Rightarrow> ustring run" where
  "output_string c out = do {
     s \<leftarrow> conditions_string c (o_conditions out);
     Some (show_int (o_amount out) @ ascii '':'' @ show_nat (o_base out) @ ascii '':'' @ s)
   }"

subsection \<open>Transactions\<close>

definition tx_as_text :: "transaction_document \<Rightarrow> ustring run" where
  "tx_as_text tx = t_text tx"

definition tx_as_bytes :: "profile \<Rightarrow> transaction_document \<Rightarrow> ustring run" where
  "tx_as_bytes p tx = do {
     doc_text \<leftarrow> tx_as_text tx;
     text_without_signature p doc_text (t_signatures tx)
   }"

text \<open>The hash of the text and the signatures, each with a line break, stored in the document.\<close>

definition tx_compute_hash :: "crypto \<Rightarrow> transaction_document \<Rightarrow> (hash \<times> transaction_document) run" where
  "tx_compute_hash c tx = do {
     doc_text \<leftarrow> t_text tx;
     sigs \<leftarrow> map_run (\<lambda>s. map_option (\<lambda>s. s @ newline) (sig_string c s)) (t_signatures tx);
     let h = c_sha256 c (doc_text @ concat sigs);
     Some (h, tx\<lparr>t_hash := Some h\<rparr>)
   }"

definition tx_get_hash :: "crypto \<Rightarrow> transaction_document \<Rightarrow> (hash \<times> transaction_document) run" where
  "tx_get_hash c tx =
     (case t_hash tx of Some h \<Rightarrow> Some (h, tx) | None \<Rightarrow> tx_compute_hash c tx)"

definition tx_reduce :: "crypto \<Rightarrow> transaction_document \<Rightarrow> transaction_document run" where
  "tx_reduce c tx = do {
     outputs \<leftarrow> map_run (output_reduce c) (t_outputs tx);
     Some (tx\<lparr>t_text := None, t_hash := None, t_outputs := outputs\<rparr>)
   }"

text \<open>Each part on a line of its own, after the line break or before it.\<close>

definition leading_lines :: "('a \<Rightarrow> ustring run) \<Rightarrow> 'a list \<Rightarrow> ustring run" where
  "leading_lines f xs = map_option concat (map_run (\<lambda>x. map_option (\<lambda>s. newline @ s) (f x)) xs)"

definition trailing_lines :: "('a \<Rightarrow> ustring run) \<Rightarrow> 'a list \<Rightarrow> ustring run" where
  "trailing_lines f xs = map_option concat (map_run (\<lambda>x. map_option (\<lambda>s. s @ newline) (f x)) xs)"

definition tx_compact_text :: "crypto \<Rightarrow> transaction_document \<Rightarrow> ustring run" where
  "tx_compact_text c tx = do {
     issuers \<leftarrow> leading_lines (key_string c) (t_issuers tx);
     inputs \<leftarrow> leading_lines (input_string c) (t_inputs tx);
     unlocks \<leftarrow> leading_lines (\<lambda>u. Some (unlocks_string u)) (t_unlocks tx);
     outputs \<leftarrow> leading_lines (output_string c) (t_outputs tx);
     let comment = (if t_comment tx = [] then [] else t_comment tx @ newline);
     signatures \<leftarrow> trailing_lines (sig_string c) (t_signatures tx);
     Some (ascii ''TX:10:'' @ show_nat (length (t_issuers tx)) @ ascii '':'' @
       show_nat (length (t_inputs tx)) @ ascii '':'' @ show_nat (length (t_unlocks tx)) @ ascii '':'' @
       show_nat (length (t_outputs tx)) @ ascii '':'' @ (if t_comment tx = [] then ascii ''0'' else ascii ''1'') @
       ascii '':'' @ show_nat (t_locktime tx) @ newline @
       blockstamp_to_string (t_blockstamp tx) @ issuers @ inputs @ unlocks @ outputs @ newline @
       comment @ butlast signatures)
   }"

definition tx_text ::
  "crypto \<Rightarrow> ustring \<Rightarrow> blockstamp \<Rightarrow> nat \<Rightarrow> pub_key list \<Rightarrow> transaction_input list \<Rightarrow>
   input_unlocks list \<Rightarrow> transaction_output list \<Rightarrow> ustring \<Rightarrow> ustring run" where
  "tx_text c currency b locktime issuers inputs unlocks outputs comment = do {
     issuers \<leftarrow> trailing_lines (key_string c) issuers;
     inputs \<leftarrow> trailing_lines (input_string c) inputs;
     unlocks \<leftarrow> trailing_lines (\<lambda>u. Some (unlocks_string u)) unlocks;
     outputs \<leftarrow> trailing_lines (output_string c) outputs;
     Some (ascii ''Version: 10'' @ newline @ ascii ''Type: Transaction'' @ newline @
       ascii ''Currency: '' @ currency @ newline @ ascii ''Blockstamp: '' @ blockstamp_to_string b @ newline @
       ascii ''Locktime: '' @ show_nat locktime @ newline @ ascii ''Issuers:'' @ newline @ issuers @
       ascii ''Inputs:'' @ newline @ inputs @ ascii ''Unlocks:'' @ newline @ unlocks @
       ascii ''Outputs:'' @ newline @ outputs @ ascii ''Comment: '' @ comment @ newline)
   }"

definition tx_build_and_sign ::
  "crypto \<Rightarrow> ustring \<Rightarrow> blockstamp \<Rightarrow> nat \<Rightarrow> pub_key list \<Rightarrow> transaction_input list \<Rightarrow>
   input_unlocks list \<Rightarrow> transaction_output list \<Rightarrow> ustring \<Rightarrow> hash option \<Rightarrow> priv_key list \<Rightarrow>
   transaction_document run" where
  "tx_build_and_sign c currency b locktime issuers inputs unlocks outputs comment h keys = do {
     (doc_text, sigs) \<leftarrow> build_signed_text c
       (tx_text c currency b locktime issuers inputs unlocks outputs comment) keys;
     Some \<lparr>t_text = Some doc_text, t_currency = currency, t_blockstamp = b, t_locktime = locktime,
       t_issuers = issuers, t_inputs = inputs, t_unlocks = unlocks, t_outputs = outputs,
       t_comment = comment, t_signatures = sigs, t_hash = h\<rparr>
   }"

definition tx_verify :: "crypto \<Rightarrow> profile \<Rightarrow> transaction_document \<Rightarrow> verification_result run" where
  "tx_verify c p tx = verify_signatures c (t_issuers tx) (t_signatures tx) (tx_as_bytes p tx)"

datatype tx_doc_or_hash = TxDoc transaction_document | TxHash hash

fun tx_or_hash_reduce :: "crypto \<Rightarrow> tx_doc_or_hash \<Rightarrow> tx_doc_or_hash run" where
  "tx_or_hash_reduce c (TxDoc tx) =
     (case t_hash tx of
        Some h \<Rightarrow> Some (TxHash h)
      | None \<Rightarrow> map_option (\<lambda>(h, _). TxHash h) (tx_compute_hash c tx))"
| "tx_or_hash_reduce c (TxHash h) = Some (TxHash h)"

fun unwrap_doc :: "tx_doc_or_hash \<Rightarrow> transaction_document run" where
  "unwrap_doc (TxDoc tx) = Some tx"
| "unwrap_doc (TxHash h) = None"

subsection \<open>Lemmas\<close>

lemma trailing_lines_snoc:
  "trailing_lines f (xs @ [x]) =
     do { s \<leftarrow> trailing_lines f xs; t \<leftarrow> f x; Some (s @ t @ newline) }"
  by (cases "f x") (auto simp: trailing_lines_def map_run_snoc split: bind_splits)

lemma tx_text_ends:
  assumes "tx_text c currency b locktime issuers inputs unlocks outputs comment = Some doc_text"
  shows "\<exists>body. doc_text = body @ newline @ ascii ''Comment: '' @ comment @ newline"
proof -
  have parts: "\<exists>body. body @ newline = ascii ''Outputs:'' @ newline @ outs"
    if lines: "trailing_lines f outputs = Some outs" for f :: "transaction_output \<Rightarrow> ustring run" and outs
  proof (cases outputs rule: rev_cases)
    case Nil
    then show ?thesis using that by (auto simp: trailing_lines_def)
  next
    case (snoc ys y)
    then obtain front line where "outs = front @ line @ newline"
      using lines snoc by (auto simp: trailing_lines_snoc split: bind_splits)
    then have "(ascii ''Outputs:'' @ newline @ front @ line) @ newline = ascii ''Outputs:'' @ newline @ outs"
      by simp
    then show ?thesis by blast
  qed
  from assms obtain iss ins unl outs where
    outs: "trailing_lines (output_string c) outputs = Some outs"
    and doc: "doc_text = (ascii ''Version: 10'' @ newline @ ascii ''Type: Transaction'' @ newline @
       ascii ''Currency: '' @ currency @ newline @ ascii ''Blockstamp: '' @ blockstamp_to_string b @ newline @
       ascii ''Locktime: '' @ show_nat locktime @ newline @ ascii ''Issuers:'' @ newline @ iss @
       ascii ''Inputs:'' @ newline @ ins @ ascii ''Unlocks:'' @ newline @ unl) @
       (ascii ''Outputs:'' @ newline @ outs) @ ascii ''Comment: '' @ comment @ newline"
    by (auto simp: tx_text_def split: bind_splits)
  from parts[OF outs] obtain body where "ascii ''Outputs:'' @ newline @ outs = body @ newline" by metis
  then show ?thesis unfolding doc by (metis append.assoc)
qed

lemma conditions_reduce_string:
  "conditions_reduce c u = Some u' \<Longrightarrow> conditions_string c u' = conditions_string c u"
  by (auto simp: conditions_reduce_def conditions_string_def split: option.splits bind_splits if_splits)

lemma output_reduce_string: "output_reduce c out = Some out' \<Longrightarrow> output_string c out' = output_string c out"
  by (auto simp: output_reduce_def output_string_def dest: conditions_reduce_string)

lemma map_run_reduce_outputs:
  "map_run (output_reduce c) outs = Some outs' \<Longrightarrow>
     map_run (\<lambda>x. map_option g (output_string c x)) outs' =
     map_run (\<lambda>x. map_option g (output_string c x)) outs"
  by (induction outs arbitrary: outs')
    (auto split: bind_splits simp: output_reduce_string)

text \<open>The texts of subgroups with an operator between them.\<close>

fun join_with :: "ustring \<Rightarrow> ustring list \<Rightarrow> ustring" where
  "join_with sep [] = []"
| "join_with sep [x] = x"
| "join_with sep (x # xs) = x @ sep @ join_with sep xs"

lemma join_with_last_two: "join_with sep (xs @ [x @ sep @ y]) = join_with sep (xs @ [x, y])"
  by (induction xs rule: induct_list012) auto

lemma op_chain_two: "op_chain oper [g, h] = Some (oper g h)"
  by (simp add: op_chain.simps)

lemma op_chain_more: "xs \<noteq> [] \<Longrightarrow> op_chain oper (xs @ [g, h]) = op_chain oper (xs @ [oper g h])"
  by (subst op_chain.simps) (cases xs; simp add: butlast_append)

lemma op_chain_short: "length groups < 2 \<Longrightarrow> op_chain oper groups = None"
  by (simp add: op_chain.simps)

lemma op_chain_string:
  assumes op: "\<And>g h. group_string c (oper g h) = do { s \<leftarrow> group_string c g; t \<leftarrow> group_string c h; Some (s @ sep @ t) }"
  shows "2 \<le> length groups \<Longrightarrow> do { g \<leftarrow> op_chain oper groups; group_string c g } =
    map_option (join_with sep) (map_run (group_string c) groups)"
proof (induction groups rule: length_induct)
  case (1 groups)
  then have "groups \<noteq> []" by auto
  then obtain pre last_group where last: "groups = pre @ [last_group]" by (cases groups rule: rev_cases) auto
  then have "pre \<noteq> []" using "1.prems" by auto
  then obtain rest prev where prev: "pre = rest @ [prev]" by (cases pre rule: rev_cases) auto
  show ?case
  proof (cases rest)
    case Nil
    then show ?thesis using last prev by (simp add: op_chain_two op) (auto split: bind_splits)
  next
    case (Cons z zs)
    then have ne: "rest \<noteq> []" by simp
    have "op_chain oper groups = op_chain oper (rest @ [oper prev last_group])"
      using op_chain_more[OF ne] last prev by simp
    moreover have "do { g \<leftarrow> op_chain oper (rest @ [oper prev last_group]); group_string c g } =
        map_option (join_with sep) (map_run (group_string c) (rest @ [oper prev last_group]))"
      using "1.IH" last prev Cons by simp
    moreover have "\<dots> = map_option (join_with sep) (map_run (group_string c) groups)"
      using last prev by (auto simp: map_run_append op join_with_last_two split: bind_splits)
    ultimately show ?thesis by simp
  qed
qed

subsection \<open>Properties\<close>

text \<open>
  A transaction built and signed by its only issuer verifies, when the signature scheme
  accepts what it signs.
\<close>

theorem tx_single_issuer_valid:
  assumes scheme: "\<forall>m. c_ed25519_verify c pk m (c_ed25519_sign c sk m)"
    and generated: "tx_text c currency b locktime [PubEd25519 pk] inputs unlocks outputs comment = Some doc_text"
  shows "\<exists>tx. tx_build_and_sign c currency b locktime [PubEd25519 pk] inputs unlocks outputs comment h
      [PrivEd25519 sk] = Some tx \<and> tx_verify c p tx = Some Valid"
proof -
  obtain body where "doc_text = body @ newline"
    using tx_text_ends[OF generated] by (metis append.assoc)
  then show ?thesis
    using generated scheme
    by (simp add: tx_build_and_sign_def build_signed_text_def tx_verify_def verify_signatures_def
        tx_as_bytes_def tx_as_text_def text_without_signature_one[of p, simplified] indices_where_def)
qed

definition example_tx_output :: transaction_output where
  "example_tx_output = \<lparr>o_amount = 12, o_base = 0,
     o_conditions = \<lparr>origin_str = None, conditions = Single (CondCsv 7)\<rparr>\<rparr>"

theorem tx_single_issuer_valid_witness:
  "\<exists>tx. tx_build_and_sign toy_crypto (ascii ''g1'') (Blockstamp 3 (Hash [1])) 0 [PubEd25519 [5]] [] []
     [example_tx_output] (ascii ''hi'') None [PrivEd25519 [5]] = Some tx \<and>
   tx_verify toy_crypto Debug tx = Some Valid"
  by (rule tx_single_issuer_valid)
    (simp_all add: toy_crypto_def tx_text_def trailing_lines_def example_tx_output_def
      output_string_def conditions_string_def)

text \<open>
  A transaction signed by two keys is verified over its text without the Comment line, which
  is not the text the keys signed: the builder's text holds no signature, but one line is removed
  for the second signature.
\<close>

theorem tx_two_issuers_verified_text:
  assumes generated: "tx_text c currency b locktime issuers inputs unlocks outputs comment = Some doc_text"
    and comment: "10 \<notin> set comment"
  shows "\<exists>tx body. tx_build_and_sign c currency b locktime issuers inputs unlocks outputs comment h
      [PrivEd25519 k, PrivEd25519 k'] = Some tx \<and> t_text tx = Some doc_text \<and>
    t_signatures tx = [SigEd25519 (c_ed25519_sign c k doc_text), SigEd25519 (c_ed25519_sign c k' doc_text)] \<and>
    doc_text = body @ ascii ''Comment: '' @ comment @ newline \<and> tx_as_bytes p tx = Some body"
proof -
  obtain body where body: "doc_text = body @ newline @ (ascii ''Comment: '' @ comment) @ newline"
    using tx_text_ends[OF generated] by auto
  have "10 \<notin> set (ascii ''Comment: '' @ comment)"
    using comment by (simp add: ascii_def)
  from text_without_signature_two[OF this]
  have strip: "text_without_signature p doc_text [s, s'] = Some (body @ newline)" for s s'
    using body by simp
  show ?thesis
    by (rule exI[where x = "\<lparr>t_text = Some doc_text, t_currency = currency, t_blockstamp = b,
          t_locktime = locktime, t_issuers = issuers, t_inputs = inputs, t_unlocks = unlocks,
          t_outputs = outputs, t_comment = comment, t_signatures =
          [SigEd25519 (c_ed25519_sign c k doc_text), SigEd25519 (c_ed25519_sign c k' doc_text)], t_hash = h\<rparr>"],
        rule exI[where x = "body @ newline"])
      (simp add: tx_build_and_sign_def generated build_signed_text_def tx_as_bytes_def tx_as_text_def strip,
        simp add: body)
qed

theorem tx_two_issuers_verified_text_witness:
  "\<exists>tx body. tx_build_and_sign toy_crypto (ascii ''g1'') (Blockstamp 3 (Hash [1])) 0
      [PubEd25519 [5], PubEd25519 [6]] [] [] [] (ascii ''hi'') None [PrivEd25519 [5], PrivEd25519 [6]] = Some tx \<and>
    tx_as_bytes Release tx = Some body \<and> t_text tx = Some (body @ ascii ''Comment: hi'' @ newline)"
proof -
  obtain doc_text where generated: "tx_text toy_crypto (ascii ''g1'') (Blockstamp 3 (Hash [1])) 0
      [PubEd25519 [5], PubEd25519 [6]] [] [] [] (ascii ''hi'') = Some doc_text"
    by (simp add: tx_text_def trailing_lines_def toy_crypto_def)
  from tx_two_issuers_verified_text[OF this, of None "[5]" "[6]" Release]
  show ?thesis by (auto simp: ascii_def)
qed

text \<open>
  A chain of at least two subgroups prints as the subgroups' texts with the operator between
  each two, in order; a chain of fewer panics.
\<close>

theorem op_chain_prints_in_order:
  assumes "2 \<le> length groups"
  shows "do { g \<leftarrow> op_chain GroupAnd groups; group_string c g } =
      map_option (join_with (ascii '' && '')) (map_run (group_string c) groups) \<and>
    do { g \<leftarrow> op_chain GroupOr groups; group_string c g } =
      map_option (join_with (ascii '' || '')) (map_run (group_string c) groups)"
  by (intro conjI; rule op_chain_string[OF _ assms], simp)

theorem op_chain_prints_in_order_witness:
  "do { g \<leftarrow> op_chain GroupAnd [Single (CondCsv 1), Single (CondCsv 2), Single (CondCltv 3)];
        group_string toy_crypto g } = Some (ascii ''CSV(1) && CSV(2) && CLTV(3)'')"
proof -
  have "show_nat 1 = ascii ''1''" "show_nat 2 = ascii ''2''" "show_nat 3 = ascii ''3''"
    by code_simp+
  then show ?thesis
    using op_chain_prints_in_order[of "[Single (CondCsv 1), Single (CondCsv 2), Single (CondCltv 3)]"
        toy_crypto]
    by (simp add: ascii_def)
qed

text \<open>
  Reducing a transaction keeps its compact text and drops its text, so its signed bytes can
  no longer be read.
\<close>

theorem tx_reduce_compact:
  assumes "tx_reduce c tx = Some tx'"
  shows "tx_compact_text c tx' = tx_compact_text c tx \<and> length (t_outputs tx') = length (t_outputs tx) \<and>
    tx_as_bytes p tx' = None \<and> tx_get_hash c tx' = None"
proof -
  from assms obtain outputs where outs: "map_run (output_reduce c) (t_outputs tx) = Some outputs"
    and tx': "tx' = tx\<lparr>t_text := None, t_hash := None, t_outputs := outputs\<rparr>"
    by (auto simp: tx_reduce_def split: bind_splits)
  have "leading_lines (output_string c) outputs = leading_lines (output_string c) (t_outputs tx)"
    by (simp add: leading_lines_def map_run_reduce_outputs[OF outs])
  then show ?thesis
    using map_run_length[OF outs]
    by (simp add: tx' tx_compact_text_def tx_as_bytes_def tx_as_text_def tx_get_hash_def tx_compute_hash_def)
qed

definition example_tx :: transaction_document where
  "example_tx = \<lparr>t_text = Some (ascii ''doc''), t_currency = ascii ''g1'', t_blockstamp = Blockstamp 0 (Hash []),
     t_locktime = 0, t_issuers = [PubEd25519 [5]], t_inputs = [], t_unlocks = [],
     t_outputs = [\<lparr>o_amount = 12, o_base = 0,
       o_conditions = \<lparr>origin_str = Some (ascii ''CSV(7)''), conditions = Single (CondCsv 7)\<rparr>\<rparr>],
     t_comment = [], t_signatures = [SigEd25519 [1]], t_hash = None\<rparr>"

theorem tx_reduce_compact_witness:
  "\<exists>tx'. tx_reduce toy_crypto example_tx = Some tx' \<and> t_outputs tx' =
     [\<lparr>o_amount = 12, o_base = 0, o_conditions = \<lparr>origin_str = None, conditions = Single (CondCsv 7)\<rparr>\<rparr>] \<and>
   tx_compact_text toy_crypto tx' = tx_compact_text toy_crypto example_tx"
proof -
  have "show_nat 7 = ascii ''7''" by code_simp
  then obtain tx' where tx': "tx_reduce toy_crypto example_tx = Some tx'" "t_outputs tx' =
     [\<lparr>o_amount = 12, o_base = 0, o_conditions = \<lparr>origin_str = None, conditions = Single (CondCsv 7)\<rparr>\<rparr>]"
    by (auto simp: tx_reduce_def example_tx_def output_reduce_def conditions_reduce_def ascii_def)
  then show ?thesis using tx_reduce_compact[OF tx'(1)] by blast
qed

text \<open>
  A transaction referenced by its document reduces to the hash the document answers, stored or
  computed; the document keeps the hash, answers it again without computing it, and stays otherwise
  unchanged.
\<close>

theorem tx_hash_agrees:
  assumes "tx_get_hash c tx = Some (h, tx')"
  shows "tx_or_hash_reduce c (TxDoc tx) = Some (TxHash h) \<and> tx' = tx\<lparr>t_hash := Some h\<rparr> \<and>
    tx_get_hash c tx' = Some (h, tx') \<and> unwrap_doc (TxHash h) = None"
  using assms
  by (auto simp: tx_get_hash_def tx_compute_hash_def Let_def split: option.splits bind_splits)

theorem tx_hash_agrees_witness:
  "tx_or_hash_reduce toy_crypto (TxDoc example_tx) =
     Some (TxHash (c_sha256 toy_crypto (ascii ''doc'' @ [1, 10])))"
proof -
  have "tx_get_hash toy_crypto example_tx = Some (c_sha256 toy_crypto (ascii ''doc'' @ [1, 10]),
      example_tx\<lparr>t_hash := Some (c_sha256 toy_crypto (ascii ''doc'' @ [1, 10]))\<rparr>)"
    by (simp add: tx_get_hash_def tx_compute_hash_def example_tx_def toy_crypto_def
        Let_def)
  from tx_hash_agrees[OF this] show ?thesis by blast
qed

end
