(* ===== verification/Block_Document.thy ===== *)
theory Block_Document
  imports Transactions
begin

text \<open>
  Block documents: \<open>lib/tools/documents/src/documents/block.rs\<close>. The fields of the currency
  parameters are separated by colons; the code reads three of them as \<open>f64\<close>, whose \<open>Display\<close> and
  \<open>FromStr\<close> are the fields of \<open>f64_text\<close>. The parse errors are kept by kind, without their detail.
\<close>

subsection \<open>Currency parameters\<close>

record 'f f64_text =
  f64_show :: "'f \<Rightarrow> ustring"
  f64_parse :: "ustring \<Rightarrow> 'f option"

record 'f block_parameters =
  p_c :: 'f
  p_dt :: nat
  p_ud0 :: nat
  p_sig_period :: nat
  p_sig_stock :: nat
  p_sig_window :: nat
  p_sig_validity :: nat
  p_sig_qty :: nat
  p_idty_window :: nat
  p_ms_window :: nat
  p_x_percent :: 'f
  p_ms_validity :: nat
  p_step_max :: nat
  p_median_time_blocks :: nat
  p_avg_gen_time :: nat
  p_dt_diff_eval :: nat
  p_percent_rot :: 'f
  p_ud_time0 :: nat
  p_ud_reeval_time0 :: nat
  p_dt_reeval :: nat

datatype parse_params_error = ParseIntError | ParseFloatError

text \<open>The expressions \<open>params[i].parse()\<close> at \<open>u64\<close> or \<open>usize\<close>, and at \<open>f64\<close>.\<close>

definition int_field :: "ustring list \<Rightarrow> nat \<Rightarrow> (parse_params_error + nat) run" where
  "int_field params i =
     (if length params \<le> i then None
      else Some (case parse_uint 64 (params ! i) of None \<Rightarrow> Inl ParseIntError | Some n \<Rightarrow> Inr n))"

definition float_field :: "'f f64_text \<Rightarrow> ustring list \<Rightarrow> nat \<Rightarrow> (parse_params_error + 'f) run" where
  "float_field fl params i =
     (if length params \<le> i then None
      else Some (case f64_parse fl (params ! i) of None \<Rightarrow> Inl ParseFloatError | Some x \<Rightarrow> Inr x))"

definition params_from_str ::
  "'f f64_text \<Rightarrow> ustring \<Rightarrow> (parse_params_error + 'f block_parameters) run" where
  "params_from_str fl src =
     (let params = split_on 58 src in
      try_then (float_field fl params 0) (\<lambda>c.
      try_then (int_field params 1) (\<lambda>dt.
      try_then (int_field params 2) (\<lambda>ud0.
      try_then (int_field params 3) (\<lambda>sig_period.
      try_then (int_field params 4) (\<lambda>sig_stock.
      try_then (int_field params 5) (\<lambda>sig_window.
      try_then (int_field params 6) (\<lambda>sig_validity.
      try_then (int_field params 7) (\<lambda>sig_qty.
      try_then (int_field params 8) (\<lambda>idty_window.
      try_then (int_field params 9) (\<lambda>ms_window.
      try_then (float_field fl params 10) (\<lambda>x_percent.
      try_then (int_field params 11) (\<lambda>ms_validity.
      try_then (int_field params 12) (\<lambda>step_max.
      try_then (int_field params 13) (\<lambda>median_time_blocks.
      try_then (int_field params 14) (\<lambda>avg_gen_time.
      try_then (int_field params 15) (\<lambda>dt_diff_eval.
      try_then (float_field fl params 16) (\<lambda>percent_rot.
      try_then (int_field params 17) (\<lambda>ud_time0.
      try_then (int_field params 18) (\<lambda>ud_reeval_time0.
      try_then (int_field params 19) (\<lambda>dt_reeval.
        Some (Inr \<lparr>p_c = c, p_dt = dt, p_ud0 = ud0, p_sig_period = sig_period, p_sig_stock = sig_stock,
          p_sig_window = sig_window, p_sig_validity = sig_validity, p_sig_qty = sig_qty,
          p_idty_window = idty_window, p_ms_window = ms_window, p_x_percent = x_percent,
          p_ms_validity = ms_validity, p_step_max = step_max, p_median_time_blocks = median_time_blocks,
          p_avg_gen_time = avg_gen_time, p_dt_diff_eval = dt_diff_eval, p_percent_rot = percent_rot,
          p_ud_time0 = ud_time0, p_ud_reeval_time0 = ud_reeval_time0, p_dt_reeval = dt_reeval\<rparr>)
      )))))))))))))))))))))"

definition params_fields :: "'f f64_text \<Rightarrow> 'f block_parameters \<Rightarrow> ustring list" where
  "params_fields fl p =
     [f64_show fl (p_c p), show_nat (p_dt p), show_nat (p_ud0 p), show_nat (p_sig_period p),
      show_nat (p_sig_stock p), show_nat (p_sig_window p), show_nat (p_sig_validity p),
      show_nat (p_sig_qty p), show_nat (p_idty_window p), show_nat (p_ms_window p),
      f64_show fl (p_x_percent p), show_nat (p_ms_validity p), show_nat (p_step_max p),
      show_nat (p_median_time_blocks p), show_nat (p_avg_gen_time p), show_nat (p_dt_diff_eval p),
      f64_show fl (p_percent_rot p), show_nat (p_ud_time0 p), show_nat (p_ud_reeval_time0 p),
      show_nat (p_dt_reeval p)]"

definition params_to_string :: "'f f64_text \<Rightarrow> 'f block_parameters \<Rightarrow> ustring" where
  "params_to_string fl p = join_with (ascii '':'') (params_fields fl p)"

subsection \<open>Blocks\<close>

record 'f block_document =
  b_version :: nat
  b_nonce :: nat
  b_number :: nat
  b_pow_min :: nat
  b_time :: nat
  b_median_time :: nat
  b_members_count :: nat
  b_monetary_mass :: nat
  b_unit_base :: nat
  b_issuers_count :: nat
  b_issuers_frame :: int
  b_issuers_frame_var :: int
  b_currency :: ustring
  b_issuers :: "pub_key list"
  b_signatures :: "signature list"
  b_hash :: "hash option"
  b_parameters :: "'f block_parameters option"
  b_previous_hash :: hash
  b_previous_issuer :: "pub_key option"
  b_inner_hash :: "hash option"
  b_dividend :: "nat option"
  b_identities :: "identity_document list"
  b_joiners :: "membership_document list"
  b_actives :: "membership_document list"
  b_leavers :: "membership_document list"
  b_revoked :: "(revocation_document, compact_revocation) text_document_format list"
  b_excluded :: "pub_key list"
  b_certifications :: "(certification_document, compact_certification) text_document_format list"
  b_transactions :: "tx_doc_or_hash list"
  b_inner_hash_and_nonce_str :: ustring

definition previous_blockstamp :: "'f block_document \<Rightarrow> blockstamp" where
  "previous_blockstamp b =
     (if b_number b > 0 then Blockstamp (b_number b - 1) (b_previous_hash b) else blockstamp_default)"

text \<open>The compact text of a document in one of the two formats.\<close>

definition format_compact_text ::
  "('d \<Rightarrow> 'c run) \<Rightarrow> ('c \<Rightarrow> ustring run) \<Rightarrow> ('d, 'c) text_document_format \<Rightarrow> ustring run" where
  "format_compact_text compact compact_text d = do {
     cd \<leftarrow> to_compact_document compact d;
     compact_text cd
   }"

text \<open>Only the transactions known by their document are written.\<close>

definition tx_line :: "crypto \<Rightarrow> tx_doc_or_hash \<Rightarrow> ustring run" where
  "tx_line c t = (case t of TxDoc tx \<Rightarrow> map_option (\<lambda>s. newline @ s) (tx_compact_text c tx) | TxHash h \<Rightarrow> Some [])"

definition compact_inner_text :: "crypto \<Rightarrow> 'f f64_text \<Rightarrow> 'f block_document \<Rightarrow> ustring run" where
  "compact_inner_text c fl b = do {
     identities \<leftarrow> leading_lines (\<lambda>d. identity_to_compact d \<bind> compact_identity_text c) (b_identities b);
     joiners \<leftarrow> leading_lines (membership_compact_text c) (b_joiners b);
     actives \<leftarrow> leading_lines (membership_compact_text c) (b_actives b);
     leavers \<leftarrow> leading_lines (membership_compact_text c) (b_leavers b);
     revoked \<leftarrow> leading_lines (format_compact_text revocation_to_compact (compact_revocation_text c))
       (b_revoked b);
     excluded \<leftarrow> leading_lines (key_string c) (b_excluded b);
     certifications \<leftarrow>
       leading_lines (format_compact_text certification_to_compact (compact_certification_text c))
         (b_certifications b);
     transactions \<leftarrow> map_option concat (map_run (tx_line c) (b_transactions b));
     let dividend = (case b_dividend b of
         Some d \<Rightarrow> if d > 0 then ascii ''UniversalDividend: '' @ show_nat d @ newline else []
       | None \<Rightarrow> []);
     let parameters = (case b_parameters b of
         Some params \<Rightarrow> ascii ''Parameters: '' @ params_to_string fl params @ newline
       | None \<Rightarrow> []);
     let previous_hash = (if b_number b > 0
       then ascii ''PreviousHash: '' @ to_hex (b_previous_hash b) @ newline else []);
     previous_issuer \<leftarrow> (if b_number b > 0
       then do {
         k \<leftarrow> b_previous_issuer b;
         k \<leftarrow> key_string c k;
         Some (ascii ''PreviousIssuer: '' @ k @ newline)
       } else Some []);
     issuer \<leftarrow> first_of (b_issuers b) \<bind> key_string c;
     Some (ascii ''Version: '' @ show_nat (b_version b) @ newline @
       ascii ''Type: Block'' @ newline @
       ascii ''Currency: '' @ b_currency b @ newline @
       ascii ''Number: '' @ show_nat (b_number b) @ newline @
       ascii ''PoWMin: '' @ show_nat (b_pow_min b) @ newline @
       ascii ''Time: '' @ show_nat (b_time b) @ newline @
       ascii ''MedianTime: '' @ show_nat (b_median_time b) @ newline @
       dividend @ ascii ''UnitBase: '' @ show_nat (b_unit_base b) @ newline @
       ascii ''Issuer: '' @ issuer @ newline @
       ascii ''IssuersFrame: '' @ show_int (b_issuers_frame b) @ newline @
       ascii ''IssuersFrameVar: '' @ show_int (b_issuers_frame_var b) @ newline @
       ascii ''DifferentIssuersCount: '' @ show_nat (b_issuers_count b) @ newline @
       parameters @ previous_hash @ previous_issuer @
       ascii ''MembersCount: '' @ show_nat (b_members_count b) @ newline @
       ascii ''Identities:'' @ identities @ newline @
       ascii ''Joiners:'' @ joiners @ newline @
       ascii ''Actives:'' @ actives @ newline @
       ascii ''Leavers:'' @ leavers @ newline @
       ascii ''Revoked:'' @ revoked @ newline @
       ascii ''Excluded:'' @ excluded @ newline @
       ascii ''Certifications:'' @ certifications @ newline @
       ascii ''Transactions:'' @ transactions @ newline)
   }"

subsection \<open>Hashes and signature\<close>

definition compute_inner_hash :: "crypto \<Rightarrow> 'f f64_text \<Rightarrow> 'f block_document \<Rightarrow> 'f block_document run" where
  "compute_inner_hash c fl b = do {
     inner \<leftarrow> compact_inner_text c fl b;
     Some (b\<lparr>b_inner_hash := Some (c_sha256 c inner)\<rparr>)
   }"

definition verify_inner_hash :: "crypto \<Rightarrow> 'f f64_text \<Rightarrow> 'f block_document \<Rightarrow> bool run" where
  "verify_inner_hash c fl b =
     (case b_inner_hash b of
        Some h \<Rightarrow> do { inner \<leftarrow> compact_inner_text c fl b; Some (h = c_sha256 c inner) }
      | None \<Rightarrow> Some False)"

definition will_hashed_string :: "'f block_document \<Rightarrow> ustring run" where
  "will_hashed_string b = do {
     h \<leftarrow> b_inner_hash b;
     Some (ascii ''InnerHash: '' @ to_hex h @ newline @ ascii ''Nonce: '' @ show_nat (b_nonce b) @ newline)
   }"

definition will_hashed_and_signed :: "crypto \<Rightarrow> 'f block_document \<Rightarrow> ustring run" where
  "will_hashed_and_signed c b = do {
     s \<leftarrow> will_hashed_string b;
     sig \<leftarrow> first_of (b_signatures b) \<bind> sig_string c;
     Some (s @ sig @ newline)
   }"

definition verify_hash :: "crypto \<Rightarrow> 'f block_document \<Rightarrow> bool run" where
  "verify_hash c b =
     (case b_hash b of
        Some h \<Rightarrow> do { s \<leftarrow> will_hashed_and_signed c b; Some (h = c_sha256 c s) }
      | None \<Rightarrow> Some False)"

definition fill_inner_hash_and_nonce_str :: "nat option \<Rightarrow> 'f block_document \<Rightarrow> 'f block_document run" where
  "fill_inner_hash_and_nonce_str new_nonce b = do {
     let b = (case new_nonce of Some n \<Rightarrow> b\<lparr>b_nonce := n\<rparr> | None \<Rightarrow> b);
     s \<leftarrow> will_hashed_string b;
     Some (b\<lparr>b_inner_hash_and_nonce_str := s\<rparr>)
   }"

definition block_sign :: "crypto \<Rightarrow> priv_key \<Rightarrow> 'f block_document \<Rightarrow> 'f block_document run" where
  "block_sign c key b = do {
     b \<leftarrow> fill_inner_hash_and_nonce_str None b;
     sig \<leftarrow> key_sign c key (b_inner_hash_and_nonce_str b);
     Some (b\<lparr>b_signatures := [sig]\<rparr>)
   }"

definition block_compute_hash :: "crypto \<Rightarrow> 'f block_document \<Rightarrow> 'f block_document run" where
  "block_compute_hash c b = do {
     s \<leftarrow> will_hashed_and_signed c b;
     Some (b\<lparr>b_hash := Some (c_sha256 c s)\<rparr>)
   }"

text \<open>
  \<open>reduce\<close> calls \<open>TxDocOrTxHash::reduce\<close> on every transaction, which returns a new value that the
  loop discards; the call still panics where it computes the hash of a transaction without text.
\<close>

definition block_reduce :: "crypto \<Rightarrow> 'f block_document \<Rightarrow> 'f block_document run" where
  "block_reduce c b = do {
     let b = b\<lparr>b_inner_hash := None, b_inner_hash_and_nonce_str := [],
       b_identities := map identity_reduce (b_identities b),
       b_joiners := map membership_reduce (b_joiners b),
       b_actives := map membership_reduce (b_actives b),
       b_leavers := map membership_reduce (b_leavers b)\<rparr>;
     _ \<leftarrow> map_run (tx_or_hash_reduce c) (b_transactions b);
     Some b
   }"

definition blockstamp_of :: "'f block_document \<Rightarrow> blockstamp run" where
  "blockstamp_of b = map_option (Blockstamp (b_number b)) (b_hash b)"

definition block_as_bytes :: "'f block_document \<Rightarrow> ustring run" where
  "block_as_bytes b = Some (b_inner_hash_and_nonce_str b)"

definition block_verify_signatures :: "crypto \<Rightarrow> 'f block_document \<Rightarrow> verification_result run" where
  "block_verify_signatures c b = verify_signatures c (b_issuers b) (b_signatures b) (block_as_bytes b)"

definition block_compact_text :: "crypto \<Rightarrow> 'f f64_text \<Rightarrow> 'f block_document \<Rightarrow> ustring run" where
  "block_compact_text c fl b = do {
     inner \<leftarrow> compact_inner_text c fl b;
     h \<leftarrow> b_inner_hash b;
     Some (inner @ ascii ''InnerHash: '' @ to_hex h @ newline @ ascii ''Nonce: '')
   }"

subsection \<open>Lemmas\<close>

definition seal_block :: "crypto \<Rightarrow> 'f f64_text \<Rightarrow> priv_key \<Rightarrow> 'f block_document \<Rightarrow> 'f block_document run" where
  "seal_block c fl key b = do {
     b \<leftarrow> compute_inner_hash c fl b;
     b \<leftarrow> block_sign c key b;
     block_compute_hash c b
   }"

lemma compact_inner_text_cong:
  assumes "b_version b = b_version b'" "b_number b = b_number b'" "b_pow_min b = b_pow_min b'"
    "b_time b = b_time b'" "b_median_time b = b_median_time b'" "b_members_count b = b_members_count b'"
    "b_unit_base b = b_unit_base b'" "b_issuers_count b = b_issuers_count b'"
    "b_issuers_frame b = b_issuers_frame b'" "b_issuers_frame_var b = b_issuers_frame_var b'"
    "b_currency b = b_currency b'" "b_issuers b = b_issuers b'" "b_parameters b = b_parameters b'"
    "b_previous_hash b = b_previous_hash b'" "b_previous_issuer b = b_previous_issuer b'"
    "b_dividend b = b_dividend b'" "b_identities b = b_identities b'" "b_joiners b = b_joiners b'"
    "b_actives b = b_actives b'" "b_leavers b = b_leavers b'" "b_revoked b = b_revoked b'"
    "b_excluded b = b_excluded b'" "b_certifications b = b_certifications b'"
    "b_transactions b = b_transactions b'"
  shows "compact_inner_text c fl b = compact_inner_text c fl b'"
  unfolding compact_inner_text_def assms ..

lemma compact_inner_text_sealing [simp]:
  "compact_inner_text c fl (b\<lparr>b_inner_hash := h\<rparr>) = compact_inner_text c fl b"
  "compact_inner_text c fl (b\<lparr>b_inner_hash_and_nonce_str := str\<rparr>) = compact_inner_text c fl b"
  "compact_inner_text c fl (b\<lparr>b_signatures := sigs\<rparr>) = compact_inner_text c fl b"
  "compact_inner_text c fl (b\<lparr>b_hash := h\<rparr>) = compact_inner_text c fl b"
  "compact_inner_text c fl (b\<lparr>b_nonce := n\<rparr>) = compact_inner_text c fl b"
  by (rule compact_inner_text_cong; simp)+

lemma split_on_join_with:
  assumes "\<forall>x\<in>set xs. ch \<notin> set x" "xs \<noteq> []"
  shows "split_on ch (join_with [ch] xs) = xs"
  using assms
proof (induction "[ch]" xs rule: join_with.induct)
  case (3 x y xs)
  then show ?case using split_on_append[of ch x "join_with [ch] (y # xs)"] by simp
qed (simp_all add: split_on_absent)

lemma show_nat_no_colon: "58 \<notin> set (show_nat n)"
  using show_nat_digits[of n] by (auto simp: list_all_iff is_digit_def)

lemma int_field_show:
  "i < length params \<Longrightarrow> params ! i = show_nat n \<Longrightarrow> n < 2 ^ 64 \<Longrightarrow> int_field params i = Some (Inr n)"
  by (simp add: int_field_def parse_show_nat)

lemma float_field_show:
  "i < length params \<Longrightarrow> params ! i = f64_show fl x \<Longrightarrow> f64_parse fl (f64_show fl x) = Some x \<Longrightarrow>
     float_field fl params i = Some (Inr x)"
  by (simp add: float_field_def)

text \<open>The fields that the code reads as \<open>f64\<close> or as integers, and the ones that parse.\<close>

definition field_parses :: "'f f64_text \<Rightarrow> ustring list \<Rightarrow> nat \<Rightarrow> bool" where
  "field_parses fl params i =
     (if i \<in> {0, 10, 16} then f64_parse fl (params ! i) \<noteq> None else parse_uint 64 (params ! i) \<noteq> None)"

lemma field_no_error:
  "field_parses fl params i \<Longrightarrow> i \<in> {0, 10, 16} \<Longrightarrow> float_field fl params i \<noteq> Some (Inl e)"
  "field_parses fl params i \<Longrightarrow> i \<notin> {0, 10, 16} \<Longrightarrow> int_field params i \<noteq> Some (Inl e)"
  by (auto simp: field_parses_def float_field_def int_field_def split: if_splits)

lemma int_field_beyond: "length params \<le> i \<Longrightarrow> int_field params i = None"
  and float_field_beyond: "length params \<le> i \<Longrightarrow> float_field fl params i = None"
  by (simp_all add: int_field_def float_field_def)

lemma params_short_panic:
  assumes len: "length params < 20" and ok: "\<forall>i<length params. field_parses fl params i"
  shows "i \<in> {0, 10, 16} \<Longrightarrow> float_field fl params i \<noteq> Some (Inl e)"
    and "i \<notin> {0, 10, 16} \<Longrightarrow> int_field params i \<noteq> Some (Inl e)"
  using ok field_no_error[of fl params i] int_field_beyond[of params i] float_field_beyond[of params i fl]
  by (cases "i < length params"; simp)+

subsection \<open>Properties\<close>

text \<open>
  The currency parameters written with \<open>to_string\<close> and read with \<open>from_str\<close> are unchanged:
  every integer within 64 bits, and an \<open>f64\<close> whose \<open>Display\<close> is read back and has no colon.
\<close>

theorem params_roundtrip:
  assumes floats: "\<forall>x\<in>{p_c p, p_x_percent p, p_percent_rot p}.
      f64_parse fl (f64_show fl x) = Some x \<and> 58 \<notin> set (f64_show fl x)"
    and ints: "\<forall>n\<in>{p_dt p, p_ud0 p, p_sig_period p, p_sig_stock p, p_sig_window p, p_sig_validity p,
      p_sig_qty p, p_idty_window p, p_ms_window p, p_ms_validity p, p_step_max p, p_median_time_blocks p,
      p_avg_gen_time p, p_dt_diff_eval p, p_ud_time0 p, p_ud_reeval_time0 p, p_dt_reeval p}. n < 2 ^ 64"
  shows "params_from_str fl (params_to_string fl p) = Some (Inr p)"
proof -
  have "split_on 58 (params_to_string fl p) = params_fields fl p"
    unfolding params_to_string_def ascii_def
    using split_on_join_with[of "params_fields fl p" 58] floats
    by (simp add: params_fields_def show_nat_no_colon)
  then show ?thesis
    using floats ints
    by (simp add: params_from_str_def params_fields_def int_field_show float_field_show)
qed

text \<open>A scheme for the examples, of numbers with a decimal text.\<close>

definition nat_text :: "nat f64_text" where
  "nat_text = \<lparr>f64_show = show_nat, f64_parse = parse_uint 64\<rparr>"

definition example_params :: "nat block_parameters" where
  "example_params = \<lparr>p_c = 1, p_dt = 86400, p_ud0 = 1000, p_sig_period = 432000, p_sig_stock = 100,
     p_sig_window = 5259600, p_sig_validity = 63115200, p_sig_qty = 5, p_idty_window = 5259600,
     p_ms_window = 5259600, p_x_percent = 1, p_ms_validity = 31557600, p_step_max = 5,
     p_median_time_blocks = 24, p_avg_gen_time = 300, p_dt_diff_eval = 12, p_percent_rot = 0,
     p_ud_time0 = 1488970800, p_ud_reeval_time0 = 1490094000, p_dt_reeval = 15778800\<rparr>"

theorem params_roundtrip_witness:
  "params_from_str nat_text (params_to_string nat_text example_params) = Some (Inr example_params)"
proof (rule params_roundtrip)
  show "\<forall>x\<in>{p_c example_params, p_x_percent example_params, p_percent_rot example_params}.
      f64_parse nat_text (f64_show nat_text x) = Some x \<and> 58 \<notin> set (f64_show nat_text x)"
    by (simp add: nat_text_def example_params_def parse_show_nat show_nat_no_colon)
qed (simp add: example_params_def)

text \<open>
  A string of fewer than twenty fields that all parse makes \<open>from_str\<close> panic instead of
  returning an error.
\<close>

theorem params_missing_fields_panic:
  assumes "length (split_on 58 src) < 20"
    and "\<forall>i<length (split_on 58 src). field_parses fl (split_on 58 src) i"
  shows "params_from_str fl src = None"
proof -
  let ?params = "split_on 58 src"
  have final_field: "try_then (int_field ?params 19) f = None" for f
    using assms(1) by (simp add: int_field_beyond)
  have floats: "float_field fl ?params 0 \<noteq> Some (Inl e)" "float_field fl ?params 10 \<noteq> Some (Inl e)"
    "float_field fl ?params 16 \<noteq> Some (Inl e)" for e
    by (rule params_short_panic(1)[OF assms], simp)+
  have ints: "int_field ?params i \<noteq> Some (Inl e)" if "i \<in> set [1..<10] \<union> set [11..<16] \<union> {17,18}" for i e
    by (rule params_short_panic(2)[OF assms]) (use that in auto)
  show ?thesis
    unfolding params_from_str_def Let_def
    by (rule final_field | rule try_then_panics | rule floats | (rule ints, simp))+
qed

theorem params_missing_fields_panic_witness:
  "params_from_str nat_text (ascii ''1:5:9'') = None"
proof -
  have fields: "split_on 58 (ascii ''1:5:9'') = [show_nat 1, show_nat 5, show_nat 9]"
    by code_simp
  have "field_parses nat_text [show_nat 1, show_nat 5, show_nat 9] i" if three: "i < 3" for i
  proof -
    consider "i = 0" | "i = 1" | "i = 2" using three by linarith
    then show ?thesis by cases (simp_all add: field_parses_def nat_text_def parse_show_nat)
  qed
  then show ?thesis
    using params_missing_fields_panic[of "ascii ''1:5:9''" nat_text] by (simp add: fields)
qed

text \<open>
  C15: Sealing a block (inner hash, signature, hash) whose texts can be written gives a block whose
  inner hash, hash and signature are verified, with the issuer's key; it is the block that was
  sealed except for the four fields it fills.
\<close>

theorem sealed_block_verifies:
  assumes scheme: "\<forall>m. c_ed25519_verify c pk m (c_ed25519_sign c sk m)"
    and issuer: "b_issuers b = [PubEd25519 pk]"
    and inner: "compact_inner_text c fl b = Some inner"
  shows "\<exists>b'. seal_block c fl (PrivEd25519 sk) b = Some b' \<and> verify_inner_hash c fl b' = Some True \<and>
    verify_hash c b' = Some True \<and> block_verify_signatures c b' = Some Valid \<and>
    b_inner_hash b' = Some (c_sha256 c inner) \<and>
    b' = b\<lparr>b_inner_hash := b_inner_hash b', b_inner_hash_and_nonce_str := b_inner_hash_and_nonce_str b',
      b_signatures := b_signatures b', b_hash := b_hash b'\<rparr>"
  using inner scheme issuer
  by (simp add: seal_block_def compute_inner_hash_def block_sign_def fill_inner_hash_and_nonce_str_def
      will_hashed_string_def block_compute_hash_def will_hashed_and_signed_def first_of_def
      verify_inner_hash_def verify_hash_def block_verify_signatures_def block_as_bytes_def
      verify_signatures_def indices_where_def)

definition example_block :: "nat block_document" where
  "example_block = \<lparr>b_version = 10, b_nonce = 7, b_number = 0, b_pow_min = 70, b_time = 100,
     b_median_time = 100, b_members_count = 1, b_monetary_mass = 0, b_unit_base = 0,
     b_issuers_count = 0, b_issuers_frame = 1, b_issuers_frame_var = 0, b_currency = ascii ''g1'',
     b_issuers = [PubEd25519 [5]], b_signatures = [], b_hash = None, b_parameters = None,
     b_previous_hash = hash_default, b_previous_issuer = None, b_inner_hash = None, b_dividend = None,
     b_identities = [], b_joiners = [], b_actives = [], b_leavers = [], b_revoked = [],
     b_excluded = [PubEd25519 [6]], b_certifications = [], b_transactions = [TxDoc example_tx],
     b_inner_hash_and_nonce_str = []\<rparr>"

lemma example_tx_compact: "\<exists>s. tx_compact_text toy_crypto example_tx = Some s"
  by (simp add: tx_compact_text_def example_tx_def leading_lines_def trailing_lines_def toy_crypto_def
      output_string_def conditions_string_def Let_def)

theorem sealed_block_verifies_witness:
  "\<exists>b. seal_block toy_crypto nat_text (PrivEd25519 [5]) example_block = Some b \<and>
     verify_hash toy_crypto b = Some True \<and> block_verify_signatures toy_crypto b = Some Valid"
proof -
  obtain s where "tx_compact_text toy_crypto example_tx = Some s" using example_tx_compact by blast
  then obtain inner where "compact_inner_text toy_crypto nat_text example_block = Some inner"
    by (simp add: compact_inner_text_def example_block_def leading_lines_def tx_line_def first_of_def
        toy_crypto_def Let_def)
  from sealed_block_verifies[OF _ _ this, of "[5]" "[5]"] show ?thesis
    by (auto simp: toy_crypto_def example_block_def)
qed

text \<open>
  Reducing a block keeps its blockstamp and every transaction document, and leaves a block
  whose hash can no longer be verified: the check panics.
\<close>

theorem block_reduce_keeps_transactions:
  assumes "block_reduce c b = Some b'"
  shows "b_transactions b' = b_transactions b \<and> blockstamp_of b' = blockstamp_of b \<and>
    previous_blockstamp b' = previous_blockstamp b \<and> verify_inner_hash c fl b' = Some False \<and>
    (verify_hash c b' = None \<longleftrightarrow> b_hash b \<noteq> None)"
  using assms
  by (auto simp: block_reduce_def Let_def blockstamp_of_def previous_blockstamp_def verify_inner_hash_def
      verify_hash_def will_hashed_and_signed_def will_hashed_string_def split: bind_splits option.splits)

theorem block_reduce_keeps_transactions_witness:
  "\<exists>b. block_reduce toy_crypto (example_block\<lparr>b_hash := Some (Hash [1])\<rparr>) = Some b \<and>
     b_transactions b = [TxDoc example_tx] \<and> verify_hash toy_crypto b = None"
proof -
  have "\<exists>b. block_reduce toy_crypto (example_block\<lparr>b_hash := Some (Hash [1])\<rparr>) = Some b"
    by (simp add: block_reduce_def example_block_def example_tx_def tx_compute_hash_def toy_crypto_def Let_def)
  then obtain b where b: "block_reduce toy_crypto (example_block\<lparr>b_hash := Some (Hash [1])\<rparr>) = Some b" ..
  with block_reduce_keeps_transactions[OF b, of nat_text] show ?thesis
    by (simp add: example_block_def)
qed

end
