(* ===== verification/Dal_Identities.thy ===== *)
theory Dal_Identities
  imports Block_Document "HOL-Library.List_Lexorder"
begin

text \<open>
  The databases of the web of trust: \<open>lib/modules/blockchain/blockchain-dal/src\<close>, the entities
  \<open>currency_params.rs\<close> and \<open>identity.rs\<close>, the writers \<open>identity.rs\<close> and \<open>certification.rs\<close>, the
  queries \<open>WotsDBsWriteQuery\<close> of \<open>writers/requests.rs\<close>, and the readers and filters of identities
  and certifications.

  A database (\<open>BinDB\<close>) is the data it holds: reads and writes of \<open>rustbreak\<close> work in memory and
  fail only when a panic has happened under its lock, which ends the process here.
\<close>

subsection \<open>Currency parameters\<close>

definition default_sig_renew_period :: nat where
  "default_sig_renew_period = 5259600"

definition default_ms_period :: nat where
  "default_ms_period = 5259600"

definition default_tx_window :: nat where
  "default_tx_window = 604800"

record 'f currency_parameters =
  cp_protocol_version :: nat
  cp_c :: 'f
  cp_dt :: nat
  cp_ud0 :: nat
  cp_sig_period :: nat
  cp_sig_renew_period :: nat
  cp_sig_stock :: nat
  cp_sig_window :: nat
  cp_sig_validity :: nat
  cp_sig_qty :: nat
  cp_idty_window :: nat
  cp_ms_window :: nat
  cp_tx_window :: nat
  cp_x_percent :: 'f
  cp_ms_validity :: nat
  cp_ms_period :: nat
  cp_step_max :: nat
  cp_median_time_blocks :: nat
  cp_avg_gen_time :: nat
  cp_dt_diff_eval :: nat
  cp_percent_rot :: 'f
  cp_ud_time0 :: nat
  cp_ud_reeval_time0 :: nat
  cp_dt_reeval :: nat

definition currency_parameters_from :: "ustring \<Rightarrow> 'f block_parameters \<Rightarrow> 'f currency_parameters" where
  "currency_parameters_from currency_name params =
     (let sig_renew_period =
        (if currency_name = ascii ''default_currency'' then default_sig_renew_period
         else if currency_name = ascii ''g1'' then 5259600
         else if currency_name = ascii ''g1-test'' then 5259600 div 5
         else default_sig_renew_period);
       ms_period =
        (if currency_name = ascii ''default_currency'' then default_ms_period
         else if currency_name = ascii ''g1'' then 5259600
         else if currency_name = ascii ''g1-test'' then 5259600 div 5
         else default_ms_period);
       tx_window =
        (if currency_name = ascii ''default_currency'' then default_tx_window
         else if currency_name = ascii ''g1'' then 604800
         else if currency_name = ascii ''g1-test'' then 604800
         else default_tx_window)
      in \<lparr>cp_protocol_version = 10, cp_c = p_c params, cp_dt = p_dt params, cp_ud0 = p_ud0 params,
        cp_sig_period = p_sig_period params, cp_sig_renew_period = sig_renew_period,
        cp_sig_stock = p_sig_stock params, cp_sig_window = p_sig_window params,
        cp_sig_validity = p_sig_validity params, cp_sig_qty = p_sig_qty params,
        cp_idty_window = p_idty_window params, cp_ms_window = p_ms_window params,
        cp_tx_window = tx_window, cp_x_percent = p_x_percent params,
        cp_ms_validity = p_ms_validity params, cp_ms_period = ms_period,
        cp_step_max = p_step_max params, cp_median_time_blocks = p_median_time_blocks params,
        cp_avg_gen_time = p_avg_gen_time params, cp_dt_diff_eval = p_dt_diff_eval params,
        cp_percent_rot = p_percent_rot params, cp_ud_time0 = p_ud_time0 params,
        cp_ud_reeval_time0 = p_ud_reeval_time0 params, cp_dt_reeval = p_dt_reeval params\<rparr>)"

subsection \<open>Identities\<close>

datatype dal_identity_state =
  Member "nat list"
| ExpireMember "nat list"
| ExplicitRevoked "nat list"
| ExplicitExpireRevoked "nat list"
| ImplicitRevoked "nat list"

record dal_identity =
  di_hash :: ustring
  di_state :: dal_identity_state
  di_joined_on :: blockstamp
  di_expired_on :: "blockstamp option"
  di_revoked_on :: "blockstamp option"
  di_idty_doc :: identity_document
  di_wot_id :: nat
  di_ms_created_block_id :: nat
  di_ms_chainable_on :: "nat list"
  di_cert_chainable_on :: "nat list"

text \<open>\<open>WotsV10DBs\<close>: the graph, the identities, the memberships and the certifications by block.\<close>

record 'w wots_dbs =
  d_wot :: 'w
  d_identities :: "pub_key \<rightharpoonup> dal_identity"
  d_ms :: "nat \<rightharpoonup> nat set"
  d_certs :: "nat \<rightharpoonup> (nat \<times> nat) set"

text \<open>\<open>db.get(&k).cloned().unwrap_or_default()\<close> of a map to sets.\<close>

definition get_or_empty :: "('k \<rightharpoonup> 'v set) \<Rightarrow> 'k \<Rightarrow> 'v set" where
  "get_or_empty m k = (case m k of Some s \<Rightarrow> s | None \<Rightarrow> {})"

definition revert_create_identity :: "pub_key \<Rightarrow> 'w wots_dbs \<Rightarrow> 'w wots_dbs run" where
  "revert_create_identity pubkey dbs = do {
     idty \<leftarrow> d_identities dbs pubkey;
     memberships \<leftarrow> d_ms dbs (di_ms_created_block_id idty);
     issuer \<leftarrow> first_of (i_issuers (di_idty_doc idty));
     Some (dbs\<lparr>
       d_ms := (d_ms dbs)(di_ms_created_block_id idty \<mapsto> memberships - {di_wot_id idty}),
       d_identities := (d_identities dbs)(issuer := None)\<rparr>)
   }"

definition create_identity ::
  "profile \<Rightarrow> 'f currency_parameters \<Rightarrow> identity_document \<Rightarrow> nat \<Rightarrow> nat \<Rightarrow> blockstamp \<Rightarrow> nat \<Rightarrow>
   'w wots_dbs \<Rightarrow> 'w wots_dbs run" where
  "create_identity p params idty_doc ms_created wot_id current_blockstamp bc_time dbs = do {
     let idty_doc = identity_reduce idty_doc;
     chainable \<leftarrow> u64_add p bc_time (cp_ms_period params);
     let idty = \<lparr>di_hash = ascii ''0'', di_state = Member [0], di_joined_on = current_blockstamp,
       di_expired_on = None, di_revoked_on = None, di_idty_doc = idty_doc, di_wot_id = wot_id,
       di_ms_created_block_id = ms_created, di_ms_chainable_on = [chainable],
       di_cert_chainable_on = []\<rparr>;
     issuer \<leftarrow> first_of (i_issuers idty_doc);
     Some (dbs\<lparr>
       d_identities := (d_identities dbs)(issuer \<mapsto> idty),
       d_ms := (d_ms dbs)(ms_created \<mapsto> insert wot_id (get_or_empty (d_ms dbs) ms_created))\<rparr>)
   }"

fun exclude_state :: "bool \<Rightarrow> dal_identity_state \<Rightarrow> dal_identity_state run" where
  "exclude_state True (ExpireMember counts) = Some (Member counts)"
| "exclude_state False (Member counts) = Some (ExpireMember counts)"
| "exclude_state _ _ = None"

definition exclude_identity :: "pub_key \<Rightarrow> blockstamp \<Rightarrow> bool \<Rightarrow> 'w wots_dbs \<Rightarrow> 'w wots_dbs run" where
  "exclude_identity pubkey exclusion_blockstamp revert dbs = do {
     idty \<leftarrow> d_identities dbs pubkey;
     state \<leftarrow> exclude_state revert (di_state idty);
     let idty = idty\<lparr>di_state := state,
       di_expired_on := (if revert then None else Some exclusion_blockstamp)\<rparr>;
     Some (dbs\<lparr>d_identities := (d_identities dbs)(pubkey \<mapsto> idty)\<rparr>)
   }"

fun revoke_state :: "bool \<Rightarrow> bool \<Rightarrow> dal_identity_state \<Rightarrow> dal_identity_state run" where
  "revoke_state explicit True (ExplicitRevoked counts) = Some (Member counts)"
| "revoke_state explicit True (ExplicitExpireRevoked counts) = Some (ExpireMember counts)"
| "revoke_state explicit True (ImplicitRevoked counts) = Some (ExpireMember counts)"
| "revoke_state explicit False (ExpireMember counts) = Some (ExplicitExpireRevoked counts)"
| "revoke_state explicit False (Member counts) =
     Some (if explicit then ExplicitRevoked counts else ImplicitRevoked counts)"
| "revoke_state explicit _ _ = None"

definition revoke_identity ::
  "pub_key \<Rightarrow> blockstamp \<Rightarrow> bool \<Rightarrow> bool \<Rightarrow> 'w wots_dbs \<Rightarrow> 'w wots_dbs run" where
  "revoke_identity pubkey renewal_blockstamp explicit revert dbs = do {
     idty \<leftarrow> d_identities dbs pubkey;
     state \<leftarrow> revoke_state explicit revert (di_state idty);
     let idty = idty\<lparr>di_state := state,
       di_revoked_on := (if revert then None else Some renewal_blockstamp)\<rparr>;
     Some (dbs\<lparr>d_identities := (d_identities dbs)(pubkey \<mapsto> idty)\<rparr>)
   }"

text \<open>\<open>counts[counts.len() - 1]\<close> replaced: an empty vector panics in both profiles.\<close>

definition update_final :: "(nat \<Rightarrow> nat run) \<Rightarrow> nat list \<Rightarrow> nat list run" where
  "update_final f counts =
     (if counts = [] then None
      else do { n \<leftarrow> f (last counts); Some (butlast counts @ [n]) })"

fun renewal_state :: "profile \<Rightarrow> bool \<Rightarrow> dal_identity_state \<Rightarrow> dal_identity_state run" where
  "renewal_state p True (Member counts) = do {
     counts \<leftarrow> update_final (\<lambda>n. usize_sub p n 1) counts;
     Some (if last counts > 0 then Member counts else ExpireMember counts)
   }"
| "renewal_state p False (Member counts) =
     map_option Member (update_final (\<lambda>n. u64_add p n 1) counts)"
| "renewal_state p False (ExpireMember counts) = Some (Member (counts @ [0]))"
| "renewal_state p _ _ = None"

definition renewal_identity ::
  "profile \<Rightarrow> 'f currency_parameters \<Rightarrow> pub_key \<Rightarrow> nat \<Rightarrow> nat \<Rightarrow> nat \<Rightarrow> bool \<Rightarrow>
   'w wots_dbs \<Rightarrow> 'w wots_dbs run" where
  "renewal_identity p params pubkey idty_wot_id renewal_timestamp ms_created revert dbs = do {
     idty \<leftarrow> d_identities dbs pubkey;
     state \<leftarrow> renewal_state p revert (di_state idty);
     chainable \<leftarrow> (if revert then Some (butlast (di_ms_chainable_on idty))
       else do {
         t \<leftarrow> u64_add p renewal_timestamp (cp_ms_period params);
         Some (di_ms_chainable_on idty @ [t])
       });
     let idty = idty\<lparr>di_state := state, di_ms_chainable_on := chainable\<rparr>;
     Some (dbs\<lparr>
       d_identities := (d_identities dbs)(pubkey \<mapsto> idty),
       d_ms := (d_ms dbs)(ms_created \<mapsto> insert idty_wot_id (get_or_empty (d_ms dbs) ms_created))\<rparr>)
   }"

definition remove_identity :: "pub_key \<Rightarrow> 'w wots_dbs \<Rightarrow> 'w wots_dbs" where
  "remove_identity pubkey dbs = dbs\<lparr>d_identities := (d_identities dbs)(pubkey := None)\<rparr>"

subsection \<open>Certifications\<close>

definition write_certification ::
  "profile \<Rightarrow> 'f currency_parameters \<Rightarrow> pub_key \<Rightarrow> nat \<Rightarrow> nat \<Rightarrow> nat \<Rightarrow> nat \<Rightarrow>
   'w wots_dbs \<Rightarrow> 'w wots_dbs run" where
  "write_certification p params source_pubkey source target created written_timestamp dbs = do {
     idty \<leftarrow> d_identities dbs source_pubkey;
     t \<leftarrow> u64_add p written_timestamp (cp_sig_period params);
     let idty = idty\<lparr>di_cert_chainable_on := di_cert_chainable_on idty @ [t]\<rparr>;
     Some (dbs\<lparr>
       d_identities := (d_identities dbs)(source_pubkey \<mapsto> idty),
       d_certs := (d_certs dbs)(created \<mapsto> insert (source, target) (get_or_empty (d_certs dbs) created))\<rparr>)
   }"

definition revert_write_cert ::
  "compact_certification \<Rightarrow> nat \<Rightarrow> nat \<Rightarrow> 'w wots_dbs \<Rightarrow> 'w wots_dbs" where
  "revert_write_cert doc source target dbs =
     (let created = cc_block_number doc;
        dbs = dbs\<lparr>d_certs := (d_certs dbs)
          (created \<mapsto> get_or_empty (d_certs dbs) created - {(source, target)})\<rparr>
      in case d_identities dbs (cc_issuer doc) of
           None \<Rightarrow> dbs
         | Some idty \<Rightarrow> dbs\<lparr>d_identities := (d_identities dbs)(cc_issuer doc \<mapsto>
             idty\<lparr>di_cert_chainable_on := butlast (di_cert_chainable_on idty)\<rparr>)\<rparr>)"

definition revert_expire_cert :: "nat \<Rightarrow> nat \<Rightarrow> nat \<Rightarrow> 'w wots_dbs \<Rightarrow> 'w wots_dbs" where
  "revert_expire_cert source target created dbs =
     dbs\<lparr>d_certs := (d_certs dbs)
       (created \<mapsto> insert (source, target) (get_or_empty (d_certs dbs) created))\<rparr>"

definition expire_certs :: "nat \<Rightarrow> 'w wots_dbs \<Rightarrow> 'w wots_dbs" where
  "expire_certs created dbs = dbs\<lparr>d_certs := (d_certs dbs)(created := None)\<rparr>"

subsection \<open>Queries\<close>

datatype wots_query =
  CreateIdentity nat blockstamp nat identity_document nat
| RevertCreateIdentity pub_key
| RenewalIdentity pub_key nat nat nat
| RevertRenewalIdentity pub_key nat nat nat
| ExcludeIdentity pub_key blockstamp
| RevertExcludeIdentity pub_key blockstamp
| RevokeIdentity pub_key blockstamp bool
| RevertRevokeIdentity pub_key blockstamp bool
| CreateCert pub_key nat nat nat nat
| RevertCert compact_certification nat nat
| ExpireCerts nat
| RevertExpireCert nat nat nat

fun wots_apply ::
  "profile \<Rightarrow> 'f currency_parameters \<Rightarrow> wots_query \<Rightarrow> 'w wots_dbs \<Rightarrow> 'w wots_dbs run" where
  "wots_apply p params (CreateIdentity wot_id b bc_time idty_doc ms_created) dbs =
     create_identity p params idty_doc ms_created wot_id b bc_time dbs"
| "wots_apply p params (RevertCreateIdentity pubkey) dbs = revert_create_identity pubkey dbs"
| "wots_apply p params (RenewalIdentity pubkey wot_id bc_time ms_created) dbs =
     renewal_identity p params pubkey wot_id bc_time ms_created False dbs"
| "wots_apply p params (RevertRenewalIdentity pubkey wot_id bc_time ms_created) dbs =
     renewal_identity p params pubkey wot_id bc_time ms_created True dbs"
| "wots_apply p params (ExcludeIdentity pubkey b) dbs = exclude_identity pubkey b False dbs"
| "wots_apply p params (RevertExcludeIdentity pubkey b) dbs = exclude_identity pubkey b True dbs"
| "wots_apply p params (RevokeIdentity pubkey b explicit) dbs = revoke_identity pubkey b explicit False dbs"
| "wots_apply p params (RevertRevokeIdentity pubkey b explicit) dbs = revoke_identity pubkey b explicit True dbs"
| "wots_apply p params (CreateCert source_pubkey source target created median_time) dbs =
     write_certification p params source_pubkey source target created median_time dbs"
| "wots_apply p params (RevertCert doc source target) dbs = Some (revert_write_cert doc source target dbs)"
| "wots_apply p params (ExpireCerts created) dbs = Some (expire_certs created dbs)"
| "wots_apply p params (RevertExpireCert source target created) dbs =
     Some (revert_expire_cert source target created dbs)"

subsection \<open>Readers\<close>

definition find_expire_certs :: "'w wots_dbs \<Rightarrow> nat list \<Rightarrow> (nat \<times> nat \<rightharpoonup> nat)" where
  "find_expire_certs dbs blocks_expiring =
     fold (\<lambda>created all. \<lambda>c. if c \<in> get_or_empty (d_certs dbs) created then Some created else all c)
       blocks_expiring Map.empty"

record paging_filter =
  pf_from :: nat
  pf_to :: "nat option"
  pf_page_size :: nat
  pf_page_number :: nat

definition default_page_size :: nat where
  "default_page_size = 50"

definition paging_default :: paging_filter where
  "paging_default = \<lparr>pf_from = 0, pf_to = None, pf_page_size = default_page_size, pf_page_number = 0\<rparr>"

definition check_created_on :: "paging_filter \<Rightarrow> nat \<Rightarrow> nat \<Rightarrow> bool" where
  "check_created_on f created_on current_block_id \<longleftrightarrow>
     created_on \<ge> pf_from f \<and>
     created_on \<le> (case pf_to f of Some t \<Rightarrow> t | None \<Rightarrow> current_block_id)"

record identities_filter =
  if_paging :: paging_filter
  if_by_pubkey :: "pub_key option"

definition identities_filter_default :: identities_filter where
  "identities_filter_default = \<lparr>if_paging = paging_default, if_by_pubkey = None\<rparr>"

definition filter_by_pubkey :: "pub_key \<Rightarrow> identities_filter" where
  "filter_by_pubkey k = \<lparr>if_paging = paging_default, if_by_pubkey = Some k\<rparr>"

definition created_block :: "dal_identity \<Rightarrow> nat" where
  "created_block d = bs_id (i_blockstamp (di_idty_doc d))"

text \<open>The order \<open>it\<close> is the one in which the hash map yields its keys.\<close>

definition get_identities ::
  "profile \<Rightarrow> (pub_key set \<Rightarrow> pub_key list) \<Rightarrow> 'w wots_dbs \<Rightarrow> identities_filter \<Rightarrow> nat \<Rightarrow>
   dal_identity list run" where
  "get_identities p it dbs filters current_block_id =
     (case if_by_pubkey filters of
        Some pubkey \<Rightarrow>
          Some (case d_identities dbs pubkey of Some idty \<Rightarrow> [idty] | None \<Rightarrow> [])
      | None \<Rightarrow> do {
          let identities = sort_key created_block
            (filter (\<lambda>idty. check_created_on (if_paging filters) (created_block idty) current_block_id)
              (map (\<lambda>k. the (d_identities dbs k)) (it (dom (d_identities dbs)))));
          skipped \<leftarrow> usize_mul p (pf_page_size (if_paging filters)) (pf_page_number (if_paging filters));
          Some (take (pf_page_size (if_paging filters)) (drop skipped identities))
        })"

definition get_identity :: "'w wots_dbs \<Rightarrow> pub_key \<Rightarrow> dal_identity option" where
  "get_identity dbs pubkey = d_identities dbs pubkey"

definition get_uid :: "'w wots_dbs \<Rightarrow> pub_key \<Rightarrow> ustring option" where
  "get_uid dbs pubkey = map_option (\<lambda>d. i_username (di_idty_doc d)) (d_identities dbs pubkey)"

definition get_pubkey_from_uid ::
  "(pub_key set \<Rightarrow> pub_key list) \<Rightarrow> 'w wots_dbs \<Rightarrow> ustring \<Rightarrow> pub_key option" where
  "get_pubkey_from_uid it dbs uid =
     List.find (\<lambda>k. get_uid dbs k = Some uid) (it (dom (d_identities dbs)))"

definition get_wot_index :: "'w wots_dbs \<Rightarrow> (pub_key \<rightharpoonup> nat)" where
  "get_wot_index dbs = (\<lambda>k. map_option di_wot_id (d_identities dbs k))"

subsection \<open>The life of an identity\<close>

fun revoked :: "dal_identity_state \<Rightarrow> bool" where
  "revoked (ExplicitRevoked _) = True"
| "revoked (ExplicitExpireRevoked _) = True"
| "revoked (ImplicitRevoked _) = True"
| "revoked _ = False"

definition identity_ok :: "pub_key \<Rightarrow> dal_identity \<Rightarrow> bool" where
  "identity_ok k d \<longleftrightarrow>
     (di_revoked_on d \<noteq> None \<longleftrightarrow> revoked (di_state d)) \<and> first_of (i_issuers (di_idty_doc d)) = Some k"

definition identities_ok :: "'w wots_dbs \<Rightarrow> bool" where
  "identities_ok dbs \<longleftrightarrow> (\<forall>k d. d_identities dbs k = Some d \<longrightarrow> identity_ok k d)"

lemma identities_okI [intro]:
  "(\<And>k d. d_identities dbs k = Some d \<Longrightarrow> identity_ok k d) \<Longrightarrow> identities_ok dbs"
  by (simp add: identities_ok_def)

lemma identities_okD: "identities_ok dbs \<Longrightarrow> d_identities dbs k = Some d \<Longrightarrow> identity_ok k d"
  by (simp add: identities_ok_def)

lemma identities_ok_store:
  "identities_ok dbs \<Longrightarrow> identity_ok k d \<Longrightarrow>
     identities_ok (dbs\<lparr>d_identities := (d_identities dbs)(k \<mapsto> d)\<rparr>)"
  by (auto simp: identities_ok_def)

lemma identities_ok_other [simp]:
  "identities_ok (dbs\<lparr>d_ms := ms\<rparr>) = identities_ok dbs"
  "identities_ok (dbs\<lparr>d_certs := certs\<rparr>) = identities_ok dbs"
  "identities_ok (dbs\<lparr>d_identities := ids, d_ms := ms\<rparr>) = identities_ok (dbs\<lparr>d_identities := ids\<rparr>)"
  "identities_ok (dbs\<lparr>d_identities := ids, d_certs := certs\<rparr>) = identities_ok (dbs\<lparr>d_identities := ids\<rparr>)"
  "identities_ok (dbs\<lparr>d_certs := certs, d_identities := ids\<rparr>) = identities_ok (dbs\<lparr>d_identities := ids\<rparr>)"
  by (simp_all add: identities_ok_def)

lemma exclude_state_revoked:
  "exclude_state r s = Some s' \<Longrightarrow> \<not> revoked s \<and> \<not> revoked s'"
  by (cases "(r, s)" rule: exclude_state.cases) auto

lemma revoke_state_revoked:
  "revoke_state e r s = Some s' \<Longrightarrow> revoked s = r \<and> revoked s' = (\<not> r)"
  by (cases "(e, r, s)" rule: revoke_state.cases) auto

lemma renewal_state_revoked:
  "renewal_state p r s = Some s' \<Longrightarrow> \<not> revoked s \<and> \<not> revoked s'"
  by (cases "(p, r, s)" rule: renewal_state.cases) (auto split: bind_splits if_splits)

lemmas state_changes = exclude_state_revoked revoke_state_revoked renewal_state_revoked

lemma wots_apply_identities_ok:
  assumes ok: "identities_ok dbs" and step: "wots_apply p params q dbs = Some dbs'"
  shows "identities_ok dbs'"
proof (cases q)
  case (RevertCreateIdentity k)
  then show ?thesis
    using step ok by (auto simp: revert_create_identity_def identities_ok_def split: bind_splits if_splits)
next
  case (RevertCert doc source target)
  then show ?thesis
    using step ok identities_okD[OF ok, of "cc_issuer doc"]
    by (auto simp: revert_write_cert_def Let_def identity_ok_def intro!: identities_ok_store
        split: option.splits)
qed (use step ok in \<open>auto simp: create_identity_def renewal_identity_def exclude_identity_def
      revoke_identity_def write_certification_def expire_certs_def revert_expire_cert_def
      identity_ok_def identity_reduce_def Let_def dest!: state_changes identities_okD[OF ok]
      intro!: identities_ok_store split: bind_splits if_splits\<close>)

text \<open>The queries that apply a block, and the key whose identity a query creates.\<close>

fun forward :: "wots_query \<Rightarrow> bool" where
  "forward (CreateIdentity _ _ _ _ _) = True"
| "forward (RenewalIdentity _ _ _ _) = True"
| "forward (ExcludeIdentity _ _) = True"
| "forward (RevokeIdentity _ _ _) = True"
| "forward (CreateCert _ _ _ _ _) = True"
| "forward (ExpireCerts _) = True"
| "forward _ = False"

fun creates :: "wots_query \<Rightarrow> pub_key \<Rightarrow> bool" where
  "creates (CreateIdentity _ _ _ doc _) k \<longleftrightarrow> first_of (i_issuers doc) = Some k"
| "creates _ k \<longleftrightarrow> False"

definition revoked_at :: "'w wots_dbs \<Rightarrow> pub_key \<Rightarrow> dal_identity_state \<Rightarrow> blockstamp option \<Rightarrow> bool" where
  "revoked_at dbs k state b \<longleftrightarrow>
     revoked state \<and> (\<exists>d. d_identities dbs k = Some d \<and> di_state d = state \<and> di_revoked_on d = b)"

lemma revoked_stays:
  assumes "revoked_at dbs k state b" "forward q" "\<not> creates q k" "wots_apply p params q dbs = Some dbs'"
  shows "revoked_at dbs' k state b"
  using assms
  by (cases q) (auto simp: revoked_at_def create_identity_def renewal_identity_def exclude_identity_def
      revoke_identity_def write_certification_def expire_certs_def identity_reduce_def Let_def
      dest!: state_changes split: bind_splits)

text \<open>Keys are ordered, so that a set of keys has a list.\<close>

fun key_rank :: "pub_key \<Rightarrow> nat list" where
  "key_rank (PubEd25519 k) = 1 # k"
| "key_rank PubSchnorr = [0]"

lemma key_rank_inj: "key_rank k = key_rank k' \<longleftrightarrow> k = k'"
  by (cases k; cases k') auto

instantiation pub_key :: linorder
begin

definition less_eq_pub_key :: "pub_key \<Rightarrow> pub_key \<Rightarrow> bool" where
  "less_eq_pub_key k k' \<longleftrightarrow> key_rank k \<le> key_rank k'"

definition less_pub_key :: "pub_key \<Rightarrow> pub_key \<Rightarrow> bool" where
  "less_pub_key k k' \<longleftrightarrow> key_rank k < key_rank k'"

instance
  by standard (auto simp: less_eq_pub_key_def less_pub_key_def key_rank_inj less_le_not_le)

end

subsection \<open>Properties\<close>

text \<open>The databases before the first block.\<close>

definition no_identities :: "'w \<Rightarrow> 'w wots_dbs" where
  "no_identities w = \<lparr>d_wot = w, d_identities = Map.empty, d_ms = Map.empty, d_certs = Map.empty\<rparr>"

text \<open>
  After any requests, applied or reverted in any order, that do not panic, every identity is
  stored under the key of its document, and has a revocation block exactly when its state is one of
  the three revoked states.
\<close>

theorem identity_requests_consistent:
  assumes "fold_run (wots_apply p params) qs (no_identities w) = Some dbs" "d_identities dbs k = Some d"
  shows "first_of (i_issuers (di_idty_doc d)) = Some k \<and>
    (di_revoked_on d \<noteq> None \<longleftrightarrow> revoked (di_state d))"
proof -
  have "identities_ok (no_identities w)" by (simp add: identities_ok_def no_identities_def)
  then have "identities_ok dbs"
    by (rule fold_run_preserves[OF assms(1)]) (rule wots_apply_identities_ok)
  then show ?thesis using identities_okD[OF _ assms(2)] by (simp add: identity_ok_def)
qed

definition example_identity :: identity_document where
  "example_identity = \<lparr>i_text = None, i_currency = ascii ''g1'', i_username = ascii ''a'',
     i_blockstamp = Blockstamp 0 (Hash []), i_issuers = [PubEd25519 [1]], i_signatures = []\<rparr>"

definition example_currency :: "nat currency_parameters" where
  "example_currency = currency_parameters_from (ascii ''g1'') example_params"

lemma example_ms_period: "cp_ms_period example_currency = 5259600"
  by (simp add: example_currency_def currency_parameters_from_def Let_def ascii_def)

text \<open>An identity created in block 1 and then revoked in block 2.\<close>

abbreviation joined_then_revoked :: "wots_query list" where
  "joined_then_revoked \<equiv> [CreateIdentity 0 (Blockstamp 1 (Hash [1])) 100 example_identity 1,
     RevokeIdentity (PubEd25519 [1]) (Blockstamp 2 (Hash [2])) True]"

theorem identity_requests_consistent_witness:
  "\<exists>dbs d. fold_run (wots_apply Debug example_currency) joined_then_revoked (no_identities ()) = Some dbs \<and>
     d_identities dbs (PubEd25519 [1]) = Some d \<and>
     first_of (i_issuers (di_idty_doc d)) = Some (PubEd25519 [1]) \<and> revoked (di_state d)"
proof -
  obtain dbs d where run: "fold_run (wots_apply Debug example_currency) joined_then_revoked
      (no_identities ()) = Some dbs" "d_identities dbs (PubEd25519 [1]) = Some d"
    and "di_revoked_on d \<noteq> None"
    by (simp add: create_identity_def revoke_identity_def no_identities_def example_ms_period
        example_identity_def identity_reduce_def first_of_def Let_def)
  then show ?thesis using identity_requests_consistent[OF run] by blast
qed

text \<open>
  C40: A revoked identity stays revoked, in the same state and since the same block, under all the
  requests that apply blocks, unless a new identity is created for its key.
\<close>

theorem revoked_identity_final:
  assumes "fold_run (wots_apply p params) qs dbs = Some dbs'"
    and "\<forall>q\<in>set qs. forward q \<and> \<not> creates q k"
    and "d_identities dbs k = Some d" "revoked (di_state d)"
  shows "\<exists>d'. d_identities dbs' k = Some d' \<and> di_state d' = di_state d \<and> di_revoked_on d' = di_revoked_on d"
proof -
  have "revoked_at dbs k (di_state d) (di_revoked_on d)"
    using assms(3,4) by (simp add: revoked_at_def)
  then have "revoked_at dbs' k (di_state d) (di_revoked_on d)"
    using assms(2) by (rule_tac fold_run_preserves[OF assms(1)]) (auto intro: revoked_stays)
  then show ?thesis by (auto simp: revoked_at_def)
qed

theorem revoked_identity_final_witness:
  "\<exists>dbs d. fold_run (wots_apply Debug example_currency)
       [CreateCert (PubEd25519 [1]) 0 0 1 200, ExpireCerts 1]
       ((no_identities ())\<lparr>d_identities := [PubEd25519 [1] \<mapsto> d]\<rparr>) = Some dbs \<and>
     revoked (di_state d) \<and> (\<exists>d'. d_identities dbs (PubEd25519 [1]) = Some d' \<and> di_state d' = di_state d)"
proof -
  define d where "d = \<lparr>di_hash = [], di_state = ExplicitRevoked [0], di_joined_on = blockstamp_default,
    di_expired_on = None, di_revoked_on = Some blockstamp_default, di_idty_doc = example_identity,
    di_wot_id = 0, di_ms_created_block_id = 0, di_ms_chainable_on = [], di_cert_chainable_on = []\<rparr>"
  let ?dbs = "(no_identities ())\<lparr>d_identities := [PubEd25519 [1] \<mapsto> d]\<rparr>"
  let ?qs = "[CreateCert (PubEd25519 [1]) 0 0 1 200, ExpireCerts 1]"
  have period: "cp_sig_period example_currency = 432000"
    by (simp add: example_currency_def currency_parameters_from_def example_params_def Let_def)
  obtain dbs where run: "fold_run (wots_apply Debug example_currency) ?qs ?dbs = Some dbs"
    by (simp add: write_certification_def expire_certs_def period)
  have "revoked (di_state d)" by (simp add: d_def)
  moreover from revoked_identity_final[OF run _ _ this, of "PubEd25519 [1]"]
  have "\<exists>d'. d_identities dbs (PubEd25519 [1]) = Some d' \<and> di_state d' = di_state d" by auto
  ultimately show ?thesis using run by blast
qed

text \<open>
  Reverting a request restores the databases as they were before it: the exclusion of a member
  that never expired, the explicit revocation of an identity that is not revoked, a certification
  that is not already stored for a block that has an entry.
\<close>

theorem requests_reverted:
  assumes d: "d_identities dbs k = Some d"
  shows "((\<exists>counts. di_state d = Member counts) \<and> di_expired_on d = None \<longrightarrow>
      exclude_identity k b False dbs \<bind> exclude_identity k b True = Some dbs) \<and>
    (\<not> revoked (di_state d) \<and> di_revoked_on d = None \<longrightarrow>
      revoke_identity k b True False dbs \<bind> revoke_identity k b True True = Some dbs) \<and>
    (d_certs dbs n = Some cs \<and> (source, target) \<notin> cs \<and> time + cp_sig_period params < 2 ^ 64 \<longrightarrow>
      map_option (revert_write_cert \<lparr>cc_issuer = k, cc_target = k', cc_block_number = n, cc_signature = sg\<rparr>
        source target) (write_certification p params k source target n time dbs) = Some dbs)"
proof -
  have same: "dbs\<lparr>d_identities := (d_identities dbs)(k \<mapsto> d)\<rparr> = dbs"
    using d by (simp add: fun_upd_idem)
  have "exclude_identity k b False dbs \<bind> exclude_identity k b True = Some dbs"
    if "di_state d = Member counts" "di_expired_on d = None" for counts
  proof -
    have restored: "d\<lparr>di_state := Member counts, di_expired_on := None\<rparr> = d"
      using that by (cases d) simp
    show ?thesis using d that same by (simp add: exclude_identity_def Let_def restored)
  qed
  moreover have "revoke_identity k b True False dbs \<bind> revoke_identity k b True True = Some dbs"
    if "\<not> revoked (di_state d)" "di_revoked_on d = None"
  proof -
    have "d\<lparr>di_state := state, di_revoked_on := None\<rparr> = d" if "di_state d = state" for state
      using that \<open>di_revoked_on d = None\<close> by (cases d) simp
    note restored = this[of "Member _"] this[of "ExpireMember _"]
    show ?thesis
      using d that same by (cases "di_state d") (simp_all add: revoke_identity_def Let_def restored)
  qed
  moreover have "map_option (revert_write_cert
      \<lparr>cc_issuer = k, cc_target = k', cc_block_number = n, cc_signature = sg\<rparr> source target)
      (write_certification p params k source target n time dbs) = Some dbs"
    if "d_certs dbs n = Some cs" "(source, target) \<notin> cs" "time + cp_sig_period params < 2 ^ 64"
  proof -
    have "dbs\<lparr>d_certs := (d_certs dbs)(n \<mapsto> cs), d_identities := (d_identities dbs)(k \<mapsto> d)\<rparr> = dbs"
      using d that by (simp add: fun_upd_idem)
    then show ?thesis
      using d that
      by (simp add: write_certification_def revert_write_cert_def get_or_empty_def Let_def)
  qed
  ultimately show ?thesis by blast
qed

theorem requests_reverted_witness:
  "\<exists>dbs. exclude_identity (PubEd25519 [1]) blockstamp_default False dbs \<noteq> None \<and>
     exclude_identity (PubEd25519 [1]) blockstamp_default False dbs \<bind>
     exclude_identity (PubEd25519 [1]) blockstamp_default True = Some (dbs :: unit wots_dbs)"
proof -
  define d where "d = \<lparr>di_hash = [], di_state = Member [0], di_joined_on = blockstamp_default,
    di_expired_on = None, di_revoked_on = None, di_idty_doc = example_identity,
    di_wot_id = 0, di_ms_created_block_id = 0, di_ms_chainable_on = [], di_cert_chainable_on = []\<rparr>"
  define dbs where "dbs = (no_identities ())\<lparr>d_identities := [PubEd25519 [1] \<mapsto> d]\<rparr>"
  have "d_identities dbs (PubEd25519 [1]) = Some d" by (simp add: dbs_def)
  from conjunct1[OF requests_reverted[OF this, of blockstamp_default]]
  have "exclude_identity (PubEd25519 [1]) blockstamp_default False dbs \<bind>
      exclude_identity (PubEd25519 [1]) blockstamp_default True = Some dbs"
    by (simp add: d_def)
  then show ?thesis by (intro exI[of _ dbs]) (cases "exclude_identity (PubEd25519 [1]) blockstamp_default False dbs"; simp)
qed

text \<open>
  Reverting the first renewal of a member makes an expired member of it, and an implicit
  revocation of a member is reverted to an expired member too. Reverting the renewal of an expired
  member does not give the expired state back: it panics with overflow checks, and without them
  leaves a member whose count is the largest \<open>usize\<close>.
\<close>

theorem renewal_revert_states:
  "renewal_state p False (Member (counts @ [0])) \<bind> renewal_state p True = Some (ExpireMember (counts @ [0])) \<and>
   revoke_state False False (Member counts) \<bind> revoke_state False True = Some (ExpireMember counts) \<and>
   renewal_state Debug False (ExpireMember counts) \<bind> renewal_state Debug True = None \<and>
   renewal_state Release False (ExpireMember counts) \<bind> renewal_state Release True =
     Some (Member (counts @ [2 ^ 64 - 1]))"
  by (simp add: update_final_def usize_sub_def)

lemma concat_pages: "concat (map (\<lambda>i. take s (drop (s * i) xs)) [0..<n]) = take (s * n) xs"
proof (induction n)
  case (Suc n)
  then show ?case by (simp add: take_add mult.commute[of s] add.commute[of s])
qed simp

text \<open>
  The pages of a search by period, put together, are the identities created in the period, all
  of them and in the order of their blocks.
\<close>

theorem identity_pages_complete:
  assumes it: "iterates it" and finite: "finite (dom (d_identities dbs))"
    and size: "page_size * n < 2 ^ 64" "card (dom (d_identities dbs)) \<le> page_size * n"
  shows "\<exists>pages. map_run (\<lambda>i. get_identities p it dbs
      \<lparr>if_paging = \<lparr>pf_from = a, pf_to = b, pf_page_size = page_size, pf_page_number = i\<rparr>,
        if_by_pubkey = None\<rparr> current) [0..<n] = Some pages \<and>
    sorted (map created_block (concat pages)) \<and>
    set (concat pages) = {d. \<exists>k. d_identities dbs k = Some d \<and> a \<le> created_block d \<and>
      created_block d \<le> (case b of Some t \<Rightarrow> t | None \<Rightarrow> current)}"
proof -
  let ?paging = "\<lambda>i. \<lparr>pf_from = a, pf_to = b, pf_page_size = page_size, pf_page_number = i\<rparr>"
  let ?all = "map (\<lambda>k. the (d_identities dbs k)) (it (dom (d_identities dbs)))"
  define found where "found = sort_key created_block
    (filter (\<lambda>d. check_created_on (?paging 0) (created_block d) current) ?all)"
  have "length found \<le> length ?all" by (simp add: found_def)
  then have len: "length found \<le> page_size * n"
    using size(2) iterates_length[OF it finite] by simp
  have page: "get_identities p it dbs \<lparr>if_paging = ?paging i, if_by_pubkey = None\<rparr> current =
      Some (take page_size (drop (page_size * i) found))" if "i \<in> set [0..<n]" for i
  proof -
    have "page_size * i \<le> page_size * n" using that by simp
    then have "page_size * i < 2 ^ 64" using size(1) by linarith
    then show ?thesis
      by (simp add: get_identities_def usize_mul_def found_def check_created_on_def)
  qed
  have "set found = {d. \<exists>k. d_identities dbs k = Some d \<and> check_created_on (?paging 0) (created_block d) current}"
    using iterates_set[OF it finite] by (auto simp: found_def image_iff) (force simp: domI)
  moreover have "sorted (map created_block found)" by (simp add: found_def)
  moreover have "concat (map (\<lambda>i. take page_size (drop (page_size * i) found)) [0..<n]) = found"
    using concat_pages[of page_size found n] len by simp
  ultimately show ?thesis
    using map_run_total[OF page] by (intro exI conjI) (assumption, simp_all add: check_created_on_def)
qed

theorem identity_pages_complete_witness:
  "\<exists>pages d. map_run (\<lambda>i. get_identities Debug sorted_list_of_set
      ((no_identities ())\<lparr>d_identities := [PubEd25519 [1] \<mapsto> d]\<rparr>)
      \<lparr>if_paging = \<lparr>pf_from = 0, pf_to = None, pf_page_size = 2, pf_page_number = i\<rparr>, if_by_pubkey = None\<rparr>
      5) [0..<1] = Some pages \<and> set (concat pages) = {d}"
proof -
  define d where "d = \<lparr>di_hash = [], di_state = Member [0], di_joined_on = blockstamp_default,
    di_expired_on = None, di_revoked_on = None, di_idty_doc = example_identity,
    di_wot_id = 0, di_ms_created_block_id = 0, di_ms_chainable_on = [], di_cert_chainable_on = []\<rparr>"
  have created: "created_block d = 0" by (simp add: created_block_def d_def example_identity_def)
  let ?dbs = "(no_identities ())\<lparr>d_identities := [PubEd25519 [1] \<mapsto> d]\<rparr>"
  have "{d'. \<exists>k. d_identities ?dbs k = Some d' \<and> 0 \<le> created_block d' \<and>
      created_block d' \<le> (case None of Some t \<Rightarrow> t | None \<Rightarrow> 5)} = {d}"
    using created by auto
  then show ?thesis
    using identity_pages_complete[OF iterates_sorted_list_of_set, of ?dbs 2 1 Debug 0 None 5]
    by auto
qed

end
