(* ===== verification/Dal_Blocks.thy ===== *)
theory Dal_Blocks
  imports Fork_Tree Block_Document Dal_Identities
begin

text \<open>
  The block databases: \<open>lib/modules/blockchain/blockchain-dal/src\<close>, the entity \<open>block.rs\<close>, the
  writers \<open>block.rs\<close> and \<open>fork_tree.rs\<close>, the queries \<open>BlocksDBsWriteQuery\<close> of
  \<open>writers/requests.rs\<close> and the readers \<open>block.rs\<close>, \<open>fork_tree.rs\<close> and \<open>currency_params.rs\<close>.

  Reading the blockstamp of a block without hash panics, as in the code.
\<close>

subsection \<open>The state\<close>

record 'f dal_block =
  db_block :: "'f block_document"
  db_expire_certs :: "(nat \<times> nat \<rightharpoonup> nat) option"

definition dal_blockstamp :: "'f dal_block \<Rightarrow> blockstamp run" where
  "dal_blockstamp b = blockstamp_of (db_block b)"

definition dal_previous_blockstamp :: "profile \<Rightarrow> 'f dal_block \<Rightarrow> blockstamp run" where
  "dal_previous_blockstamp p b = do {
     n \<leftarrow> u32_sub p (b_number (db_block b)) 1;
     Some (Blockstamp n (b_previous_hash (db_block b)))
   }"

text \<open>The local blockchain, by number; the fork blocks, by blockstamp; the orphans, by previous blockstamp.\<close>

type_synonym 'f local_blockchain = "nat \<rightharpoonup> 'f dal_block"

record 'f blocks_dbs =
  bd_blockchain :: "'f local_blockchain"

record 'f forks_dbs =
  fd_tree :: fork_tree
  fd_blocks :: "blockstamp \<rightharpoonup> 'f dal_block"
  fd_orphans :: "blockstamp \<rightharpoonup> 'f dal_block list"

subsection \<open>Writers\<close>

definition remove_blocks :: "blockstamp list \<Rightarrow> (blockstamp \<rightharpoonup> 'f dal_block) \<Rightarrow> blockstamp \<rightharpoonup> 'f dal_block" where
  "remove_blocks removed m = fold (\<lambda>s m. m(s := None)) removed m"

definition write_head_block ::
  "'f dal_block \<Rightarrow> 'f local_blockchain \<times> 'f forks_dbs \<Rightarrow> ('f local_blockchain \<times> 'f forks_dbs) run" where
  "write_head_block b = (\<lambda>(blockchain, forks). do {
     let blockchain = blockchain(b_number (db_block b) \<mapsto> b);
     s \<leftarrow> dal_blockstamp b;
     (removed, tree) \<leftarrow> insert_new_head_block s (fd_tree forks);
     Some (blockchain, forks\<lparr>fd_tree := tree, fd_blocks := remove_blocks removed ((fd_blocks forks)(s \<mapsto> b))\<rparr>)
   })"

text \<open>
  The recursion over the orphans that wait for the block. The results of the recursive calls are
  ignored; the list of orphans is read before them.
\<close>

definition adopt :: "profile \<Rightarrow> 'f dal_block \<Rightarrow> 'f forks_dbs \<Rightarrow> ('f dal_block list option \<times> 'f forks_dbs) run" where
  "adopt p b forks = do {
     s \<leftarrow> dal_blockstamp b;
     (inserted, tree) \<leftarrow> insert_new_fork_block p s (b_previous_hash (db_block b)) (fd_tree forks);
     if inserted then
       (let forks = forks\<lparr>fd_tree := tree, fd_blocks := (fd_blocks forks)(s \<mapsto> b)\<rparr>
        in Some (Some (case fd_orphans forks s of Some bs \<Rightarrow> bs | None \<Rightarrow> []), forks))
     else do {
       previous \<leftarrow> dal_previous_blockstamp p b;
       let orphans = (case fd_orphans forks previous of Some bs \<Rightarrow> bs | None \<Rightarrow> []);
       Some (None, forks\<lparr>fd_tree := tree, fd_orphans := (fd_orphans forks)(previous \<mapsto> orphans @ [b])\<rparr>)
     }
   }"

lemma fold_run_mono [partial_function_mono]:
  assumes "\<And>x s. mono_option (\<lambda>f. B f x s)"
  shows "mono_option (\<lambda>f. fold_run (B f) xs s)"
proof (induction xs arbitrary: s)
  case Nil
  show ?case by (simp add: partial_function_mono)
next
  case (Cons x xs)
  show ?case
    by (simp, rule bind_mono[OF assms Cons.IH])
qed

partial_function (option) write_fork_block ::
  "profile \<Rightarrow> 'f dal_block \<Rightarrow> 'f forks_dbs \<Rightarrow> (bool \<times> 'f forks_dbs) option" where
  "write_fork_block p b forks = do {
     (stackables, forks) \<leftarrow> adopt p b forks;
     (case stackables of
        None \<Rightarrow> Some (False, forks)
      | Some bs \<Rightarrow> do {
          forks \<leftarrow> fold_run (\<lambda>b forks. do { (_, forks) \<leftarrow> write_fork_block p b forks; Some forks }) bs forks;
          Some (True, forks)
        })
   }"

definition write_main_branch :: "blockstamp \<Rightarrow> blockstamp \<Rightarrow> 'f forks_dbs \<Rightarrow> 'f forks_dbs run" where
  "write_main_branch old_current new_current forks = do {
     tree \<leftarrow> change_main_branch old_current new_current (fd_tree forks);
     Some (forks\<lparr>fd_tree := tree, fd_blocks := remove_blocks (ft_removed tree) (fd_blocks forks)\<rparr>)
   }"

datatype 'f blocks_query = WriteBlock "'f dal_block" | RevertBlock "'f dal_block"

fun get_block_doc_copy :: "'f blocks_query \<Rightarrow> 'f block_document" where
  "get_block_doc_copy (WriteBlock b) = db_block b"
| "get_block_doc_copy (RevertBlock b) = db_block b"

fun blocks_apply ::
  "profile \<Rightarrow> 'f blocks_query \<Rightarrow> blockstamp option \<Rightarrow> 'f local_blockchain \<times> 'f forks_dbs \<Rightarrow>
   ('f local_blockchain \<times> 'f forks_dbs) run" where
  "blocks_apply p (WriteBlock b) sync_target (blockchain, forks) = do {
     near \<leftarrow> (case sync_target of
         None \<Rightarrow> Some True
       | Some target \<Rightarrow> do {
           s \<leftarrow> dal_blockstamp b;
           n \<leftarrow> u32_add p (bs_id s) fork_window_size;
           Some (n \<ge> bs_id target)
         });
     if near then write_head_block b (blockchain, forks)
     else Some (blockchain(b_number (db_block b) \<mapsto> b), forks)
   }"
| "blocks_apply p (RevertBlock b) sync_target (blockchain, forks) =
     Some (blockchain(b_number (db_block b) := None), forks)"

subsection \<open>Readers\<close>

definition get_current_blockstamp :: "'f local_blockchain \<Rightarrow> blockstamp option run" where
  "get_current_blockstamp db = do {
     let blockchain_len = as_u32 (card (dom db));
     if blockchain_len = 0 then Some None
     else (case db (blockchain_len - 1) of
         Some b \<Rightarrow> map_option Some (dal_blockstamp b)
       | None \<Rightarrow> Some None)
   }"

definition get_block_hash :: "'f local_blockchain \<Rightarrow> nat \<Rightarrow> hash option" where
  "get_block_hash db n = (case db n of Some b \<Rightarrow> b_hash (db_block b) | None \<Rightarrow> None)"

definition already_have_block ::
  "profile \<Rightarrow> 'f local_blockchain \<Rightarrow> 'f forks_dbs \<Rightarrow> blockstamp \<Rightarrow> hash \<Rightarrow> bool run" where
  "already_have_block p db forks s previous_hash = do {
     n \<leftarrow> u32_sub p (bs_id s) 1;
     if fd_blocks forks s \<noteq> None then Some True
     else (case fd_orphans forks (Blockstamp n previous_hash) of
         Some orphans \<Rightarrow> do { stamps \<leftarrow> map_run dal_blockstamp orphans; Some (s \<in> set stamps) }
       | None \<Rightarrow> (case db (bs_id s) of
           Some b \<Rightarrow> Some ((case b_hash (db_block b) of Some h \<Rightarrow> h | None \<Rightarrow> hash_default) = bs_hash s)
         | None \<Rightarrow> Some False))
   }"

definition get_block ::
  "'f local_blockchain \<Rightarrow> (blockstamp \<rightharpoonup> 'f dal_block) option \<Rightarrow> blockstamp \<Rightarrow> 'f dal_block option" where
  "get_block db forks_blocks s =
     (case db (bs_id s) of
        Some b \<Rightarrow> Some b
      | None \<Rightarrow> (case forks_blocks of Some blocks \<Rightarrow> blocks s | None \<Rightarrow> None))"

definition get_block_in_local_blockchain :: "'f local_blockchain \<Rightarrow> nat \<Rightarrow> 'f block_document option" where
  "get_block_in_local_blockchain db n = map_option db_block (db n)"

text \<open>The loop does not look at \<open>count\<close>, which only sizes the vector.\<close>

partial_function (option) blocks_from ::
  "profile \<Rightarrow> 'f local_blockchain \<Rightarrow> nat \<Rightarrow> 'f block_document list option" where
  "blocks_from p db n =
     (case db n of
        None \<Rightarrow> Some []
      | Some b \<Rightarrow> do {
          next_number \<leftarrow> u32_add p n 1;
          bs \<leftarrow> blocks_from p db next_number;
          Some (db_block b # bs)
        })"

definition get_blocks_in_local_blockchain ::
  "profile \<Rightarrow> 'f local_blockchain \<Rightarrow> nat \<Rightarrow> nat \<Rightarrow> 'f block_document list run" where
  "get_blocks_in_local_blockchain p db first_block_number count = blocks_from p db first_block_number"

text \<open>The cast of an \<open>isize\<close> to \<open>u32\<close> keeps the low 32 bits.\<close>

definition count_issuer :: "'f local_blockchain \<Rightarrow> nat \<Rightarrow> (pub_key \<rightharpoonup> nat) \<Rightarrow> (pub_key \<rightharpoonup> nat) run" where
  "count_issuer db n frame = do {
     b \<leftarrow> db n;
     issuer \<leftarrow> vec_get (b_issuers (db_block b)) 0;
     Some (frame(issuer \<mapsto> (case frame issuer of Some k \<Rightarrow> k + 1 | None \<Rightarrow> 1)))
   }"

definition get_current_frame ::
  "profile \<Rightarrow> 'f dal_block \<Rightarrow> 'f local_blockchain \<Rightarrow> (pub_key \<rightharpoonup> nat) run" where
  "get_current_frame p current db = do {
     let number = b_number (db_block current);
     frame_begin \<leftarrow> u32_sub p number (nat (b_issuers_frame (db_block current) mod 2 ^ 32));
     fold_run (count_issuer db) [frame_begin..<number] Map.empty
   }"

definition get_stackables_blocks :: "'f forks_dbs \<Rightarrow> blockstamp \<Rightarrow> 'f dal_block list" where
  "get_stackables_blocks forks current = (case fd_orphans forks current of Some bs \<Rightarrow> bs | None \<Rightarrow> [])"

definition get_currency_params :: "'f local_blockchain \<Rightarrow> 'f currency_parameters option run" where
  "get_currency_params db =
     (case db 0 of
        None \<Rightarrow> Some None
      | Some genesis \<Rightarrow> do {
          params \<leftarrow> b_parameters (db_block genesis);
          Some (Some (currency_parameters_from (b_currency (db_block genesis)) params))
        })"

subsection \<open>The blocks of the tree\<close>

definition block_at :: "fork_tree \<Rightarrow> node_ref \<Rightarrow> blockstamp option" where
  "block_at t i = map_option tn_data (get_ref_node t i)"

definition in_tree :: "fork_tree \<Rightarrow> blockstamp set" where
  "in_tree t = {s. \<exists>i. block_at t i = Some s}"

lemma distinct_blocks_at:
  "distinct_blocks t \<longleftrightarrow> (\<forall>i j s. block_at t i = Some s \<longrightarrow> block_at t j = Some s \<longrightarrow> i = j)"
  by (auto simp: distinct_blocks_def block_at_def)

text \<open>Removals only take nodes away, and report the blocks of the nodes they take.\<close>

definition accounts :: "fork_tree \<Rightarrow> fork_tree \<Rightarrow> bool" where
  "accounts t t' \<longleftrightarrow> (\<forall>i s. block_at t' i = Some s \<longrightarrow> block_at t i = Some s) \<and>
     (\<exists>rs. ft_removed t' = ft_removed t @ rs \<and>
       (\<forall>s\<in>set rs. \<exists>i. block_at t i = Some s \<and> block_at t' i = None))"

lemma accounts_refl: "accounts t t"
  by (simp add: accounts_def)

lemma accounts_trans: "accounts t t1 \<Longrightarrow> accounts t1 t2 \<Longrightarrow> accounts t t2"
proof -
  assume a: "accounts t t1" "accounts t1 t2"
  then obtain rs1 rs2 where "ft_removed t1 = ft_removed t @ rs1" "ft_removed t2 = ft_removed t1 @ rs2"
    "\<forall>s\<in>set rs1. \<exists>i. block_at t i = Some s \<and> block_at t1 i = None"
    "\<forall>s\<in>set rs2. \<exists>i. block_at t1 i = Some s \<and> block_at t2 i = None"
    by (auto simp: accounts_def)
  moreover have "block_at t2 i = None" if "block_at t1 i = None" for i
    using that a(2) by (cases "block_at t2 i") (auto simp: accounts_def)
  ultimately show ?thesis
    using a by (auto simp: accounts_def intro!: exI[of _ "rs1 @ rs2"]) blast+
qed

lemma accounts_fold:
  assumes "fold_run f xs t = Some t'" "\<And>x s s'. f x s = Some s' \<Longrightarrow> accounts s s'"
  shows "accounts t t'"
  by (rule fold_run_preserves[OF assms(1), where P = "accounts t"])
    (auto intro: accounts_refl accounts_trans assms(2))

lemma accounts_remove_node:
  assumes "remove_node i t = Some t'"
  shows "accounts t t'"
proof -
  from assms obtain n where n: "get_ref_node t i = Some n" and t': "t' = t\<lparr>
      ft_removed := ft_removed t @ [tn_data n], ft_nodes := (ft_nodes t)[i := None], ft_sheets := ft_sheets t - {i}\<rparr>"
    by (auto simp: remove_node_def split: bind_splits)
  have "block_at t' k = (if k = i then None else block_at t k)" for k
    using n by (auto simp: t' block_at_def get_ref_node_def vec_get_def nth_list_update split: option.splits)
  then show ?thesis using n by (auto simp: accounts_def t' block_at_def)
qed

lemma accounts_remove_node_children:
  "remove_node_children k i t = Some t' \<Longrightarrow> accounts t t'"
proof (induction k arbitrary: i t t')
  case (Suc k)
  from Suc.prems obtain ids t1 and n :: tree_node where "fold_run (remove_node_children k) (tn_children n) t = Some t1"
    "fold_run remove_node ids t1 = Some t'"
    by (auto simp del: only_children.simps split: bind_splits prod.splits)
  then show ?case
    using accounts_fold[of "remove_node_children k"] accounts_fold[of remove_node] Suc.IH accounts_remove_node
      accounts_trans by blast
qed simp

lemma accounts_remove_subtree: "remove_subtree c t = Some t' \<Longrightarrow> accounts t t'"
  by (auto simp: remove_subtree_def simp del: remove_node_children.simps split: bind_splits
      intro: accounts_trans accounts_remove_node accounts_remove_node_children)

lemma pruning_accounts:
  assumes "pruning t = Some t'"
  shows "accounts t t'"
proof -
  from assms obtain r n m t1 where r: "get_ref_node t r = Some n"
    and t1: "fold_run remove_subtree (filter (\<lambda>c. c \<noteq> m) (tn_children n))
        (t\<lparr>ft_main := (ft_main t)(bs_id (tn_data n) := None), ft_removed := ft_removed t @ [tn_data n]\<rparr>) = Some t1"
    and t': "t' = t1\<lparr>ft_nodes := (ft_nodes t1)[r := None], ft_root := Some m\<rparr>"
    by (auto simp: pruning_def Let_def split: bind_splits)
  let ?t0 = "t\<lparr>ft_main := (ft_main t)(bs_id (tn_data n) := None), ft_removed := ft_removed t @ [tn_data n]\<rparr>"
  have t0: "block_at ?t0 k = block_at t k" for k by (simp add: block_at_def get_ref_node_def)
  have acc: "accounts ?t0 t1" by (rule accounts_fold[OF t1]) (rule accounts_remove_subtree)
  have last: "block_at t' k = (if k = r then None else block_at t1 k)" for k
    by (auto simp: t' block_at_def get_ref_node_def vec_get_def nth_list_update split: option.splits)
  from acc obtain rs where rs: "ft_removed t1 = ft_removed t @ tn_data n # rs"
    "\<forall>s\<in>set rs. \<exists>i. block_at t i = Some s \<and> block_at t1 i = None"
    by (auto simp: accounts_def t0)
  have "\<forall>s\<in>set (tn_data n # rs). \<exists>i. block_at t i = Some s \<and> block_at t' i = None"
    using rs(2) r by (auto simp: last) (auto simp: block_at_def)
  moreover have "\<forall>i s. block_at t' i = Some s \<longrightarrow> block_at t i = Some s"
    using acc by (auto simp: accounts_def t0 last)
  moreover have "ft_removed t' = ft_removed t @ (tn_data n # rs)" using rs(1) by (simp add: t')
  ultimately show ?thesis unfolding accounts_def by blast
qed

lemma link_new_node_blocks:
  assumes "link_new_node b parent t = Some (i, t1)"
  shows "i = length (ft_nodes t) \<and> ft_main t1 = ft_main t \<and>
    (\<forall>k. block_at t1 k = (if k = i then Some b else block_at t k))"
proof (cases parent)
  case None
  then show ?thesis
    using assms
    by (auto simp: link_new_node_None block_at_def get_ref_node_def vec_get_def nth_append tree_node_new_def
        split: if_splits)
next
  case (Some j)
  then show ?thesis
    using assms
    by (auto simp: link_new_node_def get_free_node_id_None update_node_def Let_def block_at_def get_ref_node_def
        vec_get_def nth_append nth_list_update tree_node_new_def add_child_def split: bind_splits if_splits option.splits)
qed

text \<open>The blocks after an insertion: the old ones and the new one, but for those reported as removed.\<close>

lemma insert_new_node_blocks:
  assumes "insert_new_node b parent main t = Some t'"
  shows "\<exists>t1. (\<forall>k. block_at t1 k = (if k = length (ft_nodes t) then Some b else block_at t k)) \<and>
    (\<forall>k s. block_at t' k = Some s \<longrightarrow> block_at t1 k = Some s) \<and>
    (\<forall>s\<in>set (ft_removed t'). \<exists>k. block_at t1 k = Some s \<and> block_at t' k = None) \<and>
    (\<not> main \<longrightarrow> block_at t' = block_at t1)"
proof -
  from assms obtain i t1 where link: "link_new_node b parent t = Some (i, t1)"
    by (auto simp: insert_new_node_def split: bind_splits)
  let ?t1 = "t1\<lparr>ft_removed := [], ft_main := (ft_main t1)(bs_id b \<mapsto> i)\<rparr>"
  have at: "block_at (t1\<lparr>ft_removed := rs\<rparr>) = block_at t1" "block_at ?t1 = block_at t1"
    "block_at (x\<lparr>ft_sheets := sheets\<rparr>) = block_at x" for rs x sheets
    by (simp_all add: fun_eq_iff block_at_def get_ref_node_def)
  have "accounts ?t1 t2" if "pruning ?t1 = Some t2" for t2
    by (rule pruning_accounts[OF that])
  then have "(\<forall>k s. block_at t' k = Some s \<longrightarrow> block_at t1 k = Some s) \<and>
    (\<forall>s\<in>set (ft_removed t'). \<exists>k. block_at t1 k = Some s \<and> block_at t' k = None) \<and>
    (\<not> main \<longrightarrow> block_at t' = block_at t1)"
    using assms link
    by (auto simp: insert_new_node_def Let_def at accounts_def split: bind_splits if_splits)
  then show ?thesis using link_new_node_blocks[OF link] by blast
qed

subsection \<open>The invariant of the fork databases\<close>

text \<open>
  Every block of the tree is stored with its blockstamp, and an orphan is filed under the
  blockstamp that precedes it.
\<close>

definition orphans_ok :: "(blockstamp \<rightharpoonup> 'f dal_block list) \<Rightarrow> bool" where
  "orphans_ok orphans \<longleftrightarrow> finite (dom orphans) \<and>
     (\<forall>s bs b. orphans s = Some bs \<longrightarrow> b \<in> set bs \<longrightarrow>
       b_number (db_block b) = Suc (bs_id s) \<and> b_previous_hash (db_block b) = bs_hash s \<and>
       b_hash (db_block b) \<noteq> None)"

definition stored :: "'f forks_dbs \<Rightarrow> blockstamp \<Rightarrow> bool" where
  "stored forks s \<longleftrightarrow> (\<exists>b. fd_blocks forks s = Some b \<and> dal_blockstamp b = Some s)"

definition forks_ok :: "'f forks_dbs \<Rightarrow> bool" where
  "forks_ok forks \<longleftrightarrow> tree_wf (fd_tree forks) \<and> (\<forall>s\<in>in_tree (fd_tree forks). stored forks s) \<and>
     orphans_ok (fd_orphans forks)"

text \<open>The blocks that wait, directly or not, for a block.\<close>

inductive waits_for :: "(blockstamp \<rightharpoonup> 'f dal_block list) \<Rightarrow> blockstamp \<Rightarrow> blockstamp \<Rightarrow> bool"
  for orphans where
  itself: "waits_for orphans s s"
| later: "orphans s = Some bs \<Longrightarrow> b \<in> set bs \<Longrightarrow> dal_blockstamp b = Some s1 \<Longrightarrow>
    waits_for orphans s1 s2 \<Longrightarrow> waits_for orphans s s2"

inductive_simps waits_for_iff: "waits_for orphans s s2"

lemma dal_blockstamp_iff:
  "dal_blockstamp b = Some s \<longleftrightarrow>
     b_number (db_block b) = bs_id s \<and> b_hash (db_block b) = Some (bs_hash s)"
  by (cases s) (auto simp: dal_blockstamp_def blockstamp_of_def)

lemma orphan_stamp:
  assumes "orphans_ok orphans" "orphans s = Some bs" "b \<in> set bs"
  shows "\<exists>s'. dal_blockstamp b = Some s' \<and> bs_id s' = Suc (bs_id s) \<and> b_previous_hash (db_block b) = bs_hash s"
  using assms by (fastforce simp: orphans_ok_def dal_blockstamp_def blockstamp_of_def)

lemma orphans_bound:
  assumes "orphans_ok orphans"
  shows "\<exists>n. \<forall>s bs b. orphans s = Some bs \<longrightarrow> b \<in> set bs \<longrightarrow> bs_id s < n"
proof -
  have "finite (bs_id ` dom orphans)" using assms by (simp add: orphans_ok_def)
  then obtain n where "\<forall>k\<in>bs_id ` dom orphans. k < n" using finite_nat_set_iff_bounded by blast
  then show ?thesis by (intro exI[of _ n]) (auto simp: dom_def)
qed

text \<open>One insertion, without the orphans.\<close>

lemma in_tree_iff: "s \<in> in_tree t \<longleftrightarrow> (\<exists>i n. get_ref_node t i = Some n \<and> tn_data n = s)"
  by (auto simp: in_tree_def block_at_def)

lemma insert_new_fork_in_tree:
  assumes "tree_wf t" "insert_new_fork_block p s h t = Some (inserted, t')"
  shows "in_tree t' = (if inserted then insert s (in_tree t) else in_tree t)"
proof (cases inserted)
  case True
  then obtain j where "insert_new_node s (Some j) False t = Some t'"
    using assms(2)
    by (simp add: insert_new_fork_block_def split: bind_splits option.splits)
  from insert_new_node_blocks[OF this] obtain t1 where
    "\<forall>k. block_at t1 k = (if k = length (ft_nodes t) then Some s else block_at t k)" "block_at t' = block_at t1"
    by blast
  then have at: "\<forall>k. block_at t' k = (if k = length (ft_nodes t) then Some s else block_at t k)" by simp
  moreover have "block_at t (length (ft_nodes t)) = None"
    by (simp add: block_at_def get_ref_node_def vec_get_def)
  then have "block_at t k = Some x \<Longrightarrow> k \<noteq> length (ft_nodes t)" for k x by auto
  ultimately have "(\<exists>k. block_at t' k = Some x) \<longleftrightarrow> x = s \<or> (\<exists>k. block_at t k = Some x)" for x
    by (cases "x = s") (simp_all, metis+)
  then show ?thesis using True by (auto simp: in_tree_def)
next
  case False
  then show ?thesis
    using assms(2) by (auto simp: insert_new_fork_block_def split: bind_splits option.splits)
qed

lemma adopt_spec:
  assumes ok: "forks_ok forks" and s: "dal_blockstamp b = Some s" "0 < bs_id s"
  shows "if Blockstamp (bs_id s - 1) (b_previous_hash (db_block b)) \<in> in_tree (fd_tree forks)
    then \<exists>tree. adopt p b forks = Some (Some (get_stackables_blocks forks s),
          forks\<lparr>fd_tree := tree, fd_blocks := (fd_blocks forks)(s \<mapsto> b)\<rparr>) \<and>
        in_tree tree = insert s (in_tree (fd_tree forks)) \<and> ft_main tree = ft_main (fd_tree forks) \<and>
        forks_ok (forks\<lparr>fd_tree := tree, fd_blocks := (fd_blocks forks)(s \<mapsto> b)\<rparr>)
    else adopt p b forks = Some (None, forks\<lparr>fd_orphans :=
          (fd_orphans forks)(Blockstamp (bs_id s - 1) (b_previous_hash (db_block b)) \<mapsto>
            get_stackables_blocks forks (Blockstamp (bs_id s - 1) (b_previous_hash (db_block b))) @ [b])\<rparr>)"
proof -
  let ?h = "b_previous_hash (db_block b)"
  have t: "tree_wf (fd_tree forks)" using ok by (simp add: forks_ok_def)
  from insert_new_fork_wf[OF t s(2), of p ?h] obtain inserted t' where
    run: "insert_new_fork_block p s ?h (fd_tree forks) = Some (inserted, t')"
    and t': "tree_wf t'" "ft_main t' = ft_main (fd_tree forks)"
    and found: "inserted \<longleftrightarrow> Blockstamp (bs_id s - 1) ?h \<in> in_tree (fd_tree forks)"
    by (auto simp: in_tree_iff)
  note blocks = insert_new_fork_in_tree[OF t run]
  show ?thesis
  proof (cases inserted)
    case True
    have "forks_ok (forks\<lparr>fd_tree := t', fd_blocks := (fd_blocks forks)(s \<mapsto> b)\<rparr>)"
      using ok t' s(1) blocks True by (auto simp: forks_ok_def stored_def)
    then show ?thesis
      using True found run t' s(1) blocks
      by (auto simp: adopt_def Let_def get_stackables_blocks_def split: option.splits)
  next
    case False
    then have "t' = fd_tree forks"
      using run by (auto simp: insert_new_fork_block_def split: bind_splits option.splits)
    moreover have "dal_previous_blockstamp p b = Some (Blockstamp (bs_id s - 1) ?h)"
      using s by (simp add: dal_previous_blockstamp_def dal_blockstamp_iff)
    ultimately show ?thesis
      using False found run s(1) by (simp add: adopt_def Let_def get_stackables_blocks_def)
  qed
qed

text \<open>A block whose parent is in the tree is inserted with everything that waits for it.\<close>

definition adopted :: "'f forks_dbs \<Rightarrow> 'f forks_dbs \<Rightarrow> blockstamp set \<Rightarrow> bool" where
  "adopted forks forks' news \<longleftrightarrow> forks_ok forks' \<and> fd_orphans forks' = fd_orphans forks \<and>
     ft_main (fd_tree forks') = ft_main (fd_tree forks) \<and>
     in_tree (fd_tree forks') = in_tree (fd_tree forks) \<union> news"

lemma write_fork_block_adopts:
  fixes forks :: "'f forks_dbs"
  assumes "\<forall>s bs b. fd_orphans forks s = Some bs \<longrightarrow> b \<in> set bs \<longrightarrow> bs_id s < n"
    and "forks_ok forks" "dal_blockstamp b = Some s" "0 < bs_id s"
    and "Blockstamp (bs_id s - 1) (b_previous_hash (db_block b)) \<in> in_tree (fd_tree forks)"
  shows "\<exists>forks'. write_fork_block p b forks = Some (True, forks') \<and>
    adopted forks forks' {s'. waits_for (fd_orphans forks) s s'}"
  using assms
proof (induction "n - bs_id s" arbitrary: b s forks rule: less_induct)
  case less
  let ?o = "fd_orphans forks"
  from adopt_spec[OF less.prems(2,3,4), of p] less.prems(5) obtain tree where
    adopt: "adopt p b forks = Some (Some (get_stackables_blocks forks s),
      forks\<lparr>fd_tree := tree, fd_blocks := (fd_blocks forks)(s \<mapsto> b)\<rparr>)"
    and tree: "in_tree tree = insert s (in_tree (fd_tree forks))" "ft_main tree = ft_main (fd_tree forks)"
    and ok1: "forks_ok (forks\<lparr>fd_tree := tree, fd_blocks := (fd_blocks forks)(s \<mapsto> b)\<rparr>)"
    by auto
  define forks1 where "forks1 = forks\<lparr>fd_tree := tree, fd_blocks := (fd_blocks forks)(s \<mapsto> b)\<rparr>"
  let ?bs = "get_stackables_blocks forks s"
  let ?step = "\<lambda>b forks. do { (_, forks) \<leftarrow> write_fork_block p b forks; Some forks }"
  let ?news = "\<lambda>A :: 'f dal_block set. {s'. \<exists>c\<in>A. \<exists>s1. dal_blockstamp c = Some s1 \<and> waits_for ?o s1 s'}"
  have orphans: "orphans_ok ?o" using less.prems(2) by (simp add: forks_ok_def)
  have "\<exists>forks'. fold_run ?step ?bs forks1 = Some forks' \<and> adopted forks1 forks' (?news ({} \<union> set ?bs))"
  proof (rule fold_run_invariant[where I = "\<lambda>A forks'. adopted forks1 forks' (?news A)"])
    show "adopted forks1 forks1 (?news {})" using ok1 by (simp add: adopted_def forks1_def)
  next
    fix A c forks2 assume inv: "adopted forks1 forks2 (?news A)" and c: "c \<in> set ?bs"
    from c obtain bs where bs: "?o s = Some bs" "c \<in> set bs"
      by (cases "?o s") (auto simp: get_stackables_blocks_def)
    from orphan_stamp[OF orphans bs] obtain s1 where s1: "dal_blockstamp c = Some s1"
      "bs_id s1 = Suc (bs_id s)" "b_previous_hash (db_block c) = bs_hash s" by blast
    have o2: "fd_orphans forks2 = ?o" "forks_ok forks2" "s \<in> in_tree (fd_tree forks2)"
      using inv tree by (auto simp: adopted_def forks1_def)
    have "bs_id s < n" using less.prems(1) bs by blast
    then have "\<exists>forks3. write_fork_block p c forks2 = Some (True, forks3) \<and>
        adopted forks2 forks3 {s'. waits_for (fd_orphans forks2) s1 s'}"
      using less.prems(1) o2 s1 by (intro less.hyps) auto
    then obtain forks3 where "write_fork_block p c forks2 = Some (True, forks3)"
      "adopted forks2 forks3 {s'. waits_for ?o s1 s'}" using o2(1) by auto
    moreover have "?news (insert c A) = ?news A \<union> {s'. waits_for ?o s1 s'}" using s1(1) by auto
    ultimately show "\<exists>forks3. ?step c forks2 = Some forks3 \<and> adopted forks1 forks3 (?news (insert c A))"
      using inv by (auto simp: adopted_def)
  qed
  then obtain forks' where run: "fold_run ?step ?bs forks1 = Some forks'"
    and inv: "adopted forks1 forks' (?news (set ?bs))" by auto
  have "write_fork_block p b forks = Some (True, forks')"
    using adopt run by (subst write_fork_block.simps) (simp add: forks1_def)
  moreover have "{s'. waits_for ?o s s'} = insert s (?news (set ?bs))"
    unfolding waits_for_iff[of ?o s] by (cases "?o s") (auto simp: get_stackables_blocks_def)
  ultimately show ?case using inv tree by (auto simp: adopted_def forks1_def)
qed

text \<open>A head block: what leaves the window leaves the stored blocks too.\<close>

lemma remove_blocks_apply: "remove_blocks removed m s = (if s \<in> set removed then None else m s)"
proof -
  have "fold (\<lambda>s m. m(s := None)) removed m s = (if s \<in> set removed then None else m s)"
    by (induction removed arbitrary: m) auto
  then show ?thesis by (simp add: remove_blocks_def)
qed

lemma kept_blocks_stored:
  assumes "distinct_blocks t1" "\<forall>i x. block_at t' i = Some x \<longrightarrow> block_at t1 i = Some x"
    and "\<forall>x\<in>set removed. \<exists>i. block_at t1 i = Some x \<and> block_at t' i = None"
  shows "in_tree t' \<inter> set removed = {} \<and> distinct_blocks t'"
proof -
  have "x \<notin> set removed" if "block_at t' i = Some x" for i x
  proof
    assume "x \<in> set removed"
    then obtain j where "block_at t1 j = Some x" "block_at t' j = None" using assms(3) by blast
    moreover have "block_at t1 i = Some x" using assms(2) that by blast
    ultimately show False using assms(1) that unfolding distinct_blocks_at by (metis option.distinct(1))
  qed
  then show ?thesis using assms(1,2) unfolding distinct_blocks_at by (auto simp: in_tree_def)
qed

lemma write_head_block_ok:
  assumes ok: "forks_ok forks" and d: "distinct_blocks (fd_tree forks)"
    and s: "dal_blockstamp b = Some s" "extends_main (fd_tree forks) s" "s \<notin> in_tree (fd_tree forks)"
  shows "\<exists>forks' i. write_head_block b (db, forks) = Some (db(bs_id s \<mapsto> b), forks') \<and>
    forks_ok forks' \<and> distinct_blocks (fd_tree forks') \<and> fd_orphans forks' = fd_orphans forks \<and>
    ft_main (fd_tree forks') (bs_id s) = Some i \<and> block_at (fd_tree forks') i = Some s \<and>
    fd_blocks forks' s = Some b \<and> in_tree (fd_tree forks') \<subseteq> insert s (in_tree (fd_tree forks))"
proof -
  let ?t = "fd_tree forks"
  have t: "tree_wf ?t" using ok by (simp add: forks_ok_def)
  from insert_new_head_wf[OF t s(2)] obtain removed t' i where
    run: "insert_new_head_block s ?t = Some (removed, t')" and t': "tree_wf t'"
    and head: "ft_main t' (bs_id s) = Some i" "block_at t' i = Some s"
    by (auto simp: block_at_def)
  from run obtain parent where node: "insert_new_node s parent True ?t = Some t'" and removed: "removed = ft_removed t'"
    by (auto simp: insert_new_head_block_def split: bind_splits)
  from insert_new_node_blocks[OF node] obtain t1 where
    t1: "\<And>k. block_at t1 k = (if k = length (ft_nodes ?t) then Some s else block_at ?t k)"
    and sub: "\<forall>k x. block_at t' k = Some x \<longrightarrow> block_at t1 k = Some x"
    and gone: "\<forall>x\<in>set removed. \<exists>k. block_at t1 k = Some x \<and> block_at t' k = None"
    unfolding removed by blast
  have "block_at ?t k \<noteq> Some s" for k using s(3) by (auto simp: in_tree_def)
  then have "distinct_blocks t1" using d by (auto simp: distinct_blocks_at t1)
  from kept_blocks_stored[OF this sub gone] have kept: "in_tree t' \<inter> set removed = {}" "distinct_blocks t'" by auto
  have "s \<in> in_tree t'" using head by (auto simp: in_tree_def)
  then have s_kept: "s \<notin> set removed" using kept by blast
  define forks' where "forks' = forks\<lparr>fd_tree := t', fd_blocks := remove_blocks removed ((fd_blocks forks)(s \<mapsto> b))\<rparr>"
  have in_sub: "in_tree t' \<subseteq> insert s (in_tree ?t)"
  proof
    fix x assume "x \<in> in_tree t'"
    then obtain k where "block_at t1 k = Some x" using sub by (auto simp: in_tree_def)
    then show "x \<in> insert s (in_tree ?t)" by (auto simp: t1 in_tree_def split: if_splits)
  qed
  have "stored forks' x" if x: "x \<in> in_tree t'" for x
  proof -
    have "x = s \<or> x \<in> in_tree ?t" using in_sub x by blast
    moreover have "x \<notin> set removed" using x kept by blast
    ultimately show ?thesis
      using ok s(1) by (auto simp: forks_ok_def stored_def forks'_def remove_blocks_apply)
  qed
  then have "forks_ok forks'" using ok t' by (auto simp: forks_ok_def forks'_def)
  moreover have "write_head_block b (db, forks) = Some (db(bs_id s \<mapsto> b), forks')"
    using run s(1) s(1)[unfolded dal_blockstamp_iff] by (simp add: write_head_block_def forks'_def Let_def)
  moreover have "fd_blocks forks' s = Some b" using s_kept by (simp add: forks'_def remove_blocks_apply)
  ultimately show ?thesis using head kept in_sub by (auto simp: forks'_def)
qed

subsection \<open>Properties\<close>

definition mock_block :: "nat \<Rightarrow> nat dal_block" where
  "mock_block n = \<lparr>db_block = example_block\<lparr>b_number := n, b_hash := Some (Hash [n]),
     b_previous_hash := Hash [n - 1]\<rparr>, db_expire_certs = None\<rparr>"

text \<open>Databases where the second block waits for the first one, and the third for the second.\<close>

definition waiting_forks :: "nat forks_dbs" where
  "waiting_forks = \<lparr>fd_tree = tree_default, fd_blocks = Map.empty,
     fd_orphans = [Blockstamp 1 (Hash [1]) \<mapsto> [mock_block 2], Blockstamp 2 (Hash [2]) \<mapsto> [mock_block 3]]\<rparr>"

lemma mock_stamp [simp]: "dal_blockstamp (mock_block n) = Some (Blockstamp n (Hash [n]))"
  by (simp add: dal_blockstamp_iff mock_block_def)

lemma in_tree_default [simp]: "in_tree tree_default = {}" "distinct_blocks tree_default"
  by (auto simp: in_tree_def distinct_blocks_at block_at_def get_ref_node_def vec_get_def tree_default_def)

lemma waiting_forks_ok: "forks_ok waiting_forks"
  using fork_reach_wf[OF fork_reach.start]
  by (auto simp: forks_ok_def waiting_forks_def orphans_ok_def mock_block_def split: if_splits)

lemma waiting_forks_written:
  "\<exists>forks. write_head_block (mock_block 0) (Map.empty, waiting_forks) = Some ([0 \<mapsto> mock_block 0], forks) \<and>
     forks_ok forks \<and> fd_orphans forks = fd_orphans waiting_forks \<and>
     in_tree (fd_tree forks) = {Blockstamp 0 (Hash [0])}"
proof -
  have "extends_main (fd_tree waiting_forks) (Blockstamp 0 (Hash [0]))"
    by (simp add: extends_main_def waiting_forks_def tree_default_def)
  moreover have "in_tree (fd_tree waiting_forks) = {}" "distinct_blocks (fd_tree waiting_forks)"
    by (simp_all add: waiting_forks_def)
  ultimately show ?thesis
    using write_head_block_ok[OF waiting_forks_ok _ mock_stamp, of 0 Map.empty]
    by (fastforce simp: in_tree_def)
qed

text \<open>A block added to the orphans that wait for its parent: it is known, and the databases stay consistent.\<close>

lemma orphan_waits:
  assumes "forks_ok forks" "dal_blockstamp b = Some s" "0 < bs_id s"
  shows "forks_ok (forks\<lparr>fd_orphans := (fd_orphans forks)(Blockstamp (bs_id s - 1) (b_previous_hash (db_block b)) \<mapsto>
      get_stackables_blocks forks (Blockstamp (bs_id s - 1) (b_previous_hash (db_block b))) @ [b])\<rparr>) \<and>
    already_have_block p db (forks\<lparr>fd_orphans := (fd_orphans forks)(Blockstamp (bs_id s - 1) (b_previous_hash (db_block b)) \<mapsto>
      get_stackables_blocks forks (Blockstamp (bs_id s - 1) (b_previous_hash (db_block b))) @ [b])\<rparr>) s
      (b_previous_hash (db_block b)) = Some True"
proof -
  let ?prev = "Blockstamp (bs_id s - 1) (b_previous_hash (db_block b))"
  let ?bs = "get_stackables_blocks forks ?prev @ [b]"
  let ?forks = "forks\<lparr>fd_orphans := (fd_orphans forks)(?prev \<mapsto> ?bs)\<rparr>"
  have orphans: "orphans_ok (fd_orphans forks)" using assms(1) by (simp add: forks_ok_def)
  have waiting: "\<forall>c\<in>set (get_stackables_blocks forks ?prev). b_number (db_block c) = Suc (bs_id ?prev) \<and>
      b_previous_hash (db_block c) = bs_hash ?prev \<and> b_hash (db_block c) \<noteq> None"
  proof (cases "fd_orphans forks ?prev")
    case (Some bs)
    then show ?thesis using orphans unfolding orphans_ok_def get_stackables_blocks_def by (metis option.simps(5))
  qed (simp add: get_stackables_blocks_def)
  have orphans': "orphans_ok ((fd_orphans forks)(?prev \<mapsto> ?bs))"
    unfolding orphans_ok_def
  proof (intro conjI allI impI)
    show "finite (dom ((fd_orphans forks)(?prev \<mapsto> ?bs)))" using orphans by (simp add: orphans_ok_def)
  next
    fix x bs c assume c: "((fd_orphans forks)(?prev \<mapsto> ?bs)) x = Some bs" "c \<in> set bs"
    have "b_number (db_block c) = Suc (bs_id x) \<and> b_previous_hash (db_block c) = bs_hash x \<and>
        b_hash (db_block c) \<noteq> None"
    proof (cases "x = ?prev")
      case True
      then have "c = b \<or> c \<in> set (get_stackables_blocks forks ?prev)" using c by auto
      then show ?thesis using waiting assms(2,3) True by (auto simp: dal_blockstamp_iff)
    next
      case False
      then show ?thesis using orphans c unfolding orphans_ok_def by simp
    qed
    then show "b_number (db_block c) = Suc (bs_id x)" "b_previous_hash (db_block c) = bs_hash x"
      "b_hash (db_block c) \<noteq> None" by auto
  qed
  then have "forks_ok ?forks" using assms(1) by (auto simp: forks_ok_def stored_def)
  moreover have "already_have_block p db ?forks s (b_previous_hash (db_block b)) = Some True"
  proof (cases "fd_blocks forks s")
    case None
    have "\<exists>x. dal_blockstamp c = Some x" if "c \<in> set ?bs" for c
      using orphan_stamp[OF orphans' _ that, of ?prev] by auto
    then have "map_run dal_blockstamp ?bs = Some (map (the \<circ> dal_blockstamp) ?bs)"
      by (intro map_run_total) fastforce
    then show ?thesis using None assms(2,3) by (simp add: already_have_block_def map_run_append split: bind_splits)
  qed (use assms(3) in \<open>simp add: already_have_block_def\<close>)
  ultimately show ?thesis by simp
qed



text \<open>
  Writing the next head block returns. The block becomes the block of the blockchain and of
  the main branch at its number, and every block that is still in the fork tree is still stored:
  the blocks removed with the old root are never those of another branch.
\<close>

theorem head_block_written:
  assumes "forks_ok forks" "distinct_blocks (fd_tree forks)"
    and "dal_blockstamp b = Some s" "extends_main (fd_tree forks) s" "s \<notin> in_tree (fd_tree forks)"
  shows "\<exists>forks' i. blocks_apply p (WriteBlock b) None (db, forks) = Some (db(bs_id s \<mapsto> b), forks') \<and>
    forks_ok forks' \<and> distinct_blocks (fd_tree forks') \<and>
    ft_main (fd_tree forks') (bs_id s) = Some i \<and> block_at (fd_tree forks') i = Some s \<and>
    fd_blocks forks' s = Some b"
proof -
  have "blocks_apply p (WriteBlock b) None (db, forks) = write_head_block b (db, forks)" by simp
  then show ?thesis using write_head_block_ok[OF assms, of db] by metis
qed

theorem head_block_written_witness:
  "\<exists>forks. blocks_apply Debug (WriteBlock (mock_block 0)) None (Map.empty, waiting_forks) =
      Some ([0 \<mapsto> mock_block 0], forks) \<and> forks_ok forks"
proof -
  have "extends_main (fd_tree waiting_forks) (Blockstamp 0 (Hash [0]))"
    by (simp add: extends_main_def waiting_forks_def tree_default_def)
  moreover have "in_tree (fd_tree waiting_forks) = {}" "distinct_blocks (fd_tree waiting_forks)"
    by (simp_all add: waiting_forks_def)
  ultimately show ?thesis
    using head_block_written[OF waiting_forks_ok _ mock_stamp, of 0 Debug Map.empty] by fastforce
qed

text \<open>A blockchain whose blocks are numbered from 0 to below \<open>n\<close>.\<close>

definition chain_of :: "nat \<Rightarrow> (nat \<Rightarrow> 'f dal_block) \<Rightarrow> 'f local_blockchain" where
  "chain_of n bs = (\<lambda>k. if k < n then Some (bs k) else None)"

lemma blocks_from_chain:
  assumes "n < 2 ^ 32" "first \<le> n"
  shows "blocks_from p (chain_of n bs) first = Some (map (\<lambda>k. db_block (bs k)) [first..<n])"
  using assms(2)
proof (induction rule: inc_induct)
  case base
  show ?case by (subst blocks_from.simps) (simp add: chain_of_def)
next
  case (step k)
  have "u32_add p k 1 = Some (Suc k)" using step.hyps assms(1) by simp
  then show ?case
    using step by (subst blocks_from.simps) (simp add: chain_of_def upt_conv_Cons)
qed

text \<open>
  On a blockchain numbered from 0, the current blockstamp is the one of the last block, and
  asking for a number of blocks gives all the blocks from the first one asked to the last,
  whatever the number.
\<close>

theorem blocks_asked:
  assumes "0 < n" "n < 2 ^ 32" "dal_blockstamp (bs (n - 1)) = Some s"
  shows "get_current_blockstamp (chain_of n bs) = Some (Some s) \<and>
    get_blocks_in_local_blockchain p (chain_of n bs) first count =
      Some (map (\<lambda>k. db_block (bs k)) [first..<n])"
proof -
  have "dom (chain_of n bs) = {..<n}" by (auto simp: chain_of_def split: if_splits)
  then have "as_u32 (card (dom (chain_of n bs))) = n" using assms(2) by simp
  then have "get_current_blockstamp (chain_of n bs) = Some (Some s)"
    using assms(1,3) by (simp add: get_current_blockstamp_def chain_of_def)
  moreover have "blocks_from p (chain_of n bs) first = Some (map (\<lambda>k. db_block (bs k)) [first..<n])"
  proof (cases "first \<le> n")
    case False
    then show ?thesis by (subst blocks_from.simps) (simp add: chain_of_def)
  qed (rule blocks_from_chain[OF assms(2)])
  ultimately show ?thesis by (simp add: get_blocks_in_local_blockchain_def)
qed

theorem blocks_asked_witness:
  "get_blocks_in_local_blockchain Release (chain_of 3 mock_block) 1 1 =
     Some [db_block (mock_block 1), db_block (mock_block 2)]"
proof -
  from blocks_asked[of 3 mock_block "Blockstamp 2 (Hash [2])" Release 1 1] mock_stamp[of 2] have
    "get_blocks_in_local_blockchain Release (chain_of 3 mock_block) 1 1 =
      Some (map (\<lambda>k. db_block (mock_block k)) [1..<3])" by simp
  moreover have "[1..<3] = [1, 2::nat]" by (simp add: upt_rec)
  ultimately show ?thesis by simp
qed

definition bump :: "nat option \<Rightarrow> nat \<Rightarrow> nat option" where
  "bump x n = (if n = 0 then x else Some ((case x of Some m \<Rightarrow> m | None \<Rightarrow> 0) + n))"

lemma count_issuers:
  assumes "\<And>n. n \<in> set ns \<Longrightarrow> \<exists>b rest. db n = Some b \<and> b_issuers (db_block b) = issuer n # rest"
  shows "fold_run (count_issuer db) ns frame = Some (\<lambda>k. bump (frame k) (count_list (map issuer ns) k))"
  using assms
proof (induction ns arbitrary: frame)
  case Nil
  show ?case by (simp add: bump_def)
next
  case (Cons n ns)
  let ?frame = "frame(issuer n \<mapsto> (case frame (issuer n) of Some k \<Rightarrow> k + 1 | None \<Rightarrow> 1))"
  have "count_issuer db n frame = Some ?frame"
    using Cons.prems[of n] by (auto simp: count_issuer_def vec_get_def)
  moreover have "(\<lambda>k. bump (?frame k) (count_list (map issuer ns) k)) =
      (\<lambda>k. bump (frame k) (count_list (map issuer (n # ns)) k))"
    by (rule ext) (auto simp: bump_def split: option.splits)
  moreover have "fold_run (count_issuer db) ns ?frame = Some (\<lambda>k. bump (?frame k) (count_list (map issuer ns) k))"
    by (rule Cons.IH) (use Cons.prems in auto)
  ultimately show ?case by simp
qed

text \<open>
  The current frame gives to each issuer of the frame the number of blocks it issued there,
  and to nobody else an entry.
\<close>

theorem current_frame_counts:
  assumes "b_number (db_block current) = first + frame" "b_issuers_frame (db_block current) = int frame"
    and "frame < 2 ^ 32"
    and "\<And>n. first \<le> n \<Longrightarrow> n < first + frame \<Longrightarrow>
      \<exists>b rest. db n = Some b \<and> b_issuers (db_block b) = issuer n # rest"
  shows "\<exists>counts. get_current_frame p current db = Some counts \<and>
    (\<forall>k. counts k = (if k \<in> issuer ` {first..<first + frame}
      then Some (card {n \<in> {first..<first + frame}. issuer n = k}) else None))"
proof -
  let ?ns = "[first..<first + frame]"
  have len: "count_list (map issuer ?ns) k = card {n \<in> {first..<first + frame}. issuer n = k}" for k
  proof -
    have "count_list (map issuer ?ns) k = length (filter (\<lambda>n. k = issuer n) ?ns)"
      by (simp add: count_list_eq_length_filter comp_def)
    also have "\<dots> = card (set (filter (\<lambda>n. k = issuer n) ?ns))" by (rule distinct_card[symmetric]) simp
    also have "set (filter (\<lambda>n. k = issuer n) ?ns) = {n \<in> {first..<first + frame}. issuer n = k}" by auto
    finally show ?thesis .
  qed
  have none: "card {n \<in> {first..<first + frame}. issuer n = k} = 0 \<longleftrightarrow> k \<notin> issuer ` {first..<first + frame}" for k
    by auto
  have "get_current_frame p current db = fold_run (count_issuer db) ?ns Map.empty"
    using assms(1-3) by (simp add: get_current_frame_def Let_def)
  also have "\<dots> = Some (\<lambda>k. bump None (count_list (map issuer ?ns) k))"
    by (rule count_issuers) (use assms(4) in simp)
  finally show ?thesis by (intro exI conjI allI, assumption) (simp only: bump_def len none, simp)
qed

theorem current_frame_counts_witness:
  "\<exists>counts. get_current_frame Debug ((mock_block 4)\<lparr>db_block := (db_block (mock_block 4))\<lparr>b_issuers_frame := 3\<rparr>\<rparr>)
     (chain_of 5 mock_block) = Some counts \<and> counts (PubEd25519 [5]) = Some 3"
proof -
  have "\<exists>counts. get_current_frame Debug ((mock_block 4)\<lparr>db_block := (db_block (mock_block 4))\<lparr>b_issuers_frame := 3\<rparr>\<rparr>)
      (chain_of 5 mock_block) = Some counts \<and>
    (\<forall>k. counts k = (if k \<in> (\<lambda>n. PubEd25519 [5]) ` {1..<1 + 3::nat}
      then Some (card {n \<in> {1..<1 + 3::nat}. PubEd25519 [5] = k}) else None))"
    by (rule current_frame_counts) (simp_all add: mock_block_def chain_of_def example_block_def)
  then obtain counts where counts: "get_current_frame Debug
      ((mock_block 4)\<lparr>db_block := (db_block (mock_block 4))\<lparr>b_issuers_frame := 3\<rparr>\<rparr>) (chain_of 5 mock_block) = Some counts"
    and all: "\<forall>k. counts k = (if k \<in> (\<lambda>n. PubEd25519 [5]) ` {1..<1 + 3::nat}
      then Some (card {n \<in> {1..<1 + 3::nat}. PubEd25519 [5] = k}) else None)" by blast
  have "{n \<in> {1..<1 + 3::nat}. PubEd25519 [5] = PubEd25519 [5]} = {1, 2, 3}" by auto
  then have "card {n \<in> {1..<1 + 3::nat}. PubEd25519 [5] = PubEd25519 [5]} = 3" by simp
  moreover have "PubEd25519 [5] \<in> (\<lambda>n. PubEd25519 [5]) ` {1..<1 + 3::nat}" by (rule image_eqI[of _ _ 1]) simp_all
  ultimately have "counts (PubEd25519 [5]) = Some 3" using all[rule_format, of "PubEd25519 [5]"] by (simp only: if_True)
  then show ?thesis using counts by (intro exI conjI)
qed

end
