(* ===== verification/Dal_Sources.thy ===== *)
theory Dal_Sources
  imports Dal_Identities
begin

text \<open>
  The currency databases: \<open>lib/modules/blockchain/blockchain-dal/src\<close>, the entities \<open>sources.rs\<close>,
  the writers \<open>dividend.rs\<close> and \<open>transaction.rs\<close>, the queries \<open>CurrencyDBsWriteQuery\<close> of
  \<open>writers/requests.rs\<close> and the reader \<open>balance.rs\<close>.

  The loops over hash maps of sources and of addresses take the order of their keys as arguments.
\<close>

subsection \<open>Amounts\<close>

datatype source_amount = SourceAmount (sa_amount: int) (sa_base: nat)

definition source_amount_default :: source_amount where
  "source_amount_default = SourceAmount 0 0"

text \<open>The order of \<open>Ord\<close>, by base first, and the derived \<open>PartialOrd\<close> behind the operator \<open>>=\<close>.\<close>

definition source_cmp_le :: "source_amount \<Rightarrow> source_amount \<Rightarrow> bool" where
  "source_cmp_le s1 s2 \<longleftrightarrow>
     (if sa_base s1 = sa_base s2 then sa_amount s1 \<le> sa_amount s2 else sa_base s1 \<le> sa_base s2)"

definition source_ge :: "source_amount \<Rightarrow> source_amount \<Rightarrow> bool" where
  "source_ge s1 s2 \<longleftrightarrow>
     sa_amount s1 > sa_amount s2 \<or> sa_amount s1 = sa_amount s2 \<and> sa_base s1 \<ge> sa_base s2"

text \<open>The loop that divides the amount of the smaller base; \<open>/\<close> on \<open>isize\<close> rounds towards zero.\<close>

fun scale_down :: "nat \<Rightarrow> int \<Rightarrow> int" where
  "scale_down 0 a = a"
| "scale_down (Suc n) a = scale_down n (sgn a * (\<bar>a\<bar> div 10))"

definition min_max_base :: "source_amount \<Rightarrow> source_amount \<Rightarrow> source_amount \<times> source_amount" where
  "min_max_base s1 s2 = (if sa_base s1 > sa_base s2 then (s2, s1) else (s1, s2))"

definition source_add :: "profile \<Rightarrow> source_amount \<Rightarrow> source_amount \<Rightarrow> source_amount run" where
  "source_add p s1 s2 = do {
     let (s_min, s_max) = min_max_base s1 s2;
     let a = scale_down (sa_base s_max - sa_base s_min) (sa_amount s_min);
     r \<leftarrow> isize p (a + sa_amount s_max);
     Some (SourceAmount r (sa_base s_max))
   }"

definition source_sub :: "profile \<Rightarrow> source_amount \<Rightarrow> source_amount \<Rightarrow> source_amount run" where
  "source_sub p s1 s2 = do {
     let (s_min, s_max) = min_max_base s1 s2;
     let a = scale_down (sa_base s_max - sa_base s_min) (sa_amount s_min);
     r \<leftarrow> isize p (a - sa_amount s_max);
     Some (SourceAmount r (sa_base s_max))
   }"

subsection \<open>Sources\<close>

type_synonym utxo_index = "hash \<times> nat"

datatype utxo = UtxoV10 utxo_index transaction_output | UtxoV11

definition output_conditions :: "transaction_output \<Rightarrow> utxo_group" where
  "output_conditions out = conditions (o_conditions out)"

definition output_amount :: "transaction_output \<Rightarrow> source_amount" where
  "output_amount out = SourceAmount (o_amount out) (o_base out)"

fun utxo_conditions_of :: "utxo \<Rightarrow> utxo_group run" where
  "utxo_conditions_of (UtxoV10 i out) = Some (output_conditions out)"
| "utxo_conditions_of UtxoV11 = None"

fun utxo_amount_of :: "utxo \<Rightarrow> source_amount run" where
  "utxo_amount_of (UtxoV10 i out) = Some (output_amount out)"
| "utxo_amount_of UtxoV11 = None"

datatype source_index = SrcUtxo utxo_index | SrcUD pub_key nat

record dal_tx =
  dt_tx_doc :: transaction_document
  dt_sources_destroyed :: "utxo_index set"

type_synonym balances = "utxo_group \<rightharpoonup> source_amount \<times> utxo_index set"

record currency_dbs =
  cd_du :: "pub_key \<rightharpoonup> nat set"
  cd_tx :: "hash \<rightharpoonup> dal_tx"
  cd_utxos :: "utxo_index \<rightharpoonup> transaction_output"
  cd_balances :: balances

definition get_address_balance :: "currency_dbs \<Rightarrow> utxo_group \<Rightarrow> source_amount option" where
  "get_address_balance dbs address = map_option fst (cd_balances dbs address)"

abbreviation key_address :: "pub_key \<Rightarrow> utxo_group" where
  "key_address k \<equiv> Single (CondSig k)"

definition balance_or_default :: "balances \<Rightarrow> utxo_group \<Rightarrow> source_amount \<times> utxo_index set" where
  "balance_or_default m a = (case m a of Some b \<Rightarrow> b | None \<Rightarrow> (source_amount_default, {}))"

subsection \<open>Dividends\<close>

definition create_du ::
  "profile \<Rightarrow> source_amount \<Rightarrow> nat \<Rightarrow> pub_key list \<Rightarrow> bool \<Rightarrow> currency_dbs \<Rightarrow> currency_dbs run" where
  "create_du p du_amount du_block_id members revert dbs = do {
     let du = fold (\<lambda>k m. m(k \<mapsto> (if revert then get_or_empty m k - {du_block_id}
         else insert du_block_id (get_or_empty m k)))) members (cd_du dbs);
     news \<leftarrow> map_run (\<lambda>k. do {
         let (balance, indexes) = balance_or_default (cd_balances dbs) (key_address k);
         new_balance \<leftarrow> (if revert then source_sub p balance du_amount else source_add p balance du_amount);
         Some (key_address k, (new_balance, indexes))
       }) members;
     Some (dbs\<lparr>cd_du := du, cd_balances := cd_balances dbs ++ map_of news\<rparr>)
   }"

subsection \<open>Transactions\<close>

text \<open>The inputs of a transaction as a map from sources to amounts; a repeated source counts once.\<close>

definition input_sources :: "transaction_input list \<Rightarrow> (source_index \<rightharpoonup> source_amount)" where
  "input_sources inputs =
     fold (\<lambda>i m. case i of
         InputD amount base k n \<Rightarrow> m(SrcUD k n \<mapsto> SourceAmount amount base)
       | InputT amount base h n \<Rightarrow> m(SrcUtxo (h, n) \<mapsto> SourceAmount amount base)) inputs Map.empty"

text \<open>One source added to the addresses it belongs to: an unknown output panics.\<close>

definition add_source ::
  "profile \<Rightarrow> currency_dbs \<Rightarrow> (source_index \<rightharpoonup> source_amount) \<Rightarrow> source_index \<Rightarrow> balances \<Rightarrow> balances run" where
  "add_source p dbs srcs s m = do {
     amount \<leftarrow> srcs s;
     (case s of
        SrcUtxo u \<Rightarrow> do {
          out \<leftarrow> cd_utxos dbs u;
          let (balance, indexes) = balance_or_default m (output_conditions out);
          balance \<leftarrow> source_add p balance amount;
          Some (m(output_conditions out \<mapsto> (balance, insert u indexes)))
        }
      | SrcUD k n \<Rightarrow> do {
          let (balance, indexes) = balance_or_default m (key_address k);
          balance \<leftarrow> source_add p balance amount;
          Some (m(key_address k \<mapsto> (balance, indexes)))
        })
   }"

definition source_addresses ::
  "profile \<Rightarrow> (source_index set \<Rightarrow> source_index list) \<Rightarrow> currency_dbs \<Rightarrow>
   (source_index \<rightharpoonup> source_amount) \<Rightarrow> balances run" where
  "source_addresses p its dbs srcs = fold_run (add_source p dbs srcs) (its (dom srcs)) Map.empty"

text \<open>
  The new balance of one consumed address, with the sources destroyed so far: what is left of a
  balance below 100 is destroyed.
\<close>

definition consume_address ::
  "profile \<Rightarrow> balances \<Rightarrow> balances \<Rightarrow> utxo_group \<Rightarrow> balances \<times> utxo_index set \<Rightarrow>
   (balances \<times> utxo_index set) run" where
  "consume_address p db addresses a = (\<lambda>(news, destroyed). do {
     (amount_consumed, consumed) \<leftarrow> addresses a;
     (balance, indexes) \<leftarrow> db a;
     new_balance \<leftarrow> source_sub p balance amount_consumed;
     let (new_balance, destroyed) = (if sa_amount new_balance < 100
       then (SourceAmount 0 (sa_base new_balance), indexes \<union> destroyed)
       else (new_balance, destroyed));
     Some (news(a \<mapsto> (new_balance, indexes - consumed)), destroyed)
   })"

definition remove_source :: "source_index \<Rightarrow> currency_dbs \<Rightarrow> currency_dbs" where
  "remove_source s dbs =
     (case s of
        SrcUtxo u \<Rightarrow> dbs\<lparr>cd_utxos := (cd_utxos dbs)(u := None)\<rparr>
      | SrcUD k n \<Rightarrow> dbs\<lparr>cd_du := (cd_du dbs)(k \<mapsto> get_or_empty (cd_du dbs) k - {n})\<rparr>)"

definition consume_sources ::
  "profile \<Rightarrow> (source_index set \<Rightarrow> source_index list) \<Rightarrow> (utxo_group set \<Rightarrow> utxo_group list) \<Rightarrow>
   transaction_input list \<Rightarrow> currency_dbs \<Rightarrow> (utxo_index set \<times> currency_dbs) run" where
  "consume_sources p its ita inputs dbs = do {
     let srcs = input_sources inputs;
     addresses \<leftarrow> source_addresses p its dbs srcs;
     (news, destroyed) \<leftarrow>
       fold_run (consume_address p (cd_balances dbs) addresses) (ita (dom addresses)) (Map.empty, {});
     let dbs = dbs\<lparr>cd_balances := cd_balances dbs ++ news\<rparr>;
     Some (destroyed, fold remove_source (its (dom srcs)) dbs)
   }"

text \<open>The outputs of a transaction with their indexes.\<close>

definition indexed_outputs :: "hash \<Rightarrow> transaction_document \<Rightarrow> (utxo_index \<times> transaction_output) list" where
  "indexed_outputs h tx = map (\<lambda>(n, out). ((h, n), out)) (List.enumerate 0 (t_outputs tx))"

definition supply_address ::
  "profile \<Rightarrow> balances \<Rightarrow> utxo_index \<times> transaction_output \<Rightarrow> balances \<Rightarrow> balances run" where
  "supply_address p db = (\<lambda>(u, out) news. do {
     let a = output_conditions out;
     let (balance, indexes) =
       (case news a of
          Some (balance, indexes) \<Rightarrow> (balance, insert u indexes)
        | None \<Rightarrow>
            (case db a of
               Some (balance, indexes) \<Rightarrow> (balance, insert u indexes)
             | None \<Rightarrow> (source_amount_default, {u})));
     balance \<leftarrow> source_add p balance (output_amount out);
     Some (news(a \<mapsto> (balance, indexes)))
   })"

definition create_sources ::
  "profile \<Rightarrow> (utxo_index \<times> transaction_output) list \<Rightarrow> currency_dbs \<Rightarrow> currency_dbs run" where
  "create_sources p outs dbs = do {
     news \<leftarrow> fold_run (supply_address p (cd_balances dbs)) outs Map.empty;
     Some (dbs\<lparr>cd_utxos := fold (\<lambda>(u, out) m. m(u \<mapsto> out)) outs (cd_utxos dbs),
       cd_balances := cd_balances dbs ++ news\<rparr>)
   }"

definition apply_and_write_tx ::
  "crypto \<Rightarrow> profile \<Rightarrow> (source_index set \<Rightarrow> source_index list) \<Rightarrow> (utxo_group set \<Rightarrow> utxo_group list) \<Rightarrow>
   transaction_document \<Rightarrow> currency_dbs \<Rightarrow> currency_dbs run" where
  "apply_and_write_tx c p its ita tx_doc dbs = do {
     (tx_hash, tx_doc) \<leftarrow> tx_get_hash c tx_doc;
     (destroyed, dbs) \<leftarrow> consume_sources p its ita (t_inputs tx_doc) dbs;
     dbs \<leftarrow> create_sources p (indexed_outputs tx_hash tx_doc) dbs;
     tx_doc \<leftarrow> tx_reduce c tx_doc;
     Some (dbs\<lparr>cd_tx := (cd_tx dbs)(tx_hash \<mapsto>
       \<lparr>dt_tx_doc = tx_doc, dt_sources_destroyed = destroyed\<rparr>)\<rparr>)
   }"

subsection \<open>Transactions backwards\<close>

definition withdraw_address ::
  "profile \<Rightarrow> balances \<Rightarrow> utxo_index \<times> transaction_output \<Rightarrow> balances \<Rightarrow> balances run" where
  "withdraw_address p db = (\<lambda>(u, out) news. do {
     let a = output_conditions out;
     (balance, indexes) \<leftarrow> (case news a of Some e \<Rightarrow> Some e | None \<Rightarrow> db a);
     new_balance \<leftarrow> (if source_ge balance (output_amount out)
       then source_sub p balance (output_amount out) else None);
     Some (news(a \<mapsto> (new_balance, indexes - {u})))
   })"

definition withdraw_outputs ::
  "profile \<Rightarrow> (utxo_index \<times> transaction_output) list \<Rightarrow> currency_dbs \<Rightarrow> currency_dbs run" where
  "withdraw_outputs p outs dbs = do {
     news \<leftarrow> fold_run (withdraw_address p (cd_balances dbs)) outs Map.empty;
     Some (dbs\<lparr>cd_utxos := fold (\<lambda>(u, out) m. m(u := None)) outs (cd_utxos dbs),
       cd_balances := cd_balances dbs ++ news\<rparr>)
   }"

text \<open>The output an index stands for, from the transaction that made it.\<close>

definition source_output :: "currency_dbs \<Rightarrow> utxo_index \<Rightarrow> transaction_output run" where
  "source_output dbs = (\<lambda>(h, n). do {
     tx \<leftarrow> cd_tx dbs h;
     vec_get (t_outputs (dt_tx_doc tx)) n
   })"

definition destroyed_by_address ::
  "(utxo_index set \<Rightarrow> utxo_index list) \<Rightarrow> currency_dbs \<Rightarrow> utxo_index set \<Rightarrow>
   (utxo_group \<rightharpoonup> (utxo_index \<times> source_amount) list) run" where
  "destroyed_by_address itu dbs destroyed =
     fold_run (\<lambda>u m. do {
       out \<leftarrow> source_output dbs u;
       let same = (case m (output_conditions out) of Some l \<Rightarrow> l | None \<Rightarrow> []);
       Some (m(output_conditions out \<mapsto> same @ [(u, output_amount out)]))
     }) (itu destroyed) Map.empty"

definition restore_address ::
  "profile \<Rightarrow> balances \<Rightarrow> (utxo_group \<rightharpoonup> (utxo_index \<times> source_amount) list) \<Rightarrow> balances \<Rightarrow> utxo_group \<Rightarrow>
   balances \<Rightarrow> balances run" where
  "restore_address p db destroyed addresses a news = do {
     (amount_recreated, recreated) \<leftarrow> addresses a;
     let (balance, indexes) = balance_or_default db a;
     balance \<leftarrow> source_add p balance amount_recreated;
     let indexes = indexes \<union> recreated;
     (balance, indexes) \<leftarrow> fold_run (\<lambda>(u, amount) (balance, indexes). do {
         balance \<leftarrow> source_add p balance amount;
         Some (balance, insert u indexes)
       }) (case destroyed a of Some l \<Rightarrow> l | None \<Rightarrow> []) (balance, indexes);
     Some (news(a \<mapsto> (balance, indexes)))
   }"

definition recreate_source :: "source_index \<Rightarrow> currency_dbs \<Rightarrow> currency_dbs run" where
  "recreate_source s dbs =
     (case s of
        SrcUtxo u \<Rightarrow> do {
          out \<leftarrow> source_output dbs u;
          Some (dbs\<lparr>cd_utxos := (cd_utxos dbs)(u \<mapsto> out)\<rparr>)
        }
      | SrcUD k n \<Rightarrow> Some (dbs\<lparr>cd_du := (cd_du dbs)(k \<mapsto> insert n (get_or_empty (cd_du dbs) k))\<rparr>))"

definition revert_tx ::
  "crypto \<Rightarrow> profile \<Rightarrow> (source_index set \<Rightarrow> source_index list) \<Rightarrow> (utxo_group set \<Rightarrow> utxo_group list) \<Rightarrow>
   (utxo_index set \<Rightarrow> utxo_index list) \<Rightarrow> dal_tx \<Rightarrow> currency_dbs \<Rightarrow> currency_dbs run" where
  "revert_tx c p its ita itu dal_tx dbs = do {
     (tx_hash, tx_doc) \<leftarrow> tx_get_hash c (dt_tx_doc dal_tx);
     dbs \<leftarrow> withdraw_outputs p (indexed_outputs tx_hash tx_doc) dbs;
     destroyed \<leftarrow> destroyed_by_address itu dbs (dt_sources_destroyed dal_tx);
     let srcs = input_sources (t_inputs tx_doc);
     addresses \<leftarrow> source_addresses p its dbs srcs;
     news \<leftarrow> fold_run (restore_address p (cd_balances dbs) destroyed addresses) (ita (dom addresses)) Map.empty;
     let dbs = dbs\<lparr>cd_balances := cd_balances dbs ++ news\<rparr>;
     fold_run recreate_source (its (dom srcs)) dbs
   }"

subsection \<open>Queries\<close>

datatype currency_query =
  WriteTx transaction_document
| RevertTx dal_tx
| CreateUD source_amount nat "pub_key list"
| RevertUD source_amount nat "pub_key list"

fun currency_apply ::
  "crypto \<Rightarrow> profile \<Rightarrow> (source_index set \<Rightarrow> source_index list) \<Rightarrow> (utxo_group set \<Rightarrow> utxo_group list) \<Rightarrow>
   (utxo_index set \<Rightarrow> utxo_index list) \<Rightarrow> currency_query \<Rightarrow> currency_dbs \<Rightarrow> currency_dbs run" where
  "currency_apply c p its ita itu (WriteTx tx_doc) dbs = apply_and_write_tx c p its ita tx_doc dbs"
| "currency_apply c p its ita itu (RevertTx dal_tx) dbs = revert_tx c p its ita itu dal_tx dbs"
| "currency_apply c p its ita itu (CreateUD amount block_id members) dbs =
     create_du p amount block_id members False dbs"
| "currency_apply c p its ita itu (RevertUD amount block_id members) dbs =
     create_du p amount block_id members True dbs"

subsection \<open>Address book\<close>

text \<open>
  The balances keep for every address the indexes of its outputs. They agree with the outputs when
  the indexes of an address are exactly those of the unspent outputs with its conditions.
\<close>

definition index_set :: "balances \<Rightarrow> utxo_group \<Rightarrow> utxo_index set" where
  "index_set m a = (case m a of Some (_, indexes) \<Rightarrow> indexes | None \<Rightarrow> {})"

definition owned :: "(utxo_index \<rightharpoonup> transaction_output) \<Rightarrow> utxo_group \<Rightarrow> utxo_index set" where
  "owned utxos a = {u. \<exists>out. utxos u = Some out \<and> output_conditions out = a}"

definition address_book :: "currency_dbs \<Rightarrow> bool" where
  "address_book dbs \<longleftrightarrow> (\<forall>a. index_set (cd_balances dbs) a = owned (cd_utxos dbs) a)"

lemma index_set_empty [simp]: "index_set Map.empty a = {}"
  by (simp add: index_set_def)

lemma index_set_update: "index_set (m(a \<mapsto> (b, s))) a' = (if a' = a then s else index_set m a')"
  by (simp add: index_set_def)

lemma index_set_default: "index_set m a = snd (balance_or_default m a)"
  by (auto simp: index_set_def balance_or_default_def split: option.splits)

lemma index_set_override:
  "index_set (m ++ n) a = (if a \<in> dom n then index_set n a else index_set m a)"
  by (auto simp: index_set_def map_add_def split: option.splits)

lemma source_addresses_indexes:
  assumes "source_addresses p its dbs srcs = Some m" "iterates its" "finite (dom srcs)"
  shows "(\<forall>a. index_set m a = {u \<in> owned (cd_utxos dbs) a. SrcUtxo u \<in> dom srcs}) \<and>
    (\<forall>u. SrcUtxo u \<in> dom srcs \<longrightarrow> cd_utxos dbs u \<noteq> None)"
proof -
  let ?I = "\<lambda>A m. (\<forall>a. index_set m a = {u \<in> owned (cd_utxos dbs) a. SrcUtxo u \<in> A}) \<and>
    (\<forall>u. SrcUtxo u \<in> A \<longrightarrow> cd_utxos dbs u \<noteq> None)"
  have "?I ({} \<union> set (its (dom srcs))) m"
  proof (rule fold_run_visits[OF assms(1)[unfolded source_addresses_def]])
    fix A s m m'
    assume I: "?I A m" and step: "add_source p dbs srcs s m = Some m'"
    show "?I (insert s A) m'"
    proof (cases s)
      case (SrcUtxo u)
      then obtain out b where out: "cd_utxos dbs u = Some out"
        and m': "m' = m(output_conditions out \<mapsto> (b, insert u (index_set m (output_conditions out))))"
        using step by (auto simp: add_source_def index_set_default Let_def split: bind_splits prod.splits)
      show ?thesis
        using I SrcUtxo out by (auto simp: m' index_set_update owned_def)
    next
      case (SrcUD k n)
      then obtain b where "m' = m(key_address k \<mapsto> (b, index_set m (key_address k)))"
        using step by (auto simp: add_source_def index_set_default Let_def split: bind_splits prod.splits)
      then show ?thesis using I SrcUD by (auto simp: index_set_update)
    qed
  qed simp
  then show ?thesis using iterates_set[OF assms(2,3)] by simp
qed

lemma consume_addresses_indexes:
  assumes "fold_run (consume_address p db addresses) xs (Map.empty, {}) = Some (news, destroyed)"
  shows "dom news = set xs \<and> (\<forall>a\<in>set xs. index_set news a = index_set db a - index_set addresses a)"
proof -
  let ?I = "\<lambda>A (news :: balances, destroyed :: utxo_index set). dom news = A \<and>
    (\<forall>a\<in>A. index_set news a = index_set db a - index_set addresses a)"
  have "?I ({} \<union> set xs) (news, destroyed)"
  proof (rule fold_run_visits[OF assms, where I = ?I])
    fix A a st st'
    assume I: "?I A st" and step: "consume_address p db addresses a st = Some st'"
    obtain news0 destroyed0 where st: "st = (news0, destroyed0)" by (cases st)
    obtain b destroyed1 where "st' = (news0(a \<mapsto> (b, index_set db a - index_set addresses a)), destroyed1)"
      using step by (auto simp: consume_address_def st index_set_def Let_def split: prod.splits bind_splits if_splits)
    then show "?I (insert a A) st'" using I by (auto simp: st index_set_update)
  qed simp
  then show ?thesis by simp
qed

lemma remove_sources_effect:
  "cd_balances (fold remove_source ss dbs) = cd_balances dbs \<and> cd_tx (fold remove_source ss dbs) = cd_tx dbs \<and>
   cd_utxos (fold remove_source ss dbs) = (\<lambda>u. if SrcUtxo u \<in> set ss then None else cd_utxos dbs u)"
  by (induction ss arbitrary: dbs) (auto simp: remove_source_def fun_eq_iff split: source_index.splits)

lemma input_sources_dom:
  "dom (input_sources inputs) = (\<lambda>i. case i of InputD a b k n \<Rightarrow> SrcUD k n | InputT a b h n \<Rightarrow> SrcUtxo (h, n)) ` set inputs"
proof -
  have "dom (fold (\<lambda>i m. case i of
         InputD amount base k n \<Rightarrow> m(SrcUD k n \<mapsto> SourceAmount amount base)
       | InputT amount base h n \<Rightarrow> m(SrcUtxo (h, n) \<mapsto> SourceAmount amount base)) inputs m) =
    dom m \<union> (\<lambda>i. case i of InputD a b k n \<Rightarrow> SrcUD k n | InputT a b h n \<Rightarrow> SrcUtxo (h, n)) ` set inputs" for m
    by (induction inputs arbitrary: m) (auto split: transaction_input.splits)
  then show ?thesis by (simp add: input_sources_def)
qed

lemma consume_sources_utxos:
  assumes "consume_sources p its ita inputs dbs = Some (destroyed, dbs')" "iterates its"
  shows "cd_utxos dbs' = (\<lambda>u. if SrcUtxo u \<in> dom (input_sources inputs) then None else cd_utxos dbs u)"
proof -
  have "finite (dom (input_sources inputs))" by (simp add: input_sources_dom)
  then show ?thesis
    using assms remove_sources_effect iterates_set[OF assms(2)]
    by (auto simp: consume_sources_def Let_def split: bind_splits cong: if_cong)
qed

lemma fold_remove_keys:
  "fold (\<lambda>(u, out) m. m(u := None)) outs m u = (if u \<in> fst ` set outs then None else m u)"
  by (induction outs arbitrary: m) auto

lemma fold_insert_other:
  "u \<notin> fst ` set outs \<Longrightarrow> fold (\<lambda>(u, out) m. m(u \<mapsto> out)) outs m u = m u"
  by (induction outs arbitrary: m) auto

lemma consume_sources_book:
  assumes run: "consume_sources p its ita inputs dbs = Some (destroyed, dbs')"
    and its: "iterates its" and ita: "iterates ita" and book: "address_book dbs"
  shows "address_book dbs' \<and> cd_tx dbs' = cd_tx dbs \<and>
    cd_utxos dbs' = (\<lambda>u. if SrcUtxo u \<in> dom (input_sources inputs) then None else cd_utxos dbs u)"
proof -
  let ?srcs = "input_sources inputs"
  have fin: "finite (dom ?srcs)" by (simp add: input_sources_dom)
  from run obtain addresses news where
    addresses: "source_addresses p its dbs ?srcs = Some addresses"
    and news: "fold_run (consume_address p (cd_balances dbs) addresses) (ita (dom addresses)) (Map.empty, {}) =
      Some (news, destroyed)"
    and dbs': "dbs' = fold remove_source (its (dom ?srcs)) (dbs\<lparr>cd_balances := cd_balances dbs ++ news\<rparr>)"
    by (auto simp: consume_sources_def Let_def split: bind_splits)
  have "finite (dom addresses)"
  proof (rule fold_run_preserves[OF addresses[unfolded source_addresses_def], where P = "\<lambda>m. finite (dom m)"])
    fix s m m' assume "finite (dom m)" "add_source p dbs ?srcs s m = Some m'"
    then show "finite (dom m')"
      by (auto simp: add_source_def Let_def split: bind_splits source_index.splits prod.splits)
  qed simp
  then have dom: "set (ita (dom addresses)) = dom addresses" using iterates_set[OF ita] by blast
  note utxos = consume_sources_utxos[OF run its]
  have bal: "cd_balances dbs' = cd_balances dbs ++ news" and tx: "cd_tx dbs' = cd_tx dbs"
    using remove_sources_effect by (simp_all add: dbs')
  have "index_set (cd_balances dbs') a = index_set (cd_balances dbs) a - index_set addresses a" for a
    using consume_addresses_indexes[OF news] dom
    by (auto simp: bal index_set_override) (auto simp: index_set_def split: option.splits)
  then have "address_book dbs'"
    using book source_addresses_indexes[OF addresses its fin]
    by (auto simp: address_book_def utxos owned_def)
  then show ?thesis using utxos tx by simp
qed

lemma create_sources_book:
  assumes run: "create_sources p outs dbs = Some dbs'" and book: "address_book dbs"
    and fresh: "\<forall>(u, out)\<in>set outs. cd_utxos dbs u = None" and distinct: "distinct (map fst outs)"
  shows "address_book dbs' \<and> cd_tx dbs' = cd_tx dbs \<and> cd_utxos dbs' = cd_utxos dbs ++ map_of outs"
proof -
  from run obtain news where news: "fold_run (supply_address p (cd_balances dbs)) outs Map.empty = Some news"
    and dbs': "dbs' = dbs\<lparr>cd_utxos := fold (\<lambda>(u, out) m. m(u \<mapsto> out)) outs (cd_utxos dbs),
       cd_balances := cd_balances dbs ++ news\<rparr>"
    by (auto simp: create_sources_def split: bind_splits)
  let ?mine = "\<lambda>A a. {u. \<exists>out. (u, out) \<in> A \<and> output_conditions out = a}"
  let ?I = "\<lambda>A news. \<forall>a. index_set (cd_balances dbs ++ news) a = index_set (cd_balances dbs) a \<union> ?mine A a"
  have I: "?I ({} \<union> set outs) news"
  proof (rule fold_run_visits[OF news, where I = ?I])
    fix A x news news'
    assume I: "?I A news" and step: "supply_address p (cd_balances dbs) x news = Some news'"
    obtain u out where x: "x = (u, out)" by (cases x)
    let ?a = "output_conditions out"
    obtain b where "news' = news(?a \<mapsto> (b, insert u (index_set (cd_balances dbs ++ news) ?a)))"
      using step by (auto simp: supply_address_def x index_set_def map_add_def Let_def
          split: bind_splits option.splits prod.splits)
    then show "?I (insert x A) news'"
      using I by (auto simp: x index_set_update)
  qed simp
  have utxos: "fold (\<lambda>(u, out) m. m(u \<mapsto> out)) outs m = m ++ map_of outs" for m
    using distinct
  proof (induction outs arbitrary: m)
    case (Cons x outs)
    obtain u out where x: "x = (u, out)" by (cases x)
    then have "map_of outs u = None" using Cons.prems by (simp add: map_of_eq_None_iff)
    then have "m(u \<mapsto> out) ++ map_of outs = m ++ map_of (x # outs)"
      by (auto simp: x fun_eq_iff map_add_def split: option.splits)
    then show ?case using Cons by (simp add: x del: map_of.simps fun_upd_apply)
  qed simp
  have "owned (cd_utxos dbs ++ map_of outs) a = owned (cd_utxos dbs) a \<union> ?mine (set outs) a" for a
    using fresh distinct by (auto simp: owned_def map_add_Some_iff dest: map_of_SomeD)
      (force simp: map_of_eq_None_iff)+
  then show ?thesis using I book by (simp add: dbs' utxos address_book_def)
qed

lemma indexed_outputs_distinct: "distinct (map fst (indexed_outputs h tx))"
proof -
  have "map fst (indexed_outputs h tx) = map (Pair h) (map fst (List.enumerate 0 (t_outputs tx)))"
    by (simp add: indexed_outputs_def comp_def case_prod_beta del: map_fst_enumerate)
  then show ?thesis by (simp add: distinct_map inj_on_def)
qed

lemma indexed_outputs_key: "(u, out) \<in> set (indexed_outputs h tx) \<Longrightarrow> fst u = h"
  by (auto simp: indexed_outputs_def)

lemma tx_get_hash_fields:
  "tx_get_hash c tx = Some (h, tx') \<Longrightarrow> t_outputs tx' = t_outputs tx \<and> t_inputs tx' = t_inputs tx"
  by (auto simp: tx_get_hash_def tx_compute_hash_def Let_def split: option.splits bind_splits)

lemma apply_tx_parts:
  assumes run: "apply_and_write_tx c p its ita tx dbs = Some dbs'"
    and its: "iterates its" and ita: "iterates ita" and book: "address_book dbs"
    and hash: "tx_get_hash c tx = Some (h, tx1)" and fresh: "\<forall>n. cd_utxos dbs (h, n) = None"
  shows "address_book dbs' \<and>
    cd_utxos dbs' = (\<lambda>u. if SrcUtxo u \<in> dom (input_sources (t_inputs tx)) then None else cd_utxos dbs u) ++
      map_of (indexed_outputs h tx)"
proof -
  from run hash obtain destroyed dbs1 dbs2 where
    consumed: "consume_sources p its ita (t_inputs tx1) dbs = Some (destroyed, dbs1)"
    and created: "create_sources p (indexed_outputs h tx1) dbs1 = Some dbs2"
    and dbs': "cd_balances dbs' = cd_balances dbs2" "cd_utxos dbs' = cd_utxos dbs2"
    by (auto simp: apply_and_write_tx_def Let_def split: bind_splits)
  note first = consume_sources_book[OF consumed its ita book]
  have "\<forall>(u, out)\<in>set (indexed_outputs h tx1). cd_utxos dbs1 u = None"
    using first fresh by (auto dest!: indexed_outputs_key)
  from create_sources_book[OF created _ this indexed_outputs_distinct] first
  show ?thesis
    using dbs' tx_get_hash_fields[OF hash] by (simp add: address_book_def indexed_outputs_def)
qed

subsection \<open>Properties\<close>

text \<open>
  C36: Applying a transaction that does not panic keeps the address book: for every address, the
  indexes kept with its balance are exactly its unspent outputs. The outputs of the transaction
  replace the ones it spends, when no output of its hash was known.
\<close>

theorem tx_keeps_address_book:
  assumes "apply_and_write_tx c p its ita tx dbs = Some dbs'" "iterates its" "iterates ita"
    and "\<forall>a. index_set (cd_balances dbs) a = owned (cd_utxos dbs) a"
    and "tx_get_hash c tx = Some (h, tx1)" "\<forall>n. cd_utxos dbs (h, n) = None"
  shows "(\<forall>a. index_set (cd_balances dbs') a = owned (cd_utxos dbs') a) \<and>
    (\<forall>i\<in>set (t_inputs tx). \<forall>a b h' n. i = InputT a b h' n \<longrightarrow> h' \<noteq> h \<longrightarrow> cd_utxos dbs' (h', n) = None) \<and>
    (\<forall>n<length (t_outputs tx). cd_utxos dbs' (h, n) = Some (t_outputs tx ! n))"
proof -
  have book: "address_book dbs" using assms(4) by (simp add: address_book_def)
  note parts = apply_tx_parts[OF assms(1-3) book assms(5,6)]
  have outs: "map_of (indexed_outputs h tx) (h, n) = Some (t_outputs tx ! n)" if "n < length (t_outputs tx)" for n
  proof (rule map_of_is_SomeI[OF indexed_outputs_distinct])
    have "(n, t_outputs tx ! n) \<in> set (List.enumerate 0 (t_outputs tx))"
      using that by (simp add: in_set_enumerate_eq)
    then show "((h, n), t_outputs tx ! n) \<in> set (indexed_outputs h tx)"
      by (force simp: indexed_outputs_def)
  qed
  have "map_of (indexed_outputs h tx) (h', n) = None" if "h' \<noteq> h" for h' n
    using that by (auto simp: map_of_eq_None_iff dest!: indexed_outputs_key)
  moreover have "input_sources (t_inputs tx) (SrcUtxo (h', n)) \<noteq> None"
    if "InputT a b h' n \<in> set (t_inputs tx)" for a b h' n
  proof -
    have "SrcUtxo (h', n) \<in> dom (input_sources (t_inputs tx))"
      by (auto simp: input_sources_dom image_iff intro!: bexI[OF _ that])
    then show ?thesis by auto
  qed
  ultimately show ?thesis using parts outs by (auto simp: address_book_def map_add_def)
qed

definition spent_output :: transaction_output where
  "spent_output = \<lparr>o_amount = 200, o_base = 0,
     o_conditions = \<lparr>origin_str = None, conditions = Single (CondCsv 1)\<rparr>\<rparr>"

definition spend_tx :: transaction_document where
  "spend_tx = example_tx\<lparr>t_inputs := [InputT 200 0 (Hash [9]) 0], t_outputs := [spent_output, spent_output],
     t_hash := Some (Hash [7])\<rparr>"

definition one_output :: currency_dbs where
  "one_output = \<lparr>cd_du = Map.empty, cd_tx = Map.empty, cd_utxos = [(Hash [9], 0) \<mapsto> spent_output],
     cd_balances = [Single (CondCsv 1) \<mapsto> (SourceAmount 200 0, {(Hash [9], 0)})]\<rparr>"

lemma one_output_book: "index_set (cd_balances one_output) a = owned (cd_utxos one_output) a"
  by (auto simp: one_output_def index_set_def owned_def spent_output_def output_conditions_def
      split: if_splits)

lemma spend_tx_applies:
  assumes "iterates its" "iterates ita"
  shows "\<exists>dbs. apply_and_write_tx c p its ita spend_tx one_output = Some dbs"
proof -
  have "input_sources (t_inputs spend_tx) = [SrcUtxo (Hash [9], 0) \<mapsto> SourceAmount 200 0]"
    by (simp add: input_sources_def spend_tx_def)
  then have "source_addresses p its one_output (input_sources (t_inputs spend_tx)) =
      Some [Single (CondCsv 1) \<mapsto> (SourceAmount 200 0, {(Hash [9], 0)})]"
    using assms by (simp add: source_addresses_def add_source_def one_output_def source_add_def min_max_base_def
        balance_or_default_def source_amount_default_def spent_output_def output_conditions_def)
  then obtain destroyed dbs where consumed: "consume_sources p its ita (t_inputs spend_tx) one_output = Some (destroyed, dbs)"
    using assms by (simp add: consume_sources_def consume_address_def one_output_def source_sub_def
        min_max_base_def Let_def)
  have "\<exists>dbs'. create_sources p (indexed_outputs h spend_tx) dbs = Some dbs'" for h
  proof -
    have "t_inputs spend_tx = [InputT 200 0 (Hash [9]) 0]" by (simp add: spend_tx_def)
    from consumed have "cd_balances dbs (Single (CondCsv 1)) = Some (SourceAmount 0 0, {})"
      using assms \<open>source_addresses p its one_output (input_sources (t_inputs spend_tx)) = _\<close>
      by (auto simp: consume_sources_def consume_address_def one_output_def source_sub_def
          min_max_base_def Let_def remove_sources_effect)
    then show ?thesis
      by (simp add: create_sources_def indexed_outputs_def spend_tx_def supply_address_def spent_output_def
          output_conditions_def output_amount_def source_add_def min_max_base_def Let_def)
  qed
  then obtain dbs' where "create_sources p (indexed_outputs (Hash [7]) spend_tx) dbs = Some dbs'" by blast
  moreover note consumed
  moreover have "tx_get_hash c spend_tx = Some (Hash [7], spend_tx)" by (simp add: tx_get_hash_def spend_tx_def)
  moreover obtain tx where "tx_reduce c spend_tx = Some tx"
    by (simp add: tx_reduce_def spend_tx_def output_reduce_def conditions_reduce_def spent_output_def)
  ultimately show ?thesis by (simp add: apply_and_write_tx_def)
qed

lemma spend_tx_hash: "tx_get_hash c spend_tx = Some (Hash [7], spend_tx)"
  by (simp add: tx_get_hash_def spend_tx_def)

theorem tx_keeps_address_book_witness:
  "\<exists>its ita dbs. apply_and_write_tx toy_crypto Debug its ita spend_tx one_output = Some dbs \<and>
     cd_utxos dbs (Hash [9], 0) = None \<and> cd_utxos dbs (Hash [7], 1) = Some spent_output \<and>
     index_set (cd_balances dbs) (Single (CondCsv 1)) = owned (cd_utxos dbs) (Single (CondCsv 1))"
proof -
  obtain its :: "source_index set \<Rightarrow> source_index list" where its: "iterates its" using iterates_exists by blast
  obtain ita :: "utxo_group set \<Rightarrow> utxo_group list" where ita: "iterates ita" using iterates_exists by blast
  obtain dbs where dbs: "apply_and_write_tx toy_crypto Debug its ita spend_tx one_output = Some dbs"
    using spend_tx_applies[OF its ita] by blast
  have "\<forall>n. cd_utxos one_output (Hash [7], n) = None" by (simp add: one_output_def)
  from tx_keeps_address_book[OF dbs its ita _ spend_tx_hash this] one_output_book
  have "cd_utxos dbs (Hash [9], 0) = None" "cd_utxos dbs (Hash [7], 1) = Some spent_output"
    "index_set (cd_balances dbs) (Single (CondCsv 1)) = owned (cd_utxos dbs) (Single (CondCsv 1))"
    by (auto simp: spend_tx_def)
  then show ?thesis using dbs by blast
qed

text \<open>
  No transaction can be reverted. The one stored when a transaction is applied has neither
  text nor hash, so reverting it panics; with the hash at hand, the outputs it spent are looked up
  among the unspent ones, from which they were removed.
\<close>

theorem revert_tx_panics:
  assumes run: "apply_and_write_tx c p its ita tx dbs = Some dbs'" and "iterates its" "iterates ita"
    and hash: "tx_get_hash c tx = Some (h, tx1)"
    and spends: "InputT a b h' n \<in> set (t_inputs tx)"
  shows "(\<exists>stored. cd_tx dbs' h = Some stored \<and> revert_tx c p its ita itu stored dbs' = None) \<and>
    revert_tx c p its ita itu \<lparr>dt_tx_doc = tx, dt_sources_destroyed = destroyed\<rparr> dbs' = None"
proof -
  from run hash obtain destroyed' dbs1 dbs2 tx2 where
    consumed: "consume_sources p its ita (t_inputs tx1) dbs = Some (destroyed', dbs1)"
    and created: "create_sources p (indexed_outputs h tx1) dbs1 = Some dbs2"
    and reduced: "tx_reduce c tx1 = Some tx2"
    and dbs': "dbs' = dbs2\<lparr>cd_tx := (cd_tx dbs2)(h \<mapsto> \<lparr>dt_tx_doc = tx2, dt_sources_destroyed = destroyed'\<rparr>)\<rparr>"
    by (auto simp: apply_and_write_tx_def Let_def split: bind_splits)
  have "tx_get_hash c tx2 = None"
    using reduced by (auto simp: tx_reduce_def tx_get_hash_def tx_compute_hash_def split: bind_splits)
  then have stored: "\<exists>stored. cd_tx dbs' h = Some stored \<and> revert_tx c p its ita itu stored dbs' = None"
    by (simp add: dbs' revert_tx_def)
  let ?outs = "indexed_outputs h tx1"
  have src: "SrcUtxo (h', n) \<in> dom (input_sources (t_inputs tx1))"
    using spends tx_get_hash_fields[OF hash] by (auto simp: input_sources_dom image_iff intro!: bexI)
  have gone: "cd_utxos dbs1 (h', n) = None"
    using consume_sources_utxos[OF consumed assms(2)] src by simp
  have "revert_tx c p its ita itu \<lparr>dt_tx_doc = tx, dt_sources_destroyed = destroyed\<rparr> dbs' = None"
  proof (cases "withdraw_outputs p ?outs dbs'")
    case (Some dbs3)
    have "cd_utxos dbs3 (h', n) = None"
      using Some created gone
      by (auto simp: withdraw_outputs_def create_sources_def dbs' fold_remove_keys fold_insert_other
          split: bind_splits)
    then have "add_source p dbs3 (input_sources (t_inputs tx1)) (SrcUtxo (h', n)) m = None" for m
      by (cases "input_sources (t_inputs tx1) (SrcUtxo (h', n))") (simp_all add: add_source_def)
    then have "source_addresses p its dbs3 (input_sources (t_inputs tx1)) = None"
      unfolding source_addresses_def using src iterates_set[OF assms(2)]
      by (intro fold_run_panics[of "SrcUtxo (h', n)"]) (simp_all add: input_sources_dom)
    then show ?thesis
      using hash Some by (cases "destroyed_by_address itu dbs3 destroyed") (simp_all add: revert_tx_def Let_def)
  qed (simp add: revert_tx_def hash)
  then show ?thesis using stored by blast
qed

theorem revert_tx_panics_witness:
  "\<exists>its ita dbs stored. apply_and_write_tx toy_crypto Debug its ita spend_tx one_output = Some dbs \<and>
     cd_tx dbs (Hash [7]) = Some stored \<and> revert_tx toy_crypto Debug its ita (\<lambda>_. []) stored dbs = None"
proof -
  obtain its :: "source_index set \<Rightarrow> source_index list" where its: "iterates its" using iterates_exists by blast
  obtain ita :: "utxo_group set \<Rightarrow> utxo_group list" where ita: "iterates ita" using iterates_exists by blast
  obtain dbs where dbs: "apply_and_write_tx toy_crypto Debug its ita spend_tx one_output = Some dbs"
    using spend_tx_applies[OF its ita] by blast
  have "InputT 200 0 (Hash [9]) 0 \<in> set (t_inputs spend_tx)" by (simp add: spend_tx_def)
  from revert_tx_panics[OF dbs its ita spend_tx_hash this, of "\<lambda>_. []"] show ?thesis using dbs by blast
qed

lemma scale_down_nonneg: "0 \<le> b \<Longrightarrow> scale_down k b = b div 10 ^ k"
proof (induction k arbitrary: b)
  case (Suc k)
  have "scale_down (Suc k) b = scale_down k (b div 10)"
    using Suc.prems by (cases "b = 0") simp_all
  also have "\<dots> = b div 10 div 10 ^ k"
    using Suc by (simp add: pos_imp_zdiv_nonneg_iff)
  finally show ?case by (simp add: zdiv_zmult2_eq)
qed simp

lemma source_add_same:
  "\<bar>a\<bar> < 2 ^ 62 \<Longrightarrow> \<bar>b\<bar> < 2 ^ 62 \<Longrightarrow>
     source_add p (SourceAmount a n) (SourceAmount b n) = Some (SourceAmount (a + b) n)"
  by (simp add: source_add_def min_max_base_def)

lemma source_sub_same:
  "\<bar>a\<bar> < 2 ^ 62 \<Longrightarrow> source_sub p (SourceAmount (a + b) n) (SourceAmount b n) = Some (SourceAmount a n)"
  by (simp add: source_sub_def min_max_base_def)

text \<open>
  Amounts add in any order, and at the same base a sum gives its first term back. Subtracting
  an amount of a smaller base gives the opposite of the difference.
\<close>

theorem source_amount_arithmetic:
  "source_add p s1 s2 = source_add p s2 s1 \<and>
   (\<bar>a\<bar> < 2 ^ 62 \<and> \<bar>b\<bar> < 2 ^ 62 \<longrightarrow>
      source_add p (SourceAmount a n) (SourceAmount b n) \<bind> (\<lambda>s. source_sub p s (SourceAmount b n)) =
        Some (SourceAmount a n)) \<and>
   (0 \<le> b \<and> b < 2 ^ 62 \<and> 0 \<le> a \<and> a < 2 ^ 62 \<and> k > 0 \<longrightarrow>
      source_sub p (SourceAmount a (n + k)) (SourceAmount b n) =
        Some (SourceAmount (- (a - b div 10 ^ k)) (n + k)))"
proof (intro conjI impI)
  show "source_add p s1 s2 = source_add p s2 s1"
    by (cases s1; cases s2) (auto simp: source_add_def min_max_base_def add.commute)
next
  assume bounds: "0 \<le> b \<and> b < 2 ^ 62 \<and> 0 \<le> a \<and> a < 2 ^ 62 \<and> k > 0"
  have "0 \<le> b div 10 ^ k" "b div 10 ^ k \<le> b div 1"
    using bounds by (simp add: pos_imp_zdiv_nonneg_iff) (rule zdiv_mono2, use bounds in simp_all)
  then show "source_sub p (SourceAmount a (n + k)) (SourceAmount b n) =
      Some (SourceAmount (- (a - b div 10 ^ k)) (n + k))"
    using bounds by (simp add: source_sub_def min_max_base_def scale_down_nonneg)
qed (simp add: source_add_same source_sub_same)

theorem source_amount_arithmetic_witness:
  "source_sub Release (SourceAmount 50 1) (SourceAmount 100 0) = Some (SourceAmount (- 40) 1)"
  using source_amount_arithmetic[of Release "SourceAmount 0 0" "SourceAmount 0 0" 50 100 0 1] by simp

lemma map_of_keyed:
  assumes "inj h" "k \<in> set ks"
  shows "map_of (map (\<lambda>k. (h k, g k)) ks) (h k) = Some (g k)"
  using assms(2) by (induction ks) (auto simp: injD[OF assms(1)] dest: injD[OF assms(1)])

lemma map_of_keyed_other: "a \<notin> h ` set ks \<Longrightarrow> map_of (map (\<lambda>k. (h k, g k)) ks) a = None"
  by (induction ks) auto

lemma fold_update_each:
  "distinct ks \<Longrightarrow> fold (\<lambda>k m. m(k \<mapsto> f (get_or_empty m k))) ks m =
     (\<lambda>k. if k \<in> set ks then Some (f (get_or_empty m k)) else m k)"
  by (induction ks arbitrary: m) (auto simp: fun_eq_iff get_or_empty_def)

definition two_members :: currency_dbs where
  "two_members = \<lparr>cd_du = [PubEd25519 [2] \<mapsto> {2}, PubEd25519 [3] \<mapsto> {2}], cd_tx = Map.empty, cd_utxos = Map.empty,
     cd_balances = [key_address (PubEd25519 [2]) \<mapsto> (SourceAmount 5 0, {}),
       key_address (PubEd25519 [3]) \<mapsto> (SourceAmount 5 0, {})]\<rparr>"

text \<open>
  A dividend that is created and reverted leaves the databases as they were, for distinct
  members whose balance is known at the base of the dividend and who have other dividends listed.
\<close>

theorem dividend_reverted:
  assumes members: "distinct members" "\<bar>d\<bar> < 2 ^ 62"
    and known: "\<forall>k\<in>set members. \<exists>a idx. cd_balances dbs (key_address k) = Some (SourceAmount a n, idx) \<and> \<bar>a\<bar> < 2 ^ 62"
    and listed: "\<forall>k\<in>set members. \<exists>ns. cd_du dbs k = Some ns \<and> block \<notin> ns"
  shows "create_du p (SourceAmount d n) block members False dbs \<bind>
    create_du p (SourceAmount d n) block members True = Some dbs"
proof -
  have inj: "inj key_address" by (simp add: inj_def)
  let ?add = "\<lambda>k. case the (cd_balances dbs (key_address k)) of
    (s, idx) \<Rightarrow> (SourceAmount (sa_amount s + d) n, idx)"
  let ?old = "\<lambda>k. the (cd_balances dbs (key_address k))"
  define dbs1 where "dbs1 = dbs\<lparr>
    cd_du := (\<lambda>k. if k \<in> set members then Some (insert block (get_or_empty (cd_du dbs) k)) else cd_du dbs k),
    cd_balances := cd_balances dbs ++ map_of (map (\<lambda>k. (key_address k, ?add k)) members)\<rparr>"
  have news: "map_run (\<lambda>k. do {
         let (balance, indexes) = balance_or_default (cd_balances dbs) (key_address k);
         new_balance \<leftarrow> source_add p balance (SourceAmount d n);
         Some (key_address k, (new_balance, indexes))
       }) members = Some (map (\<lambda>k. (key_address k, ?add k)) members)"
    by (rule map_run_total) (use known members(2) in
      \<open>fastforce simp: balance_or_default_def source_add_same[simplified]\<close>)
  have created: "create_du p (SourceAmount d n) block members False dbs = Some dbs1"
    using news by (simp add: create_du_def fold_update_each[OF members(1)] dbs1_def)
  have news': "map_run (\<lambda>k. do {
         let (balance, indexes) = balance_or_default (cd_balances dbs1) (key_address k);
         new_balance \<leftarrow> source_sub p balance (SourceAmount d n);
         Some (key_address k, (new_balance, indexes))
       }) members = Some (map (\<lambda>k. (key_address k, ?old k)) members)"
  proof (rule map_run_total)
    fix k assume k: "k \<in> set members"
    then obtain a idx where a: "cd_balances dbs (key_address k) = Some (SourceAmount a n, idx)" "\<bar>a\<bar> < 2 ^ 62"
      using known by blast
    have "cd_balances dbs1 (key_address k) = Some (SourceAmount (a + d) n, idx)"
      using map_of_keyed[OF inj k, of ?add] a(1) by (simp add: dbs1_def map_add_def)
    then show "(do {
         let (balance, indexes) = balance_or_default (cd_balances dbs1) (key_address k);
         new_balance \<leftarrow> source_sub p balance (SourceAmount d n);
         Some (key_address k, (new_balance, indexes))
       }) = Some (key_address k, ?old k)"
      using a source_sub_same[OF a(2), of p d n] by (simp add: balance_or_default_def)
  qed
  moreover note news'
  moreover have "cd_balances dbs1 ++ map_of (map (\<lambda>k. (key_address k, ?old k)) members) = cd_balances dbs"
  proof
    fix a
    show "(cd_balances dbs1 ++ map_of (map (\<lambda>k. (key_address k, ?old k)) members)) a = cd_balances dbs a"
    proof (cases "a \<in> key_address ` set members")
      case True
      then obtain k where k: "k \<in> set members" "a = key_address k" by blast
      then show ?thesis
        using map_of_keyed[OF inj k(1), of ?old] known by (auto simp: map_add_def)
    next
      case False
      then show ?thesis
        using map_of_keyed_other[OF False, of ?old] map_of_keyed_other[OF False, of ?add]
        by (simp add: dbs1_def map_add_def)
    qed
  qed
  moreover have "(\<lambda>k. if k \<in> set members then Some (get_or_empty (cd_du dbs1) k - {block}) else cd_du dbs1 k) =
      cd_du dbs"
    using listed by (auto simp: dbs1_def fun_eq_iff get_or_empty_def)
  ultimately have "create_du p (SourceAmount d n) block members True dbs1 =
      Some (dbs1\<lparr>cd_du := cd_du dbs, cd_balances := cd_balances dbs\<rparr>)"
    by (simp add: create_du_def fold_update_each[OF members(1), where f = "\<lambda>s. s - {block}"])
  then show ?thesis using created by (simp add: dbs1_def)
qed

theorem dividend_reverted_witness:
  "\<exists>dbs. create_du Debug (SourceAmount 5 0) 3 [PubEd25519 [2], PubEd25519 [3]] False two_members = Some dbs \<and>
     cd_du dbs (PubEd25519 [2]) = Some {2, 3} \<and>
     create_du Debug (SourceAmount 5 0) 3 [PubEd25519 [2], PubEd25519 [3]] True dbs = Some two_members"
proof -
  have "create_du Debug (SourceAmount 5 0) 3 [PubEd25519 [2], PubEd25519 [3]] False two_members \<bind>
      create_du Debug (SourceAmount 5 0) 3 [PubEd25519 [2], PubEd25519 [3]] True = Some two_members"
    by (rule dividend_reverted) (simp_all add: two_members_def)
  then obtain dbs where
    dbs: "create_du Debug (SourceAmount 5 0) 3 [PubEd25519 [2], PubEd25519 [3]] False two_members = Some dbs"
    "create_du Debug (SourceAmount 5 0) 3 [PubEd25519 [2], PubEd25519 [3]] True dbs = Some two_members"
    by (auto simp: Option.bind_eq_Some_conv)
  moreover from dbs(1) have "cd_du dbs (PubEd25519 [2]) = Some {2, 3}"
    by (auto simp: create_du_def two_members_def get_or_empty_def Let_def split: bind_splits)
  ultimately show ?thesis by blast
qed

end
