(* ===== verification/Bc_Apply.thy ===== *)
theory Bc_Apply
  imports Rusty_Wot Dal_Blocks Dal_Sources
begin

text \<open>
  The blockchain module, \<open>lib/modules/blockchain/blockchain/src\<close>: its state (\<open>lib.rs\<close>), and the
  check and the application of a block (\<open>dubp/mod.rs\<close>, \<open>dubp/check\<close>, \<open>dubp/apply\<close>).

  The record \<open>env\<close> gathers what the module takes from elsewhere: the cryptography, the
  floating-point texts, the build profile, the web of trust, and the orders in which its hash
  maps are read.
\<close>

subsection \<open>The state\<close>

record ('f, 'w) env =
  e_crypto :: crypto
  e_text :: "'f f64_text"
  e_profile :: profile
  e_wot :: "'w wot_ops"
  e_sources :: "source_index set \<Rightarrow> source_index list"
  e_addresses :: "utxo_group set \<Rightarrow> utxo_group list"
  e_indexes :: "utxo_index set \<Rightarrow> utxo_index list"
  e_certs :: "(nat \<times> nat) set \<Rightarrow> (nat \<times> nat) list"
  e_keys :: "pub_key set \<Rightarrow> pub_key list"
  e_sheets :: "node_ref set \<Rightarrow> node_ref list"
  e_sort :: "(node_ref \<times> blockstamp) list \<Rightarrow> (node_ref \<times> blockstamp) list"

record ('f, 'w) databases =
  db_blockchain :: "'f local_blockchain"
  db_forks :: "'f forks_dbs"
  db_wots :: "'w wots_dbs"
  db_currency :: currency_dbs

text \<open>The databases in memory and in their files; the events are those sent to the router.\<close>

record ('f, 'w) bc_module =
  bc_dbs :: "('f, 'w) databases"
  bc_files :: "('f, 'w) databases"
  bc_wot_index :: "pub_key \<rightharpoonup> nat"
  bc_currency_params :: "'f currency_parameters"
  bc_current :: blockstamp
  bc_invalid_forks :: "blockstamp set"
  bc_events :: "'f block_document list"

subsection \<open>Checks\<close>

datatype verify_block_hashs_error = InvalidInnerHash | InvalidHash nat "hash option" | InvalidVersion
datatype invalid_block_error = NoPreviousBlock | VersionDecrease
datatype apply_valid_block_error = DBsCorrupted | ExcludeUnknowNodeId | RevokeUnknowNodeId

text \<open>The databases are taken to be readable and writable: \<open>DALError\<close> is never produced here.\<close>

datatype dal_error = WriteError | ReadError | DBCorrupted | FileSystemError | WritePanic | UnknowError

datatype block_error =
  AlreadyHaveBlockOrOutForkWindow
| VerifyBlockHashsError verify_block_hashs_error
| DALError dal_error
| InvalidBlock invalid_block_error
| ApplyValidBlockError apply_valid_block_error

definition verify_block_hashs ::
  "crypto \<Rightarrow> 'f f64_text \<Rightarrow> 'f block_document \<Rightarrow> (verify_block_hashs_error + unit) run" where
  "verify_block_hashs c fl b =
     (if b_inner_hash b = None then None
      else do {
        inner \<leftarrow> verify_inner_hash c fl b;
        if inner then do {
          ok \<leftarrow> verify_hash c b;
          Some (if ok then Inr () else Inl (InvalidHash (b_number b) (b_hash b)))
        }
        else Some (Inl InvalidInnerHash)
      })"

definition verify_block_validity :: "'f block_document \<Rightarrow> 'f local_blockchain \<Rightarrow> block_error + unit" where
  "verify_block_validity b db =
     (if b_number b > 0 then
        (case get_block_in_local_blockchain db (b_number b - 1) of
           None \<Rightarrow> Inl (InvalidBlock NoPreviousBlock)
         | Some previous \<Rightarrow>
             if b_version previous > b_version b then Inl (InvalidBlock VersionDecrease) else Inr ())
      else Inr ())"

subsection \<open>Application of a valid block\<close>

record 'f apply_reqs =
  ar_block :: "'f blocks_query"
  ar_wots :: "wots_query list"
  ar_currency :: "currency_query list"

text \<open>What the loops over the block update: the index, the graph, and the requests.\<close>

record 'w apply_state =
  as_index :: "pub_key \<rightharpoonup> nat"
  as_wot :: 'w
  as_requests :: "wots_query list"

definition request :: "wots_query \<Rightarrow> 'w apply_state \<Rightarrow> 'w apply_state" where
  "request q st = st\<lparr>as_requests := as_requests st @ [q]\<rparr>"

definition enable_node :: "'w wot_ops \<Rightarrow> nat \<Rightarrow> bool \<Rightarrow> 'w apply_state \<Rightarrow> 'w apply_state" where
  "enable_node ops i b st = st\<lparr>as_wot := snd (w_set_enabled ops i b (as_wot st))\<rparr>"

text \<open>The identities of the block by their issuer.\<close>

definition block_identities :: "identity_document list \<Rightarrow> (pub_key \<rightharpoonup> identity_document) run" where
  "block_identities idtys =
     fold_run (\<lambda>idty m. do { k \<leftarrow> first_of (i_issuers idty); Some (m(k \<mapsto> idty)) }) idtys Map.empty"

definition apply_joiner ::
  "'w wot_ops \<Rightarrow> (pub_key \<rightharpoonup> identity_document) \<Rightarrow> blockstamp \<Rightarrow> nat \<Rightarrow> membership_document \<Rightarrow>
   'w apply_state \<Rightarrow> 'w apply_state run" where
  "apply_joiner ops idtys s median_time joiner st = do {
     pubkey \<leftarrow> first_of (m_issuers joiner);
     (case idtys pubkey of
        Some idty_doc \<Rightarrow>
          (let wot_id = w_size ops (as_wot st);
             st = st\<lparr>as_wot := snd (w_add_node ops (as_wot st)), as_index := (as_index st)(pubkey \<mapsto> wot_id)\<rparr>
           in Some (request (CreateIdentity wot_id s median_time idty_doc (bs_id (m_blockstamp joiner))) st))
      | None \<Rightarrow> do {
          wot_id \<leftarrow> as_index st pubkey;
          Some (request (RenewalIdentity pubkey wot_id median_time (bs_id (m_blockstamp joiner)))
            (enable_node ops wot_id True st))
        })
   }"

definition apply_active ::
  "'w wot_ops \<Rightarrow> (pub_key \<rightharpoonup> identity_document) \<Rightarrow> nat \<Rightarrow> membership_document \<Rightarrow>
   'w apply_state \<Rightarrow> 'w apply_state run" where
  "apply_active ops idtys median_time active st = do {
     pubkey \<leftarrow> first_of (m_issuers active);
     if idtys pubkey = None then do {
       wot_id \<leftarrow> as_index st pubkey;
       Some (request (RenewalIdentity pubkey wot_id median_time (bs_id (m_blockstamp active)))
         (enable_node ops wot_id True st))
     }
     else Some st
   }"

definition apply_exclusion ::
  "'w wot_ops \<Rightarrow> blockstamp \<Rightarrow> pub_key \<Rightarrow> 'w apply_state \<Rightarrow> ((apply_valid_block_error + unit) \<times> 'w apply_state) run" where
  "apply_exclusion ops s exclusion st =
     (case as_index st exclusion of
        None \<Rightarrow> Some (Inl ExcludeUnknowNodeId, st)
      | Some wot_id \<Rightarrow> Some (Inr (), request (ExcludeIdentity exclusion s) (enable_node ops wot_id False st)))"

definition apply_revocation ::
  "'w wot_ops \<Rightarrow> blockstamp \<Rightarrow> (revocation_document, compact_revocation) text_document_format \<Rightarrow>
   'w apply_state \<Rightarrow> ((apply_valid_block_error + unit) \<times> 'w apply_state) run" where
  "apply_revocation ops s revocation st = do {
     compact_revoc \<leftarrow> to_compact_document revocation_to_compact revocation;
     (case as_index st (cr_issuer compact_revoc) of
        None \<Rightarrow> Some (Inl RevokeUnknowNodeId, st)
      | Some wot_id \<Rightarrow>
          Some (Inr (), request (RevokeIdentity (cr_issuer compact_revoc) s True) (enable_node ops wot_id False st)))
   }"

definition apply_certification ::
  "'w wot_ops \<Rightarrow> nat \<Rightarrow> (certification_document, compact_certification) text_document_format \<Rightarrow>
   'w apply_state \<Rightarrow> ((apply_valid_block_error + unit) \<times> 'w apply_state) run" where
  "apply_certification ops median_time certification st = do {
     compact_cert \<leftarrow> to_compact_document certification_to_compact certification;
     (case (as_index st (cc_issuer compact_cert), as_index st (cc_target compact_cert)) of
        (Some from_id, Some to_id) \<Rightarrow>
          (case w_add_link ops from_id to_id (as_wot st) of
             (LinkOk _, w) \<Rightarrow>
               Some (Inr (), request
                 (CreateCert (cc_issuer compact_cert) from_id to_id (cc_block_number compact_cert) median_time)
                 (st\<lparr>as_wot := w\<rparr>))
           | _ \<Rightarrow> None)
      | _ \<Rightarrow> Some (Inl DBsCorrupted, st))
   }"

text \<open>The expired certifications of a map, read in some order.\<close>

definition apply_expiration ::
  "'w wot_ops \<Rightarrow> (nat \<times> nat \<rightharpoonup> nat) \<Rightarrow> nat \<times> nat \<Rightarrow> nat set \<times> 'w apply_state \<Rightarrow>
   (nat set \<times> 'w apply_state) run" where
  "apply_expiration ops expired = (\<lambda>(source, target) (already, st). do {
     created \<leftarrow> expired (source, target);
     let st = (if created \<in> already then st else request (ExpireCerts created) st);
     (_, w) \<leftarrow> w_rem_link ops source target (as_wot st);
     Some (insert created already, st\<lparr>as_wot := w\<rparr>)
   })"

text \<open>The members that receive a dividend, in the order of the index; \<open>du as isize\<close>.\<close>

definition du_members :: "'w wot_ops \<Rightarrow> (pub_key set \<Rightarrow> pub_key list) \<Rightarrow> (pub_key \<rightharpoonup> nat) \<Rightarrow> 'w \<Rightarrow> pub_key list" where
  "du_members ops itk index w =
     filter (\<lambda>k. \<exists>i\<in>set (w_get_enabled ops w). index k = Some i) (itk (dom index))"

definition as_isize :: "nat \<Rightarrow> int" where
  "as_isize n = (int n + 2 ^ 63) mod 2 ^ 64 - 2 ^ 63"

definition du_request ::
  "'w wot_ops \<Rightarrow> (pub_key set \<Rightarrow> pub_key list) \<Rightarrow> (source_amount \<Rightarrow> nat \<Rightarrow> pub_key list \<Rightarrow> currency_query) \<Rightarrow>
   'f block_document \<Rightarrow> 'w apply_state \<Rightarrow> currency_query list" where
  "du_request ops itk query b st =
     (case b_dividend b of
        Some du_amount \<Rightarrow>
          if du_amount > 0 then
            [query (SourceAmount (as_isize du_amount) (b_unit_base b)) (b_number b)
              (du_members ops itk (as_index st) (as_wot st))]
          else []
      | None \<Rightarrow> [])"

text \<open>The loops over the block, in their order.\<close>

definition apply_wot_events ::
  "('f, 'w) env \<Rightarrow> blockstamp \<Rightarrow> 'f block_document \<Rightarrow> (nat \<times> nat \<rightharpoonup> nat) \<Rightarrow> 'w apply_state \<Rightarrow>
   ((apply_valid_block_error + unit) \<times> 'w apply_state) run" where
  "apply_wot_events env s b expired st = do {
     idtys \<leftarrow> block_identities (b_identities b);
     st \<leftarrow> fold_run (apply_joiner (e_wot env) idtys s (b_median_time b)) (b_joiners b) st;
     st \<leftarrow> fold_run (apply_active (e_wot env) idtys (b_median_time b)) (b_actives b) st;
     and_then (fold_res (apply_exclusion (e_wot env) s) (b_excluded b) st) (\<lambda>_ st.
     and_then (fold_res (apply_revocation (e_wot env) s) (b_revoked b) st) (\<lambda>_ st.
     and_then (fold_res (apply_certification (e_wot env) (b_median_time b)) (b_certifications b) st) (\<lambda>_ st. do {
       (_, st) \<leftarrow> fold_run (apply_expiration (e_wot env) expired) (e_certs env (dom expired)) ({}, st);
       Some (Inr (), st)
     })))
   }"

definition apply_valid_block ::
  "('f, 'w) env \<Rightarrow> 'f block_document \<Rightarrow> (nat \<times> nat \<rightharpoonup> nat) \<Rightarrow> 'w apply_state \<Rightarrow>
   ((apply_valid_block_error + 'f apply_reqs) \<times> 'w apply_state) run" where
  "apply_valid_block env b expired st = do {
     s \<leftarrow> blockstamp_of b;
     and_then (apply_wot_events env s b expired st) (\<lambda>_ st. do {
       let ud = du_request (e_wot env) (e_keys env) CreateUD b st;
       txs \<leftarrow> map_run (\<lambda>tx. map_option WriteTx (unwrap_doc tx)) (b_transactions b);
       reduced \<leftarrow> block_reduce (e_crypto env) b;
       Some (Inr \<lparr>ar_block = WriteBlock \<lparr>db_block = reduced, db_expire_certs = Some expired\<rparr>,
         ar_wots = as_requests st, ar_currency = ud @ txs\<rparr>, st)
     })
   }"

subsection \<open>Check and application\<close>

datatype 'f check_return = ValidBlock "'f apply_reqs" | ForkBlock | OrphanBlock

text \<open>The hashes are compared by their texts.\<close>

definition chainable :: "profile \<Rightarrow> blockstamp \<Rightarrow> 'f block_document \<Rightarrow> bool run" where
  "chainable p current b = do {
     following \<leftarrow> u32_add p (bs_id current) 1;
     Some (b_number b = following \<and> to_hex (b_previous_hash b) = to_hex (bs_hash current) \<or>
       b_number b = 0 \<and> current = blockstamp_default)
   }"

definition check_and_apply_block ::
  "('f, 'w) env \<Rightarrow> 'f block_document \<Rightarrow> ('f, 'w) bc_module \<Rightarrow>
   ((block_error + 'f check_return) \<times> ('f, 'w) bc_module) run" where
  "check_and_apply_block env b bc = do {
     let dbs = bc_dbs bc;
     s \<leftarrow> blockstamp_of b;
     already \<leftarrow> already_have_block (e_profile env) (db_blockchain dbs) (db_forks dbs) s (b_previous_hash b);
     hashs \<leftarrow> verify_block_hashs (e_crypto env) (e_text env) b;
     (case hashs of
        Inl e \<Rightarrow> Some (Inl (VerifyBlockHashsError e), bc)
      | Inr _ \<Rightarrow> do {
          next_block \<leftarrow> chainable (e_profile env) (bc_current bc) b;
          if next_block then
            (case verify_block_validity b (db_blockchain dbs) of
               Inl e \<Rightarrow> Some (Inl e, bc)
             | Inr _ \<Rightarrow> do {
                 (r, st) \<leftarrow> apply_valid_block env b (find_expire_certs (db_wots dbs) [])
                   \<lparr>as_index = bc_wot_index bc, as_wot = d_wot (db_wots dbs), as_requests = []\<rparr>;
                 Some (map_sum ApplyValidBlockError ValidBlock r,
                   bc\<lparr>bc_wot_index := as_index st,
                     bc_dbs := dbs\<lparr>db_wots := (db_wots dbs)\<lparr>d_wot := as_wot st\<rparr>\<rparr>\<rparr>)
               })
          else if \<not> already \<and>
              (b_number b \<ge> bs_id (bc_current bc) \<or> bs_id (bc_current bc) - b_number b < fork_window_size)
          then do {
            (inserted, forks) \<leftarrow> write_fork_block (e_profile env)
              \<lparr>db_block = b, db_expire_certs = None\<rparr> (db_forks dbs);
            Some (Inr (if inserted then ForkBlock else OrphanBlock), bc\<lparr>bc_dbs := dbs\<lparr>db_forks := forks\<rparr>\<rparr>)
          }
          else Some (Inl AlreadyHaveBlockOrOutForkWindow, bc)
        })
   }"

text \<open>The requests of a valid block, in the order in which every caller applies them.\<close>

definition apply_requests ::
  "('f, 'w) env \<Rightarrow> 'f currency_parameters \<Rightarrow> 'f apply_reqs \<Rightarrow> ('f, 'w) databases \<Rightarrow> ('f, 'w) databases run" where
  "apply_requests env params reqs dbs = do {
     (blockchain, forks) \<leftarrow> blocks_apply (e_profile env) (ar_block reqs) None (db_blockchain dbs, db_forks dbs);
     wots \<leftarrow> fold_run (wots_apply (e_profile env) params) (ar_wots reqs) (db_wots dbs);
     currency \<leftarrow> fold_run
       (currency_apply (e_crypto env) (e_profile env) (e_sources env) (e_addresses env) (e_indexes env))
       (ar_currency reqs) (db_currency dbs);
     Some (dbs\<lparr>db_blockchain := blockchain, db_forks := forks, db_wots := wots, db_currency := currency\<rparr>)
   }"

subsection \<open>The index and the requests\<close>

text \<open>What a request that goes forwards does to the index that a restart reads in the database.\<close>

fun index_after :: "wots_query \<Rightarrow> (pub_key \<rightharpoonup> nat) \<Rightarrow> (pub_key \<rightharpoonup> nat)" where
  "index_after (CreateIdentity wot_id b bc_time doc ms_created) index =
     (case first_of (i_issuers doc) of Some k \<Rightarrow> index(k \<mapsto> wot_id) | None \<Rightarrow> index)"
| "index_after q index = index"

lemma wots_apply_index:
  assumes "wots_apply p params q dbs = Some dbs'" "forward q"
  shows "get_wot_index dbs' = index_after q (get_wot_index dbs)"
  using assms
  by (cases q) (auto simp: get_wot_index_def create_identity_def identity_reduce_def renewal_identity_def
      exclude_identity_def revoke_identity_def write_certification_def expire_certs_def fun_eq_iff Let_def
      split: bind_splits option.splits)

lemma wots_apply_all_index:
  assumes "fold_run (wots_apply p params) qs dbs = Some dbs'" "\<forall>q\<in>set qs. forward q"
  shows "get_wot_index dbs' = fold index_after qs (get_wot_index dbs)"
  using assms
proof (induction qs arbitrary: dbs)
  case (Cons q qs)
  then obtain dbs1 where dbs1: "wots_apply p params q dbs = Some dbs1" "fold_run (wots_apply p params) qs dbs1 = Some dbs'"
    by (auto split: bind_splits)
  then show ?case using Cons wots_apply_index[OF dbs1(1)] by simp
qed simp

text \<open>
  What every step of the application keeps: the index follows the requests, which all go
  forwards, every index is a node of the graph, and no two keys share one.
\<close>

definition index_ok :: "'w wot_ops \<Rightarrow> (pub_key \<rightharpoonup> nat) \<Rightarrow> 'w \<Rightarrow> bool" where
  "index_ok ops index w \<longleftrightarrow> inj_on index (dom index) \<and> (\<forall>i\<in>ran index. i < w_size ops w)"

definition applying :: "'w wot_ops \<Rightarrow> (pub_key \<rightharpoonup> nat) \<Rightarrow> 'w apply_state \<Rightarrow> bool" where
  "applying ops index st \<longleftrightarrow> as_index st = fold index_after (as_requests st) index \<and>
     (\<forall>q\<in>set (as_requests st). forward q \<and> (\<forall>n. q \<noteq> ExpireCerts n))"

lemma applying_request:
  assumes "applying ops index st" "forward q" "\<forall>n. q \<noteq> ExpireCerts n"
    and "\<And>m. index_after q m = m"
  shows "applying ops index (request q st)"
  using assms by (simp add: applying_def request_def)

lemma applying_wot [simp]:
  "applying ops index (st\<lparr>as_wot := w\<rparr>) = applying ops index st"
  "applying ops index (enable_node ops i b st) = applying ops index st"
  by (simp_all add: applying_def enable_node_def)

lemma block_identities_issuer:
  assumes "block_identities idtys = Some m" "m k = Some doc"
  shows "first_of (i_issuers doc) = Some k"
proof -
  have "\<forall>k doc. m k = Some doc \<longrightarrow> first_of (i_issuers doc) = Some k"
    by (rule fold_run_preserves[OF assms(1)[unfolded block_identities_def]]) (auto split: bind_splits if_splits)
  then show ?thesis using assms(2) by blast
qed

lemma apply_joiner_keeps:
  assumes "apply_joiner ops idtys s t joiner st = Some st'" "block_identities is = Some idtys"
    and "applying ops index st"
  shows "applying ops index st'"
  using assms block_identities_issuer[OF assms(2)]
  by (auto simp: apply_joiner_def Let_def applying_def request_def enable_node_def split: bind_splits option.splits)

lemma apply_active_keeps:
  assumes "apply_active ops idtys t active st = Some st'" "applying ops index st"
  shows "applying ops index st'"
  using assms by (auto simp: apply_active_def applying_def request_def enable_node_def split: bind_splits if_splits)

lemma apply_exclusion_keeps:
  assumes "apply_exclusion ops s k st = Some (r, st')" "applying ops index st"
  shows "applying ops index st'"
  using assms by (auto simp: apply_exclusion_def applying_def request_def enable_node_def split: option.splits)

lemma apply_revocation_keeps:
  assumes "apply_revocation ops s k st = Some (r, st')" "applying ops index st"
  shows "applying ops index st'"
  using assms
  by (auto simp: apply_revocation_def applying_def request_def enable_node_def split: option.splits bind_splits)

lemma apply_certification_keeps:
  assumes "apply_certification ops t c st = Some (r, st')" "applying ops index st"
  shows "applying ops index st'"
  using assms
  by (auto simp: apply_certification_def applying_def request_def
      split: option.splits bind_splits new_link_result.splits prod.splits)

lemma apply_wot_events_keeps:
  assumes run: "apply_wot_events env s b Map.empty st = Some (r, st')" and certs: "iterates (e_certs env)"
    and ok: "P st"
    and joiner: "\<And>idtys j st st'. block_identities (b_identities b) = Some idtys \<Longrightarrow> P st \<Longrightarrow>
      apply_joiner (e_wot env) idtys s (b_median_time b) j st = Some st' \<Longrightarrow> P st'"
    and active: "\<And>idtys j st st'. P st \<Longrightarrow>
      apply_active (e_wot env) idtys (b_median_time b) j st = Some st' \<Longrightarrow> P st'"
    and exclusion: "\<And>k st r st'. P st \<Longrightarrow> apply_exclusion (e_wot env) s k st = Some (r, st') \<Longrightarrow> P st'"
    and revocation: "\<And>k st r st'. P st \<Longrightarrow> apply_revocation (e_wot env) s k st = Some (r, st') \<Longrightarrow> P st'"
    and certification: "\<And>k st r st'. P st \<Longrightarrow>
      apply_certification (e_wot env) (b_median_time b) k st = Some (r, st') \<Longrightarrow> P st'"
  shows "P st'"
proof -
  from run obtain idtys st1 st2 where idtys: "block_identities (b_identities b) = Some idtys"
    and st1: "fold_run (apply_joiner (e_wot env) idtys s (b_median_time b)) (b_joiners b) st = Some st1"
    and st2: "fold_run (apply_active (e_wot env) idtys (b_median_time b)) (b_actives b) st1 = Some st2"
    and rest: "and_then (fold_res (apply_exclusion (e_wot env) s) (b_excluded b) st2) (\<lambda>_ st.
      and_then (fold_res (apply_revocation (e_wot env) s) (b_revoked b) st) (\<lambda>_ st.
      and_then (fold_res (apply_certification (e_wot env) (b_median_time b)) (b_certifications b) st) (\<lambda>_ st. do {
        (_, st) \<leftarrow> fold_run (apply_expiration (e_wot env) Map.empty) (e_certs env (dom Map.empty)) ({}, st);
        Some (Inr (), st)
      }))) = Some (r, st')"
    by (auto simp: apply_wot_events_def split: bind_splits)
  have no_certs: "e_certs env {} = []" using iterates_set[OF certs, of "{}"] by simp
  have "P st1" by (rule fold_run_preserves[OF st1]) (use ok joiner idtys in auto)
  then have p2: "P st2" by (rule fold_run_preserves[OF st2]) (use active in auto)
  show ?thesis
  proof (rule and_then_preserves[OF rest])
    fix r st assume "fold_res (apply_exclusion (e_wot env) s) (b_excluded b) st2 = Some (r, st)"
    then show "P st" using p2 by (rule fold_res_preserves[where P = P]) (rule exclusion)
  next
    fix v st r st' assume p3: "P st" and "and_then (fold_res (apply_revocation (e_wot env) s) (b_revoked b) st)
      (\<lambda>_ st. and_then (fold_res (apply_certification (e_wot env) (b_median_time b)) (b_certifications b) st) (\<lambda>_ st. do {
        (_, st) \<leftarrow> fold_run (apply_expiration (e_wot env) Map.empty) (e_certs env (dom Map.empty)) ({}, st);
        Some (Inr (), st)
      })) = Some (r, st')"
    from this(2) show "P st'"
    proof (rule and_then_preserves)
      fix r st1 assume "fold_res (apply_revocation (e_wot env) s) (b_revoked b) st = Some (r, st1)"
      then show "P st1" using p3 by (rule fold_res_preserves[where P = P]) (rule revocation)
    next
      fix v st r st' assume p4: "P st" and
        "and_then (fold_res (apply_certification (e_wot env) (b_median_time b)) (b_certifications b) st) (\<lambda>_ st. do {
          (_, st) \<leftarrow> fold_run (apply_expiration (e_wot env) Map.empty) (e_certs env (dom Map.empty)) ({}, st);
          Some (Inr (), st)
        }) = Some (r, st')"
      from this(2) show "P st'"
      proof (rule and_then_preserves)
        fix r st1
        assume "fold_res (apply_certification (e_wot env) (b_median_time b)) (b_certifications b) st = Some (r, st1)"
        then show "P st1" using p4 by (rule fold_res_preserves[where P = P]) (rule certification)
      qed (simp add: no_certs)
    qed
  qed
qed

lemma apply_valid_block_events:
  assumes "apply_valid_block env b expired st = Some (r, st')"
  shows "\<exists>s r'. blockstamp_of b = Some s \<and> apply_wot_events env s b expired st = Some (r', st') \<and>
    (\<forall>reqs. r = Inr reqs \<longrightarrow> ar_wots reqs = as_requests st' \<and>
      (\<exists>reduced. block_reduce (e_crypto env) b = Some reduced \<and>
        ar_block reqs = WriteBlock \<lparr>db_block = reduced, db_expire_certs = Some expired\<rparr>))"
  using assms
  by (auto simp: apply_valid_block_def and_then_def Let_def split: bind_splits sum.splits)

lemma apply_valid_block_writes:
  assumes "apply_valid_block env b expired st = Some (Inr reqs, st')"
  shows "\<exists>blk. ar_block reqs = WriteBlock blk \<and> dal_blockstamp blk = blockstamp_of b \<and>
    b_transactions (db_block blk) = b_transactions b \<and>
    (\<forall>tx\<in>set (b_transactions b). \<exists>doc. tx = TxDoc doc)"
proof -
  from apply_valid_block_events[OF assms] obtain reduced where
    reduced: "block_reduce (e_crypto env) b = Some reduced"
    and block: "ar_block reqs = WriteBlock \<lparr>db_block = reduced, db_expire_certs = Some expired\<rparr>" by blast
  have "b_number reduced = b_number b" "b_hash reduced = b_hash b" "b_transactions reduced = b_transactions b"
    using reduced by (auto simp: block_reduce_def Let_def split: bind_splits)
  moreover have "\<exists>ys. map_run (\<lambda>tx. map_option WriteTx (unwrap_doc tx)) (b_transactions b) = Some ys"
    using assms by (auto simp: apply_valid_block_def and_then_def Let_def split: bind_splits sum.splits)
  then have "\<forall>tx\<in>set (b_transactions b). \<exists>doc. tx = TxDoc doc"
  proof (clarify)
    fix tx ys
    assume "map_run (\<lambda>tx. map_option WriteTx (unwrap_doc tx)) (b_transactions b) = Some ys" "tx \<in> set (b_transactions b)"
    moreover have "\<exists>doc. tx = TxDoc doc"
      if "map_run (\<lambda>tx. map_option WriteTx (unwrap_doc tx)) txs = Some ys" "tx \<in> set txs" for txs ys
      using that by (induction txs arbitrary: ys) (auto split: bind_splits tx_doc_or_hash.splits elim: unwrap_doc.elims)
    ultimately show "\<exists>doc. tx = TxDoc doc" by blast
  qed
  ultimately show ?thesis using block by (auto simp: dal_blockstamp_def blockstamp_of_def)
qed

lemma no_expired_certs: "find_expire_certs dbs [] = Map.empty"
  by (simp add: find_expire_certs_def)

lemma apply_events_applying:
  assumes "apply_wot_events env s b Map.empty \<lparr>as_index = index, as_wot = w, as_requests = []\<rparr> = Some (r, st')"
    and "iterates (e_certs env)"
  shows "applying (e_wot env) index st'"
proof (rule apply_wot_events_keeps[OF assms])
  show "applying (e_wot env) index \<lparr>as_index = index, as_wot = w, as_requests = []\<rparr>" by (simp add: applying_def)
qed (auto dest: apply_joiner_keeps apply_active_keeps apply_exclusion_keeps apply_revocation_keeps
  apply_certification_keeps)

subsection \<open>The index and the graph\<close>

text \<open>The part that rests on the contract of the web of trust.\<close>

context web_of_trust
begin

definition in_graph :: "'a apply_state \<Rightarrow> bool" where
  "in_graph st \<longleftrightarrow> invar (as_wot st) \<and> index_ok ops (as_index st) (as_wot st)"

lemma in_graph_request [simp]: "in_graph (request q st) = in_graph st"
  by (simp add: in_graph_def request_def)

lemma in_graph_enable: "in_graph st \<Longrightarrow> in_graph (enable_node ops i b st)"
  by (simp add: in_graph_def enable_node_def index_ok_def set_enabled_invar set_enabled_size)

lemma in_graph_joiner:
  assumes "apply_joiner ops idtys s t joiner st = Some st'" "in_graph st"
  shows "in_graph st'"
proof -
  have fresh: "in_graph (st\<lparr>as_wot := snd (w_add_node ops (as_wot st)),
      as_index := (as_index st)(k \<mapsto> w_size ops (as_wot st))\<rparr>)" for k
  proof -
    have "\<forall>i\<in>ran (as_index st). i \<noteq> w_size ops (as_wot st)"
      using assms(2) unfolding in_graph_def index_ok_def by blast
    then have "inj_on ((as_index st)(k \<mapsto> w_size ops (as_wot st)))
        (dom ((as_index st)(k \<mapsto> w_size ops (as_wot st))))"
      using assms(2) by (auto simp: in_graph_def index_ok_def inj_on_def ran_def)
    moreover have "ran ((as_index st)(k \<mapsto> w_size ops (as_wot st))) \<subseteq> insert (w_size ops (as_wot st)) (ran (as_index st))"
      by (auto simp: ran_def)
    ultimately show ?thesis
      using assms(2) by (auto simp: in_graph_def index_ok_def add_node_invar add_node_size less_Suc_eq)
  qed
  then show ?thesis
    using assms by (auto simp: apply_joiner_def Let_def split: bind_splits option.splits intro: in_graph_enable)
qed

lemma in_graph_active:
  "apply_active ops idtys t active st = Some st' \<Longrightarrow> in_graph st \<Longrightarrow> in_graph st'"
  by (auto simp: apply_active_def split: bind_splits if_splits intro: in_graph_enable)

lemma in_graph_exclusion:
  "apply_exclusion ops s k st = Some (r, st') \<Longrightarrow> in_graph st \<Longrightarrow> in_graph st'"
  by (auto simp: apply_exclusion_def split: option.splits intro: in_graph_enable)

lemma in_graph_revocation:
  "apply_revocation ops s k st = Some (r, st') \<Longrightarrow> in_graph st \<Longrightarrow> in_graph st'"
  by (auto simp: apply_revocation_def split: option.splits bind_splits intro: in_graph_enable)

lemma in_graph_certification:
  assumes "apply_certification ops t c st = Some (r, st')" "in_graph st"
  shows "in_graph st'"
proof -
  have "in_graph (st\<lparr>as_wot := w\<rparr>)" if "w_add_link ops i j (as_wot st) = (x, w)" for i j x w
    using assms(2) that add_link_invar[of "as_wot st" i j] add_link_size[of i j "as_wot st"]
    by (simp add: in_graph_def index_ok_def)
  then show ?thesis
    using assms by (auto simp: apply_certification_def split: option.splits bind_splits new_link_result.splits prod.splits)
qed

lemma in_graph_events:
  assumes "apply_wot_events env s b Map.empty st = Some (r, st')" "iterates (e_certs env)" "e_wot env = ops"
    and "in_graph st"
  shows "in_graph st'"
  by (rule apply_wot_events_keeps[OF assms(1,2), where P = in_graph, unfolded assms(3)])
    (use assms(4) in \<open>auto dest: in_graph_joiner in_graph_active in_graph_exclusion in_graph_revocation
      in_graph_certification\<close>)

end

text \<open>What a call leaves in the module, whatever it answers.\<close>

lemma check_and_apply_cases:
  assumes "check_and_apply_block env b bc = Some (r, bc')"
  obtains (same) e where "r = Inl e" "bc' = bc" "\<forall>e'. e \<noteq> ApplyValidBlockError e'"
  | (valid) s r0 st where "blockstamp_of b = Some s" "chainable (e_profile env) (bc_current bc) b = Some True"
      "verify_block_hashs (e_crypto env) (e_text env) b = Some (Inr ())"
      "verify_block_validity b (db_blockchain (bc_dbs bc)) = Inr ()"
      "apply_valid_block env b Map.empty
        \<lparr>as_index = bc_wot_index bc, as_wot = d_wot (db_wots (bc_dbs bc)), as_requests = []\<rparr> = Some (r0, st)"
      "r = map_sum ApplyValidBlockError ValidBlock r0"
      "bc' = bc\<lparr>bc_wot_index := as_index st,
         bc_dbs := (bc_dbs bc)\<lparr>db_wots := (db_wots (bc_dbs bc))\<lparr>d_wot := as_wot st\<rparr>\<rparr>\<rparr>"
  | (fork) s inserted forks where "blockstamp_of b = Some s" "chainable (e_profile env) (bc_current bc) b = Some False"
      "verify_block_hashs (e_crypto env) (e_text env) b = Some (Inr ())"
      "already_have_block (e_profile env) (db_blockchain (bc_dbs bc)) (db_forks (bc_dbs bc)) s
        (b_previous_hash b) = Some False"
      "b_number b \<ge> bs_id (bc_current bc) \<or> bs_id (bc_current bc) - b_number b < fork_window_size"
      "write_fork_block (e_profile env) \<lparr>db_block = b, db_expire_certs = None\<rparr> (db_forks (bc_dbs bc)) =
        Some (inserted, forks)"
      "r = Inr (if inserted then ForkBlock else OrphanBlock)"
      "bc' = bc\<lparr>bc_dbs := (bc_dbs bc)\<lparr>db_forks := forks\<rparr>\<rparr>"
proof -
  let ?db = "db_blockchain (bc_dbs bc)" and ?forks = "db_forks (bc_dbs bc)" and ?p = "e_profile env"
  let ?st = "\<lparr>as_index = bc_wot_index bc, as_wot = d_wot (db_wots (bc_dbs bc)), as_requests = []\<rparr>"
  note run = assms[unfolded check_and_apply_block_def Let_def no_expired_certs]
  obtain s where s: "blockstamp_of b = Some s" using run by (cases "blockstamp_of b") simp_all
  obtain a where a: "already_have_block ?p ?db ?forks s (b_previous_hash b) = Some a"
    using run s by (cases "already_have_block ?p ?db ?forks s (b_previous_hash b)") simp_all
  obtain h where h: "verify_block_hashs (e_crypto env) (e_text env) b = Some h"
    using run s a by (cases "verify_block_hashs (e_crypto env) (e_text env) b") simp_all
  show thesis
  proof (cases h)
    case (Inl e)
    then have "r = Inl (VerifyBlockHashsError e)" "bc' = bc" using run s a h by simp_all
    then show thesis using same by simp
  next
    case (Inr u)
    then have h: "verify_block_hashs (e_crypto env) (e_text env) b = Some (Inr ())" using h by simp
    obtain n where n: "chainable ?p (bc_current bc) b = Some n"
      using run s a h by (cases "chainable ?p (bc_current bc) b") simp_all
    show thesis
    proof (cases n)
      case True
      show thesis
      proof (cases "verify_block_validity b ?db")
        case (Inl e)
        then have "r = Inl e" "bc' = bc" using run s a h n True by simp_all
        moreover have "\<forall>e'. e \<noteq> ApplyValidBlockError e'"
          using Inl by (auto simp: verify_block_validity_def split: if_splits option.splits)
        ultimately show thesis using same by simp
      next
        case (Inr u)
        then obtain r0 st where "apply_valid_block env b Map.empty ?st = Some (r0, st)"
          using run s a h n True by (cases "apply_valid_block env b Map.empty ?st") auto
        then show thesis using valid[of s r0 st] run s a h n True Inr by simp
      qed
    next
      case False
      let ?near = "b_number b \<ge> bs_id (bc_current bc) \<or> bs_id (bc_current bc) - b_number b < fork_window_size"
      let ?insert = "write_fork_block ?p \<lparr>db_block = b, db_expire_certs = None\<rparr> ?forks"
      show thesis
      proof (cases "\<not> a \<and> ?near")
        case True
        then obtain inserted forks where "?insert = Some (inserted, forks)"
          using run s a h n False by (cases ?insert) auto
        then show thesis using fork[of s inserted forks] run s a h n False True by simp
      next
        case no: False
        have "r = Inl AlreadyHaveBlockOrOutForkWindow" "bc' = bc" using run s a h n False no by (auto split: if_splits)
        then show thesis using same by simp
      qed
    qed
  qed
qed

subsection \<open>A first block\<close>

text \<open>A hash that is the same for all texts is enough for the examples.\<close>

definition example_env :: "((nat \<times> nat) set \<Rightarrow> (nat \<times> nat) list) \<Rightarrow> (nat, rusty_wot) env" where
  "example_env itc = \<lparr>e_crypto = toy_crypto\<lparr>c_sha256 := (\<lambda>_. Hash [7])\<rparr>, e_text = nat_text, e_profile = Release,
     e_wot = rusty_ops Release sorted_list_of_set, e_sources = (\<lambda>_. []), e_addresses = (\<lambda>_. []),
     e_indexes = (\<lambda>_. []), e_certs = itc, e_keys = sorted_list_of_set, e_sheets = sorted_list_of_set, e_sort = id\<rparr>"

definition example_joiner :: membership_document where
  "example_joiner = \<lparr>m_text = None, m_currency = [], m_issuers = [PubEd25519 [1]],
     m_blockstamp = Blockstamp 0 (Hash []), m_membership = MsIn, m_identity_username = [],
     m_identity_blockstamp = Blockstamp 0 (Hash []), m_signatures = [SigEd25519 [1]]\<rparr>"

definition genesis_block :: "pub_key list \<Rightarrow> nat block_document" where
  "genesis_block excluded = example_block\<lparr>b_identities := [example_identity\<lparr>i_signatures := [SigEd25519 [1]]\<rparr>],
     b_joiners := [example_joiner], b_excluded := excluded, b_transactions := [], b_signatures := [SigEd25519 [5]],
     b_inner_hash := Some (Hash [7]), b_hash := Some (Hash [7])\<rparr>"

definition no_databases :: "(nat, rusty_wot) databases" where
  "no_databases = \<lparr>db_blockchain = Map.empty,
     db_forks = \<lparr>fd_tree = tree_default, fd_blocks = Map.empty, fd_orphans = Map.empty\<rparr>,
     db_wots = no_identities (rusty_new 10),
     db_currency = \<lparr>cd_du = Map.empty, cd_tx = Map.empty, cd_utxos = Map.empty, cd_balances = Map.empty\<rparr>\<rparr>"

definition new_module :: "(nat, rusty_wot) bc_module" where
  "new_module = \<lparr>bc_dbs = no_databases, bc_files = no_databases, bc_wot_index = Map.empty,
     bc_currency_params = example_currency, bc_current = blockstamp_default, bc_invalid_forks = {}, bc_events = []\<rparr>"

lemma genesis_hashs:
  assumes "excluded = [] \<or> excluded = [PubEd25519 [6]]"
  shows "verify_block_hashs (e_crypto (example_env itc)) nat_text (genesis_block excluded) = Some (Inr ())"
  using assms
  by (auto simp: verify_block_hashs_def verify_inner_hash_def verify_hash_def will_hashed_and_signed_def
      will_hashed_string_def genesis_block_def example_block_def example_env_def first_of_def
      compact_inner_text_def leading_lines_def toy_crypto_def identity_to_compact_def compact_identity_text_def
      example_identity_def membership_compact_text_def example_joiner_def Let_def)

definition one_member :: "(rusty_wot) apply_state" where
  "one_member = \<lparr>as_index = [PubEd25519 [1] \<mapsto> 0], as_wot = \<lparr>r_nodes = [node_new], r_max_links = 10\<rparr>,
     as_requests = [CreateIdentity 0 (Blockstamp 0 (Hash [7])) 100
       (example_identity\<lparr>i_signatures := [SigEd25519 [1]]\<rparr>) 0]\<rparr>"

definition genesis_reqs :: "nat block_document \<Rightarrow> nat apply_reqs" where
  "genesis_reqs reduced = \<lparr>ar_block = WriteBlock \<lparr>db_block = reduced, db_expire_certs = Some Map.empty\<rparr>,
     ar_wots = as_requests one_member, ar_currency = []\<rparr>"

definition genesis_module :: "(nat, rusty_wot) bc_module" where
  "genesis_module = new_module\<lparr>bc_wot_index := as_index one_member,
     bc_dbs := no_databases\<lparr>db_wots := (db_wots no_databases)\<lparr>d_wot := as_wot one_member\<rparr>\<rparr>\<rparr>"

text \<open>With an excluded key that is unknown, the newcomer is already in the index when the block is refused.\<close>

lemma genesis_check:
  assumes "iterates itc" "excluded = [] \<or> excluded = [PubEd25519 [6]]"
  shows "check_and_apply_block (example_env itc) (genesis_block excluded) new_module =
    (if excluded = [] then do {
       reduced \<leftarrow> block_reduce (e_crypto (example_env itc)) (genesis_block []);
       Some (Inr (ValidBlock (genesis_reqs reduced)), genesis_module)
     } else Some (Inl (ApplyValidBlockError ExcludeUnknowNodeId), genesis_module))"
proof -
  have "itc {} = []" using iterates_set[OF assms(1), of "{}"] by simp
  then have "apply_valid_block (example_env itc) (genesis_block excluded) Map.empty
      \<lparr>as_index = Map.empty, as_wot = rusty_new 10, as_requests = []\<rparr> =
    (if excluded = [] then do {
       reduced \<leftarrow> block_reduce (e_crypto (example_env itc)) (genesis_block []);
       Some (Inr (genesis_reqs reduced), one_member)
     } else Some (Inl ExcludeUnknowNodeId, one_member))"
    using assms(2)
    by (auto simp: apply_valid_block_def apply_wot_events_def block_identities_def blockstamp_of_def
        genesis_block_def example_block_def apply_joiner_def apply_exclusion_def example_joiner_def
        example_identity_def example_env_def first_of_def request_def one_member_def genesis_reqs_def
        rusty_ops_def rusty_size_def rusty_add_node_def rusty_new_def du_request_def Let_def)
  then show ?thesis
    using genesis_hashs[OF assms(2), of itc] assms(2)
    by (auto simp: check_and_apply_block_def chainable_def new_module_def no_databases_def no_identities_def
        no_expired_certs verify_block_validity_def genesis_module_def blockstamp_of_def u32_sub_def
        already_have_block_def example_env_def genesis_block_def example_block_def blockstamp_default_def
        option.case_eq_if split: bind_splits)
qed

lemma genesis_reduces: "\<exists>reduced. block_reduce c (genesis_block []) = Some reduced \<and>
    b_number reduced = 0 \<and> b_hash reduced = Some (Hash [7])"
  by (simp add: block_reduce_def genesis_block_def example_block_def Let_def)

lemma genesis_accepted:
  assumes "iterates itc"
  obtains reduced where "block_reduce (e_crypto (example_env itc)) (genesis_block []) = Some reduced"
    "b_number reduced = 0" "b_hash reduced = Some (Hash [7])"
    "check_and_apply_block (example_env itc) (genesis_block []) new_module =
      Some (Inr (ValidBlock (genesis_reqs reduced)), genesis_module)"
  using genesis_reduces[of "e_crypto (example_env itc)"] genesis_check[OF assms, of "[]"] by auto

lemma genesis_written:
  assumes "b_number reduced = 0" "b_hash reduced = Some (Hash [7])"
  shows "\<exists>dbs. apply_requests (example_env itc) example_currency (genesis_reqs reduced) (bc_dbs genesis_module) =
    Some dbs"
proof -
  let ?b = "\<lparr>db_block = reduced, db_expire_certs = Some Map.empty\<rparr>"
  have "dal_blockstamp ?b = Some (Blockstamp 0 (Hash [7]))" using assms by (simp add: dal_blockstamp_iff)
  moreover have "\<exists>t. insert_new_head_block (Blockstamp 0 (Hash [7])) tree_default = Some t"
    using insert_new_head_wf[OF fork_reach_wf[OF fork_reach.start], of "Blockstamp 0 (Hash [7])"]
    by (auto simp: extends_main_def tree_default_def)
  ultimately have "\<exists>x. write_head_block ?b (Map.empty, db_forks no_databases) = Some x"
    by (auto simp: write_head_block_def no_databases_def Let_def)
  moreover have "\<exists>x. wots_apply Release example_currency (hd (as_requests one_member)) (db_wots (bc_dbs genesis_module)) = Some x"
    by (simp add: one_member_def create_identity_def example_ms_period identity_reduce_def example_identity_def
        first_of_def Let_def)
  ultimately show ?thesis
    by (auto simp: apply_requests_def genesis_reqs_def genesis_module_def new_module_def no_databases_def
        one_member_def example_env_def)
qed

subsection \<open>Properties\<close>

text \<open>
  C7: Whatever a block contains and whatever the answer, checking and applying it keeps the graph
  well formed and every index of the module a node of the graph of its own.
\<close>

theorem index_in_graph:
  assumes "check_and_apply_block env b bc = Some (r, bc')"
    and "e_wot env = rusty_ops p it" "iterates it" "iterates (e_certs env)"
    and "rusty_wf (d_wot (db_wots (bc_dbs bc)))"
    and "index_ok (e_wot env) (bc_wot_index bc) (d_wot (db_wots (bc_dbs bc)))"
  shows "rusty_wf (d_wot (db_wots (bc_dbs bc'))) \<and>
    index_ok (e_wot env) (bc_wot_index bc') (d_wot (db_wots (bc_dbs bc')))"
proof -
  note laws = rusty_web_of_trust[OF assms(3), of p]
  from assms(1) show ?thesis
  proof (cases rule: check_and_apply_cases)
    case (valid s r0 st)
    from apply_valid_block_events[OF valid(5)] obtain s' r' where
      events: "apply_wot_events env s' b Map.empty
        \<lparr>as_index = bc_wot_index bc, as_wot = d_wot (db_wots (bc_dbs bc)), as_requests = []\<rparr> = Some (r', st)"
      by blast
    have "web_of_trust.in_graph (rusty_ops p it) rusty_wf
        \<lparr>as_index = bc_wot_index bc, as_wot = d_wot (db_wots (bc_dbs bc)), as_requests = []\<rparr>"
      using assms(2,5,6) by (simp add: web_of_trust.in_graph_def[OF laws])
    from web_of_trust.in_graph_events[OF laws events assms(4,2) this]
    have "rusty_wf (as_wot st)" "index_ok (e_wot env) (as_index st) (as_wot st)"
      using assms(2) by (simp_all add: web_of_trust.in_graph_def[OF laws])
    then show ?thesis using valid(7) by simp
  qed (use assms(5,6) in auto)
qed

theorem index_in_graph_witness:
  "\<exists>itc r bc. check_and_apply_block (example_env itc) (genesis_block [PubEd25519 [6]]) new_module = Some (r, bc) \<and>
     index_ok (e_wot (example_env itc)) (bc_wot_index bc) (d_wot (db_wots (bc_dbs bc)))"
proof -
  obtain itc :: "(nat \<times> nat) set \<Rightarrow> (nat \<times> nat) list" where itc: "iterates itc" using iterates_exists by blast
  have run: "check_and_apply_block (example_env itc) (genesis_block [PubEd25519 [6]]) new_module =
      Some (Inl (ApplyValidBlockError ExcludeUnknowNodeId), genesis_module)"
    using genesis_check[OF itc, of "[PubEd25519 [6]]"] by simp
  have "index_ok (e_wot (example_env itc)) (bc_wot_index genesis_module) (d_wot (db_wots (bc_dbs genesis_module)))"
    using index_in_graph[OF run _ iterates_sorted_list_of_set, of Release] itc wf_new[of 10]
    by (simp add: example_env_def new_module_def no_databases_def no_identities_def index_ok_def)
  then show ?thesis using run by blast
qed



text \<open>
  C6: A block is accepted only when it follows the current block, its hashes are right and its
  version does not decrease; its request writes a block with the same number, hash and
  transactions, and never expires a certification. A block stored as a fork or an orphan changes
  only the fork databases, and was not known.
\<close>

theorem accepted_block:
  assumes "check_and_apply_block env b bc = Some (Inr answer, bc')" "iterates (e_certs env)"
  shows "verify_block_hashs (e_crypto env) (e_text env) b = Some (Inr ()) \<and> bc_current bc' = bc_current bc \<and>
    (\<forall>reqs. answer = ValidBlock reqs \<longrightarrow>
      chainable (e_profile env) (bc_current bc) b = Some True \<and>
      verify_block_validity b (db_blockchain (bc_dbs bc)) = Inr () \<and>
      db_forks (bc_dbs bc') = db_forks (bc_dbs bc) \<and>
      (\<exists>blk. ar_block reqs = WriteBlock blk \<and> dal_blockstamp blk = blockstamp_of b \<and>
        b_transactions (db_block blk) = b_transactions b) \<and>
      (\<forall>n. ExpireCerts n \<notin> set (ar_wots reqs))) \<and>
    (answer = ForkBlock \<or> answer = OrphanBlock \<longrightarrow>
      chainable (e_profile env) (bc_current bc) b = Some False \<and>
      (\<exists>forks. bc' = bc\<lparr>bc_dbs := (bc_dbs bc)\<lparr>db_forks := forks\<rparr>\<rparr>) \<and>
      (\<exists>s. blockstamp_of b = Some s \<and> already_have_block (e_profile env) (db_blockchain (bc_dbs bc))
        (db_forks (bc_dbs bc)) s (b_previous_hash b) = Some False))"
  using assms(1)
proof (cases rule: check_and_apply_cases)
  case (valid s r0 st)
  then obtain reqs where reqs: "r0 = Inr reqs" "answer = ValidBlock reqs" by (cases r0) auto
  from apply_valid_block_events[OF valid(5)] reqs(1) obtain s' r' where
    events: "apply_wot_events env s' b Map.empty
      \<lparr>as_index = bc_wot_index bc, as_wot = d_wot (db_wots (bc_dbs bc)), as_requests = []\<rparr> = Some (r', st)"
    and wots: "ar_wots reqs = as_requests st"
    by blast
  have "\<forall>n. ExpireCerts n \<notin> set (ar_wots reqs)"
    using apply_events_applying[OF events assms(2)] wots by (auto simp: applying_def)
  then show ?thesis using valid reqs apply_valid_block_writes[OF valid(5)[unfolded reqs(1)]] by auto
qed auto

theorem accepted_block_witness:
  "\<exists>itc reqs bc. check_and_apply_block (example_env itc) (genesis_block []) new_module =
      Some (Inr (ValidBlock reqs), bc) \<and> (\<forall>n. ExpireCerts n \<notin> set (ar_wots reqs))"
proof -
  obtain itc :: "(nat \<times> nat) set \<Rightarrow> (nat \<times> nat) list" where itc: "iterates itc" using iterates_exists by blast
  from genesis_accepted[OF itc] obtain reduced where
    run: "check_and_apply_block (example_env itc) (genesis_block []) new_module =
      Some (Inr (ValidBlock (genesis_reqs reduced)), genesis_module)" by blast
  have "iterates (e_certs (example_env itc))" using itc by (simp add: example_env_def)
  from accepted_block[OF run this] show ?thesis using run by blast
qed



end
