(* ===== verification/Bc_Fork.thy ===== *)
theory Bc_Fork
  imports Bc_Apply
begin

text \<open>
  The forks of the blockchain module, \<open>lib/modules/blockchain/blockchain/src\<close>: the choice of a
  branch (\<open>fork/fork_algo.rs\<close>), the reversal of a block (\<open>fork/revert_block.rs\<close>), the change of
  branch (\<open>fork/rollback.rs\<close>), the orphans that follow the current block
  (\<open>fork/stackable_blocks.rs\<close>) and the reception of blocks (\<open>dunp/receiver.rs\<close>).
\<close>

subsection \<open>Choice of a branch\<close>

definition advance_blocks :: nat where
  "advance_blocks = 3"

definition advance_time :: nat where
  "advance_time = 900"

text \<open>The three conditions, in the order in which the code evaluates them.\<close>

definition branch_wins :: "profile \<Rightarrow> blockstamp \<Rightarrow> nat \<Rightarrow> blockstamp list \<Rightarrow> nat \<Rightarrow> bool run" where
  "branch_wins p current bc_time branch head_time = do {
     n \<leftarrow> u32_add p (bs_id current) advance_blocks;
     if bs_id (last branch) < n then Some False
     else do {
       t \<leftarrow> u64_add p bc_time advance_time;
       if head_time < t then Some False
       else do {
         first \<leftarrow> u32_add p (bs_id (hd branch)) fork_window_size;
         Some (first > bs_id current)
       }
     }
   }"

fun choose_branch ::
  "profile \<Rightarrow> 'f forks_dbs \<Rightarrow> blockstamp \<Rightarrow> nat \<Rightarrow> blockstamp set \<Rightarrow> (node_ref \<times> blockstamp) list \<Rightarrow>
   blockstamp list option run" where
  "choose_branch p forks current bc_time invalid [] = Some None"
| "choose_branch p forks current bc_time invalid ((i, s) # sheets) =
     (if s = current then choose_branch p forks current bc_time invalid sheets
      else do {
        branch \<leftarrow> get_fork_branch (fd_tree forks) i;
        if branch = [] then choose_branch p forks current bc_time invalid sheets
        else do {
          head \<leftarrow> fd_blocks forks (last branch);
          wins \<leftarrow> branch_wins p current bc_time branch (b_median_time (db_block head));
          if wins \<and> set branch \<inter> invalid = {} then Some (Some branch)
          else choose_branch p forks current bc_time invalid sheets
        }
      })"

definition fork_resolution_algo ::
  "('f, 'w) env \<Rightarrow> 'f forks_dbs \<Rightarrow> blockstamp \<Rightarrow> blockstamp set \<Rightarrow> blockstamp list option run" where
  "fork_resolution_algo env forks current invalid = do {
     b \<leftarrow> fd_blocks forks current;
     sheets \<leftarrow> get_sheets (e_sheets env) (fd_tree forks);
     choose_branch (e_profile env) forks current (b_median_time (db_block b)) invalid (e_sort env sheets)
   }"

subsection \<open>Reversal of a block\<close>

datatype revert_valid_block_error = RevertExcludeUnknowNodeId | RevertRevokeUnknowNodeId | RevertDALError dal_error

record 'f revert_reqs =
  rr_block :: "'f blocks_query"
  rr_wots :: "wots_query list"
  rr_currency :: "currency_query list"

definition reduced_tx :: "currency_dbs \<Rightarrow> tx_doc_or_hash \<Rightarrow> dal_tx run" where
  "reduced_tx dbs tx = (case tx of TxHash h \<Rightarrow> cd_tx dbs h | TxDoc doc \<Rightarrow> None)"

definition revert_expiration ::
  "'w wot_ops \<Rightarrow> (nat \<times> nat \<rightharpoonup> nat) \<Rightarrow> nat \<times> nat \<Rightarrow> 'w apply_state \<Rightarrow> 'w apply_state run" where
  "revert_expiration ops expired = (\<lambda>(source, target) st. do {
     created \<leftarrow> expired (source, target);
     (case w_add_link ops source target (as_wot st) of
        (LinkOk _, w) \<Rightarrow> Some (request (RevertExpireCert source target created) (st\<lparr>as_wot := w\<rparr>))
      | _ \<Rightarrow> None)
   })"

definition revert_certification ::
  "'w wot_ops \<Rightarrow> (certification_document, compact_certification) text_document_format \<Rightarrow>
   'w apply_state \<Rightarrow> 'w apply_state run" where
  "revert_certification ops certification st = do {
     compact_cert \<leftarrow> to_compact_document certification_to_compact certification;
     from_id \<leftarrow> as_index st (cc_issuer compact_cert);
     to_id \<leftarrow> as_index st (cc_target compact_cert);
     (r, w) \<leftarrow> w_rem_link ops from_id to_id (as_wot st);
     (case r of
        Removed _ \<Rightarrow> Some (request (RevertCert compact_cert from_id to_id) (st\<lparr>as_wot := w\<rparr>))
      | _ \<Rightarrow> None)
   }"

definition revert_revocation ::
  "'w wot_ops \<Rightarrow> blockstamp \<Rightarrow> (revocation_document, compact_revocation) text_document_format \<Rightarrow>
   'w apply_state \<Rightarrow> ((revert_valid_block_error + unit) \<times> 'w apply_state) run" where
  "revert_revocation ops s revocation st = do {
     compact_revoc \<leftarrow> to_compact_document revocation_to_compact revocation;
     (case as_index st (cr_issuer compact_revoc) of
        None \<Rightarrow> Some (Inl RevertRevokeUnknowNodeId, st)
      | Some wot_id \<Rightarrow>
          Some (Inr (), request (RevertRevokeIdentity (cr_issuer compact_revoc) s True)
            (enable_node ops wot_id False st)))
   }"

definition revert_exclusion ::
  "'w wot_ops \<Rightarrow> blockstamp \<Rightarrow> pub_key \<Rightarrow> 'w apply_state \<Rightarrow>
   ((revert_valid_block_error + unit) \<times> 'w apply_state) run" where
  "revert_exclusion ops s exclusion st =
     (case as_index st exclusion of
        None \<Rightarrow> Some (Inl RevertExcludeUnknowNodeId, st)
      | Some wot_id \<Rightarrow>
          Some (Inr (), request (RevertExcludeIdentity exclusion s) (enable_node ops wot_id False st)))"

definition revert_active ::
  "'w wot_ops \<Rightarrow> (pub_key \<rightharpoonup> identity_document) \<Rightarrow> nat \<Rightarrow> membership_document \<Rightarrow>
   'w apply_state \<Rightarrow> 'w apply_state run" where
  "revert_active ops idtys median_time active st = do {
     pubkey \<leftarrow> first_of (m_issuers active);
     if idtys pubkey = None then do {
       wot_id \<leftarrow> as_index st pubkey;
       Some (request (RevertRenewalIdentity pubkey wot_id median_time (bs_id (m_blockstamp active)))
         (enable_node ops wot_id True st))
     }
     else Some st
   }"

definition revert_joiner ::
  "'w wot_ops \<Rightarrow> (pub_key \<rightharpoonup> identity_document) \<Rightarrow> nat \<Rightarrow> membership_document \<Rightarrow>
   'w apply_state \<Rightarrow> 'w apply_state run" where
  "revert_joiner ops idtys median_time joiner st = do {
     pubkey \<leftarrow> first_of (m_issuers joiner);
     if idtys pubkey \<noteq> None then
       Some (request (RevertCreateIdentity pubkey)
         (st\<lparr>as_wot := snd (w_rem_node ops (as_wot st)), as_index := (as_index st)(pubkey := None)\<rparr>))
     else do {
       wot_id \<leftarrow> as_index st pubkey;
       Some (request (RevertRenewalIdentity pubkey wot_id median_time (bs_id (m_blockstamp joiner)))
         (enable_node ops wot_id True st))
     }
   }"

definition revert_wot_events ::
  "('f, 'w) env \<Rightarrow> blockstamp \<Rightarrow> 'f block_document \<Rightarrow> (nat \<times> nat \<rightharpoonup> nat) \<Rightarrow> 'w apply_state \<Rightarrow>
   ((revert_valid_block_error + unit) \<times> 'w apply_state) run" where
  "revert_wot_events env s b expired st = do {
     st \<leftarrow> fold_run (revert_expiration (e_wot env) expired) (e_certs env (dom expired)) st;
     st \<leftarrow> fold_run (revert_certification (e_wot env)) (b_certifications b) st;
     and_then (fold_res (revert_revocation (e_wot env) s) (b_revoked b) st) (\<lambda>_ st.
     and_then (fold_res (revert_exclusion (e_wot env) s) (b_excluded b) st) (\<lambda>_ st. do {
       idtys \<leftarrow> block_identities (b_identities b);
       st \<leftarrow> fold_run (revert_active (e_wot env) idtys (b_median_time b)) (b_actives b) st;
       st \<leftarrow> fold_run (revert_joiner (e_wot env) idtys (b_median_time b)) (rev (b_joiners b)) st;
       Some (Inr (), st)
     }))
   }"

definition revert_block ::
  "('f, 'w) env \<Rightarrow> 'f dal_block \<Rightarrow> currency_dbs \<Rightarrow> 'w apply_state \<Rightarrow>
   ((revert_valid_block_error + 'f revert_reqs) \<times> 'w apply_state) run" where
  "revert_block env blk currency st = do {
     expired \<leftarrow> db_expire_certs blk;
     txs \<leftarrow> map_run (reduced_tx currency) (b_transactions (db_block blk));
     b \<leftarrow> compute_inner_hash (e_crypto env) (e_text env) (db_block blk);
     s \<leftarrow> blockstamp_of b;
     let currency_requests = map RevertTx (rev txs) @ du_request (e_wot env) (e_keys env) RevertUD b st;
     and_then (revert_wot_events env s b expired st) (\<lambda>_ st.
       Some (Inr \<lparr>rr_block = RevertBlock blk, rr_wots = as_requests st, rr_currency = currency_requests\<rparr>, st))
   }"

subsection \<open>Change of branch\<close>

definition revert_current :: "('f, 'w) env \<Rightarrow> ('f, 'w) bc_module \<Rightarrow> ('f, 'w) bc_module run" where
  "revert_current env bc = do {
     let dbs = bc_dbs bc;
     blk \<leftarrow> fd_blocks (db_forks dbs) (bc_current bc);
     (r, st) \<leftarrow> revert_block env blk (db_currency dbs)
       \<lparr>as_index = bc_wot_index bc, as_wot = d_wot (db_wots dbs), as_requests = []\<rparr>;
     (case r of
        Inl e \<Rightarrow> None
      | Inr reqs \<Rightarrow> do {
          dbs \<leftarrow> apply_requests env (bc_currency_params bc)
            \<lparr>ar_block = rr_block reqs, ar_wots = rr_wots reqs, ar_currency = rr_currency reqs\<rparr>
            (dbs\<lparr>db_wots := (db_wots dbs)\<lparr>d_wot := as_wot st\<rparr>\<rparr>);
          Some (bc\<lparr>bc_dbs := dbs, bc_wot_index := as_index st\<rparr>)
        })
   }"

text \<open>The \<open>while\<close> loop: its value is \<open>None\<close> when it panics, and when it never ends.\<close>

partial_function (option) revert_branch ::
  "('f, 'w) env \<Rightarrow> nat \<Rightarrow> ('f, 'w) bc_module \<Rightarrow> ('f, 'w) bc_module option" where
  "revert_branch env last_common_block_number bc =
     (if bs_id (bc_current bc) > last_common_block_number then do {
        bc \<leftarrow> revert_current env bc;
        revert_branch env last_common_block_number bc
      }
      else Some bc)"

fun apply_branch :: "('f, 'w) env \<Rightarrow> blockstamp list \<Rightarrow> ('f, 'w) bc_module \<Rightarrow> (bool \<times> ('f, 'w) bc_module) run" where
  "apply_branch env [] bc = Some (True, bc)"
| "apply_branch env (s # branch) bc = do {
     blk \<leftarrow> fd_blocks (db_forks (bc_dbs bc)) s;
     (r, bc) \<leftarrow> check_and_apply_block env (db_block blk) bc;
     (case r of
        Inr (ValidBlock reqs) \<Rightarrow> do {
          dbs \<leftarrow> apply_requests env (bc_currency_params bc) reqs (bc_dbs bc);
          apply_branch env branch (bc\<lparr>bc_current := s, bc_dbs := dbs\<rparr>)
        }
      | _ \<Rightarrow> Some (False, bc\<lparr>bc_invalid_forks := insert s (bc_invalid_forks bc)\<rparr>))
   }"

text \<open>Opening the databases again gives what was last saved in their files.\<close>

definition apply_rollback ::
  "('f, 'w) env \<Rightarrow> blockstamp list \<Rightarrow> ('f, 'w) bc_module \<Rightarrow> ('f, 'w) bc_module run" where
  "apply_rollback env new_bc_branch bc =
     (if new_bc_branch = [] then Some bc
      else do {
        let old_current = bc_current bc;
        bc \<leftarrow> revert_branch env (bs_id (hd new_bc_branch)) bc;
        (new_branch_is_valid, bc) \<leftarrow> apply_branch env new_bc_branch bc;
        if new_branch_is_valid then do {
          forks \<leftarrow> write_main_branch old_current (bc_current bc) (db_forks (bc_dbs bc));
          let dbs = (bc_dbs bc)\<lparr>db_forks := forks\<rparr>;
          blocks \<leftarrow> map_run (\<lambda>s. map_option db_block (fd_blocks forks s)) new_bc_branch;
          Some (bc\<lparr>bc_dbs := dbs, bc_files := dbs, bc_events := bc_events bc @ blocks\<rparr>)
        }
        else Some (bc\<lparr>bc_dbs := bc_files bc\<rparr>)
      })"

subsection \<open>Orphans that follow the current block\<close>

fun try_stackables ::
  "('f, 'w) env \<Rightarrow> 'f dal_block list \<Rightarrow> ('f, 'w) bc_module \<Rightarrow> (bool \<times> ('f, 'w) bc_module) run" where
  "try_stackables env [] bc = Some (False, bc)"
| "try_stackables env (blk # blks) bc = do {
     s \<leftarrow> dal_blockstamp blk;
     (r, bc) \<leftarrow> check_and_apply_block env (db_block blk) bc;
     (case r of
        Inr (ValidBlock reqs) \<Rightarrow> do {
          dbs \<leftarrow> apply_requests env (bc_currency_params bc) reqs (bc_dbs bc);
          Some (True, bc\<lparr>bc_dbs := dbs, bc_current := s,
            bc_events := bc_events bc @ [get_block_doc_copy (ar_block reqs)]\<rparr>)
        }
      | _ \<Rightarrow> try_stackables env blks bc)
   }"

definition stack_round :: "('f, 'w) env \<Rightarrow> ('f, 'w) bc_module \<Rightarrow> (bool \<times> ('f, 'w) bc_module) run" where
  "stack_round env bc = try_stackables env (get_stackables_blocks (db_forks (bc_dbs bc)) (bc_current bc)) bc"

partial_function (option) apply_stackable_blocks ::
  "('f, 'w) env \<Rightarrow> ('f, 'w) bc_module \<Rightarrow> ('f, 'w) bc_module option" where
  "apply_stackable_blocks env bc =
     (if get_stackables_blocks (db_forks (bc_dbs bc)) (bc_current bc) = [] then Some bc
      else do {
        (applied, bc) \<leftarrow> stack_round env bc;
        if applied then apply_stackable_blocks env bc else Some (bc\<lparr>bc_files := bc_dbs bc\<rparr>)
      })"

subsection \<open>Reception of blocks\<close>

text \<open>The three flags say which databases are saved in the end.\<close>

record save_flags =
  sf_blocks :: bool
  sf_wots :: bool
  sf_currency :: bool

definition receive_block ::
  "('f, 'w) env \<Rightarrow> 'f block_document \<Rightarrow> ('f, 'w) bc_module \<times> save_flags \<Rightarrow>
   (('f, 'w) bc_module \<times> save_flags) run" where
  "receive_block env b = (\<lambda>(bc, flags). do {
     s \<leftarrow> blockstamp_of b;
     (r, bc) \<leftarrow> check_and_apply_block env b bc;
     (case r of
        Inr (ValidBlock reqs) \<Rightarrow> do {
          let new_current = get_block_doc_copy (ar_block reqs);
          s \<leftarrow> blockstamp_of new_current;
          dbs \<leftarrow> apply_requests env (bc_currency_params bc) reqs (bc_dbs bc);
          Some (bc\<lparr>bc_current := s, bc_dbs := dbs, bc_events := bc_events bc @ [new_current]\<rparr>,
            \<lparr>sf_blocks = True, sf_wots = sf_wots flags \<or> ar_wots reqs \<noteq> [],
             sf_currency = sf_currency flags \<or> ar_currency reqs \<noteq> []\<rparr>)
        }
      | Inr ForkBlock \<Rightarrow> do {
          branch \<leftarrow> fork_resolution_algo env (db_forks (bc_dbs bc)) (bc_current bc) (bc_invalid_forks bc);
          (case branch of
             Some new_bc_branch \<Rightarrow> do { bc \<leftarrow> apply_rollback env new_bc_branch bc; Some (bc, flags) }
           | None \<Rightarrow> Some (bc, flags))
        }
      | Inr OrphanBlock \<Rightarrow> Some (bc, flags)
      | Inl e \<Rightarrow> Some (bc, flags))
   })"

definition save_databases :: "save_flags \<Rightarrow> ('f, 'w) bc_module \<Rightarrow> ('f, 'w) bc_module" where
  "save_databases flags bc =
     (let dbs = bc_dbs bc; files = bc_files bc;
        files = (if sf_blocks flags
          then files\<lparr>db_blockchain := db_blockchain dbs, db_forks := db_forks dbs\<rparr> else files);
        files = (if sf_wots flags then files\<lparr>db_wots := db_wots dbs\<rparr> else files);
        files = (if sf_currency flags then files\<lparr>db_currency := db_currency dbs\<rparr> else files)
      in bc\<lparr>bc_files := files\<rparr>)"

definition receive_blocks ::
  "('f, 'w) env \<Rightarrow> 'f block_document list \<Rightarrow> ('f, 'w) bc_module \<Rightarrow> ('f, 'w) bc_module run" where
  "receive_blocks env blocks bc = do {
     (bc, flags) \<leftarrow> fold_run (receive_block env) blocks
       (bc, \<lparr>sf_blocks = False, sf_wots = False, sf_currency = False\<rparr>);
     Some (save_databases flags bc)
   }"

subsection \<open>The loops\<close>

text \<open>Reverting a block does not move the current block, so the loop ends only where it starts.\<close>

lemma revert_current_same: "revert_current env bc = Some bc' \<Longrightarrow> bc_current bc' = bc_current bc"
  by (auto simp: revert_current_def Let_def split: bind_splits sum.splits)

lemma revert_branch_ends:
  assumes "revert_branch env n bc = Some bc'"
  shows "bs_id (bc_current bc) \<le> n"
proof (rule revert_branch.raw_induct[OF _ assms, where P = "\<lambda>env n bc bc'. bs_id (bc_current bc) \<le> n"])
  fix loop env n bc bc'
  assume ih: "\<And>env n bc bc'. loop env n bc = Some bc' \<Longrightarrow> bs_id (bc_current bc) \<le> n"
    and run: "(if n < bs_id (bc_current bc) then revert_current env bc \<bind> loop env n else Some bc) = Some bc'"
  show "bs_id (bc_current bc) \<le> n"
  proof (rule ccontr)
    assume "\<not> bs_id (bc_current bc) \<le> n"
    then obtain bc1 where "revert_current env bc = Some bc1" "loop env n bc1 = Some bc'"
      using run by (auto split: bind_splits)
    then show False using ih[of env n bc1 bc'] revert_current_same \<open>\<not> bs_id (bc_current bc) \<le> n\<close> by metis
  qed
qed

lemma revert_branch_same: "bs_id (bc_current bc) \<le> n \<Longrightarrow> revert_branch env n bc = Some bc"
  by (subst revert_branch.simps) simp

lemma not_chainable:
  assumes "b_number b = bs_id current" "0 < bs_id current"
  shows "chainable p current b \<noteq> Some True"
proof -
  have "(bs_id current + 1) mod 4294967296 \<noteq> bs_id current" if "\<not> bs_id current + 1 < 4294967296"
  proof
    assume eq: "(bs_id current + 1) mod 4294967296 = bs_id current"
    have "(bs_id current + 1) mod 4294967296 < 4294967296" by simp
    then have "bs_id current + 1 = 4294967296" using that eq by linarith
    then show False using eq by simp
  qed
  then show ?thesis
    using assms by (auto simp: chainable_def u32_add_def split: bind_splits if_splits profile.splits)
qed

text \<open>A block that waits for the current one is chainable: it is accepted, or refused.\<close>

definition follows :: "blockstamp \<Rightarrow> 'f dal_block \<Rightarrow> bool" where
  "follows current blk \<longleftrightarrow> b_number (db_block blk) = Suc (bs_id current) \<and>
     b_previous_hash (db_block blk) = bs_hash current \<and> b_number (db_block blk) < 2 ^ 32"

lemma follows_check:
  assumes "check_and_apply_block env (db_block blk) bc = Some (r, bc')" "follows (bc_current bc) blk"
    and "iterates (e_certs env)"
  shows "db_forks (bc_dbs bc') = db_forks (bc_dbs bc) \<and> bc_current bc' = bc_current bc \<and>
    (\<forall>answer. r = Inr answer \<longrightarrow> (\<exists>reqs b. answer = ValidBlock reqs \<and> ar_block reqs = WriteBlock b))"
proof -
  have next_block: "chainable p (bc_current bc) (db_block blk) = Some True" for p
    using assms(2) by (simp add: follows_def chainable_def)
  from assms(1) show ?thesis
  proof (cases rule: check_and_apply_cases)
    case (valid s r0 st)
    show ?thesis
    proof (cases r0)
      case (Inr reqs)
      then show ?thesis using valid apply_valid_block_writes[OF valid(5)[unfolded Inr]] by auto
    qed (use valid in auto)
  qed (use next_block in auto)
qed

lemma write_block_orphans:
  assumes "apply_requests env params reqs dbs = Some dbs'" "ar_block reqs = WriteBlock b"
  shows "fd_orphans (db_forks dbs') = fd_orphans (db_forks dbs)"
  using assms by (auto simp: apply_requests_def write_head_block_def Let_def split: bind_splits)

lemma try_stackables_progress:
  assumes "try_stackables env blks bc = Some (applied, bc')" "\<forall>blk\<in>set blks. follows (bc_current bc) blk"
    and "iterates (e_certs env)"
  shows "fd_orphans (db_forks (bc_dbs bc')) = fd_orphans (db_forks (bc_dbs bc)) \<and>
    bs_id (bc_current bc') = (if applied then Suc (bs_id (bc_current bc)) else bs_id (bc_current bc))"
  using assms(1,2)
proof (induction blks arbitrary: bc)
  case (Cons blk blks)
  from Cons.prems(1) obtain s r bc1 where s: "dal_blockstamp blk = Some s"
    and check: "check_and_apply_block env (db_block blk) bc = Some (r, bc1)"
    by (auto split: bind_splits)
  have blk: "follows (bc_current bc) blk" using Cons.prems(2) by simp
  note keeps = follows_check[OF check blk assms(3)]
  show ?case
  proof (cases r)
    case (Inl e)
    then have "try_stackables env blks bc1 = Some (applied, bc')" using Cons.prems(1) s check by simp
    then show ?thesis using Cons.IH[of bc1] Cons.prems(2) keeps by simp
  next
    case (Inr answer)
    then obtain reqs b where reqs: "answer = ValidBlock reqs" "ar_block reqs = WriteBlock b" using keeps by blast
    then obtain dbs where dbs: "apply_requests env (bc_currency_params bc1) reqs (bc_dbs bc1) = Some dbs"
      and bc': "applied" "bc' = bc1\<lparr>bc_dbs := dbs, bc_current := s,
        bc_events := bc_events bc1 @ [get_block_doc_copy (ar_block reqs)]\<rparr>"
      using Cons.prems(1) s check Inr by (auto split: bind_splits)
    have "bs_id s = Suc (bs_id (bc_current bc))" using s blk by (simp add: dal_blockstamp_iff follows_def)
    then show ?thesis using write_block_orphans[OF dbs reqs(2)] bc' keeps by simp
  qed
qed simp

text \<open>The rounds of the loop, each of which moves the current block.\<close>

inductive stacked :: "('f, 'w) env \<Rightarrow> ('f, 'w) bc_module \<Rightarrow> ('f, 'w) bc_module \<Rightarrow> bool" for env where
  start: "stacked env bc bc"
| round: "stack_round env bc = Some (True, bc1) \<Longrightarrow> stacked env bc1 bc2 \<Longrightarrow> stacked env bc bc2"

lemma stackables_follow:
  assumes "orphans_ok (fd_orphans forks)"
    and "\<forall>s bs b. fd_orphans forks s = Some bs \<longrightarrow> b \<in> set bs \<longrightarrow> b_number (db_block b) < 2 ^ 32"
  shows "\<forall>blk\<in>set (get_stackables_blocks forks current). follows current blk"
proof (cases "fd_orphans forks current")
  case (Some bs)
  then have "\<forall>b\<in>set bs. b_number (db_block b) = Suc (bs_id current) \<and> b_previous_hash (db_block b) = bs_hash current"
    using assms(1) by (simp add: orphans_ok_def)
  moreover have "\<forall>b\<in>set bs. b_number (db_block b) < 2 ^ 32" using assms(2) Some by blast
  ultimately show ?thesis using Some by (simp add: get_stackables_blocks_def follows_def)
qed (simp add: get_stackables_blocks_def)

subsection \<open>Winning branches\<close>

definition winning :: "'f forks_dbs \<Rightarrow> blockstamp \<Rightarrow> blockstamp set \<Rightarrow> node_ref \<Rightarrow> blockstamp list \<Rightarrow> bool" where
  "winning forks current invalid i branch \<longleftrightarrow>
     get_fork_branch (fd_tree forks) i = Some branch \<and> branch \<noteq> [] \<and> set branch \<inter> invalid = {} \<and>
     bs_id current + 3 \<le> bs_id (last branch) \<and> bs_id current < bs_id (hd branch) + 200 \<and>
     (\<exists>b h. fd_blocks forks current = Some b \<and> fd_blocks forks (last branch) = Some h \<and>
       b_median_time (db_block b) + 900 \<le> b_median_time (db_block h))"

lemma branch_wins_iff:
  assumes "bs_id current + 3 < 2 ^ 32" "bc_time + 900 < 2 ^ 64" "bs_id (hd branch) + 200 < 2 ^ 32"
  shows "branch_wins p current bc_time branch head_time = Some (bs_id current + 3 \<le> bs_id (last branch) \<and>
    bc_time + 900 \<le> head_time \<and> bs_id current < bs_id (hd branch) + 200)"
  using assms by (auto simp: branch_wins_def advance_blocks_def advance_time_def fork_window_size_def)

lemma choose_branch_spec:
  assumes "choose_branch p forks current (b_median_time (db_block b)) invalid sheets = Some r"
    and "fd_blocks forks current = Some b"
    and "bs_id current + 3 < 2 ^ 32" "b_median_time (db_block b) + 900 < 2 ^ 64"
    and "\<And>i s branch. (i, s) \<in> set sheets \<Longrightarrow> get_fork_branch (fd_tree forks) i = Some branch \<Longrightarrow>
      branch \<noteq> [] \<Longrightarrow> bs_id (hd branch) + 200 < 2 ^ 32"
  shows "case r of
      None \<Rightarrow> \<forall>(j, s)\<in>set sheets. s = current \<or> (\<forall>branch. \<not> winning forks current invalid j branch)
    | Some branch \<Rightarrow> \<exists>xs i s ys. sheets = xs @ (i, s) # ys \<and> s \<noteq> current \<and> winning forks current invalid i branch \<and>
        (\<forall>(j, s)\<in>set xs. s = current \<or> (\<forall>branch. \<not> winning forks current invalid j branch))"
  using assms(1,5)
proof (induction sheets)
  case (Cons x sheets)
  obtain i s where x: "x = (i, s)" by fastforce
  have skip: ?case if "choose_branch p forks current (b_median_time (db_block b)) invalid sheets = Some r"
    and "s = current \<or> (\<forall>branch. \<not> winning forks current invalid i branch)"
  proof -
    from Cons.IH[OF that(1)] Cons.prems(2) have ih: "case r of
      None \<Rightarrow> \<forall>(j, s)\<in>set sheets. s = current \<or> (\<forall>branch. \<not> winning forks current invalid j branch)
    | Some branch \<Rightarrow> \<exists>xs i s ys. sheets = xs @ (i, s) # ys \<and> s \<noteq> current \<and> winning forks current invalid i branch \<and>
        (\<forall>(j, s)\<in>set xs. s = current \<or> (\<forall>branch. \<not> winning forks current invalid j branch))" by auto
    show ?thesis
    proof (cases r)
      case (Some branch)
      then obtain xs j t ys where "sheets = xs @ (j, t) # ys" "t \<noteq> current" "winning forks current invalid j branch"
        "\<forall>(j, s)\<in>set xs. s = current \<or> (\<forall>branch. \<not> winning forks current invalid j branch)"
        using ih by auto
      moreover from this have "x # sheets = (x # xs) @ (j, t) # ys" by simp
      moreover have "\<forall>(j, s)\<in>set (x # xs). s = current \<or> (\<forall>branch. \<not> winning forks current invalid j branch)"
        using calculation(4) that(2) x by auto
      ultimately show ?thesis unfolding Some option.case by blast
    qed (use ih that(2) x in auto)
  qed
  show ?case
  proof (cases "s = current")
    case True
    then show ?thesis using skip Cons.prems(1) x by simp
  next
    case False
    then obtain branch where branch: "get_fork_branch (fd_tree forks) i = Some branch"
      using Cons.prems(1) x by (auto split: bind_splits)
    show ?thesis
    proof (cases "branch = []")
      case True
      then show ?thesis using skip Cons.prems(1) x False branch by (auto simp: winning_def)
    next
      case nonempty: False
      then obtain h where h: "fd_blocks forks (last branch) = Some h"
        using Cons.prems(1) x False branch by (auto split: bind_splits)
      have "bs_id (hd branch) + 200 < 2 ^ 32" using Cons.prems(2) x branch nonempty by auto
      note wins = branch_wins_iff[OF assms(3,4) this, of p "b_median_time (db_block h)"]
      have "winning forks current invalid i branch' \<longleftrightarrow> branch' = branch \<and>
          branch_wins p current (b_median_time (db_block b)) branch (b_median_time (db_block h)) = Some True \<and>
          set branch \<inter> invalid = {}" for branch'
        using branch nonempty h assms(2) wins by (auto simp: winning_def)
      then show ?thesis
        using skip Cons.prems(1) x False branch nonempty h wins
        by (cases r) (auto split: if_splits intro!: exI[of _ "[]"])
    qed
  qed
qed simp

lemma get_sheets_set:
  assumes "get_sheets it t = Some xs"
  shows "set xs = {(i, s). i \<in> set (it (ft_sheets t)) \<and> block_at t i = Some s}"
proof -
  have "set xs = {(i, s). i \<in> set is \<and> block_at t i = Some s}"
    if "map_run (\<lambda>s. do { n \<leftarrow> get_ref_node t s; Some (s, tn_data n) }) is = Some xs" for "is"
    using that by (induction "is" arbitrary: xs) (auto simp: block_at_def split: bind_splits)
  then show ?thesis using assms by (simp add: get_sheets_def)
qed

lemma sheet_block:
  assumes "get_sheets it t = Some sheets" "iterates it" "finite (ft_sheets t)" "i \<in> ft_sheets t"
  shows "\<exists>s. block_at t i = Some s"
proof -
  have "i \<in> set (it (ft_sheets t))" using assms(4) iterates_set[OF assms(2,3)] by simp
  moreover have "\<exists>s. block_at t i = Some s"
    if "map_run (\<lambda>s. do { n \<leftarrow> get_ref_node t s; Some (s, tn_data n) }) is = Some xs" "i \<in> set is" for "is" xs
    using that by (induction "is" arbitrary: xs) (auto simp: block_at_def split: bind_splits)
  ultimately show ?thesis using assms(1) by (auto simp: get_sheets_def)
qed

text \<open>
  C9: The fork resolution answers a branch exactly when some sheet other than the current block has
  one that wins: at least three blocks and fifteen minutes ahead of the current block, starting in
  the fork window, without invalid block. Among the winning sheets it takes one of the highest.
\<close>

theorem fork_resolution_chooses:
  assumes run: "fork_resolution_algo env forks current invalid = Some r"
    and order: "iterates (e_sheets env)" "finite (ft_sheets (fd_tree forks))"
    and sort: "\<And>xs. set (e_sort env xs) = set xs"
      "\<And>xs. sorted_wrt (\<lambda>x y. bs_id (snd y) \<le> bs_id (snd x)) (e_sort env xs)"
    and small: "bs_id current + 3 < 2 ^ 32"
      "\<And>b. fd_blocks forks current = Some b \<Longrightarrow> b_median_time (db_block b) + 900 < 2 ^ 64"
      "\<And>i branch. i \<in> ft_sheets (fd_tree forks) \<Longrightarrow> get_fork_branch (fd_tree forks) i = Some branch \<Longrightarrow>
        branch \<noteq> [] \<Longrightarrow> bs_id (hd branch) + 200 < 2 ^ 32"
  shows "case r of
      None \<Rightarrow> \<forall>i\<in>ft_sheets (fd_tree forks). block_at (fd_tree forks) i \<noteq> Some current \<longrightarrow>
        (\<forall>branch. \<not> winning forks current invalid i branch)
    | Some branch \<Rightarrow> \<exists>i\<in>ft_sheets (fd_tree forks). \<exists>s. block_at (fd_tree forks) i = Some s \<and> s \<noteq> current \<and>
        winning forks current invalid i branch \<and>
        (\<forall>j\<in>ft_sheets (fd_tree forks). \<forall>s'. block_at (fd_tree forks) j = Some s' \<longrightarrow> s' \<noteq> current \<longrightarrow>
          (\<exists>branch'. winning forks current invalid j branch') \<longrightarrow> bs_id s' \<le> bs_id s)"
proof -
  let ?t = "fd_tree forks"
  from run obtain b sheets where b: "fd_blocks forks current = Some b"
    and sheets: "get_sheets (e_sheets env) ?t = Some sheets"
    and chosen: "choose_branch (e_profile env) forks current (b_median_time (db_block b)) invalid
      (e_sort env sheets) = Some r"
    by (auto simp: fork_resolution_algo_def split: bind_splits)
  have set: "set (e_sort env sheets) = {(i, s). i \<in> ft_sheets ?t \<and> block_at ?t i = Some s}"
    using get_sheets_set[OF sheets] iterates_set[OF order] sort(1) by simp
  note all = sheet_block[OF sheets order]
  have spec: "case r of
      None \<Rightarrow> \<forall>(j, s)\<in>set (e_sort env sheets). s = current \<or> (\<forall>branch. \<not> winning forks current invalid j branch)
    | Some branch \<Rightarrow> \<exists>xs i s ys. e_sort env sheets = xs @ (i, s) # ys \<and> s \<noteq> current \<and>
        winning forks current invalid i branch \<and>
        (\<forall>(j, s)\<in>set xs. s = current \<or> (\<forall>branch. \<not> winning forks current invalid j branch))"
    by (rule choose_branch_spec[OF chosen b small(1) small(2)[OF b]]) (use small(3) set in auto)
  show ?thesis
  proof (cases r)
    case None
    then have "\<forall>j s. j \<in> ft_sheets ?t \<and> block_at ?t j = Some s \<longrightarrow>
        s = current \<or> (\<forall>branch. \<not> winning forks current invalid j branch)"
      using spec by (auto simp: set)
    then have "\<forall>j\<in>ft_sheets ?t. block_at ?t j \<noteq> Some current \<longrightarrow>
        (\<forall>branch. \<not> winning forks current invalid j branch)"
      using all by metis
    then show ?thesis using None by simp
  next
    case (Some branch)
    then obtain xs i s ys where split: "e_sort env sheets = xs @ (i, s) # ys" "s \<noteq> current"
      "winning forks current invalid i branch"
      "\<forall>(j, s)\<in>set xs. s = current \<or> (\<forall>branch. \<not> winning forks current invalid j branch)"
      using spec by auto
    have i: "i \<in> ft_sheets ?t" "block_at ?t i = Some s" using set split(1) by auto
    have "bs_id s' \<le> bs_id s" if "j \<in> ft_sheets ?t" "block_at ?t j = Some s'" "s' \<noteq> current"
      "winning forks current invalid j branch'" for j s' branch'
    proof -
      have "(j, s') \<in> set (e_sort env sheets)" using set that by auto
      moreover have "(j, s') \<notin> set xs" using split(4) that(3,4) by auto
      ultimately have "(j, s') = (i, s) \<or> (j, s') \<in> set ys" using split(1) by auto
      then show ?thesis using sort(2)[of sheets] split(1) by (auto simp: sorted_wrt_append)
    qed
    then show ?thesis unfolding Some option.case using i split(2,3) by blast
  qed
qed

text \<open>A branch whose first block is stored is given up at that block.\<close>

lemma rollback_refused:
  assumes stored: "\<And>blk. fd_blocks (db_forks (bc_dbs bc)) s = Some blk \<Longrightarrow> dal_blockstamp blk = Some s"
    and "0 < bs_id s" "bs_id s \<le> bs_id (bc_current bc)"
    and run: "apply_rollback env (s # branch) bc = Some bc'"
  shows "bs_id s = bs_id (bc_current bc) \<and>
    bc' = bc\<lparr>bc_dbs := bc_files bc, bc_invalid_forks := insert s (bc_invalid_forks bc)\<rparr>"
proof -
  from run obtain bc1 where bc1: "revert_branch env (bs_id s) bc = Some bc1"
    by (auto simp: apply_rollback_def Let_def split: bind_splits)
  have height: "bs_id s = bs_id (bc_current bc)" using revert_branch_ends[OF bc1] assms(3) by simp
  then have "bc1 = bc" using revert_branch_same[of bc "bs_id s" env] bc1 by simp
  with run bc1 obtain valid bc2 where bc2: "apply_branch env (s # branch) bc = Some (valid, bc2)"
    by (auto simp: apply_rollback_def Let_def split: bind_splits)
  from bc2 obtain blk r bc3 where blk: "fd_blocks (db_forks (bc_dbs bc)) s = Some blk"
    and check: "check_and_apply_block env (db_block blk) bc = Some (r, bc3)"
    by (auto split: bind_splits)
  have number: "b_number (db_block blk) = bs_id (bc_current bc)" "blockstamp_of (db_block blk) = Some s"
    using stored[OF blk] height by (simp add: dal_blockstamp_iff, simp add: dal_blockstamp_def)
  have "bc3 = bc \<and> (\<exists>e. r = Inl e)"
    using check
  proof (cases rule: check_and_apply_cases)
    case (valid s' r0 st)
    then show ?thesis using not_chainable[OF number(1)] assms(2) height by simp
  next
    case (fork s' inserted forks)
    then have "already_have_block (e_profile env) (db_blockchain (bc_dbs bc)) (db_forks (bc_dbs bc)) s
        (b_previous_hash (db_block blk)) = Some False" using number(2) by simp
    then show ?thesis using blk assms(2) by (simp add: already_have_block_def)
  qed auto
  then have "valid = False" "bc2 = bc\<lparr>bc_invalid_forks := insert s (bc_invalid_forks bc)\<rparr>"
    using bc2 blk check by auto
  then show ?thesis
    using run bc1 \<open>bc1 = bc\<close> bc2 height
    by (cases bc) (auto simp: apply_rollback_def simp del: apply_branch.simps)
qed


text \<open>
  C10: Unless a round panics, the application of the orphans that follow the current block ends:
  every round that continues moves the current block one block up the finite set of orphans. It
  stops when no orphan is left for the current block or when all of them have been refused.
\<close>

theorem stackables_end:
  assumes "iterates (e_certs env)" "orphans_ok (fd_orphans (db_forks (bc_dbs bc)))"
    and "\<forall>s bs b. fd_orphans (db_forks (bc_dbs bc)) s = Some bs \<longrightarrow> b \<in> set bs \<longrightarrow> b_number (db_block b) < 2 ^ 32"
    and "\<forall>bc'. stacked env bc bc' \<longrightarrow> stack_round env bc' \<noteq> None"
  shows "\<exists>bc1 bc2. stacked env bc bc1 \<and> stack_round env bc1 = Some (False, bc2) \<and>
    apply_stackable_blocks env bc =
      Some (if get_stackables_blocks (db_forks (bc_dbs bc1)) (bc_current bc1) = [] then bc1
        else bc2\<lparr>bc_files := bc_dbs bc2\<rparr>)"
proof -
  let ?orphans = "\<lambda>bc. fd_orphans (db_forks (bc_dbs bc))"
  obtain n where n: "\<forall>s bs b. ?orphans bc s = Some bs \<longrightarrow> b \<in> set bs \<longrightarrow> bs_id s < n"
    using orphans_bound[OF assms(2)] by blast
  from assms n show ?thesis
  proof (induction "n - bs_id (bc_current bc)" arbitrary: bc rule: less_induct)
    case less
    let ?blks = "get_stackables_blocks (db_forks (bc_dbs bc)) (bc_current bc)"
    have follow: "\<forall>blk\<in>set ?blks. follows (bc_current bc) blk"
      by (rule stackables_follow) (use less.prems in auto)
    have "stack_round env bc \<noteq> None" using less.prems(4) stacked.start by blast
    then obtain applied bc1 where round: "stack_round env bc = Some (applied, bc1)" by auto
    show ?case
    proof (cases applied)
      case False
      then have "stack_round env bc = Some (False, bc1)" using round by simp
      moreover have "apply_stackable_blocks env bc = Some (if ?blks = [] then bc else bc1\<lparr>bc_files := bc_dbs bc1\<rparr>)"
        using round False by (subst apply_stackable_blocks.simps) auto
      ultimately show ?thesis using stacked.start by blast
    next
      case True
      then have round1: "stack_round env bc = Some (True, bc1)" using round by simp
      then have blks: "?blks \<noteq> []" by (auto simp: stack_round_def)
      from try_stackables_progress[OF round1[unfolded stack_round_def] follow less.prems(1)]
      have step: "?orphans bc1 = ?orphans bc" "bs_id (bc_current bc1) = Suc (bs_id (bc_current bc))" by auto
      have "bs_id (bc_current bc) < n"
      proof (cases "?orphans bc (bc_current bc)")
        case (Some bs)
        then have "hd bs \<in> set bs" using blks by (simp add: get_stackables_blocks_def)
        then show ?thesis using less.prems(5) Some by blast
      qed (use blks in \<open>simp add: get_stackables_blocks_def\<close>)
      then have "\<exists>bc2 bc3. stacked env bc1 bc2 \<and> stack_round env bc2 = Some (False, bc3) \<and>
          apply_stackable_blocks env bc1 =
            Some (if get_stackables_blocks (db_forks (bc_dbs bc2)) (bc_current bc2) = [] then bc2
              else bc3\<lparr>bc_files := bc_dbs bc3\<rparr>)"
        using less.prems step stacked.round[OF round1] by (intro less.hyps) auto
      moreover have "apply_stackable_blocks env bc = apply_stackable_blocks env bc1"
        using blks round1 by (subst apply_stackable_blocks.simps) simp
      ultimately show ?thesis using stacked.round[OF round1] by metis
    qed
  qed
qed

text \<open>A fork that is four blocks long when the main branch has two.\<close>

definition newest_first :: "(node_ref \<times> blockstamp) list \<Rightarrow> (node_ref \<times> blockstamp) list" where
  "newest_first xs = rev (sort_key (\<lambda>x. bs_id (snd x)) xs)"

lemma newest_first_spec:
  "set (newest_first xs) = set xs"
  "sorted_wrt (\<lambda>x y. bs_id (snd y) \<le> bs_id (snd x)) (newest_first xs)"
proof -
  show "set (newest_first xs) = set xs" by (simp add: newest_first_def)
  have "sorted (map (\<lambda>x. bs_id (snd x)) (sort_key (\<lambda>x. bs_id (snd x)) xs))" by simp
  then show "sorted_wrt (\<lambda>x y. bs_id (snd y) \<le> bs_id (snd x)) (newest_first xs)"
    by (simp add: newest_first_def sorted_wrt_rev sorted_map)
qed

definition forked_env :: "(nat, rusty_wot) env" where
  "forked_env = (example_env (\<lambda>_. []))\<lparr>e_sort := newest_first\<rparr>"

definition forked_tree :: fork_tree where
  "forked_tree = \<lparr>ft_root = Some 0,
     ft_nodes = [Some \<lparr>tn_parent = None, tn_children = [1, 2], tn_data = Blockstamp 0 (Hash [0])\<rparr>,
       Some \<lparr>tn_parent = Some 0, tn_children = [], tn_data = Blockstamp 1 (Hash [1])\<rparr>,
       Some \<lparr>tn_parent = Some 0, tn_children = [3], tn_data = Blockstamp 1 (Hash [7])\<rparr>,
       Some \<lparr>tn_parent = Some 2, tn_children = [4], tn_data = Blockstamp 2 (Hash [7])\<rparr>,
       Some \<lparr>tn_parent = Some 3, tn_children = [5], tn_data = Blockstamp 3 (Hash [7])\<rparr>,
       Some \<lparr>tn_parent = Some 4, tn_children = [], tn_data = Blockstamp 4 (Hash [7])\<rparr>],
     ft_main = [0 \<mapsto> 0, 1 \<mapsto> 1], ft_sheets = {1, 5}, ft_removed = []\<rparr>"

definition forked_block :: "nat \<Rightarrow> nat \<Rightarrow> nat dal_block" where
  "forked_block n t = \<lparr>db_block = (genesis_block [])\<lparr>b_number := n, b_median_time := t,
     b_previous_issuer := Some (PubEd25519 [5])\<rparr>, db_expire_certs = None\<rparr>"

definition forked :: "nat forks_dbs" where
  "forked = \<lparr>fd_tree = forked_tree,
     fd_blocks = (\<lambda>s. if s = Blockstamp 1 (Hash [1]) then Some (forked_block 1 0)
       else if bs_hash s = Hash [7] then Some (forked_block (bs_id s) 900) else None),
     fd_orphans = Map.empty\<rparr>"

lemmas forked_eval = get_ref_node_def vec_get_def on_main_branch_def get_main_branch_block_hash_def forked_tree_def

lemma forked_branch:
  "get_fork_branch forked_tree 5 = Some (map (\<lambda>n. Blockstamp n (Hash [7])) [1, 2, 3, 4])"
proof -
  let ?emit = "\<lambda>i n. tn_data n"
  have "climb ?emit forked_tree 0 acc = Some acc" for acc
    by (subst climb.simps) (simp add: forked_eval)
  then have "climb ?emit forked_tree 2 acc = Some (acc @ [Blockstamp 1 (Hash [7])])" for acc
    by (subst climb.simps) (simp add: forked_eval)
  then have "climb ?emit forked_tree 3 acc = Some (acc @ [Blockstamp 2 (Hash [7]), Blockstamp 1 (Hash [7])])" for acc
    by (subst climb.simps) (simp add: forked_eval)
  then have "climb ?emit forked_tree 4 acc =
      Some (acc @ [Blockstamp 3 (Hash [7]), Blockstamp 2 (Hash [7]), Blockstamp 1 (Hash [7])])" for acc
    by (subst climb.simps) (simp add: forked_eval)
  then show ?thesis by (simp add: get_fork_branch_def forked_eval)
qed

lemma forked_resolution:
  "fork_resolution_algo forked_env forked (Blockstamp 1 (Hash [1])) {} =
    Some (Some (map (\<lambda>n. Blockstamp n (Hash [7])) [1, 2, 3, 4]))"
proof -
  have "e_sheets forked_env {1, 5} = [1, 5]" by (simp add: forked_env_def example_env_def)
  then have "get_sheets (e_sheets forked_env) forked_tree =
      Some [(1, Blockstamp 1 (Hash [1])), (5, Blockstamp 4 (Hash [7]))]"
    by (simp add: get_sheets_def forked_eval)
  moreover have "e_sort forked_env [(1, Blockstamp 1 (Hash [1])), (5, Blockstamp 4 (Hash [7]))] =
      [(5, Blockstamp 4 (Hash [7])), (1, Blockstamp 1 (Hash [1]))]"
    by (simp add: forked_env_def newest_first_def)
  ultimately show ?thesis
    using forked_branch
    by (simp add: fork_resolution_algo_def forked_def forked_block_def branch_wins_def advance_blocks_def
        advance_time_def fork_window_size_def)
qed

theorem fork_resolution_chooses_witness:
  "\<exists>branch. fork_resolution_algo forked_env forked (Blockstamp 1 (Hash [1])) {} = Some (Some branch) \<and>
     (\<exists>i\<in>{1, 5}. winning forked (Blockstamp 1 (Hash [1])) {} i branch)"
proof -
  have "climb (\<lambda>i n. tn_data n) forked_tree 0 acc = Some acc" for acc
    by (subst climb.simps) (simp add: forked_eval)
  then have "get_fork_branch forked_tree 1 = Some [Blockstamp 1 (Hash [1])]"
    by (simp add: get_fork_branch_def forked_eval)
  then have short: "bs_id (hd branch) + 200 < 2 ^ 32"
    if "i \<in> ft_sheets (fd_tree forked)" "get_fork_branch (fd_tree forked) i = Some branch" for i branch
    using that forked_branch by (auto simp: forked_def) (auto simp: forked_tree_def)
  have "iterates (e_sheets forked_env)" by (simp add: forked_env_def example_env_def iterates_sorted_list_of_set)
  from fork_resolution_chooses[OF forked_resolution this, simplified option.case]
  show ?thesis
    using forked_resolution short newest_first_spec
    by (auto simp: forked_env_def forked_def forked_tree_def forked_block_def)
qed

definition forked_module :: "(nat, rusty_wot) bc_module" where
  "forked_module = new_module\<lparr>bc_dbs := no_databases\<lparr>db_forks := forked\<rparr>, bc_current := Blockstamp 1 (Hash [1])\<rparr>"

lemma forked_hashs:
  "verify_block_hashs (e_crypto forked_env) (e_text forked_env) (db_block (forked_block n t)) = Some (Inr ())"
  by (auto simp: verify_block_hashs_def verify_inner_hash_def verify_hash_def will_hashed_and_signed_def
      will_hashed_string_def forked_block_def genesis_block_def example_block_def forked_env_def example_env_def
      first_of_def compact_inner_text_def leading_lines_def toy_crypto_def identity_to_compact_def
      compact_identity_text_def example_identity_def membership_compact_text_def example_joiner_def Let_def)

lemma forked_block_stamp: "dal_blockstamp (forked_block n t) = Some (Blockstamp n (Hash [7]))"
  by (simp add: dal_blockstamp_iff forked_block_def genesis_block_def)


text \<open>
  C14: A block that carries a transaction can never be reverted once it has been accepted: it is
  stored with its transactions in full, and the reversal of such a block panics.
\<close>

theorem block_with_transactions_irreversible:
  assumes "check_and_apply_block env b bc = Some (Inr (ValidBlock reqs), bc')"
    and "ar_block reqs = WriteBlock blk" "b_transactions b \<noteq> []"
  shows "revert_block env' blk currency st = None"
proof -
  have "b_transactions (db_block blk) = b_transactions b \<and> (\<forall>tx\<in>set (b_transactions b). \<exists>doc. tx = TxDoc doc)"
    using assms(1)
  proof (cases rule: check_and_apply_cases)
    case (valid s r0 st)
    then have "r0 = Inr reqs" by (cases r0) auto
    then show ?thesis using apply_valid_block_writes[OF valid(5)[unfolded \<open>r0 = Inr reqs\<close>]] assms(2) by auto
  qed (auto split: if_splits)
  then obtain doc txs' where "b_transactions (db_block blk) = TxDoc doc # txs'"
    using assms(3) by (cases "b_transactions b") auto
  then show ?thesis by (cases "db_expire_certs blk") (simp_all add: revert_block_def reduced_tx_def)
qed

text \<open>A first block with a transaction.\<close>

definition paying_block :: "nat block_document" where
  "paying_block = (genesis_block [])\<lparr>b_transactions := [TxDoc (example_tx\<lparr>t_hash := Some (Hash [3])\<rparr>)]\<rparr>"

lemma paying_tx_compact: "\<exists>s. tx_compact_text (e_crypto (example_env itc)) (example_tx\<lparr>t_hash := h\<rparr>) = Some s"
  by (simp add: tx_compact_text_def example_tx_def leading_lines_def trailing_lines_def toy_crypto_def
      output_string_def conditions_string_def example_env_def Let_def)

lemma paying_hashs:
  "verify_block_hashs (e_crypto (example_env itc)) (e_text (example_env itc)) paying_block = Some (Inr ())"
proof -
  obtain s where s: "tx_compact_text (toy_crypto\<lparr>c_sha256 := \<lambda>_. Hash [7]\<rparr>) (example_tx\<lparr>t_hash := Some (Hash [3])\<rparr>) = Some s"
    using paying_tx_compact[of itc "Some (Hash [3])"] by (auto simp: example_env_def)
  show ?thesis
    by (simp add: verify_block_hashs_def verify_inner_hash_def verify_hash_def will_hashed_and_signed_def
        will_hashed_string_def paying_block_def genesis_block_def example_block_def first_of_def
        compact_inner_text_def leading_lines_def identity_to_compact_def compact_identity_text_def
        example_identity_def membership_compact_text_def example_joiner_def example_env_def tx_line_def toy_crypto_def Let_def s[unfolded toy_crypto_def, simplified])
qed

theorem block_with_transactions_irreversible_witness:
  "\<exists>itc reqs bc blk. check_and_apply_block (example_env itc) paying_block new_module =
      Some (Inr (ValidBlock reqs), bc) \<and> ar_block reqs = WriteBlock blk \<and>
     revert_block (example_env itc) blk (db_currency (bc_dbs bc))
       \<lparr>as_index = bc_wot_index bc, as_wot = d_wot (db_wots (bc_dbs bc)), as_requests = []\<rparr> = None"
proof -
  obtain itc :: "(nat \<times> nat) set \<Rightarrow> (nat \<times> nat) list" where itc: "iterates itc" using iterates_exists by blast
  then have "itc {} = []" using iterates_set[OF itc, of "{}"] by simp
  then have "\<exists>reqs. apply_valid_block (example_env itc) paying_block Map.empty
      \<lparr>as_index = Map.empty, as_wot = rusty_new 10, as_requests = []\<rparr> = Some (Inr reqs, one_member)"
    by (simp add: apply_valid_block_def apply_wot_events_def block_identities_def blockstamp_of_def paying_block_def
        genesis_block_def example_block_def apply_joiner_def example_joiner_def example_identity_def
        example_env_def first_of_def request_def one_member_def rusty_ops_def rusty_size_def rusty_add_node_def
        rusty_new_def du_request_def block_reduce_def Let_def)
  then obtain reqs where "apply_valid_block (example_env itc) paying_block Map.empty
      \<lparr>as_index = Map.empty, as_wot = rusty_new 10, as_requests = []\<rparr> = Some (Inr reqs, one_member)" by blast
  then have run: "check_and_apply_block (example_env itc) paying_block new_module =
      Some (Inr (ValidBlock reqs), genesis_module)"
    using paying_hashs[of itc]
    by (simp add: check_and_apply_block_def chainable_def new_module_def no_databases_def no_identities_def
        no_expired_certs verify_block_validity_def genesis_module_def blockstamp_of_def u32_sub_def
        already_have_block_def example_env_def paying_block_def genesis_block_def example_block_def
        blockstamp_default_def)
  have "\<exists>blk. ar_block reqs = WriteBlock blk"
    using run by (cases rule: check_and_apply_cases) (auto dest!: apply_valid_block_writes split: sum.splits if_splits
      simp: map_sum_def)
  then obtain blk where blk: "ar_block reqs = WriteBlock blk" by blast
  have "b_transactions paying_block \<noteq> []" by (simp add: paying_block_def)
  from block_with_transactions_irreversible[OF run blk this] show ?thesis using run blk by blast
qed

text \<open>An orphan that waits for the current block, whose predecessor is missing in the database.\<close>

definition waiting_block :: "nat dal_block" where
  "waiting_block = \<lparr>db_block = (db_block (forked_block 2 0))\<lparr>b_previous_hash := Hash [1]\<rparr>, db_expire_certs = None\<rparr>"

definition waiting_module :: "(nat, rusty_wot) bc_module" where
  "waiting_module = forked_module\<lparr>bc_dbs := no_databases\<lparr>db_forks := forked\<lparr>
     fd_orphans := [Blockstamp 1 (Hash [1]) \<mapsto> [waiting_block]]\<rparr>\<rparr>\<rparr>"

lemma waiting_block_fields:
  "b_number (db_block waiting_block) = 2" "b_previous_hash (db_block waiting_block) = Hash [1]"
  "b_hash (db_block waiting_block) = Some (Hash [7])" "dal_blockstamp waiting_block = Some (Blockstamp 2 (Hash [7]))"
  by (simp_all add: waiting_block_def forked_block_def genesis_block_def dal_blockstamp_iff)

lemma waiting_module_fields:
  "bc_current waiting_module = Blockstamp 1 (Hash [1])"
  "fd_orphans (db_forks (bc_dbs waiting_module)) = [Blockstamp 1 (Hash [1]) \<mapsto> [waiting_block]]"
  "db_blockchain (bc_dbs waiting_module) = Map.empty"
  by (simp_all add: waiting_module_def forked_module_def no_databases_def)

theorem stackables_end_witness:
  "\<exists>itc bc. apply_stackable_blocks (forked_env\<lparr>e_certs := itc\<rparr>) waiting_module = Some bc \<and>
     bc_current bc = Blockstamp 1 (Hash [1])"
proof -
  obtain itc :: "(nat \<times> nat) set \<Rightarrow> (nat \<times> nat) list" where itc: "iterates itc" using iterates_exists by blast
  let ?env = "forked_env\<lparr>e_certs := itc\<rparr>"
  let ?b = "db_block waiting_block"
  have "verify_block_hashs (e_crypto ?env) (e_text ?env) ?b = Some (Inr ())"
    by (simp add: verify_block_hashs_def verify_inner_hash_def verify_hash_def will_hashed_and_signed_def
      will_hashed_string_def forked_block_def genesis_block_def example_block_def forked_env_def example_env_def
      first_of_def compact_inner_text_def leading_lines_def toy_crypto_def identity_to_compact_def
      compact_identity_text_def example_identity_def membership_compact_text_def example_joiner_def
      waiting_block_def Let_def)
  moreover have "\<exists>a. already_have_block p Map.empty (db_forks (bc_dbs waiting_module)) (Blockstamp 2 (Hash [7])) h = Some a"
    for p h
    by (cases "fd_blocks (db_forks (bc_dbs waiting_module)) (Blockstamp 2 (Hash [7])) = None")
      (simp_all add: already_have_block_def waiting_module_fields u32_sub_def waiting_block_fields, blast+)
  then obtain a where "already_have_block Release Map.empty (db_forks (bc_dbs waiting_module)) (Blockstamp 2 (Hash [7]))
      (Hash [1]) = Some a" by blast
  moreover have "e_profile ?env = Release" by (simp add: forked_env_def example_env_def)
  ultimately have "\<exists>e. check_and_apply_block ?env ?b waiting_module = Some (Inl e, waiting_module)"
    by (simp add: check_and_apply_block_def blockstamp_of_def chainable_def verify_block_validity_def
        waiting_module_fields waiting_block_fields get_block_in_local_blockchain_def)
  then have round: "stack_round ?env waiting_module = Some (False, waiting_module)"
    by (auto simp: stack_round_def get_stackables_blocks_def waiting_module_fields dal_blockstamp_iff
        waiting_block_fields)
  have only: "bc = waiting_module" if "stacked ?env waiting_module bc" for bc
    by (rule stacked.cases[OF that]) (use round in auto)
  have end_of: "\<exists>bc1 bc2. stacked ?env waiting_module bc1 \<and> stack_round ?env bc1 = Some (False, bc2) \<and>
    apply_stackable_blocks ?env waiting_module =
      Some (if get_stackables_blocks (db_forks (bc_dbs bc1)) (bc_current bc1) = [] then bc1
        else bc2\<lparr>bc_files := bc_dbs bc2\<rparr>)"
  proof (rule stackables_end)
    show "iterates (e_certs ?env)" using itc by simp
    show "orphans_ok (fd_orphans (db_forks (bc_dbs waiting_module)))"
      by (simp add: orphans_ok_def waiting_module_fields waiting_block_fields)
    show "\<forall>s bs b. fd_orphans (db_forks (bc_dbs waiting_module)) s = Some bs \<longrightarrow> b \<in> set bs \<longrightarrow>
        b_number (db_block b) < 2 ^ 32"
      by (simp add: waiting_module_fields waiting_block_fields)
    show "\<forall>bc'. stacked ?env waiting_module bc' \<longrightarrow> stack_round ?env bc' \<noteq> None" using only round by auto
  qed
  then obtain bc1 bc2 where "bc1 = waiting_module" "stack_round ?env bc1 = Some (False, bc2)"
    "apply_stackable_blocks ?env waiting_module =
      Some (if get_stackables_blocks (db_forks (bc_dbs bc1)) (bc_current bc1) = [] then bc1
        else bc2\<lparr>bc_files := bc_dbs bc2\<rparr>)" using only by blast
  then have "apply_stackable_blocks ?env waiting_module = Some (waiting_module\<lparr>bc_files := bc_dbs waiting_module\<rparr>)"
    using round by (simp add: get_stackables_blocks_def waiting_module_fields)
  moreover have "bc_current (waiting_module\<lparr>bc_files := bc_dbs waiting_module\<rparr>) = Blockstamp 1 (Hash [1])"
    by (simp add: waiting_module_fields)
  ultimately show ?thesis by blast
qed

end
