(* ===== verification/Signables.thy ===== *)
theory Signables
  imports Documents
begin

text \<open>
  Keys and signed messages, \<open>lib/tools/crypto/src\<close>: the decoders of base 58 and base 64
  (\<open>bases/b58.rs\<close>, \<open>bases/b64.rs\<close>), the enumerations of keys (\<open>keys/mod.rs\<close>), and the two
  traits that sign and verify a message, as text (\<open>keys/text_signable.rs\<close>) and in binary form
  (\<open>keys/bin_signable.rs\<close>).

  The traits are records of the operations that a type of messages provides; what signing and
  verifying rely on is the contract of two locales. The crates \<open>base58\<close>, \<open>base64\<close> and \<open>bincode\<close>
  are the records \<open>codecs\<close> and \<open>bincode\<close>.
\<close>

subsection \<open>Decoders\<close>

datatype base58_error = InvalidBase58Character nat nat | InvalidBase58Length

datatype base64_error = InvalidByte nat nat | Base64InvalidLength | Base64InvalidLastSymbol nat nat

record codecs =
  d_base58 :: "ustring \<Rightarrow> base58_error + nat list"
  d_base64 :: "ustring \<Rightarrow> base64_error + nat list"

definition base58_to_bytes :: "codecs \<Rightarrow> nat \<Rightarrow> ustring \<Rightarrow> base_convertion_error + nat list" where
  "base58_to_bytes d n s = (case d_base58 d s of
      Inr result \<Rightarrow> if length result = n then Inr result else Inl (InvalidLength n (length result))
    | Inl (InvalidBase58Character ch offset) \<Rightarrow> Inl (InvalidCharacter ch offset)
    | Inl InvalidBase58Length \<Rightarrow> Inl InvalidBaseConverterLength)"

definition str_base58_to_32bytes :: "codecs \<Rightarrow> ustring \<Rightarrow> base_convertion_error + nat list" where
  "str_base58_to_32bytes d s = base58_to_bytes d 32 s"

definition str_base58_to_64bytes :: "codecs \<Rightarrow> ustring \<Rightarrow> base_convertion_error + nat list" where
  "str_base58_to_64bytes d s = base58_to_bytes d 64 s"

fun base64_conversion_error :: "base64_error \<Rightarrow> base_convertion_error" where
  "base64_conversion_error (InvalidByte offset byte) = InvalidCharacter byte offset"
| "base64_conversion_error Base64InvalidLength = InvalidBaseConverterLength"
| "base64_conversion_error (Base64InvalidLastSymbol offset symbol) = InvalidLastSymbol symbol offset"

definition str_base64_to_64bytes :: "codecs \<Rightarrow> ustring \<Rightarrow> base_convertion_error + nat list" where
  "str_base64_to_64bytes d s = (case d_base64 d s of
      Inl e \<Rightarrow> Inl (base64_conversion_error e)
    | Inr result \<Rightarrow> if length result = 64 then Inr result else Inl (InvalidLength 64 (length result)))"

subsection \<open>Keys\<close>

datatype keys_algo = AlgoEd25519 | AlgoSchnorr

fun key_algo :: "pub_key \<Rightarrow> keys_algo" where
  "key_algo (PubEd25519 _) = AlgoEd25519"
| "key_algo PubSchnorr = AlgoSchnorr"

fun sig_algo :: "signature \<Rightarrow> keys_algo" where
  "sig_algo (SigEd25519 _) = AlgoEd25519"
| "sig_algo SigSchnorr = AlgoSchnorr"

fun key_size :: "pub_key \<Rightarrow> nat run" where
  "key_size (PubEd25519 _) = Some (32 + 3)"
| "key_size PubSchnorr = None"

fun sig_size :: "signature \<Rightarrow> nat run" where
  "sig_size (SigEd25519 _) = Some (64 + 2)"
| "sig_size SigSchnorr = None"

fun key_bytes :: "pub_key \<Rightarrow> nat list run" where
  "key_bytes (PubEd25519 k) = Some k"
| "key_bytes PubSchnorr = None"

fun sig_bytes :: "signature \<Rightarrow> nat list run" where
  "sig_bytes (SigEd25519 s) = Some s"
| "sig_bytes SigSchnorr = None"

definition key_from_base58 :: "codecs \<Rightarrow> ustring \<Rightarrow> base_convertion_error + pub_key" where
  "key_from_base58 d s = map_sum id PubEd25519 (str_base58_to_32bytes d s)"

definition sig_from_base64 :: "codecs \<Rightarrow> ustring \<Rightarrow> base_convertion_error + signature" where
  "sig_from_base64 d s = map_sum id SigEd25519 (str_base64_to_64bytes d s)"

datatype key_pair = KeyPairEd25519 (pair_public: "nat list") (pair_private: "nat list") | KeyPairSchnorr

fun key_pair_algo :: "key_pair \<Rightarrow> keys_algo" where
  "key_pair_algo (KeyPairEd25519 _ _) = AlgoEd25519"
| "key_pair_algo KeyPairSchnorr = AlgoSchnorr"

fun public_key :: "key_pair \<Rightarrow> pub_key run" where
  "public_key (KeyPairEd25519 k _) = Some (PubEd25519 k)"
| "public_key KeyPairSchnorr = None"

fun private_key :: "key_pair \<Rightarrow> priv_key run" where
  "private_key (KeyPairEd25519 _ k) = Some (PrivEd25519 k)"
| "private_key KeyPairSchnorr = None"

fun pair_verify :: "crypto \<Rightarrow> key_pair \<Rightarrow> ustring \<Rightarrow> signature \<Rightarrow> bool run" where
  "pair_verify c (KeyPairEd25519 k _) message (SigEd25519 s) = Some (c_ed25519_verify c k message s)"
| "pair_verify c _ message _ = None"

fun pair_sign :: "crypto \<Rightarrow> key_pair \<Rightarrow> ustring \<Rightarrow> signature run" where
  "pair_sign c (KeyPairEd25519 _ k) message = Some (SigEd25519 (c_ed25519_sign c k message))"
| "pair_sign c KeyPairSchnorr message = None"

subsection \<open>Messages signed as text\<close>

datatype 'e sig_error = NotSameAlgo | InvalidSig | NotSig | SigSerdeError 'e
datatype 'e sign_error = WrongAlgo | WrongPrivkey | AlreadySign | SignSerdeError 'e

text \<open>The required methods of the trait; the text is written with the key, which may panic.\<close>

record 'd text_signable =
  ts_text :: "'d \<Rightarrow> ustring run"
  ts_issuer :: "'d \<Rightarrow> pub_key"
  ts_signature :: "'d \<Rightarrow> signature option"
  ts_set_signature :: "signature \<Rightarrow> 'd \<Rightarrow> 'd"

definition text_sign ::
  "crypto \<Rightarrow> 'd text_signable \<Rightarrow> priv_key \<Rightarrow> 'd \<Rightarrow> (('e sign_error + ustring) \<times> 'd) run" where
  "text_sign c ops k d =
     (if ts_signature ops d \<noteq> None then Some (Inl AlreadySign, d)
      else do {
        message \<leftarrow> ts_text ops d;
        (case (ts_issuer ops d, k) of
           (PubEd25519 _, PrivEd25519 key) \<Rightarrow>
             (let sig = c_ed25519_sign c key message
              in Some (Inr (message @ c_base64 c sig), ts_set_signature ops (SigEd25519 sig) d))
         | _ \<Rightarrow> Some (Inl WrongAlgo, d))
      })"

definition text_verify :: "crypto \<Rightarrow> 'd text_signable \<Rightarrow> 'd \<Rightarrow> ('e sig_error + unit) run" where
  "text_verify c ops d = (case ts_signature ops d of
      None \<Rightarrow> Some (Inl NotSig)
    | Some sig \<Rightarrow> (case (ts_issuer ops d, sig) of
          (PubEd25519 key, SigEd25519 s) \<Rightarrow> do {
            message \<leftarrow> ts_text ops d;
            Some (if c_ed25519_verify c key message s then Inr () else Inl InvalidSig)
          }
        | _ \<Rightarrow> Some (Inl NotSameAlgo)))"

subsection \<open>Messages signed in binary form\<close>

text \<open>
  The serializer of the messages, and that of their two last fields, the optional hash and the
  optional signature.
\<close>

record ('d, 'e) bincode =
  bin_message :: "'d \<Rightarrow> 'e + nat list"
  bin_hash :: "hash option \<Rightarrow> 'e + nat list"
  bin_sig :: "signature option \<Rightarrow> 'e + nat list"

record 'd bin_signable =
  bs_issuer :: "'d \<Rightarrow> pub_key"
  bs_store_hash :: "'d \<Rightarrow> bool"
  bs_hash_of :: "'d \<Rightarrow> hash option"
  bs_set_hash :: "hash \<Rightarrow> 'd \<Rightarrow> 'd"
  bs_signature :: "'d \<Rightarrow> signature option"
  bs_set_signature :: "signature \<Rightarrow> 'd \<Rightarrow> 'd"

definition bin_without_sig ::
  "profile \<Rightarrow> ('d, 'e) bincode \<Rightarrow> 'd bin_signable \<Rightarrow> 'd \<Rightarrow> ('e + nat list) run" where
  "bin_without_sig p bin ops d =
     try_then (Some (bin_message bin d)) (\<lambda>bin_msg.
     try_then (Some (bin_sig bin (bs_signature ops d))) (\<lambda>sig. do {
       n \<leftarrow> usize_sub p (length bin_msg) (length sig);
       Some (Inr (take n bin_msg))
     }))"

definition bin_compute_hash ::
  "profile \<Rightarrow> crypto \<Rightarrow> ('d, 'e) bincode \<Rightarrow> 'd bin_signable \<Rightarrow> 'd \<Rightarrow> ('e + hash \<times> nat list) run" where
  "bin_compute_hash p c bin ops d =
     try_then (bin_without_sig p bin ops d) (\<lambda>bin_msg.
       (let bin_msg = (if bs_store_hash ops d then butlast bin_msg else bin_msg)
        in Some (Inr (c_sha256 c bin_msg, bin_msg))))"

text \<open>\<open>expect\<close> on a result.\<close>

fun expect :: "'e + 'a \<Rightarrow> 'a run" where
  "expect (Inl _) = None"
| "expect (Inr v) = Some v"

definition bin_sign ::
  "profile \<Rightarrow> crypto \<Rightarrow> ('d, 'e) bincode \<Rightarrow> 'd bin_signable \<Rightarrow> priv_key \<Rightarrow> 'd \<Rightarrow>
   (('e sign_error + nat list) \<times> 'd) run" where
  "bin_sign p c bin ops k d =
     (if bs_signature ops d \<noteq> None then Some (Inl AlreadySign, d)
      else (case (bs_issuer ops d, k) of
          (PubEd25519 _, PrivEd25519 key) \<Rightarrow>
            and_then
              (if bs_store_hash ops d then do {
                 r \<leftarrow> bin_compute_hash p c bin ops d;
                 (h, bin_msg) \<leftarrow> expect r;
                 let d = bs_set_hash ops h d;
                 bin_msg \<leftarrow> (if bs_hash_of ops d \<noteq> None
                   then map_option ((@) bin_msg) (expect (bin_hash bin (Some h))) else Some bin_msg);
                 Some (Inr (bin_msg, SigEd25519 (c_ed25519_sign c key (hash_bytes h))), d)
               }
               else (case bin_message bin d of
                   Inl e \<Rightarrow> Some (Inl (SignSerdeError e), d)
                 | Inr bin_msg \<Rightarrow>
                     (let bin_msg = butlast bin_msg
                      in Some (Inr (bin_msg, SigEd25519 (c_ed25519_sign c key bin_msg)), d))))
              (\<lambda>(bin_msg, sig) d. do {
                let d = bs_set_signature ops sig d;
                s \<leftarrow> expect (bin_sig bin (Some sig));
                Some (Inr (bin_msg @ s), d)
              })
        | _ \<Rightarrow> Some (Inl WrongAlgo, d)))"

definition bin_verify ::
  "profile \<Rightarrow> crypto \<Rightarrow> ('d, 'e) bincode \<Rightarrow> 'd bin_signable \<Rightarrow> 'd \<Rightarrow> ('e sig_error + unit) run" where
  "bin_verify p c bin ops d = (case bs_signature ops d of
      None \<Rightarrow> Some (Inl NotSig)
    | Some sig \<Rightarrow> (case (bs_issuer ops d, sig) of
          (PubEd25519 key, SigEd25519 s) \<Rightarrow>
            try_then (map_option (map_sum SigSerdeError id)
              (if bs_store_hash ops d then
                 (case bs_hash_of ops d of
                    Some h \<Rightarrow> Some (Inr (hash_bytes h))
                  | None \<Rightarrow> map_option (map_sum id (hash_bytes \<circ> fst)) (bin_compute_hash p c bin ops d))
               else bin_without_sig p bin ops d))
              (\<lambda>signed_part. Some (if c_ed25519_verify c key signed_part s then Inr () else Inl InvalidSig))
        | _ \<Rightarrow> Some (Inl NotSameAlgo)))"

subsection \<open>The contracts\<close>

text \<open>The signature of a text message is not part of its text.\<close>

locale text_message =
  fixes ops :: "'d text_signable"
  assumes text_unsigned: "ts_text ops (ts_set_signature ops s d) = ts_text ops d"
    and issuer_unsigned: "ts_issuer ops (ts_set_signature ops s d) = ts_issuer ops d"
    and signature_set: "ts_signature ops (ts_set_signature ops s d) = Some s"
begin

lemma signed_text_verifies:
  assumes "text_sign c ops (PrivEd25519 sk) d = Some (Inr raw, d')" "ts_issuer ops d = PubEd25519 pk"
    and "\<And>m. c_ed25519_verify c pk m (c_ed25519_sign c sk m)"
  shows "text_verify c ops d' = Some (Inr ())"
  using assms
  by (auto simp: text_sign_def text_verify_def text_unsigned issuer_unsigned signature_set Let_def
      split: bind_splits if_splits)

lemma signed_text_raw:
  assumes "text_sign c ops k d = Some (Inr raw, d')"
  shows "\<exists>message sig. ts_text ops d' = Some message \<and> ts_signature ops d' = Some (SigEd25519 sig) \<and>
    raw = message @ c_base64 c sig"
  using assms
  by (auto simp: text_sign_def text_unsigned signature_set Let_def
      split: bind_splits if_splits pub_key.splits priv_key.splits)

lemma signed_once:
  assumes "text_sign c ops k d = Some (Inr raw, d')"
  shows "text_sign c ops k' d' = Some (Inl AlreadySign, d')"
  using signed_text_raw[OF assms] by (auto simp: text_sign_def)

end

text \<open>
  A binary message ends with its signature: what comes before does not depend on it, and the
  absent signature is one byte.
\<close>

locale binary_message =
  fixes bin :: "('d, 'e) bincode" and ops :: "'d bin_signable" and body :: "'d \<Rightarrow> nat list"
  assumes serialized: "\<exists>s. bin_sig bin (bs_signature ops d) = Inr s \<and> bin_message bin d = Inr (body d @ s)"
    and no_signature: "\<exists>x. bin_sig bin None = Inr [x]"
    and body_unsigned: "body (bs_set_signature ops s d) = body d"
    and bin_issuer_unsigned: "bs_issuer ops (bs_set_signature ops s d) = bs_issuer ops d"
    and bin_signature_set: "bs_signature ops (bs_set_signature ops s d) = Some s"
    and no_hash: "\<not> bs_store_hash ops d"
begin

lemma bin_without_sig_body: "bin_without_sig p bin ops d = Some (Inr (body d))"
  using serialized[of d] by (auto simp: bin_without_sig_def)

lemma bin_sign_spec:
  assumes "bs_signature ops d = None" "bs_issuer ops d = PubEd25519 pk"
    and sig: "sig = SigEd25519 (c_ed25519_sign c sk (body d))"
  shows "\<exists>s. bin_sign p c bin ops (PrivEd25519 sk) d = Some (Inr (body d @ s), bs_set_signature ops sig d) \<and>
    bin_sig bin (Some sig) = Inr s \<and> bin_message bin (bs_set_signature ops sig d) = Inr (body d @ s)"
proof -
  obtain x where "bin_message bin d = Inr (body d @ [x])"
    using serialized[of d] no_signature assms(1) by auto
  moreover obtain s where "bin_sig bin (Some sig) = Inr s" "bin_message bin (bs_set_signature ops sig d) = Inr (body d @ s)"
    using serialized[of "bs_set_signature ops sig d"] by (auto simp: bin_signature_set body_unsigned)
  ultimately show ?thesis
    using assms(1,2) no_hash[of d] by (simp add: bin_sign_def sig Let_def)
qed

lemma signed_bin_verifies:
  assumes "bs_signature ops d = None" "bs_issuer ops d = PubEd25519 pk"
    and "\<And>m. c_ed25519_verify c pk m (c_ed25519_sign c sk m)"
  shows "\<exists>raw d'. bin_sign p c bin ops (PrivEd25519 sk) d = Some (Inr raw, d') \<and>
    bin_message bin d' = Inr raw \<and> bin_verify p c bin ops d' = Some (Inr ())"
proof -
  from bin_sign_spec[OF assms(1,2) refl, of p c sk] obtain s where
    "bin_sign p c bin ops (PrivEd25519 sk) d =
      Some (Inr (body d @ s), bs_set_signature ops (SigEd25519 (c_ed25519_sign c sk (body d))) d)"
    "bin_message bin (bs_set_signature ops (SigEd25519 (c_ed25519_sign c sk (body d))) d) = Inr (body d @ s)"
    by blast
  then show ?thesis
    using assms(2,3)
    by (auto simp: bin_verify_def bin_signature_set bin_issuer_unsigned bin_without_sig_body body_unsigned no_hash)
qed

end

end
