(* ===== verification/Pest.thy ===== *)
theory Pest
  imports Documents
begin

text \<open>
  Texts parsed with the crate \<open>pest\<close>. The parser of a grammar is generated when the program is
  built: it is a parameter, a function from a rule and a text to an error or to the trees of the
  rules that it has matched, each with the text of the match. The code that reads the trees,
  \<open>TextDocumentParser::parse\<close> and \<open>from_pest_pair\<close> of \<open>lib/tools/documents/src/lib.rs\<close> and of
  each document, is translated on such trees.
\<close>

datatype 'r pest_pair = PestPair (as_rule: 'r) (as_str: ustring) (into_inner: "'r pest_pair list")

type_synonym 'r pest_parser = "'r \<Rightarrow> ustring \<Rightarrow> ustring + 'r pest_pair list"

datatype text_document_parse_error =
  InvalidInnerFormat ustring | PestError ustring | UnexpectedVersion ustring | UnknownType

text \<open>The first pair, which the callers unwrap, is read; the error of the parser is wrapped.\<close>

definition parse_with ::
  "'r pest_parser \<Rightarrow> 'r \<Rightarrow> (ustring \<Rightarrow> 'e) \<Rightarrow> ('r pest_pair \<Rightarrow> 'a run) \<Rightarrow> ustring \<Rightarrow> ('e + 'a) run" where
  "parse_with pest rule err read text = (case pest rule text of
      Inl e \<Rightarrow> Some (Inl (err e))
    | Inr pairs \<Rightarrow> do { pair \<leftarrow> first_of pairs; v \<leftarrow> read pair; Some (Inr v) })"

text \<open>The rule \<open>blockstamp\<close>, \<open>block_id ~ "-" ~ hash\<close>.\<close>

definition blockstamp_from_pest_pair :: "'r pest_pair \<Rightarrow> blockstamp run" where
  "blockstamp_from_pest_pair field = do {
     block_id \<leftarrow> vec_get (into_inner field) 0;
     block_hash \<leftarrow> vec_get (into_inner field) 1;
     id \<leftarrow> parse_uint 32 (as_str block_id);
     hash \<leftarrow> from_hex (as_str block_hash);
     (case hash of Inr h \<Rightarrow> Some (Blockstamp id h) | Inl _ \<Rightarrow> None)
   }"

text \<open>The tree of the text of a blockstamp.\<close>

definition blockstamp_tree :: "'r \<Rightarrow> 'r \<Rightarrow> 'r \<Rightarrow> blockstamp \<Rightarrow> 'r pest_pair" where
  "blockstamp_tree rule id_rule hash_rule b = PestPair rule (blockstamp_to_string b)
     [PestPair id_rule (show_nat (bs_id b)) [], PestPair hash_rule (to_hex (bs_hash b)) []]"

lemma blockstamp_tree_reads:
  "blockstamp_wf b \<Longrightarrow> blockstamp_from_pest_pair (blockstamp_tree rule id_rule hash_rule b) = Some b"
  by (simp add: blockstamp_from_pest_pair_def blockstamp_tree_def vec_get_def blockstamp_wf_def parse_show_nat
      hex_roundtrip)

lemma blockstamp_tree_rule [simp]: "as_rule (blockstamp_tree rule id_rule hash_rule b) = rule"
  by (simp add: blockstamp_tree_def)

end
