(* ===== verification/Network_Documents.thy ===== *)
theory Network_Documents
  imports Signables Pest
begin

unbundle bit_operations_syntax

text \<open>
  The documents of the network, \<open>lib/tools/network-documents/src\<close>: node identifiers (\<open>lib.rs\<close>) and
  endpoints (\<open>network_endpoint.rs\<close>).

  The rules are those of the grammar \<open>network_documents.pest\<close> that the code names. The texts of IP
  addresses and the crate \<open>hex\<close> are the fields of the record \<open>net_codecs\<close>; an address is its number.
\<close>

subsection \<open>Rules and codecs\<close>

datatype net_rule =
  R_api_name | R_node_id | R_host | R_port | R_path_inner | R_api_version_inner | R_http | R_ws | R_tls | R_tor
| R_api_features_inner | R_host_v2_inner | R_ip4_inner | R_ip6_inner | R_u8 | R_currency | R_pubkey | R_blockstamp
| R_block_id | R_hash | R_ed25519_sig | R_api_outgoing_conf | R_api_incoming_conf | R_free_member_rooms
| R_free_mirror_rooms | R_software | R_soft_version | R_step | R_endpoint_v1 | R_endpoint_v2 | R_peer_v11 | R_head_v3
| R_network_document

datatype parse_error = NetPestError ustring

record net_codecs =
  ip4_show :: "nat \<Rightarrow> ustring"
  ip4_read :: "ustring \<Rightarrow> nat option"
  ip6_show :: "nat \<Rightarrow> ustring"
  ip6_read :: "ustring \<Rightarrow> nat option"
  hex_encode :: "nat list \<Rightarrow> ustring"
  hex_decode :: "ustring \<Rightarrow> nat list option"

subsection \<open>Numbers in base 16\<close>

definition hex_lower :: "nat \<Rightarrow> nat" where
  "hex_lower d = (if d < 10 then 48 + d else 87 + d)"

text \<open>The format \<open>{:x}\<close>, and \<open>from_str_radix\<close> with base 16.\<close>

fun show_hex :: "nat \<Rightarrow> ustring" where
  "show_hex n = (if n < 16 then [hex_lower n] else show_hex (n div 16) @ [hex_lower (n mod 16)])"

declare show_hex.simps [simp del]

definition hex_value :: "ustring \<Rightarrow> nat" where
  "hex_value s = foldl (\<lambda>v c. 16 * v + (case to_digit16 c of Some d \<Rightarrow> d | None \<Rightarrow> 0)) 0 s"

definition parse_hex :: "nat \<Rightarrow> ustring \<Rightarrow> nat option" where
  "parse_hex w s =
     (let s = (case s of c # cs \<Rightarrow> if c = 43 then cs else s | [] \<Rightarrow> [])
      in if s = [] \<or> \<not> list_all (\<lambda>c. to_digit16 c \<noteq> None) s \<or> hex_value s \<ge> 2 ^ w then None
         else Some (hex_value s))"

lemma hex_lower_digit: "d < 16 \<Longrightarrow> to_digit16 (hex_lower d) = Some d"
  by (auto simp: hex_lower_def to_digit16_def)

lemma show_hex_digits: "list_all (\<lambda>c. to_digit16 c \<noteq> None) (show_hex n)"
  by (induction n rule: show_hex.induct) (subst show_hex.simps, auto simp: hex_lower_digit)

lemma show_hex_nonempty: "show_hex n \<noteq> []"
  by (subst show_hex.simps) simp

lemma hex_value_snoc: "d < 16 \<Longrightarrow> hex_value (s @ [hex_lower d]) = 16 * hex_value s + d"
  by (simp add: hex_value_def hex_lower_digit)

lemma hex_value_show: "hex_value (show_hex n) = n"
proof (induction n rule: show_hex.induct)
  case (1 n)
  show ?case
  proof (cases "n < 16")
    case True
    then show ?thesis by (subst show_hex.simps) (simp add: hex_value_def hex_lower_digit)
  next
    case False
    then show ?thesis using 1 by (subst show_hex.simps) (simp add: hex_value_snoc)
  qed
qed

lemma parse_show_hex:
  assumes "n < 2 ^ w" shows "parse_hex w (show_hex n) = Some n"
proof -
  obtain c cs where c: "show_hex n = c # cs" using show_hex_nonempty by (cases "show_hex n") auto
  then have "c \<noteq> 43" using show_hex_digits[of n] by (auto simp: to_digit16_def)
  then show ?thesis
    using assms show_hex_digits[of n] hex_value_show[of n] by (simp add: parse_hex_def c)
qed

lemma show_hex_clean: "c \<in> set (show_hex n) \<Longrightarrow> c \<noteq> 58 \<and> c \<noteq> 45"
  using show_hex_digits[of n] by (auto simp: list_all_iff to_digit16_def)

subsection \<open>Node identifiers\<close>

type_synonym net_node_id = nat

definition node_id_string :: "net_node_id \<Rightarrow> ustring" where
  "node_id_string n = show_hex n"

definition node_id_from :: "ustring \<Rightarrow> net_node_id run" where
  "node_id_from source = parse_hex 32 source"

type_synonym node_full_id = "net_node_id \<times> pub_key"

definition node_full_id_string :: "crypto \<Rightarrow> node_full_id \<Rightarrow> ustring run" where
  "node_full_id_string c = (\<lambda>(n, k). do { key \<leftarrow> key_string c k; Some (node_id_string n @ ascii ''-'' @ key) })"

definition node_full_id_sha256 :: "crypto \<Rightarrow> node_full_id \<Rightarrow> hash run" where
  "node_full_id_sha256 c i = map_option (c_sha256 c) (node_full_id_string c i)"

text \<open>The widths of the formats: a number is padded on the left, a string on the right.\<close>

definition pad_left :: "nat \<Rightarrow> ustring \<Rightarrow> ustring" where
  "pad_left n s = replicate (n - length s) 32 @ s"

definition pad_right :: "nat \<Rightarrow> ustring \<Rightarrow> ustring" where
  "pad_right n s = s @ replicate (n - length s) 32"

definition node_full_id_human_string :: "crypto \<Rightarrow> node_full_id \<Rightarrow> ustring run" where
  "node_full_id_human_string c = (\<lambda>(n, k). do {
     key \<leftarrow> key_string c k;
     Some (pad_left 8 (show_hex n) @ ascii ''-'' @ pad_right 8 (take 8 key))
   })"

subsection \<open>APIs and features\<close>

text \<open>All the bytes of a vector of flags are null.\<close>

definition flags_empty :: "nat list \<Rightarrow> bool" where
  "flags_empty bytes \<longleftrightarrow> \<not> list_ex (\<lambda>b. b > 0) bytes"

text \<open>A flag of the first byte, which is read at index 0.\<close>

definition first_flag :: "nat \<Rightarrow> nat list \<Rightarrow> bool run" where
  "first_flag flag bytes = do { b \<leftarrow> first_of bytes; Some (b AND flag = flag) }"

definition api_features_string :: "net_codecs \<Rightarrow> nat list \<Rightarrow> ustring" where
  "api_features_string nc features =
     (if flags_empty features then []
      else (let hex_str = hex_encode nc features
        in if length hex_str = 2 then ascii ''0x'' @ drop 1 hex_str @ ascii '' ''
           else ascii ''0x'' @ hex_str @ ascii '' ''))"

record api_part =
  ap_name :: ustring
  ap_versions :: "nat set"

definition union_exist :: "api_part \<Rightarrow> api_part \<Rightarrow> bool" where
  "union_exist part other =
     (if ap_name part = ap_name other then card (ap_versions part \<inter> ap_versions other) > 0 else False)"

definition part_contains :: "api_part \<Rightarrow> ustring \<Rightarrow> nat \<Rightarrow> bool" where
  "part_contains part api_name api_version =
     (if ap_name part = api_name then api_version \<in> ap_versions part else False)"

text \<open>\<open>Vec::join\<close>.\<close>

fun join_sep :: "ustring \<Rightarrow> ustring list \<Rightarrow> ustring" where
  "join_sep sep [] = []"
| "join_sep sep [s] = s"
| "join_sep sep (s # ss) = s @ sep @ join_sep sep ss"

definition network_features_string :: "nat list \<Rightarrow> ustring run" where
  "network_features_string features =
     (if flags_empty features then Some []
      else do {
        http \<leftarrow> first_flag 1 features;
        ws \<leftarrow> first_flag 2 features;
        tls \<leftarrow> first_flag 4 features;
        tor \<leftarrow> first_flag 8 features;
        let features_str = (if http then [ascii ''HTTP''] else []) @ (if ws then [ascii ''WS''] else []) @
          (if tls then [ascii ''S''] else []) @ (if tor then [ascii ''TOR''] else []);
        Some (join_sep (ascii '' '') features_str @ ascii '' '')
      })"

definition network_features_size :: "nat list \<Rightarrow> nat" where
  "network_features_size features = length features mod 256"

subsection \<open>Endpoints of version 1\<close>

record endpoint_v1 =
  e1_api :: ustring
  e1_node_id :: "net_node_id option"
  e1_issuer :: pub_key
  e1_hash_full_id :: "hash option"
  e1_host :: ustring
  e1_port :: nat
  e1_path :: "ustring option"
  e1_raw :: ustring
  e1_status :: nat
  e1_last_check :: nat

definition e1_node_full_id :: "endpoint_v1 \<Rightarrow> node_full_id option" where
  "e1_node_full_id ep = (case e1_node_id ep of Some n \<Rightarrow> Some (n, e1_issuer ep) | None \<Rightarrow> None)"

definition url_of :: "bool \<Rightarrow> ustring \<Rightarrow> ustring \<Rightarrow> nat \<Rightarrow> ustring option \<Rightarrow> ustring" where
  "url_of get_protocol api host port path =
     (let protocol = (if api = ascii ''WS2P'' \<or> api = ascii ''WS2PTOR'' then ascii ''ws'' else ascii ''http'');
        tls = (if port = 443 then ascii ''s'' else []);
        path = (case path of Some s \<Rightarrow> s | None \<Rightarrow> [])
      in if get_protocol
         then protocol @ tls @ ascii ''://'' @ host @ ascii '':'' @ show_nat port @ ascii ''/'' @ path
         else host @ ascii '':'' @ show_nat port @ ascii ''/'' @ path)"

definition e1_get_url :: "endpoint_v1 \<Rightarrow> bool \<Rightarrow> bool \<Rightarrow> ustring option" where
  "e1_get_url ep get_protocol supported_ip_v6 =
     Some (url_of get_protocol (e1_api ep) (e1_host ep) (e1_port ep) (e1_path ep))"

definition e1_field :: "crypto \<Rightarrow> net_rule pest_pair \<Rightarrow> endpoint_v1 \<Rightarrow> endpoint_v1 run" where
  "e1_field c field ep = (case as_rule field of
      R_api_name \<Rightarrow> Some (ep\<lparr>e1_api := as_str field\<rparr>)
    | R_node_id \<Rightarrow> do {
        node_id \<leftarrow> parse_hex 32 (as_str field);
        h \<leftarrow> node_full_id_sha256 c (node_id, e1_issuer ep);
        Some (ep\<lparr>e1_node_id := Some node_id, e1_hash_full_id := Some h\<rparr>)
      }
    | R_host \<Rightarrow> Some (ep\<lparr>e1_host := as_str field\<rparr>)
    | R_port \<Rightarrow> do { port \<leftarrow> parse_uint 64 (as_str field); Some (ep\<lparr>e1_port := port\<rparr>) }
    | R_path_inner \<Rightarrow> Some (ep\<lparr>e1_path := Some (as_str field)\<rparr>)
    | _ \<Rightarrow> None)"

definition e1_from_pest_pair ::
  "crypto \<Rightarrow> net_rule pest_pair \<Rightarrow> pub_key \<Rightarrow> nat \<Rightarrow> nat \<Rightarrow> endpoint_v1 run" where
  "e1_from_pest_pair c pair issuer status last_check =
     fold_run (e1_field c) (into_inner pair)
       \<lparr>e1_api = [], e1_node_id = None, e1_issuer = issuer, e1_hash_full_id = None, e1_host = [], e1_port = 0,
        e1_path = None, e1_raw = as_str pair, e1_status = status, e1_last_check = last_check\<rparr>"

definition e1_parse_from_raw ::
  "crypto \<Rightarrow> net_rule pest_parser \<Rightarrow> ustring \<Rightarrow> pub_key \<Rightarrow> nat \<Rightarrow> nat \<Rightarrow> (parse_error + endpoint_v1) run" where
  "e1_parse_from_raw c pest raw_endpoint issuer status last_check =
     parse_with pest R_endpoint_v1 NetPestError (\<lambda>pair. e1_from_pest_pair c pair issuer status last_check) raw_endpoint"

subsection \<open>Endpoints of version 2\<close>

record endpoint_v2 =
  e2_api :: ustring
  e2_api_version :: nat
  e2_network_features :: "nat list"
  e2_api_features :: "nat list"
  e2_ip_v4 :: "nat option"
  e2_ip_v6 :: "nat option"
  e2_host :: "ustring option"
  e2_port :: nat
  e2_path :: "ustring option"

definition e2_to_string :: "net_codecs \<Rightarrow> endpoint_v2 \<Rightarrow> ustring run" where
  "e2_to_string nc ep = do {
     let host = (case e2_host ep of Some s \<Rightarrow> s @ ascii '' '' | None \<Rightarrow> []);
     let ip4 = (case e2_ip_v4 ep of Some i \<Rightarrow> ip4_show nc i @ ascii '' '' | None \<Rightarrow> []);
     let ip6 = (case e2_ip_v6 ep of Some i \<Rightarrow> ascii ''['' @ ip6_show nc i @ ascii ''] '' | None \<Rightarrow> []);
     let path = (case e2_path ep of Some s \<Rightarrow> ascii '' '' @ s | None \<Rightarrow> []);
     nf \<leftarrow> network_features_string (e2_network_features ep);
     Some (e2_api ep @ ascii '' '' @
       (if e2_api_version ep > 0 then ascii ''V'' @ show_nat (e2_api_version ep) @ ascii '' '' else []) @
       nf @ api_features_string nc (e2_api_features ep) @ host @ ip4 @ ip6 @ show_nat (e2_port ep) @ path)
   }"

definition e2_get_url :: "net_codecs \<Rightarrow> endpoint_v2 \<Rightarrow> bool \<Rightarrow> bool \<Rightarrow> ustring option" where
  "e2_get_url nc ep get_protocol supported_ip_v6 =
     map_option (\<lambda>host. url_of get_protocol (e2_api ep) host (e2_port ep) (e2_path ep))
       (case e2_host ep of
          Some host \<Rightarrow> Some host
        | None \<Rightarrow>
            (case (if supported_ip_v6 then e2_ip_v6 ep else None) of
               Some i \<Rightarrow> Some (ip6_show nc i)
             | None \<Rightarrow> map_option (ip4_show nc) (e2_ip_v4 ep)))"

text \<open>The assignment \<open>bytes[0] |= flag\<close>.\<close>

definition set_first_flag :: "nat \<Rightarrow> endpoint_v2 \<Rightarrow> endpoint_v2 run" where
  "set_first_flag flag ep = do {
     b \<leftarrow> first_of (e2_network_features ep);
     Some (ep\<lparr>e2_network_features := (e2_network_features ep)[0 := b OR flag]\<rparr>)
   }"

definition e2_field :: "net_codecs \<Rightarrow> net_rule pest_pair \<Rightarrow> endpoint_v2 \<Rightarrow> endpoint_v2 run" where
  "e2_field nc field ep = (case as_rule field of
      R_api_name \<Rightarrow> Some (ep\<lparr>e2_api := as_str field\<rparr>)
    | R_api_version_inner \<Rightarrow> do { v \<leftarrow> parse_uint 16 (as_str field); Some (ep\<lparr>e2_api_version := v\<rparr>) }
    | R_http \<Rightarrow> set_first_flag 1 ep
    | R_ws \<Rightarrow> set_first_flag 2 ep
    | R_tls \<Rightarrow> set_first_flag 4 ep
    | R_tor \<Rightarrow> set_first_flag 8 ep
    | R_api_features_inner \<Rightarrow> do {
        features \<leftarrow> hex_decode nc
          (if str_len (as_str field) = 1 then ascii ''0'' @ as_str field else as_str field);
        Some (ep\<lparr>e2_api_features := features\<rparr>)
      }
    | R_port \<Rightarrow> do { port \<leftarrow> parse_uint 16 (as_str field); Some (ep\<lparr>e2_port := port\<rparr>) }
    | R_host_v2_inner \<Rightarrow> Some (ep\<lparr>e2_host := Some (as_str field)\<rparr>)
    | R_ip4_inner \<Rightarrow> do { i \<leftarrow> ip4_read nc (as_str field); Some (ep\<lparr>e2_ip_v4 := Some i\<rparr>) }
    | R_ip6_inner \<Rightarrow> do { i \<leftarrow> ip6_read nc (as_str field); Some (ep\<lparr>e2_ip_v6 := Some i\<rparr>) }
    | R_path_inner \<Rightarrow> Some (ep\<lparr>e2_path := Some (as_str field)\<rparr>)
    | _ \<Rightarrow> None)"

definition e2_from_pest_pair :: "net_codecs \<Rightarrow> net_rule pest_pair \<Rightarrow> endpoint_v2 run" where
  "e2_from_pest_pair nc pair = do {
     ep \<leftarrow> fold_run (e2_field nc) (into_inner pair)
       \<lparr>e2_api = [], e2_api_version = 0, e2_network_features = [0], e2_api_features = [], e2_ip_v4 = None,
        e2_ip_v6 = None, e2_host = None, e2_port = 0, e2_path = None\<rparr>;
     Some (if flags_empty (e2_network_features ep) then ep\<lparr>e2_network_features := []\<rparr> else ep)
   }"

subsection \<open>Endpoints\<close>

datatype endpoint_enum = EndpointV1 endpoint_v1 | EndpointV2 endpoint_v2

definition e2_parse_from_raw ::
  "net_codecs \<Rightarrow> net_rule pest_parser \<Rightarrow> ustring \<Rightarrow> (parse_error + endpoint_enum) run" where
  "e2_parse_from_raw nc pest raw_endpoint =
     parse_with pest R_endpoint_v2 NetPestError (\<lambda>pair. map_option EndpointV2 (e2_from_pest_pair nc pair)) raw_endpoint"

fun ep_to_string :: "net_codecs \<Rightarrow> endpoint_enum \<Rightarrow> ustring run" where
  "ep_to_string nc (EndpointV1 ep) = Some (e1_raw ep)"
| "ep_to_string nc (EndpointV2 ep) = e2_to_string nc ep"

fun ep_api :: "endpoint_enum \<Rightarrow> ustring" where
  "ep_api (EndpointV1 ep) = e1_api ep"
| "ep_api (EndpointV2 ep) = e2_api ep"

fun ep_version :: "endpoint_enum \<Rightarrow> nat" where
  "ep_version (EndpointV1 _) = 1"
| "ep_version (EndpointV2 _) = 2"

fun ep_node_uuid :: "endpoint_enum \<Rightarrow> net_node_id option run" where
  "ep_node_uuid (EndpointV1 ep) = Some (e1_node_id ep)"
| "ep_node_uuid (EndpointV2 ep) = None"

fun ep_pubkey :: "endpoint_enum \<Rightarrow> pub_key run" where
  "ep_pubkey (EndpointV1 ep) = Some (e1_issuer ep)"
| "ep_pubkey (EndpointV2 ep) = None"

fun ep_port :: "endpoint_enum \<Rightarrow> nat" where
  "ep_port (EndpointV1 ep) = e1_port ep"
| "ep_port (EndpointV2 ep) = e2_port ep"

fun ep_raw :: "endpoint_enum \<Rightarrow> ustring run" where
  "ep_raw (EndpointV1 ep) = Some (e1_raw ep)"
| "ep_raw (EndpointV2 ep) = None"

fun ep_status :: "endpoint_enum \<Rightarrow> nat run" where
  "ep_status (EndpointV1 ep) = Some (e1_status ep)"
| "ep_status (EndpointV2 ep) = None"

fun ep_set_status :: "nat \<Rightarrow> endpoint_enum \<Rightarrow> endpoint_enum run" where
  "ep_set_status status (EndpointV1 ep) = Some (EndpointV1 (ep\<lparr>e1_status := status\<rparr>))"
| "ep_set_status status (EndpointV2 ep) = None"

fun ep_set_last_check :: "nat \<Rightarrow> endpoint_enum \<Rightarrow> endpoint_enum run" where
  "ep_set_last_check last_check (EndpointV1 ep) = Some (EndpointV1 (ep\<lparr>e1_last_check := last_check\<rparr>))"
| "ep_set_last_check last_check (EndpointV2 ep) = None"

fun ep_get_url :: "net_codecs \<Rightarrow> endpoint_enum \<Rightarrow> bool \<Rightarrow> bool \<Rightarrow> ustring option" where
  "ep_get_url nc (EndpointV1 ep) get_protocol supported_ip_v6 =
     Some (url_of get_protocol (e1_api ep) (e1_host ep) (e1_port ep) (e1_path ep))"
| "ep_get_url nc (EndpointV2 ep) get_protocol supported_ip_v6 = e2_get_url nc ep get_protocol supported_ip_v6"

end
