(* ===== verification/Network_Heads.thy ===== *)
theory Network_Heads
  imports Network_Documents
begin

text \<open>
  The heads that the nodes broadcast, \<open>lib/tools/network-documents/src\<close>: the messages and heads of
  version 2 with their text format (\<open>network_head_v2.rs\<close>), the cache of the heads of the network
  and the heads received as JSON (\<open>network_head.rs\<close>).

  A value of the crate \<open>serde_json\<close> is a tree whose objects list their fields; a number that is
  not an integer has no case that the code tells apart.
\<close>

datatype json_value =
  JNull | JBool bool | JInt int | JReal | JString ustring | JArray "json_value list"
| JObject "(ustring \<times> json_value) list"

fun json_get :: "string \<Rightarrow> json_value \<Rightarrow> json_value option" where
  "json_get key (JObject members) = map_of members (ascii key)"
| "json_get key _ = None"

fun json_as_str :: "json_value \<Rightarrow> ustring option" where
  "json_as_str (JString s) = Some s"
| "json_as_str _ = None"

fun json_as_u64 :: "json_value \<Rightarrow> nat option" where
  "json_as_u64 (JInt i) = (if 0 \<le> i then Some (nat i) else None)"
| "json_as_u64 _ = None"

text \<open>The slice \<open>&s[n..]\<close>: the index, in bytes, must be the start of a character or the end.\<close>

fun slice_from :: "nat \<Rightarrow> ustring \<Rightarrow> ustring run" where
  "slice_from n s =
     (if n = 0 then Some s
      else (case s of [] \<Rightarrow> None | c # cs \<Rightarrow> if utf8_length c \<le> n then slice_from (n - utf8_length c) cs else None))"

declare slice_from.simps [simp del]

subsection \<open>Messages of version 2\<close>

record head_message_v2 =
  hm_api :: ustring
  hm_version :: nat
  hm_pubkey :: pub_key
  hm_blockstamp :: blockstamp
  hm_node_uuid :: net_node_id
  hm_software :: ustring
  hm_soft_version :: ustring
  hm_prefix :: nat
  hm_free_member_room :: "nat option"
  hm_free_mirror_room :: "nat option"

text \<open>The format \<open>{:02}\<close>.\<close>

definition pad_zero2 :: "ustring \<Rightarrow> ustring" where
  "pad_zero2 s = replicate (2 - length s) 48 @ s"

definition hm_to_human_string :: "crypto \<Rightarrow> head_message_v2 \<Rightarrow> nat \<Rightarrow> ustring option \<Rightarrow> ustring run" where
  "hm_to_human_string c m max_len uid = do {
     short_api \<leftarrow> slice_from 4 (hm_api m);
     pubkey \<leftarrow> (if max_len > 41 then key_string c (hm_pubkey m) else Some []);
     let id = pad_right 8 (node_id_string (hm_node_uuid m)) @ ascii ''-'' @ take 8 pubkey @ ascii '' '' @
       take 16 (blockstamp_to_string (hm_blockstamp m));
     let soft = pad_right 7 (hm_software m) @ ascii '':'' @ pad_right 14 (hm_soft_version m);
     let api = ascii ''['' @ pad_right 5 short_api @ ascii '']'';
     let rooms = pad_zero2 (show_nat (case hm_free_member_room m of Some n \<Rightarrow> n | None \<Rightarrow> 0)) @ ascii '':'' @
       pad_zero2 (show_nat (case hm_free_mirror_room m of Some n \<Rightarrow> n | None \<Rightarrow> 0));
     let pre = pad_left 3 (show_nat (hm_prefix m));
     Some (case (max_len > 85, uid) of
         (True, Some uid) \<Rightarrow>
           id @ ascii '' '' @ soft @ ascii '' '' @ pre @ ascii '' '' @ api @ ascii ''  '' @ rooms @ ascii '' '' @ uid
       | _ \<Rightarrow>
           if max_len > 75 then
             id @ ascii '' '' @ soft @ ascii '' '' @ pre @ ascii '' '' @ api @ ascii ''  '' @ rooms
           else if max_len > 70 then id @ ascii '' '' @ soft @ ascii '' '' @ api @ ascii ''  '' @ rooms
           else if max_len > 47 then id @ ascii '' '' @ api @ ascii ''  '' @ rooms
           else if max_len > 41 then id @ ascii '' '' @ api
           else ascii ''Term width insufficient'')
   }"

datatype head_message = HeadMessageV2 head_message_v2 | HeadMessageOther

datatype head_message_parse_err =
  HmBaseConvertionError base_convertion_error | HmParseIntError | HmBlockstampParseError blockstamp_parse_error

text \<open>A number, with the error of \<open>str::parse\<close>.\<close>

definition head_number :: "nat \<Rightarrow> ustring \<Rightarrow> head_message_parse_err + nat" where
  "head_number w s = (case parse_uint w s of Some n \<Rightarrow> Inr n | None \<Rightarrow> Inl HmParseIntError)"

definition head_room :: "ustring option \<Rightarrow> head_message_parse_err + nat option" where
  "head_room field = (case field of Some s \<Rightarrow> map_sum id Some (head_number 64 s) | None \<Rightarrow> Inr None)"

text \<open>The fields of the text are read by index, which must be in range, each before the next one.\<close>

definition head_message_from_str ::
  "codecs \<Rightarrow> ustring \<Rightarrow> (head_message_parse_err + head_message) run" where
  "head_message_from_str d source = (let source_array = split_on 58 source in do {
     api \<leftarrow> vec_get source_array 0;
     version \<leftarrow> vec_get source_array 2;
     try_then (Some (head_number 64 version)) (\<lambda>version. do {
     pubkey \<leftarrow> vec_get source_array 3;
     try_then (Some (map_sum HmBaseConvertionError id (key_from_base58 d pubkey))) (\<lambda>pubkey. do {
     blockstamp \<leftarrow> vec_get source_array 4;
     try_then (map_option (map_sum HmBlockstampParseError id) (blockstamp_from_string blockstamp)) (\<lambda>blockstamp. do {
     node_uuid \<leftarrow> vec_get source_array 5;
     try_then (Some (case parse_hex 32 node_uuid of Some n \<Rightarrow> Inr n | None \<Rightarrow> Inl HmParseIntError)) (\<lambda>node_uuid. do {
     software \<leftarrow> vec_get source_array 6;
     soft_version \<leftarrow> vec_get source_array 7;
     prefix \<leftarrow> vec_get source_array 8;
     try_then (Some (head_number 64 prefix)) (\<lambda>prefix.
     try_then (Some (head_room (vec_get source_array 9))) (\<lambda>free_member_room.
     try_then (Some (head_room (vec_get source_array 10))) (\<lambda>free_mirror_room.
       Some (Inr (HeadMessageV2 \<lparr>hm_api = api, hm_version = version, hm_pubkey = pubkey,
         hm_blockstamp = blockstamp, hm_node_uuid = node_uuid, hm_software = software,
         hm_soft_version = soft_version, hm_prefix = prefix, hm_free_member_room = free_member_room,
         hm_free_mirror_room = free_mirror_room\<rparr>)))))
     })})})})
   })"

fun hm_human_string :: "crypto \<Rightarrow> head_message \<Rightarrow> nat \<Rightarrow> ustring option \<Rightarrow> ustring run" where
  "hm_human_string c (HeadMessageV2 m) max_len uid = hm_to_human_string c m max_len uid"
| "hm_human_string c HeadMessageOther max_len uid = None"

fun head_message_blockstamp :: "head_message \<Rightarrow> blockstamp run" where
  "head_message_blockstamp (HeadMessageV2 m) = Some (hm_blockstamp m)"
| "head_message_blockstamp HeadMessageOther = None"

fun head_message_node_uuid :: "head_message \<Rightarrow> net_node_id run" where
  "head_message_node_uuid (HeadMessageV2 m) = Some (hm_node_uuid m)"
| "head_message_node_uuid HeadMessageOther = None"

fun head_message_pubkey :: "head_message \<Rightarrow> pub_key run" where
  "head_message_pubkey (HeadMessageV2 m) = Some (hm_pubkey m)"
| "head_message_pubkey HeadMessageOther = None"

definition head_message_v2_to_string :: "crypto \<Rightarrow> head_message_v2 \<Rightarrow> ustring run" where
  "head_message_v2_to_string c m =
     (if hm_version m = 1 then do {
        pubkey \<leftarrow> key_string c (hm_pubkey m);
        Some (hm_api m @ ascii '':HEAD:1:'' @ pubkey @ ascii '':'' @ blockstamp_to_string (hm_blockstamp m) @
          ascii '':'' @ node_id_string (hm_node_uuid m) @ ascii '':'' @ hm_software m @ ascii '':'' @
          hm_soft_version m @ ascii '':'' @ show_nat (hm_prefix m))
      }
      else if hm_version m = 2 then do {
        pubkey \<leftarrow> key_string c (hm_pubkey m);
        free_member_room \<leftarrow> hm_free_member_room m;
        free_mirror_room \<leftarrow> hm_free_mirror_room m;
        Some (hm_api m @ ascii '':HEAD:2:'' @ pubkey @ ascii '':'' @ blockstamp_to_string (hm_blockstamp m) @
          ascii '':'' @ node_id_string (hm_node_uuid m) @ ascii '':'' @ hm_software m @ ascii '':'' @
          hm_soft_version m @ ascii '':'' @ show_nat (hm_prefix m) @ ascii '':'' @ show_nat free_member_room @
          ascii '':'' @ show_nat free_mirror_room)
      }
      else None)"

fun head_message_to_string :: "crypto \<Rightarrow> head_message \<Rightarrow> ustring run" where
  "head_message_to_string c (HeadMessageV2 m) = head_message_v2_to_string c m"
| "head_message_to_string c HeadMessageOther = None"

subsection \<open>Heads of version 2\<close>

record head_v2 =
  h2_message :: head_message
  h2_sig :: signature
  h2_message_v2 :: head_message
  h2_sig_v2 :: signature
  h2_step :: nat
  h2_uid :: "ustring option"

definition h2_to_string :: "crypto \<Rightarrow> head_v2 \<Rightarrow> ustring run" where
  "h2_to_string c h = head_message_to_string c (h2_message_v2 h)"

definition h2_to_human_string :: "crypto \<Rightarrow> head_v2 \<Rightarrow> nat \<Rightarrow> ustring run" where
  "h2_to_human_string c h max_len =
     (if max_len > 2
      then do {
        s \<leftarrow> hm_human_string c (h2_message_v2 h) (max_len - 2) (h2_uid h);
        Some (show_nat (h2_step h) @ ascii '' '' @ s)
      }
      else Some (ascii ''.''))"

subsection \<open>Heads\<close>

text \<open>The heads of version 3 are no more than a constructor here: every operation on them panics.\<close>

datatype 'v network_head = HeadV2 head_v2 | HeadV3 'v

fun head_to_string :: "crypto \<Rightarrow> 'v network_head \<Rightarrow> ustring run" where
  "head_to_string c (HeadV2 h) = h2_to_string c h"
| "head_to_string c (HeadV3 _) = None"

fun head_version :: "'v network_head \<Rightarrow> nat run" where
  "head_version (HeadV2 _) = Some 2"
| "head_version (HeadV3 _) = None"

fun head_blockstamp :: "'v network_head \<Rightarrow> blockstamp run" where
  "head_blockstamp (HeadV2 h) = head_message_blockstamp (h2_message_v2 h)"
| "head_blockstamp (HeadV3 _) = None"

fun head_pubkey :: "'v network_head \<Rightarrow> pub_key run" where
  "head_pubkey (HeadV2 h) = head_message_pubkey (h2_message_v2 h)"
| "head_pubkey (HeadV3 _) = None"

fun head_uid :: "'v network_head \<Rightarrow> ustring option run" where
  "head_uid (HeadV2 h) = Some (h2_uid h)"
| "head_uid (HeadV3 _) = None"

fun head_set_uid :: "ustring \<Rightarrow> 'v network_head \<Rightarrow> 'v network_head run" where
  "head_set_uid uid (HeadV2 h) = Some (HeadV2 (h\<lparr>h2_uid := Some uid\<rparr>))"
| "head_set_uid uid (HeadV3 _) = None"

fun head_step :: "'v network_head \<Rightarrow> nat run" where
  "head_step (HeadV2 h) = Some (h2_step h)"
| "head_step (HeadV3 _) = None"

fun head_verify :: "crypto \<Rightarrow> 'v network_head \<Rightarrow> bool run" where
  "head_verify c (HeadV2 h) = do {
     pubkey \<leftarrow> head_pubkey (HeadV2 h :: 'v network_head);
     message \<leftarrow> head_message_to_string c (h2_message h);
     ok \<leftarrow> key_verify c pubkey message (h2_sig h);
     if ok then do {
       message_v2 \<leftarrow> head_message_to_string c (h2_message_v2 h);
       key_verify c pubkey message_v2 (h2_sig_v2 h)
     } else Some False
   }"
| "head_verify c (HeadV3 _) = None"

fun head_node_uuid :: "'v network_head \<Rightarrow> net_node_id run" where
  "head_node_uuid (HeadV2 h) = head_message_node_uuid (h2_message_v2 h)"
| "head_node_uuid (HeadV3 _) = None"

definition head_node_full_id :: "'v network_head \<Rightarrow> node_full_id run" where
  "head_node_full_id h = do { n \<leftarrow> head_node_uuid h; k \<leftarrow> head_pubkey h; Some (n, k) }"

fun head_to_human_string :: "crypto \<Rightarrow> 'v network_head \<Rightarrow> nat \<Rightarrow> ustring run" where
  "head_to_human_string c (HeadV2 h) max_len = h2_to_human_string c h max_len"
| "head_to_human_string c (HeadV3 _) max_len = None"

text \<open>The head replaces the one of the same node in the cache when it is newer, or as new and nearer.\<close>

definition head_apply ::
  "'v network_head \<Rightarrow> (node_full_id \<rightharpoonup> 'v network_head) \<Rightarrow> (bool \<times> (node_full_id \<rightharpoonup> 'v network_head)) run" where
  "head_apply self heads_cache = do {
     node \<leftarrow> head_node_full_id self;
     (case heads_cache node of
        Some head \<Rightarrow> do {
          new \<leftarrow> head_blockstamp self;
          old \<leftarrow> head_blockstamp head;
          better \<leftarrow> (if bs_id new > bs_id old then Some True
            else if bs_id new = bs_id old then do {
              new_version \<leftarrow> head_version self;
              old_version \<leftarrow> head_version head;
              if new_version \<ge> old_version then do {
                new_step \<leftarrow> head_step self;
                old_step \<leftarrow> head_step head;
                Some (new_step < old_step)
              } else Some False
            } else Some False);
          Some (if better then (True, heads_cache(node \<mapsto> self)) else (False, heads_cache))
        }
      | None \<Rightarrow> Some (True, heads_cache(node \<mapsto> self)))
   }"

datatype head_parse_err =
  HeadBaseConvertionError base_convertion_error | HeadMessageParseErr head_message_parse_err
| InvalidMessageVersion | InvalidStep | InvalidStr string | MissingField string

text \<open>The text of a field; the error for a missing field may name another one.\<close>

definition json_field_str :: "string \<Rightarrow> string \<Rightarrow> json_value \<Rightarrow> head_parse_err + ustring" where
  "json_field_str key missing source = (case json_get key source of
      Some v \<Rightarrow> (case json_as_str v of Some s \<Rightarrow> Inr s | None \<Rightarrow> Inl (InvalidStr key))
    | None \<Rightarrow> Inl (MissingField missing))"

definition head_from_json_value ::
  "codecs \<Rightarrow> json_value \<Rightarrow> (head_parse_err + 'v network_head) run" where
  "head_from_json_value d source =
     try_then (Some (json_field_str ''message'' ''message'' source)) (\<lambda>str_msg.
     try_then (map_option (map_sum HeadMessageParseErr id) (head_message_from_str d str_msg)) (\<lambda>message.
     (case message of
        HeadMessageV2 _ \<Rightarrow>
          try_then (Some (json_field_str ''sig'' ''sigV2'' source)) (\<lambda>str_sig.
          try_then (Some (map_sum HeadBaseConvertionError id (sig_from_base64 d str_sig))) (\<lambda>sig.
          try_then (Some (json_field_str ''messageV2'' ''messageV2'' source)) (\<lambda>str_msg.
          try_then (map_option (map_sum HeadMessageParseErr id) (head_message_from_str d str_msg)) (\<lambda>message_v2.
          try_then (Some (json_field_str ''sigV2'' ''sigV2'' source)) (\<lambda>str_sig.
          try_then (Some (map_sum HeadBaseConvertionError id (sig_from_base64 d str_sig))) (\<lambda>sig_v2.
          try_then (Some (case json_get ''step'' source of
              Some v \<Rightarrow> (case json_as_u64 v of Some step \<Rightarrow> Inr (as_u32 step) | None \<Rightarrow> Inl InvalidStep)
            | None \<Rightarrow> Inl (MissingField ''step''))) (\<lambda>step.
            Some (Inr (HeadV2 \<lparr>h2_message = message, h2_sig = sig, h2_message_v2 = message_v2,
              h2_sig_v2 = sig_v2, h2_step = step, h2_uid = None\<rparr>)))))))))
      | HeadMessageOther \<Rightarrow> Some (Inl InvalidMessageVersion))))"

subsection \<open>The text of a message\<close>

text \<open>The decoder of base 58 reads what the encoder writes, whose alphabet has no colon.\<close>

definition base58_reads :: "crypto \<Rightarrow> codecs \<Rightarrow> nat list \<Rightarrow> bool" where
  "base58_reads c d k \<longleftrightarrow> length k = 32 \<and> d_base58 d (c_base58 c k) = Inr k \<and> 58 \<notin> set (c_base58 c k)"

definition head_message_wf :: "head_message_v2 \<Rightarrow> bool" where
  "head_message_wf m \<longleftrightarrow> blockstamp_wf (hm_blockstamp m) \<and> hm_node_uuid m < 2 ^ 32 \<and> hm_prefix m < 2 ^ 64 \<and>
     58 \<notin> set (hm_api m) \<and> 58 \<notin> set (hm_software m) \<and> 58 \<notin> set (hm_soft_version m) \<and>
     (case (hm_free_member_room m, hm_free_mirror_room m) of
        (None, None) \<Rightarrow> hm_version m = 1
      | (Some a, Some b) \<Rightarrow> hm_version m = 2 \<and> a < 2 ^ 64 \<and> b < 2 ^ 64
      | _ \<Rightarrow> False)"

lemma no_colon:
  "58 \<notin> set (show_nat n)" "58 \<notin> set (show_hex n)"
  "blockstamp_wf b \<Longrightarrow> 58 \<notin> set (blockstamp_to_string b)"
  using show_nat_digits[of n] show_hex_clean[of 58 n] blockstamp_chars[of b 58]
  by (auto simp: list_all_iff is_digit_def)

lemma key_reads: "base58_reads c d k \<Longrightarrow> key_from_base58 d (c_base58 c k) = Inr (PubEd25519 k)"
  by (simp add: base58_reads_def key_from_base58_def str_base58_to_32bytes_def base58_to_bytes_def)

lemma split_head_message:
  assumes "head_message_wf m" "hm_pubkey m = PubEd25519 k" "base58_reads c d k"
    and "head_message_v2_to_string c m = Some s"
  shows "split_on 58 s =
    [hm_api m, ascii ''HEAD'', show_nat (hm_version m), c_base58 c k, blockstamp_to_string (hm_blockstamp m),
     show_hex (hm_node_uuid m), hm_software m, hm_soft_version m, show_nat (hm_prefix m)] @
    (case (hm_free_member_room m, hm_free_mirror_room m) of
       (Some a, Some b) \<Rightarrow> [show_nat a, show_nat b] | _ \<Rightarrow> [])"
proof -
  have "show_nat 1 = [49]" "show_nat 2 = [50]" by (simp_all add: show_nat.simps)
  then show ?thesis
    using assms
    by (auto simp: head_message_wf_def head_message_v2_to_string_def ascii_def split_on_append split_on_absent
        no_colon base58_reads_def node_id_string_def split: option.splits)
qed

text \<open>
  Text format of the heads. The message of a head of version 2 whose texts have no colon is
  printed (version 1 without the free rooms, version 2 with both) and parses back to itself.
\<close>

theorem head_message_roundtrip:
  assumes "head_message_wf m" "hm_pubkey m = PubEd25519 k" "base58_reads c d k"
  shows "\<exists>s. head_message_to_string c (HeadMessageV2 m) = Some s \<and>
    head_message_from_str d s = Some (Inr (HeadMessageV2 m))"
proof -
  obtain s where s: "head_message_v2_to_string c m = Some s"
    using assms(1,2) by (auto simp: head_message_wf_def head_message_v2_to_string_def split: option.splits)
  have "head_message_from_str d s = Some (Inr (HeadMessageV2 m))"
    using assms(1,2) key_reads[OF assms(3)]
    by (cases m) (auto simp: head_message_from_str_def split_head_message[OF assms s] Let_def vec_get_def head_number_def
        head_room_def parse_show_nat parse_show_hex blockstamp_parses head_message_wf_def split: option.splits)
  then show ?thesis using s by simp
qed

text \<open>A decoder for the examples: the text is the bytes.\<close>

definition toy_codecs :: codecs where
  "toy_codecs = \<lparr>d_base58 = Inr, d_base64 = Inr\<rparr>"

definition example_message :: "nat \<Rightarrow> head_message_v2" where
  "example_message version = \<lparr>hm_api = ascii ''WS2P'', hm_version = version, hm_pubkey = PubEd25519 (replicate 32 1),
     hm_blockstamp = Blockstamp 50 hash_default, hm_node_uuid = 3, hm_software = ascii ''durs'',
     hm_soft_version = ascii ''0.2'', hm_prefix = 1,
     hm_free_member_room = (if version = 2 then Some 5 else None),
     hm_free_mirror_room = (if version = 2 then Some 7 else None)\<rparr>"

lemma example_reads: "base58_reads toy_crypto toy_codecs (replicate 32 1)"
  by (simp add: base58_reads_def toy_crypto_def toy_codecs_def)

lemma example_message_wf: "version \<in> {1, 2} \<Longrightarrow> head_message_wf (example_message version)"
  by (auto simp: head_message_wf_def example_message_def blockstamp_wf_def hash_wf_def hash_default_def list_all_iff
      ascii_def)

theorem head_message_roundtrip_witness:
  "\<exists>s. head_message_to_string toy_crypto (HeadMessageV2 (example_message 2)) = Some s \<and>
    head_message_from_str toy_codecs s = Some (Inr (HeadMessageV2 (example_message 2)))"
  by (rule head_message_roundtrip[OF example_message_wf _ example_reads]) (simp_all add: example_message_def)

subsection \<open>The cache of the heads\<close>

text \<open>The loop of the receivers over heads that come one after the other.\<close>

definition apply_heads :: "'v network_head list \<Rightarrow> (node_full_id \<rightharpoonup> 'v network_head) run" where
  "apply_heads heads = fold_run (\<lambda>h cache. map_option snd (head_apply h cache)) heads (\<lambda>_. None)"

definition is_v2 :: "'v network_head \<Rightarrow> bool" where
  "is_v2 h \<longleftrightarrow> (case h of HeadV2 v \<Rightarrow> h2_message_v2 v \<noteq> HeadMessageOther | HeadV3 _ \<Rightarrow> False)"

fun v2_message :: "'v network_head \<Rightarrow> head_message_v2" where
  "v2_message (HeadV2 v) = (case h2_message_v2 v of HeadMessageV2 m \<Rightarrow> m | HeadMessageOther \<Rightarrow> undefined)"
| "v2_message (HeadV3 _) = undefined"

definition head_node :: "'v network_head \<Rightarrow> node_full_id" where
  "head_node h = (hm_node_uuid (v2_message h), hm_pubkey (v2_message h))"

definition head_number_of :: "'v network_head \<Rightarrow> nat" where
  "head_number_of h = bs_id (hm_blockstamp (v2_message h))"

fun head_step_of :: "'v network_head \<Rightarrow> nat" where
  "head_step_of (HeadV2 v) = h2_step v"
| "head_step_of (HeadV3 _) = undefined"

text \<open>The order of the cache: a higher block first, then a smaller number of steps.\<close>

definition head_better :: "'v network_head \<Rightarrow> 'v network_head \<Rightarrow> bool" where
  "head_better g h \<longleftrightarrow> head_number_of g > head_number_of h \<or>
     (head_number_of g = head_number_of h \<and> head_step_of g < head_step_of h)"

lemma v2_accessors:
  assumes "is_v2 h"
  shows "head_node_full_id h = Some (head_node h)" "head_version h = Some 2"
    "head_blockstamp h = Some (hm_blockstamp (v2_message h))" "head_step h = Some (head_step_of h)"
  using assms
  by (cases h; auto simp: is_v2_def head_node_full_id_def head_node_def split: head_message.splits)+

lemma head_apply_v2:
  assumes "is_v2 h" "\<And>g. cache (head_node h) = Some g \<Longrightarrow> is_v2 g"
  shows "head_apply h cache =
    (if \<exists>g. cache (head_node h) = Some g \<and> \<not> head_better h g then Some (False, cache)
     else Some (True, cache(head_node h \<mapsto> h)))"
  using v2_accessors[OF assms(1)] v2_accessors[OF assms(2)]
  by (auto simp: head_apply_def head_better_def head_number_of_def split: option.splits)

definition cache_ok :: "'v network_head set \<Rightarrow> (node_full_id \<rightharpoonup> 'v network_head) \<Rightarrow> bool" where
  "cache_ok seen cache \<longleftrightarrow>
     (\<forall>node g. cache node = Some g \<longrightarrow> g \<in> seen \<and> is_v2 g \<and> head_node g = node) \<and>
     (\<forall>h\<in>seen. \<exists>g. cache (head_node h) = Some g \<and> \<not> head_better h g)"

lemma head_apply_cache_ok:
  assumes "cache_ok seen cache" "is_v2 h"
  shows "\<exists>cache'. map_option snd (head_apply h cache) = Some cache' \<and> cache_ok (insert h seen) cache'"
proof -
  have v2: "\<And>g. cache (head_node h) = Some g \<Longrightarrow> is_v2 g" using assms(1) unfolding cache_ok_def by blast
  have best: "\<exists>g. cache (head_node k) = Some g \<and> \<not> head_better k g" if "k \<in> seen" for k
    using assms(1) that by (auto simp: cache_ok_def)
  have trans: "\<not> head_better k h" if "head_better h g" "\<not> head_better k g" for k g
    using that by (auto simp: head_better_def)
  have irrefl: "\<not> head_better h h" by (simp add: head_better_def)
  show ?thesis
  proof (cases "\<exists>g. cache (head_node h) = Some g \<and> \<not> head_better h g")
    case True
    then show ?thesis using assms(1) by (auto simp: head_apply_v2[OF assms(2) v2] cache_ok_def)
  next
    case False
    have "\<exists>g. (cache(head_node h \<mapsto> h)) (head_node k) = Some g \<and> \<not> head_better k g" if "k \<in> insert h seen" for k
    proof (cases "head_node k = head_node h \<and> k \<noteq> h")
      case True
      with that best[of k] obtain g where "cache (head_node h) = Some g" "\<not> head_better k g" by auto
      then show ?thesis using False trans True by auto
    next
      case other: False
      then show ?thesis using that best[of k] by (auto simp: head_better_def)
    qed
    then show ?thesis
      using False assms irrefl by (auto simp: head_apply_v2[OF assms(2) v2] cache_ok_def split: if_splits)
  qed
qed

text \<open>
  C37: The cache of the heads. Whatever the order in which heads of version 2 are received, the cache
  holds one of them for each node, and none received from that node has a higher block, nor the same
  block with fewer steps.
\<close>

theorem heads_cache_keeps_best:
  assumes "list_all is_v2 heads"
  shows "\<exists>cache. apply_heads heads = Some cache \<and> cache_ok (set heads) cache"
proof -
  have "\<exists>cache. apply_heads heads = Some cache \<and> cache_ok ({} \<union> set heads) cache"
    unfolding apply_heads_def
  proof (rule fold_run_invariant)
    show "cache_ok {} (\<lambda>_. None)" by (simp add: cache_ok_def)
  qed (use assms in \<open>simp add: list_all_iff head_apply_cache_ok del: map_option_eq_Some\<close>)
  then show ?thesis by simp
qed

definition example_head :: "nat \<Rightarrow> nat \<Rightarrow> unit network_head" where
  "example_head version step = HeadV2 \<lparr>h2_message = HeadMessageV2 (example_message version),
     h2_sig = SigEd25519 [], h2_message_v2 = HeadMessageV2 (example_message 2), h2_sig_v2 = SigEd25519 [],
     h2_step = step, h2_uid = None\<rparr>"

theorem heads_cache_keeps_best_witness:
  "\<exists>cache. apply_heads [example_head 1 3, example_head 1 1, example_head 1 2] = Some cache \<and>
    cache_ok {example_head 1 3, example_head 1 1, example_head 1 2} cache"
  using heads_cache_keeps_best[of "[example_head 1 3, example_head 1 1, example_head 1 2]"]
  by (simp add: is_v2_def example_head_def)

subsection \<open>Heads of the network\<close>

text \<open>The messages that can be printed.\<close>

definition printable :: "head_message \<Rightarrow> bool" where
  "printable m \<longleftrightarrow> (case m of
      HeadMessageV2 m \<Rightarrow> hm_version m = 1 \<or>
        (hm_version m = 2 \<and> hm_free_member_room m \<noteq> None \<and> hm_free_mirror_room m \<noteq> None)
    | HeadMessageOther \<Rightarrow> False)"

fun has_ed25519_key :: "head_message \<Rightarrow> bool" where
  "has_ed25519_key (HeadMessageV2 m) = (\<exists>k. hm_pubkey m = PubEd25519 k)"
| "has_ed25519_key HeadMessageOther = False"

lemma message_prints:
  "has_ed25519_key m \<Longrightarrow> head_message_to_string c m = None \<longleftrightarrow> \<not> printable m"
  by (cases m) (auto simp: printable_def head_message_v2_to_string_def split: bind_splits)

lemma mapped_error:
  "map_sum f id r = Inr y \<longleftrightarrow> r = Inr y"
  "map_option (map_sum f id) m = Some (Inr y) \<longleftrightarrow> m = Some (Inr y)"
  by (cases r; simp) (cases m; simp add: map_sum_def split: sum.splits)

lemma key_from_base58_key: "key_from_base58 d s = Inr k \<Longrightarrow> \<exists>bytes. k = PubEd25519 bytes"
  by (auto simp: key_from_base58_def map_sum_def split: sum.splits)

lemma sig_from_base64_sig: "sig_from_base64 d s = Inr k \<Longrightarrow> \<exists>bytes. k = SigEd25519 bytes"
  by (auto simp: sig_from_base64_def map_sum_def split: sum.splits)

lemma parsed_has_key: "head_message_from_str d s = Some (Inr m) \<Longrightarrow> has_ed25519_key m"
  by (auto simp: head_message_from_str_def try_then_returns mapped_error Let_def Option.bind_eq_Some_conv
      dest: key_from_base58_key)

lemma parsed_head:
  assumes "head_from_json_value d source = Some (Inr h)"
  shows "\<exists>v s s'. h = HeadV2 v \<and> has_ed25519_key (h2_message v) \<and> has_ed25519_key (h2_message_v2 v) \<and>
    h2_sig v = SigEd25519 s \<and> h2_sig_v2 v = SigEd25519 s'"
  using assms
  by (auto simp: head_from_json_value_def try_then_returns mapped_error split: head_message.splits
      dest!: sig_from_base64_sig parsed_has_key)
    (metis head_message.exhaust)

text \<open>
  Received heads that stop the node. The verification of a head that was read from JSON panics
  exactly when its first message cannot be printed again, or its signature is right and the second
  message cannot: a version other than 1 and 2, or version 2 without the free rooms.
\<close>

theorem received_head_panics:
  assumes "head_from_json_value d source = Some (Inr (HeadV2 v :: 'v network_head))"
  shows "head_verify c (HeadV2 v :: 'v network_head) = None \<longleftrightarrow> \<not> printable (h2_message v) \<or>
    (\<not> printable (h2_message_v2 v) \<and>
     do { k \<leftarrow> head_message_pubkey (h2_message_v2 v); m \<leftarrow> head_message_to_string c (h2_message v);
          key_verify c k m (h2_sig v) } = Some True)"
proof -
  obtain s s' k m where v: "h2_sig v = SigEd25519 s" "h2_sig_v2 v = SigEd25519 s'"
    "h2_message_v2 v = HeadMessageV2 m" "hm_pubkey m = PubEd25519 k"
    "has_ed25519_key (h2_message v)" "has_ed25519_key (h2_message_v2 v)"
    using parsed_head[OF assms] by (auto elim: has_ed25519_key.elims)
  show ?thesis
    using message_prints[OF v(5), of c] message_prints[OF v(6), of c] v(1-4)
    by (auto split: bind_splits)
qed

definition example_json :: "nat \<Rightarrow> json_value" where
  "example_json version = JObject
     [(ascii ''message'', JString (ascii ''WS2P:HEAD:'' @ show_nat version @ [58] @ replicate 32 1 @ [58] @
        blockstamp_to_string (Blockstamp 50 hash_default) @ ascii '':3:durs:0.2:1'')),
      (ascii ''sig'', JString (replicate 64 1)),
      (ascii ''messageV2'', JString (ascii ''WS2P:HEAD:'' @ show_nat version @ [58] @ replicate 32 1 @ [58] @
        blockstamp_to_string (Blockstamp 50 hash_default) @ ascii '':3:durs:0.2:1'')),
      (ascii ''sigV2'', JString (replicate 64 1)), (ascii ''step'', JInt 0)]"

lemma example_message_parses:
  assumes "n < 2 ^ 64"
  shows "head_message_from_str toy_codecs (ascii ''WS2P:HEAD:'' @ show_nat n @ [58] @ replicate 32 1 @ [58] @
    blockstamp_to_string (Blockstamp 50 hash_default) @ ascii '':3:durs:0.2:1'') =
    Some (Inr (HeadMessageV2 ((example_message 1)\<lparr>hm_version := n\<rparr>)))"
proof -
  have wf: "blockstamp_wf (Blockstamp 50 hash_default)"
    by (simp add: blockstamp_wf_def hash_wf_def hash_default_def list_all_iff)
  have key: "length k = 32 \<Longrightarrow> key_from_base58 toy_codecs k = Inr (PubEd25519 k)" for k
    by (simp add: key_from_base58_def str_base58_to_32bytes_def base58_to_bytes_def toy_codecs_def)
  have "parse_hex 32 [51] = Some 3" "parse_uint 64 [49] = Some 1"
    by (simp_all add: parse_hex_def to_digit16_def hex_value_def parse_uint_def is_digit_def digits_value_def)
  then show ?thesis
    using assms
    by (simp add: head_message_from_str_def example_message_def ascii_def split_on_append split_on_absent no_colon
        no_colon(3)[OF wf] vec_get_def head_number_def head_room_def parse_show_nat blockstamp_parses[OF wf] key Let_def)
qed

theorem received_head_panics_witness:
  "\<exists>v. head_from_json_value toy_codecs (example_json 3) = Some (Inr (HeadV2 v :: unit network_head)) \<and>
    head_verify toy_crypto (HeadV2 v :: unit network_head) = None"
proof -
  let ?m = "HeadMessageV2 ((example_message 1)\<lparr>hm_version := 3\<rparr>)"
  let ?v = "\<lparr>h2_message = ?m, h2_sig = SigEd25519 (replicate 64 1), h2_message_v2 = ?m,
    h2_sig_v2 = SigEd25519 (replicate 64 1), h2_step = 0, h2_uid = None\<rparr>"
  have parsed: "head_from_json_value toy_codecs (example_json 3) = Some (Inr (HeadV2 ?v :: unit network_head))"
    using example_message_parses[of 3]
    by (simp add: head_from_json_value_def example_json_def json_field_str_def ascii_def toy_codecs_def
        sig_from_base64_def str_base64_to_64bytes_def as_u32_def)
  from received_head_panics[OF parsed, of toy_crypto] show ?thesis
    using parsed by (auto simp: printable_def)
qed

subsection \<open>The widths of what is read\<close>

lemma parse_uint_width: "parse_uint w s = Some n \<Longrightarrow> n < 2 ^ w"
  by (auto simp: parse_uint_def Let_def split: if_splits)

lemma parse_hex_width: "parse_hex w s = Some n \<Longrightarrow> n < 2 ^ w"
  by (auto simp: parse_hex_def Let_def split: if_splits)

lemma map_sum_right: "map_sum f g r = Inr y \<longleftrightarrow> (\<exists>x. r = Inr x \<and> y = g x)"
  by (cases r) auto

lemma hex_pairs_bytes:
  "hex_pairs s i n = Some (Inr bs) \<Longrightarrow> length bs = n \<and> list_all (\<lambda>b. b < 256) bs"
proof (induction s i n arbitrary: bs rule: hex_pairs.induct)
  case (2 s i n)
  have digit: "to_digit16 ch = Some d \<Longrightarrow> d < 16" for ch d by (auto simp: to_digit16_def split: if_splits)
  from 2(2) obtain b1 b2 rest where b: "to_digit16 (s ! i) = Some b1" "to_digit16 (s ! (i + 1)) = Some b2"
    "hex_pairs s (i + 2) n = Some (Inr rest)" "bs = (16 * b1 + b2) # rest" "\<not> length s \<le> i + 1"
    by (auto simp: map_sum_right split: if_splits option.splits)
  have "length rest = n \<and> list_all (\<lambda>b. b < 256) rest" using 2(1)[OF b(5,1,2,3)] .
  then show ?case using digit[OF b(1)] digit[OF b(2)] b(4) by simp
qed simp

lemma from_hex_wf: "from_hex s = Some (Inr h) \<Longrightarrow> hash_wf h"
  by (auto simp: from_hex_def str_hex_to_32bytes_def hash_wf_def map_sum_right split: if_splits
      dest: hex_pairs_bytes)

lemma blockstamp_from_string_wf: "blockstamp_from_string s = Some (Inr b) \<Longrightarrow> blockstamp_wf b"
  by (auto simp: blockstamp_from_string_def blockstamp_wf_def split: list.splits bind_splits option.splits sum.splits
      dest: from_hex_wf parse_uint_width)



end
