(* ===== verification/Network_Peers.thy ===== *)
theory Network_Peers
  imports Network_Heads
begin

text \<open>
  The signed documents of the nodes, \<open>lib/tools/network-documents/src\<close>: the heads of version 3
  (\<open>network_head_v3.rs\<close>), the peer cards (\<open>network_peer.rs\<close>) and the parser of both (\<open>lib.rs\<close>).
\<close>

subsection \<open>Heads of version 3\<close>

record head_v3 =
  h3_currency_name :: ustring
  h3_api_outgoing_conf :: nat
  h3_api_incoming_conf :: nat
  h3_free_member_rooms :: nat
  h3_free_mirror_rooms :: nat
  h3_node_id :: net_node_id
  h3_pubkey :: pub_key
  h3_blockstamp :: blockstamp
  h3_software :: ustring
  h3_soft_version :: ustring
  h3_signature :: "signature option"
  h3_step :: nat

definition h3_text :: "crypto \<Rightarrow> head_v3 \<Rightarrow> ustring run" where
  "h3_text c h = do {
     pubkey \<leftarrow> key_string c (h3_pubkey h);
     Some (ascii ''3:'' @ h3_currency_name h @ ascii '':'' @ show_nat (h3_api_outgoing_conf h) @ ascii '':'' @
       show_nat (h3_api_incoming_conf h) @ ascii '':'' @ show_nat (h3_free_member_rooms h) @ ascii '':'' @
       show_nat (h3_free_mirror_rooms h) @ ascii '':'' @ node_id_string (h3_node_id h) @ ascii '':'' @ pubkey @
       ascii '':'' @ blockstamp_to_string (h3_blockstamp h) @ ascii '':'' @ h3_software h @ ascii '':'' @
       h3_soft_version h @ newline)
   }"

definition h3_signable :: "crypto \<Rightarrow> head_v3 text_signable" where
  "h3_signable c = \<lparr>ts_text = h3_text c, ts_issuer = h3_pubkey, ts_signature = h3_signature,
     ts_set_signature = (\<lambda>s h. h\<lparr>h3_signature := Some s\<rparr>)\<rparr>"

text \<open>The variables of the parser before all fields are read.\<close>

record head_v3_fields =
  f3_head :: head_v3
  f3_pubkey :: "pub_key option"
  f3_blockstamp :: "blockstamp option"

text \<open>\<open>PubKey\<close> and \<open>Sig\<close> of a text, which must decode.\<close>

definition pubkey_from_text :: "codecs \<Rightarrow> ustring \<Rightarrow> pub_key run" where
  "pubkey_from_text d s = expect (key_from_base58 d s)"

definition sig_from_text :: "codecs \<Rightarrow> ustring \<Rightarrow> signature run" where
  "sig_from_text d s = expect (sig_from_base64 d s)"

definition h3_field :: "codecs \<Rightarrow> net_rule pest_pair \<Rightarrow> head_v3_fields \<Rightarrow> head_v3_fields run" where
  "h3_field d field f = (case as_rule field of
      R_currency \<Rightarrow> Some (f\<lparr>f3_head := f3_head f\<lparr>h3_currency_name := as_str field\<rparr>\<rparr>)
    | R_api_outgoing_conf \<Rightarrow> do {
        n \<leftarrow> parse_uint 8 (as_str field); Some (f\<lparr>f3_head := f3_head f\<lparr>h3_api_outgoing_conf := n\<rparr>\<rparr>) }
    | R_api_incoming_conf \<Rightarrow> do {
        n \<leftarrow> parse_uint 8 (as_str field); Some (f\<lparr>f3_head := f3_head f\<lparr>h3_api_incoming_conf := n\<rparr>\<rparr>) }
    | R_free_member_rooms \<Rightarrow> do {
        n \<leftarrow> parse_uint 8 (as_str field); Some (f\<lparr>f3_head := f3_head f\<lparr>h3_free_member_rooms := n\<rparr>\<rparr>) }
    | R_free_mirror_rooms \<Rightarrow> do {
        n \<leftarrow> parse_uint 8 (as_str field); Some (f\<lparr>f3_head := f3_head f\<lparr>h3_free_mirror_rooms := n\<rparr>\<rparr>) }
    | R_node_id \<Rightarrow> do { n \<leftarrow> parse_uint 32 (as_str field); Some (f\<lparr>f3_head := f3_head f\<lparr>h3_node_id := n\<rparr>\<rparr>) }
    | R_pubkey \<Rightarrow> do { k \<leftarrow> pubkey_from_text d (as_str field); Some (f\<lparr>f3_pubkey := Some k\<rparr>) }
    | R_blockstamp \<Rightarrow> do { b \<leftarrow> blockstamp_from_pest_pair field; Some (f\<lparr>f3_blockstamp := Some b\<rparr>) }
    | R_software \<Rightarrow> Some (f\<lparr>f3_head := f3_head f\<lparr>h3_software := as_str field\<rparr>\<rparr>)
    | R_soft_version \<Rightarrow> Some (f\<lparr>f3_head := f3_head f\<lparr>h3_soft_version := as_str field\<rparr>\<rparr>)
    | R_ed25519_sig \<Rightarrow> do {
        s \<leftarrow> sig_from_text d (as_str field); Some (f\<lparr>f3_head := f3_head f\<lparr>h3_signature := Some s\<rparr>\<rparr>) }
    | R_step \<Rightarrow> do { n \<leftarrow> parse_uint 8 (as_str field); Some (f\<lparr>f3_head := f3_head f\<lparr>h3_step := n\<rparr>\<rparr>) }
    | _ \<Rightarrow> None)"

text \<open>The fields that no \<open>expect\<close> asks for have their default values.\<close>

definition h3_default :: head_v3 where
  "h3_default = \<lparr>h3_currency_name = [], h3_api_outgoing_conf = 0, h3_api_incoming_conf = 0,
     h3_free_member_rooms = 0, h3_free_mirror_rooms = 0, h3_node_id = 0, h3_pubkey = PubSchnorr,
     h3_blockstamp = blockstamp_default, h3_software = [], h3_soft_version = [], h3_signature = None, h3_step = 0\<rparr>"

definition h3_from_pest_pair :: "codecs \<Rightarrow> net_rule pest_pair \<Rightarrow> head_v3 run" where
  "h3_from_pest_pair d pair = do {
     f \<leftarrow> fold_run (h3_field d) (into_inner pair) \<lparr>f3_head = h3_default, f3_pubkey = None, f3_blockstamp = None\<rparr>;
     pubkey \<leftarrow> f3_pubkey f;
     blockstamp \<leftarrow> f3_blockstamp f;
     Some ((f3_head f)\<lparr>h3_pubkey := pubkey, h3_blockstamp := blockstamp\<rparr>)
   }"

definition h3_parse ::
  "codecs \<Rightarrow> net_rule pest_parser \<Rightarrow> ustring \<Rightarrow> (text_document_parse_error + head_v3) run" where
  "h3_parse d pest doc = parse_with pest R_head_v3 PestError (h3_from_pest_pair d) doc"

record head_v3_stringified =
  h3s_body :: ustring
  h3s_signature :: "ustring option"
  h3s_step :: nat

definition h3_to_string_object :: "crypto \<Rightarrow> head_v3 \<Rightarrow> head_v3_stringified run" where
  "h3_to_string_object c h = do {
     body \<leftarrow> h3_text c h;
     signature \<leftarrow> (case h3_signature h of Some sig \<Rightarrow> map_option Some (sig_string c sig) | None \<Rightarrow> Some None);
     Some \<lparr>h3s_body = take (str_len body - 1) body, h3s_signature = signature, h3s_step = h3_step h\<rparr>
   }"

subsection \<open>Peer cards\<close>

record peer_card_v10 =
  p10_blockstamp :: blockstamp
  p10_issuer :: pub_key
  p10_endpoints :: "endpoint_enum list"

record peer_card_v11 =
  p11_currency_name :: ustring
  p11_issuer :: pub_key
  p11_node_id :: net_node_id
  p11_blockstamp :: blockstamp
  p11_endpoints :: "endpoint_v2 list"
  p11_endpoints_str :: "ustring list"
  p11_sig :: "signature option"

record peer_card_v11_stringified =
  p11s_currency_name :: ustring
  p11s_issuer :: ustring
  p11s_node_id :: ustring
  p11s_blockstamp :: ustring
  p11s_endpoints :: "ustring list"
  p11s_sig :: ustring

definition p11_to_string_object ::
  "crypto \<Rightarrow> net_codecs \<Rightarrow> peer_card_v11 \<Rightarrow> peer_card_v11_stringified run" where
  "p11_to_string_object c nc p = do {
     endpoints \<leftarrow> map_run (e2_to_string nc) (p11_endpoints p);
     issuer \<leftarrow> key_string c (p11_issuer p);
     sig \<leftarrow> (case p11_sig p of Some sig \<Rightarrow> sig_string c sig | None \<Rightarrow> Some []);
     Some \<lparr>p11s_currency_name = p11_currency_name p, p11s_issuer = issuer,
       p11s_node_id = node_id_string (p11_node_id p), p11s_blockstamp = blockstamp_to_string (p11_blockstamp p),
       p11s_endpoints = endpoints @ p11_endpoints_str p, p11s_sig = sig\<rparr>
   }"

definition p11_text :: "crypto \<Rightarrow> net_codecs \<Rightarrow> peer_card_v11 \<Rightarrow> ustring run" where
  "p11_text c nc p = do {
     pubkey \<leftarrow> key_string c (p11_issuer p);
     endpoints \<leftarrow> map_run (e2_to_string nc) (p11_endpoints p);
     Some (ascii ''11:'' @ p11_currency_name p @ ascii '':'' @ node_id_string (p11_node_id p) @ ascii '':'' @ pubkey @
       ascii '':'' @ blockstamp_to_string (p11_blockstamp p) @ newline @ join_sep newline endpoints @ newline @
       join_sep newline (p11_endpoints_str p) @ (if p11_endpoints_str p = [] then [] else newline))
   }"

definition p11_signable :: "crypto \<Rightarrow> net_codecs \<Rightarrow> peer_card_v11 text_signable" where
  "p11_signable c nc = \<lparr>ts_text = p11_text c nc, ts_issuer = p11_issuer, ts_signature = p11_sig,
     ts_set_signature = (\<lambda>s p. p\<lparr>p11_sig := Some s\<rparr>)\<rparr>"

record peer_v11_fields =
  f11_card :: peer_card_v11
  f11_issuer :: "pub_key option"
  f11_blockstamp :: "blockstamp option"

definition p11_field ::
  "codecs \<Rightarrow> net_codecs \<Rightarrow> net_rule pest_pair \<Rightarrow> peer_v11_fields \<Rightarrow> peer_v11_fields run" where
  "p11_field d nc field f = (case as_rule field of
      R_currency \<Rightarrow> Some (f\<lparr>f11_card := f11_card f\<lparr>p11_currency_name := as_str field\<rparr>\<rparr>)
    | R_node_id \<Rightarrow> do { n \<leftarrow> parse_uint 32 (as_str field); Some (f\<lparr>f11_card := f11_card f\<lparr>p11_node_id := n\<rparr>\<rparr>) }
    | R_pubkey \<Rightarrow> do { k \<leftarrow> pubkey_from_text d (as_str field); Some (f\<lparr>f11_issuer := Some k\<rparr>) }
    | R_blockstamp \<Rightarrow> do { b \<leftarrow> blockstamp_from_pest_pair field; Some (f\<lparr>f11_blockstamp := Some b\<rparr>) }
    | R_endpoint_v2 \<Rightarrow> do {
        ep \<leftarrow> e2_from_pest_pair nc field;
        Some (f\<lparr>f11_card := f11_card f\<lparr>p11_endpoints := p11_endpoints (f11_card f) @ [ep]\<rparr>\<rparr>)
      }
    | R_ed25519_sig \<Rightarrow> do {
        s \<leftarrow> sig_from_text d (as_str field); Some (f\<lparr>f11_card := f11_card f\<lparr>p11_sig := Some s\<rparr>\<rparr>) }
    | _ \<Rightarrow> None)"

definition p11_from_pest_pair :: "codecs \<Rightarrow> net_codecs \<Rightarrow> net_rule pest_pair \<Rightarrow> peer_card_v11 run" where
  "p11_from_pest_pair d nc pair = do {
     f \<leftarrow> fold_run (p11_field d nc) (into_inner pair)
       \<lparr>f11_card = \<lparr>p11_currency_name = [], p11_issuer = PubSchnorr, p11_node_id = 0,
          p11_blockstamp = blockstamp_default, p11_endpoints = [], p11_endpoints_str = [], p11_sig = None\<rparr>,
        f11_issuer = None, f11_blockstamp = None\<rparr>;
     issuer \<leftarrow> f11_issuer f;
     blockstamp \<leftarrow> f11_blockstamp f;
     Some ((f11_card f)\<lparr>p11_issuer := issuer, p11_blockstamp := blockstamp\<rparr>)
   }"

definition p11_parse ::
  "codecs \<Rightarrow> net_codecs \<Rightarrow> net_rule pest_parser \<Rightarrow> ustring \<Rightarrow> (text_document_parse_error + peer_card_v11) run" where
  "p11_parse d nc pest doc = parse_with pest R_peer_v11 PestError (p11_from_pest_pair d nc) doc"

datatype peer_card = PeerV10 peer_card_v10 | PeerV11 peer_card_v11

fun peer_version :: "peer_card \<Rightarrow> nat" where
  "peer_version (PeerV10 _) = 10"
| "peer_version (PeerV11 _) = 11"

fun peer_blockstamp :: "peer_card \<Rightarrow> blockstamp" where
  "peer_blockstamp (PeerV10 p) = p10_blockstamp p"
| "peer_blockstamp (PeerV11 p) = p11_blockstamp p"

fun peer_issuer :: "peer_card \<Rightarrow> pub_key" where
  "peer_issuer (PeerV10 p) = p10_issuer p"
| "peer_issuer (PeerV11 p) = p11_issuer p"

subsection \<open>Network documents\<close>

datatype network_document = NetPeer peer_card | NetHead "head_v3 network_head"

definition net_doc_from_pest_pair ::
  "codecs \<Rightarrow> net_codecs \<Rightarrow> net_rule pest_pair \<Rightarrow> network_document run" where
  "net_doc_from_pest_pair d nc pair = (case as_rule pair of
      R_peer_v11 \<Rightarrow> map_option (NetPeer \<circ> PeerV11) (p11_from_pest_pair d nc pair)
    | R_head_v3 \<Rightarrow> map_option (NetHead \<circ> HeadV3) (h3_from_pest_pair d pair)
    | _ \<Rightarrow> None)"

definition net_doc_parse ::
  "codecs \<Rightarrow> net_codecs \<Rightarrow> net_rule pest_parser \<Rightarrow> ustring \<Rightarrow> (text_document_parse_error + network_document) run" where
  "net_doc_parse d nc pest doc =
     parse_with pest R_network_document PestError
       (\<lambda>pair. do { inner \<leftarrow> first_of (into_inner pair); net_doc_from_pest_pair d nc inner }) doc"

subsection \<open>Signatures\<close>

interpretation h3: text_message "h3_signable c" for c
  by unfold_locales (simp_all add: h3_signable_def h3_text_def)

interpretation p11: text_message "p11_signable c nc" for c nc
  by unfold_locales (simp_all add: p11_signable_def p11_text_def)

text \<open>
  Signed heads and peer cards. What a node signs with its key, it returns with the text followed
  by the signature, it verifies with its public key, and it is not signed twice.
\<close>

theorem signed_cards_verify:
  assumes "\<And>m. c_ed25519_verify c pk m (c_ed25519_sign c sk m)"
    and "text_sign c (h3_signable c) (PrivEd25519 sk) head = Some (Inr head_raw, head')"
    and "text_sign c (p11_signable c nc) (PrivEd25519 sk) peer = Some (Inr peer_raw, peer')"
    and "h3_pubkey head = PubEd25519 pk" "p11_issuer peer = PubEd25519 pk"
  shows "text_verify c (h3_signable c) head' = Some (Inr () :: unit sig_error + unit) \<and>
    text_verify c (p11_signable c nc) peer' = Some (Inr () :: unit sig_error + unit) \<and>
    (\<exists>sig text. h3_signature head' = Some (SigEd25519 sig) \<and> h3_text c head = Some text \<and>
       head_raw = text @ c_base64 c sig) \<and>
    (\<exists>sig text. p11_sig peer' = Some (SigEd25519 sig) \<and> p11_text c nc peer = Some text \<and>
       peer_raw = text @ c_base64 c sig) \<and>
    text_sign c (h3_signable c) k head' = Some (Inl (AlreadySign :: unit sign_error), head') \<and>
    text_sign c (p11_signable c nc) k peer' = Some (Inl (AlreadySign :: unit sign_error), peer')"
proof -
  have h3: "h3_text c head = h3_text c head'"
    using assms(2,4) by (auto simp: text_sign_def h3_signable_def h3_text_def Let_def split: if_splits bind_splits)
  have p11: "p11_text c nc peer = p11_text c nc peer'"
    using assms(3,5) by (auto simp: text_sign_def p11_signable_def p11_text_def Let_def split: if_splits bind_splits)
  show ?thesis
    using h3.signed_text_verifies[OF assms(2) _ assms(1)] p11.signed_text_verifies[OF assms(3) _ assms(1)]
      h3.signed_text_raw[OF assms(2)] p11.signed_text_raw[OF assms(3)]
      h3.signed_once[OF assms(2)] p11.signed_once[OF assms(3)] assms(4,5)
    by (auto simp: h3 p11) (auto simp: h3_signable_def p11_signable_def)
qed

definition example_peer :: peer_card_v11 where
  "example_peer = \<lparr>p11_currency_name = ascii ''g1'', p11_issuer = PubEd25519 [1], p11_node_id = 0,
     p11_blockstamp = blockstamp_default, p11_endpoints = [], p11_endpoints_str = [ascii ''WS2P g1.ifee.fr 443''],
     p11_sig = None\<rparr>"

theorem signed_cards_verify_witness:
  "\<exists>head peer head_raw peer_raw nc.
    text_sign toy_crypto (h3_signable toy_crypto) (PrivEd25519 [1]) (h3_default\<lparr>h3_pubkey := PubEd25519 [1]\<rparr>) =
      Some (Inr head_raw :: unit sign_error + ustring, head) \<and>
    text_sign toy_crypto (p11_signable toy_crypto nc) (PrivEd25519 [1]) example_peer =
      Some (Inr peer_raw :: unit sign_error + ustring, peer) \<and>
    text_verify toy_crypto (p11_signable toy_crypto nc) peer = Some (Inr () :: unit sig_error + unit)"
proof -
  define nc where "nc = (undefined :: net_codecs)"
  obtain head :: head_v3 and head_raw where head: "text_sign toy_crypto (h3_signable toy_crypto) (PrivEd25519 [1])
      (h3_default\<lparr>h3_pubkey := PubEd25519 [1]\<rparr>) = Some (Inr head_raw :: unit sign_error + ustring, head)"
    by (simp add: text_sign_def h3_signable_def h3_text_def h3_default_def Let_def)
  obtain peer :: peer_card_v11 and peer_raw where peer:
    "text_sign toy_crypto (p11_signable toy_crypto nc) (PrivEd25519 [1]) example_peer =
      Some (Inr peer_raw :: unit sign_error + ustring, peer)"
    by (simp add: text_sign_def p11_signable_def p11_text_def example_peer_def Let_def)
  have "text_verify toy_crypto (p11_signable toy_crypto nc) peer = Some (Inr () :: unit sig_error + unit)"
    using signed_cards_verify[OF _ head peer, of "[1]" undefined]
    by (simp add: toy_crypto_def h3_default_def example_peer_def)
  then show ?thesis using head peer by blast
qed

subsection \<open>The trees of the printed documents\<close>

text \<open>The tree that the grammar gives to the text of a head, with its signature and its step.\<close>

definition h3_tree :: "crypto \<Rightarrow> head_v3 \<Rightarrow> net_rule pest_pair run" where
  "h3_tree c h = do {
     text \<leftarrow> h3_text c h;
     pubkey \<leftarrow> key_string c (h3_pubkey h);
     sig \<leftarrow> (case h3_signature h of Some sig \<Rightarrow> map_option (\<lambda>s. [PestPair R_ed25519_sig s []]) (sig_string c sig)
       | None \<Rightarrow> Some []);
     Some (PestPair R_head_v3 text
       ([PestPair R_currency (h3_currency_name h) [],
         PestPair R_api_outgoing_conf (show_nat (h3_api_outgoing_conf h)) [],
         PestPair R_api_incoming_conf (show_nat (h3_api_incoming_conf h)) [],
         PestPair R_free_member_rooms (show_nat (h3_free_member_rooms h)) [],
         PestPair R_free_mirror_rooms (show_nat (h3_free_mirror_rooms h)) [],
         PestPair R_node_id (node_id_string (h3_node_id h)) [],
         PestPair R_pubkey pubkey [],
         blockstamp_tree R_blockstamp R_block_id R_hash (h3_blockstamp h),
         PestPair R_software (h3_software h) [],
         PestPair R_soft_version (h3_soft_version h) []] @ sig @
        [PestPair R_step (show_nat (h3_step h)) []]))
   }"

definition h3_wf :: "crypto \<Rightarrow> codecs \<Rightarrow> head_v3 \<Rightarrow> bool" where
  "h3_wf c d h \<longleftrightarrow> h3_api_outgoing_conf h < 2 ^ 8 \<and> h3_api_incoming_conf h < 2 ^ 8 \<and>
     h3_free_member_rooms h < 2 ^ 8 \<and> h3_free_mirror_rooms h < 2 ^ 8 \<and> h3_step h < 2 ^ 8 \<and>
     h3_node_id h < 2 ^ 32 \<and> blockstamp_wf (h3_blockstamp h) \<and>
     (case h3_pubkey h of PubEd25519 k \<Rightarrow> base58_reads c d k | PubSchnorr \<Rightarrow> False) \<and>
     (case h3_signature h of
        Some (SigEd25519 s) \<Rightarrow> length s = 64 \<and> d_base64 d (c_base64 c s) = Inr s
      | Some SigSchnorr \<Rightarrow> False
      | None \<Rightarrow> True)"

lemma hex_read_decimal:
  "list_all is_digit (show_hex n) \<Longrightarrow> digits_value (show_hex n) \<le> n \<and> (10 \<le> n \<longrightarrow> digits_value (show_hex n) < n)"
proof (induction n rule: show_hex.induct)
  case (1 n)
  show ?case
  proof (cases "n < 16")
    case True
    then show ?thesis using 1(2)
      by (subst (asm) show_hex.simps, subst show_hex.simps, subst show_hex.simps)
        (auto simp: digits_value_def hex_lower_def is_digit_def split: if_splits)
  next
    case False
    have d: "show_hex n = show_hex (n div 16) @ [hex_lower (n mod 16)]" using False by (subst show_hex.simps) simp
    then have all: "list_all is_digit (show_hex (n div 16))" "is_digit (hex_lower (n mod 16))" using 1(2) by auto
    have "hex_lower m - 48 \<le> m" if "is_digit (hex_lower m)" for m
      using that by (auto simp: hex_lower_def is_digit_def split: if_splits)
    with all(2) have "hex_lower (n mod 16) - 48 \<le> n mod 16" by blast
    moreover have "digits_value (show_hex (n div 16)) \<le> n div 16" using 1(1)[OF False all(1)] by simp
    ultimately have "digits_value (show_hex n) \<le> 10 * (n div 16) + n mod 16" by (simp add: d digits_value_snoc)
    moreover have "0 < n div 16" "16 * (n div 16) + n mod 16 = n" using False by (simp_all add: div_greater_zero_iff)
    ultimately show ?thesis by linarith
  qed
qed

lemma node_id_read_back: "n < 2 ^ 32 \<Longrightarrow> parse_uint 32 (show_hex n) = Some n \<longleftrightarrow> n < 10"
proof (cases "n < 10")
  case True
  then show ?thesis
    by (subst show_hex.simps) (auto simp: parse_uint_def hex_lower_def is_digit_def digits_value_def)
next
  case False
  obtain ch cs where ch: "show_hex n = ch # cs" using show_hex_nonempty by (cases "show_hex n") auto
  then have "ch \<noteq> 43" using show_hex_digits[of n] by (auto simp: to_digit16_def)
  then show ?thesis using hex_read_decimal[of n] False
    by (auto simp: parse_uint_def ch Let_def split: if_splits)
qed

text \<open>
  Reading a head of version 3. The tree of the text that a node prints is read back field by
  field, except for the identifier of the node: it is printed in base 16 and read in base 10, so
  the reader panics when its text has a letter, and has another identifier when the text has several
  digits and no letter. Only identifiers below 10 are read as they were.
\<close>

theorem head_v3_read_back:
  assumes "h3_wf c d h"
  shows "\<exists>tree. h3_tree c h = Some tree \<and>
    h3_from_pest_pair d tree = map_option (\<lambda>n. h\<lparr>h3_node_id := n\<rparr>) (parse_uint 32 (show_hex (h3_node_id h))) \<and>
    (h3_from_pest_pair d tree = Some h \<longleftrightarrow> h3_node_id h < 10)"
proof -
  obtain k where k: "h3_pubkey h = PubEd25519 k" "base58_reads c d k"
    using assms by (auto simp: h3_wf_def split: pub_key.splits)
  have key: "pubkey_from_text d (c_base58 c k) = Some (PubEd25519 k)"
    using key_reads[OF k(2)] by (simp add: pubkey_from_text_def)
  have sig: "sig_from_text d (c_base64 c s) = Some (SigEd25519 s)" if "h3_signature h = Some (SigEd25519 s)" for s
    using assms that by (simp add: h3_wf_def sig_from_text_def sig_from_base64_def str_base64_to_64bytes_def)
  have "\<exists>tree. h3_tree c h = Some tree \<and>
    h3_from_pest_pair d tree = map_option (\<lambda>n. h\<lparr>h3_node_id := n\<rparr>) (parse_uint 32 (show_hex (h3_node_id h)))"
    using assms k(1)
    by (cases "h3_signature h"; cases "the (h3_signature h)")
      (auto simp: h3_tree_def h3_text_def h3_from_pest_pair_def h3_field_def h3_default_def h3_wf_def key sig
        parse_show_nat blockstamp_tree_reads node_id_string_def split: bind_splits option.splits)
  moreover have "(h\<lparr>h3_node_id := n\<rparr> = h) = (n = h3_node_id h)" for n by (cases h) auto
  moreover have "h3_node_id h < 2 ^ 32" using assms by (simp add: h3_wf_def)
  ultimately show ?thesis using node_id_read_back[of "h3_node_id h"] by (auto simp: map_option_case split: option.splits)
qed

definition example_h3 :: "nat \<Rightarrow> head_v3" where
  "example_h3 n = h3_default\<lparr>h3_currency_name := ascii ''g1'', h3_node_id := n,
     h3_pubkey := PubEd25519 (replicate 32 1), h3_software := ascii ''durs'', h3_soft_version := ascii ''0.2''\<rparr>"

lemma example_h3_wf: "n < 2 ^ 32 \<Longrightarrow> h3_wf toy_crypto toy_codecs (example_h3 n)"
  by (simp add: h3_wf_def example_h3_def h3_default_def example_reads[simplified] blockstamp_wf_def blockstamp_default_def
      hash_wf_def hash_default_def list_all_iff)

theorem head_v3_read_back_witness:
  "\<exists>tree. h3_tree toy_crypto (example_h3 16) = Some tree \<and> h3_from_pest_pair toy_codecs tree = Some (example_h3 10)"
proof -
  have "parse_uint 32 (show_hex 16) = Some 10"
    by (simp add: show_hex.simps parse_uint_def hex_lower_def is_digit_def digits_value_def)
  then show ?thesis
    using head_v3_read_back[OF example_h3_wf, of 16] by (auto simp: example_h3_def)
qed

subsection \<open>Reading an endpoint of version 2\<close>

text \<open>The features of an API, without their prefix, as they are printed.\<close>

definition api_features_text :: "net_codecs \<Rightarrow> nat list \<Rightarrow> ustring" where
  "api_features_text nc features =
     (let hex_str = hex_encode nc features in if length hex_str = 2 then drop 1 hex_str else hex_str)"

definition feature_pair :: "nat \<Rightarrow> nat list \<Rightarrow> net_rule \<Rightarrow> ustring \<Rightarrow> net_rule pest_pair list" where
  "feature_pair flag features rule text =
     (if \<not> flags_empty features \<and> hd features AND flag = flag then [PestPair rule text []] else [])"

definition feature_pairs :: "nat list \<Rightarrow> net_rule pest_pair list" where
  "feature_pairs features =
     feature_pair 1 features R_http (ascii ''HTTP '') @ feature_pair 2 features R_ws (ascii ''WS '') @
     feature_pair 4 features R_tls (ascii ''S '') @ feature_pair 8 features R_tor (ascii ''TOR '')"

definition option_pair :: "net_rule \<Rightarrow> ustring option \<Rightarrow> net_rule pest_pair list" where
  "option_pair rule text = (case text of Some s \<Rightarrow> [PestPair rule s []] | None \<Rightarrow> [])"

text \<open>The tree that the grammar gives to the text of an endpoint.\<close>

definition e2_tree :: "net_codecs \<Rightarrow> endpoint_v2 \<Rightarrow> net_rule pest_pair run" where
  "e2_tree nc ep = do {
     text \<leftarrow> e2_to_string nc ep;
     Some (PestPair R_endpoint_v2 text
       (PestPair R_api_name (e2_api ep) [] #
        (if e2_api_version ep > 0 then [PestPair R_api_version_inner (show_nat (e2_api_version ep)) []] else []) @
        feature_pairs (e2_network_features ep) @
        (if flags_empty (e2_api_features ep) then []
         else [PestPair R_api_features_inner (api_features_text nc (e2_api_features ep)) []]) @
        option_pair R_host_v2_inner (e2_host ep) @
        option_pair R_ip4_inner (map_option (ip4_show nc) (e2_ip_v4 ep)) @
        option_pair R_ip6_inner (map_option (ip6_show nc) (e2_ip_v6 ep)) @
        PestPair R_port (show_nat (e2_port ep)) [] # option_pair R_path_inner (e2_path ep)))
   }"

text \<open>What the crates promise: lower-case pairs of digits, and texts that are read as they were shown.\<close>

definition net_codecs_ok :: "net_codecs \<Rightarrow> bool" where
  "net_codecs_ok nc \<longleftrightarrow>
     (\<forall>bs. list_all (\<lambda>b. b < 256) bs \<longrightarrow>
        hex_encode nc bs = concat (map (\<lambda>b. [hex_lower (b div 16), hex_lower (b mod 16)]) bs) \<and>
        hex_decode nc (hex_encode nc bs) = Some bs) \<and>
     (\<forall>i. ip4_read nc (ip4_show nc i) = Some i) \<and> (\<forall>i. ip6_read nc (ip6_show nc i) = Some i)"

definition e2_wf :: "endpoint_v2 \<Rightarrow> bool" where
  "e2_wf ep \<longleftrightarrow> e2_api_version ep < 2 ^ 16 \<and> e2_port ep < 2 ^ 16 \<and> list_all (\<lambda>b. b < 256) (e2_api_features ep) \<and>
     (e2_network_features ep = [] \<or> (\<exists>b. e2_network_features ep = [b] \<and> 0 < b \<and> b < 16))"

definition features_read_back :: "nat list \<Rightarrow> nat list" where
  "features_read_back features =
     (if flags_empty features then [] else if length features = 1 then [hd features mod 16] else features)"

lemma api_features_read:
  assumes "net_codecs_ok nc" "list_all (\<lambda>b. b < 256) features" "\<not> flags_empty features"
  shows "hex_decode nc (if str_len (api_features_text nc features) = 1
      then ascii ''0'' @ api_features_text nc features else api_features_text nc features) =
    Some (features_read_back features)"
proof -
  let ?pairs = "\<lambda>bs. concat (map (\<lambda>b. [hex_lower (b div 16), hex_lower (b mod 16)]) bs)"
  have enc: "hex_encode nc bs = ?pairs bs" "hex_decode nc (?pairs bs) = Some bs" if "list_all (\<lambda>b. b < 256) bs" for bs
    using assms(1) that unfolding net_codecs_ok_def by metis+
  have len: "length (?pairs bs) = 2 * length bs" for bs by (induction bs) auto
  have ascii: "utf8_length (hex_lower d) = 1" if "d < 16" for d using that by (simp add: utf8_length_def hex_lower_def)
  have bytes: "str_len (?pairs bs) = 2 * length bs" if "list_all (\<lambda>b. b < 256) bs" for bs
    using that by (induction bs) (auto simp: str_len_def ascii)
  consider b where "features = [b]" | "length features \<ge> 2"
    using assms(3) by (cases features; cases "tl features") (auto simp: flags_empty_def)
  then show ?thesis
  proof cases
    case (1 b)
    have "hex_decode nc [48, hex_lower d] = Some [d]" if "d < 16" for d
    proof -
      have "d div 16 = 0" "d mod 16 = d" "d < 256" using that by simp_all
      then show ?thesis using enc(2)[of "[d]"] by (cases "d < 10") (simp_all add: hex_lower_def)
    qed
    then have "hex_decode nc [48, hex_lower (b mod 16)] = Some [b mod 16]" by simp
    then show ?thesis
      using assms(2,3) enc(1)[of features]
      by (simp add: 1 api_features_text_def str_len_def ascii ascii_def features_read_back_def)
  next
    case 2
    then show ?thesis
      using assms(3) enc[OF assms(2)] bytes[OF assms(2)] len[of features]
      by (auto simp: api_features_text_def features_read_back_def)
  qed
qed

lemma network_features_read:
  assumes "features = [] \<or> (\<exists>b. features = [b] \<and> 0 < b \<and> b < 16)" "e2_network_features ep = [0]"
  shows "fold_run (e2_field nc) (feature_pairs features) ep =
    Some (ep\<lparr>e2_network_features := if features = [] then [0] else features\<rparr>)"
proof (cases "features = []")
  case True
  then show ?thesis using assms(2) by (cases ep) (simp add: feature_pairs_def feature_pair_def flags_empty_def)
next
  case False
  then obtain b where b: "features = [b]" "0 < b" "b < 16" using assms(1) by auto
  then have "b = 1 \<or> b = 2 \<or> b = 3 \<or> b = 4 \<or> b = 5 \<or> b = 6 \<or> b = 7 \<or> b = 8 \<or> b = 9 \<or> b = 10 \<or>
    b = 11 \<or> b = 12 \<or> b = 13 \<or> b = 14 \<or> b = 15" by arith
  then show ?thesis
    using assms(2) b(1)
    by (elim disjE)
      (simp_all add: feature_pairs_def feature_pair_def flags_empty_def e2_field_def set_first_flag_def first_of_def)
qed

lemma optional_fields_read:
  "e2_host ep = None \<Longrightarrow> fold_run (e2_field nc) (option_pair R_host_v2_inner host) ep = Some (ep\<lparr>e2_host := host\<rparr>)"
  "e2_path ep = None \<Longrightarrow> fold_run (e2_field nc) (option_pair R_path_inner path) ep = Some (ep\<lparr>e2_path := path\<rparr>)"
  by (cases ep; cases host; simp add: option_pair_def e2_field_def)
    (cases ep; cases path; simp add: option_pair_def e2_field_def)

lemma addresses_read:
  assumes "net_codecs_ok nc"
  shows "e2_ip_v4 ep = None \<Longrightarrow>
      fold_run (e2_field nc) (option_pair R_ip4_inner (map_option (ip4_show nc) i)) ep = Some (ep\<lparr>e2_ip_v4 := i\<rparr>)"
    and "e2_ip_v6 ep = None \<Longrightarrow>
      fold_run (e2_field nc) (option_pair R_ip6_inner (map_option (ip6_show nc) i)) ep = Some (ep\<lparr>e2_ip_v6 := i\<rparr>)"
  using assms by (cases ep; cases i; simp add: option_pair_def e2_field_def net_codecs_ok_def)+

lemma e2_prints: "e2_wf ep \<Longrightarrow> \<exists>text. e2_to_string nc ep = Some text"
  by (auto simp: e2_wf_def e2_to_string_def network_features_string_def first_flag_def first_of_def flags_empty_def)

text \<open>
  Reading an endpoint. The tree of the text of an endpoint of version 2 whose network features
  fit the four flags is read back field by field, except for API features of one byte: their text
  loses the first digit, so their four high bits are lost.
\<close>

theorem endpoint_read_back:
  assumes "net_codecs_ok nc" "e2_wf ep"
  shows "\<exists>tree. e2_tree nc ep = Some tree \<and>
    e2_from_pest_pair nc tree = Some (ep\<lparr>e2_api_features := features_read_back (e2_api_features ep)\<rparr>)"
proof -
  obtain s where printed: "e2_to_string nc ep = Some s" using e2_prints[OF assms(2)] by blast
  have version: "fold_run (e2_field nc)
      (if e2_api_version ep > 0 then [PestPair R_api_version_inner (show_nat (e2_api_version ep)) []] else []) r =
    Some (r\<lparr>e2_api_version := e2_api_version ep\<rparr>)" if "e2_api_version r = 0" for r
    using assms(2) that by (cases r) (auto simp: e2_field_def e2_wf_def parse_show_nat)
  have features: "fold_run (e2_field nc) (if flags_empty (e2_api_features ep) then []
      else [PestPair R_api_features_inner (api_features_text nc (e2_api_features ep)) []]) r =
    Some (r\<lparr>e2_api_features := features_read_back (e2_api_features ep)\<rparr>)" if "e2_api_features r = []" for r
  proof (cases "flags_empty (e2_api_features ep)")
    case True
    then show ?thesis using that by (cases r) (simp add: features_read_back_def)
  next
    case False
    have "list_all (\<lambda>b. b < 256) (e2_api_features ep)" using assms(2) by (simp add: e2_wf_def)
    from api_features_read[OF assms(1) this False] False show ?thesis
      by (simp add: e2_field_def split: if_splits)
  qed
  have network: "e2_network_features ep = [] \<or> (\<exists>b. e2_network_features ep = [b] \<and> 0 < b \<and> b < 16)"
    and port: "parse_uint 16 (show_nat (e2_port ep)) = Some (e2_port ep)"
    using assms(2) by (auto simp: e2_wf_def parse_show_nat)
  show ?thesis
    using network
    by (simp add: e2_tree_def printed e2_from_pest_pair_def fold_run_append version features optional_fields_read
        network_features_read[OF network] addresses_read[OF assms(1)] e2_field_def[of nc "PestPair _ _ _"] port)
      (auto simp: flags_empty_def)
qed

text \<open>Codecs for the examples: an address is a list of one number.\<close>

definition toy_net_codecs :: net_codecs where
  "toy_net_codecs = \<lparr>ip4_show = (\<lambda>i. [i]), ip4_read = first_of, ip6_show = (\<lambda>i. [i]), ip6_read = first_of,
     hex_encode = (\<lambda>bs. concat (map (\<lambda>b. [hex_lower (b div 16), hex_lower (b mod 16)]) bs)),
     hex_decode = (\<lambda>s. map_option (\<lambda>ds. map (\<lambda>i. 16 * ds ! (2 * i) + ds ! (2 * i + 1)) [0..<length ds div 2])
       (map_run to_digit16 s))\<rparr>"

lemma pairs_read: "list_all (\<lambda>b. b < 256) bs \<Longrightarrow>
    hex_decode toy_net_codecs (hex_encode toy_net_codecs bs) = Some bs"
proof -
  let ?digits = "\<lambda>bs. concat (map (\<lambda>b. [b div 16, b mod 16]) bs)"
  assume bytes: "list_all (\<lambda>b. b < 256) bs"
  then have digits: "map_run to_digit16 (concat (map (\<lambda>b. [hex_lower (b div 16), hex_lower (b mod 16)]) bs)) =
    Some (?digits bs)"
    by (induction bs) (auto simp: hex_lower_digit)
  have len: "length (?digits bs) = 2 * length bs" for bs :: "nat list" by (induction bs) auto
  have nth: "i < length bs \<Longrightarrow> ?digits bs ! (2 * i) = bs ! i div 16 \<and> ?digits bs ! (2 * i + 1) = bs ! i mod 16"
    for i and bs :: "nat list"
    by (induction bs arbitrary: i) (auto simp: less_Suc_eq_0_disj)
  have "map (\<lambda>i. 16 * ?digits bs ! (2 * i) + ?digits bs ! (2 * i + 1)) [0..<length bs] = bs"
    using nth[of _ bs] by (intro nth_equalityI) auto
  then show ?thesis using digits len[of bs] by (simp add: toy_net_codecs_def)
qed

theorem endpoint_read_back_witness:
  "\<exists>tree. e2_tree toy_net_codecs \<lparr>e2_api = ascii ''WS2P'', e2_api_version = 2, e2_network_features = [5],
      e2_api_features = [23], e2_ip_v4 = Some 7, e2_ip_v6 = None, e2_host = None, e2_port = 443, e2_path = None\<rparr> = Some tree \<and>
    e2_from_pest_pair toy_net_codecs tree = Some \<lparr>e2_api = ascii ''WS2P'', e2_api_version = 2,
      e2_network_features = [5], e2_api_features = [7], e2_ip_v4 = Some 7, e2_ip_v6 = None, e2_host = None,
      e2_port = 443, e2_path = None\<rparr>"
proof -
  have "net_codecs_ok toy_net_codecs"
    using pairs_read by (simp add: net_codecs_ok_def) (simp add: toy_net_codecs_def first_of_def)
  then show ?thesis
    using endpoint_read_back[of toy_net_codecs "\<lparr>e2_api = ascii ''WS2P'', e2_api_version = 2,
      e2_network_features = [5], e2_api_features = [23], e2_ip_v4 = Some 7, e2_ip_v6 = None, e2_host = None,
      e2_port = 443, e2_path = None\<rparr>"]
    by (simp add: e2_wf_def features_read_back_def flags_empty_def)
qed

end
