(* ===== verification/Core_Modules.thy ===== *)
theory Core_Modules
  imports Network_Peers
begin

text \<open>
  The modules of the node and what they exchange: \<open>lib/core/module/src/lib.rs\<close> (roles, events,
  registration at the router, priorities and filters) and \<open>lib/core/message\<close> (the messages and the
  types of their contents that no other part refines).

  The trait \<open>DursModule\<close> is a record of its constants. The contents of the events, requests and
  responses are type variables of the messages: the router does not look at them.
\<close>

subsection \<open>Roles, events and registration\<close>

datatype module_role =
  BlockchainDatas | BlockValidation | BlockGeneration | ChangeConf | ClientsNetwork | CurrencyPool
| InterNodesNetwork | UserInterface | WotPool

datatype module_event =
  NewBlockFromNetwork | NewTxFromNetwork | NewWotDocFromNetwork | NewValidBlock | NewValidBlockFromSelf | NewFork
| RevertBlocks | NewTxinPool | NewWotDocInPool | NewValidHeadFromNetwork | ConnectionsChangeNodeNetwork
| NewSelfPeerCard | NewValidPeerFromNodeNetwork

type_synonym durs_name = ustring

text \<open>The number of a request is printed in decimal here, in base 16 by the serializer.\<close>

definition module_req_string :: "durs_name \<times> nat \<Rightarrow> ustring" where
  "module_req_string = (\<lambda>(name, req_id). name @ ascii ''-'' @ show_nat req_id)"

definition req_id_serialized :: "nat \<Rightarrow> ustring" where
  "req_id_serialized req_id = show_hex req_id"

datatype ('e, 'q, 's) durs_msg =
  MsgEvent durs_name module_event 'e
| MsgRequest durs_name module_role nat 'q
| MsgResponse durs_name durs_name nat 's
| MsgStop
| MsgSaveNewModuleConf durs_name json_value
| MsgModulesEndpoints "endpoint_enum list"

text \<open>A sender is the channel of a module.\<close>

record 'c module_registration =
  mr_static_name :: durs_name
  mr_sender :: 'c
  mr_roles :: "module_role list"
  mr_events_subscription :: "module_event list"
  mr_reserved_apis_parts :: "api_part list"
  mr_endpoints :: "endpoint_enum list"

datatype ('c, 'm) router_thread_message =
  ModulesCount nat
| ModuleRegistration "'c module_registration"
| ModuleMessage 'm

subsection \<open>Priorities and filters\<close>

datatype required_keys =
  RequireMemberKeyPair | RequireMemberPublicKey | RequireNetworkKeyPair | RequireNetworkPublicKey | RequireNone

datatype required_keys_content =
  MemberKeyPair "key_pair option" | MemberPublicKey "pub_key option" | NetworkKeyPair key_pair
| NetworkPublicKey pub_key | NoKeys

datatype module_priority = Essential | Recommended | Optional

record durs_module =
  dm_name :: durs_name
  dm_priority :: module_priority
  dm_required_keys :: required_keys

definition enabled :: "durs_module \<Rightarrow> durs_name set \<Rightarrow> durs_name set \<Rightarrow> bool" where
  "enabled m disabled_modules enabled_modules = (case dm_priority m of
      Essential \<Rightarrow> True
    | Recommended \<Rightarrow> dm_name m \<notin> disabled_modules
    | Optional \<Rightarrow> dm_name m \<in> enabled_modules)"

datatype modules_filter = FilterEnabled bool | FilterNetwork | FilterRequireMemberPrivKey

definition module_valid_filters ::
  "durs_module \<Rightarrow> durs_name set \<Rightarrow> durs_name set \<Rightarrow> modules_filter set \<Rightarrow> bool \<Rightarrow> bool" where
  "module_valid_filters m disabled_modules enabled_modules filters network_module =
     (if FilterNetwork \<in> filters \<and> \<not> network_module then False
      else if FilterRequireMemberPrivKey \<in> filters \<and> dm_required_keys m \<noteq> RequireMemberKeyPair then False
      else if FilterEnabled True \<in> filters \<and> \<not> enabled m disabled_modules enabled_modules then False
      else if FilterEnabled False \<in> filters \<and> enabled m disabled_modules enabled_modules then False
      else True)"

lemma module_valid_filters_iff:
  "module_valid_filters m dis en filters network \<longleftrightarrow>
     (FilterNetwork \<in> filters \<longrightarrow> network) \<and>
     (FilterRequireMemberPrivKey \<in> filters \<longrightarrow> dm_required_keys m = RequireMemberKeyPair) \<and>
     (\<forall>b. FilterEnabled b \<in> filters \<longrightarrow> enabled m dis en = b)"
  by (auto simp: module_valid_filters_def) (metis (full_types))+

end
