(* ===== verification/Bc_Module.thy ===== *)
theory Bc_Module
  imports Bc_Fork Core_Modules
begin

text \<open>
  The messages of the blockchain module, \<open>lib/modules/blockchain/blockchain/src\<close>: its start
  (\<open>lib.rs\<close>), the requests, events and responses it receives (\<open>requests/received.rs\<close>,
  \<open>events/received.rs\<close>, \<open>responses/received.rs\<close>) and the requests it sends (\<open>requests/sent.rs\<close>,
  \<open>dunp/queries.rs\<close>), with the types of \<open>lib/core/message\<close> and \<open>lib/core/network\<close>.

  The type variable \<open>'x\<close> stands for the payloads that the module never reads: node identifiers,
  peer cards, heads, pending documents of the clients. Sending to the router succeeds; lines of
  the log are left out.
\<close>

subsection \<open>Messages\<close>

text \<open>The name of a module and the number of a request.\<close>

type_synonym module_req_full_id = "ustring \<times> nat"

datatype old_network_request =
  GetCurrent module_req_full_id
| GetBlocks module_req_full_id nat nat
| GetRequirementsPending module_req_full_id nat
| GetConsensus module_req_full_id
| GetHeadsCache module_req_full_id
| GetEndpoints module_req_full_id

fun get_req_full_id :: "old_network_request \<Rightarrow> module_req_full_id" where
  "get_req_full_id (GetCurrent i) = i"
| "get_req_full_id (GetBlocks i _ _) = i"
| "get_req_full_id (GetRequirementsPending i _) = i"
| "get_req_full_id (GetConsensus i) = i"
| "get_req_full_id (GetHeadsCache i) = i"
| "get_req_full_id (GetEndpoints i) = i"

definition get_req_id :: "old_network_request \<Rightarrow> nat" where
  "get_req_id req = snd (get_req_full_id req)"

datatype network_consensus_error = InsufficientData nat | ConsensusFork

datatype 'f blockchain_document =
  DocBlock "'f block_document"
| DocIdentity identity_document
| DocMembership membership_document
| DocCertification certification_document
| DocRevocation revocation_document
| DocTransaction transaction_document

datatype ('f, 'x) network_response =
  ResCurrentBlock module_req_full_id 'x "'f block_document"
| ResBlock module_req_full_id 'x "'f block_document"
| ResChunk module_req_full_id 'x "'f block_document list"
| ResPendingDocuments module_req_full_id "'f blockchain_document list"
| ResConsensus module_req_full_id "network_consensus_error + blockstamp"
| ResHeadsCache module_req_full_id 'x

datatype ('f, 'x) network_event =
  ConnectionStateChange 'x nat "ustring option" ustring
| NewSelfPeer 'x
| ReceiveDocuments "'f blockchain_document list"
| ReceiveBlocks "'f block_document list"
| ReceivePeers "'x list"
| ReceiveHeads "'x list"

datatype ('f, 'x) mem_pool_event = FindNextBlock "'f block_document" | StoreNewDocInPool 'x

datatype ('f, 'x) durs_event =
  EventArbitraryDatas 'x
| BlockchainEvent 'x
| MemPoolEvent "('f, 'x) mem_pool_event"
| NetworkEvent "('f, 'x) network_event"
| ReceiveValidDocsFromClient "'x list"

datatype blockchain_request =
  ReqCurrentBlockstamp
| ReqCurrentBlock
| ReqBlockByNumber nat
| ReqChunk nat nat
| ReqUIDs "pub_key list"
| ReqGetIdentities identities_filter

datatype 'f blockchain_response =
  ResCurrentBlockstamp blockstamp
| ResCurrentBlockOf "'f block_document" blockstamp
| ResBlockByNumber "'f block_document"
| ResBlocks "'f block_document list"
| ResUIDs "pub_key \<rightharpoonup> ustring option"
| ResIdentities "identity_document list"

datatype 'x durs_req_content =
  OldNetworkRequest old_network_request
| NetworkRequest
| BlockchainRequest blockchain_request
| MemPoolRequest 'x
| ProverRequest nat hash
| ReqArbitraryDatas 'x

datatype ('f, 'x) durs_res_content =
  BlockchainResponse "'f blockchain_response"
| MemPoolResponse 'x
| NetworkResponse "('f, 'x) network_response"
| ProverResponse nat signature nat

subsection \<open>The state\<close>

text \<open>The whole module: what it sends to the router comes in order, but for the events, which are in \<open>bc_events\<close>.\<close>

datatype 'f sent_message =
  SentRequest nat old_network_request
| SentResponse ustring nat "'f blockchain_response"

record ('f, 'w) bc_node =
  bn_module :: "('f, 'w) bc_module"
  bn_consensus :: blockstamp
  bn_pending :: "nat \<rightharpoonup> old_network_request"
  bn_sent :: "'f sent_message list"

definition blockchain_name :: ustring where
  "blockchain_name = ascii ''blockchain''"

definition chunk_size :: nat where
  "chunk_size = 50"

definition max_blocks_request :: nat where
  "max_blocks_request = 500"

text \<open>The literals of type \<open>f64\<close> are read by a parameter.\<close>

definition block_parameters_default :: "(ustring \<Rightarrow> 'f) \<Rightarrow> 'f block_parameters" where
  "block_parameters_default f64 = \<lparr>p_c = f64 (ascii ''0.0488''), p_dt = 86400, p_ud0 = 1000,
     p_sig_period = 432000, p_sig_stock = 100, p_sig_window = 5259600, p_sig_validity = 63115200,
     p_sig_qty = 5, p_idty_window = 5259600, p_ms_window = 5259600, p_x_percent = f64 (ascii ''0.8''),
     p_ms_validity = 31557600, p_step_max = 5, p_median_time_blocks = 24, p_avg_gen_time = 300,
     p_dt_diff_eval = 12, p_percent_rot = f64 (ascii ''0.67''), p_ud_time0 = 1488970800,
     p_ud_reeval_time0 = 1490094000, p_dt_reeval = 15778800\<rparr>"

definition currency_parameters_default :: "(ustring \<Rightarrow> 'f) \<Rightarrow> 'f currency_parameters" where
  "currency_parameters_default f64 =
     currency_parameters_from (ascii ''default_currency'') (block_parameters_default f64)"

text \<open>The start: the databases are those of the files.\<close>

definition load_blockchain_conf :: "(ustring \<Rightarrow> 'f) \<Rightarrow> ('f, 'w) databases \<Rightarrow> ('f, 'w) bc_node run" where
  "load_blockchain_conf f64 files = do {
     current \<leftarrow> get_current_blockstamp (db_blockchain files);
     params \<leftarrow> get_currency_params (db_blockchain files);
     Some \<lparr>bn_module = \<lparr>bc_dbs = files, bc_files = files, bc_wot_index = get_wot_index (db_wots files),
         bc_currency_params = (case params of Some ps \<Rightarrow> ps | None \<Rightarrow> currency_parameters_default f64),
         bc_current = (case current of Some s \<Rightarrow> s | None \<Rightarrow> blockstamp_default),
         bc_invalid_forks = {}, bc_events = []\<rparr>,
       bn_consensus = blockstamp_default, bn_pending = Map.empty, bn_sent = []\<rparr>
   }"

subsection \<open>Requests sent\<close>

definition request_network ::
  "nat \<Rightarrow> old_network_request \<Rightarrow> ('f, 'w) bc_node \<Rightarrow> nat \<times> ('f, 'w) bc_node" where
  "request_network req_id req bc = (get_req_id req, bc\<lparr>bn_sent := bn_sent bc @ [SentRequest req_id req]\<rparr>)"

definition request_chunk ::
  "nat \<Rightarrow> nat \<Rightarrow> ('f, 'w) bc_node \<Rightarrow> (nat \<times> old_network_request) \<times> ('f, 'w) bc_node" where
  "request_chunk req_id from_block bc =
     (let req = GetBlocks (blockchain_name, req_id) chunk_size from_block;
        (i, bc) = request_network req_id req bc
      in ((i, req), bc))"

text \<open>The first number, from the given one, that no request has.\<close>

partial_function (option) free_req_id :: "profile \<Rightarrow> (nat \<Rightarrow> bool) \<Rightarrow> nat \<Rightarrow> nat option" where
  "free_req_id p used req_id =
     (if used req_id then do { following \<leftarrow> u32_add p req_id 1; free_req_id p used following } else Some req_id)"

partial_function (option) request_chunks ::
  "profile \<Rightarrow> nat \<Rightarrow> nat \<Rightarrow> (nat \<rightharpoonup> old_network_request) \<Rightarrow> ('f, 'w) bc_node \<Rightarrow>
   ((nat \<rightharpoonup> old_network_request) \<times> ('f, 'w) bc_node) option" where
  "request_chunks p from_block real_to requests bc =
     (if from_block \<le> real_to then do {
        req_id \<leftarrow> free_req_id p (\<lambda>i. bn_pending bc i \<noteq> None \<or> requests i \<noteq> None) 0;
        let ((i, req), bc) = request_chunk req_id from_block bc;
        next_block \<leftarrow> u32_add p from_block chunk_size;
        request_chunks p next_block real_to (requests(i \<mapsto> req)) bc
      }
      else Some (requests, bc))"

definition request_blocks_to ::
  "profile \<Rightarrow> nat \<Rightarrow> ('f, 'w) bc_node \<Rightarrow> ((nat \<rightharpoonup> old_network_request) \<times> ('f, 'w) bc_node) run" where
  "request_blocks_to p to_block bc = do {
     let current = bc_current (bn_module bc);
     from_block \<leftarrow> (if current = blockstamp_default then Some 0 else u32_add p (bs_id current) 1);
     if bs_id current < to_block then do {
       real_to \<leftarrow> (if to_block - bs_id current > max_blocks_request
         then u32_add p (bs_id current) max_blocks_request else Some to_block);
       request_chunks p from_block real_to Map.empty bc
     }
     else Some (Map.empty, bc)
   }"

definition request_network_consensus :: "('f, 'w) bc_node \<Rightarrow> ('f, 'w) bc_node" where
  "request_network_consensus bc =
     (let req_id = as_u32 (card (dom (bn_pending bc)));
        req = GetConsensus (blockchain_name, req_id);
        (i, bc) = request_network req_id req bc
      in bc\<lparr>bn_pending := (bn_pending bc)(i \<mapsto> req)\<rparr>)"

definition request_next_main_blocks :: "profile \<Rightarrow> ('f, 'w) bc_node \<Rightarrow> ('f, 'w) bc_node run" where
  "request_next_main_blocks p bc = do {
     to_block \<leftarrow> (if bs_id (bn_consensus bc) = 0
       then u32_add p (bs_id (bc_current (bn_module bc))) max_blocks_request
       else Some (bs_id (bn_consensus bc)));
     (requests, bc) \<leftarrow> request_blocks_to p to_block bc;
     Some (bc\<lparr>bn_pending := bn_pending bc ++ requests\<rparr>)
   }"

subsection \<open>Messages received\<close>

definition send_req_response ::
  "ustring \<Rightarrow> nat \<Rightarrow> 'f blockchain_response \<Rightarrow> ('f, 'w) bc_node \<Rightarrow> ('f, 'w) bc_node" where
  "send_req_response requester req_id res bc = bc\<lparr>bn_sent := bn_sent bc @ [SentResponse requester req_id res]\<rparr>"

fun receive_req ::
  "('f, 'w) env \<Rightarrow> ustring \<Rightarrow> nat \<Rightarrow> 'x durs_req_content \<Rightarrow> ('f, 'w) bc_node \<Rightarrow> ('f, 'w) bc_node run" where
  "receive_req env req_from req_id (BlockchainRequest req) bc =
     (let m = bn_module bc; db = db_blockchain (bc_dbs m); wots = db_wots (bc_dbs m);
        send = (\<lambda>res. send_req_response req_from req_id res bc)
      in case req of
        ReqCurrentBlockstamp \<Rightarrow> Some (send (ResCurrentBlockstamp (bc_current m)))
      | ReqCurrentBlock \<Rightarrow> Some (case get_block db None (bc_current m) of
            Some b \<Rightarrow> send (ResCurrentBlockOf (db_block b) (bc_current m))
          | None \<Rightarrow> bc)
      | ReqBlockByNumber n \<Rightarrow> Some (case get_block_in_local_blockchain db n of
            Some b \<Rightarrow> send (ResBlockByNumber b)
          | None \<Rightarrow> bc)
      | ReqChunk first_block_number count \<Rightarrow> do {
          blocks \<leftarrow> get_blocks_in_local_blockchain (e_profile env) db first_block_number count;
          Some (if blocks = [] then bc else send (ResBlocks blocks))
        }
      | ReqUIDs pubkeys \<Rightarrow> Some (send (ResUIDs (map_of (map (\<lambda>k. (k, get_uid wots k)) pubkeys))))
      | ReqGetIdentities filters \<Rightarrow> do {
          idtys \<leftarrow> get_identities (e_profile env) (e_keys env) wots filters (bs_id (bc_current m));
          Some (send (ResIdentities (map di_idty_doc idtys)))
        })"
| "receive_req env req_from req_id req bc = Some bc"

definition on_module ::
  "(('f, 'w) bc_module \<Rightarrow> ('f, 'w) bc_module run) \<Rightarrow> ('f, 'w) bc_node \<Rightarrow> ('f, 'w) bc_node run" where
  "on_module f bc = map_option (\<lambda>m. bc\<lparr>bn_module := m\<rparr>) (f (bn_module bc))"

fun receive_bc_document ::
  "('f, 'w) env \<Rightarrow> 'f blockchain_document \<Rightarrow> ('f, 'w) bc_module \<Rightarrow> ('f, 'w) bc_module run" where
  "receive_bc_document env (DocBlock b) bc = receive_blocks env [b] bc"
| "receive_bc_document env doc bc = Some bc"

definition receive_bc_documents ::
  "('f, 'w) env \<Rightarrow> 'f blockchain_document list \<Rightarrow> ('f, 'w) bc_module \<Rightarrow> ('f, 'w) bc_module run" where
  "receive_bc_documents env docs bc = fold_run (receive_bc_document env) docs bc"

fun receive_event :: "('f, 'w) env \<Rightarrow> ('f, 'x) durs_event \<Rightarrow> ('f, 'w) bc_node \<Rightarrow> ('f, 'w) bc_node run" where
  "receive_event env (NetworkEvent (ReceiveDocuments docs)) bc = on_module (receive_bc_documents env docs) bc"
| "receive_event env (NetworkEvent (ReceiveBlocks blocks)) bc = on_module (receive_blocks env blocks) bc"
| "receive_event env (MemPoolEvent (FindNextBlock b)) bc = on_module (receive_blocks env [b]) bc"
| "receive_event env event bc = Some bc"

fun receive_response ::
  "('f, 'w) env \<Rightarrow> nat \<Rightarrow> ('f, 'x) durs_res_content \<Rightarrow> ('f, 'w) bc_node \<Rightarrow> ('f, 'w) bc_node run" where
  "receive_response env req_id (NetworkResponse response) bc =
     (let pending = bn_pending bc; bc = bc\<lparr>bn_pending := pending(req_id := None)\<rparr> in
      case (pending req_id, response) of
        (Some (GetConsensus _), ResConsensus _ (Inr s)) \<Rightarrow> Some (bc\<lparr>bn_consensus := s\<rparr>)
      | (Some (GetBlocks _ _ _), ResChunk _ _ blocks) \<Rightarrow> on_module (receive_blocks env blocks) bc
      | _ \<Rightarrow> Some bc)"
| "receive_response env req_id response bc = Some bc"

subsection \<open>The main loop\<close>

type_synonym ('f, 'x) bc_msg = "(('f, 'x) durs_event, 'x durs_req_content, ('f, 'x) durs_res_content) durs_msg"

text \<open>
  One turn of the loop of \<open>start_blockchain\<close>: the clock says whether blocks are asked for and whether
  the orphans are tried; no message arrives in a second when \<open>msg\<close> is \<open>None\<close>. The answer says
  whether the loop goes on.
\<close>

definition receive_msg ::
  "('f, 'w) env \<Rightarrow> ('f, 'x) bc_msg \<Rightarrow> ('f, 'w) bc_node \<Rightarrow> ('f, 'w) bc_node run" where
  "receive_msg env msg bc = (case msg of
      MsgRequest req_from _ req_id req \<Rightarrow> receive_req env req_from req_id req bc
    | MsgEvent _ _ event \<Rightarrow> receive_event env event bc
    | MsgResponse _ _ req_id res \<Rightarrow> receive_response env req_id res bc
    | _ \<Rightarrow> Some bc)"

definition start_turn ::
  "('f, 'w) env \<Rightarrow> bool \<Rightarrow> bool \<Rightarrow> ('f, 'x) bc_msg option \<Rightarrow> ('f, 'w) bc_node \<Rightarrow> (bool \<times> ('f, 'w) bc_node) run" where
  "start_turn env ask stack msg bc = do {
     let bc = request_network_consensus bc;
     bc \<leftarrow> (if ask then request_next_main_blocks (e_profile env) bc else Some bc);
     (case msg of
        Some MsgStop \<Rightarrow> Some (False, bc)
      | _ \<Rightarrow> do {
          bc \<leftarrow> (case msg of Some m \<Rightarrow> receive_msg env m bc | None \<Rightarrow> Some bc);
          bc \<leftarrow> (if stack then on_module (apply_stackable_blocks env) bc else Some bc);
          Some (True, bc)
        })
   }"

subsection \<open>The numbers of the requests\<close>

lemma free_req_id_first:
  assumes "\<exists>i\<ge>n. i \<le> m \<and> \<not> used i" "m < 2 ^ 32"
  shows "\<exists>i. free_req_id p used n = Some i \<and> n \<le> i \<and> i \<le> m \<and> \<not> used i"
  using assms(1)
proof (induction "m - n" arbitrary: n)
  case 0
  then obtain i where i: "n \<le> i" "i \<le> m" "\<not> used i" by blast
  then have "i = n" using 0 by linarith
  then show ?case using i by (subst free_req_id.simps) simp
next
  case (Suc k)
  show ?case
  proof (cases "used n")
    case False
    then show ?thesis using Suc.prems by (subst free_req_id.simps) auto
  next
    case True
    obtain i where "n \<le> i" "i \<le> m" "\<not> used i" using Suc.prems by blast
    moreover from this True have "Suc n \<le> i" by (cases "i = n") auto
    ultimately have "\<exists>i\<ge>Suc n. i \<le> m \<and> \<not> used i" by blast
    then obtain i where "free_req_id p used (Suc n) = Some i" "Suc n \<le> i" "i \<le> m" "\<not> used i"
      using Suc.hyps(1)[of "Suc n"] Suc.hyps(2) by (metis diff_Suc nat.case(2))
    moreover have "u32_add p n 1 = Some (Suc n)" using assms(2) Suc.hyps(2) by simp
    ultimately show ?thesis using True by (subst free_req_id.simps) auto
  qed
qed

lemma free_req_id_fresh:
  assumes "finite (Collect used)" "card (Collect used) < 2 ^ 32"
  shows "\<exists>i. free_req_id p used 0 = Some i \<and> \<not> used i"
proof -
  have "\<exists>i\<le>card (Collect used). \<not> used i"
  proof (rule ccontr)
    assume "\<not> ?thesis"
    then have "{..card (Collect used)} \<subseteq> Collect used" by auto
    then have "card {..card (Collect used)} \<le> card (Collect used)" using assms(1) by (rule card_mono[rotated])
    then show False by simp
  qed
  then show ?thesis using free_req_id_first[of 0 "card (Collect used)" used p] assms(2) by auto
qed

text \<open>The first blocks of the chunks from one block to another.\<close>

definition chunk_starts :: "nat \<Rightarrow> nat \<Rightarrow> nat list" where
  "chunk_starts first_block last_block =
     map (\<lambda>k. first_block + 50 * k) [0..<if first_block \<le> last_block then (last_block - first_block) div 50 + 1 else 0]"

lemma chunk_starts_rec:
  "chunk_starts f t = (if f \<le> t then f # chunk_starts (f + 50) t else [])"
proof (cases "f \<le> t")
  case True
  have count: "(t - f) div 50 = (if f + 50 \<le> t then (t - (f + 50)) div 50 + 1 else 0)"
  proof (cases "f + 50 \<le> t")
    case True
    then have "t - f = (t - (f + 50)) + 50" by simp
    then show ?thesis using True by (metis Suc_eq_plus1 div_add_self2 zero_neq_numeral)
  qed simp
  have "[0..<Suc m] = 0 # map Suc [0..<m]" for m by (simp add: upt_conv_Cons map_Suc_upt)
  then have "map (\<lambda>k. f + 50 * k) [0..<(t - f) div 50 + 1] =
      f # map (\<lambda>k. f + 50 + 50 * k) [0..<(t - f) div 50]"
    by (simp add: comp_def algebra_simps)
  then show ?thesis using True count by (simp add: chunk_starts_def)
qed (simp add: chunk_starts_def)

definition chunk_requests :: "nat list \<Rightarrow> nat list \<Rightarrow> old_network_request list" where
  "chunk_requests ids fs = map2 (\<lambda>i f. GetBlocks (blockchain_name, i) 50 f) ids fs"

lemma request_chunks_spec:
  assumes "finite (dom (bn_pending bc) \<union> dom reqs)"
    and "card (dom (bn_pending bc) \<union> dom reqs) + length (chunk_starts f t) < 2 ^ 32" "t + 50 < 2 ^ 32"
  shows "\<exists>ids. request_chunks p f t reqs bc =
      Some (reqs(ids [\<mapsto>] chunk_requests ids (chunk_starts f t)),
        bc\<lparr>bn_sent := bn_sent bc @ map2 SentRequest ids (chunk_requests ids (chunk_starts f t))\<rparr>) \<and>
    length ids = length (chunk_starts f t) \<and> distinct ids \<and>
    set ids \<inter> (dom (bn_pending bc) \<union> dom reqs) = {}"
  using assms(1,2)
proof (induction "Suc t - f" arbitrary: f reqs bc rule: less_induct)
  case less
  show ?case
  proof (cases "f \<le> t")
    case False
    then show ?thesis
      by (intro exI[of _ "[]"], subst request_chunks.simps) (simp add: chunk_starts_rec[of f t] chunk_requests_def)
  next
    case True
    let ?used = "\<lambda>i. bn_pending bc i \<noteq> None \<or> reqs i \<noteq> None"
    have used: "Collect ?used = dom (bn_pending bc) \<union> dom reqs" by auto
    then obtain i where i: "free_req_id p ?used 0 = Some i" "\<not> ?used i"
      using free_req_id_fresh[of ?used p] less.prems by auto
    let ?q = "GetBlocks (blockchain_name, i) 50 f"
    let ?bc = "bc\<lparr>bn_sent := bn_sent bc @ [SentRequest i ?q]\<rparr>"
    have starts: "chunk_starts f t = f # chunk_starts (f + 50) t" using True by (simp add: chunk_starts_rec[of f t])
    have "dom (bn_pending ?bc) \<union> dom (reqs(i \<mapsto> ?q)) = insert i (dom (bn_pending bc) \<union> dom reqs)" by auto
    moreover have "i \<notin> dom (bn_pending bc) \<union> dom reqs" using i(2) by auto
    ultimately have "card (dom (bn_pending ?bc) \<union> dom (reqs(i \<mapsto> ?q))) + length (chunk_starts (f + 50) t) < 2 ^ 32"
      "finite (dom (bn_pending ?bc) \<union> dom (reqs(i \<mapsto> ?q)))"
      using less.prems starts by simp_all
    moreover have "Suc t - (f + 50) < Suc t - f" using True by simp
    ultimately obtain ids where
      ids: "request_chunks p (f + 50) t (reqs(i \<mapsto> ?q)) ?bc =
        Some ((reqs(i \<mapsto> ?q))(ids [\<mapsto>] chunk_requests ids (chunk_starts (f + 50) t)),
          ?bc\<lparr>bn_sent := bn_sent ?bc @ map2 SentRequest ids (chunk_requests ids (chunk_starts (f + 50) t))\<rparr>)"
        "length ids = length (chunk_starts (f + 50) t)" "distinct ids"
        "set ids \<inter> (dom (bn_pending ?bc) \<union> dom (reqs(i \<mapsto> ?q))) = {}"
      using less.hyps by meson
    have next_block: "u32_add p f chunk_size = Some (f + 50)" using assms(3) True by (simp add: chunk_size_def)
    have "request_chunks p f t reqs bc = request_chunks p (f + 50) t (reqs(i \<mapsto> ?q)) ?bc"
      using True i(1) next_block
      by (subst request_chunks.simps) (simp add: request_chunk_def request_network_def get_req_id_def chunk_size_def Let_def)
    then show ?thesis
      using ids i(2) starts by (intro exI[of _ "i # ids"]) (auto simp: chunk_requests_def)
  qed
qed

lemma chunk_starts_cover:
  assumes "f \<le> n" "n \<le> t"
  shows "\<exists>s\<in>set (chunk_starts f t). s \<le> n \<and> n < s + 50"
proof (intro bexI conjI)
  have "(n - f) div 50 \<le> (t - f) div 50" using assms by (intro div_le_mono diff_le_mono)
  then show "f + 50 * ((n - f) div 50) \<in> set (chunk_starts f t)" using assms by (auto simp: chunk_starts_def)
  have "n - f = 50 * ((n - f) div 50) + (n - f) mod 50" by simp
  moreover have "(n - f) mod 50 < 50" by simp
  ultimately show "f + 50 * ((n - f) div 50) \<le> n" "n < f + 50 * ((n - f) div 50) + 50"
    using assms(1) by linarith+
qed

lemma length_chunk_starts:
  assumes "t \<le> f + 500"
  shows "length (chunk_starts f t) \<le> 11"
proof -
  have "(t - f) div 50 \<le> 500 div 50" using assms by (intro div_le_mono) simp
  then show ?thesis by (simp add: chunk_starts_def)
qed

subsection \<open>Properties\<close>

text \<open>The first block asked for, and the last one: at most 500 blocks ahead.\<close>

definition first_wanted :: "('f, 'w) bc_node \<Rightarrow> nat" where
  "first_wanted bc = (if bc_current (bn_module bc) = blockstamp_default then 0
     else Suc (bs_id (bc_current (bn_module bc))))"

definition last_wanted :: "('f, 'w) bc_node \<Rightarrow> nat" where
  "last_wanted bc = (let far = bs_id (bc_current (bn_module bc)) + 500 in
     if bs_id (bn_consensus bc) = 0 then far else min far (bs_id (bn_consensus bc)))"

text \<open>
  C12: Asking for the next blocks ends. It sends requests for chunks of 50 blocks that cover every
  block from the one after the current block up to the consensus, or up to 500 blocks ahead; each
  request gets a number that no pending request has, and no pending request is lost.
\<close>

theorem next_blocks_requested:
  assumes "finite (dom (bn_pending bc))" "card (dom (bn_pending bc)) + 11 < 2 ^ 32"
    and "bs_id (bc_current (bn_module bc)) + 550 < 2 ^ 32"
  defines "starts \<equiv> chunk_starts (first_wanted bc) (last_wanted bc)"
  shows "\<exists>ids. request_next_main_blocks p bc = Some (bc\<lparr>
      bn_pending := (bn_pending bc)(ids [\<mapsto>] chunk_requests ids starts),
      bn_sent := bn_sent bc @ map2 SentRequest ids (chunk_requests ids starts)\<rparr>) \<and>
    length ids = length starts \<and> length starts \<le> 11 \<and> distinct ids \<and> set ids \<inter> dom (bn_pending bc) = {} \<and>
    (\<forall>n. first_wanted bc \<le> n \<longrightarrow> n \<le> last_wanted bc \<longrightarrow> (\<exists>s\<in>set starts. s \<le> n \<and> n < s + 50)) \<and>
    (\<forall>s\<in>set starts. first_wanted bc \<le> s \<and> s \<le> last_wanted bc)"
proof -
  let ?id = "bs_id (bc_current (bn_module bc))" and ?f = "first_wanted bc" and ?t = "last_wanted bc"
  have f: "?id \<le> ?f" by (simp add: first_wanted_def blockstamp_default_def)
  have t: "?t \<le> ?id + 500" by (simp add: last_wanted_def Let_def)
  have len: "length (chunk_starts ?f ?t) \<le> 11" using f t by (intro length_chunk_starts) simp
  from request_chunks_spec[of bc Map.empty ?f ?t p] len t assms obtain ids where
    ids: "request_chunks p ?f ?t Map.empty bc = Some ([ids [\<mapsto>] chunk_requests ids (chunk_starts ?f ?t)],
        bc\<lparr>bn_sent := bn_sent bc @ map2 SentRequest ids (chunk_requests ids (chunk_starts ?f ?t))\<rparr>)"
      "length ids = length (chunk_starts ?f ?t)" "distinct ids" "set ids \<inter> dom (bn_pending bc) = {}"
    by auto
  have run: "request_next_main_blocks p bc = do {
      (requests, bc) \<leftarrow> request_chunks p ?f ?t Map.empty bc;
      Some (bc\<lparr>bn_pending := bn_pending bc ++ requests\<rparr>)
    }"
  proof -
    let ?to = "if bs_id (bn_consensus bc) = 0 then ?id + 500 else bs_id (bn_consensus bc)"
    have to_block: "(if bs_id (bn_consensus bc) = 0 then u32_add p ?id max_blocks_request
        else Some (bs_id (bn_consensus bc))) = Some ?to"
      using assms(3) by (simp add: max_blocks_request_def)
    have from_block: "(if bc_current (bn_module bc) = blockstamp_default then Some 0 else u32_add p ?id 1) = Some ?f"
      using assms(3) by (simp add: first_wanted_def)
    have real_to: "(if ?to - ?id > max_blocks_request then u32_add p ?id max_blocks_request else Some ?to) = Some ?t"
      if "?id < ?to"
      using assms(3) that by (auto simp: last_wanted_def max_blocks_request_def)
    have "request_blocks_to p ?to bc = request_chunks p ?f ?t Map.empty bc"
    proof (cases "?id < ?to")
      case True
      then show ?thesis
        using from_block real_to[OF True] by (simp only: request_blocks_to_def Let_def bind.bind_lunit if_True)
    next
      case False
      then have "\<not> ?f \<le> ?t" by (auto simp: first_wanted_def last_wanted_def blockstamp_default_def Let_def split: if_splits)
      then have "request_chunks p ?f ?t Map.empty bc = Some (Map.empty, bc)" by (subst request_chunks.simps) simp
      then show ?thesis
        using from_block False by (simp only: request_blocks_to_def Let_def bind.bind_lunit if_False)
    qed
    then show ?thesis using to_block by (simp only: request_next_main_blocks_def bind.bind_lunit)
  qed
  have "k \<le> (?t - ?f) div 50 \<Longrightarrow> ?f \<le> ?t \<Longrightarrow> ?f + 50 * k \<le> ?t" for k
    by (auto simp: less_eq_div_iff_mult_less_eq)
  then have inside: "\<forall>s\<in>set (chunk_starts ?f ?t). ?f \<le> s \<and> s \<le> ?t"
    by (auto simp: chunk_starts_def split: if_splits)
  show ?thesis unfolding starts_def
    by (rule exI[of _ ids])
      (use run ids len inside chunk_starts_cover[of ?f _ ?t] in \<open>simp add: map_add_upds\<close>)
qed

definition idle_node :: "(nat, rusty_wot) bc_node" where
  "idle_node = \<lparr>bn_module = new_module, bn_consensus = Blockstamp 80 (Hash [1]),
     bn_pending = [1 \<mapsto> GetConsensus (blockchain_name, 1)], bn_sent = []\<rparr>"

theorem next_blocks_requested_witness:
  "\<exists>ids bc. request_next_main_blocks Debug idle_node = Some bc \<and> length ids = 2 \<and>
     bn_pending bc = (bn_pending idle_node)(ids [\<mapsto>] chunk_requests ids [0, 50])"
proof -
  have wanted: "chunk_starts (first_wanted idle_node) (last_wanted idle_node) = [0, 50]"
    by (simp add: first_wanted_def last_wanted_def idle_node_def new_module_def blockstamp_default_def
        chunk_starts_def upt_rec)
  have "\<exists>ids. request_next_main_blocks Debug idle_node = Some (idle_node\<lparr>
      bn_pending := (bn_pending idle_node)(ids [\<mapsto>] chunk_requests ids [0, 50]),
      bn_sent := bn_sent idle_node @ map2 SentRequest ids (chunk_requests ids [0, 50])\<rparr>) \<and>
    length ids = length [0 :: nat, 50]"
    using next_blocks_requested[of idle_node Debug, unfolded wanted]
    by (fastforce simp: idle_node_def new_module_def blockstamp_default_def)
  then obtain ids where "request_next_main_blocks Debug idle_node = Some (idle_node\<lparr>
      bn_pending := (bn_pending idle_node)(ids [\<mapsto>] chunk_requests ids [0, 50]),
      bn_sent := bn_sent idle_node @ map2 SentRequest ids (chunk_requests ids [0, 50])\<rparr>)"
    "length ids = 2" by auto
  moreover have "bn_pending (idle_node\<lparr>bn_pending := m, bn_sent := xs\<rparr>) = m" for m xs by simp
  ultimately show ?thesis by blast
qed

text \<open>
  The number of a consensus request is the number of pending requests, which may be taken: when
  one request among \<open>0..n\<close> has been answered, the next consensus request takes the place of the last
  one, and the chunk that answers it is thrown away.
\<close>

theorem consensus_replaces_request:
  assumes "dom (bn_pending bc) = {..n} - {i}" "i < n" "n < 2 ^ 32"
  shows "bn_pending (request_network_consensus bc) n = Some (GetConsensus (blockchain_name, n)) \<and>
    bn_pending bc n \<noteq> None \<and>
    (\<forall>full_id node blocks. receive_response env n (NetworkResponse (ResChunk full_id node blocks))
      (request_network_consensus bc) =
      Some ((request_network_consensus bc)\<lparr>bn_pending := (bn_pending bc)(n := None)\<rparr>))"
proof -
  have "card ({..n} - {i}) = n" using assms(2) by simp
  then have pending: "bn_pending (request_network_consensus bc) = (bn_pending bc)(n \<mapsto> GetConsensus (blockchain_name, n))"
    using assms(1,3) by (simp add: request_network_consensus_def request_network_def get_req_id_def Let_def)
  moreover have "n \<in> dom (bn_pending bc)" using assms(1,2) by simp
  ultimately show ?thesis by (auto simp: Let_def)
qed

text \<open>Two chunks asked for, of which the first one has been answered.\<close>

theorem consensus_replaces_request_witness:
  "bn_pending (request_network_consensus (idle_node\<lparr>bn_pending := [1 \<mapsto> GetBlocks (blockchain_name, 1) 50 50]\<rparr>)) 1 =
     Some (GetConsensus (blockchain_name, 1))"
proof -
  have "dom (bn_pending (idle_node\<lparr>bn_pending := [1 \<mapsto> GetBlocks (blockchain_name, 1) 50 50]\<rparr>)) = {..1} - {0}"
    by auto
  from conjunct1[OF consensus_replaces_request[OF this]] show ?thesis by simp
qed

end
