(* ===== verification/Bc_Invariant.thy ===== *)
theory Bc_Invariant
  imports Bc_Fork
begin

text \<open>
  What holds of the blockchain module in every state it reaches: the local blockchain is one chain
  of blocks without gaps, the main branch of the fork tree is its end, no stored fork starts above
  the current block, and the graph and the index of the identities agree.

  The hash of a block covers the hash of the block before it, so the blockstamp of a block
  determines its previous hash: this is the function \<open>pred\<close> of the definitions below.
\<close>

subsection \<open>Nodes after an insertion\<close>

definition node_link :: "fork_tree \<Rightarrow> node_ref \<Rightarrow> (node_ref option \<times> blockstamp) option" where
  "node_link t i = map_option (\<lambda>n. (tn_parent n, tn_data n)) (get_ref_node t i)"

lemma block_at_link: "block_at t i = map_option snd (node_link t i)"
  by (cases "get_ref_node t i") (simp_all add: block_at_def node_link_def)

text \<open>A removal takes nodes away and changes neither the others nor the main branch.\<close>

definition trimmed :: "fork_tree \<Rightarrow> fork_tree \<Rightarrow> bool" where
  "trimmed t t' \<longleftrightarrow> ft_main t' = ft_main t \<and>
     (\<forall>i x. node_link t' i = Some x \<longrightarrow> node_link t i = Some x)"

lemma trimmed_refl: "trimmed t t"
  by (simp add: trimmed_def)

lemma trimmed_trans: "trimmed t t1 \<Longrightarrow> trimmed t1 t2 \<Longrightarrow> trimmed t t2"
  by (simp add: trimmed_def)

lemma trimmed_fold:
  assumes "fold_run f xs t = Some t'" "\<And>x s s'. f x s = Some s' \<Longrightarrow> trimmed s s'"
  shows "trimmed t t'"
  by (rule fold_run_preserves[OF assms(1), where P = "trimmed t"])
    (auto intro: trimmed_refl trimmed_trans assms(2))

lemma trimmed_remove_node: "remove_node i t = Some t' \<Longrightarrow> trimmed t t'"
  by (auto simp: remove_node_def trimmed_def node_link_def get_ref_node_def vec_get_def nth_list_update
      split: bind_splits option.splits if_splits)

lemma trimmed_remove_node_children: "remove_node_children k i t = Some t' \<Longrightarrow> trimmed t t'"
proof (induction k arbitrary: i t t')
  case (Suc k)
  from Suc.prems obtain ids t1 and n :: tree_node where "fold_run (remove_node_children k) (tn_children n) t = Some t1"
    "fold_run remove_node ids t1 = Some t'"
    by (auto simp del: only_children.simps split: bind_splits prod.splits)
  then show ?case
    using trimmed_fold[of "remove_node_children k"] trimmed_fold[of remove_node] Suc.IH trimmed_remove_node
      trimmed_trans by blast
qed simp

lemma trimmed_remove_subtree: "remove_subtree c t = Some t' \<Longrightarrow> trimmed t t'"
  by (auto simp: remove_subtree_def simp del: remove_node_children.simps split: bind_splits
      intro: trimmed_trans trimmed_remove_node trimmed_remove_node_children)

lemma pruning_trims:
  assumes "pruning t = Some t'" "ft_root t = Some r" "block_at t r = Some s"
  shows "ft_main t' = (ft_main t)(bs_id s := None) \<and> node_link t' r = None \<and>
    (\<forall>i x. node_link t' i = Some x \<longrightarrow> node_link t i = Some x)"
proof -
  from assms obtain n m t1 where s: "get_ref_node t r = Some n" "tn_data n = s"
    and t1: "fold_run remove_subtree (filter (\<lambda>c. c \<noteq> m) (tn_children n))
        (t\<lparr>ft_main := (ft_main t)(bs_id s := None), ft_removed := ft_removed t @ [s]\<rparr>) = Some t1"
    and t': "t' = t1\<lparr>ft_nodes := (ft_nodes t1)[r := None], ft_root := Some m\<rparr>"
    by (auto simp: pruning_def block_at_def Let_def split: bind_splits)
  let ?t0 = "t\<lparr>ft_main := (ft_main t)(bs_id s := None), ft_removed := ft_removed t @ [s]\<rparr>"
  have "trimmed ?t0 t1" by (rule trimmed_fold[OF t1]) (rule trimmed_remove_subtree)
  moreover have "node_link ?t0 k = node_link t k" for k by (simp add: node_link_def get_ref_node_def)
  moreover have "node_link t' k = (if k = r then None else node_link t1 k)" for k
    by (auto simp: t' node_link_def get_ref_node_def vec_get_def nth_list_update split: option.splits)
  ultimately show ?thesis by (auto simp: trimmed_def t')
qed

lemma link_new_node_link:
  assumes "link_new_node b parent t = Some (i, t1)"
  shows "i = length (ft_nodes t) \<and> ft_main t1 = ft_main t \<and>
    ft_root t1 = (if parent = None then Some i else ft_root t) \<and>
    (\<forall>k. node_link t1 k = (if k = i then Some (parent, b) else node_link t k))"
proof (cases parent)
  case None
  then show ?thesis
    using assms
    by (auto simp: link_new_node_None node_link_def get_ref_node_def vec_get_def nth_append tree_node_new_def
        split: if_splits)
next
  case (Some j)
  then show ?thesis
    using assms
    by (auto simp: link_new_node_def get_free_node_id_None update_node_def Let_def node_link_def get_ref_node_def
        vec_get_def nth_append nth_list_update tree_node_new_def add_child_def split: bind_splits if_splits option.splits)
qed

lemma insert_fork_links:
  assumes "insert_new_node b (Some j) False t = Some t'"
  shows "ft_main t' = ft_main t \<and> ft_root t' = ft_root t \<and>
    (\<forall>k. node_link t' k = (if k = length (ft_nodes t) then Some (Some j, b) else node_link t k))"
proof -
  from assms obtain i t1 where link: "link_new_node b (Some j) t = Some (i, t1)"
    and t': "t' = t1\<lparr>ft_removed := [], ft_sheets := insert i (ft_sheets t1)\<rparr>"
    by (auto simp: insert_new_node_def split: bind_splits)
  have "node_link t' = node_link t1" by (simp add: t' node_link_def get_ref_node_def fun_eq_iff)
  then show ?thesis using link_new_node_link[OF link] by (simp add: t')
qed

text \<open>
  A head block: the new node is the last one, and what the window leaves is the old root and
  nodes off the main branch.
\<close>

definition head_added :: "blockstamp \<Rightarrow> fork_tree \<Rightarrow> fork_tree \<Rightarrow> bool" where
  "head_added b t t' \<longleftrightarrow> (let l = length (ft_nodes t) in
     ft_main t' (bs_id b) = Some l \<and> block_at t' l = Some b \<and>
     (\<forall>k x. k \<noteq> l \<longrightarrow> node_link t' k = Some x \<longrightarrow> node_link t k = Some x) \<and>
     (\<forall>n k. ft_main t' n = Some k \<longrightarrow> ((ft_main t)(bs_id b \<mapsto> l)) n = Some k) \<and>
     (\<forall>n k. ((ft_main t)(bs_id b \<mapsto> l)) n = Some k \<longrightarrow> node_link t' k \<noteq> None \<longrightarrow> ft_main t' n = Some k) \<and>
     (case ft_root t of
        None \<Rightarrow> node_link t' l = Some (None, b)
      | Some r \<Rightarrow> \<exists>j. ft_main t (bs_id b - 1) = Some j \<and> node_link t' l = Some (Some j, b)))"

lemma insert_head_links:
  assumes t: "tree_wf t" and b: "extends_main t b" and run: "insert_new_head_block b t = Some (removed, t')"
  shows "head_added b t t' \<and> tree_wf t' \<and> ft_root t' \<noteq> None \<and>
    (\<forall>s\<in>set removed. \<exists>k. (if k = length (ft_nodes t) then s = b else block_at t k = Some s) \<and> block_at t' k = None)"
proof -
  let ?l = "length (ft_nodes t)"
  from insert_new_head_wf[OF t b] run obtain i where wf: "tree_wf t'"
    and head: "ft_main t' (bs_id b) = Some i" "map_option tn_data (get_ref_node t' i) = Some b" by auto
  define parent where "parent = (if ft_root t = None then None else ft_main t (bs_id b - 1))"
  have parent: "ft_root t \<noteq> None \<longrightarrow> (\<exists>j. parent = Some j \<and> ft_main t (bs_id b - 1) = Some j)"
    using b by (auto simp: parent_def extends_main_def)
  have node: "insert_new_node b parent True t = Some t'" and removed: "removed = ft_removed t'"
    using run tree_size_root[OF t] b
    by (auto simp: insert_new_head_block_def parent_def get_main_branch_node_id_def extends_main_def
        split: bind_splits if_splits)
  from node obtain i1 t1 where link: "link_new_node b parent t = Some (i1, t1)"
    by (auto simp: insert_new_node_def split: bind_splits)
  note t1 = link_new_node_link[OF link]
  define t2 where "t2 = t1\<lparr>ft_removed := [], ft_main := (ft_main t1)(bs_id b \<mapsto> ?l)\<rparr>"
  have t2: "node_link t2 = node_link t1" "ft_main t2 = (ft_main t)(bs_id b \<mapsto> ?l)" "ft_root t2 = ft_root t1"
    using t1 by (simp_all add: t2_def node_link_def get_ref_node_def fun_eq_iff)
  have "insert_new_node b parent True t = do {
      t3 \<leftarrow> (if card (dom (ft_main t2)) > fork_window_size then pruning t2 else Some t2);
      Some (t3\<lparr>ft_sheets := insert ?l (ft_sheets t3)\<rparr>)
    }"
    using link t1 by (simp add: insert_new_node_def t2_def Let_def)
  with node obtain t3 where t3: "(if card (dom (ft_main t2)) > fork_window_size then pruning t2 else Some t2) = Some t3"
    and t': "t' = t3\<lparr>ft_sheets := insert ?l (ft_sheets t3)\<rparr>"
    by (auto split: bind_splits)
  have same: "node_link t' = node_link t3" "ft_main t' = ft_main t3"
    by (simp_all add: t' node_link_def get_ref_node_def fun_eq_iff)
  have "(\<forall>k x. node_link t3 k = Some x \<longrightarrow> node_link t2 k = Some x) \<and>
    (\<forall>n k. ft_main t3 n = Some k \<longrightarrow> ft_main t2 n = Some k) \<and>
    (\<forall>n k. ft_main t2 n = Some k \<longrightarrow> node_link t3 k \<noteq> None \<longrightarrow> ft_main t3 n = Some k)"
  proof (cases "card (dom (ft_main t2)) > fork_window_size")
    case False
    then show ?thesis using t3 by simp
  next
    case True
    obtain r where r: "ft_root t = Some r"
    proof (cases "ft_root t")
      case None
      then have "ft_main t = Map.empty" using t by (simp add: tree_wf_def)
      then show ?thesis using True t2(2) by (simp add: fork_window_size_def)
    qed
    obtain a h where main: "main_wf t r a h" using t r by (auto simp: tree_wf_def)
    then have a: "ft_main t a = Some r" by (simp add: main_wf_def)
    then have "block_number t r = Some a" using main unfolding main_wf_def by blast
    then obtain s where s: "block_at t r = Some s" "bs_id s = a"
      by (auto simp: block_number_def block_at_def)
    then have "r < ?l" by (auto simp: block_at_def get_ref_node_iff)
    then have s2: "block_at t2 r = Some s" using s t1 by (simp add: block_at_link t2(1))
    have "a \<noteq> bs_id b" using a b r by (auto simp: extends_main_def)
    then have main_a: "ft_main t2 a = Some r" using a t2(2) by simp
    have "ft_root t2 = Some r" using t1 t2(3) r parent by (auto simp: parent_def)
    from pruning_trims[OF _ this s2, of t3] t3 True
    have p: "ft_main t3 = (ft_main t2)(a := None)" "node_link t3 r = None"
      "\<forall>i x. node_link t3 i = Some x \<longrightarrow> node_link t2 i = Some x"
      using s(2) by auto
    have "ft_main t3 n = Some k" if "ft_main t2 n = Some k" "node_link t3 k \<noteq> None" for n k
    proof -
      have "n \<noteq> a" using that main_a p(2) by auto
      then show ?thesis using that p(1) by simp
    qed
    then show ?thesis using p by auto
  qed
  note pruned = conjunct1[OF this] conjunct1[OF conjunct2[OF this]] conjunct2[OF conjunct2[OF this]]
  have i: "i = ?l" using pruned(2) head(1) same(2) t2(2) by fastforce
  have b_at: "block_at t' ?l = Some b" using head(2) by (simp add: i block_at_def)
  then obtain p where "node_link t' ?l = Some (p, b)" by (auto simp: block_at_link)
  moreover from this have "node_link t2 ?l = Some (p, b)" using pruned(1) same(1) by auto
  ultimately have new: "node_link t' ?l = Some (parent, b)" using t1 t2(1) by simp
  have "head_added b t t'"
    unfolding head_added_def Let_def
  proof (intro conjI allI impI)
    show "ft_main t' (bs_id b) = Some ?l" using head(1) i by simp
    show "block_at t' ?l = Some b" by (rule b_at)
    show "node_link t k = Some x" if "k \<noteq> ?l" "node_link t' k = Some x" for k x
    proof -
      have "node_link t2 k = Some x" using that(2) pruned(1) same(1) by metis
      then show ?thesis using t1 t2(1) that(1) by simp
    qed
    show "((ft_main t)(bs_id b \<mapsto> ?l)) n = Some k" if "ft_main t' n = Some k" for n k
      using that pruned(2) same(2) unfolding t2(2) by metis
    show "ft_main t' n = Some k" if "((ft_main t)(bs_id b \<mapsto> ?l)) n = Some k" "node_link t' k \<noteq> None" for n k
      using that pruned(3) same unfolding t2(2) by metis
    show "case ft_root t of None \<Rightarrow> node_link t' ?l = Some (None, b)
      | Some r \<Rightarrow> \<exists>j. ft_main t (bs_id b - 1) = Some j \<and> node_link t' ?l = Some (Some j, b)"
      using new parent by (auto simp: parent_def split: option.splits)
  qed
  moreover have "\<exists>k. (if k = ?l then s = b else block_at t k = Some s) \<and> block_at t' k = None" if "s \<in> set removed" for s
  proof -
    from insert_new_node_blocks[OF node] that obtain u k where
      "\<forall>k. block_at u k = (if k = ?l then Some b else block_at t k)" "block_at u k = Some s" "block_at t' k = None"
      unfolding removed by blast
    then show ?thesis by (intro exI[of _ k]) (auto split: if_splits)
  qed
  moreover have "ft_root t' \<noteq> None" using head(1) wf by (cases "ft_root t'") (auto simp: tree_wf_def)
  ultimately show ?thesis using wf by blast
qed

subsection \<open>Chains of blocks\<close>

definition parent_of :: "(blockstamp \<Rightarrow> hash) \<Rightarrow> blockstamp \<Rightarrow> blockstamp" where
  "parent_of pred s = Blockstamp (bs_id s - 1) (pred s)"

definition follows_on :: "(blockstamp \<Rightarrow> hash) \<Rightarrow> (blockstamp \<times> blockstamp) set" where
  "follows_on pred = {(s, p). 0 < bs_id s \<and> p = parent_of pred s}"

text \<open>A chain of one block or more between two blockstamps.\<close>

definition descends :: "(blockstamp \<Rightarrow> hash) \<Rightarrow> blockstamp \<Rightarrow> blockstamp \<Rightarrow> bool" where
  "descends pred s c \<longleftrightarrow> (s, c) \<in> (follows_on pred)\<^sup>+"

lemma descends_step: "descends pred s c \<longleftrightarrow> 0 < bs_id s \<and> (parent_of pred s = c \<or> descends pred (parent_of pred s) c)"
  unfolding descends_def
proof
  assume "(s, c) \<in> (follows_on pred)\<^sup>+"
  then obtain p where "(s, p) \<in> follows_on pred" "p = c \<or> (p, c) \<in> (follows_on pred)\<^sup>+"
    by (metis tranclD rtranclD)
  then show "0 < bs_id s \<and> (parent_of pred s = c \<or> (parent_of pred s, c) \<in> (follows_on pred)\<^sup>+)"
    by (auto simp: follows_on_def)
next
  assume "0 < bs_id s \<and> (parent_of pred s = c \<or> (parent_of pred s, c) \<in> (follows_on pred)\<^sup>+)"
  moreover from this have "(s, parent_of pred s) \<in> follows_on pred" by (simp add: follows_on_def)
  ultimately show "(s, c) \<in> (follows_on pred)\<^sup>+" by (auto intro: trancl_into_trancl2)
qed

lemma descends_trans: "descends pred s c \<Longrightarrow> descends pred c d \<Longrightarrow> descends pred s d"
  unfolding descends_def by (rule trancl_trans)

lemma descends_higher: "descends pred s c \<Longrightarrow> bs_id c < bs_id s"
  unfolding descends_def by (induction rule: trancl_induct) (auto simp: follows_on_def parent_of_def)

text \<open>
  A received block: its bytes are bytes, its number leaves room for the next one, its previous
  hash is the one that its blockstamp determines.
\<close>

definition bytes :: "hash \<Rightarrow> bool" where
  "bytes h \<longleftrightarrow> list_all (\<lambda>x. x < 256) (hash_bytes h)"

definition genuine_stamp :: "(blockstamp \<Rightarrow> hash) \<Rightarrow> blockstamp \<Rightarrow> bool" where
  "genuine_stamp pred s \<longleftrightarrow> bs_hash s \<noteq> hash_default \<and> bs_id s + 1 < 2 ^ 32 \<and> bytes (bs_hash s) \<and> bytes (pred s)"

definition genuine :: "(blockstamp \<Rightarrow> hash) \<Rightarrow> 'f block_document \<Rightarrow> bool" where
  "genuine pred b \<longleftrightarrow> (\<exists>s. blockstamp_of b = Some s \<and> b_previous_hash b = pred s \<and> genuine_stamp pred s)"

lemma to_hex_inj:
  assumes "bytes h" "bytes h'" "to_hex h = to_hex h'"
  shows "h = h'"
proof -
  have len: "length (hash_bytes h) = length (hash_bytes h')"
    using length_concat_show_byte[of "hash_bytes h"] length_concat_show_byte[of "hash_bytes h'"] assms(3)
    by (simp add: to_hex_def)
  have "hex_pairs (to_hex g) 0 (length (hash_bytes g)) = Some (Inr (hash_bytes g))" if "bytes g" for g
    using hex_pairs_show[of "hash_bytes g" "[]"] that by (simp add: bytes_def to_hex_def)
  from this[OF assms(1)] this[OF assms(2)] have "hash_bytes h = hash_bytes h'" unfolding len assms(3) by simp
  then show ?thesis by (cases h; cases h') simp
qed

definition stamp_at :: "'f local_blockchain \<Rightarrow> nat \<Rightarrow> blockstamp option" where
  "stamp_at db n = (case db n of Some b \<Rightarrow> dal_blockstamp b | None \<Rightarrow> None)"

text \<open>The local blockchain: one chain without gaps from the first block.\<close>

definition chain_inv :: "(blockstamp \<Rightarrow> hash) \<Rightarrow> 'f local_blockchain \<Rightarrow> nat \<Rightarrow> bool" where
  "chain_inv pred db k \<longleftrightarrow> dom db = {..<k} \<and>
     (\<forall>n<k. \<exists>s. stamp_at db n = Some s \<and> bs_id s = n \<and> genuine_stamp pred s) \<and>
     (\<forall>n s. Suc n < k \<longrightarrow> stamp_at db (Suc n) = Some s \<longrightarrow> stamp_at db n = Some (parent_of pred s))"

text \<open>Whether a blockstamp is the one of a block of the local blockchain.\<close>

definition on_chain :: "'f local_blockchain \<Rightarrow> blockstamp \<Rightarrow> bool" where
  "on_chain db s \<longleftrightarrow> stamp_at db (bs_id s) = Some s"

text \<open>The main branch agrees with the blockchain, and only its nodes carry the blocks of the chain.\<close>

definition main_inv :: "'f local_blockchain \<Rightarrow> nat \<Rightarrow> 'f forks_dbs \<Rightarrow> bool" where
  "main_inv db k forks \<longleftrightarrow> (let t = fd_tree forks in
     tree_wf t \<and> (ft_root t = None \<longleftrightarrow> k = 0) \<and> (0 < k \<longrightarrow> ft_main t (k - 1) \<noteq> None) \<and>
     (\<forall>n i. ft_main t n = Some i \<longrightarrow> n < k \<and> block_at t i = stamp_at db n) \<and>
     (\<forall>i s. block_at t i = Some s \<longrightarrow> on_chain db s \<longrightarrow> ft_main t (bs_id s) = Some i))"

text \<open>Children follow their parents; the first block of all has none.\<close>

definition links_inv :: "(blockstamp \<Rightarrow> hash) \<Rightarrow> 'f local_blockchain \<Rightarrow> fork_tree \<Rightarrow> bool" where
  "links_inv pred db t \<longleftrightarrow>
     (\<forall>i s. block_at t i = Some s \<longrightarrow> bs_id s + 1 < 2 ^ 32) \<and>
     (\<forall>i p s. node_link t i = Some (p, s) \<longrightarrow> (case p of
        None \<Rightarrow> bs_id s = 0 \<and> on_chain db s
      | Some j \<Rightarrow> 0 < bs_id s \<and> j < i \<and> (\<forall>s'. block_at t j = Some s' \<longrightarrow> s' = parent_of pred s)))"

text \<open>Blocks are stored under their blockstamps, and those of the main branch are stored.\<close>

definition stored_inv :: "'f local_blockchain \<Rightarrow> 'f forks_dbs \<Rightarrow> bool" where
  "stored_inv db forks \<longleftrightarrow>
     (\<forall>s b. fd_blocks forks s = Some b \<longrightarrow> dal_blockstamp b = Some s) \<and>
     (\<forall>n s. ft_main (fd_tree forks) n \<noteq> None \<longrightarrow> stamp_at db n = Some s \<longrightarrow> fd_blocks forks s \<noteq> None)"

text \<open>Orphans wait for the block they follow; a block with number 0 waits for one that cannot be.\<close>

definition orphans_inv :: "(blockstamp \<Rightarrow> hash) \<Rightarrow> (blockstamp \<rightharpoonup> 'f dal_block list) \<Rightarrow> bool" where
  "orphans_inv pred orphans \<longleftrightarrow> (\<forall>key bs b. orphans key = Some bs \<longrightarrow> b \<in> set bs \<longrightarrow>
     genuine pred (db_block b) \<and> (\<forall>s. dal_blockstamp b = Some s \<longrightarrow>
       (if bs_id s = 0 then bs_id key = 2 ^ 32 - 1 else key = parent_of pred s)))"

text \<open>No fork starts from the current block, and the current block is not below the chain.\<close>

definition current_inv :: "(blockstamp \<Rightarrow> hash) \<Rightarrow> 'f local_blockchain \<Rightarrow> nat \<Rightarrow> fork_tree \<Rightarrow> blockstamp \<Rightarrow> bool" where
  "current_inv pred db k t current \<longleftrightarrow>
     (current = blockstamp_default \<and> k = 0 \<or> genuine_stamp pred current) \<and> k \<le> Suc (bs_id current) \<and>
     (0 < k \<and> k = Suc (bs_id current) \<longrightarrow>
       on_chain db current \<and> (\<forall>s\<in>in_tree t. \<not> descends pred s current))"

definition tied ::
  "(blockstamp \<Rightarrow> hash) \<Rightarrow> 'f local_blockchain \<Rightarrow> nat \<Rightarrow> 'f forks_dbs \<Rightarrow> blockstamp \<Rightarrow> bool" where
  "tied pred db k forks current \<longleftrightarrow> main_inv db k forks \<and> links_inv pred db (fd_tree forks) \<and>
     stored_inv db forks \<and> orphans_inv pred (fd_orphans forks) \<and> current_inv pred db k (fd_tree forks) current"

definition blocks_inv ::
  "(blockstamp \<Rightarrow> hash) \<Rightarrow> 'f local_blockchain \<Rightarrow> 'f forks_dbs \<Rightarrow> blockstamp \<Rightarrow> bool" where
  "blocks_inv pred db forks current \<longleftrightarrow> (\<exists>k. chain_inv pred db k \<and> tied pred db k forks current)"

lemma stamp_at_below:
  assumes "chain_inv pred db k"
  shows "stamp_at db n \<noteq> None \<longleftrightarrow> n < k"
proof (cases "n < k")
  case True
  then obtain s where "stamp_at db n = Some s" using assms unfolding chain_inv_def by blast
  then show ?thesis using True by simp
next
  case False
  then have "db n = None" using assms unfolding chain_inv_def by (metis domIff lessThan_iff)
  then show ?thesis using False by (simp add: stamp_at_def)
qed

lemma on_chain_parent:
  assumes "chain_inv pred db k" "on_chain db s" "0 < bs_id s"
  shows "on_chain db (parent_of pred s)"
proof -
  obtain n where n: "bs_id s = Suc n" using assms(3) by (cases "bs_id s") auto
  then have "Suc n < k" using assms(2) stamp_at_below[OF assms(1), of "Suc n"] by (simp add: on_chain_def)
  then have "stamp_at db n = Some (parent_of pred s)" using assms(1,2) n by (simp add: chain_inv_def on_chain_def)
  then show ?thesis using n by (simp add: on_chain_def parent_of_def)
qed

subsection \<open>Fork blocks and orphans\<close>

lemma node_link_length: "node_link t i = Some x \<Longrightarrow> i < length (ft_nodes t)"
  by (auto simp: node_link_def get_ref_node_iff)

lemma block_at_length: "block_at t i = Some s \<Longrightarrow> i < length (ft_nodes t)"
  by (auto simp: block_at_def get_ref_node_iff)

lemma insert_fork_tied:
  assumes chain: "chain_inv pred db k" and inv: "tied pred db k forks current"
    and s: "genuine_stamp pred s" "0 < bs_id s" "dal_blockstamp b = Some s"
    and off: "\<not> on_chain db s" "0 < k \<and> k = Suc (bs_id current) \<longrightarrow> parent_of pred s \<noteq> current"
    and run: "insert_new_fork_block p s (pred s) (fd_tree forks) = Some (True, t')"
  shows "tied pred db k (forks\<lparr>fd_tree := t', fd_blocks := (fd_blocks forks)(s \<mapsto> b)\<rparr>) current"
proof -
  let ?t = "fd_tree forks" and ?p = "parent_of pred s"
  have wf: "tree_wf ?t" using inv by (simp add: tied_def main_inv_def Let_def)
  from insert_new_fork_wf[OF wf s(2), of p "pred s"] run have wf': "tree_wf t'" by auto
  from run s(2) obtain j where j: "find_node_with_blockstamp ?t ?p = Some j"
    and node: "insert_new_node s (Some j) False ?t = Some t'"
    by (auto simp: insert_new_fork_block_def parent_of_def split: option.splits bind_splits)
  note links = insert_fork_links[OF node]
  let ?l = "length (ft_nodes ?t)"
  have at: "block_at t' i = (if i = ?l then Some s else block_at ?t i)" for i using links by (simp add: block_at_link)
  have parent: "block_at ?t j = Some ?p" using find_node_Some[OF j] by (auto simp: block_at_def)
  have old: "block_at ?t i = Some x \<Longrightarrow> i \<noteq> ?l" for i x using block_at_length by fastforce
  have tree: "in_tree t' = insert s (in_tree ?t)"
    using insert_new_fork_in_tree[OF wf run] by simp
  have "main_inv db k (forks\<lparr>fd_tree := t', fd_blocks := (fd_blocks forks)(s \<mapsto> b)\<rparr>)"
  proof -
    have "block_at t' i = stamp_at db n" if "ft_main ?t n = Some i" for n i
    proof -
      have "block_at ?t i = stamp_at db n" "n < k" using inv that by (auto simp: tied_def main_inv_def Let_def)
      moreover from this have "stamp_at db n \<noteq> None" using stamp_at_below[OF chain] by simp
      ultimately show ?thesis using at old by fastforce
    qed
    moreover have "ft_main ?t (bs_id x) = Some i" if "block_at t' i = Some x" "on_chain db x" for i x
      using that at off(1) inv by (auto simp: tied_def main_inv_def Let_def split: if_splits)
    ultimately show ?thesis using inv wf' links by (auto simp: tied_def main_inv_def Let_def)
  qed
  moreover have "links_inv pred db t'"
    unfolding links_inv_def
  proof (intro conjI allI impI)
    show "bs_id x + 1 < 2 ^ 32" if "block_at t' i = Some x" for i x
      using that at s(1) inv by (auto simp: genuine_stamp_def tied_def links_inv_def split: if_splits)
  next
    fix i q x assume link: "node_link t' i = Some (q, x)"
    show "case q of None \<Rightarrow> bs_id x = 0 \<and> on_chain db x
      | Some j \<Rightarrow> 0 < bs_id x \<and> j < i \<and> (\<forall>s'. block_at t' j = Some s' \<longrightarrow> s' = parent_of pred x)"
    proof (cases "i = ?l")
      case True
      then have "q = Some j" "x = s" using link links by auto
      then show ?thesis using True s(2) at parent old[OF parent] block_at_length[OF parent] by simp
    next
      case False
      then have old_link: "node_link ?t i = Some (q, x)" using link links by simp
      then have "case q of None \<Rightarrow> bs_id x = 0 \<and> on_chain db x
        | Some j \<Rightarrow> 0 < bs_id x \<and> j < i \<and> (\<forall>s'. block_at ?t j = Some s' \<longrightarrow> s' = parent_of pred x)"
        using inv by (simp add: tied_def links_inv_def)
      then show ?thesis using at node_link_length[OF old_link] by (auto split: option.splits)
    qed
  qed
  moreover have "stored_inv db (forks\<lparr>fd_tree := t', fd_blocks := (fd_blocks forks)(s \<mapsto> b)\<rparr>)"
    using inv s(3) links by (auto simp: tied_def stored_inv_def)
  moreover have "current_inv pred db k t' current"
  proof -
    have "\<not> descends pred s current" if "0 < k \<and> k = Suc (bs_id current)"
    proof -
      have "?p \<in> in_tree ?t" using parent by (auto simp: in_tree_def)
      then have "\<not> descends pred ?p current" using inv that by (auto simp: tied_def current_inv_def)
      then show ?thesis using off(2) that descends_step[of pred s current] by simp
    qed
    then show ?thesis using inv tree by (auto simp: tied_def current_inv_def)
  qed
  ultimately show ?thesis using inv by (simp add: tied_def)
qed

text \<open>A block that may be adopted: it waits for a block off the chain.\<close>

definition adoptable :: "(blockstamp \<Rightarrow> hash) \<Rightarrow> 'f local_blockchain \<Rightarrow> 'f dal_block \<Rightarrow> bool" where
  "adoptable pred db b \<longleftrightarrow> genuine pred (db_block b) \<and>
     (\<forall>s. dal_blockstamp b = Some s \<longrightarrow> 0 < bs_id s \<and> \<not> on_chain db (parent_of pred s))"

lemma adopt_tied:
  assumes chain: "chain_inv pred db k" and inv: "tied pred db k forks current"
    and b: "genuine pred (db_block b)" "dal_blockstamp b = Some s"
    and off: "0 < bs_id s \<Longrightarrow> parent_of pred s \<in> in_tree (fd_tree forks) \<Longrightarrow>
      \<not> on_chain db s \<and> (0 < k \<and> k = Suc (bs_id current) \<longrightarrow> parent_of pred s \<noteq> current)"
    and run: "adopt p b forks = Some (r, forks')"
  shows "tied pred db k forks' current \<and> (\<forall>bs. r = Some bs \<longrightarrow> (\<forall>c\<in>set bs. adoptable pred db c))"
proof -
  have stamp: "genuine_stamp pred s" "b_previous_hash (db_block b) = pred s"
    using b by (auto simp: genuine_def dal_blockstamp_def)
  have wf: "tree_wf (fd_tree forks)" using inv by (simp add: tied_def main_inv_def Let_def)
  from run b(2) stamp(2) obtain inserted tree where
    ins: "insert_new_fork_block p s (pred s) (fd_tree forks) = Some (inserted, tree)"
    by (auto simp: adopt_def split: bind_splits)
  show ?thesis
  proof (cases inserted)
    case True
    have number: "0 < bs_id s"
    proof (rule ccontr)
      assume "\<not> 0 < bs_id s"
      then obtain j where "find_node_with_blockstamp (fd_tree forks) (Blockstamp (2 ^ 32 - 1) (pred s)) = Some j"
        using ins True
        by (auto simp: insert_new_fork_block_def u32_sub_def split: bind_splits option.splits profile.splits)
      from find_node_Some[OF this] have "block_at (fd_tree forks) j = Some (Blockstamp (2 ^ 32 - 1) (pred s))"
        by (auto simp: block_at_def)
      then show False using inv by (fastforce simp: tied_def links_inv_def)
    qed
    from insert_new_fork_wf[OF wf number, of p "pred s"] ins True
    have parent: "parent_of pred s \<in> in_tree (fd_tree forks)" by (auto simp: in_tree_iff parent_of_def)
    let ?forks = "forks\<lparr>fd_tree := tree, fd_blocks := (fd_blocks forks)(s \<mapsto> b)\<rparr>"
    have forks': "forks' = ?forks" "r = Some (get_stackables_blocks forks s)"
      using run b(2) stamp(2) ins True by (auto simp: adopt_def get_stackables_blocks_def Let_def)
    have "tied pred db k ?forks current"
      using insert_fork_tied[OF chain inv stamp(1) number b(2)] off[OF number parent] ins True by simp
    moreover have "adoptable pred db c" if c: "c \<in> set (get_stackables_blocks forks s)" for c
    proof -
      obtain bs where bs: "fd_orphans forks s = Some bs" "c \<in> set bs"
        using c by (cases "fd_orphans forks s") (auto simp: get_stackables_blocks_def)
      have o: "genuine pred (db_block c)" "\<forall>s1. dal_blockstamp c = Some s1 \<longrightarrow>
          (if bs_id s1 = 0 then bs_id s = 2 ^ 32 - 1 else s = parent_of pred s1)"
        using inv bs unfolding tied_def orphans_inv_def by blast+
      have "bs_id s1 \<noteq> 0" if "dal_blockstamp c = Some s1" for s1
      proof
        assume "bs_id s1 = 0"
        then have "bs_id s = 2 ^ 32 - 1" using o(2) that by simp
        then show False using stamp(1) by (simp add: genuine_stamp_def)
      qed
      then show ?thesis using o off[OF number parent] by (auto simp: adoptable_def)
    qed
    ultimately show ?thesis using forks' by simp
  next
    case False
    then have tree: "tree = fd_tree forks"
      using ins by (auto simp: insert_new_fork_block_def split: bind_splits option.splits)
    from run b(2) stamp(2) ins False obtain previous where
      previous: "dal_previous_blockstamp p b = Some previous"
      and forks': "forks' = forks\<lparr>fd_orphans := (fd_orphans forks)(previous \<mapsto>
        get_stackables_blocks forks previous @ [b])\<rparr>" "r = None"
      by (auto simp: adopt_def tree get_stackables_blocks_def Let_def split: bind_splits)
    have waits: "if bs_id s = 0 then bs_id previous = 2 ^ 32 - 1 else previous = parent_of pred s"
      using previous b(2) stamp(2)
      by (auto simp: dal_previous_blockstamp_def dal_blockstamp_iff parent_of_def u32_sub_def
          split: bind_splits profile.splits if_splits)
    have "orphans_inv pred (fd_orphans forks')"
      unfolding orphans_inv_def
    proof (intro allI impI)
      fix key bs c assume c: "fd_orphans forks' key = Some bs" "c \<in> set bs"
      have old: "\<And>key bs c. fd_orphans forks key = Some bs \<Longrightarrow> c \<in> set bs \<Longrightarrow>
          genuine pred (db_block c) \<and> (\<forall>s. dal_blockstamp c = Some s \<longrightarrow>
            (if bs_id s = 0 then bs_id key = 2 ^ 32 - 1 else key = parent_of pred s))"
        using inv unfolding tied_def orphans_inv_def by blast
      show "genuine pred (db_block c) \<and> (\<forall>s. dal_blockstamp c = Some s \<longrightarrow>
          (if bs_id s = 0 then bs_id key = 2 ^ 32 - 1 else key = parent_of pred s))"
      proof (cases "key = previous \<and> c = b")
        case True
        then show ?thesis using b waits by simp
      next
        case False
        then have "\<exists>bs. fd_orphans forks key = Some bs \<and> c \<in> set bs"
          using c forks'(1) by (cases "fd_orphans forks previous") (auto simp: get_stackables_blocks_def split: if_splits)
        then show ?thesis using old by blast
      qed
    qed
    then show ?thesis using inv forks' by (auto simp: tied_def main_inv_def stored_inv_def)
  qed
qed

lemma adoptable_off:
  assumes chain: "chain_inv pred db k" and inv: "tied pred db k forks current"
    and "adoptable pred db b" "dal_blockstamp b = Some s"
  shows "\<not> on_chain db s \<and> (0 < k \<and> k = Suc (bs_id current) \<longrightarrow> parent_of pred s \<noteq> current)"
  using assms on_chain_parent[OF chain, of s] by (auto simp: adoptable_def tied_def current_inv_def)

text \<open>The recursion over the orphans.\<close>

lemma write_fork_block_orphans:
  assumes run: "write_fork_block p b forks = Some (inserted, forks')" and chain: "chain_inv pred db k"
  shows "adoptable pred db b \<longrightarrow> tied pred db k forks current \<longrightarrow> tied pred db k forks' current"
proof -
  let ?P = "\<lambda>p b forks (r :: bool \<times> 'a forks_dbs).
    adoptable pred db b \<longrightarrow> tied pred db k forks current \<longrightarrow> tied pred db k (snd r) current"
  have "?P p b forks (inserted, forks')"
  proof (rule write_fork_block.raw_induct[OF _ run, where P = ?P], intro impI)
    fix loop p and b :: "'a dal_block" and forks r
    assume ih: "\<And>p b forks r. loop p b forks = Some r \<Longrightarrow> ?P p b forks r"
      and step: "adopt p b forks \<bind> (\<lambda>(stackables, forks). case stackables of None \<Rightarrow> Some (False, forks)
        | Some bs \<Rightarrow> fold_run (\<lambda>b forks. loop p b forks \<bind> (\<lambda>(_, forks). Some forks)) bs forks \<bind>
            (\<lambda>forks. Some (True, forks))) = Some r"
      and b: "adoptable pred db b" and inv: "tied pred db k forks current"
    from b obtain s where s: "dal_blockstamp b = Some s" by (auto simp: adoptable_def genuine_def dal_blockstamp_def)
    from step obtain x forks1 where adopt: "adopt p b forks = Some (x, forks1)" by (auto split: bind_splits)
    have "genuine pred (db_block b)" using b by (simp add: adoptable_def)
    from adopt_tied[OF chain inv this s adoptable_off[OF chain inv b s] adopt]
    have one: "tied pred db k forks1 current" "\<And>bs c. x = Some bs \<Longrightarrow> c \<in> set bs \<Longrightarrow> adoptable pred db c" by auto
    show "tied pred db k (snd r) current"
    proof (cases x)
      case None
      then show ?thesis using step adopt one by auto
    next
      case (Some bs)
      with step adopt obtain forks2 where
        loop: "fold_run (\<lambda>b forks. loop p b forks \<bind> (\<lambda>(_, forks). Some forks)) bs forks1 = Some forks2"
        and r: "r = (True, forks2)" by (auto split: bind_splits)
      have "tied pred db k forks2 current"
      proof (rule fold_run_preserves[OF loop, where P = "\<lambda>forks. tied pred db k forks current"])
        fix c forks3 forks4
        assume c: "c \<in> set bs" "tied pred db k forks3 current"
          "loop p c forks3 \<bind> (\<lambda>(_, forks). Some forks) = Some forks4"
        then obtain y where "loop p c forks3 = Some (y, forks4)" by (auto split: bind_splits)
        from ih[OF this] show "tied pred db k forks4 current" using one(2)[OF Some c(1)] c(2) by simp
      qed (rule one(1))
      then show ?thesis using r by simp
    qed
  qed
  then show ?thesis by simp
qed

text \<open>A block that is not known and does not follow the current one.\<close>

lemma write_fork_block_tied:
  assumes chain: "chain_inv pred db k" and inv: "tied pred db k forks current"
    and b: "genuine pred (db_block b)" "dal_blockstamp b = Some s"
    and fresh: "fd_blocks forks s = None" "0 < bs_id s \<Longrightarrow> parent_of pred s \<noteq> current"
    and run: "write_fork_block p b forks = Some (inserted, forks')"
  shows "tied pred db k forks' current"
proof -
  from run obtain x forks1 where adopt: "adopt p b forks = Some (x, forks1)"
    by (subst (asm) write_fork_block.simps) (auto split: bind_splits)
  have off: "\<not> on_chain db s" if "0 < bs_id s" "parent_of pred s \<in> in_tree (fd_tree forks)"
  proof
    assume s: "on_chain db s"
    let ?t = "fd_tree forks"
    have main: "main_inv db k forks" using inv by (simp add: tied_def)
    from that(2) obtain i where i: "block_at ?t i = Some (parent_of pred s)" by (auto simp: in_tree_def)
    have "ft_main ?t (bs_id (parent_of pred s)) = Some i"
      using main i on_chain_parent[OF chain s that(1)] by (simp add: main_inv_def Let_def)
    then have below: "ft_main ?t (bs_id s - 1) \<noteq> None" by (simp add: parent_of_def)
    have "bs_id s < k" using s stamp_at_below[OF chain, of "bs_id s"] by (simp add: on_chain_def)
    then have top: "ft_main ?t (k - 1) \<noteq> None" "bs_id s \<le> k - 1" using main by (simp_all add: main_inv_def Let_def)
    obtain r where "ft_root ?t = Some r"
      using main below by (cases "ft_root ?t") (auto simp: main_inv_def Let_def tree_wf_def)
    then obtain a h where "dom (ft_main ?t) = {a..h}"
      using main by (auto simp: main_inv_def Let_def tree_wf_def main_wf_def)
    then have "bs_id s \<in> dom (ft_main ?t)" using below top by (metis atLeastAtMost_iff diff_le_self domIff le_trans)
    then show False using inv s fresh(1) by (auto simp: tied_def stored_inv_def on_chain_def)
  qed
  from adopt_tied[OF chain inv b _ adopt] off fresh(2)
  have one: "tied pred db k forks1 current" "\<And>bs c. x = Some bs \<Longrightarrow> c \<in> set bs \<Longrightarrow> adoptable pred db c" by auto
  show ?thesis
  proof (cases x)
    case None
    then show ?thesis using run adopt one(1) by (subst (asm) write_fork_block.simps) auto
  next
    case (Some bs)
    with run adopt have loop: "fold_run (\<lambda>b forks. write_fork_block p b forks \<bind> (\<lambda>(_, forks). Some forks)) bs forks1 =
        Some forks'"
      by (subst (asm) write_fork_block.simps) (auto split: bind_splits)
    show ?thesis
    proof (rule fold_run_preserves[OF loop, where P = "\<lambda>forks. tied pred db k forks current"])
      fix c forks3 forks4
      assume c: "c \<in> set bs" "tied pred db k forks3 current"
        "write_fork_block p c forks3 \<bind> (\<lambda>(_, forks). Some forks) = Some forks4"
      then obtain y where "write_fork_block p c forks3 = Some (y, forks4)" by (auto split: bind_splits)
      from write_fork_block_orphans[OF this chain] show "tied pred db k forks4 current"
        using one(2)[OF Some c(1)] c(2) by simp
    qed (rule one(1))
  qed
qed

subsection \<open>Head blocks\<close>

lemma stamp_at_update: "dal_blockstamp b = Some s \<Longrightarrow> stamp_at (db(k \<mapsto> b)) n = (if n = k then Some s else stamp_at db n)"
  by (simp add: stamp_at_def)

lemma empty_tree:
  assumes "tree_wf t" "ft_root t = None"
  shows "block_at t i = None" "in_tree t = {}"
  using assms by (auto simp: tree_wf_def in_tree_def block_at_def get_ref_node_def vec_get_def)

lemma write_head_tied:
  assumes chain: "chain_inv pred db k" and inv: "tied pred db k forks current"
    and s: "dal_blockstamp b = Some s" "genuine_stamp pred s" "bs_id s = k"
    and link: "0 < k \<longrightarrow> k = Suc (bs_id current) \<and> parent_of pred s = current"
    and run: "write_head_block b (db, forks) = Some (db', forks')"
  shows "chain_inv pred db' (Suc k) \<and> tied pred db' (Suc k) forks' s \<and> db' = db(k \<mapsto> b)"
proof -
  let ?t = "fd_tree forks" and ?l = "length (ft_nodes (fd_tree forks))"
  have main: "main_inv db k forks" and links: "links_inv pred db ?t" and stored: "stored_inv db forks"
    and current: "current_inv pred db k ?t current" using inv by (simp_all add: tied_def)
  have wf: "tree_wf ?t" using main by (simp add: main_inv_def Let_def)
  have db': "db' = db(k \<mapsto> b)" using run s by (auto simp: write_head_block_def dal_blockstamp_iff Let_def split: bind_splits)
  have at_db: "stamp_at db' n = (if n = k then Some s else stamp_at db n)" for n
    unfolding db' by (rule stamp_at_update[OF s(1)])
  have below: "stamp_at db n \<noteq> None \<longleftrightarrow> n < k" for n by (rule stamp_at_below[OF chain])
  have on_db: "on_chain db' x \<longleftrightarrow> x = s \<or> on_chain db x" for x
    using at_db[of "bs_id x"] below[of k] s(3) by (auto simp: on_chain_def)
  have tip: "0 < k \<longrightarrow> stamp_at db (k - 1) = Some current" using current link by (auto simp: current_inv_def on_chain_def)
  have no_descent: "\<not> descends pred x s" if "x \<in> in_tree ?t" for x
  proof
    assume d: "descends pred x s"
    have "0 < k" using that empty_tree[OF wf] main by (cases "k = 0") (auto simp: main_inv_def Let_def)
    then have "descends pred s current" using link s(3) descends_step[of pred s current] by simp
    then show False using descends_trans[OF d] that current \<open>0 < k\<close> link by (auto simp: current_inv_def)
  qed
  have new: "s \<notin> in_tree ?t"
  proof
    assume x: "s \<in> in_tree ?t"
    have "0 < k" using x empty_tree[OF wf] main by (cases "k = 0") (auto simp: main_inv_def Let_def)
    then have "descends pred s current" using link s(3) descends_step[of pred s current] by simp
    then show False using x current \<open>0 < k\<close> link by (auto simp: current_inv_def)
  qed
  have extends: "extends_main ?t s"
  proof (cases "k = 0")
    case True
    then show ?thesis using main by (simp add: extends_main_def main_inv_def Let_def)
  next
    case False
    then show ?thesis using main s(3) by (force simp: extends_main_def main_inv_def Let_def)
  qed
  from run s(1) obtain removed t' where ins: "insert_new_head_block s ?t = Some (removed, t')"
    and forks': "forks' = forks\<lparr>fd_tree := t', fd_blocks := remove_blocks removed ((fd_blocks forks)(s \<mapsto> b))\<rparr>"
    by (auto simp: write_head_block_def Let_def split: bind_splits)
  from insert_head_links[OF wf extends ins] have added: "head_added s ?t t'" and wf': "tree_wf t'"
    and root': "ft_root t' \<noteq> None" and gone: "\<And>x. x \<in> set removed \<Longrightarrow>
      \<exists>i. (if i = ?l then x = s else block_at ?t i = Some x) \<and> block_at t' i = None" by auto
  note add = added[unfolded head_added_def Let_def]
  have head: "ft_main t' k = Some ?l" "block_at t' ?l = Some s" using add s(3) by auto
  have kept: "node_link ?t i = Some x" if "i \<noteq> ?l" "node_link t' i = Some x" for i x using add that by blast
  then have kept_at: "block_at ?t i = Some x" if "i \<noteq> ?l" "block_at t' i = Some x" for i x
    using that by (auto simp: block_at_link)
  have main_sub: "n = k \<and> i = ?l \<or> n \<noteq> k \<and> ft_main ?t n = Some i" if "ft_main t' n = Some i" for n i
  proof -
    have "((ft_main ?t)(bs_id s \<mapsto> ?l)) n = Some i" using add that by blast
    then show ?thesis using s(3) by (cases "n = k") auto
  qed
  have main_kept: "ft_main t' n = Some i" if "ft_main ?t n = Some i" "n \<noteq> k" "block_at t' i \<noteq> None" for n i
  proof -
    have "((ft_main ?t)(bs_id s \<mapsto> ?l)) n = Some i" using that s(3) by simp
    moreover have "node_link t' i \<noteq> None" using that(3) by (auto simp: block_at_link)
    ultimately show ?thesis using add by blast
  qed
  have old_main: "n < k \<and> block_at ?t i = stamp_at db n" if "ft_main ?t n = Some i" for n i
    using main that by (auto simp: main_inv_def Let_def)
  have unique: "ft_main ?t (bs_id x) = Some i" if "block_at ?t i = Some x" "on_chain db x" for i x
    using main that by (auto simp: main_inv_def Let_def)
  have agrees: "block_at t' i = stamp_at db' n \<and> n < Suc k" if n: "ft_main t' n = Some i" for n i
    using main_sub[OF n]
  proof
    assume "n \<noteq> k \<and> ft_main ?t n = Some i"
    then have old: "n < k" "block_at ?t i = stamp_at db n" "n \<noteq> k" using old_main by auto
    then obtain x where x: "stamp_at db n = Some x" using below[of n] by auto
    obtain r a h where "main_wf t' r a h" using wf' root' by (auto simp: tree_wf_def)
    then have "block_number t' i = Some n" using n unfolding main_wf_def by blast
    then obtain y where y: "block_at t' i = Some y" by (auto simp: block_number_def block_at_def)
    have "i \<noteq> ?l" using old(2) x block_at_length by fastforce
    then have "y = x" using kept_at[OF _ y] old(2) x by simp
    then show ?thesis using y x old at_db by simp
  qed (use head at_db in auto)
  have "chain_inv pred db' (Suc k)"
    unfolding chain_inv_def
  proof (intro conjI allI impI)
    show "dom db' = {..<Suc k}" using chain by (auto simp: db' chain_inv_def lessThan_Suc)
    show "\<exists>x. stamp_at db' n = Some x \<and> bs_id x = n \<and> genuine_stamp pred x" if "n < Suc k" for n
      using that chain s at_db by (cases "n = k") (auto simp: chain_inv_def)
    show "stamp_at db' n = Some (parent_of pred x)" if "Suc n < Suc k" "stamp_at db' (Suc n) = Some x" for n x
    proof (cases "Suc n = k")
      case True
      then show ?thesis using that tip link at_db by auto
    next
      case False
      then show ?thesis using that chain at_db by (simp add: chain_inv_def)
    qed
  qed
  moreover have "main_inv db' (Suc k) forks'"
  proof -
    have "ft_main t' (bs_id x) = Some i" if x: "block_at t' i = Some x" "on_chain db' x" for i x
    proof (cases "i = ?l")
      case True
      then show ?thesis using x(1) head s(3) by auto
    next
      case False
      then have old: "block_at ?t i = Some x" using kept_at x(1) by blast
      then have "x \<noteq> s" using new by (auto simp: in_tree_def)
      then have on: "on_chain db x" using x(2) on_db by simp
      then have "bs_id x < k" using below[of "bs_id x"] by (simp add: on_chain_def)
      then show ?thesis using main_kept[OF unique[OF old on]] x(1) by simp
    qed
    then show ?thesis using wf' root' head agrees by (auto simp: main_inv_def forks' Let_def)
  qed
  moreover have "links_inv pred db' t'"
    unfolding links_inv_def
  proof (intro conjI allI impI)
    show "bs_id x + 1 < 2 ^ 32" if x: "block_at t' i = Some x" for i x
      using kept_at[OF _ x] x head s(2) links by (cases "i = ?l") (auto simp: genuine_stamp_def links_inv_def)
  next
    fix i q x assume x: "node_link t' i = Some (q, x)"
    show "case q of None \<Rightarrow> bs_id x = 0 \<and> on_chain db' x
      | Some j \<Rightarrow> 0 < bs_id x \<and> j < i \<and> (\<forall>s'. block_at t' j = Some s' \<longrightarrow> s' = parent_of pred x)"
    proof (cases "i = ?l")
      case True
      show ?thesis
      proof (cases "ft_root ?t")
        case None
        then have "q = None" "x = s" "k = 0" using add x True main by (auto simp: main_inv_def Let_def)
        then show ?thesis using s(3) on_db by simp
      next
        case (Some r)
        then obtain j where j: "ft_main ?t (k - 1) = Some j" "q = Some j" "x = s" using add x True s(3) by auto
        have k: "0 < k" using main Some by (auto simp: main_inv_def Let_def)
        then have at: "block_at ?t j = Some current" using old_main[OF j(1)] tip by simp
        then have "j < ?l" by (rule block_at_length)
        then show ?thesis using j True k s(3) link at kept_at[of j] by auto
      qed
    next
      case False
      then have old: "node_link ?t i = Some (q, x)" using kept x by blast
      then have "case q of None \<Rightarrow> bs_id x = 0 \<and> on_chain db x
        | Some j \<Rightarrow> 0 < bs_id x \<and> j < i \<and> (\<forall>s'. block_at ?t j = Some s' \<longrightarrow> s' = parent_of pred x)"
        using links by (simp add: links_inv_def)
      then show ?thesis using on_db kept_at node_link_length[OF old] by (fastforce split: option.splits)
    qed
  qed
  moreover have "stored_inv db' forks'"
    unfolding stored_inv_def
  proof (intro conjI allI impI)
    show "dal_blockstamp c = Some x" if "fd_blocks forks' x = Some c" for x c
      using that s(1) stored by (auto simp: forks' remove_blocks_apply stored_inv_def split: if_splits)
  next
    fix n x assume x: "ft_main (fd_tree forks') n \<noteq> None" "stamp_at db' n = Some x"
    then obtain i where i: "ft_main t' n = Some i" by (auto simp: forks')
    then have at: "block_at t' i = Some x" using agrees x(2) by simp
    have in_main: "x = s \<or> n \<noteq> k \<and> i \<noteq> ?l \<and> ft_main ?t n = Some i \<and> stamp_at db n = Some x"
      using main_sub[OF i] x(2) at_db at head(2) by (auto split: if_splits)
    have "x \<notin> set removed"
    proof
      assume "x \<in> set removed"
      from gone[OF this] obtain j where j: "if j = ?l then x = s else block_at ?t j = Some x" "block_at t' j = None" by blast
      then have old: "block_at ?t j = Some x" using head(2) by (auto split: if_splits)
      then have "x \<noteq> s" using new by (auto simp: in_tree_def)
      then have n: "i \<noteq> ?l" "ft_main ?t n = Some i" "stamp_at db n = Some x" using in_main by auto
      then have "bs_id x = n" using chain below[of n] by (force simp: chain_inv_def)
      then have "ft_main ?t n = Some j" using unique[OF old] n(3) by (simp add: on_chain_def)
      then show False using n(2) at j(2) by simp
    qed
    then show "fd_blocks forks' x \<noteq> None"
      using in_main stored by (auto simp: forks' remove_blocks_apply stored_inv_def)
  qed
  moreover have "current_inv pred db' (Suc k) t' s"
  proof -
    have "in_tree t' \<subseteq> insert s (in_tree ?t)"
    proof
      fix x assume "x \<in> in_tree t'"
      then obtain i where "block_at t' i = Some x" by (auto simp: in_tree_def)
      then show "x \<in> insert s (in_tree ?t)" using kept_at head(2) by (cases "i = ?l") (auto simp: in_tree_def)
    qed
    moreover have "\<not> descends pred s s" using descends_higher by blast
    ultimately show ?thesis using no_descent s on_db by (auto simp: current_inv_def)
  qed
  ultimately show ?thesis using inv db' by (simp add: tied_def forks')
qed

subsection \<open>The module\<close>

text \<open>The block that may follow the current one.\<close>

definition next_stamp :: "(blockstamp \<Rightarrow> hash) \<Rightarrow> blockstamp \<Rightarrow> blockstamp \<Rightarrow> bool" where
  "next_stamp pred current s \<longleftrightarrow> genuine_stamp pred s \<and>
     (if current = blockstamp_default then bs_id s = 0 else 0 < bs_id s \<and> parent_of pred s = current)"

lemma genuine_not_default: "genuine_stamp pred s \<Longrightarrow> s \<noteq> blockstamp_default"
  by (auto simp: genuine_stamp_def blockstamp_default_def)

lemma blocks_inv_current: "blocks_inv pred db forks current \<Longrightarrow> current = blockstamp_default \<or> genuine_stamp pred current"
  by (auto simp: blocks_inv_def tied_def current_inv_def)

lemma chained_head:
  assumes chain: "chain_inv pred db k" and inv: "tied pred db k forks current"
    and b: "genuine pred b" "blockstamp_of b = Some s"
    and next_block: "chainable p current b = Some True" and valid: "verify_block_validity b db = Inr ()"
  shows "bs_id s = k \<and> next_stamp pred current s \<and> (0 < k \<longrightarrow> k = Suc (bs_id current) \<and> parent_of pred s = current)"
proof -
  have s: "bs_id s = b_number b" "genuine_stamp pred s" "b_previous_hash b = pred s"
    using b by (auto simp: genuine_def blockstamp_of_def)
  have current: "current = blockstamp_default \<and> k = 0 \<or> genuine_stamp pred current" "k \<le> Suc (bs_id current)"
    using inv by (auto simp: tied_def current_inv_def)
  have small: "bs_id current + 1 < 2 ^ 32"
    using current(1) by (auto simp: genuine_stamp_def blockstamp_default_def)
  then have cases: "b_number b = Suc (bs_id current) \<and> to_hex (b_previous_hash b) = to_hex (bs_hash current) \<or>
      b_number b = 0 \<and> current = blockstamp_default"
    using next_block by (simp add: chainable_def)
  show ?thesis
  proof (cases "b_number b = 0")
    case True
    then show ?thesis using cases s current genuine_not_default[of pred current] by (auto simp: next_stamp_def)
  next
    case False
    then have number: "b_number b = Suc (bs_id current)" "to_hex (pred s) = to_hex (bs_hash current)"
      using cases s(3) by auto
    have "db (bs_id current) \<noteq> None"
      using valid number(1) by (auto simp: verify_block_validity_def get_block_in_local_blockchain_def split: option.splits)
    then have "bs_id current < k" using chain by (auto simp: chain_inv_def)
    then have k: "k = Suc (bs_id current)" "genuine_stamp pred current" using current by auto
    have "pred s = bs_hash current"
      using to_hex_inj[OF _ _ number(2)] s(2) k(2) by (simp add: genuine_stamp_def)
    then have "parent_of pred s = current" using s(1) number(1) by (cases current) (simp add: parent_of_def)
    then show ?thesis
      using s number k genuine_not_default[OF k(2)] by (simp add: next_stamp_def)
  qed
qed

lemma apply_requests_head:
  assumes "apply_requests env params reqs dbs = Some dbs'" "ar_block reqs = WriteBlock blk"
  shows "write_head_block blk (db_blockchain dbs, db_forks dbs) = Some (db_blockchain dbs', db_forks dbs')"
  using assms by (auto simp: apply_requests_def split: bind_splits)

text \<open>When the current block moves, what is in the files stays below it.\<close>

lemma blocks_inv_moves:
  assumes "blocks_inv pred db forks current" "next_stamp pred current s"
  shows "blocks_inv pred db forks s"
proof -
  obtain k where k: "chain_inv pred db k" "tied pred db k forks current" using assms(1) by (auto simp: blocks_inv_def)
  have "current_inv pred db k (fd_tree forks) s"
  proof (cases "current = blockstamp_default")
    case True
    then have "k = 0" using k(2) genuine_not_default[of pred current] by (auto simp: tied_def current_inv_def)
    then show ?thesis using assms(2) by (simp add: current_inv_def next_stamp_def)
  next
    case False
    then have "k \<le> bs_id s" "genuine_stamp pred s"
      using k(2) assms(2) by (auto simp: tied_def current_inv_def next_stamp_def parent_of_def)
    then show ?thesis by (simp add: current_inv_def)
  qed
  then show ?thesis using k by (auto simp: blocks_inv_def tied_def)
qed

text \<open>The check of a block keeps the invariant; an accepted one is ready to become the head.\<close>

lemma check_blocks_inv:
  assumes run: "check_and_apply_block env b bc = Some (r, bc')" and b: "genuine pred b" "blockstamp_of b = Some s"
    and inv: "blocks_inv pred (db_blockchain (bc_dbs bc)) (db_forks (bc_dbs bc)) (bc_current bc)"
  shows "bc_files bc' = bc_files bc \<and> bc_current bc' = bc_current bc \<and> bc_events bc' = bc_events bc \<and>
    bc_invalid_forks bc' = bc_invalid_forks bc \<and> db_blockchain (bc_dbs bc') = db_blockchain (bc_dbs bc) \<and>
    blocks_inv pred (db_blockchain (bc_dbs bc')) (db_forks (bc_dbs bc')) (bc_current bc') \<and>
    (\<forall>reqs. r = Inr (ValidBlock reqs) \<longrightarrow> next_stamp pred (bc_current bc) s \<and>
      (\<exists>blk. ar_block reqs = WriteBlock blk \<and> dal_blockstamp blk = Some s \<and>
        (\<forall>params dbs. apply_requests env params reqs (bc_dbs bc') = Some dbs \<longrightarrow>
          blocks_inv pred (db_blockchain dbs) (db_forks dbs) s)))"
proof -
  obtain k where k: "chain_inv pred (db_blockchain (bc_dbs bc)) k"
    "tied pred (db_blockchain (bc_dbs bc)) k (db_forks (bc_dbs bc)) (bc_current bc)"
    using inv by (auto simp: blocks_inv_def)
  from run show ?thesis
  proof (cases rule: check_and_apply_cases)
    case (same e)
    then show ?thesis using inv by auto
  next
    case (valid s' r0 st)
    note head = chained_head[OF k b valid(2,4)]
    have "\<exists>blk. ar_block reqs = WriteBlock blk \<and> dal_blockstamp blk = Some s \<and>
        (\<forall>params dbs. apply_requests env params reqs (bc_dbs bc') = Some dbs \<longrightarrow>
          blocks_inv pred (db_blockchain dbs) (db_forks dbs) s)" if reqs: "r0 = Inr reqs" for reqs
    proof -
      obtain blk where blk: "ar_block reqs = WriteBlock blk" "dal_blockstamp blk = Some s"
        using apply_valid_block_writes[OF valid(5)[unfolded reqs]] b(2) by auto
      have "blocks_inv pred (db_blockchain dbs) (db_forks dbs) s"
        if dbs: "apply_requests env params reqs (bc_dbs bc') = Some dbs" for params dbs
      proof -
        have "write_head_block blk (db_blockchain (bc_dbs bc), db_forks (bc_dbs bc)) =
            Some (db_blockchain dbs, db_forks dbs)"
          using apply_requests_head[OF dbs blk(1)] valid(7) by simp
        from write_head_tied[OF k blk(2) _ _ _ this] head show ?thesis
          by (auto simp: blocks_inv_def next_stamp_def)
      qed
      then show ?thesis using blk by blast
    qed
    then show ?thesis using valid inv head by (cases r0) auto
  next
    case (fork s' inserted forks)
    have s': "s' = s" using fork(1) b(2) by simp
    have "fd_blocks (db_forks (bc_dbs bc)) s = None"
      using fork(4) s' by (auto simp: already_have_block_def split: bind_splits if_splits)
    moreover have "parent_of pred s \<noteq> bc_current bc" if "0 < bs_id s"
    proof
      assume parent: "parent_of pred s = bc_current bc"
      have s: "bs_id s = b_number b" "b_previous_hash b = pred s" "bs_id s + 1 < 2 ^ 32"
        using b by (auto simp: genuine_def genuine_stamp_def blockstamp_of_def)
      have "Suc (bs_id (bc_current bc)) = bs_id s" "bs_hash (bc_current bc) = pred s"
        using that by (simp_all add: parent[symmetric] parent_of_def)
      then have "chainable (e_profile env) (bc_current bc) b = Some True"
        using s by (simp add: chainable_def)
      then show False using fork(2) by simp
    qed
    ultimately have "tied pred (db_blockchain (bc_dbs bc)) k forks (bc_current bc)"
      using write_fork_block_tied[OF k _ _ _ _ fork(6)] b by (simp add: dal_blockstamp_def)
    then show ?thesis using fork k by (auto simp: blocks_inv_def)
  qed
qed

subsection \<open>Branches that win\<close>

text \<open>The first block of a branch follows one of the main branch, or is the first block of all.\<close>

definition branch_start :: "fork_tree \<Rightarrow> node_ref \<Rightarrow> tree_node \<Rightarrow> bool" where
  "branch_start t j n \<longleftrightarrow> get_ref_node t j = Some n \<and>
     (case tn_parent n of None \<Rightarrow> True
      | Some p \<Rightarrow> \<exists>m. get_ref_node t p = Some m \<and> on_main_branch t m = Some True)"

lemma climb_start:
  fixes t :: fork_tree and branch :: "blockstamp list"
  assumes "climb (\<lambda>i n. tn_data n) t i branch = Some branch'"
  shows "\<forall>j n. branch \<noteq> [] \<longrightarrow> get_ref_node t j = Some n \<longrightarrow> tn_parent n = Some i \<longrightarrow> last branch = tn_data n \<longrightarrow>
    branch' \<noteq> [] \<and> hd branch' = hd branch \<and> (\<exists>j' n'. branch_start t j' n' \<and> last branch' = tn_data n' \<and>
      (j' = j \<or> on_main_branch t n' = Some False))"
proof -
  let ?P = "\<lambda>(emit :: node_ref \<Rightarrow> tree_node \<Rightarrow> blockstamp) t i branch branch'. emit = (\<lambda>i n. tn_data n) \<longrightarrow>
    (\<forall>j n. branch \<noteq> [] \<longrightarrow> get_ref_node t j = Some n \<longrightarrow> tn_parent n = Some i \<longrightarrow> last branch = tn_data n \<longrightarrow>
    branch' \<noteq> [] \<and> hd branch' = hd branch \<and> (\<exists>j' n'. branch_start t j' n' \<and> last branch' = tn_data n' \<and>
      (j' = j \<or> on_main_branch t n' = Some False)))"
  have "?P (\<lambda>i n. tn_data n) t i branch branch'"
  proof (rule climb.raw_induct[where P = ?P, OF _ assms], intro impI allI)
    fix loop emit t i and branch branch' :: "blockstamp list" and j n
    assume ih: "\<And>emit t i branch branch'. loop emit t i branch = Some branch' \<Longrightarrow> ?P emit t i branch branch'"
      and step: "get_ref_node t i \<bind> (\<lambda>n. on_main_branch t n \<bind> (\<lambda>main. if main then Some branch
        else case tn_parent n of None \<Rightarrow> Some (branch @ [emit i n])
          | Some j \<Rightarrow> loop emit t j (branch @ [emit i n]))) = Some branch'"
      and emit: "emit = (\<lambda>i n. tn_data n)"
      and old: "branch \<noteq> []" "get_ref_node t j = Some n" "tn_parent n = Some i" "last branch = tn_data n"
    from step obtain m main where m: "get_ref_node t i = Some m" "on_main_branch t m = Some main"
      and rest: "(if main then Some branch else case tn_parent m of None \<Rightarrow> Some (branch @ [emit i m])
          | Some j \<Rightarrow> loop emit t j (branch @ [emit i m])) = Some branch'"
      by (auto split: bind_splits)
    show "branch' \<noteq> [] \<and> hd branch' = hd branch \<and> (\<exists>j' n'. branch_start t j' n' \<and> last branch' = tn_data n' \<and>
      (j' = j \<or> on_main_branch t n' = Some False))"
    proof (cases main)
      case True
      then have "branch_start t j n" using old m by (simp add: branch_start_def)
      then show ?thesis using rest True old by auto
    next
      case False
      show ?thesis
      proof (cases "tn_parent m")
        case None
        then have "branch_start t i m" using m by (simp add: branch_start_def)
        moreover have "branch' = branch @ [tn_data m]" "on_main_branch t m = Some False"
          using rest False None emit m(2) by simp_all
        ultimately show ?thesis using old(1) by (auto intro!: exI[of _ i] exI[of _ m])
      next
        case (Some q)
        then have "loop emit t q (branch @ [tn_data m]) = Some branch'" using rest False emit by simp
        from ih[OF this] have "branch' \<noteq> [] \<and> hd branch' = hd (branch @ [tn_data m]) \<and>
            (\<exists>j' n'. branch_start t j' n' \<and> last branch' = tn_data n' \<and>
              (j' = i \<or> on_main_branch t n' = Some False))"
          using emit m(1) Some by auto
        moreover have "on_main_branch t n' = Some False" if "branch_start t i n'" for n'
          using that m False by (auto simp: branch_start_def)
        ultimately show ?thesis using old(1) by auto
      qed
    qed
  qed
  then show ?thesis by simp
qed

lemma fork_branch_start:
  assumes "get_fork_branch t i = Some branch"
  obtains j n where "branch_start t j n" "hd branch = tn_data n" "branch \<noteq> []"
    "on_main_branch t n = Some False \<or> j = i" "block_at t i = Some (last branch)"
proof -
  from assms obtain n branch' where n: "get_ref_node t i = Some n"
    and climb: "(case tn_parent n of None \<Rightarrow> Some [tn_data n] | Some j \<Rightarrow> climb (\<lambda>i n. tn_data n) t j [tn_data n]) =
      Some branch'" and branch: "branch = rev branch'"
    by (auto simp: get_fork_branch_def split: bind_splits)
  show thesis
  proof (cases "tn_parent n")
    case None
    then show thesis using that[of i n] n climb branch by (auto simp: branch_start_def block_at_def)
  next
    case (Some p)
    then have "climb (\<lambda>i n. tn_data n) t p [tn_data n] = Some branch'" using climb by simp
    from climb_start[OF this, rule_format, of i n] obtain j' n' where "branch' \<noteq> []" "hd branch' = tn_data n"
      "branch_start t j' n'" "last branch' = tn_data n'" "j' = i \<or> on_main_branch t n' = Some False"
      using n Some by auto
    then show thesis using that[of j' n'] n branch by (auto simp: hd_rev last_rev block_at_def)
  qed
qed

lemma choose_branch_wins:
  assumes "choose_branch p forks current bc_time invalid sheets = Some (Some branch)"
  obtains i s t where "get_fork_branch (fd_tree forks) i = Some branch"
    "branch_wins p current bc_time branch t = Some True"
  using assms
proof (induction sheets)
  case (Cons x sheets)
  obtain i s where x: "x = (i, s)" by fastforce
  show ?case
  proof (cases "s = current")
    case True
    then show ?thesis using Cons.IH[OF Cons.prems(1)] Cons.prems(2) x by simp
  next
    case False
    then obtain branch' where "get_fork_branch (fd_tree forks) i = Some branch'"
      using Cons.prems(2) x by (auto split: bind_splits)
    then show ?thesis
      using Cons.IH[OF Cons.prems(1)] Cons.prems x False by (auto split: bind_splits if_splits)
  qed
qed simp

lemma main_node_on_chain:
  assumes main: "main_inv db k forks" and m: "get_ref_node (fd_tree forks) p = Some m"
    "on_main_branch (fd_tree forks) m = Some True"
  shows "on_chain db (tn_data m) \<and> bs_id (tn_data m) < k"
proof -
  let ?t = "fd_tree forks"
  obtain i where i: "ft_main ?t (bs_id (tn_data m)) = Some i"
    using m(2) by (auto simp: on_main_branch_def split: if_splits)
  then obtain n' where n': "get_ref_node ?t i = Some n'" "bs_hash (tn_data n') = bs_hash (tn_data m)"
    using m(2) by (auto simp: on_main_branch_def get_main_branch_block_hash_def split: bind_splits)
  have wf: "tree_wf ?t" using main by (simp add: main_inv_def Let_def)
  then obtain r a h where "main_wf ?t r a h" using i by (cases "ft_root ?t") (auto simp: tree_wf_def)
  then have "block_number ?t i = Some (bs_id (tn_data m))" using i unfolding main_wf_def by blast
  then have "tn_data n' = tn_data m" using n' by (cases "tn_data n'"; cases "tn_data m") (simp add: block_number_def)
  moreover have "block_at ?t i = stamp_at db (bs_id (tn_data m))" "bs_id (tn_data m) < k"
    using main i by (auto simp: main_inv_def Let_def)
  ultimately show ?thesis using n' by (simp add: on_chain_def block_at_def)
qed

lemma on_main_iff:
  assumes main: "main_inv db k forks" and n: "get_ref_node (fd_tree forks) j = Some n" "on_chain db (tn_data n)"
  shows "on_main_branch (fd_tree forks) n = Some True"
proof -
  have "ft_main (fd_tree forks) (bs_id (tn_data n)) = Some j"
    using main n by (auto simp: main_inv_def Let_def block_at_def)
  then show ?thesis using n by (simp add: on_main_branch_def get_main_branch_block_hash_def)
qed

text \<open>A winning branch starts at the height of the current block or below, and not at the first block.\<close>

lemma winning_branch_low:
  assumes chain: "chain_inv pred db k" and inv: "tied pred db k forks current" and "genuine_stamp pred current"
    and branch: "get_fork_branch (fd_tree forks) i = Some branch"
    and wins: "branch_wins p current bc_time branch t = Some True"
  shows "branch \<noteq> [] \<and> 0 < bs_id (hd branch) \<and> bs_id (hd branch) \<le> bs_id current"
proof -
  let ?t = "fd_tree forks"
  have main: "main_inv db k forks" and links: "links_inv pred db ?t" and current: "current_inv pred db k ?t current"
    using inv by (simp_all add: tied_def)
  from fork_branch_start[OF branch] obtain j n where start: "branch_start ?t j n" "hd branch = tn_data n" "branch \<noteq> []"
    and off: "on_main_branch ?t n = Some False \<or> j = i" and last: "block_at ?t i = Some (last branch)" by blast
  have n: "get_ref_node ?t j = Some n" using start(1) by (simp add: branch_start_def)
  have link: "node_link ?t j = Some (tn_parent n, tn_data n)" using n by (simp add: node_link_def)
  show ?thesis
  proof (cases "tn_parent n")
    case None
    then have zero: "bs_id (tn_data n) = 0" "on_chain db (tn_data n)"
      using links link by (fastforce simp: links_inv_def)+
    then have "j = i" using off on_main_iff[OF main n] by auto
    then have "last branch = tn_data n" using last n by (simp add: block_at_def)
    then have False using wins zero(1) start(2) assms(3)
      by (auto simp: branch_wins_def advance_blocks_def fork_window_size_def u32_add_def genuine_stamp_def
          split: bind_splits if_splits profile.splits)
    then show ?thesis by simp
  next
    case (Some q)
    then obtain m where m: "get_ref_node ?t q = Some m" "on_main_branch ?t m = Some True"
      using start(1) by (auto simp: branch_start_def)
    from main_node_on_chain[OF main m] have on: "on_chain db (tn_data m)" "bs_id (tn_data m) < k" by auto
    have "case tn_parent n of None \<Rightarrow> bs_id (tn_data n) = 0 \<and> on_chain db (tn_data n)
      | Some i \<Rightarrow> 0 < bs_id (tn_data n) \<and> i < j \<and> (\<forall>s'. block_at ?t i = Some s' \<longrightarrow> s' = parent_of pred (tn_data n))"
      using links link by (simp add: links_inv_def)
    then have "0 < bs_id (tn_data n)" "tn_data m = parent_of pred (tn_data n)"
      using Some m(1) by (auto simp: block_at_def)
    then have number: "bs_id (tn_data n) = Suc (bs_id (tn_data m))" and parent: "parent_of pred (tn_data n) = tn_data m"
      by (simp_all add: parent_of_def)
    have "bs_id (tn_data m) \<noteq> bs_id current"
    proof
      assume eq: "bs_id (tn_data m) = bs_id current"
      then have k: "0 < k" "k = Suc (bs_id current)" using on(2) current by (auto simp: current_inv_def)
      then have "on_chain db current" "\<not> descends pred (tn_data n) current"
        using current n by (auto simp: current_inv_def in_tree_def block_at_def)
      moreover have "tn_data m = current" using on(1) \<open>on_chain db current\<close> eq by (simp add: on_chain_def)
      ultimately show False using descends_step[of pred "tn_data n" current] parent number by simp
    qed
    then have "bs_id (tn_data m) < bs_id current" using on(2) current by (auto simp: current_inv_def)
    then show ?thesis using start number by simp
  qed
qed

subsection \<open>Reachable states\<close>

text \<open>The blocks announced to the other modules are one chain, which ends with the current block.\<close>

definition announced :: "(blockstamp \<Rightarrow> hash) \<Rightarrow> 'f block_document list \<Rightarrow> blockstamp \<Rightarrow> bool" where
  "announced pred events current \<longleftrightarrow> (\<exists>stamps. map blockstamp_of events = map Some stamps \<and>
     (\<forall>i<length stamps. genuine_stamp pred (stamps ! i) \<and> bs_id (stamps ! i) = i \<and>
       (0 < i \<longrightarrow> stamps ! (i - 1) = parent_of pred (stamps ! i))) \<and>
     current = (if stamps = [] then blockstamp_default else last stamps))"

definition module_inv :: "(blockstamp \<Rightarrow> hash) \<Rightarrow> ('f, 'w) bc_module \<Rightarrow> bool" where
  "module_inv pred bc \<longleftrightarrow>
     blocks_inv pred (db_blockchain (bc_dbs bc)) (db_forks (bc_dbs bc)) (bc_current bc) \<and>
     blocks_inv pred (db_blockchain (bc_files bc)) (db_forks (bc_files bc)) (bc_current bc) \<and>
     announced pred (bc_events bc) (bc_current bc)"

lemma announced_next:
  assumes "announced pred events current" "next_stamp pred current s" "blockstamp_of b = Some s"
  shows "announced pred (events @ [b]) s"
proof -
  obtain stamps where stamps: "map blockstamp_of events = map Some stamps"
    "\<forall>i<length stamps. genuine_stamp pred (stamps ! i) \<and> bs_id (stamps ! i) = i \<and>
      (0 < i \<longrightarrow> stamps ! (i - 1) = parent_of pred (stamps ! i))"
    "current = (if stamps = [] then blockstamp_default else last stamps)"
    using assms(1) by (auto simp: announced_def)
  have new: "genuine_stamp pred s" using assms(2) by (simp add: next_stamp_def)
  have top: "bs_id s = length stamps \<and> (0 < length stamps \<longrightarrow> stamps ! (length stamps - 1) = parent_of pred s)"
  proof (cases "stamps = []")
    case True
    then show ?thesis using assms(2) stamps(3) by (simp add: next_stamp_def)
  next
    case False
    then have last: "current = stamps ! (length stamps - 1)" using stamps(3) by (simp add: last_conv_nth)
    moreover from this have "genuine_stamp pred current" "bs_id current = length stamps - 1"
      using stamps(2) False by auto
    moreover have "0 < bs_id s" "parent_of pred s = current"
      using assms(2) genuine_not_default[OF calculation(2)] by (auto simp: next_stamp_def)
    moreover from this have "bs_id s = Suc (bs_id current)" by (auto simp: parent_of_def)
    ultimately show ?thesis using False by simp
  qed
  have "map blockstamp_of (events @ [b]) = map Some (stamps @ [s])" using stamps(1) assms(3) by simp
  moreover have "\<forall>i<length (stamps @ [s]). genuine_stamp pred ((stamps @ [s]) ! i) \<and> bs_id ((stamps @ [s]) ! i) = i \<and>
      (0 < i \<longrightarrow> (stamps @ [s]) ! (i - 1) = parent_of pred ((stamps @ [s]) ! i))"
    using stamps(2) top new by (auto simp: nth_append less_Suc_eq)
  moreover have "s = (if stamps @ [s] = [] then blockstamp_default else last (stamps @ [s]))" by simp
  ultimately show ?thesis unfolding announced_def by blast
qed

text \<open>A block is accepted only when it follows the current block.\<close>

definition moves :: "(blockstamp \<Rightarrow> hash) \<Rightarrow> ('f, 'w) bc_module \<Rightarrow> ('f, 'w) bc_module \<Rightarrow> bool" where
  "moves pred bc bc' \<longleftrightarrow> module_inv pred bc' \<and>
     (bc_current bc' = bc_current bc \<or> next_stamp pred (bc_current bc) (bc_current bc'))"

lemma accepted_next:
  assumes check: "check_and_apply_block env b bc = Some (Inr (ValidBlock reqs), bc1)" and b: "genuine pred b"
    and s: "blockstamp_of b = Some s" and inv: "module_inv pred bc"
    and dbs: "apply_requests env params reqs (bc_dbs bc1) = Some dbs"
  shows "blockstamp_of (get_block_doc_copy (ar_block reqs)) = Some s \<and> next_stamp pred (bc_current bc) s \<and>
    module_inv pred (bc1\<lparr>bc_dbs := dbs, bc_current := s, bc_events := bc_events bc1 @ [get_block_doc_copy (ar_block reqs)]\<rparr>)"
proof -
  have blocks: "blocks_inv pred (db_blockchain (bc_dbs bc)) (db_forks (bc_dbs bc)) (bc_current bc)"
    using inv by (simp add: module_inv_def)
  note keeps = check_blocks_inv[OF check b s blocks]
  then obtain blk where blk: "ar_block reqs = WriteBlock blk" "dal_blockstamp blk = Some s"
    and next_s: "next_stamp pred (bc_current bc) s" and dbs_inv: "blocks_inv pred (db_blockchain dbs) (db_forks dbs) s"
    using dbs by auto
  have copy: "blockstamp_of (get_block_doc_copy (ar_block reqs)) = Some s"
    using blk by (simp add: dal_blockstamp_def)
  have "blocks_inv pred (db_blockchain (bc_files bc)) (db_forks (bc_files bc)) s"
    by (rule blocks_inv_moves[OF _ next_s]) (use inv in \<open>simp add: module_inv_def\<close>)
  moreover have "announced pred (bc_events bc @ [get_block_doc_copy (ar_block reqs)]) s"
    using announced_next[OF _ next_s copy] inv by (simp add: module_inv_def)
  ultimately show ?thesis using keeps copy next_s dbs_inv by (simp add: module_inv_def)
qed

lemma checked_block:
  assumes "check_and_apply_block env b bc = Some (r, bc')" "genuine pred b" "module_inv pred bc"
  shows "module_inv pred bc' \<and> bc_current bc' = bc_current bc"
proof -
  obtain s where s: "blockstamp_of b = Some s" using assms(2) by (auto simp: genuine_def)
  have blocks: "blocks_inv pred (db_blockchain (bc_dbs bc)) (db_forks (bc_dbs bc)) (bc_current bc)"
    using assms(3) by (simp add: module_inv_def)
  show ?thesis using check_blocks_inv[OF assms(1,2) s blocks] assms(3) unfolding module_inv_def by auto
qed

text \<open>The branch that the fork resolution answers is refused.\<close>

lemma chosen_branch_refused:
  assumes inv: "module_inv pred bc"
    and chosen: "fork_resolution_algo env (db_forks (bc_dbs bc)) (bc_current bc) invalid = Some (Some branch)"
    and run: "apply_rollback env branch bc = Some bc'"
  shows "branch \<noteq> [] \<and> bs_id (hd branch) = bs_id (bc_current bc) \<and>
    bc' = bc\<lparr>bc_dbs := bc_files bc, bc_invalid_forks := insert (hd branch) (bc_invalid_forks bc)\<rparr>"
proof -
  obtain k where k: "chain_inv pred (db_blockchain (bc_dbs bc)) k"
    "tied pred (db_blockchain (bc_dbs bc)) k (db_forks (bc_dbs bc)) (bc_current bc)"
    using inv by (auto simp: module_inv_def blocks_inv_def)
  obtain b where b: "fd_blocks (db_forks (bc_dbs bc)) (bc_current bc) = Some b"
    using chosen by (auto simp: fork_resolution_algo_def split: bind_splits)
  from chosen b obtain sheets where
    "choose_branch (e_profile env) (db_forks (bc_dbs bc)) (bc_current bc) (b_median_time (db_block b)) invalid
      sheets = Some (Some branch)"
    by (auto simp: fork_resolution_algo_def split: bind_splits)
  then obtain i t where branch: "get_fork_branch (fd_tree (db_forks (bc_dbs bc))) i = Some branch"
    and wins: "branch_wins (e_profile env) (bc_current bc) (b_median_time (db_block b)) branch t = Some True"
    using choose_branch_wins by metis
  have stored: "dal_blockstamp blk = Some s" if "fd_blocks (db_forks (bc_dbs bc)) s = Some blk" for s blk
    using k(2) that by (auto simp: tied_def stored_inv_def)
  have low: "branch \<noteq> [] \<and> 0 < bs_id (hd branch) \<and> bs_id (hd branch) \<le> bs_id (bc_current bc)"
  proof (cases "genuine_stamp pred (bc_current bc)")
    case True
    then show ?thesis by (rule winning_branch_low[OF k _ branch wins])
  next
    case False
    then have "k = 0" using k(2) by (auto simp: tied_def current_inv_def)
    then have "block_at (fd_tree (db_forks (bc_dbs bc))) i = None" for i
      using k(2) empty_tree(1) by (auto simp: tied_def main_inv_def Let_def)
    then show ?thesis using fork_branch_start[OF branch] by auto
  qed
  then have "apply_rollback env (hd branch # tl branch) bc = Some bc'" using run by simp
  from rollback_refused[OF stored _ _ this] low show ?thesis by auto
qed

lemma receive_block_moves:
  assumes run: "receive_block env b (bc, flags) = Some (bc', flags')" and b: "genuine pred b"
    and inv: "module_inv pred bc"
  shows "moves pred bc bc' \<and> (bc_current bc' \<noteq> bc_current bc \<longrightarrow> blockstamp_of b = Some (bc_current bc'))"
proof -
  obtain s where s: "blockstamp_of b = Some s" using b by (auto simp: genuine_def)
  from run s obtain r bc1 where check: "check_and_apply_block env b bc = Some (r, bc1)"
    by (auto simp: receive_block_def split: bind_splits)
  note keeps = checked_block[OF check b inv]
  then have bc1: "module_inv pred bc1" by blast
  have refused: ?thesis if "bc' = bc1" using that bc1 keeps by (simp add: moves_def)
  show ?thesis
  proof (cases r)
    case (Inl e)
    then show ?thesis using refused run s check by (simp add: receive_block_def)
  next
    case (Inr answer)
    show ?thesis
    proof (cases answer)
      case (ValidBlock reqs)
      with Inr run s check obtain s' dbs where s': "blockstamp_of (get_block_doc_copy (ar_block reqs)) = Some s'"
        and dbs: "apply_requests env (bc_currency_params bc1) reqs (bc_dbs bc1) = Some dbs"
        and bc': "bc' = bc1\<lparr>bc_current := s', bc_dbs := dbs,
          bc_events := bc_events bc1 @ [get_block_doc_copy (ar_block reqs)]\<rparr>"
        by (auto simp: receive_block_def Let_def split: bind_splits)
      from accepted_next[OF check[unfolded Inr ValidBlock] b s inv dbs] s' bc' s show ?thesis
        by (simp add: moves_def module_inv_def)
    next
      case ForkBlock
      with Inr run s check obtain branch where
        branch: "fork_resolution_algo env (db_forks (bc_dbs bc1)) (bc_current bc1) (bc_invalid_forks bc1) = Some branch"
        and rest: "(case branch of Some new_bc_branch \<Rightarrow> do { bc \<leftarrow> apply_rollback env new_bc_branch bc1; Some (bc, flags) }
           | None \<Rightarrow> Some (bc1, flags)) = Some (bc', flags')"
        by (auto simp: receive_block_def split: bind_splits)
      show ?thesis
      proof (cases branch)
        case None
        then show ?thesis using rest refused by simp
      next
        case (Some new_branch)
        then have "apply_rollback env new_branch bc1 = Some bc'" using rest by (auto split: bind_splits)
        from chosen_branch_refused[OF bc1 branch[unfolded Some] this]
        have "bc' = bc1\<lparr>bc_dbs := bc_files bc1, bc_invalid_forks := insert (hd new_branch) (bc_invalid_forks bc1)\<rparr>"
          by simp
        then show ?thesis using bc1 keeps by (simp add: moves_def module_inv_def)
      qed
    next
      case OrphanBlock
      then show ?thesis using refused run s check Inr by (simp add: receive_block_def)
    qed
  qed
qed

lemma save_databases_inv: "module_inv pred bc \<Longrightarrow> module_inv pred (save_databases flags bc)"
  by (simp add: save_databases_def module_inv_def Let_def)

lemma try_stackables_inv:
  assumes "try_stackables env blks bc = Some (applied, bc')" "\<forall>blk\<in>set blks. genuine pred (db_block blk)"
    and "module_inv pred bc"
  shows "module_inv pred bc'"
  using assms
proof (induction blks arbitrary: bc)
  case (Cons blk blks)
  from Cons.prems(1) obtain s r bc1 where s: "dal_blockstamp blk = Some s"
    and check: "check_and_apply_block env (db_block blk) bc = Some (r, bc1)"
    by (auto split: bind_splits)
  have s': "blockstamp_of (db_block blk) = Some s" using s by (simp add: dal_blockstamp_def)
  have blk: "genuine pred (db_block blk)" using Cons.prems(2) by simp
  have bc1: "module_inv pred bc1" using checked_block[OF check blk Cons.prems(3)] by blast
  show ?case
  proof (cases "\<exists>reqs. r = Inr (ValidBlock reqs)")
    case True
    then obtain reqs where reqs: "r = Inr (ValidBlock reqs)" by blast
    with Cons.prems(1) s check obtain dbs where
      dbs: "apply_requests env (bc_currency_params bc1) reqs (bc_dbs bc1) = Some dbs"
      and bc': "bc' = bc1\<lparr>bc_dbs := dbs, bc_current := s,
          bc_events := bc_events bc1 @ [get_block_doc_copy (ar_block reqs)]\<rparr>"
      by (auto split: bind_splits)
    from accepted_next[OF check[unfolded reqs] blk s' Cons.prems(3) dbs] bc' show ?thesis by simp
  next
    case False
    then have "try_stackables env blks bc1 = Some (applied, bc')"
      using Cons.prems(1) s check by (auto split: sum.splits check_return.splits)
    then show ?thesis using Cons.IH bc1 Cons.prems(2) by simp
  qed
qed simp

lemma stack_round_inv:
  assumes "stack_round env bc = Some (applied, bc')" "module_inv pred bc"
  shows "module_inv pred bc'"
proof (rule try_stackables_inv[OF assms(1)[unfolded stack_round_def] _ assms(2)], rule ballI)
  fix blk assume blk: "blk \<in> set (get_stackables_blocks (db_forks (bc_dbs bc)) (bc_current bc))"
  then obtain bs where "fd_orphans (db_forks (bc_dbs bc)) (bc_current bc) = Some bs" "blk \<in> set bs"
    by (cases "fd_orphans (db_forks (bc_dbs bc)) (bc_current bc)") (auto simp: get_stackables_blocks_def)
  moreover have "orphans_inv pred (fd_orphans (db_forks (bc_dbs bc)))"
    using assms(2) by (auto simp: module_inv_def blocks_inv_def tied_def)
  ultimately show "genuine pred (db_block blk)" unfolding orphans_inv_def by blast
qed

lemma apply_stackable_blocks_inv:
  assumes "apply_stackable_blocks env bc = Some bc'" "module_inv pred bc"
  shows "module_inv pred bc'"
proof -
  let ?P = "\<lambda>env bc bc'. module_inv pred bc \<longrightarrow> module_inv pred bc'"
  have "?P env bc bc'"
  proof (rule apply_stackable_blocks.raw_induct[where P = ?P, OF _ assms(1)], intro impI)
    fix loop env bc bc'
    assume ih: "\<And>env bc bc'. loop env bc = Some bc' \<Longrightarrow> module_inv pred bc \<longrightarrow> module_inv pred bc'"
      and step: "(if get_stackables_blocks (db_forks (bc_dbs bc)) (bc_current bc) = [] then Some bc
        else stack_round env bc \<bind> (\<lambda>(applied, bc). if applied then loop env bc
          else Some (bc\<lparr>bc_files := bc_dbs bc\<rparr>))) = Some bc'" and inv: "module_inv pred bc"
    show "module_inv pred bc'"
    proof (cases "get_stackables_blocks (db_forks (bc_dbs bc)) (bc_current bc) = []")
      case False
      with step obtain applied bc1 where round: "stack_round env bc = Some (applied, bc1)"
        and rest: "(if applied then loop env bc1 else Some (bc1\<lparr>bc_files := bc_dbs bc1\<rparr>)) = Some bc'"
        by (auto split: bind_splits)
      then have "module_inv pred bc1" using stack_round_inv inv by blast
      then show ?thesis using rest ih by (auto simp: module_inv_def split: if_splits)
    qed (use step inv in simp)
  qed
  then show ?thesis using assms(2) by blast
qed

text \<open>
  The runs of the module from empty databases: batches of received blocks, and orphans that follow
  the current block.
\<close>

inductive module_reach ::
  "('f, 'w) env \<Rightarrow> (blockstamp \<Rightarrow> hash) \<Rightarrow> ('f, 'w) bc_module \<Rightarrow> bool" for env pred where
  empty: "db_blockchain (bc_dbs bc) = Map.empty \<Longrightarrow>
    db_forks (bc_dbs bc) = \<lparr>fd_tree = tree_default, fd_blocks = Map.empty, fd_orphans = Map.empty\<rparr> \<Longrightarrow>
    bc_files bc = bc_dbs bc \<Longrightarrow> bc_current bc = blockstamp_default \<Longrightarrow> bc_events bc = [] \<Longrightarrow> module_reach env pred bc"
| blocks: "module_reach env pred bc \<Longrightarrow> receive_blocks env bs bc = Some bc' \<Longrightarrow> \<forall>b\<in>set bs. genuine pred b \<Longrightarrow>
    module_reach env pred bc'"
| stackables: "module_reach env pred bc \<Longrightarrow> apply_stackable_blocks env bc = Some bc' \<Longrightarrow> module_reach env pred bc'"

lemma empty_module_inv:
  "blocks_inv pred (Map.empty :: 'f local_blockchain) \<lparr>fd_tree = tree_default, fd_blocks = Map.empty, fd_orphans = Map.empty\<rparr> blockstamp_default"
proof -
  have "node_link tree_default i = None" for i
    by (simp add: node_link_def get_ref_node_def vec_get_def tree_default_def)
  then have "links_inv pred (Map.empty :: 'f local_blockchain) tree_default"
    by (simp add: links_inv_def block_at_link)
  moreover have "main_inv (Map.empty :: 'f local_blockchain) 0 \<lparr>fd_tree = tree_default, fd_blocks = Map.empty, fd_orphans = Map.empty\<rparr>"
    using fork_reach_wf[OF fork_reach.start] by (auto simp: main_inv_def Let_def on_chain_def stamp_at_def) (simp_all add: tree_default_def)
  ultimately have "tied pred (Map.empty :: 'f local_blockchain) 0 \<lparr>fd_tree = tree_default, fd_blocks = Map.empty, fd_orphans = Map.empty\<rparr>
      blockstamp_default"
    by (simp add: tied_def stored_inv_def orphans_inv_def current_inv_def stamp_at_def)
  moreover have "chain_inv pred (Map.empty :: 'f local_blockchain) 0" by (simp add: chain_inv_def)
  ultimately show ?thesis by (auto simp: blocks_inv_def)
qed

lemma reach_module_inv: "module_reach env pred bc \<Longrightarrow> module_inv pred bc"
proof (induction rule: module_reach.induct)
  case (empty bc)
  then show ?case
    using empty_module_inv by (simp add: module_inv_def announced_def)
next
  case (blocks bc bs bc')
  then obtain bc1 flags where run: "fold_run (receive_block env) bs
      (bc, \<lparr>sf_blocks = False, sf_wots = False, sf_currency = False\<rparr>) = Some (bc1, flags)"
    and bc': "bc' = save_databases flags bc1"
    by (auto simp: receive_blocks_def split: bind_splits)
  have "module_inv pred (fst (bc1, flags))"
  proof (rule fold_run_preserves[OF run, where P = "\<lambda>x. module_inv pred (fst x)"])
    fix b x y assume "b \<in> set bs" "module_inv pred (fst x)" "receive_block env b x = Some y"
    then show "module_inv pred (fst y)"
      using receive_block_moves[of env b "fst x" "snd x" "fst y" "snd y" pred] blocks.hyps(3) by (simp add: moves_def)
  qed (use blocks.IH in simp)
  then show ?case using bc' save_databases_inv by simp
next
  case (stackables bc bc')
  then show ?case using apply_stackable_blocks_inv by blast
qed

subsection \<open>Properties\<close>



text \<open>
  The blocks that the module announces to the others are one chain: the n-th event is the
  block with number n, every event carries the hash of the one before it, and the last one is the
  current block.
\<close>

theorem events_in_order:
  assumes "module_reach env pred bc"
  shows "\<exists>stamps. map blockstamp_of (bc_events bc) = map Some stamps \<and>
    (\<forall>i<length stamps. bs_id (stamps ! i) = i \<and>
      (0 < i \<longrightarrow> bs_hash (stamps ! (i - 1)) = pred (stamps ! i))) \<and>
    bc_current bc = (if stamps = [] then blockstamp_default else last stamps)"
proof -
  obtain stamps where "map blockstamp_of (bc_events bc) = map Some stamps"
    "\<forall>i<length stamps. genuine_stamp pred (stamps ! i) \<and> bs_id (stamps ! i) = i \<and>
       (0 < i \<longrightarrow> stamps ! (i - 1) = parent_of pred (stamps ! i))"
    "bc_current bc = (if stamps = [] then blockstamp_default else last stamps)"
    using reach_module_inv[OF assms] by (auto simp: module_inv_def announced_def)
  then show ?thesis by (intro exI[of _ stamps]) (auto simp: parent_of_def)
qed

text \<open>A run: the first block is received.\<close>

lemma genesis_run:
  fixes itc
  defines "env \<equiv> example_env itc"
  assumes "iterates itc"
  obtains bc where "receive_block env (genesis_block []) (new_module, \<lparr>sf_blocks = False, sf_wots = False, sf_currency = False\<rparr>) =
      Some (bc, \<lparr>sf_blocks = True, sf_wots = True, sf_currency = False\<rparr>)"
    "bc_current bc = Blockstamp 0 (Hash [7])" "map blockstamp_of (bc_events bc) = [Some (Blockstamp 0 (Hash [7]))]"
proof -
  from genesis_accepted[OF assms(2)] obtain reduced where reduced: "b_number reduced = 0" "b_hash reduced = Some (Hash [7])"
    and run: "check_and_apply_block env (genesis_block []) new_module =
      Some (Inr (ValidBlock (genesis_reqs reduced)), genesis_module)" unfolding env_def by blast
  from genesis_written[OF reduced] obtain dbs where dbs:
    "apply_requests env example_currency (genesis_reqs reduced) (bc_dbs genesis_module) = Some dbs"
    unfolding env_def by blast
  have stamps: "blockstamp_of (genesis_block []) = Some (Blockstamp 0 (Hash [7]))"
    "blockstamp_of reduced = Some (Blockstamp 0 (Hash [7]))"
    using reduced by (simp_all add: blockstamp_of_def genesis_block_def example_block_def)
  have params: "bc_currency_params genesis_module = example_currency" "bc_events genesis_module = []"
    by (simp_all add: genesis_module_def new_module_def)
  let ?bc = "genesis_module\<lparr>bc_current := Blockstamp 0 (Hash [7]), bc_dbs := dbs, bc_events := [reduced]\<rparr>"
  have "receive_block env (genesis_block []) (new_module, \<lparr>sf_blocks = False, sf_wots = False, sf_currency = False\<rparr>) =
      Some (?bc, \<lparr>sf_blocks = True, sf_wots = True, sf_currency = False\<rparr>)"
    using stamps run dbs params by (simp add: receive_block_def genesis_reqs_def one_member_def)
  then show thesis using that stamps by simp
qed

lemma hash_default_bytes: "bytes hash_default" "hash_default \<noteq> Hash [7]" "Hash [7] \<noteq> hash_default"
proof -
  show "bytes hash_default" by (simp add: bytes_def hash_default_def list_all_iff)
  have "length [7 :: nat] \<noteq> length (replicate 32 (0 :: nat))" by simp
  then have "[7 :: nat] \<noteq> replicate 32 0" by metis
  then show "hash_default \<noteq> Hash [7]" "Hash [7] \<noteq> hash_default" by (simp_all add: hash_default_def)
qed

lemma genesis_genuine: "genuine (\<lambda>_. hash_default) (genesis_block [])"
proof -
  have "b_previous_hash (genesis_block []) = hash_default" "blockstamp_of (genesis_block []) = Some (Blockstamp 0 (Hash [7]))"
    by (simp_all add: blockstamp_of_def genesis_block_def example_block_def)
  moreover have "genuine_stamp (\<lambda>_. hash_default) (Blockstamp 0 (Hash [7]))"
    using hash_default_bytes by (simp add: genuine_stamp_def) (simp add: bytes_def)
  ultimately show ?thesis by (simp add: genuine_def)
qed

lemma new_module_reach: "module_reach env pred new_module"
  by (rule module_reach.empty) (simp_all add: new_module_def no_databases_def)

lemma genesis_reach:
  assumes "iterates itc"
  obtains bc where "module_reach (example_env itc) (\<lambda>_. hash_default) bc"
    "bc_current bc = Blockstamp 0 (Hash [7])" "map blockstamp_of (bc_events bc) = [Some (Blockstamp 0 (Hash [7]))]"
proof -
  from genesis_run[OF assms] obtain bc where run: "receive_block (example_env itc) (genesis_block [])
      (new_module, \<lparr>sf_blocks = False, sf_wots = False, sf_currency = False\<rparr>) =
      Some (bc, \<lparr>sf_blocks = True, sf_wots = True, sf_currency = False\<rparr>)"
    and bc: "bc_current bc = Blockstamp 0 (Hash [7])" "map blockstamp_of (bc_events bc) = [Some (Blockstamp 0 (Hash [7]))]"
    by blast
  let ?bc = "save_databases \<lparr>sf_blocks = True, sf_wots = True, sf_currency = False\<rparr> bc"
  have "receive_blocks (example_env itc) [genesis_block []] new_module = Some ?bc"
    using run by (simp add: receive_blocks_def)
  then have "module_reach (example_env itc) (\<lambda>_. hash_default) ?bc"
    using module_reach.blocks[OF new_module_reach] genesis_genuine by fastforce
  then show thesis by (rule that) (use bc in \<open>simp_all add: save_databases_def Let_def\<close>)
qed



theorem events_in_order_witness:
  "\<exists>itc bc b. module_reach (example_env itc) (\<lambda>_. hash_default) bc \<and> bc_events bc = [b] \<and>
     blockstamp_of b = Some (bc_current bc)"
proof -
  obtain itc :: "(nat \<times> nat) set \<Rightarrow> (nat \<times> nat) list" where "iterates itc" using iterates_exists by blast
  then obtain bc where bc: "module_reach (example_env itc) (\<lambda>_. hash_default) bc"
    "bc_current bc = Blockstamp 0 (Hash [7])" "map blockstamp_of (bc_events bc) = [Some (Blockstamp 0 (Hash [7]))]"
    by (rule genesis_reach)
  from events_in_order[OF bc(1)] obtain stamps where stamps:
    "map blockstamp_of (bc_events bc) = map Some stamps" "bc_current bc = (if stamps = [] then blockstamp_default else last stamps)"
    by (elim exE conjE)
  then have "map Some stamps = map Some [Blockstamp 0 (Hash [7])]" using bc(3) by simp
  then have "stamps = [Blockstamp 0 (Hash [7])]" by auto
  then have "bc_current bc = Blockstamp 0 (Hash [7])" using stamps(2) by simp
  moreover obtain b where "bc_events bc = [b]" using bc(3) by auto
  ultimately show ?thesis using bc(1,3) by (intro exI[of _ itc] exI[of _ bc] exI[of _ b]) simp
qed

end
