(* ===== verification/Ws2p_Messages.thy ===== *)
theory Ws2p_Messages
  imports Block_Document Network_Peers
begin

unbundle bit_operations_syntax

text \<open>
  The messages of the peer to peer protocol, \<open>lib/modules/ws2p/ws2p-messages\<close>: the features and the
  flags of a connection (\<open>v2/api_features.rs\<close>, \<open>v2/connect.rs\<close>), the payloads (the other files of
  \<open>v2\<close>), the message that carries one, its signature and its reading (\<open>v2/mod.rs\<close>, \<open>lib.rs\<close>).

  The crate \<open>bincode\<close> is the record \<open>ws2p_bincode\<close>: the bytes of the fields of a message up to its
  payload, and the reader of a message. The two last fields are written out, since the code counts
  their bytes. The message is the provider of the contract \<open>binary_message\<close>.
\<close>

subsection \<open>Features and flags\<close>

text \<open>A test \<open>bytes[0] | others == 255\<close> of the flag that \<open>others\<close> leaves out.\<close>

definition flag_test :: "nat \<Rightarrow> nat list \<Rightarrow> bool run" where
  "flag_test others bytes = do { b \<leftarrow> first_of bytes; Some (b OR others = 255) }"

definition feature_def :: "nat list \<Rightarrow> bool run" where
  "feature_def features = flag_test 254 features"

definition feature_low :: "nat list \<Rightarrow> bool run" where
  "feature_low features = flag_test 253 features"

definition feature_abf :: "nat list \<Rightarrow> bool run" where
  "feature_abf features = flag_test 251 features"

text \<open>The assignment \<open>merged[0] &= others\<close>.\<close>

definition mask_first :: "nat \<Rightarrow> nat list \<Rightarrow> nat list run" where
  "mask_first others bytes = do { b \<leftarrow> first_of bytes; Some (bytes[0 := b AND others]) }"

text \<open>A feature that the local node has and the remote node has not is removed.\<close>

definition remove_unsupported ::
  "(nat list \<Rightarrow> bool run) \<Rightarrow> nat \<Rightarrow> nat list \<Rightarrow> nat list \<Rightarrow> nat list \<Rightarrow> nat list run" where
  "remove_unsupported feature others own remote merged = do {
     mine \<leftarrow> feature own;
     if \<not> mine then Some merged
     else do { theirs \<leftarrow> feature remote; if \<not> theirs then mask_first others merged else Some merged }
   }"

definition check_features_compatibility :: "nat list \<Rightarrow> nat list \<Rightarrow> (unit + nat list) run" where
  "check_features_compatibility own remote = do {
     let merged = own;
     merged \<leftarrow> remove_unsupported feature_def 254 own remote merged;
     merged \<leftarrow> remove_unsupported feature_low 253 own remote merged;
     merged \<leftarrow> remove_unsupported feature_abf 251 own remote merged;
     remote_low \<leftarrow> feature_low remote;
     if \<not> remote_low then Some (Inr merged)
     else do { own_low \<leftarrow> feature_low own; Some (if \<not> own_low then Inl () else Inr merged) }
   }"

definition connect_sync :: "nat list \<Rightarrow> bool run" where
  "connect_sync flags = flag_test 254 flags"

definition connect_ask_sync_chunk :: "nat list \<Rightarrow> bool run" where
  "connect_ask_sync_chunk flags = flag_test 253 flags"

definition connect_res_sync_chunk :: "nat list \<Rightarrow> bool run" where
  "connect_res_sync_chunk flags = flag_test 251 flags"

definition connect_client :: "nat list \<Rightarrow> bool run" where
  "connect_client flags = flag_test 247 flags"

datatype connect_type =
  Incoming | OutgoingClient | OutgoingServer | Sync "blockstamp option" | SyncAskChunk blockstamp | SyncSendChunks

fun flags_of_connect_type :: "connect_type \<Rightarrow> nat list" where
  "flags_of_connect_type Incoming = []"
| "flags_of_connect_type OutgoingServer = []"
| "flags_of_connect_type OutgoingClient = [8]"
| "flags_of_connect_type (Sync _) = [1]"
| "flags_of_connect_type (SyncAskChunk _) = [3]"
| "flags_of_connect_type SyncSendChunks = [5]"

definition connect_type_from_flags :: "nat list \<Rightarrow> blockstamp option \<Rightarrow> connect_type run" where
  "connect_type_from_flags flags blockstamp = do {
     sync \<leftarrow> (if \<not> flags_empty flags then connect_sync flags else Some False);
     if sync then do {
       ask \<leftarrow> connect_ask_sync_chunk flags;
       (case (ask, blockstamp) of
          (True, Some b) \<Rightarrow> Some (SyncAskChunk b)
        | _ \<Rightarrow> do {
            res \<leftarrow> connect_res_sync_chunk flags;
            Some (if res then SyncSendChunks else Sync blockstamp)
          })
     }
     else Some OutgoingServer
   }"

subsection \<open>Payloads\<close>

record connect_msg =
  cm_challenge :: hash
  cm_api_features :: "nat list"
  cm_flags_queries :: "nat list"
  cm_peer_card :: "peer_card_v11 option"
  cm_chunkstamp :: "blockstamp option"

definition generate_connect_message ::
  "connect_type \<Rightarrow> nat list \<Rightarrow> hash \<Rightarrow> peer_card_v11 option \<Rightarrow> connect_msg" where
  "generate_connect_message connect_type api_features challenge peer_card =
     \<lparr>cm_challenge = challenge, cm_api_features = api_features,
      cm_flags_queries = flags_of_connect_type connect_type, cm_peer_card = peer_card,
      cm_chunkstamp = (case connect_type of SyncAskChunk chunkstamp \<Rightarrow> Some chunkstamp | _ \<Rightarrow> None)\<rparr>"

record sync_target =
  st_target_blockstamp :: blockstamp
  st_chunks_hash :: "hash list"

record ok_msg =
  om_prefix :: "nat option"
  om_sync_target :: "sync_target option"

definition ok_msg_default :: ok_msg where
  "ok_msg_default = \<lparr>om_prefix = None, om_sync_target = None\<rparr>"

record member_proof =
  mp_pubkey :: pub_key
  mp_sig :: signature

record secret_flags_msg =
  sf_secret_flags :: "nat list"
  sf_member_proof :: "member_proof option"

definition low_flow_demand :: "nat list \<Rightarrow> bool run" where
  "low_flow_demand secret_flags = flag_test 254 secret_flags"

datatype request_body =
  ReqNone | ReqCurrent | ReqBlocksHashs nat nat | ReqChunk nat nat | ReqChunkByHash blockstamp | ReqWotPool nat nat

fun request_body_size :: "request_body \<Rightarrow> nat" where
  "request_body_size ReqNone = 1"
| "request_body_size ReqCurrent = 1"
| "request_body_size (ReqBlocksHashs _ _) = 7"
| "request_body_size (ReqChunk _ _) = 7"
| "request_body_size (ReqChunkByHash _) = 37"
| "request_body_size (ReqWotPool _ _) = 4"

record ws2p_request =
  rq_id :: nat
  rq_body :: request_body

definition request_size :: "ws2p_request \<Rightarrow> nat" where
  "request_size r = 4 + request_body_size (rq_body r)"

record compact_pool_membership =
  cpm_blockstamp :: blockstamp
  cpm_signature :: signature

record wot_pool_folder =
  wf_idty :: compact_identity
  wf_membership :: compact_pool_membership
  wf_certs :: "compact_certification list"

datatype 'f req_res_body =
  ResNone
| ResBadRequest ustring
| ResCurrent blockstamp
| ResBlocksHashs "hash list"
| ResChunk "'f block_document list"
| ResWotPool "compact_certification list" "wot_pool_folder list"

record 'f req_res =
  rr_id :: nat
  rr_body :: "'f req_res_body"

datatype 'f ws2p_payload =
  PConnect connect_msg
| PAck hash
| PSecretFlags secret_flags_msg
| POk ok_msg
| PKo nat
| PRequest ws2p_request
| PReqRes "'f req_res"
| PPeers "peer_card_v11 list"
| PHeadsV2 "head_v2 list"
| PHeadsV3 "head_v3 list"
| PBlocks "'f block_document list"
| PPendingIdentities "identity_document list"
| PPendingMemberships "membership_document list"
| PPendingCerts "certification_document list"
| PPendingRevocations "revocation_document list"
| PPendingTxs "transaction_document list"

subsection \<open>Messages\<close>

record 'f ws2p_v2_message =
  wm_currency_name :: ustring
  wm_issuer_node_id :: net_node_id
  wm_issuer_pubkey :: pub_key
  wm_payload :: "'f ws2p_payload"
  wm_message_hash :: "hash option"
  wm_signature :: "signature option"

datatype 'f ws2p_message = WS2P_V0 | WS2P_V1 | WS2P_V2 "'f ws2p_v2_message"

record ('f, 'e) ws2p_bincode =
  wb_head :: "ustring \<Rightarrow> net_node_id \<Rightarrow> pub_key \<Rightarrow> 'f ws2p_payload \<Rightarrow> nat list"
  wb_read :: "nat list \<Rightarrow> 'e + 'f ws2p_message"

text \<open>
  An absent field is the byte 0 and a present one follows the byte 1; a hash is its 32 bytes, a
  signature the four bytes of its algorithm and its 64 bytes.
\<close>

fun hash_field :: "hash option \<Rightarrow> nat list" where
  "hash_field None = [0]"
| "hash_field (Some h) = 1 # hash_bytes h"

fun sig_field :: "signature option \<Rightarrow> nat list" where
  "sig_field None = [0]"
| "sig_field (Some (SigEd25519 s)) = [1, 0, 0, 0, 0] @ s"
| "sig_field (Some SigSchnorr) = [1, 1, 0, 0, 0]"

definition ws2p_body :: "('f, 'e) ws2p_bincode \<Rightarrow> 'f ws2p_v2_message \<Rightarrow> nat list" where
  "ws2p_body wb m =
     wb_head wb (wm_currency_name m) (wm_issuer_node_id m) (wm_issuer_pubkey m) (wm_payload m) @
     hash_field (wm_message_hash m)"

definition ws2p_serialize :: "('f, 'e) ws2p_bincode \<Rightarrow> 'f ws2p_v2_message \<Rightarrow> nat list" where
  "ws2p_serialize wb m = ws2p_body wb m @ sig_field (wm_signature m)"

definition v2_bincode :: "('f, 'e) ws2p_bincode \<Rightarrow> ('f ws2p_v2_message, 'e) bincode" where
  "v2_bincode wb = \<lparr>bin_message = (\<lambda>m. Inr (ws2p_serialize wb m)), bin_hash = (\<lambda>h. Inr (hash_field h)),
     bin_sig = (\<lambda>s. Inr (sig_field s))\<rparr>"

definition v2_signable :: "'f ws2p_v2_message bin_signable" where
  "v2_signable = \<lparr>bs_issuer = wm_issuer_pubkey, bs_store_hash = (\<lambda>m. False), bs_hash_of = (\<lambda>m. None),
     bs_set_hash = (\<lambda>h m. m), bs_signature = wm_signature,
     bs_set_signature = (\<lambda>s m. m\<lparr>wm_signature := Some s\<rparr>)\<rparr>"

text \<open>Every operation on a message of a version below 2 panics.\<close>

fun ws2p_hash :: "'f ws2p_message \<Rightarrow> hash option run" where
  "ws2p_hash (WS2P_V2 m) = Some (wm_message_hash m)"
| "ws2p_hash _ = None"

fun ws2p_signature :: "'f ws2p_message \<Rightarrow> signature option run" where
  "ws2p_signature (WS2P_V2 m) = Some (bs_signature v2_signable m)"
| "ws2p_signature _ = None"

fun ws2p_verify ::
  "profile \<Rightarrow> crypto \<Rightarrow> ('f, 'e) ws2p_bincode \<Rightarrow> 'f ws2p_message \<Rightarrow> ('e sig_error + unit) run" where
  "ws2p_verify p c wb (WS2P_V2 m) = bin_verify p c (v2_bincode wb) v2_signable m"
| "ws2p_verify p c wb _ = None"

definition encapsulate_payload ::
  "profile \<Rightarrow> crypto \<Rightarrow> ('f, 'e) ws2p_bincode \<Rightarrow> ustring \<Rightarrow> net_node_id \<Rightarrow> key_pair \<Rightarrow> 'f ws2p_payload \<Rightarrow>
   ('e sign_error + 'f ws2p_message \<times> nat list) run" where
  "encapsulate_payload p c wb currency_name issuer_node_id issuer_keypair payload = do {
     pubkey \<leftarrow> public_key issuer_keypair;
     privkey \<leftarrow> private_key issuer_keypair;
     (r, msg) \<leftarrow> bin_sign p c (v2_bincode wb) v2_signable privkey
       \<lparr>wm_currency_name = currency_name, wm_issuer_node_id = issuer_node_id, wm_issuer_pubkey = pubkey,
        wm_payload = payload, wm_message_hash = None, wm_signature = None\<rparr>;
     Some (map_sum id (\<lambda>bin_msg. (WS2P_V2 msg, bin_msg)) r)
   }"

datatype 'e ws2p_message_error = DeserError 'e | InvalidHash | WsSigError "'e sig_error"

definition parse_and_check_bin_message ::
  "profile \<Rightarrow> crypto \<Rightarrow> ('f, 'e) ws2p_bincode \<Rightarrow> nat list \<Rightarrow> ('e ws2p_message_error + 'f ws2p_message) run" where
  "parse_and_check_bin_message p c wb bin_msg =
     try_then (Some (map_sum DeserError id (wb_read wb bin_msg))) (\<lambda>msg. do {
       hash \<leftarrow> ws2p_hash msg;
       let hash_len = 33;
       sig \<leftarrow> ws2p_signature msg;
       sig_len \<leftarrow> (case sig of
           Some (SigEd25519 _) \<Rightarrow> Some 69
         | Some SigSchnorr \<Rightarrow> None
         | None \<Rightarrow> Some 1);
       hash_ok \<leftarrow> (case hash of
           None \<Rightarrow> Some True
         | Some h \<Rightarrow> do {
             n \<leftarrow> usize_sub p (length bin_msg) hash_len;
             n \<leftarrow> usize_sub p n sig_len;
             if n \<le> length bin_msg then Some (c_sha256 c (take n bin_msg) = h) else None
           });
       if hash_ok
       then map_option (map_sum WsSigError (\<lambda>_. msg)) (ws2p_verify p c wb msg)
       else Some (Inl InvalidHash)
     })"

subsection \<open>Signed messages\<close>

interpretation w2: binary_message "v2_bincode wb" v2_signable "ws2p_body wb" for wb
  by unfold_locales (simp_all add: v2_bincode_def v2_signable_def ws2p_serialize_def ws2p_body_def)

definition unsigned_message :: "ustring \<Rightarrow> net_node_id \<Rightarrow> nat list \<Rightarrow> 'f ws2p_payload \<Rightarrow> 'f ws2p_v2_message" where
  "unsigned_message currency node pk payload =
     \<lparr>wm_currency_name = currency, wm_issuer_node_id = node, wm_issuer_pubkey = PubEd25519 pk,
      wm_payload = payload, wm_message_hash = None, wm_signature = None\<rparr>"

definition signed_message ::
  "crypto \<Rightarrow> ('f, 'e) ws2p_bincode \<Rightarrow> nat list \<Rightarrow> 'f ws2p_v2_message \<Rightarrow> 'f ws2p_v2_message" where
  "signed_message c wb sk m =
     m\<lparr>wm_signature := Some (SigEd25519 (c_ed25519_sign c sk (ws2p_body wb m)))\<rparr>"

lemma ws2p_body_unsigned [simp]: "ws2p_body wb (m\<lparr>wm_signature := s\<rparr>) = ws2p_body wb m"
  by (simp add: ws2p_body_def)

lemma signed_message_fields [simp]:
  "wm_payload (signed_message c wb sk m) = wm_payload m"
  "wm_issuer_pubkey (signed_message c wb sk m) = wm_issuer_pubkey m"
  "wm_issuer_node_id (signed_message c wb sk m) = wm_issuer_node_id m"
  "wm_message_hash (signed_message c wb sk m) = wm_message_hash m"
  "wm_signature (signed_message c wb sk m) = Some (SigEd25519 (c_ed25519_sign c sk (ws2p_body wb m)))"
  "ws2p_body wb (signed_message c wb sk m) = ws2p_body wb m"
  by (simp_all add: signed_message_def)

lemma unsigned_message_fields [simp]:
  "wm_payload (unsigned_message currency node pk payload) = payload"
  "wm_issuer_pubkey (unsigned_message currency node pk payload) = PubEd25519 pk"
  "wm_issuer_node_id (unsigned_message currency node pk payload) = node"
  "wm_message_hash (unsigned_message currency node pk payload) = None"
  by (simp_all add: unsigned_message_def)

text \<open>What a node writes: the message, and its serialization, which is never refused.\<close>

lemma encapsulate_payload_spec:
  "encapsulate_payload p c wb currency node (KeyPairEd25519 pk sk) payload =
     Some (Inr (WS2P_V2 (signed_message c wb sk (unsigned_message currency node pk payload)),
                ws2p_serialize wb (signed_message c wb sk (unsigned_message currency node pk payload))))"
proof -
  let ?m = "unsigned_message currency node pk payload"
  have m: "bs_signature v2_signable ?m = None" "bs_issuer v2_signable ?m = PubEd25519 pk"
    by (simp_all add: v2_signable_def unsigned_message_def)
  from w2.bin_sign_spec[OF m refl, of p c wb sk] show ?thesis
    by (auto simp: encapsulate_payload_def unsigned_message_def signed_message_def v2_signable_def v2_bincode_def)
qed

lemma encapsulate_schnorr: "encapsulate_payload p c wb currency node KeyPairSchnorr payload = None"
  by (simp add: encapsulate_payload_def)

lemma parse_v2:
  assumes "wb_read wb raw = Inr (WS2P_V2 m)" "wm_message_hash m = None"
    and "wm_issuer_pubkey m = PubEd25519 pk" "wm_signature m = Some (SigEd25519 s)"
  shows "parse_and_check_bin_message p c wb raw =
    Some (if c_ed25519_verify c pk (ws2p_body wb m) s then Inr (WS2P_V2 m) else Inl (WsSigError InvalidSig))"
  using assms w2.bin_without_sig_body[of p wb m]
  by (simp add: parse_and_check_bin_message_def bin_verify_def v2_signable_def)

text \<open>
  What a node sends, the others accept: a payload that is encapsulated and signed with a key pair is
  read back by \<open>parse_and_check_bin_message\<close> as the same payload of the same issuer, when bincode reads
  the signed message from its bytes. The bytes sent are the serialization of the message.
\<close>

theorem encapsulated_message_accepted:
  assumes "\<And>m. c_ed25519_verify c pk m (c_ed25519_sign c sk m)"
    and "\<And>s. let m = (unsigned_message currency node pk payload)\<lparr>wm_signature := Some (SigEd25519 s)\<rparr>
          in wb_read wb (ws2p_serialize wb m) = Inr (WS2P_V2 m)"
  shows "\<exists>m raw. encapsulate_payload p c wb currency node (KeyPairEd25519 pk sk) payload = Some (Inr (WS2P_V2 m, raw)) \<and>
    raw = ws2p_serialize wb m \<and>
    parse_and_check_bin_message p c wb raw = Some (Inr (WS2P_V2 m)) \<and>
    wm_payload m = payload \<and> wm_issuer_pubkey m = PubEd25519 pk \<and> wm_issuer_node_id m = node"
proof (intro exI conjI)
  let ?m = "signed_message c wb sk (unsigned_message currency node pk payload)"
  show "encapsulate_payload p c wb currency node (KeyPairEd25519 pk sk) payload =
      Some (Inr (WS2P_V2 ?m, ws2p_serialize wb ?m))"
    by (rule encapsulate_payload_spec)
  have "wb_read wb (ws2p_serialize wb ?m) = Inr (WS2P_V2 ?m)"
    using assms(2) by (simp add: signed_message_def Let_def)
  from parse_v2[OF this, of pk] show
    "parse_and_check_bin_message p c wb (ws2p_serialize wb ?m) = Some (Inr (WS2P_V2 ?m))"
    using assms(1) by simp
qed simp_all

definition toy_ws2p :: "nat ws2p_v2_message \<Rightarrow> (nat, unit) ws2p_bincode" where
  "toy_ws2p m = \<lparr>wb_head = (\<lambda>_ _ _ _. []),
     wb_read = (\<lambda>b. Inr (WS2P_V2 (m\<lparr>wm_signature := Some (SigEd25519 (drop 6 b))\<rparr>)))\<rparr>"

theorem encapsulated_message_accepted_witness:
  "\<exists>m raw. encapsulate_payload Release toy_crypto (toy_ws2p (unsigned_message [1] 2 [3] (PKo 4))) [1] 2
      (KeyPairEd25519 [3] [3]) (PKo 4) = Some (Inr (WS2P_V2 m, raw)) \<and>
    parse_and_check_bin_message Release toy_crypto (toy_ws2p (unsigned_message [1] 2 [3] (PKo 4))) raw =
      Some (Inr (WS2P_V2 m)) \<and> wm_payload m = PKo 4"
proof -
  let ?wb = "toy_ws2p (unsigned_message [1] 2 [3] (PKo 4))"
  have "let m = (unsigned_message [1] 2 [3] (PKo 4))\<lparr>wm_signature := Some (SigEd25519 s)\<rparr>
      in wb_read ?wb (ws2p_serialize ?wb m) = Inr (WS2P_V2 m)" for s
    by (simp add: toy_ws2p_def ws2p_serialize_def ws2p_body_def unsigned_message_def)
  with encapsulated_message_accepted[of toy_crypto "[3]" "[3]" "[1]" 2 "PKo 4" ?wb Release] show ?thesis
    by (auto simp: toy_crypto_def)
qed

text \<open>
  C32: A message is accepted only with the signature of its issuer: the issuer has an Ed25519 key, the
  signature verifies on all the bytes before it, the hash, when there is one, is that of the bytes
  received up to 33 bytes before the signature.
\<close>

theorem accepted_message_is_signed:
  assumes "parse_and_check_bin_message p c wb raw = Some (Inr msg)"
  shows "\<exists>m pk s. msg = WS2P_V2 m \<and> wb_read wb raw = Inr msg \<and> wm_issuer_pubkey m = PubEd25519 pk \<and>
    wm_signature m = Some (SigEd25519 s) \<and> c_ed25519_verify c pk (ws2p_body wb m) s \<and>
    (\<forall>h. wm_message_hash m = Some h \<longrightarrow> 102 \<le> length raw \<and> h = c_sha256 c (take (length raw - 102) raw))"
proof -
  from assms obtain m where m: "wb_read wb raw = Inr (WS2P_V2 m)" "msg = WS2P_V2 m"
    and v: "bin_verify p c (v2_bincode wb) v2_signable m = Some (Inr ())"
    by (cases "wb_read wb raw"; cases "projr (wb_read wb raw)")
      (auto simp: parse_and_check_bin_message_def map_sum_right
        split: bind_splits if_splits option.splits)
  from v obtain pk s where ps: "wm_issuer_pubkey m = PubEd25519 pk" "wm_signature m = Some (SigEd25519 s)"
      "c_ed25519_verify c pk (ws2p_body wb m) s"
    using w2.bin_without_sig_body[of p wb m]
    by (auto simp: bin_verify_def v2_signable_def split: option.splits pub_key.splits signature.splits if_splits)
  have "102 \<le> length raw \<and> h = c_sha256 c (take (length raw - 102) raw)" if h: "wm_message_hash m = Some h" for h
  proof -
    have "102 \<le> length raw"
      using assms m ps h by (cases p) (auto simp: parse_and_check_bin_message_def usize_sub_def v2_signable_def
          split: bind_splits if_splits)
    then show ?thesis
      using assms m ps h by (auto simp: parse_and_check_bin_message_def v2_signable_def split: if_splits)
  qed
  then show ?thesis using m ps by blast
qed

theorem accepted_message_is_signed_witness:
  "c_ed25519_verify toy_crypto [3] (ws2p_body (toy_ws2p (unsigned_message [1] 2 [3] (PKo 4)))
     (unsigned_message [1] 2 [3] (PKo 4))) [3, 0]"
proof -
  let ?m = "unsigned_message [1] 2 [3] (PKo 4)"
  have "parse_and_check_bin_message Release toy_crypto (toy_ws2p ?m) ([0, 1, 0, 0, 0, 0] @ [3, 0]) =
      Some (Inr (WS2P_V2 (?m\<lparr>wm_signature := Some (SigEd25519 [3, 0])\<rparr>)))"
    by (subst parse_v2[of _ _ "?m\<lparr>wm_signature := Some (SigEd25519 [3, 0])\<rparr>" "[3]" "[3, 0]"])
      (simp_all add: toy_ws2p_def unsigned_message_def toy_crypto_def ws2p_body_def)
  from accepted_message_is_signed[OF this] show ?thesis by auto
qed

text \<open>
  A few bytes stop the process of the node that reads them. A message of version 0 or 1, which
  bincode reads without error, and a message whose signature claims the Schnorr algorithm, make
  \<open>parse_and_check_bin_message\<close> panic before any signature is checked.
\<close>

theorem old_version_message_panics:
  assumes "wb_read wb raw = Inr msg"
    and "msg = WS2P_V0 \<or> msg = WS2P_V1 \<or> (\<exists>m. msg = WS2P_V2 m \<and> wm_signature m = Some SigSchnorr)"
  shows "parse_and_check_bin_message p c wb raw = None"
  using assms by (auto simp: parse_and_check_bin_message_def v2_signable_def)

theorem old_version_message_panics_witness:
  "parse_and_check_bin_message Release toy_crypto
     \<lparr>wb_head = (\<lambda>_ _ _ _. [] :: nat list), wb_read = (\<lambda>_. Inr WS2P_V0 :: unit + nat ws2p_message)\<rparr> [0, 0, 0, 0] = None"
  using old_version_message_panics[of "\<lparr>wb_head = (\<lambda>_ _ _ _. [] :: nat list), wb_read = (\<lambda>_. Inr WS2P_V0)\<rparr>" _ WS2P_V0]
  by simp

subsection \<open>Compatible features\<close>

text \<open>The flag of each test is one bit of the byte.\<close>

lemma byte_iff: "(b::nat) < 256 \<longleftrightarrow> take_bit 8 b = b"
  by (simp add: take_bit_nat_eq_self_iff)

lemma byte_or: "a < 256 \<Longrightarrow> b < 256 \<Longrightarrow> (a OR b :: nat) < 256"
  by (simp add: byte_iff)

lemma byte_and: "(b::nat) < 256 \<Longrightarrow> b AND m < 256"
  by (simp add: byte_iff bit_eq_iff bit_take_bit_iff bit_and_iff) blast

lemma below_8: "(\<forall>n<8. P n) \<longleftrightarrow> P 0 \<and> P 1 \<and> P 2 \<and> P 3 \<and> P 4 \<and> P 5 \<and> P 6 \<and> P (7::nat)"
  by (simp add: eval_nat_numeral All_less_Suc) blast

lemma byte_is_full:
  assumes "(x::nat) < 256" shows "x = 255 \<longleftrightarrow> (\<forall>n<8. bit x n)"
proof -
  have x: "x = take_bit 8 x" using assms by (simp add: byte_iff)
  have m: "(255::nat) = mask 8" by (simp add: mask_eq_exp_minus_1)
  have "x = 255 \<longleftrightarrow> (\<forall>n. bit (take_bit 8 x) n = bit (mask 8 :: nat) n)"
    unfolding m by (subst (1) x) (auto simp: bit_eq_iff)
  then show ?thesis by (auto simp: bit_take_bit_iff bit_mask_iff)
qed

lemma mask_bits:
  "(\<forall>n<8. bit (b OR (254::nat)) n) \<longleftrightarrow> bit b 0" "(\<forall>n<8. bit (b OR (253::nat)) n) \<longleftrightarrow> bit b 1"
  "(\<forall>n<8. bit (b OR (251::nat)) n) \<longleftrightarrow> bit b 2" 
  by (simp_all only: below_8 bit_or_iff) (simp_all add: bit_iff_odd)

lemma flag_bits:
  assumes "(b::nat) < 256"
  shows "b OR 254 = 255 \<longleftrightarrow> bit b 0" "b OR 253 = 255 \<longleftrightarrow> bit b 1" "b OR 251 = 255 \<longleftrightarrow> bit b 2"
  using assms by (simp_all only: byte_is_full byte_or mask_bits) 

lemma masked_bits:
  "bit (b AND (254::nat)) 0 \<longleftrightarrow> False" "bit (b AND (254::nat)) (Suc 0) \<longleftrightarrow> bit b (Suc 0)" "bit (b AND (254::nat)) 2 \<longleftrightarrow> bit b 2"
  "bit (b AND (253::nat)) 0 \<longleftrightarrow> bit b 0" "bit (b AND (253::nat)) (Suc 0) \<longleftrightarrow> False" "bit (b AND (253::nat)) 2 \<longleftrightarrow> bit b 2"
  "bit (b AND (251::nat)) 0 \<longleftrightarrow> bit b 0" "bit (b AND (251::nat)) (Suc 0) \<longleftrightarrow> bit b (Suc 0)" "bit (b AND (251::nat)) 2 \<longleftrightarrow> False"
  by (simp_all only: bit_and_iff) (simp_all add: bit_iff_odd)
lemma features_empty_panic:
  "own = [] \<or> remote = [] \<Longrightarrow> check_features_compatibility own remote = None"
  by (auto simp: check_features_compatibility_def remove_unsupported_def feature_def_def feature_low_def feature_abf_def
      flag_test_def first_of_def mask_first_def Let_def split: bind_splits)

text \<open>
  The features of a connection are those that both nodes have: unless the remote node asks for the
  low flow that the local one does not offer, DEF, LOW and ABF are each kept when both have them and
  the other bytes are those of the local node. An empty vector of features, the default of a CONNECT
  message, panics instead of meaning no feature.
\<close>

theorem features_merged:
  assumes "\<forall>b \<in> set (own @ remote). b < 256"
  shows "(check_features_compatibility own remote = None \<longleftrightarrow> own = [] \<or> remote = []) \<and>
    (check_features_compatibility own remote = Some (Inl ()) \<longleftrightarrow>
       feature_low remote = Some True \<and> feature_low own = Some False) \<and>
    (\<forall>merged. check_features_compatibility own remote = Some (Inr merged) \<longrightarrow>
       length merged = length own \<and> tl merged = tl own \<and>
       feature_def merged = Some (feature_def own = Some True \<and> feature_def remote = Some True) \<and>
       feature_low merged = Some (feature_low own = Some True \<and> feature_low remote = Some True) \<and>
       feature_abf merged = Some (feature_abf own = Some True \<and> feature_abf remote = Some True))"
proof (cases "own = [] \<or> remote = []")
  case True
  then show ?thesis
    by (auto simp: features_empty_panic feature_low_def flag_test_def first_of_def)
next
  case False
  then obtain b bs r rs where own: "own = b # bs" and remote: "remote = r # rs" by (auto simp: neq_Nil_conv)
  have b: "b < 256" "r < 256" using assms own remote by simp_all
  show ?thesis
    using b by (simp add: own remote check_features_compatibility_def remove_unsupported_def feature_def_def
        feature_low_def feature_abf_def flag_test_def first_of_def mask_first_def Let_def flag_bits
        byte_and masked_bits)
qed

theorem features_merged_witness:
  "check_features_compatibility [7] [5] = Some (Inr [5]) \<and> feature_low [5] = Some False"
proof -
  have "check_features_compatibility [7] [5] = Some (Inr [5])" by code_simp
  then show ?thesis
    using features_merged[of "[7]" "[5]"] by (auto simp: feature_low_def flag_test_def first_of_def flag_bits)
qed

end
