(* ===== verification/Ws2p_Protocol.thy ===== *)
theory Ws2p_Protocol
  imports Ws2p_Messages
begin

text \<open>
  One connection of the peer to peer protocol: the controller of \<open>lib/modules/ws2p/ws2p-protocol\<close>
  (\<open>controller.rs\<close>, \<open>controller/on_open.rs\<close>, \<open>controller/on_message.rs\<close> and its handlers) and the
  handler of a websocket that drives it, \<open>lib/modules/ws2p/ws2p/src/controllers/handler.rs\<close>.

  The channel to the orchestrator is the list of the messages sent, or \<open>None\<close> once its receiver is
  gone. A reading of the clock is an argument, in nanoseconds since the epoch, and so are the results
  of the calls of the websocket crate. Log lines are left out.
\<close>

subsection \<open>The state of a connection\<close>

datatype conn_state =
  NeverTry | TryToOpenWS | WSError | TryToSendConnectMsg | Unreachable | WaitingConnectMsg | NoResponse
| NegociationTimeout | ConnectMessOk | OkMsgOkWaitingAckMsg | AckMsgOk | SecretFlagsOkWaitingAckMsg | SecretFlagsOk
| Denial | Close | Established

definition negotiation_timeout_secs :: nat where "negotiation_timeout_secs = 15"
definition expire_timeout_secs :: nat where "expire_timeout_secs = 120"
definition spam_interval_value :: nat where "spam_interval_value = 80"
definition spam_limit :: nat where "spam_limit = 6"
definition invalid_msgs_limit :: nat where "invalid_msgs_limit = 5"

record self_node =
  my_node_id :: net_node_id
  my_key_pair :: key_pair
  my_features :: "nat list"

definition self_full_id :: "self_node \<Rightarrow> node_full_id run" where
  "self_full_id n = do { k \<leftarrow> public_key (my_key_pair n); Some (my_node_id n, k) }"

record remote_node_datas =
  rn_challenge :: hash
  rn_current_blockstamp :: "blockstamp option"
  rn_peer_card :: "peer_card_v11 option"
  rn_remote_full_id :: node_full_id

record meta_datas =
  md_challenge :: hash
  md_connect_type :: connect_type
  md_count_invalid_msgs :: nat
  md_currency :: ustring
  md_creation_time :: nat
  md_features :: "nat list option"
  md_last_mess_time :: nat
  md_local_node :: self_node
  md_remote_connect_type :: "connect_type option"
  md_remote_node :: "remote_node_datas option"
  md_spam_interval :: bool
  md_spam_counter :: nat
  md_state :: conn_state

definition meta_datas_new :: "nat \<Rightarrow> nat \<Rightarrow> hash \<Rightarrow> connect_type \<Rightarrow> ustring \<Rightarrow> self_node \<Rightarrow> meta_datas" where
  "meta_datas_new now1 now2 challenge connect_type currency local_node =
     \<lparr>md_challenge = challenge, md_connect_type = connect_type, md_count_invalid_msgs = 0, md_currency = currency,
      md_creation_time = now1, md_features = None, md_last_mess_time = now2, md_local_node = local_node,
      md_remote_connect_type = None, md_remote_node = None, md_spam_interval = False, md_spam_counter = 0,
      md_state = TryToOpenWS\<rparr>"

subsection \<open>Websocket\<close>

datatype websocket_message = WsBin "nat list" | WsStr ustring

datatype websocket_incoming_event =
  OnOpen "nat option" | OnMessage websocket_message | OnClose nat "ustring option"

datatype websocket_action = ConnectTo ustring | SendMessage websocket_message | CloseConnection "ustring option"

record action_order =
  ao_ws_action :: websocket_action
  ao_new_state_if_success :: "conn_state option"
  ao_new_state_if_fail :: conn_state

definition order_close_with_reason :: "ustring option \<Rightarrow> action_order" where
  "order_close_with_reason reason =
     \<lparr>ao_ws_action = CloseConnection reason, ao_new_state_if_success = Some Close, ao_new_state_if_fail = Unreachable\<rparr>"

definition order_close :: action_order where
  "order_close = order_close_with_reason None"

subsection \<open>The controller\<close>

datatype controller_id = ClientId "node_full_id option" | IncomingId | OutgoingId "node_full_id option"

fun expected_remote_full_id :: "controller_id \<Rightarrow> node_full_id option" where
  "expected_remote_full_id (ClientId i) = i"
| "expected_remote_full_id (OutgoingId i) = i"
| "expected_remote_full_id IncomingId = None"

datatype 'f controller_event =
  NewConnEstablished connect_type node_full_id
| StateChange conn_state
| RecvValidMsg "'f ws2p_message"

datatype ('f, 'm) orchestrator_msg =
  ControllerSender "action_order list"
| ControllerEvent controller_id "'f controller_event"
| OrchestratorModuleMessage 'm

record ('f, 'm) ws2p_controller =
  wc_id :: controller_id
  wc_orchestrator :: "('f, 'm) orchestrator_msg list option"
  wc_meta :: meta_datas
  wc_receiver :: "action_order list"

datatype process_error = OrchestratorUnreacheable

text \<open>The new channel is empty.\<close>

definition controller_try_new ::
  "controller_id \<Rightarrow> meta_datas \<Rightarrow> ('f, 'm) orchestrator_msg list option \<Rightarrow> unit + ('f, 'm) ws2p_controller" where
  "controller_try_new i meta orchestrator = (case orchestrator of
      None \<Rightarrow> Inl ()
    | Some log \<Rightarrow> Inr \<lparr>wc_id = i, wc_orchestrator = Some (log @ [ControllerSender []]), wc_meta = meta,
        wc_receiver = []\<rparr>)"

text \<open>
  The orders that wait in the channel: the loop ends only when every sender is gone, \<open>None\<close> is a call that
  never returns.
\<close>

definition get_pending_ws_actions :: "bool \<Rightarrow> ('f, 'm) ws2p_controller \<Rightarrow> action_order list option" where
  "get_pending_ws_actions sender_alive c = (if sender_alive then None else Some (wc_receiver c))"

definition conn_state_of :: "('f, 'm) ws2p_controller \<Rightarrow> conn_state" where
  "conn_state_of c = md_state (wc_meta c)"

abbreviation set_meta :: "(meta_datas \<Rightarrow> meta_datas) \<Rightarrow> ('f, 'm) ws2p_controller \<Rightarrow> ('f, 'm) ws2p_controller" where
  "set_meta f c \<equiv> c\<lparr>wc_meta := f (wc_meta c)\<rparr>"

definition set_state :: "conn_state \<Rightarrow> ('f, 'm) ws2p_controller \<Rightarrow> ('f, 'm) ws2p_controller" where
  "set_state s c = set_meta (md_state_update (\<lambda>_. s)) c"

definition send_event ::
  "'f controller_event \<Rightarrow> ('f, 'm) ws2p_controller \<Rightarrow> (process_error + unit) \<times> ('f, 'm) ws2p_controller" where
  "send_event event c = (case wc_orchestrator c of
      Some log \<Rightarrow> (Inr (), c\<lparr>wc_orchestrator := Some (log @ [ControllerEvent (wc_id c) event])\<rparr>)
    | None \<Rightarrow> (if conn_state_of c \<noteq> Close then Inl OrchestratorUnreacheable else Inr (), c))"

definition update_conn_state ::
  "conn_state \<Rightarrow> ('f, 'm) ws2p_controller \<Rightarrow> (process_error + unit) \<times> ('f, 'm) ws2p_controller" where
  "update_conn_state new_state c = send_event (StateChange new_state) (set_state new_state c)"

text \<open>\<open>duration_since\<close> is an error when the clock went back, and the code unwraps it.\<close>

definition duration_since :: "nat \<Rightarrow> nat \<Rightarrow> nat run" where
  "duration_since now earlier = (if earlier \<le> now then Some (now - earlier) else None)"

definition as_secs :: "nat \<Rightarrow> nat" where
  "as_secs ns = ns div 1000000000"

definition check_timeouts :: "nat \<Rightarrow> ('f, 'm) ws2p_controller \<Rightarrow> action_order option run" where
  "check_timeouts now c =
     (if conn_state_of c = Established then do {
        d \<leftarrow> duration_since now (md_last_mess_time (wc_meta c));
        Some (if as_secs d > expire_timeout_secs
              then Some \<lparr>ao_ws_action = CloseConnection (Some (ascii ''Closing due to inactivity.'')),
                ao_new_state_if_success = Some Close, ao_new_state_if_fail = Unreachable\<rparr>
              else None)
      }
      else do {
        d \<leftarrow> duration_since now (md_creation_time (wc_meta c));
        Some (if as_secs d > negotiation_timeout_secs
              then Some \<lparr>ao_ws_action = CloseConnection (Some (ascii ''Negociation timeout.'')),
                ao_new_state_if_success = Some Close, ao_new_state_if_fail = Unreachable\<rparr>
              else None)
      })"

text \<open>The answer of a handler, with the state it leaves.\<close>

type_synonym ('f, 'm) answer = "((process_error + action_order option) \<times> ('f, 'm) ws2p_controller) run"

definition close_with_reason :: "string \<Rightarrow> conn_state \<Rightarrow> action_order option" where
  "close_with_reason reason new_state =
     Some \<lparr>ao_ws_action = CloseConnection (Some (ascii reason)), ao_new_state_if_success = Some new_state,
       ao_new_state_if_fail = new_state\<rparr>"

text \<open>
  A message of the local node, ordered to the websocket; a failure of the signature is fatal.
\<close>

definition order_payload ::
  "profile \<Rightarrow> crypto \<Rightarrow> ('f, 'e) ws2p_bincode \<Rightarrow> 'f ws2p_payload \<Rightarrow> conn_state \<Rightarrow> ('f, 'm) ws2p_controller \<Rightarrow>
   action_order run" where
  "order_payload p cr wb payload success_state c = do {
     r \<leftarrow> encapsulate_payload p cr wb (md_currency (wc_meta c)) (my_node_id (md_local_node (wc_meta c)))
       (my_key_pair (md_local_node (wc_meta c))) payload;
     (case r of
        Inr (_, bin_msg) \<Rightarrow> Some \<lparr>ao_ws_action = SendMessage (WsBin bin_msg),
          ao_new_state_if_success = Some success_state, ao_new_state_if_fail = Unreachable\<rparr>
      | Inl _ \<Rightarrow> None)
   }"

definition on_open ::
  "profile \<Rightarrow> crypto \<Rightarrow> ('f, 'e) ws2p_bincode \<Rightarrow> nat option \<Rightarrow> ('f, 'm) ws2p_controller \<Rightarrow> ('f, 'm) answer" where
  "on_open p cr wb remote_addr_opt c =
     and_then (Some (update_conn_state TryToSendConnectMsg c)) (\<lambda>_ c. do {
       let connect_msg = generate_connect_message (md_connect_type (wc_meta c))
         (my_features (md_local_node (wc_meta c))) (md_challenge (wc_meta c)) None;
       order \<leftarrow> order_payload p cr wb (PConnect connect_msg) WaitingConnectMsg c;
       Some (Inr (Some order), c)
     })"

subsection \<open>Negotiation messages\<close>

text \<open>
  The orders that \<open>close_with_reason\<close> makes for unexpected flags, for an unexpected CONNECT and for
  unsupported features are dropped by the code: nothing is written for them.
\<close>

definition process_connect_msg ::
  "profile \<Rightarrow> crypto \<Rightarrow> ('f, 'e) ws2p_bincode \<Rightarrow> node_full_id \<Rightarrow> connect_msg \<Rightarrow> ('f, 'm) ws2p_controller \<Rightarrow>
   ('f, 'm) answer" where
  "process_connect_msg p cr wb remote_full_id connect_msg c = do {
     let remote_challenge = cm_challenge connect_msg;
     let remote_node_datas = \<lparr>rn_challenge = cm_challenge connect_msg, rn_current_blockstamp = None,
       rn_peer_card = None, rn_remote_full_id = remote_full_id\<rparr>;
     r \<leftarrow> (if conn_state_of c = WaitingConnectMsg then
         (if md_connect_type (wc_meta c) = Incoming then do {
            connect_type \<leftarrow> connect_type_from_flags (cm_flags_queries connect_msg) (cm_chunkstamp connect_msg);
            Some (Inr (set_meta (\<lambda>m. m\<lparr>md_remote_node := Some remote_node_datas,
              md_remote_connect_type := Some connect_type\<rparr>) c))
          }
          else do {
            expected_full_id \<leftarrow> expected_remote_full_id (wc_id c);
            if remote_full_id = expected_full_id
            then Some (Inr (set_meta (\<lambda>m. m\<lparr>md_remote_node := Some remote_node_datas,
              md_remote_connect_type := Some Incoming\<rparr>) c))
            else Some (Inl (close_with_reason ''Unexpected PUBKEY or NODE_ID !'' Denial))
          })
       else Some (Inr c));
     (case r of
        Inl order \<Rightarrow> Some (Inr order, c)
      | Inr c \<Rightarrow> do {
          merged \<leftarrow> check_features_compatibility (my_features (md_local_node (wc_meta c)))
            (cm_api_features connect_msg);
          let c = (case merged of
            Inr features \<Rightarrow> set_meta (md_features_update (\<lambda>_. Some features)) c
          | Inl _ \<Rightarrow> c);
          order \<leftarrow> order_payload p cr wb (PAck remote_challenge) ConnectMessOk c;
          Some (Inr (Some order), c)
        })
   }"

definition process_ack ::
  "profile \<Rightarrow> crypto \<Rightarrow> ('f, 'e) ws2p_bincode \<Rightarrow> hash \<Rightarrow> conn_state \<Rightarrow> ('f, 'm) ws2p_controller \<Rightarrow>
   ('f, 'm) answer" where
  "process_ack p cr wb ack_msg_challenge success_status c =
     (if md_challenge (wc_meta c) \<noteq> ack_msg_challenge
      then and_then (Some (update_conn_state Denial c)) (\<lambda>_ c. Some (Inr None, c))
      else do {
        order \<leftarrow> order_payload p cr wb (POk ok_msg_default) success_status c;
        Some (Inr (Some order), c)
      })"

definition process_ack_msg ::
  "profile \<Rightarrow> crypto \<Rightarrow> ('f, 'e) ws2p_bincode \<Rightarrow> hash \<Rightarrow> ('f, 'm) ws2p_controller \<Rightarrow> ('f, 'm) answer" where
  "process_ack_msg p cr wb ack_msg_challenge c = (case conn_state_of c of
      OkMsgOkWaitingAckMsg \<Rightarrow> process_ack p cr wb ack_msg_challenge Established c
    | ConnectMessOk \<Rightarrow> process_ack p cr wb ack_msg_challenge AckMsgOk c
    | _ \<Rightarrow> Some (Inr (close_with_reason ''Unexpected ACK message !'' Denial), c))"

definition process_secret_flags_msg ::
  "secret_flags_msg \<Rightarrow> ('f, 'm) ws2p_controller \<Rightarrow> ('f, 'm) answer" where
  "process_secret_flags_msg secret_flags c = (case conn_state_of c of
      ConnectMessOk \<Rightarrow>
        and_then (Some (update_conn_state SecretFlagsOkWaitingAckMsg c)) (\<lambda>_ c. Some (Inr None, c))
    | AckMsgOk \<Rightarrow> and_then (Some (update_conn_state SecretFlagsOk c)) (\<lambda>_ c. Some (Inr None, c))
    | _ \<Rightarrow> Some (Inr (close_with_reason ''Unexpected SECRET_FLAGS message !'' Denial), c))"

definition established_event :: "('f, 'm) ws2p_controller \<Rightarrow> 'f controller_event run" where
  "established_event c = do {
     conn_type \<leftarrow> (if md_connect_type (wc_meta c) \<noteq> Incoming then Some (md_connect_type (wc_meta c))
       else md_remote_connect_type (wc_meta c));
     remote_node \<leftarrow> md_remote_node (wc_meta c);
     Some (NewConnEstablished conn_type (rn_remote_full_id remote_node))
   }"

definition process_ok_msg :: "('f, 'm) ws2p_controller \<Rightarrow> ('f, 'm) answer" where
  "process_ok_msg c =
     (if conn_state_of c \<in> {ConnectMessOk, SecretFlagsOkWaitingAckMsg} then
        and_then (Some (update_conn_state OkMsgOkWaitingAckMsg c)) (\<lambda>_ c. Some (Inr None, c))
      else if conn_state_of c \<in> {AckMsgOk, SecretFlagsOk} then do {
        let c = set_state Established c;
        event \<leftarrow> established_event c;
        and_then (Some (send_event event c)) (\<lambda>_ c. Some (Inr None, c))
      }
      else Some (Inr (close_with_reason ''Unexpected OK message !'' Denial), c))"

subsection \<open>Reception\<close>

text \<open>The three readings of the clock are those of the call; the last one is after the sleep.\<close>

definition check_spam :: "nat \<Rightarrow> nat \<Rightarrow> meta_datas \<Rightarrow> meta_datas run" where
  "check_spam now1 now2 m = do {
     let m = m\<lparr>md_last_mess_time := now1\<rparr>;
     d \<leftarrow> duration_since now2 (md_last_mess_time m);
     Some (if d > spam_interval_value * 1000000000
       then (if md_spam_interval m then m\<lparr>md_spam_counter := md_spam_counter m + 1\<rparr>
             else m\<lparr>md_spam_interval := True, md_spam_counter := 2\<rparr>)
       else m\<lparr>md_spam_interval := False, md_spam_counter := 0\<rparr>)
   }"

definition process_payload ::
  "profile \<Rightarrow> crypto \<Rightarrow> ('f, 'e) ws2p_bincode \<Rightarrow> 'f ws2p_v2_message \<Rightarrow> ('f, 'm) ws2p_controller \<Rightarrow>
   ('f, 'm) answer" where
  "process_payload p cr wb msg c = (case wm_payload msg of
      PConnect connect_msg \<Rightarrow>
        process_connect_msg p cr wb (wm_issuer_node_id msg, wm_issuer_pubkey msg) connect_msg c
    | PAck challenge \<Rightarrow> process_ack_msg p cr wb challenge c
    | PSecretFlags secret_flags \<Rightarrow> process_secret_flags_msg secret_flags c
    | POk _ \<Rightarrow> process_ok_msg c
    | PKo _ \<Rightarrow> Some (Inr (close_with_reason ''Receive Ko message !'' Denial), c)
    | _ \<Rightarrow>
        (if conn_state_of c = Established
         then and_then (Some (send_event (RecvValidMsg (WS2P_V2 msg)) c)) (\<lambda>_ c. Some (Inr None, c))
         else Some (Inr (close_with_reason ''Receive datas message on negociation !'' Denial), c)))"

definition on_message ::
  "profile \<Rightarrow> crypto \<Rightarrow> ('f, 'e) ws2p_bincode \<Rightarrow> nat \<times> nat \<times> nat \<Rightarrow> websocket_message \<Rightarrow>
   ('f, 'm) ws2p_controller \<Rightarrow> ('f, 'm) answer" where
  "on_message p cr wb = (\<lambda>(now1, now2, now3) msg c. do {
     meta \<leftarrow> check_spam now1 now2 (wc_meta c);
     let c = c\<lparr>wc_meta := meta\<rparr>;
     if md_spam_counter meta \<ge> spam_limit
     then Some (Inr None, set_meta (md_last_mess_time_update (\<lambda>_. now3)) c)
     else (case msg of
         WsBin bin_msg \<Rightarrow> do {
           r \<leftarrow> parse_and_check_bin_message p cr wb bin_msg;
           (case r of
              Inr (WS2P_V2 msg_v2) \<Rightarrow> process_payload p cr wb msg_v2 c
            | Inr _ \<Rightarrow> None
            | Inl _ \<Rightarrow>
                (let c = set_meta (\<lambda>m. m\<lparr>md_count_invalid_msgs := md_count_invalid_msgs m + 1\<rparr>) c
                 in Some (Inr (if md_count_invalid_msgs (wc_meta c) \<ge> invalid_msgs_limit
                   then close_with_reason ''Receive several invalid messages !'' Denial else None), c)))
         }
       | WsStr _ \<Rightarrow> Some (Inr (close_with_reason ''Receive str message !'' Denial), c))
   })"

definition controller_process ::
  "profile \<Rightarrow> crypto \<Rightarrow> ('f, 'e) ws2p_bincode \<Rightarrow> nat \<times> nat \<times> nat \<Rightarrow> websocket_incoming_event \<Rightarrow>
   ('f, 'm) ws2p_controller \<Rightarrow> ('f, 'm) answer" where
  "controller_process p cr wb clock event c = (case event of
      OnOpen remote_addr \<Rightarrow> on_open p cr wb remote_addr c
    | OnMessage msg \<Rightarrow> on_message p cr wb clock msg c
    | OnClose close_code reason \<Rightarrow> and_then (Some (update_conn_state Close c)) (\<lambda>_ c. Some (Inr None, c)))"

end
