(* ===== verification/Ws2p_Handler.thy ===== *)
theory Ws2p_Handler
  imports Ws2p_Protocol
begin

text \<open>
  The handler of a websocket, \<open>lib/modules/ws2p/ws2p/src/controllers/handler.rs\<close>, which gives what
  happens on the websocket to the controller of the connection and executes its orders, and what holds
  of a connection whatever its peer sends.

  The calls of the websocket crate are recorded in a list, and their results are an argument.
\<close>

subsection \<open>The handler\<close>

datatype ws_call = WsSend websocket_message | WsClose ustring | WsTimeout nat

record ('f, 'm) ws2p_handler =
  wh_calls :: "ws_call list"
  wh_remote_addr :: "nat option"
  wh_controller :: "('f, 'm) ws2p_controller"

record ws_results =
  ws_send_ok :: bool
  ws_close_ok :: bool
  ws_timeout_ok :: bool

definition ws_call_done :: "bool \<Rightarrow> ws_call \<Rightarrow> ('f, 'm) ws2p_handler \<Rightarrow> (unit + unit) \<times> ('f, 'm) ws2p_handler" where
  "ws_call_done ok call h = (if ok then Inr () else Inl (), h\<lparr>wh_calls := wh_calls h @ [call]\<rparr>)"

definition error_text :: "process_error \<Rightarrow> ustring" where
  "error_text _ = ascii ''WS2P Orchestrator unreachable''"

definition exec_ws_action ::
  "ws_results \<Rightarrow> action_order \<Rightarrow> ('f, 'm) ws2p_handler \<Rightarrow> ((unit + unit) \<times> ('f, 'm) ws2p_handler) run" where
  "exec_ws_action env order h = (case ao_ws_action order of
      ConnectTo _ \<Rightarrow> None
    | SendMessage msg \<Rightarrow>
        (let (sent, h) = ws_call_done (ws_send_ok env) (WsSend msg) h in
         (case sent of
            Inr _ \<Rightarrow>
              (case ao_new_state_if_success order of
                 Some new_state \<Rightarrow>
                   (let (r, c) = update_conn_state new_state (wh_controller h); h = h\<lparr>wh_controller := c\<rparr>
                    in (case r of
                          Inl e \<Rightarrow> Some (ws_call_done (ws_close_ok env) (WsClose (error_text e)) h)
                        | Inr _ \<Rightarrow> Some (Inr (), h)))
               | None \<Rightarrow> Some (Inr (), h))
          | Inl _ \<Rightarrow>
              (let (_, c) = update_conn_state (ao_new_state_if_fail order) (wh_controller h)
               in Some (ws_call_done (ws_close_ok env) (WsClose (ascii ''Fail to send message !''))
                    (h\<lparr>wh_controller := c\<rparr>)))))
    | CloseConnection reason \<Rightarrow>
        (let (closed, h) = ws_call_done (ws_close_ok env)
            (WsClose (case reason of Some s \<Rightarrow> s | None \<Rightarrow> ascii ''unknown reason'')) h in
         (case closed of
            Inr _ \<Rightarrow>
              (case ao_new_state_if_success order of
                 Some new_state \<Rightarrow>
                   Some (Inr (), h\<lparr>wh_controller := snd (update_conn_state new_state (wh_controller h))\<rparr>)
               | None \<Rightarrow> Some (Inr (), h))
          | Inl e \<Rightarrow>
              Some (Inl e, h\<lparr>wh_controller := snd (update_conn_state (ao_new_state_if_fail order) (wh_controller h))\<rparr>))))"

definition exec_order_opt ::
  "ws_results \<Rightarrow> action_order option \<Rightarrow> ('f, 'm) ws2p_handler \<Rightarrow> ((unit + unit) \<times> ('f, 'm) ws2p_handler) run" where
  "exec_order_opt env order_opt h = (case order_opt of
      Some order \<Rightarrow> exec_ws_action env order h
    | None \<Rightarrow> Some (Inr (), h))"

definition order_of_error :: "process_error \<Rightarrow> action_order" where
  "order_of_error e = \<lparr>ao_ws_action = CloseConnection (Some (error_text e)), ao_new_state_if_success = Some Close,
     ao_new_state_if_fail = Unreachable\<rparr>"

definition handler_on_open ::
  "profile \<Rightarrow> crypto \<Rightarrow> ('f, 'e) ws2p_bincode \<Rightarrow> ws_results \<Rightarrow> nat option \<Rightarrow> ('f, 'm) ws2p_handler \<Rightarrow>
   ((unit + unit) \<times> ('f, 'm) ws2p_handler) run" where
  "handler_on_open p cr wb env peer_addr h = do {
     let h = h\<lparr>wh_remote_addr := peer_addr\<rparr>;
     (r, c) \<leftarrow> controller_process p cr wb (0, 0, 0) (OnOpen (wh_remote_addr h)) (wh_controller h);
     let h = h\<lparr>wh_controller := c\<rparr>;
     (case r of
        Inr order_opt \<Rightarrow>
          and_then (Some (ws_call_done (ws_timeout_ok env) (WsTimeout 1000) h)) (\<lambda>_. exec_order_opt env order_opt)
      | Inl e \<Rightarrow> exec_ws_action env (order_of_error e) h)
   }"

definition handler_on_message ::
  "profile \<Rightarrow> crypto \<Rightarrow> ('f, 'e) ws2p_bincode \<Rightarrow> ws_results \<Rightarrow> nat \<times> nat \<times> nat \<Rightarrow> websocket_message \<Rightarrow>
   ('f, 'm) ws2p_handler \<Rightarrow> ((unit + unit) \<times> ('f, 'm) ws2p_handler) run" where
  "handler_on_message p cr wb env clock msg h = do {
     (r, c) \<leftarrow> controller_process p cr wb clock (OnMessage msg) (wh_controller h);
     let h = h\<lparr>wh_controller := c\<rparr>;
     (case r of
        Inr order_opt \<Rightarrow> exec_order_opt env order_opt h
      | Inl e \<Rightarrow> exec_ws_action env (order_of_error e) h)
   }"

definition handler_on_timeout ::
  "ws_results \<Rightarrow> nat \<Rightarrow> ('f, 'm) ws2p_handler \<Rightarrow> ((unit + unit) \<times> ('f, 'm) ws2p_handler) run" where
  "handler_on_timeout env now h =
     and_then (Some (ws_call_done (ws_timeout_ok env) (WsTimeout 1000) h)) (\<lambda>_ h. do {
       order_opt \<leftarrow> check_timeouts now (wh_controller h);
       exec_order_opt env order_opt h
     })"

text \<open>\<open>on_close\<close> does nothing: the controller is not told that the websocket is closed.\<close>

datatype ws_event =
  EvOpen "nat option"
| EvMessage "nat \<times> nat \<times> nat" websocket_message
| EvTimeout nat
| EvClose nat ustring

definition handler_turn ::
  "profile \<Rightarrow> crypto \<Rightarrow> ('f, 'e) ws2p_bincode \<Rightarrow> ws_results \<Rightarrow> ws_event \<Rightarrow> ('f, 'm) ws2p_handler \<Rightarrow>
   ((unit + unit) \<times> ('f, 'm) ws2p_handler) run" where
  "handler_turn p cr wb env event h = (case event of
      EvOpen peer_addr \<Rightarrow> handler_on_open p cr wb env peer_addr h
    | EvMessage clock msg \<Rightarrow> handler_on_message p cr wb env clock msg h
    | EvTimeout now \<Rightarrow> handler_on_timeout env now h
    | EvClose _ _ \<Rightarrow> Some (Inr (), h))"

text \<open>
  The handler of a new connection: an incoming one, from \<open>listen_on_ws2p_v2_endpoint\<close>, or one to an
  endpoint, from \<open>connect_to_ws2p_v2_endpoint\<close>. Both panic when the orchestrator is gone.
\<close>

definition new_handler ::
  "controller_id \<Rightarrow> connect_type \<Rightarrow> nat \<Rightarrow> nat \<Rightarrow> hash \<Rightarrow> ustring \<Rightarrow> self_node \<Rightarrow> ('f, 'm) orchestrator_msg list option \<Rightarrow>
   ('f, 'm) ws2p_handler run" where
  "new_handler i connect_type now1 now2 challenge currency self_node orchestrator =
     (case controller_try_new i (meta_datas_new now1 now2 challenge connect_type currency self_node) orchestrator of
        Inr c \<Rightarrow> Some \<lparr>wh_calls = [], wh_remote_addr = None, wh_controller = c\<rparr>
      | Inl _ \<Rightarrow> None)"

definition incoming_handler ::
  "nat \<Rightarrow> nat \<Rightarrow> hash \<Rightarrow> ustring \<Rightarrow> self_node \<Rightarrow> ('f, 'm) orchestrator_msg list option \<Rightarrow> ('f, 'm) ws2p_handler run" where
  "incoming_handler now1 now2 challenge = new_handler IncomingId Incoming now1 now2 challenge"

definition outgoing_handler ::
  "node_full_id option \<Rightarrow> nat \<Rightarrow> nat \<Rightarrow> hash \<Rightarrow> ustring \<Rightarrow> self_node \<Rightarrow> ('f, 'm) orchestrator_msg list option \<Rightarrow>
   ('f, 'm) ws2p_handler run" where
  "outgoing_handler expected now1 now2 challenge = new_handler (OutgoingId expected) OutgoingServer now1 now2 challenge"

subsection \<open>What a turn keeps\<close>

lemma conn_state_simps [simp]:
  "conn_state_of (set_state s c) = s"
  "wc_id (set_state s c) = wc_id c"
  "wc_orchestrator (set_state s c) = wc_orchestrator c"
  "wc_meta (set_state s c) = (wc_meta c)\<lparr>md_state := s\<rparr>"
  by (simp_all add: conn_state_of_def set_state_def)

lemma send_event_spec:
  assumes "send_event e c = (r, c')"
  shows "wc_meta c' = wc_meta c" "wc_id c' = wc_id c" "conn_state_of c' = conn_state_of c"
    "wc_orchestrator c' = map_option (\<lambda>log. log @ [ControllerEvent (wc_id c) e]) (wc_orchestrator c)"
  using assms by (auto simp: send_event_def conn_state_of_def split: option.splits)

lemma update_conn_state_spec:
  assumes "update_conn_state s c = (r, c')"
  shows "wc_meta c' = (wc_meta c)\<lparr>md_state := s\<rparr>" "wc_id c' = wc_id c" "conn_state_of c' = s"
    "wc_orchestrator c' = map_option (\<lambda>log. log @ [ControllerEvent (wc_id c) (StateChange s)]) (wc_orchestrator c)"
  using send_event_spec[OF assms[unfolded update_conn_state_def]] by simp_all


text \<open>The states that the execution of an order may set.\<close>

definition order_states :: "action_order \<Rightarrow> conn_state set" where
  "order_states order = insert (ao_new_state_if_fail order) (set_option (ao_new_state_if_success order))"

definition answer_states :: "process_error + action_order option \<Rightarrow> conn_state set" where
  "answer_states r = (case r of
      Inl _ \<Rightarrow> {Close, Unreachable}
    | Inr order_opt \<Rightarrow> (case order_opt of Some order \<Rightarrow> order_states order | None \<Rightarrow> {}))"

text \<open>The messages that a turn sends to the orchestrator are added to the ones before.\<close>

definition log_grows ::
  "('f controller_event \<Rightarrow> bool) \<Rightarrow> ('f, 'm) ws2p_controller \<Rightarrow> ('f, 'm) ws2p_controller \<Rightarrow> bool" where
  "log_grows P c c' \<longleftrightarrow> (\<exists>es. list_all P es \<and>
     wc_orchestrator c' = map_option (\<lambda>log. log @ map (ControllerEvent (wc_id c)) es) (wc_orchestrator c))"

definition is_state_change :: "'f controller_event \<Rightarrow> bool" where
  "is_state_change e \<longleftrightarrow> (\<exists>s. e = StateChange s)"

lemma log_grows_refl [simp]: "wc_orchestrator c' = wc_orchestrator c \<Longrightarrow> log_grows P c c'"
  unfolding log_grows_def by (intro exI[of _ "[]"]) (cases "wc_orchestrator c"; simp)

lemma log_grows_trans:
  assumes "log_grows P c c'" "log_grows P c' c''" "wc_id c' = wc_id c"
  shows "log_grows P c c''"
proof -
  obtain es es' where "list_all P es" "list_all P es'"
    "wc_orchestrator c' = map_option (\<lambda>log. log @ map (ControllerEvent (wc_id c)) es) (wc_orchestrator c)"
    "wc_orchestrator c'' = map_option (\<lambda>log. log @ map (ControllerEvent (wc_id c)) es') (wc_orchestrator c')"
    using assms by (auto simp: log_grows_def)
  then show ?thesis
    unfolding log_grows_def by (intro exI[of _ "es @ es'"]) (cases "wc_orchestrator c"; simp)
qed

lemma log_grows_mono: "log_grows P c c' \<Longrightarrow> (\<And>e. P e \<Longrightarrow> Q e) \<Longrightarrow> log_grows Q c c'"
  unfolding log_grows_def using list.pred_mono_strong by blast

lemma send_event_log: "send_event e c = (r, c') \<Longrightarrow> P e \<Longrightarrow> log_grows P c c'"
  unfolding log_grows_def by (intro exI[of _ "[e]"]) (simp add: send_event_spec(4))

lemma update_conn_state_log: "update_conn_state s c = (r, c') \<Longrightarrow> P (StateChange s) \<Longrightarrow> log_grows P c c'"
  unfolding log_grows_def by (intro exI[of _ "[StateChange s]"]) (simp add: update_conn_state_spec(4))

lemma update_snd:
  "wc_meta (snd (update_conn_state s c)) = (wc_meta c)\<lparr>md_state := s\<rparr>"
  "wc_id (snd (update_conn_state s c)) = wc_id c"
  "conn_state_of (snd (update_conn_state s c)) = s"
  "log_grows is_state_change c (snd (update_conn_state s c))"
proof -
  obtain r c' where u: "update_conn_state s c = (r, c')" by (cases "update_conn_state s c")
  show "wc_meta (snd (update_conn_state s c)) = (wc_meta c)\<lparr>md_state := s\<rparr>"
    "wc_id (snd (update_conn_state s c)) = wc_id c" "conn_state_of (snd (update_conn_state s c)) = s"
    using update_conn_state_spec[OF u] by (simp_all add: u)
  show "log_grows is_state_change c (snd (update_conn_state s c))"
    using update_conn_state_log[OF u, of is_state_change] by (simp add: u is_state_change_def)
qed

text \<open>An order changes only the state, to one of those it names.\<close>

lemma exec_ws_action_spec:
  assumes "exec_ws_action env order h = Some (r, h')"
  shows "\<exists>s \<in> insert (conn_state_of (wh_controller h)) (order_states order).
    wc_meta (wh_controller h') = (wc_meta (wh_controller h))\<lparr>md_state := s\<rparr> \<and>
    wc_id (wh_controller h') = wc_id (wh_controller h) \<and>
    log_grows is_state_change (wh_controller h) (wh_controller h')"
proof -
  let ?c = "wh_controller h"
  have "wh_controller h' = ?c \<or> (\<exists>s \<in> order_states order. wh_controller h' = snd (update_conn_state s ?c))"
    using assms
    by (auto simp: exec_ws_action_def ws_call_done_def order_states_def Let_def
        split: websocket_action.splits option.splits prod.splits sum.splits if_splits)
  then show ?thesis
  proof
    assume "wh_controller h' = ?c"
    then show ?thesis by (auto simp: conn_state_of_def)
  next
    assume "\<exists>s \<in> order_states order. wh_controller h' = snd (update_conn_state s ?c)"
    then show ?thesis by (auto simp: update_snd)
  qed
qed

lemma order_of_error_states: "order_states (order_of_error e) = {Close, Unreachable}"
  by (auto simp: order_states_def order_of_error_def)

lemma exec_answer:
  assumes "(case r of
        Inr order_opt \<Rightarrow> exec_order_opt env order_opt h
      | Inl e \<Rightarrow> exec_ws_action env (order_of_error e) h) = Some (r', h')"
  shows "\<exists>s \<in> insert (conn_state_of (wh_controller h)) (answer_states r).
    wc_meta (wh_controller h') = (wc_meta (wh_controller h))\<lparr>md_state := s\<rparr> \<and>
    wc_id (wh_controller h') = wc_id (wh_controller h) \<and>
    log_grows is_state_change (wh_controller h) (wh_controller h')"
  using assms
  by (auto simp: answer_states_def exec_order_opt_def order_of_error_states conn_state_of_def
      dest!: exec_ws_action_spec split: sum.splits option.splits)


subsection \<open>The negotiation as its peer sees it\<close>

text \<open>
  What the messages accepted so far must hold for a connection to be in a state: \<open>since_connect P\<close>
  tells that a CONNECT has been accepted, and \<open>P\<close> holds of the messages accepted after it.
\<close>

definition is_connect :: "'f ws2p_v2_message \<Rightarrow> bool" where
  "is_connect m \<longleftrightarrow> (\<exists>cm. wm_payload m = PConnect cm)"

definition acked :: "hash \<Rightarrow> 'f ws2p_v2_message list \<Rightarrow> bool" where
  "acked challenge ms \<longleftrightarrow> (\<exists>m \<in> set ms. wm_payload m = PAck challenge)"

definition oked :: "'f ws2p_v2_message list \<Rightarrow> bool" where
  "oked ms \<longleftrightarrow> (\<exists>m \<in> set ms. \<exists>ok. wm_payload m = POk ok)"

definition since_connect :: "('f ws2p_v2_message list \<Rightarrow> bool) \<Rightarrow> 'f ws2p_v2_message list \<Rightarrow> bool" where
  "since_connect P ms \<longleftrightarrow> (\<exists>before m after. ms = before @ m # after \<and> is_connect m \<and> P after)"

fun negotiated :: "hash \<Rightarrow> 'f ws2p_v2_message list \<Rightarrow> conn_state \<Rightarrow> bool" where
  "negotiated challenge ms ConnectMessOk = since_connect (\<lambda>_. True) ms"
| "negotiated challenge ms SecretFlagsOkWaitingAckMsg = since_connect (\<lambda>_. True) ms"
| "negotiated challenge ms OkMsgOkWaitingAckMsg = since_connect oked ms"
| "negotiated challenge ms AckMsgOk = since_connect (acked challenge) ms"
| "negotiated challenge ms SecretFlagsOk = since_connect (acked challenge) ms"
| "negotiated challenge ms Established = since_connect (\<lambda>ms. acked challenge ms \<and> oked ms) ms"
| "negotiated challenge ms _ = True"

lemma since_connect_snoc:
  assumes "since_connect P ms" "\<And>after. P after \<Longrightarrow> Q (after @ [m])"
  shows "since_connect Q (ms @ [m])"
proof -
  obtain before k after where "ms = before @ k # after" "is_connect k" "P after"
    using assms(1) by (auto simp: since_connect_def)
  then show ?thesis
    using assms(2) unfolding since_connect_def by (intro exI[of _ before] exI[of _ k] exI[of _ "after @ [m]"]) simp
qed

lemma since_connect_now: "is_connect m \<Longrightarrow> since_connect (\<lambda>_. True) (ms @ [m])"
  by (auto simp: since_connect_def)

lemma acked_snoc: "acked ch ms \<Longrightarrow> acked ch (ms @ [m])" "wm_payload m = PAck ch \<Longrightarrow> acked ch (ms @ [m])"
  by (auto simp: acked_def)

lemma oked_snoc: "oked ms \<Longrightarrow> oked (ms @ [m])" "wm_payload m = POk ok \<Longrightarrow> oked (ms @ [m])"
  by (auto simp: oked_def)

lemma negotiated_snoc: "negotiated ch ms s \<Longrightarrow> negotiated ch (ms @ [m]) s"
  by (cases s) (auto elim!: since_connect_snoc intro: acked_snoc oked_snoc)

text \<open>The node that a CONNECT message names, which an outgoing connection compares with the expected one.\<close>

definition remote_known ::
  "('f, 'm) ws2p_controller \<Rightarrow> 'f ws2p_v2_message list \<Rightarrow> node_full_id \<Rightarrow> bool" where
  "remote_known c0 ms i \<longleftrightarrow>
     (\<exists>m \<in> set ms. is_connect m \<and> i = (wm_issuer_node_id m, wm_issuer_pubkey m)) \<and>
     (md_connect_type (wc_meta c0) \<noteq> Incoming \<longrightarrow> expected_remote_full_id (wc_id c0) = Some i)"

lemma remote_known_snoc: "remote_known c0 ms i \<Longrightarrow> remote_known c0 (ms @ [m]) i"
  by (auto simp: remote_known_def)

definition controller_ok ::
  "('f, 'm) ws2p_controller \<Rightarrow> 'f ws2p_v2_message list \<Rightarrow> ('f, 'm) ws2p_controller \<Rightarrow> bool" where
  "controller_ok c0 ms c \<longleftrightarrow> wc_id c = wc_id c0 \<and>
     md_challenge (wc_meta c) = md_challenge (wc_meta c0) \<and>
     md_connect_type (wc_meta c) = md_connect_type (wc_meta c0) \<and>
     negotiated (md_challenge (wc_meta c0)) ms (conn_state_of c) \<and>
     (\<forall>rn. md_remote_node (wc_meta c) = Some rn \<longrightarrow> remote_known c0 ms (rn_remote_full_id rn))"

definition announced ::
  "('f, 'm) ws2p_controller \<Rightarrow> 'f ws2p_v2_message list \<Rightarrow> 'f controller_event \<Rightarrow> bool" where
  "announced c0 ms e \<longleftrightarrow> (\<forall>t i. e = NewConnEstablished t i \<longrightarrow>
     since_connect (\<lambda>ms. acked (md_challenge (wc_meta c0)) ms \<and> oked ms) ms \<and> remote_known c0 ms i)"

text \<open>What an answer to a message \<open>m\<close> may be.\<close>

definition answer_ok ::
  "('f, 'm) ws2p_controller \<Rightarrow> 'f ws2p_v2_message list \<Rightarrow> ('f, 'm) ws2p_controller \<Rightarrow>
   (process_error + action_order option) \<times> ('f, 'm) ws2p_controller \<Rightarrow> bool" where
  "answer_ok c0 ms c a \<longleftrightarrow> controller_ok c0 ms (snd a) \<and> log_grows (announced c0 ms) c (snd a) \<and>
     (\<forall>s \<in> answer_states (fst a). negotiated (md_challenge (wc_meta c0)) ms s)"

lemma controller_ok_snoc: "controller_ok c0 ms c \<Longrightarrow> controller_ok c0 (ms @ [m]) c"
  by (auto simp: controller_ok_def intro: negotiated_snoc remote_known_snoc)

lemma close_answer:
  "controller_ok c0 ms c \<Longrightarrow> answer_ok c0 (ms @ [m]) c (Inr (close_with_reason reason Denial), c)"
  by (simp add: answer_ok_def controller_ok_snoc close_with_reason_def answer_states_def order_states_def)

lemma order_payload_states:
  "order_payload p cr wb payload s c = Some order \<Longrightarrow> order_states order = {s, Unreachable}"
  by (auto simp: order_payload_def order_states_def split: bind_splits sum.splits)

lemma controller_ok_state:
  "controller_ok c0 ms c \<Longrightarrow> negotiated (md_challenge (wc_meta c0)) ms' s \<Longrightarrow>
   (\<And>i. remote_known c0 ms i \<Longrightarrow> remote_known c0 ms' i) \<Longrightarrow>
   wc_meta c' = (wc_meta c)\<lparr>md_state := s\<rparr> \<Longrightarrow> wc_id c' = wc_id c \<Longrightarrow> controller_ok c0 ms' c'"
  by (auto simp: controller_ok_def conn_state_of_def)

lemma update_answer:
  assumes "and_then (Some (update_conn_state s c)) (\<lambda>_ c. Some (Inr None, c)) = Some a"
    and "controller_ok c0 ms c" "negotiated (md_challenge (wc_meta c0)) (ms @ [m]) s"
  shows "answer_ok c0 (ms @ [m]) c a"
proof -
  obtain r c' where u: "update_conn_state s c = (r, c')" by (cases "update_conn_state s c")
  have "controller_ok c0 (ms @ [m]) c'"
    by (rule controller_ok_state[OF assms(2,3) remote_known_snoc update_conn_state_spec(1,2)[OF u]])
  moreover have "log_grows (announced c0 (ms @ [m])) c c'"
    by (rule update_conn_state_log[OF u]) (simp add: announced_def)
  moreover have "snd a = c' \<and> (fst a = Inr None \<or> fst a = Inl OrchestratorUnreacheable)"
    using assms(1) by (cases r; cases "projl r") (auto simp: u)
  ultimately show ?thesis by (auto simp: answer_ok_def answer_states_def)
qed


lemma order_answer:
  assumes "order_payload p cr wb payload s c = Some order" "controller_ok c0 (ms @ [m]) c'"
    and "log_grows (announced c0 (ms @ [m])) c c'" "negotiated (md_challenge (wc_meta c0)) (ms @ [m]) s"
  shows "answer_ok c0 (ms @ [m]) c (Inr (Some order), c')"
  using assms by (auto simp: answer_ok_def answer_states_def order_payload_states[OF assms(1)])

lemma connect_answer:
  assumes "process_connect_msg p cr wb (wm_issuer_node_id m, wm_issuer_pubkey m) cm c = Some a"
    and c: "controller_ok c0 ms c" and m: "wm_payload m = PConnect cm"
  shows "answer_ok c0 (ms @ [m]) c a"
proof -
  have now: "since_connect (\<lambda>_. True) (ms @ [m])" using m by (intro since_connect_now) (simp add: is_connect_def)
  let ?known = "\<lambda>c'. controller_ok c0 (ms @ [m]) c' \<and> wc_orchestrator c' = wc_orchestrator c"
  have known: "?known (set_meta (\<lambda>d. d\<lparr>md_remote_node := Some rn, md_remote_connect_type := t\<rparr>) c)"
    if "rn_remote_full_id rn = (wm_issuer_node_id m, wm_issuer_pubkey m)"
      "md_connect_type (wc_meta c) \<noteq> Incoming \<longrightarrow>
         expected_remote_full_id (wc_id c) = Some (wm_issuer_node_id m, wm_issuer_pubkey m)" for rn t
    using c that negotiated_snoc m unfolding controller_ok_def
    by (auto simp: conn_state_of_def remote_known_def is_connect_def)
  have features: "?known (set_meta (md_features_update (\<lambda>_. f)) c')" if "?known c'" for f c'
    using that by (auto simp: controller_ok_def conn_state_of_def)
  have rest: "\<exists>c'' order. ?known c'' \<and> a = (Inr (Some order), c'') \<and>
      order_payload p cr wb (PAck (cm_challenge cm)) ConnectMessOk c'' = Some order"
    if c': "?known c'" and a: "do {
          merged \<leftarrow> check_features_compatibility (my_features (md_local_node (wc_meta c'))) (cm_api_features cm);
          let c = (case merged of
            Inr features \<Rightarrow> set_meta (md_features_update (\<lambda>_. Some features)) c'
          | Inl _ \<Rightarrow> c');
          order \<leftarrow> order_payload p cr wb (PAck (cm_challenge cm)) ConnectMessOk c;
          Some (Inr (Some order), c) } = Some a" for c'
    using a features[OF c'] c' by (auto simp: Let_def split: bind_splits sum.splits)
  consider
      (refused) "a = (Inr (close_with_reason ''Unexpected PUBKEY or NODE_ID !'' Denial), c)"
    | (accepted) order c'' where "?known c''" "a = (Inr (Some order), c'')"
        "order_payload p cr wb (PAck (cm_challenge cm)) ConnectMessOk c'' = Some order"
  proof (cases "conn_state_of c = WaitingConnectMsg")
    case False
    then have "\<exists>c'' order. ?known c'' \<and> a = (Inr (Some order), c'') \<and>
        order_payload p cr wb (PAck (cm_challenge cm)) ConnectMessOk c'' = Some order"
      using assms(1) controller_ok_snoc[OF c] by (intro rest[of c]) (simp_all add: process_connect_msg_def Let_def)
    then show ?thesis using that(2) by blast
  next
    case waiting: True
    show ?thesis
    proof (cases "md_connect_type (wc_meta c) = Incoming")
      case True
      then obtain t where "connect_type_from_flags (cm_flags_queries cm) (cm_chunkstamp cm) = Some t"
        using assms(1) waiting by (auto simp: process_connect_msg_def Let_def split: bind_splits)
      then have "\<exists>c'' order. ?known c'' \<and> a = (Inr (Some order), c'') \<and>
          order_payload p cr wb (PAck (cm_challenge cm)) ConnectMessOk c'' = Some order"
        using assms(1) waiting True by (intro rest[OF known]) (simp_all add: process_connect_msg_def Let_def)
      then show ?thesis using that(2) by blast
    next
      case False
      then obtain i where i: "expected_remote_full_id (wc_id c) = Some i"
        using assms(1) waiting by (auto simp: process_connect_msg_def Let_def split: bind_splits)
      show ?thesis
      proof (cases "(wm_issuer_node_id m, wm_issuer_pubkey m) = i")
        case True
        then have "\<exists>c'' order. ?known c'' \<and> a = (Inr (Some order), c'') \<and>
            order_payload p cr wb (PAck (cm_challenge cm)) ConnectMessOk c'' = Some order"
          using assms(1) waiting False i by (intro rest[OF known]) (simp_all add: process_connect_msg_def Let_def)
        then show ?thesis using that(2) by blast
      next
        case False
        then have "a = (Inr (close_with_reason ''Unexpected PUBKEY or NODE_ID !'' Denial), c)"
          using assms(1) waiting \<open>md_connect_type (wc_meta c) \<noteq> Incoming\<close> i
          by (simp add: process_connect_msg_def Let_def)
        then show ?thesis by (rule that(1))
      qed
    qed
  qed
  then show ?thesis
  proof cases
    case refused
    then show ?thesis using close_answer[OF c] by simp
  next
    case (accepted order c'')
    then show ?thesis
      using now by (auto simp: answer_ok_def answer_states_def order_payload_states[OF accepted(3)])
  qed
qed

lemma ack_answer:
  assumes "process_ack_msg p cr wb challenge c = Some a"
    and c: "controller_ok c0 ms c" and m: "wm_payload m = PAck challenge"
  shows "answer_ok c0 (ms @ [m]) c a"
proof -
  have step: "answer_ok c0 (ms @ [m]) c a" if a: "process_ack p cr wb challenge s c = Some a"
    and s: "challenge = md_challenge (wc_meta c0) \<Longrightarrow> negotiated (md_challenge (wc_meta c0)) (ms @ [m]) s" for s
  proof (cases "md_challenge (wc_meta c) = challenge")
    case True
    then obtain order where o: "order_payload p cr wb (POk ok_msg_default) s c = Some order" "a = (Inr (Some order), c)"
      using a by (auto simp: process_ack_def split: bind_splits)
    have "challenge = md_challenge (wc_meta c0)" using True c by (simp add: controller_ok_def)
    then show ?thesis
      using s c by (simp add: o(2) answer_ok_def answer_states_def order_payload_states[OF o(1)] controller_ok_snoc)
  next
    case False
    then show ?thesis using a c by (intro update_answer[of Denial]) (auto simp: process_ack_def)
  qed
  have "negotiated (md_challenge (wc_meta c0)) ms (conn_state_of c)" using c by (simp add: controller_ok_def)
  then show ?thesis
    using assms(1) close_answer[OF c]
    by (auto simp: process_ack_msg_def m split: conn_state.splits
        elim!: since_connect_snoc intro!: step acked_snoc(2) oked_snoc(1))
qed

lemma secret_flags_answer:
  assumes "process_secret_flags_msg secret_flags c = Some a" and c: "controller_ok c0 ms c"
  shows "answer_ok c0 (ms @ [m]) c a"
proof -
  have n: "negotiated (md_challenge (wc_meta c0)) ms (conn_state_of c)" using c by (simp add: controller_ok_def)
  consider "conn_state_of c = ConnectMessOk" | "conn_state_of c = AckMsgOk"
    | "conn_state_of c \<notin> {ConnectMessOk, AckMsgOk}" by blast
  then show ?thesis
  proof cases
    case 1
    then have "negotiated (md_challenge (wc_meta c0)) (ms @ [m]) SecretFlagsOkWaitingAckMsg"
      using n by (auto elim!: since_connect_snoc)
    then show ?thesis using assms(1) 1
      by (intro update_answer[OF _ c, of SecretFlagsOkWaitingAckMsg]) (simp_all add: process_secret_flags_msg_def)
  next
    case 2
    then have "negotiated (md_challenge (wc_meta c0)) (ms @ [m]) SecretFlagsOk"
      using n by (auto elim!: since_connect_snoc intro: acked_snoc(1))
    then show ?thesis using assms(1) 2
      by (intro update_answer[OF _ c, of SecretFlagsOk]) (simp_all add: process_secret_flags_msg_def)
  next
    case 3
    then have "a = (Inr (close_with_reason ''Unexpected SECRET_FLAGS message !'' Denial), c)"
      using assms(1) by (cases "conn_state_of c") (auto simp: process_secret_flags_msg_def)
    then show ?thesis using close_answer[OF c] by simp
  qed
qed

lemma ok_answer:
  assumes "process_ok_msg c = Some a" and c: "controller_ok c0 ms c" and m: "wm_payload m = POk ok"
  shows "answer_ok c0 (ms @ [m]) c a"
proof -
  have n: "negotiated (md_challenge (wc_meta c0)) ms (conn_state_of c)" using c by (simp add: controller_ok_def)
  consider (wait) "conn_state_of c \<in> {ConnectMessOk, SecretFlagsOkWaitingAckMsg}"
    | (established) "conn_state_of c \<in> {AckMsgOk, SecretFlagsOk}"
    | (unexpected) "conn_state_of c \<notin> {ConnectMessOk, SecretFlagsOkWaitingAckMsg, AckMsgOk, SecretFlagsOk}"
    by blast
  then show ?thesis
  proof cases
    case wait
    then have "negotiated (md_challenge (wc_meta c0)) (ms @ [m]) OkMsgOkWaitingAckMsg"
      using n by (auto elim!: since_connect_snoc intro: oked_snoc(2)[OF m])
    then show ?thesis using assms(1) wait by (intro update_answer[OF _ c]) (auto simp: process_ok_msg_def)
  next
    case unexpected
    then show ?thesis using assms(1) close_answer[OF c] by (auto simp: process_ok_msg_def)
  next
    case established
    then have e: "negotiated (md_challenge (wc_meta c0)) (ms @ [m]) Established"
      using n by (auto elim!: since_connect_snoc intro: oked_snoc(2)[OF m] acked_snoc(1))
    let ?c = "set_state Established c"
    from assms(1) established obtain event r c' where ev: "established_event ?c = Some event"
      and s: "send_event event ?c = (r, c')" and a: "snd a = c'" "fst a = Inr None \<or> fst a = Inl OrchestratorUnreacheable"
      by (auto simp: process_ok_msg_def Let_def and_then_def process_error.split
          split: bind_splits prod.splits sum.splits if_splits) (metis process_error.exhaust)+
    obtain t rn where rn: "md_remote_node (wc_meta c) = Some rn" "event = NewConnEstablished t (rn_remote_full_id rn)"
      using ev by (auto simp: established_event_def split: bind_splits if_splits)
    have "remote_known c0 (ms @ [m]) (rn_remote_full_id rn)"
      using c rn(1) by (auto simp: controller_ok_def intro: remote_known_snoc)
    then have "announced c0 (ms @ [m]) event"
      using e rn(2) by (simp add: announced_def del: split_paired_All)
    then have "log_grows (announced c0 (ms @ [m])) ?c c'" by (rule send_event_log[OF s])
    then have "log_grows (announced c0 (ms @ [m])) c c'" by (simp add: log_grows_def)
    moreover have "controller_ok c0 (ms @ [m]) c'"
      by (rule controller_ok_state[OF c e remote_known_snoc]) (simp_all add: send_event_spec[OF s])
    ultimately show ?thesis using a by (auto simp: answer_ok_def answer_states_def)
  qed
qed

lemma payload_answer:
  assumes "process_payload p cr wb m c = Some a" and c: "controller_ok c0 ms c"
  shows "answer_ok c0 (ms @ [m]) c a"
proof -
  have data: "answer_ok c0 (ms @ [m]) c a"
    if a: "(if conn_state_of c = Established
         then and_then (Some (send_event (RecvValidMsg (WS2P_V2 m)) c)) (\<lambda>_ c. Some (Inr None, c))
         else Some (Inr (close_with_reason reason Denial), c)) = Some a" for reason
  proof (cases "conn_state_of c = Established")
    case False
    then show ?thesis using a close_answer[OF c] by auto
  next
    case True
    obtain r c' where s: "send_event (RecvValidMsg (WS2P_V2 m)) c = (r, c')" by fastforce
    have "log_grows (announced c0 (ms @ [m])) c c'" by (rule send_event_log[OF s]) (simp add: announced_def)
    moreover have "controller_ok c0 (ms @ [m]) c'"
      using controller_ok_snoc[OF c] by (simp add: controller_ok_def send_event_spec[OF s])
    moreover have "snd a = c' \<and> (fst a = Inr None \<or> fst a = Inl OrchestratorUnreacheable)"
      using a True by (cases r; cases "projl r") (auto simp: s)
    ultimately show ?thesis by (auto simp: answer_ok_def answer_states_def)
  qed
  show ?thesis
  proof (cases "wm_payload m")
    case (PConnect cm)
    then show ?thesis using assms(1) connect_answer[OF _ c, of p cr wb m cm a] by (simp add: process_payload_def)
  next
    case (PAck challenge)
    then show ?thesis using assms(1) ack_answer[OF _ c, of p cr wb challenge a m] by (simp add: process_payload_def)
  next
    case (PSecretFlags flags)
    then show ?thesis using assms(1) secret_flags_answer[OF _ c, of flags a m] by (simp add: process_payload_def)
  next
    case (POk ok)
    then show ?thesis using assms(1) ok_answer[OF _ c, of a m ok] by (simp add: process_payload_def)
  next
    case (PKo reason)
    then show ?thesis using assms(1) close_answer[OF c] by (auto simp: process_payload_def)
  qed (use assms(1) data in \<open>simp_all add: process_payload_def\<close>)
qed


subsection \<open>Runs of a connection\<close>

text \<open>A message that a turn reads: it is accepted by the check of its signature.\<close>

definition accepted_message ::
  "profile \<Rightarrow> crypto \<Rightarrow> ('f, 'e) ws2p_bincode \<Rightarrow> ws_event \<Rightarrow> 'f ws2p_v2_message option" where
  "accepted_message p cr wb event = (case event of
      EvMessage _ (WsBin raw) \<Rightarrow>
        (case parse_and_check_bin_message p cr wb raw of
           Some (Inr (WS2P_V2 m)) \<Rightarrow> Some m
         | _ \<Rightarrow> None)
    | _ \<Rightarrow> None)"

definition accepted_messages ::
  "profile \<Rightarrow> crypto \<Rightarrow> ('f, 'e) ws2p_bincode \<Rightarrow> ws_event list \<Rightarrow> 'f ws2p_v2_message list" where
  "accepted_messages p cr wb events = List.map_filter (accepted_message p cr wb) events"

inductive conn_run ::
  "profile \<Rightarrow> crypto \<Rightarrow> ('f, 'e) ws2p_bincode \<Rightarrow> ('f, 'm) ws2p_handler \<Rightarrow> ws_event list \<Rightarrow> ('f, 'm) ws2p_handler \<Rightarrow> bool"
  for p cr wb h0 where
  run_start: "conn_run p cr wb h0 [] h0"
| run_turn: "conn_run p cr wb h0 events h \<Longrightarrow> handler_turn p cr wb env event h = Some (r, h') \<Longrightarrow>
    conn_run p cr wb h0 (events @ [event]) h'"

inductive_cases conn_run_snocE: "conn_run p cr wb h0 (events @ [event]) h"

lemma accepted_snoc:
  "accepted_messages p cr wb (events @ [event]) =
     accepted_messages p cr wb events @ (case accepted_message p cr wb event of Some m \<Rightarrow> [m] | None \<Rightarrow> [])"
  by (auto simp: accepted_messages_def map_filter_def split: option.splits)

text \<open>The messages accepted by a turn, none or one.\<close>

definition turn_messages ::
  "profile \<Rightarrow> crypto \<Rightarrow> ('f, 'e) ws2p_bincode \<Rightarrow> ws_event \<Rightarrow> 'f ws2p_v2_message list" where
  "turn_messages p cr wb event = (case accepted_message p cr wb event of Some m \<Rightarrow> [m] | None \<Rightarrow> [])"

lemma answer_ok_grow:
  assumes "controller_ok c0 ms c" shows "controller_ok c0 (ms @ turn_messages p cr wb event) c"
  using assms controller_ok_snoc by (auto simp: turn_messages_def split: option.splits)

lemma check_spam_keeps:
  "check_spam now1 now2 m = Some m' \<Longrightarrow> md_state m' = md_state m \<and> md_challenge m' = md_challenge m \<and>
     md_connect_type m' = md_connect_type m \<and> md_remote_node m' = md_remote_node m"
  by (auto simp: check_spam_def Let_def split: bind_splits if_splits)

lemma message_answer:
  assumes "on_message p cr wb clock msg c = Some a" and c: "controller_ok c0 ms c"
  shows "answer_ok c0 (ms @ turn_messages p cr wb (EvMessage clock msg)) c a"
proof -
  obtain now1 now2 now3 where clock: "clock = (now1, now2, now3)" by (cases clock)
  obtain meta where meta: "check_spam now1 now2 (wc_meta c) = Some meta"
    using assms(1) by (auto simp: on_message_def clock split: bind_splits)
  let ?ms = "ms @ turn_messages p cr wb (EvMessage clock msg)"
  let ?c = "c\<lparr>wc_meta := meta\<rparr>"
  have c1: "controller_ok c0 ms ?c"
    using check_spam_keeps[OF meta] c by (simp add: controller_ok_def conn_state_of_def)
  have quiet: "answer_ok c0 ?ms c (Inr o', c')"
    if "controller_ok c0 ms c'" "wc_orchestrator c' = wc_orchestrator c"
      "o' = None \<or> (\<exists>reason. o' = close_with_reason reason Denial)" for o' c'
    using answer_ok_grow[OF that(1)] that(2,3)
    by (auto simp: answer_ok_def answer_states_def order_states_def close_with_reason_def)
  show ?thesis
  proof (cases "md_spam_counter meta \<ge> spam_limit")
    case True
    have "controller_ok c0 ms (set_meta (md_last_mess_time_update (\<lambda>_. now3)) ?c)"
      using c1 by (simp add: controller_ok_def conn_state_of_def)
    then show ?thesis using assms(1) True meta quiet by (auto simp: on_message_def clock)
  next
    case heard: False
    show ?thesis
    proof (cases msg)
      case (WsStr s)
      then show ?thesis using assms(1) heard meta quiet[OF c1] by (auto simp: on_message_def clock)
    next
      case (WsBin raw)
      then obtain res where res: "parse_and_check_bin_message p cr wb raw = Some res"
        using assms(1) heard meta by (auto simp: on_message_def clock split: bind_splits)
      show ?thesis
      proof (cases res)
        case (Inl e)
        have "controller_ok c0 ms (set_meta (\<lambda>m. m\<lparr>md_count_invalid_msgs := md_count_invalid_msgs m + 1\<rparr>) ?c)"
          using c1 by (simp add: controller_ok_def conn_state_of_def)
        then have "answer_ok c0 ?ms c (Inr o', set_meta (\<lambda>m. m\<lparr>md_count_invalid_msgs := md_count_invalid_msgs m + 1\<rparr>) ?c)"
          if "o' = None \<or> o' = close_with_reason ''Receive several invalid messages !'' Denial" for o'
          using that by (intro quiet) auto
        then show ?thesis
          using assms(1) heard meta res Inl WsBin by (auto simp: on_message_def clock Let_def split: if_splits)
      next
        case (Inr valid)
        then obtain m where m: "valid = WS2P_V2 m" "process_payload p cr wb m ?c = Some a"
          using assms(1) heard meta res WsBin by (cases valid) (auto simp: on_message_def clock)
        have "turn_messages p cr wb (EvMessage clock msg) = [m]"
          using res Inr m(1) WsBin by (simp add: turn_messages_def accepted_message_def)
        then show ?thesis
          using payload_answer[OF m(2) c1] by (simp add: answer_ok_def log_grows_def)
      qed
    qed
  qed
qed


lemma open_answer:
  assumes "on_open p cr wb addr c = Some a" and c: "controller_ok c0 ms c"
  shows "answer_ok c0 ms c a"
proof -
  obtain r c' where u: "update_conn_state TryToSendConnectMsg c = (r, c')" by fastforce
  have c': "controller_ok c0 ms c'"
    by (rule controller_ok_state[OF c _ _ update_conn_state_spec(1,2)[OF u]]) simp_all
  have l: "log_grows (announced c0 ms) c c'" by (rule update_conn_state_log[OF u]) (simp add: announced_def)
  show ?thesis
  proof (cases r)
    case (Inl e)
    then show ?thesis using assms(1) c' l by (auto simp: on_open_def u answer_ok_def answer_states_def)
  next
    case (Inr v)
    then obtain order cm where o: "order_payload p cr wb (PConnect cm) WaitingConnectMsg c' = Some order"
      and a: "a = (Inr (Some order), c')"
      using assms(1) by (auto simp: on_open_def u Let_def split: bind_splits)
    show ?thesis using c' l by (simp add: a answer_ok_def answer_states_def order_payload_states[OF o])
  qed
qed

lemma check_timeouts_states:
  "check_timeouts now c = Some o' \<Longrightarrow> answer_states (Inr o') \<subseteq> {Close, Unreachable}"
  by (auto simp: check_timeouts_def answer_states_def order_states_def split: bind_splits if_splits)

lemma turn_ok:
  assumes turn: "handler_turn p cr wb env event h = Some (r, h')" and c: "controller_ok c0 ms (wh_controller h)"
  shows "controller_ok c0 (ms @ turn_messages p cr wb event) (wh_controller h') \<and>
    log_grows (announced c0 (ms @ turn_messages p cr wb event)) (wh_controller h) (wh_controller h')"
proof -
  let ?ms = "ms @ turn_messages p cr wb event"
  have executed: "controller_ok c0 ?ms (wh_controller h') \<and>
      log_grows (announced c0 ?ms) (wh_controller h) (wh_controller h')"
    if x: "(case ans of
        Inr order_opt \<Rightarrow> exec_order_opt env order_opt h1
      | Inl e \<Rightarrow> exec_ws_action env (order_of_error e) h1) = Some (r, h')"
      and a: "answer_ok c0 ?ms (wh_controller h) (ans, c)" and h1: "wh_controller h1 = c" for ans c h1
  proof -
    from exec_answer[OF x] obtain s where s: "s \<in> insert (conn_state_of c) (answer_states ans)"
      "wc_meta (wh_controller h') = (wc_meta c)\<lparr>md_state := s\<rparr>" "wc_id (wh_controller h') = wc_id c"
      "log_grows is_state_change c (wh_controller h')"
      by (auto simp: h1)
    have c: "controller_ok c0 ?ms c" and l: "log_grows (announced c0 ?ms) (wh_controller h) c"
      using a by (simp_all add: answer_ok_def)
    have "negotiated (md_challenge (wc_meta c0)) ?ms s" using a s(1) c by (auto simp: answer_ok_def controller_ok_def)
    then have "controller_ok c0 ?ms (wh_controller h')" by (rule controller_ok_state[OF c _ _ s(2,3)])
    moreover have "log_grows (announced c0 ?ms) c (wh_controller h')"
      by (rule log_grows_mono[OF s(4)]) (auto simp: is_state_change_def announced_def)
    ultimately show ?thesis
      using log_grows_trans[OF l] c \<open>controller_ok c0 ms (wh_controller h)\<close> by (simp add: controller_ok_def)
  qed
  show ?thesis
  proof (cases event)
    case (EvMessage clock msg)
    then obtain ans c where o: "on_message p cr wb clock msg (wh_controller h) = Some (ans, c)"
      and x: "(case ans of
        Inr order_opt \<Rightarrow> exec_order_opt env order_opt (h\<lparr>wh_controller := c\<rparr>)
      | Inl e \<Rightarrow> exec_ws_action env (order_of_error e) (h\<lparr>wh_controller := c\<rparr>)) = Some (r, h')"
      using turn by (auto simp: handler_turn_def handler_on_message_def controller_process_def Let_def split: bind_splits)
    show ?thesis using message_answer[OF o assms(2)] by (intro executed[OF x]) (simp_all add: EvMessage)
  next
    case (EvClose code reason)
    then show ?thesis using turn answer_ok_grow[OF c] by (auto simp: handler_turn_def)
  next
    case (EvTimeout now)
    let ?h = "h\<lparr>wh_calls := wh_calls h @ [WsTimeout 1000]\<rparr>"
    have c': "controller_ok c0 ?ms (wh_controller h)" by (rule answer_ok_grow[OF c])
    show ?thesis
    proof (cases "ws_timeout_ok env")
      case False
      then show ?thesis
        using turn c' by (auto simp: EvTimeout handler_turn_def handler_on_timeout_def ws_call_done_def)
    next
      case True
      then obtain o' where o': "check_timeouts now (wh_controller h) = Some o'" "exec_order_opt env o' ?h = Some (r, h')"
        using turn by (auto simp: EvTimeout handler_turn_def handler_on_timeout_def ws_call_done_def split: bind_splits)
      have "answer_ok c0 ?ms (wh_controller h) (Inr o', wh_controller h)"
        using c' check_timeouts_states[OF o'(1)] by (auto simp: answer_ok_def)
      then show ?thesis by (rule executed[of ?h "Inr o'", rotated]) (simp_all add: o'(2))
    qed
  next
    case (EvOpen addr)
    let ?h = "\<lambda>c. h\<lparr>wh_remote_addr := addr, wh_controller := c, wh_calls := wh_calls h @ [WsTimeout 1000]\<rparr>"
    obtain ans c1 where o: "on_open p cr wb addr (wh_controller h) = Some (ans, c1)"
      using turn by (auto simp: EvOpen handler_turn_def handler_on_open_def controller_process_def Let_def split: bind_splits)
    have a: "answer_ok c0 ?ms (wh_controller h) (ans, c1)" by (rule open_answer[OF o answer_ok_grow[OF c]])
    show ?thesis
    proof (cases ans)
      case (Inl e)
      then have "exec_ws_action env (order_of_error e) (h\<lparr>wh_remote_addr := addr, wh_controller := c1\<rparr>) = Some (r, h')"
        using turn o by (simp add: EvOpen handler_turn_def handler_on_open_def controller_process_def)
      then show ?thesis using a
        by (intro executed[of "h\<lparr>wh_remote_addr := addr, wh_controller := c1\<rparr>" ans c1]) (simp_all add: Inl)
    next
      case (Inr o')
      show ?thesis
      proof (cases "ws_timeout_ok env")
        case True
        then have "exec_order_opt env o' (?h c1) = Some (r, h')"
          using turn o Inr by (simp add: EvOpen handler_turn_def handler_on_open_def controller_process_def ws_call_done_def)
        then show ?thesis using a by (intro executed[of "?h c1" ans c1]) (simp_all add: Inr)
      next
        case False
        then have "wh_controller h' = c1"
          using turn o Inr by (auto simp: EvOpen handler_turn_def handler_on_open_def controller_process_def ws_call_done_def)
        then show ?thesis using a by (simp add: answer_ok_def)
      qed
    qed
  qed
qed


lemma run_ok:
  assumes "conn_run p cr wb h0 events h"
  shows "controller_ok (wh_controller h0) [] (wh_controller h0) \<Longrightarrow>
    controller_ok (wh_controller h0) (accepted_messages p cr wb events) (wh_controller h) \<and>
    log_grows (announced (wh_controller h0) (accepted_messages p cr wb events)) (wh_controller h0) (wh_controller h)"
  using assms
proof (induction rule: conn_run.induct)
  case run_start
  then show ?case by (simp add: accepted_messages_def map_filter_def)
next
  case (run_turn events h env event r h')
  let ?c0 = "wh_controller h0"
  let ?ms = "accepted_messages p cr wb events"
  let ?ms' = "?ms @ turn_messages p cr wb event"
  have ms': "accepted_messages p cr wb (events @ [event]) = ?ms'" by (simp add: accepted_snoc turn_messages_def)
  have c: "controller_ok ?c0 ?ms (wh_controller h)" and l: "log_grows (announced ?c0 ?ms) ?c0 (wh_controller h)"
    using run_turn.IH run_turn.prems by blast+
  have "announced ?c0 ?ms' e" if "announced ?c0 ?ms e" for e
  proof (cases "accepted_message p cr wb event")
    case (Some m)
    have "since_connect (\<lambda>ms. acked ch ms \<and> oked ms) ?ms \<Longrightarrow> since_connect (\<lambda>ms. acked ch ms \<and> oked ms) (?ms @ [m])" for ch
      by (erule since_connect_snoc) (auto intro: acked_snoc(1) oked_snoc(1))
    then show ?thesis
      using that by (simp add: announced_def turn_messages_def Some remote_known_snoc del: split_paired_All)
  qed (use that in \<open>simp add: turn_messages_def\<close>)
  then have "log_grows (announced ?c0 ?ms') ?c0 (wh_controller h)" by (rule log_grows_mono[OF l])
  then show ?case
    using turn_ok[OF run_turn.hyps(2) c] c unfolding ms'
    by (auto intro: log_grows_trans simp: controller_ok_def)
qed

end
