(* ===== verification/Ws2p_Negotiation.thy ===== *)
theory Ws2p_Negotiation
  imports Ws2p_Handler
begin

text \<open>
  Negotiations between nodes of the peer to peer protocol: two honest nodes that exchange their messages
  establish their connection, and what a peer that departs from the protocol obtains.
\<close>

subsection \<open>Turns with a working websocket\<close>

definition env_ok :: ws_results where
  "env_ok = \<lparr>ws_send_ok = True, ws_close_ok = True, ws_timeout_ok = True\<rparr>"

text \<open>Clock readings that go forward by at most the spam interval, as the code compares it.\<close>

definition calm_clock :: "nat \<times> nat \<times> nat \<Rightarrow> bool" where
  "calm_clock = (\<lambda>(now1, now2, now3). now1 \<le> now2 \<and> now2 \<le> now1 + 80000000000)"

definition calm :: "nat \<times> nat \<times> nat \<Rightarrow> meta_datas \<Rightarrow> meta_datas" where
  "calm clock m = m\<lparr>md_last_mess_time := fst clock, md_spam_interval := False, md_spam_counter := 0\<rparr>"

lemma check_spam_calm: "calm_clock (now1, now2, now3) \<Longrightarrow> check_spam now1 now2 m = Some (calm (now1, now2, now3) m)"
  by (auto simp: calm_clock_def check_spam_def duration_since_def spam_interval_value_def calm_def Let_def)

lemma calm_fields [simp]:
  "md_challenge (calm clock m) = md_challenge m" "md_connect_type (calm clock m) = md_connect_type m"
  "md_currency (calm clock m) = md_currency m" "md_local_node (calm clock m) = md_local_node m"
  "md_remote_connect_type (calm clock m) = md_remote_connect_type m" "md_remote_node (calm clock m) = md_remote_node m"
  "md_state (calm clock m) = md_state m" "md_spam_counter (calm clock m) = 0"
  by (simp_all add: calm_def)

text \<open>What follows the check of a message, and the execution of the orders.\<close>

lemma on_message_accepted:
  assumes "calm_clock clock" "parse_and_check_bin_message p cr wb raw = Some (Inr (WS2P_V2 m))"
  shows "on_message p cr wb clock (WsBin raw) c = process_payload p cr wb m (c\<lparr>wc_meta := calm clock (wc_meta c)\<rparr>)"
  using assms by (cases clock) (simp add: on_message_def check_spam_calm spam_limit_def)

lemma handler_accepts:
  assumes "calm_clock clock" "parse_and_check_bin_message p cr wb raw = Some (Inr (WS2P_V2 m))"
    and "process_payload p cr wb m ((wh_controller h)\<lparr>wc_meta := calm clock (wc_meta (wh_controller h))\<rparr>) = Some (Inr order_opt, c)"
  shows "handler_turn p cr wb env (EvMessage clock (WsBin raw)) h = exec_order_opt env order_opt (h\<lparr>wh_controller := c\<rparr>)"
  using assms by (simp add: handler_turn_def handler_on_message_def controller_process_def on_message_accepted)

lemma exec_send:
  assumes "ao_ws_action order = SendMessage msg" "ao_new_state_if_success order = Some s"
    and "wc_orchestrator (wh_controller h) = Some log"
  shows "exec_order_opt env_ok (Some order) h = Some (Inr (), h\<lparr>wh_calls := wh_calls h @ [WsSend msg],
    wh_controller := (set_state s (wh_controller h))\<lparr>wc_orchestrator :=
      Some (log @ [ControllerEvent (wc_id (wh_controller h)) (StateChange s)])\<rparr>\<rparr>)"
  using assms
  by (simp add: exec_order_opt_def exec_ws_action_def ws_call_done_def env_ok_def update_conn_state_def send_event_def
      set_state_def)

text \<open>The order that sends a payload of a node with an Ed25519 key pair.\<close>

definition own_message ::
  "crypto \<Rightarrow> ('f, 'e) ws2p_bincode \<Rightarrow> ustring \<Rightarrow> net_node_id \<Rightarrow> nat list \<Rightarrow> nat list \<Rightarrow> 'f ws2p_payload \<Rightarrow> 'f ws2p_v2_message" where
  "own_message cr wb currency node pk sk payload = signed_message cr wb sk (unsigned_message currency node pk payload)"

lemma order_payload_spec:
  assumes "my_key_pair (md_local_node (wc_meta c)) = KeyPairEd25519 pk sk"
  shows "order_payload p cr wb payload s c = Some \<lparr>ao_ws_action = SendMessage (WsBin (ws2p_serialize wb
      (own_message cr wb (md_currency (wc_meta c)) (my_node_id (md_local_node (wc_meta c))) pk sk payload))),
    ao_new_state_if_success = Some s, ao_new_state_if_fail = Unreachable\<rparr>"
  using assms by (simp add: order_payload_def encapsulate_payload_spec own_message_def)

lemma features_checked: "own \<noteq> [] \<Longrightarrow> remote \<noteq> [] \<Longrightarrow> \<exists>r. check_features_compatibility own remote = Some r"
  by (cases own; cases remote) (simp_all add: check_features_compatibility_def remove_unsupported_def feature_def_def
      feature_low_def feature_abf_def flag_test_def first_of_def mask_first_def Let_def)

text \<open>
  A connection with its constants (its identifier, its type, its challenge, its currency and its node),
  its state, what it knows of its peer, and the events it has reported.
\<close>

type_synonym conn_base = "controller_id \<times> connect_type \<times> hash \<times> ustring \<times> self_node"

definition conn_at ::
  "conn_base \<Rightarrow> conn_state \<Rightarrow> node_full_id option \<times> connect_type option \<Rightarrow> 'f controller_event list \<Rightarrow>
   ('f, 'm) ws2p_handler \<Rightarrow> bool" where
  "conn_at = (\<lambda>(i, t, challenge, currency, node) s remote events h.
     let c = wh_controller h; m = wc_meta c in
     wc_id c = i \<and> md_connect_type m = t \<and> md_challenge m = challenge \<and> md_currency m = currency \<and>
     md_local_node m = node \<and> md_state m = s \<and>
     (map_option rn_remote_full_id (md_remote_node m), md_remote_connect_type m) = remote \<and>
     wc_orchestrator c = Some (ControllerSender [] # map (ControllerEvent i) events))"

definition last_sent :: "('f, 'm) ws2p_handler \<Rightarrow> nat list option" where
  "last_sent h = (if wh_calls h = [] then None else case last (wh_calls h) of WsSend (WsBin raw) \<Rightarrow> Some raw | _ \<Rightarrow> None)"

lemma new_conn_at:
  assumes "new_handler i t now1 now2 challenge currency node (Some []) = Some h"
  shows "conn_at (i, t, challenge, currency, node) TryToOpenWS (None, None) [] h"
  using assms by (auto simp: new_handler_def controller_try_new_def conn_at_def meta_datas_new_def)

lemma open_turn:
  assumes "conn_at (i, t, challenge, currency, node) s remote events h" "my_key_pair node = KeyPairEd25519 pk sk"
  shows "\<exists>h'. handler_turn p cr wb env_ok (EvOpen addr) h = Some (Inr (), h') \<and>
    conn_at (i, t, challenge, currency, node) WaitingConnectMsg remote
      (events @ [StateChange TryToSendConnectMsg, StateChange WaitingConnectMsg]) h' \<and>
    last_sent h' = Some (ws2p_serialize wb (own_message cr wb currency (my_node_id node) pk sk
      (PConnect (generate_connect_message t (my_features node) challenge None))))"
proof -
  let ?c = "wh_controller h"
  obtain log where log: "wc_orchestrator ?c = Some log" using assms(1) by (auto simp: conn_at_def Let_def)
  let ?c1 = "(set_state TryToSendConnectMsg ?c)\<lparr>wc_orchestrator :=
      Some (log @ [ControllerEvent (wc_id ?c) (StateChange TryToSendConnectMsg)])\<rparr>"
  have u: "update_conn_state TryToSendConnectMsg ?c = (Inr (), ?c1)"
    using log by (simp add: update_conn_state_def send_event_def set_state_def)
  have k: "my_key_pair (md_local_node (wc_meta ?c1)) = KeyPairEd25519 pk sk"
    using assms by (simp add: conn_at_def Let_def)
  show ?thesis
    using assms log
    by (simp add: handler_turn_def handler_on_open_def controller_process_def on_open_def u Let_def
        order_payload_spec[OF k] ws_call_done_def exec_send env_ok_def[symmetric])
      (simp add: env_ok_def exec_send[unfolded env_ok_def] conn_at_def Let_def last_sent_def)
qed

text \<open>A payload is answered by a payload of the local node.\<close>

lemma reply_turn:
  assumes at: "conn_at (i, t, challenge, currency, node) s remote events h" "my_key_pair node = KeyPairEd25519 pk sk"
    and m: "calm_clock clock" "parse_and_check_bin_message p cr wb raw = Some (Inr (WS2P_V2 m))"
    and c1: "wc_meta c1 = (calm clock (wc_meta (wh_controller h)))\<lparr>md_remote_node := rn, md_remote_connect_type := rt,
        md_features := fs\<rparr>" "wc_id c1 = i" "wc_orchestrator c1 = wc_orchestrator (wh_controller h)"
    and r: "process_payload p cr wb m ((wh_controller h)\<lparr>wc_meta := calm clock (wc_meta (wh_controller h))\<rparr>) =
        do { order \<leftarrow> order_payload p cr wb payload s' c1; Some (Inr (Some order), c1) }"
  shows "\<exists>h'. handler_turn p cr wb env_ok (EvMessage clock (WsBin raw)) h = Some (Inr (), h') \<and>
    conn_at (i, t, challenge, currency, node) s' (map_option rn_remote_full_id rn, rt) (events @ [StateChange s']) h' \<and>
    last_sent h' = Some (ws2p_serialize wb (own_message cr wb currency (my_node_id node) pk sk payload))"
proof -
  have k: "my_key_pair (md_local_node (wc_meta c1)) = KeyPairEd25519 pk sk"
    using at by (simp add: conn_at_def Let_def c1)
  have log: "wc_orchestrator c1 = Some (ControllerSender [] # map (ControllerEvent i) events)"
    using at by (simp add: conn_at_def Let_def c1)
  show ?thesis
    using at log
    by (simp add: handler_accepts[OF m r[unfolded order_payload_spec[OF k] bind.bind_lunit]] exec_send conn_at_def
        Let_def last_sent_def c1)
qed

text \<open>An incoming connection learns from a CONNECT who its peer is and what it wants.\<close>

lemma connect_turn:
  assumes at: "conn_at (i, t, challenge, currency, node) WaitingConnectMsg remote events h"
      "my_key_pair node = KeyPairEd25519 pk sk"
    and m: "calm_clock clock" "parse_and_check_bin_message p cr wb raw = Some (Inr (WS2P_V2 m))" "wm_payload m = PConnect cm"
    and f: "my_features node \<noteq> []" "cm_api_features cm \<noteq> []"
    and who: "if t = Incoming then connect_type_from_flags (cm_flags_queries cm) (cm_chunkstamp cm) = Some rt
        else expected_remote_full_id i = Some (wm_issuer_node_id m, wm_issuer_pubkey m) \<and> rt = Incoming"
  shows "\<exists>h'. handler_turn p cr wb env_ok (EvMessage clock (WsBin raw)) h = Some (Inr (), h') \<and>
    conn_at (i, t, challenge, currency, node) ConnectMessOk
      (Some (wm_issuer_node_id m, wm_issuer_pubkey m), Some rt) (events @ [StateChange ConnectMessOk]) h' \<and>
    last_sent h' = Some (ws2p_serialize wb (own_message cr wb currency (my_node_id node) pk sk (PAck (cm_challenge cm))))"
proof -
  let ?c = "(wh_controller h)\<lparr>wc_meta := calm clock (wc_meta (wh_controller h))\<rparr>"
  let ?rn = "\<lparr>rn_challenge = cm_challenge cm, rn_current_blockstamp = None, rn_peer_card = None,
       rn_remote_full_id = (wm_issuer_node_id m, wm_issuer_pubkey m)\<rparr>"
  obtain r where r: "check_features_compatibility (my_features node) (cm_api_features cm) = Some r"
    using features_checked[OF f] by blast
  define fs where "fs = (case r of Inr features \<Rightarrow> Some features | Inl _ \<Rightarrow> md_features (wc_meta (wh_controller h)))"
  let ?c1 = "?c\<lparr>wc_meta := (wc_meta ?c)\<lparr>md_remote_node := Some ?rn, md_remote_connect_type := Some rt, md_features := fs\<rparr>\<rparr>"
  have i: "wc_id (wh_controller h) = i" "md_connect_type (wc_meta (wh_controller h)) = t"
    "md_local_node (wc_meta (wh_controller h)) = node" "md_state (wc_meta (wh_controller h)) = WaitingConnectMsg"
    using at by (auto simp: conn_at_def Let_def)
  have c1: "(case r of Inr features \<Rightarrow> set_meta (md_features_update (\<lambda>_. Some features)) c' | Inl _ \<Rightarrow> c') = ?c1"
    if "c' = ?c\<lparr>wc_meta := (wc_meta ?c)\<lparr>md_remote_node := Some ?rn, md_remote_connect_type := Some rt\<rparr>\<rparr>" for c'
    using that by (auto simp: fs_def calm_def split: sum.splits)
  have "process_payload p cr wb m ?c =
      do { order \<leftarrow> order_payload p cr wb (PAck (cm_challenge cm)) ConnectMessOk ?c1; Some (Inr (Some order), ?c1) }"
    using who by (simp add: process_payload_def m(3) process_connect_msg_def Let_def conn_state_of_def i r c1 split: if_splits)
  from reply_turn[OF at m(1,2) _ _ _ this, of fs "Some rt" "Some ?rn"] show ?thesis by (simp add: i)
qed

lemma ack_turn:
  assumes at: "conn_at (i, t, challenge, currency, node) ConnectMessOk remote events h"
      "my_key_pair node = KeyPairEd25519 pk sk"
    and m: "calm_clock clock" "parse_and_check_bin_message p cr wb raw = Some (Inr (WS2P_V2 m))" "wm_payload m = PAck challenge"
  shows "\<exists>h'. handler_turn p cr wb env_ok (EvMessage clock (WsBin raw)) h = Some (Inr (), h') \<and>
    conn_at (i, t, challenge, currency, node) AckMsgOk remote (events @ [StateChange AckMsgOk]) h' \<and>
    last_sent h' = Some (ws2p_serialize wb (own_message cr wb currency (my_node_id node) pk sk (POk ok_msg_default)))"
proof -
  let ?m = "wc_meta (wh_controller h)"
  let ?c = "(wh_controller h)\<lparr>wc_meta := calm clock ?m\<rparr>"
  have "process_payload p cr wb m ?c =
      do { order \<leftarrow> order_payload p cr wb (POk ok_msg_default) AckMsgOk ?c; Some (Inr (Some order), ?c) }"
    using at by (simp add: process_payload_def m(3) process_ack_msg_def process_ack_def conn_state_of_def conn_at_def Let_def)
  from reply_turn[OF at m(1,2) _ _ _ this, of "md_features ?m" "md_remote_connect_type ?m" "md_remote_node ?m"] at
  show ?thesis by (auto simp: conn_at_def Let_def calm_def)
qed

lemma ok_turn:
  assumes at: "conn_at (i, t, challenge, currency, node) AckMsgOk (Some who, Some rt) events h"
    and m: "calm_clock clock" "parse_and_check_bin_message p cr wb raw = Some (Inr (WS2P_V2 m))" "wm_payload m = POk ok"
  shows "\<exists>h'. handler_turn p cr wb env_ok (EvMessage clock (WsBin raw)) h = Some (Inr (), h') \<and>
    conn_at (i, t, challenge, currency, node) Established (Some who, Some rt)
      (events @ [NewConnEstablished (if t = Incoming then rt else t) who]) h'"
proof -
  let ?m = "wc_meta (wh_controller h)"
  let ?c = "(wh_controller h)\<lparr>wc_meta := calm clock ?m\<rparr>"
  obtain rn where rn: "md_remote_node ?m = Some rn" "rn_remote_full_id rn = who" "md_remote_connect_type ?m = Some rt"
    using at by (auto simp: conn_at_def Let_def)
  let ?e = "NewConnEstablished (if t = Incoming then rt else t) who"
  have "process_payload p cr wb m ?c = Some (Inr None, (set_state Established ?c)\<lparr>wc_orchestrator :=
      Some (ControllerSender [] # map (ControllerEvent i) (events @ [?e]))\<rparr>)"
    using at rn by (auto simp: process_payload_def m(3) process_ok_msg_def conn_state_of_def conn_at_def Let_def
        established_event_def send_event_def set_state_def)
  from handler_accepts[OF m(1,2) this] show ?thesis
    using at rn by (simp add: exec_order_opt_def conn_at_def Let_def)
qed

subsection \<open>Two honest nodes\<close>

text \<open>
  The crate bincode reads the messages with these payloads back from their bytes, and the signatures of
  a key pair verify.
\<close>

definition reads_back :: "('f, 'e) ws2p_bincode \<Rightarrow> ustring \<Rightarrow> 'f ws2p_payload set \<Rightarrow> bool" where
  "reads_back wb currency payloads \<longleftrightarrow> (\<forall>node pk s. \<forall>payload \<in> payloads.
     let m = (unsigned_message currency node pk payload)\<lparr>wm_signature := Some (SigEd25519 s)\<rparr>
     in wb_read wb (ws2p_serialize wb m) = Inr (WS2P_V2 m))"

definition signs :: "crypto \<Rightarrow> nat list \<Rightarrow> nat list \<Rightarrow> bool" where
  "signs cr pk sk \<longleftrightarrow> (\<forall>m. c_ed25519_verify cr pk m (c_ed25519_sign cr sk m))"

lemma own_message_fields [simp]:
  "wm_payload (own_message cr wb currency node pk sk payload) = payload"
  "wm_issuer_pubkey (own_message cr wb currency node pk sk payload) = PubEd25519 pk"
  "wm_issuer_node_id (own_message cr wb currency node pk sk payload) = node"
  by (simp_all add: own_message_def)

lemma own_message_parses:
  assumes "reads_back wb currency payloads" "payload \<in> payloads" "signs cr pk sk"
  shows "parse_and_check_bin_message p cr wb (ws2p_serialize wb (own_message cr wb currency node pk sk payload)) =
    Some (Inr (WS2P_V2 (own_message cr wb currency node pk sk payload)))"
proof -
  have "wb_read wb (ws2p_serialize wb (own_message cr wb currency node pk sk payload)) =
      Inr (WS2P_V2 (own_message cr wb currency node pk sk payload))"
    using assms(1,2) by (simp add: reads_back_def own_message_def signed_message_def Let_def)
  from parse_v2[OF this, of pk] show ?thesis using assms(3) by (simp add: own_message_def signs_def)
qed

text \<open>The scenario of \<open>tests/connection_negociation.rs\<close>: each node receives what the other sent last.\<close>

definition deliver ::
  "profile \<Rightarrow> crypto \<Rightarrow> ('f, 'e) ws2p_bincode \<Rightarrow> nat \<times> nat \<times> nat \<Rightarrow> ('f, 'm) ws2p_handler \<Rightarrow> ('f, 'm) ws2p_handler \<Rightarrow>
   ('f, 'm) ws2p_handler run" where
  "deliver p cr wb clock sender receiver = do {
     raw \<leftarrow> last_sent sender;
     (r, h) \<leftarrow> handler_turn p cr wb env_ok (EvMessage clock (WsBin raw)) receiver;
     Some h
   }"

definition exchange ::
  "profile \<Rightarrow> crypto \<Rightarrow> ('f, 'e) ws2p_bincode \<Rightarrow> nat \<times> nat \<times> nat \<Rightarrow> ('f, 'm) ws2p_handler \<times> ('f, 'm) ws2p_handler \<Rightarrow>
   (('f, 'm) ws2p_handler \<times> ('f, 'm) ws2p_handler) run" where
  "exchange p cr wb clock = (\<lambda>(a, b). do {
     a' \<leftarrow> deliver p cr wb clock b a;
     b' \<leftarrow> deliver p cr wb clock a b;
     Some (a', b')
   })"

definition negotiate ::
  "profile \<Rightarrow> crypto \<Rightarrow> ('f, 'e) ws2p_bincode \<Rightarrow> nat \<times> nat \<times> nat \<Rightarrow> ('f, 'm) ws2p_handler \<Rightarrow> ('f, 'm) ws2p_handler \<Rightarrow>
   (('f, 'm) ws2p_handler \<times> ('f, 'm) ws2p_handler) run" where
  "negotiate p cr wb clock a b = do {
     (_, a) \<leftarrow> handler_turn p cr wb env_ok (EvOpen None) a;
     (_, b) \<leftarrow> handler_turn p cr wb env_ok (EvOpen None) b;
     ab \<leftarrow> exchange p cr wb clock (a, b);
     ab \<leftarrow> exchange p cr wb clock ab;
     exchange p cr wb clock ab
   }"

definition negotiation_payloads :: "hash \<Rightarrow> nat list \<Rightarrow> hash \<Rightarrow> nat list \<Rightarrow> 'f ws2p_payload set" where
  "negotiation_payloads ca fa cb fb =
     {PConnect (generate_connect_message Incoming fa ca None),
      PConnect (generate_connect_message OutgoingServer fb cb None), PAck ca, PAck cb, POk ok_msg_default}"

lemma deliver_turn:
  "last_sent a = Some raw \<Longrightarrow> handler_turn p cr wb env_ok (EvMessage clock (WsBin raw)) b = Some (Inr (), b') \<Longrightarrow>
   deliver p cr wb clock a b = Some b'"
  by (simp add: deliver_def)

text \<open>The two connections at the end of a negotiation, with the changes of state reported on the way.\<close>

definition handshake_states :: "'f controller_event list" where
  "handshake_states = [StateChange TryToSendConnectMsg, StateChange WaitingConnectMsg, StateChange ConnectMessOk,
     StateChange AckMsgOk]"

lemma honest_negotiation:
  fixes a b :: "('f, 'm) ws2p_handler"
  assumes "incoming_handler now1 now2 ca currency na (Some []) = Some a"
    and "outgoing_handler (Some (my_node_id na, PubEd25519 pka)) now3 now4 cb currency nb (Some []) = Some b"
    and "my_key_pair na = KeyPairEd25519 pka ska" "my_key_pair nb = KeyPairEd25519 pkb skb"
    and "signs cr pka ska" "signs cr pkb skb" "my_features na \<noteq> []" "my_features nb \<noteq> []" "calm_clock clock"
    and "reads_back wb currency (negotiation_payloads ca (my_features na) cb (my_features nb))"
  shows "\<exists>a' b'. negotiate p cr wb clock a b = Some (a', b') \<and>
    conn_at (IncomingId, Incoming, ca, currency, na) Established
      (Some (my_node_id nb, PubEd25519 pkb), Some OutgoingServer)
      (handshake_states @ [NewConnEstablished OutgoingServer (my_node_id nb, PubEd25519 pkb)]) a' \<and>
    conn_at (OutgoingId (Some (my_node_id na, PubEd25519 pka)), OutgoingServer, cb, currency, nb) Established
      (Some (my_node_id na, PubEd25519 pka), Some Incoming)
      (handshake_states @ [NewConnEstablished OutgoingServer (my_node_id na, PubEd25519 pka)]) b'"
proof -
  let ?ba = "(IncomingId, Incoming, ca, currency, na)"
  let ?bb = "(OutgoingId (Some (my_node_id na, PubEd25519 pka)), OutgoingServer, cb, currency, nb)"
  let ?ma = "own_message cr wb currency (my_node_id na) pka ska"
  let ?mb = "own_message cr wb currency (my_node_id nb) pkb skb"
  let ?Ca = "PConnect (generate_connect_message Incoming (my_features na) ca None)"
  let ?Cb = "PConnect (generate_connect_message OutgoingServer (my_features nb) cb None)"
  note a_parses = own_message_parses[OF assms(10) _ assms(5), of _ p "my_node_id na"]
  note b_parses = own_message_parses[OF assms(10) _ assms(6), of _ p "my_node_id nb"]
  have payloads: "?Ca \<in> negotiation_payloads ca (my_features na) cb (my_features nb)"
    "?Cb \<in> negotiation_payloads ca (my_features na) cb (my_features nb)"
    "PAck ca \<in> negotiation_payloads ca (my_features na) cb (my_features nb)"
    "PAck cb \<in> negotiation_payloads ca (my_features na) cb (my_features nb)"
    "POk ok_msg_default \<in> negotiation_payloads ca (my_features na) cb (my_features nb)"
    by (simp_all add: negotiation_payloads_def)
  have a0: "conn_at ?ba TryToOpenWS (None, None) [] a" "conn_at ?bb TryToOpenWS (None, None) [] b"
    using assms(1,2) unfolding incoming_handler_def outgoing_handler_def by (auto intro: new_conn_at)
  from open_turn[OF a0(1) assms(3), of p cr wb None] obtain a1 where
    a1: "handler_turn p cr wb env_ok (EvOpen None) a = Some (Inr (), a1)"
      "conn_at ?ba WaitingConnectMsg (None, None) [StateChange TryToSendConnectMsg, StateChange WaitingConnectMsg] a1"
      "last_sent a1 = Some (ws2p_serialize wb (?ma ?Ca))" by auto
  from open_turn[OF a0(2) assms(4), of p cr wb None] obtain b1 where
    b1: "handler_turn p cr wb env_ok (EvOpen None) b = Some (Inr (), b1)"
      "conn_at ?bb WaitingConnectMsg (None, None) [StateChange TryToSendConnectMsg, StateChange WaitingConnectMsg] b1"
      "last_sent b1 = Some (ws2p_serialize wb (?mb ?Cb))" by auto
  from connect_turn[OF a1(2) assms(3,9) b_parses[OF payloads(2)] own_message_fields(1) assms(7), of OutgoingServer] assms(8)
  obtain a2 where a2: "handler_turn p cr wb env_ok (EvMessage clock (WsBin (ws2p_serialize wb (?mb ?Cb)))) a1 = Some (Inr (), a2)"
      "conn_at ?ba ConnectMessOk (Some (my_node_id nb, PubEd25519 pkb), Some OutgoingServer)
        [StateChange TryToSendConnectMsg, StateChange WaitingConnectMsg, StateChange ConnectMessOk] a2"
      "last_sent a2 = Some (ws2p_serialize wb (?ma (PAck cb)))"
    by (auto simp: generate_connect_message_def connect_type_from_flags_def flags_empty_def)
  from connect_turn[OF b1(2) assms(4,9) a_parses[OF payloads(1)] own_message_fields(1) assms(8), of Incoming] assms(7)
  obtain b2 where b2: "handler_turn p cr wb env_ok (EvMessage clock (WsBin (ws2p_serialize wb (?ma ?Ca)))) b1 = Some (Inr (), b2)"
      "conn_at ?bb ConnectMessOk (Some (my_node_id na, PubEd25519 pka), Some Incoming)
        [StateChange TryToSendConnectMsg, StateChange WaitingConnectMsg, StateChange ConnectMessOk] b2"
      "last_sent b2 = Some (ws2p_serialize wb (?mb (PAck ca)))"
    by (auto simp: generate_connect_message_def)
  from ack_turn[OF a2(2) assms(3,9) b_parses[OF payloads(3)] own_message_fields(1)]
  obtain a3 where a3: "handler_turn p cr wb env_ok (EvMessage clock (WsBin (ws2p_serialize wb (?mb (PAck ca))))) a2 = Some (Inr (), a3)"
      "conn_at ?ba AckMsgOk (Some (my_node_id nb, PubEd25519 pkb), Some OutgoingServer)
        [StateChange TryToSendConnectMsg, StateChange WaitingConnectMsg, StateChange ConnectMessOk, StateChange AckMsgOk] a3"
      "last_sent a3 = Some (ws2p_serialize wb (?ma (POk ok_msg_default)))" by auto
  from ack_turn[OF b2(2) assms(4,9) a_parses[OF payloads(4)] own_message_fields(1)]
  obtain b3 where b3: "handler_turn p cr wb env_ok (EvMessage clock (WsBin (ws2p_serialize wb (?ma (PAck cb))))) b2 = Some (Inr (), b3)"
      "conn_at ?bb AckMsgOk (Some (my_node_id na, PubEd25519 pka), Some Incoming)
        [StateChange TryToSendConnectMsg, StateChange WaitingConnectMsg, StateChange ConnectMessOk, StateChange AckMsgOk] b3"
      "last_sent b3 = Some (ws2p_serialize wb (?mb (POk ok_msg_default)))" by auto
  from ok_turn[OF a3(2) assms(9) b_parses[OF payloads(5)] own_message_fields(1)]
  obtain a4 where a4: "handler_turn p cr wb env_ok (EvMessage clock (WsBin (ws2p_serialize wb (?mb (POk ok_msg_default))))) a3 = Some (Inr (), a4)"
      "conn_at ?ba Established (Some (my_node_id nb, PubEd25519 pkb), Some OutgoingServer)
        ([StateChange TryToSendConnectMsg, StateChange WaitingConnectMsg, StateChange ConnectMessOk, StateChange AckMsgOk] @
         [NewConnEstablished OutgoingServer (my_node_id nb, PubEd25519 pkb)]) a4" by auto
  from ok_turn[OF b3(2) assms(9) a_parses[OF payloads(5)] own_message_fields(1)]
  obtain b4 where b4: "handler_turn p cr wb env_ok (EvMessage clock (WsBin (ws2p_serialize wb (?ma (POk ok_msg_default))))) b3 = Some (Inr (), b4)"
      "conn_at ?bb Established (Some (my_node_id na, PubEd25519 pka), Some Incoming)
        ([StateChange TryToSendConnectMsg, StateChange WaitingConnectMsg, StateChange ConnectMessOk, StateChange AckMsgOk] @
         [NewConnEstablished OutgoingServer (my_node_id na, PubEd25519 pka)]) b4" by auto
  have "negotiate p cr wb clock a b = Some (a4, b4)"
    by (simp add: negotiate_def exchange_def a1(1) b1(1) deliver_turn[OF b1(3) a2(1)] deliver_turn[OF a1(3) b2(1)]
        deliver_turn[OF b2(3) a3(1)] deliver_turn[OF a2(3) b3(1)] deliver_turn[OF b3(3) a4(1)] deliver_turn[OF a3(3) b4(1)])
  then show ?thesis using a4(2) b4(2) unfolding handshake_states_def by blast
qed

text \<open>
  C24: Two nodes that follow the protocol establish their connection. A node that listens and a node that
  has connected to it and expects it, with feature vectors that are not empty, exchange their CONNECT,
  their ACK and their OK messages: both connections are then established, and each node has told its
  orchestrator so, once, with the identity of the other.
\<close>

theorem negotiation_succeeds:
  fixes a b :: "('f, 'm) ws2p_handler"
  assumes "incoming_handler now1 now2 ca currency na (Some []) = Some a"
    and "outgoing_handler (Some (my_node_id na, PubEd25519 pka)) now3 now4 cb currency nb (Some []) = Some b"
    and "my_key_pair na = KeyPairEd25519 pka ska" "my_key_pair nb = KeyPairEd25519 pkb skb"
    and "signs cr pka ska" "signs cr pkb skb" "my_features na \<noteq> []" "my_features nb \<noteq> []" "calm_clock clock"
    and "reads_back wb currency (negotiation_payloads ca (my_features na) cb (my_features nb))"
  shows "\<exists>a' b'. negotiate p cr wb clock a b = Some (a', b') \<and>
    conn_state_of (wh_controller a') = Established \<and> conn_state_of (wh_controller b') = Established \<and>
    (\<exists>states. list_all is_state_change states \<and> wc_orchestrator (wh_controller a') = Some (ControllerSender [] #
       map (ControllerEvent IncomingId) (states @ [NewConnEstablished OutgoingServer (my_node_id nb, PubEd25519 pkb)]))) \<and>
    (\<exists>states. list_all is_state_change states \<and> wc_orchestrator (wh_controller b') = Some (ControllerSender [] #
       map (ControllerEvent (OutgoingId (Some (my_node_id na, PubEd25519 pka))))
         (states @ [NewConnEstablished OutgoingServer (my_node_id na, PubEd25519 pka)])))"
proof -
  from honest_negotiation[OF assms, of p] obtain a' b' where
    "negotiate p cr wb clock a b = Some (a', b')"
    "conn_at (IncomingId, Incoming, ca, currency, na) Established
      (Some (my_node_id nb, PubEd25519 pkb), Some OutgoingServer)
      (handshake_states @ [NewConnEstablished OutgoingServer (my_node_id nb, PubEd25519 pkb)]) a'"
    "conn_at (OutgoingId (Some (my_node_id na, PubEd25519 pka)), OutgoingServer, cb, currency, nb) Established
      (Some (my_node_id na, PubEd25519 pka), Some Incoming)
      (handshake_states @ [NewConnEstablished OutgoingServer (my_node_id na, PubEd25519 pka)]) b'" by blast
  moreover have "list_all is_state_change handshake_states" by (simp add: handshake_states_def is_state_change_def)
  ultimately show ?thesis
    by (intro exI[of _ a'] exI[of _ b'] conjI exI[of _ handshake_states]) (simp_all add: conn_at_def conn_state_of_def Let_def)
qed

text \<open>
  A serialization for the examples, of the payloads of one negotiation: the node, the length of its key,
  the key, and the number of the payload in a list.
\<close>

definition toy_payloads :: "nat ws2p_payload list" where
  "toy_payloads = [PConnect (generate_connect_message Incoming [7] (Hash [3]) None),
     PConnect (generate_connect_message OutgoingServer [5] (Hash [2]) None), PAck (Hash [3]), PAck (Hash [2]),
     POk ok_msg_default]"

definition toy_net :: "(nat, unit) ws2p_bincode" where
  "toy_net = \<lparr>wb_head = (\<lambda>_ node pk payload.
       node # (case pk of PubEd25519 k \<Rightarrow> length k # k | PubSchnorr \<Rightarrow> []) @
         [length (takeWhile (\<lambda>x. x \<noteq> payload) toy_payloads)]),
     wb_read = (\<lambda>b. Inr (WS2P_V2 ((unsigned_message [103] (b ! 0) (take (b ! 1) (drop 2 b))
       (toy_payloads ! (b ! (2 + b ! 1))))\<lparr>wm_signature := Some (SigEd25519 (drop (9 + b ! 1) b))\<rparr>)))\<rparr>"

lemma toy_payload_index:
  "payload \<in> set toy_payloads \<Longrightarrow> toy_payloads ! length (takeWhile (\<lambda>x. x \<noteq> payload) toy_payloads) = payload"
  by (metis (mono_tags, lifting) nth_length_takeWhile length_takeWhile_le set_takeWhileD takeWhile_eq_all_conv
      order_le_less takeWhile_eq_take take_all)

lemma toy_reads_back: "reads_back toy_net [103] (set toy_payloads)"
  by (simp add: reads_back_def toy_net_def ws2p_serialize_def ws2p_body_def unsigned_message_def Let_def
      toy_payload_index nth_append eval_nat_numeral)

lemma toy_negotiation_payloads: "negotiation_payloads (Hash [3]) [7] (Hash [2]) [5] = set toy_payloads"
  by (simp add: negotiation_payloads_def toy_payloads_def)

definition toy_node :: "nat \<Rightarrow> nat list \<Rightarrow> self_node" where
  "toy_node n features = \<lparr>my_node_id = n, my_key_pair = KeyPairEd25519 [n] [n], my_features = features\<rparr>"

definition toy_handler :: "controller_id \<Rightarrow> connect_type \<Rightarrow> hash \<Rightarrow> self_node \<Rightarrow> (nat, unit) ws2p_handler" where
  "toy_handler i t challenge node = \<lparr>wh_calls = [], wh_remote_addr = None, wh_controller = \<lparr>wc_id = i,
      wc_orchestrator = Some [ControllerSender []],
      wc_meta = meta_datas_new 0 0 challenge t [103] node, wc_receiver = []\<rparr>\<rparr>"

lemma toy_new_handler: "new_handler i t 0 0 challenge [103] node (Some []) = Some (toy_handler i t challenge node)"
  by (simp add: new_handler_def controller_try_new_def toy_handler_def)

lemma toy_node_fields [simp]:
  "my_node_id (toy_node n features) = n" "my_key_pair (toy_node n features) = KeyPairEd25519 [n] [n]"
  "my_features (toy_node n features) = features"
  by (simp_all add: toy_node_def)

lemma toy_incoming:
  "incoming_handler 0 0 challenge [103] node (Some []) = Some (toy_handler IncomingId Incoming challenge node)"
  by (simp add: incoming_handler_def toy_new_handler)

lemma toy_outgoing:
  "outgoing_handler expected 0 0 challenge [103] node (Some []) =
     Some (toy_handler (OutgoingId expected) OutgoingServer challenge node)"
  by (simp add: outgoing_handler_def toy_new_handler)

lemma toy_clock: "calm_clock (1, 2, 3)"
  by (simp add: calm_clock_def)

lemma toy_signs: "signs toy_crypto [n] [n]"
  by (simp add: signs_def toy_crypto_def)

lemma toy_negotiation:
  "\<exists>a' b'. negotiate Release toy_crypto toy_net (1, 2, 3)
      (toy_handler IncomingId Incoming (Hash [3]) (toy_node 0 [7]))
      (toy_handler (OutgoingId (Some (0, PubEd25519 [0]))) OutgoingServer (Hash [2]) (toy_node 1 [5])) = Some (a', b') \<and>
    conn_state_of (wh_controller a') = Established"
proof -
  have "reads_back toy_net [103] (negotiation_payloads (Hash [3]) (my_features (toy_node 0 [7])) (Hash [2])
      (my_features (toy_node 1 [5])))"
    using toy_reads_back by (simp add: toy_negotiation_payloads)
  from honest_negotiation[OF toy_incoming toy_outgoing _ _ toy_signs[of 0] toy_signs[of 1] _ _ toy_clock this, of Release]
  show ?thesis by (auto simp: conn_at_def conn_state_of_def Let_def)
qed

theorem negotiation_succeeds_witness:
  "\<exists>a' b'. negotiate Release toy_crypto toy_net (1, 2, 3)
      (toy_handler IncomingId Incoming (Hash [3]) (toy_node 0 [7]))
      (toy_handler (OutgoingId (Some (0, PubEd25519 [0]))) OutgoingServer (Hash [2]) (toy_node 1 [5])) = Some (a', b') \<and>
    conn_state_of (wh_controller a') = Established \<and> conn_state_of (wh_controller b') = Established"
proof -
  have "reads_back toy_net [103] (negotiation_payloads (Hash [3]) (my_features (toy_node 0 [7])) (Hash [2])
      (my_features (toy_node 1 [5])))"
    using toy_reads_back by (simp add: toy_negotiation_payloads)
  from negotiation_succeeds[OF toy_incoming toy_outgoing _ _ toy_signs[of 0] toy_signs[of 1] _ _ toy_clock this, of Release]
  show ?thesis by (auto)
qed

subsection \<open>What an established connection tells\<close>

lemma deliver_run:
  "conn_run p cr wb h0 events h \<Longrightarrow> deliver p cr wb clock a h = Some h' \<Longrightarrow> \<exists>events'. conn_run p cr wb h0 events' h'"
  by (auto simp: deliver_def split: bind_splits prod.splits intro: run_turn)

lemma negotiate_runs:
  assumes "negotiate p cr wb clock a b = Some (a', b')"
  shows "\<exists>events. conn_run p cr wb a events a'"
proof -
  from assms obtain r a1 r' b1 a2 b2 a3 b3 where
    "handler_turn p cr wb env_ok (EvOpen None) a = Some (r, a1)" "deliver p cr wb clock b1 a1 = Some a2"
    "deliver p cr wb clock b2 a2 = Some a3" "deliver p cr wb clock b3 a3 = Some a'"
    by (auto simp: negotiate_def exchange_def split: bind_splits prod.splits)
  then show ?thesis by (meson deliver_run run_start run_turn)
qed

text \<open>
  C22: A connection is established only by a negotiation. Whatever a peer sends and however the websocket
  behaves, when the state of a new connection is Established, a CONNECT has been accepted and after it
  an ACK with the challenge of this connection and an OK, each with the signature of its issuer. The
  connection announced to the orchestrator is that of the issuer of an accepted CONNECT, which is the
  expected node on a connection that this node has opened.
\<close>

theorem established_after_negotiation:
  fixes h0 h :: "('f, 'm) ws2p_handler"
  assumes "new_handler i connect_type now1 now2 challenge currency self (Some []) = Some h0"
    and "conn_run p cr wb h0 events h"
  shows "(conn_state_of (wh_controller h) = Established \<longrightarrow>
      since_connect (\<lambda>ms. acked challenge ms \<and> oked ms) (accepted_messages p cr wb events)) \<and>
    (\<forall>log t remote. wc_orchestrator (wh_controller h) = Some log \<longrightarrow>
      ControllerEvent i (NewConnEstablished t remote) \<in> set log \<longrightarrow>
      since_connect (\<lambda>ms. acked challenge ms \<and> oked ms) (accepted_messages p cr wb events) \<and>
      (\<exists>m \<in> set (accepted_messages p cr wb events).
         is_connect m \<and> remote = (wm_issuer_node_id m, wm_issuer_pubkey m)) \<and>
      (connect_type \<noteq> Incoming \<longrightarrow> expected_remote_full_id i = Some remote))"
proof -
  have h0: "h0 = \<lparr>wh_calls = [], wh_remote_addr = None, wh_controller = \<lparr>wc_id = i,
      wc_orchestrator = Some [ControllerSender []],
      wc_meta = meta_datas_new now1 now2 challenge connect_type currency self, wc_receiver = []\<rparr>\<rparr>"
    using assms(1) by (simp add: new_handler_def controller_try_new_def)
  have "controller_ok (wh_controller h0) [] (wh_controller h0)"
    by (simp add: h0 controller_ok_def meta_datas_new_def conn_state_of_def)
  from run_ok[OF assms(2) this] obtain es where
    ok: "controller_ok (wh_controller h0) (accepted_messages p cr wb events) (wh_controller h)"
    and log: "wc_orchestrator (wh_controller h) = Some (ControllerSender [] # map (ControllerEvent i) es)"
      "list_all (announced (wh_controller h0) (accepted_messages p cr wb events)) es"
    by (auto simp: log_grows_def h0)
  show ?thesis
  proof (intro conjI impI allI)
    assume "conn_state_of (wh_controller h) = Established"
    then show "since_connect (\<lambda>ms. acked challenge ms \<and> oked ms) (accepted_messages p cr wb events)"
      using ok by (simp add: controller_ok_def h0 meta_datas_new_def)
  next
    fix l t remote
    assume "wc_orchestrator (wh_controller h) = Some l" "ControllerEvent i (NewConnEstablished t remote) \<in> set l"
    then have a: "announced (wh_controller h0) (accepted_messages p cr wb events) (NewConnEstablished t remote)"
      using log by (auto simp: list_all_iff)
    then show "since_connect (\<lambda>ms. acked challenge ms \<and> oked ms) (accepted_messages p cr wb events)"
      "\<exists>m \<in> set (accepted_messages p cr wb events). is_connect m \<and> remote = (wm_issuer_node_id m, wm_issuer_pubkey m)"
      "connect_type \<noteq> Incoming \<Longrightarrow> expected_remote_full_id i = Some remote"
      by (simp_all add: announced_def remote_known_def h0 meta_datas_new_def del: split_paired_All)
  qed
qed

theorem established_after_negotiation_witness:
  "\<exists>events h. conn_run Release toy_crypto toy_net (toy_handler IncomingId Incoming (Hash [3]) (toy_node 0 [7])) events h \<and>
    conn_state_of (wh_controller h) = Established \<and>
    since_connect (\<lambda>ms. acked (Hash [3]) ms \<and> oked ms) (accepted_messages Release toy_crypto toy_net events)"
proof -
  let ?a = "toy_handler IncomingId Incoming (Hash [3]) (toy_node 0 [7])"
  obtain a' b' where n: "negotiate Release toy_crypto toy_net (1, 2, 3) ?a
      (toy_handler (OutgoingId (Some (0, PubEd25519 [0]))) OutgoingServer (Hash [2]) (toy_node 1 [5])) = Some (a', b')"
    "conn_state_of (wh_controller a') = Established"
    using toy_negotiation by blast
  then obtain events where "conn_run Release toy_crypto toy_net ?a events a'" using negotiate_runs by blast
  then show ?thesis using established_after_negotiation[OF toy_new_handler] n(2) by blast
qed

subsection \<open>Peers that depart from the protocol\<close>

text \<open>The messages of a list, received one after the other.\<close>

fun receive_all ::
  "profile \<Rightarrow> crypto \<Rightarrow> ('f, 'e) ws2p_bincode \<Rightarrow> nat \<times> nat \<times> nat \<Rightarrow> nat list list \<Rightarrow> ('f, 'm) ws2p_handler \<Rightarrow>
   ('f, 'm) ws2p_handler run" where
  "receive_all p cr wb clock [] h = Some h"
| "receive_all p cr wb clock (raw # raws) h = do {
     (r, h) \<leftarrow> handler_turn p cr wb env_ok (EvMessage clock (WsBin raw)) h;
     receive_all p cr wb clock raws h
   }"

text \<open>
  C23: Only the CONNECT names the peer: the issuers of the ACK and of the OK are compared with nothing. A
  peer that replays a CONNECT of another node, then sends the ACK and the OK signed with a key of its
  own, obtains an established connection that is announced as the connection of that other node,
  although none of its messages holds a signature of the challenge by that node.
\<close>

theorem impersonated_node:
  fixes h :: "('f, 'm) ws2p_handler"
  assumes "conn_at (IncomingId, Incoming, challenge, currency, node) WaitingConnectMsg remote events h"
    and "my_key_pair node = KeyPairEd25519 pk sk" "calm_clock clock"
    and "parse_and_check_bin_message p cr wb raw1 = Some (Inr (WS2P_V2 m1))" "wm_payload m1 = PConnect cm"
    and "parse_and_check_bin_message p cr wb raw2 = Some (Inr (WS2P_V2 m2))" "wm_payload m2 = PAck challenge"
    and "parse_and_check_bin_message p cr wb raw3 = Some (Inr (WS2P_V2 m3))" "wm_payload m3 = POk ok"
    and "wm_issuer_pubkey m2 \<noteq> wm_issuer_pubkey m1" "wm_issuer_pubkey m3 \<noteq> wm_issuer_pubkey m1"
    and "my_features node \<noteq> []" "cm_api_features cm \<noteq> []" "cm_flags_queries cm = []"
  shows "\<exists>h'. receive_all p cr wb clock [raw1, raw2, raw3] h = Some h' \<and>
    conn_state_of (wh_controller h') = Established \<and>
    wc_orchestrator (wh_controller h') = Some (ControllerSender [] # map (ControllerEvent IncomingId)
      (events @ [StateChange ConnectMessOk, StateChange AckMsgOk,
        NewConnEstablished OutgoingServer (wm_issuer_node_id m1, wm_issuer_pubkey m1)]))"
proof -
  let ?base = "(IncomingId, Incoming, challenge, currency, node)"
  let ?who = "(Some (wm_issuer_node_id m1, wm_issuer_pubkey m1), Some OutgoingServer)"
  have "connect_type_from_flags (cm_flags_queries cm) (cm_chunkstamp cm) = Some OutgoingServer"
    using assms(14) by (simp add: connect_type_from_flags_def flags_empty_def)
  with connect_turn[OF assms(1-5,12,13), of OutgoingServer] obtain h1 where
    h1: "handler_turn p cr wb env_ok (EvMessage clock (WsBin raw1)) h = Some (Inr (), h1)"
      "conn_at ?base ConnectMessOk ?who (events @ [StateChange ConnectMessOk]) h1" by auto
  from ack_turn[OF h1(2) assms(2,3,6,7)] obtain h2 where
    h2: "handler_turn p cr wb env_ok (EvMessage clock (WsBin raw2)) h1 = Some (Inr (), h2)"
      "conn_at ?base AckMsgOk ?who ((events @ [StateChange ConnectMessOk]) @ [StateChange AckMsgOk]) h2" by auto
  from ok_turn[OF h2(2) assms(3,8,9)] obtain h3 where
    h3: "handler_turn p cr wb env_ok (EvMessage clock (WsBin raw3)) h2 = Some (Inr (), h3)"
      "conn_at ?base Established ?who (((events @ [StateChange ConnectMessOk]) @ [StateChange AckMsgOk]) @
        [NewConnEstablished OutgoingServer (wm_issuer_node_id m1, wm_issuer_pubkey m1)]) h3" by auto
  have "receive_all p cr wb clock [raw1, raw2, raw3] h = Some h3" by (simp add: h1(1) h2(1) h3(1))
  then show ?thesis using h3(2) by (auto simp: conn_at_def conn_state_of_def Let_def)
qed

text \<open>An incoming connection of the example node that waits for a CONNECT.\<close>

definition toy_waiting :: "(nat, unit) ws2p_handler" where
  "toy_waiting = \<lparr>wh_calls = [], wh_remote_addr = None, wh_controller = \<lparr>wc_id = IncomingId,
      wc_orchestrator = Some [ControllerSender []],
      wc_meta = (meta_datas_new 0 0 (Hash [3]) Incoming [103] (toy_node 0 [7]))\<lparr>md_state := WaitingConnectMsg\<rparr>,
      wc_receiver = []\<rparr>\<rparr>"

lemma toy_waiting_at:
  "conn_at (IncomingId, Incoming, Hash [3], [103], toy_node 0 [7]) WaitingConnectMsg (None, None) [] toy_waiting"
  by (simp add: toy_waiting_def conn_at_def meta_datas_new_def)

definition toy_raw :: "nat \<Rightarrow> nat ws2p_payload \<Rightarrow> nat list" where
  "toy_raw n payload = ws2p_serialize toy_net (own_message toy_crypto toy_net [103] n [n] [n] payload)"

lemma toy_raw_parses:
  "payload \<in> set toy_payloads \<Longrightarrow> parse_and_check_bin_message p toy_crypto toy_net (toy_raw n payload) =
     Some (Inr (WS2P_V2 (own_message toy_crypto toy_net [103] n [n] [n] payload)))"
  unfolding toy_raw_def by (rule own_message_parses[OF toy_reads_back _ toy_signs])

theorem impersonated_node_witness:
  "\<exists>h'. receive_all Release toy_crypto toy_net (1, 2, 3)
      [toy_raw 1 (PConnect (generate_connect_message OutgoingServer [5] (Hash [2]) None)),
       toy_raw 9 (PAck (Hash [3])), toy_raw 9 (POk ok_msg_default)] toy_waiting = Some h' \<and>
    ControllerEvent IncomingId (NewConnEstablished OutgoingServer (1, PubEd25519 [1])) \<in>
      set (the (wc_orchestrator (wh_controller h')))"
proof -
  let ?cm = "generate_connect_message OutgoingServer [5] (Hash [2]) None"
  have parses: "parse_and_check_bin_message Release toy_crypto toy_net (toy_raw n payload) =
      Some (Inr (WS2P_V2 (own_message toy_crypto toy_net [103] n [n] [n] payload)))"
    if "payload \<in> {PConnect ?cm, PAck (Hash [3]), POk ok_msg_default}" for n payload
    using that by (intro toy_raw_parses) (auto simp: toy_payloads_def)
  have k: "my_key_pair (toy_node 0 [7]) = KeyPairEd25519 [0] [0]" by simp
  have "\<exists>h'. receive_all Release toy_crypto toy_net (1, 2, 3)
      [toy_raw 1 (PConnect ?cm), toy_raw 9 (PAck (Hash [3])), toy_raw 9 (POk ok_msg_default)] toy_waiting = Some h' \<and>
    conn_state_of (wh_controller h') = Established \<and>
    wc_orchestrator (wh_controller h') = Some (ControllerSender [] # map (ControllerEvent IncomingId)
      ([] @ [StateChange ConnectMessOk, StateChange AckMsgOk, NewConnEstablished OutgoingServer
        (wm_issuer_node_id (own_message toy_crypto toy_net [103] 1 [1] [1] (PConnect ?cm)),
         wm_issuer_pubkey (own_message toy_crypto toy_net [103] 1 [1] [1] (PConnect ?cm)))]))"
    by (rule impersonated_node[OF toy_waiting_at k toy_clock parses own_message_fields(1) parses own_message_fields(1)
        parses own_message_fields(1)]) (simp_all add: generate_connect_message_def)
  then show ?thesis by auto
qed

text \<open>
  A CONNECT is never out of place: in every state, also when the connection is established or denied,
  it is answered by an ACK and the negotiation starts again with the peer known so far. The order to
  close the connection that the code prepares for it is dropped.
\<close>

theorem unexpected_connect_restarts:
  assumes "conn_at (i, t, challenge, currency, node) s remote events h" "s \<noteq> WaitingConnectMsg"
    and "my_key_pair node = KeyPairEd25519 pk sk" "calm_clock clock"
    and "parse_and_check_bin_message p cr wb raw = Some (Inr (WS2P_V2 m))" "wm_payload m = PConnect cm"
    and "my_features node \<noteq> []" "cm_api_features cm \<noteq> []"
  shows "\<exists>h'. handler_turn p cr wb env_ok (EvMessage clock (WsBin raw)) h = Some (Inr (), h') \<and>
    conn_at (i, t, challenge, currency, node) ConnectMessOk remote (events @ [StateChange ConnectMessOk]) h' \<and>
    last_sent h' = Some (ws2p_serialize wb (own_message cr wb currency (my_node_id node) pk sk (PAck (cm_challenge cm))))"
proof -
  let ?m = "wc_meta (wh_controller h)"
  let ?c = "(wh_controller h)\<lparr>wc_meta := calm clock ?m\<rparr>"
  obtain r where r: "check_features_compatibility (my_features node) (cm_api_features cm) = Some r"
    using features_checked[OF assms(7,8)] by blast
  define fs where "fs = (case r of Inr features \<Rightarrow> Some features | Inl _ \<Rightarrow> md_features ?m)"
  let ?c1 = "?c\<lparr>wc_meta := (wc_meta ?c)\<lparr>md_remote_node := md_remote_node ?m,
      md_remote_connect_type := md_remote_connect_type ?m, md_features := fs\<rparr>\<rparr>"
  have i: "wc_id (wh_controller h) = i" "md_local_node ?m = node" "md_state ?m = s"
    using assms(1) by (auto simp: conn_at_def Let_def)
  have c1: "(case r of Inr features \<Rightarrow> set_meta (md_features_update (\<lambda>_. Some features)) ?c | Inl _ \<Rightarrow> ?c) = ?c1"
    by (auto simp: fs_def calm_def split: sum.splits)
  have "process_payload p cr wb m ?c =
      do { order \<leftarrow> order_payload p cr wb (PAck (cm_challenge cm)) ConnectMessOk ?c1; Some (Inr (Some order), ?c1) }"
    using assms(2) by (simp add: process_payload_def assms(6) process_connect_msg_def Let_def conn_state_of_def i r c1)
  from reply_turn[OF assms(1,3,4,5) _ _ _ this, of fs "md_remote_connect_type ?m" "md_remote_node ?m"] assms(1)
  show ?thesis by (auto simp: conn_at_def Let_def)
qed

theorem unexpected_connect_restarts_witness:
  "\<exists>h'. handler_turn Release toy_crypto toy_net env_ok
      (EvMessage (1, 2, 3) (WsBin (toy_raw 1 (PConnect (generate_connect_message OutgoingServer [5] (Hash [2]) None)))))
      (toy_waiting\<lparr>wh_controller := set_state Established (wh_controller toy_waiting)\<rparr>) = Some (Inr (), h') \<and>
    conn_state_of (wh_controller h') = ConnectMessOk"
proof -
  let ?cm = "generate_connect_message OutgoingServer [5] (Hash [2]) None"
  have at: "conn_at (IncomingId, Incoming, Hash [3], [103], toy_node 0 [7]) Established (None, None) []
      (toy_waiting\<lparr>wh_controller := set_state Established (wh_controller toy_waiting)\<rparr>)"
    using toy_waiting_at by (simp add: conn_at_def Let_def)
  have parses: "parse_and_check_bin_message Release toy_crypto toy_net (toy_raw 1 (PConnect ?cm)) =
      Some (Inr (WS2P_V2 (own_message toy_crypto toy_net [103] 1 [1] [1] (PConnect ?cm))))"
    by (intro toy_raw_parses) (simp add: toy_payloads_def)
  have k: "my_key_pair (toy_node 0 [7]) = KeyPairEd25519 [0] [0]" by simp
  from unexpected_connect_restarts[OF at _ k toy_clock parses own_message_fields(1)] show ?thesis
    by (auto simp: generate_connect_message_def conn_at_def conn_state_of_def Let_def)
qed

text \<open>
  When the OK comes before the ACK, the connection is established by the ACK, and the orchestrator is
  told of a change of state only: no NewConnEstablished is sent.
\<close>

lemma silent_establishment:
  assumes at: "conn_at (i, t, challenge, currency, node) OkMsgOkWaitingAckMsg remote events h"
      "my_key_pair node = KeyPairEd25519 pk sk"
    and m: "calm_clock clock" "parse_and_check_bin_message p cr wb raw = Some (Inr (WS2P_V2 m))" "wm_payload m = PAck challenge"
  shows "\<exists>h'. handler_turn p cr wb env_ok (EvMessage clock (WsBin raw)) h = Some (Inr (), h') \<and>
    conn_at (i, t, challenge, currency, node) Established remote (events @ [StateChange Established]) h'"
proof -
  let ?m = "wc_meta (wh_controller h)"
  let ?c = "(wh_controller h)\<lparr>wc_meta := calm clock ?m\<rparr>"
  have "process_payload p cr wb m ?c =
      do { order \<leftarrow> order_payload p cr wb (POk ok_msg_default) Established ?c; Some (Inr (Some order), ?c) }"
    using at by (simp add: process_payload_def m(3) process_ack_msg_def process_ack_def conn_state_of_def conn_at_def Let_def)
  from reply_turn[OF at m(1,2) _ _ _ this, of "md_features ?m" "md_remote_connect_type ?m" "md_remote_node ?m"] at
  show ?thesis by (auto simp: conn_at_def Let_def calm_def)
qed

subsection \<open>Timeouts\<close>

text \<open>
  The timer closes a connection exactly when it has waited too long: an established one more than 120
  whole seconds after its last message, any other one more than 15 whole seconds after its creation,
  whatever was received meanwhile. Otherwise the timer is only started again.
\<close>

theorem idle_connection_closed:
  fixes h :: "('f, 'm) ws2p_handler"
  assumes "since = (if conn_state_of (wh_controller h) = Established then md_last_mess_time (wc_meta (wh_controller h))
      else md_creation_time (wc_meta (wh_controller h)))" "since \<le> now"
    and "limit = (if conn_state_of (wh_controller h) = Established then 121 else 16 :: nat)"
  shows "\<exists>h'. handler_turn p cr wb env_ok (EvTimeout now) h = Some (Inr (), h') \<and>
    (if now - since \<ge> limit * 1000000000
     then conn_state_of (wh_controller h') = Close \<and>
       (\<exists>reason. wh_calls h' = wh_calls h @ [WsTimeout 1000, WsClose reason])
     else h' = h\<lparr>wh_calls := wh_calls h @ [WsTimeout 1000]\<rparr>)"
proof -
  have secs: "(as_secs d > n) = (d \<ge> Suc n * 1000000000)" for d n
    by (auto simp: as_secs_def less_eq_div_iff_mult_less_eq Suc_le_eq[symmetric])
  have closed: "\<exists>h'. exec_order_opt env_ok (Some \<lparr>ao_ws_action = CloseConnection (Some reason),
        ao_new_state_if_success = Some Close, ao_new_state_if_fail = Unreachable\<rparr>) g = Some (Inr (), h') \<and>
      conn_state_of (wh_controller h') = Close \<and> wh_calls h' = wh_calls g @ [WsClose reason]"
    for reason and g :: "('f, 'm) ws2p_handler"
    by (simp add: exec_order_opt_def exec_ws_action_def ws_call_done_def env_ok_def update_snd)
  let ?g = "h\<lparr>wh_calls := wh_calls h @ [WsTimeout 1000]\<rparr>"
  have turn: "handler_turn p cr wb env_ok (EvTimeout now) h =
      (check_timeouts now (wh_controller h) \<bind> (\<lambda>o'. exec_order_opt env_ok o' ?g))"
    by (simp add: handler_turn_def handler_on_timeout_def ws_call_done_def env_ok_def)
  have "\<exists>reason. check_timeouts now (wh_controller h) = Some (if now - since \<ge> limit * 1000000000
      then Some \<lparr>ao_ws_action = CloseConnection (Some reason), ao_new_state_if_success = Some Close,
        ao_new_state_if_fail = Unreachable\<rparr> else None)"
    using assms by (cases "conn_state_of (wh_controller h) = Established") (auto simp: check_timeouts_def
        duration_since_def secs expire_timeout_secs_def negotiation_timeout_secs_def)
  then obtain reason where reason: "check_timeouts now (wh_controller h) = Some (if now - since \<ge> limit * 1000000000
      then Some \<lparr>ao_ws_action = CloseConnection (Some reason), ao_new_state_if_success = Some Close,
        ao_new_state_if_fail = Unreachable\<rparr> else None)" by blast
  show ?thesis
  proof (cases "now - since \<ge> limit * 1000000000")
    case True
    then show ?thesis using closed[of reason ?g] by (auto simp: turn reason)
  qed (simp add: turn reason exec_order_opt_def)
qed

theorem idle_connection_closed_witness:
  "\<exists>h'. handler_turn Release toy_crypto toy_net env_ok (EvTimeout 16000000000) toy_waiting = Some (Inr (), h') \<and>
    conn_state_of (wh_controller h') = Close"
  using idle_connection_closed[of 0 toy_waiting 16000000000 16 Release toy_crypto toy_net]
  by (auto simp: toy_waiting_def conn_state_of_def meta_datas_new_def)

end
