(* ===== verification/Ws2p_Module.thy ===== *)
theory Ws2p_Module
  imports Ws2p_Handler Core_Modules
begin

text \<open>
  The module of the peer to peer protocol, \<open>lib/modules/ws2p/ws2p/src\<close>: its configuration, its start
  and its main loop (\<open>lib.rs\<close>), the peer card of the node (\<open>generate_peer.rs\<close>), and the orchestrator of
  outgoing connections (\<open>services/outgoing.rs\<close>, \<open>controllers/outgoing_connections.rs\<close>).

  The length of the serialization of an endpoint by bincode is an argument.
\<close>

subsection \<open>Configuration\<close>

record ws2p_conf =
  wcf_outcoming_quota :: nat
  wcf_sync_endpoints :: "endpoint_enum list"

record ws2p_user_conf =
  wuc_outcoming_quota :: "nat option"
  wuc_sync_endpoints :: "endpoint_enum list option"

fun opt_or :: "'a option \<Rightarrow> 'a option \<Rightarrow> 'a option" where
  "opt_or (Some v) _ = Some v"
| "opt_or None o' = o'"

definition user_conf_merge :: "ws2p_user_conf \<Rightarrow> ws2p_user_conf \<Rightarrow> ws2p_user_conf" where
  "user_conf_merge a b =
     \<lparr>wuc_outcoming_quota = opt_or (wuc_outcoming_quota a) (wuc_outcoming_quota b),
      wuc_sync_endpoints = opt_or (wuc_sync_endpoints a) (wuc_sync_endpoints b)\<rparr>"

definition unwrap_endpoint :: "(parse_error + endpoint_enum) run \<Rightarrow> endpoint_enum run" where
  "unwrap_endpoint r = do { ep \<leftarrow> r; (case ep of Inr e \<Rightarrow> Some e | Inl _ \<Rightarrow> None) }"

definition ws2p_conf_default :: "net_codecs \<Rightarrow> net_rule pest_parser \<Rightarrow> ws2p_conf run" where
  "ws2p_conf_default nc pest = do {
     e1 \<leftarrow> unwrap_endpoint (e2_parse_from_raw nc pest (ascii ''WS2P 2 g1.durs.info 443 ws2p''));
     e2 \<leftarrow> unwrap_endpoint (e2_parse_from_raw nc pest (ascii ''WS2P 2 rs.g1.librelois.fr 443 ws2p''));
     Some \<lparr>wcf_outcoming_quota = 10, wcf_sync_endpoints = [e1, e2]\<rparr>
   }"

definition generate_module_conf ::
  "net_codecs \<Rightarrow> net_rule pest_parser \<Rightarrow> ws2p_user_conf option \<Rightarrow> (ws2p_conf \<times> ws2p_user_conf option) run" where
  "generate_module_conf nc pest module_user_conf = do {
     conf \<leftarrow> ws2p_conf_default nc pest;
     let conf = (case module_user_conf of
         Some user \<Rightarrow>
           (let conf = (case wuc_outcoming_quota user of Some q \<Rightarrow> conf\<lparr>wcf_outcoming_quota := q\<rparr> | None \<Rightarrow> conf)
            in (case wuc_sync_endpoints user of Some eps \<Rightarrow> conf\<lparr>wcf_sync_endpoints := eps\<rparr> | None \<Rightarrow> conf))
       | None \<Rightarrow> conf);
     Some (conf, module_user_conf)
   }"

datatype ws2p_features_parse_error = UnknowApiFeature ustring

text \<open>The assignment \<open>api_features[0] += flag\<close> on the features read so far.\<close>

definition add_feature :: "profile \<Rightarrow> nat \<Rightarrow> nat list \<Rightarrow> nat list run" where
  "add_feature p flag features = do {
     b \<leftarrow> first_of features;
     sum \<leftarrow> (if b + flag < 256 then Some (b + flag) else case p of Debug \<Rightarrow> None | Release \<Rightarrow> Some ((b + flag) mod 256));
     Some (features[0 := sum])
   }"

fun parse_features ::
  "profile \<Rightarrow> ustring list \<Rightarrow> nat list \<Rightarrow> (ws2p_features_parse_error + nat list) run" where
  "parse_features p [] features = Some (Inr features)"
| "parse_features p (s # ss) features =
     (if s = ascii ''DEF'' then do { features \<leftarrow> add_feature p 1 features; parse_features p ss features }
      else if s = ascii ''LOW'' then do { features \<leftarrow> add_feature p 2 features; parse_features p ss features }
      else if s = ascii ''ABF'' then do { features \<leftarrow> add_feature p 4 features; parse_features p ss features }
      else Some (Inl (UnknowApiFeature s)))"

definition parse_raw_api_features :: "profile \<Rightarrow> ustring \<Rightarrow> (ws2p_features_parse_error + nat list) run" where
  "parse_raw_api_features p str_features = parse_features p (split_on 32 str_features) []"

text \<open>No feature is ever read: the first known one is added to an empty vector.\<close>

lemma parse_raw_api_features_spec:
  "parse_raw_api_features p s =
     (if hd (split_on 32 s) \<in> {ascii ''DEF'', ascii ''LOW'', ascii ''ABF''} then None
      else Some (Inl (UnknowApiFeature (hd (split_on 32 s)))))"
  using split_on_nonempty[of 32 s]
  by (cases "split_on 32 s") (auto simp: parse_raw_api_features_def add_feature_def first_of_def)

subsection \<open>The peer card of the node\<close>

definition is_endpoint_v2 :: "endpoint_enum \<Rightarrow> bool" where
  "is_endpoint_v2 ep = (case ep of EndpointV2 _ \<Rightarrow> True | _ \<Rightarrow> False)"

text \<open>An endpoint goes to the list of its shorter form, text or binary; the others are dropped.\<close>

definition add_endpoint ::
  "net_codecs \<Rightarrow> (endpoint_v2 \<Rightarrow> nat) \<Rightarrow> endpoint_enum \<Rightarrow> endpoint_v2 list \<times> ustring list \<Rightarrow>
   (endpoint_v2 list \<times> ustring list) run" where
  "add_endpoint nc bin_len ep = (\<lambda>(bins, strs). (case ep of
      EndpointV2 ep_v2 \<Rightarrow> do {
        str_ep \<leftarrow> e2_to_string nc ep_v2;
        Some (if str_len str_ep < bin_len ep_v2 then (bins, strs @ [str_ep]) else (bins @ [ep_v2], strs))
      }
    | EndpointV1 _ \<Rightarrow> Some (bins, strs)))"

definition self_peer_update_endpoints ::
  "net_codecs \<Rightarrow> (endpoint_v2 \<Rightarrow> nat) \<Rightarrow> peer_card_v11 \<Rightarrow> blockstamp \<Rightarrow> endpoint_enum list \<Rightarrow> peer_card_v11 run" where
  "self_peer_update_endpoints nc bin_len self_peer blockstamp new_endpoints = do {
     let apis = map ep_api (filter is_endpoint_v2 new_endpoints);
     let bins = filter (\<lambda>ep. e2_api ep \<notin> set apis) (p11_endpoints self_peer);
     strs \<leftarrow> fold_run (\<lambda>ep strs. do {
         api \<leftarrow> first_of (split_on 32 ep);
         Some (if api \<notin> set apis then strs @ [ep] else strs)
       }) (p11_endpoints_str self_peer) [];
     (bins, strs) \<leftarrow> fold_run (add_endpoint nc bin_len) new_endpoints (bins, strs);
     Some \<lparr>p11_currency_name = p11_currency_name self_peer, p11_issuer = p11_issuer self_peer,
       p11_node_id = p11_node_id self_peer, p11_blockstamp = blockstamp, p11_endpoints = bins,
       p11_endpoints_str = strs, p11_sig = None\<rparr>
   }"

definition generate_self_peer ::
  "net_codecs \<Rightarrow> (endpoint_v2 \<Rightarrow> nat) \<Rightarrow> ustring \<Rightarrow> pub_key \<Rightarrow> net_node_id \<Rightarrow> blockstamp \<Rightarrow> endpoint_enum list \<Rightarrow>
   peer_card_v11 run" where
  "generate_self_peer nc bin_len currency_name issuer node_id blockstamp endpoints = do {
     (bins, strs) \<leftarrow> fold_run (add_endpoint nc bin_len) endpoints ([], []);
     Some \<lparr>p11_currency_name = currency_name, p11_issuer = issuer, p11_node_id = node_id,
       p11_blockstamp = blockstamp, p11_endpoints = bins, p11_endpoints_str = strs, p11_sig = None\<rparr>
   }"

subsection \<open>Start and main loop\<close>

datatype ws2p_error = UnexpectedKeys

definition ws2p_registration :: "'c \<Rightarrow> 'c module_registration" where
  "ws2p_registration sender = \<lparr>mr_static_name = ascii ''ws2p'', mr_sender = sender,
     mr_roles = [InterNodesNetwork], mr_events_subscription = [NewValidBlock, NewWotDocInPool, NewTxinPool],
     mr_reserved_apis_parts = [\<lparr>ap_name = ascii ''WS2P'', ap_versions = {2}\<rparr>], mr_endpoints = []\<rparr>"

text \<open>The messages received until a stop or the end of the channel.\<close>

fun ws2p_loop :: "('e, 'q, 's) durs_msg list \<Rightarrow> ('e, 'q, 's) durs_msg list" where
  "ws2p_loop [] = []"
| "ws2p_loop (msg # msgs) = (case msg of MsgStop \<Rightarrow> msgs | _ \<Rightarrow> ws2p_loop msgs)"

text \<open>The start, with the registration it sends; the messages not read are left in the channel.\<close>

definition ws2p_start ::
  "required_keys_content \<Rightarrow> bool \<Rightarrow> 'c \<Rightarrow> ('e, 'q, 's) durs_msg list \<Rightarrow>
   (ws2p_error + 'c module_registration \<times> ('e, 'q, 's) durs_msg list) run" where
  "ws2p_start keys router_up sender msgs = (case keys of
      NetworkKeyPair key_pair \<Rightarrow>
        (if \<not> router_up then None else Some (Inr (ws2p_registration sender, ws2p_loop msgs)))
    | _ \<Rightarrow> Some (Inl UnexpectedKeys))"

definition ws2p_module :: durs_module where
  "ws2p_module = \<lparr>dm_name = ascii ''ws2p'', dm_priority = Essential, dm_required_keys = RequireNetworkKeyPair\<rparr>"

subsection \<open>Outgoing connections\<close>

record outgoing_connection =
  oc_endpoint :: endpoint_enum
  oc_controller :: "action_order list"

record endpoint_in_error =
  ee_last_attempt_time :: nat
  ee_error :: conn_state

record ('f, 'm) outgoing_orchestrator =
  oo_currency :: ustring
  oo_self_node :: self_node
  oo_quota :: nat
  oo_connections :: "node_full_id \<rightharpoonup> outgoing_connection"
  oo_endpoints_in_error :: "node_full_id \<rightharpoonup> endpoint_in_error"
  oo_never_try_endpoints :: "endpoint_enum list"
  oo_receiver :: "('f, 'm) orchestrator_msg list"

definition outgoing_orchestrator_new :: "ustring \<Rightarrow> ws2p_conf \<Rightarrow> self_node \<Rightarrow> ('f, 'm) outgoing_orchestrator" where
  "outgoing_orchestrator_new currency conf self_node =
     \<lparr>oo_currency = currency, oo_self_node = self_node, oo_quota = wcf_outcoming_quota conf,
      oo_connections = Map.empty, oo_endpoints_in_error = Map.empty, oo_never_try_endpoints = [], oo_receiver = []\<rparr>"

datatype ws_error = UnknownError

text \<open>
  The connection of the websocket crate is an argument: it takes the url and the handler of the
  connection, and returns whether the connection ran.
\<close>

definition connect_to_ws2p_v2_endpoint ::
  "net_codecs \<Rightarrow> (ustring \<Rightarrow> ('f, 'm) ws2p_handler run \<Rightarrow> bool) \<Rightarrow> nat \<Rightarrow> nat \<Rightarrow> hash \<Rightarrow> ('f, 'm) outgoing_orchestrator \<Rightarrow>
   endpoint_enum \<Rightarrow> net_node_id option \<Rightarrow> (ws_error + unit) run" where
  "connect_to_ws2p_v2_endpoint nc ws_connect now1 now2 challenge o' endpoint remote_node_id = do {
     expected_remote_full_id \<leftarrow> (case remote_node_id of
         Some n \<Rightarrow> do { k \<leftarrow> ep_pubkey endpoint; Some (Some (n, k)) }
       | None \<Rightarrow> Some None);
     ws_url \<leftarrow> ep_get_url nc endpoint True False;
     Some (if ws_connect ws_url (outgoing_handler expected_remote_full_id now1 now2 challenge (oo_currency o')
         (oo_self_node o') (Some (oo_receiver o')))
       then Inr () else Inl UnknownError)
   }"

text \<open>An endpoint of version 2 has no key: the service cannot connect to a node that it expects there.\<close>

lemma expected_v2_panics:
  "connect_to_ws2p_v2_endpoint nc ws_connect now1 now2 challenge o' (EndpointV2 ep) (Some n) = None"
  by (simp add: connect_to_ws2p_v2_endpoint_def)

text \<open>Without an expected node, the first CONNECT received on an outgoing connection panics.\<close>

lemma unexpected_peer_panics:
  assumes "conn_state_of c = WaitingConnectMsg" "md_connect_type (wc_meta c) = OutgoingServer" "wc_id c = OutgoingId None"
  shows "process_connect_msg p cr wb remote cm c = None"
  using assms by (simp add: process_connect_msg_def Let_def)

subsection \<open>The endpoints of a new peer card\<close>

lemma is_endpoint_v2_simps [simp]: "\<not> is_endpoint_v2 (EndpointV1 e1)" "is_endpoint_v2 (EndpointV2 e)"
  by (simp_all add: is_endpoint_v2_def)

lemma add_endpoint_simps:
  "add_endpoint nc bin_len (EndpointV1 e1) s = Some s"
  "add_endpoint nc bin_len (EndpointV2 e) (bins, strs) = map_option (\<lambda>t. if str_len t < bin_len e
     then (bins, strs @ [t]) else (bins @ [e], strs)) (e2_to_string nc e)"
  by (cases s; cases "e2_to_string nc e"; simp add: add_endpoint_def)+

text \<open>The endpoints kept in text and in binary form are those given, in their order.\<close>

lemma add_endpoints_spec:
  assumes "fold_run (add_endpoint nc bin_len) eps (bins, strs) = Some (bins', strs')"
  shows "\<exists>short long. bins' = bins @ long \<and> map Some strs' = map Some strs @ map (e2_to_string nc) short \<and>
    (\<forall>e. EndpointV2 e \<in> set eps \<longleftrightarrow> e \<in> set short \<or> e \<in> set long) \<and>
    (\<forall>e \<in> set short. \<exists>s. e2_to_string nc e = Some s \<and> str_len s < bin_len e) \<and>
    length short + length long = length (filter is_endpoint_v2 eps)"
  using assms
proof (induction eps arbitrary: bins strs)
  case (Cons ep eps)
  show ?case
  proof (cases ep)
    case (EndpointV1 e1)
    then show ?thesis using Cons by (auto simp: add_endpoint_simps)
  next
    case (EndpointV2 e)
    then obtain s where s: "e2_to_string nc e = Some s" "fold_run (add_endpoint nc bin_len) eps
        (if str_len s < bin_len e then (bins, strs @ [s]) else (bins @ [e], strs)) = Some (bins', strs')"
      using Cons.prems by (cases "e2_to_string nc e") (auto simp: add_endpoint_simps)
    show ?thesis
    proof (cases "str_len s < bin_len e")
      case True
      with Cons.IH s(2) obtain short long where "bins' = bins @ long"
        "map Some strs' = map Some (strs @ [s]) @ map (e2_to_string nc) short"
        "\<forall>e. EndpointV2 e \<in> set eps \<longleftrightarrow> e \<in> set short \<or> e \<in> set long"
        "\<forall>e \<in> set short. \<exists>s. e2_to_string nc e = Some s \<and> str_len s < bin_len e"
        "length short + length long = length (filter is_endpoint_v2 eps)" by fastforce
      then show ?thesis using s(1) True EndpointV2
        by - (rule exI[of _ "e # short"], rule exI[of _ long], auto)
    next
      case False
      with Cons.IH s(2) obtain short long where "bins' = (bins @ [e]) @ long"
        "map Some strs' = map Some strs @ map (e2_to_string nc) short"
        "\<forall>e. EndpointV2 e \<in> set eps \<longleftrightarrow> e \<in> set short \<or> e \<in> set long"
        "\<forall>e \<in> set short. \<exists>s. e2_to_string nc e = Some s \<and> str_len s < bin_len e"
        "length short + length long = length (filter is_endpoint_v2 eps)" by fastforce
      then show ?thesis using s(1) False EndpointV2
        by - (rule exI[of _ short], rule exI[of _ "e # long"], auto)
    qed
  qed
qed simp

end
