(* ===== verification/Core_Router.thy ===== *)
theory Core_Router
  imports Core_Modules "HOL-Library.AList" "HOL-Library.Multiset"
begin

text \<open>
  The router of the modules, \<open>lib/core/core/src/router.rs\<close>: the thread that broadcasts events and
  requests to the modules that subscribe to them, and the thread that receives all messages, keeps
  the responses and relays the rest.

  A channel is a value; what the threads send goes to the end of a list of channels and messages.
  Sending on a channel whose receiver is gone, \<open>\<not> up c\<close>, fails. The clock is an argument of each
  turn: the seconds since the start, when it is read. The map of the reserved parts of the APIs is
  an association list, because its values are visited; the order does not matter.
\<close>

definition max_registration_delay :: nat where
  "max_registration_delay = 20"

datatype durs_msg_receiver = ReceiverRole module_role | ReceiverEvent module_event | ReceiverOne durs_name

type_synonym ('c, 'm) mailbox = "('c \<times> 'm) list"

definition send :: "('c \<Rightarrow> bool) \<Rightarrow> 'c \<Rightarrow> 'm \<Rightarrow> ('c, 'm) mailbox \<Rightarrow> ('c, 'm) mailbox run" where
  "send up c m sent = (if up c then Some (sent @ [(c, m)]) else None)"

text \<open>\<open>entry(k).or_insert_with(Vec::new).push(x)\<close>.\<close>

definition push_entry :: "'k \<Rightarrow> 'v \<Rightarrow> ('k \<rightharpoonup> 'v list) \<Rightarrow> ('k \<rightharpoonup> 'v list)" where
  "push_entry k x m = m(k \<mapsto> (case m k of Some xs \<Rightarrow> xs | None \<Rightarrow> []) @ [x])"

definition entry_or_empty :: "('k \<rightharpoonup> 'v list) \<Rightarrow> 'k \<Rightarrow> 'v list" where
  "entry_or_empty m k = (case m k of Some xs \<Rightarrow> xs | None \<Rightarrow> [])"

text \<open>The receivers from the second one on, then the first one; a receiver without sender is skipped.\<close>

definition send_msg_to_several_receivers ::
  "('c \<Rightarrow> bool) \<Rightarrow> 'm \<Rightarrow> durs_name list \<Rightarrow> (durs_name \<rightharpoonup> 'c) \<Rightarrow> ('c, 'm) mailbox \<Rightarrow> ('c, 'm) mailbox run" where
  "send_msg_to_several_receivers up msg receivers modules_senders sent = (case receivers of
      [] \<Rightarrow> Some sent
    | first # rest \<Rightarrow>
        fold_run (\<lambda>name sent. case modules_senders name of Some c \<Rightarrow> send up c msg sent | None \<Rightarrow> Some sent)
          (rest @ [first]) sent)"

subsection \<open>The broadcasting thread\<close>

record ('c, 'm) broadcaster =
  b_senders :: "durs_name \<rightharpoonup> 'c"
  b_pool :: "durs_msg_receiver \<rightharpoonup> 'm list"
  b_subscriptions :: "module_event \<rightharpoonup> durs_name list"
  b_roles :: "module_role \<rightharpoonup> durs_name list"
  b_count :: nat
  b_expected :: "nat option"
  b_local_endpoints :: "endpoint_enum list"
  b_reserved :: "(durs_name \<times> api_part list) list"
  b_sent :: "('c, 'm) mailbox"

definition broadcaster_start :: "('c, 'm) broadcaster" where
  "broadcaster_start = \<lparr>b_senders = (\<lambda>_. None), b_pool = (\<lambda>_. None), b_subscriptions = (\<lambda>_. None),
     b_roles = (\<lambda>_. None), b_count = 0, b_expected = None, b_local_endpoints = [], b_reserved = [], b_sent = []\<rparr>"

fun msg_receiver :: "('e, 'q, 's) durs_msg \<Rightarrow> durs_msg_receiver option" where
  "msg_receiver (MsgEvent _ event_type _) = Some (ReceiverEvent event_type)"
| "msg_receiver (MsgRequest _ req_to _ _) = Some (ReceiverRole req_to)"
| "msg_receiver (MsgResponse _ res_to _ _) = Some (ReceiverOne res_to)"
| "msg_receiver _ = None"

definition store_msg_in_pool ::
  "nat \<Rightarrow> ('e, 'q, 's) durs_msg \<Rightarrow> (durs_msg_receiver \<rightharpoonup> ('e, 'q, 's) durs_msg list) \<Rightarrow>
   (durs_msg_receiver \<rightharpoonup> ('e, 'q, 's) durs_msg list)" where
  "store_msg_in_pool elapsed msg pool_msgs =
     (if elapsed < max_registration_delay
      then (case msg_receiver msg of Some r \<Rightarrow> push_entry r msg pool_msgs | None \<Rightarrow> pool_msgs)
      else (\<lambda>_. None))"

text \<open>The registration of a module: the pending messages of each event, then of each role.\<close>

definition replay ::
  "('c \<Rightarrow> bool) \<Rightarrow> 'c \<Rightarrow> durs_msg_receiver \<Rightarrow> ('c, 'm) broadcaster \<Rightarrow> ('c, 'm) broadcaster run" where
  "replay up c r st = do {
     sent \<leftarrow> fold_run (send up c) (entry_or_empty (b_pool st) r) (b_sent st);
     Some (st\<lparr>b_sent := sent\<rparr>)
   }"

definition subscribe ::
  "('c \<Rightarrow> bool) \<Rightarrow> 'c module_registration \<Rightarrow> module_event \<Rightarrow> ('c, 'm) broadcaster \<Rightarrow> ('c, 'm) broadcaster run" where
  "subscribe up reg event st = do {
     st \<leftarrow> replay up (mr_sender reg) (ReceiverEvent event) st;
     Some (st\<lparr>b_subscriptions := push_entry event (mr_static_name reg) (b_subscriptions st)\<rparr>)
   }"

definition take_role ::
  "('c \<Rightarrow> bool) \<Rightarrow> 'c module_registration \<Rightarrow> module_role \<Rightarrow> ('c, 'm) broadcaster \<Rightarrow> ('c, 'm) broadcaster run" where
  "take_role up reg role st = do {
     st \<leftarrow> replay up (mr_sender reg) (ReceiverRole role) st;
     Some (st\<lparr>b_roles := push_entry role (mr_static_name reg) (b_roles st)\<rparr>)
   }"

definition api_conflict :: "'c module_registration \<Rightarrow> (durs_name \<times> api_part list) list \<Rightarrow> bool" where
  "api_conflict reg reserved \<longleftrightarrow>
     list_ex (\<lambda>(_, others). list_ex (\<lambda>other. list_ex (\<lambda>part. union_exist part other) (mr_reserved_apis_parts reg)) others)
       reserved"

definition endpoints_declared :: "'c module_registration \<Rightarrow> bool" where
  "endpoints_declared reg \<longleftrightarrow>
     list_all (\<lambda>ep. list_ex (\<lambda>part. part_contains part (ep_api ep) (ep_version ep)) (mr_reserved_apis_parts reg))
       (mr_endpoints reg)"

definition register_module ::
  "('c \<Rightarrow> bool) \<Rightarrow> 'c module_registration \<Rightarrow> ('c, ('e, 'q, 's) durs_msg) broadcaster \<Rightarrow>
   ('c, ('e, 'q, 's) durs_msg) broadcaster run" where
  "register_module up reg st = do {
     let st = st\<lparr>b_count := b_count st + 1\<rparr>;
     st \<leftarrow> fold_run (subscribe up reg) (mr_events_subscription reg) st;
     st \<leftarrow> fold_run (take_role up reg) (mr_roles reg) st;
     if api_conflict reg (b_reserved st) then None
     else if \<not> endpoints_declared reg then None
     else do {
       let st = st\<lparr>b_reserved := AList.update (mr_static_name reg) (mr_reserved_apis_parts reg) (b_reserved st),
         b_local_endpoints := b_local_endpoints st @ mr_endpoints reg\<rparr>;
       st \<leftarrow> (if b_expected st = Some (b_count st) then do {
           receivers \<leftarrow> b_roles st InterNodesNetwork;
           sent \<leftarrow> send_msg_to_several_receivers up (MsgModulesEndpoints (b_local_endpoints st)) receivers
             (b_senders st) (b_sent st);
           Some (st\<lparr>b_sent := sent\<rparr>)
         } else Some st);
       Some (st\<lparr>b_senders := (b_senders st)(mr_static_name reg \<mapsto> mr_sender reg)\<rparr>)
     }
   }"

text \<open>The two relayed kinds of messages; a stop ends the loop.\<close>

fun broadcast ::
  "('c \<Rightarrow> bool) \<Rightarrow> nat \<Rightarrow> ('e, 'q, 's) durs_msg \<Rightarrow> ('c, ('e, 'q, 's) durs_msg) broadcaster \<Rightarrow>
   ('c, ('e, 'q, 's) durs_msg) broadcaster run" where
  "broadcast up elapsed (MsgEvent event_from event_type content) st = do {
     let msg = MsgEvent event_from event_type content;
     let receivers = filter (\<lambda>name. name \<noteq> event_from) (entry_or_empty (b_subscriptions st) event_type);
     sent \<leftarrow> send_msg_to_several_receivers up msg receivers (b_senders st) (b_sent st);
     Some (st\<lparr>b_pool := store_msg_in_pool elapsed msg (b_pool st), b_sent := sent\<rparr>)
   }"
| "broadcast up elapsed (MsgRequest req_from req_to req_id content) st = do {
     let msg = MsgRequest req_from req_to req_id content;
     sent \<leftarrow> send_msg_to_several_receivers up msg (entry_or_empty (b_roles st) req_to) (b_senders st) (b_sent st);
     Some (st\<lparr>b_pool := store_msg_in_pool elapsed msg (b_pool st), b_sent := sent\<rparr>)
   }"
| "broadcast up elapsed msg st = Some st"

text \<open>A turn of the loop: the message, if one comes within a second, and the end of the delay.\<close>

definition registration_late :: "nat \<Rightarrow> ('c, 'm) broadcaster \<Rightarrow> bool" where
  "registration_late elapsed st \<longleftrightarrow>
     (case b_expected st of None \<Rightarrow> True | Some n \<Rightarrow> b_count st < n) \<and> elapsed > max_registration_delay"

fun handle_broadcast ::
  "('c \<Rightarrow> bool) \<Rightarrow> nat \<Rightarrow> ('c, ('e, 'q, 's) durs_msg) router_thread_message \<Rightarrow> ('c, ('e, 'q, 's) durs_msg) broadcaster \<Rightarrow>
   (bool \<times> ('c, ('e, 'q, 's) durs_msg) broadcaster) run" where
  "handle_broadcast up elapsed (ModulesCount modules_count) st = Some (True, st\<lparr>b_expected := Some modules_count\<rparr>)"
| "handle_broadcast up elapsed (ModuleRegistration reg) st = map_option (Pair True) (register_module up reg st)"
| "handle_broadcast up elapsed (ModuleMessage MsgStop) st = Some (False, st)"
| "handle_broadcast up elapsed (ModuleMessage msg) st = map_option (Pair True) (broadcast up elapsed msg st)"

text \<open>What \<open>recv_timeout\<close> returns.\<close>

datatype 'm reception = Got 'm | TimedOut | Disconnected

definition broadcasting_turn ::
  "('c \<Rightarrow> bool) \<Rightarrow> nat \<Rightarrow> nat \<Rightarrow> ('c, ('e, 'q, 's) durs_msg) router_thread_message reception \<Rightarrow>
   ('c, ('e, 'q, 's) durs_msg) broadcaster \<Rightarrow> (bool \<times> ('c, ('e, 'q, 's) durs_msg) broadcaster) run" where
  "broadcasting_turn up elapsed elapsed_after mess st = (case mess of
      Got mess \<Rightarrow> do {
        (continue, st) \<leftarrow> handle_broadcast up elapsed mess st;
        if continue \<and> registration_late elapsed_after st then None else Some (continue, st)
      }
    | TimedOut \<Rightarrow> Some (True, st)
    | Disconnected \<Rightarrow> None)"

subsection \<open>The router thread\<close>

text \<open>The state: what it has relayed to the broadcasting thread and to the thread of the configuration.\<close>

record ('c, 'm) router =
  r_senders :: "(durs_name \<times> 'c) list"
  r_pool :: "durs_name \<rightharpoonup> 'm list"
  r_broadcast :: "('c, 'm) router_thread_message list"
  r_conf :: "'m list"
  r_sent :: "('c, 'm) mailbox"

definition router_start :: "('c, 'm) router" where
  "router_start = \<lparr>r_senders = [], r_pool = (\<lambda>_. None), r_broadcast = [], r_conf = [], r_sent = []\<rparr>"

definition to_broadcast :: "('c, 'm) router_thread_message \<Rightarrow> ('c, 'm) router \<Rightarrow> ('c, 'm) router" where
  "to_broadcast mess st = st\<lparr>r_broadcast := r_broadcast st @ [mess]\<rparr>"

definition route_registration ::
  "('c \<Rightarrow> bool) \<Rightarrow> 'c module_registration \<Rightarrow> ('c, 'm) router \<Rightarrow> ('c, 'm) router run" where
  "route_registration up reg st = do {
     let name = mr_static_name reg;
     sent \<leftarrow> fold_run (send up (mr_sender reg)) (entry_or_empty (r_pool st) name) (r_sent st);
     Some (to_broadcast (ModuleRegistration reg)
       (st\<lparr>r_pool := (r_pool st)(name := None), r_sent := sent,
          r_senders := AList.update name (mr_sender reg) (r_senders st)\<rparr>))
   }"

text \<open>A stop goes to the modules whose channel still has a receiver.\<close>

fun route_message ::
  "('c \<Rightarrow> bool) \<Rightarrow> nat \<Rightarrow> ('e, 'q, 's) durs_msg \<Rightarrow> ('c, ('e, 'q, 's) durs_msg) router \<Rightarrow>
   (bool \<times> ('c, ('e, 'q, 's) durs_msg) router) run" where
  "route_message up elapsed MsgStop st =
     Some (False, (to_broadcast (ModuleMessage MsgStop) st)
       \<lparr>r_sent := r_sent st @ map (\<lambda>(_, c). (c, MsgStop)) (filter (up \<circ> snd) (r_senders st))\<rparr>)"
| "route_message up elapsed (MsgSaveNewModuleConf name conf) st =
     Some (True, st\<lparr>r_conf := r_conf st @ [MsgSaveNewModuleConf name conf]\<rparr>)"
| "route_message up elapsed (MsgRequest req_from req_to req_id content) st =
     Some (True, to_broadcast (ModuleMessage (MsgRequest req_from req_to req_id content)) st)"
| "route_message up elapsed (MsgEvent event_from event_type content) st =
     Some (True, to_broadcast (ModuleMessage (MsgEvent event_from event_type content)) st)"
| "route_message up elapsed (MsgResponse res_from res_to req_id content) st =
     (let msg = MsgResponse res_from res_to req_id content in
      case map_of (r_senders st) res_to of
        Some c \<Rightarrow> do { sent \<leftarrow> send up c msg (r_sent st); Some (True, st\<lparr>r_sent := sent\<rparr>) }
      | None \<Rightarrow>
          if elapsed < max_registration_delay then Some (True, st\<lparr>r_pool := push_entry res_to msg (r_pool st)\<rparr>)
          else Some (True, st\<lparr>r_pool := (\<lambda>_. None)\<rparr>))"
| "route_message up elapsed (MsgModulesEndpoints eps) st = Some (True, st)"

fun handle_route ::
  "('c \<Rightarrow> bool) \<Rightarrow> nat \<Rightarrow> ('c, ('e, 'q, 's) durs_msg) router_thread_message \<Rightarrow> ('c, ('e, 'q, 's) durs_msg) router \<Rightarrow>
   (bool \<times> ('c, ('e, 'q, 's) durs_msg) router) run" where
  "handle_route up elapsed (ModulesCount n) st = Some (True, to_broadcast (ModulesCount n) st)"
| "handle_route up elapsed (ModuleRegistration reg) st = map_option (Pair True) (route_registration up reg st)"
| "handle_route up elapsed (ModuleMessage msg) st = route_message up elapsed msg st"

text \<open>A turn of the loop; the node stops by itself after its run duration, when it has one.\<close>

definition router_turn ::
  "('c \<Rightarrow> bool) \<Rightarrow> nat \<Rightarrow> nat \<Rightarrow> nat \<Rightarrow> ('c, ('e, 'q, 's) durs_msg) router_thread_message reception \<Rightarrow>
   ('c, ('e, 'q, 's) durs_msg) router \<Rightarrow> (bool \<times> ('c, ('e, 'q, 's) durs_msg) router) run" where
  "router_turn up run_duration elapsed elapsed_after mess st = do {
     (continue, st) \<leftarrow> (case mess of
         Got mess \<Rightarrow> handle_route up elapsed mess st
       | TimedOut \<Rightarrow> Some (True, st)
       | Disconnected \<Rightarrow> Some (False, st));
     if continue \<and> run_duration > 0 \<and> elapsed_after > run_duration
     then Some (False, to_broadcast (ModuleMessage MsgStop) st)
     else Some (continue, st)
   }"

subsection \<open>What is sent\<close>

definition received :: "'c \<Rightarrow> ('c, 'm) mailbox \<Rightarrow> 'm list" where
  "received c sent = map snd (filter (\<lambda>x. fst x = c) sent)"

lemma received_append [simp]: "received c (xs @ ys) = received c xs @ received c ys"
  by (simp add: received_def)

lemma received_pairs [simp]: "received c (map (Pair d) ms) = (if c = d then ms else [])"
  by (induction ms) (auto simp: received_def)

lemma received_nil [simp]: "received c [] = []" by (simp add: received_def)

lemma send_some: "send up c m sent = Some sent' \<Longrightarrow> sent' = sent @ [(c, m)]"
  by (simp add: send_def split: if_splits)

lemma fold_run_Cons_some:
  assumes "fold_run f (x # xs) s = Some s'"
  obtains t where "f x s = Some t" "fold_run f xs t = Some s'"
  using assms by (auto split: bind_splits)

lemma send_all: "fold_run (send up c) ms sent = Some sent' \<Longrightarrow> sent' = sent @ map (Pair c) ms"
proof (induction ms arbitrary: sent)
  case (Cons m ms)
  from Cons.prems obtain t where "send up c m sent = Some t" "fold_run (send up c) ms t = Some sent'"
    by (rule fold_run_Cons_some)
  from Cons.IH[OF this(2)] send_some[OF this(1)] show ?case by simp
qed simp

lemma send_several:
  assumes "send_msg_to_several_receivers up m receivers senders sent = Some sent'"
    and "distinct receivers" "inj_on senders (dom senders)" "senders n = Some c"
  shows "received c sent' = received c sent @ (if n \<in> set receivers then [m] else [])"
proof -
  have loop: "received c sent' = received c sent @ (if n \<in> set ns then [m] else [])"
    if "fold_run (\<lambda>name sent. case senders name of Some c \<Rightarrow> send up c m sent | None \<Rightarrow> Some sent) ns sent = Some sent'"
      "distinct ns" for ns sent
    using that
  proof (induction ns arbitrary: sent)
    case (Cons a ns)
    show ?case
    proof (cases "senders a")
      case None
      then show ?thesis using Cons assms(4) by auto
    next
      case (Some d)
      have "a = n \<longleftrightarrow> d = c" using assms(3,4) Some by (auto simp: inj_on_def dom_def)
      moreover from Some Cons.prems(1) have "fold_run (\<lambda>name sent. case senders name of Some c \<Rightarrow> send up c m sent
          | None \<Rightarrow> Some sent) ns (sent @ [(d, m)]) = Some sent'"
        by (auto simp: send_def split: if_splits)
      ultimately show ?thesis using Cons.IH[of "sent @ [(d, m)]"] Cons.prems(2)
        by (auto simp: received_def)
    qed
  qed simp
  then show ?thesis
    using assms(1,2) by (cases receivers) (auto simp: send_msg_to_several_receivers_def)
qed

lemma send_several_other:
  assumes "send_msg_to_several_receivers up m receivers senders sent = Some sent'" "c \<notin> ran senders"
  shows "received c sent' = received c sent"
proof -
  have loop: "received c sent' = received c sent"
    if "fold_run (\<lambda>name sent. case senders name of Some c \<Rightarrow> send up c m sent | None \<Rightarrow> Some sent) ns sent = Some sent'"
    for ns sent
    using that assms(2)
    by (induction ns arbitrary: sent)
      (auto simp: send_def received_def ran_def split: option.splits if_splits)
  then show ?thesis using assms(1) by (cases receivers) (auto simp: send_msg_to_several_receivers_def)
qed

lemma entry_push:
  "entry_or_empty (push_entry k x m) k' = entry_or_empty m k' @ (if k' = k then [x] else [])"
  by (simp add: entry_or_empty_def push_entry_def)

lemma replay_some:
  "replay up c r st = Some st' \<Longrightarrow> st' = st\<lparr>b_sent := b_sent st @ map (Pair c) (entry_or_empty (b_pool st) r)\<rparr>"
  by (auto simp: replay_def dest!: send_all split: bind_splits)

lemma subscribe_all:
  assumes "fold_run (subscribe up reg) es st = Some st'"
  shows "st' = st\<lparr>b_subscriptions := fold (\<lambda>e. push_entry e (mr_static_name reg)) es (b_subscriptions st),
    b_sent := b_sent st @ map (Pair (mr_sender reg))
      (concat (map (\<lambda>e. entry_or_empty (b_pool st) (ReceiverEvent e)) es))\<rparr>"
  using assms
proof (induction es arbitrary: st)
  case (Cons e es)
  from Cons.prems obtain t where t: "subscribe up reg e st = Some t" "fold_run (subscribe up reg) es t = Some st'"
    by (rule fold_run_Cons_some)
  from t(1) show ?case
    using Cons.IH[OF t(2)] by (auto simp: subscribe_def dest!: replay_some split: bind_splits)
qed simp

lemma take_roles_all:
  assumes "fold_run (take_role up reg) rs st = Some st'"
  shows "st' = st\<lparr>b_roles := fold (\<lambda>r. push_entry r (mr_static_name reg)) rs (b_roles st),
    b_sent := b_sent st @ map (Pair (mr_sender reg))
      (concat (map (\<lambda>r. entry_or_empty (b_pool st) (ReceiverRole r)) rs))\<rparr>"
  using assms
proof (induction rs arbitrary: st)
  case (Cons r rs)
  from Cons.prems obtain t where t: "take_role up reg r st = Some t" "fold_run (take_role up reg) rs t = Some st'"
    by (rule fold_run_Cons_some)
  from t(1) show ?case
    using Cons.IH[OF t(2)] by (auto simp: take_role_def dest!: replay_some split: bind_splits)
qed simp

lemma entry_push_all:
  "distinct ks \<Longrightarrow> entry_or_empty (fold (\<lambda>k. push_entry k x) ks m) k' =
    entry_or_empty m k' @ (if k' \<in> set ks then [x] else [])"
  by (induction ks arbitrary: m) (auto simp: entry_push)

subsection \<open>Delivery\<close>

text \<open>
  The turns of the broadcasting thread from its start, each with the seconds elapsed. The messages
  to relay among its inputs, and the modules that have registered.
\<close>

type_synonym ('c, 'e, 'q, 's) router_input = "nat \<times> ('c, ('e, 'q, 's) durs_msg) router_thread_message"

definition broadcast_run ::
  "('c \<Rightarrow> bool) \<Rightarrow> ('c, 'e, 'q, 's) router_input list \<Rightarrow> ('c, ('e, 'q, 's) durs_msg) broadcaster run" where
  "broadcast_run up inputs =
     fold_run (\<lambda>(t, mess) st. map_option snd (broadcasting_turn up t t (Got mess) st)) inputs broadcaster_start"

definition messages :: "('c, 'e, 'q, 's) router_input list \<Rightarrow> ('e, 'q, 's) durs_msg list" where
  "messages inputs = concat (map (\<lambda>(t, mess). case mess of ModuleMessage m \<Rightarrow> [m] | _ \<Rightarrow> []) inputs)"

definition registrations :: "('c, 'e, 'q, 's) router_input list \<Rightarrow> 'c module_registration list" where
  "registrations inputs = concat (map (\<lambda>(t, mess). case mess of ModuleRegistration reg \<Rightarrow> [reg] | _ \<Rightarrow> []) inputs)"

text \<open>The messages that the thread relays to a module: the requests, and the events of the others.\<close>

fun relayed_to :: "durs_name \<Rightarrow> ('e, 'q, 's) durs_msg \<Rightarrow> bool" where
  "relayed_to name (MsgEvent event_from _ _) \<longleftrightarrow> event_from \<noteq> name"
| "relayed_to name (MsgRequest _ _ _ _) \<longleftrightarrow> True"
| "relayed_to name _ \<longleftrightarrow> False"

text \<open>Those that concern it: the events it subscribes to and the requests for its roles.\<close>

fun concerns :: "'c module_registration \<Rightarrow> ('e, 'q, 's) durs_msg \<Rightarrow> bool" where
  "concerns reg (MsgEvent event_from event_type _) \<longleftrightarrow>
     event_from \<noteq> mr_static_name reg \<and> event_type \<in> set (mr_events_subscription reg)"
| "concerns reg (MsgRequest _ req_to _ _) \<longleftrightarrow> req_to \<in> set (mr_roles reg)"
| "concerns reg _ \<longleftrightarrow> False"

definition registration_wf :: "'c module_registration \<Rightarrow> bool" where
  "registration_wf reg \<longleftrightarrow> distinct (mr_roles reg) \<and> distinct (mr_events_subscription reg)"

text \<open>Each module registers once, with its own channel; the first twenty seconds; no stop.\<close>

definition early_inputs :: "('c, 'e, 'q, 's) router_input list \<Rightarrow> bool" where
  "early_inputs inputs \<longleftrightarrow> (\<forall>(t, mess)\<in>set inputs. t < 20) \<and> MsgStop \<notin> set (messages inputs) \<and>
     distinct (map mr_static_name (registrations inputs)) \<and> distinct (map mr_sender (registrations inputs)) \<and>
     list_all registration_wf (registrations inputs)"

fun is_one :: "durs_msg_receiver \<Rightarrow> bool" where
  "is_one (ReceiverOne _) = True"
| "is_one _ = False"

definition delivered :: "('c, 'e, 'q, 's) router_input list \<Rightarrow> ('c, ('e, 'q, 's) durs_msg) broadcaster \<Rightarrow> bool" where
  "delivered inputs st \<longleftrightarrow>
     (\<forall>r. \<not> is_one r \<longrightarrow> entry_or_empty (b_pool st) r = filter (\<lambda>m. msg_receiver m = Some r) (messages inputs)) \<and>
     (\<forall>e. entry_or_empty (b_subscriptions st) e =
        map mr_static_name (filter (\<lambda>reg. e \<in> set (mr_events_subscription reg)) (registrations inputs))) \<and>
     (\<forall>r. entry_or_empty (b_roles st) r =
        map mr_static_name (filter (\<lambda>reg. r \<in> set (mr_roles reg)) (registrations inputs))) \<and>
     b_senders st = map_of (map (\<lambda>reg. (mr_static_name reg, mr_sender reg)) (registrations inputs)) \<and>
     (\<forall>c. c \<notin> mr_sender ` set (registrations inputs) \<longrightarrow> received c (b_sent st) = []) \<and>
     (\<forall>reg\<in>set (registrations inputs).
        filter_mset (relayed_to (mr_static_name reg)) (mset (received (mr_sender reg) (b_sent st))) =
        filter_mset (concerns reg) (mset (messages inputs)))"

lemma delivered_start: "delivered [] broadcaster_start"
  by (simp add: delivered_def broadcaster_start_def messages_def registrations_def entry_or_empty_def)

lemma replayed_mset:
  assumes "distinct ks" "inj R"
  shows "mset (concat (map (\<lambda>k. filter (\<lambda>m. f m = Some (R k)) ms) ks)) =
    filter_mset (\<lambda>m. \<exists>k\<in>set ks. f m = Some (R k)) (mset ms)"
  using assms(1)
proof (induction ks)
  case (Cons k ks)
  have "filter_mset (\<lambda>m. \<exists>k'\<in>set (k # ks). f m = Some (R k')) (mset ms) =
    filter_mset (\<lambda>m. f m = Some (R k)) (mset ms) + filter_mset (\<lambda>m. \<exists>k'\<in>set ks. f m = Some (R k')) (mset ms)"
  proof (rule multiset_eqI)
    fix x
    have "\<not> (f x = Some (R k) \<and> (\<exists>k'\<in>set ks. f x = Some (R k')))"
      using Cons.prems assms(2) by (auto dest: injD)
    then show "count (filter_mset (\<lambda>m. \<exists>k'\<in>set (k # ks). f m = Some (R k')) (mset ms)) x = count
      (filter_mset (\<lambda>m. f m = Some (R k)) (mset ms) + filter_mset (\<lambda>m. \<exists>k'\<in>set ks. f m = Some (R k')) (mset ms)) x"
      by auto
  qed
  then show ?case using Cons by (simp add: mset_filter)
qed simp

lemma inputs_snoc:
  "messages (inputs @ [(t, mess)]) = messages inputs @ (case mess of ModuleMessage m \<Rightarrow> [m] | _ \<Rightarrow> [])"
  "registrations (inputs @ [(t, mess)]) = registrations inputs @ (case mess of ModuleRegistration reg \<Rightarrow> [reg] | _ \<Rightarrow> [])"
  by (simp_all add: messages_def registrations_def)

lemma early_prefix: "early_inputs (inputs @ [x]) \<Longrightarrow> early_inputs inputs"
  by (cases x) (auto simp: early_inputs_def inputs_snoc)

lemma delivered_senders:
  assumes "early_inputs inputs" "delivered inputs st"
  shows "inj_on (b_senders st) (dom (b_senders st))" "ran (b_senders st) = mr_sender ` set (registrations inputs)"
    "reg \<in> set (registrations inputs) \<Longrightarrow> b_senders st (mr_static_name reg) = Some (mr_sender reg)"
    "distinct (entry_or_empty (b_subscriptions st) e)" "distinct (entry_or_empty (b_roles st) r)"
proof -
  let ?regs = "registrations inputs"
  have names: "distinct (map mr_static_name ?regs)" "inj_on mr_sender (set ?regs)"
    using assms(1) by (auto simp: early_inputs_def distinct_map)
  have senders: "b_senders st = map_of (map (\<lambda>reg. (mr_static_name reg, mr_sender reg)) ?regs)"
    using assms(2) by (simp add: delivered_def)
  have keys: "distinct (map fst (map (\<lambda>reg. (mr_static_name reg, mr_sender reg)) ?regs))"
    using names(1) by (simp add: comp_def)
  have entry: "b_senders st n = Some c \<longleftrightarrow> (\<exists>reg\<in>set ?regs. mr_static_name reg = n \<and> mr_sender reg = c)" for n c
    using map_of_eq_Some_iff[OF keys] by (auto simp: senders)
  show "b_senders st (mr_static_name reg) = Some (mr_sender reg)" if "reg \<in> set ?regs" using that entry by blast
  show "inj_on (b_senders st) (dom (b_senders st))"
  proof (rule inj_onI)
    fix m n assume mn: "m \<in> dom (b_senders st)" "n \<in> dom (b_senders st)" "b_senders st m = b_senders st n"
    from mn(1) obtain c where c: "b_senders st m = Some c" by auto
    with mn(3) have "b_senders st n = Some c" by simp
    with c entry obtain r r' where "r \<in> set ?regs" "r' \<in> set ?regs" "mr_static_name r = m" "mr_static_name r' = n"
      "mr_sender r = c" "mr_sender r' = c" by blast
    then show "m = n" using names(2) by (metis inj_onD)
  qed
  show "ran (b_senders st) = mr_sender ` set ?regs" using entry by (auto simp: ran_def)
  show "distinct (entry_or_empty (b_subscriptions st) e)" "distinct (entry_or_empty (b_roles st) r)"
    using assms(2) names(1) by (simp_all add: delivered_def distinct_map_filter)
qed

lemma pool_grows:
  assumes "t < 20" "msg_receiver m = Some r"
  shows "entry_or_empty (store_msg_in_pool t m pool) r' = entry_or_empty pool r' @ (if r' = r then [m] else [])"
  using assms by (simp add: store_msg_in_pool_def max_registration_delay_def entry_push)

text \<open>A message is relayed to the modules that have registered, and kept for the others.\<close>

lemma delivered_message:
  assumes "early_inputs (inputs @ [(t, ModuleMessage m)])" "delivered inputs st"
    and "broadcast up t m st = Some st'" "msg_receiver m = Some r" "\<not> is_one r"
  shows "delivered (inputs @ [(t, ModuleMessage m)]) st'"
proof -
  let ?names = "case m of
      MsgEvent from e _ \<Rightarrow> filter (\<lambda>name. name \<noteq> from) (entry_or_empty (b_subscriptions st) e)
    | MsgRequest _ role _ _ \<Rightarrow> entry_or_empty (b_roles st) role | _ \<Rightarrow> []"
  have early: "early_inputs inputs" "t < 20"
    using assms(1) early_prefix[OF assms(1)] by (auto simp: early_inputs_def)
  note senders = delivered_senders[OF early(1) assms(2)]
  obtain sent where st': "st' = st\<lparr>b_pool := store_msg_in_pool t m (b_pool st), b_sent := sent\<rparr>"
    and sent: "send_msg_to_several_receivers up m ?names (b_senders st) (b_sent st) = Some sent"
    using assms(3,4,5) by (cases m) (auto simp: Let_def split: bind_splits)
  have distinct: "distinct ?names" using senders(4,5) by (simp split: durs_msg.splits)
  have new: "received (mr_sender reg) sent = received (mr_sender reg) (b_sent st) @ (if concerns reg m then [m] else [])"
    if "reg \<in> set (registrations inputs)" for reg
  proof -
    have "mr_static_name reg \<in> set ?names \<longleftrightarrow> concerns reg m"
    proof -
      have same: "reg' = reg" if "reg' \<in> set (registrations inputs)" "mr_static_name reg' = mr_static_name reg" for reg'
        using early(1) that \<open>reg \<in> set (registrations inputs)\<close>
        by (auto simp: early_inputs_def distinct_map dest: inj_onD)
      show ?thesis
        using assms(2,4,5) \<open>reg \<in> set (registrations inputs)\<close>
        by (cases m) (auto simp: delivered_def dest: same)
    qed
    then show ?thesis using send_several[OF sent distinct senders(1) senders(3)[OF that]] by simp
  qed
  have others: "received c sent = received c (b_sent st)" if "c \<notin> mr_sender ` set (registrations inputs)" for c
    using send_several_other[OF sent] senders(2) that by simp
  have relayed: "relayed_to (mr_static_name reg) m" if "concerns reg m" for reg using that by (cases m) auto
  show ?thesis
    unfolding delivered_def inputs_snoc
  proof (intro conjI allI ballI impI)
    fix r' assume "\<not> is_one r'"
    then show "entry_or_empty (b_pool st') r' =
        filter (\<lambda>m. msg_receiver m = Some r') (messages inputs @ (case ModuleMessage m of ModuleMessage m \<Rightarrow> [m] | _ \<Rightarrow> []))"
      using assms(2,4) pool_grows[OF early(2) assms(4)] by (auto simp: st' delivered_def)
  next
    fix reg assume "reg \<in> set (registrations inputs @ (case ModuleMessage m of ModuleRegistration reg \<Rightarrow> [reg] | _ \<Rightarrow> []))"
    then have reg: "reg \<in> set (registrations inputs)" by simp
    then show "filter_mset (relayed_to (mr_static_name reg)) (mset (received (mr_sender reg) (b_sent st'))) =
        filter_mset (concerns reg) (mset (messages inputs @ (case ModuleMessage m of ModuleMessage m \<Rightarrow> [m] | _ \<Rightarrow> [])))"
      using assms(2) new[OF reg] relayed[of reg] by (auto simp: st' delivered_def)
  qed (use assms(2) others in \<open>auto simp: st' delivered_def\<close>)
qed

definition replayed :: "'c module_registration \<Rightarrow> ('c, 'm) broadcaster \<Rightarrow> 'm list" where
  "replayed reg st =
     concat (map (\<lambda>e. entry_or_empty (b_pool st) (ReceiverEvent e)) (mr_events_subscription reg)) @
     concat (map (\<lambda>r. entry_or_empty (b_pool st) (ReceiverRole r)) (mr_roles reg))"

text \<open>The state after a registration: the replayed messages, then the endpoints if it is the last one.\<close>

lemma register_some:
  assumes "register_module up reg st = Some st'"
  shows "b_pool st' = b_pool st \<and> b_senders st' = (b_senders st)(mr_static_name reg \<mapsto> mr_sender reg) \<and>
    b_subscriptions st' = fold (\<lambda>e. push_entry e (mr_static_name reg)) (mr_events_subscription reg) (b_subscriptions st) \<and>
    b_roles st' = fold (\<lambda>r. push_entry r (mr_static_name reg)) (mr_roles reg) (b_roles st) \<and>
    (if b_expected st = Some (b_count st + 1) then \<exists>receivers. b_roles st' InterNodesNetwork = Some receivers \<and>
       send_msg_to_several_receivers up (MsgModulesEndpoints (b_local_endpoints st @ mr_endpoints reg)) receivers
         (b_senders st) (b_sent st @ map (Pair (mr_sender reg)) (replayed reg st)) = Some (b_sent st')
     else b_sent st' = b_sent st @ map (Pair (mr_sender reg)) (replayed reg st))"
  using assms
  by (auto simp: register_module_def Let_def replayed_def dest!: subscribe_all take_roles_all
      split: bind_splits if_splits)

lemma endpoints_not_relayed:
  assumes "send_msg_to_several_receivers up (MsgModulesEndpoints eps) receivers senders sent = Some sent'"
    and "distinct receivers" "inj_on senders (dom senders)"
  shows "filter (relayed_to name) (received c sent') = filter (relayed_to name) (received c sent)"
proof (cases "c \<in> ran senders")
  case True
  then obtain n where n: "senders n = Some c" by (auto simp: ran_def)
  show ?thesis using send_several[OF assms n] by simp
next
  case False
  then show ?thesis using send_several_other[OF assms(1)] by simp
qed

lemma delivered_registration:
  fixes st :: "('c, ('e, 'q, 's) durs_msg) broadcaster"
  assumes "early_inputs (inputs @ [(t, ModuleRegistration reg)])" "delivered inputs st"
    and "register_module up reg st = Some st'"
  shows "delivered (inputs @ [(t, ModuleRegistration reg)]) st'"
proof -
  have early: "early_inputs inputs" by (rule early_prefix[OF assms(1)])
  have wf: "distinct (mr_roles reg)" "distinct (mr_events_subscription reg)"
    and new: "mr_static_name reg \<notin> mr_static_name ` set (registrations inputs)"
      "mr_sender reg \<notin> mr_sender ` set (registrations inputs)"
    using assms(1) by (auto simp: early_inputs_def inputs_snoc registration_wf_def)
  note senders = delivered_senders[OF early assms(2)]
  note st' = register_some[OF assms(3)]
  have lists: "entry_or_empty (b_roles st') r = map mr_static_name
        (filter (\<lambda>reg. r \<in> set (mr_roles reg)) (registrations inputs @ [reg]))"
    "entry_or_empty (b_subscriptions st') e = map mr_static_name
        (filter (\<lambda>reg. e \<in> set (mr_events_subscription reg)) (registrations inputs @ [reg]))" for r e
    using st' assms(2) by (simp_all add: delivered_def entry_push_all[OF wf(1)] entry_push_all[OF wf(2)])
  have distinct_roles: "distinct (entry_or_empty (b_roles st') r)" for r
    using senders(5)[of r] new(1) assms(2) by (auto simp: lists delivered_def)
  let ?base = "b_sent st @ map (Pair (mr_sender reg)) (replayed reg st)"
  have relayed: "filter (relayed_to name) (received c (b_sent st')) = filter (relayed_to name) (received c ?base)"
    for name c
  proof (cases "b_expected st = Some (b_count st + 1)")
    case True
    with st' obtain receivers where r: "b_roles st' InterNodesNetwork = Some receivers"
      "send_msg_to_several_receivers up (MsgModulesEndpoints (b_local_endpoints st @ mr_endpoints reg)) receivers
         (b_senders st) ?base = Some (b_sent st')" by auto
    then have "distinct receivers" using distinct_roles[of InterNodesNetwork] by (simp add: entry_or_empty_def)
    from endpoints_not_relayed[OF r(2) this senders(1)] show ?thesis .
  next
    case False
    then show ?thesis using st' by simp
  qed
  have pool: "entry_or_empty (b_pool st) r = filter (\<lambda>m. msg_receiver m = Some r) (messages inputs)" if "\<not> is_one r" for r
    using assms(2) that by (simp add: delivered_def)
  have split: "mset (replayed reg st) =
    filter_mset (\<lambda>m. \<exists>e\<in>set (mr_events_subscription reg). msg_receiver m = Some (ReceiverEvent e)) (mset (messages inputs)) +
    filter_mset (\<lambda>m. \<exists>r\<in>set (mr_roles reg). msg_receiver m = Some (ReceiverRole r)) (mset (messages inputs))"
    using replayed_mset[OF wf(2), of ReceiverEvent msg_receiver "messages inputs"]
      replayed_mset[OF wf(1), of ReceiverRole msg_receiver "messages inputs"]
    by (simp add: replayed_def pool inj_def)
  have "filter_mset (relayed_to (mr_static_name reg)) (mset (replayed reg st)) =
      filter_mset (concerns reg) (mset (messages inputs))"
  proof (rule multiset_eqI)
    fix m :: "('e, 'q, 's) durs_msg"
    show "count (filter_mset (relayed_to (mr_static_name reg)) (mset (replayed reg st))) m =
        count (filter_mset (concerns reg) (mset (messages inputs))) m"
      unfolding split by (cases m) auto
  qed
  moreover have "received (mr_sender reg) (b_sent st) = []" using assms(2) new(2) by (simp add: delivered_def)
  ultimately have newcomer: "filter_mset (relayed_to (mr_static_name reg)) (mset (received (mr_sender reg) (b_sent st'))) =
      filter_mset (concerns reg) (mset (messages inputs))"
    using relayed[of "mr_static_name reg" "mr_sender reg"] by (simp flip: mset_filter)
  have old: "filter_mset (relayed_to (mr_static_name r)) (mset (received (mr_sender r) (b_sent st'))) =
      filter_mset (concerns r) (mset (messages inputs))" if "r \<in> set (registrations inputs)" for r
  proof -
    have "mr_sender r \<noteq> mr_sender reg" using imageI[OF that, of mr_sender] new(2) by metis
    then show ?thesis
      using relayed[of "mr_static_name r" "mr_sender r"] assms(2) that by (simp add: delivered_def flip: mset_filter)
  qed
  have nobody: "received c (b_sent st') = []" if "c \<notin> mr_sender ` set (registrations inputs)" "c \<noteq> mr_sender reg" for c
  proof -
    have "received c ?base = []" using assms(2) that by (simp add: delivered_def)
    moreover have "c \<notin> ran (b_senders st)" using senders(2) that(1) by simp
    ultimately show ?thesis using st' send_several_other by (fastforce split: if_splits)
  qed
  have "map_of (xs @ [(k, v)]) = (map_of xs)(k \<mapsto> v)" if "k \<notin> fst ` set xs" for xs :: "(durs_name \<times> 'c) list" and k v
    using that by (induction xs) auto
  from this[of "mr_static_name reg" "map (\<lambda>reg. (mr_static_name reg, mr_sender reg)) (registrations inputs)" "mr_sender reg"]
  have names: "b_senders st' = map_of (map (\<lambda>reg. (mr_static_name reg, mr_sender reg)) (registrations inputs @ [reg]))"
    using st' assms(2) new(1) by (simp add: delivered_def image_image)
  show ?thesis
    unfolding delivered_def inputs_snoc
  proof (intro conjI allI ballI impI)
    fix r assume "\<not> is_one r"
    then show "entry_or_empty (b_pool st') r = filter (\<lambda>m. msg_receiver m = Some r)
        (messages inputs @ (case ModuleRegistration reg of ModuleMessage m \<Rightarrow> [m] | _ \<Rightarrow> []))"
      using pool st' by simp
  next
    fix r assume "r \<in> set (registrations inputs @ (case ModuleRegistration reg of ModuleRegistration reg \<Rightarrow> [reg] | _ \<Rightarrow> []))"
    then show "filter_mset (relayed_to (mr_static_name r)) (mset (received (mr_sender r) (b_sent st'))) =
        filter_mset (concerns r) (mset (messages inputs @ (case ModuleRegistration reg of ModuleMessage m \<Rightarrow> [m] | _ \<Rightarrow> [])))"
      using newcomer old by auto
  qed (use lists names nobody in auto)
qed

lemma run_delivered:
  assumes "broadcast_run up inputs = Some st" "early_inputs inputs"
  shows "delivered inputs st"
  using assms
proof (induction inputs arbitrary: st rule: rev_induct)
  case Nil
  then show ?case by (simp add: broadcast_run_def delivered_start)
next
  case (snoc x inputs)
  obtain t mess where x: "x = (t, mess)" by (cases x)
  from snoc.prems(1) obtain st0 go where st0: "broadcast_run up inputs = Some st0"
    and turn: "broadcasting_turn up t t (Got mess) st0 = Some (go, st)"
    by (auto simp: broadcast_run_def fold_run_snoc x split: bind_splits)
  have early: "early_inputs inputs" "early_inputs (inputs @ [(t, mess)])"
    using snoc.prems(2) early_prefix[OF snoc.prems(2)] x by simp_all
  note st0 = snoc.IH[OF st0 early(1)]
  have handled: "handle_broadcast up t mess st0 = Some (go, st)"
    using turn by (auto simp: broadcasting_turn_def split: bind_splits if_splits)
  show ?case
  proof (cases mess)
    case (ModulesCount n)
    then show ?thesis using handled st0 by (auto simp: x delivered_def inputs_snoc)
  next
    case (ModuleRegistration reg)
    then show ?thesis using handled early(2) st0 by (auto simp: x intro: delivered_registration)
  next
    case (ModuleMessage m)
    then have "m \<noteq> MsgStop" using early(2) by (auto simp: early_inputs_def inputs_snoc)
    then have sent: "broadcast up t m st0 = Some st" using handled ModuleMessage by (cases m) auto
    show ?thesis
    proof (cases "\<exists>r. msg_receiver m = Some r \<and> \<not> is_one r")
      case True
      then show ?thesis using delivered_message[OF _ st0 sent] early(2) ModuleMessage by (auto simp: x)
    next
      case False
      then have "st = st0" "\<And>reg :: 'a module_registration. \<not> concerns reg m"
        "\<And>r. \<not> is_one r \<Longrightarrow> msg_receiver m \<noteq> Some r"
        using sent by (cases m; auto)+
      then show ?thesis using st0 ModuleMessage by (auto simp: x delivered_def inputs_snoc)
    qed
  qed
qed

text \<open>
  Delivery of events and requests. During the first twenty seconds, whatever the order in which
  modules register and messages arrive, the broadcasting thread has sent to each module that has
  registered every event that it subscribes to and another module has sent, and every request for
  one of its roles, each as many times as it came, before or after the registration; and of these
  kinds it has sent the module nothing else.
\<close>

theorem messages_delivered:
  assumes "broadcast_run up inputs = Some st" "early_inputs inputs" "reg \<in> set (registrations inputs)"
  shows "filter_mset (relayed_to (mr_static_name reg)) (mset (received (mr_sender reg) (b_sent st))) =
    filter_mset (concerns reg) (mset (messages inputs))"
  using run_delivered[OF assms(1,2)] assms(3) by (simp add: delivered_def)

definition example_module :: "nat \<Rightarrow> module_event list \<Rightarrow> module_role list \<Rightarrow> nat module_registration" where
  "example_module n events roles = \<lparr>mr_static_name = [n], mr_sender = n, mr_roles = roles,
     mr_events_subscription = events, mr_reserved_apis_parts = [], mr_endpoints = []\<rparr>"

definition example_inputs :: "(nat, nat, nat, nat) router_input list" where
  "example_inputs = [(0, ModulesCount 2), (1, ModuleRegistration (example_module 1 [NewValidBlock] [BlockchainDatas])),
     (2, ModuleMessage (MsgEvent [1] NewValidBlock 7)), (2, ModuleMessage (MsgRequest [1] InterNodesNetwork 0 8)),
     (3, ModuleRegistration (example_module 2 [NewValidBlock] [InterNodesNetwork]))]"

theorem messages_delivered_witness:
  "\<exists>st. broadcast_run (\<lambda>_. True) example_inputs = Some st \<and>
    filter_mset (relayed_to [2]) (mset (received 2 (b_sent st))) =
      {#MsgEvent [1] NewValidBlock 7, MsgRequest [1] InterNodesNetwork 0 8#}"
proof -
  let ?reg = "example_module 2 [NewValidBlock] [InterNodesNetwork]"
  have early: "early_inputs example_inputs" "?reg \<in> set (registrations example_inputs)"
    by (simp_all add: early_inputs_def example_inputs_def messages_def registrations_def registration_wf_def
        example_module_def)
  obtain st where st: "broadcast_run (\<lambda>_. True) example_inputs = Some st"
    by (simp add: broadcast_run_def example_inputs_def broadcasting_turn_def register_module_def subscribe_def
        take_role_def replay_def api_conflict_def endpoints_declared_def example_module_def broadcaster_start_def
        registration_late_def max_registration_delay_def entry_or_empty_def push_entry_def
        send_msg_to_several_receivers_def store_msg_in_pool_def send_def Let_def)
  show ?thesis
    using st messages_delivered[OF st early]
    by (auto simp: example_inputs_def messages_def example_module_def add_mset_commute)
qed

text \<open>
  The endpoints of the modules. The registration that completes the expected number sends the
  list of the declared endpoints to the modules of the network that had registered before it: if the
  last module to register is one of them, it does not receive the list, because its channel is
  stored after the list is sent.
\<close>

theorem last_module_misses_endpoints:
  fixes st :: "('c, ('e, 'q, 's) durs_msg) broadcaster"
  assumes "broadcast_run up inputs = Some st" "early_inputs (inputs @ [(t, ModuleRegistration reg)])"
    and "register_module up reg st = Some st'" "b_expected st = Some (b_count st + 1)"
  shows "MsgModulesEndpoints eps \<notin> set (received (mr_sender reg) (b_sent st')) \<and>
    (\<forall>r\<in>set (registrations inputs). InterNodesNetwork \<in> set (mr_roles r) \<longrightarrow>
       MsgModulesEndpoints (b_local_endpoints st @ mr_endpoints reg) \<in> set (received (mr_sender r) (b_sent st')))"
proof -
  have early: "early_inputs inputs" by (rule early_prefix[OF assms(2)])
  note delivered = run_delivered[OF assms(1) early]
  note senders = delivered_senders[OF early delivered]
  have after: "delivered (inputs @ [(t, ModuleRegistration reg)]) st'"
    by (rule delivered_registration[OF assms(2) delivered assms(3)])
  from register_some[OF assms(3)] assms(4) obtain receivers where
    receivers: "b_roles st' InterNodesNetwork = Some receivers"
    and sent: "send_msg_to_several_receivers up (MsgModulesEndpoints (b_local_endpoints st @ mr_endpoints reg)) receivers
       (b_senders st) (b_sent st @ map (Pair (mr_sender reg)) (replayed reg st)) = Some (b_sent st')" by auto
  have names: "receivers = map mr_static_name (filter (\<lambda>r. InterNodesNetwork \<in> set (mr_roles r)) (registrations inputs @ [reg]))"
    using after receivers by (auto simp: delivered_def inputs_snoc entry_or_empty_def split: option.splits dest!: spec[of _ InterNodesNetwork])
  have new: "mr_sender reg \<notin> mr_sender ` set (registrations inputs)" and distinct: "distinct receivers"
    using assms(2) by (auto simp: names early_inputs_def inputs_snoc distinct_map_filter)
  have "received (mr_sender reg) (b_sent st') = replayed reg st"
    using send_several_other[OF sent] new senders(2) delivered by (simp add: delivered_def)
  moreover have "entry_or_empty (b_pool st) r = filter (\<lambda>m. msg_receiver m = Some r) (messages inputs)" if "\<not> is_one r" for r
    using delivered that by (simp add: delivered_def)
  ultimately have "MsgModulesEndpoints eps \<notin> set (received (mr_sender reg) (b_sent st'))"
    by (auto simp: replayed_def)
  moreover have "MsgModulesEndpoints (b_local_endpoints st @ mr_endpoints reg) \<in> set (received (mr_sender r) (b_sent st'))"
    if "r \<in> set (registrations inputs)" "InterNodesNetwork \<in> set (mr_roles r)" for r
    using send_several[OF sent distinct senders(1) senders(3)[OF that(1)]] that by (simp add: names)
  ultimately show ?thesis by blast
qed

theorem last_module_misses_endpoints_witness:
  "\<exists>st st'. broadcast_run (\<lambda>_. True) [(0, ModulesCount 1)] = Some (st :: (nat, (nat, nat, nat) durs_msg) broadcaster) \<and>
    register_module (\<lambda>_. True) (example_module 1 [] [InterNodesNetwork]) st = Some st' \<and>
    MsgModulesEndpoints [] \<notin> set (received 1 (b_sent st'))"
proof -
  let ?inputs = "[(0, ModulesCount 1)] :: (nat, nat, nat, nat) router_input list"
  let ?reg = "example_module 1 [] [InterNodesNetwork]"
  have early: "early_inputs (?inputs @ [(0, ModuleRegistration ?reg)])"
    by (simp add: early_inputs_def messages_def registrations_def registration_wf_def example_module_def)
  obtain st where st: "broadcast_run (\<lambda>_. True) ?inputs = Some st" "st = broadcaster_start\<lparr>b_expected := Some 1\<rparr>"
    by (simp add: broadcast_run_def broadcasting_turn_def registration_late_def max_registration_delay_def)
  obtain st' where st': "register_module (\<lambda>_. True) ?reg st = Some st'"
    by (simp add: st(2) register_module_def take_role_def replay_def api_conflict_def endpoints_declared_def
        example_module_def broadcaster_start_def entry_or_empty_def push_entry_def send_msg_to_several_receivers_def Let_def)
  have "b_expected st = Some (b_count st + 1)" by (simp add: st(2) broadcaster_start_def)
  from last_module_misses_endpoints[OF st(1) early st' this] st(1) st' show ?thesis
    by (auto simp: example_module_def)
qed

subsection \<open>Both threads\<close>

definition router_run ::
  "('c \<Rightarrow> bool) \<Rightarrow> nat \<Rightarrow> ('c, 'e, 'q, 's) router_input list \<Rightarrow> ('c, ('e, 'q, 's) durs_msg) router run" where
  "router_run up run_duration inputs =
     fold_run (\<lambda>(t, mess) st. map_option snd (router_turn up run_duration t t (Got mess) st)) inputs router_start"

fun answers :: "durs_name \<Rightarrow> ('e, 'q, 's) durs_msg \<Rightarrow> bool" where
  "answers name (MsgResponse _ res_to _ _) \<longleftrightarrow> res_to = name"
| "answers name _ \<longleftrightarrow> False"

fun goes_to_broadcast :: "('c, ('e, 'q, 's) durs_msg) router_thread_message \<Rightarrow> bool" where
  "goes_to_broadcast (ModuleMessage m) \<longleftrightarrow> (\<exists>r. msg_receiver m = Some r \<and> \<not> is_one r)"
| "goes_to_broadcast _ \<longleftrightarrow> True"

definition routed :: "('c, 'e, 'q, 's) router_input list \<Rightarrow> ('c, ('e, 'q, 's) durs_msg) router \<Rightarrow> bool" where
  "routed inputs st \<longleftrightarrow>
     r_broadcast st = filter goes_to_broadcast (map snd inputs) \<and>
     (\<forall>n c. map_of (r_senders st) n = Some c \<longleftrightarrow>
        (\<exists>reg\<in>set (registrations inputs). mr_static_name reg = n \<and> mr_sender reg = c)) \<and>
     (\<forall>n. entry_or_empty (r_pool st) n =
        (if n \<in> mr_static_name ` set (registrations inputs) then [] else filter (answers n) (messages inputs))) \<and>
     (\<forall>c. c \<notin> mr_sender ` set (registrations inputs) \<longrightarrow> received c (r_sent st) = []) \<and>
     (\<forall>reg\<in>set (registrations inputs).
        received (mr_sender reg) (r_sent st) = filter (answers (mr_static_name reg)) (messages inputs))"

lemma routed_registration:
  assumes "early_inputs (inputs @ [(t, ModuleRegistration reg)])" "routed inputs st"
    and "route_registration up reg st = Some st'"
  shows "routed (inputs @ [(t, ModuleRegistration reg)]) st'"
proof -
  have new: "mr_static_name reg \<notin> mr_static_name ` set (registrations inputs)"
    "mr_sender reg \<notin> mr_sender ` set (registrations inputs)"
    using assms(1) by (auto simp: early_inputs_def inputs_snoc)
  have st': "st' = to_broadcast (ModuleRegistration reg) (st\<lparr>r_pool := (r_pool st)(mr_static_name reg := None),
    r_sent := r_sent st @ map (Pair (mr_sender reg)) (entry_or_empty (r_pool st) (mr_static_name reg)),
    r_senders := AList.update (mr_static_name reg) (mr_sender reg) (r_senders st)\<rparr>)"
    using assms(3) by (auto simp: route_registration_def Let_def dest!: send_all split: bind_splits)
  have pool: "entry_or_empty ((r_pool st)(mr_static_name reg := None)) n =
      (if n = mr_static_name reg then [] else entry_or_empty (r_pool st) n)" for n
    by (simp add: entry_or_empty_def)
  have other: "mr_sender r \<noteq> mr_sender reg \<and> mr_static_name r \<noteq> mr_static_name reg" if "r \<in> set (registrations inputs)" for r
    using imageI[OF that, of mr_sender] imageI[OF that, of mr_static_name] new by metis
  have waiting: "entry_or_empty (r_pool st) (mr_static_name reg) = filter (answers (mr_static_name reg)) (messages inputs)"
    using assms(2) new(1) by (simp add: routed_def)
  show ?thesis
    using assms(2) new other
    by (auto simp: routed_def st' to_broadcast_def inputs_snoc pool update_conv' waiting)
qed

lemma routed_message:
  assumes "early_inputs (inputs @ [(t, ModuleMessage m)])" "routed inputs st"
    and "route_message up t m st = Some (go, st')"
  shows "routed (inputs @ [(t, ModuleMessage m)]) st'"
proof (cases m)
  case (MsgResponse res_from res_to req_id content)
  have t: "t < max_registration_delay" using assms(1) by (simp add: early_inputs_def max_registration_delay_def)
  show ?thesis
  proof (cases "map_of (r_senders st) res_to")
    case None
    then have "\<not> (\<exists>reg\<in>set (registrations inputs). mr_static_name reg = res_to)"
      using assms(2) unfolding routed_def by (metis option.distinct(1))
    then have "res_to \<notin> mr_static_name ` set (registrations inputs)" by blast
    then show ?thesis
      using assms(2,3) None t
      by (auto simp: MsgResponse routed_def inputs_snoc entry_push Let_def)
  next
    case (Some c)
    then obtain reg where reg: "reg \<in> set (registrations inputs)" "mr_static_name reg = res_to" "mr_sender reg = c"
      using assms(2) unfolding routed_def by blast
    have same: "r \<in> set (registrations inputs) \<Longrightarrow> mr_sender r = c \<longleftrightarrow> mr_static_name r = res_to" for r
      using assms(1) reg by (auto simp: early_inputs_def inputs_snoc distinct_map dest: inj_onD)
    have st': "st' = st\<lparr>r_sent := r_sent st @ [(c, m)]\<rparr>"
      using assms(3) Some by (auto simp: MsgResponse Let_def dest!: send_some split: bind_splits)
    have sent: "received d (r_sent st') = received d (r_sent st) @ (if d = c then [m] else [])" for d
      by (simp add: st' received_def)
    show ?thesis
      using assms(2) reg same sent by (auto simp: routed_def inputs_snoc st' MsgResponse image_iff)
  qed
qed (use assms in \<open>auto simp: routed_def inputs_snoc to_broadcast_def early_inputs_def\<close>)

lemma run_routed:
  assumes "router_run up d inputs = Some st" "early_inputs inputs" "d = 0 \<or> 20 \<le> d"
  shows "routed inputs st"
  using assms(1,2)
proof (induction inputs arbitrary: st rule: rev_induct)
  case Nil
  then have "st = router_start" by (simp add: router_run_def)
  then show ?case
    by (simp add: routed_def router_start_def messages_def registrations_def entry_or_empty_def)
next
  case (snoc x inputs)
  obtain t mess where x: "x = (t, mess)" by (cases x)
  from snoc.prems(1) obtain st0 go where st0: "router_run up d inputs = Some st0"
    and turn: "router_turn up d t t (Got mess) st0 = Some (go, st)"
    by (auto simp: router_run_def fold_run_snoc x split: bind_splits)
  have early: "early_inputs inputs" "early_inputs (inputs @ [(t, mess)])" and "t < 20"
    using snoc.prems(2) early_prefix[OF snoc.prems(2)] x by (simp_all add: early_inputs_def)
  note st0 = snoc.IH[OF st0 early(1)]
  have handled: "handle_route up t mess st0 = Some (go, st)"
    using turn assms(3) \<open>t < 20\<close> by (auto simp: router_turn_def split: bind_splits if_splits)
  show ?case
  proof (cases mess)
    case (ModulesCount n)
    then show ?thesis using handled st0 by (auto simp: x routed_def inputs_snoc to_broadcast_def)
  next
    case (ModuleRegistration reg)
    then show ?thesis using handled early(2) st0 by (auto simp: x intro: routed_registration)
  next
    case (ModuleMessage m)
    then show ?thesis using handled early(2) st0 by (auto simp: x intro: routed_message)
  qed
qed

text \<open>
  C20: What a module receives. During the first twenty seconds, whatever the order in which modules
  register and messages arrive, the two threads of the router give each registered module the
  responses addressed to it, in the order in which they were sent, and the requests and events that
  concern it, each as many times as it was sent.
\<close>

theorem modules_get_their_messages:
  assumes "router_run up d inputs = Some rt" "early_inputs inputs" "d = 0 \<or> 20 \<le> d"
    and "map snd relayed = r_broadcast rt" "\<forall>(t, mess)\<in>set relayed. t < 20" "broadcast_run up relayed = Some bt"
    and "reg \<in> set (registrations inputs)"
  shows "received (mr_sender reg) (r_sent rt) = filter (answers (mr_static_name reg)) (messages inputs) \<and>
    filter_mset (relayed_to (mr_static_name reg)) (mset (received (mr_sender reg) (b_sent bt))) =
      filter_mset (concerns reg) (mset (messages inputs))"
proof -
  note routed = run_routed[OF assms(1-3)]
  then have inputs: "map snd relayed = filter goes_to_broadcast (map snd inputs)" using assms(4) by (simp add: routed_def)
  have by_kind: "registrations xs = concat (map (\<lambda>mess. case mess of ModuleRegistration reg \<Rightarrow> [reg] | _ \<Rightarrow> []) (map snd xs))"
    "messages xs = concat (map (\<lambda>mess. case mess of ModuleMessage m \<Rightarrow> [m] | _ \<Rightarrow> []) (map snd xs))"
    for xs :: "('a, 'b, 'c, 'd) router_input list"
    by (simp_all add: registrations_def messages_def comp_def case_prod_unfold)
  have regs: "registrations relayed = registrations inputs"
    unfolding by_kind inputs by (induction inputs) (auto split: router_thread_message.splits)
  have mess: "messages relayed = filter (\<lambda>m. goes_to_broadcast (ModuleMessage m :: ('a, ('b, 'c, 'd) durs_msg) router_thread_message))
      (messages inputs)"
    unfolding by_kind inputs by (induction inputs) (auto split: router_thread_message.splits)
  have "early_inputs relayed" using assms(2,5) by (simp add: early_inputs_def regs mess)
  from run_delivered[OF assms(6) this] have
    "filter_mset (relayed_to (mr_static_name reg)) (mset (received (mr_sender reg) (b_sent bt))) =
      filter_mset (concerns reg) (mset (messages relayed))"
    using assms(7) by (simp add: delivered_def regs)
  also have "\<dots> = filter_mset (concerns reg) (mset (messages inputs))"
  proof -
    have "concerns reg m \<Longrightarrow> goes_to_broadcast (ModuleMessage m :: ('a, ('b, 'c, 'd) durs_msg) router_thread_message)" for m
      by (cases m) auto
    then show ?thesis by (auto simp: mess filter_filter_mset simp flip: mset_filter intro!: arg_cong[of _ _ mset] filter_cong)
  qed
  finally show ?thesis using routed assms(7) by (simp add: routed_def)
qed

definition answered_inputs :: "(nat, nat, nat, nat) router_input list" where
  "answered_inputs = (2, ModuleMessage (MsgResponse [1] [2] 0 9)) # example_inputs"

theorem modules_get_their_messages_witness:
  "\<exists>rt bt. router_run (\<lambda>_. True) 0 answered_inputs = Some rt \<and>
    broadcast_run (\<lambda>_. True) (map (Pair 3) (r_broadcast rt)) = Some bt \<and>
    received 2 (r_sent rt) = [MsgResponse [1] [2] 0 9] \<and>
    filter_mset (relayed_to [2]) (mset (received 2 (b_sent bt))) =
      {#MsgEvent [1] NewValidBlock 7, MsgRequest [1] InterNodesNetwork 0 8#}"
proof -
  let ?reg = "example_module 2 [NewValidBlock] [InterNodesNetwork]"
  have early: "early_inputs answered_inputs" "?reg \<in> set (registrations answered_inputs)"
    by (simp_all add: early_inputs_def answered_inputs_def example_inputs_def messages_def registrations_def
        registration_wf_def example_module_def)
  obtain rt where rt: "router_run (\<lambda>_. True) 0 answered_inputs = Some rt" "r_broadcast rt = map snd example_inputs"
    by (simp add: router_run_def answered_inputs_def example_inputs_def router_turn_def route_registration_def
        example_module_def router_start_def max_registration_delay_def entry_or_empty_def push_entry_def
        to_broadcast_def send_def Let_def)
  obtain bt where bt: "broadcast_run (\<lambda>_. True) (map (Pair 3) (r_broadcast rt)) = Some bt"
    by (simp add: rt(2) broadcast_run_def example_inputs_def broadcasting_turn_def register_module_def subscribe_def
        take_role_def replay_def api_conflict_def endpoints_declared_def example_module_def broadcaster_start_def
        registration_late_def max_registration_delay_def entry_or_empty_def push_entry_def
        send_msg_to_several_receivers_def store_msg_in_pool_def send_def Let_def)
  show ?thesis
    using rt(1) bt modules_get_their_messages[OF rt(1) early(1) _ _ _ bt early(2)]
    by (auto simp: comp_def answered_inputs_def example_inputs_def messages_def example_module_def add_mset_commute)
qed

end
