(* ===== verification/Core_Conf.thy ===== *)
theory Core_Conf
  imports Core_Modules "HOL-Library.AList"
begin

text \<open>
  The configuration of the node, \<open>lib/core/conf/src\<close> (\<open>lib.rs\<close>, \<open>keys.rs\<close>) and
  \<open>lib/core/core/src/change_conf.rs\<close>, and the generators of keys of
  \<open>lib/tools/crypto/src/keys/ed25519.rs\<close>.

  The files of a profile are what they hold: the file of the keys a JSON value, the file of the
  configuration a configuration, which the crate \<open>serde_json\<close> writes and reads back. Random values
  are arguments. Key derivation (scrypt, the key pair of a seed) is the record \<open>key_derivation\<close>.
\<close>

subsection \<open>Generators of keys\<close>

record key_derivation =
  kd_scrypt :: "ustring \<Rightarrow> ustring \<Rightarrow> nat \<times> nat \<times> nat \<Rightarrow> nat list"
  kd_keypair :: "nat list \<Rightarrow> nat list \<times> nat list"

text \<open>The private and the public key of a seed.\<close>

definition generate_from_seed :: "key_derivation \<Rightarrow> nat list \<Rightarrow> key_pair" where
  "generate_from_seed kd seed = (let (private, public) = kd_keypair kd seed in KeyPairEd25519 public private)"

record salted_generator =
  sg_log_n :: nat
  sg_r :: nat
  sg_p :: nat

definition with_default_parameters :: salted_generator where
  "with_default_parameters = \<lparr>sg_log_n = 12, sg_r = 16, sg_p = 1\<rparr>"

text \<open>The first argument of scrypt is its password: here the salt.\<close>

definition generate_seed :: "key_derivation \<Rightarrow> salted_generator \<Rightarrow> ustring \<Rightarrow> ustring \<Rightarrow> nat list" where
  "generate_seed kd g password salt = kd_scrypt kd salt password (sg_log_n g, sg_r g, sg_p g)"

definition generate_keypair :: "key_derivation \<Rightarrow> salted_generator \<Rightarrow> ustring \<Rightarrow> ustring \<Rightarrow> key_pair" where
  "generate_keypair kd g password salt = generate_from_seed kd (generate_seed kd g password salt)"

subsection \<open>Configurations\<close>

definition default_currency :: ustring where
  "default_currency = ascii ''g1''"

definition default_default_sync_module :: ustring where
  "default_default_sync_module = ascii ''ws2p1''"

text \<open>The configurations of the modules: no value at first, then an object.\<close>

fun set_modules_conf :: "durs_name \<Rightarrow> json_value \<Rightarrow> json_value \<Rightarrow> json_value run" where
  "set_modules_conf name new_conf JNull = Some (JObject [(name, new_conf)])"
| "set_modules_conf name new_conf (JObject members) = Some (JObject (AList.update name new_conf members))"
| "set_modules_conf name new_conf _ = None"

record conf_v1 =
  c1_currency :: ustring
  c1_my_node_id :: nat
  c1_modules :: json_value
  c1_disabled :: "durs_name set"
  c1_enabled :: "durs_name set"

datatype resource_usage = UsageMinimal | UsageMedium | UsageLarge | UsageInfinite

record resources_usage =
  ru_cpu_usage :: resource_usage
  ru_network_usage :: resource_usage
  ru_memory_usage :: resource_usage
  ru_disk_space_usage :: resource_usage

definition resources_usage_default :: resources_usage where
  "resources_usage_default = \<lparr>ru_cpu_usage = UsageLarge, ru_network_usage = UsageLarge,
     ru_memory_usage = UsageLarge, ru_disk_space_usage = UsageLarge\<rparr>"

record conf_v2 =
  c2_currency :: ustring
  c2_my_node_id :: nat
  c2_default_sync_module :: durs_name
  c2_ressources_usage :: resources_usage
  c2_disabled :: "durs_name set"
  c2_enabled :: "durs_name set"

definition conf_v2_default :: "nat \<Rightarrow> conf_v2" where
  "conf_v2_default random_id = \<lparr>c2_currency = default_currency, c2_my_node_id = random_id,
     c2_default_sync_module = default_default_sync_module, c2_ressources_usage = resources_usage_default,
     c2_disabled = {}, c2_enabled = {}\<rparr>"

definition conf_v2_from :: "conf_v1 \<Rightarrow> conf_v2" where
  "conf_v2_from c = \<lparr>c2_currency = c1_currency c, c2_my_node_id = c1_my_node_id c,
     c2_default_sync_module = default_default_sync_module, c2_ressources_usage = resources_usage_default,
     c2_disabled = c1_disabled c, c2_enabled = c1_enabled c\<rparr>"

datatype durs_conf = ConfV1 conf_v1 | ConfV2 conf_v2 json_value

datatype durs_global_conf = GlobalConfV1 conf_v1 | GlobalConfV2 conf_v2

fun global_currency :: "durs_global_conf \<Rightarrow> ustring" where
  "global_currency (GlobalConfV1 c) = c1_currency c"
| "global_currency (GlobalConfV2 c) = c2_currency c"

fun global_my_node_id :: "durs_global_conf \<Rightarrow> nat" where
  "global_my_node_id (GlobalConfV1 c) = c1_my_node_id c"
| "global_my_node_id (GlobalConfV2 c) = c2_my_node_id c"

fun global_default_sync_module :: "durs_global_conf \<Rightarrow> durs_name run" where
  "global_default_sync_module (GlobalConfV1 _) = None"
| "global_default_sync_module (GlobalConfV2 c) = Some (c2_default_sync_module c)"

definition conf_default :: "nat \<Rightarrow> durs_conf" where
  "conf_default random_id = ConfV2 (conf_v2_default random_id) JNull"

fun get_global_conf :: "durs_conf \<Rightarrow> durs_global_conf" where
  "get_global_conf (ConfV1 c) = GlobalConfV1 c"
| "get_global_conf (ConfV2 c _) = GlobalConfV2 c"

definition conf_currency :: "durs_conf \<Rightarrow> ustring" where
  "conf_currency conf = global_currency (get_global_conf conf)"

definition conf_my_node_id :: "durs_conf \<Rightarrow> nat" where
  "conf_my_node_id conf = global_my_node_id (get_global_conf conf)"

fun upgrade :: "durs_conf \<Rightarrow> durs_conf \<times> bool" where
  "upgrade (ConfV1 c) = (ConfV2 (conf_v2_from c) (c1_modules c), True)"
| "upgrade (ConfV2 c modules) = (ConfV2 c modules, False)"

fun conf_version :: "durs_conf \<Rightarrow> nat" where
  "conf_version (ConfV1 _) = 1"
| "conf_version (ConfV2 _ _) = 2"

fun set_currency :: "ustring \<Rightarrow> durs_conf \<Rightarrow> durs_conf" where
  "set_currency currency (ConfV1 c) = ConfV1 (c\<lparr>c1_currency := currency\<rparr>)"
| "set_currency currency (ConfV2 c modules) = ConfV2 (c\<lparr>c2_currency := currency\<rparr>) modules"

fun disable_module :: "durs_name \<Rightarrow> durs_conf \<Rightarrow> durs_conf" where
  "disable_module m (ConfV1 c) =
     ConfV1 (c\<lparr>c1_disabled := insert m (c1_disabled c), c1_enabled := c1_enabled c - {m}\<rparr>)"
| "disable_module m (ConfV2 c modules) =
     ConfV2 (c\<lparr>c2_disabled := insert m (c2_disabled c), c2_enabled := c2_enabled c - {m}\<rparr>) modules"

fun enable_module :: "durs_name \<Rightarrow> durs_conf \<Rightarrow> durs_conf" where
  "enable_module m (ConfV1 c) =
     ConfV1 (c\<lparr>c1_disabled := c1_disabled c - {m}, c1_enabled := insert m (c1_enabled c)\<rparr>)"
| "enable_module m (ConfV2 c modules) =
     ConfV2 (c\<lparr>c2_disabled := c2_disabled c - {m}, c2_enabled := insert m (c2_enabled c)\<rparr>) modules"

fun disabled_modules :: "durs_conf \<Rightarrow> durs_name set" where
  "disabled_modules (ConfV1 c) = c1_disabled c"
| "disabled_modules (ConfV2 c _) = c2_disabled c"

fun enabled_modules :: "durs_conf \<Rightarrow> durs_name set" where
  "enabled_modules (ConfV1 c) = c1_enabled c"
| "enabled_modules (ConfV2 c _) = c2_enabled c"

fun conf_modules :: "durs_conf \<Rightarrow> json_value" where
  "conf_modules (ConfV1 c) = c1_modules c"
| "conf_modules (ConfV2 _ modules) = modules"

fun set_module_conf :: "durs_name \<Rightarrow> json_value \<Rightarrow> durs_conf \<Rightarrow> durs_conf run" where
  "set_module_conf name new_conf (ConfV1 c) =
     map_option (\<lambda>modules. ConfV1 (c\<lparr>c1_modules := modules\<rparr>)) (set_modules_conf name new_conf (c1_modules c))"
| "set_module_conf name new_conf (ConfV2 c modules) =
     map_option (ConfV2 c) (set_modules_conf name new_conf modules)"

subsection \<open>Keys of the user\<close>

record duniter_key_pairs =
  kp_network :: key_pair
  kp_member :: "key_pair option"

fun priv_string :: "crypto \<Rightarrow> priv_key \<Rightarrow> ustring run" where
  "priv_string c (PrivEd25519 k) = Some (c_base58 c k)"
| "priv_string c PrivSchnorr = None"

text \<open>The two texts of a pair of keys, the private one first.\<close>

definition key_pair_texts :: "crypto \<Rightarrow> key_pair \<Rightarrow> (ustring \<times> ustring) run" where
  "key_pair_texts c k = do {
     private \<leftarrow> private_key k;
     sec \<leftarrow> priv_string c private;
     public \<leftarrow> public_key k;
     pub \<leftarrow> key_string c public;
     Some (sec, pub)
   }"

definition key_pairs_serialize :: "crypto \<Rightarrow> duniter_key_pairs \<Rightarrow> json_value run" where
  "key_pairs_serialize c keys = do {
     (member_sec, member_pub) \<leftarrow> (case kp_member keys of Some k \<Rightarrow> key_pair_texts c k | None \<Rightarrow> Some ([], []));
     (network_sec, network_pub) \<leftarrow> key_pair_texts c (kp_network keys);
     Some (JObject [(ascii ''network_sec'', JString network_sec), (ascii ''network_pub'', JString network_pub),
       (ascii ''member_sec'', JString member_sec), (ascii ''member_pub'', JString member_pub)])
   }"

definition get_required_keys_content :: "required_keys \<Rightarrow> duniter_key_pairs \<Rightarrow> required_keys_content run" where
  "get_required_keys_content required keys = (case required of
      RequireMemberKeyPair \<Rightarrow> Some (MemberKeyPair (kp_member keys))
    | RequireMemberPublicKey \<Rightarrow>
        (case kp_member keys of
           Some k \<Rightarrow> map_option (MemberPublicKey \<circ> Some) (public_key k)
         | None \<Rightarrow> Some (MemberPublicKey None))
    | RequireNetworkKeyPair \<Rightarrow> Some (NetworkKeyPair (kp_network keys))
    | RequireNetworkPublicKey \<Rightarrow> map_option NetworkPublicKey (public_key (kp_network keys))
    | RequireNone \<Rightarrow> Some NoKeys)"

text \<open>A pair of keys read from its two texts, which must decode.\<close>

definition key_pair_from_texts :: "codecs \<Rightarrow> ustring \<Rightarrow> ustring \<Rightarrow> key_pair run" where
  "key_pair_from_texts d sec pub = do {
     private \<leftarrow> expect (str_base58_to_64bytes d sec);
     public \<leftarrow> expect (str_base58_to_32bytes d pub);
     Some (KeyPairEd25519 public private)
   }"

definition json_text :: "string \<Rightarrow> json_value \<Rightarrow> ustring run" where
  "json_text key v = do { field \<leftarrow> json_get key v; json_as_str field }"

definition key_pairs_from_json :: "codecs \<Rightarrow> json_value \<Rightarrow> duniter_key_pairs run" where
  "key_pairs_from_json d json_conf = do {
     network_sec \<leftarrow> json_text ''network_sec'' json_conf;
     network_pub \<leftarrow> json_text ''network_pub'' json_conf;
     network_keypair \<leftarrow> key_pair_from_texts d network_sec network_pub;
     member_sec \<leftarrow> json_text ''member_sec'' json_conf;
     member_pub \<leftarrow> json_text ''member_pub'' json_conf;
     member_keypair \<leftarrow> (if member_sec = [] \<or> member_pub = [] then Some None
       else map_option Some (key_pair_from_texts d member_sec member_pub));
     Some \<lparr>kp_network = network_keypair, kp_member = member_keypair\<rparr>
   }"

definition modify_network_keys :: "key_derivation \<Rightarrow> ustring \<Rightarrow> ustring \<Rightarrow> duniter_key_pairs \<Rightarrow> duniter_key_pairs" where
  "modify_network_keys kd salt password keys =
     keys\<lparr>kp_network := generate_keypair kd with_default_parameters salt password\<rparr>"

definition modify_member_keys :: "key_derivation \<Rightarrow> ustring \<Rightarrow> ustring \<Rightarrow> duniter_key_pairs \<Rightarrow> duniter_key_pairs" where
  "modify_member_keys kd salt password keys =
     keys\<lparr>kp_member := Some (generate_keypair kd with_default_parameters salt password)\<rparr>"

definition clear_keys :: "key_pair \<Rightarrow> bool \<Rightarrow> bool \<Rightarrow> duniter_key_pairs \<Rightarrow> duniter_key_pairs" where
  "clear_keys random_pair network member keys =
     (let keys = (if network then keys\<lparr>kp_network := random_pair\<rparr> else keys)
      in if member then keys\<lparr>kp_member := None\<rparr> else keys)"

subsection \<open>Dialogue on the keys\<close>

datatype wizard_error = WizardCanceled | WizardBadInput

text \<open>What the user types is a parameter: the trimmed line, when it can be read.\<close>

definition question_prompt :: "ustring option \<Rightarrow> ustring list \<Rightarrow> wizard_error + ustring" where
  "question_prompt line answers = (case line of
      Some answer \<Rightarrow> if answer \<in> set answers then Inr answer else Inl WizardCanceled
    | None \<Rightarrow> Inl WizardCanceled)"

definition salt_password_prompt ::
  "key_derivation \<Rightarrow> ustring option \<Rightarrow> ustring option \<Rightarrow> wizard_error + key_pair" where
  "salt_password_prompt kd salt password = (case salt of
      None \<Rightarrow> Inl WizardBadInput
    | Some salt \<Rightarrow>
        if salt = [] then Inl WizardBadInput
        else (case password of
            None \<Rightarrow> Inl WizardBadInput
          | Some password \<Rightarrow>
              if password = [] then Inl WizardBadInput
              else Inr (generate_keypair kd with_default_parameters salt password)))"

record wizard_inputs =
  wi_network_answer :: "ustring option"
  wi_network_salt :: "ustring option"
  wi_network_password :: "ustring option"
  wi_member_answer :: "ustring option"
  wi_member_salt :: "ustring option"
  wi_member_password :: "ustring option"

definition key_wizard :: "key_derivation \<Rightarrow> wizard_inputs \<Rightarrow> duniter_key_pairs \<Rightarrow> (wizard_error + duniter_key_pairs) run" where
  "key_wizard kd w keys =
     try_then (Some (question_prompt (wi_network_answer w) [ascii ''y'', ascii ''n''])) (\<lambda>answer.
     try_then (Some (if answer = ascii ''y''
         then map_sum id (\<lambda>k. keys\<lparr>kp_network := k\<rparr>)
           (salt_password_prompt kd (wi_network_salt w) (wi_network_password w))
         else Inr keys)) (\<lambda>keys.
     try_then (Some (question_prompt (wi_member_answer w) [ascii ''y'', ascii ''n'', ascii ''d''])) (\<lambda>answer.
       Some (if answer = ascii ''y''
         then map_sum id (\<lambda>k. keys\<lparr>kp_member := Some k\<rparr>)
           (salt_password_prompt kd (wi_member_salt w) (wi_member_password w))
         else if answer = ascii ''d'' then Inr (keys\<lparr>kp_member := None\<rparr>)
         else Inr keys))))"

subsection \<open>Files of a profile\<close>

datatype conf_file_error = ConfReadError | ConfParseError | ConfWriteError

text \<open>A missing file is \<open>None\<close>; a file of the configuration may be unreadable or malformed.\<close>

record profile_files =
  pf_keypairs :: "json_value option"
  pf_conf :: "(conf_file_error + durs_conf) option"

definition write_keypairs_file :: "crypto \<Rightarrow> duniter_key_pairs \<Rightarrow> profile_files \<Rightarrow> profile_files run" where
  "write_keypairs_file c keys files = do {
     json \<leftarrow> key_pairs_serialize c keys;
     Some (files\<lparr>pf_keypairs := Some json\<rparr>)
   }"

definition write_conf_file :: "durs_conf \<Rightarrow> profile_files \<Rightarrow> profile_files" where
  "write_conf_file conf files = files\<lparr>pf_conf := Some (Inr conf)\<rparr>"

text \<open>The keys first, then the configuration; what is missing is created, an old version is upgraded.\<close>

definition load_conf_at_path ::
  "crypto \<Rightarrow> codecs \<Rightarrow> key_pair \<Rightarrow> nat \<Rightarrow> profile_files \<Rightarrow>
   ((conf_file_error + durs_conf \<times> duniter_key_pairs) \<times> profile_files) run" where
  "load_conf_at_path c d random_pair random_id files = do {
     (keypairs, files) \<leftarrow> (case pf_keypairs files of
         Some json_conf \<Rightarrow> map_option (\<lambda>keys. (keys, files)) (key_pairs_from_json d json_conf)
       | None \<Rightarrow> do {
           let keys = \<lparr>kp_network = random_pair, kp_member = None\<rparr>;
           files \<leftarrow> write_keypairs_file c keys files;
           Some (keys, files)
         });
     (case pf_conf files of
        Some (Inl e) \<Rightarrow> Some (Inl e, files)
      | Some (Inr conf) \<Rightarrow>
          (let (conf, upgraded) = upgrade conf;
             files = (if upgraded then write_conf_file conf files else files)
           in Some (Inr (conf, keypairs), files))
      | None \<Rightarrow>
          (let conf = conf_default random_id
           in Some (Inr (conf, keypairs), write_conf_file conf files)))
   }"

definition write_new_module_conf :: "durs_name \<Rightarrow> json_value \<Rightarrow> durs_conf \<Rightarrow> profile_files \<Rightarrow> (durs_conf \<times> profile_files) run" where
  "write_new_module_conf name new_conf conf files = do {
     conf \<leftarrow> set_module_conf name new_conf conf;
     Some (conf, write_conf_file conf files)
   }"

text \<open>The thread of the configuration, which the router feeds: a turn for each message.\<close>

fun conf_turn :: "('e, 'q, 's) durs_msg \<Rightarrow> durs_conf \<times> profile_files \<Rightarrow> (durs_conf \<times> profile_files) run" where
  "conf_turn (MsgSaveNewModuleConf name new_conf) (conf, files) = do {
     conf \<leftarrow> set_module_conf name new_conf conf;
     Some (conf, write_conf_file conf files)
   }"
| "conf_turn msg s = Some s"

definition conf_thread :: "('e, 'q, 's) durs_msg list \<Rightarrow> durs_conf \<times> profile_files \<Rightarrow> (durs_conf \<times> profile_files) run" where
  "conf_thread msgs s = fold_run conf_turn msgs s"

subsection \<open>Requests of the user\<close>

datatype change_global_conf = ChangeCurrency ustring | DisableModule durs_name | EnableModule durs_name | ChangeNothing

fun change_conf :: "change_global_conf \<Rightarrow> durs_conf \<Rightarrow> durs_conf" where
  "change_conf (ChangeCurrency _) conf = conf"
| "change_conf (DisableModule m) conf = disable_module m conf"
| "change_conf (EnableModule m) conf = enable_module m conf"
| "change_conf ChangeNothing conf = conf"

definition change_global_conf :: "change_global_conf \<Rightarrow> durs_conf \<Rightarrow> profile_files \<Rightarrow> durs_conf \<times> profile_files" where
  "change_global_conf req conf files = (let conf = change_conf req conf in (conf, write_conf_file conf files))"

subsection \<open>Properties\<close>

fun request_about :: "durs_name \<Rightarrow> change_global_conf \<Rightarrow> bool" where
  "request_about n (DisableModule m) \<longleftrightarrow> m = n"
| "request_about n (EnableModule m) \<longleftrightarrow> m = n"
| "request_about n _ \<longleftrightarrow> False"

definition conf_enabled :: "durs_module \<Rightarrow> durs_conf \<Rightarrow> bool" where
  "conf_enabled m conf = enabled m (disabled_modules conf) (enabled_modules conf)"

lemma conf_enabled_change:
  "conf_enabled m (change_conf req conf) =
     (if request_about (dm_name m) req then req = EnableModule (dm_name m) \<or> dm_priority m = Essential
      else conf_enabled m conf)"
  by (cases req; cases conf; cases "dm_priority m") (auto simp: conf_enabled_def enabled_def)

text \<open>
  The modules that run. After any requests of the user, a module runs as the last request about
  it says, but for an essential module, which always runs; without such a request, it runs as
  before.
\<close>

theorem last_request_decides:
  "conf_enabled m (fold change_conf reqs conf) =
    (case find (request_about (dm_name m)) (rev reqs) of
       Some req \<Rightarrow> req = EnableModule (dm_name m) \<or> dm_priority m = Essential
     | None \<Rightarrow> conf_enabled m conf)"
  by (induction reqs rule: rev_induct) (simp_all add: conf_enabled_change)

definition keys_readable :: "crypto \<Rightarrow> codecs \<Rightarrow> key_pair \<Rightarrow> bool" where
  "keys_readable c d k = (case k of
      KeyPairEd25519 public private \<Rightarrow>
        length public = 32 \<and> d_base58 d (c_base58 c public) = Inr public \<and> c_base58 c public \<noteq> [] \<and>
        length private = 64 \<and> d_base58 d (c_base58 c private) = Inr private \<and> c_base58 c private \<noteq> []
    | KeyPairSchnorr \<Rightarrow> False)"

lemma key_pair_reads:
  assumes "keys_readable c d k"
  shows "\<exists>sec pub. key_pair_texts c k = Some (sec, pub) \<and> sec \<noteq> [] \<and> pub \<noteq> [] \<and> key_pair_from_texts d sec pub = Some k"
  using assms
  by (cases k) (auto simp: keys_readable_def key_pair_texts_def key_pair_from_texts_def str_base58_to_64bytes_def
      str_base58_to_32bytes_def base58_to_bytes_def)

lemma keys_reload:
  assumes "keys_readable c d (kp_network keys)" "\<And>k. kp_member keys = Some k \<Longrightarrow> keys_readable c d k"
  shows "\<exists>json. key_pairs_serialize c keys = Some json \<and> key_pairs_from_json d json = Some keys"
proof -
  obtain sec pub where network: "key_pair_texts c (kp_network keys) = Some (sec, pub)"
    "key_pair_from_texts d sec pub = Some (kp_network keys)"
    using key_pair_reads[OF assms(1)] by blast
  have names: "ascii ''network_pub'' \<noteq> ascii ''network_sec''" "ascii ''member_sec'' \<noteq> ascii ''network_sec''"
    "ascii ''member_sec'' \<noteq> ascii ''network_pub''" "ascii ''member_pub'' \<noteq> ascii ''network_sec''"
    "ascii ''member_pub'' \<noteq> ascii ''network_pub''" "ascii ''member_pub'' \<noteq> ascii ''member_sec''"
    by (simp_all add: ascii_def)
  show ?thesis
  proof (cases "kp_member keys")
    case None
    then show ?thesis
      using network names
      by (cases keys) (simp add: key_pairs_serialize_def key_pairs_from_json_def json_text_def)
  next
    case (Some k)
    from key_pair_reads[OF assms(2)[OF Some]] obtain msec mpub where "key_pair_texts c k = Some (msec, mpub)"
      "msec \<noteq> []" "mpub \<noteq> []" "key_pair_from_texts d msec mpub = Some k" by blast
    then show ?thesis
      using network names Some
      by (cases keys) (simp add: key_pairs_serialize_def key_pairs_from_json_def json_text_def)
  qed
qed

text \<open>What an upgrade keeps.\<close>

definition same_settings :: "durs_conf \<Rightarrow> durs_conf \<Rightarrow> bool" where
  "same_settings a b \<longleftrightarrow> conf_currency a = conf_currency b \<and> conf_my_node_id a = conf_my_node_id b \<and>
     disabled_modules a = disabled_modules b \<and> enabled_modules a = enabled_modules b \<and> conf_modules a = conf_modules b"

text \<open>
  C21: Start of a node. The first start on a profile, with or without its two files, gives keys and a
  configuration of version 2 that keeps the settings of the file, and every later start gives the
  same ones and changes no file.
\<close>

theorem profile_loads_once:
  assumes "\<And>json. pf_keypairs files = Some json \<Longrightarrow> key_pairs_from_json d json \<noteq> None"
    and "\<And>e. pf_conf files \<noteq> Some (Inl e)" "keys_readable c d random_pair"
  shows "\<exists>conf keys files'. load_conf_at_path c d random_pair random_id files = Some (Inr (conf, keys), files') \<and>
    conf_version conf = 2 \<and> (\<forall>old. pf_conf files = Some (Inr old) \<longrightarrow> same_settings conf old) \<and>
    (\<forall>pair i. load_conf_at_path c d pair i files' = Some (Inr (conf, keys), files'))"
proof -
  define start where "start = (case pf_keypairs files of
      Some json_conf \<Rightarrow> map_option (\<lambda>keys. (keys, files)) (key_pairs_from_json d json_conf)
    | None \<Rightarrow> do {
        let keys = \<lparr>kp_network = random_pair, kp_member = None\<rparr>;
        files \<leftarrow> write_keypairs_file c keys files;
        Some (keys, files)
      })"
  have "\<exists>keys json. start = Some (keys, files\<lparr>pf_keypairs := Some json\<rparr>) \<and> key_pairs_from_json d json = Some keys"
  proof (cases "pf_keypairs files")
    case None
    obtain json where json: "key_pairs_serialize c \<lparr>kp_network = random_pair, kp_member = None\<rparr> = Some json"
      "key_pairs_from_json d json = Some \<lparr>kp_network = random_pair, kp_member = None\<rparr>"
      using keys_reload[of c d "\<lparr>kp_network = random_pair, kp_member = None\<rparr>"] assms(3) by auto
    then have "start = Some (\<lparr>kp_network = random_pair, kp_member = None\<rparr>, files\<lparr>pf_keypairs := Some json\<rparr>)"
      by (simp add: start_def None write_keypairs_file_def)
    then show ?thesis using json(2) by blast
  next
    case (Some json)
    moreover from assms(1)[OF Some] obtain keys where "key_pairs_from_json d json = Some keys" by auto
    moreover have "files = files\<lparr>pf_keypairs := Some json\<rparr>" using Some by (cases files) simp
    ultimately have "start = Some (keys, files\<lparr>pf_keypairs := Some json\<rparr>) \<and> key_pairs_from_json d json = Some keys"
      by (simp add: start_def)
    then show ?thesis by blast
  qed
  then obtain keys json where start: "start = Some (keys, files\<lparr>pf_keypairs := Some json\<rparr>)"
    "key_pairs_from_json d json = Some keys" by blast
  show ?thesis
  proof (cases "pf_conf files")
    case None
    then show ?thesis
      using start unfolding load_conf_at_path_def start_def[symmetric]
      by (simp add: load_conf_at_path_def write_conf_file_def conf_default_def Let_def)
  next
    case (Some r)
    then obtain old where "r = Inr old" using assms(2) by (cases r) auto
    then show ?thesis
      using start Some unfolding load_conf_at_path_def start_def[symmetric]
      by (cases old)
        (auto simp: load_conf_at_path_def write_conf_file_def same_settings_def conf_v2_from_def conf_currency_def
          conf_my_node_id_def Let_def)
  qed
qed

theorem profile_loads_once_witness:
  "\<exists>conf keys files'. load_conf_at_path toy_crypto toy_codecs (KeyPairEd25519 (replicate 32 1) (replicate 64 1)) 5
      \<lparr>pf_keypairs = None, pf_conf = Some (Inr (ConfV1 \<lparr>c1_currency = ascii ''g1-test'', c1_my_node_id = 3,
        c1_modules = JNull, c1_disabled = {}, c1_enabled = {ascii ''tui''}\<rparr>))\<rparr> = Some (Inr (conf, keys), files') \<and>
    conf_version conf = 2 \<and> conf_currency conf = ascii ''g1-test''"
  using profile_loads_once[of "\<lparr>pf_keypairs = None, pf_conf = Some (Inr (ConfV1 \<lparr>c1_currency = ascii ''g1-test'',
      c1_my_node_id = 3, c1_modules = JNull, c1_disabled = {}, c1_enabled = {ascii ''tui''}\<rparr>))\<rparr>" toy_codecs toy_crypto
      "KeyPairEd25519 (replicate 32 1) (replicate 64 1)" 5]
  by (auto simp: keys_readable_def toy_crypto_def toy_codecs_def same_settings_def conf_currency_def)

end
