(* ===== verification/Document_Parsers.thy ===== *)
theory Document_Parsers
  imports Block_Document Network_Peers
begin

text \<open>
  The readers of the documents of the protocol: \<open>lib/tools/documents/src/documents/mod.rs\<close> and the
  parsers at the end of \<open>identity.rs\<close>, \<open>membership.rs\<close>, \<open>certification.rs\<close>, \<open>revocation.rs\<close> and
  \<open>transaction.rs\<close>, with the views of the documents as strings. The parser of the grammar
  \<open>documents_grammar.pest\<close> is generated when the program is built: it is a parameter, with the
  names that \<open>Debug\<close> gives to the rules.
\<close>

section \<open>Rules\<close>

datatype doc_rule =
  R_document | R_document_v10 | R_idty | R_idty_v10 | R_membership | R_membership_v10 | R_cert | R_cert_v10
| R_revoc | R_revoc_v10 | R_tx | R_tx_v10 | R_currency | R_pubkey | R_uid | R_blockstamp | R_block_id | R_hash
| R_ed25519_sig | R_membership_in | R_membership_out | R_tx_locktime | R_tx_amount | R_tx_amount_base
| R_du_block_id | R_tx_index | R_input_index | R_issuer_index | R_xhx_secret | R_csv_duration | R_cltv_timestamp
| R_tx_input | R_tx_input_du | R_tx_input_tx | R_tx_unlock | R_unlock_sig | R_unlock_xhx | R_tx_output
| R_output_and_group | R_output_or_group | R_output_cond_sig | R_output_cond_xhx | R_output_cond_csv
| R_output_cond_cltv | R_tx_comment | R_EOI

record doc_pest =
  dp_parse :: "doc_rule pest_parser"
  dp_debug :: "doc_rule \<Rightarrow> ustring"

text \<open>The outer rule of a document holds the rule of a version, which is checked.\<close>

definition parse_versioned ::
  "doc_pest \<Rightarrow> doc_rule \<Rightarrow> doc_rule \<Rightarrow> (doc_rule pest_pair \<Rightarrow> 'a run) \<Rightarrow> ustring \<Rightarrow>
   (text_document_parse_error + 'a) run" where
  "parse_versioned pest rule vx_rule read doc = (case dp_parse pest rule doc of
       Inl pest_error \<Rightarrow> Some (Inl (PestError pest_error))
     | Inr pairs \<Rightarrow> do {
         pair \<leftarrow> first_of pairs;
         vx_pair \<leftarrow> first_of (into_inner pair);
         (if as_rule vx_pair = vx_rule then map_option Inr (read vx_pair)
          else Some (Inl (UnexpectedVersion (dp_debug pest (as_rule vx_pair)))))
       })"

text \<open>The first string that a rule has matched, parsed as an unsigned integer.\<close>

definition inner_str :: "'r pest_pair \<Rightarrow> ustring run" where
  "inner_str pair = map_option as_str (first_of (into_inner pair))"

text \<open>\<open>parse\<close> at a signed type of \<open>w\<close> bits.\<close>

definition parse_sint :: "nat \<Rightarrow> ustring \<Rightarrow> int option" where
  "parse_sint w s = (case s of
       c # cs \<Rightarrow>
         if c = 45
         then (if cs = [] \<or> \<not> list_all is_digit cs \<or> 2 ^ (w - 1) < digits_value cs then None
               else Some (- int (digits_value cs)))
         else map_option int (parse_uint (w - 1) s)
     | [] \<Rightarrow> None)"

section \<open>Identities\<close>

record idty_fields =
  fi_currency :: ustring
  fi_pubkey :: ustring
  fi_uid :: ustring
  fi_blockstamp :: blockstamp
  fi_sig :: ustring

definition idty_field :: "doc_rule pest_pair \<Rightarrow> idty_fields \<Rightarrow> idty_fields run" where
  "idty_field field f = (case as_rule field of
       R_currency \<Rightarrow> Some (f\<lparr>fi_currency := as_str field\<rparr>)
     | R_pubkey \<Rightarrow> Some (f\<lparr>fi_pubkey := as_str field\<rparr>)
     | R_uid \<Rightarrow> Some (f\<lparr>fi_uid := as_str field\<rparr>)
     | R_blockstamp \<Rightarrow> do { b \<leftarrow> blockstamp_from_pest_pair field; Some (f\<lparr>fi_blockstamp := b\<rparr>) }
     | R_ed25519_sig \<Rightarrow> Some (f\<lparr>fi_sig := as_str field\<rparr>)
     | R_EOI \<Rightarrow> Some f
     | _ \<Rightarrow> None)"

definition identity_from_pest_pair :: "codecs \<Rightarrow> doc_rule pest_pair \<Rightarrow> identity_document run" where
  "identity_from_pest_pair d pair = do {
     f \<leftarrow> fold_run idty_field (into_inner pair)
       \<lparr>fi_currency = [], fi_pubkey = [], fi_uid = [], fi_blockstamp = blockstamp_default, fi_sig = []\<rparr>;
     issuer \<leftarrow> pubkey_from_text d (fi_pubkey f);
     sig \<leftarrow> sig_from_text d (fi_sig f);
     Some \<lparr>i_text = Some (as_str pair), i_currency = fi_currency f, i_username = fi_uid f,
       i_blockstamp = fi_blockstamp f, i_issuers = [issuer], i_signatures = [sig]\<rparr>
   }"

definition identity_parse ::
  "codecs \<Rightarrow> doc_pest \<Rightarrow> ustring \<Rightarrow> (text_document_parse_error + identity_document) run" where
  "identity_parse d pest doc = parse_versioned pest R_idty R_idty_v10 (identity_from_pest_pair d) doc"

record identity_string_document =
  is_currency :: ustring
  is_username :: ustring
  is_blockstamp :: ustring
  is_issuer :: ustring
  is_signature :: ustring

definition identity_to_string_object :: "crypto \<Rightarrow> identity_document \<Rightarrow> identity_string_document run" where
  "identity_to_string_object c doc = do {
     issuer \<leftarrow> first_of (i_issuers doc) \<bind> key_string c;
     sig \<leftarrow> first_of (i_signatures doc) \<bind> sig_string c;
     Some \<lparr>is_currency = i_currency doc, is_username = i_username doc,
       is_blockstamp = blockstamp_to_string (i_blockstamp doc), is_issuer = issuer, is_signature = sig\<rparr>
   }"

section \<open>Memberships\<close>

record ms_fields =
  fm_currency :: ustring
  fm_pubkey :: ustring
  fm_uid :: ustring
  fm_blockstamps :: "blockstamp list"
  fm_membership :: membership_type
  fm_sig :: ustring

definition ms_field :: "doc_rule pest_pair \<Rightarrow> ms_fields \<Rightarrow> ms_fields run" where
  "ms_field field f = (case as_rule field of
       R_currency \<Rightarrow> Some (f\<lparr>fm_currency := as_str field\<rparr>)
     | R_uid \<Rightarrow> Some (f\<lparr>fm_uid := as_str field\<rparr>)
     | R_pubkey \<Rightarrow> Some (f\<lparr>fm_pubkey := as_str field\<rparr>)
     | R_membership_in \<Rightarrow> Some (f\<lparr>fm_membership := MsIn\<rparr>)
     | R_membership_out \<Rightarrow> Some (f\<lparr>fm_membership := MsOut\<rparr>)
     | R_blockstamp \<Rightarrow> do {
         b \<leftarrow> blockstamp_from_pest_pair field; Some (f\<lparr>fm_blockstamps := fm_blockstamps f @ [b]\<rparr>) }
     | R_ed25519_sig \<Rightarrow> Some (f\<lparr>fm_sig := as_str field\<rparr>)
     | R_EOI \<Rightarrow> Some f
     | _ \<Rightarrow> None)"

definition membership_from_pest_pair :: "codecs \<Rightarrow> doc_rule pest_pair \<Rightarrow> membership_document run" where
  "membership_from_pest_pair d pair = do {
     f \<leftarrow> fold_run ms_field (into_inner pair)
       \<lparr>fm_currency = [], fm_pubkey = [], fm_uid = [], fm_blockstamps = [], fm_membership = MsIn, fm_sig = []\<rparr>;
     issuer \<leftarrow> pubkey_from_text d (fm_pubkey f);
     b \<leftarrow> vec_get (fm_blockstamps f) 0;
     identity_b \<leftarrow> vec_get (fm_blockstamps f) 1;
     sig \<leftarrow> sig_from_text d (fm_sig f);
     Some \<lparr>m_text = Some (as_str pair), m_currency = fm_currency f, m_issuers = [issuer], m_blockstamp = b,
       m_membership = fm_membership f, m_identity_username = fm_uid f, m_identity_blockstamp = identity_b,
       m_signatures = [sig]\<rparr>
   }"

definition membership_parse ::
  "codecs \<Rightarrow> doc_pest \<Rightarrow> ustring \<Rightarrow> (text_document_parse_error + membership_document) run" where
  "membership_parse d pest doc =
     parse_versioned pest R_membership R_membership_v10 (membership_from_pest_pair d) doc"

record membership_string_document =
  mss_currency :: ustring
  mss_issuer :: ustring
  mss_blockstamp :: ustring
  mss_membership :: ustring
  mss_username :: ustring
  mss_identity_blockstamp :: ustring
  mss_signature :: ustring

definition membership_to_string_object :: "crypto \<Rightarrow> membership_document \<Rightarrow> membership_string_document run" where
  "membership_to_string_object c doc = do {
     issuer \<leftarrow> first_of (m_issuers doc) \<bind> key_string c;
     sig \<leftarrow> first_of (m_signatures doc) \<bind> sig_string c;
     Some \<lparr>mss_currency = m_currency doc, mss_issuer = issuer,
       mss_blockstamp = blockstamp_to_string (m_blockstamp doc),
       mss_membership = (case m_membership doc of MsIn \<Rightarrow> ascii ''IN'' | MsOut \<Rightarrow> ascii ''OUT''),
       mss_username = m_identity_username doc,
       mss_identity_blockstamp = blockstamp_to_string (m_identity_blockstamp doc), mss_signature = sig\<rparr>
   }"

section \<open>Certifications and revocations\<close>

record cert_fields =
  fc_currency :: ustring
  fc_pubkeys :: "pub_key list"
  fc_uid :: ustring
  fc_sigs :: "signature list"
  fc_blockstamps :: "blockstamp list"

definition cert_fields_new :: cert_fields where
  "cert_fields_new = \<lparr>fc_currency = [], fc_pubkeys = [], fc_uid = [], fc_sigs = [], fc_blockstamps = []\<rparr>"

text \<open>The two parsers read their fields alike.\<close>

definition cert_field :: "codecs \<Rightarrow> doc_rule pest_pair \<Rightarrow> cert_fields \<Rightarrow> cert_fields run" where
  "cert_field d field f = (case as_rule field of
       R_currency \<Rightarrow> Some (f\<lparr>fc_currency := as_str field\<rparr>)
     | R_pubkey \<Rightarrow> do {
         k \<leftarrow> pubkey_from_text d (as_str field); Some (f\<lparr>fc_pubkeys := fc_pubkeys f @ [k]\<rparr>) }
     | R_uid \<Rightarrow> Some (f\<lparr>fc_uid := as_str field\<rparr>)
     | R_blockstamp \<Rightarrow> do {
         b \<leftarrow> blockstamp_from_pest_pair field; Some (f\<lparr>fc_blockstamps := fc_blockstamps f @ [b]\<rparr>) }
     | R_ed25519_sig \<Rightarrow> do {
         s \<leftarrow> sig_from_text d (as_str field); Some (f\<lparr>fc_sigs := fc_sigs f @ [s]\<rparr>) }
     | R_EOI \<Rightarrow> Some f
     | _ \<Rightarrow> None)"

definition certification_from_pest_pair :: "codecs \<Rightarrow> doc_rule pest_pair \<Rightarrow> certification_document run" where
  "certification_from_pest_pair d pair = do {
     f \<leftarrow> fold_run (cert_field d) (into_inner pair) cert_fields_new;
     issuer \<leftarrow> vec_get (fc_pubkeys f) 0;
     target \<leftarrow> vec_get (fc_pubkeys f) 1;
     identity_b \<leftarrow> vec_get (fc_blockstamps f) 0;
     identity_sig \<leftarrow> vec_get (fc_sigs f) 0;
     b \<leftarrow> vec_get (fc_blockstamps f) 1;
     sig \<leftarrow> vec_get (fc_sigs f) 1;
     Some \<lparr>c_text = as_str pair, c_currency = fc_currency f, c_issuers = [issuer], c_target = target,
       c_identity_username = fc_uid f, c_identity_blockstamp = identity_b, c_identity_sig = identity_sig,
       c_blockstamp = b, c_signatures = [sig]\<rparr>
   }"

text \<open>Unlike the other parsers, this one panics when the text does not follow the grammar.\<close>

definition certification_parse ::
  "codecs \<Rightarrow> doc_pest \<Rightarrow> ustring \<Rightarrow> (text_document_parse_error + certification_document) run" where
  "certification_parse d pest doc = (case dp_parse pest R_cert doc of
       Inl _ \<Rightarrow> None
     | Inr _ \<Rightarrow> parse_versioned pest R_cert R_cert_v10 (certification_from_pest_pair d) doc)"

definition revocation_from_pest_pair :: "codecs \<Rightarrow> doc_rule pest_pair \<Rightarrow> revocation_document run" where
  "revocation_from_pest_pair d pair = do {
     f \<leftarrow> fold_run (cert_field d) (into_inner pair) cert_fields_new;
     issuer \<leftarrow> vec_get (fc_pubkeys f) 0;
     identity_b \<leftarrow> vec_get (fc_blockstamps f) 0;
     identity_sig \<leftarrow> vec_get (fc_sigs f) 0;
     sig \<leftarrow> vec_get (fc_sigs f) 1;
     Some \<lparr>r_text = as_str pair, r_currency = fc_currency f, r_issuers = [issuer],
       r_identity_username = fc_uid f, r_identity_blockstamp = identity_b, r_identity_sig = identity_sig,
       r_signatures = [sig]\<rparr>
   }"

definition revocation_parse ::
  "codecs \<Rightarrow> doc_pest \<Rightarrow> ustring \<Rightarrow> (text_document_parse_error + revocation_document) run" where
  "revocation_parse d pest doc = parse_versioned pest R_revoc R_revoc_v10 (revocation_from_pest_pair d) doc"

record compact_certification_string =
  ccs_issuer :: ustring
  ccs_target :: ustring
  ccs_block_number :: nat
  ccs_signature :: ustring

definition compact_certification_to_string_object ::
  "crypto \<Rightarrow> compact_certification \<Rightarrow> compact_certification_string run" where
  "compact_certification_to_string_object c doc = do {
     issuer \<leftarrow> key_string c (cc_issuer doc);
     target \<leftarrow> key_string c (cc_target doc);
     sig \<leftarrow> sig_string c (cc_signature doc);
     Some \<lparr>ccs_issuer = issuer, ccs_target = target, ccs_block_number = cc_block_number doc, ccs_signature = sig\<rparr>
   }"

record certification_string_document =
  cs_currency :: ustring
  cs_issuer :: ustring
  cs_target :: ustring
  cs_identity_username :: ustring
  cs_identity_blockstamp :: ustring
  cs_identity_sig :: ustring
  cs_blockstamp :: ustring
  cs_signature :: ustring

definition certification_to_string_object ::
  "crypto \<Rightarrow> certification_document \<Rightarrow> certification_string_document run" where
  "certification_to_string_object c doc = do {
     issuer \<leftarrow> first_of (c_issuers doc) \<bind> key_string c;
     target \<leftarrow> key_string c (c_target doc);
     identity_sig \<leftarrow> sig_string c (c_identity_sig doc);
     sig \<leftarrow> first_of (c_signatures doc) \<bind> sig_string c;
     Some \<lparr>cs_currency = c_currency doc, cs_issuer = issuer, cs_target = target,
       cs_identity_username = c_identity_username doc,
       cs_identity_blockstamp = blockstamp_to_string (c_identity_blockstamp doc),
       cs_identity_sig = identity_sig, cs_blockstamp = blockstamp_to_string (c_blockstamp doc),
       cs_signature = sig\<rparr>
   }"

record compact_revocation_string =
  crs_issuer :: ustring
  crs_signature :: ustring

definition compact_revocation_to_string_object ::
  "crypto \<Rightarrow> compact_revocation \<Rightarrow> compact_revocation_string run" where
  "compact_revocation_to_string_object c doc = do {
     issuer \<leftarrow> key_string c (cr_issuer doc);
     sig \<leftarrow> sig_string c (cr_signature doc);
     Some \<lparr>crs_issuer = issuer, crs_signature = sig\<rparr>
   }"

record revocation_string_document =
  rs_currency :: ustring
  rs_issuer :: ustring
  rs_identity_username :: ustring
  rs_identity_blockstamp :: ustring
  rs_identity_sig :: ustring
  rs_signature :: ustring

definition revocation_to_string_object :: "crypto \<Rightarrow> revocation_document \<Rightarrow> revocation_string_document run" where
  "revocation_to_string_object c doc = do {
     issuer \<leftarrow> first_of (r_issuers doc) \<bind> key_string c;
     identity_sig \<leftarrow> sig_string c (r_identity_sig doc);
     sig \<leftarrow> first_of (r_signatures doc) \<bind> sig_string c;
     Some \<lparr>rs_currency = r_currency doc, rs_issuer = issuer, rs_identity_username = r_identity_username doc,
       rs_identity_blockstamp = blockstamp_to_string (r_identity_blockstamp doc),
       rs_identity_sig = identity_sig, rs_signature = sig\<rparr>
   }"

section \<open>Transactions\<close>

definition parse_usize :: "ustring \<Rightarrow> nat run" where
  "parse_usize s = parse_uint 64 s"

definition input_from_pest_pair :: "codecs \<Rightarrow> doc_rule pest_pair list \<Rightarrow> transaction_input run" where
  "input_from_pest_pair d pairs = do {
     tx_input_type_pair \<leftarrow> first_of pairs;
     let inner = map as_str (into_inner tx_input_type_pair);
     (case as_rule tx_input_type_pair of
        R_tx_input_du \<Rightarrow> do {
          amount \<leftarrow> vec_get inner 0 \<bind> parse_sint 64;
          base \<leftarrow> vec_get inner 1 \<bind> parse_usize;
          key \<leftarrow> vec_get inner 2 \<bind> pubkey_from_text d;
          number \<leftarrow> vec_get inner 3 \<bind> parse_uint 32;
          Some (InputD amount base key number)
        }
      | R_tx_input_tx \<Rightarrow> do {
          amount \<leftarrow> vec_get inner 0 \<bind> parse_sint 64;
          base \<leftarrow> vec_get inner 1 \<bind> parse_usize;
          tx_hash \<leftarrow> vec_get inner 2 \<bind> from_hex \<bind> expect;
          index \<leftarrow> vec_get inner 3 \<bind> parse_usize;
          Some (InputT amount base tx_hash index)
        }
      | _ \<Rightarrow> None)
   }"

text \<open>\<open>FromStr\<close>: the error of the parser is replaced.\<close>

definition parse_part ::
  "doc_pest \<Rightarrow> doc_rule \<Rightarrow> (doc_rule pest_pair list \<Rightarrow> 'a run) \<Rightarrow> ustring \<Rightarrow> (text_document_parse_error + 'a) run" where
  "parse_part pest rule read src = parse_with (dp_parse pest) rule
     (\<lambda>_. InvalidInnerFormat (ascii ''Invalid unlocks !'')) (\<lambda>pair. read (into_inner pair)) src"

definition input_from_str ::
  "codecs \<Rightarrow> doc_pest \<Rightarrow> ustring \<Rightarrow> (text_document_parse_error + transaction_input) run" where
  "input_from_str d pest src = parse_part pest R_tx_input (input_from_pest_pair d) src"

definition unlock_field :: "doc_rule pest_pair \<Rightarrow> input_unlocks \<Rightarrow> input_unlocks run" where
  "unlock_field field u = (case as_rule field of
       R_input_index \<Rightarrow> do { n \<leftarrow> parse_usize (as_str field); Some (u\<lparr>u_index := n\<rparr>) }
     | R_unlock_sig \<Rightarrow> do {
         n \<leftarrow> inner_str field \<bind> parse_usize; Some (u\<lparr>u_unlocks := u_unlocks u @ [UnlockSig n]\<rparr>) }
     | R_unlock_xhx \<Rightarrow> do {
         code \<leftarrow> inner_str field; Some (u\<lparr>u_unlocks := u_unlocks u @ [UnlockXhx code]\<rparr>) }
     | _ \<Rightarrow> None)"

definition unlocks_from_pest_pair :: "doc_rule pest_pair list \<Rightarrow> input_unlocks run" where
  "unlocks_from_pest_pair pairs = fold_run unlock_field pairs \<lparr>u_index = 0, u_unlocks = []\<rparr>"

definition unlocks_from_str ::
  "doc_pest \<Rightarrow> ustring \<Rightarrow> (text_document_parse_error + input_unlocks) run" where
  "unlocks_from_str pest src = parse_part pest R_tx_unlock unlocks_from_pest_pair src"

fun wrap_utxo_conds :: "codecs \<Rightarrow> doc_rule pest_pair \<Rightarrow> utxo_group run" where
  "wrap_utxo_conds d (PestPair rule s inner) = (case rule of
       R_output_and_group \<Rightarrow> do {
         conds_subgroups \<leftarrow> map_run (wrap_utxo_conds d) inner;
         g \<leftarrow> op_chain GroupAnd conds_subgroups;
         Some (Brackets g)
       }
     | R_output_or_group \<Rightarrow> do {
         conds_subgroups \<leftarrow> map_run (wrap_utxo_conds d) inner;
         g \<leftarrow> op_chain GroupOr conds_subgroups;
         Some (Brackets g)
       }
     | R_output_cond_sig \<Rightarrow> do {
         k \<leftarrow> map_option as_str (first_of inner) \<bind> pubkey_from_text d; Some (Single (CondSig k)) }
     | R_output_cond_xhx \<Rightarrow> do {
         h \<leftarrow> map_option as_str (first_of inner) \<bind> from_hex \<bind> expect; Some (Single (CondXhx h)) }
     | R_output_cond_csv \<Rightarrow> do {
         n \<leftarrow> map_option as_str (first_of inner) \<bind> parse_uint 64; Some (Single (CondCsv n)) }
     | R_output_cond_cltv \<Rightarrow> do {
         n \<leftarrow> map_option as_str (first_of inner) \<bind> parse_uint 64; Some (Single (CondCltv n)) }
     | _ \<Rightarrow> None)"

declare wrap_utxo_conds.simps [simp del]

definition output_from_pest_pair :: "codecs \<Rightarrow> doc_rule pest_pair list \<Rightarrow> transaction_output run" where
  "output_from_pest_pair d pairs = do {
     amount \<leftarrow> vec_get pairs 0 \<bind> (\<lambda>p. parse_sint 64 (as_str p));
     base \<leftarrow> vec_get pairs 1 \<bind> (\<lambda>p. parse_usize (as_str p));
     conditions_pairs \<leftarrow> vec_get pairs 2;
     g \<leftarrow> wrap_utxo_conds d conditions_pairs;
     Some \<lparr>o_amount = amount, o_base = base,
       o_conditions = \<lparr>origin_str = Some (as_str conditions_pairs), conditions = g\<rparr>\<rparr>
   }"

text \<open>
  Legacy outputs lack the outer brackets of their conditions: the text with brackets is tried
  first. The third part of the given text becomes the original text of the conditions.
\<close>

definition output_from_str ::
  "codecs \<Rightarrow> doc_pest \<Rightarrow> ustring \<Rightarrow> (text_document_parse_error + transaction_output) run" where
  "output_from_str d pest src =
     (let output_parts = split_on 58 src;
          conditions_origin_str = vec_get output_parts 2;
          str_to_parse = (case output_parts of
              amount # base # conds # _ \<Rightarrow> amount @ ascii '':'' @ base @ ascii '':('' @ conds @ ascii '')''
            | _ \<Rightarrow> src);
          read = (\<lambda>utxo_pairs. do {
            pair \<leftarrow> first_of utxo_pairs;
            output \<leftarrow> output_from_pest_pair d (into_inner pair);
            Some (Inr (output\<lparr>o_conditions := (o_conditions output)\<lparr>origin_str := conditions_origin_str\<rparr>\<rparr>))
          })
      in case dp_parse pest R_tx_output str_to_parse of
           Inr utxo_pairs \<Rightarrow> read utxo_pairs
         | Inl _ \<Rightarrow> (case dp_parse pest R_tx_output src of
             Inr utxo_pairs \<Rightarrow> read utxo_pairs
           | Inl e \<Rightarrow> Some (Inl (InvalidInnerFormat (ascii ''Invalid output : '' @ e)))))"

definition tx_field :: "codecs \<Rightarrow> doc_rule pest_pair \<Rightarrow> transaction_document \<Rightarrow> transaction_document run" where
  "tx_field d field tx = (case as_rule field of
       R_currency \<Rightarrow> Some (tx\<lparr>t_currency := as_str field\<rparr>)
     | R_blockstamp \<Rightarrow> do { b \<leftarrow> blockstamp_from_pest_pair field; Some (tx\<lparr>t_blockstamp := b\<rparr>) }
     | R_tx_locktime \<Rightarrow> do { n \<leftarrow> parse_uint 64 (as_str field); Some (tx\<lparr>t_locktime := n\<rparr>) }
     | R_pubkey \<Rightarrow> do {
         k \<leftarrow> pubkey_from_text d (as_str field); Some (tx\<lparr>t_issuers := t_issuers tx @ [k]\<rparr>) }
     | R_tx_input \<Rightarrow> do {
         i \<leftarrow> input_from_pest_pair d (into_inner field); Some (tx\<lparr>t_inputs := t_inputs tx @ [i]\<rparr>) }
     | R_tx_unlock \<Rightarrow> do {
         u \<leftarrow> unlocks_from_pest_pair (into_inner field); Some (tx\<lparr>t_unlocks := t_unlocks tx @ [u]\<rparr>) }
     | R_tx_output \<Rightarrow> do {
         u \<leftarrow> output_from_pest_pair d (into_inner field); Some (tx\<lparr>t_outputs := t_outputs tx @ [u]\<rparr>) }
     | R_tx_comment \<Rightarrow> Some (tx\<lparr>t_comment := as_str field\<rparr>)
     | R_ed25519_sig \<Rightarrow> do {
         s \<leftarrow> sig_from_text d (as_str field); Some (tx\<lparr>t_signatures := t_signatures tx @ [s]\<rparr>) }
     | R_EOI \<Rightarrow> Some tx
     | _ \<Rightarrow> None)"

definition tx_from_pest_pair :: "codecs \<Rightarrow> doc_rule pest_pair \<Rightarrow> transaction_document run" where
  "tx_from_pest_pair d pair = fold_run (tx_field d) (into_inner pair)
     \<lparr>t_text = Some (as_str pair), t_currency = [], t_blockstamp = blockstamp_default, t_locktime = 0,
      t_issuers = [], t_inputs = [], t_unlocks = [], t_outputs = [], t_comment = [], t_signatures = [],
      t_hash = None\<rparr>"

definition tx_parse ::
  "codecs \<Rightarrow> doc_pest \<Rightarrow> ustring \<Rightarrow> (text_document_parse_error + transaction_document) run" where
  "tx_parse d pest doc = parse_versioned pest R_tx R_tx_v10 (tx_from_pest_pair d) doc"

record tx_stringified =
  ts_currency :: ustring
  ts_blockstamp :: ustring
  ts_locktime :: nat
  ts_issuers :: "ustring list"
  ts_inputs :: "ustring list"
  ts_unlocks :: "ustring list"
  ts_outputs :: "ustring list"
  ts_comment :: ustring
  ts_signatures :: "ustring list"
  ts_hash :: "ustring option"

definition tx_to_string_object :: "crypto \<Rightarrow> transaction_document \<Rightarrow> tx_stringified run" where
  "tx_to_string_object c tx = do {
     issuers \<leftarrow> map_run (key_string c) (t_issuers tx);
     inputs \<leftarrow> map_run (input_string c) (t_inputs tx);
     outputs \<leftarrow> map_run (output_string c) (t_outputs tx);
     signatures \<leftarrow> map_run (sig_string c) (t_signatures tx);
     Some \<lparr>ts_currency = t_currency tx, ts_blockstamp = blockstamp_to_string (t_blockstamp tx),
       ts_locktime = t_locktime tx, ts_issuers = issuers, ts_inputs = inputs,
       ts_unlocks = map unlocks_string (t_unlocks tx), ts_outputs = outputs, ts_comment = t_comment tx,
       ts_signatures = signatures, ts_hash = map_option to_hex (t_hash tx)\<rparr>
   }"

section \<open>Documents of any type\<close>

datatype 'f dubp_document =
  DubpBlock "'f block_document"
| DubpTransaction transaction_document
| DubpIdentity identity_document
| DubpMembership membership_document
| DubpCertification certification_document
| DubpRevocation revocation_document

datatype dubp_document_str =
  StrBlock
| StrTransaction tx_stringified
| StrIdentity identity_string_document
| StrMembership membership_string_document
| StrCertification certification_string_document
| StrRevocation revocation_string_document

fun dubp_to_string_object :: "crypto \<Rightarrow> 'f dubp_document \<Rightarrow> dubp_document_str run" where
  "dubp_to_string_object c (DubpBlock _) = None"
| "dubp_to_string_object c (DubpIdentity doc) = map_option StrIdentity (identity_to_string_object c doc)"
| "dubp_to_string_object c (DubpMembership doc) = map_option StrMembership (membership_to_string_object c doc)"
| "dubp_to_string_object c (DubpCertification doc) =
     map_option StrCertification (certification_to_string_object c doc)"
| "dubp_to_string_object c (DubpRevocation doc) = map_option StrRevocation (revocation_to_string_object c doc)"
| "dubp_to_string_object c (DubpTransaction doc) = map_option StrTransaction (tx_to_string_object c doc)"

definition dubp_from_pest_pair_v10 :: "codecs \<Rightarrow> doc_rule pest_pair \<Rightarrow> 'f dubp_document run" where
  "dubp_from_pest_pair_v10 d pair = do {
     doc_type_v10_pair \<leftarrow> first_of (into_inner pair);
     (case as_rule doc_type_v10_pair of
        R_idty_v10 \<Rightarrow> map_option DubpIdentity (identity_from_pest_pair d doc_type_v10_pair)
      | R_membership_v10 \<Rightarrow> map_option DubpMembership (membership_from_pest_pair d doc_type_v10_pair)
      | R_cert_v10 \<Rightarrow> map_option DubpCertification (certification_from_pest_pair d doc_type_v10_pair)
      | R_revoc_v10 \<Rightarrow> map_option DubpRevocation (revocation_from_pest_pair d doc_type_v10_pair)
      | R_tx_v10 \<Rightarrow> map_option DubpTransaction (tx_from_pest_pair d doc_type_v10_pair)
      | _ \<Rightarrow> None)
   }"

definition dubp_from_pest_pair :: "codecs \<Rightarrow> doc_rule pest_pair \<Rightarrow> 'f dubp_document run" where
  "dubp_from_pest_pair d pair = do {
     doc_vx_pair \<leftarrow> first_of (into_inner pair);
     (if as_rule doc_vx_pair = R_document_v10 then dubp_from_pest_pair_v10 d doc_vx_pair else None)
   }"

definition dubp_parse ::
  "codecs \<Rightarrow> doc_pest \<Rightarrow> ustring \<Rightarrow> (text_document_parse_error + 'f dubp_document) run" where
  "dubp_parse d pest doc = parse_with (dp_parse pest) R_document PestError (dubp_from_pest_pair d) doc"

section \<open>Signed bytes\<close>

definition certification_as_bytes :: "profile \<Rightarrow> certification_document \<Rightarrow> ustring run" where
  "certification_as_bytes p doc = text_without_signature p (c_text doc) (c_signatures doc)"

definition revocation_as_bytes :: "profile \<Rightarrow> revocation_document \<Rightarrow> ustring run" where
  "revocation_as_bytes p doc = text_without_signature p (r_text doc) (r_signatures doc)"

definition identity_verify :: "crypto \<Rightarrow> profile \<Rightarrow> identity_document \<Rightarrow> verification_result run" where
  "identity_verify c p doc = verify_signatures c (i_issuers doc) (i_signatures doc) (identity_as_bytes p doc)"

definition membership_verify :: "crypto \<Rightarrow> profile \<Rightarrow> membership_document \<Rightarrow> verification_result run" where
  "membership_verify c p doc = verify_signatures c (m_issuers doc) (m_signatures doc) (membership_as_bytes p doc)"

definition certification_verify :: "crypto \<Rightarrow> profile \<Rightarrow> certification_document \<Rightarrow> verification_result run" where
  "certification_verify c p doc =
     verify_signatures c (c_issuers doc) (c_signatures doc) (certification_as_bytes p doc)"

definition revocation_verify :: "crypto \<Rightarrow> profile \<Rightarrow> revocation_document \<Rightarrow> verification_result run" where
  "revocation_verify c p doc =
     verify_signatures c (r_issuers doc) (r_signatures doc) (revocation_as_bytes p doc)"

fun dubp_verify :: "crypto \<Rightarrow> 'f f64_text \<Rightarrow> profile \<Rightarrow> 'f dubp_document \<Rightarrow> verification_result run" where
  "dubp_verify c fl p (DubpBlock doc) = block_verify_signatures c doc"
| "dubp_verify c fl p (DubpTransaction doc) = tx_verify c p doc"
| "dubp_verify c fl p (DubpIdentity doc) = identity_verify c p doc"
| "dubp_verify c fl p (DubpMembership doc) = membership_verify c p doc"
| "dubp_verify c fl p (DubpCertification doc) = certification_verify c p doc"
| "dubp_verify c fl p (DubpRevocation doc) = revocation_verify c p doc"

section \<open>Reading a document back\<close>

text \<open>
  What the builders of the four documents of the web of trust are given: the currency, the issuer
  and the fields of each type.
\<close>

datatype doc_content =
  Idty ustring pub_key ustring blockstamp
| Ms ustring pub_key blockstamp membership_type ustring blockstamp
| Cert ustring pub_key blockstamp pub_key ustring blockstamp signature
| Revoc ustring pub_key ustring blockstamp signature

fun content_text :: "crypto \<Rightarrow> doc_content \<Rightarrow> ustring run" where
  "content_text c (Idty currency issuer username b) = identity_text c currency issuer username b"
| "content_text c (Ms currency issuer b ms username identity_b) =
     membership_text c currency issuer b ms username identity_b"
| "content_text c (Cert currency issuer b target username identity_b identity_sig) =
     certification_text c currency issuer b target username identity_b identity_sig"
| "content_text c (Revoc currency issuer username identity_b identity_sig) =
     revocation_text c currency issuer username identity_b identity_sig"

fun content_issuer :: "doc_content \<Rightarrow> pub_key" where
  "content_issuer (Idty _ issuer _ _) = issuer"
| "content_issuer (Ms _ issuer _ _ _ _) = issuer"
| "content_issuer (Cert _ issuer _ _ _ _ _) = issuer"
| "content_issuer (Revoc _ issuer _ _ _) = issuer"

abbreviation leaf :: "doc_rule \<Rightarrow> ustring \<Rightarrow> doc_rule pest_pair" where
  "leaf rule s \<equiv> PestPair rule s []"

abbreviation bs_tree :: "blockstamp \<Rightarrow> doc_rule pest_pair" where
  "bs_tree \<equiv> blockstamp_tree R_blockstamp R_block_id R_hash"

text \<open>The rule of the version 10 of a type and the fields that the grammar finds in a text.\<close>

fun content_rule :: "doc_content \<Rightarrow> doc_rule" where
  "content_rule (Idty _ _ _ _) = R_idty_v10"
| "content_rule (Ms _ _ _ _ _ _) = R_membership_v10"
| "content_rule (Cert _ _ _ _ _ _ _) = R_cert_v10"
| "content_rule (Revoc _ _ _ _ _) = R_revoc_v10"

fun content_pairs :: "crypto \<Rightarrow> doc_content \<Rightarrow> doc_rule pest_pair list run" where
  "content_pairs c (Idty currency issuer username b) = do {
     k \<leftarrow> key_string c issuer;
     Some [leaf R_currency currency, leaf R_pubkey k, leaf R_uid username, bs_tree b]
   }"
| "content_pairs c (Ms currency issuer b ms username identity_b) = do {
     k \<leftarrow> key_string c issuer;
     Some [leaf R_currency currency, leaf R_pubkey k, bs_tree b,
       (case ms of MsIn \<Rightarrow> leaf R_membership_in (ascii ''IN'') | MsOut \<Rightarrow> leaf R_membership_out (ascii ''OUT'')),
       leaf R_uid username, bs_tree identity_b]
   }"
| "content_pairs c (Cert currency issuer b target username identity_b identity_sig) = do {
     k \<leftarrow> key_string c issuer;
     t \<leftarrow> key_string c target;
     s \<leftarrow> sig_string c identity_sig;
     Some [leaf R_currency currency, leaf R_pubkey k, leaf R_pubkey t, leaf R_uid username,
       bs_tree identity_b, leaf R_ed25519_sig s, bs_tree b]
   }"
| "content_pairs c (Revoc currency issuer username identity_b identity_sig) = do {
     k \<leftarrow> key_string c issuer;
     s \<leftarrow> sig_string c identity_sig;
     Some [leaf R_currency currency, leaf R_pubkey k, leaf R_uid username, bs_tree identity_b,
       leaf R_ed25519_sig s]
   }"

text \<open>
  The text of a document, its signature if it has one and the line breaks that the grammar allows
  at the end, with the tree of such a text.
\<close>

definition sig_line :: "crypto \<Rightarrow> signature option \<Rightarrow> ustring run" where
  "sig_line c sig = (case sig of Some s \<Rightarrow> sig_string c s | None \<Rightarrow> Some [])"

definition content_doc :: "crypto \<Rightarrow> doc_content \<Rightarrow> signature option \<Rightarrow> nat \<Rightarrow> ustring run" where
  "content_doc c x sig breaks = do {
     doc_text \<leftarrow> content_text c x;
     s \<leftarrow> sig_line c sig;
     Some (doc_text @ s @ replicate breaks 10)
   }"

definition content_tree ::
  "crypto \<Rightarrow> doc_content \<Rightarrow> signature option \<Rightarrow> nat \<Rightarrow> doc_rule pest_pair run" where
  "content_tree c x sig breaks = do {
     doc \<leftarrow> content_doc c x sig breaks;
     pairs \<leftarrow> content_pairs c x;
     s \<leftarrow> sig_line c sig;
     Some (PestPair R_document doc [PestPair R_document_v10 doc [PestPair (content_rule x) doc
       (pairs @ (case sig of Some _ \<Rightarrow> [leaf R_ed25519_sig s] | None \<Rightarrow> []) @ [leaf R_EOI []])]])
   }"

text \<open>The document that the builder of the type makes of its fields, a text and a signature.\<close>

fun built :: "doc_content \<Rightarrow> ustring \<Rightarrow> signature \<Rightarrow> 'f dubp_document" where
  "built (Idty currency issuer username b) doc s = DubpIdentity
     \<lparr>i_text = Some doc, i_currency = currency, i_username = username, i_blockstamp = b,
      i_issuers = [issuer], i_signatures = [s]\<rparr>"
| "built (Ms currency issuer b ms username identity_b) doc s = DubpMembership
     \<lparr>m_text = Some doc, m_currency = currency, m_issuers = [issuer], m_blockstamp = b, m_membership = ms,
      m_identity_username = username, m_identity_blockstamp = identity_b, m_signatures = [s]\<rparr>"
| "built (Cert currency issuer b target username identity_b identity_sig) doc s = DubpCertification
     \<lparr>c_text = doc, c_currency = currency, c_issuers = [issuer], c_target = target,
      c_identity_username = username, c_identity_blockstamp = identity_b, c_identity_sig = identity_sig,
      c_blockstamp = b, c_signatures = [s]\<rparr>"
| "built (Revoc currency issuer username identity_b identity_sig) doc s = DubpRevocation
     \<lparr>r_text = doc, r_currency = currency, r_issuers = [issuer], r_identity_username = username,
      r_identity_blockstamp = identity_b, r_identity_sig = identity_sig, r_signatures = [s]\<rparr>"

text \<open>The codecs read back what they write.\<close>

fun key_reads_back :: "crypto \<Rightarrow> codecs \<Rightarrow> pub_key \<Rightarrow> bool" where
  "key_reads_back c d (PubEd25519 k) \<longleftrightarrow> length k = 32 \<and> d_base58 d (c_base58 c k) = Inr k"
| "key_reads_back c d PubSchnorr \<longleftrightarrow> False"

fun sig_reads_back :: "crypto \<Rightarrow> codecs \<Rightarrow> signature \<Rightarrow> bool" where
  "sig_reads_back c d (SigEd25519 s) \<longleftrightarrow>
     length s = 64 \<and> d_base64 d (c_base64 c s) = Inr s \<and> 10 \<notin> set (c_base64 c s)"
| "sig_reads_back c d SigSchnorr \<longleftrightarrow> False"

fun content_wf :: "crypto \<Rightarrow> codecs \<Rightarrow> doc_content \<Rightarrow> bool" where
  "content_wf c d (Idty currency issuer username b) \<longleftrightarrow> key_reads_back c d issuer \<and> blockstamp_wf b"
| "content_wf c d (Ms currency issuer b ms username identity_b) \<longleftrightarrow>
     key_reads_back c d issuer \<and> blockstamp_wf b \<and> blockstamp_wf identity_b"
| "content_wf c d (Cert currency issuer b target username identity_b identity_sig) \<longleftrightarrow>
     key_reads_back c d issuer \<and> key_reads_back c d target \<and> blockstamp_wf b \<and> blockstamp_wf identity_b \<and>
     sig_reads_back c d identity_sig"
| "content_wf c d (Revoc currency issuer username identity_b identity_sig) \<longleftrightarrow>
     key_reads_back c d issuer \<and> blockstamp_wf identity_b \<and> sig_reads_back c d identity_sig"

lemma key_reads_backD:
  assumes "key_reads_back c d k"
  obtains s where "key_string c k = Some s" "pubkey_from_text d s = Some k"
proof (cases k)
  case (PubEd25519 bs)
  then show ?thesis using assms that[of "c_base58 c bs"]
    by (simp add: pubkey_from_text_def key_from_base58_def str_base58_to_32bytes_def base58_to_bytes_def)
qed (use assms in simp)

lemma sig_reads_backD:
  assumes "sig_reads_back c d sig"
  obtains s where "sig_string c sig = Some s" "sig_from_text d s = Some sig" "10 \<notin> set s"
proof (cases sig)
  case (SigEd25519 bs)
  then show ?thesis using assms that[of "c_base64 c bs"]
    by (simp add: sig_from_text_def sig_from_base64_def str_base64_to_64bytes_def)
qed (use assms in simp)

lemmas parser_defs = identity_from_pest_pair_def membership_from_pest_pair_def certification_from_pest_pair_def
  revocation_from_pest_pair_def idty_field_def ms_field_def cert_field_def cert_fields_new_def vec_get_def

text \<open>The readers on the trees of the four types, with a signature.\<close>

lemma content_read:
  assumes wf: "content_wf c d x" and s: "sig_from_text d s = Some sig" and pairs: "content_pairs c x = Some pairs"
  shows "dubp_from_pest_pair_v10 d (PestPair R_document_v10 doc [PestPair (content_rule x) doc
      (pairs @ [leaf R_ed25519_sig s, leaf R_EOI []])]) = Some (built x doc sig)"
proof (cases x)
  case (Idty currency issuer username b)
  then obtain k where "key_string c issuer = Some k" "pubkey_from_text d k = Some issuer"
    using wf by (auto elim: key_reads_backD)
  then show ?thesis using wf pairs s
    by (auto simp: Idty dubp_from_pest_pair_v10_def first_of_def parser_defs blockstamp_tree_reads)
next
  case (Ms currency issuer b ms username identity_b)
  then obtain k where "key_string c issuer = Some k" "pubkey_from_text d k = Some issuer"
    using wf by (auto elim: key_reads_backD)
  then show ?thesis using wf pairs s
    by (cases ms) (auto simp: Ms dubp_from_pest_pair_v10_def first_of_def parser_defs blockstamp_tree_reads)
next
  case (Cert currency issuer b target username identity_b identity_sig)
  then obtain k t i where "key_string c issuer = Some k" "pubkey_from_text d k = Some issuer"
      "key_string c target = Some t" "pubkey_from_text d t = Some target"
      "sig_string c identity_sig = Some i" "sig_from_text d i = Some identity_sig"
    using wf by (auto elim!: key_reads_backD sig_reads_backD)
  then show ?thesis using wf pairs s
    by (auto simp: Cert dubp_from_pest_pair_v10_def first_of_def parser_defs blockstamp_tree_reads)
next
  case (Revoc currency issuer username identity_b identity_sig)
  then obtain k i where "key_string c issuer = Some k" "pubkey_from_text d k = Some issuer"
      "sig_string c identity_sig = Some i" "sig_from_text d i = Some identity_sig"
    using wf by (auto elim!: key_reads_backD sig_reads_backD)
  then show ?thesis using wf pairs s
    by (auto simp: Revoc dubp_from_pest_pair_v10_def first_of_def parser_defs blockstamp_tree_reads)
qed

text \<open>The same trees without a signature.\<close>

lemma content_unsigned:
  assumes wf: "content_wf c d x" and d: "d_base64 d [] = Inr []" and pairs: "content_pairs c x = Some pairs"
  shows "(dubp_from_pest_pair_v10 d (PestPair R_document_v10 doc [PestPair (content_rule x) doc
      (pairs @ [leaf R_EOI []])]) :: 'f dubp_document run) = None"
proof -
  have no_sig: "sig_from_text d [] = None"
    using d by (simp add: sig_from_text_def sig_from_base64_def str_base64_to_64bytes_def)
  show ?thesis
  proof (cases x)
    case (Idty currency issuer username b)
    then show ?thesis using wf pairs no_sig
      by (auto simp: dubp_from_pest_pair_v10_def first_of_def parser_defs blockstamp_tree_reads split: bind_splits)
  next
    case (Ms currency issuer b ms username identity_b)
    then show ?thesis using wf pairs no_sig
      by (cases ms) (auto simp: dubp_from_pest_pair_v10_def first_of_def parser_defs blockstamp_tree_reads
          split: bind_splits)
  next
    case (Cert currency issuer b target username identity_b identity_sig)
    then show ?thesis using wf pairs
      by (auto simp: dubp_from_pest_pair_v10_def first_of_def parser_defs blockstamp_tree_reads split: bind_splits)
  next
    case (Revoc currency issuer username identity_b identity_sig)
    then show ?thesis using wf pairs
      by (auto simp: dubp_from_pest_pair_v10_def first_of_def parser_defs blockstamp_tree_reads split: bind_splits)
  qed
qed

lemma content_text_ends:
  assumes "content_text c x = Some doc_text"
  shows "\<exists>body. doc_text = body @ newline"
  using assms
  by (cases x) (auto simp: identity_text_def membership_text_def certification_text_def revocation_text_def
      simp flip: append_assoc split: bind_splits)

text \<open>The bytes that are verified: the last line is taken for the signature.\<close>

lemma signed_bytes:
  assumes "10 \<notin> set s"
  shows "text_without_signature p ((body @ newline) @ s @ replicate breaks 10) [sig] =
    Some (if breaks = 0 then body @ newline else (body @ newline) @ s @ replicate breaks 10)"
proof (cases breaks)
  case 0
  then show ?thesis using text_without_signature_parsed[of "[s]" "[sig]" p body] assms by simp
next
  case (Suc n)
  have "(body @ newline) @ s @ replicate breaks 10 = ((body @ newline) @ s @ replicate n 10) @ newline"
    by (simp add: Suc replicate_append_same)
  then show ?thesis using Suc text_without_signature_one[of p "(body @ newline) @ s @ replicate n 10" sig]
    by simp
qed

lemma verify_one:
  "verify_signatures c [k] [s] (Some bytes) =
     map_option (\<lambda>ok. if ok then Valid else Invalid [0]) (key_verify c k bytes s)"
  by (cases "key_verify c k bytes s") (auto simp: verify_signatures_def indices_where_def)

lemma verify_built:
  "dubp_verify c fl p (built x doc sig :: 'f dubp_document) =
     verify_signatures c [content_issuer x] [sig] (text_without_signature p doc [sig])"
  by (cases x) (simp_all add: identity_verify_def membership_verify_def certification_verify_def
      revocation_verify_def identity_as_bytes_def membership_as_bytes_def certification_as_bytes_def
      revocation_as_bytes_def)

text \<open>
  C33: a document of the web of trust that is built, signed, sent as a text and parsed. When the
  parser of the grammar gives the tree of the text, the parser of the documents gives back the
  document, with the text as it was received; its verification asks whether the issuer signed the
  generated text, but only when nothing follows the signature: the grammar accepts line breaks
  after the signature, and then the signature is compared with the whole text, itself included.
\<close>

theorem parsed_document_verifies:
  assumes "content_wf c d x" "sig_reads_back c d sig" "content_text c x = Some doc_text"
    and "content_doc c x (Some sig) breaks = Some doc" "content_tree c x (Some sig) breaks = Some tree"
    and "dp_parse pest R_document doc = Inr [tree]"
  shows "dubp_parse d pest doc = Some (Inr (built x doc sig :: 'f dubp_document)) \<and>
    dubp_verify c fl p (built x doc sig :: 'f dubp_document) =
      map_option (\<lambda>ok. if ok then Valid else Invalid [0])
        (key_verify c (content_issuer x) (if breaks = 0 then doc_text else doc) sig)"
proof -
  obtain s where s: "sig_string c sig = Some s" "sig_from_text d s = Some sig" "10 \<notin> set s"
    using assms(2) by (rule sig_reads_backD)
  obtain body where body: "doc_text = body @ newline" using content_text_ends[OF assms(3)] by blast
  have doc: "doc = (body @ newline) @ s @ replicate breaks 10"
    using assms(3,4) s(1) by (simp add: content_doc_def sig_line_def body)
  from assms(5) obtain pairs where pairs: "content_pairs c x = Some pairs"
      "tree = PestPair R_document doc [PestPair R_document_v10 doc [PestPair (content_rule x) doc
         (pairs @ [leaf R_ed25519_sig s, leaf R_EOI []])]]"
    using s(1) by (auto simp: content_tree_def assms(4) sig_line_def split: bind_splits)
  have "dubp_parse d pest doc = Some (Inr (built x doc sig :: 'f dubp_document))"
    using content_read[OF assms(1) s(2) pairs(1), of doc, where 'a = 'f]
    by (simp add: dubp_parse_def parse_with_def assms(6) first_of_def pairs(2) dubp_from_pest_pair_def)
  moreover have "text_without_signature p doc [sig] = Some (if breaks = 0 then doc_text else doc)"
    using signed_bytes[OF s(3), of p body breaks sig] by (simp add: doc body)
  ultimately show ?thesis by (simp add: verify_built verify_one)
qed

text \<open>
  A toy encoding: the letters of a text are its bytes. The key and the signature have the lengths
  of ed25519; the signature of a text is its length, repeated.
\<close>

definition length_crypto :: crypto where
  "length_crypto = toy_crypto\<lparr>c_ed25519_verify := (\<lambda>k m s. s = replicate 64 (length m))\<rparr>"

definition example_content :: doc_content where
  "example_content = Idty (ascii ''g1'') (PubEd25519 (replicate 32 65)) (ascii ''tic'') blockstamp_default"

lemma example_content_wf: "content_wf length_crypto toy_codecs example_content"
  by (simp add: example_content_def length_crypto_def toy_crypto_def toy_codecs_def blockstamp_wf_def
      blockstamp_default_def hash_wf_def hash_default_def list_all_iff)

lemma parsed_document_verifies_witness:
  "\<exists>pest doc sig. dubp_parse toy_codecs pest doc = Some (Inr (built example_content doc sig :: nat dubp_document)) \<and>
     dubp_verify length_crypto nat_text Debug (built example_content doc sig :: nat dubp_document) = Some (Invalid [0])"
proof -
  obtain rest where dt: "content_text length_crypto example_content = Some (ascii ''Version: 10'' @ rest)"
    by (simp add: example_content_def identity_text_def length_crypto_def toy_crypto_def)
  define dt where "dt = ascii ''Version: 10'' @ rest"
  define sig where "sig = SigEd25519 (replicate 64 (length dt))"
  have s: "sig_reads_back length_crypto toy_codecs sig"
    by (simp add: sig_def length_crypto_def toy_crypto_def toy_codecs_def dt_def ascii_def)
  have str: "sig_string length_crypto sig = Some (replicate 64 (length dt))"
    by (simp add: sig_def length_crypto_def toy_crypto_def)
  define doc where "doc = dt @ replicate 64 (length dt) @ replicate 1 10"
  have doc: "content_doc length_crypto example_content (Some sig) 1 = Some doc"
    using dt by (simp add: content_doc_def sig_line_def str dt_def doc_def)
  obtain tree where tree: "content_tree length_crypto example_content (Some sig) 1 = Some tree"
    using doc str by (simp add: content_tree_def sig_line_def example_content_def length_crypto_def toy_crypto_def)
  have "key_verify length_crypto (content_issuer example_content) doc sig = Some False"
    by (simp add: example_content_def sig_def length_crypto_def doc_def)
  then show ?thesis
    using parsed_document_verifies[OF example_content_wf s dt doc tree,
        of "\<lparr>dp_parse = \<lambda>_ _. Inr [tree], dp_debug = \<lambda>_. []\<rparr>" nat_text Debug] by auto
qed

text \<open>
  the grammar makes the signature of a document of the web of trust optional, and all four
  readers take it for granted: the parser of the documents panics on a well-formed text that has
  none, instead of returning an error.
\<close>

theorem unsigned_document_panics:
  assumes "content_wf c d x" "d_base64 d [] = Inr []"
    and "content_doc c x None breaks = Some doc" "content_tree c x None breaks = Some tree"
    and "dp_parse pest R_document doc = Inr [tree]"
  shows "(dubp_parse d pest doc :: (text_document_parse_error + 'f dubp_document) run) = None"
proof -
  from assms(4) obtain pairs where pairs: "content_pairs c x = Some pairs"
      "tree = PestPair R_document doc [PestPair R_document_v10 doc [PestPair (content_rule x) doc
         (pairs @ [leaf R_EOI []])]]"
    by (auto simp: content_tree_def assms(3) sig_line_def split: bind_splits)
  have "(dubp_from_pest_pair_v10 d (PestPair R_document_v10 doc [PestPair (content_rule x) doc
      (pairs @ [leaf R_EOI []])]) :: 'f dubp_document run) = None"
    using content_unsigned[OF assms(1,2) pairs(1)] .
  then show ?thesis
    by (simp add: dubp_parse_def parse_with_def assms(5) first_of_def pairs(2) dubp_from_pest_pair_def)
qed

lemma unsigned_document_panics_witness:
  "\<exists>pest doc. (dubp_parse toy_codecs pest doc :: (text_document_parse_error + nat dubp_document) run) = None"
proof -
  obtain doc where doc: "content_doc length_crypto example_content None 0 = Some doc"
    by (simp add: content_doc_def sig_line_def example_content_def identity_text_def length_crypto_def toy_crypto_def)
  obtain tree where tree: "content_tree length_crypto example_content None 0 = Some tree"
    using doc by (simp add: content_tree_def sig_line_def example_content_def length_crypto_def toy_crypto_def)
  have "d_base64 toy_codecs [] = Inr []" by (simp add: toy_codecs_def)
  from unsigned_document_panics[OF example_content_wf this doc tree,
      of "\<lparr>dp_parse = \<lambda>_ _. Inr [tree], dp_debug = \<lambda>_. []\<rparr>", where 'f = nat]
  show ?thesis by auto
qed

section \<open>The conditions of an output\<close>

text \<open>
  The trees of the rule \<open>output_conds_group\<close>, for texts whose brackets are all closed: the grammar
  lets the bracket that closes a single condition be missing.
\<close>

inductive cond_tree :: "crypto \<Rightarrow> codecs \<Rightarrow> doc_rule pest_pair \<Rightarrow> bool" for c d where
  tree_sig: "key_string c key = Some k \<Longrightarrow> pubkey_from_text d k = Some key \<Longrightarrow>
    cond_tree c d (PestPair R_output_cond_sig (ascii ''SIG('' @ k @ ascii '')'') [leaf R_pubkey k])"
| tree_xhx: "hash_wf h \<Longrightarrow>
    cond_tree c d (PestPair R_output_cond_xhx (ascii ''XHX('' @ to_hex h @ ascii '')'') [leaf R_hash (to_hex h)])"
| tree_csv: "n < 2 ^ 64 \<Longrightarrow>
    cond_tree c d (PestPair R_output_cond_csv (ascii ''CSV('' @ show_nat n @ ascii '')'') [leaf R_csv_duration (show_nat n)])"
| tree_cltv: "n < 2 ^ 64 \<Longrightarrow>
    cond_tree c d (PestPair R_output_cond_cltv (ascii ''CLTV('' @ show_nat n @ ascii '')'') [leaf R_cltv_timestamp (show_nat n)])"
| tree_and: "2 \<le> length ts \<Longrightarrow> \<forall>t \<in> set ts. cond_tree c d t \<Longrightarrow>
    cond_tree c d (PestPair R_output_and_group (ascii ''('' @ join_with (ascii '' && '') (map as_str ts) @ ascii '')'') ts)"
| tree_or: "2 \<le> length ts \<Longrightarrow> \<forall>t \<in> set ts. cond_tree c d t \<Longrightarrow>
    cond_tree c d (PestPair R_output_or_group (ascii ''('' @ join_with (ascii '' || '') (map as_str ts) @ ascii '')'') ts)"

lemma wrapped_subgroups:
  assumes "\<forall>t \<in> set ts. \<exists>g. wrap_utxo_conds d t = Some g \<and> group_string c g = Some (as_str t)"
  shows "\<exists>gs. map_run (wrap_utxo_conds d) ts = Some gs \<and> length gs = length ts \<and>
    map_run (group_string c) gs = Some (map as_str ts)"
  using assms
proof (induction ts)
  case (Cons t ts)
  then obtain g gs where "wrap_utxo_conds d t = Some g" "group_string c g = Some (as_str t)"
      "map_run (wrap_utxo_conds d) ts = Some gs" "length gs = length ts"
      "map_run (group_string c) gs = Some (map as_str ts)" by auto
  then show ?case by (intro exI[of _ "g # gs"]) simp
qed simp

lemma wrapped_chain:
  assumes "\<forall>t \<in> set ts. \<exists>g. wrap_utxo_conds d t = Some g \<and> group_string c g = Some (as_str t)"
    and "2 \<le> length ts"
    and op: "\<And>g h. group_string c (oper g h) = do { s \<leftarrow> group_string c g; t \<leftarrow> group_string c h; Some (s @ sep @ t) }"
  shows "\<exists>gs g. map_run (wrap_utxo_conds d) ts = Some gs \<and> op_chain oper gs = Some g \<and>
    group_string c g = Some (join_with sep (map as_str ts))"
proof -
  obtain gs where gs: "map_run (wrap_utxo_conds d) ts = Some gs" "length gs = length ts"
      "map_run (group_string c) gs = Some (map as_str ts)"
    using wrapped_subgroups[OF assms(1)] by blast
  have "do { g \<leftarrow> op_chain oper gs; group_string c g } = Some (join_with sep (map as_str ts))"
    using op_chain_string[where oper = oper and sep = sep, OF op, of gs] gs assms(2) by simp
  then show ?thesis using gs(1) by (auto split: bind_splits)
qed

lemma wrapped_text:
  "cond_tree c d t \<Longrightarrow> \<exists>g. wrap_utxo_conds d t = Some g \<and> group_string c g = Some (as_str t)"
proof (induction rule: cond_tree.induct)
  case (tree_and ts)
  then have "\<forall>t \<in> set ts. \<exists>g. wrap_utxo_conds d t = Some g \<and> group_string c g = Some (as_str t)" by blast
  from wrapped_chain[OF this tree_and(1), of GroupAnd "ascii '' && ''"] obtain gs g where
    "map_run (wrap_utxo_conds d) ts = Some gs" "op_chain GroupAnd gs = Some g"
    "group_string c g = Some (join_with (ascii '' && '') (map as_str ts))" by auto
  then show ?case by (simp add: wrap_utxo_conds.simps)
next
  case (tree_or ts)
  then have "\<forall>t \<in> set ts. \<exists>g. wrap_utxo_conds d t = Some g \<and> group_string c g = Some (as_str t)" by blast
  from wrapped_chain[OF this tree_or(1), of GroupOr "ascii '' || ''"] obtain gs g where
    "map_run (wrap_utxo_conds d) ts = Some gs" "op_chain GroupOr gs = Some g"
    "group_string c g = Some (join_with (ascii '' || '') (map as_str ts))" by auto
  then show ?case by (simp add: wrap_utxo_conds.simps)
qed (simp_all add: wrap_utxo_conds.simps first_of_def hex_roundtrip parse_show_nat)

lemma parse_sint_show: "n < 2 ^ 63 \<Longrightarrow> parse_sint 64 (show_nat n) = Some (int n)"
proof -
  assume n: "n < 2 ^ 63"
  obtain ch cs where ch: "show_nat n = ch # cs" using show_nat_nonempty by (cases "show_nat n") auto
  then have "ch \<noteq> 45" using show_nat_digits[of n] by (auto simp: is_digit_def)
  then show ?thesis using parse_show_nat[of n 63] n by (simp add: parse_sint_def ch)
qed

text \<open>The output read from a tree, whatever original text is then stored in it.\<close>

lemma output_read:
  assumes "amount < 2 ^ 63" "base < 2 ^ 64" "cond_tree c d t"
  obtains g where "output_from_pest_pair d
      [leaf R_tx_amount (show_nat amount), leaf R_tx_amount_base (show_nat base), t] =
    Some \<lparr>o_amount = int amount, o_base = base, o_conditions = \<lparr>origin_str = Some (as_str t), conditions = g\<rparr>\<rparr>"
    "group_string c g = Some (as_str t)"
proof -
  obtain g where "wrap_utxo_conds d t = Some g" "group_string c g = Some (as_str t)"
    using wrapped_text[OF assms(3)] by blast
  then show ?thesis using that parse_sint_show[OF assms(1)] parse_show_nat[OF assms(2)]
    by (simp add: output_from_pest_pair_def vec_get_def parse_usize_def)
qed

text \<open>
  an output of a transaction whose conditions close their brackets is printed back as it was
  read: the text of the conditions that the program generates is the original one, the output passes
  its check, and the original text can be dropped to save space without changing what is printed.
\<close>

theorem parsed_output_reduces:
  assumes "amount < 2 ^ 63" "base < 2 ^ 64" "cond_tree c d t"
  shows "\<exists>out out'. output_from_pest_pair d
      [leaf R_tx_amount (show_nat amount), leaf R_tx_amount_base (show_nat base), t] = Some out \<and>
    output_string c out = Some (show_nat amount @ ascii '':'' @ show_nat base @ ascii '':'' @ as_str t) \<and>
    conditions_check c (o_conditions out) = Some True \<and> output_reduce c out = Some out' \<and>
    origin_str (o_conditions out') = None \<and> output_string c out' = output_string c out"
proof -
  obtain g where g: "output_from_pest_pair d
      [leaf R_tx_amount (show_nat amount), leaf R_tx_amount_base (show_nat base), t] =
    Some \<lparr>o_amount = int amount, o_base = base, o_conditions = \<lparr>origin_str = Some (as_str t), conditions = g\<rparr>\<rparr>"
    "group_string c g = Some (as_str t)"
    using output_read[OF assms] .
  then show ?thesis
    by (simp add: output_string_def conditions_string_def conditions_check_def output_reduce_def
        conditions_reduce_def show_int_def)
qed

lemma parsed_output_reduces_witness:
  "\<exists>t out out'. as_str t = ascii ''(CSV(7) || CLTV(9))'' \<and>
     output_from_pest_pair toy_codecs [leaf R_tx_amount (show_nat 12), leaf R_tx_amount_base (show_nat 0), t] = Some out \<and>
     output_reduce toy_crypto out = Some out' \<and> origin_str (o_conditions out') = None"
proof -
  let ?t = "PestPair R_output_or_group (ascii ''('' @ join_with (ascii '' || '') (map as_str
      [PestPair R_output_cond_csv (ascii ''CSV('' @ show_nat 7 @ ascii '')'') [leaf R_csv_duration (show_nat 7)],
       PestPair R_output_cond_cltv (ascii ''CLTV('' @ show_nat 9 @ ascii '')'') [leaf R_cltv_timestamp (show_nat 9)]]) @
      ascii '')'')
      [PestPair R_output_cond_csv (ascii ''CSV('' @ show_nat 7 @ ascii '')'') [leaf R_csv_duration (show_nat 7)],
       PestPair R_output_cond_cltv (ascii ''CLTV('' @ show_nat 9 @ ascii '')'') [leaf R_cltv_timestamp (show_nat 9)]]"
  have "cond_tree toy_crypto toy_codecs ?t"
    by (rule cond_tree.tree_or) (auto intro: cond_tree.tree_csv cond_tree.tree_cltv)
  from parsed_output_reduces[OF _ _ this, of 12 0]
  moreover have "show_nat 7 = [55]" "show_nat 9 = [57]" by (simp_all add: show_nat.simps)
  ultimately show ?thesis by (intro exI[of _ ?t]) (auto simp: ascii_def)
qed

text \<open>
  An output in the legacy format, without the outer brackets: they are added to parse it, the text
  given remains the one printed, and it is not dropped.
\<close>

lemma legacy_output_kept:
  assumes "amount < 2 ^ 63" "base < 2 ^ 64" "cond_tree c d t"
    and "as_str t = ascii ''('' @ conds @ ascii '')''" "58 \<notin> set conds"
    and "dp_parse pest R_tx_output (show_nat amount @ ascii '':'' @ show_nat base @ ascii '':'' @ as_str t) =
      Inr [PestPair R_tx_output txt [leaf R_tx_amount (show_nat amount), leaf R_tx_amount_base (show_nat base), t]]"
  shows "\<exists>out. output_from_str d pest (show_nat amount @ ascii '':'' @ show_nat base @ ascii '':'' @ conds) =
      Some (Inr out) \<and>
    output_string c out = Some (show_nat amount @ ascii '':'' @ show_nat base @ ascii '':'' @ conds) \<and>
    conditions_check c (o_conditions out) = Some False \<and> output_reduce c out = Some out"
proof -
  obtain g where g: "output_from_pest_pair d
      [leaf R_tx_amount (show_nat amount), leaf R_tx_amount_base (show_nat base), t] =
    Some \<lparr>o_amount = int amount, o_base = base, o_conditions = \<lparr>origin_str = Some (as_str t), conditions = g\<rparr>\<rparr>"
    "group_string c g = Some (as_str t)"
    using output_read[OF assms(1-3)] .
  have colon: "ascii '':'' = [58]" by (simp add: ascii_def)
  have "split_on 58 (show_nat amount @ ascii '':'' @ show_nat base @ ascii '':'' @ conds) =
      [show_nat amount, show_nat base, conds]"
    using split_on_append[OF show_nat_no_colon, of amount "show_nat base @ 58 # conds"]
      split_on_append[OF show_nat_no_colon, of base conds] split_on_absent[OF assms(5)]
    by (simp add: colon)
  moreover have "dp_parse pest R_tx_output (show_nat amount @ ascii '':'' @ show_nat base @ ascii '':('' @ conds @ ascii '')'') =
      Inr [PestPair R_tx_output txt [leaf R_tx_amount (show_nat amount), leaf R_tx_amount_base (show_nat base), t]]"
    using assms(6) unfolding assms(4) by (simp add: ascii_def)
  moreover have "length (as_str t) \<noteq> length conds" by (simp add: assms(4) ascii_def)
  then have "conds \<noteq> as_str t" by auto
  ultimately show ?thesis using g
    by (simp add: output_from_str_def Let_def vec_get_def first_of_def output_string_def conditions_string_def
        conditions_check_def output_reduce_def conditions_reduce_def show_int_def)
qed

end
