(* ===== verification/Json_Parser.thy ===== *)
theory Json_Parser
  imports Block_Document Pest "HOL-Library.Finite_Map"
begin

text \<open>
  The JSON values of \<open>lib/tools/json-pest-parser/src/lib.rs\<close>, their reading from the trees of the
  generated parser, their printing and the access to the fields of an object; and the unescaping of
  strings of \<open>lib/tools/common-tools/src/fns/str_escape.rs\<close>. An object is a hash map: a finite map,
  with the order of its iteration an argument of the printer. A number is an \<open>f64\<close>, whose text format
  and conversions to the integer types are the fields of \<open>f64_cast\<close>.
\<close>

section \<open>Values\<close>

record 'f f64_cast = "'f f64_text" +
  f64_zero :: 'f
  trunc_u32 :: "'f \<Rightarrow> nat"
  trunc_u64 :: "'f \<Rightarrow> nat"
  trunc_isize :: "'f \<Rightarrow> int"

datatype 'f js_value =
  JsObject "(ustring, 'f js_value) fmap"
| JsArray "'f js_value list"
| JsString ustring
| JsNumber 'f
| JsBoolean bool
| JsNull

type_synonym 'f js_object = "(ustring, 'f js_value) fmap"

fun js_is_object :: "'f js_value \<Rightarrow> bool" where
  "js_is_object (JsObject _) = True"
| "js_is_object _ = False"

fun js_to_object :: "'f js_value \<Rightarrow> 'f js_object option" where
  "js_to_object (JsObject o') = Some o'"
| "js_to_object _ = None"

fun js_is_array :: "'f js_value \<Rightarrow> bool" where
  "js_is_array (JsArray _) = True"
| "js_is_array _ = False"

fun js_to_array :: "'f js_value \<Rightarrow> 'f js_value list option" where
  "js_to_array (JsArray a) = Some a"
| "js_to_array _ = None"

fun js_is_str :: "'f js_value \<Rightarrow> bool" where
  "js_is_str (JsString _) = True"
| "js_is_str _ = False"

fun js_to_str :: "'f js_value \<Rightarrow> ustring option" where
  "js_to_str (JsString s) = Some s"
| "js_to_str _ = None"

fun js_is_number :: "'f js_value \<Rightarrow> bool" where
  "js_is_number (JsNumber _) = True"
| "js_is_number _ = False"

fun js_to_number :: "'f js_value \<Rightarrow> 'f option" where
  "js_to_number (JsNumber n) = Some n"
| "js_to_number _ = None"

fun js_is_bool :: "'f js_value \<Rightarrow> bool" where
  "js_is_bool (JsBoolean _) = True"
| "js_is_bool _ = False"

fun js_to_bool :: "'f js_value \<Rightarrow> bool option" where
  "js_to_bool (JsBoolean b) = Some b"
| "js_to_bool _ = None"

fun js_is_null :: "'f js_value \<Rightarrow> bool" where
  "js_is_null JsNull = True"
| "js_is_null _ = False"

definition quoted :: "ustring \<Rightarrow> ustring" where
  "quoted s = [34] @ s @ [34]"

definition bool_string :: "bool \<Rightarrow> ustring" where
  "bool_string b = (if b then ascii ''true'' else ascii ''false'')"

primrec js_to_string :: "(ustring set \<Rightarrow> ustring list) \<Rightarrow> 'f f64_cast \<Rightarrow> 'f js_value \<Rightarrow> ustring" where
  "js_to_string it fl (JsObject o') =
     (let printed = fmmap (js_to_string it fl) o';
          contents = map (\<lambda>name. quoted name @ ascii '':'' @ the (fmlookup printed name)) (it (fmdom' o'))
      in ascii ''{'' @ join_with (ascii '','') contents @ ascii ''}'')"
| "js_to_string it fl (JsArray a) =
     ascii ''['' @ join_with (ascii '','') (map (js_to_string it fl) a) @ ascii '']''"
| "js_to_string it fl (JsString s) = quoted s"
| "js_to_string it fl (JsNumber n) = f64_show fl n"
| "js_to_string it fl (JsBoolean b) = bool_string b"
| "js_to_string it fl JsNull = ascii ''null''"

section \<open>Reading\<close>

datatype js_rule =
  Rj_json | Rj_EOI | Rj_pair | Rj_value | Rj_inner_string | Rj_char | Rj_WHITESPACE | Rj_object | Rj_array
| Rj_string | Rj_number | Rj_boolean | Rj_null

datatype parse_json_error = ParseJsonError ustring

definition parse_bool :: "ustring \<Rightarrow> bool option" where
  "parse_bool s = (if s = ascii ''true'' then Some True else if s = ascii ''false'' then Some False else None)"

definition collect_object :: "(ustring \<times> 'f js_value) list \<Rightarrow> 'f js_object" where
  "collect_object members = fold (\<lambda>(name, v) m. fmupd name v m) members fmempty"

text \<open>The name in a pair: the inner string of its string.\<close>

definition pair_name :: "js_rule pest_pair \<Rightarrow> ustring run" where
  "pair_name pair = do { name_pair \<leftarrow> vec_get (into_inner pair) 0; inner \<leftarrow> first_of (into_inner name_pair);
     Some (as_str inner) }"

fun parse_value :: "'f f64_cast \<Rightarrow> js_rule pest_pair \<Rightarrow> 'f js_value run"
and parse_members :: "'f f64_cast \<Rightarrow> js_rule pest_pair list \<Rightarrow> (ustring \<times> 'f js_value) list run"
and parse_values :: "'f f64_cast \<Rightarrow> js_rule pest_pair list \<Rightarrow> 'f js_value list run"
and parse_second :: "'f f64_cast \<Rightarrow> js_rule pest_pair list \<Rightarrow> 'f js_value run" where
  "parse_value fl (PestPair rule s inner) = (case rule of
       Rj_object \<Rightarrow> do { members \<leftarrow> parse_members fl inner; Some (JsObject (collect_object members)) }
     | Rj_array \<Rightarrow> do { values \<leftarrow> parse_values fl inner; Some (JsArray values) }
     | Rj_string \<Rightarrow> do { inner_string \<leftarrow> first_of inner; Some (JsString (as_str inner_string)) }
     | Rj_number \<Rightarrow> do { n \<leftarrow> f64_parse fl s; Some (JsNumber n) }
     | Rj_boolean \<Rightarrow> do { b \<leftarrow> parse_bool s; Some (JsBoolean b) }
     | Rj_null \<Rightarrow> Some JsNull
     | _ \<Rightarrow> None)"
| "parse_members fl [] = Some []"
| "parse_members fl (PestPair rule s inner # pairs) = do {
     name \<leftarrow> pair_name (PestPair rule s inner);
     v \<leftarrow> parse_second fl inner;
     members \<leftarrow> parse_members fl pairs;
     Some ((name, v) # members)
   }"
| "parse_values fl [] = Some []"
| "parse_values fl (pair # pairs) = do {
     v \<leftarrow> parse_value fl pair;
     values \<leftarrow> parse_values fl pairs;
     Some (v # values)
   }"
| "parse_second fl (_ # pair # _) = parse_value fl pair"
| "parse_second fl _ = None"

definition parse_json_string ::
  "'f f64_cast \<Rightarrow> js_rule pest_parser \<Rightarrow> ustring \<Rightarrow> (parse_json_error + 'f js_value) run" where
  "parse_json_string fl pest src = parse_with pest Rj_json ParseJsonError (parse_value fl) src"

text \<open>The tree that the grammar gives for the text that is printed.\<close>

definition name_tree :: "ustring \<Rightarrow> js_rule pest_pair" where
  "name_tree name = PestPair Rj_string (quoted name) [PestPair Rj_inner_string name []]"

primrec js_tree :: "(ustring set \<Rightarrow> ustring list) \<Rightarrow> 'f f64_cast \<Rightarrow> 'f js_value \<Rightarrow> js_rule pest_pair" where
  "js_tree it fl (JsObject o') =
     (let trees = fmmap (js_tree it fl) o'
      in PestPair Rj_object (js_to_string it fl (JsObject o')) (map (\<lambda>name.
           (let tree = the (fmlookup trees name)
            in PestPair Rj_pair (quoted name @ ascii '':'' @ as_str tree) [name_tree name, tree]))
         (it (fmdom' o'))))"
| "js_tree it fl (JsArray a) = PestPair Rj_array (js_to_string it fl (JsArray a)) (map (js_tree it fl) a)"
| "js_tree it fl (JsString s) = name_tree s"
| "js_tree it fl (JsNumber n) = PestPair Rj_number (f64_show fl n) []"
| "js_tree it fl (JsBoolean b) = PestPair Rj_boolean (bool_string b) []"
| "js_tree it fl JsNull = PestPair Rj_null (ascii ''null'') []"

lemma js_tree_text: "as_str (js_tree it fl v) = js_to_string it fl v"
  by (cases v) (simp_all add: Let_def name_tree_def)

lemma collect_members_lookup:
  "distinct (map fst members) \<Longrightarrow>
     fmlookup (fold (\<lambda>(name, v) m. fmupd name v m) members m0) = fmlookup m0 ++ map_of members"
proof (induction members arbitrary: m0)
  case (Cons a members)
  have "fst a \<notin> dom (map_of members)" using Cons.prems by (simp add: dom_map_of_conv_image_fst)
  then show ?case using Cons
    by (cases a) (auto simp: map_add_def fun_eq_iff split: option.splits)
qed simp

lemma collect_object_lookup:
  assumes "distinct (map fst members)"
  shows "fmlookup (collect_object members) name = map_of members name"
  unfolding collect_object_def collect_members_lookup[OF assms]
  by (simp add: map_add_def split: option.splits)

lemma parse_values_all:
  "(\<And>v. v \<in> set vs \<Longrightarrow> parse_value fl (tree v) = Some v) \<Longrightarrow> parse_values fl (map tree vs) = Some vs"
  by (induction vs) auto

lemma parse_members_all:
  assumes "\<And>name. name \<in> set names \<Longrightarrow> parse_value fl (tree name) = Some (val name)"
  shows "parse_members fl (map (\<lambda>name. PestPair Rj_pair (txt name) [name_tree name, tree name]) names) =
    Some (map (\<lambda>name. (name, val name)) names)"
  using assms by (induction names) (simp_all add: pair_name_def vec_get_def first_of_def name_tree_def)

text \<open>
  JSON values travel as text: when the parser of the grammar gives the tree of the text that a
  value prints as, whatever the order in which the hash maps are visited, the value is read back,
  provided that the numbers in it survive their own text format.
\<close>

theorem json_read_back:
  assumes "iterates it" "\<forall>n \<in> set_js_value v. f64_parse fl (f64_show fl n) = Some n"
    and "pest Rj_json (js_to_string it fl v) = Inr [js_tree it fl v]"
  shows "parse_json_string fl pest (js_to_string it fl v) = Some (Inr v)"
proof -
  have "parse_value fl (js_tree it fl v) = Some v"
    using assms(2)
  proof (induction v)
    case (JsObject o')
    have names: "set (it (fmdom' o')) = fmdom' o'" "distinct (it (fmdom' o'))"
      using iterates_set[OF assms(1)] iterates_distinct[OF assms(1)] by simp_all
    have val: "parse_value fl (the (fmlookup (fmmap (js_tree it fl) o') name)) = Some (the (fmlookup o' name))"
      if "name \<in> set (it (fmdom' o'))" for name
    proof -
      from that names obtain w where w: "fmlookup o' name = Some w" by (auto simp: fmlookup_dom'_iff)
      then have "w \<in> fmran' o'" by (rule fmran'I)
      then show ?thesis using JsObject.IH[of w] JsObject.prems w by auto
    qed
    have members: "parse_members fl (into_inner (js_tree it fl (JsObject o'))) =
        Some (map (\<lambda>name. (name, the (fmlookup o' name))) (it (fmdom' o')))"
      using parse_members_all[OF val] by (simp add: Let_def)
    have "fmlookup (collect_object (map (\<lambda>name. (name, the (fmlookup o' name))) (it (fmdom' o')))) name =
        fmlookup o' name" for name
    proof -
      have "distinct (map fst (map (\<lambda>name. (name, the (fmlookup o' name))) (it (fmdom' o'))))"
        using names(2) by (simp add: o_def)
      then show ?thesis using names(1)
        by (cases "fmlookup o' name")
          (simp_all add: collect_object_lookup map_of_map_restrict restrict_map_def fmlookup_dom'_iff)
    qed
    then have "collect_object (map (\<lambda>name. (name, the (fmlookup o' name))) (it (fmdom' o'))) = o'"
      by (intro fmap_ext) simp
    then show ?case using members by (simp add: Let_def)
  next
    case (JsArray a)
    then show ?case using parse_values_all[of a fl "js_tree it fl"] by auto
  next
    case (JsBoolean b)
    then show ?case by (cases b) (simp_all add: bool_string_def parse_bool_def ascii_def)
  qed (simp_all add: name_tree_def first_of_def)
  then show ?thesis by (simp add: parse_json_string_def parse_with_def assms(3) first_of_def)
qed

definition nat_cast :: "nat f64_cast" where
  "nat_cast = \<lparr>f64_show = show_nat, f64_parse = parse_uint 64, f64_zero = 0, trunc_u32 = as_u32,
     trunc_u64 = (\<lambda>n. n mod 2 ^ 64), trunc_isize = int\<rparr>"

text \<open>The value of the test of the crate.\<close>

definition example_js :: "nat js_value" where
  "example_js = JsObject (fmupd (ascii ''name'') (JsString (ascii ''toto'')) (fmupd (ascii ''age'') (JsNumber 25)
     (fmupd (ascii ''friends'') (JsArray [JsString (ascii ''titi''), JsString (ascii ''tata'')]) fmempty)))"

lemma json_read_back_witness:
  "\<exists>it pest. parse_json_string nat_cast pest (js_to_string it nat_cast example_js) = Some (Inr example_js)"
proof -
  obtain it :: "ustring set \<Rightarrow> ustring list" where it: "iterates it" using iterates_exists by blast
  have numbers: "\<forall>n \<in> set_js_value example_js. f64_parse nat_cast (f64_show nat_cast n) = Some n"
  proof -
    have upd: "x \<in> fmran' (fmupd k v m) \<Longrightarrow> x = v \<or> x \<in> fmran' m"
      for x v :: "nat js_value" and k :: ustring and m
      by (auto simp: fmlookup_ran'_iff split: if_splits)
    have "set_js_value example_js \<subseteq> {25}"
      unfolding example_js_def js_value.set
      by (auto dest!: upd)
    then show ?thesis by (auto simp: nat_cast_def parse_show_nat)
  qed
  show ?thesis
    using json_read_back[OF it numbers, of "\<lambda>_ _. Inr [js_tree it nat_cast example_js]"] by blast
qed

section \<open>Fields of an object\<close>

definition json_fail :: "ustring \<Rightarrow> string \<Rightarrow> parse_json_error" where
  "json_fail field what = ParseJsonError (ascii ''Fail to parse json : field '' @ [39] @ field @ [39] @ ascii what)"

definition ok_or :: "'e \<Rightarrow> 'a option \<Rightarrow> 'e + 'a" where
  "ok_or e v = (case v of Some x \<Rightarrow> Inr x | None \<Rightarrow> Inl e)"

text \<open>The operator \<open>?\<close> between results that cannot panic.\<close>

definition and_ok :: "'e + 'a \<Rightarrow> ('a \<Rightarrow> 'e + 'b) \<Rightarrow> 'e + 'b" where
  "and_ok r f = (case r of Inl e \<Rightarrow> Inl e | Inr v \<Rightarrow> f v)"

fun collect_results :: "('a \<Rightarrow> 'e + 'b) \<Rightarrow> 'a list \<Rightarrow> 'e + 'b list" where
  "collect_results f [] = Inr []"
| "collect_results f (x # xs) = and_ok (f x) (\<lambda>y. and_ok (collect_results f xs) (\<lambda>ys. Inr (y # ys)))"

definition get_optional_usize :: "'f f64_cast \<Rightarrow> 'f js_object \<Rightarrow> ustring \<Rightarrow> parse_json_error + nat option" where
  "get_optional_usize fl o' field = (case fmlookup o' field of
       Some v \<Rightarrow>
         if \<not> js_is_null v
         then and_ok (ok_or (json_fail field '' must be a number !'') (js_to_number v))
           (\<lambda>n. Inr (Some (trunc_u64 fl n)))
         else Inr None
     | None \<Rightarrow> Inr None)"

definition get_optional_str :: "'f js_object \<Rightarrow> ustring \<Rightarrow> parse_json_error + ustring option" where
  "get_optional_str o' field = (case fmlookup o' field of
       Some v \<Rightarrow>
         if \<not> js_is_null v
         then and_ok (ok_or (json_fail field '' must be a string !'') (js_to_str v)) (\<lambda>s. Inr (Some s))
         else Inr None
     | None \<Rightarrow> Inr None)"

definition get_optional_str_not_empty :: "'f js_object \<Rightarrow> ustring \<Rightarrow> parse_json_error + ustring option" where
  "get_optional_str_not_empty o' field = (case get_optional_str o' field of
       Inr (Some s) \<Rightarrow> if s \<noteq> [] then Inr (Some s) else Inr None
     | result \<Rightarrow> result)"

definition get_number :: "'f js_object \<Rightarrow> ustring \<Rightarrow> parse_json_error + 'f" where
  "get_number o' field =
     and_ok (ok_or (json_fail field '' must exist !'') (fmlookup o' field))
       (\<lambda>v. ok_or (json_fail field '' must be a number !'') (js_to_number v))"

definition get_str :: "'f js_object \<Rightarrow> ustring \<Rightarrow> parse_json_error + ustring" where
  "get_str o' field =
     and_ok (ok_or (json_fail field '' must exist !'') (fmlookup o' field))
       (\<lambda>v. ok_or (json_fail field '' must be a string !'') (js_to_str v))"

definition get_str_array :: "'f js_object \<Rightarrow> ustring \<Rightarrow> parse_json_error + ustring list" where
  "get_str_array o' field =
     and_ok (ok_or (json_fail field '' must exist !'') (fmlookup o' field)) (\<lambda>v.
     and_ok (ok_or (json_fail field '' must be an array !'') (js_to_array v)) (\<lambda>vs.
       collect_results (\<lambda>v. ok_or (json_fail field '' must be an array of string !'') (js_to_str v)) vs))"

definition get_object_array :: "'f js_object \<Rightarrow> ustring \<Rightarrow> parse_json_error + 'f js_object list" where
  "get_object_array o' field =
     and_ok (ok_or (json_fail field '' must exist !'') (fmlookup o' field)) (\<lambda>v.
     and_ok (ok_or (json_fail field '' must be an array !'') (js_to_array v)) (\<lambda>vs.
       collect_results (\<lambda>v. ok_or (json_fail field '' must be an object !'') (js_to_object v)) vs))"

section \<open>Escaped strings\<close>

text \<open>The state of the loop: the previous character and the result so far.\<close>

definition unescape_char :: "nat \<Rightarrow> nat option \<times> ustring \<Rightarrow> nat option \<times> ustring" where
  "unescape_char current_char st = (case st of (previous_char, str_result) \<Rightarrow>
     (Some current_char,
      if previous_char = Some 92
      then (if current_char = 92 then str_result else str_result @ [current_char])
      else str_result @ [current_char]))"

definition unescape_str :: "ustring \<Rightarrow> ustring" where
  "unescape_str src = snd (fold unescape_char src (None, []))"

text \<open>
  A run of backslashes, of any length, becomes a single backslash, and a backslash before another
  character stays: the function removes repeated backslashes, and undoes no other escape.
\<close>

lemma unescape_backslashes: "unescape_str (replicate (Suc n) 92 @ s) = unescape_str (92 # s)"
proof (induction n)
  case (Suc n)
  have "snd (fold unescape_char (replicate n 92 @ s) (Some 92, [92])) =
      snd (fold unescape_char (92 # replicate n 92 @ s) (Some 92, [92]))"
    by (simp add: unescape_char_def)
  then show ?case using Suc by (simp add: unescape_str_def unescape_char_def)
qed simp

lemma unescape_plain: "92 \<notin> set s \<Longrightarrow> unescape_str s = s"
proof -
  have "snd (fold unescape_char s (pc, r)) = r @ s" if "92 \<notin> set s" "pc \<noteq> Some 92" for pc r
    using that by (induction s arbitrary: pc r) (auto simp: unescape_char_def)
  from this[of None "[]"] show "92 \<notin> set s \<Longrightarrow> unescape_str s = s" by (simp add: unescape_str_def)
qed

end
