(* ===== verification/Block_Parsers.thy ===== *)
theory Block_Parsers
  imports Document_Parsers Json_Parser
begin

text \<open>
  The readers of blocks in JSON, \<open>lib/tools/documents/src/parsers\<close>: the compact documents of the web
  of trust that a block lists, its transactions and the block itself. The errors of the different
  crates, which the program boxes in \<open>failure::Error\<close>, are the constructors of one type.
\<close>

datatype block_parse_error =
  EJson parse_json_error
| EBase base_convertion_error
| EBlockstamp blockstamp_parse_error
| EIdentity ustring
| EMembershipWrongFormat
| EText text_document_parse_error
| EParams parse_params_error

abbreviation lift_err :: "('e \<Rightarrow> block_parse_error) \<Rightarrow> 'e + 'a \<Rightarrow> (block_parse_error + 'a) run" where
  "lift_err err r \<equiv> Some (map_sum err id r)"

text \<open>A loop that returns at the first error, and may panic.\<close>

fun collect_run :: "('a \<Rightarrow> ('e + 'b) run) \<Rightarrow> 'a list \<Rightarrow> ('e + 'b list) run" where
  "collect_run f [] = Some (Inr [])"
| "collect_run f (x # xs) = try_then (f x) (\<lambda>y. try_then (collect_run f xs) (\<lambda>ys. Some (Inr (y # ys))))"

section \<open>Compact documents\<close>

definition identity_build_with_signature ::
  "crypto \<Rightarrow> ustring \<Rightarrow> pub_key \<Rightarrow> ustring \<Rightarrow> blockstamp \<Rightarrow> signature list \<Rightarrow> identity_document run" where
  "identity_build_with_signature c currency issuer username b sigs = do {
     doc_text \<leftarrow> identity_text c currency issuer username b;
     Some \<lparr>i_text = Some doc_text, i_currency = currency, i_username = username, i_blockstamp = b,
       i_issuers = [issuer], i_signatures = sigs\<rparr>
   }"

text \<open>The parts of the text are taken by their index, whatever their number.\<close>

definition parse_compact_identity ::
  "crypto \<Rightarrow> codecs \<Rightarrow> ustring \<Rightarrow> ustring \<Rightarrow> (block_parse_error + identity_document) run" where
  "parse_compact_identity c d currency str_identity =
     (let idty_elements = split_on 58 str_identity in do {
        key_text \<leftarrow> vec_get idty_elements 0;
        try_then (lift_err (\<lambda>_. EIdentity (ascii ''invalid pubkey'')) (key_from_base58 d key_text)) (\<lambda>issuer. do {
          sig_text \<leftarrow> vec_get idty_elements 1;
          try_then (lift_err (\<lambda>_. EIdentity (ascii ''invalid signature'')) (sig_from_base64 d sig_text)) (\<lambda>sig. do {
            bs_text \<leftarrow> vec_get idty_elements 2;
            bs \<leftarrow> blockstamp_from_string bs_text;
            try_then (lift_err (\<lambda>_. EIdentity (ascii ''invalid blockstamp'')) bs) (\<lambda>b. do {
              username \<leftarrow> vec_get idty_elements 3;
              map_option Inr (identity_build_with_signature c currency issuer username b [sig])
            })
          })
        })
      })"

definition parse_compact_identities ::
  "crypto \<Rightarrow> codecs \<Rightarrow> ustring \<Rightarrow> ustring list \<Rightarrow> (block_parse_error + identity_document list) run" where
  "parse_compact_identities c d currency = collect_run (parse_compact_identity c d currency)"

definition membership_build_with_signature ::
  "crypto \<Rightarrow> ustring \<Rightarrow> pub_key \<Rightarrow> blockstamp \<Rightarrow> membership_type \<Rightarrow> ustring \<Rightarrow> blockstamp \<Rightarrow> signature list \<Rightarrow>
   membership_document run" where
  "membership_build_with_signature c currency issuer b ms username identity_b sigs = do {
     doc_text \<leftarrow> membership_text c currency issuer b ms username identity_b;
     Some \<lparr>m_text = Some doc_text, m_currency = currency, m_issuers = [issuer], m_blockstamp = b,
       m_membership = ms, m_identity_username = username, m_identity_blockstamp = identity_b,
       m_signatures = sigs\<rparr>
   }"

definition parse_compact_membership ::
  "crypto \<Rightarrow> codecs \<Rightarrow> ustring \<Rightarrow> membership_type \<Rightarrow> ustring \<Rightarrow> (block_parse_error + membership_document) run" where
  "parse_compact_membership c d currency ms membership = (case split_on 58 membership of
       [key_text, sig_text, b_text, identity_b_text, username] \<Rightarrow>
         try_then (lift_err EBase (key_from_base58 d key_text)) (\<lambda>issuer.
         try_then (blockstamp_from_string b_text \<bind> lift_err EBlockstamp) (\<lambda>b.
         try_then (blockstamp_from_string identity_b_text \<bind> lift_err EBlockstamp) (\<lambda>identity_b.
         try_then (lift_err EBase (sig_from_base64 d sig_text)) (\<lambda>sig.
           map_option Inr (membership_build_with_signature c currency issuer b ms username identity_b [sig])))))
     | _ \<Rightarrow> Some (Inl EMembershipWrongFormat))"

definition parse_compact_memberships ::
  "crypto \<Rightarrow> codecs \<Rightarrow> ustring \<Rightarrow> membership_type \<Rightarrow> ustring list \<Rightarrow>
   (block_parse_error + membership_document list) run" where
  "parse_compact_memberships c d currency ms = collect_run (parse_compact_membership c d currency ms)"

text \<open>A certification or revocation with another number of parts is skipped.\<close>

definition push_certification ::
  "codecs \<Rightarrow> ustring \<Rightarrow> (certification_document, compact_certification) text_document_format list \<Rightarrow>
   (certification_document, compact_certification) text_document_format list run" where
  "push_certification d certification certifications = (case split_on 58 certification of
       [issuer_text, target_text, number_text, sig_text] \<Rightarrow> do {
         issuer \<leftarrow> expect (key_from_base58 d issuer_text);
         target \<leftarrow> expect (key_from_base58 d target_text);
         number \<leftarrow> parse_uint 32 number_text;
         sig \<leftarrow> expect (sig_from_base64 d sig_text);
         Some (certifications @ [Compact \<lparr>cc_issuer = issuer, cc_target = target, cc_block_number = number,
           cc_signature = sig\<rparr>])
       }
     | _ \<Rightarrow> Some certifications)"

definition parse_certifications_into_compact ::
  "codecs \<Rightarrow> ustring list \<Rightarrow> (certification_document, compact_certification) text_document_format list run" where
  "parse_certifications_into_compact d str_certs = fold_run (push_certification d) str_certs []"

definition push_revocation ::
  "codecs \<Rightarrow> ustring \<Rightarrow> (revocation_document, compact_revocation) text_document_format list \<Rightarrow>
   (revocation_document, compact_revocation) text_document_format list run" where
  "push_revocation d revocation revocations = (case split_on 58 revocation of
       [issuer_text, sig_text] \<Rightarrow> do {
         issuer \<leftarrow> expect (key_from_base58 d issuer_text);
         sig \<leftarrow> expect (sig_from_base64 d sig_text);
         Some (revocations @ [Compact \<lparr>cr_issuer = issuer, cr_signature = sig\<rparr>])
       }
     | _ \<Rightarrow> Some revocations)"

definition parse_revocations_into_compact ::
  "codecs \<Rightarrow> ustring list \<Rightarrow> (revocation_document, compact_revocation) text_document_format list run" where
  "parse_revocations_into_compact d str_revocations = fold_run (push_revocation d) str_revocations []"

section \<open>Transactions\<close>

definition tx_build_with_signature ::
  "crypto \<Rightarrow> ustring \<Rightarrow> blockstamp \<Rightarrow> nat \<Rightarrow> pub_key list \<Rightarrow> transaction_input list \<Rightarrow> input_unlocks list \<Rightarrow>
   transaction_output list \<Rightarrow> ustring \<Rightarrow> hash option \<Rightarrow> signature list \<Rightarrow> transaction_document run" where
  "tx_build_with_signature c currency b locktime issuers inputs unlocks outputs comment h sigs = do {
     doc_text \<leftarrow> tx_text c currency b locktime issuers inputs unlocks outputs comment;
     Some \<lparr>t_text = Some doc_text, t_currency = currency, t_blockstamp = b, t_locktime = locktime,
       t_issuers = issuers, t_inputs = inputs, t_unlocks = unlocks, t_outputs = outputs,
       t_comment = comment, t_signatures = sigs, t_hash = h\<rparr>
   }"

text \<open>The texts of keys and hashes, with the error of their decoder.\<close>

definition parse_keys :: "codecs \<Rightarrow> ustring list \<Rightarrow> block_parse_error + pub_key list" where
  "parse_keys d = map_sum EBase id \<circ> collect_results (key_from_base58 d)"

definition parse_hash :: "ustring \<Rightarrow> (block_parse_error + hash) run" where
  "parse_hash s = from_hex s \<bind> lift_err EBase"

definition parse_json_transaction ::
  "crypto \<Rightarrow> codecs \<Rightarrow> doc_pest \<Rightarrow> 'f f64_cast \<Rightarrow> 'f js_value \<Rightarrow> (block_parse_error + transaction_document) run" where
  "parse_json_transaction c d pest fl json_tx = (case js_to_object json_tx of
       None \<Rightarrow> Some (Inl (EJson (ParseJsonError (ascii ''Json transaction must be an object !''))))
     | Some json_tx \<Rightarrow>
         try_then (lift_err EJson (get_str json_tx (ascii ''currency''))) (\<lambda>currency.
         try_then (lift_err EJson (get_str json_tx (ascii ''blockstamp''))) (\<lambda>b_text.
         try_then (blockstamp_from_string b_text \<bind> lift_err EBlockstamp) (\<lambda>b.
         try_then (lift_err EJson (get_number json_tx (ascii ''locktime''))) (\<lambda>locktime.
         try_then (lift_err EJson (get_str_array json_tx (ascii ''issuers''))) (\<lambda>issuers.
         try_then (Some (parse_keys d issuers)) (\<lambda>issuers.
         try_then (lift_err EJson (get_str_array json_tx (ascii ''inputs''))) (\<lambda>inputs.
         try_then (collect_run (input_from_str d pest) inputs \<bind> lift_err EText) (\<lambda>inputs.
         try_then (lift_err EJson (get_str_array json_tx (ascii ''unlocks''))) (\<lambda>unlocks.
         try_then (collect_run (unlocks_from_str pest) unlocks \<bind> lift_err EText) (\<lambda>unlocks.
         try_then (lift_err EJson (get_str_array json_tx (ascii ''outputs''))) (\<lambda>outputs.
         try_then (collect_run (output_from_str d pest) outputs \<bind> lift_err EText) (\<lambda>outputs.
         try_then (lift_err EJson (get_str json_tx (ascii ''comment''))) (\<lambda>comment.
         try_then (lift_err EJson (get_optional_str json_tx (ascii ''hash''))) (\<lambda>hash_str.
         try_then (case hash_str of Some s \<Rightarrow> map_option (map_sum id Some) (parse_hash s)
             | None \<Rightarrow> Some (Inr None)) (\<lambda>h.
         try_then (lift_err EJson (get_str_array json_tx (ascii ''signatures''))) (\<lambda>sigs.
         try_then (lift_err EBase (collect_results (sig_from_base64 d) sigs)) (\<lambda>sigs.
           map_option Inr (tx_build_with_signature c currency b (trunc_u64 fl locktime) issuers inputs
             unlocks outputs (unescape_str comment) h sigs)))))))))))))))))))"

section \<open>Blocks\<close>

definition json_num ::
  "'f js_object \<Rightarrow> string \<Rightarrow> ('f \<Rightarrow> 'a) \<Rightarrow> (block_parse_error + 'a) run" where
  "json_num o' field conv = Some (map_sum EJson conv (get_number o' (ascii field)))"

definition json_str_then ::
  "'f js_object \<Rightarrow> string \<Rightarrow> (ustring \<Rightarrow> (block_parse_error + 'a) run) \<Rightarrow> (block_parse_error + 'a) run" where
  "json_str_then o' field f = try_then (lift_err EJson (get_str o' (ascii field))) f"

definition json_strs_then ::
  "'f js_object \<Rightarrow> string \<Rightarrow> (ustring list \<Rightarrow> (block_parse_error + 'a) run) \<Rightarrow> (block_parse_error + 'a) run" where
  "json_strs_then o' field f = try_then (lift_err EJson (get_str_array o' (ascii field))) f"

definition parse_block_transactions ::
  "crypto \<Rightarrow> codecs \<Rightarrow> doc_pest \<Rightarrow> 'f f64_cast \<Rightarrow> 'f js_object \<Rightarrow> (block_parse_error + tx_doc_or_hash list) run" where
  "parse_block_transactions c d pest fl o' =
     try_then (lift_err EJson (ok_or (ParseJsonError (ascii ''Fail to parse json block : field '' @ [39] @
         ascii ''transactions'' @ [39] @ ascii '' must exist !'')) (fmlookup o' (ascii ''transactions'')))) (\<lambda>v.
     try_then (lift_err EJson (ok_or (ParseJsonError (ascii ''Fail to parse json block : field '' @ [39] @
         ascii ''transactions'' @ [39] @ ascii '' must be an array !'')) (js_to_array v))) (\<lambda>txs.
       collect_run (\<lambda>tx. map_option (map_sum id TxDoc) (parse_json_transaction c d pest fl tx)) txs))"

definition parse_json_block ::
  "crypto \<Rightarrow> codecs \<Rightarrow> doc_pest \<Rightarrow> 'f f64_cast \<Rightarrow> 'f js_value \<Rightarrow> (block_parse_error + 'f block_document) run" where
  "parse_json_block c d pest fl json_block = (case js_to_object json_block of
       None \<Rightarrow> Some (Inl (EJson (ParseJsonError (ascii ''Json block must be an object !''))))
     | Some o' \<Rightarrow>
         json_str_then o' ''currency'' (\<lambda>currency.
         try_then (json_num o' ''number'' (trunc_u32 fl)) (\<lambda>block_number.
         try_then (json_num o' ''version'' (trunc_u32 fl)) (\<lambda>version.
         try_then (json_num o' ''nonce'' (trunc_u64 fl)) (\<lambda>nonce.
         try_then (json_num o' ''powMin'' (trunc_u64 fl)) (\<lambda>pow_min.
         try_then (json_num o' ''time'' (trunc_u64 fl)) (\<lambda>time.
         try_then (json_num o' ''medianTime'' (trunc_u64 fl)) (\<lambda>median_time.
         try_then (json_num o' ''membersCount'' (trunc_u64 fl)) (\<lambda>members_count.
         try_then (Some (Inr (case get_number o' (ascii ''monetaryMass'') of
             Inr n \<Rightarrow> trunc_u64 fl n | Inl _ \<Rightarrow> trunc_u64 fl (f64_zero fl)))) (\<lambda>monetary_mass.
         try_then (json_num o' ''unitbase'' (trunc_u64 fl)) (\<lambda>unit_base.
         try_then (json_num o' ''issuersCount'' (trunc_u64 fl)) (\<lambda>issuers_count.
         try_then (json_num o' ''issuersFrame'' (trunc_isize fl)) (\<lambda>issuers_frame.
         try_then (json_num o' ''issuersFrameVar'' (trunc_isize fl)) (\<lambda>issuers_frame_var.
         try_then (json_str_then o' ''issuer'' (\<lambda>s. lift_err EBase (key_from_base58 d s))) (\<lambda>issuer.
         try_then (json_str_then o' ''signature'' (\<lambda>s. lift_err EBase (sig_from_base64 d s))) (\<lambda>sig.
         try_then (json_str_then o' ''hash'' parse_hash) (\<lambda>h.
         try_then (lift_err EJson (get_optional_str_not_empty o' (ascii ''parameters''))) (\<lambda>params.
         try_then (case params of
             Some s \<Rightarrow> map_option (map_sum EParams Some) (params_from_str (f64_text.truncate fl) s)
           | None \<Rightarrow> Some (Inr None)) (\<lambda>parameters.
         try_then (if block_number = 0 then Some (Inr hash_default)
           else json_str_then o' ''previousHash'' parse_hash) (\<lambda>previous_hash.
         try_then (if block_number = 0 then Some (Inr None)
           else json_str_then o' ''previousIssuer'' (\<lambda>s. Some (map_sum EBase Some (key_from_base58 d s))))
           (\<lambda>previous_issuer.
         try_then (json_str_then o' ''inner_hash'' parse_hash) (\<lambda>inner_hash.
         try_then (lift_err EJson (get_optional_usize fl o' (ascii ''dividend''))) (\<lambda>dividend.
         try_then (json_strs_then o' ''identities'' (parse_compact_identities c d currency)) (\<lambda>identities.
         try_then (json_strs_then o' ''joiners'' (parse_compact_memberships c d currency MsIn)) (\<lambda>joiners.
         try_then (json_strs_then o' ''actives'' (parse_compact_memberships c d currency MsIn)) (\<lambda>actives.
         try_then (json_strs_then o' ''leavers'' (parse_compact_memberships c d currency MsOut)) (\<lambda>leavers.
         try_then (json_strs_then o' ''revoked''
           (\<lambda>ss. map_option Inr (parse_revocations_into_compact d ss))) (\<lambda>revoked.
         try_then (json_strs_then o' ''excluded'' (\<lambda>ss. Some (parse_keys d ss))) (\<lambda>excluded.
         try_then (json_strs_then o' ''certifications''
           (\<lambda>ss. map_option Inr (parse_certifications_into_compact d ss))) (\<lambda>certifications.
         try_then (parse_block_transactions c d pest fl o') (\<lambda>transactions.
           Some (Inr \<lparr>b_version = version, b_nonce = nonce, b_number = block_number, b_pow_min = pow_min,
             b_time = time, b_median_time = median_time, b_members_count = members_count,
             b_monetary_mass = monetary_mass, b_unit_base = unit_base, b_issuers_count = issuers_count,
             b_issuers_frame = issuers_frame, b_issuers_frame_var = issuers_frame_var,
             b_currency = currency, b_issuers = [issuer], b_signatures = [sig], b_hash = Some h,
             b_parameters = parameters, b_previous_hash = previous_hash,
             b_previous_issuer = previous_issuer, b_inner_hash = Some inner_hash, b_dividend = dividend,
             b_identities = identities, b_joiners = joiners, b_actives = actives, b_leavers = leavers,
             b_revoked = revoked, b_excluded = excluded, b_certifications = certifications,
             b_transactions = transactions, b_inner_hash_and_nonce_str = []\<rparr>))))))))))))))))))))))))))))))))"

section \<open>Reading compact documents back\<close>

text \<open>Keys and signatures that their codec reads back, in a text without the separator.\<close>

definition key_field_ok :: "crypto \<Rightarrow> codecs \<Rightarrow> pub_key \<Rightarrow> bool" where
  "key_field_ok c d k \<longleftrightarrow> (\<exists>s. key_string c k = Some s \<and> key_from_base58 d s = Inr k \<and> 58 \<notin> set s)"

definition sig_field_ok :: "crypto \<Rightarrow> codecs \<Rightarrow> signature \<Rightarrow> bool" where
  "sig_field_ok c d sig \<longleftrightarrow> (\<exists>s. sig_string c sig = Some s \<and> sig_from_base64 d s = Inr sig \<and> 58 \<notin> set s)"

text \<open>The documents that the builders make with one signature.\<close>

definition identity_built :: "crypto \<Rightarrow> codecs \<Rightarrow> ustring \<Rightarrow> identity_document \<Rightarrow> bool" where
  "identity_built c d currency doc \<longleftrightarrow> (\<exists>issuer sig.
     identity_build_with_signature c currency issuer (i_username doc) (i_blockstamp doc) [sig] = Some doc \<and>
     key_field_ok c d issuer \<and> sig_field_ok c d sig \<and> blockstamp_wf (i_blockstamp doc) \<and> 58 \<notin> set (i_username doc))"

definition membership_built :: "crypto \<Rightarrow> codecs \<Rightarrow> ustring \<Rightarrow> membership_type \<Rightarrow> membership_document \<Rightarrow> bool" where
  "membership_built c d currency ms doc \<longleftrightarrow> (\<exists>issuer sig.
     membership_build_with_signature c currency issuer (m_blockstamp doc) ms (m_identity_username doc)
       (m_identity_blockstamp doc) [sig] = Some doc \<and>
     key_field_ok c d issuer \<and> sig_field_ok c d sig \<and> blockstamp_wf (m_blockstamp doc) \<and>
     blockstamp_wf (m_identity_blockstamp doc) \<and> 58 \<notin> set (m_identity_username doc))"

definition certification_ok :: "crypto \<Rightarrow> codecs \<Rightarrow> compact_certification \<Rightarrow> bool" where
  "certification_ok c d doc \<longleftrightarrow> key_field_ok c d (cc_issuer doc) \<and> key_field_ok c d (cc_target doc) \<and>
     sig_field_ok c d (cc_signature doc) \<and> cc_block_number doc < 2 ^ 32"

definition revocation_ok :: "crypto \<Rightarrow> codecs \<Rightarrow> compact_revocation \<Rightarrow> bool" where
  "revocation_ok c d doc \<longleftrightarrow> key_field_ok c d (cr_issuer doc) \<and> sig_field_ok c d (cr_signature doc)"

definition identity_line :: "crypto \<Rightarrow> identity_document \<Rightarrow> ustring run" where
  "identity_line c doc = identity_to_compact doc \<bind> compact_identity_text c"

lemma blockstamp_no_colon: "blockstamp_wf b \<Longrightarrow> 58 \<notin> set (blockstamp_to_string b)"
  using blockstamp_chars[of b 58] by (auto simp: is_digit_def)

lemma collect_run_all:
  assumes "\<forall>x \<in> set xs. \<exists>s. txt x = Some s \<and> read s = Some (Inr x)"
  shows "\<exists>ss. map_run txt xs = Some ss \<and> collect_run read ss = Some (Inr xs)"
  using assms
proof (induction xs)
  case (Cons x xs)
  then obtain s ss where "txt x = Some s" "read s = Some (Inr x)" "map_run txt xs = Some ss"
      "collect_run read ss = Some (Inr xs)" by auto
  then show ?case by (intro exI[of _ "s # ss"]) simp
qed simp

lemma push_all:
  assumes "\<forall>x \<in> set xs. \<exists>s. txt x = Some s \<and> (\<forall>acc. push s acc = Some (acc @ [g x]))"
  shows "\<exists>ss. map_run txt xs = Some ss \<and> fold_run push ss acc = Some (acc @ map g xs)"
  using assms
proof (induction xs arbitrary: acc)
  case (Cons x xs)
  then obtain s where "txt x = Some s" "\<forall>acc. push s acc = Some (acc @ [g x])" by auto
  moreover obtain ss where "map_run txt xs = Some ss" "fold_run push ss (acc @ [g x]) = Some ((acc @ [g x]) @ map g xs)"
    using Cons.IH[of "acc @ [g x]"] Cons.prems by auto
  ultimately show ?case by (intro exI[of _ "s # ss"]) simp
qed simp

lemma identity_build_fields:
  "identity_build_with_signature c currency issuer username b sigs = Some doc \<Longrightarrow>
     i_issuers doc = [issuer] \<and> i_signatures doc = sigs"
  by (auto simp: identity_build_with_signature_def split: bind_splits)

lemma membership_build_fields:
  "membership_build_with_signature c currency issuer b ms username identity_b sigs = Some doc \<Longrightarrow>
     m_issuers doc = [issuer] \<and> m_signatures doc = sigs"
  by (auto simp: membership_build_with_signature_def split: bind_splits)

lemma identity_line_read:
  assumes "identity_built c d currency doc"
  shows "\<exists>s. identity_line c doc = Some s \<and> parse_compact_identity c d currency s = Some (Inr doc)"
proof -
  obtain issuer sig where doc: "identity_build_with_signature c currency issuer (i_username doc) (i_blockstamp doc) [sig] = Some doc"
      "key_field_ok c d issuer" "sig_field_ok c d sig" "blockstamp_wf (i_blockstamp doc)" "58 \<notin> set (i_username doc)"
    using assms by (auto simp: identity_built_def)
  obtain k where k: "key_string c issuer = Some k" "key_from_base58 d k = Inr issuer" "58 \<notin> set k"
    using doc(2) by (auto simp: key_field_ok_def)
  obtain s where s: "sig_string c sig = Some s" "sig_from_base64 d s = Inr sig" "58 \<notin> set s"
    using doc(3) by (auto simp: sig_field_ok_def)
  have fields: "i_issuers doc = [issuer]" "i_signatures doc = [sig]"
    using identity_build_fields[OF doc(1)] by simp_all
  have parts: "split_on 58 (k @ 58 # s @ 58 # blockstamp_to_string (i_blockstamp doc) @ 58 # i_username doc) =
      [k, s, blockstamp_to_string (i_blockstamp doc), i_username doc]"
    using split_on_append k(3) s(3) blockstamp_no_colon[OF doc(4)] split_on_absent[OF doc(5)] by simp
  have "identity_line c doc = Some (k @ 58 # s @ 58 # blockstamp_to_string (i_blockstamp doc) @ 58 # i_username doc)"
    by (simp add: identity_line_def identity_to_compact_def compact_identity_text_def first_of_def fields k s ascii_def)
  moreover have "blockstamp_from_string (blockstamp_to_string (i_blockstamp doc)) = Some (Inr (i_blockstamp doc))"
    by (rule blockstamp_parses[OF doc(4)])
  ultimately show ?thesis
    by (simp add: parse_compact_identity_def parts vec_get_def k s doc(1))
qed

lemma membership_line_read:
  assumes "membership_built c d currency ms doc"
  shows "\<exists>s. membership_compact_text c doc = Some s \<and> parse_compact_membership c d currency ms s = Some (Inr doc)"
proof -
  obtain issuer sig where doc: "membership_build_with_signature c currency issuer (m_blockstamp doc) ms
       (m_identity_username doc) (m_identity_blockstamp doc) [sig] = Some doc"
      "key_field_ok c d issuer" "sig_field_ok c d sig" "blockstamp_wf (m_blockstamp doc)"
      "blockstamp_wf (m_identity_blockstamp doc)" "58 \<notin> set (m_identity_username doc)"
    using assms by (auto simp: membership_built_def)
  obtain k where k: "key_string c issuer = Some k" "key_from_base58 d k = Inr issuer" "58 \<notin> set k"
    using doc(2) by (auto simp: key_field_ok_def)
  obtain s where s: "sig_string c sig = Some s" "sig_from_base64 d s = Inr sig" "58 \<notin> set s"
    using doc(3) by (auto simp: sig_field_ok_def)
  have fields: "m_issuers doc = [issuer]" "m_signatures doc = [sig]"
    using membership_build_fields[OF doc(1)] by simp_all
  let ?b = "blockstamp_to_string (m_blockstamp doc)" and ?i = "blockstamp_to_string (m_identity_blockstamp doc)"
  have parts: "split_on 58 (k @ 58 # s @ 58 # ?b @ 58 # ?i @ 58 # m_identity_username doc) =
      [k, s, ?b, ?i, m_identity_username doc]"
    using split_on_append k(3) s(3) blockstamp_no_colon[OF doc(4)] blockstamp_no_colon[OF doc(5)]
      split_on_absent[OF doc(6)] by simp
  have "membership_compact_text c doc = Some (k @ 58 # s @ 58 # ?b @ 58 # ?i @ 58 # m_identity_username doc)"
    by (simp add: membership_compact_text_def first_of_def fields k s ascii_def)
  then show ?thesis
    by (simp add: parse_compact_membership_def parts k s doc(1) blockstamp_parses[OF doc(4)] blockstamp_parses[OF doc(5)])
qed

lemma certification_line_read:
  assumes "certification_ok c d doc"
  shows "\<exists>s. compact_certification_text c doc = Some s \<and>
    (\<forall>acc. push_certification d s acc = Some (acc @ [Compact doc]))"
proof -
  obtain k t s where k: "key_string c (cc_issuer doc) = Some k" "key_from_base58 d k = Inr (cc_issuer doc)" "58 \<notin> set k"
    and t: "key_string c (cc_target doc) = Some t" "key_from_base58 d t = Inr (cc_target doc)" "58 \<notin> set t"
    and s: "sig_string c (cc_signature doc) = Some s" "sig_from_base64 d s = Inr (cc_signature doc)" "58 \<notin> set s"
    using assms by (auto simp: certification_ok_def key_field_ok_def sig_field_ok_def)
  have "split_on 58 (k @ 58 # t @ 58 # show_nat (cc_block_number doc) @ 58 # s) =
      [k, t, show_nat (cc_block_number doc), s]"
    using split_on_append k(3) t(3) show_nat_no_colon split_on_absent[OF s(3)] by simp
  then show ?thesis using assms
    by (simp add: compact_certification_text_def push_certification_def k t s ascii_def parse_show_nat
        certification_ok_def)
qed

lemma revocation_line_read:
  assumes "revocation_ok c d doc"
  shows "\<exists>s. compact_revocation_text c doc = Some s \<and>
    (\<forall>acc. push_revocation d s acc = Some (acc @ [Compact doc]))"
proof -
  obtain k s where k: "key_string c (cr_issuer doc) = Some k" "key_from_base58 d k = Inr (cr_issuer doc)" "58 \<notin> set k"
    and s: "sig_string c (cr_signature doc) = Some s" "sig_from_base64 d s = Inr (cr_signature doc)" "58 \<notin> set s"
    using assms by (auto simp: revocation_ok_def key_field_ok_def sig_field_ok_def)
  have "split_on 58 (k @ 58 # s) = [k, s]"
    using split_on_append k(3) split_on_absent[OF s(3)] by simp
  then show ?thesis
    by (simp add: compact_revocation_text_def push_revocation_def k s ascii_def)
qed

text \<open>
  C34: the documents of the web of trust that a block lists in compact form are read back: from the
  lines that the documents print, the reader of a block rebuilds the identities and the memberships
  with their full texts, and the certifications and the revocations in compact form, in the same
  order, when the fields contain no colon and the codecs read back what they print.
\<close>

theorem compact_documents_read_back:
  assumes "\<forall>doc \<in> set idtys. identity_built c d currency doc"
    and "\<forall>doc \<in> set mss. membership_built c d currency ms doc"
    and "\<forall>doc \<in> set certs. certification_ok c d doc" "\<forall>doc \<in> set revocs. revocation_ok c d doc"
  shows "\<exists>idty_lines ms_lines cert_lines revoc_lines.
    map_run (identity_line c) idtys = Some idty_lines \<and>
    parse_compact_identities c d currency idty_lines = Some (Inr idtys) \<and>
    map_run (membership_compact_text c) mss = Some ms_lines \<and>
    parse_compact_memberships c d currency ms ms_lines = Some (Inr mss) \<and>
    map_run (compact_certification_text c) certs = Some cert_lines \<and>
    parse_certifications_into_compact d cert_lines = Some (map Compact certs) \<and>
    map_run (compact_revocation_text c) revocs = Some revoc_lines \<and>
    parse_revocations_into_compact d revoc_lines = Some (map Compact revocs)"
proof -
  obtain il where il: "map_run (identity_line c) idtys = Some il"
      "collect_run (parse_compact_identity c d currency) il = Some (Inr idtys)"
    using collect_run_all[of idtys "identity_line c"] identity_line_read assms(1) by blast
  obtain ml where ml: "map_run (membership_compact_text c) mss = Some ml"
      "collect_run (parse_compact_membership c d currency ms) ml = Some (Inr mss)"
    using collect_run_all[of mss "membership_compact_text c"] membership_line_read assms(2) by blast
  have "\<forall>doc \<in> set certs. \<exists>s. compact_certification_text c doc = Some s \<and>
      (\<forall>acc. push_certification d s acc = Some (acc @ [Compact doc]))"
    using certification_line_read assms(3) by blast
  from push_all[OF this, of "[]"] obtain cl where cl: "map_run (compact_certification_text c) certs = Some cl"
      "fold_run (push_certification d) cl [] = Some (map Compact certs)" by auto
  have "\<forall>doc \<in> set revocs. \<exists>s. compact_revocation_text c doc = Some s \<and>
      (\<forall>acc. push_revocation d s acc = Some (acc @ [Compact doc]))"
    using revocation_line_read assms(4) by blast
  from push_all[OF this, of "[]"] obtain rl where rl: "map_run (compact_revocation_text c) revocs = Some rl"
      "fold_run (push_revocation d) rl [] = Some (map Compact revocs)" by auto
  show ?thesis
    using il ml cl rl
    by (simp add: parse_compact_identities_def parse_compact_memberships_def
        parse_certifications_into_compact_def parse_revocations_into_compact_def)
qed

lemma toy_fields:
  "key_field_ok toy_crypto toy_codecs (PubEd25519 (replicate 32 65))"
  "sig_field_ok toy_crypto toy_codecs (SigEd25519 (replicate 64 66))"
  by (simp_all add: key_field_ok_def sig_field_ok_def toy_crypto_def toy_codecs_def key_from_base58_def
      str_base58_to_32bytes_def base58_to_bytes_def sig_from_base64_def str_base64_to_64bytes_def)

definition example_certification :: compact_certification where
  "example_certification = \<lparr>cc_issuer = PubEd25519 (replicate 32 65), cc_target = PubEd25519 (replicate 32 65),
     cc_block_number = 17, cc_signature = SigEd25519 (replicate 64 66)\<rparr>"

lemma compact_documents_read_back_witness:
  "\<exists>idty lines cert_lines. i_username idty = ascii ''tic'' \<and>
     map_run (identity_line toy_crypto) [idty] = Some lines \<and>
     parse_compact_identities toy_crypto toy_codecs (ascii ''g1'') lines = Some (Inr [idty]) \<and>
     parse_certifications_into_compact toy_codecs cert_lines = Some [Compact example_certification]"
proof -
  obtain idty where idty: "identity_build_with_signature toy_crypto (ascii ''g1'') (PubEd25519 (replicate 32 65))
      (ascii ''tic'') blockstamp_default [SigEd25519 (replicate 64 66)] = Some idty"
    by (simp add: identity_build_with_signature_def identity_text_def toy_crypto_def)
  then have fields: "i_username idty = ascii ''tic''" "i_blockstamp idty = blockstamp_default"
    by (auto simp: identity_build_with_signature_def split: bind_splits)
  have bs: "blockstamp_wf blockstamp_default" "58 \<notin> set (ascii ''tic'')"
    by (simp_all add: blockstamp_wf_def blockstamp_default_def hash_wf_def hash_default_def list_all_iff ascii_def)
  have "\<forall>doc \<in> set [idty]. identity_built toy_crypto toy_codecs (ascii ''g1'') doc"
    using idty toy_fields bs by (auto simp: identity_built_def fields)
  moreover have "\<forall>doc \<in> set [example_certification]. certification_ok toy_crypto toy_codecs doc"
    using toy_fields by (simp add: certification_ok_def example_certification_def)
  ultimately show ?thesis
    using compact_documents_read_back[of "[idty]" toy_crypto toy_codecs "ascii ''g1''" "[]" MsIn
        "[example_certification]" "[]"] fields(1) by fastforce
qed

section \<open>Malformed compact documents\<close>

lemma push_certification_skips:
  "length (split_on 58 s) \<noteq> 4 \<Longrightarrow> push_certification d s acc = Some acc"
  by (auto simp: push_certification_def split: list.splits)

text \<open>
  The four readers treat a malformed line in four ways: a certification with another number of parts
  is dropped without a word, a membership is refused, an identity that lacks a part panics as soon
  as the missing part is read, and a certification whose key is invalid panics.
\<close>

lemma malformed_lines:
  assumes "length (split_on 58 s) \<noteq> 4" "length (split_on 58 m) \<noteq> 5"
    and "key_from_base58 d k = Inr key" "58 \<notin> set k"
    and "key_from_base58 d k' = Inl e" "58 \<notin> set k'" "58 \<notin> set t" "58 \<notin> set n" "58 \<notin> set sg"
  shows "parse_certifications_into_compact d (xs @ s # ys) = parse_certifications_into_compact d (xs @ ys)"
    and "parse_compact_memberships c d currency ms (m # ms_lines) = Some (Inl EMembershipWrongFormat)"
    and "parse_compact_identities c d currency (k # idty_lines) = None"
    and "parse_certifications_into_compact d ((k' @ 58 # t @ 58 # n @ 58 # sg) # ys) = None"
proof -
  show "parse_certifications_into_compact d (xs @ s # ys) = parse_certifications_into_compact d (xs @ ys)"
    by (simp add: parse_certifications_into_compact_def fold_run_append push_certification_skips[OF assms(1)])
  have "parse_compact_membership c d currency ms m = Some (Inl EMembershipWrongFormat)"
    using assms(2) by (auto simp: parse_compact_membership_def split: list.splits)
  then show "parse_compact_memberships c d currency ms (m # ms_lines) = Some (Inl EMembershipWrongFormat)"
    by (simp add: parse_compact_memberships_def)
  show "parse_compact_identities c d currency (k # idty_lines) = None"
    by (simp add: parse_compact_identities_def parse_compact_identity_def split_on_absent[OF assms(4)] vec_get_def assms(3))
  have "split_on 58 (k' @ 58 # t @ 58 # n @ 58 # sg) = [k', t, n, sg]"
    using split_on_append assms(6-8) split_on_absent[OF assms(9)] by simp
  then show "parse_certifications_into_compact d ((k' @ 58 # t @ 58 # n @ 58 # sg) # ys) = None"
    by (simp add: parse_certifications_into_compact_def push_certification_def assms(5))
qed

end
