(* ===== verification/Rules_Engine.thy ===== *)
theory Rules_Engine
  imports Prelude
begin

text \<open>
  The rules engine, \<open>lib/tools/rules-engine/src\<close>: numbered rules with one implementation for each
  version of the protocol in which they change, and protocols that name the rules to apply, in
  series or in parallel. A \<open>BTreeMap\<close> is the list of its entries in the order of the keys. The
  parallel groups run on the thread pool of the crate rayon, which reports one of the errors when
  several rules fail, without saying which: such a computation is the set of its outcomes.
\<close>

section \<open>Rules\<close>

type_synonym ('e, 'a) res = "('e + 'a) run"

text \<open>A rule reads its data, or updates them in place.\<close>

datatype ('d, 'e) rule_fn =
  Ref "'d \<Rightarrow> ('e, unit) res"
| RefMut "'d \<Rightarrow> (('e + unit) \<times> 'd) run"

record ('d, 'e) rule =
  rule_versions :: "(nat \<times> ('d, 'e) rule_fn) list"

datatype rule_without_impl = RuleWithoutImpl nat

record 'e rule_error =
  re_rule_number :: nat
  re_cause :: 'e

datatype 'e engine_error =
  RuleError "'e rule_error"
| ProtocolVersionNotExist nat
| RuleNotExist nat nat
| MutRuleInPar nat nat
| RuleTooRecent nat nat

definition rule_new :: "nat \<Rightarrow> (nat \<times> ('d, 'e) rule_fn) list \<Rightarrow> rule_without_impl + ('d, 'e) rule" where
  "rule_new n versions =
     (if versions = [] then Inl (RuleWithoutImpl n) else Inr \<lparr>rule_versions = versions\<rparr>)"

text \<open>\<open>BTreeMap::range(..=v).last()\<close>: the entry with the greatest key up to \<open>v\<close>.\<close>

definition range_last :: "(nat \<times> 'b) list \<Rightarrow> nat \<Rightarrow> (nat \<times> 'b) option" where
  "range_last m v = (case filter (\<lambda>e. fst e \<le> v) m of [] \<Rightarrow> None | es \<Rightarrow> Some (last es))"

definition rule_failed :: "nat \<Rightarrow> 'e + unit \<Rightarrow> 'e engine_error + unit" where
  "rule_failed n = map_sum (\<lambda>e. RuleError \<lparr>re_rule_number = n, re_cause = e\<rparr>) id"

definition execute :: "('d, 'e) rule \<Rightarrow> nat \<Rightarrow> nat \<Rightarrow> 'd \<Rightarrow> ('e engine_error, unit) res" where
  "execute r v n d = (case range_last (rule_versions r) v of
       Some (_, Ref f) \<Rightarrow> map_option (rule_failed n) (f d)
     | Some (_, RefMut _) \<Rightarrow> Some (Inl (MutRuleInPar n v))
     | None \<Rightarrow> Some (Inl (RuleTooRecent n v)))"

definition execute_mut ::
  "('d, 'e) rule \<Rightarrow> nat \<Rightarrow> nat \<Rightarrow> 'd \<Rightarrow> (('e engine_error + unit) \<times> 'd) run" where
  "execute_mut r v n d = (case range_last (rule_versions r) v of
       Some (_, Ref f) \<Rightarrow> map_option (\<lambda>x. (rule_failed n x, d)) (f d)
     | Some (_, RefMut f) \<Rightarrow> map_option (\<lambda>(x, d'). (rule_failed n x, d')) (f d)
     | None \<Rightarrow> Some (Inl (RuleTooRecent n v), d))"

section \<open>Protocols\<close>

datatype rules_group = Ser "nat list" | Par "rules_group list"

definition group_s1 :: "nat \<Rightarrow> rules_group" where
  "group_s1 n = Ser [n]"

definition group_pr :: "nat list \<Rightarrow> rules_group" where
  "group_pr ns = Par (map group_s1 ns)"

type_synonym protocol_rules = "rules_group list"

definition rules_of_numbers :: "nat list \<Rightarrow> protocol_rules" where
  "rules_of_numbers ns = [Ser ns]"

type_synonym protocol = "(nat \<times> protocol_rules) list"

definition protocol_get :: "protocol \<Rightarrow> nat \<Rightarrow> protocol_rules option" where
  "protocol_get p v = map_of p v"

section \<open>The engine\<close>

record ('d, 'e) rules_engine =
  all_rules :: "(nat \<times> ('d, 'e) rule) list"

definition apply_rule_ref ::
  "('d, 'e) rules_engine \<Rightarrow> nat \<Rightarrow> nat \<Rightarrow> 'd \<Rightarrow> ('e engine_error, unit) res" where
  "apply_rule_ref eng v n d = (case map_of (all_rules eng) n of
       Some r \<Rightarrow> execute r v n d
     | None \<Rightarrow> Some (Inl (RuleNotExist n v)))"

definition apply_rule_mut ::
  "('d, 'e) rules_engine \<Rightarrow> nat \<Rightarrow> nat \<Rightarrow> 'd \<Rightarrow> (('e engine_error + unit) \<times> 'd) run" where
  "apply_rule_mut eng v n d = (case map_of (all_rules eng) n of
       Some r \<Rightarrow> execute_mut r v n d
     | None \<Rightarrow> Some (Inl (RuleNotExist n v), d))"

text \<open>\<open>collect\<close> into a \<open>Result\<close>: a sequential iterator stops at the first error.\<close>

fun collect_ser :: "('a \<Rightarrow> ('e, unit) res) \<Rightarrow> 'a list \<Rightarrow> ('e, unit) res" where
  "collect_ser f [] = Some (Inr ())"
| "collect_ser f (x # xs) = try_then (f x) (\<lambda>_. collect_ser f xs)"

text \<open>
  A parallel iterator succeeds when every element does; otherwise it returns the failure of any
  one of the elements that fail, be it an error or a panic.
\<close>

definition collect_par :: "('e, unit) res set list \<Rightarrow> ('e, unit) res set" where
  "collect_par outcomes =
     (if \<forall>os \<in> set outcomes. Some (Inr ()) \<in> os then {Some (Inr ())} else {}) \<union>
     (\<Union> (set outcomes) - {Some (Inr ())})"

fun apply_rules_group_ref ::
  "('d, 'e) rules_engine \<Rightarrow> nat \<Rightarrow> rules_group \<Rightarrow> 'd \<Rightarrow> ('e engine_error, unit) res set" where
  "apply_rules_group_ref eng v (Ser ns) d = {collect_ser (\<lambda>n. apply_rule_ref eng v n d) ns}"
| "apply_rules_group_ref eng v (Par gs) d =
     collect_par (map (\<lambda>g. apply_rules_group_ref eng v g d) gs)"

text \<open>A group at the top of a protocol: only there may the rules in series update the data.\<close>

fun apply_top_group ::
  "('d, 'e) rules_engine \<Rightarrow> nat \<Rightarrow> rules_group \<Rightarrow> 'd \<Rightarrow> (('e engine_error + unit) \<times> 'd) run set" where
  "apply_top_group eng v (Ser ns) d = {fold_res (apply_rule_mut eng v) ns d}"
| "apply_top_group eng v (Par gs) d =
     map_option (\<lambda>r. (r, d)) ` collect_par (map (\<lambda>g. apply_rules_group_ref eng v g d) gs)"

definition on_success ::
  "(('e + unit) \<times> 'd) run \<Rightarrow> ('d \<Rightarrow> (('e + unit) \<times> 'd) run set) \<Rightarrow> (('e + unit) \<times> 'd) run set" where
  "on_success r f = (case r of Some (Inr _, d) \<Rightarrow> f d | _ \<Rightarrow> {r})"

fun apply_groups ::
  "('d, 'e) rules_engine \<Rightarrow> nat \<Rightarrow> rules_group list \<Rightarrow> 'd \<Rightarrow> (('e engine_error + unit) \<times> 'd) run set" where
  "apply_groups eng v [] d = {Some (Inr (), d)}"
| "apply_groups eng v (g # gs) d = (\<Union>r \<in> apply_top_group eng v g d. on_success r (apply_groups eng v gs))"

definition apply_protocol ::
  "('d, 'e) rules_engine \<Rightarrow> protocol \<Rightarrow> nat \<Rightarrow> 'd \<Rightarrow> (('e engine_error + unit) \<times> 'd) run set" where
  "apply_protocol eng p v d = (case protocol_get p v of
       Some rules \<Rightarrow> apply_groups eng v rules d
     | None \<Rightarrow> {Some (Inl (ProtocolVersionNotExist v), d)})"

section \<open>The version of a rule\<close>

lemma range_last_SomeD:
  assumes "sorted_wrt (<) (map fst m)" "range_last m v = Some (k, f)"
  shows "map_of m k = Some f \<and> k \<le> v \<and> (\<forall>k' \<in> fst ` set m. k' \<le> v \<longrightarrow> k' \<le> k)"
proof -
  let ?es = "filter (\<lambda>e. fst e \<le> v) m"
  have es: "?es \<noteq> []" "last ?es = (k, f)"
    using assms(2) by (auto simp: range_last_def split: list.splits)
  have m: "distinct (map fst m)" "sorted (map fst m)"
    using assms(1) by (simp_all add: strict_sorted_iff)
  have mem: "(k, f) \<in> set ?es" using last_in_set[OF es(1)] es(2) by simp
  have "sorted (map fst ?es)" using m(2) by (rule sorted_filter)
  then have "\<forall>x \<in> set (map fst ?es). x \<le> last (map fst ?es)"
    by (cases ?es rule: rev_cases) (auto simp: sorted_append)
  then have "\<forall>x \<in> set ?es. fst x \<le> k" using es by (simp add: last_map)
  then show ?thesis using mem m(1) by (auto simp: map_of_eq_Some_iff)
qed

lemma range_last_None: "range_last m v = None \<longleftrightarrow> (\<forall>k \<in> fst ` set m. v < k)"
proof -
  have "range_last m v = None \<longleftrightarrow> filter (\<lambda>e. fst e \<le> v) m = []"
    by (simp add: range_last_def split: list.splits)
  then show ?thesis by (auto simp: filter_empty_conv not_le)
qed

section \<open>Serial and parallel runs\<close>

abbreviation ok :: "('e, unit) res" where
  "ok \<equiv> Some (Inr ())"

text \<open>The rules that a group names.\<close>

fun leaf_rules :: "rules_group \<Rightarrow> nat list" where
  "leaf_rules (Ser ns) = ns"
| "leaf_rules (Par gs) = concat (map leaf_rules gs)"

lemma collect_ser_ok: "collect_ser f xs = ok \<longleftrightarrow> (\<forall>x \<in> set xs. f x = ok)"
  by (induction xs) (auto simp: try_then_returns)

lemma collect_ser_fails: "collect_ser f xs \<noteq> ok \<Longrightarrow> \<exists>x \<in> set xs. collect_ser f xs = f x \<and> f x \<noteq> ok"
proof (induction xs)
  case (Cons x xs)
  show ?case
  proof (cases "f x = ok")
    case True
    then show ?thesis using Cons by auto
  next
    case False
    then have "collect_ser f (x # xs) = f x" by (auto simp: try_then_def split: bind_splits sum.splits)
    then show ?thesis using False by auto
  qed
qed simp

lemma collect_par_ok: "ok \<in> collect_par oss \<longleftrightarrow> (\<forall>os \<in> set oss. ok \<in> os)"
  by (auto simp: collect_par_def)

lemma collect_par_fails: "r \<in> collect_par oss \<Longrightarrow> r \<noteq> ok \<Longrightarrow> \<exists>os \<in> set oss. r \<in> os"
  by (auto simp: collect_par_def split: if_splits)

lemma group_ref_ok:
  "ok \<in> apply_rules_group_ref eng v g d \<longleftrightarrow> (\<forall>n \<in> set (leaf_rules g). apply_rule_ref eng v n d = ok)"
proof (induction g)
  case (Ser ns)
  show ?case using collect_ser_ok[of "\<lambda>n. apply_rule_ref eng v n d" ns] by auto
next
  case (Par gs)
  then show ?case by (auto simp: collect_par_ok)
qed

lemma group_ref_fails:
  "r \<in> apply_rules_group_ref eng v g d \<Longrightarrow> r \<noteq> ok \<Longrightarrow>
     \<exists>n \<in> set (leaf_rules g). apply_rule_ref eng v n d = r"
proof (induction g)
  case (Ser ns)
  then show ?case using collect_ser_fails[of "\<lambda>n. apply_rule_ref eng v n d" ns] by force
next
  case (Par gs)
  then show ?case using collect_par_fails[of r] by fastforce
qed

lemma group_ref_nonempty: "apply_rules_group_ref eng v g d \<noteq> {}"
proof (induction g)
  case (Par gs)
  show ?case
  proof (cases "\<forall>g \<in> set gs. ok \<in> apply_rules_group_ref eng v g d")
    case True
    then show ?thesis by (auto simp: collect_par_def)
  next
    case False
    then obtain g where g: "g \<in> set gs" "ok \<notin> apply_rules_group_ref eng v g d" by blast
    obtain r where "r \<in> apply_rules_group_ref eng v g d" using Par[OF g(1)] by blast
    then have "r \<in> collect_par (map (\<lambda>g. apply_rules_group_ref eng v g d) gs)"
      using g by (auto simp: collect_par_def)
    then show ?thesis by auto
  qed
qed simp

lemma group_ref_deterministic:
  "ok \<in> apply_rules_group_ref eng v g d \<Longrightarrow> apply_rules_group_ref eng v g d = {ok}"
  using group_ref_ok[of eng v g d] group_ref_fails[of _ eng v g d] by fastforce

text \<open>What a group at the top of a protocol does, seen as one of its members.\<close>

lemma top_par: "apply_top_group eng v (Par gs) d = map_option (\<lambda>r. (r, d)) ` apply_rules_group_ref eng v (Par gs) d"
  by simp

lemma apply_top_group_nonempty: "apply_top_group eng v g d \<noteq> {}"
proof (cases g)
  case (Par gs)
  show ?thesis unfolding Par top_par using group_ref_nonempty[of eng v "Par gs" d] by simp
qed simp

lemma apply_top_group_deterministic:
  assumes "Some (Inr (), d') \<in> apply_top_group eng v g d"
  shows "apply_top_group eng v g d = {Some (Inr (), d')}"
proof (cases g)
  case (Par gs)
  with assms obtain r where r: "r \<in> apply_rules_group_ref eng v (Par gs) d"
      "Some (Inr (), d') = map_option (\<lambda>r. (r, d)) r" unfolding Par top_par by blast
  then have "r = ok" "d' = d" by (cases r; auto)+
  then show ?thesis
    using r(1) group_ref_deterministic[of eng v "Par gs" d] unfolding Par top_par by simp
qed (use assms in simp)

lemma apply_groups_nonempty: "apply_groups eng v gs d \<noteq> {}"
proof (induction gs arbitrary: d)
  case (Cons g gs)
  obtain r where r: "r \<in> apply_top_group eng v g d" using apply_top_group_nonempty[of eng v g d] by blast
  have "on_success r (apply_groups eng v gs) \<noteq> {}"
    using Cons.IH by (auto simp: on_success_def split: option.splits sum.splits)
  then show ?case using r by auto
qed simp

lemma on_success_returns:
  assumes "Some (Inr (), d') \<in> on_success r f"
  obtains d1 where "r = Some (Inr (), d1)" "Some (Inr (), d') \<in> f d1"
  using assms by (auto simp: on_success_def split: option.splits sum.splits prod.splits)

lemma apply_groups_deterministic:
  "Some (Inr (), d') \<in> apply_groups eng v gs d \<Longrightarrow> apply_groups eng v gs d = {Some (Inr (), d')}"
proof (induction gs arbitrary: d)
  case (Cons g gs)
  then obtain r where r: "r \<in> apply_top_group eng v g d"
      "Some (Inr (), d') \<in> on_success r (apply_groups eng v gs)" by auto
  from r(2) obtain d1 where d1: "r = Some (Inr (), d1)" "Some (Inr (), d') \<in> apply_groups eng v gs d1"
    by (rule on_success_returns)
  then show ?case
    using r(1) Cons.IH[of d1] apply_top_group_deterministic[of d1 eng v g d] by (simp add: on_success_def)
qed simp

section \<open>Protocols as series of rules\<close>

text \<open>A rule whose implementation in force does not update the data.\<close>

definition reads_only :: "('d, 'e) rules_engine \<Rightarrow> nat \<Rightarrow> nat \<Rightarrow> bool" where
  "reads_only eng v n = (case map_of (all_rules eng) n of
       Some r \<Rightarrow> (case range_last (rule_versions r) v of Some (_, RefMut _) \<Rightarrow> False | _ \<Rightarrow> True)
     | None \<Rightarrow> True)"

definition par_read_only :: "('d, 'e) rules_engine \<Rightarrow> nat \<Rightarrow> rules_group \<Rightarrow> bool" where
  "par_read_only eng v g = (case g of Ser _ \<Rightarrow> True | Par _ \<Rightarrow> list_all (reads_only eng v) (leaf_rules g))"

definition in_series :: "nat \<Rightarrow> protocol_rules \<Rightarrow> protocol" where
  "in_series v gs = [(v, rules_of_numbers (concat (map leaf_rules gs)))]"

lemma reads_only_same:
  "reads_only eng v n \<Longrightarrow> apply_rule_mut eng v n d = map_option (\<lambda>r. (r, d)) (apply_rule_ref eng v n d)"
  by (auto simp: reads_only_def apply_rule_mut_def apply_rule_ref_def execute_def execute_mut_def
      option.map_comp o_def split: option.splits rule_fn.splits)

lemma ok_reads_only: "apply_rule_ref eng v n d = ok \<Longrightarrow> reads_only eng v n"
  by (auto simp: reads_only_def apply_rule_ref_def execute_def split: option.splits rule_fn.splits)

lemma fold_res_append:
  "fold_res f (xs @ ys) s = and_then (fold_res f xs s) (\<lambda>_. fold_res f ys)"
  by (induction xs arbitrary: s) (auto simp: and_then_def split: bind_splits sum.splits)

lemma fold_res_readers:
  assumes "\<And>n. n \<in> set ns \<Longrightarrow> f n d = map_option (\<lambda>r. (r, d)) (g n)"
  shows "fold_res f ns d = Some (Inr (), d') \<longleftrightarrow> d' = d \<and> (\<forall>n \<in> set ns. g n = ok)"
  using assms
proof (induction ns)
  case (Cons n ns)
  have "f n d = map_option (\<lambda>r. (r, d)) (g n)" using Cons.prems by simp
  then show ?case using Cons.IH Cons.prems
    by (cases "g n" rule: option.exhaust; cases "the (g n)"; auto)
qed auto

lemma paired_ok: "Some (Inr (), d') = map_option (\<lambda>r. (r, d)) x \<longleftrightarrow> x = ok \<and> d' = d"
  by (cases x) auto

lemma top_group_as_series:
  "Some (Inr (), d') \<in> apply_top_group eng v g d \<longleftrightarrow>
     par_read_only eng v g \<and> fold_res (apply_rule_mut eng v) (leaf_rules g) d = Some (Inr (), d')"
proof (cases g)
  case (Par gs)
  have lhs: "Some (Inr (), d') \<in> apply_top_group eng v g d \<longleftrightarrow>
      d' = d \<and> (\<forall>n \<in> set (leaf_rules g). apply_rule_ref eng v n d = ok)"
    unfolding Par top_par group_ref_ok[symmetric] image_iff paired_ok by blast
  have "fold_res (apply_rule_mut eng v) (leaf_rules g) d = Some (Inr (), d') \<longleftrightarrow>
      d' = d \<and> (\<forall>n \<in> set (leaf_rules g). apply_rule_ref eng v n d = ok)" if "par_read_only eng v g"
  proof -
    have "reads_only eng v n" if "n \<in> set (leaf_rules g)" for n
      using \<open>par_read_only eng v g\<close> that unfolding par_read_only_def Par list_all_iff by simp blast
    then show ?thesis by (intro fold_res_readers reads_only_same)
  qed
  moreover have "\<forall>n \<in> set (leaf_rules g). apply_rule_ref eng v n d = ok \<Longrightarrow> par_read_only eng v g"
    using ok_reads_only[of eng v _ d] by (auto simp: par_read_only_def Par list_all_iff)
  ultimately show ?thesis unfolding lhs by blast
qed (auto simp: par_read_only_def)

lemma groups_as_series:
  "Some (Inr (), d') \<in> apply_groups eng v gs d \<longleftrightarrow> list_all (par_read_only eng v) gs \<and>
     fold_res (apply_rule_mut eng v) (concat (map leaf_rules gs)) d = Some (Inr (), d')"
proof (induction gs arbitrary: d)
  case (Cons g gs)
  have "Some (Inr (), d') \<in> apply_groups eng v (g # gs) d \<longleftrightarrow>
      (\<exists>d1. Some (Inr (), d1) \<in> apply_top_group eng v g d \<and> Some (Inr (), d') \<in> apply_groups eng v gs d1)"
    by (auto elim!: on_success_returns intro!: bexI[of _ "Some (Inr (), _)"]) (auto simp: on_success_def)
  also have "\<dots> \<longleftrightarrow> list_all (par_read_only eng v) (g # gs) \<and>
      (\<exists>d1. fold_res (apply_rule_mut eng v) (leaf_rules g) d = Some (Inr (), d1) \<and>
        fold_res (apply_rule_mut eng v) (concat (map leaf_rules gs)) d1 = Some (Inr (), d'))"
    unfolding top_group_as_series Cons.IH by auto
  finally show ?case
    by (auto simp: fold_res_append and_then_def split: bind_splits sum.splits)
qed auto

text \<open>
  C35: the schedule of the parallel groups does not matter, and a mutable rule never runs in
  parallel: a version of a protocol can succeed with some data exactly when the rules of its
  parallel groups only read the data and the same rules applied one after the other, in the order
  of the protocol, succeed with these data; it then has no other outcome.
\<close>

theorem protocol_as_series:
  assumes "protocol_get p v = Some gs"
  shows "(Some (Inr (), d') \<in> apply_protocol eng p v d \<longleftrightarrow> apply_protocol eng p v d = {Some (Inr (), d')}) \<and>
      (apply_protocol eng p v d = {Some (Inr (), d')} \<longleftrightarrow> list_all (par_read_only eng v) gs \<and>
        apply_protocol eng (in_series v gs) v d = {Some (Inr (), d')})"
proof -
  have series: "apply_protocol eng (in_series v gs) v d = apply_groups eng v [Ser (concat (map leaf_rules gs))] d"
    by (simp add: apply_protocol_def in_series_def protocol_get_def rules_of_numbers_def)
  have ser: "list_all (par_read_only eng v) [Ser ns]" for ns by (simp add: par_read_only_def)
  have only: "X = {Some (Inr (), d')} \<longleftrightarrow> Some (Inr (), d') \<in> X" if "X = apply_groups eng v hs d" for X hs
    using apply_groups_deterministic[of d' eng v hs d] unfolding that by blast
  have prot: "apply_protocol eng p v d = apply_groups eng v gs d"
    by (simp add: apply_protocol_def assms)
  have "list_all (par_read_only eng v) gs \<and> Some (Inr (), d') \<in> apply_protocol eng (in_series v gs) v d \<longleftrightarrow>
      Some (Inr (), d') \<in> apply_protocol eng p v d"
    unfolding series prot groups_as_series using ser by simp
  then show ?thesis unfolding only[OF series] only[OF prot] by blast
qed

text \<open>
  The rules of the tests of the engine: rule 2 increments a zero, rule 3 accepts a one from the
  version 2 of the protocol on.
\<close>

definition test_engine :: "(nat, unit) rules_engine" where
  "test_engine = \<lparr>all_rules =
     [(2, \<lparr>rule_versions = [(1, RefMut (\<lambda>i. Some (if i = 0 then (Inr (), i + 1) else (Inl (), i))))]\<rparr>),
      (3, \<lparr>rule_versions = [(2, Ref (\<lambda>i. Some (if i = 1 then Inr () else Inl ())))]\<rparr>)]\<rparr>"

lemma protocol_as_series_witness:
  "apply_protocol test_engine [(2, [Ser [2], group_pr [3, 3]])] 2 0 = {Some (Inr (), 1)}"
proof -
  have get: "protocol_get [(2, [Ser [2], group_pr [3, 3]])] 2 = Some [Ser [2], group_pr [3, 3]]"
    by (simp add: protocol_get_def)
  have "apply_protocol test_engine (in_series 2 [Ser [2], group_pr [3, 3]]) 2 0 = {Some (Inr (), 1)}"
    by (simp add: apply_protocol_def in_series_def protocol_get_def rules_of_numbers_def group_pr_def
        group_s1_def apply_rule_mut_def test_engine_def execute_mut_def range_last_def rule_failed_def
        on_success_def)
  moreover have "list_all (par_read_only test_engine 2) [Ser [2], group_pr [3, 3]]"
    by (simp add: par_read_only_def group_pr_def group_s1_def reads_only_def test_engine_def range_last_def)
  ultimately show ?thesis
    using protocol_as_series[OF get, of 1 test_engine 0] by (simp only: conj_absorb simp_thms)
qed

section \<open>Errors\<close>

text \<open>Every error that a version of a protocol reports comes from a rule it names.\<close>

lemma top_par_error:
  assumes "Some (Inl e, d') \<in> apply_top_group eng v (Par gs) d"
  shows "d' = d \<and> (\<exists>n \<in> set (leaf_rules (Par gs)). apply_rule_ref eng v n d = Some (Inl e))"
proof -
  from assms obtain r where r: "r \<in> apply_rules_group_ref eng v (Par gs) d"
      "Some (Inl e, d') = map_option (\<lambda>r. (r, d)) r" unfolding top_par by blast
  then have "r = Some (Inl e)" "d' = d" by (cases r; auto)+
  then show ?thesis using group_ref_fails[OF r(1)] by simp
qed

lemma mutable_rule_refused:
  assumes "map_of (all_rules eng) n = Some r" "range_last (rule_versions r) v = Some (k, RefMut f)"
  shows "apply_rule_ref eng v n d = Some (Inl (MutRuleInPar n v))"
  using assms by (simp add: apply_rule_ref_def execute_def)

text \<open>The implementation in force is the latest that is not newer than the protocol.\<close>

lemma rule_version_in_force:
  assumes "rule_new n versions = Inr r" "sorted_wrt (<) (map fst versions)"
    and "map_of versions k = Some (Ref f)" "k \<le> v"
    and "\<And>k'. k' \<in> fst ` set versions \<Longrightarrow> k' \<le> v \<Longrightarrow> k' \<le> k"
  shows "execute r v n d = map_option (rule_failed n) (f d)"
proof -
  have r: "rule_versions r = versions" using assms(1) by (auto simp: rule_new_def split: if_splits)
  have k: "k \<in> fst ` set versions" using assms(3) by (force dest: map_of_SomeD)
  then have "range_last versions v \<noteq> None" using assms(4) by (auto simp: range_last_None not_less)
  then obtain k1 f1 where 1: "range_last versions v = Some (k1, f1)" by auto
  have "map_of versions k1 = Some f1 \<and> k1 \<le> v \<and> k \<le> k1"
    using range_last_SomeD[OF assms(2) 1] k assms(4) by blast
  moreover from this have "k1 \<le> k" using assms(5) by (force dest: map_of_SomeD)
  ultimately have "k1 = k" "f1 = Ref f" using assms(3) by auto
  then show ?thesis by (simp add: execute_def r 1)
qed

end
