(* ===== verification/Ws2p1_Json.thy ===== *)
theory Ws2p1_Json
  imports Block_Parsers
begin

text \<open>
  The JSON format of the first version of the peer to peer protocol,
  \<open>lib/modules/ws2p-v1-legacy/src\<close>: its readers of blocks and of the documents of a block
  (\<open>parsers\<close>) and its writers (\<open>serializers\<close>), with the string object of a block
  (\<open>lib/tools/documents/src/documents/block.rs\<close>).

  The readers return \<open>None\<close> on a malformed value and panic on some of them: their results are of
  type \<open>'a option run\<close>. Reading a text as JSON is the crate \<open>serde_json\<close>, an argument.
\<close>

section \<open>Values\<close>

text \<open>The operator \<open>?\<close> on an option.\<close>

definition opt_then :: "'a option run \<Rightarrow> ('a \<Rightarrow> 'b option run) \<Rightarrow> 'b option run" where
  "opt_then m f = do { r \<leftarrow> m; (case r of None \<Rightarrow> Some None | Some v \<Rightarrow> f v) }"

lemma opt_then_simps [simp]:
  "opt_then None f = None"
  "opt_then (Some None) f = Some None"
  "opt_then (Some (Some v)) f = f v"
  by (simp_all add: opt_then_def)

text \<open>A loop that returns at the first \<open>None\<close>, and may panic.\<close>

fun collect_opt :: "('a \<Rightarrow> 'b option run) \<Rightarrow> 'a list \<Rightarrow> 'b list option run" where
  "collect_opt f [] = Some (Some [])"
| "collect_opt f (x # xs) = opt_then (f x) (\<lambda>y. opt_then (collect_opt f xs) (\<lambda>ys. Some (Some (y # ys))))"

fun json_as_array :: "json_value \<Rightarrow> json_value list option" where
  "json_as_array (JArray vs) = Some vs"
| "json_as_array _ = None"

fun json_is_object :: "json_value \<Rightarrow> bool" where
  "json_is_object (JObject _) = True"
| "json_is_object _ = False"

fun json_as_i64 :: "json_value \<Rightarrow> int option" where
  "json_as_i64 (JInt i) = (if - (2 ^ 63) \<le> i \<and> i < 2 ^ 63 then Some i else None)"
| "json_as_i64 _ = None"

text \<open>The cast of an \<open>i64\<close> to a \<open>u64\<close>.\<close>

definition as_u64 :: "int \<Rightarrow> nat" where
  "as_u64 i = nat (i mod 2 ^ 64)"

definition json_str_or_empty :: "json_value \<Rightarrow> ustring" where
  "json_str_or_empty v = (case json_as_str v of Some s \<Rightarrow> s | None \<Rightarrow> [])"

definition ok_opt :: "'e + 'a \<Rightarrow> 'a option" where
  "ok_opt r = (case r of Inr v \<Rightarrow> Some v | Inl _ \<Rightarrow> None)"

lemma ok_opt_simps [simp]: "ok_opt (Inr v) = Some v" "ok_opt (Inl e) = None"
  by (simp_all add: ok_opt_def)

definition field_str :: "string \<Rightarrow> json_value \<Rightarrow> ustring option" where
  "field_str key v = json_get key v \<bind> json_as_str"

definition field_u64 :: "string \<Rightarrow> json_value \<Rightarrow> nat option" where
  "field_u64 key v = json_get key v \<bind> json_as_u64"

definition field_i64 :: "string \<Rightarrow> json_value \<Rightarrow> int option" where
  "field_i64 key v = json_get key v \<bind> json_as_i64"

definition field_array :: "string \<Rightarrow> json_value \<Rightarrow> json_value list option" where
  "field_array key v = json_get key v \<bind> json_as_array"

lemmas field_defs = field_str_def field_u64_def field_i64_def field_array_def

section \<open>Readers\<close>

text \<open>A transaction, whose currency is an argument; each list is read to its end before the next one.\<close>

definition v1_parse_transaction ::
  "crypto \<Rightarrow> codecs \<Rightarrow> doc_pest \<Rightarrow> ustring \<Rightarrow> json_value \<Rightarrow> transaction_document option run" where
  "v1_parse_transaction c d pest currency source =
     opt_then (Some (field_str ''blockstamp'' source)) (\<lambda>b_text.
     opt_then (map_option ok_opt (blockstamp_from_string b_text)) (\<lambda>b.
     opt_then (Some (field_i64 ''locktime'' source)) (\<lambda>locktime.
     opt_then (Some (field_array ''issuers'' source)) (\<lambda>issuers_array.
     opt_then (collect_opt (\<lambda>v. Some (json_as_str v \<bind> ok_opt \<circ> key_from_base58 d)) issuers_array) (\<lambda>issuers.
     opt_then (Some (field_array ''inputs'' source)) (\<lambda>inputs_array.
     opt_then (collect_opt (\<lambda>v. opt_then (Some (json_as_str v)) (map_option ok_opt \<circ> input_from_str d pest))
       inputs_array) (\<lambda>inputs.
     opt_then (Some (field_array ''unlocks'' source)) (\<lambda>unlocks_array.
     opt_then (collect_opt (\<lambda>v. opt_then (Some (json_as_str v)) (map_option ok_opt \<circ> unlocks_from_str pest))
       unlocks_array) (\<lambda>unlocks.
     opt_then (Some (field_array ''outputs'' source)) (\<lambda>outputs_array.
     opt_then (collect_opt (\<lambda>v. opt_then (Some (json_as_str v)) (map_option ok_opt \<circ> output_from_str d pest))
       outputs_array) (\<lambda>outputs.
     opt_then (Some (field_array ''signatures'' source)) (\<lambda>signatures_array.
     opt_then (collect_opt (\<lambda>v. Some (json_as_str v \<bind> ok_opt \<circ> sig_from_base64 d)) signatures_array) (\<lambda>signatures.
     opt_then (Some (field_str ''comment'' source)) (\<lambda>comment.
     opt_then (Some (field_str ''hash'' source)) (\<lambda>hash_text.
     opt_then (map_option ok_opt (from_hex hash_text)) (\<lambda>h.
       map_option Some (tx_build_with_signature c currency b (as_u64 locktime) issuers inputs unlocks outputs
         comment (Some h) signatures)))))))))))))))))"

text \<open>The keys of the excluded members: anything else panics.\<close>

definition parse_exclusions_from_json_value :: "codecs \<Rightarrow> json_value list \<Rightarrow> pub_key list run" where
  "parse_exclusions_from_json_value d =
     map_run (\<lambda>exclusion. do { s \<leftarrow> json_as_str exclusion; expect (key_from_base58 d s) })"

text \<open>Memberships: a wrong number of parts is an error, a malformed part panics.\<close>

datatype membership_parse_error = MembershipWrongFormat

definition membership_from_json ::
  "crypto \<Rightarrow> codecs \<Rightarrow> ustring \<Rightarrow> membership_type \<Rightarrow> json_value \<Rightarrow> (membership_parse_error + membership_document) run" where
  "membership_from_json c d currency ms membership = do {
     s \<leftarrow> json_as_str membership;
     (case split_on 58 s of
        [key_text, sig_text, b_text, identity_b_text, username] \<Rightarrow> do {
          issuer \<leftarrow> expect (key_from_base58 d key_text);
          b \<leftarrow> blockstamp_from_string b_text \<bind> expect;
          identity_b \<leftarrow> blockstamp_from_string identity_b_text \<bind> expect;
          sig \<leftarrow> expect (sig_from_base64 d sig_text);
          map_option Inr (membership_build_with_signature c currency issuer b ms username identity_b [sig])
        }
      | _ \<Rightarrow> Some (Inl MembershipWrongFormat))
   }"

definition parse_memberships_from_json_value ::
  "crypto \<Rightarrow> codecs \<Rightarrow> ustring \<Rightarrow> membership_type \<Rightarrow> json_value list \<Rightarrow>
   (membership_parse_error + membership_document) list run" where
  "parse_memberships_from_json_value c d currency ms = map_run (membership_from_json c d currency ms)"

definition v1_parse_memberships ::
  "(ustring \<Rightarrow> json_value option) \<Rightarrow> crypto \<Rightarrow> codecs \<Rightarrow> ustring \<Rightarrow> membership_type \<Rightarrow> ustring \<Rightarrow>
   membership_document list option run" where
  "v1_parse_memberships json_read c d currency ms json_datas = do {
     raw_memberships \<leftarrow> json_read json_datas;
     (case json_as_array raw_memberships of
        Some array_memberships \<Rightarrow> do {
          rs \<leftarrow> parse_memberships_from_json_value c d currency ms array_memberships;
          map_option Some (map_run expect rs)
        }
      | None \<Rightarrow> Some None)
   }"

datatype identity_parse_error = IdentityWrongFormat

definition identity_from_json ::
  "crypto \<Rightarrow> codecs \<Rightarrow> ustring \<Rightarrow> json_value \<Rightarrow> (identity_parse_error + identity_document) run" where
  "identity_from_json c d currency idty = do {
     s \<leftarrow> json_as_str idty;
     (case split_on 58 s of
        [key_text, sig_text, b_text, username] \<Rightarrow> do {
          issuer \<leftarrow> expect (key_from_base58 d key_text);
          b \<leftarrow> blockstamp_from_string b_text \<bind> expect;
          sig \<leftarrow> expect (sig_from_base64 d sig_text);
          map_option Inr (identity_build_with_signature c currency issuer username b [sig])
        }
      | _ \<Rightarrow> Some (Inl IdentityWrongFormat))
   }"

definition parse_identities_from_json_value ::
  "crypto \<Rightarrow> codecs \<Rightarrow> ustring \<Rightarrow> json_value list \<Rightarrow> (identity_parse_error + identity_document) list run" where
  "parse_identities_from_json_value c d currency = map_run (identity_from_json c d currency)"

definition v1_parse_identities ::
  "(ustring \<Rightarrow> json_value option) \<Rightarrow> crypto \<Rightarrow> codecs \<Rightarrow> ustring \<Rightarrow> ustring \<Rightarrow> identity_document list option run" where
  "v1_parse_identities json_read c d currency json_datas = do {
     raw_idties \<leftarrow> json_read json_datas;
     (case json_as_array raw_idties of
        Some array_identities \<Rightarrow> do {
          rs \<leftarrow> parse_identities_from_json_value c d currency array_identities;
          map_option Some (map_run expect rs)
        }
      | None \<Rightarrow> Some None)
   }"

text \<open>The parts of a compact identity are taken by their index.\<close>

definition v1_parse_compact_identity ::
  "crypto \<Rightarrow> codecs \<Rightarrow> ustring \<Rightarrow> json_value \<Rightarrow> identity_document option run" where
  "v1_parse_compact_identity c d currency source = (case json_as_str source of
      None \<Rightarrow> Some None
    | Some s \<Rightarrow> (let idty_elements = split_on 58 s in do {
        key_text \<leftarrow> vec_get idty_elements 0;
        opt_then (Some (ok_opt (key_from_base58 d key_text))) (\<lambda>issuer. do {
          sig_text \<leftarrow> vec_get idty_elements 1;
          opt_then (Some (ok_opt (sig_from_base64 d sig_text))) (\<lambda>sig. do {
            b_text \<leftarrow> vec_get idty_elements 2;
            opt_then (map_option ok_opt (blockstamp_from_string b_text)) (\<lambda>b. do {
              username \<leftarrow> vec_get idty_elements 3;
              map_option Some (identity_build_with_signature c currency issuer username b [sig])
            })
          })
        })
      }))"

definition parse_previous_hash :: "nat \<Rightarrow> json_value \<Rightarrow> hash option run" where
  "parse_previous_hash block_number source =
     opt_then (Some (json_get ''previousHash'' source)) (\<lambda>v. (case json_as_str v of
         Some hash_str \<Rightarrow> map_option ok_opt (from_hex hash_str)
       | None \<Rightarrow> Some (if block_number > 0 then None else Some hash_default)))"

definition parse_previous_issuer :: "codecs \<Rightarrow> json_value \<Rightarrow> pub_key option" where
  "parse_previous_issuer d source = field_str ''previousIssuer'' source \<bind> ok_opt \<circ> key_from_base58 d"

text \<open>The memberships of a block: those with a wrong number of parts are skipped.\<close>

definition parse_block_memberships ::
  "crypto \<Rightarrow> codecs \<Rightarrow> ustring \<Rightarrow> membership_type \<Rightarrow> json_value \<Rightarrow> membership_document list option run" where
  "parse_block_memberships c d currency ms json_memberships = (case json_as_array json_memberships of
      None \<Rightarrow> Some None
    | Some array_memberships \<Rightarrow> do {
        rs \<leftarrow> parse_memberships_from_json_value c d currency ms array_memberships;
        Some (Some (List.map_filter ok_opt rs))
      })"

definition v1_parse_json_block ::
  "crypto \<Rightarrow> codecs \<Rightarrow> doc_pest \<Rightarrow> 'f f64_text \<Rightarrow> json_value \<Rightarrow> 'f block_document option run" where
  "v1_parse_json_block c d pest fl source =
     opt_then (Some (map_option as_u32 (field_u64 ''number'' source))) (\<lambda>number.
     opt_then (Some (field_str ''currency'' source)) (\<lambda>currency.
     opt_then (Some (field_str ''issuer'' source \<bind> ok_opt \<circ> key_from_base58 d)) (\<lambda>issuer.
     opt_then (Some (field_str ''signature'' source \<bind> ok_opt \<circ> sig_from_base64 d)) (\<lambda>sig.
     opt_then (Some (field_str ''hash'' source)) (\<lambda>hash_text.
     opt_then (map_option ok_opt (from_hex hash_text)) (\<lambda>h.
     opt_then (case json_get ''parameters'' source of
         Some params_json \<Rightarrow> opt_then (Some (json_as_str params_json)) (\<lambda>s.
           map_option (Some \<circ> ok_opt) (params_from_str fl s))
       | None \<Rightarrow> Some (Some None)) (\<lambda>parameters.
     opt_then (parse_previous_hash number source) (\<lambda>previous_hash.
     (let previous_issuer = parse_previous_issuer d source in
     opt_then (Some (field_str ''inner_hash'' source)) (\<lambda>inner_hash_text.
     opt_then (map_option ok_opt (from_hex inner_hash_text)) (\<lambda>inner_hash.
     opt_then (Some (map_option json_as_u64 (json_get ''dividend'' source))) (\<lambda>dividend.
     opt_then (Some (field_array ''identities'' source)) (\<lambda>raw_idties.
     opt_then (collect_opt (v1_parse_compact_identity c d currency) raw_idties) (\<lambda>identities.
     opt_then (Some (json_get ''joiners'' source)) (\<lambda>v.
     opt_then (parse_block_memberships c d currency MsIn v) (\<lambda>joiners.
     opt_then (Some (json_get ''actives'' source)) (\<lambda>v.
     opt_then (parse_block_memberships c d currency MsIn v) (\<lambda>actives.
     opt_then (Some (json_get ''leavers'' source)) (\<lambda>v.
     opt_then (parse_block_memberships c d currency MsOut v) (\<lambda>leavers.
     opt_then (Some (map_option (map json_str_or_empty) (field_array ''revoked'' source))) (\<lambda>revoked.
     opt_then (Some (map_option (map json_str_or_empty) (field_array ''certifications'' source))) (\<lambda>certifications.
     opt_then (Some (field_array ''transactions'' source)) (\<lambda>json_txs.
     opt_then (collect_opt (\<lambda>v. map_option (map_option TxDoc) (v1_parse_transaction c d pest (ascii ''g1'') v))
       json_txs) (\<lambda>transactions.
     opt_then (Some (field_i64 ''nonce'' source)) (\<lambda>nonce.
     opt_then (Some (field_u64 ''version'' source)) (\<lambda>version.
     opt_then (Some (field_u64 ''powMin'' source)) (\<lambda>pow_min.
     opt_then (Some (field_u64 ''time'' source)) (\<lambda>time.
     opt_then (Some (field_u64 ''medianTime'' source)) (\<lambda>median_time.
     opt_then (Some (field_u64 ''membersCount'' source)) (\<lambda>members_count.
     opt_then (Some (field_u64 ''monetaryMass'' source)) (\<lambda>monetary_mass.
     opt_then (Some (field_u64 ''unitbase'' source)) (\<lambda>unit_base.
     opt_then (Some (field_u64 ''issuersCount'' source)) (\<lambda>issuers_count.
     opt_then (Some (field_i64 ''issuersFrame'' source)) (\<lambda>issuers_frame.
     opt_then (Some (field_i64 ''issuersFrameVar'' source)) (\<lambda>issuers_frame_var. do {
     revoked \<leftarrow> parse_revocations_into_compact d revoked;
     opt_then (Some (field_array ''excluded'' source)) (\<lambda>array_exclusions. do {
     excluded \<leftarrow> parse_exclusions_from_json_value d array_exclusions;
     certifications \<leftarrow> parse_certifications_into_compact d certifications;
     opt_then (Some (field_u64 ''nonce'' source)) (\<lambda>nonce_text.
       Some (Some \<lparr>b_version = as_u32 version, b_nonce = as_u64 nonce, b_number = number, b_pow_min = pow_min,
         b_time = time, b_median_time = median_time, b_members_count = members_count,
         b_monetary_mass = monetary_mass, b_unit_base = unit_base, b_issuers_count = issuers_count,
         b_issuers_frame = issuers_frame, b_issuers_frame_var = issuers_frame_var,
         b_currency = currency, b_issuers = [issuer], b_signatures = [sig], b_hash = Some h,
         b_parameters = parameters, b_previous_hash = previous_hash,
         b_previous_issuer = previous_issuer, b_inner_hash = Some inner_hash, b_dividend = dividend,
         b_identities = identities, b_joiners = joiners, b_actives = actives, b_leavers = leavers,
         b_revoked = revoked, b_excluded = excluded, b_certifications = certifications,
         b_transactions = transactions,
         b_inner_hash_and_nonce_str = ascii ''InnerHash: '' @ to_hex inner_hash @ [10] @ ascii ''Nonce: '' @
           show_nat nonce_text @ [10]\<rparr>))})})))))))))))))))))))))))))))))))))))"

section \<open>Writers\<close>

record block_stringified =
  bst_version :: nat
  bst_nonce :: nat
  bst_number :: nat
  bst_pow_min :: nat
  bst_time :: nat
  bst_median_time :: nat
  bst_members_count :: nat
  bst_monetary_mass :: nat
  bst_unit_base :: nat
  bst_issuers_count :: nat
  bst_issuers_frame :: int
  bst_issuers_frame_var :: int
  bst_currency :: ustring
  bst_issuers :: "ustring list"
  bst_signatures :: "ustring list"
  bst_hash :: "ustring option"
  bst_parameters :: "ustring option"
  bst_previous_hash :: ustring
  bst_previous_issuer :: "ustring option"
  bst_inner_hash :: "ustring option"
  bst_dividend :: "nat option"
  bst_identities :: "identity_string_document list"
  bst_joiners :: "membership_string_document list"
  bst_actives :: "membership_string_document list"
  bst_leavers :: "membership_string_document list"
  bst_revoked :: "compact_revocation_string list"
  bst_excluded :: "ustring list"
  bst_certifications :: "compact_certification_string list"
  bst_transactions :: "tx_stringified list"

fun stringify_tx :: "crypto \<Rightarrow> tx_doc_or_hash \<Rightarrow> tx_stringified run" where
  "stringify_tx c (TxDoc tx) = tx_to_string_object c tx"
| "stringify_tx c (TxHash _) = None"

definition block_to_string_object :: "crypto \<Rightarrow> 'f f64_text \<Rightarrow> 'f block_document \<Rightarrow> block_stringified run" where
  "block_to_string_object c fl b = do {
     issuers \<leftarrow> map_run (key_string c) (b_issuers b);
     signatures \<leftarrow> map_run (sig_string c) (b_signatures b);
     previous_issuer \<leftarrow> (case b_previous_issuer b of Some k \<Rightarrow> map_option Some (key_string c k) | None \<Rightarrow> Some None);
     identities \<leftarrow> map_run (identity_to_string_object c) (b_identities b);
     joiners \<leftarrow> map_run (membership_to_string_object c) (b_joiners b);
     actives \<leftarrow> map_run (membership_to_string_object c) (b_actives b);
     leavers \<leftarrow> map_run (membership_to_string_object c) (b_leavers b);
     revoked \<leftarrow> map_run (\<lambda>doc. to_compact_document revocation_to_compact doc \<bind> compact_revocation_to_string_object c)
       (b_revoked b);
     excluded \<leftarrow> map_run (key_string c) (b_excluded b);
     certifications \<leftarrow> map_run
       (\<lambda>doc. to_compact_document certification_to_compact doc \<bind> compact_certification_to_string_object c)
       (b_certifications b);
     transactions \<leftarrow> map_run (stringify_tx c) (b_transactions b);
     Some \<lparr>bst_version = b_version b, bst_nonce = b_nonce b, bst_number = b_number b, bst_pow_min = b_pow_min b,
       bst_time = b_time b, bst_median_time = b_median_time b, bst_members_count = b_members_count b,
       bst_monetary_mass = b_monetary_mass b, bst_unit_base = b_unit_base b,
       bst_issuers_count = b_issuers_count b, bst_issuers_frame = b_issuers_frame b,
       bst_issuers_frame_var = b_issuers_frame_var b, bst_currency = b_currency b, bst_issuers = issuers,
       bst_signatures = signatures, bst_hash = map_option to_hex (b_hash b),
       bst_parameters = map_option (params_to_string fl) (b_parameters b),
       bst_previous_hash = to_hex (b_previous_hash b), bst_previous_issuer = previous_issuer,
       bst_inner_hash = map_option to_hex (b_inner_hash b), bst_dividend = b_dividend b,
       bst_identities = identities, bst_joiners = joiners, bst_actives = actives, bst_leavers = leavers,
       bst_revoked = revoked, bst_excluded = excluded, bst_certifications = certifications,
       bst_transactions = transactions\<rparr>
   }"

definition j_nat :: "nat \<Rightarrow> json_value" where
  "j_nat n = JInt (int n)"

definition j_opt_str :: "ustring option \<Rightarrow> json_value" where
  "j_opt_str o' = (case o' of Some s \<Rightarrow> JString s | None \<Rightarrow> JNull)"

definition j_strs :: "ustring list \<Rightarrow> json_value" where
  "j_strs ss = JArray (map JString ss)"

definition j_object :: "(string \<times> json_value) list \<Rightarrow> json_value" where
  "j_object members = JObject (map (\<lambda>(k, v). (ascii k, v)) members)"

definition identity_into_v1_json :: "identity_string_document \<Rightarrow> json_value" where
  "identity_into_v1_json doc =
     JString (is_issuer doc @ [58] @ is_signature doc @ [58] @ is_blockstamp doc @ [58] @ is_username doc)"

definition membership_into_v1_json :: "membership_string_document \<Rightarrow> json_value" where
  "membership_into_v1_json doc = JString (mss_issuer doc @ [58] @ mss_signature doc @ [58] @ mss_blockstamp doc @ [58] @
     mss_identity_blockstamp doc @ [58] @ mss_username doc)"

definition certification_into_v1_json :: "compact_certification_string \<Rightarrow> json_value" where
  "certification_into_v1_json doc = JString (ccs_issuer doc @ [58] @ ccs_target doc @ [58] @
     show_nat (ccs_block_number doc) @ [58] @ ccs_signature doc)"

definition revoked_into_v1_json :: "compact_revocation_string \<Rightarrow> json_value" where
  "revoked_into_v1_json doc = JString (crs_issuer doc @ [58] @ crs_signature doc)"

definition transaction_into_v1_json :: "tx_stringified \<Rightarrow> json_value" where
  "transaction_into_v1_json tx = j_object [
     (''blockstamp'', JString (ts_blockstamp tx)), (''blockstampTime'', JInt 0),
     (''comment'', JString (ts_comment tx)), (''currency'', JString (ts_currency tx)),
     (''hash'', j_opt_str (ts_hash tx)), (''inputs'', j_strs (ts_inputs tx)),
     (''issuers'', j_strs (ts_issuers tx)), (''locktime'', j_nat (ts_locktime tx)),
     (''outputs'', j_strs (ts_outputs tx)), (''signatures'', j_strs (ts_signatures tx)),
     (''unlocks'', j_strs (ts_unlocks tx)), (''version'', JInt 10)]"

text \<open>The first issuer and the first signature are taken by index; no dividend is written.\<close>

definition block_into_v1_json :: "block_stringified \<Rightarrow> json_value run" where
  "block_into_v1_json b = do {
     issuer \<leftarrow> vec_get (bst_issuers b) 0;
     sig \<leftarrow> vec_get (bst_signatures b) 0;
     Some (j_object [
       (''actives'', JArray (map membership_into_v1_json (bst_actives b))),
       (''certifications'', JArray (map certification_into_v1_json (bst_certifications b))),
       (''currency'', JString (bst_currency b)), (''dividend'', JNull), (''excluded'', j_strs (bst_excluded b)),
       (''fork'', JBool False), (''hash'', j_opt_str (bst_hash b)),
       (''identities'', JArray (map identity_into_v1_json (bst_identities b))),
       (''inner_hash'', j_opt_str (bst_inner_hash b)), (''issuer'', JString issuer),
       (''issuersCount'', j_nat (bst_issuers_count b)), (''issuersFrame'', JInt (bst_issuers_frame b)),
       (''issuersFrameVar'', JInt (bst_issuers_frame_var b)),
       (''joiners'', JArray (map membership_into_v1_json (bst_joiners b))),
       (''leavers'', JArray (map membership_into_v1_json (bst_leavers b))),
       (''medianTime'', j_nat (bst_median_time b)), (''membersCount'', j_nat (bst_members_count b)),
       (''monetaryMass'', j_nat (bst_monetary_mass b)), (''nonce'', j_nat (bst_nonce b)),
       (''number'', j_nat (bst_number b)),
       (''parameters'', JString (case bst_parameters b of Some s \<Rightarrow> s | None \<Rightarrow> [])),
       (''powMin'', j_nat (bst_pow_min b)), (''previousHash'', JString (bst_previous_hash b)),
       (''previousIssuer'', j_opt_str (bst_previous_issuer b)),
       (''revoked'', JArray (map revoked_into_v1_json (bst_revoked b))), (''signature'', JString sig),
       (''time'', j_nat (bst_time b)),
       (''transactions'', JArray (map transaction_into_v1_json (bst_transactions b))),
       (''unitbase'', j_nat (bst_unit_base b)), (''version'', JInt 10)])
   }"

text \<open>A head is sent with one more step.\<close>

fun head_into_v1_json :: "profile \<Rightarrow> crypto \<Rightarrow> 'v network_head \<Rightarrow> json_value run" where
  "head_into_v1_json p c (HeadV2 h) = do {
     message \<leftarrow> head_message_to_string c (h2_message h);
     sig \<leftarrow> sig_string c (h2_sig h);
     message_v2 \<leftarrow> head_message_to_string c (h2_message_v2 h);
     sig_v2 \<leftarrow> sig_string c (h2_sig_v2 h);
     step \<leftarrow> u32_add p (h2_step h) 1;
     Some (j_object [(''message'', JString message), (''messageV2'', JString message_v2), (''sig'', JString sig),
       (''sigV2'', JString sig_v2), (''step'', j_nat step)])
   }"
| "head_into_v1_json p c (HeadV3 _) = None"

section \<open>Values read\<close>

lemma ascii_inj [simp]: "ascii s = ascii t \<longleftrightarrow> s = t"
  by (auto simp: ascii_def inj_map_eq_map[OF inj_of_char])

lemma json_get_object [simp]: "json_get key (j_object members) = map_of members key"
  by (induction members) (auto simp: j_object_def)

lemma json_is_object_j [simp]: "json_is_object (j_object members)"
  by (simp add: j_object_def)

lemma json_values [simp]:
  "json_as_u64 (j_nat n) = Some n" "n < 2 ^ 63 \<Longrightarrow> json_as_i64 (j_nat n) = Some (int n)"
  "json_as_array (j_strs ss) = Some (map JString ss)"
  by (simp_all add: j_nat_def j_strs_def)

lemma as_u64_int [simp]: "n < 2 ^ 64 \<Longrightarrow> as_u64 (int n) = n"
  by (simp add: as_u64_def)

lemma as_u64_i64 [simp]: "n < 9223372036854775808 \<Longrightarrow> as_u64 (int n) = n"
  by (rule as_u64_int) simp

lemma collect_opt_all: "\<forall>x \<in> set xs. read (g x) = Some (Some (h x)) \<Longrightarrow>
    collect_opt read (map g xs) = Some (Some (map h xs))"
  by (induction xs) auto

lemma map_sum_Inr [simp]: "map_sum f id r = Inr v \<longleftrightarrow> r = Inr v"
  by (cases r) simp_all

text \<open>The readers of compact documents accept what those of the other JSON format accept.\<close>

lemma v1_parse_compact_identity_read:
  "parse_compact_identity c d currency s = Some (Inr doc) \<Longrightarrow>
     v1_parse_compact_identity c d currency (JString s) = Some (Some doc)"
  by (auto simp: v1_parse_compact_identity_def parse_compact_identity_def Let_def try_then_returns bind_eq_Some_conv)

lemma membership_from_json_read:
  assumes "parse_compact_membership c d currency ms s = Some (Inr doc)"
  shows "membership_from_json c d currency ms (JString s) = Some (Inr doc)"
proof -
  obtain k sg b i u where parts: "split_on 58 s = [k, sg, b, i, u]"
    using assms by (auto simp: parse_compact_membership_def split: list.splits)
  show ?thesis using assms
    by (auto simp: parse_compact_membership_def membership_from_json_def parts try_then_returns
        split: bind_splits)
qed

section \<open>Blocks sent\<close>

text \<open>A part of a block whose text is read back.\<close>

definition tx_sent_ok :: "crypto \<Rightarrow> codecs \<Rightarrow> doc_pest \<Rightarrow> transaction_document \<Rightarrow> bool" where
  "tx_sent_ok c d pest tx \<longleftrightarrow>
     tx_build_with_signature c (ascii ''g1'') (t_blockstamp tx) (t_locktime tx) (t_issuers tx) (t_inputs tx)
       (t_unlocks tx) (t_outputs tx) (t_comment tx) (t_hash tx) (t_signatures tx) = Some tx \<and>
     (\<exists>h. t_hash tx = Some h \<and> hash_wf h) \<and> blockstamp_wf (t_blockstamp tx) \<and> t_locktime tx < 2 ^ 63 \<and>
     (\<forall>k \<in> set (t_issuers tx). key_field_ok c d k) \<and> (\<forall>s \<in> set (t_signatures tx). sig_field_ok c d s) \<and>
     (\<forall>i \<in> set (t_inputs tx). \<exists>s. input_string c i = Some s \<and> input_from_str d pest s = Some (Inr i)) \<and>
     (\<forall>u \<in> set (t_unlocks tx). unlocks_from_str pest (unlocks_string u) = Some (Inr u)) \<and>
     (\<forall>out \<in> set (t_outputs tx). \<exists>s. output_string c out = Some s \<and> output_from_str d pest s = Some (Inr out))"

lemma sent_all:
  assumes "\<forall>x \<in> set xs. \<exists>y. to x = Some y \<and> read (js y) = Some (Some x)"
  shows "\<exists>ys. map_run to xs = Some ys \<and> collect_opt read (map js ys) = Some (Some xs)"
  using assms
proof (induction xs)
  case (Cons x xs)
  then obtain y ys where "to x = Some y" "read (js y) = Some (Some x)" "map_run to xs = Some ys"
      "collect_opt read (map js ys) = Some (Some xs)" by auto
  then show ?case by (intro exI[of _ "y # ys"]) simp
qed simp

lemma sent_run_all:
  assumes "\<forall>x \<in> set xs. \<exists>y. to x = Some y \<and> read (js y) = Some (g x)"
  shows "\<exists>ys. map_run to xs = Some ys \<and> map_run read (map js ys) = Some (map g xs)"
  using assms
proof (induction xs)
  case (Cons x xs)
  then obtain y ys where "to x = Some y" "read (js y) = Some (g x)" "map_run to xs = Some ys"
      "map_run read (map js ys) = Some (map g xs)" by auto
  then show ?case by (intro exI[of _ "y # ys"]) simp
qed simp

lemma sent_push_all:
  assumes "\<forall>x \<in> set xs. \<exists>y. to x = Some y \<and> (\<forall>acc. push (line y) acc = Some (acc @ [x]))"
  shows "\<exists>ys. map_run to xs = Some ys \<and> fold_run push (map line ys) acc = Some (acc @ xs)"
  using assms
proof (induction xs arbitrary: acc)
  case (Cons x xs)
  then obtain y where "to x = Some y" "\<forall>acc. push (line y) acc = Some (acc @ [x])" by auto
  moreover obtain ys where "map_run to xs = Some ys" "fold_run push (map line ys) (acc @ [x]) = Some ((acc @ [x]) @ xs)"
    using Cons.IH[of "acc @ [x]"] Cons.prems by auto
  ultimately show ?case by (intro exI[of _ "y # ys"]) simp
qed simp

lemmas read_all = sent_all[where js = JString]

lemma keys_read:
  "\<forall>k \<in> set ks. key_field_ok c d k \<Longrightarrow> \<exists>ss. map_run (key_string c) ks = Some ss \<and>
     collect_opt (\<lambda>v. Some (json_as_str v \<bind> ok_opt \<circ> key_from_base58 d)) (map JString ss) = Some (Some ks)"
  "\<forall>s \<in> set sigs. sig_field_ok c d s \<Longrightarrow> \<exists>ss. map_run (sig_string c) sigs = Some ss \<and>
     collect_opt (\<lambda>v. Some (json_as_str v \<bind> ok_opt \<circ> sig_from_base64 d)) (map JString ss) = Some (Some sigs)"
  by (rule read_all, auto simp: key_field_ok_def sig_field_ok_def)+

lemma tx_sent_read:
  assumes "tx_sent_ok c d pest tx"
  shows "\<exists>o'. tx_to_string_object c tx = Some o' \<and>
    v1_parse_transaction c d pest (ascii ''g1'') (transaction_into_v1_json o') = Some (Some tx)"
proof -
  obtain h where h: "t_hash tx = Some h" "hash_wf h" using assms by (auto simp: tx_sent_ok_def)
  obtain ks where ks: "map_run (key_string c) (t_issuers tx) = Some ks"
    "collect_opt (\<lambda>v. Some (json_as_str v \<bind> ok_opt \<circ> key_from_base58 d)) (map JString ks) = Some (Some (t_issuers tx))"
    using keys_read(1) assms unfolding tx_sent_ok_def by blast
  obtain sg where sg: "map_run (sig_string c) (t_signatures tx) = Some sg"
    "collect_opt (\<lambda>v. Some (json_as_str v \<bind> ok_opt \<circ> sig_from_base64 d)) (map JString sg) = Some (Some (t_signatures tx))"
    using keys_read(2) assms unfolding tx_sent_ok_def by blast
  have "\<forall>i \<in> set (t_inputs tx). \<exists>s. input_string c i = Some s \<and>
      opt_then (Some (json_as_str (JString s))) (map_option ok_opt \<circ> input_from_str d pest) = Some (Some i)"
    using assms by (fastforce simp: tx_sent_ok_def)
  from read_all[OF this] obtain ins where ins: "map_run (input_string c) (t_inputs tx) = Some ins"
    "collect_opt (\<lambda>v. opt_then (Some (json_as_str v)) (map_option ok_opt \<circ> input_from_str d pest)) (map JString ins) =
       Some (Some (t_inputs tx))" by blast
  have "\<forall>i \<in> set (t_outputs tx). \<exists>s. output_string c i = Some s \<and>
      opt_then (Some (json_as_str (JString s))) (map_option ok_opt \<circ> output_from_str d pest) = Some (Some i)"
    using assms by (fastforce simp: tx_sent_ok_def)
  from read_all[OF this] obtain outs where outs: "map_run (output_string c) (t_outputs tx) = Some outs"
    "collect_opt (\<lambda>v. opt_then (Some (json_as_str v)) (map_option ok_opt \<circ> output_from_str d pest)) (map JString outs) =
       Some (Some (t_outputs tx))" by blast
  have us: "collect_opt (\<lambda>v. opt_then (Some (json_as_str v)) (map_option ok_opt \<circ> unlocks_from_str pest))
      (map (JString \<circ> unlocks_string) (t_unlocks tx)) = Some (Some (map id (t_unlocks tx)))"
    by (rule collect_opt_all) (use assms in \<open>simp add: tx_sent_ok_def\<close>)
  have build: "tx_build_with_signature c (ascii ''g1'') (t_blockstamp tx) (t_locktime tx) (t_issuers tx) (t_inputs tx)
       (t_unlocks tx) (t_outputs tx) (t_comment tx) (Some h) (t_signatures tx) = Some tx"
    using assms h by (simp add: tx_sent_ok_def)
  have b: "blockstamp_from_string (blockstamp_to_string (t_blockstamp tx)) = Some (Inr (t_blockstamp tx))"
    using assms by (simp add: tx_sent_ok_def blockstamp_parses)
  have l: "t_locktime tx < 2 ^ 63" using assms by (simp add: tx_sent_ok_def)
  show ?thesis
    using l by (simp add: tx_to_string_object_def ks sg ins outs transaction_into_v1_json_def v1_parse_transaction_def
        field_defs b us[simplified] build h hex_roundtrip j_opt_str_def)
qed

text \<open>The documents of a block.\<close>

lemma identities_sent:
  assumes "\<forall>doc \<in> set docs. identity_built c d currency doc"
  shows "\<exists>ys. map_run (identity_to_string_object c) docs = Some ys \<and>
    collect_opt (v1_parse_compact_identity c d currency) (map identity_into_v1_json ys) = Some (Some docs)"
proof (rule sent_all, rule ballI)
  fix doc assume "doc \<in> set docs"
  then obtain s where s: "identity_line c doc = Some s" "parse_compact_identity c d currency s = Some (Inr doc)"
    using identity_line_read assms by blast
  from s(1) obtain y where "identity_to_string_object c doc = Some y" "identity_into_v1_json y = JString s"
    by (auto simp: identity_line_def identity_to_compact_def compact_identity_text_def identity_to_string_object_def
        identity_into_v1_json_def ascii_def split: bind_splits)
  then show "\<exists>y. identity_to_string_object c doc = Some y \<and>
      v1_parse_compact_identity c d currency (identity_into_v1_json y) = Some (Some doc)"
    using v1_parse_compact_identity_read[OF s(2)] by auto
qed

lemma map_filter_ok [simp]: "List.map_filter ok_opt (map Inr xs) = xs"
  by (induction xs) (simp_all add: List.map_filter_simps)

lemma memberships_sent:
  assumes "\<forall>doc \<in> set docs. membership_built c d currency ms doc"
  shows "\<exists>ys. map_run (membership_to_string_object c) docs = Some ys \<and>
    parse_block_memberships c d currency ms (JArray (map membership_into_v1_json ys)) = Some (Some docs)"
proof -
  have "\<forall>doc \<in> set docs. \<exists>y. membership_to_string_object c doc = Some y \<and>
      membership_from_json c d currency ms (membership_into_v1_json y) = Some (Inr doc)"
  proof
    fix doc assume "doc \<in> set docs"
    then obtain s where s: "membership_compact_text c doc = Some s"
        "parse_compact_membership c d currency ms s = Some (Inr doc)"
      using membership_line_read assms by blast
    from s(1) obtain y where "membership_to_string_object c doc = Some y" "membership_into_v1_json y = JString s"
      by (auto simp: membership_compact_text_def membership_to_string_object_def membership_into_v1_json_def ascii_def
          split: bind_splits)
    then show "\<exists>y. membership_to_string_object c doc = Some y \<and>
        membership_from_json c d currency ms (membership_into_v1_json y) = Some (Inr doc)"
      using membership_from_json_read[OF s(2)] by auto
  qed
  from sent_run_all[where g = Inr and js = membership_into_v1_json, OF this] show ?thesis
    by (auto simp: parse_block_memberships_def parse_memberships_from_json_value_def)
qed

lemma certifications_sent:
  assumes "\<forall>cert \<in> set certs. \<exists>doc. cert = Compact doc \<and> certification_ok c d doc"
  shows "\<exists>ys. map_run (\<lambda>doc. to_compact_document certification_to_compact doc \<bind>
      compact_certification_to_string_object c) certs = Some ys \<and>
    parse_certifications_into_compact d (map (json_str_or_empty \<circ> certification_into_v1_json) ys) = Some certs"
proof -
  have "\<forall>cert \<in> set certs. \<exists>y. to_compact_document certification_to_compact cert \<bind>
        compact_certification_to_string_object c = Some y \<and>
      (\<forall>acc. push_certification d ((json_str_or_empty \<circ> certification_into_v1_json) y) acc = Some (acc @ [cert]))"
  proof
    fix cert assume "cert \<in> set certs"
    then obtain doc where doc: "cert = Compact doc" "certification_ok c d doc" using assms by blast
    obtain s where s: "compact_certification_text c doc = Some s"
        "\<forall>acc. push_certification d s acc = Some (acc @ [Compact doc])"
      using certification_line_read[OF doc(2)] by blast
    from s(1) obtain y where "compact_certification_to_string_object c doc = Some y"
        "certification_into_v1_json y = JString s"
      by (auto simp: compact_certification_text_def compact_certification_to_string_object_def
          certification_into_v1_json_def ascii_def split: bind_splits)
    then show "\<exists>y. to_compact_document certification_to_compact cert \<bind>
        compact_certification_to_string_object c = Some y \<and>
      (\<forall>acc. push_certification d ((json_str_or_empty \<circ> certification_into_v1_json) y) acc = Some (acc @ [cert]))"
      using s(2) by (auto simp: doc(1) json_str_or_empty_def)
  qed
  from sent_push_all[where push = "push_certification d" and line =
      "json_str_or_empty \<circ> certification_into_v1_json" and acc = "[]", OF this]
  show ?thesis by (simp add: parse_certifications_into_compact_def)
qed

lemma revocations_sent:
  assumes "\<forall>revoc \<in> set revocs. \<exists>doc. revoc = Compact doc \<and> revocation_ok c d doc"
  shows "\<exists>ys. map_run (\<lambda>doc. to_compact_document revocation_to_compact doc \<bind>
      compact_revocation_to_string_object c) revocs = Some ys \<and>
    parse_revocations_into_compact d (map (json_str_or_empty \<circ> revoked_into_v1_json) ys) = Some revocs"
proof -
  have "\<forall>revoc \<in> set revocs. \<exists>y. to_compact_document revocation_to_compact revoc \<bind>
        compact_revocation_to_string_object c = Some y \<and>
      (\<forall>acc. push_revocation d ((json_str_or_empty \<circ> revoked_into_v1_json) y) acc = Some (acc @ [revoc]))"
  proof
    fix revoc assume "revoc \<in> set revocs"
    then obtain doc where doc: "revoc = Compact doc" "revocation_ok c d doc" using assms by blast
    obtain s where s: "compact_revocation_text c doc = Some s"
        "\<forall>acc. push_revocation d s acc = Some (acc @ [Compact doc])"
      using revocation_line_read[OF doc(2)] by blast
    from s(1) obtain y where "compact_revocation_to_string_object c doc = Some y" "revoked_into_v1_json y = JString s"
      by (auto simp: compact_revocation_text_def compact_revocation_to_string_object_def
          revoked_into_v1_json_def ascii_def split: bind_splits)
    then show "\<exists>y. to_compact_document revocation_to_compact revoc \<bind>
        compact_revocation_to_string_object c = Some y \<and>
      (\<forall>acc. push_revocation d ((json_str_or_empty \<circ> revoked_into_v1_json) y) acc = Some (acc @ [revoc]))"
      using s(2) by (auto simp: doc(1) json_str_or_empty_def)
  qed
  from sent_push_all[where push = "push_revocation d" and line =
      "json_str_or_empty \<circ> revoked_into_v1_json" and acc = "[]", OF this]
  show ?thesis by (simp add: parse_revocations_into_compact_def)
qed

lemma excluded_sent:
  assumes "\<forall>k \<in> set ks. key_field_ok c d k"
  shows "\<exists>ss. map_run (key_string c) ks = Some ss \<and> parse_exclusions_from_json_value d (map JString ss) = Some ks"
proof -
  let ?read = "\<lambda>exclusion. do { s \<leftarrow> json_as_str exclusion; expect (key_from_base58 d s) }"
  have "\<forall>k \<in> set ks. \<exists>s. key_string c k = Some s \<and> ?read (JString s) = Some (id k)"
  proof
    fix k assume "k \<in> set ks"
    then obtain s where "key_string c k = Some s" "key_from_base58 d s = Inr k"
      using assms by (auto simp: key_field_ok_def)
    then show "\<exists>s. key_string c k = Some s \<and> ?read (JString s) = Some (id k)" by simp
  qed
  from sent_run_all[where g = id and js = JString and read = ?read, OF this]
  show ?thesis by (simp add: parse_exclusions_from_json_value_def)
qed

lemma transactions_sent:
  assumes "\<forall>t \<in> set txs. \<exists>tx. t = TxDoc tx \<and> tx_sent_ok c d pest tx"
  shows "\<exists>ys. map_run (stringify_tx c) txs = Some ys \<and>
    collect_opt (\<lambda>v. map_option (map_option TxDoc) (v1_parse_transaction c d pest (ascii ''g1'') v))
      (map transaction_into_v1_json ys) = Some (Some txs)"
proof (rule sent_all, rule ballI)
  fix t assume "t \<in> set txs"
  then obtain tx where tx: "t = TxDoc tx" "tx_sent_ok c d pest tx" using assms by blast
  obtain y where "tx_to_string_object c tx = Some y"
      "v1_parse_transaction c d pest (ascii ''g1'') (transaction_into_v1_json y) = Some (Some tx)"
    using tx_sent_read[OF tx(2)] by blast
  then show "\<exists>y. stringify_tx c t = Some y \<and>
      map_option (map_option TxDoc) (v1_parse_transaction c d pest (ascii ''g1'') (transaction_into_v1_json y)) =
      Some (Some t)"
    by (simp add: tx(1))
qed

text \<open>
  A block whose parts are read back. Blocks of other versions and currencies do not satisfy it: the
  writer always sends the version 10, and the reader builds the transactions for the currency g1.
\<close>

definition block_sent_ok ::
  "crypto \<Rightarrow> codecs \<Rightarrow> doc_pest \<Rightarrow> 'f f64_text \<Rightarrow> pub_key \<Rightarrow> signature \<Rightarrow> hash \<Rightarrow> hash \<Rightarrow> 'f block_document \<Rightarrow> bool" where
  "block_sent_ok c d pest fl issuer sig h inner b \<longleftrightarrow>
     b_version b = 10 \<and> b_nonce b < 2 ^ 63 \<and> b_number b < 2 ^ 32 \<and>
     (- (2 ^ 63) \<le> b_issuers_frame b \<and> b_issuers_frame b < 2 ^ 63) \<and>
     (- (2 ^ 63) \<le> b_issuers_frame_var b \<and> b_issuers_frame_var b < 2 ^ 63) \<and>
     b_issuers b = [issuer] \<and> key_field_ok c d issuer \<and> b_signatures b = [sig] \<and> sig_field_ok c d sig \<and>
     b_hash b = Some h \<and> hash_wf h \<and> b_inner_hash b = Some inner \<and> hash_wf inner \<and> hash_wf (b_previous_hash b) \<and>
     (\<forall>k. b_previous_issuer b = Some k \<longrightarrow> key_field_ok c d k) \<and>
     (case b_parameters b of
        Some ps \<Rightarrow> params_from_str fl (params_to_string fl ps) = Some (Inr ps)
      | None \<Rightarrow> (\<exists>err. params_from_str fl [] = Some (Inl err))) \<and>
     (\<forall>doc \<in> set (b_identities b). identity_built c d (b_currency b) doc) \<and>
     (\<forall>doc \<in> set (b_joiners b). membership_built c d (b_currency b) MsIn doc) \<and>
     (\<forall>doc \<in> set (b_actives b). membership_built c d (b_currency b) MsIn doc) \<and>
     (\<forall>doc \<in> set (b_leavers b). membership_built c d (b_currency b) MsOut doc) \<and>
     (\<forall>revoc \<in> set (b_revoked b). \<exists>doc. revoc = Compact doc \<and> revocation_ok c d doc) \<and>
     (\<forall>k \<in> set (b_excluded b). key_field_ok c d k) \<and>
     (\<forall>cert \<in> set (b_certifications b). \<exists>doc. cert = Compact doc \<and> certification_ok c d doc) \<and>
     (\<forall>t \<in> set (b_transactions b). \<exists>tx. t = TxDoc tx \<and> tx_sent_ok c d pest tx)"

lemma j_opt_str_some: "j_opt_str (Some s) = JString s"
  by (simp add: j_opt_str_def)

lemma previous_issuer_sent:
  assumes "\<forall>k. issuer = Some k \<longrightarrow> key_field_ok c d k"
  shows "\<exists>s. (case issuer of Some k \<Rightarrow> map_option Some (key_string c k) | None \<Rightarrow> Some None) = Some s \<and>
    json_as_str (j_opt_str s) \<bind> ok_opt \<circ> key_from_base58 d = issuer"
proof (cases issuer)
  case (Some k)
  then obtain kt where "key_string c k = Some kt" "key_from_base58 d kt = Inr k"
    using assms by (auto simp: key_field_ok_def)
  then show ?thesis using Some by (auto simp: j_opt_str_def)
qed (simp add: j_opt_str_def)

text \<open>An object of strings from which the parts of a block are read back.\<close>

definition sent_numbers :: "'f block_document \<Rightarrow> block_stringified \<Rightarrow> bool" where
  "sent_numbers b bs \<longleftrightarrow> bst_nonce bs = b_nonce b \<and> bst_number bs = b_number b \<and> bst_pow_min bs = b_pow_min b \<and>
     bst_time bs = b_time b \<and> bst_median_time bs = b_median_time b \<and> bst_members_count bs = b_members_count b \<and>
     bst_monetary_mass bs = b_monetary_mass b \<and> bst_unit_base bs = b_unit_base b \<and>
     bst_issuers_count bs = b_issuers_count b \<and> bst_issuers_frame bs = b_issuers_frame b \<and>
     bst_issuers_frame_var bs = b_issuers_frame_var b \<and> bst_currency bs = b_currency b"

definition sent_documents ::
  "crypto \<Rightarrow> codecs \<Rightarrow> doc_pest \<Rightarrow> 'f block_document \<Rightarrow> block_stringified \<Rightarrow> bool" where
  "sent_documents c d pest b bs \<longleftrightarrow>
     collect_opt (v1_parse_compact_identity c d (b_currency b)) (map identity_into_v1_json (bst_identities bs)) =
       Some (Some (b_identities b)) \<and>
     parse_block_memberships c d (b_currency b) MsIn (JArray (map membership_into_v1_json (bst_joiners bs))) =
       Some (Some (b_joiners b)) \<and>
     parse_block_memberships c d (b_currency b) MsIn (JArray (map membership_into_v1_json (bst_actives bs))) =
       Some (Some (b_actives b)) \<and>
     parse_block_memberships c d (b_currency b) MsOut (JArray (map membership_into_v1_json (bst_leavers bs))) =
       Some (Some (b_leavers b)) \<and>
     parse_revocations_into_compact d (map (json_str_or_empty \<circ> revoked_into_v1_json) (bst_revoked bs)) =
       Some (b_revoked b) \<and>
     parse_exclusions_from_json_value d (map JString (bst_excluded bs)) = Some (b_excluded b) \<and>
     parse_certifications_into_compact d (map (json_str_or_empty \<circ> certification_into_v1_json) (bst_certifications bs)) =
       Some (b_certifications b) \<and>
     collect_opt (\<lambda>v. map_option (map_option TxDoc) (v1_parse_transaction c d pest (ascii ''g1'') v))
       (map transaction_into_v1_json (bst_transactions bs)) = Some (Some (b_transactions b))"

definition sent_header ::
  "crypto \<Rightarrow> codecs \<Rightarrow> 'f f64_text \<Rightarrow> pub_key \<Rightarrow> signature \<Rightarrow> hash \<Rightarrow> hash \<Rightarrow> 'f block_document \<Rightarrow> block_stringified \<Rightarrow> bool" where
  "sent_header c d fl issuer sig h inner b bs \<longleftrightarrow>
     (\<exists>k. bst_issuers bs = [k] \<and> key_from_base58 d k = Inr issuer) \<and>
     (\<exists>s. bst_signatures bs = [s] \<and> sig_from_base64 d s = Inr sig) \<and>
     bst_hash bs = Some (to_hex h) \<and> bst_inner_hash bs = Some (to_hex inner) \<and>
     bst_parameters bs = map_option (params_to_string fl) (b_parameters b) \<and>
     bst_previous_hash bs = to_hex (b_previous_hash b) \<and>
     json_as_str (j_opt_str (bst_previous_issuer bs)) \<bind> ok_opt \<circ> key_from_base58 d = b_previous_issuer b"

text \<open>The strings of the documents of a block, from which the documents are read.\<close>

lemma documents_strings:
  assumes "block_sent_ok c d pest fl issuer sig h inner b"
  shows "\<exists>idl jl al ll rl el cl tl. map_run (identity_to_string_object c) (b_identities b) = Some idl \<and>
    map_run (membership_to_string_object c) (b_joiners b) = Some jl \<and>
    map_run (membership_to_string_object c) (b_actives b) = Some al \<and>
    map_run (membership_to_string_object c) (b_leavers b) = Some ll \<and>
    map_run (\<lambda>doc. to_compact_document revocation_to_compact doc \<bind> compact_revocation_to_string_object c)
      (b_revoked b) = Some rl \<and>
    map_run (key_string c) (b_excluded b) = Some el \<and>
    map_run (\<lambda>doc. to_compact_document certification_to_compact doc \<bind> compact_certification_to_string_object c)
      (b_certifications b) = Some cl \<and>
    map_run (stringify_tx c) (b_transactions b) = Some tl \<and>
    (\<forall>bs. bst_identities bs = idl \<and> bst_joiners bs = jl \<and> bst_actives bs = al \<and> bst_leavers bs = ll \<and>
      bst_revoked bs = rl \<and> bst_excluded bs = el \<and> bst_certifications bs = cl \<and> bst_transactions bs = tl \<longrightarrow>
      sent_documents c d pest b bs)"
proof -
  note ok = assms[unfolded block_sent_ok_def]
  have docs: "\<forall>doc \<in> set (b_identities b). identity_built c d (b_currency b) doc"
    "\<forall>doc \<in> set (b_joiners b). membership_built c d (b_currency b) MsIn doc"
    "\<forall>doc \<in> set (b_actives b). membership_built c d (b_currency b) MsIn doc"
    "\<forall>doc \<in> set (b_leavers b). membership_built c d (b_currency b) MsOut doc"
    "\<forall>revoc \<in> set (b_revoked b). \<exists>doc. revoc = Compact doc \<and> revocation_ok c d doc"
    "\<forall>k \<in> set (b_excluded b). key_field_ok c d k"
    "\<forall>cert \<in> set (b_certifications b). \<exists>doc. cert = Compact doc \<and> certification_ok c d doc"
    "\<forall>t \<in> set (b_transactions b). \<exists>tx. t = TxDoc tx \<and> tx_sent_ok c d pest tx"
    using ok by simp_all
  obtain idl jl al ll rl el cl tl where maps:
      "map_run (identity_to_string_object c) (b_identities b) = Some idl"
      "map_run (membership_to_string_object c) (b_joiners b) = Some jl"
      "map_run (membership_to_string_object c) (b_actives b) = Some al"
      "map_run (membership_to_string_object c) (b_leavers b) = Some ll"
      "map_run (\<lambda>doc. to_compact_document revocation_to_compact doc \<bind> compact_revocation_to_string_object c)
        (b_revoked b) = Some rl"
      "map_run (key_string c) (b_excluded b) = Some el"
      "map_run (\<lambda>doc. to_compact_document certification_to_compact doc \<bind> compact_certification_to_string_object c)
        (b_certifications b) = Some cl"
      "map_run (stringify_tx c) (b_transactions b) = Some tl"
    using identities_sent[OF docs(1)] memberships_sent[OF docs(2)] memberships_sent[OF docs(3)] memberships_sent[OF docs(4)]
      revocations_sent[OF docs(5)] excluded_sent[OF docs(6)] certifications_sent[OF docs(7)] transactions_sent[OF docs(8)]
    by blast
  have "\<forall>bs. bst_identities bs = idl \<and> bst_joiners bs = jl \<and> bst_actives bs = al \<and> bst_leavers bs = ll \<and>
      bst_revoked bs = rl \<and> bst_excluded bs = el \<and> bst_certifications bs = cl \<and> bst_transactions bs = tl \<longrightarrow>
      sent_documents c d pest b bs"
    using identities_sent[OF docs(1)] memberships_sent[OF docs(2)] memberships_sent[OF docs(3)] memberships_sent[OF docs(4)]
      revocations_sent[OF docs(5)] excluded_sent[OF docs(6)] certifications_sent[OF docs(7)] transactions_sent[OF docs(8)]
    by (simp add: maps sent_documents_def)
  with maps show ?thesis by blast
qed

lemma block_strings:
  assumes "block_sent_ok c d pest fl issuer sig h inner b"
  shows "\<exists>bs. block_to_string_object c fl b = Some bs \<and> sent_numbers b bs \<and> sent_documents c d pest b bs \<and>
    sent_header c d fl issuer sig h inner b bs"
proof -
  note ok = assms[unfolded block_sent_ok_def]
  obtain k where k: "key_string c issuer = Some k" "key_from_base58 d k = Inr issuer"
    using ok by (auto simp: key_field_ok_def)
  obtain s where s: "sig_string c sig = Some s" "sig_from_base64 d s = Inr sig"
    using ok by (auto simp: sig_field_ok_def)
  obtain pi where pi: "(case b_previous_issuer b of Some k \<Rightarrow> map_option Some (key_string c k) | None \<Rightarrow> Some None) = Some pi"
    "json_as_str (j_opt_str pi) \<bind> ok_opt \<circ> key_from_base58 d = b_previous_issuer b"
    using previous_issuer_sent[of "b_previous_issuer b" c d] ok by blast
  obtain idl jl al ll rl el cl tl where docs:
      "map_run (identity_to_string_object c) (b_identities b) = Some idl"
      "map_run (membership_to_string_object c) (b_joiners b) = Some jl"
      "map_run (membership_to_string_object c) (b_actives b) = Some al"
      "map_run (membership_to_string_object c) (b_leavers b) = Some ll"
      "map_run (\<lambda>doc. to_compact_document revocation_to_compact doc \<bind> compact_revocation_to_string_object c)
        (b_revoked b) = Some rl"
      "map_run (key_string c) (b_excluded b) = Some el"
      "map_run (\<lambda>doc. to_compact_document certification_to_compact doc \<bind> compact_certification_to_string_object c)
        (b_certifications b) = Some cl"
      "map_run (stringify_tx c) (b_transactions b) = Some tl"
    and read: "\<forall>bs. bst_identities bs = idl \<and> bst_joiners bs = jl \<and> bst_actives bs = al \<and> bst_leavers bs = ll \<and>
      bst_revoked bs = rl \<and> bst_excluded bs = el \<and> bst_certifications bs = cl \<and> bst_transactions bs = tl \<longrightarrow>
      sent_documents c d pest b bs"
    using documents_strings[OF assms] by (elim exE conjE) (rule that)
  have fixed: "b_issuers b = [issuer]" "b_signatures b = [sig]" "b_hash b = Some h" "b_inner_hash b = Some inner"
    using ok by simp_all
  obtain bs where "block_to_string_object c fl b = Some bs" "sent_numbers b bs" "sent_header c d fl issuer sig h inner b bs"
      "bst_identities bs = idl" "bst_joiners bs = jl" "bst_actives bs = al" "bst_leavers bs = ll"
      "bst_revoked bs = rl" "bst_excluded bs = el" "bst_certifications bs = cl" "bst_transactions bs = tl"
    by (simp add: block_to_string_object_def fixed k s pi docs sent_numbers_def sent_header_def)
  then show ?thesis using read by blast
qed

text \<open>The fields of the JSON object of a block.\<close>

lemma block_json_fields:
  assumes "block_into_v1_json bs = Some v" "bst_issuers bs = [k]" "bst_signatures bs = [s]"
  shows "json_get ''number'' v = Some (j_nat (bst_number bs))" "json_get ''currency'' v = Some (JString (bst_currency bs))"
    "json_get ''issuer'' v = Some (JString k)" "json_get ''signature'' v = Some (JString s)"
    "json_get ''hash'' v = Some (j_opt_str (bst_hash bs))"
    "json_get ''parameters'' v = Some (JString (case bst_parameters bs of Some ps \<Rightarrow> ps | None \<Rightarrow> []))"
    "json_get ''previousHash'' v = Some (JString (bst_previous_hash bs))"
    "json_get ''previousIssuer'' v = Some (j_opt_str (bst_previous_issuer bs))"
    "json_get ''inner_hash'' v = Some (j_opt_str (bst_inner_hash bs))" "json_get ''dividend'' v = Some JNull"
    "json_get ''identities'' v = Some (JArray (map identity_into_v1_json (bst_identities bs)))"
    "json_get ''joiners'' v = Some (JArray (map membership_into_v1_json (bst_joiners bs)))"
    "json_get ''actives'' v = Some (JArray (map membership_into_v1_json (bst_actives bs)))"
    "json_get ''leavers'' v = Some (JArray (map membership_into_v1_json (bst_leavers bs)))"
    "json_get ''revoked'' v = Some (JArray (map revoked_into_v1_json (bst_revoked bs)))"
    "json_get ''certifications'' v = Some (JArray (map certification_into_v1_json (bst_certifications bs)))"
    "json_get ''transactions'' v = Some (JArray (map transaction_into_v1_json (bst_transactions bs)))"
    "json_get ''nonce'' v = Some (j_nat (bst_nonce bs))" "json_get ''version'' v = Some (JInt 10)"
    "json_get ''powMin'' v = Some (j_nat (bst_pow_min bs))" "json_get ''time'' v = Some (j_nat (bst_time bs))"
    "json_get ''medianTime'' v = Some (j_nat (bst_median_time bs))"
    "json_get ''membersCount'' v = Some (j_nat (bst_members_count bs))"
    "json_get ''monetaryMass'' v = Some (j_nat (bst_monetary_mass bs))"
    "json_get ''unitbase'' v = Some (j_nat (bst_unit_base bs))"
    "json_get ''issuersCount'' v = Some (j_nat (bst_issuers_count bs))"
    "json_get ''issuersFrame'' v = Some (JInt (bst_issuers_frame bs))"
    "json_get ''issuersFrameVar'' v = Some (JInt (bst_issuers_frame_var bs))"
    "json_get ''excluded'' v = Some (j_strs (bst_excluded bs))"
  using assms by (auto simp: block_into_v1_json_def vec_get_def)


definition example_sent_block :: "nat block_document" where
  "example_sent_block = \<lparr>b_version = 10, b_nonce = 7, b_number = 42, b_pow_min = 80, b_time = 5, b_median_time = 4,
     b_members_count = 3, b_monetary_mass = 3000, b_unit_base = 0, b_issuers_count = 1, b_issuers_frame = 6,
     b_issuers_frame_var = - 1, b_currency = ascii ''g1'', b_issuers = [PubEd25519 (replicate 32 65)],
     b_signatures = [SigEd25519 (replicate 64 66)], b_hash = Some hash_default, b_parameters = None,
     b_previous_hash = hash_default, b_previous_issuer = None, b_inner_hash = Some hash_default,
     b_dividend = Some 1000, b_identities = [], b_joiners = [], b_actives = [], b_leavers = [], b_revoked = [],
     b_excluded = [PubEd25519 (replicate 32 65)], b_certifications = [], b_transactions = [],
     b_inner_hash_and_nonce_str = []\<rparr>"


end
