(* ===== verification/Ws2p1_Messages.thy ===== *)
theory Ws2p1_Messages
  imports Ws2p1_Json Bc_Module
begin

text \<open>
  A connection of the first version of the peer to peer protocol, \<open>lib/modules/ws2p-v1-legacy/src\<close>:
  the messages CONNECT, ACK and OK (\<open>connect_message.rs\<close>, \<open>ack_message.rs\<close>, \<open>ok_message.rs\<close>), the
  requests (\<open>ws_connections/requests\<close>), the states and the data of a connection with the check of
  what it receives (\<open>ws_connections/states.rs\<close>, \<open>meta_datas.rs\<close>, \<open>messages.rs\<close>), and the handler of
  its websocket (\<open>ws_connections/handler.rs\<close>).

  The crates \<open>serde_json\<close> and \<open>uuid\<close> and the parsers of pest are fields of the record \<open>ws2p1_env\<close>;
  a uuid is its number. Lines of the log are left out.
\<close>

record 'f ws2p1_env =
  v1_crypto :: crypto
  v1_codecs :: codecs
  v1_pest :: doc_pest
  v1_net_pest :: "net_rule pest_parser"
  v1_f64 :: "'f f64_text"
  json_read :: "ustring \<Rightarrow> json_value option"
  json_show :: "json_value \<Rightarrow> ustring"
  uuid_parse :: "ustring \<Rightarrow> nat option"
  uuid_show :: "nat \<Rightarrow> ustring"

section \<open>States\<close>

datatype ws2p_connection_state =
  NeverTry | TryToOpenWS | WSError | TryToSendConnectMess | Unreachable | WaitingConnectMess | NoResponse
| ConnectMessOk | OkMessOkWaitingAckMess | AckMessOk | Denial | Close | Established

fun state_number :: "ws2p_connection_state \<Rightarrow> nat" where
  "state_number NeverTry = 0"
| "state_number TryToOpenWS = 1"
| "state_number WSError = 2"
| "state_number TryToSendConnectMess = 3"
| "state_number Unreachable = 4"
| "state_number WaitingConnectMess = 5"
| "state_number NoResponse = 6"
| "state_number ConnectMessOk = 7"
| "state_number OkMessOkWaitingAckMess = 8"
| "state_number AckMessOk = 9"
| "state_number Denial = 10"
| "state_number Close = 11"
| "state_number Established = 12"

definition state_from_db :: "nat \<Rightarrow> ws2p_connection_state" where
  "state_from_db integer =
     (if integer \<in> {1, 2} then WSError else if integer \<in> {3, 4} then Unreachable
      else if integer \<in> {5, 6} then NoResponse else if integer \<in> {7, 8, 9, 10} then Denial
      else if integer \<in> {11, 12} then Close else NeverTry)"

definition state_from_u32 :: "nat \<Rightarrow> bool \<Rightarrow> ws2p_connection_state" where
  "state_from_u32 integer from_db =
     (if from_db then state_from_db integer
      else if integer = 1 then TryToOpenWS else if integer = 2 then WSError
      else if integer \<in> {3, 4} then Unreachable else if integer \<in> {5, 6} then NoResponse
      else if integer = 7 then ConnectMessOk else if integer = 8 then OkMessOkWaitingAckMess
      else if integer = 9 then AckMessOk else if integer = 10 then Denial else if integer = 11 then Close
      else if integer = 12 then Established else NeverTry)"

definition state_to_u32 :: "ws2p_connection_state \<Rightarrow> nat" where
  "state_to_u32 s = (if s = NeverTry then 0 else 1)"

section \<open>Messages of the negotiation\<close>

text \<open>The three structures have the same fields.\<close>

record auth_message =
  am_currency :: ustring
  am_pubkey :: pub_key
  am_challenge :: ustring
  am_signature :: "signature option"

definition connect_parse :: "codecs \<Rightarrow> json_value \<Rightarrow> ustring \<Rightarrow> auth_message option" where
  "connect_parse d v currency = do {
     pubkey \<leftarrow> field_str ''pub'' v;
     challenge \<leftarrow> field_str ''challenge'' v;
     sig \<leftarrow> field_str ''sig'' v;
     pubkey \<leftarrow> ok_opt (key_from_base58 d pubkey);
     sig \<leftarrow> ok_opt (sig_from_base64 d sig);
     Some \<lparr>am_currency = currency, am_pubkey = pubkey, am_challenge = challenge, am_signature = Some sig\<rparr>
   }"

definition ack_parse :: "codecs \<Rightarrow> json_value \<Rightarrow> ustring \<Rightarrow> auth_message option" where
  "ack_parse d v currency = do {
     pubkey \<leftarrow> field_str ''pub'' v;
     sig \<leftarrow> field_str ''sig'' v;
     pubkey \<leftarrow> ok_opt (key_from_base58 d pubkey);
     sig \<leftarrow> ok_opt (sig_from_base64 d sig);
     Some \<lparr>am_currency = currency, am_pubkey = pubkey, am_challenge = [], am_signature = Some sig\<rparr>
   }"

definition ok_parse :: "codecs \<Rightarrow> json_value \<Rightarrow> ustring \<Rightarrow> auth_message option" where
  "ok_parse d v currency = do {
     sig \<leftarrow> field_str ''sig'' v;
     pubkey \<leftarrow> ok_opt (key_from_base58 d (ascii ''969qRJs8KhsnkyzqarpL4RKZGMdVKNbZgu8fhsigM7Lj''));
     sig \<leftarrow> ok_opt (sig_from_base64 d sig);
     Some \<lparr>am_currency = currency, am_pubkey = pubkey, am_challenge = [], am_signature = Some sig\<rparr>
   }"

definition auth_to_raw :: "string \<Rightarrow> crypto \<Rightarrow> auth_message \<Rightarrow> ustring run" where
  "auth_to_raw kind c m = do {
     pubkey \<leftarrow> key_string c (am_pubkey m);
     Some (ascii ''WS2P:'' @ ascii kind @ [58] @ am_currency m @ [58] @ pubkey @ [58] @ am_challenge m)
   }"

definition connect_to_raw :: "crypto \<Rightarrow> auth_message \<Rightarrow> ustring run" where
  "connect_to_raw = auth_to_raw ''CONNECT''"

definition ack_to_raw :: "crypto \<Rightarrow> auth_message \<Rightarrow> ustring run" where
  "ack_to_raw = auth_to_raw ''ACK''"

definition ok_to_raw :: "crypto \<Rightarrow> auth_message \<Rightarrow> ustring run" where
  "ok_to_raw = auth_to_raw ''OK''"

definition auth_sign :: "(crypto \<Rightarrow> auth_message \<Rightarrow> ustring run) \<Rightarrow> crypto \<Rightarrow> key_pair \<Rightarrow> auth_message \<Rightarrow> signature run" where
  "auth_sign to_raw c key_pair m = do { raw \<leftarrow> to_raw c m; pair_sign c key_pair raw }"

definition auth_verify :: "(crypto \<Rightarrow> auth_message \<Rightarrow> ustring run) \<Rightarrow> crypto \<Rightarrow> auth_message \<Rightarrow> bool run" where
  "auth_verify to_raw c m = (case am_signature m of
      Some sig \<Rightarrow> do { raw \<leftarrow> to_raw c m; key_verify c (am_pubkey m) raw sig }
    | None \<Rightarrow> Some False)"

definition connect_serialize :: "crypto \<Rightarrow> auth_message \<Rightarrow> json_value run" where
  "connect_serialize c m = do {
     pubkey \<leftarrow> key_string c (am_pubkey m);
     sig \<leftarrow> am_signature m;
     sig \<leftarrow> sig_string c sig;
     Some (j_object [(''auth'', JString (ascii ''CONNECT'')), (''pub'', JString pubkey),
       (''challenge'', JString (am_challenge m)), (''sig'', JString sig)])
   }"

definition ack_serialize :: "crypto \<Rightarrow> auth_message \<Rightarrow> json_value run" where
  "ack_serialize c m = do {
     pubkey \<leftarrow> key_string c (am_pubkey m);
     sig \<leftarrow> am_signature m;
     sig \<leftarrow> sig_string c sig;
     Some (j_object [(''auth'', JString (ascii ''ACK'')), (''pub'', JString pubkey), (''sig'', JString sig)])
   }"

definition ok_serialize :: "crypto \<Rightarrow> auth_message \<Rightarrow> json_value run" where
  "ok_serialize c m = do {
     sig \<leftarrow> am_signature m;
     sig \<leftarrow> sig_string c sig;
     Some (j_object [(''auth'', JString (ascii ''OK'')), (''sig'', JString sig)])
   }"

text \<open>A message of the node itself, signed with its key pair, in JSON.\<close>

definition own_auth_message ::
  "'f ws2p1_env \<Rightarrow> (crypto \<Rightarrow> auth_message \<Rightarrow> ustring run) \<Rightarrow> (crypto \<Rightarrow> auth_message \<Rightarrow> json_value run) \<Rightarrow> ustring \<Rightarrow>
   key_pair \<Rightarrow> ustring \<Rightarrow> ustring run" where
  "own_auth_message e to_raw serialize currency key_pair challenge = do {
     pubkey \<leftarrow> public_key key_pair;
     let m = \<lparr>am_currency = currency, am_pubkey = pubkey, am_challenge = challenge, am_signature = None\<rparr>;
     sig \<leftarrow> auth_sign to_raw (v1_crypto e) key_pair m;
     json \<leftarrow> serialize (v1_crypto e) (m\<lparr>am_signature := Some sig\<rparr>);
     Some (json_show e json)
   }"

definition v1_connect_message :: "'f ws2p1_env \<Rightarrow> ustring \<Rightarrow> key_pair \<Rightarrow> ustring \<Rightarrow> ustring run" where
  "v1_connect_message e currency key_pair challenge =
     own_auth_message e connect_to_raw connect_serialize currency key_pair challenge"

section \<open>Requests\<close>

type_synonym v1_req_id = nat

datatype v1_req_body =
  ReqGetCurrent
| ReqGetBlock nat
| ReqGetBlocks nat nat
| ReqGetRequirementsPending nat

record v1_request =
  rq_id :: v1_req_id
  rq_body :: v1_req_body

definition req_param :: "string \<Rightarrow> json_value \<Rightarrow> nat option" where
  "req_param key json = do {
     params \<leftarrow> json_get ''params'' json;
     if json_is_object params then field_u64 key params else None
   }"

definition try_uint :: "nat \<Rightarrow> nat \<Rightarrow> nat option" where
  "try_uint w n = (if n < 2 ^ w then Some n else None)"

definition req_body_from_json :: "json_value \<Rightarrow> v1_req_body option" where
  "req_body_from_json json = do {
     req_name \<leftarrow> field_str ''name'' json;
     if req_name = ascii ''CURRENT'' then Some ReqGetCurrent
     else if req_name = ascii ''BLOCK_BY_NUMBER'' then do {
       number \<leftarrow> req_param ''number'' json;
       map_option ReqGetBlock (try_uint 32 number)
     }
     else if req_name = ascii ''BLOCKS_CHUNK'' then do {
       count \<leftarrow> req_param ''count'' json;
       from_number \<leftarrow> req_param ''fromNumber'' json;
       count \<leftarrow> try_uint 32 count;
       map_option (ReqGetBlocks count) (try_uint 32 from_number)
     }
     else if req_name = ascii ''WOT_REQUIREMENTS_OF_PENDING'' then do {
       min_cert \<leftarrow> req_param ''minCert'' json;
       map_option ReqGetRequirementsPending (try_uint 64 min_cert)
     }
     else None
   }"

fun req_name_params :: "v1_req_body \<Rightarrow> string \<times> json_value" where
  "req_name_params ReqGetCurrent = (''CURRENT'', j_object [])"
| "req_name_params (ReqGetBlock number) = (''BLOCK_BY_NUMBER'', j_object [(''number'', j_nat number)])"
| "req_name_params (ReqGetBlocks count from_number) =
     (''BLOCKS_CHUNK'', j_object [(''count'', j_nat count), (''fromNumber'', j_nat from_number)])"
| "req_name_params (ReqGetRequirementsPending min_cert) =
     (''WOT_REQUIREMENTS_OF_PENDING'', j_object [(''minCert'', j_nat min_cert)])"

definition network_request_to_json :: "'f ws2p1_env \<Rightarrow> v1_request \<Rightarrow> json_value" where
  "network_request_to_json e req =
     (let (request_type, request_params) = req_name_params (rq_body req)
      in j_object [(''body'', j_object [(''name'', JString (ascii request_type)), (''params'', request_params)]),
           (''reqId'', JString (uuid_show e (rq_id req)))])"

section \<open>Data of a connection\<close>

record conn_meta =
  cm_state :: ws2p_connection_state
  cm_remote_uuid :: "net_node_id option"
  cm_remote_pubkey :: "pub_key option"
  cm_challenge :: ustring
  cm_remote_challenge :: ustring
  cm_current_blockstamp :: "(nat \<times> ustring) option"

definition conn_meta_new :: "ustring \<Rightarrow> conn_meta" where
  "conn_meta_new challenge = \<lparr>cm_state = WaitingConnectMess, cm_remote_uuid = None, cm_remote_pubkey = None,
     cm_challenge = challenge, cm_remote_challenge = [], cm_current_blockstamp = None\<rparr>"

definition cm_node_full_id :: "conn_meta \<Rightarrow> node_full_id run" where
  "cm_node_full_id m = do { n \<leftarrow> cm_remote_uuid m; k \<leftarrow> cm_remote_pubkey m; Some (n, k) }"

text \<open>The number of a websocket stands for its sender.\<close>

datatype 'f v1_payload =
  PayFailOpenWS | PayWrongUrl | PayFailToSplitWS | PayTryToSendConnectMess | PayFailSendConnectMess
| PayWebsocketOk nat
| PayNegociationTimeout
| PayValidConnectMessage ustring ws2p_connection_state
| PayValidAckMessage ustring ws2p_connection_state
| PayValidOk ws2p_connection_state
| PayRequest v1_req_id v1_req_body
| PayPeerCard json_value "endpoint_v1 list"
| PayHeads "json_value list"
| PayDocument "'f blockchain_document"
| PayReqResponse v1_req_id json_value
| PayInvalidMessage | PayWrongFormatMessage | PayUnknowMessage | PayTimeout | PayClose

record 'f v1_msg =
  vm_from :: node_full_id
  vm_payload :: "'f v1_payload"

text \<open>
  The three messages of the negotiation: the result \<open>None\<close> means that the message is looked at
  further. A malformed one panics.
\<close>

definition check_connect ::
  "'f ws2p1_env \<Rightarrow> ustring \<Rightarrow> key_pair \<Rightarrow> json_value \<Rightarrow> conn_meta \<Rightarrow> ('f v1_payload option \<times> conn_meta) run" where
  "check_connect e currency key_pair msg m = do {
     message \<leftarrow> connect_parse (v1_codecs e) msg currency;
     verified \<leftarrow> auth_verify connect_to_raw (v1_crypto e) message;
     valid \<leftarrow> (if verified then do { k \<leftarrow> cm_remote_pubkey m; Some (am_pubkey message = k) } else Some False);
     if \<not> valid then Some (None, m)
     else if cm_state m = WaitingConnectMess then do {
       let m = m\<lparr>cm_state := ConnectMessOk, cm_remote_challenge := am_challenge message\<rparr>;
       response \<leftarrow> own_auth_message e ack_to_raw ack_serialize currency key_pair (cm_remote_challenge m);
       Some (Some (PayValidConnectMessage response (cm_state m)), m)
     }
     else Some (Some PayInvalidMessage, m)
   }"

definition check_ack ::
  "'f ws2p1_env \<Rightarrow> ustring \<Rightarrow> key_pair \<Rightarrow> json_value \<Rightarrow> conn_meta \<Rightarrow> ('f v1_payload option \<times> conn_meta) run" where
  "check_ack e currency key_pair msg m = do {
     message \<leftarrow> ack_parse (v1_codecs e) msg currency;
     let message = message\<lparr>am_challenge := cm_challenge m\<rparr>;
     verified \<leftarrow> auth_verify ack_to_raw (v1_crypto e) message;
     if \<not> verified then Some (None, m)
     else if cm_state m \<in> {ConnectMessOk, OkMessOkWaitingAckMess} then do {
       let m = m\<lparr>cm_state := (if cm_state m = ConnectMessOk then AckMessOk else Established)\<rparr>;
       response \<leftarrow> own_auth_message e ok_to_raw ok_serialize currency key_pair (cm_challenge m);
       Some (Some (PayValidAckMessage response (cm_state m)), m)
     }
     else Some (Some PayInvalidMessage, m)
   }"

definition check_ok ::
  "'f ws2p1_env \<Rightarrow> ustring \<Rightarrow> json_value \<Rightarrow> conn_meta \<Rightarrow> ('f v1_payload option \<times> conn_meta) run" where
  "check_ok e currency msg m = do {
     message \<leftarrow> ok_parse (v1_codecs e) msg currency;
     k \<leftarrow> cm_remote_pubkey m;
     let message = message\<lparr>am_challenge := cm_remote_challenge m, am_pubkey := k\<rparr>;
     verified \<leftarrow> auth_verify ok_to_raw (v1_crypto e) message;
     Some (if \<not> verified then (Some PayInvalidMessage, m)
       else if cm_state m = ConnectMessOk then
         (Some (PayValidOk OkMessOkWaitingAckMess), m\<lparr>cm_state := OkMessOkWaitingAckMess\<rparr>)
       else if cm_state m = AckMessOk then (Some (PayValidOk Established), m\<lparr>cm_state := Established\<rparr>)
       else (Some PayInvalidMessage, m))
   }"

definition check_auth ::
  "'f ws2p1_env \<Rightarrow> ustring \<Rightarrow> key_pair \<Rightarrow> json_value \<Rightarrow> conn_meta \<Rightarrow> ('f v1_payload option \<times> conn_meta) run" where
  "check_auth e currency key_pair msg m = (case field_str ''auth'' msg of
      Some s \<Rightarrow>
        (if s = ascii ''CONNECT'' then check_connect e currency key_pair msg m
         else if s = ascii ''ACK'' then check_ack e currency key_pair msg m
         else if s = ascii ''OK'' then check_ok e currency msg m
         else Some (None, m))
    | None \<Rightarrow> Some (None, m))"

text \<open>The peer card: of its endpoints, those of the protocol that can be read.\<close>

definition push_endpoint ::
  "'f ws2p1_env \<Rightarrow> pub_key \<Rightarrow> json_value \<Rightarrow> endpoint_v1 list \<Rightarrow> endpoint_v1 list run" where
  "push_endpoint e pubkey endpoint eps = do {
     r \<leftarrow> e1_parse_from_raw (v1_crypto e) (v1_net_pest e) (json_str_or_empty endpoint) pubkey 0 0;
     Some (case r of
         Inr ep \<Rightarrow> if e1_api ep = ascii ''WS2P'' then eps @ [ep] else eps
       | Inl _ \<Rightarrow> eps)
   }"

definition parse_and_check_peer_message :: "'f ws2p1_env \<Rightarrow> json_value \<Rightarrow> 'f v1_payload run" where
  "parse_and_check_peer_message e body = (case json_get ''peer'' body of
      None \<Rightarrow> Some PayWrongFormatMessage
    | Some peer \<Rightarrow> (case json_get ''pubkey'' peer of
        None \<Rightarrow> Some PayWrongFormatMessage
      | Some raw_pubkey \<Rightarrow> (case key_from_base58 (v1_codecs e) (json_str_or_empty raw_pubkey) of
          Inl _ \<Rightarrow> Some PayWrongFormatMessage
        | Inr pubkey \<Rightarrow> (case field_array ''endpoints'' peer of
            None \<Rightarrow> Some PayWrongFormatMessage
          | Some array_endpoints \<Rightarrow>
              map_option (PayPeerCard body) (fold_run (push_endpoint e pubkey) array_endpoints [])))))"

text \<open>A request: with its identifier and a body, whatever the state of the connection.\<close>

definition check_request :: "'f ws2p1_env \<Rightarrow> json_value \<Rightarrow> json_value \<Rightarrow> 'f v1_payload" where
  "check_request e req_id msg = (case json_as_str req_id of
      None \<Rightarrow> PayWrongFormatMessage
    | Some req_id \<Rightarrow> (case json_get ''body'' msg of
        None \<Rightarrow> PayWrongFormatMessage
      | Some body \<Rightarrow> (case uuid_parse e req_id of
          None \<Rightarrow> PayWrongFormatMessage
        | Some req_id \<Rightarrow> (case req_body_from_json body of
            Some body \<Rightarrow> PayRequest req_id body
          | None \<Rightarrow> PayWrongFormatMessage))))"

text \<open>A response; one that carries an error is looked at further.\<close>

definition check_response :: "'f ws2p1_env \<Rightarrow> json_value \<Rightarrow> json_value \<Rightarrow> 'f v1_payload option" where
  "check_response e res_id msg = (case json_as_str res_id of
      None \<Rightarrow> Some PayWrongFormatMessage
    | Some req_id_str \<Rightarrow> (case json_get ''body'' msg of
        Some body \<Rightarrow> (case uuid_parse e req_id_str of
            Some req_id \<Rightarrow> Some (PayReqResponse req_id body)
          | None \<Rightarrow> Some PayWrongFormatMessage)
      | None \<Rightarrow> (case json_get ''err'' msg of Some _ \<Rightarrow> None | None \<Rightarrow> Some PayWrongFormatMessage)))"

definition check_body :: "'f ws2p1_env \<Rightarrow> json_value \<Rightarrow> 'f v1_payload run" where
  "check_body e body = (case json_get ''name'' body of
      None \<Rightarrow> Some PayWrongFormatMessage
    | Some name \<Rightarrow> (case json_as_str name of
        None \<Rightarrow> Some PayUnknowMessage
      | Some name \<Rightarrow>
          (if name = ascii ''BLOCK'' then (case json_get ''block'' body of
              Some block \<Rightarrow> do {
                r \<leftarrow> v1_parse_json_block (v1_crypto e) (v1_codecs e) (v1_pest e) (v1_f64 e) block;
                Some (case r of Some block_doc \<Rightarrow> PayDocument (DocBlock block_doc) | None \<Rightarrow> PayUnknowMessage)
              }
            | None \<Rightarrow> Some PayWrongFormatMessage)
           else if name = ascii ''HEAD'' then Some (case field_array ''heads'' body of
              Some heads_array \<Rightarrow> PayHeads heads_array
            | None \<Rightarrow> PayWrongFormatMessage)
           else if name = ascii ''PEER'' then parse_and_check_peer_message e body
           else Some PayUnknowMessage)))"

definition parse_and_check_incoming_message ::
  "'f ws2p1_env \<Rightarrow> ustring \<Rightarrow> key_pair \<Rightarrow> json_value \<Rightarrow> conn_meta \<Rightarrow> ('f v1_payload \<times> conn_meta) run" where
  "parse_and_check_incoming_message e currency key_pair msg m = do {
     (auth, m) \<leftarrow> check_auth e currency key_pair msg m;
     (case auth of
        Some payload \<Rightarrow> Some (payload, m)
      | None \<Rightarrow> (case json_get ''reqId'' msg of
          Some req_id \<Rightarrow> Some (check_request e req_id msg, m)
        | None \<Rightarrow> (case json_get ''resId'' msg \<bind> (\<lambda>res_id. check_response e res_id msg) of
            Some payload \<Rightarrow> Some (payload, m)
          | None \<Rightarrow> (case json_get ''body'' msg of
              Some body \<Rightarrow> map_option (\<lambda>payload. (payload, m)) (check_body e body)
            | None \<Rightarrow> Some (PayUnknowMessage, m)))))
   }"

section \<open>The handler of a websocket\<close>

datatype ws1_call = CallTimeout nat nat | CallSend ustring | CallClose string | CallCancel nat

text \<open>The state of a client: what it asked of the websocket, and what it sent to the main thread.\<close>

record 'f ws2p1_client =
  cl_calls :: "ws1_call list"
  cl_conductor :: "'f v1_msg list"
  cl_socket :: nat
  cl_currency :: ustring
  cl_key_pair :: key_pair
  cl_connect_message :: ustring
  cl_meta :: conn_meta
  cl_last_mess_time :: nat
  cl_spam_interval :: bool
  cl_spam_counter :: nat
  cl_timeout :: "nat option"

text \<open>The results of the calls: whether the main thread and the websocket answer.\<close>

record ws1_results =
  w1_conductor_up :: bool
  w1_send_ok :: bool
  w1_close_ok :: bool
  w1_timeout_ok :: bool
  w1_cancel_ok :: bool

definition ws1_call_done :: "bool \<Rightarrow> ws1_call \<Rightarrow> 'f ws2p1_client \<Rightarrow> ((unit + unit) \<times> 'f ws2p1_client) run" where
  "ws1_call_done ok call cl = Some (if ok then Inr () else Inl (), cl\<lparr>cl_calls := cl_calls cl @ [call]\<rparr>)"

definition to_conductor ::
  "ws1_results \<Rightarrow> 'f v1_payload \<Rightarrow> 'f ws2p1_client \<Rightarrow> (bool \<times> 'f ws2p1_client) run" where
  "to_conductor r payload cl = do {
     from_id \<leftarrow> cm_node_full_id (cl_meta cl);
     Some (w1_conductor_up r, if w1_conductor_up r
       then cl\<lparr>cl_conductor := cl_conductor cl @ [\<lparr>vm_from = from_id, vm_payload = payload\<rparr>]\<rparr> else cl)
   }"

definition ws2p_challenge :: ustring where
  "ws2p_challenge = ascii ''b60a14fd-0826-4ae0-83eb-1a92cd59fd5308535fd3-78f2-4678-9315-cd6e3b7871b1''"

text \<open>The url to open and the client given to the websocket crate; times are in milliseconds.\<close>

definition connect_to_ws2p_endpoint ::
  "'f ws2p1_env \<Rightarrow> endpoint_v1 \<Rightarrow> nat \<Rightarrow> ustring \<Rightarrow> key_pair \<Rightarrow> nat \<Rightarrow> (ustring \<times> 'f ws2p1_client) run" where
  "connect_to_ws2p_endpoint e endpoint socket currency key_pair now = do {
     ws_url \<leftarrow> e1_get_url endpoint True False;
     node_id \<leftarrow> e1_node_id endpoint;
     let m = (conn_meta_new ws2p_challenge)\<lparr>cm_remote_pubkey := Some (e1_issuer endpoint), cm_remote_uuid := Some node_id\<rparr>;
     connect_message \<leftarrow> v1_connect_message e currency key_pair (cm_challenge m);
     Some (ws_url, \<lparr>cl_calls = [], cl_conductor = [], cl_socket = socket, cl_currency = currency,
       cl_key_pair = key_pair, cl_connect_message = connect_message, cl_meta = m, cl_last_mess_time = now,
       cl_spam_interval = False, cl_spam_counter = 0, cl_timeout = None\<rparr>)
   }"

definition token_connect :: nat where "token_connect = 1"
definition token_expire :: nat where "token_expire = 2"

definition client_on_open :: "ws1_results \<Rightarrow> 'f ws2p1_client \<Rightarrow> ((unit + unit) \<times> 'f ws2p1_client) run" where
  "client_on_open r cl =
     and_then (ws1_call_done (w1_timeout_ok r) (CallTimeout 15000 token_connect) cl) (\<lambda>_ cl.
     and_then (ws1_call_done (w1_timeout_ok r) (CallTimeout 120000 token_expire) cl) (\<lambda>_ cl. do {
       (sent, cl) \<leftarrow> to_conductor r (PayWebsocketOk (cl_socket cl)) cl;
       if \<not> sent then ws1_call_done (w1_close_ok r) (CallClose ''Normal'') cl
       else ws1_call_done (w1_send_ok r) (CallSend (cl_connect_message cl)) cl
     }))"

datatype ws1_message = WsText ustring | WsBinary "nat list"

text \<open>
  The counter of messages that are considered as spam. The interval is meant in milliseconds but
  counted in seconds, and it is the messages that are further apart that are counted.
\<close>

definition count_spam :: "nat \<Rightarrow> 'f ws2p1_client \<Rightarrow> 'f ws2p1_client" where
  "count_spam now cl =
     (if now - cl_last_mess_time cl > 80000 then
        (if cl_spam_interval cl then cl\<lparr>cl_spam_counter := cl_spam_counter cl + 1\<rparr>
         else cl\<lparr>cl_spam_interval := True, cl_spam_counter := 2\<rparr>)
      else cl\<lparr>cl_spam_interval := False, cl_spam_counter := 0\<rparr>)"

definition client_on_message ::
  "'f ws2p1_env \<Rightarrow> ws1_results \<Rightarrow> nat \<times> nat \<Rightarrow> ws1_message \<Rightarrow> 'f ws2p1_client \<Rightarrow>
   ((unit + unit) \<times> 'f ws2p1_client) run" where
  "client_on_message e r clock msg cl =
     (if fst clock < cl_last_mess_time cl then None
      else let cl = count_spam (fst clock) cl in
        if cl_spam_counter cl \<ge> 6 then Some (Inr (), cl\<lparr>cl_last_mess_time := snd clock\<rparr>)
        else let cl = cl\<lparr>cl_last_mess_time := snd clock\<rparr> in
          (case msg of
             WsBinary _ \<Rightarrow> Some (Inr (), cl)
           | WsText s \<Rightarrow> do {
               json_message \<leftarrow> json_read e s;
               (payload, m) \<leftarrow> parse_and_check_incoming_message e (cl_currency cl) (cl_key_pair cl) json_message
                 (cl_meta cl);
               (sent, cl) \<leftarrow> to_conductor r payload (cl\<lparr>cl_meta := m\<rparr>);
               if sent then Some (Inr (), cl) else ws1_call_done (w1_close_ok r) (CallClose ''Normal'') cl
             }))"

definition client_on_timeout ::
  "ws1_results \<Rightarrow> nat \<Rightarrow> 'f ws2p1_client \<Rightarrow> ((unit + unit) \<times> 'f ws2p1_client) run" where
  "client_on_timeout r token cl =
     (if token = token_connect then
        (if cm_state (cl_meta cl) \<noteq> Established then do {
           (_, cl) \<leftarrow> to_conductor r PayNegociationTimeout cl;
           ws1_call_done (w1_close_ok r) (CallClose ''Away'') cl
         }
         else Some (Inr (), cl))
      else if token = token_expire then do {
        (_, cl) \<leftarrow> to_conductor r PayTimeout cl;
        ws1_call_done (w1_close_ok r) (CallClose ''Away'') cl
      }
      else Some (Inr (), cl))"

text \<open>The timeout of the connection is kept to be cancelled by the next one.\<close>

definition client_on_new_timeout ::
  "ws1_results \<Rightarrow> nat \<Rightarrow> nat \<Rightarrow> 'f ws2p1_client \<Rightarrow> ((unit + unit) \<times> 'f ws2p1_client) run" where
  "client_on_new_timeout r token timeout cl =
     (if token = token_expire then
        and_then (case cl_timeout cl of
            Some t \<Rightarrow> ws1_call_done (w1_cancel_ok r) (CallCancel t) (cl\<lparr>cl_timeout := None\<rparr>)
          | None \<Rightarrow> Some (Inr (), cl)) (\<lambda>_ cl. Some (Inr (), cl\<lparr>cl_timeout := Some timeout\<rparr>))
      else Some (Inr (), cl))"

definition client_on_frame :: "ws1_results \<Rightarrow> 'f ws2p1_client \<Rightarrow> ((unit + unit) \<times> 'f ws2p1_client) run" where
  "client_on_frame r cl = ws1_call_done (w1_timeout_ok r) (CallTimeout 120000 token_expire) cl"

definition client_on_close :: "ws1_results \<Rightarrow> 'f ws2p1_client \<Rightarrow> ((unit + unit) \<times> 'f ws2p1_client) run" where
  "client_on_close r cl = do { (_, cl) \<leftarrow> to_conductor r PayClose cl; Some (Inr (), cl) }"

datatype ws1_event =
  Ev1Open ws1_results
| Ev1Message ws1_results "nat \<times> nat" ws1_message
| Ev1Timeout ws1_results nat
| Ev1NewTimeout ws1_results nat nat
| Ev1Frame ws1_results
| Ev1Close ws1_results

text \<open>What the websocket crate calls, in the order of its events.\<close>

fun client_turn :: "'f ws2p1_env \<Rightarrow> ws1_event \<Rightarrow> 'f ws2p1_client \<Rightarrow> ((unit + unit) \<times> 'f ws2p1_client) run" where
  "client_turn e (Ev1Open r) cl = client_on_open r cl"
| "client_turn e (Ev1Message r clock msg) cl = client_on_message e r clock msg cl"
| "client_turn e (Ev1Timeout r token) cl = client_on_timeout r token cl"
| "client_turn e (Ev1NewTimeout r token timeout) cl = client_on_new_timeout r token timeout cl"
| "client_turn e (Ev1Frame r) cl = client_on_frame r cl"
| "client_turn e (Ev1Close r) cl = client_on_close r cl"

definition client_turns :: "'f ws2p1_env \<Rightarrow> ws1_event list \<Rightarrow> 'f ws2p1_client \<Rightarrow> 'f ws2p1_client run" where
  "client_turns e = fold_run (\<lambda>event cl. map_option snd (client_turn e event cl))"

section \<open>Requests read back\<close>

fun req_body_wf :: "v1_req_body \<Rightarrow> bool" where
  "req_body_wf ReqGetCurrent \<longleftrightarrow> True"
| "req_body_wf (ReqGetBlock number) \<longleftrightarrow> number < 2 ^ 32"
| "req_body_wf (ReqGetBlocks count from_number) \<longleftrightarrow> count < 2 ^ 32 \<and> from_number < 2 ^ 32"
| "req_body_wf (ReqGetRequirementsPending min_cert) \<longleftrightarrow> min_cert < 2 ^ 64"

lemma req_body_read: "req_body_wf body \<Longrightarrow>
    req_body_from_json (j_object [(''name'', JString (ascii (fst (req_name_params body)))),
      (''params'', snd (req_name_params body))]) = Some body"
  by (cases body) (simp_all add: req_body_from_json_def req_param_def try_uint_def field_defs)

text \<open>
  C30: A request that a node sends is read as the same request, with its identifier, by the node that
  receives it. The state of the connection does not matter: requests are taken before the negotiation.
\<close>

theorem request_received:
  assumes "req_body_wf body" "uuid_parse e (uuid_show e i) = Some i"
  shows "parse_and_check_incoming_message e currency key_pair
      (network_request_to_json e \<lparr>rq_id = i, rq_body = body\<rparr>) m = Some (PayRequest i body, m)"
  using req_body_read[OF assms(1)] assms(2)
  by (cases "req_name_params body") (simp add: parse_and_check_incoming_message_def network_request_to_json_def
      check_auth_def field_defs check_request_def)

theorem request_received_witness:
  "\<exists>e :: nat ws2p1_env. parse_and_check_incoming_message e (ascii ''g1'') KeyPairSchnorr
      (network_request_to_json e \<lparr>rq_id = 7, rq_body = ReqGetBlocks 50 0\<rparr>) (conn_meta_new []) =
    Some (PayRequest 7 (ReqGetBlocks 50 0), conn_meta_new [])"
proof -
  define e :: "nat ws2p1_env" where "e = (undefined :: nat ws2p1_env)
    \<lparr>uuid_parse := (\<lambda>s. case s of [i] \<Rightarrow> Some i | _ \<Rightarrow> None), uuid_show := (\<lambda>i. [i])\<rparr>"
  have "uuid_parse e (uuid_show e 7) = Some 7" by (simp add: e_def)
  then show ?thesis using request_received[of "ReqGetBlocks 50 0" e 7] by auto
qed

section \<open>Established connections\<close>

text \<open>A message of the negotiation that the key \<open>k\<close> has signed over a challenge.\<close>

definition signed_by :: "'f ws2p1_env \<Rightarrow> ustring \<Rightarrow> string \<Rightarrow> pub_key \<Rightarrow> ustring \<Rightarrow> json_value \<Rightarrow> bool" where
  "signed_by e currency kind k challenge v \<longleftrightarrow> field_str ''auth'' v = Some (ascii kind) \<and>
     (\<exists>s sig. field_str ''sig'' v = Some s \<and> sig_from_base64 (v1_codecs e) s = Inr sig \<and>
       auth_verify (auth_to_raw kind) (v1_crypto e) \<lparr>am_currency = currency, am_pubkey = k, am_challenge = challenge,
         am_signature = Some sig\<rparr> = Some True)"

text \<open>What a connection with the node of key \<open>k\<close> has received, in each state.\<close>

definition connect_seen :: "'f ws2p1_env \<Rightarrow> ustring \<Rightarrow> pub_key \<Rightarrow> ustring \<Rightarrow> json_value set \<Rightarrow> bool" where
  "connect_seen e currency k remote seen \<longleftrightarrow>
     (\<exists>v \<in> seen. field_str ''challenge'' v = Some remote \<and> signed_by e currency ''CONNECT'' k remote v)"

definition ok_seen :: "'f ws2p1_env \<Rightarrow> ustring \<Rightarrow> pub_key \<Rightarrow> ustring \<Rightarrow> json_value set \<Rightarrow> bool" where
  "ok_seen e currency k remote seen \<longleftrightarrow> (\<exists>v \<in> seen. signed_by e currency ''OK'' k remote v)"

text \<open>The acknowledgement is signed by the key that it names, which may be any.\<close>

definition ack_seen :: "'f ws2p1_env \<Rightarrow> ustring \<Rightarrow> json_value set \<Rightarrow> bool" where
  "ack_seen e currency seen \<longleftrightarrow> (\<exists>v \<in> seen. \<exists>key k. field_str ''pub'' v = Some key \<and>
     key_from_base58 (v1_codecs e) key = Inr k \<and> signed_by e currency ''ACK'' k ws2p_challenge v)"

definition meta_ok :: "'f ws2p1_env \<Rightarrow> ustring \<Rightarrow> pub_key \<Rightarrow> json_value set \<Rightarrow> conn_meta \<Rightarrow> bool" where
  "meta_ok e currency k seen m \<longleftrightarrow> cm_remote_pubkey m = Some k \<and> cm_challenge m = ws2p_challenge \<and>
     cm_state m \<in> {WaitingConnectMess, ConnectMessOk, OkMessOkWaitingAckMess, AckMessOk, Established} \<and>
     (cm_state m \<noteq> WaitingConnectMess \<longrightarrow> connect_seen e currency k (cm_remote_challenge m) seen) \<and>
     (cm_state m \<in> {OkMessOkWaitingAckMess, Established} \<longrightarrow> ok_seen e currency k (cm_remote_challenge m) seen) \<and>
     (cm_state m \<in> {AckMessOk, Established} \<longrightarrow> ack_seen e currency seen)"

lemma seen_mono:
  "connect_seen e currency k ch seen \<Longrightarrow> connect_seen e currency k ch (insert v seen)"
  "ok_seen e currency k ch seen \<Longrightarrow> ok_seen e currency k ch (insert v seen)"
  "ack_seen e currency seen \<Longrightarrow> ack_seen e currency (insert v seen)"
  by (auto simp: connect_seen_def ok_seen_def ack_seen_def)

lemma meta_ok_mono: "meta_ok e currency k seen m \<Longrightarrow> meta_ok e currency k (insert v seen) m"
  by (auto simp: meta_ok_def intro: seen_mono)

lemma ok_opt_Some [simp]: "ok_opt r = Some v \<longleftrightarrow> r = Inr v"
  by (cases r) (simp_all add: ok_opt_def)

lemma check_connect_cases:
  assumes "check_connect e currency key_pair msg m = Some (p, m')" "field_str ''auth'' msg = Some (ascii ''CONNECT'')"
  shows "m' = m \<or> (\<exists>ch k. cm_state m = WaitingConnectMess \<and> cm_remote_pubkey m = Some k \<and>
    m' = m\<lparr>cm_state := ConnectMessOk, cm_remote_challenge := ch\<rparr> \<and> connect_seen e currency k ch {msg})"
  using assms
  by (auto simp: check_connect_def connect_parse_def connect_seen_def signed_by_def connect_to_raw_def
      split: bind_splits if_splits)

lemma check_ok_cases:
  assumes "check_ok e currency msg m = Some (p, m')" "field_str ''auth'' msg = Some (ascii ''OK'')"
  shows "m' = m \<or> (\<exists>k. cm_remote_pubkey m = Some k \<and> ok_seen e currency k (cm_remote_challenge m) {msg} \<and>
    (cm_state m = ConnectMessOk \<and> m' = m\<lparr>cm_state := OkMessOkWaitingAckMess\<rparr> \<or>
     cm_state m = AckMessOk \<and> m' = m\<lparr>cm_state := Established\<rparr>))"
  using assms
  by (auto simp: check_ok_def ok_parse_def ok_seen_def signed_by_def ok_to_raw_def
      split: bind_splits if_splits)

lemma check_ack_cases:
  assumes "check_ack e currency key_pair msg m = Some (p, m')" "field_str ''auth'' msg = Some (ascii ''ACK'')"
    and "cm_challenge m = ws2p_challenge"
  shows "m' = m \<or> ack_seen e currency {msg} \<and>
    (cm_state m = ConnectMessOk \<and> m' = m\<lparr>cm_state := AckMessOk\<rparr> \<or>
     cm_state m = OkMessOkWaitingAckMess \<and> m' = m\<lparr>cm_state := Established\<rparr>)"
  using assms
  by (auto simp: check_ack_def ack_parse_def ack_seen_def signed_by_def ack_to_raw_def
      split: bind_splits if_splits)

lemma incoming_auth:
  assumes "parse_and_check_incoming_message e currency key_pair msg m = Some (payload, m')"
  shows "\<exists>p. check_auth e currency key_pair msg m = Some (p, m')"
  using assms by (auto simp: parse_and_check_incoming_message_def split: bind_splits option.splits)

lemma incoming_meta_ok:
  assumes "parse_and_check_incoming_message e currency key_pair msg m = Some (payload, m')" "meta_ok e currency k seen m"
  shows "meta_ok e currency k (insert msg seen) m'"
proof -
  have seen: "connect_seen e currency k' ch {msg} \<Longrightarrow> connect_seen e currency k' ch (insert msg seen)"
    "ok_seen e currency k' ch {msg} \<Longrightarrow> ok_seen e currency k' ch (insert msg seen)"
    "ack_seen e currency {msg} \<Longrightarrow> ack_seen e currency (insert msg seen)" for k' ch
    by (auto simp: connect_seen_def ok_seen_def ack_seen_def)
  have m: "meta_ok e currency k (insert msg seen) m" using assms(2) by (rule meta_ok_mono)
  obtain p where "check_auth e currency key_pair msg m = Some (p, m')"
    using incoming_auth[OF assms(1)] by blast
  then consider "m' = m"
    | "check_connect e currency key_pair msg m = Some (p, m')" "field_str ''auth'' msg = Some (ascii ''CONNECT'')"
    | "check_ack e currency key_pair msg m = Some (p, m')" "field_str ''auth'' msg = Some (ascii ''ACK'')"
    | "check_ok e currency msg m = Some (p, m')" "field_str ''auth'' msg = Some (ascii ''OK'')"
    by (auto simp: check_auth_def split: option.splits if_splits)
  then show ?thesis
  proof cases
    case 1
    then show ?thesis using m by simp
  next
    case 2
    from check_connect_cases[OF 2] show ?thesis
    proof (elim disjE exE conjE)
      fix ch k'
      assume a: "cm_remote_pubkey m = Some k'" "m' = m\<lparr>cm_state := ConnectMessOk, cm_remote_challenge := ch\<rparr>"
        "connect_seen e currency k' ch {msg}"
      then show ?thesis using m seen(1)[OF a(3)] by (simp add: meta_ok_def)
    qed (use m in simp)
  next
    case 3
    have ch: "cm_challenge m = ws2p_challenge" using m by (simp add: meta_ok_def)
    from check_ack_cases[OF 3 ch] show ?thesis
    proof (elim disjE conjE)
      assume a: "ack_seen e currency {msg}" "cm_state m = ConnectMessOk" "m' = m\<lparr>cm_state := AckMessOk\<rparr>"
      then show ?thesis using m seen(3)[OF a(1)] by (simp add: meta_ok_def)
    next
      assume a: "ack_seen e currency {msg}" "cm_state m = OkMessOkWaitingAckMess" "m' = m\<lparr>cm_state := Established\<rparr>"
      then show ?thesis using m seen(3)[OF a(1)] by (simp add: meta_ok_def)
    qed (use m in simp)
  next
    case 4
    from check_ok_cases[OF 4] show ?thesis
    proof (elim disjE exE conjE)
      fix k'
      assume a: "cm_remote_pubkey m = Some k'" "ok_seen e currency k' (cm_remote_challenge m) {msg}"
        "cm_state m = ConnectMessOk" "m' = m\<lparr>cm_state := OkMessOkWaitingAckMess\<rparr>"
      then show ?thesis using m seen(2)[OF a(2)] by (simp add: meta_ok_def)
    next
      fix k'
      assume a: "cm_remote_pubkey m = Some k'" "ok_seen e currency k' (cm_remote_challenge m) {msg}"
        "cm_state m = AckMessOk" "m' = m\<lparr>cm_state := Established\<rparr>"
      then show ?thesis using m seen(2)[OF a(2)] by (simp add: meta_ok_def)
    qed (use m in simp)
  qed
qed

text \<open>The messages that a client has received.\<close>

definition texts_of :: "'f ws2p1_env \<Rightarrow> ws1_event list \<Rightarrow> json_value set" where
  "texts_of e events = {v. \<exists>r clock s. Ev1Message r clock (WsText s) \<in> set events \<and> json_read e s = Some v}"

lemma count_spam_simps [simp]:
  "cl_meta (count_spam now cl) = cl_meta cl" "cl_currency (count_spam now cl) = cl_currency cl"
  "cl_key_pair (count_spam now cl) = cl_key_pair cl"
  by (simp_all add: count_spam_def)

lemma ws1_call_done_simps [simp]:
  "ws1_call_done ok call cl = Some (r, cl') \<longleftrightarrow>
     r = (if ok then Inr () else Inl ()) \<and> cl' = cl\<lparr>cl_calls := cl_calls cl @ [call]\<rparr>"
  by (auto simp: ws1_call_done_def)

lemma to_conductor_fields:
  assumes "to_conductor r payload cl = Some (sent, cl')"
  shows "cl_meta cl' = cl_meta cl \<and> cl_currency cl' = cl_currency cl \<and> cl_key_pair cl' = cl_key_pair cl"
  using assms by (auto simp: to_conductor_def split: bind_splits if_splits)

text \<open>Only a text message changes the data of the connection, as the check of its value does.\<close>

lemma client_turn_meta:
  assumes "client_turn e event cl = Some (res, cl')"
  shows "cl_currency cl' = cl_currency cl \<and> cl_key_pair cl' = cl_key_pair cl \<and>
    (cl_meta cl' = cl_meta cl \<or> (\<exists>r clock s v payload. event = Ev1Message r clock (WsText s) \<and> json_read e s = Some v \<and>
       parse_and_check_incoming_message e (cl_currency cl) (cl_key_pair cl) v (cl_meta cl) = Some (payload, cl_meta cl')))"
proof (cases event)
  case (Ev1Open r)
  then show ?thesis using assms
    by (auto simp: client_on_open_def and_then_def ws1_call_done_def dest!: to_conductor_fields
        split: bind_splits sum.splits if_splits)
next
  case (Ev1Message r clock msg)
  then show ?thesis using assms
    by (cases msg) (auto simp: client_on_message_def Let_def dest!: to_conductor_fields
        split: bind_splits if_splits)
next
  case (Ev1Timeout r token)
  then show ?thesis using assms
    by (auto simp: client_on_timeout_def dest!: to_conductor_fields split: bind_splits if_splits)
next
  case (Ev1NewTimeout r token timeout)
  then show ?thesis using assms
    by (auto simp: client_on_new_timeout_def and_then_def ws1_call_done_def
        split: bind_splits sum.splits if_splits option.splits)
next
  case (Ev1Frame r)
  then show ?thesis using assms by (auto simp: client_on_frame_def)
next
  case (Ev1Close r)
  then show ?thesis using assms
    by (auto simp: client_on_close_def dest!: to_conductor_fields split: bind_splits)
qed

lemma client_turns_snoc:
  "client_turns e (events @ [event]) cl = client_turns e events cl \<bind> (\<lambda>cl. map_option snd (client_turn e event cl))"
  by (simp add: client_turns_def fold_run_snoc)

lemma client_turns_ok:
  assumes "client_turns e events cl0 = Some cl" "meta_ok e (cl_currency cl0) k {} (cl_meta cl0)"
  shows "cl_currency cl = cl_currency cl0 \<and> meta_ok e (cl_currency cl0) k (texts_of e events) (cl_meta cl)"
  using assms(1)
proof (induction events arbitrary: cl rule: rev_induct)
  case Nil
  then show ?case using assms(2) by (simp add: client_turns_def texts_of_def)
next
  case (snoc event events)
  then obtain cl1 res where cl1: "client_turns e events cl0 = Some cl1" "client_turn e event cl1 = Some (res, cl)"
    by (auto simp: client_turns_snoc split: bind_splits)
  have IH: "cl_currency cl1 = cl_currency cl0" "meta_ok e (cl_currency cl0) k (texts_of e events) (cl_meta cl1)"
    using snoc.IH[OF cl1(1)] by simp_all
  have sub: "texts_of e events \<subseteq> texts_of e (events @ [event])" by (auto simp: texts_of_def)
  have mono: "meta_ok e (cl_currency cl0) k (texts_of e (events @ [event])) m"
    if "meta_ok e (cl_currency cl0) k S m" "S \<subseteq> texts_of e (events @ [event])" for S m
    using that by (fastforce simp: meta_ok_def connect_seen_def ok_seen_def ack_seen_def)
  from client_turn_meta[OF cl1(2)] show ?case
  proof (elim conjE disjE exE)
    assume "cl_currency cl = cl_currency cl1" "cl_meta cl = cl_meta cl1"
    then show ?thesis using IH mono[OF IH(2) sub] by simp
  next
    fix r clock s v payload
    assume a: "cl_currency cl = cl_currency cl1" "event = Ev1Message r clock (WsText s)" "json_read e s = Some v"
      "parse_and_check_incoming_message e (cl_currency cl1) (cl_key_pair cl1) v (cl_meta cl1) = Some (payload, cl_meta cl)"
    have "v \<in> texts_of e (events @ [event])" 
      unfolding texts_of_def using a by (intro CollectI exI[of _ r] exI[of _ clock] exI[of _ s]) simp
    then show ?thesis
      using a IH incoming_meta_ok[OF a(4)] mono[of "insert v (texts_of e events)"] sub by auto
  qed
qed

lemma new_client_ok:
  assumes "connect_to_ws2p_endpoint e endpoint socket currency key_pair now = Some (url, cl)"
  shows "cl_currency cl = currency" "cl_key_pair cl = key_pair" "meta_ok e currency (e1_issuer endpoint) {} (cl_meta cl)"
  using assms by (auto simp: connect_to_ws2p_endpoint_def conn_meta_new_def meta_ok_def split: bind_splits)

text \<open>
  C25: A connection to an endpoint is established only after its peer has sent a CONNECT message that the
  key of the endpoint has signed, an OK message that this key has signed over the challenge of the
  CONNECT message, and an ACK message over the challenge of the node, signed by the key that the ACK
  message itself names, whichever it is.
\<close>

theorem ws2p1_established:
  assumes "connect_to_ws2p_endpoint e endpoint socket currency key_pair now = Some (url, cl0)"
    and "client_turns e events cl0 = Some cl" "cm_state (cl_meta cl) = Established"
  shows "\<exists>challenge. connect_seen e currency (e1_issuer endpoint) challenge (texts_of e events) \<and>
    ok_seen e currency (e1_issuer endpoint) challenge (texts_of e events) \<and> ack_seen e currency (texts_of e events)"
  using client_turns_ok[OF assms(2)] new_client_ok[OF assms(1)] assms(3) by (auto simp: meta_ok_def)

text \<open>An encoding for the examples, with signatures that repeat the first letter of the text.\<close>

definition example_connect :: json_value where
  "example_connect = j_object [(''auth'', JString (ascii ''CONNECT'')), (''pub'', JString (replicate 32 65)),
     (''challenge'', JString (ascii ''abc'')), (''sig'', JString (replicate 64 87))]"

definition example_ack :: json_value where
  "example_ack = j_object [(''auth'', JString (ascii ''ACK'')), (''pub'', JString (replicate 32 66)),
     (''sig'', JString (replicate 64 87))]"

definition example_ok :: json_value where
  "example_ok = j_object [(''auth'', JString (ascii ''OK'')), (''sig'', JString (replicate 64 87))]"

definition example_env1 :: "nat ws2p1_env" where
  "example_env1 = \<lparr>v1_crypto = toy_crypto\<lparr>c_ed25519_verify := (\<lambda>k m s. s = replicate 64 (hd m))\<rparr>,
     v1_codecs = toy_codecs\<lparr>d_base58 := (\<lambda>s. Inr (take 32 s))\<rparr>, v1_pest = undefined, v1_net_pest = undefined,
     v1_f64 = nat_text, json_read = (\<lambda>s. if s = [4] then Some example_connect else if s = [5] then Some example_ack
       else if s = [6] then Some example_ok else None), json_show = (\<lambda>_. []), uuid_parse = (\<lambda>_. None),
     uuid_show = (\<lambda>_. [])\<rparr>"

definition example_endpoint1 :: endpoint_v1 where
  "example_endpoint1 = \<lparr>e1_api = ascii ''WS2P'', e1_node_id = Some 7, e1_issuer = PubEd25519 (replicate 32 65),
     e1_hash_full_id = None, e1_host = ascii ''host'', e1_port = 80, e1_path = None, e1_raw = [], e1_status = 0,
     e1_last_check = 0\<rparr>"

definition example_events1 :: "ws1_event list" where
  "example_events1 = map (\<lambda>n. Ev1Message \<lparr>w1_conductor_up = True, w1_send_ok = True, w1_close_ok = True,
     w1_timeout_ok = True, w1_cancel_ok = True\<rparr> (0, 0) (WsText [n])) [4, 5, 6]"

lemma length_ascii [simp]: "length (ascii s) = length s"
  by (simp add: ascii_def)

lemma hd_ws2p: "hd (ascii ''WS2P:'' @ s) = 87"
  by (simp add: ascii_def)

lemma example_parsed:
  "connect_parse (v1_codecs example_env1) example_connect c = Some \<lparr>am_currency = c,
     am_pubkey = PubEd25519 (replicate 32 65), am_challenge = ascii ''abc'', am_signature = Some (SigEd25519 (replicate 64 87))\<rparr>"
  "ack_parse (v1_codecs example_env1) example_ack c = Some \<lparr>am_currency = c,
     am_pubkey = PubEd25519 (replicate 32 66), am_challenge = [], am_signature = Some (SigEd25519 (replicate 64 87))\<rparr>"
  "\<exists>k. ok_parse (v1_codecs example_env1) example_ok c = Some \<lparr>am_currency = c,
     am_pubkey = k, am_challenge = [], am_signature = Some (SigEd25519 (replicate 64 87))\<rparr>"
  by (simp_all add: connect_parse_def ack_parse_def ok_parse_def example_env1_def toy_codecs_def example_connect_def
      example_ack_def example_ok_def field_defs key_from_base58_def sig_from_base64_def str_base58_to_32bytes_def
      base58_to_bytes_def str_base64_to_64bytes_def)

lemma example_verified:
  "auth_verify (auth_to_raw kind) (v1_crypto example_env1) \<lparr>am_currency = c, am_pubkey = PubEd25519 k,
     am_challenge = ch, am_signature = Some (SigEd25519 (replicate 64 87))\<rparr> = Some True"
  by (simp add: auth_verify_def auth_to_raw_def example_env1_def toy_crypto_def hd_ws2p)

lemmas example_verified_raw = example_verified[of "''CONNECT''", folded connect_to_raw_def]
  example_verified[of "''ACK''", folded ack_to_raw_def] example_verified[of "''OK''", folded ok_to_raw_def]

lemma own_total:
  "\<exists>s. own_auth_message e connect_to_raw connect_serialize currency (KeyPairEd25519 k sk) challenge = Some s"
  "\<exists>s. own_auth_message e ack_to_raw ack_serialize currency (KeyPairEd25519 k sk) challenge = Some s"
  "\<exists>s. own_auth_message e ok_to_raw ok_serialize currency (KeyPairEd25519 k sk) challenge = Some s"
  by (simp_all add: own_auth_message_def auth_sign_def auth_to_raw_def connect_serialize_def connect_to_raw_def
      ack_to_raw_def ok_to_raw_def ack_serialize_def ok_serialize_def)

lemma example_turn:
  assumes "json_read e s = Some v" "cl_last_mess_time cl = 0" "w1_conductor_up r"
    and "parse_and_check_incoming_message e (cl_currency cl) (cl_key_pair cl) v (cl_meta cl) = Some (payload, m)"
    and "cm_node_full_id m = Some i"
  shows "\<exists>cl'. client_turn e (Ev1Message r (0, 0) (WsText s)) cl = Some (Inr (), cl') \<and> cl_meta cl' = m \<and>
    cl_last_mess_time cl' = 0 \<and> cl_currency cl' = cl_currency cl \<and> cl_key_pair cl' = cl_key_pair cl"
  using assms by (simp add: client_on_message_def count_spam_def Let_def to_conductor_def)

definition example_meta :: "ws2p_connection_state \<Rightarrow> ustring \<Rightarrow> conn_meta" where
  "example_meta s ch = \<lparr>cm_state = s, cm_remote_uuid = Some 7, cm_remote_pubkey = Some (PubEd25519 (replicate 32 65)),
     cm_challenge = ws2p_challenge, cm_remote_challenge = ch, cm_current_blockstamp = None\<rparr>"

lemma example_checks:
  "\<exists>p. parse_and_check_incoming_message example_env1 c (KeyPairEd25519 k sk) example_connect
     (example_meta WaitingConnectMess []) = Some (p, example_meta ConnectMessOk (ascii ''abc''))"
  "\<exists>p. parse_and_check_incoming_message example_env1 c (KeyPairEd25519 k sk) example_ack
     (example_meta ConnectMessOk (ascii ''abc'')) = Some (p, example_meta AckMessOk (ascii ''abc''))"
  "\<exists>p. parse_and_check_incoming_message example_env1 c (KeyPairEd25519 k sk) example_ok
     (example_meta AckMessOk (ascii ''abc'')) = Some (p, example_meta Established (ascii ''abc''))"
proof -
  have auths: "field_str ''auth'' example_connect = Some (ascii ''CONNECT'')"
    "field_str ''auth'' example_ack = Some (ascii ''ACK'')" "field_str ''auth'' example_ok = Some (ascii ''OK'')"
    by (simp_all add: field_defs example_connect_def example_ack_def example_ok_def)
  obtain a where a: "own_auth_message example_env1 ack_to_raw ack_serialize c (KeyPairEd25519 k sk) (ascii ''abc'') = Some a"
    using own_total(2) by blast
  obtain b where b: "own_auth_message example_env1 ok_to_raw ok_serialize c (KeyPairEd25519 k sk) ws2p_challenge = Some b"
    using own_total(3) by blast
  obtain k' where k': "ok_parse (v1_codecs example_env1) example_ok c = Some \<lparr>am_currency = c,
     am_pubkey = k', am_challenge = [], am_signature = Some (SigEd25519 (replicate 64 87))\<rparr>"
    using example_parsed(3) by blast
  note defs = parse_and_check_incoming_message_def check_auth_def auths example_parsed example_verified_raw example_meta_def
  show "\<exists>p. parse_and_check_incoming_message example_env1 c (KeyPairEd25519 k sk) example_connect
     (example_meta WaitingConnectMess []) = Some (p, example_meta ConnectMessOk (ascii ''abc''))"
    by (simp add: defs check_connect_def a)
  show "\<exists>p. parse_and_check_incoming_message example_env1 c (KeyPairEd25519 k sk) example_ack
     (example_meta ConnectMessOk (ascii ''abc'')) = Some (p, example_meta AckMessOk (ascii ''abc''))"
    by (simp add: defs check_ack_def b)
  show "\<exists>p. parse_and_check_incoming_message example_env1 c (KeyPairEd25519 k sk) example_ok
     (example_meta AckMessOk (ascii ''abc'')) = Some (p, example_meta Established (ascii ''abc''))"
    by (simp add: defs check_ok_def k')
qed

lemma example_established:
  "\<exists>url cl0 cl. connect_to_ws2p_endpoint example_env1 example_endpoint1 3 (ascii ''g1'') (KeyPairEd25519 [2] [2]) 0 =
     Some (url, cl0) \<and> client_turns example_env1 example_events1 cl0 = Some cl \<and>
     cm_state (cl_meta cl) = Established"
proof -
  let ?key = "KeyPairEd25519 [2] [2]" and ?r = "\<lparr>w1_conductor_up = True, w1_send_ok = True, w1_close_ok = True,
     w1_timeout_ok = True, w1_cancel_ok = True\<rparr>"
  obtain cm where "own_auth_message example_env1 connect_to_raw connect_serialize (ascii ''g1'') ?key ws2p_challenge = Some cm"
    using own_total(1) by blast
  then obtain url cl0 where cl0: "connect_to_ws2p_endpoint example_env1 example_endpoint1 3 (ascii ''g1'') ?key 0 =
      Some (url, cl0)" "cl_meta cl0 = example_meta WaitingConnectMess []" "cl_last_mess_time cl0 = 0"
      "cl_currency cl0 = ascii ''g1''" "cl_key_pair cl0 = ?key"
    by (simp add: connect_to_ws2p_endpoint_def example_endpoint1_def e1_get_url_def conn_meta_new_def
        v1_connect_message_def example_meta_def)
  have reads: "json_read example_env1 [4] = Some example_connect" "json_read example_env1 [5] = Some example_ack"
    "json_read example_env1 [6] = Some example_ok"
    by (simp_all add: example_env1_def)
  have i: "cm_node_full_id (example_meta s ch) = Some (7, PubEd25519 (replicate 32 65))" for s ch
    by (simp add: example_meta_def cm_node_full_id_def)
  obtain p1 p2 p3 where p: "parse_and_check_incoming_message example_env1 (ascii ''g1'') ?key example_connect
     (example_meta WaitingConnectMess []) = Some (p1, example_meta ConnectMessOk (ascii ''abc''))"
     "parse_and_check_incoming_message example_env1 (ascii ''g1'') ?key example_ack
     (example_meta ConnectMessOk (ascii ''abc'')) = Some (p2, example_meta AckMessOk (ascii ''abc''))"
     "parse_and_check_incoming_message example_env1 (ascii ''g1'') ?key example_ok
     (example_meta AckMessOk (ascii ''abc'')) = Some (p3, example_meta Established (ascii ''abc''))"
    using example_checks[of "ascii ''g1''" "[2]" "[2]"] by blast
  obtain cl1 where cl1: "client_turn example_env1 (Ev1Message ?r (0, 0) (WsText [4])) cl0 = Some (Inr (), cl1)"
      "cl_meta cl1 = example_meta ConnectMessOk (ascii ''abc'')" "cl_last_mess_time cl1 = 0"
      "cl_currency cl1 = ascii ''g1''" "cl_key_pair cl1 = ?key"
    using example_turn[OF reads(1) cl0(3), of ?r p1 _ "(7, PubEd25519 (replicate 32 65))"] cl0 p(1) i by auto
  obtain cl2 where cl2: "client_turn example_env1 (Ev1Message ?r (0, 0) (WsText [5])) cl1 = Some (Inr (), cl2)"
      "cl_meta cl2 = example_meta AckMessOk (ascii ''abc'')" "cl_last_mess_time cl2 = 0"
      "cl_currency cl2 = ascii ''g1''" "cl_key_pair cl2 = ?key"
    using example_turn[OF reads(2) cl1(3), of ?r p2 _ "(7, PubEd25519 (replicate 32 65))"] cl1 p(2) i by auto
  obtain cl3 where "client_turn example_env1 (Ev1Message ?r (0, 0) (WsText [6])) cl2 = Some (Inr (), cl3)"
      "cl_meta cl3 = example_meta Established (ascii ''abc'')"
    using example_turn[OF reads(3) cl2(3), of ?r p3 _ "(7, PubEd25519 (replicate 32 65))"] cl2 p(3) i by auto
  then have "client_turns example_env1 example_events1 cl0 = Some cl3" "cm_state (cl_meta cl3) = Established"
    using cl1(1) cl2(1) by (simp_all add: client_turns_def example_events1_def example_meta_def del: client_turn.simps)
  then show ?thesis using cl0(1) by blast
qed

theorem ws2p1_established_witness:
  "\<exists>challenge. connect_seen example_env1 (ascii ''g1'') (PubEd25519 (replicate 32 65)) challenge
      (texts_of example_env1 example_events1) \<and>
    ok_seen example_env1 (ascii ''g1'') (PubEd25519 (replicate 32 65)) challenge (texts_of example_env1 example_events1) \<and>
    ack_seen example_env1 (ascii ''g1'') (texts_of example_env1 example_events1)"
proof -
  obtain url cl0 cl where "connect_to_ws2p_endpoint example_env1 example_endpoint1 3 (ascii ''g1'')
      (KeyPairEd25519 [2] [2]) 0 = Some (url, cl0)" "client_turns example_env1 example_events1 cl0 = Some cl"
    "cm_state (cl_meta cl) = Established"
    using example_established by blast
  from ws2p1_established[OF this] show ?thesis by (simp add: example_endpoint1_def)
qed

section \<open>Recorded sessions\<close>

text \<open>Two clients that differ by their keys, and by what they have sent.\<close>

definition same_peer :: "'f ws2p1_client \<Rightarrow> 'f ws2p1_client \<Rightarrow> bool" where
  "same_peer cl cl' \<longleftrightarrow> cl_meta cl' = cl_meta cl \<and> cl_currency cl' = cl_currency cl \<and>
     cl_socket cl' = cl_socket cl \<and> cl_last_mess_time cl' = cl_last_mess_time cl \<and>
     cl_spam_interval cl' = cl_spam_interval cl \<and> cl_spam_counter cl' = cl_spam_counter cl \<and>
     cl_timeout cl' = cl_timeout cl \<and>
     (\<exists>k sk. cl_key_pair cl = KeyPairEd25519 k sk) \<and> (\<exists>k sk. cl_key_pair cl' = KeyPairEd25519 k sk)"

lemma check_auth_any_key:
  assumes "check_auth e currency (KeyPairEd25519 k sk) msg m = Some (p, m')"
  shows "\<exists>p'. check_auth e currency (KeyPairEd25519 k' sk') msg m = Some (p', m') \<and> (p' = None \<longleftrightarrow> p = None)"
proof -
  obtain ack where ack: "\<And>ch. own_auth_message e ack_to_raw ack_serialize currency (KeyPairEd25519 k' sk') ch = Some (ack ch)"
    using own_total(2)[of e currency k' sk'] choice[of "\<lambda>ch s. own_auth_message e ack_to_raw ack_serialize currency
      (KeyPairEd25519 k' sk') ch = Some s"] by blast
  obtain ok where ok: "\<And>ch. own_auth_message e ok_to_raw ok_serialize currency (KeyPairEd25519 k' sk') ch = Some (ok ch)"
    using own_total(3)[of e currency k' sk'] choice[of "\<lambda>ch s. own_auth_message e ok_to_raw ok_serialize currency
      (KeyPairEd25519 k' sk') ch = Some s"] by blast
  have c: "\<exists>p'. check_connect e currency (KeyPairEd25519 k' sk') msg m = Some (p', m') \<and> (p' = None \<longleftrightarrow> p = None)"
    if "check_connect e currency (KeyPairEd25519 k sk) msg m = Some (p, m')"
    using that by (auto simp: check_connect_def Let_def ack split: bind_splits if_splits)
  have a: "\<exists>p'. check_ack e currency (KeyPairEd25519 k' sk') msg m = Some (p', m') \<and> (p' = None \<longleftrightarrow> p = None)"
    if "check_ack e currency (KeyPairEd25519 k sk) msg m = Some (p, m')"
    using that by (auto simp: check_ack_def Let_def ok split: bind_splits if_splits)
  show ?thesis using assms a c by (auto simp: check_auth_def split: option.splits if_splits)
qed

lemma incoming_any_key:
  assumes "parse_and_check_incoming_message e currency (KeyPairEd25519 k sk) msg m = Some (payload, m')"
  shows "\<exists>payload'. parse_and_check_incoming_message e currency (KeyPairEd25519 k' sk') msg m = Some (payload', m')"
proof -
  obtain p where p: "check_auth e currency (KeyPairEd25519 k sk) msg m = Some (p, m')"
    using incoming_auth[OF assms] by blast
  obtain p' where p': "check_auth e currency (KeyPairEd25519 k' sk') msg m = Some (p', m')" "p' = None \<longleftrightarrow> p = None"
    using check_auth_any_key[OF p] by blast
  show ?thesis
    using assms p'(2) by (cases p; cases p') (auto simp: parse_and_check_incoming_message_def p p'(1))
qed

lemma to_conductor_same:
  assumes "to_conductor r payload cl = Some (sent, cl1)" "same_peer cl cl'"
  shows "\<exists>cl1'. to_conductor r payload' cl' = Some (sent, cl1') \<and> same_peer cl1 cl1'"
  using assms by (auto simp: to_conductor_def same_peer_def split: bind_splits if_splits)

lemma same_peer_call:
  "same_peer cl cl' \<Longrightarrow> same_peer (cl\<lparr>cl_calls := calls\<rparr>) (cl'\<lparr>cl_calls := calls'\<rparr>)"
  by (simp add: same_peer_def)

lemma message_same:
  assumes "client_on_message e r clock msg cl = Some (res, cl1)" "same_peer cl cl'"
  shows "\<exists>cl1'. client_on_message e r clock msg cl' = Some (res, cl1') \<and> same_peer cl1 cl1'"
proof -
  define c0 where "c0 = count_spam (fst clock) cl"
  define c0' where "c0' = count_spam (fst clock) cl'"
  have c0: "same_peer c0 c0'" using assms(2) by (auto simp: c0_def c0'_def count_spam_def same_peer_def)
  have spam: "cl_spam_counter c0' = cl_spam_counter c0" "cl_last_mess_time cl' = cl_last_mess_time cl"
    using c0 assms(2) by (simp_all add: same_peer_def)
  have time: "\<not> fst clock < cl_last_mess_time cl" using assms(1) by (auto simp: client_on_message_def split: if_splits)
  show ?thesis
  proof (cases "cl_spam_counter c0 \<ge> 6")
    case True
    then show ?thesis using assms(1) c0 time spam
      by (auto simp: client_on_message_def c0_def[symmetric] c0'_def[symmetric] same_peer_def)
  next
    case False
    define c1 where "c1 = c0\<lparr>cl_last_mess_time := snd clock\<rparr>"
    define c1' where "c1' = c0'\<lparr>cl_last_mess_time := snd clock\<rparr>"
    have c1: "same_peer c1 c1'" using c0 by (simp add: same_peer_def c1_def c1'_def)
    have run: "client_on_message e r clock msg cl = (case msg of
        WsBinary _ \<Rightarrow> Some (Inr (), c1)
      | WsText s \<Rightarrow> do {
          json_message \<leftarrow> json_read e s;
          (payload, m) \<leftarrow> parse_and_check_incoming_message e (cl_currency c1) (cl_key_pair c1) json_message (cl_meta c1);
          (sent, cl) \<leftarrow> to_conductor r payload (c1\<lparr>cl_meta := m\<rparr>);
          if sent then Some (Inr (), cl) else ws1_call_done (w1_close_ok r) (CallClose ''Normal'') cl
        })" "client_on_message e r clock msg cl' = (case msg of
        WsBinary _ \<Rightarrow> Some (Inr (), c1')
      | WsText s \<Rightarrow> do {
          json_message \<leftarrow> json_read e s;
          (payload, m) \<leftarrow> parse_and_check_incoming_message e (cl_currency c1') (cl_key_pair c1') json_message (cl_meta c1');
          (sent, cl) \<leftarrow> to_conductor r payload (c1'\<lparr>cl_meta := m\<rparr>);
          if sent then Some (Inr (), cl) else ws1_call_done (w1_close_ok r) (CallClose ''Normal'') cl
        })"
      using False time spam by (simp_all add: client_on_message_def Let_def c0_def[symmetric] c0'_def[symmetric] c1_def[symmetric]
          c1'_def[symmetric])
    show ?thesis
    proof (cases msg)
      case (WsBinary bytes)
      then show ?thesis using assms(1) run c1 by simp
    next
      case (WsText s)
      obtain k sk k' sk' where keys: "cl_key_pair c1 = KeyPairEd25519 k sk" "cl_key_pair c1' = KeyPairEd25519 k' sk'"
        using c1 by (auto simp: same_peer_def)
      obtain v payload m sent c2 where v: "json_read e s = Some v"
          "parse_and_check_incoming_message e (cl_currency c1) (KeyPairEd25519 k sk) v (cl_meta c1) = Some (payload, m)"
          "to_conductor r payload (c1\<lparr>cl_meta := m\<rparr>) = Some (sent, c2)"
          "(if sent then Some (Inr (), c2) else ws1_call_done (w1_close_ok r) (CallClose ''Normal'') c2) = Some (res, cl1)"
        using assms(1)[unfolded run(1)] keys by (auto simp: WsText split: bind_splits)
      obtain payload' where p': "parse_and_check_incoming_message e (cl_currency c1) (KeyPairEd25519 k' sk') v (cl_meta c1) =
          Some (payload', m)"
        using incoming_any_key[OF v(2)] by blast
      have "same_peer (c1\<lparr>cl_meta := m\<rparr>) (c1'\<lparr>cl_meta := m\<rparr>)" using c1 by (simp add: same_peer_def)
      then obtain c2' where c2': "to_conductor r payload' (c1'\<lparr>cl_meta := m\<rparr>) = Some (sent, c2')" "same_peer c2 c2'"
        using to_conductor_same[OF v(3)] by blast
      have same: "cl_currency c1' = cl_currency c1" "cl_meta c1' = cl_meta c1" using c1 by (simp_all add: same_peer_def)
      show ?thesis
        unfolding run(2) using v(4) c2'(2)
        by (cases sent) (auto simp: WsText v(1) keys same p' c2'(1) intro: same_peer_call)
    qed
  qed
qed

lemma turn_same:
  assumes "client_turn e event cl = Some (res, cl1)" "same_peer cl cl'"
  shows "\<exists>res' cl1'. client_turn e event cl' = Some (res', cl1') \<and> same_peer cl1 cl1'"
proof (cases event)
  case (Ev1Open r)
  show ?thesis
  proof (cases "w1_timeout_ok r")
    case True
    let ?t = "\<lambda>cl. cl\<lparr>cl_calls := (cl_calls cl @ [CallTimeout 15000 token_connect]) @ [CallTimeout 120000 token_expire]\<rparr>"
    from True obtain sent c where c: "to_conductor r (PayWebsocketOk (cl_socket cl)) (?t cl) = Some (sent, c)"
        "(if \<not> sent then ws1_call_done (w1_close_ok r) (CallClose ''Normal'') c
          else ws1_call_done (w1_send_ok r) (CallSend (cl_connect_message c)) c) = Some (res, cl1)"
      using assms(1) by (auto simp: Ev1Open client_on_open_def ws1_call_done_def split: bind_splits)
    obtain c' where c': "to_conductor r (PayWebsocketOk (cl_socket cl')) (?t cl') = Some (sent, c')" "same_peer c c'"
      using to_conductor_same[OF c(1)] same_peer_call[OF assms(2)] by blast
    show ?thesis
      using True c(2) c'(2)
      by (cases sent) (auto simp: Ev1Open client_on_open_def ws1_call_done_def c'(1)[simplified] intro: same_peer_call)
  next
    case False
    then show ?thesis using assms
      by (auto simp: Ev1Open client_on_open_def ws1_call_done_def intro: same_peer_call)
  qed
next
  case (Ev1Message r clock msg)
  then show ?thesis using assms message_same by fastforce
next
  case (Ev1Timeout r token)
  have s: "cl_meta cl' = cl_meta cl" using assms(2) by (simp add: same_peer_def)
  show ?thesis
  proof (cases "token = token_connect \<and> cm_state (cl_meta cl) \<noteq> Established \<or> token \<noteq> token_connect \<and> token = token_expire")
    case True
    define p :: "'a v1_payload" where "p = (if token = token_connect then PayNegociationTimeout else PayTimeout)"
    have run: "client_turn e event d = do { (_, d) \<leftarrow> to_conductor r p d; ws1_call_done (w1_close_ok r) (CallClose ''Away'') d }"
      if "cl_meta d = cl_meta cl" for d
      using True that by (auto simp: Ev1Timeout client_on_timeout_def p_def)
    obtain sent c where c: "to_conductor r p cl = Some (sent, c)" "ws1_call_done (w1_close_ok r) (CallClose ''Away'') c = Some (res, cl1)"
      using assms(1) by (auto simp: run split: bind_splits)
    obtain c' where "to_conductor r p cl' = Some (sent, c')" "same_peer c c'"
      using to_conductor_same[OF c(1) assms(2)] by blast
    then show ?thesis using c(2) by (auto simp: run[OF s] intro: same_peer_call)
  next
    case False
    then show ?thesis using assms s by (auto simp: Ev1Timeout client_on_timeout_def split: if_splits)
  qed
next
  case (Ev1NewTimeout r token timeout)
  have t: "cl_timeout cl' = cl_timeout cl" using assms(2) by (simp add: same_peer_def)
  show ?thesis using assms t
    by (cases "cl_timeout cl") (auto simp: Ev1NewTimeout client_on_new_timeout_def ws1_call_done_def same_peer_def
        split: if_splits)
next
  case (Ev1Frame r)
  then show ?thesis using assms by (auto simp: client_on_frame_def intro: same_peer_call)
next
  case (Ev1Close r)
  then obtain sent where "to_conductor r PayClose cl = Some (sent, cl1)"
    using assms(1) by (auto simp: client_on_close_def split: bind_splits)
  then obtain cl1' where "to_conductor r PayClose cl' = Some (sent, cl1')" "same_peer cl1 cl1'"
    using to_conductor_same[OF _ assms(2)] by blast
  then show ?thesis by (auto simp: Ev1Close client_on_close_def)
qed

lemma turns_same:
  assumes "client_turns e events cl = Some cl1" "same_peer cl cl'"
  shows "\<exists>cl1'. client_turns e events cl' = Some cl1' \<and> same_peer cl1 cl1'"
  using assms(1)
proof (induction events arbitrary: cl1 rule: rev_induct)
  case Nil
  then show ?case using assms(2) by (simp add: client_turns_def)
next
  case (snoc event events)
  then obtain c res where c: "client_turns e events cl = Some c" "client_turn e event c = Some (res, cl1)"
    by (auto simp: client_turns_snoc split: bind_splits)
  obtain c' where c': "client_turns e events cl' = Some c'" "same_peer c c'" using snoc.IH[OF c(1)] by blast
  obtain res' cl1' where "client_turn e event c' = Some (res', cl1')" "same_peer cl1 cl1'"
    using turn_same[OF c(2) c'(2)] by blast
  then show ?case using c'(1) by (simp add: client_turns_snoc)
qed

text \<open>
  C26: The challenge of a node is a constant and nothing that it receives is compared with its own key:
  the messages that bring the connection of one node to a state bring the connection of any other node
  to the same state. A session that was recorded establishes a connection with every node.
\<close>

theorem recorded_session:
  assumes "connect_to_ws2p_endpoint e endpoint socket currency (KeyPairEd25519 k sk) now = Some (url, cl0)"
    and "client_turns e events cl0 = Some cl"
  shows "\<exists>other cl'. connect_to_ws2p_endpoint e endpoint socket currency (KeyPairEd25519 k' sk') now = Some (url, other) \<and>
    client_turns e events other = Some cl' \<and> cm_state (cl_meta cl') = cm_state (cl_meta cl)"
proof -
  obtain s where "v1_connect_message e currency (KeyPairEd25519 k' sk') ws2p_challenge = Some s"
    using own_total(1) by (metis v1_connect_message_def)
  then obtain other where other: "connect_to_ws2p_endpoint e endpoint socket currency (KeyPairEd25519 k' sk') now =
      Some (url, other)" "same_peer cl0 other"
    using assms(1) by (auto simp: connect_to_ws2p_endpoint_def conn_meta_new_def same_peer_def split: bind_splits)
  then show ?thesis using turns_same[OF assms(2) other(2)] by (auto simp: same_peer_def)
qed

theorem recorded_session_witness:
  "\<exists>url other cl'. connect_to_ws2p_endpoint example_env1 example_endpoint1 3 (ascii ''g1'') (KeyPairEd25519 [8] [9]) 0 =
     Some (url, other) \<and> client_turns example_env1 example_events1 other = Some cl' \<and>
     cm_state (cl_meta cl') = Established"
proof -
  obtain url cl0 cl where cl: "connect_to_ws2p_endpoint example_env1 example_endpoint1 3 (ascii ''g1'')
      (KeyPairEd25519 [2] [2]) 0 = Some (url, cl0)" "client_turns example_env1 example_events1 cl0 = Some cl"
    "cm_state (cl_meta cl) = Established"
    using example_established by blast
  from recorded_session[OF cl(1,2), of "[8]" "[9]"] show ?thesis using cl(3) by metis
qed

end
