(* ===== verification/Ws2p1_Module.thy ===== *)
theory Ws2p1_Module
  imports Ws2p1_Messages Core_Router
begin

text \<open>
  The module of the first version of the peer to peer protocol, \<open>lib/modules/ws2p-v1-legacy/src\<close>: its
  configuration (\<open>lib.rs\<close>, \<open>subcommands/prefered.rs\<close>), its endpoints (\<open>ws2p_db.rs\<close>), the management of
  its connections (\<open>ws_connections/mod.rs\<close>), the messages of the connections
  (\<open>ws_connections/messages.rs\<close>, \<open>requests\<close>, \<open>responses\<close>), those of the other modules (\<open>requests\<close>,
  \<open>responses\<close>, \<open>events\<close>) and its main loop (\<open>lib.rs\<close>).

  A websocket is a number; the calls on the websockets, the threads started and the messages sent to the
  router are recorded in lists, and sending to the router succeeds. Within a turn the clock is read
  once, in milliseconds. Lines of the log are left out.
\<close>

section \<open>Configuration\<close>

record ws2p1_user_conf =
  u1_outcoming_quota :: "nat option"
  u1_prefered_pubkeys :: "ustring set option"
  u1_sync_endpoints :: "endpoint_v1 list option"

record ws2p1_conf =
  w1_outcoming_quota :: nat
  w1_prefered_pubkeys :: "pub_key set"
  w1_sync_endpoints :: "endpoint_v1 list"

fun or_else :: "'a option \<Rightarrow> 'a option \<Rightarrow> 'a option" where
  "or_else (Some v) _ = Some v"
| "or_else None o' = o'"

definition user_conf1_merge :: "ws2p1_user_conf \<Rightarrow> ws2p1_user_conf \<Rightarrow> ws2p1_user_conf" where
  "user_conf1_merge a b =
     \<lparr>u1_outcoming_quota = or_else (u1_outcoming_quota a) (u1_outcoming_quota b),
      u1_prefered_pubkeys = or_else (u1_prefered_pubkeys a) (u1_prefered_pubkeys b),
      u1_sync_endpoints = or_else (u1_sync_endpoints a) (u1_sync_endpoints b)\<rparr>"

definition user_conf1_default :: ws2p1_user_conf where
  "user_conf1_default = \<lparr>u1_outcoming_quota = None, u1_prefered_pubkeys = None, u1_sync_endpoints = None\<rparr>"

definition sync_endpoint :: "'f ws2p1_env \<Rightarrow> string \<times> string \<Rightarrow> endpoint_v1 run" where
  "sync_endpoint e = (\<lambda>(raw, pubkey). do {
     k \<leftarrow> expect (key_from_base58 (v1_codecs e) (ascii pubkey));
     e1_parse_from_raw (v1_crypto e) (v1_net_pest e) (ascii raw) k 0 0 \<bind> expect
   })"

definition ws2p1_conf_default :: "'f ws2p1_env \<Rightarrow> ws2p1_conf run" where
  "ws2p1_conf_default e = do {
     eps \<leftarrow> map_run (sync_endpoint e)
       [(''WS2P c1c39a0a ts.g1.librelois.fr 443 /ws2p'', ''D9D2zaJoWYWveii1JRYLVK3J4Z7ZH3QczoKrnQeiM6mx''),
        (''WS2P fb17fcd4 g1.duniter.fr 443 /ws2p'', ''38MEAZN68Pz1DTvT3tqgxx4yQP6snJCQhPqEFxbDk4aE''),
        (''WS2P 7b33becd g1.nordstrom.duniter.org 443 /ws2p'', ''DWoSCRLQyQ48dLxUGr1MDKg4NFcbPbC56LN2hJjCCPpZ''),
        (''WS2P dff60418 duniter.normandie-libre.fr 443 /ws2p'', ''8t6Di3pLxxoTEfjXHjF49pNpjSTXuGEQ6BpkT75CkNb2'')];
     Some \<lparr>w1_outcoming_quota = 10, w1_prefered_pubkeys = {}, w1_sync_endpoints = eps\<rparr>
   }"

text \<open>The error of the configuration: the number of the key in the iteration, with its error.\<close>

datatype module_conf_error = InvalidPreferedPubkey nat base_convertion_error

fun read_pubkeys :: "codecs \<Rightarrow> nat \<Rightarrow> ustring list \<Rightarrow> module_conf_error + pub_key set" where
  "read_pubkeys d i [] = Inr {}"
| "read_pubkeys d i (s # ss) = (case key_from_base58 d s of
      Inl err \<Rightarrow> Inl (InvalidPreferedPubkey i err)
    | Inr k \<Rightarrow> map_sum id (insert k) (read_pubkeys d (i + 1) ss))"

definition v1_generate_module_conf ::
  "'f ws2p1_env \<Rightarrow> (ustring set \<Rightarrow> ustring list) \<Rightarrow> ustring \<Rightarrow> ws2p1_user_conf option \<Rightarrow>
   (module_conf_error + ws2p1_conf \<times> ws2p1_user_conf option) run" where
  "v1_generate_module_conf e it currency module_user_conf = do {
     conf \<leftarrow> ws2p1_conf_default e;
     conf \<leftarrow> (if currency = ascii ''g1-test'' then do {
         eps \<leftarrow> map_run (sync_endpoint e)
           [(''WS2P 3eaab4c7 ts.gt.librelois.fr 443 /ws2p'', ''CrznBiyq8G4RVUprH9jHmAw1n1iuzw8y9FdJbrESnaX7''),
            (''WS2P 9c659296 localhost 10901'', ''BFhFZv7p6kUxVyVStCD26fuDDGQop2h9nbGbaeD55Mkj'')];
         Some (conf\<lparr>w1_sync_endpoints := eps\<rparr>)
       } else Some conf);
     (case module_user_conf of
        None \<Rightarrow> Some (Inr (conf, None))
      | Some user \<Rightarrow>
          try_then (Some (case u1_prefered_pubkeys user of
              Some keys \<Rightarrow> map_sum id (\<lambda>ks. conf\<lparr>w1_prefered_pubkeys := ks\<rparr>) (read_pubkeys (v1_codecs e) 0 (it keys))
            | None \<Rightarrow> Inr conf)) (\<lambda>conf.
            let conf = (case u1_outcoming_quota user of Some q \<Rightarrow> conf\<lparr>w1_outcoming_quota := q\<rparr> | None \<Rightarrow> conf);
              conf = (case u1_sync_endpoints user of Some eps \<Rightarrow> conf\<lparr>w1_sync_endpoints := eps\<rparr> | None \<Rightarrow> conf)
            in Some (Inr (conf, Some user))))
   }"

text \<open>
  The command that changes the preferred keys. A file is the result of opening it, with its lines, of
  which one may not be readable.
\<close>

datatype prefered_sub_command =
  PreferedAdd "pub_key list"
| PreferedAddFromFile "(ustring option list) option option"
| PreferedClear
| PreferedRem "pub_key list"
| PreferedShow

definition user_prefered :: "ws2p1_user_conf option \<Rightarrow> ustring set" where
  "user_prefered user = (case user \<bind> u1_prefered_pubkeys of Some keys \<Rightarrow> keys | None \<Rightarrow> {})"

definition user_or_default :: "ws2p1_user_conf option \<Rightarrow> ws2p1_user_conf" where
  "user_or_default user = (case user of Some u \<Rightarrow> u | None \<Rightarrow> user_conf1_default)"

fun file_pubkeys :: "crypto \<Rightarrow> codecs \<Rightarrow> ustring option list \<Rightarrow> ustring set \<Rightarrow> ustring set option run" where
  "file_pubkeys c d [] keys = Some (Some keys)"
| "file_pubkeys c d (None # _) keys = Some None"
| "file_pubkeys c d (Some line # lines) keys = (case key_from_base58 d line of
      Inr pubkey \<Rightarrow> do { s \<leftarrow> key_string c pubkey; file_pubkeys c d lines (insert s keys) }
    | Inl _ \<Rightarrow> file_pubkeys c d lines keys)"

fun prefered_execute ::
  "crypto \<Rightarrow> codecs \<Rightarrow> prefered_sub_command \<Rightarrow> ws2p1_user_conf option \<Rightarrow> ws2p1_user_conf option run" where
  "prefered_execute c d (PreferedAdd public_keys) user = do {
     ss \<leftarrow> map_run (key_string c) public_keys;
     Some (Some (user_or_default user\<lparr>u1_prefered_pubkeys := Some (user_prefered user \<union> set ss)\<rparr>))
   }"
| "prefered_execute c d (PreferedAddFromFile file) user = (case file of
      Some (Some lines) \<Rightarrow> do {
        new_keys \<leftarrow> file_pubkeys c d lines {};
        Some (case new_keys of
            None \<Rightarrow> user
          | Some new_keys \<Rightarrow> (let conf = user_or_default user in
              Some (conf\<lparr>u1_prefered_pubkeys := Some (case u1_prefered_pubkeys conf of
                  Some keys \<Rightarrow> keys \<union> new_keys
                | None \<Rightarrow> new_keys)\<rparr>)))
      }
    | _ \<Rightarrow> Some user)"
| "prefered_execute c d PreferedClear user = Some (map_option (u1_prefered_pubkeys_update (\<lambda>_. None)) user)"
| "prefered_execute c d (PreferedRem public_keys) user = do {
     ss \<leftarrow> map_run (key_string c) public_keys;
     Some (Some (user_or_default user\<lparr>u1_prefered_pubkeys := Some (user_prefered user - set ss)\<rparr>))
   }"
| "prefered_execute c d PreferedShow user = Some user"

text \<open>The features of the interface, in a vector that is created empty.\<close>

fun v1_add_feature :: "profile \<Rightarrow> nat \<Rightarrow> nat list \<Rightarrow> nat list run" where
  "v1_add_feature p n [] = None"
| "v1_add_feature p n (f # fs) =
     (if f + n < 2 ^ 8 then Some ((f + n) # fs)
      else case p of Debug \<Rightarrow> None | Release \<Rightarrow> Some ((f + n) mod 2 ^ 8 # fs))"

fun v1_parse_features :: "profile \<Rightarrow> ustring list \<Rightarrow> nat list \<Rightarrow> (ustring + nat list) run" where
  "v1_parse_features p [] fs = Some (Inr fs)"
| "v1_parse_features p (s # ss) fs =
     (if s = ascii ''DEF'' then v1_add_feature p 1 fs \<bind> v1_parse_features p ss
      else if s = ascii ''LOW'' then v1_add_feature p 2 fs \<bind> v1_parse_features p ss
      else if s = ascii ''ABF'' then v1_add_feature p 4 fs \<bind> v1_parse_features p ss
      else Some (Inl s))"

definition v1_parse_raw_api_features :: "profile \<Rightarrow> ustring \<Rightarrow> (ustring + nat list) run" where
  "v1_parse_raw_api_features p str_features = v1_parse_features p (split_on 32 str_features) []"

section \<open>State\<close>

record db_endpoint =
  de_ep :: endpoint_v1
  de_state :: ws2p_connection_state
  de_last_check :: nat

text \<open>What the module puts in the messages to the other modules.\<close>

datatype 'f blockchain_event =
  StackUpValidBlock "'f block_document"
| EvRevertBlocks "'f block_document list"
| NewValidPendingDoc "'f dubp_document"
| RefusedPendingDoc "'f dubp_document"
| RefusedBlock blockstamp

datatype 'f net_payload =
  XNode node_full_id
| XHead "head_v3 network_head"
| XPeer peer_card
| XBlockchainEvent "'f blockchain_event"

type_synonym 'f v1_durs_msg =
  "(('f, 'f net_payload) durs_event, 'f net_payload durs_req_content, ('f, 'f net_payload) durs_res_content) durs_msg"

record v1_pending_req =
  pr_requester_module :: module_req_full_id
  pr_req_body :: v1_req_body
  pr_recipient_node :: node_full_id
  pr_timestamp :: nat

record 'f ws2p1_module =
  wm_conf :: ws2p1_conf
  wm_count_dal_requests :: nat
  wm_currency :: "ustring option"
  wm_current_blockstamp :: blockstamp
  wm_heads_cache :: "node_full_id \<rightharpoonup> head_v3 network_head"
  wm_key_pair :: key_pair
  wm_my_head :: "head_v3 network_head option"
  wm_next_receiver :: nat
  wm_node_id :: net_node_id
  wm_pending_received_requests :: "nat \<rightharpoonup> node_full_id \<times> v1_req_id"
  wm_requests_awaiting_response :: "v1_req_id \<rightharpoonup> v1_pending_req"
  wm_router :: "'f v1_durs_msg list"
  wm_soft_name :: ustring
  wm_soft_version :: ustring
  wm_ssl :: bool
  wm_websockets :: "node_full_id \<rightharpoonup> nat"
  wm_endpoints :: "node_full_id \<rightharpoonup> db_endpoint"
  wm_uids_cache :: "pub_key \<rightharpoonup> ustring"
  wm_ws_calls :: "(nat \<times> ws1_call) list"
  wm_threads :: "endpoint_v1 list"

text \<open>What a turn of the main loop depends on.\<close>

record 'f ws2p1_turn =
  tn_env :: "'f ws2p1_env"
  tn_profile :: profile
  tn_now :: nat
  tn_send_ok :: "nat \<Rightarrow> bool"
  tn_random_id :: v1_req_id
  tn_nodes :: "node_full_id set \<Rightarrow> node_full_id list"
  tn_sort :: "(endpoint_v1 \<Rightarrow> endpoint_v1 \<Rightarrow> int) \<Rightarrow> endpoint_v1 list \<Rightarrow> endpoint_v1 list"

definition ws2p1_name :: durs_name where
  "ws2p1_name = ascii ''ws2p1''"

definition ws2p1_module_new ::
  "ws2p1_conf \<Rightarrow> ustring \<Rightarrow> ustring \<Rightarrow> bool \<Rightarrow> nat \<Rightarrow> key_pair \<Rightarrow> 'f ws2p1_module" where
  "ws2p1_module_new conf soft_name soft_version ssl my_node_id key_pair =
     \<lparr>wm_conf = conf, wm_count_dal_requests = 0, wm_currency = None, wm_current_blockstamp = blockstamp_default,
      wm_heads_cache = Map.empty, wm_key_pair = key_pair, wm_my_head = None, wm_next_receiver = 0,
      wm_node_id = my_node_id, wm_pending_received_requests = Map.empty, wm_requests_awaiting_response = Map.empty,
      wm_router = [], wm_soft_name = soft_name, wm_soft_version = soft_version, wm_ssl = ssl,
      wm_websockets = Map.empty, wm_endpoints = Map.empty, wm_uids_cache = Map.empty, wm_ws_calls = [],
      wm_threads = []\<rparr>"

definition timestamp_secs :: "'f ws2p1_turn \<Rightarrow> nat" where
  "timestamp_secs t = tn_now t div 1000"

section \<open>Messages sent\<close>

definition to_router :: "'f v1_durs_msg \<Rightarrow> 'f ws2p1_module \<Rightarrow> 'f ws2p1_module" where
  "to_router msg m = m\<lparr>wm_router := wm_router m @ [msg]\<rparr>"

text \<open>A call on a websocket, with its result.\<close>

definition ws_send :: "'f ws2p1_turn \<Rightarrow> nat \<Rightarrow> ustring \<Rightarrow> 'f ws2p1_module \<Rightarrow> bool \<times> 'f ws2p1_module" where
  "ws_send t socket s m = (tn_send_ok t socket, m\<lparr>wm_ws_calls := wm_ws_calls m @ [(socket, CallSend s)]\<rparr>)"

definition ws_close :: "nat \<Rightarrow> string \<Rightarrow> 'f ws2p1_module \<Rightarrow> 'f ws2p1_module" where
  "ws_close socket code m = m\<lparr>wm_ws_calls := wm_ws_calls m @ [(socket, CallClose code)]\<rparr>"

definition network_event_type :: "('f, 'f net_payload) network_event \<Rightarrow> module_event option" where
  "network_event_type event = (case event of
      ConnectionStateChange _ _ _ _ \<Rightarrow> Some ConnectionsChangeNodeNetwork
    | ReceiveBlocks _ \<Rightarrow> Some NewBlockFromNetwork
    | ReceiveDocuments network_docs \<Rightarrow> (case network_docs of
        [] \<Rightarrow> None
      | doc # _ \<Rightarrow> Some (case doc of
          DocBlock _ \<Rightarrow> NewBlockFromNetwork
        | DocTransaction _ \<Rightarrow> NewTxFromNetwork
        | _ \<Rightarrow> NewWotDocFromNetwork))
    | ReceiveHeads _ \<Rightarrow> Some NewValidHeadFromNetwork
    | ReceivePeers _ \<Rightarrow> Some NewValidPeerFromNodeNetwork
    | NewSelfPeer _ \<Rightarrow> Some NewSelfPeerCard)"

definition send_network_event :: "('f, 'f net_payload) network_event \<Rightarrow> 'f ws2p1_module \<Rightarrow> 'f ws2p1_module" where
  "send_network_event event m = (case network_event_type event of
      Some module_event \<Rightarrow> to_router (MsgEvent ws2p1_name module_event (NetworkEvent event)) m
    | None \<Rightarrow> m)"

definition send_network_events :: "('f, 'f net_payload) network_event list \<Rightarrow> 'f ws2p1_module \<Rightarrow> 'f ws2p1_module" where
  "send_network_events events m = fold send_network_event events m"

text \<open>The counter of the requests to the databases starts again from zero at the end of its range.\<close>

definition send_dal_request ::
  "profile \<Rightarrow> blockchain_request \<Rightarrow> 'f ws2p1_module \<Rightarrow> (nat \<times> 'f ws2p1_module) run" where
  "send_dal_request p req m = do {
     count \<leftarrow> u32_add p (wm_count_dal_requests m) 1;
     let count = (if count = 2 ^ 32 - 1 then 0 else count);
     Some (count, to_router (MsgRequest ws2p1_name BlockchainDatas count (BlockchainRequest req))
       (m\<lparr>wm_count_dal_requests := count\<rparr>))
   }"

definition send_network_req_response ::
  "durs_name \<Rightarrow> nat \<Rightarrow> ('f, 'f net_payload) network_response \<Rightarrow> 'f ws2p1_module \<Rightarrow> 'f ws2p1_module" where
  "send_network_req_response requester req_id response =
     to_router (MsgResponse ws2p1_name requester req_id (NetworkResponse response))"

text \<open>A request to a node: it waits for its response once it is sent.\<close>

definition send_request_to_specific_node ::
  "'f ws2p1_turn \<Rightarrow> module_req_full_id \<Rightarrow> node_full_id \<Rightarrow> v1_request \<Rightarrow> 'f ws2p1_module \<Rightarrow>
   (unit + unit) \<times> 'f ws2p1_module" where
  "send_request_to_specific_node t module_req_full_id node req m = (case wm_websockets m node of
      Some socket \<Rightarrow>
        (let (sent, m) = ws_send t socket (json_show (tn_env t) (network_request_to_json (tn_env t) req)) m
         in if sent then (Inr (), m\<lparr>wm_requests_awaiting_response := (wm_requests_awaiting_response m)
              (rq_id req \<mapsto> \<lparr>pr_requester_module = module_req_full_id, pr_req_body = rq_body req,
                 pr_recipient_node = node, pr_timestamp = tn_now t\<rparr>)\<rparr>)
            else (Inl (), m))
    | None \<Rightarrow> (Inr (), m))"

text \<open>The response to a request of a node; the one for the pending requirements lists no identity.\<close>

datatype 'f v1_req_res_body =
  ResGetCurrent "'f block_document"
| ResGetBlock "'f block_document"
| ResGetBlocks "'f block_document list"
| ResGetRequirementsPending

definition block_v1_json :: "'f ws2p1_env \<Rightarrow> 'f block_document \<Rightarrow> json_value run" where
  "block_v1_json e b = block_to_string_object (v1_crypto e) (v1_f64 e) b \<bind> block_into_v1_json"

fun req_res_body_json :: "'f ws2p1_env \<Rightarrow> 'f v1_req_res_body \<Rightarrow> json_value run" where
  "req_res_body_json e (ResGetCurrent b) = block_v1_json e b"
| "req_res_body_json e (ResGetBlock b) = block_v1_json e b"
| "req_res_body_json e (ResGetBlocks bs) = map_option JArray (map_run (block_v1_json e) bs)"
| "req_res_body_json e ResGetRequirementsPending = Some (j_object [(''identities'', JArray [])])"

definition req_res_json :: "'f ws2p1_env \<Rightarrow> v1_req_id \<Rightarrow> 'f v1_req_res_body \<Rightarrow> json_value run" where
  "req_res_json e req_id body = do {
     v \<leftarrow> req_res_body_json e body;
     Some (j_object [(''body'', v), (''resId'', JString (uuid_show e req_id))])
   }"

definition send_response ::
  "'f ws2p1_turn \<Rightarrow> node_full_id \<Rightarrow> v1_req_id \<Rightarrow> 'f v1_req_res_body \<Rightarrow> 'f ws2p1_module \<Rightarrow> 'f ws2p1_module run" where
  "send_response t node req_id body m = (case wm_websockets m node of
      Some socket \<Rightarrow> do {
        json \<leftarrow> req_res_json (tn_env t) req_id body;
        let (sent, m) = ws_send t socket (json_show (tn_env t) json) m;
        Some (if sent then m else ws_close socket ''Error'' m)
      }
    | None \<Rightarrow> Some m)"

section \<open>Connections\<close>

datatype close_reason = AuthMessInvalidSig | NegociationTimeoutReason | TimeoutReason | WsErrorReason | Unknow

text \<open>The endpoint of a connection, which must be known.\<close>

definition update_endpoint ::
  "node_full_id \<Rightarrow> (db_endpoint \<Rightarrow> db_endpoint) \<Rightarrow> 'f ws2p1_module \<Rightarrow> 'f ws2p1_module run" where
  "update_endpoint node f m = (case wm_endpoints m node of
      Some ep \<Rightarrow> Some (m\<lparr>wm_endpoints := (wm_endpoints m)(node \<mapsto> f ep)\<rparr>)
    | None \<Rightarrow> None)"

definition set_ep_state ::
  "ws2p_connection_state \<Rightarrow> node_full_id \<Rightarrow> 'f ws2p1_module \<Rightarrow> 'f ws2p1_module run" where
  "set_ep_state s node = update_endpoint node (\<lambda>ep. ep\<lparr>de_state := s\<rparr>)"

definition set_ep_checked ::
  "'f ws2p1_turn \<Rightarrow> ws2p_connection_state \<Rightarrow> node_full_id \<Rightarrow> 'f ws2p1_module \<Rightarrow> 'f ws2p1_module run" where
  "set_ep_checked t s node = update_endpoint node (\<lambda>ep. ep\<lparr>de_state := s, de_last_check := timestamp_secs t\<rparr>)"

definition close_connection ::
  "'f ws2p1_turn \<Rightarrow> node_full_id \<Rightarrow> close_reason \<Rightarrow> 'f ws2p1_module \<Rightarrow> 'f ws2p1_module" where
  "close_connection t node reason m =
     (let m = (case (reason, wm_endpoints m node) of
          (NegociationTimeoutReason, _) \<Rightarrow> m
        | (_, Some ep) \<Rightarrow> m\<lparr>wm_endpoints := (wm_endpoints m)
            (node \<mapsto> ep\<lparr>de_state := Close, de_last_check := timestamp_secs t\<rparr>)\<rparr>
        | (_, None) \<Rightarrow> m);
        m = (case wm_websockets m node of Some socket \<Rightarrow> ws_close socket ''Normal'' m | None \<Rightarrow> m)
      in m\<lparr>wm_websockets := (wm_websockets m)(node := None)\<rparr>)"

definition node_established :: "'f ws2p1_module \<Rightarrow> node_full_id \<Rightarrow> bool" where
  "node_established m node = (case wm_endpoints m node of Some ep \<Rightarrow> de_state ep = Established | None \<Rightarrow> False)"

definition count_established_connections :: "'f ws2p1_turn \<Rightarrow> 'f ws2p1_module \<Rightarrow> nat" where
  "count_established_connections t m = length (filter (node_established m) (tn_nodes t (dom (wm_endpoints m))))"

text \<open>A thread that opens the websocket of a known endpoint; without a currency it is that thread that panics.\<close>

definition connect_to_without_checking_quotas ::
  "node_full_id \<Rightarrow> 'f ws2p1_module \<Rightarrow> 'f ws2p1_module run" where
  "connect_to_without_checking_quotas node m = do {
     endpoint \<leftarrow> wm_endpoints m node;
     Some (m\<lparr>wm_threads := wm_threads m @ [de_ep endpoint]\<rparr>)
   }"

definition connect_to :: "'f ws2p1_turn \<Rightarrow> endpoint_v1 \<Rightarrow> 'f ws2p1_module \<Rightarrow> 'f ws2p1_module run" where
  "connect_to t ep m = do {
     node \<leftarrow> e1_node_full_id ep;
     let m = (if wm_endpoints m node = None
       then m\<lparr>wm_endpoints := (wm_endpoints m)(node \<mapsto> \<lparr>de_ep = ep, de_state = NeverTry, de_last_check = 0\<rparr>)\<rparr> else m);
     if w1_outcoming_quota (wm_conf m) > count_established_connections t m
     then connect_to_without_checking_quotas node m else Some m
   }"

text \<open>
  The endpoints to try: at most one for each key, but for the node's own, in the order of the iteration.
\<close>

record to_try =
  tt_established :: nat
  tt_pubkeys :: "pub_key set"
  tt_reachable :: "endpoint_v1 list"
  tt_unreachable :: "endpoint_v1 list"

definition sort_endpoint :: "'f ws2p1_module \<Rightarrow> node_full_id \<Rightarrow> to_try \<Rightarrow> to_try run" where
  "sort_endpoint m node tt = do {
     dal_ep \<leftarrow> wm_endpoints m node;
     own \<leftarrow> public_key (wm_key_pair m);
     let ep = de_ep dal_ep;
     Some (if e1_issuer ep = own \<or> e1_issuer ep \<notin> tt_pubkeys tt then
         (if de_state dal_ep = Established then tt\<lparr>tt_established := tt_established tt + 1\<rparr>
          else if de_state dal_ep \<in> {NeverTry, Close, Denial} then
            (let tt = tt\<lparr>tt_pubkeys := insert (e1_issuer ep) (tt_pubkeys tt)\<rparr>
             in if wm_ssl m \<or> e1_port ep \<noteq> 443 then tt\<lparr>tt_reachable := tt_reachable tt @ [ep]\<rparr> else tt)
          else tt\<lparr>tt_pubkeys := insert (e1_issuer ep) (tt_pubkeys tt), tt_unreachable := tt_unreachable tt @ [ep]\<rparr>)
       else tt)
   }"

definition compare_prefered :: "pub_key set \<Rightarrow> endpoint_v1 \<Rightarrow> endpoint_v1 \<Rightarrow> int" where
  "compare_prefered prefered ep1 ep2 =
     (if e1_issuer ep1 \<in> prefered then (if e1_issuer ep2 \<in> prefered then 0 else 1) else - 1)"

text \<open>The last endpoints of the lists are tried first, while there are rooms.\<close>

function connect_rooms ::
  "nat \<Rightarrow> endpoint_v1 list \<Rightarrow> endpoint_v1 list \<Rightarrow> 'f ws2p1_module \<Rightarrow> 'f ws2p1_module run" where
  "connect_rooms rooms reachable unreachable m =
     (if rooms = 0 then Some m
      else if reachable \<noteq> [] then do {
        node \<leftarrow> e1_node_full_id (last reachable);
        m \<leftarrow> connect_to_without_checking_quotas node m;
        connect_rooms (rooms - 1) (butlast reachable) unreachable m
      }
      else if unreachable \<noteq> [] then do {
        node \<leftarrow> e1_node_full_id (last unreachable);
        m \<leftarrow> connect_to_without_checking_quotas node m;
        connect_rooms (rooms - 1) reachable (butlast unreachable) m
      }
      else Some m)"
  by pat_completeness auto

termination
  by (relation "measure (\<lambda>(rooms, _). rooms)") auto

declare connect_rooms.simps [simp del]

definition connect_to_know_endpoints :: "'f ws2p1_turn \<Rightarrow> 'f ws2p1_module \<Rightarrow> 'f ws2p1_module run" where
  "connect_to_know_endpoints t m = do {
     tt \<leftarrow> fold_run (sort_endpoint m) (tn_nodes t (dom (wm_endpoints m)))
       \<lparr>tt_established = 0, tt_pubkeys = {}, tt_reachable = [], tt_unreachable = []\<rparr>;
     let reachable = (if w1_prefered_pubkeys (wm_conf m) = {} then tt_reachable tt
       else tn_sort t (compare_prefered (w1_prefered_pubkeys (wm_conf m))) (tt_reachable tt));
     rooms \<leftarrow> usize_sub (tn_profile t) (w1_outcoming_quota (wm_conf m)) (tt_established tt);
     connect_rooms rooms reachable (tt_unreachable tt) m
   }"

text \<open>A random connection: after ten passes over the connections, the next one is taken.\<close>

fun random_pass :: "(nat \<Rightarrow> bool) \<Rightarrow> nat \<Rightarrow> 'a list \<Rightarrow> nat \<Rightarrow> 'a option \<times> nat" where
  "random_pass rng loop_count [] i = (None, i)"
| "random_pass rng loop_count (x # xs) i =
     (if loop_count > 10 then (Some x, i)
      else if rng i then (Some x, i + 1) else random_pass rng loop_count xs (i + 1))"

partial_function (option) get_random_connection :: "(nat \<Rightarrow> bool) \<Rightarrow> 'a list \<Rightarrow> nat \<Rightarrow> nat \<Rightarrow> 'a option" where
  "get_random_connection rng connections loop_count i = (case random_pass rng loop_count connections i of
      (Some x, _) \<Rightarrow> Some x
    | (None, i) \<Rightarrow> get_random_connection rng connections (loop_count + 1) i)"

section \<open>Messages of the connections\<close>

datatype 'f ws2p_signal =
  SigWSError node_full_id
| SigConnectionEstablished node_full_id
| SigNegociationTimeout node_full_id
| SigTimeout node_full_id
| SigRequest node_full_id v1_req_id v1_req_body
| SigPeerCard node_full_id json_value "endpoint_v1 list"
| SigHeads node_full_id "head_v3 network_head list"
| SigDocument node_full_id "'f blockchain_document"
| SigReqResponse module_req_full_id v1_req_body node_full_id json_value
| SigEmpty
| SigNoConnection

text \<open>The requests that have waited for more than thirty seconds are forgotten; a time in the future panics.\<close>

definition check_timeout_requests :: "'f ws2p1_turn \<Rightarrow> 'f ws2p1_module \<Rightarrow> 'f ws2p1_module run" where
  "check_timeout_requests t m =
     (if \<exists>i r. wm_requests_awaiting_response m i = Some r \<and> tn_now t < pr_timestamp r then None
      else Some (m\<lparr>wm_requests_awaiting_response := (\<lambda>i. case wm_requests_awaiting_response m i of
          Some r \<Rightarrow> if tn_now t - pr_timestamp r > 30000 then None else Some r
        | None \<Rightarrow> None)\<rparr>))"

text \<open>A head received: those that verify, of another node, and newer than the one in the cache are kept.\<close>

definition apply_head ::
  "'f ws2p1_turn \<Rightarrow> json_value \<Rightarrow> head_v3 network_head list \<times> 'f ws2p1_module \<Rightarrow>
   (head_v3 network_head list \<times> 'f ws2p1_module) run" where
  "apply_head t v = (\<lambda>(applied, m). do {
     r \<leftarrow> head_from_json_value (v1_codecs (tn_env t)) v;
     (case r of
        Inl _ \<Rightarrow> Some (applied, m)
      | Inr head \<Rightarrow> do {
          ok \<leftarrow> head_verify (v1_crypto (tn_env t)) head;
          other \<leftarrow> (if \<not> ok then Some False
            else (case wm_my_head m of
                None \<Rightarrow> Some True
              | Some my_head \<Rightarrow> do {
                  i \<leftarrow> head_node_full_id head;
                  mine \<leftarrow> head_node_full_id my_head;
                  Some (i \<noteq> mine)
                }));
          if other then do {
            (new, cache) \<leftarrow> head_apply head (wm_heads_cache m);
            Some (if new then applied @ [head] else applied, m\<lparr>wm_heads_cache := cache\<rparr>)
          } else Some (applied, m)
        })
   })"

definition no_connection_signal :: "'f ws2p1_module \<Rightarrow> 'f ws2p_signal" where
  "no_connection_signal m = (if dom (wm_websockets m) = {} then SigNoConnection else SigEmpty)"

definition ws2p_recv_message_pretreatment ::
  "'f ws2p1_turn \<Rightarrow> 'f v1_msg \<Rightarrow> 'f ws2p1_module \<Rightarrow> ('f ws2p_signal \<times> 'f ws2p1_module) run" where
  "ws2p_recv_message_pretreatment t msg m = do {
     m \<leftarrow> check_timeout_requests t m;
     let node = vm_from msg;
     (case vm_payload msg of
        PayWrongUrl \<Rightarrow> do { m \<leftarrow> set_ep_checked t WSError node m; Some (SigWSError node, m) }
      | PayFailOpenWS \<Rightarrow> do { m \<leftarrow> set_ep_checked t WSError node m; Some (SigWSError node, m) }
      | PayFailToSplitWS \<Rightarrow> do { m \<leftarrow> set_ep_checked t WSError node m; Some (SigWSError node, m) }
      | PayTryToSendConnectMess \<Rightarrow> do {
          m \<leftarrow> set_ep_state TryToSendConnectMess node m;
          Some (no_connection_signal m, m)
        }
      | PayFailSendConnectMess \<Rightarrow> do {
          m \<leftarrow> set_ep_checked t Unreachable node m;
          Some (no_connection_signal m, m)
        }
      | PayWebsocketOk socket \<Rightarrow>
          (let m = m\<lparr>wm_websockets := (wm_websockets m)(node \<mapsto> socket)\<rparr> in Some (no_connection_signal m, m))
      | PayValidConnectMessage response new_con_state \<Rightarrow> do {
          m \<leftarrow> set_ep_state new_con_state node m;
          (case wm_websockets m node of
             Some socket \<Rightarrow>
               (let (sent, m) = ws_send t socket response m
                in Some (if sent then no_connection_signal m else SigWSError node, m))
           | None \<Rightarrow> do { m \<leftarrow> set_ep_checked t Close node m; Some (no_connection_signal m, m) })
        }
      | PayValidAckMessage response new_con_state \<Rightarrow> do {
          m \<leftarrow> set_ep_state new_con_state node m;
          if new_con_state = AckMessOk then (case wm_websockets m node of
              Some socket \<Rightarrow>
                (let (sent, m) = ws_send t socket response m
                 in Some (if sent then no_connection_signal m else SigWSError node, m))
            | None \<Rightarrow> None)
          else Some (no_connection_signal m, m)
        }
      | PayValidOk new_con_state \<Rightarrow> do {
          m \<leftarrow> set_ep_state new_con_state node m;
          Some (if new_con_state = OkMessOkWaitingAckMess then (SigEmpty, m)
            else if new_con_state = Established then (SigConnectionEstablished node, m)
            else (SigEmpty, close_connection t node Unknow m))
        }
      | PayRequest req_id body \<Rightarrow> Some (SigRequest node req_id body, m)
      | PayPeerCard body ws2p_endpoints \<Rightarrow> Some (SigPeerCard node body ws2p_endpoints, m)
      | PayHeads heads \<Rightarrow> do {
          (applied_heads, m) \<leftarrow> fold_run (apply_head t) heads ([], m);
          Some (SigHeads node applied_heads, m)
        }
      | PayDocument network_doc \<Rightarrow> Some (SigDocument node network_doc, m)
      | PayReqResponse req_id response \<Rightarrow> (case wm_requests_awaiting_response m req_id of
          Some r \<Rightarrow> Some (SigReqResponse (pr_requester_module r) (pr_req_body r) (pr_recipient_node r) response,
            m\<lparr>wm_requests_awaiting_response := (wm_requests_awaiting_response m)(req_id := None)\<rparr>)
        | None \<Rightarrow> Some (no_connection_signal m, m))
      | PayNegociationTimeout \<Rightarrow> do {
          ep \<leftarrow> wm_endpoints m node;
          m \<leftarrow> (if de_state ep \<in> {AckMessOk, ConnectMessOk} then set_ep_state Denial node m
            else if de_state ep = WaitingConnectMess then set_ep_state NoResponse node m
            else set_ep_checked t Unreachable node m);
          Some (SigNegociationTimeout node, close_connection t node NegociationTimeoutReason m)
        }
      | PayTimeout \<Rightarrow> Some (SigTimeout node, close_connection t node TimeoutReason m)
      | PayUnknowMessage \<Rightarrow> Some (no_connection_signal m, m)
      | PayWrongFormatMessage \<Rightarrow> Some (no_connection_signal m, m)
      | PayInvalidMessage \<Rightarrow> Some (SigEmpty, m)
      | PayClose \<Rightarrow>
          (let m = close_connection t node AuthMessInvalidSig m in Some (no_connection_signal m, m)))
   }"

text \<open>A request of a node: the one for the pending requirements is answered at once, the others by the databases.\<close>

definition receive_ws2p_v1_request ::
  "'f ws2p1_turn \<Rightarrow> node_full_id \<Rightarrow> v1_req_id \<Rightarrow> v1_req_body \<Rightarrow> 'f ws2p1_module \<Rightarrow> 'f ws2p1_module run" where
  "receive_ws2p_v1_request t node ws2p_req_id req_body m =
     (let ask = (\<lambda>req. do {
          (i, m) \<leftarrow> send_dal_request (tn_profile t) req m;
          Some (m\<lparr>wm_pending_received_requests := (wm_pending_received_requests m)(i \<mapsto> (node, ws2p_req_id))\<rparr>)
        })
      in (case req_body of
            ReqGetCurrent \<Rightarrow> ask ReqCurrentBlock
          | ReqGetBlock number \<Rightarrow> ask (ReqBlockByNumber number)
          | ReqGetBlocks n from_number \<Rightarrow> ask (ReqChunk from_number n)
          | ReqGetRequirementsPending _ \<Rightarrow> send_response t node ws2p_req_id ResGetRequirementsPending m))"

definition v1_parse_block :: "'f ws2p1_env \<Rightarrow> json_value \<Rightarrow> 'f block_document option run" where
  "v1_parse_block e = v1_parse_json_block (v1_crypto e) (v1_codecs e) (v1_pest e) (v1_f64 e)"

text \<open>The response of a node: a malformed current block is ignored, as are the malformed blocks of a chunk.\<close>

definition ws_receive_response ::
  "'f ws2p1_turn \<Rightarrow> module_req_full_id \<Rightarrow> v1_req_body \<Rightarrow> node_full_id \<Rightarrow> json_value \<Rightarrow> 'f ws2p1_module \<Rightarrow>
   'f ws2p1_module run" where
  "ws_receive_response t module_req_full_id ws2p_req_body recipient response m = (case ws2p_req_body of
      ReqGetCurrent \<Rightarrow> do {
        r \<leftarrow> v1_parse_block (tn_env t) response;
        Some (case r of
            Some block \<Rightarrow> send_network_req_response (fst module_req_full_id) (snd module_req_full_id)
              (ResCurrentBlock (ws2p1_name, snd module_req_full_id) (XNode recipient) block) m
          | None \<Rightarrow> m)
      }
    | ReqGetBlocks _ _ \<Rightarrow> (case json_as_array response of
        Some json_blocks \<Rightarrow> do {
          rs \<leftarrow> map_run (v1_parse_block (tn_env t)) json_blocks;
          Some (send_network_event (ReceiveBlocks (List.map_filter id rs)) m)
        }
      | None \<Rightarrow> Some m)
    | _ \<Rightarrow> Some m)"

section \<open>Messages of the other modules\<close>

definition generate_my_head ::
  "crypto \<Rightarrow> key_pair \<Rightarrow> net_node_id \<Rightarrow> ustring \<Rightarrow> ustring \<Rightarrow> blockstamp \<Rightarrow> ustring option \<Rightarrow> head_v3 network_head run" where
  "generate_my_head c key_pair node_id soft_name soft_version b my_uid = do {
     pubkey \<leftarrow> public_key key_pair;
     let message = HeadMessageV2 \<lparr>hm_api = ascii ''WS2POCA'', hm_version = 1, hm_pubkey = pubkey, hm_blockstamp = b,
       hm_node_uuid = node_id, hm_software = soft_name, hm_soft_version = soft_version, hm_prefix = 1,
       hm_free_member_room = None, hm_free_mirror_room = None\<rparr>;
     let message_v2 = HeadMessageV2 \<lparr>hm_api = ascii ''WS2POCA'', hm_version = 2, hm_pubkey = pubkey,
       hm_blockstamp = b, hm_node_uuid = node_id, hm_software = soft_name, hm_soft_version = soft_version,
       hm_prefix = 1, hm_free_member_room = Some 0, hm_free_mirror_room = Some 0\<rparr>;
     private \<leftarrow> private_key key_pair;
     text_v1 \<leftarrow> head_message_to_string c message;
     sig \<leftarrow> key_sign c private text_v1;
     text_v2 \<leftarrow> head_message_to_string c message_v2;
     sig_v2 \<leftarrow> key_sign c private text_v2;
     Some (HeadV2 \<lparr>h2_message = message, h2_sig = sig, h2_message_v2 = message_v2, h2_sig_v2 = sig_v2, h2_step = 0,
       h2_uid = my_uid\<rparr>)
   }"

definition my_new_head :: "'f ws2p1_turn \<Rightarrow> 'f ws2p1_module \<Rightarrow> head_v3 network_head run" where
  "my_new_head t m = generate_my_head (v1_crypto (tn_env t)) (wm_key_pair m) (wm_node_id m) (wm_soft_name m)
     (wm_soft_version m) (wm_current_blockstamp m) None"

text \<open>The JSON text of a head sent to the nodes.\<close>

definition head_json_message :: "'f ws2p1_turn \<Rightarrow> head_v3 network_head \<Rightarrow> json_value run" where
  "head_json_message t head = do {
     my_json_head \<leftarrow> head_into_v1_json (tn_profile t) (v1_crypto (tn_env t)) head;
     Some (j_object [(''body'', j_object [(''heads'', JArray [my_json_head])]), (''name'', JString (ascii ''HEAD''))])
   }"

text \<open>Collecting the results stops at the first websocket that fails.\<close>

fun send_to_all :: "'f ws2p1_turn \<Rightarrow> ustring \<Rightarrow> node_full_id list \<Rightarrow> 'f ws2p1_module \<Rightarrow> 'f ws2p1_module" where
  "send_to_all t s [] m = m"
| "send_to_all t s (node # nodes) m = (case wm_websockets m node of
      Some socket \<Rightarrow> (let (sent, m) = ws_send t socket s m in if sent then send_to_all t s nodes m else m)
    | None \<Rightarrow> send_to_all t s nodes m)"

definition v1_receive_event :: "'f ws2p1_turn \<Rightarrow> ('f, 'f net_payload) durs_event \<Rightarrow> 'f ws2p1_module \<Rightarrow> 'f ws2p1_module run" where
  "v1_receive_event t event m = (case event of
      BlockchainEvent (XBlockchainEvent (StackUpValidBlock block)) \<Rightarrow> do {
        b \<leftarrow> blockstamp_of block;
        let m = m\<lparr>wm_current_blockstamp := b\<rparr>;
        my_head \<leftarrow> my_new_head t m;
        let m = send_network_event (ReceiveHeads [XHead my_head]) (m\<lparr>wm_my_head := Some my_head\<rparr>);
        json \<leftarrow> head_json_message t my_head;
        Some (send_to_all t (json_show (tn_env t) json) (tn_nodes t (dom (wm_websockets m))) m)
      }
    | _ \<Rightarrow> Some m)"

text \<open>The blocks are asked to the established connections in turn.\<close>

definition v1_receive_req :: "'f ws2p1_turn \<Rightarrow> 'f net_payload durs_req_content \<Rightarrow> 'f ws2p1_module \<Rightarrow> 'f ws2p1_module" where
  "v1_receive_req t req_content m = (case req_content of
      OldNetworkRequest (GetBlocks module_req_full_id n from_number) \<Rightarrow>
        (let established = filter (node_established m) (tn_nodes t (dom (wm_endpoints m)));
           (receiver, m) = (if wm_next_receiver m < length established
             then (Some (established ! wm_next_receiver m), m\<lparr>wm_next_receiver := wm_next_receiver m + 1\<rparr>)
             else (case established of node # _ \<Rightarrow> Some node | [] \<Rightarrow> None, m\<lparr>wm_next_receiver := 0\<rparr>))
         in (case receiver of
               Some node \<Rightarrow> snd (send_request_to_specific_node t module_req_full_id node
                 \<lparr>rq_id = tn_random_id t, rq_body = ReqGetBlocks n from_number\<rparr> m)
             | None \<Rightarrow> m))
    | _ \<Rightarrow> m)"

text \<open>The names of the members: kept in the heads and in a cache of names.\<close>

definition set_head_uid ::
  "(pub_key \<rightharpoonup> ustring option) \<Rightarrow> node_full_id \<Rightarrow> 'f ws2p1_module \<Rightarrow> 'f ws2p1_module run" where
  "set_head_uid uids node m = do {
     head \<leftarrow> wm_heads_cache m node;
     pubkey \<leftarrow> head_pubkey head;
     (case uids pubkey of
        Some (Some uid) \<Rightarrow> do {
          head \<leftarrow> head_set_uid uid head;
          Some (m\<lparr>wm_heads_cache := (wm_heads_cache m)(node \<mapsto> head),
            wm_uids_cache := (wm_uids_cache m)(pubkey \<mapsto> uid)\<rparr>)
        }
      | Some None \<Rightarrow> Some (m\<lparr>wm_uids_cache := (wm_uids_cache m)(pubkey := None)\<rparr>)
      | None \<Rightarrow> Some m)
   }"

definition heads_values :: "'f ws2p1_turn \<Rightarrow> 'f ws2p1_module \<Rightarrow> head_v3 network_head list" where
  "heads_values t m = List.map_filter (wm_heads_cache m) (tn_nodes t (dom (wm_heads_cache m)))"

definition state_change_event ::
  "node_full_id \<Rightarrow> ws2p_connection_state \<Rightarrow> ustring option \<Rightarrow> 'f ws2p1_module \<Rightarrow> ('f, 'f net_payload) network_event run" where
  "state_change_event node s uid m = do {
     dal_ep \<leftarrow> wm_endpoints m node;
     url \<leftarrow> e1_get_url (de_ep dal_ep) False False;
     Some (ConnectionStateChange (XNode node) (state_number s) uid url)
   }"

definition uid_event ::
  "'f ws2p1_module \<Rightarrow> (pub_key \<rightharpoonup> ustring option) \<Rightarrow> node_full_id \<Rightarrow> ('f, 'f net_payload) network_event list run" where
  "uid_event m uids node = (case uids (snd node) of
      Some uid \<Rightarrow> do {
        dal_ep \<leftarrow> wm_endpoints m node;
        event \<leftarrow> state_change_event node (de_state dal_ep) uid m;
        Some [event]
      }
    | None \<Rightarrow> Some [])"

definition v1_receive_response ::
  "'f ws2p1_turn \<Rightarrow> nat \<Rightarrow> ('f, 'f net_payload) durs_res_content \<Rightarrow> 'f ws2p1_module \<Rightarrow> 'f ws2p1_module run" where
  "v1_receive_response t req_id res_content m = (case res_content of
      BlockchainResponse (ResCurrentBlockstamp b) \<Rightarrow> do {
        let m = m\<lparr>wm_current_blockstamp := b\<rparr>;
        my_head \<leftarrow> (case wm_my_head m of Some head \<Rightarrow> Some head | None \<Rightarrow> my_new_head t m);
        Some (send_network_event (ReceiveHeads [XHead my_head]) (m\<lparr>wm_my_head := Some my_head\<rparr>))
      }
    | BlockchainResponse (ResUIDs uids) \<Rightarrow> do {
        m \<leftarrow> fold_run (set_head_uid uids) (tn_nodes t (dom (wm_heads_cache m))) m;
        let m = send_network_event (ReceiveHeads (map XHead (heads_values t m))) m;
        events \<leftarrow> map_run (uid_event m uids) (tn_nodes t (dom (wm_endpoints m)));
        Some (send_network_events (concat events) m)
      }
    | BlockchainResponse (ResCurrentBlockOf block _) \<Rightarrow> (case wm_pending_received_requests m req_id of
        Some (node, ws2p_req_id) \<Rightarrow>
          send_response t node ws2p_req_id (ResGetCurrent block)
            (m\<lparr>wm_pending_received_requests := (wm_pending_received_requests m)(req_id := None)\<rparr>)
      | None \<Rightarrow> Some m)
    | _ \<Rightarrow> Some m)"

section \<open>The main loop\<close>

datatype 'f ws2p_thread_signal = ThreadDursMsg "'f v1_durs_msg" | ThreadWsMsg "'f v1_msg"

record 'f ws2p1_loop =
  lp_module :: "'f ws2p1_module"
  lp_start_time :: nat
  lp_last_connecting_wave :: nat
  lp_last_state_print :: nat
  lp_last_endpoints_save :: nat
  lp_update_status :: "node_full_id \<rightharpoonup> nat"
  lp_last_identities_request :: nat
  lp_saved :: "(node_full_id \<rightharpoonup> db_endpoint) list"

definition send_state_change ::
  "node_full_id \<Rightarrow> ws2p_connection_state \<Rightarrow> 'f ws2p1_module \<Rightarrow> 'f ws2p1_module run" where
  "send_state_change node s m = do {
     event \<leftarrow> state_change_event node s (wm_uids_cache m (snd node)) m;
     Some (send_network_event event m)
   }"

definition string_to_api :: "ustring \<Rightarrow> unit option" where
  "string_to_api api = (if api = ascii ''WS2P'' then Some () else None)"

text \<open>An endpoint of a peer card: a new one is connected to.\<close>

definition new_endpoint ::
  "'f ws2p1_turn \<Rightarrow> endpoint_v1 \<Rightarrow> (node_full_id \<rightharpoonup> nat) \<times> 'f ws2p1_module \<Rightarrow>
   ((node_full_id \<rightharpoonup> nat) \<times> 'f ws2p1_module) run" where
  "new_endpoint t ep = (\<lambda>(status, m). do {
     node \<leftarrow> e1_node_full_id ep;
     if wm_endpoints m node \<noteq> None then Some (status, m)
     else do {
       let status = (if string_to_api (e1_api ep) \<noteq> None then status(node \<mapsto> tn_now t) else status);
       m \<leftarrow> (if wm_ssl m \<or> e1_port ep \<noteq> 443 then connect_to t ep m else Some m);
       Some (status, m)
     }
   })"

definition treat_signal ::
  "'f ws2p1_turn \<Rightarrow> 'f ws2p_signal \<Rightarrow> (node_full_id \<rightharpoonup> nat) \<times> 'f ws2p1_module \<Rightarrow>
   ((node_full_id \<rightharpoonup> nat) \<times> 'f ws2p1_module) run" where
  "treat_signal t signal = (\<lambda>(status, m). (case signal of
      SigNoConnection \<Rightarrow> Some (status, m)
    | SigConnectionEstablished node \<Rightarrow> do {
        let module_req_id = as_u32 (card (dom (wm_requests_awaiting_response m)));
        let m = snd (send_request_to_specific_node t (ws2p1_name, module_req_id) node
          \<lparr>rq_id = tn_random_id t, rq_body = ReqGetCurrent\<rparr> m);
        m \<leftarrow> (if wm_uids_cache m (snd node) = None
          then map_option snd (send_dal_request (tn_profile t) (ReqUIDs [snd node]) m) else Some m);
        m \<leftarrow> send_state_change node Established m;
        Some (status, m)
      }
    | SigWSError node \<Rightarrow> do {
        m \<leftarrow> send_state_change node WSError (close_connection t node WsErrorReason m);
        Some (status(node \<mapsto> tn_now t), m)
      }
    | SigNegociationTimeout node \<Rightarrow> do {
        m \<leftarrow> send_state_change node Denial m;
        Some (status(node \<mapsto> tn_now t), m)
      }
    | SigTimeout node \<Rightarrow> do {
        m \<leftarrow> send_state_change node Close m;
        Some (status(node \<mapsto> tn_now t), m)
      }
    | SigPeerCard _ _ ws2p_endpoints \<Rightarrow> fold_run (new_endpoint t) ws2p_endpoints (status, m)
    | SigHeads _ heads \<Rightarrow> do {
        keys \<leftarrow> map_run head_pubkey heads;
        (_, m) \<leftarrow> send_dal_request (tn_profile t) (ReqUIDs keys) m;
        new_heads \<leftarrow> map_run (\<lambda>head. do {
            pubkey \<leftarrow> head_pubkey head;
            (case wm_uids_cache m pubkey of Some uid \<Rightarrow> head_set_uid uid head | None \<Rightarrow> Some head)
          }) heads;
        Some (status, send_network_event (ReceiveHeads (map XHead new_heads)) m)
      }
    | SigDocument _ network_doc \<Rightarrow> Some (status, send_network_event (ReceiveDocuments [network_doc]) m)
    | SigRequest node req_id body \<Rightarrow> map_option (Pair status) (receive_ws2p_v1_request t node req_id body m)
    | SigReqResponse module_req_full_id ws2p_req_body recipient response \<Rightarrow>
        map_option (Pair status) (ws_receive_response t module_req_full_id ws2p_req_body recipient response m)
    | SigEmpty \<Rightarrow> Some (status, m)))"

text \<open>A message of another module; the result is \<open>None\<close> for the message that stops the module.\<close>

definition treat_durs_msg ::
  "'f ws2p1_turn \<Rightarrow> 'f v1_durs_msg \<Rightarrow> 'f ws2p1_module \<Rightarrow> 'f ws2p1_module option run" where
  "treat_durs_msg t msg m = (case msg of
      MsgStop \<Rightarrow> Some None
    | MsgRequest _ _ _ req_content \<Rightarrow> Some (Some (v1_receive_req t req_content m))
    | MsgEvent _ _ event_content \<Rightarrow> map_option Some (v1_receive_event t event_content m)
    | MsgResponse _ _ req_id res_content \<Rightarrow> map_option Some (v1_receive_response t req_id res_content m)
    | _ \<Rightarrow> Some (Some m))"

definition elapsed :: "'f ws2p1_turn \<Rightarrow> nat \<Rightarrow> nat run" where
  "elapsed t since = (if since \<le> tn_now t then Some (tn_now t - since) else None)"

text \<open>A new wave of connections: every five minutes, more often during the first five.\<close>

definition wave_due :: "'f ws2p1_turn \<Rightarrow> 'f ws2p1_loop \<Rightarrow> bool run" where
  "wave_due t lp =
     (if count_established_connections t (lp_module lp) < w1_outcoming_quota (wm_conf (lp_module lp)) then do {
        wave \<leftarrow> elapsed t (lp_last_connecting_wave lp);
        if wave > 300000 then Some True
        else if wave > 75000 then map_option (\<lambda>d. d < 300000) (elapsed t (lp_start_time lp))
        else Some False
      }
      else Some False)"

text \<open>What is done by the clock: saving the endpoints, connecting to more of them, asking the blockstamp.\<close>

definition periodic :: "'f ws2p1_turn \<Rightarrow> bool \<Rightarrow> 'f ws2p1_loop \<Rightarrow> 'f ws2p1_loop run" where
  "periodic t saved_ok lp = do {
     d \<leftarrow> elapsed t (lp_last_endpoints_save lp);
     lp \<leftarrow> (if d > 180000 then
         (if saved_ok then Some (lp\<lparr>lp_last_endpoints_save := tn_now t,
            lp_saved := lp_saved lp @ [wm_endpoints (lp_module lp)]\<rparr>) else None)
       else Some lp);
     d \<leftarrow> elapsed t (lp_last_state_print lp);
     if d > 15000 then do {
       let lp = lp\<lparr>lp_last_state_print := tn_now t\<rparr>;
       due \<leftarrow> wave_due t lp;
       lp \<leftarrow> (if due then do {
           m \<leftarrow> connect_to_know_endpoints t (lp_module lp);
           Some (lp\<lparr>lp_last_connecting_wave := tn_now t, lp_module := m\<rparr>)
         } else Some lp);
       d \<leftarrow> elapsed t (lp_last_identities_request lp);
       identities \<leftarrow> (if d > 40000 then map_option (\<lambda>d. d > 10000) (elapsed t (lp_start_time lp)) else Some False);
       let lp = (if identities then lp\<lparr>lp_last_identities_request := tn_now t\<rparr> else lp);
       (_, m) \<leftarrow> send_dal_request (tn_profile t) ReqCurrentBlockstamp (lp_module lp);
       Some (lp\<lparr>lp_module := m\<rparr>)
     }
     else Some lp
   }"

text \<open>A turn of the loop; the result is \<open>None\<close> when it stops.\<close>

definition loop_turn ::
  "'f ws2p1_turn \<Rightarrow> bool \<Rightarrow> 'f ws2p_thread_signal reception \<Rightarrow> 'f ws2p1_loop \<Rightarrow> 'f ws2p1_loop option run" where
  "loop_turn t saved_ok r lp = (case r of
      Got (ThreadDursMsg msg) \<Rightarrow>
        opt_then (treat_durs_msg t msg (lp_module lp)) (\<lambda>m.
          map_option Some (periodic t saved_ok (lp\<lparr>lp_module := m\<rparr>)))
    | Got (ThreadWsMsg msg) \<Rightarrow> do {
        (signal, m) \<leftarrow> ws2p_recv_message_pretreatment t msg (lp_module lp);
        (status, m) \<leftarrow> treat_signal t signal (lp_update_status lp, m);
        map_option Some (periodic t saved_ok (lp\<lparr>lp_module := m, lp_update_status := status\<rparr>))
      }
    | TimedOut \<Rightarrow> map_option Some (periodic t saved_ok lp)
    | Disconnected \<Rightarrow> None)"

fun loop_turns ::
  "('f ws2p1_turn \<times> bool \<times> 'f ws2p_thread_signal reception) list \<Rightarrow> 'f ws2p1_loop \<Rightarrow> 'f ws2p1_loop option run" where
  "loop_turns [] lp = Some (Some lp)"
| "loop_turns ((t, saved_ok, r) # rs) lp =
     opt_then (loop_turn t saved_ok r lp) (loop_turns rs)"

section \<open>Start\<close>

datatype 'e ws2p_peers_db_error = PeersIoErr | PeersSerdeErr 'e

text \<open>
  The file of the endpoints: it may not exist, it may not be readable; the crate \<open>bincode\<close> reads its
  bytes, and a new file may not be created.
\<close>

definition get_endpoints ::
  "(nat list \<Rightarrow> 'e + (node_full_id \<rightharpoonup> db_endpoint)) \<Rightarrow> nat list option option \<Rightarrow> bool \<Rightarrow>
   'e ws2p_peers_db_error + (node_full_id \<rightharpoonup> db_endpoint)" where
  "get_endpoints bin_read file create_ok = (case file of
      Some (Some bin_endpoints) \<Rightarrow>
        (if bin_endpoints = [] then Inr Map.empty else map_sum PeersSerdeErr id (bin_read bin_endpoints))
    | Some None \<Rightarrow> Inl PeersIoErr
    | None \<Rightarrow> if create_ok then Inr Map.empty else Inl PeersIoErr)"

definition load_sync_endpoint ::
  "endpoint_v1 \<Rightarrow> (node_full_id \<rightharpoonup> db_endpoint) \<Rightarrow> (node_full_id \<rightharpoonup> db_endpoint) run" where
  "load_sync_endpoint ep eps = do {
     node \<leftarrow> e1_node_full_id ep;
     Some (eps(node \<mapsto> \<lparr>de_ep = ep, de_state = Close, de_last_check = 0\<rparr>))
   }"

text \<open>The endpoints of the file: without ssl those of port 443 are dropped, and none is established.\<close>

definition load_db_endpoints ::
  "bool \<Rightarrow> (node_full_id \<rightharpoonup> db_endpoint) \<Rightarrow> (node_full_id \<rightharpoonup> db_endpoint)" where
  "load_db_endpoints ssl eps = (\<lambda>node. case eps node of
      Some dal_ep \<Rightarrow>
        (if ssl \<or> e1_port (de_ep dal_ep) \<noteq> 443
         then Some (if de_state dal_ep = Established then dal_ep\<lparr>de_state := Close\<rparr> else dal_ep) else None)
    | None \<Rightarrow> None)"

definition ws2p1_registration :: "'c \<Rightarrow> 'c module_registration" where
  "ws2p1_registration sender = \<lparr>mr_static_name = ws2p1_name, mr_sender = sender,
     mr_roles = [InterNodesNetwork], mr_events_subscription = [NewValidBlock, NewWotDocInPool, NewTxinPool],
     mr_reserved_apis_parts = [\<lparr>ap_name = ascii ''WS2P'', ap_versions = {1}\<rparr>], mr_endpoints = []\<rparr>"

definition ws2p1_durs_module :: durs_module where
  "ws2p1_durs_module = \<lparr>dm_name = ws2p1_name, dm_priority = Essential, dm_required_keys = RequireNetworkKeyPair\<rparr>"

datatype ws2pv1_error = UnexpectedKeys

text \<open>The start, up to the loop; the registration is sent by another thread, which relays the messages.\<close>

definition ws2p1_start ::
  "'f ws2p1_turn \<Rightarrow> required_keys_content \<Rightarrow> ws2p1_conf \<Rightarrow> ustring \<Rightarrow> nat \<Rightarrow> ustring \<Rightarrow> ustring \<Rightarrow> bool \<Rightarrow>
   'e ws2p_peers_db_error + (node_full_id \<rightharpoonup> db_endpoint) \<Rightarrow> (ws2pv1_error + 'f ws2p1_loop) run" where
  "ws2p1_start t keys conf currency my_node_id soft_name soft_version ssl db = (case keys of
      NetworkKeyPair key_pair \<Rightarrow> do {
        eps \<leftarrow> fold_run load_sync_endpoint (w1_sync_endpoints conf) Map.empty;
        let m = (ws2p1_module_new conf soft_name soft_version ssl my_node_id key_pair)
          \<lparr>wm_currency := Some currency, wm_endpoints := eps\<rparr>;
        db_eps \<leftarrow> expect db;
        let m = m\<lparr>wm_endpoints := wm_endpoints m ++ load_db_endpoints ssl db_eps\<rparr>;
        (_, m) \<leftarrow> send_dal_request (tn_profile t) ReqCurrentBlockstamp m;
        m \<leftarrow> connect_to_know_endpoints t m;
        Some (Inr \<lparr>lp_module = m, lp_start_time = tn_now t, lp_last_connecting_wave = tn_now t,
          lp_last_state_print = tn_now t, lp_last_endpoints_save = tn_now t, lp_update_status = Map.empty,
          lp_last_identities_request = 0, lp_saved = []\<rparr>)
      }
    | _ \<Rightarrow> Some (Inl UnexpectedKeys))"

section \<open>What a turn keeps\<close>

text \<open>The cached heads verify, under the node that they name; a request that waits has been sent.\<close>

definition heads_ok :: "'f ws2p1_env \<Rightarrow> 'f ws2p1_module \<Rightarrow> bool" where
  "heads_ok e m \<longleftrightarrow> (\<forall>node head. wm_heads_cache m node = Some head \<longrightarrow>
     head_node_full_id head = Some node \<and> head_verify (v1_crypto e) head = Some True)"

definition request_sent :: "'f ws2p1_env \<Rightarrow> v1_req_id \<Rightarrow> v1_req_body \<Rightarrow> 'f ws2p1_module \<Rightarrow> bool" where
  "request_sent e i body m \<longleftrightarrow> (\<exists>socket.
     (socket, CallSend (json_show e (network_request_to_json e \<lparr>rq_id = i, rq_body = body\<rparr>))) \<in> set (wm_ws_calls m))"

definition requests_ok :: "'f ws2p1_env \<Rightarrow> 'f ws2p1_module \<Rightarrow> bool" where
  "requests_ok e m \<longleftrightarrow> (\<forall>i r. wm_requests_awaiting_response m i = Some r \<longrightarrow> request_sent e i (pr_req_body r) m)"

definition module_ok :: "'f ws2p1_env \<Rightarrow> 'f ws2p1_module \<Rightarrow> bool" where
  "module_ok e m \<longleftrightarrow> heads_ok e m \<and> requests_ok e m"

text \<open>An operation that neither adds a head nor a waiting request.\<close>

definition frame :: "'f ws2p1_module \<Rightarrow> 'f ws2p1_module \<Rightarrow> bool" where
  "frame m m' \<longleftrightarrow> wm_heads_cache m' = wm_heads_cache m \<and>
     wm_requests_awaiting_response m' \<subseteq>\<^sub>m wm_requests_awaiting_response m \<and> set (wm_ws_calls m) \<subseteq> set (wm_ws_calls m')"

lemma frame_ok: "frame m m' \<Longrightarrow> module_ok e m \<Longrightarrow> module_ok e m'"
  by (fastforce simp: frame_def module_ok_def heads_ok_def requests_ok_def request_sent_def map_le_def dom_def)

lemma frame_refl [simp]: "frame m m"
  by (simp add: frame_def)

lemma frame_trans: "frame m m' \<Longrightarrow> frame m' m'' \<Longrightarrow> frame m m''"
  by (auto simp: frame_def intro: map_le_trans)

lemma frame_updates [simp]:
  "frame m (m\<lparr>wm_router := a\<rparr>)" "frame m (m\<lparr>wm_endpoints := b\<rparr>)" "frame m (m\<lparr>wm_websockets := c\<rparr>)"
  "frame m (m\<lparr>wm_threads := d\<rparr>)" "frame m (m\<lparr>wm_count_dal_requests := f\<rparr>)"
  "frame m (m\<lparr>wm_pending_received_requests := g\<rparr>)" "frame m (m\<lparr>wm_current_blockstamp := h\<rparr>)"
  "frame m (m\<lparr>wm_my_head := k\<rparr>)" "frame m (m\<lparr>wm_next_receiver := l\<rparr>)"
  "frame m (m\<lparr>wm_ws_calls := wm_ws_calls m @ calls\<rparr>)"
  by (auto simp: frame_def)

lemma frame_then [simp]:
  "frame m m' \<Longrightarrow> frame m (m'\<lparr>wm_router := a\<rparr>)" "frame m m' \<Longrightarrow> frame m (m'\<lparr>wm_endpoints := b\<rparr>)"
  "frame m m' \<Longrightarrow> frame m (m'\<lparr>wm_websockets := c\<rparr>)" "frame m m' \<Longrightarrow> frame m (m'\<lparr>wm_threads := d\<rparr>)"
  "frame m m' \<Longrightarrow> frame m (m'\<lparr>wm_pending_received_requests := g\<rparr>)"
  "frame m m' \<Longrightarrow> frame m (m'\<lparr>wm_my_head := k\<rparr>)"
  "frame m m' \<Longrightarrow> frame m (m'\<lparr>wm_ws_calls := wm_ws_calls m' @ calls\<rparr>)"
  by (auto intro: frame_trans)

lemma frame_after:
  "frame (m\<lparr>wm_endpoints := b\<rparr>) m' \<Longrightarrow> frame m m'" "frame (m\<lparr>wm_websockets := c\<rparr>) m' \<Longrightarrow> frame m m'"
  "frame (m\<lparr>wm_ws_calls := wm_ws_calls m @ calls\<rparr>) m' \<Longrightarrow> frame m m'"
  "frame (m\<lparr>wm_current_blockstamp := d\<rparr>) m' \<Longrightarrow> frame m m'"
  "frame (m\<lparr>wm_pending_received_requests := g\<rparr>) m' \<Longrightarrow> frame m m'"
  by (auto intro: frame_trans[rotated])

lemma frame_to_router [simp]: "frame m m' \<Longrightarrow> frame m (to_router msg m')"
  by (simp add: to_router_def)

lemma frame_event [simp]: "frame m m' \<Longrightarrow> frame m (send_network_event event m')"
  by (simp add: send_network_event_def split: option.split)

lemma frame_events [simp]: "frame m m' \<Longrightarrow> frame m (send_network_events events m')"
  unfolding send_network_events_def by (induction events arbitrary: m') auto

lemma frame_dal: "send_dal_request p req m = Some (i, m') \<Longrightarrow> frame m m'"
  by (auto simp: send_dal_request_def Let_def split: bind_splits)

lemma frame_req_response [simp]: "frame m m' \<Longrightarrow> frame m (send_network_req_response requester req_id response m')"
  by (simp add: send_network_req_response_def)

lemma frame_ws_send: "ws_send t socket s m = (sent, m') \<Longrightarrow> frame m m'"
  by (auto simp: ws_send_def)

lemma frame_ws_close [simp]: "frame m m' \<Longrightarrow> frame m (ws_close socket code m')"
  by (simp add: ws_close_def)

lemma frame_send_response: "send_response t node req_id body m = Some m' \<Longrightarrow> frame m m'"
  by (auto simp: send_response_def ws_send_def ws_close_def split: bind_splits option.splits if_splits)

lemma frame_update_endpoint: "update_endpoint node f m = Some m' \<Longrightarrow> frame m m'"
  by (auto simp: update_endpoint_def split: option.splits)

lemmas frame_set_ep = frame_update_endpoint[where f = "\<lambda>ep. ep\<lparr>de_state := s\<rparr>" for s, folded set_ep_state_def]

lemma frame_set_checked: "set_ep_checked t s node m = Some m' \<Longrightarrow> frame m m'"
  unfolding set_ep_checked_def by (rule frame_update_endpoint)

lemma frame_close [simp]: "frame m m' \<Longrightarrow> frame m (close_connection t node reason m')"
  by (auto simp: close_connection_def Let_def split: close_reason.splits option.splits)

lemma frame_connect: "connect_to_without_checking_quotas node m = Some m' \<Longrightarrow> frame m m'"
  by (auto simp: connect_to_without_checking_quotas_def split: bind_splits)

lemma frame_connect_to: "connect_to t ep m = Some m' \<Longrightarrow> frame m m'"
  by (auto simp: connect_to_def Let_def dest!: frame_connect dest: frame_after split: bind_splits if_splits)

lemma frame_rooms: "connect_rooms rooms reachable unreachable m = Some m' \<Longrightarrow> frame m m'"
proof (induction rooms reachable unreachable m rule: connect_rooms.induct)
  case (1 rooms reachable unreachable m)
  show ?case
  proof (cases "rooms = 0 \<or> reachable = [] \<and> unreachable = []")
    case True
    then show ?thesis using 1(3) by (subst (asm) connect_rooms.simps) (auto split: if_splits)
  next
    case False
    then consider "rooms \<noteq> 0" "reachable \<noteq> []" | "rooms \<noteq> 0" "reachable = []" "unreachable \<noteq> []" by auto
    then show ?thesis
    proof cases
      case 1
      then obtain node m1 where "e1_node_full_id (last reachable) = Some node"
          "connect_to_without_checking_quotas node m = Some m1"
          "connect_rooms (rooms - 1) (butlast reachable) unreachable m1 = Some m'"
        using "1.prems" by (subst (asm) connect_rooms.simps) (auto split: bind_splits)
      then show ?thesis using "1.IH"(1) 1 frame_connect frame_trans by blast
    next
      case 2
      then obtain node m1 where "e1_node_full_id (last unreachable) = Some node"
          "connect_to_without_checking_quotas node m = Some m1"
          "connect_rooms (rooms - 1) reachable (butlast unreachable) m1 = Some m'"
        using "1.prems" by (subst (asm) connect_rooms.simps) (auto split: bind_splits)
      then show ?thesis using "1.IH"(2) 2 frame_connect frame_trans by blast
    qed
  qed
qed

lemma frame_know: "connect_to_know_endpoints t m = Some m' \<Longrightarrow> frame m m'"
  by (auto simp: connect_to_know_endpoints_def dest: frame_rooms split: bind_splits)

lemma frame_timeouts: "check_timeout_requests t m = Some m' \<Longrightarrow> frame m m'"
  by (auto simp: check_timeout_requests_def frame_def map_le_def split: if_splits option.splits)

lemma frame_send_all: "frame m (send_to_all t s nodes m)"
  by (induction nodes arbitrary: m) (auto simp: ws_send_def split: option.splits intro: frame_after(3))

lemma frame_state_change: "send_state_change node s m = Some m' \<Longrightarrow> frame m m'"
  by (auto simp: send_state_change_def split: bind_splits)

text \<open>The operations that add a head or a waiting request.\<close>

lemma frame_forget [simp]: "frame m m' \<Longrightarrow> frame m (m'\<lparr>wm_requests_awaiting_response :=
    (wm_requests_awaiting_response m')(i := None)\<rparr>)"
  by (rule frame_trans, assumption) (auto simp: frame_def map_le_def)

lemma add_head_ok:
  assumes "module_ok e m" "head_node_full_id head = Some node" "head_verify (v1_crypto e) head = Some True"
  shows "module_ok e (m\<lparr>wm_heads_cache := (wm_heads_cache m)(node \<mapsto> head)\<rparr>)"
  using assms by (auto simp: module_ok_def heads_ok_def requests_ok_def request_sent_def split: if_splits)

lemma add_request_ok:
  assumes "module_ok e m" "request_sent e i (pr_req_body r) m"
  shows "module_ok e (m\<lparr>wm_requests_awaiting_response := (wm_requests_awaiting_response m)(i \<mapsto> r)\<rparr>)"
  using assms by (auto simp: module_ok_def heads_ok_def requests_ok_def request_sent_def)

lemma send_request_ok:
  assumes "module_ok (tn_env t) m"
  shows "module_ok (tn_env t) (snd (send_request_to_specific_node t who node req m))"
proof (cases "wm_websockets m node")
  case None
  then show ?thesis using assms by (simp add: send_request_to_specific_node_def)
next
  case (Some socket)
  let ?m = "m\<lparr>wm_ws_calls := wm_ws_calls m @
    [(socket, CallSend (json_show (tn_env t) (network_request_to_json (tn_env t) req)))]\<rparr>"
  have ok: "module_ok (tn_env t) ?m" by (rule frame_ok[OF _ assms]) simp
  have "request_sent (tn_env t) (rq_id req) (rq_body req) ?m"
    by (cases req) (auto simp: request_sent_def)
  then show ?thesis
    using add_request_ok[OF ok, of "rq_id req"] ok
    by (simp add: send_request_to_specific_node_def Some ws_send_def)
qed

lemma head_apply_cases:
  assumes "head_apply head cache = Some (new, cache')"
  shows "cache' = cache \<or> (\<exists>node. head_node_full_id head = Some node \<and> cache' = cache(node \<mapsto> head))"
  using assms by (auto simp: head_apply_def split: bind_splits option.splits if_splits)

lemma apply_head_ok:
  assumes "apply_head t v (applied, m) = Some (applied', m')" "module_ok (tn_env t) m"
  shows "module_ok (tn_env t) m'"
proof (cases "m' = m")
  case False
  then obtain head new cache where head: "head_verify (v1_crypto (tn_env t)) head = Some True"
      "head_apply head (wm_heads_cache m) = Some (new, cache)" "m' = m\<lparr>wm_heads_cache := cache\<rparr>"
    using assms(1) by (auto simp: apply_head_def split: bind_splits sum.splits if_splits)
  from head_apply_cases[OF head(2)] show ?thesis
  proof (elim disjE exE conjE)
    fix node assume "head_node_full_id head = Some node" "cache = (wm_heads_cache m)(node \<mapsto> head)"
    then show ?thesis using add_head_ok[OF assms(2)] head by simp
  qed (use head(3) assms(2) in simp)
qed (use assms(2) in simp)

lemma apply_heads_ok:
  assumes "fold_run (apply_head t) heads (applied, m) = Some (applied', m')" "module_ok (tn_env t) m"
  shows "module_ok (tn_env t) m'"
  using assms
proof (induction heads arbitrary: applied m)
  case (Cons v heads)
  then obtain applied1 m1 where "apply_head t v (applied, m) = Some (applied1, m1)"
      "fold_run (apply_head t) heads (applied1, m1) = Some (applied', m')"
    by (auto split: bind_splits)
  then show ?case using Cons.IH apply_head_ok[OF _ Cons.prems(2)] by blast
qed simp

lemma set_uid_facts:
  assumes "head_set_uid uid head = Some head'"
  shows "head_node_full_id head' = head_node_full_id head" "head_verify c head' = head_verify c head"
proof -
  obtain h where "head = HeadV2 h" "head' = HeadV2 (h\<lparr>h2_uid := Some uid\<rparr>)"
    using assms by (cases head) auto
  then show "head_node_full_id head' = head_node_full_id head" "head_verify c head' = head_verify c head"
    by (simp_all add: head_node_full_id_def cong: if_cong)
qed

lemma uids_cache_ok [simp]: "module_ok e (m\<lparr>wm_uids_cache := u\<rparr>) = module_ok e m"
  by (simp add: module_ok_def heads_ok_def requests_ok_def request_sent_def)

lemma set_head_uid_ok:
  assumes "set_head_uid uids node m = Some m'" "module_ok e m"
  shows "module_ok e m'"
proof -
  obtain head pubkey where head: "wm_heads_cache m node = Some head" "head_pubkey head = Some pubkey"
    using assms(1) by (auto simp: set_head_uid_def split: bind_splits)
  have ok: "head_node_full_id head = Some node" "head_verify (v1_crypto e) head = Some True"
    using assms(2) head(1) unfolding module_ok_def heads_ok_def by blast+
  show ?thesis
  proof (cases "uids pubkey \<bind> id")
    case None
    then show ?thesis using assms by (auto simp: set_head_uid_def head split: option.splits)
  next
    case (Some uid)
    then obtain head' where su: "head_set_uid uid head = Some head'" and m': "m' = m\<lparr>wm_heads_cache :=
        (wm_heads_cache m)(node \<mapsto> head'), wm_uids_cache := (wm_uids_cache m)(pubkey \<mapsto> uid)\<rparr>"
      using assms(1) by (auto simp: set_head_uid_def head split: bind_splits option.splits)
    show ?thesis using add_head_ok[OF assms(2), of head' node] set_uid_facts[OF su] ok m' by simp
  qed
qed

lemma set_head_uids_ok:
  "fold_run (set_head_uid uids) nodes m = Some m' \<Longrightarrow> module_ok e m \<Longrightarrow> module_ok e m'"
  by (induction nodes arbitrary: m) (auto split: bind_splits dest: set_head_uid_ok)

lemma pretreatment_ok:
  assumes "ws2p_recv_message_pretreatment t msg m = Some (signal, m')" "module_ok (tn_env t) m"
  shows "module_ok (tn_env t) m'"
proof -
  obtain m1 where m1: "check_timeout_requests t m = Some m1"
    using assms(1) by (auto simp: ws2p_recv_message_pretreatment_def split: bind_splits)
  have ok: "module_ok (tn_env t) m1" by (rule frame_ok[OF frame_timeouts[OF m1] assms(2)])
  show ?thesis
  proof (cases "\<exists>heads. vm_payload msg = PayHeads heads")
    case True
    then show ?thesis using assms(1) ok apply_heads_ok
      by (auto simp: ws2p_recv_message_pretreatment_def m1 split: bind_splits)
  next
    case False
    have "frame m1 m'"
      using assms(1) False
      by (cases "vm_payload msg")
        (auto simp: ws2p_recv_message_pretreatment_def m1 Let_def ws_send_def
          dest!: frame_set_checked frame_set_ep split: bind_splits option.splits if_splits intro: frame_trans)
    then show ?thesis using ok by (rule frame_ok)
  qed
qed

end
