(* ===== verification/Ws2p1_Invariant.thy ===== *)
theory Ws2p1_Invariant
  imports Ws2p1_Module
begin

text \<open>
  What the module of the first version of the peer to peer protocol keeps at every turn of its loop, what it
  makes of the responses, of its quota of connections and of the heads that it sends.
\<close>

section \<open>The operations keep the caches\<close>

lemma frame_receive_request:
  assumes "receive_ws2p_v1_request t node i body m = Some m'"
  shows "frame m m'"
  using assms
  by (cases body) (auto simp: receive_ws2p_v1_request_def split: bind_splits
      dest!: frame_dal frame_send_response)

lemma frame_receive_response:
  assumes "ws_receive_response t who body recipient response m = Some m'"
  shows "frame m m'"
  using assms
  by (cases body) (auto simp: ws_receive_response_def split: bind_splits option.splits)

lemma frame_receive_event:
  assumes "v1_receive_event t event m = Some m'"
  shows "frame m m'"
proof (cases "\<exists>block. event = BlockchainEvent (XBlockchainEvent (StackUpValidBlock block))")
  case True
  then obtain b my_head json where m': "m' = send_to_all t (json_show (tn_env t) json)
      (tn_nodes t (dom (wm_websockets (m\<lparr>wm_current_blockstamp := b, wm_my_head := Some my_head\<rparr>))))
      (send_network_event (ReceiveHeads [XHead my_head]) (m\<lparr>wm_current_blockstamp := b, wm_my_head := Some my_head\<rparr>))"
    using assms by (auto simp: v1_receive_event_def Let_def send_network_event_def to_router_def network_event_type_def
        split: bind_splits)
  have "frame m (m\<lparr>wm_current_blockstamp := b, wm_my_head := Some my_head\<rparr>)"
    by (simp add: frame_def)
  then show ?thesis using frame_send_all frame_trans frame_event unfolding m' by blast
qed (use assms in \<open>auto simp: v1_receive_event_def split: durs_event.splits net_payload.splits blockchain_event.splits\<close>)

lemma receive_req_ok:
  assumes "module_ok (tn_env t) m"
  shows "module_ok (tn_env t) (v1_receive_req t req m)"
proof (cases "\<exists>who n from. req = OldNetworkRequest (GetBlocks who n from)")
  case True
  have ok: "module_ok (tn_env t) (m\<lparr>wm_next_receiver := k\<rparr>)" for k by (rule frame_ok[OF _ assms]) simp
  from True assms show ?thesis
    by (auto simp: v1_receive_req_def Let_def intro!: send_request_ok ok split: option.splits list.splits)
qed (use assms in \<open>auto simp: v1_receive_req_def split: durs_req_content.splits old_network_request.splits\<close>)

lemma v1_receive_response_ok:
  assumes "v1_receive_response t i res m = Some m'" "module_ok (tn_env t) m"
  shows "module_ok (tn_env t) m'"
proof (cases "\<exists>uids. res = BlockchainResponse (ResUIDs uids)")
  case True
  then obtain uids m1 events where 1: "fold_run (set_head_uid uids) (tn_nodes t (dom (wm_heads_cache m))) m = Some m1"
      "m' = send_network_events events (send_network_event (ReceiveHeads (map XHead (heads_values t m1))) m1)"
    using assms(1) by (auto simp: v1_receive_response_def Let_def split: bind_splits)
  then show ?thesis
    using frame_ok[OF frame_events[OF frame_event[OF frame_refl]]] set_head_uids_ok[OF 1(1) assms(2)] by simp
next
  case False
  have "frame m m'"
    using assms(1) False
    by (cases res) (auto simp: v1_receive_response_def Let_def split: bind_splits option.splits blockchain_response.splits
        dest!: frame_send_response dest: frame_after intro: frame_trans)
  then show ?thesis using assms(2) by (rule frame_ok)
qed

lemma frame_new_endpoint:
  assumes "new_endpoint t ep (status, m) = Some (status', m')"
  shows "frame m m'"
  using assms by (auto simp: new_endpoint_def Let_def dest: frame_connect_to split: bind_splits if_splits)

lemma frame_new_endpoints:
  "fold_run (new_endpoint t) eps (status, m) = Some (status', m') \<Longrightarrow> frame m m'"
proof (induction eps arbitrary: status m)
  case (Cons ep eps)
  then obtain status1 m1 where "new_endpoint t ep (status, m) = Some (status1, m1)"
      "fold_run (new_endpoint t) eps (status1, m1) = Some (status', m')"
    by (auto split: bind_splits)
  then show ?case using Cons.IH frame_new_endpoint frame_trans by blast
qed simp

lemma treat_signal_ok:
  assumes "treat_signal t signal (status, m) = Some (status', m')" "module_ok (tn_env t) m"
  shows "module_ok (tn_env t) m'"
proof (cases "\<exists>node. signal = SigConnectionEstablished node")
  case True
  then obtain node where node: "signal = SigConnectionEstablished node" by blast
  let ?m = "snd (send_request_to_specific_node t (ws2p1_name, as_u32 (card (dom (wm_requests_awaiting_response m)))) node
    \<lparr>rq_id = tn_random_id t, rq_body = ReqGetCurrent\<rparr> m)"
  have "frame ?m m'"
    using assms(1)
    by (auto simp: treat_signal_def node Let_def dest!: frame_dal frame_state_change
        split: bind_splits if_splits intro: frame_trans)
  then show ?thesis using send_request_ok[OF assms(2)] by (rule frame_ok)
next
  case False
  have "frame m m'"
    using assms(1) False
    by (cases signal) (auto simp: treat_signal_def Let_def split: bind_splits option.splits
        dest!: frame_dal frame_state_change frame_receive_request frame_receive_response frame_new_endpoints
        intro: frame_trans frame_close[OF frame_refl])
  then show ?thesis using assms(2) by (rule frame_ok)
qed

lemma treat_durs_msg_ok:
  assumes "treat_durs_msg t msg m = Some (Some m')" "module_ok (tn_env t) m"
  shows "module_ok (tn_env t) m'"
  using assms by (cases msg)
    (auto simp: treat_durs_msg_def receive_req_ok dest: v1_receive_response_ok frame_ok[OF frame_receive_event])

lemma frame_periodic:
  assumes "periodic t saved_ok lp = Some lp'"
  shows "frame (lp_module lp) (lp_module lp')"
  using assms
  by (auto simp: periodic_def Let_def dest!: frame_know frame_dal split: bind_splits if_splits intro: frame_trans)

lemma loop_turn_ok:
  assumes "loop_turn t saved_ok r lp = Some (Some lp')" "module_ok (tn_env t) (lp_module lp)"
  shows "module_ok (tn_env t) (lp_module lp')"
proof (cases r)
  case (Got signal)
  show ?thesis
  proof (cases signal)
    case (ThreadDursMsg msg)
    then obtain m where "treat_durs_msg t msg (lp_module lp) = Some (Some m)"
        "periodic t saved_ok (lp\<lparr>lp_module := m\<rparr>) = Some lp'"
      using assms(1) Got by (auto simp: loop_turn_def opt_then_def split: bind_splits option.splits)
    then show ?thesis using treat_durs_msg_ok assms(2) frame_ok[OF frame_periodic] by fastforce
  next
    case (ThreadWsMsg msg)
    then obtain signal m status m1 where
        "ws2p_recv_message_pretreatment t msg (lp_module lp) = Some (signal, m)"
        "treat_signal t signal (lp_update_status lp, m) = Some (status, m1)"
        "periodic t saved_ok (lp\<lparr>lp_module := m1, lp_update_status := status\<rparr>) = Some lp'"
      using assms(1) Got by (auto simp: loop_turn_def split: bind_splits)
    then show ?thesis using pretreatment_ok treat_signal_ok assms(2) frame_ok[OF frame_periodic] by fastforce
  qed
qed (use assms frame_ok[OF frame_periodic] in \<open>auto simp: loop_turn_def\<close>)

lemma loop_turns_ok:
  assumes "loop_turns rs lp = Some (Some lp')" "module_ok e (lp_module lp)" "\<forall>(t, _) \<in> set rs. tn_env t = e"
  shows "module_ok e (lp_module lp')"
  using assms
proof (induction rs arbitrary: lp)
  case (Cons turn rs)
  obtain t saved_ok r where turn: "turn = (t, saved_ok, r)" by (cases turn)
  then obtain lp1 where "loop_turn t saved_ok r lp = Some (Some lp1)" "loop_turns rs lp1 = Some (Some lp')"
    using Cons.prems(1) by (auto simp: opt_then_def split: bind_splits option.splits)
  then show ?case using Cons.IH[of lp1] Cons.prems(2,3) loop_turn_ok[of t saved_ok r lp lp1] turn by auto
qed simp

lemma start_ok:
  assumes "ws2p1_start t keys conf currency i soft_name soft_version ssl db = Some (Inr lp)"
  shows "module_ok e (lp_module lp)"
proof -
  have new: "module_ok e ((ws2p1_module_new conf soft_name soft_version ssl i k)
      \<lparr>wm_currency := Some currency, wm_endpoints := eps\<rparr>)" for k eps
    by (simp add: ws2p1_module_new_def module_ok_def heads_ok_def requests_ok_def)
  have "\<exists>k eps. frame ((ws2p1_module_new conf soft_name soft_version ssl i k)
      \<lparr>wm_currency := Some currency, wm_endpoints := eps\<rparr>) (lp_module lp)"
    using assms
    by (auto simp: ws2p1_start_def Let_def dest!: frame_know frame_dal split: bind_splits required_keys_content.splits)
      (blast intro: frame_trans)
  then show ?thesis using new frame_ok by blast
qed

section \<open>The states of the module\<close>

text \<open>The states of the loop: one started, or one after a turn from such a state.\<close>

inductive ws2p1_run :: "'f ws2p1_env \<Rightarrow> 'f ws2p1_loop \<Rightarrow> bool" for e where
  run_start: "ws2p1_start t keys conf currency i soft_name soft_version ssl
     (db :: ustring ws2p_peers_db_error + (node_full_id \<rightharpoonup> db_endpoint)) = Some (Inr lp) \<Longrightarrow> ws2p1_run e lp"
| run_turn: "ws2p1_run e lp \<Longrightarrow> tn_env t = e \<Longrightarrow> loop_turn t saved_ok r lp = Some (Some lp') \<Longrightarrow> ws2p1_run e lp'"

lemma run_turns:
  assumes "loop_turns rs lp = Some (Some lp')" "ws2p1_run e lp" "\<forall>(t, _) \<in> set rs. tn_env t = e"
  shows "ws2p1_run e lp'"
  using assms
proof (induction rs arbitrary: lp)
  case (Cons turn rs)
  obtain t saved_ok r where turn: "turn = (t, saved_ok, r)" by (cases turn)
  then obtain lp1 where "loop_turn t saved_ok r lp = Some (Some lp1)" "loop_turns rs lp1 = Some (Some lp')"
    using Cons.prems(1) by (auto simp: opt_then_def split: bind_splits option.splits)
  then show ?case using Cons.IH[of lp1] Cons.prems(2,3) run_turn[of e lp t saved_ok r lp1] turn by auto
qed simp

lemma run_module_ok: "ws2p1_run e lp \<Longrightarrow> module_ok e (lp_module lp)"
  by (induction rule: ws2p1_run.induct) (auto intro: start_ok loop_turn_ok)

text \<open>
  C27: The cache of the heads. At every state of the module, a head of the cache has been verified with
  the key that it names, and it is stored under the node that it names: no message of another node puts
  there a head that the node has not signed.
\<close>

theorem heads_cache_verified:
  assumes "ws2p1_run e lp" and "wm_heads_cache (lp_module lp) node = Some head"
  shows "head_node_full_id head = Some node \<and> head_verify (v1_crypto e) head = Some True"
  using run_module_ok[OF assms(1)] assms(2) unfolding module_ok_def heads_ok_def by blast

definition example_turn1 :: "nat ws2p1_turn" where
  "example_turn1 = \<lparr>tn_env = example_env1\<lparr>v1_crypto := toy_crypto\<lparr>c_ed25519_verify := (\<lambda>_ _ _. True)\<rparr>, v1_codecs := toy_codecs\<rparr>,
     tn_profile = Debug, tn_now = 0, tn_send_ok = (\<lambda>_. True), tn_random_id = 5,
     tn_nodes = (\<lambda>nodes. filter (\<lambda>node. node \<in> nodes) [(7, PubEd25519 (replicate 32 65)), (3, PubEd25519 (replicate 32 1))]),
     tn_sort = (\<lambda>_ eps. eps)\<rparr>"

definition example_conf1 :: ws2p1_conf where
  "example_conf1 = \<lparr>w1_outcoming_quota = 2, w1_prefered_pubkeys = {}, w1_sync_endpoints = []\<rparr>"

definition example_db1 :: "ustring ws2p_peers_db_error + (node_full_id \<rightharpoonup> db_endpoint)" where
  "example_db1 = Inr [(7, PubEd25519 (replicate 32 65)) \<mapsto> \<lparr>de_ep = example_endpoint1, de_state = Established, de_last_check = 0\<rparr>]"

abbreviation example_node1 :: node_full_id where
  "example_node1 \<equiv> (7, PubEd25519 (replicate 32 65))"

lemma example_endpoint1_facts [simp]:
  "e1_port example_endpoint1 = 80" "e1_issuer example_endpoint1 = PubEd25519 (replicate 32 65)"
  "e1_node_full_id example_endpoint1 = Some example_node1" 
  "e1_get_url example_endpoint1 False False = Some (url_of False (ascii ''WS2P'') (ascii ''host'') 80 None)"
  by (simp_all add: example_endpoint1_def e1_node_full_id_def e1_get_url_def)

lemma example_turn1_facts [simp]:
  "tn_profile example_turn1 = Debug" "tn_now example_turn1 = 0" "tn_send_ok example_turn1 socket"
  "tn_random_id example_turn1 = 5"
  by (simp_all add: example_turn1_def)

lemma example_db1_loaded:
  "load_db_endpoints False [example_node1 \<mapsto> \<lparr>de_ep = example_endpoint1, de_state = Established, de_last_check = 0\<rparr>] =
     [example_node1 \<mapsto> \<lparr>de_ep = example_endpoint1, de_state = Close, de_last_check = 0\<rparr>]"
  by (auto simp: load_db_endpoints_def)

lemma example_start:
  "\<exists>lp. ws2p1_start example_turn1 (NetworkKeyPair (KeyPairEd25519 [2] [2])) example_conf1 (ascii ''g1'') 3 (ascii ''durs'')
     (ascii ''0.2'') False example_db1 = Some (Inr lp) \<and>
     lp_module lp = (ws2p1_module_new example_conf1 (ascii ''durs'') (ascii ''0.2'') False 3 (KeyPairEd25519 [2] [2]))
       \<lparr>wm_currency := Some (ascii ''g1''), wm_endpoints := [example_node1 \<mapsto>
          \<lparr>de_ep = example_endpoint1, de_state = Close, de_last_check = 0\<rparr>], wm_count_dal_requests := 1,
        wm_router := [MsgRequest ws2p1_name BlockchainDatas 1 (BlockchainRequest ReqCurrentBlockstamp)],
        wm_threads := [example_endpoint1]\<rparr> \<and>
     lp_start_time lp = 0 \<and> lp_last_endpoints_save lp = 0 \<and> lp_last_state_print lp = 0"
proof -
  have nodes: "tn_nodes example_turn1 {example_node1} = [example_node1]" by (simp add: example_turn1_def)
  show ?thesis
    by (simp add: ws2p1_start_def example_conf1_def example_db1_def Let_def example_db1_loaded send_dal_request_def u32_add_def
        nodes connect_to_know_endpoints_def sort_endpoint_def usize_sub_def
        connect_rooms.simps connect_to_without_checking_quotas_def to_router_def ws2p1_module_new_def)
qed

definition example_head_json :: json_value where
  "example_head_json = example_json 1"

definition example_node2 :: node_full_id where
  "example_node2 = (3, PubEd25519 (replicate 32 1))"

definition example_head1 :: "head_v3 network_head" where
  "example_head1 = HeadV2 \<lparr>h2_message = HeadMessageV2 (example_message 1), h2_sig = SigEd25519 (replicate 64 1),
     h2_message_v2 = HeadMessageV2 (example_message 1), h2_sig_v2 = SigEd25519 (replicate 64 1), h2_step = 0, h2_uid = None\<rparr>"

lemma example_head1_read:
  "head_from_json_value toy_codecs (example_head_json) = Some (Inr example_head1)"
  using example_message_parses[of 1]
  by (simp add: head_from_json_value_def example_head_json_def example_json_def json_field_str_def ascii_def toy_codecs_def
      sig_from_base64_def str_base64_to_64bytes_def as_u32_def example_head1_def example_message_def)

lemma example_head1_facts:
  "head_verify (v1_crypto (tn_env example_turn1)) example_head1 = Some True"
  "head_node_full_id example_head1 = Some example_node2"
  "head_pubkey example_head1 = Some (snd example_node2)"
proof -
  obtain s where "head_message_to_string (v1_crypto (tn_env example_turn1)) (HeadMessageV2 (example_message 1)) = Some s"
    using message_prints[of "HeadMessageV2 (example_message 1)"] by (auto simp: printable_def example_message_def)
  then show "head_verify (v1_crypto (tn_env example_turn1)) example_head1 = Some True"
    by (simp add: example_head1_def) (simp add: example_turn1_def example_message_def)
qed (simp_all add: example_head1_def example_message_def head_node_full_id_def example_node2_def)

lemma apply_example_head:
  assumes "wm_my_head m = None" "wm_heads_cache m = Map.empty"
  shows "fold_run (apply_head example_turn1) [example_head_json] ([], m) =
    Some ([example_head1], m\<lparr>wm_heads_cache := [example_node2 \<mapsto> example_head1]\<rparr>)"
proof -
  have "v1_codecs (tn_env example_turn1) = toy_codecs" by (simp add: example_turn1_def)
  then show ?thesis
    using assms example_head1_facts
    by (simp add: apply_head_def example_head1_read head_apply_def)
qed

lemma example_heads_turn:
  "\<exists>lp. ws2p1_run (tn_env example_turn1) lp \<and>
     wm_heads_cache (lp_module lp) example_node2 = Some example_head1"
proof -
  obtain lp where start: "ws2p1_start example_turn1 (NetworkKeyPair (KeyPairEd25519 [2] [2])) example_conf1 (ascii ''g1'') 3
      (ascii ''durs'') (ascii ''0.2'') False example_db1 = Some (Inr lp)"
    and lp: "wm_my_head (lp_module lp) = None" "wm_heads_cache (lp_module lp) = Map.empty"
      "wm_requests_awaiting_response (lp_module lp) = Map.empty" "wm_uids_cache (lp_module lp) = Map.empty"
      "wm_count_dal_requests (lp_module lp) = 1"
      "lp_last_endpoints_save lp = 0" "lp_last_state_print lp = 0"
    using example_start by (auto simp: ws2p1_module_new_def)
  let ?r = "Got (ThreadWsMsg \<lparr>vm_from = example_node1, vm_payload = PayHeads [example_head_json]\<rparr>)"
  have timeouts: "check_timeout_requests example_turn1 (lp_module lp) = Some (lp_module lp)"
    by (simp add: check_timeout_requests_def lp)
  let ?m = "lp_module lp\<lparr>wm_heads_cache := [example_node2 \<mapsto> example_head1]\<rparr>"
  have signal: "ws2p_recv_message_pretreatment example_turn1 \<lparr>vm_from = example_node1, vm_payload = PayHeads [example_head_json]\<rparr>
      (lp_module lp) = Some (SigHeads example_node1 [example_head1], ?m)"
    using apply_example_head[OF lp(1,2)]
    by (simp add: ws2p_recv_message_pretreatment_def timeouts del: fold_run.simps)
  have "\<exists>lp'. loop_turn example_turn1 True ?r lp = Some (Some lp') \<and>
      wm_heads_cache (lp_module lp') example_node2 = Some example_head1"
    by (simp add: loop_turn_def signal treat_signal_def example_head1_facts send_dal_request_def u32_add_def lp to_router_def
        periodic_def elapsed_def send_network_event_def network_event_type_def)
  then show ?thesis using run_start[OF start] run_turn by blast
qed

theorem heads_cache_verified_witness:
  "\<exists>lp. ws2p1_run (tn_env example_turn1) lp \<and> head_node_full_id example_head1 = Some example_node2 \<and>
     head_verify (v1_crypto (tn_env example_turn1)) example_head1 = Some True"
  using example_heads_turn heads_cache_verified by blast

text \<open>
  C28: The responses. At every state of the module, the response that is handed to the module that asked
  for it answers a request that was sent on a websocket, with its identifier and its body, and that
  request no longer waits: it is answered once.
\<close>

theorem response_of_request:
  assumes "ws2p1_run e lp" and "tn_env t = e"
    and "ws2p_recv_message_pretreatment t msg (lp_module lp) = Some (SigReqResponse who body node response, m)"
  shows "\<exists>i. vm_payload msg = PayReqResponse i response \<and> request_sent e i body (lp_module lp) \<and>
    wm_requests_awaiting_response m i = None"
proof -
  obtain m1 where m1: "check_timeout_requests t (lp_module lp) = Some m1"
    using assms(3) by (auto simp: ws2p_recv_message_pretreatment_def split: bind_splits)
  note run = assms(3)[unfolded ws2p_recv_message_pretreatment_def m1 bind.bind_lunit Let_def]
  obtain i r where i: "vm_payload msg = PayReqResponse i response" "wm_requests_awaiting_response m1 i = Some r"
      "pr_req_body r = body" "m = m1\<lparr>wm_requests_awaiting_response := (wm_requests_awaiting_response m1)(i := None)\<rparr>"
    using run by (cases "vm_payload msg")
      (auto simp: no_connection_signal_def ws_send_def split: bind_splits option.splits if_splits)
  have "wm_requests_awaiting_response (lp_module lp) i = Some r"
    using frame_timeouts[OF m1] i(2) by (auto simp: frame_def map_le_def dom_def)
  then have "request_sent e i body (lp_module lp)"
    using run_module_ok[OF assms(1)] i(3) unfolding module_ok_def requests_ok_def by blast
  then show ?thesis using i by auto
qed

lemma example_established_run:
  "\<exists>lp. ws2p1_run (tn_env example_turn1) lp \<and> wm_requests_awaiting_response (lp_module lp) =
     [5 \<mapsto> \<lparr>pr_requester_module = (ws2p1_name, 0), pr_req_body = ReqGetCurrent, pr_recipient_node = example_node1,
       pr_timestamp = 0\<rparr>]"
proof -
  obtain lp where start: "ws2p1_start example_turn1 (NetworkKeyPair (KeyPairEd25519 [2] [2])) example_conf1 (ascii ''g1'') 3
      (ascii ''durs'') (ascii ''0.2'') False example_db1 = Some (Inr lp)"
    and lp: "wm_websockets (lp_module lp) = Map.empty" "wm_endpoints (lp_module lp) = [example_node1 \<mapsto>
          \<lparr>de_ep = example_endpoint1, de_state = Close, de_last_check = 0\<rparr>]"
      "wm_requests_awaiting_response (lp_module lp) = Map.empty" "wm_uids_cache (lp_module lp) = Map.empty"
      "wm_count_dal_requests (lp_module lp) = 1"
      "lp_last_endpoints_save lp = 0" "lp_last_state_print lp = 0"
    using example_start by (auto simp: ws2p1_module_new_def)
  let ?r1 = "Got (ThreadWsMsg \<lparr>vm_from = example_node1, vm_payload = PayWebsocketOk 4\<rparr>)"
  let ?r2 = "Got (ThreadWsMsg \<lparr>vm_from = example_node1, vm_payload = PayValidOk Established\<rparr>)"
  have timeouts: "check_timeout_requests example_turn1 m = Some m" if "wm_requests_awaiting_response m = Map.empty"
    for m :: "nat ws2p1_module"
    using that by (simp add: check_timeout_requests_def)
  let ?m = "lp_module lp\<lparr>wm_websockets := [example_node1 \<mapsto> 4]\<rparr>"
  have turn1: "loop_turn example_turn1 True ?r1 lp = Some (Some (lp\<lparr>lp_module := ?m\<rparr>))"
    by (simp add: loop_turn_def ws2p_recv_message_pretreatment_def timeouts lp no_connection_signal_def treat_signal_def
        periodic_def elapsed_def)
  have "\<exists>lp'. loop_turn example_turn1 True ?r2 (lp\<lparr>lp_module := ?m\<rparr>) = Some (Some lp') \<and>
      wm_requests_awaiting_response (lp_module lp') = [5 \<mapsto> \<lparr>pr_requester_module = (ws2p1_name, 0),
        pr_req_body = ReqGetCurrent, pr_recipient_node = example_node1, pr_timestamp = 0\<rparr>]"
    by (simp add: loop_turn_def ws2p_recv_message_pretreatment_def timeouts lp set_ep_state_def update_endpoint_def
        treat_signal_def as_u32_def send_request_to_specific_node_def ws_send_def send_dal_request_def u32_add_def
        to_router_def send_state_change_def state_change_event_def send_network_event_def network_event_type_def
        periodic_def elapsed_def Let_def)
  then show ?thesis using run_turn[OF run_turn[OF run_start[OF start] refl turn1] refl] by blast
qed

theorem response_of_request_witness:
  "\<exists>lp :: nat ws2p1_loop. ws2p1_run (tn_env example_turn1) lp \<and>
     request_sent (tn_env example_turn1) 5 ReqGetCurrent (lp_module lp)"
proof -
  obtain lp where run: "ws2p1_run (tn_env example_turn1) lp" and lp: "wm_requests_awaiting_response (lp_module lp) =
      [5 \<mapsto> \<lparr>pr_requester_module = (ws2p1_name, 0), pr_req_body = ReqGetCurrent, pr_recipient_node = example_node1,
       pr_timestamp = 0\<rparr>]"
    using example_established_run by blast
  obtain m where "ws2p_recv_message_pretreatment example_turn1
      \<lparr>vm_from = example_node1, vm_payload = PayReqResponse 5 JNull\<rparr> (lp_module lp) =
      Some (SigReqResponse (ws2p1_name, 0) ReqGetCurrent example_node1 JNull, m)"
    by (simp add: ws2p_recv_message_pretreatment_def check_timeout_requests_def lp)
  from response_of_request[OF run refl this] show ?thesis using run by auto
qed

section \<open>The quota of connections\<close>

text \<open>Every endpoint is stored under the node that it names, and no key has two of them.\<close>

definition endpoints_keyed :: "'f ws2p1_module \<Rightarrow> bool" where
  "endpoints_keyed m \<longleftrightarrow> (\<forall>node ep. wm_endpoints m node = Some ep \<longrightarrow> e1_node_full_id (de_ep ep) = Some node)"

definition one_node_by_key :: "'f ws2p1_module \<Rightarrow> bool" where
  "one_node_by_key m \<longleftrightarrow> (\<forall>node node' ep ep'. wm_endpoints m node = Some ep \<and> wm_endpoints m node' = Some ep' \<and>
     e1_issuer (de_ep ep) = e1_issuer (de_ep ep') \<longrightarrow> node = node')"

definition waiting_endpoints :: "'f ws2p1_module \<Rightarrow> endpoint_v1 set" where
  "waiting_endpoints m = {de_ep ep | node ep. wm_endpoints m node = Some ep \<and> de_state ep \<noteq> Established}"

lemma waitingI: "wm_endpoints m node = Some ep \<Longrightarrow> de_state ep \<noteq> Established \<Longrightarrow> de_ep ep \<in> waiting_endpoints m"
  unfolding waiting_endpoints_def by blast

lemma sort_endpoint_one:
  assumes "sort_endpoint m node tt = Some tt'"
  shows "\<exists>ep. wm_endpoints m node = Some ep \<and> tt_pubkeys tt' \<subseteq> insert (e1_issuer (de_ep ep)) (tt_pubkeys tt) \<and>
    (e1_issuer (de_ep ep) \<notin> tt_pubkeys tt \<longrightarrow>
       tt_established tt' = tt_established tt + (if node_established m node then 1 else 0)) \<and>
    set (tt_reachable tt') \<union> set (tt_unreachable tt') \<subseteq>
      set (tt_reachable tt) \<union> set (tt_unreachable tt) \<union> waiting_endpoints m"
proof -
  obtain ep where ep: "wm_endpoints m node = Some ep"
    using assms by (auto simp: sort_endpoint_def split: bind_splits)
  show ?thesis
    using assms waitingI[OF ep]
    by (auto simp: sort_endpoint_def Let_def node_established_def ep split: bind_splits if_splits)
qed

lemma sort_endpoints_waiting:
  assumes "fold_run (sort_endpoint m) nodes tt = Some tt'"
  shows "set (tt_reachable tt') \<union> set (tt_unreachable tt') \<subseteq>
    set (tt_reachable tt) \<union> set (tt_unreachable tt) \<union> waiting_endpoints m"
  using assms
proof (induction nodes arbitrary: tt)
  case (Cons node nodes)
  then obtain tt1 where tt1: "sort_endpoint m node tt = Some tt1" "fold_run (sort_endpoint m) nodes tt1 = Some tt'"
    by (auto split: bind_splits)
  show ?case using Cons.IH[OF tt1(2)] sort_endpoint_one[OF tt1(1)] by blast
qed simp

lemma sort_endpoints_count:
  assumes "fold_run (sort_endpoint m) nodes tt = Some tt'" "distinct nodes" "one_node_by_key m"
    and "\<And>node ep. node \<in> set nodes \<Longrightarrow> wm_endpoints m node = Some ep \<Longrightarrow> e1_issuer (de_ep ep) \<notin> tt_pubkeys tt"
  shows "tt_established tt' = tt_established tt + length (filter (node_established m) nodes)"
  using assms
proof (induction nodes arbitrary: tt)
  case (Cons node nodes)
  then obtain tt1 where tt1: "sort_endpoint m node tt = Some tt1" "fold_run (sort_endpoint m) nodes tt1 = Some tt'"
    by (auto split: bind_splits)
  from sort_endpoint_one[OF tt1(1)] obtain ep where ep: "wm_endpoints m node = Some ep"
      "tt_pubkeys tt1 \<subseteq> insert (e1_issuer (de_ep ep)) (tt_pubkeys tt)"
      "e1_issuer (de_ep ep) \<notin> tt_pubkeys tt \<longrightarrow>
         tt_established tt1 = tt_established tt + (if node_established m node then 1 else 0)"
    by blast
  have fresh: "e1_issuer (de_ep ep') \<notin> tt_pubkeys tt1"
    if "node' \<in> set nodes" "wm_endpoints m node' = Some ep'" for node' ep'
  proof -
    have "e1_issuer (de_ep ep') \<noteq> e1_issuer (de_ep ep)"
      using Cons.prems(2,3) that ep(1) unfolding one_node_by_key_def by (metis distinct.simps(2))
    then show ?thesis using Cons.prems(4)[of node' ep'] that ep(2) by auto
  qed
  have "tt_established tt1 = tt_established tt + (if node_established m node then 1 else 0)"
    using ep(3) Cons.prems(4)[OF _ ep(1)] by simp
  then show ?case using Cons.IH[OF tt1(2) _ Cons.prems(3) fresh] Cons.prems(2) by simp
qed simp

lemma connect_one:
  assumes "connect_to_without_checking_quotas node m = Some m'"
  shows "\<exists>ep. wm_endpoints m node = Some ep \<and> wm_threads m' = wm_threads m @ [de_ep ep] \<and> wm_endpoints m' = wm_endpoints m"
  using assms by (auto simp: connect_to_without_checking_quotas_def split: bind_splits)

lemma connect_waiting:
  assumes "e1_node_full_id ep = Some node" "connect_to_without_checking_quotas node m = Some m'"
    and "ep \<in> waiting_endpoints m" "endpoints_keyed m"
  shows "wm_threads m' = wm_threads m @ [ep] \<and> wm_endpoints m' = wm_endpoints m"
proof -
  obtain node' dal_ep where "wm_endpoints m node' = Some dal_ep" "ep = de_ep dal_ep"
    using assms(3) by (auto simp: waiting_endpoints_def)
  then show ?thesis using connect_one[OF assms(2)] assms(1,4) unfolding endpoints_keyed_def by fastforce
qed

lemma connect_rooms_new:
  assumes "connect_rooms rooms reachable unreachable m = Some m'" "endpoints_keyed m"
    "set reachable \<union> set unreachable \<subseteq> waiting_endpoints m"
  shows "\<exists>new. wm_threads m' = wm_threads m @ new \<and> length new \<le> rooms \<and> set new \<subseteq> waiting_endpoints m"
  using assms
proof (induction rooms reachable unreachable m rule: connect_rooms.induct)
  case (1 rooms reachable unreachable m)
  have step: ?case
    if ep: "ep \<in> waiting_endpoints m" "e1_node_full_id ep = Some node" "rooms \<noteq> 0"
      "connect_to_without_checking_quotas node m = Some m1"
      and IH: "endpoints_keyed m1 \<Longrightarrow> waiting_endpoints m1 = waiting_endpoints m \<Longrightarrow>
        \<exists>new. wm_threads m' = wm_threads m1 @ new \<and> length new \<le> rooms - 1 \<and> set new \<subseteq> waiting_endpoints m1"
    for ep node m1
  proof -
    have m1: "wm_threads m1 = wm_threads m @ [ep]" "wm_endpoints m1 = wm_endpoints m"
      using connect_waiting[OF ep(2,4,1)] 1(4) by auto
    then have "endpoints_keyed m1" "waiting_endpoints m1 = waiting_endpoints m"
      using 1(4) by (simp_all add: endpoints_keyed_def waiting_endpoints_def)
    then obtain new where "wm_threads m' = wm_threads m1 @ new" "length new \<le> rooms - 1" "set new \<subseteq> waiting_endpoints m"
      using IH by auto
    then show ?thesis using m1 ep(1,3) by (intro exI[of _ "ep # new"]) auto
  qed
  consider "rooms = 0 \<or> reachable = [] \<and> unreachable = []" | "rooms \<noteq> 0" "reachable \<noteq> []"
    | "rooms \<noteq> 0" "reachable = []" "unreachable \<noteq> []" by auto
  then show ?case
  proof cases
    case 1
    then show ?thesis using "1.prems"(1) by (subst (asm) connect_rooms.simps) (auto split: if_splits)
  next
    case 2
    then obtain node m1 where run: "e1_node_full_id (last reachable) = Some node"
        "connect_to_without_checking_quotas node m = Some m1"
        "connect_rooms (rooms - 1) (butlast reachable) unreachable m1 = Some m'"
      using "1.prems"(1) by (subst (asm) connect_rooms.simps) (auto split: bind_splits)
    have "last reachable \<in> waiting_endpoints m" "set (butlast reachable) \<union> set unreachable \<subseteq> waiting_endpoints m"
      using 2 "1.prems"(3) by (auto dest: in_set_butlastD)
    note sub = this
    show ?thesis
      by (rule step[OF sub(1) run(1) 2(1) run(2)], rule "1.IH"(1)[OF 2 run]) (use sub(2) in auto)
  next
    case 3
    then obtain node m1 where run: "e1_node_full_id (last unreachable) = Some node"
        "connect_to_without_checking_quotas node m = Some m1"
        "connect_rooms (rooms - 1) reachable (butlast unreachable) m1 = Some m'"
      using "1.prems"(1) by (subst (asm) connect_rooms.simps) (auto split: bind_splits)
    have "last unreachable \<in> waiting_endpoints m" "set reachable \<union> set (butlast unreachable) \<subseteq> waiting_endpoints m"
      using 3 "1.prems"(3) by (auto dest: in_set_butlastD)
    note sub = this
    show ?thesis
      by (rule step[OF sub(1) run(1) 3(1) run(2)], rule "1.IH"(2)[OF 3(1) _ 3(3) run]) (use sub(2) 3(2) in auto)
  qed
qed

text \<open>
  C29: The quota. When no key has two known nodes and arithmetic is checked, a wave of connections opens
  connections to endpoints that are known and not established, and with them the established
  connections are at most as many as the quota. The order of the endpoints in the table is the
  iteration of a map, and the sort is a permutation.
\<close>

theorem connection_rooms:
  assumes "connect_to_know_endpoints t m = Some m'" and "tn_profile t = Debug"
    and "endpoints_keyed m" and "one_node_by_key m"
    and "set (tn_nodes t (dom (wm_endpoints m))) = dom (wm_endpoints m)" and "distinct (tn_nodes t (dom (wm_endpoints m)))"
    and "\<And>cmp eps. set (tn_sort t cmp eps) = set eps"
  shows "\<exists>new. wm_threads m' = wm_threads m @ new \<and> set new \<subseteq> waiting_endpoints m \<and>
    length new + card {node. node_established m node} \<le> w1_outcoming_quota (wm_conf m)"
proof -
  let ?nodes = "tn_nodes t (dom (wm_endpoints m))"
  obtain tt rooms where tt: "fold_run (sort_endpoint m) ?nodes
      \<lparr>tt_established = 0, tt_pubkeys = {}, tt_reachable = [], tt_unreachable = []\<rparr> = Some tt"
    and rooms: "usize_sub Debug (w1_outcoming_quota (wm_conf m)) (tt_established tt) = Some rooms"
    and run: "connect_rooms rooms (if w1_prefered_pubkeys (wm_conf m) = {} then tt_reachable tt
       else tn_sort t (compare_prefered (w1_prefered_pubkeys (wm_conf m))) (tt_reachable tt)) (tt_unreachable tt) m = Some m'"
    using assms(1,2) by (auto simp: connect_to_know_endpoints_def Let_def split: bind_splits)
  have "length (filter (node_established m) ?nodes) = card (set (filter (node_established m) ?nodes))"
    by (rule distinct_card[symmetric]) (simp add: assms(6))
  moreover have "set (filter (node_established m) ?nodes) = {node. node_established m node}"
    using assms(5) by (auto simp: node_established_def split: option.splits)
  ultimately have "tt_established tt = card {node. node_established m node}"
    using sort_endpoints_count[OF tt assms(6,4)] by simp
  moreover have "rooms + tt_established tt \<le> w1_outcoming_quota (wm_conf m)"
    using rooms by (auto simp: usize_sub_def split: if_splits)
  moreover obtain new where "wm_threads m' = wm_threads m @ new" "length new \<le> rooms" "set new \<subseteq> waiting_endpoints m"
    using connect_rooms_new[OF run assms(3)] sort_endpoints_waiting[OF tt] assms(7) by (cases "w1_prefered_pubkeys (wm_conf m) = {}") auto
  ultimately show ?thesis by force
qed

definition example_module1 :: "nat \<Rightarrow> (node_full_id \<rightharpoonup> db_endpoint) \<Rightarrow> nat ws2p1_module" where
  "example_module1 quota eps = (ws2p1_module_new (example_conf1\<lparr>w1_outcoming_quota := quota\<rparr>) (ascii ''durs'') (ascii ''0.2'')
     False 3 (KeyPairEd25519 [2] [2]))\<lparr>wm_currency := Some (ascii ''g1''), wm_endpoints := eps\<rparr>"

lemma example_module1_facts [simp]:
  "wm_endpoints (example_module1 quota eps) = eps" "wm_threads (example_module1 quota eps) = []"
  "wm_conf (example_module1 quota eps) = example_conf1\<lparr>w1_outcoming_quota := quota\<rparr>"
  "wm_key_pair (example_module1 quota eps) = KeyPairEd25519 [2] [2]" "wm_ssl (example_module1 quota eps) = False"
  "wm_currency (example_module1 quota eps) = Some (ascii ''g1'')"
  by (simp_all add: example_module1_def ws2p1_module_new_def)

theorem connection_rooms_witness:
  "\<exists>m' new. connect_to_know_endpoints example_turn1 (example_module1 2 [example_node1 \<mapsto>
      \<lparr>de_ep = example_endpoint1, de_state = Close, de_last_check = 0\<rparr>]) = Some m' \<and> wm_threads m' = new \<and> length new \<le> 2"
proof -
  let ?m = "example_module1 2 [example_node1 \<mapsto> \<lparr>de_ep = example_endpoint1, de_state = Close, de_last_check = 0\<rparr>]"
  have nodes: "tn_nodes example_turn1 {example_node1} = [example_node1]" by (simp add: example_turn1_def)
  obtain m' where run: "connect_to_know_endpoints example_turn1 ?m = Some m'"
    by (simp add: connect_to_know_endpoints_def sort_endpoint_def usize_sub_def nodes example_conf1_def
        connect_rooms.simps connect_to_without_checking_quotas_def)
  have "endpoints_keyed ?m" "one_node_by_key ?m"
    by (simp_all add: endpoints_keyed_def one_node_by_key_def)
  moreover have "\<And>cmp eps. set (tn_sort example_turn1 cmp eps) = set eps" by (simp add: example_turn1_def)
  ultimately obtain new where "wm_threads m' = wm_threads ?m @ new"
      "length new + card {node. node_established ?m node} \<le> w1_outcoming_quota (wm_conf ?m)"
    using connection_rooms[OF run] nodes by auto
  then show ?thesis using run by (auto simp: example_conf1_def)
qed

text \<open>
  With two nodes of one key the established one is not counted when the other comes first in the
  iteration: with a quota of one connection a second one is opened.
\<close>

lemma quota_exceeded:
  assumes "tn_nodes t {example_node1, (8, PubEd25519 (replicate 32 65))} = [example_node1, (8, PubEd25519 (replicate 32 65))]"
  shows "\<exists>m'. connect_to_know_endpoints t (example_module1 1 [example_node1 \<mapsto>
      \<lparr>de_ep = example_endpoint1, de_state = Close, de_last_check = 0\<rparr>, (8, PubEd25519 (replicate 32 65)) \<mapsto>
      \<lparr>de_ep = example_endpoint1\<lparr>e1_node_id := Some 8\<rparr>, de_state = Established, de_last_check = 0\<rparr>]) = Some m' \<and>
    wm_threads m' = [example_endpoint1]"
proof -
  have dom: "dom [example_node1 \<mapsto> a, (8, PubEd25519 (replicate 32 65)) \<mapsto> b] =
      {example_node1, (8, PubEd25519 (replicate 32 65))}" for a b :: db_endpoint
    by auto
  have "length (replicate 32 (65 :: nat)) \<noteq> length [2 :: nat]" by simp
  then have "replicate 32 (65 :: nat) \<noteq> [2]" by metis
  then show ?thesis
    using assms
    by (simp add: connect_to_know_endpoints_def dom sort_endpoint_def usize_sub_def example_conf1_def
        connect_rooms.simps connect_to_without_checking_quotas_def insert_commute Let_def)
qed

text \<open>A quota below the number of established connections stops the module where arithmetic is checked.\<close>

lemma quota_underflow:
  assumes "fold_run (sort_endpoint m) (tn_nodes t (dom (wm_endpoints m)))
      \<lparr>tt_established = 0, tt_pubkeys = {}, tt_reachable = [], tt_unreachable = []\<rparr> = Some tt"
    and "tn_profile t = Debug" "w1_outcoming_quota (wm_conf m) < tt_established tt"
  shows "connect_to_know_endpoints t m = None"
  using assms by (simp add: connect_to_know_endpoints_def usize_sub_def)

section \<open>What the nodes are sent\<close>

text \<open>
  The heads sent. The text with which a node announces its own head is well formed JSON that no node
  running this module reads: the name of the message is beside its body, where it is looked for inside.
\<close>

theorem sent_head_rejected:
  assumes "head_json_message t head = Some v"
  shows "parse_and_check_incoming_message e currency key_pair v m = Some (PayWrongFormatMessage, m)"
  using assms
  by (auto simp: head_json_message_def parse_and_check_incoming_message_def check_auth_def field_str_def check_body_def
      split: bind_splits)

theorem sent_head_rejected_witness:
  "\<exists>v. head_json_message example_turn1 example_head1 = Some v \<and>
     parse_and_check_incoming_message example_env1 (ascii ''g1'') (KeyPairEd25519 [2] [2]) v (example_meta Established []) =
     Some (PayWrongFormatMessage, example_meta Established [])"
proof -
  obtain s where "head_message_to_string (v1_crypto (tn_env example_turn1)) (HeadMessageV2 (example_message 1)) = Some s"
    using message_prints[of "HeadMessageV2 (example_message 1)"] by (auto simp: printable_def example_message_def)
  then obtain v where "head_json_message example_turn1 example_head1 = Some v"
    by (auto simp: head_json_message_def example_head1_def u32_add_def)
  then show ?thesis using sent_head_rejected by blast
qed

text \<open>
  The acknowledgement received after the confirmation ends a negotiation without a word: no confirmation
  is sent, and no connection is announced.
\<close>

lemma late_ack:
  assumes "ws2p_recv_message_pretreatment t \<lparr>vm_from = node, vm_payload = PayValidAckMessage response Established\<rparr> m =
    Some (signal, m')"
  shows "signal \<in> {SigEmpty, SigNoConnection} \<and> wm_ws_calls m' = wm_ws_calls m"
  using assms
  by (auto simp: ws2p_recv_message_pretreatment_def set_ep_state_def update_endpoint_def check_timeout_requests_def
      no_connection_signal_def split: bind_splits option.splits if_splits)

text \<open>The blocks that the databases return for the requests of a node are sent to no one.\<close>

lemma blocks_not_sent:
  "v1_receive_response t i (BlockchainResponse (ResBlocks blocks)) m = Some m"
  "v1_receive_response t i (BlockchainResponse (ResBlockByNumber block)) m = Some m"
  by (simp_all add: v1_receive_response_def)

text \<open>Nothing is sent to the nodes that come after the first whose websocket fails.\<close>

lemma send_to_all_stops:
  assumes "wm_websockets m node = Some socket" "\<not> tn_send_ok t socket"
  shows "wm_ws_calls (send_to_all t s (node # nodes) m) = wm_ws_calls m @ [(socket, CallSend s)]"
  using assms by (simp add: ws_send_def)

text \<open>No text of features is read: a known feature is added to the first element of an empty vector.\<close>

lemma features_never_read: "v1_parse_raw_api_features p s \<noteq> Some (Inr fs)"
proof (cases "split_on 32 s")
  case Nil
  then show ?thesis by (simp add: split_on_nonempty)
next
  case (Cons t ts)
  then show ?thesis by (simp add: v1_parse_raw_api_features_def)
qed

end
