(* ===== verification/Spec2Isabelle.thy ===== *)
theory Spec2Isabelle
  imports Wot_Distance Wot_Path Wot_File Bc_Module Bc_Invariant Ws2p_Negotiation Ws2p_Module Core_Router Core_Conf Block_Parsers Rules_Engine Ws2p1_Invariant
begin

text \<open>
  A verification development for Duniter-rs, the Rust node of the Duniter currencies. A node keeps
  a web of trust (members certify one another), a blockchain that records the identities, the
  certifications and the transactions of the currency, and connections to the other nodes over
  which blocks, peer cards and heads travel.

  \<^bold>\<open>How the program is put together.\<close> The node starts a router and a thread for each module
  (\<open>lib/core/core\<close>); the modules exchange requests, responses and events through the router
  and do not share memory. The blockchain module (\<open>lib/modules/blockchain\<close>) owns the databases:
  it receives blocks, checks them, applies them to the databases, to the graph of the web of trust
  (\<open>lib/tools/wot\<close>) and to a tree of the recent branches (the fork tree), and chooses between
  branches. The module WS2P (\<open>lib/modules/ws2p\<close>) negotiates connections with other nodes and
  exchanges signed messages with them; the module of the first version of that protocol
  (\<open>lib/modules/ws2p-v1-legacy\<close>) does so with JSON texts, and is the one that asks the other nodes for
  blocks. They rest on the documents of the protocol
  (\<open>lib/tools/documents\<close>, \<open>lib/tools/network-documents\<close>) and on keys, signatures and hashes
  (\<open>lib/tools/crypto\<close>).

  \<^bold>\<open>Conventions.\<close>
  \<^item> A computation that may panic has the type \<open>'a run\<close>, an option: \<open>None\<close> is a panic
    (an \<open>unwrap\<close>, an index out of range, an overflow of a debug build, \<open>fatal_error!\<close>,
    \<open>unimplemented!\<close>). A \<open>Result\<close> is a sum whose left side is the error, an \<open>Option\<close> is an
    option inside the run. The operator \<open>?\<close> is \<open>try_then\<close>; a function that mutates its receiver
    and returns a \<open>Result\<close> returns both (\<open>and_then\<close>, \<open>fold_res\<close>).
  \<^item> Unsigned integers are natural numbers with operations parametrised by their width and by the
    build profile (\<open>Debug\<close> panics on overflow, \<open>Release\<close> wraps); bit sets and encodings use
    words and the bitwise operations. Texts are lists of code points, with the decimal and
    hexadecimal printing and parsing of the standard library written out in Prelude.
  \<^item> A hash map is a map or a finite set of entries, with the order of its iteration a parameter
    where the code depends on it; a vector updated in place is a list with the bounds checks of
    the code.
  \<^item> Code that is not in the repository is an argument: the primitives of ed25519 and SHA-256 and
    the base 16, 58 and 64 codecs (the record \<open>crypto\<close> and the codecs of Signables), the parse
    trees of the crate pest (Pest), the bincode layout of the messages, the crates byteorder,
    rustbreak and serde_json, the comparison of floating point numbers, the clock, the random
    numbers and the channels. The properties that need something of them name it as a hypothesis
    (a signature made with a key verifies under it, decoding undoes encoding), and their
    witnesses give a concrete function that satisfies it.

  \<^bold>\<open>The theories, from the bottom.\<close>
  \<^item> Prelude: runs, results, folds that may fail, machine integers, texts and numbers.
  \<^item> Blockstamps (\<open>lib/tools/crypto/src/hashs/mod.rs\<close>, \<open>lib/tools/documents/src/blockstamp.rs\<close>):
    hashes and blockstamps with their orders (instances of \<open>linorder\<close>), printing and parsing.
  \<^item> Documents and Signables (\<open>lib/tools/crypto/src\<close>, the identity, membership, certification and
    revocation documents of \<open>lib/tools/documents\<close>): keys, the traits that sign texts and binary
    messages, texts and compact texts. The locales \<open>text_message\<close> and \<open>binary_message\<close> state what
    a signable type owes the trait: setting a signature does not change the signed body. They are
    interpreted on the peer cards, on the heads (Network_Peers) and on the messages of WS2P
    (Ws2p_Messages).
  \<^item> Transactions, Block_Document (\<open>transaction.rs\<close>, \<open>block.rs\<close>): unlocking scripts and
    conditions, transaction and block documents, inner hash, proof of work, signature.
  \<^item> Wot_Interface (\<open>lib/tools/wot/data/mod.rs\<close>): the trait WebOfTrust as a record of operations
    and two locales that state what a provider promises; Rusty_Wot (\<open>data/rusty.rs\<close>) is the
    provider and interprets them; Wot_Distance, Wot_Path and Wot_File
    (\<open>operations/distance.rs\<close>, \<open>operations/path.rs\<close>, \<open>operations/file.rs\<close>) are its users: the
    distance rule against reachability in the graph, shortest paths, and the file format.
  \<^item> Fork_Tree (\<open>blockchain-dal/src/entities/fork_tree.rs\<close>): the arena of nodes with its
    invariant, insertion, pruning, change of the main branch.
  \<^item> Dal_Identities, Dal_Sources, Dal_Blocks (\<open>blockchain-dal/src\<close>): the databases of identities
    and certifications, of sources, balances and dividends, and of blocks; their requests,
    writers and readers.
  \<^item> Bc_Apply (\<open>dubp/mod.rs\<close>, \<open>dubp/check\<close>, \<open>dubp/apply\<close> under \<open>lib/modules/blockchain/blockchain/src\<close>),
    Bc_Fork (\<open>fork/fork_algo.rs\<close>, \<open>fork/revert_block.rs\<close>, \<open>fork/rollback.rs\<close>, \<open>fork/stackable_blocks.rs\<close>,
    \<open>dunp/receiver.rs\<close>) and Bc_Module (\<open>dunp/queries.rs\<close>, \<open>requests\<close>, \<open>responses\<close>, \<open>events\<close>, the turns of the
    main loop): the blockchain module. Bc_Invariant proves the invariant of the whole module over
    every state it reaches (\<open>module_reach\<close>).
  \<^item> Rules_Engine (\<open>lib/tools/rules-engine\<close>): rules with their versions, groups applied one after the
    other or in parallel, and the agreement of the two. Document_Parsers (the parsers of
    \<open>lib/tools/documents/src/documents\<close>), Json_Parser (\<open>lib/tools/json-pest-parser\<close>) and Block_Parsers
    (\<open>lib/tools/documents/src/parsers\<close>): the reading of documents, of JSON values and of blocks.
  \<^item> Pest, Network_Documents, Network_Heads, Network_Peers (\<open>lib/tools/network-documents/src\<close>):
    node identifiers, endpoints, heads and peer cards, their texts, their reading, the cache of
    the best heads.
  \<^item> Core_Modules (\<open>lib/core/module\<close>, \<open>lib/core/message\<close>), Core_Router (\<open>lib/core/core/src/router.rs\<close>),
    Core_Conf (\<open>lib/core/conf\<close>): the messages and filters of the modules, the two threads of the
    router, the configuration of a profile.
  \<^item> Ws2p_Messages (\<open>ws2p-messages\<close>), Ws2p_Protocol (\<open>ws2p-protocol\<close>), Ws2p_Handler and
    Ws2p_Module (\<open>ws2p/src\<close>): the features and the signed messages, the state machine of one
    connection, the handler of a websocket with its timers, the orchestrator. Ws2p_Negotiation
    runs two such machines against each other (\<open>conn_run\<close>).
  \<^item> Ws2p1_Json (\<open>parsers\<close> and \<open>serializers\<close> of \<open>ws2p-v1-legacy/src\<close>): blocks and documents as JSON.
    Ws2p1_Messages (\<open>connect_message.rs\<close>, \<open>ack_message.rs\<close>, \<open>ok_message.rs\<close>, \<open>ws_connections/meta_datas.rs\<close>,
    \<open>ws_connections/handler.rs\<close>): the negotiation and the handler of a websocket. Ws2p1_Module
    (\<open>ws_connections/mod.rs\<close>, \<open>ws_connections/messages.rs\<close>, \<open>lib.rs\<close> and the files of the requests,
    responses and events): the state of the module, the operations on it, the turns of its main
    loop. Ws2p1_Invariant: the states it reaches (\<open>ws2p1_run\<close>) and what holds of them.

  \<^bold>\<open>What the lemmas show.\<close>
  \<^item> Structures: the arena of the fork tree keeps its invariant under every operation and never
    panics from it (\<open>fork_tree_inv\<close>, \<open>fork_reach\<close>), the graph of the web of trust keeps its two
    link sets in accord, the cache of heads keeps the best head of each node.
  \<^item> The blockchain: a block that is accepted extends the current one, the local chain has no gaps,
    the index of members follows the database of identities, a branch is chosen only if it is
    ahead by the required number of blocks and of seconds, a refused block leaves what it had
    already changed, orphans are adopted as soon as their parent arrives.
  \<^item> Round trips: endpoints, heads, blockstamps, files of the web of trust, messages; a document
    that is signed verifies.
  \<^item> The connections: a connection is established only with a peer that has proved its key and
    has acknowledged ours, two nodes that follow the protocol do establish it, and the cases in
    which the code panics or closes the connection. In the first version of the protocol the key
    that acknowledges is any key and the challenge a constant, so that a recorded session is
    accepted by every node.
  \<^item> The module of the first version: the cached heads verify under the node that they name, a
    response is handed over once and only for a request that was sent (\<open>module_ok\<close>, kept by every
    operation through the relation \<open>frame\<close>), the quota of connections and when it is exceeded, what
    a block and a request become on the other side.
  \<^item> The router and the configuration: each module receives the messages of its role, a profile
    that is created loads back.

  \<^bold>\<open>Bounds and loops.\<close> The fork window is 200 blocks (\<open>fork_window_size\<close>): the tree never
  holds nodes more than that many blocks below the best one, which is proved from the pruning at
  each insertion. The removal of a subtree uses as fuel the length of the vector of nodes; a
  lemma shows that it reaches every descendant, since each step frees a node. The loops of the
  program that may not end are partial functions in the option monad, so that not returning is
  \<open>None\<close>: the climb to a root (\<open>climb\<close>), the deletion of old forks (\<open>write_fork_block\<close>), the reading
  of a chain of blocks (\<open>blocks_from\<close>), the reversal of a branch (\<open>revert_branch\<close>), the application of stackable
  blocks (\<open>apply_stackable_blocks\<close>), the search of a free request number (\<open>free_req_id\<close>) and
  the splitting of a request in chunks (\<open>request_chunks\<close>). The properties that rest on them
  prove that they return from the states the module reaches, or take it as a hypothesis that the
  result exists only where the property is about that result.

  \<^bold>\<open>Not modelled.\<close> The generated parsers and derived serde codecs; opening and saving the
  database files (rustbreak) and the file of the endpoints; the websockets and the threads
  themselves, whose calls are recorded in the state; the explorer of the databases, the terminal
  interface, the start of the node, the command line and the skeleton module (input, output and
  argument parsing); the worker threads of the initial synchronization; the centrality and the
  statistics, which no other part uses to decide anything.
\<close>

end
